(* ===== verification/Prelude.thy ===== *)
theory Prelude
  imports Main "HOL-Library.Word" "HOL-Library.Monad_Syntax" "HOL-Library.Multiset"
begin

section \<open>Prelude: C integers, C characters and shared list lemmas\<close>

text \<open>
  What every component shares: the conversions between C integer types, the value of a
  C \<open>char\<close> (signed on the supported platform), the decimal text that \<open>printf\<close> writes
  for an integer, and generic lemmas on lists and options.

  A C string is a \<open>string\<close> without its terminating NUL: the end of the list is the
  terminator, so a read of \<open>'\0'\<close> in the source is the case \<open>[]\<close> of the model.
  Binary data is a list of bytes, \<open>u8 list\<close>.
\<close>

named_theorems c_conv \<open>conversions between C integer types that keep the value\<close>

type_synonym u8 = "8 word"
type_synonym u16 = "16 word"
type_synonym u32 = "32 word"
type_synonym u64 = "64 word"

subsection \<open>Conversions between C integer types\<close>

text \<open>
  The conversion of a wider integer to \<open>int\<close> keeps the low 32 bits and reads them as
  two's complement (what every supported compiler does).
\<close>

definition c_int :: "int \<Rightarrow> int" where
  "c_int x = signed_take_bit 31 x"

definition in_int :: "int \<Rightarrow> bool" where
  "in_int x \<longleftrightarrow> - (2 ^ 31) \<le> x \<and> x < 2 ^ 31"

lemma c_int_id [c_conv]: "in_int x \<Longrightarrow> c_int x = x"
  by (simp add: c_int_def in_int_def signed_take_bit_int_eq_self_iff)

lemma c_int_range: "in_int (c_int x)"
  using signed_take_bit_int_greater_eq_minus_exp [of 31 x]
    signed_take_bit_int_less_exp [of 31 x]
  by (simp add: c_int_def in_int_def)

lemma c_int_0 [simp]: "c_int 0 = 0"
  by (simp add: c_int_def)

lemma unat_less: "unat (w :: 'a :: len word) < 2 ^ LENGTH('a)"
  by (rule unsigned_less)

lemma unat_drop_div: "unat (drop_bit k w) = unat (w :: 'a :: len word) div 2 ^ k"
  by (subst unat_drop_bit_eq) (simp add: drop_bit_eq_div)

subsection \<open>Characters\<close>

text \<open>\<open>char\<close> is signed: a byte above 127 reads as a negative number.\<close>

definition cv :: "char \<Rightarrow> int" where
  "cv c = (let n = of_char c in if n < 128 then n else n - 256)"

definition chr :: "nat \<Rightarrow> char" where
  "chr n = char_of n"

lemma of_char_lt_256 [simp]: "(of_char c :: nat) < 256" "(of_char c :: int) < 256"
proof -
  show nat: "(of_char c :: nat) < 256"
    by (cases c) (simp add: of_char_def horner_sum_simps split: if_splits)
  have "(of_char c :: int) = int (of_char c)"
    by (simp add: of_nat_of_char)
  then show "(of_char c :: int) < 256"
    using nat by linarith
qed

lemma of_char_nonneg [simp]: "0 \<le> (of_char c :: int)"
  by (metis of_nat_0_le_iff of_nat_of_char)

lemma cv_chr: "n < 128 \<Longrightarrow> cv (chr n) = int n"
proof -
  assume n: "n < 128"
  have "(of_char (chr n) :: int) = int (of_char (chr n))"
    by (simp add: of_nat_of_char)
  also have "\<dots> = int n"
    using n by (simp add: chr_def of_char_of)
  finally show ?thesis
    using n by (simp add: cv_def)
qed

subsection \<open>Decimal text\<close>

text \<open>The text of the \<open>%u\<close>, \<open>%lu\<close> and \<open>%d\<close> conversions of \<open>printf\<close>.\<close>

fun show_nat :: "nat \<Rightarrow> string" where
  "show_nat n =
     (if n < 10 then [chr (48 + n)] else show_nat (n div 10) @ [chr (48 + n mod 10)])"

declare show_nat.simps [simp del]

definition show_int :: "int \<Rightarrow> string" where
  "show_int x = (if x < 0 then CHR ''-'' # show_nat (nat (- x)) else show_nat (nat x))"

lemma show_nat_nonempty [simp]: "show_nat n \<noteq> []"
  by (subst show_nat.simps) simp

lemma set_show_nat: "c \<in> set (show_nat n) \<Longrightarrow> 48 \<le> cv c \<and> cv c \<le> 57"
proof (induction n arbitrary: c rule: show_nat.induct)
  case (1 n)
  have last: "48 \<le> cv (chr (48 + d)) \<and> cv (chr (48 + d)) \<le> 57" if "d < 10" for d
    using that cv_chr [of "48 + d"] by simp
  show ?case
  proof (cases "n < 10")
    case True
    then have "c = chr (48 + n)"
      using "1.prems" by (simp add: show_nat.simps [of n])
    with True last show ?thesis by blast
  next
    case False
    then consider "c \<in> set (show_nat (n div 10))" | "c = chr (48 + n mod 10)"
      using "1.prems" by (auto simp add: show_nat.simps [of n])
    then show ?thesis
    proof cases
      case 1
      with "1.IH" False show ?thesis by blast
    next
      case 2
      moreover have "n mod 10 < 10" by simp
      ultimately show ?thesis using last by blast
    qed
  qed
qed

subsection \<open>Hexadecimal text\<close>

text \<open>\<open>hex_char\<close> of \<open>xml_output.c\<close> and the digits of \<open>%02x\<close> are the same characters.\<close>

definition hex_digit_char :: "nat \<Rightarrow> char" where
  "hex_digit_char x = (if x < 10 then chr (48 + x) else chr (97 + (x - 10)))"

definition show_hex2 :: "u8 \<Rightarrow> string" where
  "show_hex2 b = [hex_digit_char (unat b div 16), hex_digit_char (unat b mod 16)]"

subsection \<open>Lists and options\<close>

lemma takeWhile_dropWhile_mset: "mset (takeWhile P xs @ x # dropWhile P xs) = add_mset x (mset xs)"
proof -
  have "mset (takeWhile P xs) + mset (dropWhile P xs) = mset xs"
    by (metis mset_append takeWhile_dropWhile_id)
  then show ?thesis by simp
qed

lemma remove1_filter: "distinct xs \<Longrightarrow> remove1 x xs = filter (\<lambda>y. y \<noteq> x) xs"
  by (simp add: distinct_remove1_removeAll removeAll_filter_not_eq eq_commute [of x])

lemma bind_Some_iff: "Option.bind m f = Some y \<longleftrightarrow> (\<exists>x. m = Some x \<and> f x = Some y)"
  by (cases m) auto

text \<open>A loop over a list whose body may fail.\<close>

fun fold_opt :: "('s \<Rightarrow> 'd \<Rightarrow> 's option) \<Rightarrow> 'd list \<Rightarrow> 's \<Rightarrow> 's option" where
  "fold_opt f [] s = Some s"
| "fold_opt f (d # ds) s = Option.bind (f s d) (fold_opt f ds)"

lemma fold_opt_append: "fold_opt f (us @ vs) s = Option.bind (fold_opt f us s) (fold_opt f vs)"
proof (induction us arbitrary: s)
  case (Cons u us)
  then show ?case by (cases "f s u") simp_all
qed simp

end
