(* ===== verification/C_Util.thy ===== *)
theory C_Util
  imports Prelude
begin

section \<open>Base utilities (core/util.c)\<close>

text \<open>
  The character classes, \<open>bit_count\<close>, \<open>string_index\<close>, \<open>trim\<close>, \<open>to_lower\<close> and the two
  decimal readers. A \<open>char *\<close> argument is the string from that pointer on; a returned
  pointer is the rest of the string, and \<open>NULL\<close> is \<open>None\<close>. \<open>number\<close> works on \<open>int\<close>
  (the arithmetic wraps at 32 bits), \<open>number64\<close> on \<open>uint64_t\<close>.
\<close>

subsection \<open>Character classes\<close>

definition in_range :: "int \<Rightarrow> int \<Rightarrow> int \<Rightarrow> bool" where
  "in_range x a b \<longleftrightarrow> x \<ge> a \<and> x \<le> b"

definition alpha :: "int \<Rightarrow> bool" where
  "alpha c \<longleftrightarrow> in_range c 97 122 \<or> in_range c 65 90"

definition digit :: "int \<Rightarrow> bool" where
  "digit c \<longleftrightarrow> in_range c 48 57"

definition ws :: "int \<Rightarrow> bool" where
  "ws c \<longleftrightarrow> c = 10 \<or> c = 32 \<or> c = 9 \<or> c = 13"

lemmas char_class_defs = in_range_def alpha_def digit_def ws_def

subsection \<open>Operations\<close>

lemma unat_shr1: "unat (drop_bit 1 x) = unat x div 2"
  by (subst unat_drop_bit_eq) (simp add: drop_bit_eq_div)

function bit_count :: "u32 \<Rightarrow> nat" where
  "bit_count x = (if x \<noteq> 0 then Suc (bit_count (drop_bit 1 x)) else 0)"
  by pat_completeness auto
termination
proof (relation "measure unat")
  show "wf (measure unat)" by simp
next
  fix x :: u32
  assume "x \<noteq> 0"
  then have "0 < unat x"
    by (simp add: unat_gt_0)
  then show "(drop_bit 1 x, x) \<in> measure unat"
    by (simp only: unat_shr1 in_measure)
qed

declare bit_count.simps [simp del]

fun string_index :: "string \<Rightarrow> string list \<Rightarrow> nat" where
  "string_index s [] = 0"
| "string_index s (t # ss) = (if s = t then 0 else Suc (string_index s ss))"

fun trim :: "string \<Rightarrow> string" where
  "trim [] = []"
| "trim (c # data) = (if ws (cv c) then trim data else c # data)"

text \<open>\<open>only (x)\<close>: nothing but white space is left.\<close>

definition only :: "string \<Rightarrow> bool" where
  "only x \<longleftrightarrow> trim x = []"

definition tolower :: "char \<Rightarrow> char" where
  "tolower c = (if in_range (cv c) 65 90 then chr (of_char c + 32) else c)"

definition to_lower :: "string \<Rightarrow> string" where
  "to_lower s = map tolower s"

fun number_loop :: "int \<Rightarrow> nat \<Rightarrow> string \<Rightarrow> int \<times> nat \<times> string" where
  "number_loop y n [] = (y, n, [])"
| "number_loop y n (c # data) =
     (if digit (cv c) then number_loop (c_int (y * 10 + (cv c - 48))) (Suc n) data
      else (y, n, c # data))"

definition number :: "string \<Rightarrow> (int \<times> string) option" where
  "number data =
     (case number_loop 0 0 data of (y, n, rest) \<Rightarrow> if n > 0 then Some (y, rest) else None)"

fun number64_loop :: "u64 \<Rightarrow> nat \<Rightarrow> string \<Rightarrow> u64 \<times> nat \<times> string" where
  "number64_loop y n [] = (y, n, [])"
| "number64_loop y n (c # data) =
     (if digit (cv c) then number64_loop (y * 10 + word_of_int (cv c - 48)) (Suc n) data
      else (y, n, c # data))"

definition number64 :: "string \<Rightarrow> (u64 \<times> string) option" where
  "number64 data =
     (case number64_loop 0 0 data of (y, n, rest) \<Rightarrow> if n > 0 then Some (y, rest) else None)"

subsection \<open>bit_count is the length of the binary representation\<close>

lemma bit_count_0 [simp]: "bit_count 0 = 0"
  by (simp add: bit_count.simps)

lemma bit_count_bounds:
  "unat x < 2 ^ bit_count x \<and> (x \<noteq> 0 \<longrightarrow> 2 ^ (bit_count x - 1) \<le> unat x)"
proof (induction x rule: bit_count.induct)
  case (1 x)
  show ?case
  proof (cases "x = 0")
    case False
    let ?h = "drop_bit 1 x"
    have h: "unat ?h = unat x div 2"
      by (rule unat_shr1)
    have bc: "bit_count x = Suc (bit_count ?h)"
      using False by (simp add: bit_count.simps [of x])
    have IH: "unat ?h < 2 ^ bit_count ?h"
      "?h \<noteq> 0 \<longrightarrow> 2 ^ (bit_count ?h - 1) \<le> unat ?h"
      using "1.IH" [OF False] by auto
    have up: "unat x < 2 ^ bit_count x"
      using IH(1) h bc by simp
    have low: "2 ^ (bit_count x - 1) \<le> unat x"
    proof (cases "?h = 0")
      case True
      with bc have "bit_count x = 1" by simp
      moreover have "0 < unat x"
        using False by (simp add: unat_gt_0)
      ultimately show ?thesis by simp
    next
      case hn: False
      then have "bit_count ?h \<noteq> 0"
        by (subst bit_count.simps) (simp only: if_True nat.simps not_False_eq_True)
      then have "2 ^ bit_count ?h = 2 * (2 ^ (bit_count ?h - 1) :: nat)"
        by (cases "bit_count ?h") auto
      moreover have "2 ^ (bit_count ?h - 1) \<le> unat x div 2"
        using IH(2) hn h by simp
      ultimately show ?thesis using bc by simp
    qed
    from up low show ?thesis by simp
  qed simp
qed

lemma bit_count_least: "unat x < 2 ^ n \<longleftrightarrow> bit_count x \<le> n"
proof
  assume "bit_count x \<le> n"
  then have "(2 :: nat) ^ bit_count x \<le> 2 ^ n"
    by (intro power_increasing) auto
  with bit_count_bounds [of x] show "unat x < 2 ^ n"
    by (meson less_le_trans)
next
  assume lt: "unat x < 2 ^ n"
  show "bit_count x \<le> n"
  proof (rule ccontr)
    assume "\<not> bit_count x \<le> n"
    then have n: "n \<le> bit_count x - 1" and nz: "x \<noteq> 0"
      by auto
    have "(2 :: nat) ^ n \<le> 2 ^ (bit_count x - 1)"
      using n by (intro power_increasing) auto
    also have "\<dots> \<le> unat x"
      using bit_count_bounds [of x] nz by simp
    finally show False using lt by simp
  qed
qed

lemma bit_count_le_32: "bit_count x \<le> 32"
proof -
  have "unat x < 2 ^ 32"
    using unsigned_less [of x] by simp
  then show ?thesis by (simp only: bit_count_least)
qed

subsection \<open>string_index, trim\<close>

lemma string_index_le: "string_index s ss \<le> length ss"
  by (induction ss) auto

lemma string_index_found: "string_index s ss < length ss \<longleftrightarrow> s \<in> set ss"
  by (induction ss) auto

lemma string_index_nth: "string_index s ss < length ss \<Longrightarrow> ss ! string_index s ss = s"
  by (induction ss) (auto split: if_splits)

lemma string_index_first: "i < string_index s ss \<Longrightarrow> ss ! i \<noteq> s"
  by (induction ss arbitrary: i) (auto simp: nth_Cons split: if_splits nat.splits)

lemma trim_dropWhile: "trim s = dropWhile (\<lambda>c. ws (cv c)) s"
  by (induction s) auto

lemma trim_length: "length (trim s) \<le> length s"
  by (simp add: trim_dropWhile length_dropWhile_le)

subsection \<open>Decimal readers\<close>

text \<open>The value of a digit string, without wrap-around.\<close>

fun dec_value :: "int \<Rightarrow> string \<Rightarrow> int" where
  "dec_value y [] = y"
| "dec_value y (c # cs) = dec_value (y * 10 + (cv c - 48)) cs"

definition starts_with_digit :: "string \<Rightarrow> bool" where
  "starts_with_digit s \<longleftrightarrow> s \<noteq> [] \<and> digit (cv (hd s))"

lemma dec_value_append: "dec_value y (xs @ ys) = dec_value (dec_value y xs) ys"
  by (induction xs arbitrary: y) auto

lemma dec_value_mono: "0 \<le> y \<Longrightarrow> list_all (\<lambda>c. digit (cv c)) cs \<Longrightarrow> y \<le> dec_value y cs"
proof (induction cs arbitrary: y)
  case (Cons c cs)
  then have "0 \<le> y * 10 + (cv c - 48)" "y \<le> y * 10 + (cv c - 48)"
    by (auto simp: char_class_defs)
  with Cons.IH [of "y * 10 + (cv c - 48)"] Cons.prems show ?case by simp
qed simp

lemma number_loop_digits:
  assumes "list_all (\<lambda>c. digit (cv c)) ds" "\<not> starts_with_digit rest"
    "0 \<le> y" "dec_value y ds < 2 ^ 31"
  shows "number_loop y n (ds @ rest) = (dec_value y ds, n + length ds, rest)"
  using assms
proof (induction ds arbitrary: y n)
  case Nil
  then show ?case
    by (cases rest) (auto simp: starts_with_digit_def)
next
  case (Cons d ds)
  let ?y = "y * 10 + (cv d - 48)"
  have d: "48 \<le> cv d" "cv d \<le> 57" "0 \<le> ?y"
    using Cons.prems by (auto simp: char_class_defs)
  have "?y \<le> dec_value ?y ds"
    using Cons.prems d by (intro dec_value_mono) auto
  then have "in_int ?y"
    using Cons.prems d by (simp add: in_int_def)
  then have "c_int ?y = ?y" by (rule c_int_id)
  with Cons.IH [of ?y "Suc n"] Cons.prems d show ?case by simp
qed

lemma number64_loop_digits:
  assumes "list_all (\<lambda>c. digit (cv c)) ds" "\<not> starts_with_digit rest" "w = word_of_int y"
  shows "number64_loop w n (ds @ rest) = (word_of_int (dec_value y ds), n + length ds, rest)"
  using assms
proof (induction ds arbitrary: w y n)
  case Nil
  then show ?case
    by (cases rest) (auto simp: starts_with_digit_def)
next
  case (Cons d ds)
  have "w * 10 + word_of_int (cv d - 48) = (word_of_int (y * 10 + (cv d - 48)) :: u64)"
    using Cons.prems by simp
  from Cons.IH [OF _ _ this, of "Suc n"] Cons.prems show ?case by simp
qed

lemma show_nat_digits: "list_all (\<lambda>c. digit (cv c)) (show_nat n)"
  using set_show_nat by (auto simp: list_all_iff char_class_defs)

lemma dec_value_show_nat: "dec_value 0 (show_nat n) = int n"
proof (induction n rule: show_nat.induct)
  case (1 n)
  have d: "cv (chr (48 + k)) - 48 = int k" if "k < 10" for k
    using that by (subst cv_chr) auto
  show ?case
  proof (cases "n < 10")
    case True
    with d [of n] show ?thesis by (simp add: show_nat.simps [of n])
  next
    case False
    with "1.IH" have "dec_value 0 (show_nat (n div 10)) = int (n div 10)" by simp
    with False d [of "n mod 10"] have "dec_value 0 (show_nat n) = int (n div 10) * 10 + int (n mod 10)"
      by (simp add: show_nat.simps [of n] dec_value_append)
    also have "\<dots> = int n"
      by (metis div_mult_mod_eq of_nat_add of_nat_mult of_nat_numeral)
    finally show ?thesis .
  qed
qed

text \<open>A number the program prints is the number it reads back.\<close>

lemma number_show_nat:
  assumes "n < 2 ^ 31" "\<not> starts_with_digit rest"
  shows "number (show_nat n @ rest) = Some (int n, rest)"
proof -
  have "dec_value 0 (show_nat n) < 2 ^ 31"
    using assms(1) by (simp add: dec_value_show_nat)
  then have "number_loop 0 0 (show_nat n @ rest) = (int n, length (show_nat n), rest)"
    using number_loop_digits [OF show_nat_digits assms(2), of 0 n 0]
    by (simp add: dec_value_show_nat)
  then show ?thesis by (simp add: number_def)
qed

lemma number64_show_nat:
  assumes "\<not> starts_with_digit rest"
  shows "number64 (show_nat n @ rest) = Some (word_of_nat n, rest)"
proof -
  have "number64_loop 0 0 (show_nat n @ rest) = (word_of_nat n, length (show_nat n), rest)"
    using number64_loop_digits [OF show_nat_digits assms, of 0 0 0 n]
    by (simp add: dec_value_show_nat)
  then show ?thesis by (simp add: number64_def)
qed

lemma number_loop_suffix:
  "case number_loop y n s of (y', n', r) \<Rightarrow> length r + n' = length s + n \<and> (in_int y \<longrightarrow> in_int y')"
  by (induction y n s rule: number_loop.induct) (auto simp: c_int_range split: prod.splits)

lemma number_result:
  assumes "number s = Some (x, r)"
  shows number_shorter: "length r < length s" and number_in_int: "in_int x"
  using number_loop_suffix [where y = 0 and n = 0 and s = s] assms
  by (auto simp: number_def in_int_def split: prod.splits if_splits)

end
