(* ===== verification/Mdns.thy ===== *)
theory Mdns
  imports C_Util "HOL-Library.Sublist"
begin

section \<open>Names and headers of DNS packets (core/mdns.c)\<close>

text \<open>
  A packet is the list of its bytes, from \<open>dns_start\<close> to \<open>dns_end\<close>, and a pointer into it the number of
  bytes in front. A result \<open>None\<close> is a read behind the packet; inside, \<open>None\<close> is a NULL result.

  A name is kept in the form of its labels with the length of each in front; what the C code ends with
  a NUL is the list of the bytes before it.
\<close>

definition truncated :: "string \<Rightarrow> nat \<Rightarrow> bool" where
  "truncated pk i \<longleftrightarrow> i > length pk"

definition byte_at :: "string \<Rightarrow> nat \<Rightarrow> nat option" where
  "byte_at pk i = (if i < length pk then Some (of_char (pk ! i)) else None)"

definition word_at :: "string \<Rightarrow> nat \<Rightarrow> nat option" where
  "word_at pk i = do { a \<leftarrow> byte_at pk i; b \<leftarrow> byte_at pk (i + 1); Some (256 * a + b) }"

definition long_at :: "string \<Rightarrow> nat \<Rightarrow> nat option" where
  "long_at pk i = do { a \<leftarrow> word_at pk i; b \<leftarrow> word_at pk (i + 2); Some (65536 * a + b) }"

text \<open>\<open>PACK16\<close> of an unsigned number.\<close>

definition pack16_chars :: "nat \<Rightarrow> string" where
  "pack16_chars d = [chr (d div 256 mod 256), chr (d mod 256)]"

lemma byte_at_simps [simp]: "i < length pk \<Longrightarrow> byte_at pk i = Some (of_char (pk ! i))" "\<not> i < length pk \<Longrightarrow> byte_at pk i = None"
  by (simp_all add: byte_at_def)

lemma word_at_some: "i + 1 < length pk \<Longrightarrow> word_at pk i = Some (256 * of_char (pk ! i) + of_char (pk ! (i + 1)))"
  by (simp add: word_at_def)

subsection \<open>Reading a name\<close>

text \<open>
  The two upper bits of a length choose between a label and a pointer. \<open>prev\<close> is the length of the name
  at the last pointer, \<open>None\<close> for the initial -1; \<open>ptr\<close> the position of the first pointer.
\<close>

function dns_name_loop :: "string \<Rightarrow> nat option \<Rightarrow> nat option \<Rightarrow> nat \<Rightarrow> string \<Rightarrow> (string \<times> nat) option option" where
  "dns_name_loop pk prev ptr i name =
     (if truncated pk (i + 1) then Some None
      else case byte_at pk i of
        None \<Rightarrow> None
      | Some c \<Rightarrow>
          if c = 0 then Some (Some (name, case ptr of Some p \<Rightarrow> p + 2 | None \<Rightarrow> i + 1))
          else if c div 64 = 0 then
            let n = c + 1 in
            if length name + n > 254 then Some None
            else if truncated pk (i + n) then Some None
            else dns_name_loop pk prev ptr (i + n) (name @ take n (drop i pk))
          else if c div 64 = 3 then
            if truncated pk (i + 2) then Some None
            else case word_at pk i of
              None \<Rightarrow> None
            | Some w \<Rightarrow>
                let j = w mod 0x4000 in
                if truncated pk j then Some None
                else if prev = Some (length name) then Some None
                else dns_name_loop pk (Some (length name)) (Some (case ptr of None \<Rightarrow> i | Some p \<Rightarrow> p)) j name
          else Some None)"
  by pat_completeness auto

termination
proof (relation "measure (\<lambda>(pk, prev, ptr, i, name). 2 * (255 - length name) + (if prev = Some (length name) then 0 else 1))")
  fix pk :: string and prev ptr :: "nat option" and i :: nat and name :: string and c n :: nat
  assume c: "byte_at pk i = Some c" "c \<noteq> 0" "n = c + 1" "\<not> 254 < length name + n" "\<not> truncated pk (i + n)"
  then have "length (take n (drop i pk)) = n" by (simp add: truncated_def)
  then show "((pk, prev, ptr, i + n, name @ take n (drop i pk)), (pk, prev, ptr, i, name))
      \<in> measure (\<lambda>(pk, prev, ptr, i, name). 2 * (255 - length name) + (if prev = Some (length name) then 0 else 1))"
    using c by (cases "prev = Some (length name)") auto
qed auto

declare dns_name_loop.simps [simp del]

definition dns_name :: "string \<Rightarrow> nat \<Rightarrow> (string \<times> nat) option option" where
  "dns_name pk i = dns_name_loop pk None None i []"

subsection \<open>Writing a name\<close>

text \<open>
  \<open>out\<close> is the packet from \<open>start\<close> to \<open>buffer\<close> and \<open>names\<close> the positions of the labels written before.
  \<open>None\<close> is a read behind the 14 places for them, a label with a length above 127, which is negative
  as a \<open>char\<close>, or one that goes beyond the end of the name. The labels are compared by \<open>strncmp\<close>,
  which stops at a NUL in both.
\<close>

definition same_label :: "string \<Rightarrow> string \<Rightarrow> bool" where
  "same_label s t \<longleftrightarrow> takeWhile (\<lambda>c. c \<noteq> CHR 0x00) s = takeWhile (\<lambda>c. c \<noteq> CHR 0x00) t"

definition MAX_NAMES :: nat where "MAX_NAMES = 14"

definition find_label :: "string \<Rightarrow> string \<Rightarrow> nat list \<Rightarrow> nat option option" where
  "find_label out label names =
     (case List.find (\<lambda>p. same_label label (take (length label) (drop p out))) names of
        Some p \<Rightarrow> Some (Some p)
      | None \<Rightarrow> if length names < MAX_NAMES then Some None else None)"

function encode_name :: "string \<Rightarrow> string \<Rightarrow> nat list \<Rightarrow> (string \<times> nat list) option" where
  "encode_name out [] names = Some (out @ [chr 0], names)"
| "encode_name out (c # name) names =
     (let n = of_char c + 1; label = take n (c # name) in
      if n > 128 \<or> n > length (c # name) then None
      else case find_label out label names of
        None \<Rightarrow> None
      | Some (Some p) \<Rightarrow> Some (out @ pack16_chars (p + 0xc000), names)
      | Some None \<Rightarrow> encode_name (out @ label) (drop n (c # name)) (names @ [length out]))"
  by pat_completeness auto
termination by (relation "measure (\<lambda>(out, name, names). length name)") auto

declare encode_name.simps [simp del]

subsection \<open>Headers\<close>

record dns_header =
  h_id :: nat
  h_flags :: nat
  h_qdcount :: nat
  h_ancount :: nat
  h_nscount :: nat
  h_arcount :: nat

definition dns_header :: "string \<Rightarrow> nat \<Rightarrow> (dns_header \<times> nat) option option" where
  "dns_header pk i =
     (if truncated pk (i + 12) then Some None
      else do { a \<leftarrow> word_at pk i; b \<leftarrow> word_at pk (i + 2); c \<leftarrow> word_at pk (i + 4);
                d \<leftarrow> word_at pk (i + 6); e \<leftarrow> word_at pk (i + 8); f \<leftarrow> word_at pk (i + 10);
                Some (Some (\<lparr>h_id = a, h_flags = b, h_qdcount = c, h_ancount = d, h_nscount = e, h_arcount = f\<rparr>, i + 12)) })"

subsection \<open>Counted labels from a text with dots\<close>

text \<open>
  \<open>write_counted\<close> gets a text that begins with a dot; \<open>strtok\<close> skips dots in front of a label, which
  stay a part of it. The result is the labels up to the NUL behind the last.
\<close>

function counted_loop :: "string \<Rightarrow> string" where
  "counted_loop s =
     (let t = dropWhile (\<lambda>c. c = CHR ''.'') s;
          label = takeWhile (\<lambda>c. c = CHR ''.'') s @ takeWhile (\<lambda>c. c \<noteq> CHR ''.'') t;
          rest = tl (dropWhile (\<lambda>c. c \<noteq> CHR ''.'') t) in
      chr (length label mod 256) # label @
        (if dropWhile (\<lambda>c. c = CHR ''.'') rest = [] then [] else counted_loop rest))"
  by pat_completeness auto
termination
proof (relation "measure length")
  fix s t label rest :: string
  assume a: "t = dropWhile (\<lambda>c. c = CHR ''.'') s" "rest = tl (dropWhile (\<lambda>c. c \<noteq> CHR ''.'') t)"
    "dropWhile (\<lambda>c. c = CHR ''.'') rest \<noteq> []"
  have "dropWhile (\<lambda>c. c \<noteq> CHR ''.'') t \<noteq> []"
  proof
    assume "dropWhile (\<lambda>c. c \<noteq> CHR ''.'') t = []"
    then have "rest = []" using a(2) by (simp only: list.sel)
    then show False using a(3) by simp
  qed
  then have "length rest < length (dropWhile (\<lambda>c. c \<noteq> CHR ''.'') t)" using a(2) by simp
  also have "\<dots> \<le> length t" by (rule length_dropWhile_le)
  also have "\<dots> \<le> length s" using a(1) by (simp add: length_dropWhile_le)
  finally show "(rest, s) \<in> measure length" by simp
qed simp

declare counted_loop.simps [simp del]

definition write_counted :: "string \<Rightarrow> string" where
  "write_counted s = counted_loop (tl s)"

subsection \<open>Reading stays in the packet\<close>

text \<open>The labels of a name as they stand in a packet.\<close>

fun wire :: "string list \<Rightarrow> string" where
  "wire [] = []"
| "wire (l # ls) = chr (length l) # l @ wire ls"

lemma wire_append [simp]: "wire (xs @ ys) = wire xs @ wire ys"
  by (induction xs) auto

definition is_label :: "string \<Rightarrow> bool" where
  "is_label l \<longleftrightarrow> 1 \<le> length l \<and> length l \<le> 63 \<and> CHR 0x00 \<notin> set l"

text \<open>
  What stands at a position, after RFC 1035: the labels up to the end or up to a pointer, and where the
  name ends in the packet. No position is less than \<open>lo\<close>. \<open>b\<close> says that a pointer leads to the position;
  behind it the code wants a label or the end.
\<close>

inductive name_at :: "string \<Rightarrow> nat \<Rightarrow> bool \<Rightarrow> nat \<Rightarrow> string \<Rightarrow> nat \<Rightarrow> bool" for pk :: string and lo :: nat where
  name_end: "lo \<le> i \<Longrightarrow> i < length pk \<Longrightarrow> pk ! i = chr 0 \<Longrightarrow> name_at pk lo b i [] (i + 1)"
| name_label: "lo \<le> i \<Longrightarrow> i < length pk \<Longrightarrow> of_char (pk ! i) = n \<Longrightarrow> 0 < n \<Longrightarrow> n < 64 \<Longrightarrow> i + n + 1 \<le> length pk \<Longrightarrow>
    name_at pk lo False (i + n + 1) name k \<Longrightarrow> name_at pk lo b i (take (n + 1) (drop i pk) @ name) k"
| name_pointer: "lo \<le> i \<Longrightarrow> i + 1 < length pk \<Longrightarrow> of_char (pk ! i) \<ge> (192 :: nat) \<Longrightarrow>
    (256 * of_char (pk ! i) + of_char (pk ! (i + 1))) mod 0x4000 = j \<Longrightarrow> name_at pk lo True j name k \<Longrightarrow> name_at pk lo False i name (i + 2)"

inductive_cases name_at_cases: "name_at pk lo b i name k"

lemma of_char_eq_0: "(of_char c :: nat) = 0 \<longleftrightarrow> c = chr 0"
proof
  assume "(of_char c :: nat) = 0"
  then have "char_of (of_char c :: nat) = (char_of (0 :: nat) :: char)" by simp
  then show "c = chr 0" by (simp add: chr_def)
qed (simp add: chr_def)

lemma name_at_in_packet: "name_at pk lo b i s k \<Longrightarrow> i < length pk \<and> i < k \<and> k \<le> length pk"
  by (induction rule: name_at.induct) auto

text \<open>The three kinds of bytes at a position.\<close>

lemma name_at_end: "pk ! i = chr 0 \<Longrightarrow> name_at pk lo b i s k \<longleftrightarrow> lo \<le> i \<and> i < length pk \<and> s = [] \<and> k = i + 1"
  by (subst name_at.simps) (auto simp: chr_def)

lemma name_at_label:
  assumes "of_char (pk ! i) = n" "0 < n" "n < 64"
  shows "name_at pk lo b i s k \<longleftrightarrow> lo \<le> i \<and> i + n + 1 \<le> length pk \<and> (\<exists>t. s = take (n + 1) (drop i pk) @ t \<and> name_at pk lo False (i + n + 1) t k)"
proof
  assume "name_at pk lo b i s k"
  then show "lo \<le> i \<and> i + n + 1 \<le> length pk \<and> (\<exists>t. s = take (n + 1) (drop i pk) @ t \<and> name_at pk lo False (i + n + 1) t k)"
    by (rule name_at_cases) (use assms in \<open>auto simp: chr_def\<close>)
next
  assume "lo \<le> i \<and> i + n + 1 \<le> length pk \<and> (\<exists>t. s = take (n + 1) (drop i pk) @ t \<and> name_at pk lo False (i + n + 1) t k)"
  then show "name_at pk lo b i s k" using name_label [of lo i pk n] assms by auto
qed

lemma name_at_pointer:
  assumes "of_char (pk ! i) \<ge> (192 :: nat)" "i + 1 < length pk"
  shows "name_at pk lo b i s k \<longleftrightarrow> lo \<le> i \<and> \<not> b \<and> k = i + 2 \<and>
    (\<exists>j. name_at pk lo True ((256 * of_char (pk ! i) + of_char (pk ! (i + 1))) mod 0x4000) s j)"
proof
  assume "name_at pk lo b i s k"
  then show "lo \<le> i \<and> \<not> b \<and> k = i + 2 \<and> (\<exists>j. name_at pk lo True ((256 * of_char (pk ! i) + of_char (pk ! (i + 1))) mod 0x4000) s j)"
    by (rule name_at_cases) (use assms in \<open>auto simp: chr_def\<close>)
next
  assume "lo \<le> i \<and> \<not> b \<and> k = i + 2 \<and> (\<exists>j. name_at pk lo True ((256 * of_char (pk ! i) + of_char (pk ! (i + 1))) mod 0x4000) s j)"
  then show "name_at pk lo b i s k" using name_pointer [OF _ assms(2,1) refl, of lo s] by auto
qed

lemma name_at_other:
  assumes "64 \<le> (of_char (pk ! i) :: nat)" "of_char (pk ! i) < (192 :: nat)"
  shows "\<not> name_at pk lo b i s k"
  using assms by (subst name_at.simps) (auto simp: chr_def)

lemma dns_name_loop_iff:
  assumes "case prev of Some l \<Rightarrow> l \<le> length name | None \<Rightarrow> True" "length name \<le> 254"
  shows "dns_name_loop pk prev ptr i name = Some (Some (nm, k)) \<longleftrightarrow>
    (\<exists>s j. name_at pk 0 (prev = Some (length name)) i s j \<and> nm = name @ s \<and> length nm \<le> 254 \<and>
       k = (case ptr of Some p \<Rightarrow> p + 2 | None \<Rightarrow> j))"
  using assms
proof (induction pk prev ptr i name rule: dns_name_loop.induct)
  case (1 pk prev ptr i name)
  note [simp] = dns_name_loop.simps [of pk prev ptr i name]
  show ?case
  proof (cases "i < length pk")
    case False
    then show ?thesis using name_at_in_packet by (fastforce simp: truncated_def)
  next
    case i: True
    let ?c = "of_char (pk ! i) :: nat"
    consider "?c = 0" | "0 < ?c" "?c < 64" | "64 \<le> ?c" "?c < 192" | "192 \<le> ?c" by linarith
    then show ?thesis
    proof cases
      case 1
      then have "pk ! i = chr 0" by (simp add: of_char_eq_0)
      then show ?thesis using i 1 "1.prems" by (auto simp: truncated_def name_at_end split: option.splits)
    next
      case 2
      show ?thesis
      proof (cases "length name + (?c + 1) > 254 \<or> i + ?c + 1 > length pk")
        case True
        then show ?thesis using i 2 name_at_label [of pk i _ 0, OF refl 2] by (auto simp: truncated_def)
      next
        case False
        let ?name = "name @ take (?c + 1) (drop i pk)"
        have l: "length ?name = length name + ?c + 1" using False by (auto simp: min_def)
        have e: "dns_name_loop pk prev ptr i name = dns_name_loop pk prev ptr (i + (?c + 1)) ?name"
          using False i 2 by (simp add: truncated_def Let_def)
        have "prev \<noteq> Some (length ?name)" using "1.prems" l by (auto split: option.splits)
        moreover have "dns_name_loop pk prev ptr (i + (?c + 1)) ?name = Some (Some (nm, k)) \<longleftrightarrow>
          (\<exists>s j. name_at pk 0 (prev = Some (length ?name)) (i + (?c + 1)) s j \<and> nm = ?name @ s \<and> length nm \<le> 254 \<and>
             k = (case ptr of Some p \<Rightarrow> p + 2 | None \<Rightarrow> j))"
          using "1.prems" False i 2 l by (intro "1.IH"(1) [OF _ _ _ _ refl]) (auto simp: truncated_def split: option.splits)
        ultimately show ?thesis using False e name_at_label [of pk i _ 0, OF refl 2] by auto
      qed
    next
      case 3
      then show ?thesis using i name_at_other [of pk i 0] by (auto simp: truncated_def)
    next
      case 4
      have "?c div 64 = 3" by (rule div_nat_eqI) (use 4 in simp_all)
      then have d: "?c div 64 = 3" "?c div 64 \<noteq> 0" "?c \<noteq> 0" using 4 by auto
      show ?thesis
      proof (cases "i + 1 < length pk")
        case False
        then show ?thesis using i d 4 by (subst name_at.simps) (auto simp: truncated_def chr_def)
      next
        case True
        let ?j = "(256 * ?c + of_char (pk ! (i + 1))) mod 0x4000"
        have w: "word_at pk i = Some (256 * ?c + of_char (pk ! (i + 1)))" using True by (simp add: word_at_some)
        show ?thesis
        proof (cases "truncated pk ?j \<or> prev = Some (length name)")
          case True
          then show ?thesis using \<open>i + 1 < length pk\<close> i d w name_at_pointer [of pk i 0, OF 4] name_at_in_packet [of pk 0 True ?j]
            by (auto simp: truncated_def Let_def)
        next
          case False
          have "dns_name_loop pk prev ptr i name =
              dns_name_loop pk (Some (length name)) (Some (case ptr of None \<Rightarrow> i | Some p \<Rightarrow> p)) ?j name"
            using False i d w \<open>i + 1 < length pk\<close> by (simp add: truncated_def Let_def)
          also have "\<dots> = Some (Some (nm, k)) \<longleftrightarrow>
            (\<exists>s j. name_at pk 0 True ?j s j \<and> nm = name @ s \<and> length nm \<le> 254 \<and> k = (case ptr of None \<Rightarrow> i | Some p \<Rightarrow> p) + 2)"
            using "1.IH"(2) [OF _ _ _ _ _ _ w refl] "1.prems" False i d w \<open>i + 1 < length pk\<close> by (simp add: truncated_def)
          finally show ?thesis using False name_at_pointer [of pk i 0, OF 4 \<open>i + 1 < length pk\<close>] by (auto split: option.splits)
        qed
      qed
    qed
  qed
qed

lemma dns_name_name_at:
  "dns_name pk i = Some (Some (name, k)) \<longleftrightarrow> name_at pk 0 False i name k \<and> length name \<le> 254"
  using dns_name_loop_iff [of "[]" None pk None i name k] by (auto simp: dns_name_def)

text \<open>C31: \<open>dns_name\<close> reads exactly the names that stand at a position and have at most 254 bytes.\<close>
theorem dns_name_iff:
  "dns_name pk i = Some (Some (name, k)) \<longleftrightarrow> name_at pk 0 False i name k \<and> length name \<le> 254"
  by (rule dns_name_name_at)


text \<open>Every read is one in the packet, and a name that is read has at most 254 bytes.\<close>

lemma dns_name_loop_reads: "dns_name_loop pk prev ptr i name \<noteq> None"
proof (induction pk prev ptr i name rule: dns_name_loop.induct)
  case (1 pk prev ptr i name)
  then show ?case
    by (subst dns_name_loop.simps) (auto simp: truncated_def word_at_some byte_at_def Let_def)
qed

lemma dns_name_reads: "dns_name pk i \<noteq> None"
  by (simp add: dns_name_def dns_name_loop_reads)

subsection \<open>What is encoded is read back\<close>

lemma name_at_mono: "name_at pk lo b i s k \<Longrightarrow> name_at (pk @ r) lo b i s k"
proof (induction rule: name_at.induct)
  case (name_end i b)
  then show ?case by (intro name_at.name_end) (simp_all add: nth_append)
next
  case (name_label i n name k b)
  then show ?case using name_at.name_label [of lo i "pk @ r" n name k b] by (simp add: nth_append)
next
  case (name_pointer i j name k)
  then show ?case using name_at.name_pointer [of lo i "pk @ r" j name k] by (simp add: nth_append)
qed

lemma name_at_cong:
  "name_at pk lo b i s k \<Longrightarrow> length pk = length pk' \<Longrightarrow> (\<And>j. lo \<le> j \<Longrightarrow> pk ! j = pk' ! j) \<Longrightarrow> name_at pk' lo b i s k"
proof (induction rule: name_at.induct)
  case (name_end i b)
  then show ?case by (intro name_at.name_end) simp_all
next
  case (name_label i n name k b)
  have "take (n + 1) (drop i pk) = take (n + 1) (drop i pk')"
    using name_label by (intro nth_equalityI) simp_all
  then show ?case using name_at.name_label [of lo i pk' n name k b] name_label by simp
next
  case (name_pointer i j name k)
  then show ?case using name_at.name_pointer [of lo i pk' j name k] by simp
qed

text \<open>A label that stands at a position.\<close>

definition label_at :: "string \<Rightarrow> nat \<Rightarrow> string \<Rightarrow> bool" where
  "label_at pk i l \<longleftrightarrow> is_label l \<and> i + length l < length pk \<and> take (length l + 1) (drop i pk) = chr (length l) # l"

lemma of_char_label [simp]: "is_label l \<Longrightarrow> (of_char (chr (length l)) :: nat) = length l"
  by (simp add: is_label_def chr_def)

lemma label_at_byte: "label_at pk i l \<Longrightarrow> (of_char (pk ! i) :: nat) = length l"
proof -
  assume l: "label_at pk i l"
  then have "take (length l + 1) (drop i pk) ! 0 = chr (length l)" by (simp add: label_at_def)
  then have "pk ! i = chr (length l)" using l by (simp add: label_at_def)
  then show ?thesis using l by (simp add: label_at_def)
qed

lemma label_at_mono: "label_at pk i l \<Longrightarrow> label_at (pk @ r) i l"
  by (simp add: label_at_def)

lemma label_at_new: "is_label l \<Longrightarrow> label_at (pk @ chr (length l) # l) (length pk) l"
  by (simp add: label_at_def)

lemma chr_length_nonzero: "is_label l \<Longrightarrow> chr (length l) \<noteq> CHR 0x00"
proof
  assume l: "is_label l" and "chr (length l) = CHR 0x00"
  then have "(of_char (chr (length l)) :: nat) = of_char (CHR 0x00)" by simp
  also have "(of_char (CHR 0x00) :: nat) = 0" by simp
  finally show False using l by (simp add: is_label_def)
qed

lemma label_at_eq:
  assumes "label_at pk i l" "is_label m"
  shows "same_label (chr (length m) # m) (take (length m + 1) (drop i pk)) \<longleftrightarrow> m = l"
proof
  let ?t = "takeWhile (\<lambda>c. c \<noteq> CHR 0x00)" and ?s = "take (length m + 1) (drop i pk)"
  have m: "?t (chr (length m) # m) = chr (length m) # m"
    using assms(2) chr_length_nonzero [OF assms(2)] by (auto simp: is_label_def takeWhile_eq_all_conv)
  assume "same_label (chr (length m) # m) ?s"
  then have t: "?t ?s = chr (length m) # m" using m by (simp add: same_label_def)
  then have "?s = chr (length m) # m"
    by (metis append_eq_conv_conj length_Cons length_take min.bounded_iff min.cobounded2 takeWhile_dropWhile_id
        Suc_eq_plus1 take_all takeWhile_eq_take length_takeWhile_le le_antisym)
  note t = this
  then have "take (length m + 1) (drop i pk) ! 0 = chr (length m)" by simp
  then have "pk ! i = chr (length m)" using assms(1) by (simp add: label_at_def)
  then have "length m = length l" using label_at_byte [OF assms(1)] assms(2) by simp
  then show "m = l" using t assms(1) by (simp add: label_at_def)
qed (use assms(1) in \<open>simp add: label_at_def same_label_def\<close>)

lemma name_at_label_at:
  assumes "label_at pk i l" "lo \<le> i"
  shows "name_at pk lo b i (chr (length l) # l @ s) k \<longleftrightarrow> name_at pk lo False (i + length l + 1) s k"
proof -
  have "take (length l + 1) (drop i pk) = chr (length l) # l" "0 < length l" "length l < 64" "i + length l < length pk"
    using assms(1) by (auto simp: label_at_def is_label_def)
  then show ?thesis
    using name_at_label [of pk i "length l" lo b, OF label_at_byte [OF assms(1)]] assms(2) by auto
qed

text \<open>
  \<open>S\<close> holds the names whose labels are written: at each of the positions \<open>olds\<close> stands one of them, and
  can be reached through a pointer.
\<close>

definition written :: "string \<Rightarrow> nat \<Rightarrow> string list set \<Rightarrow> nat \<Rightarrow> bool" where
  "written out lo S p \<longleftrightarrow> lo \<le> p \<and> p < 0x4000 \<and>
     (\<exists>l r k. l # r \<in> S \<and> label_at out p l \<and> name_at out lo True p (wire (l # r)) k)"

lemma written_mono: "written out lo S p \<Longrightarrow> S \<subseteq> T \<Longrightarrow> written (out @ r) lo T p"
  unfolding written_def using label_at_mono name_at_mono by blast

text \<open>Names agree if a label that they share is followed by the same labels.\<close>

definition agree :: "string list set \<Rightarrow> string list \<Rightarrow> bool" where
  "agree S ls \<longleftrightarrow> distinct ls \<and> list_all is_label ls \<and>
     (\<forall>l r r'. l # r \<in> S \<longrightarrow> suffix (l # r') ls \<longrightarrow> r = r')"

lemma agree_tl: "agree S (l # ls) \<Longrightarrow> agree S ls"
  by (auto simp: agree_def intro: suffix_ConsI)

definition suffixes_of :: "string list \<Rightarrow> string list set" where
  "suffixes_of ls = {s. suffix s ls}"

lemma length_pack16 [simp]: "length (pack16_chars d) = 2"
  by (simp add: pack16_chars_def)

lemma name_at_new_pointer:
  assumes "p < 0x4000" "name_at out lo True p s k" "lo \<le> length out"
  shows "name_at (out @ pack16_chars (p + 0xc000)) lo False (length out) s (length out + 2)"
proof -
  let ?a = "chr ((p + 0xc000) div 256 mod 256)" and ?b = "chr ((p + 0xc000) mod 256)"
  have d: "(p + 0xc000) div 256 = p div 256 + 192" by simp
  have b: "p div 256 < 64" using assms(1) by (simp add: less_mult_imp_div_less)
  have h: "(of_char ?a :: nat) = p div 256 + 192" using b d by (simp add: chr_def)
  have "(of_char ?b :: nat) = p mod 256" by (simp add: chr_def mod_add_eq [symmetric])
  then have "256 * of_char ?a + of_char ?b = p + 0xc000" using h by simp
  then have j: "(256 * of_char ?a + of_char ?b) mod 0x4000 = p" using assms(1) mod_mult_self1 [of p 3 "0x4000"] by simp
  let ?o = "out @ pack16_chars (p + 0xc000)"
  have o: "?o ! length out = ?a" "?o ! (length out + 1) = ?b" by (simp_all add: pack16_chars_def nth_append)
  show ?thesis
  proof (rule name_pointer)
    show "192 \<le> (of_char (?o ! length out) :: nat)" unfolding o h by simp
    show "(256 * of_char (?o ! length out) + of_char (?o ! (length out + 1))) mod 0x4000 = p" unfolding o by (rule j)
    show "name_at ?o lo True p s k" by (rule name_at_mono [OF assms(2)])
  qed (use assms(3) in simp_all)
qed

lemma find_member: "List.find P xs = Some x \<Longrightarrow> x \<in> set xs \<and> P x"
  by (induction xs) (auto split: if_splits)

lemma encode_name_step:
  assumes "is_label l"
  shows "encode_name out (wire (l # ls)) names =
    (case find_label out (chr (length l) # l) names of
       None \<Rightarrow> None
     | Some (Some p) \<Rightarrow> Some (out @ pack16_chars (p + 0xc000), names)
     | Some None \<Rightarrow> encode_name (out @ chr (length l) # l) (wire ls) (names @ [length out]))"
proof -
  have len: "length l \<le> 63" using assms by (simp add: is_label_def)
  have take: "take (length l + 1) (chr (length l) # l @ wire ls) = chr (length l) # l" by simp
  have drop: "drop (length l + 1) (chr (length l) # l @ wire ls) = wire ls" by simp
  show ?thesis
    unfolding wire.simps encode_name.simps(2) Let_def of_char_label [OF assms] take drop
    using len by (simp split: option.splits)
qed

lemma encode_name_reads:
  assumes "encode_name out (wire ls) (olds @ news) = Some (out', names')" "agree S ls" "lo \<le> length out"
    and "\<forall>p \<in> set olds. written out lo S p" "\<forall>p \<in> set news. \<exists>l. label_at out p l \<and> l \<notin> set ls"
  shows "\<exists>r more. out' = out @ r \<and> name_at out' lo False (length out) (wire ls) (length out') \<and> names' = olds @ news @ more \<and>
    (length out' \<le> 0x4000 \<longrightarrow> (\<forall>p \<in> set more. written out' lo (suffixes_of ls) p))"
  using assms
proof (induction ls arbitrary: out news)
  case Nil
  then have "out' = out @ [chr 0]" "names' = olds @ news" by (simp_all add: encode_name.simps(1))
  then show ?case using Nil.prems(3) name_end [of lo "length out" out' False] by simp
next
  case (Cons l ls)
  let ?lab = "chr (length l) # l"
  have l: "is_label l" "l \<notin> set ls" "agree S ls" using Cons.prems(2) agree_tl by (auto simp: agree_def)
  note enc = encode_name_step [OF l(1), of out ls "olds @ news"]
  show ?case
  proof (cases "find_label out ?lab (olds @ news)")
    case None
    then show ?thesis using Cons.prems(1) enc by simp
  next
    case (Some f)
    note found = this
    have m: "same_label ?lab (take (length ?lab) (drop p out)) \<longleftrightarrow> l = m" if "label_at out p m" for p m
      using label_at_eq [OF that l(1)] by simp
    show ?thesis
    proof (cases f)
      case (Some p)
      then have p: "p \<in> set (olds @ news)" "same_label ?lab (take (length ?lab) (drop p out))"
        using found find_member [of _ "olds @ news" p] by (auto simp: find_label_def split: option.splits if_splits)
      then have "p \<in> set olds" using Cons.prems(5) m by fastforce
      then obtain k r n where w: "k # r \<in> S" "label_at out p k" "name_at out lo True p (wire (k # r)) n" "p < 0x4000"
        using Cons.prems(4) unfolding written_def by blast
      then have "k = l" using p(2) m by simp
      then have "r = ls" using w(1) Cons.prems(2) by (auto simp: agree_def)
      let ?w = "pack16_chars (p + 0xc000)"
      have o: "out' = out @ ?w" "names' = olds @ news" using Cons.prems(1) enc found Some by simp_all
      have "name_at out' lo False (length out) (wire (l # ls)) (length out + 2)"
        using name_at_new_pointer [OF w(4,3) Cons.prems(3)] o(1) \<open>k = l\<close> \<open>r = ls\<close> by simp
      then show ?thesis using o by auto
    next
      case None
      have u: "\<forall>p \<in> set (olds @ news). \<not> same_label ?lab (take (length ?lab) (drop p out))"
        using found None by (auto simp: find_label_def find_None_iff split: option.splits if_splits)
      have e: "encode_name (out @ ?lab) (wire ls) (olds @ (news @ [length out])) = Some (out', names')"
        using Cons.prems(1) enc found None by simp
      have old: "\<forall>p \<in> set olds. written (out @ ?lab) lo S p" using Cons.prems(4) written_mono by blast
      have new: "\<forall>p \<in> set (news @ [length out]). \<exists>m. label_at (out @ ?lab) p m \<and> m \<notin> set ls"
        using Cons.prems(5) label_at_mono [of out] label_at_new [OF l(1)] l(2) by fastforce
      have "lo \<le> length (out @ ?lab)" using Cons.prems(3) by simp
      from Cons.IH [OF e l(3) this old new] obtain r more where
        r: "out' = (out @ ?lab) @ r" "name_at out' lo False (length (out @ ?lab)) (wire ls) (length out')"
          "names' = olds @ (news @ [length out]) @ more" "length out' \<le> 0x4000 \<longrightarrow> (\<forall>p \<in> set more. written out' lo (suffixes_of ls) p)"
        by blast
      have at: "label_at out' (length out) l" using label_at_mono label_at_new [OF l(1)] r(1) by blast
      have n: "name_at out' lo b (length out) (wire (l # ls)) (length out')" for b
        using name_at_label_at [OF at Cons.prems(3), of b "wire ls"] r(2) by simp
      have "written out' lo (suffixes_of (l # ls)) (length out)" if "length out' \<le> 0x4000"
        unfolding written_def using that at n [of True] Cons.prems(3) r(1) by (auto simp: suffixes_of_def)
      moreover have "suffixes_of ls \<subseteq> suffixes_of (l # ls)" by (auto simp: suffixes_of_def intro: suffix_ConsI)
      ultimately show ?thesis
        using r n [of False] written_mono [of out' lo "suffixes_of ls" _ "suffixes_of (l # ls)" "[]"] by auto
    qed
  qed
qed

text \<open>C32: 
  A name is read back where it was encoded, if it takes at most 254 bytes, its labels differ from each
  other and hold no NUL, and each of them that stands in the packet already is followed there by the
  same labels. Without this the pointer leads to another name (\<open>encode_name_pointer\<close>), with a label twice
  to itself.
\<close>
theorem encode_name_round_trip:
  assumes "encode_name out (wire ls) names = Some (out', names')" "agree S ls" "\<forall>p \<in> set names. written out 0 S p"
    and "length (wire ls) \<le> 254"
  shows "dns_name (out' @ rest) (length out) = Some (Some (wire ls, length out'))"
proof -
  have "name_at out' 0 False (length out) (wire ls) (length out')"
    using encode_name_reads [of out ls names "[]" out' names' S 0] assms by auto
  then show ?thesis using name_at_mono assms(4) dns_name_name_at by blast
qed

theorem encode_name_round_trip_witness:
  "\<exists>out names out' names'. encode_name [] (wire [''a'', ''b'']) [] = Some (out, names) \<and>
     encode_name out (wire [''c'', ''b'']) names = Some (out', names') \<and> length out' = length out + 4 \<and>
     dns_name out' (length out) = Some (Some (wire [''c'', ''b''], length out'))"
proof -
  have n: "chr (Suc 0) \<noteq> CHR 0x00" using chr_length_nonzero [of "''a''"] by (simp add: is_label_def)
  note step = encode_name_step is_label_def find_label_def same_label_def n MAX_NAMES_def encode_name.simps(1)
  let ?o = "[chr 1, CHR ''a'', chr 1, CHR ''b'', chr 0]"
  have e: "encode_name [] (wire [''a'', ''b'']) [] = Some (?o, [0, 2])" by (simp add: step del: wire.simps(2))
  have e': "encode_name ?o (wire [''c'', ''b'']) [0, 2] = Some (?o @ [chr 1, CHR ''c''] @ pack16_chars (2 + 0xc000), [0, 2, 5])"
    by (simp add: step del: wire.simps(2))
  have a: "agree {} [''a'', ''b'']" by (simp add: agree_def is_label_def)
  have w: "\<forall>p \<in> set [0, 2]. written ?o 0 (suffixes_of [''a'', ''b'']) p"
    using encode_name_reads [of "[]" _ "[]" "[]", OF _ a] e by fastforce
  have "agree (suffixes_of [''a'', ''b'']) [''c'', ''b'']" by (auto simp: agree_def is_label_def suffixes_of_def suffix_Cons)
  from encode_name_round_trip [OF e' this w, of "[]"] e e' show ?thesis by simp
qed

text \<open>
  Otherwise the reader gets what stands there, whatever follows the label in the name: only the first
  label is compared.
\<close>
theorem encode_name_pointer:
  assumes "is_label l" "find_label out (chr (length l) # l) names = Some (Some p)" "p < 0x4000"
    and "name_at out 0 True p s k" "length s \<le> 254"
  shows "\<exists>out'. encode_name out (wire (l # ls)) names = Some (out', names) \<and> dns_name out' (length out) = Some (Some (s, length out'))"
proof -
  let ?o = "out @ pack16_chars (p + 0xc000)"
  have "encode_name out (wire (l # ls)) names = Some (?o, names)" using encode_name_step [OF assms(1), of out ls names] assms(2) by simp
  moreover have "name_at ?o 0 False (length out) s (length ?o)"
    using name_at_new_pointer [OF assms(3,4)] by simp
  ultimately show ?thesis using dns_name_name_at assms(5) by blast
qed

subsection \<open>How many labels fit\<close>

text \<open>The labels that stand in the packet, in the order of their positions.\<close>

fun known_labels :: "string list \<Rightarrow> string list \<Rightarrow> string list option" where
  "known_labels K [] = Some K"
| "known_labels K (l # ls) =
     (if l \<in> set K then Some K else if length K < MAX_NAMES then known_labels (K @ [l]) ls else None)"

lemma find_label_known:
  assumes "is_label l" "list_all2 (label_at out) names K"
  shows "find_label out (chr (length l) # l) names = None \<longleftrightarrow> l \<notin> set K \<and> \<not> length K < MAX_NAMES"
    "find_label out (chr (length l) # l) names = Some None \<longleftrightarrow> l \<notin> set K \<and> length K < MAX_NAMES"
proof -
  have n: "length names = length K" using assms(2) by (rule list_all2_lengthD)
  have "List.find (\<lambda>p. same_label (chr (length l) # l) (take (length (chr (length l) # l)) (drop p out))) names = None \<longleftrightarrow> l \<notin> set K"
    using assms(2)
  proof (induction names K rule: list_all2_induct)
    case (Cons p names k K)
    then show ?case using label_at_eq [OF Cons.hyps(1) assms(1)] by (auto simp: eq_commute)
  qed simp
  then show "find_label out (chr (length l) # l) names = None \<longleftrightarrow> l \<notin> set K \<and> \<not> length K < MAX_NAMES"
    "find_label out (chr (length l) # l) names = Some None \<longleftrightarrow> l \<notin> set K \<and> length K < MAX_NAMES"
    using n by (auto simp: find_label_def split: option.splits)
qed

lemma encode_name_known:
  assumes "list_all is_label ls" "list_all2 (label_at out) names K"
  shows "case known_labels K ls of
      None \<Rightarrow> encode_name out (wire ls) names = None
    | Some K' \<Rightarrow> \<exists>r names'. encode_name out (wire ls) names = Some (out @ r, names') \<and> list_all2 (label_at (out @ r)) names' K' \<and>
        length r \<le> length (wire ls) + 2"
  using assms
proof (induction ls arbitrary: out names K)
  case Nil
  then show ?case using list_all2_mono [OF Nil(2) label_at_mono] by (simp add: encode_name.simps(1))
next
  case (Cons l ls)
  have l: "is_label l" "list_all is_label ls" using Cons.prems(1) by simp_all
  note f = find_label_known [OF l(1) Cons.prems(2)] and e = encode_name_step [OF l(1), of out ls names]
  consider "l \<in> set K" | "l \<notin> set K" "\<not> length K < MAX_NAMES" | "l \<notin> set K" "length K < MAX_NAMES" by blast
  then show ?case
  proof cases
    case 1
    then obtain p where "find_label out (chr (length l) # l) names = Some (Some p)"
      using f by (metis not_Some_eq)
    then show ?thesis using 1 e list_all2_mono [OF Cons.prems(2) label_at_mono] by simp
  next
    case 2
    then show ?thesis using f e by simp
  next
    case 3
    let ?out = "out @ chr (length l) # l"
    have "list_all2 (label_at ?out) (names @ [length out]) (K @ [l])"
      using list_all2_mono [OF Cons.prems(2) label_at_mono] label_at_new [OF l(1)] by (simp add: list_all2_appendI)
    from Cons.IH [OF l(2) this] show ?thesis using 3 f e by (fastforce split: option.splits)
  qed
qed

text \<open>Labels that are joined by dots are counted as they are.\<close>

definition dotted :: "string list \<Rightarrow> string" where
  "dotted ls = concat (map (Cons CHR ''.'') ls)"

lemma dotted_simps [simp]: "dotted [] = []" "dotted (l # ls) = CHR ''.'' # l @ dotted ls"
  by (simp_all add: dotted_def)

lemma counted_loop_dotted:
  assumes "list_all (\<lambda>l. l \<noteq> [] \<and> CHR ''.'' \<notin> set l \<and> length l < 256) (l # ls)"
  shows "counted_loop (l @ dotted ls) = wire (l # ls)"
  using assms
proof (induction ls arbitrary: l)
  case Nil
  have d: "takeWhile (\<lambda>c. c = CHR ''.'') l = []" "dropWhile (\<lambda>c. c = CHR ''.'') l = l" "takeWhile (\<lambda>c. c \<noteq> CHR ''.'') l = l" "dropWhile (\<lambda>c. c \<noteq> CHR ''.'') l = []"
    using Nil by (cases l; auto simp: takeWhile_eq_all_conv)+
  have "counted_loop l = chr (length l mod 256) # l" unfolding counted_loop.simps [of l] Let_def d by simp
  then show ?case using Nil by simp
next
  case (Cons m ls)
  let ?s = "l @ dotted (m # ls)"
  have d: "takeWhile (\<lambda>c. c = CHR ''.'') ?s = []" "dropWhile (\<lambda>c. c = CHR ''.'') ?s = ?s" using Cons.prems by (cases l; auto)+
  have e: "takeWhile (\<lambda>c. c \<noteq> CHR ''.'') ?s = l" "dropWhile (\<lambda>c. c \<noteq> CHR ''.'') ?s = dotted (m # ls)"
    using Cons.prems by (subst takeWhile_append2 dropWhile_append2; auto)+
  have "dropWhile (\<lambda>c. c = CHR ''.'') (m @ dotted ls) \<noteq> []" using Cons.prems by (cases m) auto
  then have "counted_loop ?s = chr (length l) # l @ counted_loop (m @ dotted ls)"
    unfolding counted_loop.simps [of ?s] Let_def d e using Cons.prems by auto
  then show ?case using Cons by simp
qed

lemma write_counted_dotted:
  "list_all (\<lambda>l. l \<noteq> [] \<and> CHR ''.'' \<notin> set l \<and> length l < 256) ls \<Longrightarrow> ls \<noteq> [] \<Longrightarrow> write_counted (dotted ls) = wire ls"
  using counted_loop_dotted by (cases ls) (simp_all add: write_counted_def)

end
