(* ===== verification/Sparse_Group.thy ===== *)
theory Sparse_Group
  imports Prelude
begin

section \<open>Sparse groups (core/hash.c)\<close>

text \<open>
  A sparse group holds up to 58 elements: one word with the element count in its top six
  bits and the occupancy bitmap below, and an array of the occupied elements only. The
  array is a list here; \<open>NULL\<close> is the empty list (an allocated array has an element).
  An element that is \<open>NULL\<close> is a deleted one, \<open>None\<close>.
\<close>

unbundle bit_operations_syntax

record 'd sparse_group =
  slot :: "'d option list"
  bits :: u64

text \<open>Count the bits below position \<open>i\<close>, in parallel.\<close>

definition bit_rank :: "u64 \<Rightarrow> nat \<Rightarrow> nat" where
  "bit_rank b i =
     (if i = 0 then 0
      else let r = push_bit (64 - i) b;
               r = r - (drop_bit 1 r AND (NOT 0 div 3));
               r = (r AND (NOT 0 div 5)) + (drop_bit 2 r AND (NOT 0 div 5));
               r = (r + drop_bit 4 r) AND (NOT 0 div 17);
               r = drop_bit 56 (r * (NOT 0 div 255))
           in unat r)"

definition sg_count :: "'d sparse_group \<Rightarrow> nat" where
  "sg_count g = unat (drop_bit 58 (bits g))"

text \<open>
  Insert at position \<open>i\<close>: the array grows by one and the elements from the rank of \<open>i\<close> on
  move up. The code does not ask whether the position is occupied already.
\<close>

definition sg_insert :: "'d sparse_group \<Rightarrow> nat \<Rightarrow> 'd \<Rightarrow> 'd sparse_group" where
  "sg_insert g i data =
     (let s = bit_rank (bits g) i in
      \<lparr>slot = take s (slot g) @ Some data # drop s (slot g),
       bits = (bits g + push_bit 58 1) OR push_bit i 1\<rparr>)"

definition sg_empty :: "'d sparse_group \<Rightarrow> nat \<Rightarrow> bool" where
  "sg_empty g i \<longleftrightarrow> bits g AND push_bit i 1 = 0"

definition sg_element :: "'d sparse_group \<Rightarrow> nat \<Rightarrow> nat" where
  "sg_element g i = bit_rank (bits g) i"

subsection \<open>Numbers as sequences of bytes\<close>

text \<open>The steps of the parallel count act on every byte of the word at once.\<close>

fun of_bytes :: "nat list \<Rightarrow> nat" where
  "of_bytes [] = 0"
| "of_bytes (v # vs) = v + 256 * of_bytes vs"

fun to_bytes :: "nat \<Rightarrow> nat \<Rightarrow> nat list" where
  "to_bytes 0 x = []"
| "to_bytes (Suc n) x = x mod 256 # to_bytes n (x div 256)"

lemma of_to_bytes: "x < 256 ^ n \<Longrightarrow> of_bytes (to_bytes n x) = x"
proof (induction n arbitrary: x)
  case (Suc n)
  then have "x div 256 < 256 ^ n" by (simp add: less_mult_imp_div_less mult.commute)
  with Suc.IH show ?case by simp
qed simp

lemma to_bytes_bound: "v \<in> set (to_bytes n x) \<Longrightarrow> v < 256"
  by (induction n arbitrary: x) auto

lemma length_to_bytes [simp]: "length (to_bytes n x) = n"
  by (induction n arbitrary: x) auto

lemma and_low:
  fixes a b m :: nat
  assumes "m < 2 ^ p"
  shows "(a + 2 ^ p * b) AND m = a AND m"
proof -
  have m: "take_bit p m = m" using assms by (simp add: take_bit_nat_eq_self_iff)
  have cut: "x AND m = take_bit p x AND m" for x :: nat
    using m by (metis take_bit_and and.left_commute and.commute and.assoc take_bit_eq_mask)
  have "take_bit p (a + 2 ^ p * b) = take_bit p a"
    by (simp add: take_bit_eq_mod)
  then show ?thesis by (metis cut)
qed

lemma and_byte:
  fixes x m M :: nat
  assumes "m < 256"
  shows "x AND (m + 256 * M) = (x mod 256 AND m) + 256 * (x div 256 AND M)"
proof -
  let ?y = "x AND (m + 256 * M)"
  have "?y mod 256 = take_bit 8 x AND take_bit 8 (m + 256 * M)"
    using take_bit_and [of 8 x "m + 256 * M"] by (simp add: take_bit_eq_mod)
  then have lo: "?y mod 256 = (x mod 256) AND m"
    using assms by (simp add: take_bit_eq_mod)
  have "?y div 256 = drop_bit 8 x AND drop_bit 8 (m + 256 * M)"
    using drop_bit_and [of 8 x "m + 256 * M"] by (simp add: drop_bit_eq_div)
  then have hi: "?y div 256 = (x div 256) AND M"
    using assms by (simp add: drop_bit_eq_div)
  show ?thesis using mult_div_mod_eq [of 256 ?y] lo hi by linarith
qed

lemma and_mask_bytes:
  assumes "m < 2 ^ (8 - k)" "k \<le> 8" "\<forall>v \<in> set vs. v < 256"
  shows "(of_bytes vs div 2 ^ k) AND of_bytes (map (\<lambda>_. m) vs) = of_bytes (map (\<lambda>v. v div 2 ^ k AND m) vs)"
  using assms(3)
proof (induction vs)
  case (Cons v vs)
  have m256: "m < 256"
    using assms power_increasing [of "8 - k" 8 "2 :: nat"] by simp
  have p: "256 = (2 :: nat) ^ (8 - k) * 2 ^ k"
    using assms(2) by (simp flip: power_add)
  let ?h = "of_bytes vs"
  have v: "v < 256" using Cons.prems by simp
  have sh: "(v + 256 * ?h) div 2 ^ k = v div 2 ^ k + 2 ^ (8 - k) * ?h"
    by (subst p) (simp add: div_add1_eq [of v] mult.assoc [symmetric] mult.commute)
  have vb: "v div 2 ^ k < 2 ^ (8 - k)"
    using v by (subst (asm) p) (simp add: less_mult_imp_div_less)
  have "(v + 256 * ?h) div 2 ^ k div 256 = (v + 256 * ?h) div 256 div 2 ^ k"
    by (metis div_mult2_eq mult.commute)
  then have dv: "(v + 256 * ?h) div 2 ^ k div 256 = ?h div 2 ^ k"
    using v by simp
  have md: "((v + 256 * ?h) div 2 ^ k) mod 256 = v div 2 ^ k + 2 ^ (8 - k) * (?h mod 2 ^ k)"
    unfolding sh by (subst p, subst mod_mult2_eq) (simp add: vb)
  have "((v + 256 * ?h) div 2 ^ k) mod 256 AND m = (v div 2 ^ k) AND m"
    using assms(1) by (simp only: md and_low)
  with Cons m256 dv show ?case by (simp add: and_byte)
qed simp

lemma of_bytes_add: "of_bytes (map f vs) + of_bytes (map g vs) = of_bytes (map (\<lambda>v. f v + g v) vs)"
  by (induction vs) auto

lemma of_bytes_diff:
  "\<forall>v \<in> set vs. g v \<le> f v \<Longrightarrow>
    of_bytes (map g vs) \<le> of_bytes (map f vs) \<and>
    of_bytes (map f vs) - of_bytes (map g vs) = of_bytes (map (\<lambda>v. f v - g v) vs)"
  by (induction vs) auto

lemma of_bytes_fold_nibbles:
  assumes "\<forall>v \<in> set vs. v mod 16 \<le> 4 \<and> v div 16 \<le> 4"
  shows "(of_bytes vs + of_bytes vs div 16) AND of_bytes (map (\<lambda>_. 15) vs) =
    of_bytes (map (\<lambda>v. (v + v div 16) AND 15) vs) \<and> of_bytes vs mod 16 \<le> 4"
  using assms
proof (induction vs)
  case (Cons v vs)
  let ?h = "of_bytes vs"
  have IH: "(?h + ?h div 16) AND of_bytes (map (\<lambda>_. 15) vs) = of_bytes (map (\<lambda>v. (v + v div 16) AND 15) vs)"
    "?h mod 16 \<le> 4"
    using Cons by auto
  let ?lo = "v + v div 16 + 16 * (?h mod 16)"
  have v: "v = 16 * (v div 16) + v mod 16" by simp
  have lo: "?lo < 256" using IH(2) Cons.prems v by auto
  obtain q r where qr: "?h = 16 * q + r" "r < 16" "?h div 16 = q" "?h mod 16 = r"
    by (metis mult_div_mod_eq mod_less_divisor zero_less_numeral)
  have "(v + 256 * ?h) div 16 = v div 16 + 16 * ?h"
    using div_mult_self2 [of 16 v "16 * ?h"] by simp
  then have "v + 256 * ?h + (v + 256 * ?h) div 16 = ?lo + 256 * (?h + ?h div 16)"
    by (simp only: qr(3,4)) (simp add: qr(1))
  then have s: "(v + 256 * ?h + (v + 256 * ?h) div 16) mod 256 = ?lo"
    "(v + 256 * ?h + (v + 256 * ?h) div 16) div 256 = ?h + ?h div 16"
    using lo by (simp_all only: mod_mult_self2 mod_less div_mult_self2 div_less)
  have "?lo AND 15 = (v + v div 16) AND 15"
    using and_low [of 15 4 "v + v div 16" "?h mod 16"] by simp
  with s IH(1) have "(v + 256 * ?h + (v + 256 * ?h) div 16) AND (15 + 256 * of_bytes (map (\<lambda>_. 15) vs)) =
    ((v + v div 16) AND 15) + 256 * of_bytes (map (\<lambda>v. (v + v div 16) AND 15) vs)"
    by (subst and_byte) simp_all
  moreover have "(v + 256 * ?h) mod 16 \<le> 4"
    using Cons.prems mod_mult_self2 [of v 16 "16 * ?h"] by (simp add: mult.assoc [symmetric] del: mod_mult_self2)
  ultimately show ?case by simp
qed simp

subsection \<open>The parallel count\<close>

text \<open>The three steps on one byte count its bits; there are only 256 bytes to try.\<close>

definition pairs :: "nat \<Rightarrow> nat" where "pairs v = v - (v div 2 AND 85)"
definition nibbles :: "nat \<Rightarrow> nat" where "nibbles v = (v AND 51) + (v div 4 AND 51)"
definition byte_sum :: "nat \<Rightarrow> nat" where "byte_sum v = (v + v div 16) AND 15"

definition weight :: "nat \<Rightarrow> nat \<Rightarrow> nat" where
  "weight n x = (\<Sum>j<n. of_bool (bit x j))"

definition of_bits :: "bool \<Rightarrow> bool \<Rightarrow> bool \<Rightarrow> bool \<Rightarrow> bool \<Rightarrow> bool \<Rightarrow> bool \<Rightarrow> bool \<Rightarrow> nat" where
  "of_bits a b c d e f g h = of_bool a + 2 * of_bool b + 4 * of_bool c + 8 * of_bool d +
     16 * of_bool e + 32 * of_bool f + 64 * of_bool g + 128 * of_bool h"

lemma of_bits_odd:
  assumes "v < 256"
  shows "v = of_bits (odd v) (odd (v div 2)) (odd (v div 4)) (odd (v div 8))
    (odd (v div 16)) (odd (v div 32)) (odd (v div 64)) (odd (v div 128))"
proof -
  have step: "x = of_bool (odd x) + 2 * (x div 2)" for x :: nat
    by (simp add: of_bool_def)
  have "v div 128 div 2 = 0" using assms by simp
  then show ?thesis
    using step [of v] step [of "v div 2"] step [of "v div 4"] step [of "v div 8"]
      step [of "v div 16"] step [of "v div 32"] step [of "v div 64"] step [of "v div 128"]
    unfolding of_bits_def div_mult2_eq [symmetric] by simp
qed

lemma pairs_bits:
  "of_bits a b c d e f g h div 2 AND 85 \<le> of_bits a b c d e f g h \<and> pairs (of_bits a b c d e f g h) < 256"
  unfolding of_bits_def
  by (cases a; cases b; cases c; cases d; cases e; cases f; cases g; cases h; simp add: pairs_def flip: numeral_2_eq_2)

lemma nibbles_bits:
  "nibbles (pairs (of_bits a b c d e f g h)) =
    (of_bool a + of_bool b + of_bool c + of_bool d) + 16 * (of_bool e + of_bool f + of_bool g + of_bool h)"
  unfolding of_bits_def
  by (cases a; cases b; cases c; cases d; cases e; cases f; cases g; cases h; simp add: pairs_def nibbles_def flip: numeral_2_eq_2)

lemma byte_sum_nibbles:
  assumes "lo \<le> 4" "hi \<le> 4"
  shows "(lo + 16 * hi) mod 16 = lo" "(lo + 16 * hi) div 16 = hi" "byte_sum (lo + 16 * hi) = lo + hi"
proof -
  show m: "(lo + 16 * hi) mod 16 = lo" and d: "(lo + 16 * hi) div 16 = hi" using assms by simp_all
  have "byte_sum (lo + 16 * hi) = (lo + hi + 2 ^ 4 * hi) AND 15"
    unfolding byte_sum_def d by (simp add: ac_simps)
  also have "\<dots> = (lo + hi) AND 15" by (rule and_low) simp
  also have "\<dots> = lo + hi"
  proof -
    have "(15 :: nat) = mask 4" by (simp add: mask_eq_exp_minus_1)
    then show ?thesis using assms by (simp only: take_bit_eq_mask [symmetric]) (simp add: take_bit_nat_eq_self)
  qed
  finally show "byte_sum (lo + 16 * hi) = lo + hi" .
qed

lemma byte_steps:
  assumes "v < 256"
  shows "v div 2 AND 85 \<le> v" "pairs v < 256" "nibbles (pairs v) mod 16 \<le> 4"
    "nibbles (pairs v) div 16 \<le> 4" "byte_sum (nibbles (pairs v)) = weight 8 v"
proof -
  let ?b = "\<lambda>n. of_bool (odd (v div n)) :: nat"
  let ?lo = "?b 1 + ?b 2 + ?b 4 + ?b 8" and ?hi = "?b 16 + ?b 32 + ?b 64 + ?b 128"
  note v = of_bits_odd [OF assms]
  show "v div 2 AND 85 \<le> v" "pairs v < 256"
    using pairs_bits v by metis+
  have n: "nibbles (pairs v) = ?lo + 16 * ?hi"
    by (subst v) (simp add: nibbles_bits)
  have "of_bool p + of_bool q + of_bool r + of_bool s \<le> (4 :: nat)" for p q r s
    by (cases p; cases q; cases r; cases s; simp)
  then have le: "?lo \<le> 4" "?hi \<le> 4" by blast+
  show "nibbles (pairs v) mod 16 \<le> 4" "nibbles (pairs v) div 16 \<le> 4"
    unfolding n byte_sum_nibbles(1,2) [OF le] by (rule le)+
  have "(\<Sum>j<8. f j) = f 0 + f 1 + f 2 + f 3 + f 4 + f 5 + f 6 + f 7" for f :: "nat \<Rightarrow> nat"
    by (simp add: eval_nat_numeral)
  then show "byte_sum (nibbles (pairs v)) = weight 8 v"
    unfolding n byte_sum_nibbles(3) [OF le] weight_def bit_iff_odd by simp
qed

lemma sum_split: "(\<Sum>j<m + n. f j) = (\<Sum>j<m. f j) + (\<Sum>j<n. f (m + j :: nat) :: nat)"
  by (induction n) simp_all

lemma weight_bytes:
  assumes "\<forall>v \<in> set vs. v < 256"
  shows "weight (8 * length vs) (of_bytes vs) = sum_list (map (weight 8) vs)"
  using assms
proof (induction vs)
  case (Cons v vs)
  let ?x = "v + 256 * of_bytes vs"
  have lo: "bit ?x j \<longleftrightarrow> bit v j" if "j < 8" for j
  proof -
    have "take_bit 8 ?x = v" using Cons.prems by (simp add: take_bit_eq_mod)
    then have "bit v j \<longleftrightarrow> bit (take_bit 8 ?x) j" by simp
    with that show ?thesis by (simp only: bit_take_bit_iff simp_thms)
  qed
  have hi: "bit ?x (8 + j) \<longleftrightarrow> bit (of_bytes vs) j" for j
  proof -
    have "drop_bit 8 ?x = of_bytes vs" using Cons.prems by (simp add: drop_bit_eq_div)
    then show ?thesis by (metis bit_drop_bit_eq comp_apply)
  qed
  have "weight (8 * length (v # vs)) ?x = (\<Sum>j<8 + 8 * length vs. of_bool (bit ?x j))"
    by (simp add: weight_def)
  also have "\<dots> = (\<Sum>j<8. of_bool (bit ?x j)) + (\<Sum>j<8 * length vs. of_bool (bit ?x (8 + j)))"
    by (rule sum_split)
  also have "\<dots> = weight 8 v + weight (8 * length vs) (of_bytes vs)"
    using lo hi by (simp add: weight_def)
  finally show ?case using Cons by simp
qed (simp add: weight_def)

lemma top_byte:
  assumes "length vs = 8" "\<forall>v \<in> set vs. v \<le> 8"
  shows "(of_bytes vs * 72340172838076673) mod 2 ^ 64 div 2 ^ 56 = sum_list vs"
proof -
  obtain a b c d e f g h where vs: "vs = [a, b, c, d, e, f, g, h]"
    using assms(1) by (auto simp: numeral_eq_Suc length_Suc_conv)
  let ?lo = "a + 256 * (a + b) + 65536 * (a + b + c) + 2 ^ 24 * (a + b + c + d) +
      2 ^ 32 * (a + b + c + d + e) + 2 ^ 40 * (a + b + c + d + e + f) + 2 ^ 48 * (a + b + c + d + e + f + g)"
  let ?hi = "b + c + d + e + f + g + h + 256 * (c + d + e + f + g + h) + 65536 * (d + e + f + g + h) +
      2 ^ 24 * (e + f + g + h) + 2 ^ 32 * (f + g + h) + 2 ^ 40 * (g + h) + 2 ^ 48 * h"
  have le: "a \<le> 8" "b \<le> 8" "c \<le> 8" "d \<le> 8" "e \<le> 8" "f \<le> 8" "g \<le> 8" "h \<le> 8"
    using assms(2) vs by auto
  have eq: "of_bytes vs * 72340172838076673 = ?lo + 2 ^ 56 * sum_list vs + 2 ^ 64 * ?hi"
    by (simp add: vs)
  have lo: "?lo < 2 ^ 56" using le by simp
  have s: "sum_list vs < 256" using le by (simp add: vs)
  have "(?lo + 2 ^ 56 * sum_list vs + 2 ^ 64 * ?hi) mod 2 ^ 64 = ?lo + 2 ^ 56 * sum_list vs"
  proof -
    have "?lo + 2 ^ 56 * sum_list vs < 2 ^ 64" using lo s by simp
    then show ?thesis by (simp only: mod_mult_self2 mod_less)
  qed
  then show ?thesis
    unfolding eq using lo by (simp only: div_mult_self2 div_less add_0 power_not_zero zero_neq_numeral not_False_eq_True)
qed

definition par_count :: "u64 \<Rightarrow> nat" where
  "par_count r =
     (let r = r - (drop_bit 1 r AND (NOT 0 div 3));
          r = (r AND (NOT 0 div 5)) + (drop_bit 2 r AND (NOT 0 div 5));
          r = (r + drop_bit 4 r) AND (NOT 0 div 17);
          r = drop_bit 56 (r * (NOT 0 div 255))
      in unat r)"

lemma word_masks:
  "(NOT 0 div 3 :: u64) = 6148914691236517205" "(NOT 0 div 5 :: u64) = 3689348814741910323"
  "(NOT 0 div 17 :: u64) = 1085102592571150095" "(NOT 0 div 255 :: u64) = 72340172838076673"
  by simp_all

lemma of_bytes_const:
  assumes "length vs = 8"
  shows "of_bytes (map (\<lambda>_. m) vs) = m * 72340172838076673"
proof -
  obtain a b c d e f g h where "vs = [a, b, c, d, e, f, g, h]"
    using assms by (auto simp: numeral_eq_Suc length_Suc_conv)
  then show ?thesis by simp
qed

lemma and_mask8:
  assumes "m < 2 ^ (8 - k)" "k \<le> 8" "\<forall>v \<in> set vs. v < 256" "length vs = 8"
  shows "(of_bytes vs div 2 ^ k) AND (m * 72340172838076673) = of_bytes (map (\<lambda>v. v div 2 ^ k AND m) vs)"
  using and_mask_bytes [OF assms(1-3)] of_bytes_const [OF assms(4)] by simp

lemma par_count_weight: "par_count r = weight 64 (unat r)"
proof -
  define vs where "vs = to_bytes 8 (unat r)"
  define ps where "ps = map pairs vs"
  define ns where "ns = map nibbles ps"
  have len: "length vs = 8" "length ps = 8" "length ns = 8"
    by (simp_all add: vs_def ps_def ns_def)
  have vs: "\<forall>v \<in> set vs. v < 256"
    by (auto simp: vs_def to_bytes_bound)
  have ps: "\<forall>v \<in> set ps. v < 256" and ns: "\<forall>v \<in> set ns. v mod 16 \<le> 4 \<and> v div 16 \<le> 4"
    using vs byte_steps by (auto simp: ps_def ns_def)
  have r: "unat r = of_bytes vs"
    using of_to_bytes [of "unat r" 8] unat_less [of r] by (simp add: vs_def)
  define r1 where "r1 = r - (drop_bit 1 r AND (NOT 0 div 3))"
  define r2 where "r2 = (r1 AND (NOT 0 div 5)) + (drop_bit 2 r1 AND (NOT 0 div 5))"
  define r3 where "r3 = (r2 + drop_bit 4 r2) AND (NOT 0 div 17)"
  note u = unsigned_and_eq unat_drop_div word_masks
  have m1: "unat (drop_bit 1 r AND (NOT 0 div 3)) = of_bytes (map (\<lambda>v. v div 2 AND 85) vs)"
    using and_mask8 [of 85 1 vs] vs len by (simp only: u r) simp
  have d1: "of_bytes (map (\<lambda>v. v div 2 AND 85) vs) \<le> of_bytes vs \<and>
    of_bytes vs - of_bytes (map (\<lambda>v. v div 2 AND 85) vs) = of_bytes ps"
    using of_bytes_diff [of vs "\<lambda>v. v div 2 AND 85" "\<lambda>v. v"] vs byte_steps(1)
    by (simp add: ps_def pairs_def [abs_def])
  then have r1: "unat r1 = of_bytes ps"
    unfolding r1_def by (subst unat_sub) (simp_all only: word_le_nat_alt m1 r)
  have m2: "unat (r1 AND (NOT 0 div 5)) = of_bytes (map (\<lambda>v. v AND 51) ps)"
    using and_mask8 [of 51 0 ps] ps len by (simp only: u r1) simp
  have m2': "unat (drop_bit 2 r1 AND (NOT 0 div 5)) = of_bytes (map (\<lambda>v. v div 4 AND 51) ps)"
    using and_mask8 [of 51 2 ps] ps len by (simp only: u r1) simp
  have s2: "of_bytes (map (\<lambda>v. v AND 51) ps) + of_bytes (map (\<lambda>v. v div 4 AND 51) ps) = of_bytes ns"
    by (simp add: of_bytes_add ns_def nibbles_def [abs_def])
  have "\<forall>v \<in> set ns. v \<le> 68"
  proof
    fix v assume "v \<in> set ns"
    then have "v mod 16 \<le> 4" "v div 16 \<le> 4" using ns by blast+
    then show "v \<le> 68" using mult_div_mod_eq [of 16 v] by linarith
  qed
  then have "of_bytes ns \<le> of_bytes (map (\<lambda>_. 68) ns)"
    using of_bytes_diff [of ns "\<lambda>v. v" "\<lambda>_. 68"] by simp
  then have ns_le: "of_bytes ns \<le> 4919131752989213764"
    by (simp add: of_bytes_const [OF len(3)])
  then have r2: "unat r2 = of_bytes ns"
    unfolding r2_def by (subst unat_add_lem [THEN iffD1]) (simp_all only: m2 m2' s2, simp)
  have "of_bytes ns + of_bytes ns div 16 < 2 ^ 64" using ns_le by simp
  then have "unat (r2 + drop_bit 4 r2) = of_bytes ns + of_bytes ns div 16"
    by (subst unat_add_lem [THEN iffD1]) (simp_all add: r2 unat_drop_div)
  then have r3: "unat r3 = of_bytes (map byte_sum ns)"
    unfolding r3_def using of_bytes_fold_nibbles [OF ns]
    by (simp only: u) (simp add: of_bytes_const [OF len(3)] byte_sum_def [abs_def])
  have sums: "map byte_sum ns = map (weight 8) vs"
    using vs byte_steps(5) by (simp add: ns_def ps_def)
  have "weight 8 v \<le> 8" for v
    using sum_bounded_above [of "{..<8 :: nat}" "\<lambda>j. of_bool (bit v j)" "1 :: nat"]
    by (simp add: weight_def)
  then have "(of_bytes (map (weight 8) vs) * 72340172838076673) mod 2 ^ 64 div 2 ^ 56 = sum_list (map (weight 8) vs)"
    by (intro top_byte) (auto simp: len)
  then have "unat (drop_bit 56 (r3 * (NOT 0 div 255))) = sum_list (map (weight 8) vs)"
    by (simp only: u unat_word_ariths r3 sums) simp
  then have "par_count r = sum_list (map (weight 8) vs)"
    by (simp only: par_count_def Let_def flip: r1_def r2_def r3_def)
  also have "\<dots> = weight 64 (unat r)"
    using weight_bytes [OF vs] by (simp add: len r)
  finally show ?thesis .
qed

subsection \<open>The rank of a position\<close>

definition rank :: "u64 \<Rightarrow> nat \<Rightarrow> nat" where
  "rank b i = card {j. j < i \<and> bit b j}"

lemma weight_rank: "weight i (unat b) = rank b i"
proof -
  have "weight i (unat b) = (\<Sum>j<i. of_bool (bit b j))"
    by (simp add: weight_def bit_unsigned_iff)
  also have "\<dots> = card ({..<i} \<inter> {j. bit b j})"
    by (simp add: of_bool_def sum.If_cases)
  finally show ?thesis
    by (simp add: rank_def Collect_conj_eq lessThan_def)
qed

lemma bit_rank_eq:
  assumes "i \<le> 64"
  shows "bit_rank b i = rank b i"
proof (cases "i = 0")
  case False
  have "bit_rank b i = par_count (push_bit (64 - i) b)"
    using False by (simp only: bit_rank_def par_count_def if_False Let_def)
  also have "\<dots> = (\<Sum>j<(64 - i) + i. of_bool (bit (push_bit (64 - i) b) j))"
    using assms by (simp add: par_count_weight weight_def bit_unsigned_iff del: bit_push_bit_iff)
  also have "\<dots> = (\<Sum>j<i. of_bool (bit b j))"
  proof -
    have "bit (push_bit (64 - i) b) ((64 - i) + j) = bit b j" if "j < i" for j
    proof -
      have "64 - i \<le> 64 - i + j" "64 - i + j < 64" using that assms by linarith+
      then show ?thesis by (simp only: bit_push_bit_iff possible_bit_def) simp
    qed
    moreover have "\<not> bit (push_bit (64 - i) b) j" if "j < 64 - i" for j
      using that by (simp add: bit_push_bit_iff)
    ultimately show ?thesis by (subst sum_split) (simp del: bit_push_bit_iff)
  qed
  also have "\<dots> = rank b i"
    by (simp add: weight_def bit_unsigned_iff flip: weight_rank)
  finally show ?thesis .
qed (simp add: bit_rank_def rank_def)

lemma rank_0 [simp]: "rank b 0 = 0"
  by (simp add: rank_def)

lemma rank_Suc: "rank b (Suc i) = rank b i + of_bool (bit b i)"
proof -
  have "{j. j < Suc i \<and> bit b j} = {j. j < i \<and> bit b j} \<union> (if bit b i then {i} else {})"
    by (auto simp: less_Suc_eq)
  then show ?thesis by (simp add: rank_def card_Un_disjoint)
qed

lemma rank_mono: "i \<le> j \<Longrightarrow> rank b i \<le> rank b j"
  by (auto simp: rank_def intro!: card_mono)

lemma rank_less: "i < j \<Longrightarrow> bit b i \<Longrightarrow> rank b i < rank b j"
  using rank_mono [of "Suc i" j b] by (simp add: rank_Suc)

lemma rank_cong: "(\<And>j. j < i \<Longrightarrow> bit a j = bit b j) \<Longrightarrow> rank a i = rank b i"
  unfolding rank_def by (rule arg_cong [of _ _ card]) auto

lemma rank_set:
  assumes "\<And>j. j < n \<Longrightarrow> bit a j \<longleftrightarrow> j = i \<or> bit b j" "\<not> bit b i" "j \<le> n"
  shows "rank a j = rank b j + of_bool (i < j)"
  using assms(3)
proof (induction j)
  case (Suc j)
  then have "bit a j \<longleftrightarrow> j = i \<or> bit b j" using assms(1) by simp
  with Suc assms(2) show ?case by (cases "i = j") (auto simp: rank_Suc)
qed simp

subsection \<open>Insertion\<close>

text \<open>A group is well formed when the count and the array agree with the bitmap.\<close>

definition sg_ok :: "'d sparse_group \<Rightarrow> bool" where
  "sg_ok g \<longleftrightarrow> length (slot g) = rank (bits g) 58 \<and> sg_count g = length (slot g)"

text \<open>What is stored at a position: nothing, a deleted element or an element.\<close>

definition sg_view :: "'d sparse_group \<Rightarrow> nat \<Rightarrow> 'd option option" where
  "sg_view g i = (if sg_empty g i then None else Some (slot g ! sg_element g i))"

lemma sg_empty_iff: "sg_empty g i \<longleftrightarrow> \<not> bit (bits g) i"
  by (simp add: sg_empty_def bit_iff_and_push_bit_not_eq_0)

lemma insert_bits_low: "j < 58 \<Longrightarrow> bit (b + push_bit 58 1 :: u64) j = bit b j"
proof -
  assume j: "j < 58"
  have "take_bit 58 (unat (b + push_bit 58 1)) = take_bit 58 (unat b)"
    by (simp add: unat_word_ariths take_bit_eq_mod push_bit_eq_mult mod_mod_cancel)
  then have "bit (take_bit 58 (unat (b + push_bit 58 1))) j = bit (take_bit 58 (unat b)) j" by simp
  with j show ?thesis by (simp only: bit_take_bit_iff simp_thms bit_unsigned_iff) (simp add: possible_bit_def)
qed

lemma insert_bits_high:
  fixes b :: u64
  assumes "unat (drop_bit 58 b) < 63" "i < 58"
  shows "unat (drop_bit 58 ((b + push_bit 58 1) OR push_bit i 1)) = Suc (unat (drop_bit 58 b))"
proof -
  have "drop_bit 58 (push_bit i (1 :: u64)) = 0"
    using assms(2) by (intro bit_eqI) (auto simp: bit_drop_bit_eq bit_exp_iff possible_bit_def)
  then have "drop_bit 58 ((b + push_bit 58 1) OR push_bit i 1) = drop_bit 58 (b + push_bit 58 1)"
    by simp
  moreover have "unat b div 2 ^ 58 < 63" using assms(1) by (simp add: unat_drop_div)
  then have "unat b + 2 ^ 58 < 2 ^ 64" by simp
  then have "unat (b + push_bit 58 1) = unat b + 2 ^ 58"
    by (subst unat_add_lem [THEN iffD1]) (simp_all add: push_bit_eq_mult)
  ultimately show ?thesis by (simp add: unat_drop_div)
qed

text \<open>Inserting at an empty position stores the element there and moves nothing else.\<close>

lemma sg_insert_ok:
  assumes "sg_ok g" "sg_empty g i" "i < 58"
  shows "sg_ok (sg_insert g i d)"
    "j < 58 \<Longrightarrow> sg_view (sg_insert g i d) j = (if j = i then Some (Some d) else sg_view g j)"
proof -
  let ?g = "sg_insert g i d" and ?s = "rank (bits g) i"
  have bits: "bit (bits ?g) j \<longleftrightarrow> j = i \<or> bit (bits g) j" if "j < 58" for j
    using that by (auto simp: sg_insert_def Let_def bit_or_iff bit_exp_iff possible_bit_def insert_bits_low [simplified])
  have free: "\<not> bit (bits g) i" using assms(2) by (simp add: sg_empty_iff)
  have rk: "rank (bits ?g) j = rank (bits g) j + of_bool (i < j)" if "j \<le> 58" for j
    using rank_set [OF bits free that] .
  have s: "?s \<le> length (slot g)"
    using assms rank_mono [of i 58 "bits g"] by (simp add: sg_ok_def)
  have slot: "slot ?g = take ?s (slot g) @ Some d # drop ?s (slot g)"
    using assms(3) by (simp add: sg_insert_def Let_def bit_rank_eq)
  have "rank (bits g) 58 < 58"
  proof -
    have "{j. j < 58 \<and> bit (bits g) j} \<subset> {..<58}" using free assms(3) by auto
    then have "rank (bits g) 58 < card {..<58 :: nat}"
      unfolding rank_def by (intro psubset_card_mono) simp_all
    then show ?thesis by simp
  qed
  then have "sg_count ?g = Suc (sg_count g)"
    using assms insert_bits_high [of "bits g" i]
    by (simp add: sg_ok_def sg_count_def sg_insert_def Let_def)
  with assms s slot rk [of 58] show "sg_ok ?g" by (simp add: sg_ok_def)
  show "sg_view ?g j = (if j = i then Some (Some d) else sg_view g j)" if j: "j < 58"
  proof (cases "j = i")
    case True
    with j bits s slot rk [of j] show ?thesis
      by (simp add: sg_view_def sg_empty_iff sg_element_def bit_rank_eq nth_append)
  next
    case ne: False
    show ?thesis
    proof (cases "bit (bits g) j")
      case True
      have "j < i \<Longrightarrow> rank (bits g) j < ?s" using True by (simp add: rank_less)
      moreover have "i < j \<Longrightarrow> ?s \<le> rank (bits g) j" by (intro rank_mono) simp
      ultimately show ?thesis
        using ne j True bits rk [of j] s slot
        by (auto simp: sg_view_def sg_empty_iff sg_element_def bit_rank_eq nth_append nat_neq_iff)
    qed (use ne j bits in \<open>simp add: sg_view_def sg_empty_iff\<close>)
  qed
qed

text \<open>Writing the element that a position refers to (a replacement or a deletion).\<close>

definition sg_write :: "'d sparse_group \<Rightarrow> nat \<Rightarrow> 'd option \<Rightarrow> 'd sparse_group" where
  "sg_write g e v = g\<lparr>slot := (slot g)[e := v]\<rparr>"

lemma sg_element_less: "sg_ok g \<Longrightarrow> i < 58 \<Longrightarrow> bit (bits g) i \<Longrightarrow> sg_element g i < length (slot g)"
  using rank_less [of i 58 "bits g"] by (simp add: sg_ok_def sg_element_def bit_rank_eq)

lemma sg_write_ok:
  assumes "sg_ok g" "i < 58" "\<not> sg_empty g i"
  shows "sg_ok (sg_write g (sg_element g i) v)"
    "j < 58 \<Longrightarrow> sg_view (sg_write g (sg_element g i) v) j = (if j = i then Some v else sg_view g j)"
proof -
  show "sg_ok (sg_write g (sg_element g i) v)"
    using assms(1) by (simp add: sg_ok_def sg_write_def sg_count_def)
  have i: "bit (bits g) i" using assms(3) by (simp add: sg_empty_iff)
  show "sg_view (sg_write g (sg_element g i) v) j = (if j = i then Some v else sg_view g j)" if j: "j < 58"
  proof (cases "j = i \<or> \<not> bit (bits g) j")
    case True
    with i sg_element_less [OF assms(1,2) i] show ?thesis
      by (auto simp: sg_view_def sg_write_def sg_empty_iff sg_element_def)
  next
    case False
    then have "rank (bits g) j \<noteq> rank (bits g) i"
      using rank_less [of j i "bits g"] rank_less [of i j "bits g"] i by (auto simp: nat_neq_iff)
    with False i j assms(2) show ?thesis
      by (simp add: sg_view_def sg_write_def sg_empty_iff sg_element_def bit_rank_eq)
  qed
qed

end
