(* ===== verification/Hash.thy ===== *)
theory Hash
  imports Sparse_Group
begin

section \<open>The hash table (core/hash.c)\<close>

text \<open>
  A table is an array of sparse groups with open addressing and triangular probing. The
  three functions of a table are its first three fields. The fields \<open>g\<close> and \<open>i\<close> of the
  struct, where the last search saw the first free place, are \<open>hmark\<close> (\<open>None\<close> when
  \<open>g\<close> is \<open>NULL\<close>). A pointer to an element is the number of its group and its index in the
  group's array.

  A result \<open>None\<close> is a run that does not return (the probing meets no empty place) or that
  writes through the \<open>NULL\<close> pointer \<open>g\<close>. An operation that resizes frees the table that
  its caller holds: the table it leaves to the caller is then \<open>None\<close>.
\<close>

record ('d, 'k) hash_table =
  get_key :: "'d \<Rightarrow> 'k"
  hash_of :: "'k \<Rightarrow> int"
  compare_of :: "'k \<Rightarrow> 'k \<Rightarrow> int"
  hmark :: "(nat \<times> nat) option"
  hitems :: nat
  hmin :: nat
  hmax :: nat
  hsize :: nat
  htable :: "'d sparse_group list"

type_synonym hptr = "nat \<times> nat"

definition hash_init :: "('d, 'k) hash_table \<Rightarrow> nat \<Rightarrow> ('d, 'k) hash_table" where
  "hash_init ht sz =
     ht\<lparr>hsize := sz, hmin := (sz * 40) div 100, hmax := (sz * 80) div 100,
       htable := replicate ((sz + 57) div 58) \<lparr>slot = [], bits = 0\<rparr>\<rparr>"

definition hash_new :: "('d \<Rightarrow> 'k) \<Rightarrow> ('k \<Rightarrow> int) \<Rightarrow> ('k \<Rightarrow> 'k \<Rightarrow> int) \<Rightarrow> nat \<Rightarrow> ('d, 'k) hash_table" where
  "hash_new gk h c sz =
     hash_init \<lparr>get_key = gk, hash_of = h, compare_of = c, hmark = None, hitems = 0,
       hmin = 0, hmax = 0, hsize = 0, htable = []\<rparr> sz"

subsection \<open>Search\<close>

partial_function (option) hash_find_loop ::
    "('d, 'k) hash_table \<Rightarrow> 'k \<Rightarrow> nat \<Rightarrow> nat \<Rightarrow> hptr option \<Rightarrow> (hptr option \<times> hptr option) option" where
  "hash_find_loop ht key index probes mark =
     (let gi = index div 58; g = htable ht ! gi; i = index mod 58;
          next = (index + Suc probes) AND (hsize ht - 1);
          marked = (case mark of None \<Rightarrow> Some (gi, i) | Some p \<Rightarrow> Some p)
      in if slot g = [] \<or> sg_empty g i then Some (marked, None)
         else (case slot g ! sg_element g i of
             Some d \<Rightarrow>
               if compare_of ht key (get_key ht d) = 0 then Some (mark, Some (gi, sg_element g i))
               else hash_find_loop ht key next (Suc probes) mark
           | None \<Rightarrow> hash_find_loop ht key next (Suc probes) marked))"

declare hash_find_loop.simps [code]

definition hash_index :: "('d, 'k) hash_table \<Rightarrow> 'k \<Rightarrow> nat" where
  "hash_index ht key = nat (hash_of ht key AND int (hsize ht - 1))"

definition hash_find :: "('d, 'k) hash_table \<Rightarrow> 'k \<Rightarrow> (('d, 'k) hash_table \<times> hptr option) option" where
  "hash_find ht key =
     do { (mark, e) \<leftarrow> hash_find_loop ht key (hash_index ht key) 0 None;
          Some (ht\<lparr>hmark := mark\<rparr>, e) }"

definition deref :: "('d, 'k) hash_table \<Rightarrow> hptr \<Rightarrow> 'd option" where
  "deref ht p = slot (htable ht ! fst p) ! snd p"

definition store :: "('d, 'k) hash_table \<Rightarrow> hptr \<Rightarrow> 'd option \<Rightarrow> ('d, 'k) hash_table" where
  "store ht p v = ht\<lparr>htable := (htable ht)[fst p := sg_write (htable ht ! fst p) (snd p) v]\<rparr>"

definition hash_insert :: "('d, 'k) hash_table \<Rightarrow> 'd \<Rightarrow> ('d, 'k) hash_table option" where
  "hash_insert ht data =
     (case hmark ht of
        None \<Rightarrow> None
      | Some (g, i) \<Rightarrow> Some (ht\<lparr>htable := (htable ht)[g := sg_insert (htable ht ! g) i data]\<rparr>))"

subsection \<open>Iteration\<close>

text \<open>
  \<open>hash_next\<close> moves to the next element that is not \<open>NULL\<close>, in this group or in one of
  the groups up to the last. The index is that of the element after the last one seen.
\<close>

function hash_scan :: "('d, 'k) hash_table \<Rightarrow> nat \<Rightarrow> nat \<Rightarrow> (hptr \<times> 'd) option" where
  "hash_scan ht g i =
     (if g \<ge> length (htable ht) then None
      else if i < sg_count (htable ht ! g) then
        (case slot (htable ht ! g) ! i of Some d \<Rightarrow> Some ((g, i), d) | None \<Rightarrow> hash_scan ht g (Suc i))
      else if Suc g \<ge> length (htable ht) then None
      else hash_scan ht (Suc g) 0)"
  by pat_completeness auto
termination
  by (relation "measures [\<lambda>(ht, g, i). length (htable ht) - g, \<lambda>(ht, g, i). sg_count (htable ht ! g) - i]") auto

declare hash_scan.simps [simp del]

definition hash_next :: "('d, 'k) hash_table \<Rightarrow> hptr \<Rightarrow> (hptr \<times> 'd) option" where
  "hash_next ht p = hash_scan ht (fst p) (Suc (snd p))"

definition hash_iterate :: "('d, 'k) hash_table \<Rightarrow> (hptr \<times> 'd) option" where
  "hash_iterate ht = hash_scan ht 0 0"

definition hash_erase :: "('d, 'k) hash_table \<Rightarrow> hptr \<Rightarrow> ('d, 'k) hash_table" where
  "hash_erase ht p = (store ht p None)\<lparr>hitems := hitems ht - 1\<rparr>"

text \<open>The loop of \<open>foreach_h\<close>, over the elements that \<open>hash_next\<close> gives.\<close>

partial_function (option) hash_foreach ::
    "('d, 'k) hash_table \<Rightarrow> (hptr \<times> 'd) option \<Rightarrow> ('s \<Rightarrow> 'd \<Rightarrow> 's option) \<Rightarrow> 's \<Rightarrow> 's option" where
  "hash_foreach ht h f s =
     (case h of None \<Rightarrow> Some s
      | Some (p, d) \<Rightarrow> do { s \<leftarrow> f s d; hash_foreach ht (hash_next ht p) f s })"

declare hash_foreach.simps [code]

subsection \<open>Put, delete and get\<close>

definition hash_resize :: "('d, 'k) hash_table \<Rightarrow> nat \<Rightarrow> ('d, 'k) hash_table option" where
  "hash_resize ht sz =
     (let gt = (hash_new (get_key ht) (hash_of ht) (compare_of ht) sz)\<lparr>hitems := hitems ht\<rparr>
      in hash_foreach ht (hash_iterate ht) hash_insert gt)"

definition hash_put :: "('d, 'k) hash_table \<Rightarrow> 'd \<Rightarrow> ('d, 'k) hash_table option option" where
  "hash_put ht data =
     do { (ht, e) \<leftarrow> hash_find ht (get_key ht data);
          case e of
            Some p \<Rightarrow> Some (Some (store ht p (Some data)))
          | None \<Rightarrow>
              if hitems ht = hmax ht then
                do { gt \<leftarrow> hash_resize ht (hsize ht * 2); gt \<leftarrow> hash_insert gt data; Some None }
              else
                do { ht \<leftarrow> hash_insert ht data; Some (Some (ht\<lparr>hitems := hitems ht + 1\<rparr>)) } }"

definition hash_delete ::
    "('d, 'k) hash_table \<Rightarrow> 'k \<Rightarrow> ('d option \<times> ('d, 'k) hash_table option) option" where
  "hash_delete ht key =
     do { (ht, e) \<leftarrow> hash_find ht key;
          case e of
            Some p \<Rightarrow>
              let tmp = deref ht p; ht = store ht p None in
              if hitems ht = hmin ht then
                do { gt \<leftarrow> hash_resize ht (hsize ht div 2); Some (tmp, None) }
              else Some (tmp, Some (ht\<lparr>hitems := hitems ht - 1\<rparr>))
          | None \<Rightarrow> Some (None, Some ht) }"

definition hash_get :: "('d, 'k) hash_table \<Rightarrow> 'k \<Rightarrow> ('d option \<times> ('d, 'k) hash_table) option" where
  "hash_get ht key =
     do { (ht, e) \<leftarrow> hash_find ht key;
          Some (case e of Some p \<Rightarrow> deref ht p | None \<Rightarrow> None, ht) }"

text \<open>The groups whose arrays \<open>hash_free\<close> frees.\<close>

definition hash_free_groups :: "('d, 'k) hash_table \<Rightarrow> nat list" where
  "hash_free_groups ht = (let last = length (htable ht) - 1 in [0..<max 1 last])"

subsection \<open>The hash and comparison functions\<close>

definition djb2_step :: "u64 \<Rightarrow> int \<Rightarrow> u64" where
  "djb2_step hash c = (push_bit 5 hash + hash) + word_of_int c"

definition string_hash :: "string \<Rightarrow> int" where
  "string_hash str = c_int (uint (fold (\<lambda>c hash. djb2_step hash (cv c)) str 5381))"

text \<open>\<open>strcmp\<close> of the C library: only the sign of its result is specified.\<close>

fun strcmp :: "string \<Rightarrow> string \<Rightarrow> int" where
  "strcmp [] [] = 0"
| "strcmp [] (b # bs) = -1"
| "strcmp (a # as) [] = 1"
| "strcmp (a # as) (b # bs) = (if a = b then strcmp as bs else if (of_char a :: nat) < of_char b then -1 else 1)"

definition int64_compare :: "int \<Rightarrow> int \<Rightarrow> int" where
  "int64_compare x y = (if x = y then 0 else 1)"

definition int64_hash :: "int \<Rightarrow> int" where
  "int64_hash data =
     (let key = word_of_int data :: u64;
          key = NOT key + push_bit 21 key;
          key = key XOR drop_bit 24 key;
          key = (key + push_bit 3 key) + push_bit 8 key;
          key = key XOR drop_bit 14 key;
          key = (key + push_bit 2 key) + push_bit 4 key;
          key = key XOR drop_bit 28 key;
          key = key + push_bit 31 key
      in c_int (uint key))"

text \<open>Sixteen bytes; \<open>memcmp\<close> compares them as unsigned numbers.\<close>

fun memcmp :: "u8 list \<Rightarrow> u8 list \<Rightarrow> int" where
  "memcmp (a # as) (b # bs) = (if a = b then memcmp as bs else if a < b then -1 else 1)"
| "memcmp as bs = 0"

definition int128_compare :: "u8 list \<Rightarrow> u8 list \<Rightarrow> int" where
  "int128_compare a b = memcmp (take 16 a) (take 16 b)"

definition int128_hash :: "u8 list \<Rightarrow> int" where
  "int128_hash data = c_int (uint (fold (\<lambda>b hash. djb2_step hash (sint b)) (take 16 data) 5381))"

definition new_string_hash :: "nat \<Rightarrow> ('d \<Rightarrow> string) \<Rightarrow> ('d, string) hash_table" where
  "new_string_hash sz gk = hash_new gk string_hash strcmp sz"

definition new_int64_hash :: "nat \<Rightarrow> ('d \<Rightarrow> int) \<Rightarrow> ('d, int) hash_table" where
  "new_int64_hash sz gk = hash_new gk int64_hash int64_compare sz"

definition new_int128_hash :: "nat \<Rightarrow> ('d \<Rightarrow> u8 list) \<Rightarrow> ('d, u8 list) hash_table" where
  "new_int128_hash sz gk = hash_new gk int128_hash int128_compare sz"

subsection \<open>Triangular probing\<close>

definition probe :: "nat \<Rightarrow> nat \<Rightarrow> nat \<Rightarrow> nat" where
  "probe sz h k = (h + k * (k + 1) div 2) mod sz"

lemma probe_less: "0 < sz \<Longrightarrow> probe sz h k < sz"
  by (simp add: probe_def)

lemma probe_0: "h < sz \<Longrightarrow> probe sz h 0 = h"
  by (simp add: probe_def)

lemma and_size_mask: "x AND (2 ^ n - 1) = x mod (2 ^ n :: nat)"
  by (metis mask_eq_exp_minus_1 take_bit_eq_mask take_bit_eq_mod)

lemma triangle_Suc: "Suc k * (Suc k + 1) div 2 = k * (k + 1) div 2 + Suc k" for k :: nat
proof -
  have "Suc k * (Suc k + 1) = k * (k + 1) + 2 * Suc k" by simp
  then show ?thesis by presburger
qed

lemma probe_Suc: "(probe (2 ^ n) h k + Suc k) AND (2 ^ n - 1) = probe (2 ^ n) h (Suc k)"
  unfolding and_size_mask probe_def triangle_Suc by (simp only: mod_add_left_eq add.assoc)

text \<open>The first \<open>2 ^ n\<close> probes are different, so they visit every place.\<close>

lemma probe_inj:
  assumes "probe (2 ^ n) h i = probe (2 ^ n) h j" "i < j" "j < 2 ^ n"
  shows False
proof -
  let ?t = "\<lambda>k :: nat. k * (k + 1) div 2"
  have tt: "2 * ?t k = k * (k + 1)" for k :: nat by simp
  have le: "?t i \<le> ?t j" using assms(2) by (intro div_le_mono mult_le_mono) auto
  have "(h + ?t i) mod 2 ^ n = (h + ?t j) mod 2 ^ n"
    using assms(1) by (simp add: probe_def)
  then have "2 ^ n dvd (h + ?t j) - (h + ?t i)"
    using le by (metis mod_eq_dvd_iff_nat add_le_mono1 add.commute)
  then have "2 ^ n dvd ?t j - ?t i" by (simp only: add_diff_cancel_left)
  then have "2 * 2 ^ n dvd 2 * (?t j - ?t i)" by (rule mult_dvd_mono [OF dvd_refl])
  moreover have "2 * (?t j - ?t i) = (j - i) * (i + j + 1)"
  proof -
    obtain d where "j = i + d" using assms(2) less_imp_add_positive by blast
    then have "j * (j + 1) - i * (i + 1) = (j - i) * (i + j + 1)" by (simp add: algebra_simps)
    then show ?thesis by (simp only: diff_mult_distrib2 tt)
  qed
  ultimately have dvd: "2 ^ Suc n dvd (j - i) * (i + j + 1)" by (simp only: power_Suc)
  show False
  proof (cases "even (j - i)")
    case True
    then have "odd (i + j + 1)" using assms(2) by simp
    then have "coprime (2 ^ Suc n) (i + j + 1)" by simp
    then have "2 ^ Suc n dvd j - i" using dvd coprime_dvd_mult_left_iff by blast
    with assms(2,3) show False by (auto dest!: dvd_imp_le)
  next
    case False
    then have "coprime (2 ^ Suc n) (j - i)" by simp
    then have "2 ^ Suc n dvd i + j + 1" using dvd coprime_dvd_mult_right_iff by blast
    then have "2 ^ Suc n \<le> i + j + 1" by (rule dvd_imp_le) simp
    with assms(2,3) show False by simp
  qed
qed

lemma probe_covers:
  assumes "x < 2 ^ n"
  shows "\<exists>k < 2 ^ n. probe (2 ^ n) h k = x"
proof -
  have "inj_on (probe (2 ^ n) h) {..<2 ^ n}"
    by (rule linorder_inj_onI') (use probe_inj in auto)
  then have "probe (2 ^ n) h ` {..<2 ^ n} = {..<2 ^ n}"
    by (intro endo_inj_surj) (auto intro: probe_less)
  with assms show ?thesis by (metis imageE lessThan_iff)
qed

subsection \<open>Well-formed tables\<close>

text \<open>The place \<open>idx\<close>: its content, its mark and the pointer to its element.\<close>

definition view :: "('d, 'k) hash_table \<Rightarrow> nat \<Rightarrow> 'd option option" where
  "view ht idx = sg_view (htable ht ! (idx div 58)) (idx mod 58)"

definition place :: "nat \<Rightarrow> hptr" where
  "place idx = (idx div 58, idx mod 58)"

definition ptr :: "('d, 'k) hash_table \<Rightarrow> nat \<Rightarrow> hptr" where
  "ptr ht idx = (idx div 58, sg_element (htable ht ! (idx div 58)) (idx mod 58))"

abbreviation path :: "('d, 'k) hash_table \<Rightarrow> 'k \<Rightarrow> nat \<Rightarrow> nat" where
  "path ht key \<equiv> probe (hsize ht) (hash_index ht key)"

definition live_at :: "('d, 'k) hash_table \<Rightarrow> nat \<Rightarrow> 'd \<Rightarrow> bool" where
  "live_at ht idx d \<longleftrightarrow> idx < hsize ht \<and> view ht idx = Some (Some d)"

definition hash_wf :: "('d, 'k) hash_table \<Rightarrow> bool" where
  "hash_wf ht \<longleftrightarrow> (\<exists>n. hsize ht = 2 ^ n) \<and> length (htable ht) = (hsize ht + 57) div 58 \<and>
     (\<forall>g \<in> set (htable ht). sg_ok g) \<and> (\<forall>a b. compare_of ht a b = 0 \<longleftrightarrow> a = b) \<and>
     hmax ht = (hsize ht * 80) div 100 \<and> hmin ht = (hsize ht * 40) div 100"

text \<open>
  Every element is on the probing path of its key with no empty place before it, no key
  is there twice, the count is right and some place is empty.
\<close>

definition hash_ok :: "('d, 'k) hash_table \<Rightarrow> bool" where
  "hash_ok ht \<longleftrightarrow> hash_wf ht \<and>
     (\<forall>idx d. live_at ht idx d \<longrightarrow>
        (\<exists>k. idx = path ht (get_key ht d) k \<and> (\<forall>j<k. view ht (path ht (get_key ht d) j) \<noteq> None))) \<and>
     (\<forall>idx idx' d d'. live_at ht idx d \<longrightarrow> live_at ht idx' d' \<longrightarrow> get_key ht d = get_key ht d' \<longrightarrow> idx = idx') \<and>
     hitems ht = card {idx. \<exists>d. live_at ht idx d} \<and> (\<exists>idx < hsize ht. view ht idx = None)"

text \<open>No element was deleted since the table was made.\<close>

definition no_deleted :: "('d, 'k) hash_table \<Rightarrow> bool" where
  "no_deleted ht \<longleftrightarrow> (\<forall>idx < hsize ht. view ht idx \<noteq> Some None)"

definition holds :: "('d, 'k) hash_table \<Rightarrow> ('k \<rightharpoonup> 'd) \<Rightarrow> bool" where
  "holds ht m \<longleftrightarrow> hash_ok ht \<and> (\<forall>k d. m k = Some d \<longleftrightarrow> (\<exists>idx. live_at ht idx d) \<and> get_key ht d = k)"

lemma hash_wf_mark [simp]: "hash_wf (ht\<lparr>hmark := m\<rparr>) = hash_wf ht"
  by (simp add: hash_wf_def)

lemma view_mark [simp]: "view (ht\<lparr>hmark := m\<rparr>) idx = view ht idx"
  by (simp add: view_def)

lemma live_at_mark [simp]: "live_at (ht\<lparr>hmark := m\<rparr>) idx d = live_at ht idx d"
  by (simp add: live_at_def)

lemma hash_index_mark [simp]: "hash_index (ht\<lparr>hmark := m\<rparr>) k = hash_index ht k"
  by (simp add: hash_index_def)

lemma hash_ok_mark [simp]: "hash_ok (ht\<lparr>hmark := m\<rparr>) = hash_ok ht"
  by (simp add: hash_ok_def)

lemma no_deleted_mark [simp]: "no_deleted (ht\<lparr>hmark := m\<rparr>) = no_deleted ht"
  by (simp add: no_deleted_def)

lemma holds_mark [simp]: "holds (ht\<lparr>hmark := x\<rparr>) m = holds ht m"
  by (simp add: holds_def)

lemma hash_wf_group:
  assumes "hash_wf ht" "idx < hsize ht"
  shows "idx div 58 < length (htable ht)" "sg_ok (htable ht ! (idx div 58))"
proof -
  show *: "idx div 58 < length (htable ht)"
    using assms by (simp add: hash_wf_def)
  with assms(1) show "sg_ok (htable ht ! (idx div 58))"
    by (auto simp: hash_wf_def)
qed

lemma path_less: "hash_wf ht \<Longrightarrow> path ht key k < hsize ht"
  by (auto simp: hash_wf_def intro: probe_less)

lemma path_step: "hash_wf ht \<Longrightarrow> (path ht key k + Suc k) AND (hsize ht - 1) = path ht key (Suc k)"
  using probe_Suc by (auto simp: hash_wf_def)

lemma hash_index_less:
  assumes "hash_wf ht"
  shows "hash_index ht key < hsize ht"
proof -
  from assms obtain n where n: "hsize ht = 2 ^ n" by (auto simp: hash_wf_def)
  then have "hash_of ht key AND int (hsize ht - 1) = hash_of ht key mod 2 ^ n"
    by (simp add: of_nat_diff flip: take_bit_eq_mod mask_eq_exp_minus_1 take_bit_eq_mask)
  moreover have "hash_of ht key mod 2 ^ n < 2 ^ n" "0 \<le> hash_of ht key mod 2 ^ n" by simp_all
  ultimately show ?thesis using n by (simp add: hash_index_def nat_less_iff)
qed

lemma path_0: "hash_wf ht \<Longrightarrow> path ht key 0 = hash_index ht key"
  by (simp add: hash_index_less probe_0)

subsection \<open>The search\<close>

definition mark_at :: "hptr option \<Rightarrow> nat \<Rightarrow> hptr option" where
  "mark_at mark idx = (case mark of None \<Rightarrow> Some (place idx) | Some p \<Rightarrow> Some p)"

lemma hash_find_step:
  assumes "hash_wf ht"
  shows "hash_find_loop ht key (path ht key k) k mark =
    (case view ht (path ht key k) of
       None \<Rightarrow> Some (mark_at mark (path ht key k), None)
     | Some None \<Rightarrow> hash_find_loop ht key (path ht key (Suc k)) (Suc k) (mark_at mark (path ht key k))
     | Some (Some d) \<Rightarrow>
         if get_key ht d = key then Some (mark, Some (ptr ht (path ht key k)))
         else hash_find_loop ht key (path ht key (Suc k)) (Suc k) mark)"
proof -
  let ?g = "htable ht ! (path ht key k div 58)"
  have "sg_ok ?g" using hash_wf_group [OF assms path_less [OF assms]] by simp
  then have e: "slot ?g = [] \<or> sg_empty ?g (path ht key k mod 58) \<longleftrightarrow> sg_empty ?g (path ht key k mod 58)"
    using sg_element_less [of ?g "path ht key k mod 58"] by (auto simp: sg_empty_iff)
  have c: "compare_of ht key (get_key ht d) = 0 \<longleftrightarrow> get_key ht d = key" for d
    using assms by (auto simp: hash_wf_def)
  show ?thesis
    by (subst hash_find_loop.simps)
      (simp add: Let_def e c path_step [OF assms, simplified] view_def sg_view_def mark_at_def place_def ptr_def
        split: option.split)
qed

text \<open>The probes from \<open>k\<close> up to \<open>j\<close> meet neither an empty place nor the key.\<close>

definition passed :: "('d, 'k) hash_table \<Rightarrow> 'k \<Rightarrow> nat \<Rightarrow> nat \<Rightarrow> bool" where
  "passed ht key k j \<longleftrightarrow> (\<forall>i. k \<le> i \<and> i < j \<longrightarrow> view ht (path ht key i) \<noteq> None \<and>
      (\<forall>d. view ht (path ht key i) = Some (Some d) \<longrightarrow> get_key ht d \<noteq> key))"

lemma passed_Suc: "passed ht key k j \<Longrightarrow> passed ht key (Suc k) j"
  unfolding passed_def using Suc_leD by blast

lemma hash_find_loop_hit:
  assumes wf: "hash_wf ht" and j: "view ht (path ht key j) = Some (Some d)" "get_key ht d = key"
    and before: "passed ht key k j"
    and "k \<le> j"
  shows "\<exists>mark'. hash_find_loop ht key (path ht key k) k mark = Some (mark', Some (ptr ht (path ht key j)))"
  using \<open>k \<le> j\<close> before
proof (induction "j - k" arbitrary: k mark)
  case 0
  then show ?case using j by (subst hash_find_step [OF wf]) simp
next
  case (Suc n)
  then have kj: "k < j" by simp
  have IH: "\<exists>mark'. hash_find_loop ht key (path ht key (Suc k)) (Suc k) mk =
      Some (mark', Some (ptr ht (path ht key j)))" for mk
    using Suc.hyps(2) passed_Suc [OF Suc.prems(2)] by (intro Suc.hyps(1)) auto
  have "view ht (path ht key k) \<noteq> None" "\<forall>d. view ht (path ht key k) = Some (Some d) \<longrightarrow> get_key ht d \<noteq> key"
    using Suc.prems(2) kj by (auto simp: passed_def)
  then show ?case
    using IH by (subst hash_find_step [OF wf]) (auto split: option.split)
qed

lemma hash_find_loop_miss:
  assumes wf: "hash_wf ht" and j: "view ht (path ht key j) = None"
    and before: "passed ht key k j"
    and "k \<le> j"
  shows "\<exists>mark'. hash_find_loop ht key (path ht key k) k mark = Some (mark', None) \<and>
    (no_deleted ht \<longrightarrow> mark' = mark_at mark (path ht key j))"
  using \<open>k \<le> j\<close> before
proof (induction "j - k" arbitrary: k mark)
  case 0
  then show ?case using j by (subst hash_find_step [OF wf]) simp
next
  case (Suc n)
  then have kj: "k < j" by simp
  have IH: "\<exists>mark'. hash_find_loop ht key (path ht key (Suc k)) (Suc k) mk = Some (mark', None) \<and>
    (no_deleted ht \<longrightarrow> mark' = mark_at mk (path ht key j))" for mk
    using Suc.hyps(2) passed_Suc [OF Suc.prems(2)] by (intro Suc.hyps(1)) auto
  have nd: "no_deleted ht \<longrightarrow> view ht (path ht key k) \<noteq> Some None"
    using path_less [OF wf] by (simp add: no_deleted_def)
  from Suc.prems(2) kj obtain v where v: "view ht (path ht key k) = Some v"
    unfolding passed_def by blast
  show ?case
  proof (cases v)
    case None
    then show ?thesis
      using IH [of "mark_at mark (path ht key k)"] nd v by (subst hash_find_step [OF wf]) auto
  next
    case (Some d)
    then have "get_key ht d \<noteq> key" using Suc.prems(2) kj v by (auto simp: passed_def)
    with Some v IH [of mark] show ?thesis by (subst hash_find_step [OF wf]) simp
  qed
qed

lemma hash_find_present:
  assumes "hash_ok ht" "live_at ht idx d"
  shows "\<exists>mark. hash_find ht (get_key ht d) = Some (ht\<lparr>hmark := mark\<rparr>, Some (ptr ht idx))"
proof -
  let ?p = "path ht (get_key ht d)"
  have wf: "hash_wf ht" using assms(1) by (simp add: hash_ok_def)
  from assms obtain k where k: "idx = ?p k" "\<forall>j<k. view ht (?p j) \<noteq> None"
    by (auto simp: hash_ok_def)
  define j where "j = (LEAST j. ?p j = idx)"
  have j: "?p j = idx" "j \<le> k"
    unfolding j_def using LeastI [of "\<lambda>j. ?p j = idx" k] Least_le [of "\<lambda>j. ?p j = idx" k] k(1) by blast+
  have "get_key ht d' \<noteq> get_key ht d" if "i < j" "view ht (?p i) = Some (Some d')" for i d'
  proof
    assume "get_key ht d' = get_key ht d"
    moreover have "live_at ht (?p i) d'" using that(2) path_less [OF wf] by (simp add: live_at_def)
    ultimately have "?p i = idx" using assms by (auto simp: hash_ok_def)
    then show False using not_less_Least that(1) unfolding j_def by blast
  qed
  then have "passed ht (get_key ht d) 0 j"
    using k(2) j(2) by (auto simp: passed_def)
  then have "\<exists>mark'. hash_find_loop ht (get_key ht d) (?p 0) 0 None = Some (mark', Some (ptr ht (?p j)))"
    using assms(2) j by (intro hash_find_loop_hit [OF wf, of _ _ d]) (auto simp: live_at_def)
  then show ?thesis by (auto simp: hash_find_def path_0 [OF wf] j(1))
qed

lemma hash_find_absent:
  assumes "hash_ok ht" "\<forall>idx d. live_at ht idx d \<longrightarrow> get_key ht d \<noteq> key"
  shows "\<exists>mark j. hash_find ht key = Some (ht\<lparr>hmark := mark\<rparr>, None) \<and> view ht (path ht key j) = None \<and>
    (\<forall>i<j. view ht (path ht key i) \<noteq> None) \<and> (no_deleted ht \<longrightarrow> mark = Some (place (path ht key j)))"
proof -
  have wf: "hash_wf ht" using assms(1) by (simp add: hash_ok_def)
  from assms(1) obtain idx where idx: "idx < hsize ht" "view ht idx = None" by (auto simp: hash_ok_def)
  moreover obtain n where "hsize ht = 2 ^ n" using wf by (auto simp: hash_wf_def)
  ultimately obtain k where k: "view ht (path ht key k) = None"
    using probe_covers [of idx n "hash_index ht key"] by auto
  define j where "j = (LEAST j. view ht (path ht key j) = None)"
  have j: "view ht (path ht key j) = None" using k unfolding j_def by (rule LeastI)
  have before: "\<forall>i<j. view ht (path ht key i) \<noteq> None"
    unfolding j_def by (metis not_less_Least)
  then have "passed ht key 0 j"
    using assms(2) path_less [OF wf] unfolding passed_def live_at_def by blast
  then have "\<exists>mark'. hash_find_loop ht key (path ht key 0) 0 None = Some (mark', None) \<and>
      (no_deleted ht \<longrightarrow> mark' = mark_at None (path ht key j))"
    using j by (intro hash_find_loop_miss [OF wf]) auto
  then show ?thesis using j before by (auto simp: hash_find_def path_0 [OF wf] mark_at_def)
qed

subsection \<open>Effect of a write\<close>

lemma same_place:
  assumes "a div 58 = b div (58 :: nat)"
  shows "a mod 58 = b mod 58 \<longleftrightarrow> a = b"
proof
  assume m: "a mod 58 = b mod 58"
  have "a = a div 58 * 58 + a mod 58" by (simp only: div_mult_mod_eq)
  also have "\<dots> = b" by (simp only: assms m div_mult_mod_eq)
  finally show "a = b" .
qed simp

lemma view_store:
  assumes "hash_wf ht" "idx < hsize ht" "view ht idx \<noteq> None" "x < hsize ht"
  shows "view (store ht (ptr ht idx) v) x = (if x = idx then Some v else view ht x)"
proof (cases "x div 58 = idx div 58")
  case True
  then have "x mod 58 = idx mod 58 \<longleftrightarrow> x = idx" by (rule same_place)
  moreover have "\<not> sg_empty (htable ht ! (idx div 58)) (idx mod 58)"
    using assms(3) by (auto simp: view_def sg_view_def)
  ultimately show ?thesis
    using hash_wf_group [OF assms(1,2)] True sg_write_ok(2) [of "htable ht ! (idx div 58)" "idx mod 58" "x mod 58" v]
    by (simp add: view_def store_def ptr_def)
qed (auto simp: view_def store_def ptr_def)

lemma hash_wf_store:
  assumes "hash_wf ht" "idx < hsize ht" "view ht idx \<noteq> None"
  shows "hash_wf (store ht (ptr ht idx) v)"
proof -
  have "\<not> sg_empty (htable ht ! (idx div 58)) (idx mod 58)"
    using assms(3) by (auto simp: view_def sg_view_def)
  then have "sg_ok (sg_write (htable ht ! (idx div 58)) (sg_element (htable ht ! (idx div 58)) (idx mod 58)) v)"
    using hash_wf_group [OF assms(1,2)] by (intro sg_write_ok(1)) auto
  with assms(1) show ?thesis
    by (auto simp: hash_wf_def store_def ptr_def dest!: subsetD [OF set_update_subset_insert])
qed

lemma store_fields [simp]:
  "hsize (store ht p v) = hsize ht" "get_key (store ht p v) = get_key ht" "hitems (store ht p v) = hitems ht"
  "hash_index (store ht p v) k = hash_index ht k" "hmax (store ht p v) = hmax ht" "hmin (store ht p v) = hmin ht"
  by (simp_all add: store_def hash_index_def)

text \<open>The table after \<open>hash_insert\<close> at an empty place.\<close>

lemma hash_insert_empty:
  assumes "hash_wf ht" "idx < hsize ht" "view ht idx = None" "hmark ht = Some (place idx)"
  obtains ht' where "hash_insert ht d = Some ht'" "hash_wf ht'"
    "\<forall>x < hsize ht. view ht' x = (if x = idx then Some (Some d) else view ht x)"
    "hsize ht' = hsize ht" "get_key ht' = get_key ht" "hitems ht' = hitems ht" "\<forall>k. hash_index ht' k = hash_index ht k"
proof -
  let ?g = "htable ht ! (idx div 58)"
  let ?ht = "ht\<lparr>htable := (htable ht)[idx div 58 := sg_insert ?g (idx mod 58) d]\<rparr>"
  have g: "idx div 58 < length (htable ht)" "sg_ok ?g" using hash_wf_group [OF assms(1,2)] .
  have e: "sg_empty ?g (idx mod 58)" using assms(3) by (auto simp: view_def sg_view_def split: if_splits)
  note ins = sg_insert_ok [OF g(2) e, where d = d]
  show thesis
  proof (rule that [of ?ht])
    show "hash_insert ht d = Some ?ht" using assms(4) by (simp add: hash_insert_def place_def)
    show "hash_wf ?ht"
      using assms(1) ins(1) by (auto simp: hash_wf_def dest!: subsetD [OF set_update_subset_insert])
    have "view ?ht x = (if x = idx then Some (Some d) else view ht x)" for x
    proof (cases "x div 58 = idx div 58")
      case True
      then have "x mod 58 = idx mod 58 \<longleftrightarrow> x = idx" by (rule same_place)
      with True g ins(2) [of "x mod 58"] show ?thesis by (simp add: view_def)
    qed (auto simp: view_def)
    then show "\<forall>x < hsize ht. view ?ht x = (if x = idx then Some (Some d) else view ht x)" by blast
  qed (simp_all add: hash_index_def)
qed

subsection \<open>The table as a map\<close>

abbreviation on_path :: "('d, 'k) hash_table \<Rightarrow> nat \<Rightarrow> 'd \<Rightarrow> bool" where
  "on_path ht x d \<equiv> \<exists>k. x = path ht (get_key ht d) k \<and>
     (\<forall>j<k. view ht (path ht (get_key ht d) j) \<noteq> None)"

definition same_shape :: "('d, 'k) hash_table \<Rightarrow> ('d, 'k) hash_table \<Rightarrow> bool" where
  "same_shape ht ht' \<longleftrightarrow> hsize ht' = hsize ht \<and> get_key ht' = get_key ht \<and> (\<forall>k. hash_index ht' k = hash_index ht k)"

lemma on_path_mono:
  assumes "on_path ht x d" "hash_wf ht" "same_shape ht ht'"
    "\<forall>x < hsize ht. view ht x \<noteq> None \<longrightarrow> view ht' x \<noteq> None"
  shows "on_path ht' x d"
  using assms path_less [OF assms(2)] unfolding same_shape_def by metis

lemma live_at_update:
  assumes "same_shape ht ht'" "\<And>x. x < hsize ht \<Longrightarrow> view ht' x = (if x = idx then Some v else view ht x)"
    "idx < hsize ht"
  shows "live_at ht' x d \<longleftrightarrow> (if x = idx then v = Some d else live_at ht x d)"
  using assms by (auto simp: live_at_def same_shape_def)

lemma finite_live: "finite {x. \<exists>d. live_at ht x d}"
  by (rule finite_subset [of _ "{..<hsize ht}"]) (auto simp: live_at_def)

lemma holdsD:
  assumes "holds ht m"
  shows "hash_ok ht" "hash_wf ht" "hitems ht = card {x. \<exists>d. live_at ht x d}"
    "live_at ht x d \<Longrightarrow> on_path ht x d"
    "live_at ht x d \<Longrightarrow> live_at ht y e \<Longrightarrow> get_key ht d = get_key ht e \<Longrightarrow> x = y"
    "live_at ht x d \<Longrightarrow> m (get_key ht d) = Some d"
    "m k = Some d \<Longrightarrow> (\<exists>x. live_at ht x d) \<and> get_key ht d = k"
    "\<exists>x < hsize ht. view ht x = None"
  using assms unfolding holds_def hash_ok_def by blast+

lemma holdsI:
  assumes "hash_wf ht" "\<And>x d. live_at ht x d \<Longrightarrow> on_path ht x d"
    "\<And>x y d e. live_at ht x d \<Longrightarrow> live_at ht y e \<Longrightarrow> get_key ht d = get_key ht e \<Longrightarrow> x = y"
    "hitems ht = card {x. \<exists>d. live_at ht x d}" "\<exists>x < hsize ht. view ht x = None"
    "\<And>x d. live_at ht x d \<Longrightarrow> m (get_key ht d) = Some d"
    "\<And>k d. m k = Some d \<Longrightarrow> (\<exists>x. live_at ht x d) \<and> get_key ht d = k"
  shows "holds ht m"
  unfolding holds_def hash_ok_def using assms by blast

lemma same_data: "live_at ht x d \<Longrightarrow> live_at ht x e \<Longrightarrow> d = e"
  by (simp add: live_at_def)

text \<open>An update of one place gives a table for the updated map.\<close>

lemma holds_replace:
  assumes h: "holds ht m" and sh: "same_shape ht ht'" and wf: "hash_wf ht'" and idx: "live_at ht idx d0"
    "get_key ht d0 = get_key ht d"
    and vw: "\<And>x. x < hsize ht \<Longrightarrow> view ht' x = (if x = idx then Some (Some d) else view ht x)"
    and it: "hitems ht' = hitems ht"
  shows "holds ht' (m(get_key ht d \<mapsto> d))"
proof -
  have il: "idx < hsize ht" using idx by (simp add: live_at_def)
  have la: "live_at ht' x e \<longleftrightarrow> (if x = idx then d = e else live_at ht x e)" for x e
    using live_at_update [OF sh vw il] by simp
  have key: "get_key ht' = get_key ht" using sh by (simp add: same_shape_def)
  have mono: "\<forall>x < hsize ht. view ht x \<noteq> None \<longrightarrow> view ht' x \<noteq> None" using vw by auto
  note H = holdsD [OF h]
  show ?thesis
  proof (rule holdsI [OF wf])
    fix x e assume l: "live_at ht' x e"
    have "on_path ht x e"
    proof (cases "x = idx")
      case True
      with l la have "e = d" by simp
      with H(4) [OF idx(1)] idx(2) True show ?thesis by simp
    qed (use l la H(4) in simp)
    then show "on_path ht' x e" using on_path_mono [OF _ H(2) sh mono] by blast
    show "(m(get_key ht d \<mapsto> d)) (get_key ht' e) = Some e"
    proof (cases "x = idx")
      case True
      with l la key show ?thesis by simp
    next
      case False
      then have le: "live_at ht x e" using l la by simp
      then have "get_key ht e \<noteq> get_key ht d" using H(5) [OF le idx(1)] idx(2) False by auto
      with H(6) [OF le] key show ?thesis by simp
    qed
  next
    fix x y e f assume "live_at ht' x e" "live_at ht' y f" "get_key ht' e = get_key ht' f"
    then have "\<exists>e'. live_at ht x e' \<and> get_key ht e' = get_key ht e"
      "\<exists>f'. live_at ht y f' \<and> get_key ht f' = get_key ht e"
      using la idx key by metis+
    then show "x = y" using H(5) by metis
  next
    have "{x. \<exists>d. live_at ht' x d} = {x. \<exists>d. live_at ht x d}" using la idx by auto
    with it H(3) show "hitems ht' = card {x. \<exists>d. live_at ht' x d}" by simp
  next
    from H(8) obtain x where x: "x < hsize ht" "view ht x = None" by blast
    then have "x \<noteq> idx" using idx by (auto simp: live_at_def)
    with x vw sh show "\<exists>x < hsize ht'. view ht' x = None" by (auto simp: same_shape_def)
  next
    fix k e assume "(m(get_key ht d \<mapsto> d)) k = Some e"
    then consider "k = get_key ht d" "e = d" | "k \<noteq> get_key ht d" "m k = Some e"
      by (auto split: if_splits)
    then show "(\<exists>x. live_at ht' x e) \<and> get_key ht' e = k"
    proof cases
      case 1
      then show ?thesis using la [of idx d] key by auto
    next
      case 2
      then obtain x where x: "live_at ht x e" "get_key ht e = k" using H(7) by blast
      then have "x \<noteq> idx" using same_data [OF x(1), of d0] idx 2(1) by auto
      with x la [of x e] key show ?thesis by auto
    qed
  qed
qed

lemma holds_new:
  assumes h: "holds ht m" and sh: "same_shape ht ht'" and wf: "hash_wf ht'"
    and idx: "idx < hsize ht" "view ht idx = None" "on_path ht idx d" "m (get_key ht d) = None"
    and vw: "\<And>x. x < hsize ht \<Longrightarrow> view ht' x = (if x = idx then Some (Some d) else view ht x)"
    and it: "hitems ht' = Suc (hitems ht)" and room: "\<exists>x < hsize ht. view ht x = None \<and> x \<noteq> idx"
  shows "holds ht' (m(get_key ht d \<mapsto> d))"
proof -
  have la: "live_at ht' x e \<longleftrightarrow> (if x = idx then d = e else live_at ht x e)" for x e
    using live_at_update [OF sh vw idx(1)] by simp
  have key: "get_key ht' = get_key ht" using sh by (simp add: same_shape_def)
  have mono: "\<forall>x < hsize ht. view ht x \<noteq> None \<longrightarrow> view ht' x \<noteq> None" using vw by auto
  note H = holdsD [OF h]
  have fresh: "get_key ht e \<noteq> get_key ht d" if "live_at ht x e" for x e
    using H(6) [OF that] idx(4) by auto
  show ?thesis
  proof (rule holdsI [OF wf])
    fix x e assume l: "live_at ht' x e"
    have "on_path ht x e"
      using l la idx(3) H(4) [of x e] by (cases "x = idx") auto
    then show "on_path ht' x e" using on_path_mono [OF _ H(2) sh mono] by blast
    show "(m(get_key ht d \<mapsto> d)) (get_key ht' e) = Some e"
      using l la [of x e] fresh [of x e] H(6) [of x e] key by (cases "x = idx") auto
  next
    fix x y e f assume "live_at ht' x e" "live_at ht' y f" "get_key ht' e = get_key ht' f"
    then show "x = y"
      using la [of x e] la [of y f] fresh [of x e] fresh [of y f] H(5) [of x e y f] key
      by (cases "x = idx"; cases "y = idx") auto
  next
    have "\<not> (\<exists>e. live_at ht idx e)" using idx(2) by (simp add: live_at_def)
    moreover have "{x. \<exists>d. live_at ht' x d} = insert idx {x. \<exists>d. live_at ht x d}" using la by auto
    ultimately show "hitems ht' = card {x. \<exists>d. live_at ht' x d}"
      using it H(3) finite_live [of ht] by simp
  next
    show "\<exists>x < hsize ht'. view ht' x = None" using room vw sh by (auto simp: same_shape_def)
  next
    fix k e assume "(m(get_key ht d \<mapsto> d)) k = Some e"
    then consider "k = get_key ht d" "e = d" | "k \<noteq> get_key ht d" "m k = Some e"
      by (auto split: if_splits)
    then show "(\<exists>x. live_at ht' x e) \<and> get_key ht' e = k"
    proof cases
      case 1
      then show ?thesis using la [of idx d] key by auto
    next
      case 2
      then obtain x where x: "live_at ht x e" "get_key ht e = k" using H(7) by blast
      then have "x \<noteq> idx" using idx(2) by (auto simp: live_at_def)
      with x la [of x e] key show ?thesis by auto
    qed
  qed
qed

lemma holds_remove:
  assumes h: "holds ht m" and sh: "same_shape ht ht'" and wf: "hash_wf ht'" and idx: "live_at ht idx d"
    and vw: "\<And>x. x < hsize ht \<Longrightarrow> view ht' x = (if x = idx then Some None else view ht x)"
    and it: "hitems ht' = hitems ht - 1"
  shows "holds ht' (m(get_key ht d := None))"
proof -
  have il: "idx < hsize ht" using idx by (simp add: live_at_def)
  have la: "live_at ht' x e \<longleftrightarrow> x \<noteq> idx \<and> live_at ht x e" for x e
    using live_at_update [OF sh vw il] by simp
  have key: "get_key ht' = get_key ht" using sh by (simp add: same_shape_def)
  have mono: "\<forall>x < hsize ht. view ht x \<noteq> None \<longrightarrow> view ht' x \<noteq> None" using vw by auto
  note H = holdsD [OF h]
  show ?thesis
  proof (rule holdsI [OF wf])
    fix x e assume l: "live_at ht' x e"
    then have "on_path ht x e" using H(4) la by blast
    then show "on_path ht' x e" using on_path_mono [OF _ H(2) sh mono] by blast
    have "get_key ht e \<noteq> get_key ht d" using l la H(5) idx by blast
    then show "(m(get_key ht d := None)) (get_key ht' e) = Some e"
      using l la [of x e] H(6) [of x e] key by simp
  next
    fix x y e f assume "live_at ht' x e" "live_at ht' y f" "get_key ht' e = get_key ht' f"
    then show "x = y" using la H(5) key by metis
  next
    have "{x. \<exists>d. live_at ht' x d} = {x. \<exists>d. live_at ht x d} - {idx}" using la by auto
    moreover have "idx \<in> {x. \<exists>d. live_at ht x d}" using idx by auto
    ultimately show "hitems ht' = card {x. \<exists>d. live_at ht' x d}"
      using it H(3) by (simp add: card_Diff_singleton)
  next
    from H(8) obtain x where x: "x < hsize ht" "view ht x = None" by blast
    then have "x \<noteq> idx" using idx by (auto simp: live_at_def)
    with x vw sh show "\<exists>x < hsize ht'. view ht' x = None" by (auto simp: same_shape_def)
  next
    fix k e assume "(m(get_key ht d := None)) k = Some e"
    then have k: "k \<noteq> get_key ht d" "m k = Some e" by (auto split: if_splits)
    then obtain x where x: "live_at ht x e" "get_key ht e = k" using H(7) by blast
    then have "x \<noteq> idx" using same_data [OF x(1), of d] idx k(1) by auto
    with x la [of x e] key show "(\<exists>x. live_at ht' x e) \<and> get_key ht' e = k" by auto
  qed
qed

lemma holds_items: "holds ht m \<Longrightarrow> hitems ht = card (dom m)"
proof -
  assume h: "holds ht m"
  note H = holdsD [OF h]
  let ?L = "{x. \<exists>d. live_at ht x d}" and ?key = "\<lambda>x. get_key ht (the (the (view ht x)))"
  have pick: "?key x = get_key ht d" if "live_at ht x d" for x d
    using that by (simp add: live_at_def)
  have "inj_on ?key ?L"
  proof (rule inj_onI)
    fix x y assume "x \<in> ?L" "y \<in> ?L" and eq: "?key x = ?key y"
    then obtain d e where "live_at ht x d" "live_at ht y e" by blast
    moreover from this eq have "get_key ht d = get_key ht e" using pick by metis
    ultimately show "x = y" by (rule H(5))
  qed
  moreover have "?key ` ?L = dom m"
  proof (intro equalityI subsetI)
    fix k assume "k \<in> ?key ` ?L"
    then obtain x d where "k = ?key x" "live_at ht x d" by blast
    with pick H(6) show "k \<in> dom m" by (metis domI)
  next
    fix k assume "k \<in> dom m"
    then obtain d x where "live_at ht x d" "get_key ht d = k" using H(7) by blast
    with pick show "k \<in> ?key ` ?L" by (metis (mono_tags, lifting) image_eqI mem_Collect_eq)
  qed
  ultimately show ?thesis using H(3) card_image by metis
qed

subsection \<open>The operations on the map\<close>

lemma deref_ptr: "live_at ht idx d \<Longrightarrow> deref ht (ptr ht idx) = Some d"
  by (auto simp: deref_def ptr_def live_at_def view_def sg_view_def split: if_splits)

lemma deref_mark [simp]: "deref (ht\<lparr>hmark := x\<rparr>) p = deref ht p"
  by (simp add: deref_def)

lemma ptr_mark [simp]: "ptr (ht\<lparr>hmark := x\<rparr>) idx = ptr ht idx"
  by (simp add: ptr_def)

lemma hash_get_holds:
  assumes "holds ht m"
  shows "\<exists>mark. hash_get ht key = Some (m key, ht\<lparr>hmark := mark\<rparr>)"
proof (cases "m key")
  case None
  then have "\<forall>idx d. live_at ht idx d \<longrightarrow> get_key ht d \<noteq> key"
    using holdsD(6) [OF assms] by fastforce
  from hash_find_absent [OF holdsD(1) [OF assms] this] None show ?thesis
    by (auto simp: hash_get_def)
next
  case (Some d)
  then obtain idx where idx: "live_at ht idx d" "get_key ht d = key" using holdsD(7) [OF assms] by blast
  from hash_find_present [OF holdsD(1) [OF assms] idx(1)]
  obtain mark where "hash_find ht key = Some (ht\<lparr>hmark := mark\<rparr>, Some (ptr ht idx))"
    unfolding idx(2) by blast
  then show ?thesis using deref_ptr [OF idx(1)] Some by (auto simp: hash_get_def)
qed

lemma same_shape_refl [simp]: "same_shape ht (ht\<lparr>hmark := x\<rparr>)"
  by (simp add: same_shape_def)

lemma path_cong: "same_shape ht ht' \<Longrightarrow> path ht' k = path ht k"
  by (simp add: same_shape_def)

text \<open>Replacing the element of a key that is there.\<close>

lemma hash_put_present:
  assumes "holds ht m" "m (get_key ht d) \<noteq> None"
  obtains ht' where "hash_put ht d = Some (Some ht')" "holds ht' (m(get_key ht d \<mapsto> d))"
    "same_shape ht ht'" "hmax ht' = hmax ht" "no_deleted ht \<Longrightarrow> no_deleted ht'"
proof -
  from assms(2) obtain d0 where "m (get_key ht d) = Some d0" by blast
  from holdsD(7) [OF assms(1) this] obtain idx where idx: "live_at ht idx d0" "get_key ht d0 = get_key ht d"
    by blast
  from hash_find_present [OF holdsD(1) [OF assms(1)] idx(1)] obtain mark where
    f: "hash_find ht (get_key ht d) = Some (ht\<lparr>hmark := mark\<rparr>, Some (ptr ht idx))"
    unfolding idx(2) by blast
  let ?ht = "ht\<lparr>hmark := mark\<rparr>"
  let ?ht' = "store ?ht (ptr ht idx) (Some d)"
  have il: "idx < hsize ?ht" "view ?ht idx \<noteq> None" using idx(1) by (simp_all add: live_at_def)
  have wf: "hash_wf ?ht" using holdsD(2) [OF assms(1)] by simp
  note vs = view_store [OF wf il, simplified]
  have sh: "same_shape ht ?ht'" by (simp add: same_shape_def)
  have "holds ?ht' (m(get_key ht d \<mapsto> d))"
    using hash_wf_store [OF wf il] vs
    by (intro holds_replace [OF assms(1) sh _ idx]) simp_all
  moreover have "no_deleted ?ht'" if "no_deleted ht"
    using that vs by (simp add: no_deleted_def)
  ultimately show thesis
    using f sh by (intro that [of ?ht']) (simp_all add: hash_put_def)
qed

text \<open>Adding an element to a table without deleted places.\<close>

lemma hash_put_fresh:
  assumes "holds ht m" "m (get_key ht d) = None" "no_deleted ht" "hitems ht < hmax ht"
  obtains ht' where "hash_put ht d = Some (Some ht')" "holds ht' (m(get_key ht d \<mapsto> d))"
    "same_shape ht ht'" "hmax ht' = hmax ht" "no_deleted ht'"
proof -
  note H = holdsD [OF assms(1)]
  have "\<forall>idx e. live_at ht idx e \<longrightarrow> get_key ht e \<noteq> get_key ht d"
    using H(6) assms(2) by fastforce
  from hash_find_absent [OF H(1) this] assms(3) obtain j where
    f: "hash_find ht (get_key ht d) = Some (ht\<lparr>hmark := Some (place (path ht (get_key ht d) j))\<rparr>, None)"
    and j: "view ht (path ht (get_key ht d) j) = None" "\<forall>i<j. view ht (path ht (get_key ht d) i) \<noteq> None"
    by auto
  let ?idx = "path ht (get_key ht d) j"
  let ?ht = "ht\<lparr>hmark := Some (place ?idx)\<rparr>"
  have wf: "hash_wf ?ht" using H(2) by simp
  have il: "?idx < hsize ?ht" using path_less [OF H(2)] by simp
  have v: "view ?ht ?idx = None" and hm: "hmark ?ht = Some (place ?idx)" using j(1) by simp_all
  obtain ht' where i: "hash_insert ?ht d = Some ht'" "hash_wf ht'"
    "\<forall>x < hsize ?ht. view ht' x = (if x = ?idx then Some (Some d) else view ?ht x)"
    "hsize ht' = hsize ?ht" "get_key ht' = get_key ?ht" "hitems ht' = hitems ?ht"
    "\<forall>k. hash_index ht' k = hash_index ?ht k"
    by (rule hash_insert_empty [OF wf il v hm, of d])
  note ins = i [simplified]
  let ?ht' = "ht'\<lparr>hitems := hitems ht + 1\<rparr>"
  have vi: "view ?ht' x = view ht' x" for x by (simp add: view_def)
  have sh: "same_shape ht ?ht'" using ins by (simp add: same_shape_def hash_index_def)
  have wf': "hash_wf ?ht'" using ins(2) by (simp add: hash_wf_def)
  have "\<exists>x < hsize ht. view ht x = None \<and> x \<noteq> ?idx"
  proof (rule ccontr)
    assume full: "\<not> ?thesis"
    have "\<exists>e. live_at ht x e" if "x < hsize ht" "x \<noteq> ?idx" for x
    proof -
      have "view ht x \<noteq> None" "view ht x \<noteq> Some None"
        using full that assms(3) by (auto simp: no_deleted_def)
      then show ?thesis using that(1) by (cases "view ht x") (auto simp: live_at_def)
    qed
    then have "{..<hsize ht} - {?idx} \<subseteq> {x. \<exists>e. live_at ht x e}" by blast
    then have "card ({..<hsize ht} - {?idx}) \<le> hitems ht"
      using finite_live card_mono H(3) by metis
    moreover have "hmax ht \<le> hsize ht - 1"
      using H(2) il by (auto simp: hash_wf_def)
    ultimately show False using assms(4) il by simp
  qed
  then have "holds ?ht' (m(get_key ht d \<mapsto> d))"
    using j il assms(2) ins(3,6) vi by (intro holds_new [OF assms(1) sh wf', of ?idx]) auto
  moreover have "no_deleted ?ht'"
    using assms(3) ins(3,4) vi by (simp add: no_deleted_def)
  moreover have "hmax ?ht' = hmax ht"
    using ins(1) by (auto simp: hash_insert_def place_def)
  ultimately show thesis
    using f sh ins(1,6) assms(4) by (intro that [of ?ht']) (simp_all add: hash_put_def)
qed

lemma hash_delete_present:
  assumes "holds ht m" "m key = Some d" "hitems ht \<noteq> hmin ht"
  obtains ht' where "hash_delete ht key = Some (Some d, Some ht')" "holds ht' (m(key := None))"
proof -
  from holdsD(7) [OF assms(1,2)] obtain idx where idx: "live_at ht idx d" "get_key ht d = key"
    by blast
  from hash_find_present [OF holdsD(1) [OF assms(1)] idx(1)] obtain mark where
    f: "hash_find ht key = Some (ht\<lparr>hmark := mark\<rparr>, Some (ptr ht idx))"
    unfolding idx(2) by blast
  let ?ht = "ht\<lparr>hmark := mark\<rparr>"
  let ?ht' = "(store ?ht (ptr ht idx) None)\<lparr>hitems := hitems ht - 1\<rparr>"
  have il: "idx < hsize ?ht" "view ?ht idx \<noteq> None" using idx(1) by (simp_all add: live_at_def)
  have wf: "hash_wf ?ht" using holdsD(2) [OF assms(1)] by simp
  have vi: "view ?ht' x = view (store ?ht (ptr ht idx) None) x" for x by (simp add: view_def)
  have sh: "same_shape ht ?ht'" by (simp add: same_shape_def hash_index_def store_def)
  have wf': "hash_wf ?ht'" using hash_wf_store [OF wf il, of None] by (simp add: hash_wf_def)
  have "holds ?ht' (m(get_key ht d := None))"
    using vi view_store [OF wf il, simplified]
    by (intro holds_remove [OF assms(1) sh wf' idx(1)]) simp_all
  with f idx assms(3) deref_ptr [OF idx(1)] show thesis
    by (intro that [of ?ht']) (simp_all add: hash_delete_def Let_def)
qed

lemma hash_delete_absent:
  assumes "holds ht m" "m key = None"
  obtains ht' where "hash_delete ht key = Some (None, Some ht')" "holds ht' m"
proof -
  have "\<forall>idx e. live_at ht idx e \<longrightarrow> get_key ht e \<noteq> key"
    using holdsD(6) [OF assms(1)] assms(2) by fastforce
  from hash_find_absent [OF holdsD(1) [OF assms(1)] this] obtain mark where
    "hash_find ht key = Some (ht\<lparr>hmark := mark\<rparr>, None)" by auto
  with assms(1) show thesis by (intro that [of "ht\<lparr>hmark := mark\<rparr>"]) (simp_all add: hash_delete_def)
qed

subsection \<open>A new table\<close>

lemma view_new: "idx < hsize (hash_new gk h c sz) \<Longrightarrow> view (hash_new gk h c sz) idx = None"
proof -
  assume "idx < hsize (hash_new gk h c sz)"
  then have "idx div 58 < (sz + 57) div 58" by (simp add: hash_new_def hash_init_def)
  then show ?thesis by (simp add: view_def hash_new_def hash_init_def sg_view_def sg_empty_def)
qed

lemma hash_new_holds:
  assumes "\<And>a b. c a b = 0 \<longleftrightarrow> a = b"
  shows "holds (hash_new gk h c (2 ^ n)) Map.empty" "no_deleted (hash_new gk h c (2 ^ n))"
proof -
  let ?ht = "hash_new gk h c (2 ^ n)"
  have none: "\<not> live_at ?ht x d" for x d
    using view_new [of x gk h c "2 ^ n"] by (auto simp: live_at_def)
  have "hash_wf ?ht"
    using assms by (auto simp: hash_wf_def hash_new_def hash_init_def sg_ok_def sg_count_def rank_def)
  moreover have "hitems ?ht = 0" "0 < hsize ?ht" by (simp_all add: hash_new_def hash_init_def)
  moreover from this have "view ?ht 0 = None" by (intro view_new)
  ultimately show "holds ?ht Map.empty"
    using none by (intro holdsI) auto
  show "no_deleted ?ht" by (simp add: no_deleted_def view_new)
qed

lemma strcmp_0: "strcmp a b = 0 \<longleftrightarrow> a = b"
  by (induction a b rule: strcmp.induct) auto

lemma int64_compare_0: "int64_compare a b = 0 \<longleftrightarrow> a = b"
  by (simp add: int64_compare_def)

subsection \<open>The contract of a keyed store\<close>

text \<open>
  What the users of a global hash rely on: an insertion into a store with room for one
  more key returns and updates the map, and a lookup returns what the map holds.
\<close>

locale keyed_store =
  fixes rep :: "'s \<Rightarrow> ('k \<rightharpoonup> 'd) \<Rightarrow> bool"
    and room :: "'s \<Rightarrow> nat" and key :: "'s \<Rightarrow> 'd \<Rightarrow> 'k"
    and put :: "'s \<Rightarrow> 'd \<Rightarrow> 's option option"
    and get :: "'s \<Rightarrow> 'k \<Rightarrow> ('d option \<times> 's) option"
  assumes put_law: "rep s m \<Longrightarrow> key s d \<in> dom m \<or> card (dom m) < room s \<Longrightarrow>
      \<exists>s'. put s d = Some (Some s') \<and> rep s' (m(key s d \<mapsto> d)) \<and> room s' = room s \<and> key s' = key s"
    and get_law: "rep s m \<Longrightarrow> \<exists>s'. get s k = Some (m k, s') \<and> rep s' m \<and> room s' = room s \<and> key s' = key s"
    and finite_rep: "rep s m \<Longrightarrow> finite (dom m)"
begin

fun put_all :: "'s \<Rightarrow> 'd list \<Rightarrow> 's option option" where
  "put_all s [] = Some (Some s)"
| "put_all s (d # ds) = Option.bind (put s d) (\<lambda>r. Option.bind r (\<lambda>s'. put_all s' ds))"

lemma put_all_rep:
  assumes "rep s m" "card (dom m \<union> key s ` set ds) \<le> room s"
  shows "\<exists>s'. put_all s ds = Some (Some s') \<and> rep s' (fold (\<lambda>d m. m(key s d \<mapsto> d)) ds m) \<and>
    room s' = room s \<and> key s' = key s"
  using assms
proof (induction ds arbitrary: s m)
  case (Cons d ds)
  have fin: "finite (dom m \<union> key s ` set (d # ds))"
    using finite_rep [OF Cons.prems(1)] by simp
  have "key s d \<in> dom m \<or> card (dom m) < room s"
  proof (rule disjCI)
    assume "\<not> card (dom m) < room s"
    then have "card (dom m \<union> key s ` set (d # ds)) \<le> card (dom m)" using Cons.prems(2) by simp
    then have "dom m \<union> key s ` set (d # ds) = dom m"
      using fin by (metis Un_upper1 card_seteq)
    then show "key s d \<in> dom m" by auto
  qed
  from put_law [OF Cons.prems(1) this] obtain s' where
    s': "put s d = Some (Some s')" "rep s' (m(key s d \<mapsto> d))" "room s' = room s" "key s' = key s"
    by blast
  have "dom (m(key s d \<mapsto> d)) \<union> key s ` set ds = dom m \<union> key s ` set (d # ds)" by auto
  then have "card (dom (m(key s d \<mapsto> d)) \<union> key s' ` set ds) \<le> room s'"
    using Cons.prems(2) s'(3,4) by simp
  from Cons.IH [OF s'(2) this] s' show ?case by auto
qed simp

text \<open>After a sequence of insertions a lookup gives the last element of the key.\<close>

lemma get_after_puts:
  assumes "rep s Map.empty" "card (key s ` set ds) \<le> room s"
  shows "\<exists>s' s''. put_all s ds = Some (Some s') \<and>
    get s' k = Some (map_of (rev (map (\<lambda>d. (key s d, d)) ds)) k, s'')"
proof -
  from put_all_rep [of s Map.empty ds] assms obtain s' where
    s': "put_all s ds = Some (Some s')" "rep s' (fold (\<lambda>d m. m(key s d \<mapsto> d)) ds Map.empty)" by auto
  have "fold (\<lambda>d m. m(key s d \<mapsto> d)) ds m = m ++ map_of (rev (map (\<lambda>d. (key s d, d)) ds))" for m
    by (induction ds arbitrary: m) (simp_all add: map_add_def fun_eq_iff split: option.split)
  then show ?thesis using s' get_law [OF s'(2), of k] by auto
qed

end

definition store_rep :: "('d, 'k) hash_table \<Rightarrow> ('k \<rightharpoonup> 'd) \<Rightarrow> bool" where
  "store_rep ht m \<longleftrightarrow> holds ht m \<and> no_deleted ht"

lemma store_rep_put:
  assumes "store_rep ht m" "get_key ht d \<in> dom m \<or> card (dom m) < hmax ht"
  shows "\<exists>ht'. hash_put ht d = Some (Some ht') \<and> store_rep ht' (m(get_key ht d \<mapsto> d)) \<and>
    hmax ht' = hmax ht \<and> get_key ht' = get_key ht"
proof (cases "get_key ht d \<in> dom m")
  case True
  with assms(1) obtain ht' where "hash_put ht d = Some (Some ht')" "holds ht' (m(get_key ht d \<mapsto> d))"
    "same_shape ht ht'" "hmax ht' = hmax ht" "no_deleted ht'"
    using hash_put_present [of ht m d] by (metis domIff store_rep_def)
  then show ?thesis by (auto simp: store_rep_def same_shape_def)
next
  case False
  then have "m (get_key ht d) = None" "hitems ht < hmax ht"
    using assms holds_items [of ht m] by (auto simp: store_rep_def)
  with assms(1) obtain ht' where "hash_put ht d = Some (Some ht')" "holds ht' (m(get_key ht d \<mapsto> d))"
    "same_shape ht ht'" "hmax ht' = hmax ht" "no_deleted ht'"
    using hash_put_fresh [of ht m d] by (metis store_rep_def)
  then show ?thesis by (auto simp: store_rep_def same_shape_def)
qed

lemma holds_finite: "holds ht m \<Longrightarrow> finite (dom m)"
proof (rule finite_subset)
  assume h: "holds ht m"
  show "dom m \<subseteq> (\<lambda>x. get_key ht (the (the (view ht x)))) ` {x. \<exists>d. live_at ht x d}"
  proof
    fix k assume "k \<in> dom m"
    then obtain d x where x: "live_at ht x d" "get_key ht d = k" using holdsD(7) [OF h] by blast
    then have "view ht x = Some (Some d)" by (simp add: live_at_def)
    with x show "k \<in> (\<lambda>x. get_key ht (the (the (view ht x)))) ` {x. \<exists>d. live_at ht x d}"
      by (intro image_eqI [of _ _ x]) auto
  qed
qed (simp add: finite_live)

interpretation hs: keyed_store store_rep hmax get_key hash_put hash_get
proof unfold_locales
  show "\<exists>s'. hash_get s k = Some (m k, s') \<and> store_rep s' m \<and> hmax s' = hmax s \<and> get_key s' = get_key s"
    if "store_rep s m" for s :: "('d, 'k) hash_table" and m k
    using that hash_get_holds [of s m k] by (auto simp: store_rep_def)
  show "finite (dom m)" if "store_rep s m" for s :: "('d, 'k) hash_table" and m
    using that holds_finite unfolding store_rep_def by blast
qed (rule store_rep_put)

subsection \<open>Iteration gives the elements that are stored\<close>

definition hash_list :: "('d, 'k) hash_table \<Rightarrow> 'd list" where
  "hash_list ht = concat (map (\<lambda>g. List.map_filter id (slot g)) (htable ht))"

lemma map_filter_drop:
  "i < length xs \<Longrightarrow> List.map_filter id (drop i xs) =
    (case xs ! i of Some d \<Rightarrow> [d] | None \<Rightarrow> []) @ List.map_filter id (drop (Suc i) xs)"
  by (simp add: Cons_nth_drop_Suc [symmetric] List.map_filter_def split: option.split)

text \<open>What is left to visit from element \<open>i\<close> of group \<open>g\<close> on.\<close>

definition hash_rest :: "('d, 'k) hash_table \<Rightarrow> nat \<Rightarrow> nat \<Rightarrow> 'd list" where
  "hash_rest ht g i = List.map_filter id (drop i (slot (htable ht ! g))) @
     concat (map (\<lambda>g. List.map_filter id (slot g)) (drop (Suc g) (htable ht)))"

lemma hash_rest_next:
  assumes "Suc g < length (htable ht)" "i \<ge> length (slot (htable ht ! g))"
  shows "hash_rest ht g i = hash_rest ht (Suc g) 0"
  using assms by (simp add: hash_rest_def Cons_nth_drop_Suc [symmetric, of "Suc g"] map_filter_simps)

lemma hash_scan_rest:
  assumes "\<forall>g \<in> set (htable ht). sg_ok g" "g < length (htable ht)"
  shows "case hash_scan ht g i of
      None \<Rightarrow> hash_rest ht g i = []
    | Some ((g', i'), d) \<Rightarrow> g' < length (htable ht) \<and> hash_rest ht g i = d # hash_rest ht g' (Suc i')"
  using assms
proof (induction ht g i rule: hash_scan.induct)
  case (1 ht g i)
  have cnt: "sg_count (htable ht ! g) = length (slot (htable ht ! g))"
    using "1.prems" by (auto simp: sg_ok_def)
  consider "i < length (slot (htable ht ! g))" | "length (slot (htable ht ! g)) \<le> i" "Suc g < length (htable ht)"
    | "length (slot (htable ht ! g)) \<le> i" "Suc g = length (htable ht)"
    using "1.prems"(2) by linarith
  then show ?case
  proof cases
    case 1
    have r: "hash_rest ht g i = (case slot (htable ht ! g) ! i of Some d \<Rightarrow> [d] | None \<Rightarrow> []) @ hash_rest ht g (Suc i)"
      unfolding hash_rest_def map_filter_drop [OF 1] by simp
    show ?thesis
    proof (cases "slot (htable ht ! g) ! i")
      case None
      with "1.IH"(1) "1.prems" 1 cnt r show ?thesis
        by (subst hash_scan.simps) (auto split: option.splits)
    next
      case (Some d)
      with "1.prems" 1 cnt r show ?thesis by (subst hash_scan.simps) simp
    qed
  next
    case 2
    with "1.IH"(2) "1.prems" cnt hash_rest_next [of g ht i] show ?thesis
      by (subst hash_scan.simps) (auto split: option.splits)
  next
    case 3
    with "1.prems" cnt show ?thesis
      by (subst hash_scan.simps) (simp add: hash_rest_def map_filter_simps)
  qed
qed

lemma hash_foreach_list:
  assumes "\<forall>g \<in> set (htable ht). sg_ok g" "htable ht \<noteq> []"
  shows "hash_foreach ht (hash_iterate ht) f s = fold_opt f (hash_list ht) s"
proof -
  have go: "hash_foreach ht (hash_scan ht g i) f s = fold_opt f xs s"
    if "xs = hash_rest ht g i" "g < length (htable ht)" for xs g i s
    using that
  proof (induction xs arbitrary: g i s)
    case Nil
    with hash_scan_rest [OF assms(1), of g i] have "hash_scan ht g i = None"
      by (auto split: option.splits)
    then show ?case by (subst hash_foreach.simps) simp
  next
    case (Cons d xs)
    with hash_scan_rest [OF assms(1), of g i] obtain g' i' where
      n: "hash_scan ht g i = Some ((g', i'), d)" "g' < length (htable ht)" "xs = hash_rest ht g' (Suc i')"
      by (auto split: option.splits)
    show ?case
      using Cons.IH [OF n(3,2)] n(1)
      by (subst hash_foreach.simps) (auto simp: hash_next_def intro!: Option.bind_cong)
  qed
  have "hash_rest ht 0 0 = hash_list ht"
    using assms(2) by (cases "htable ht") (simp_all add: hash_rest_def hash_list_def)
  with go [of "hash_list ht" 0 0 s] assms(2) show ?thesis by (simp add: hash_iterate_def)
qed

subsection \<open>Sequences of operations\<close>

datatype ('d, 'k) hash_op = Put 'd | Delete 'k | Get 'k

text \<open>The results of the deletions and lookups of a sequence, if it runs to its end.\<close>

fun run_hash :: "('d, 'k) hash_table \<Rightarrow> ('d, 'k) hash_op list \<Rightarrow> 'd option list option" where
  "run_hash ht [] = Some []"
| "run_hash ht (Put d # ops) =
     (case hash_put ht d of Some (Some ht) \<Rightarrow> run_hash ht ops | _ \<Rightarrow> None)"
| "run_hash ht (Delete k # ops) =
     (case hash_delete ht k of
        Some (x, Some ht) \<Rightarrow> map_option ((#) x) (run_hash ht ops) | _ \<Rightarrow> None)"
| "run_hash ht (Get k # ops) =
     (case hash_get ht k of Some (x, ht) \<Rightarrow> map_option ((#) x) (run_hash ht ops) | _ \<Rightarrow> None)"

lemmas hash_eval = hash_put_def hash_get_def hash_delete_def hash_find_def hash_find_loop.simps
  hash_index_def hash_new_def hash_init_def sg_empty_def hash_insert_def sg_insert_def bit_rank_def
  Let_def sg_element_def int64_compare_def store_def sg_write_def deref_def

subsection \<open>When the search returns\<close>

definition stops :: "('d, 'k) hash_table \<Rightarrow> 'k \<Rightarrow> nat \<Rightarrow> bool" where
  "stops ht key idx \<longleftrightarrow> view ht idx = None \<or> (\<exists>d. view ht idx = Some (Some d) \<and> get_key ht d = key)"

lemma hash_find_loop_stops:
  assumes "hash_find_loop ht key index probes mark = Some r" "hash_wf ht" "index = path ht key probes"
  shows "\<exists>j. stops ht key (path ht key j)"
proof -
  have "hash_wf ht \<longrightarrow> index = path ht key probes \<longrightarrow> (\<exists>j. stops ht key (path ht key j))"
  proof (rule hash_find_loop.raw_induct [OF _ assms(1), of "\<lambda>ht key index probes mark r.
      hash_wf ht \<longrightarrow> index = path ht key probes \<longrightarrow> (\<exists>j. stops ht key (path ht key j))"])
    fix loop ht key index probes mark r
    assume IH: "\<And>ht key index probes mark r. loop ht key index probes mark = Some r \<Longrightarrow>
        hash_wf ht \<longrightarrow> index = path ht key probes \<longrightarrow> (\<exists>j. stops ht key (path ht key j))"
      and eq: "(let gi = index div 58; g = htable ht ! gi; i = index mod 58;
          next = (index + Suc probes) AND (hsize ht - 1);
          marked = (case mark of None \<Rightarrow> Some (gi, i) | Some p \<Rightarrow> Some p)
        in if slot g = [] \<or> sg_empty g i then Some (marked, None)
           else (case slot g ! sg_element g i of
               None \<Rightarrow> loop ht key next (Suc probes) marked
             | Some d \<Rightarrow>
                 if compare_of ht key (get_key ht d) = 0 then Some (mark, Some (gi, sg_element g i))
                 else loop ht key next (Suc probes) mark)) = Some r"
    show "hash_wf ht \<longrightarrow> index = path ht key probes \<longrightarrow> (\<exists>j. stops ht key (path ht key j))"
    proof (intro impI)
      assume wf: "hash_wf ht" and ix: "index = path ht key probes"
      let ?g = "htable ht ! (index div 58)" and ?i = "index mod 58"
      show "\<exists>j. stops ht key (path ht key j)"
      proof (cases "stops ht key index")
        case False
        have "sg_ok ?g" using hash_wf_group [OF wf path_less [OF wf]] ix by simp
        then have e: "slot ?g = [] \<Longrightarrow> sg_empty ?g ?i"
          using sg_element_less [of ?g ?i] by (auto simp: sg_empty_iff)
        have ne: "\<not> sg_empty ?g ?i"
          using False by (auto simp: stops_def view_def sg_view_def)
        have "compare_of ht key (get_key ht d) \<noteq> 0" if "slot ?g ! sg_element ?g ?i = Some d" for d
          using False that ne wf by (auto simp: stops_def view_def sg_view_def hash_wf_def)
        then have "\<exists>mark. loop ht key ((index + Suc probes) AND (hsize ht - 1)) (Suc probes) mark = Some r"
          using eq e ne by (auto simp: Let_def split: option.splits if_splits)
        then show ?thesis using IH wf path_step [OF wf] ix by metis
      qed (use ix in blast)
    qed
  qed
  with assms(2,3) show ?thesis by blast
qed

lemma hash_find_returns:
  assumes wf: "hash_wf ht"
  shows "hash_find ht key \<noteq> None \<longleftrightarrow> (\<exists>idx < hsize ht. stops ht key idx)"
proof
  assume "hash_find ht key \<noteq> None"
  then obtain r where "hash_find_loop ht key (hash_index ht key) 0 None = Some r"
    by (auto simp: hash_find_def bind_eq_None_conv)
  from hash_find_loop_stops [OF this wf] show "\<exists>idx < hsize ht. stops ht key idx"
    using path_0 [OF wf] path_less [OF wf] by metis
next
  assume "\<exists>idx < hsize ht. stops ht key idx"
  moreover obtain n where "hsize ht = 2 ^ n" using wf by (auto simp: hash_wf_def)
  ultimately obtain k where k: "stops ht key (path ht key k)"
    using probe_covers [of _ n "hash_index ht key"] by metis
  define j where "j = (LEAST j. stops ht key (path ht key j))"
  have j: "stops ht key (path ht key j)" using k unfolding j_def by (rule LeastI)
  have "\<not> stops ht key (path ht key i)" if "i < j" for i
    using that not_less_Least unfolding j_def by blast
  then have p: "passed ht key 0 j" by (auto simp: passed_def stops_def)
  have "hash_find_loop ht key (path ht key 0) 0 None \<noteq> None"
  proof (cases "view ht (path ht key j)")
    case None
    from hash_find_loop_miss [OF wf this p] show ?thesis by fastforce
  next
    case (Some v)
    with j obtain d where "view ht (path ht key j) = Some (Some d)" "get_key ht d = key"
      by (auto simp: stops_def)
    from hash_find_loop_hit [OF wf this p] show ?thesis by fastforce
  qed
  then show "hash_find ht key \<noteq> None"
    by (auto simp: hash_find_def path_0 [OF wf] bind_eq_None_conv)
qed

subsection \<open>Resizing\<close>

text \<open>
  \<open>hash_resize\<close> inserts into the new table without a search: its mark is \<open>NULL\<close>.
\<close>

lemma fold_opt_insert_None: "hmark gt = None \<Longrightarrow> fold_opt hash_insert ds gt = (if ds = [] then Some gt else None)"
  by (cases ds) (simp_all add: hash_insert_def)

lemma hash_resize_result:
  assumes "hash_wf ht"
  shows "hash_resize ht n = (if hash_list ht = []
    then Some ((hash_new (get_key ht) (hash_of ht) (compare_of ht) n)\<lparr>hitems := hitems ht\<rparr>) else None)"
proof -
  have "0 < hsize ht" using assms by (auto simp: hash_wf_def)
  then have "htable ht \<noteq> []" using hash_wf_group(1) [OF assms, of 0] by auto
  then show ?thesis
    using assms by (simp add: hash_resize_def hash_foreach_list hash_wf_def fold_opt_insert_None hash_new_def hash_init_def)
qed

subsection \<open>Properties\<close>

lemma run_hash_puts:
  "run_hash ht (map Put ds @ ops) =
    (case hs.put_all ht ds of Some (Some ht') \<Rightarrow> run_hash ht' ops | _ \<Rightarrow> None)"
  by (induction ds arbitrary: ht) (auto split: option.split Option.bind_split)

text \<open>The parallel count gives the number of bits set below the position.\<close>

theorem bit_rank_counts: "\<forall>i \<le> 64. bit_rank b i = card {j. j < i \<and> bit b j}"
  by (simp add: bit_rank_eq rank_def)

theorem bit_rank_counts_witness: "bit_rank 0x2D 4 = card {j. j < 4 \<and> bit (0x2D :: u64) j}"
  using bit_rank_counts [of "0x2D"] by simp

text \<open>C2: in a new table with room for the keys, every insertion returns and a lookup
  gives the last element inserted with the key, or nothing if there is none.\<close>

theorem hash_get_after_puts:
  assumes "\<forall>a b. c a b = 0 \<longleftrightarrow> a = b" "card (gk ` set ds) \<le> (2 ^ n * 80) div 100"
  shows "run_hash (hash_new gk h c (2 ^ n)) (map Put ds @ [Get k]) =
    Some [map_of (rev (map (\<lambda>d. (gk d, d)) ds)) k]"
proof -
  let ?ht = "hash_new gk h c (2 ^ n)"
  have f: "get_key ?ht = gk" "hmax ?ht = (2 ^ n * 80) div 100"
    by (simp_all add: hash_new_def hash_init_def)
  have "store_rep ?ht Map.empty"
    using hash_new_holds [of c gk h n] assms(1) by (simp add: store_rep_def)
  from hs.get_after_puts [OF this, of ds k] assms(2) f show ?thesis
    by (auto simp: run_hash_puts)
qed

theorem hash_get_after_puts_witness:
  "run_hash (hash_new fst string_hash strcmp (2 ^ 3)) (map Put [(''b'', 1 :: nat), (''a'', 2), (''b'', 3)] @ [Get ''b'']) =
    Some [Some (''b'', 3)]"
proof -
  let ?ds = "[(''b'', 1 :: nat), (''a'', 2), (''b'', 3)]"
  have "card (fst ` set ?ds) \<le> (2 ^ 3 * 80) div 100" by (simp add: card_insert_if)
  moreover have "\<forall>a b. strcmp a b = 0 \<longleftrightarrow> a = b" by (simp add: strcmp_0)
  ultimately show ?thesis
    using hash_get_after_puts [of strcmp fst ?ds 3 string_hash "''b''"] by (simp del: run_hash.simps)
qed

text \<open>C6: the search returns exactly if some place is empty or holds the key; deleted
  places are never emptied again, so a table without an empty place hangs on a missing key.\<close>

theorem hash_find_returns_iff:
  assumes "hash_wf ht"
  shows "hash_find ht key \<noteq> None \<longleftrightarrow>
    (\<exists>idx < hsize ht. view ht idx = None \<or> (\<exists>d. view ht idx = Some (Some d) \<and> get_key ht d = key))"
  using hash_find_returns [OF assms] by (simp add: stops_def)

theorem hash_find_returns_iff_witness: "hash_find (new_int64_hash 64 (\<lambda>d. d)) 5 \<noteq> None"
proof -
  let ?ht = "hash_new (\<lambda>d. d) int64_hash int64_compare (2 ^ 6)"
  have wf: "hash_wf ?ht"
    using hash_new_holds(1) [OF int64_compare_0] holdsD(2) by blast
  have "view ?ht 0 = None" by (rule view_new) (simp add: hash_new_def hash_init_def)
  moreover have "0 < hsize ?ht" by (simp add: hash_new_def hash_init_def)
  ultimately show ?thesis
    using hash_find_returns_iff [OF wf, of 5] by (auto simp: new_int64_hash_def)
qed

lemma hash_delete_lost:
  assumes "holds ht m" "m key = Some d" "hitems ht = hmin ht"
  shows "run_hash ht (Delete key # ops) = None"
proof -
  from holdsD(7) [OF assms(1,2)] obtain idx where idx: "live_at ht idx d" "get_key ht d = key"
    by blast
  from hash_find_present [OF holdsD(1) [OF assms(1)] idx(1)] obtain mark where
    "hash_find ht key = Some (ht\<lparr>hmark := mark\<rparr>, Some (ptr ht idx))"
    unfolding idx(2) by blast
  then show ?thesis using assms(3) by (auto simp: hash_delete_def Let_def split: option.splits bind_splits)
qed

text \<open>C7: The deletion of a key that is in the table. When the table holds exactly its lower bound of elements
  (40 percent of its places) it is lost: the resizing writes through a null pointer or the caller keeps the table
  that was freed. Otherwise the deletion returns the element, afterwards the key is gone and every other key is
  found as before.\<close>

theorem hash_delete_get:
  assumes "holds ht m" "m key = Some d"
  shows "run_hash ht [Delete key, Get k] = (if hitems ht = hmin ht then None else Some [Some d, (m(key := None)) k])"
proof (cases "hitems ht = hmin ht")
  case True
  then show ?thesis using hash_delete_lost [OF assms] by simp
next
  case False
  from hash_delete_present [OF assms False] obtain ht' where
    "hash_delete ht key = Some (Some d, Some ht')" "holds ht' (m(key := None))" .
  with hash_get_holds [of ht' "m(key := None)" k] show ?thesis using False by auto
qed

theorem hash_delete_get_witness:
  "run_hash (hash_new (\<lambda>d. d) int64_hash int64_compare (2 ^ 6)) [Put 7, Delete 7, Get (7 :: int)] =
    Some [Some 7, None]"
proof -
  let ?ht = "hash_new (\<lambda>d. d) int64_hash int64_compare (2 ^ 6) :: (int, int) hash_table"
  have c: "int64_compare a b = 0 \<longleftrightarrow> a = b" for a b by (rule int64_compare_0)
  have h: "holds ?ht Map.empty" and n: "no_deleted ?ht" by (rule hash_new_holds; rule c)+
  have f: "hitems ?ht < hmax ?ht" and k: "get_key ?ht = (\<lambda>d. d)" and sz: "hsize ?ht = 64"
    by (simp_all add: hash_new_def hash_init_def)
  obtain ht where ht: "hash_put ?ht 7 = Some (Some ht)" "holds ht (Map.empty(get_key ?ht 7 \<mapsto> 7))" "same_shape ?ht ht"
    using hash_put_fresh [OF h _ n f, of 7] by blast
  have h7: "holds ht [7 \<mapsto> 7]" using ht(2) k by simp
  have "hitems ht = 1" using holds_items [OF h7] by simp
  moreover have "hmin ht = 25" using holdsD(2) [OF h7] ht(3) sz by (simp add: hash_wf_def same_shape_def)
  ultimately show ?thesis using hash_delete_get [OF h7, of 7 7 7] ht(1) by simp
qed

text \<open>A new key for a table that is at its upper bound: \<open>hash_resize\<close> or the insertion
  after it writes through the \<open>NULL\<close> pointer of the new table, so \<open>hash_put\<close> never succeeds.\<close>

theorem hash_put_full_fails:
  assumes "holds ht m" "m (get_key ht d) = None" "hitems ht = hmax ht"
  shows "hash_put ht d = None"
proof -
  have "\<forall>idx e. live_at ht idx e \<longrightarrow> get_key ht e \<noteq> get_key ht d"
    using holdsD(6) [OF assms(1)] assms(2) by fastforce
  from hash_find_absent [OF holdsD(1) [OF assms(1)] this] obtain mark where
    f: "hash_find ht (get_key ht d) = Some (ht\<lparr>hmark := mark\<rparr>, None)" by auto
  have "hash_wf (ht\<lparr>hmark := mark\<rparr>)" using holdsD(2) [OF assms(1)] by simp
  from hash_resize_result [OF this] f assms(3) show ?thesis
    by (simp add: hash_put_def hash_insert_def hash_new_def hash_init_def)
qed

lemma int64_hash_values: "int64_hash 1 = - 1214973746" "int64_hash 2 = 1865025140"
  by (simp_all add: int64_hash_def Let_def c_int_def)

text \<open>An element that is inserted at a deleted place shifts the elements behind it in the
  group's array without a bit of its own, and they are lost.\<close>

theorem hash_reinsert_loses:
  "run_hash (new_int64_hash 64 (\<lambda>d. d)) [Put 1, Put 2, Delete 1, Put 1, Get 1, Get 2] =
    Some [Some 1, Some 1, None]"
  by (simp add: new_int64_hash_def int64_hash_values hash_eval flip: numeral_2_eq_2)

text \<open>\<open>hash_free\<close> leaves the array of the last group of a table with several groups.\<close>

theorem hash_free_leaks:
  "1 < length (htable ht) \<longrightarrow> length (htable ht) - 1 \<notin> set (hash_free_groups ht)"
  by (simp add: hash_free_groups_def)

end
