(* ===== verification/Named.thy ===== *)
theory Named
  imports Hash
begin

section \<open>Lists of named structures (core/named.c)\<close>

text \<open>
  A structure that starts with the fields of \<open>Named\<close> is its name, \<open>None\<close> where the pointer is NULL,
  and what follows. A pointer to a cell is the rest of the list that begins there, NULL the empty list.
\<close>

type_synonym 'a named = "(string option \<times> 'a) list"

subsection \<open>Operations\<close>

fun find_by_name :: "'a named \<Rightarrow> string \<Rightarrow> 'a named" where
  "find_by_name [] name = []"
| "find_by_name ((n, d) # l) name = (if n = Some name then (n, d) # l else find_by_name l name)"

text \<open>\<open>get_by_name\<close> gives the list and the cell; a new cell is cleared to \<open>zero\<close>.\<close>

definition get_by_name :: "'a \<Rightarrow> 'a named \<Rightarrow> string \<Rightarrow> 'a named \<times> 'a named" where
  "get_by_name zero l name =
     (let n = find_by_name l name in
      if n = [] then ((Some name, zero) # l, (Some name, zero) # l) else (l, n))"

definition named_insert :: "'a named \<Rightarrow> string \<Rightarrow> 'a \<Rightarrow> 'a named" where
  "named_insert l name d = (Some name, d) # l"

text \<open>\<open>None\<close> is the comparison of a missing name.\<close>

fun insert_cell :: "string option \<times> 'a \<Rightarrow> 'a named \<Rightarrow> 'a named option" where
  "insert_cell n [] = Some [n]"
| "insert_cell n (c # l) =
     (case (fst n, fst c) of
        (Some a, Some b) \<Rightarrow>
          if strcmp a b > 0 then map_option (Cons c) (insert_cell n l) else Some (n # c # l)
      | _ \<Rightarrow> None)"

definition named_insert_sorted :: "'a named \<Rightarrow> string \<Rightarrow> 'a \<Rightarrow> 'a named option" where
  "named_insert_sorted l name d = insert_cell (hd (named_insert [] name d)) l"

fun index_loop :: "nat \<Rightarrow> 'a named \<Rightarrow> string \<Rightarrow> int" where
  "index_loop i [] name = -1"
| "index_loop i ((n, d) # l) name = (if n = Some name then int i else index_loop (Suc i) l name)"

definition find_index_by_name :: "'a named \<Rightarrow> string \<Rightarrow> int" where
  "find_index_by_name = index_loop 0"

text \<open>Writing to the structure of a name, as through the pointer that was found.\<close>

fun update_named :: "string \<Rightarrow> ('a \<Rightarrow> 'a) \<Rightarrow> 'a named \<Rightarrow> 'a named" where
  "update_named name f [] = []"
| "update_named name f ((n, d) # l) = (if n = Some name then (n, f d) # l else (n, d) # update_named name f l)"

subsection \<open>Finding\<close>

definition named_names :: "'a named \<Rightarrow> string list" where
  "named_names l = List.map_filter fst l"

lemma named_names_simps [simp]:
  "named_names [] = []" "named_names ((Some n, d) # l) = n # named_names l" "named_names ((None, d) # l) = named_names l"
  by (simp_all add: named_names_def List.map_filter_def)

lemma set_named_names: "set (named_names l) = {n. \<exists>d. (Some n, d) \<in> set l}"
  by (induction l) (auto simp: named_names_def List.map_filter_def split: if_splits)

lemma find_by_name_eq_Nil: "find_by_name l name = [] \<longleftrightarrow> name \<notin> set (named_names l)"
proof (induction l)
  case (Cons c l)
  then show ?case by (cases c; cases "fst c") auto
qed simp

lemma find_by_name_hd: "find_by_name l name \<noteq> [] \<Longrightarrow> fst (hd (find_by_name l name)) = Some name"
  by (induction l name rule: find_by_name.induct) (auto split: if_splits)

lemma find_by_name_suffix: "\<exists>p. l = p @ find_by_name l name \<and> name \<notin> set (named_names p)"
proof (induction l)
  case (Cons c l)
  obtain n d where c: "c = (n, d)" by (cases c)
  obtain p where p: "l = p @ find_by_name l name" "name \<notin> set (named_names p)" using Cons by blast
  show ?case
  proof (cases "n = Some name")
    case True
    then show ?thesis using c by (intro exI [of _ "[]"]) simp
  next
    case False
    then have "name \<notin> set (named_names (c # p))" using c p(2) by (cases n) auto
    then show ?thesis using False c p(1) by (intro exI [of _ "c # p"]) simp
  qed
qed simp

lemma index_loop_find: "index_loop i l name = (if name \<in> set (named_names l) then int i + int (length l - length (find_by_name l name)) else -1)"
proof (induction l arbitrary: i)
  case (Cons c l)
  obtain n d where c: "c = (n, d)" by (cases c)
  have "length (find_by_name l name) \<le> length l"
    using find_by_name_suffix [of l name] by (metis le_add2 length_append)
  then show ?case using Cons [of "Suc i"] c by (cases n) auto
qed simp

lemma find_index_by_name_find:
  "find_index_by_name l name = -1 \<and> find_by_name l name = [] \<or>
   0 \<le> find_index_by_name l name \<and> drop (nat (find_index_by_name l name)) l = find_by_name l name"
proof (cases "name \<in> set (named_names l)")
  case True
  obtain p where "l = p @ find_by_name l name" using find_by_name_suffix by blast
  then have "drop (length l - length (find_by_name l name)) l = find_by_name l name"
    by (metis append_eq_conv_conj length_append diff_add_inverse2)
  then show ?thesis using True by (simp add: find_index_by_name_def index_loop_find)
qed (simp add: find_index_by_name_def index_loop_find find_by_name_eq_Nil)

subsection \<open>Names stay distinct\<close>

lemma get_by_name_names:
  "named_names (fst (get_by_name z l name)) = (if name \<in> set (named_names l) then named_names l else name # named_names l)"
  by (simp add: get_by_name_def Let_def find_by_name_eq_Nil)

lemma get_by_name_distinct: "distinct (named_names l) \<Longrightarrow> distinct (named_names (fst (get_by_name z l name)))"
  by (simp add: get_by_name_names)

lemma get_by_name_find: "find_by_name (fst (get_by_name z l name)) name = snd (get_by_name z l name)"
  by (simp add: get_by_name_def Let_def)

lemma get_by_name_other: "m \<noteq> name \<Longrightarrow> find_by_name (fst (get_by_name z l name)) m = find_by_name l m"
  by (simp add: get_by_name_def Let_def)

lemma update_named_names [simp]: "named_names (update_named name f l) = named_names l"
  by (induction name f l rule: update_named.induct) (auto simp: named_names_def List.map_filter_def)

lemma find_update_other:
  "m \<noteq> name \<Longrightarrow> find_by_name (update_named name f l) m = [] \<longleftrightarrow> find_by_name l m = []"
  by (simp add: find_by_name_eq_Nil)

subsection \<open>Sorted insertion\<close>

lemma strcmp_range: "strcmp a b \<in> {-1, 0, 1}"
  by (induction a b rule: strcmp.induct) auto

lemma strcmp_flip: "strcmp b a = - strcmp a b"
  by (induction a b rule: strcmp.induct) auto

lemma strcmp_trans: "strcmp a b \<le> 0 \<Longrightarrow> strcmp b c \<le> 0 \<Longrightarrow> strcmp a c \<le> 0"
proof (induction a b arbitrary: c rule: strcmp.induct)
  case (4 a as b bs)
  then show ?case by (cases c) (auto split: if_splits)
next
  case (2 b bs)
  then show ?case by (cases c) auto
qed auto

definition name_sorted :: "'a named \<Rightarrow> bool" where
  "name_sorted l \<longleftrightarrow> list_all (\<lambda>c. fst c \<noteq> None) l \<and> sorted_wrt (\<lambda>a b. strcmp a b \<le> 0) (named_names l)"

lemma insert_cell_sorted:
  "name_sorted l \<Longrightarrow> \<exists>l'. insert_cell (Some a, d) l = Some l' \<and> name_sorted l' \<and> mset l' = add_mset (Some a, d) (mset l)"
proof (induction l)
  case (Cons c l)
  obtain b e where c: "c = (Some b, e)" using Cons.prems by (cases c) (auto simp: name_sorted_def)
  have l: "name_sorted l" "\<forall>m \<in> set (named_names l). strcmp b m \<le> 0" using Cons.prems c by (auto simp: name_sorted_def)
  obtain l' where l': "insert_cell (Some a, d) l = Some l'" "name_sorted l'" "mset l' = add_mset (Some a, d) (mset l)"
    using Cons.IH l(1) by blast
  show ?case
  proof (cases "strcmp a b > 0")
    case True
    have "set l' = insert (Some a, d) (set l)" using l'(3) by (metis set_mset_add_mset_insert set_mset_mset)
    then have "set (named_names l') = insert a (set (named_names l))" by (auto simp: set_named_names)
    moreover have "strcmp b a \<le> 0" using True strcmp_flip [of a b] by simp
    ultimately show ?thesis using True c l l' by (auto simp: name_sorted_def)
  next
    case False
    then have "\<forall>m \<in> set (named_names l). strcmp a m \<le> 0" using l(2) strcmp_trans [of a b] by auto
    then show ?thesis using False c l(1,2) by (auto simp: name_sorted_def)
  qed
qed (simp add: name_sorted_def)

text \<open>
  The insertion keeps a list of names in order, loses no structure and adds exactly the new one.
\<close>
lemma named_insert_sorted_keeps:
  assumes "name_sorted l"
  shows "\<exists>l'. named_insert_sorted l name d = Some l' \<and> name_sorted l' \<and> mset l' = add_mset (Some name, d) (mset l)"
  using insert_cell_sorted [OF assms] by (simp add: named_insert_sorted_def named_insert_def)

end
