(* ===== verification/Address.thy ===== *)
theory Address
  imports C_Util
begin

section \<open>IP addresses (core/address.c, core/bsd.c)\<close>

text \<open>
  Parsers take the rest of a C string (its end is the terminator). The IPv6 parser writes into
  a buffer of 16 bytes of its caller: a write behind it is the outer \<open>None\<close>, the inner
  \<open>None\<close> is the NULL that the code returns for malformed text.
\<close>

unbundle bit_operations_syntax

subsection \<open>The Address structure (bsd.c)\<close>

datatype ip = ADDR_IPv4 u32 | ADDR_IPv6 "u8 list" u32

record address =
  address_ip :: ip
  address_port :: u16

definition set_port :: "address \<Rightarrow> int \<Rightarrow> address" where
  "set_port a p = a\<lparr>address_port := word_of_int p\<rparr>"

definition ipv4_address :: "u32 \<Rightarrow> int \<Rightarrow> address" where
  "ipv4_address i port = \<lparr>address_ip = ADDR_IPv4 i, address_port = word_of_int port\<rparr>"

text \<open>The scope of a link-local address is the selected interface.\<close>

definition ipv6_scope :: "u32 \<Rightarrow> u8 list \<Rightarrow> u32" where
  "ipv6_scope global_if_index addr =
     (case addr of a # b # _ \<Rightarrow>
        if (push_bit 8 (ucast a) OR ucast b :: u32) AND 0xffc0 = 0xfe80 then global_if_index else 0
      | _ \<Rightarrow> 0)"

definition ipv6_address :: "u32 \<Rightarrow> u8 list \<Rightarrow> int \<Rightarrow> address" where
  "ipv6_address global_if_index host port =
     \<lparr>address_ip = ADDR_IPv6 (take 16 host) (ipv6_scope global_if_index host), address_port = word_of_int port\<rparr>"

subsection \<open>Hexadecimal groups\<close>

definition hex_value :: "char \<Rightarrow> int option" where
  "hex_value ch =
     (let c = cv ch in
      if in_range c 48 57 then Some (c - 48)
      else if in_range c 97 102 then Some (c - 97 + 10)
      else if in_range c 65 70 then Some (c - 65 + 10)
      else None)"

fun hex4 :: "string \<Rightarrow> (int \<times> string) option" where
  "hex4 [] = None"
| "hex4 (c # data) = map_option (\<lambda>x. (x, data)) (hex_value c)"

text \<open>Up to four digits; \<open>k\<close> counts down from 4.\<close>

fun hex16_loop :: "nat \<Rightarrow> int \<Rightarrow> string \<Rightarrow> (int \<times> string) option" where
  "hex16_loop 0 x data = Some (x, data)"
| "hex16_loop (Suc k) x data =
     (case hex4 data of
        Some (y, data) \<Rightarrow> hex16_loop k (x * 16 + y) data
      | None \<Rightarrow> if 4 - Suc k \<ge> 1 then Some (x, data) else None)"

definition hex16 :: "string \<Rightarrow> (u8 list \<times> string) option" where
  "hex16 data = map_option (\<lambda>(x, data). ([word_of_int (x div 256), word_of_int x], data)) (hex16_loop 4 0 data)"

subsection \<open>The IPv6 parser\<close>

definition ipv6_input :: "char \<Rightarrow> nat" where
  "ipv6_input c = (if c = CHR '':'' then 0 else if c = CHR '']'' then 1 else 2)"

definition ipv6_state :: "nat list" where
  "ipv6_state =
    [1, 7, 5,
     2, 7, 7,
     7, 8, 3,
     4, 8, 7,
     7, 7, 3,
     6, 9, 7,
     2, 7, 5]"

lemma hex4_shorter: "hex4 data = Some (y, rest) \<Longrightarrow> length data = Suc (length rest)"
  by (cases data) (auto simp: map_option_case split: option.splits)

lemma hex16_loop_shorter:
  "hex16_loop k x data = Some (y, rest) \<Longrightarrow> length rest \<le> length data"
  by (induction k arbitrary: x data) (auto dest!: hex4_shorter split: option.splits if_splits, fastforce)

lemma hex16_shorter: "hex16 data = Some (h, rest) \<Longrightarrow> length rest < length data"
  by (auto simp: hex16_def numeral_eq_Suc dest!: hex16_loop_shorter hex4_shorter split: option.splits if_splits)

text \<open>
  \<open>n\<close> and \<open>m\<close> count the groups and those behind the gap, \<open>addr\<close> are the bytes written so far.
  In state 8 the code moves the last \<open>2 * m\<close> bytes to the end and clears the space.
\<close>

function ipv6_loop :: "nat \<Rightarrow> nat \<Rightarrow> nat \<Rightarrow> nat \<Rightarrow> u8 list \<Rightarrow> string \<Rightarrow> (u8 list \<times> string) option option" where
  "ipv6_loop state n m gap addr [] = Some None"
| "ipv6_loop state n m gap addr (c # data) =
     (let state = ipv6_state ! (state * 3 + ipv6_input c) in
      if state = 2 then ipv6_loop state n m (length addr) addr data
      else if state = 3 \<or> state = 5 then
        (case hex16 (c # data) of
           None \<Rightarrow> Some None
         | Some (h, data) \<Rightarrow>
             if length addr + 2 \<le> 16
             then ipv6_loop state (n + 1) (if state = 3 then m + 1 else m) gap (addr @ h) data
             else None)
      else if state = 7 then Some None
      else if state = 8 then
        (if 2 * n \<le> 16 then
           Some (Some (take gap addr @ replicate (16 - 2 * n) 0 @ take (2 * m) (drop gap addr), data))
         else None)
      else if state = 9 then (if n = 8 then Some (Some (addr, data)) else Some None)
      else if state = 4 \<and> n = 6 \<or> state = 6 \<and> n = 8 then Some None
      else ipv6_loop state n m gap addr data)"
  by pat_completeness auto
termination
  by (relation "measure (\<lambda>(s, n, m, g, a, d). length d)") (auto dest: hex16_shorter simp: less_Suc_eq_le)

fun parse_ipv6 :: "string \<Rightarrow> (u8 list \<times> string) option option" where
  "parse_ipv6 (c # data) = (if c = CHR ''['' then ipv6_loop 0 0 0 0 [] data else Some None)"
| "parse_ipv6 [] = Some None"

subsection \<open>The IPv4 parser\<close>

text \<open>\<open>k\<close> numbers are still to be read.\<close>

fun ipv4_loop :: "nat \<Rightarrow> u32 \<Rightarrow> string \<Rightarrow> (u32 \<times> string) option" where
  "ipv4_loop k x data =
     (case number data of
        None \<Rightarrow> None
      | Some (y, data) \<Rightarrow>
          if y \<le> 255 then
            let x = push_bit 8 x OR word_of_int y in
            (case k of
               0 \<Rightarrow> None
             | Suc 0 \<Rightarrow> Some (x, data)
             | Suc (Suc k') \<Rightarrow> (case data of c # data \<Rightarrow> if c = CHR ''.'' then ipv4_loop (Suc k') x data else None | [] \<Rightarrow> None))
          else None)"

declare ipv4_loop.simps [simp del]

definition parse_ipv4 :: "string \<Rightarrow> (u32 \<times> string) option" where
  "parse_ipv4 data = ipv4_loop 4 0 data"

definition parse_address :: "u32 \<Rightarrow> int \<Rightarrow> string \<Rightarrow> (address \<times> string) option option" where
  "parse_address global_if_index port data =
     (if data \<noteq> [] \<and> hd data = CHR ''['' then
        map_option (map_option (\<lambda>(buffer, rest). (ipv6_address global_if_index buffer port, rest))) (parse_ipv6 data)
      else Some (map_option (\<lambda>(ipv4, rest). (ipv4_address ipv4 port, rest)) (parse_ipv4 data)))"

subsection \<open>Writing addresses\<close>

definition write_ipv4 :: "u32 \<Rightarrow> string" where
  "write_ipv4 addr =
     (let d = ucast addr :: u8; addr = drop_bit 8 addr; c = ucast addr :: u8; addr = drop_bit 8 addr;
          b = ucast addr :: u8; addr = drop_bit 8 addr; a = ucast addr :: u8
      in show_nat (unat a) @ ''.'' @ show_nat (unat b) @ ''.'' @ show_nat (unat c) @ ''.'' @ show_nat (unat d))"

text \<open>The \<open>%x\<close> conversion.\<close>

fun show_hex :: "nat \<Rightarrow> string" where
  "show_hex n = (if n < 16 then [hex_digit_char n] else show_hex (n div 16) @ [hex_digit_char (n mod 16)])"

declare show_hex.simps [simp del]

text \<open>\<open>zero\<close> is 0 before the first group of zero, 1 in the run of zeros, and -1 behind it.\<close>

fun write_ipv6_loop :: "int \<Rightarrow> string \<Rightarrow> u8 list \<Rightarrow> string" where
  "write_ipv6_loop zero out (a # b # host) =
     (let x = unat a * 256 + unat b in
      if zero \<ge> 0 \<and> x = 0 then write_ipv6_loop 1 out host
      else let out = (if zero = 1 then out @ '':'' else out);
               zero = (if zero = 1 then -1 else zero);
               out = (if out \<noteq> [] then out @ '':'' else out)
           in write_ipv6_loop zero (out @ show_hex x) host)"
| "write_ipv6_loop zero out _ = out"

definition write_ipv6 :: "u8 list \<Rightarrow> string" where
  "write_ipv6 host =
     (let body = write_ipv6_loop 0 [] host in ''['' @ (if body = [] then ''::'' else body) @ '']'')"

definition write_address :: "address \<Rightarrow> string" where
  "write_address a = (case address_ip a of ADDR_IPv4 i \<Rightarrow> write_ipv4 i | ADDR_IPv6 h _ \<Rightarrow> write_ipv6 h)"

definition write_address_port :: "address \<Rightarrow> string" where
  "write_address_port a = write_address a @ '':'' @ show_nat (unat (address_port a))"

lemma hex_digits [simp]:
  "hex_digit_char 0 = CHR ''0''" "hex_digit_char 1 = CHR ''1''" "hex_digit_char (Suc 0) = CHR ''1''" "hex_digit_char (Suc (Suc 0)) = CHR ''2''" "hex_digit_char 2 = CHR ''2''" "hex_digit_char 3 = CHR ''3''"
  "hex_digit_char 4 = CHR ''4''" "hex_digit_char 5 = CHR ''5''" "hex_digit_char 6 = CHR ''6''" "hex_digit_char 7 = CHR ''7''"
  "hex_digit_char 8 = CHR ''8''" "hex_digit_char 9 = CHR ''9''" "hex_digit_char 10 = CHR ''a''" "hex_digit_char 11 = CHR ''b''"
  "hex_digit_char 12 = CHR ''c''" "hex_digit_char 13 = CHR ''d''" "hex_digit_char 14 = CHR ''e''" "hex_digit_char 15 = CHR ''f''"
  by (simp_all add: hex_digit_char_def chr_def char_of_def bit_Suc_0_iff)

subsection \<open>What the parser and the writer get wrong\<close>

text \<open>The check for too many groups behind the gap is for exactly six groups. With six groups
  before the gap it never fires, and the ninth group is written behind the caller's buffer.\<close>

theorem parse_ipv6_overflow: "parse_ipv6 ''[1:2:3:4:5:6::7:8:9]'' = None"
  by code_simp

text \<open>A run of zeros at the end of an address is left out by the writer, and an address with
  one zero group is written in a form that the parser rejects.\<close>

theorem write_ipv6_zeros:
  "write_ipv6 [0xfe, 0x80, 0, 0, 0, 0, 0, 0, 0, 0, 0, 0, 0, 0, 0, 0] = ''[fe80]''"
  "parse_ipv6 ''[fe80]'' = Some None"
  "write_ipv6 [0, 1, 0, 2, 0, 3, 0, 0, 0, 5, 0, 6, 0, 7, 0, 8] = ''[1:2:3::5:6:7:8]''"
  "parse_ipv6 ''[1:2:3::5:6:7:8]'' = Some None"
proof -
  show "write_ipv6 [0xfe, 0x80, 0, 0, 0, 0, 0, 0, 0, 0, 0, 0, 0, 0, 0, 0] = ''[fe80]''"
    "write_ipv6 [0, 1, 0, 2, 0, 3, 0, 0, 0, 5, 0, 6, 0, 7, 0, 8] = ''[1:2:3::5:6:7:8]''"
    by (simp_all add: write_ipv6_def show_hex.simps Let_def)
  show "parse_ipv6 ''[fe80]'' = Some None" "parse_ipv6 ''[1:2:3::5:6:7:8]'' = Some None"
    by code_simp+
qed

subsection \<open>Round trips\<close>

lemma join_bytes: "push_bit 8 (drop_bit 8 x) OR ucast (ucast x :: u8) = (x :: u32)"
proof (rule bit_word_eqI)
  fix n assume "n < LENGTH(32)"
  then show "bit (push_bit 8 (drop_bit 8 x) OR ucast (ucast x :: u8)) n = bit x n"
    by (cases "n < 8") (auto simp: bit_simps)
qed

lemma ipv4_loop_number:
  assumes "y < 256" "rest = [] \<or> \<not> digit (cv (hd rest))"
  shows "ipv4_loop k x (show_nat y @ rest) =
     (let x = push_bit 8 x OR word_of_nat y in
      case k of
        0 \<Rightarrow> None
      | Suc 0 \<Rightarrow> Some (x, rest)
      | Suc (Suc k') \<Rightarrow> (case rest of c # data \<Rightarrow> if c = CHR ''.'' then ipv4_loop (Suc k') x data else None | [] \<Rightarrow> None))"
proof -
  have "\<not> starts_with_digit rest" using assms(2) by (auto simp: starts_with_digit_def split: list.splits)
  then have "number (show_nat y @ rest) = Some (int y, rest)"
    using assms(1) by (intro number_show_nat) auto
  then show ?thesis using assms(1) by (subst ipv4_loop.simps) (simp add: Let_def)
qed

lemma not_digit_dot: "\<not> digit (cv CHR ''.'')" by code_simp

lemma parse_write_ipv4:
  assumes "\<not> starts_with_digit rest"
  shows "parse_ipv4 (write_ipv4 addr @ rest) = Some (addr, rest)"
proof -
  define a b c d where "a = unat (ucast (drop_bit 24 addr) :: u8)" and "b = unat (ucast (drop_bit 16 addr) :: u8)"
    and "c = unat (ucast (drop_bit 8 addr) :: u8)" and "d = unat (ucast addr :: u8)"
  have lt: "a < 256" "b < 256" "c < 256" "d < 256"
    using unat_less [where 'a = 8] by (simp_all add: a_def b_def c_def d_def)
  have r: "rest = [] \<or> \<not> digit (cv (hd rest))"
    using assms by (auto simp: starts_with_digit_def split: list.splits)
  have w: "write_ipv4 addr @ rest = show_nat a @ CHR ''.'' # show_nat b @ CHR ''.'' # show_nat c @ CHR ''.'' # show_nat d @ rest"
    by (simp add: write_ipv4_def a_def b_def c_def d_def Let_def)
  have x: "push_bit 8 0 OR word_of_nat a = drop_bit 24 addr"
    "push_bit 8 (drop_bit 24 addr) OR word_of_nat b = drop_bit 16 addr"
    "push_bit 8 (drop_bit 16 addr) OR word_of_nat c = drop_bit 8 addr"
    "push_bit 8 (drop_bit 8 addr) OR word_of_nat d = addr"
    using join_bytes [of "drop_bit 24 addr"] join_bytes [of "drop_bit 16 addr"] join_bytes [of "drop_bit 8 addr"]
      join_bytes [of addr] drop_bit_word_beyond [of 32 addr]
    by (simp_all add: a_def b_def c_def d_def)
  have "push_bit 8 (push_bit 8 (push_bit 8 (push_bit 8 0 OR word_of_nat a) OR word_of_nat b) OR word_of_nat c)
      OR word_of_nat d = addr"
    by (simp only: x)
  then show ?thesis
    unfolding parse_ipv4_def w eval_nat_numeral
    by (simp add: ipv4_loop_number lt r not_digit_dot Let_def)
qed

text \<open>C15: an IPv4 address that is written is read back as the same address, and the parser stops
  behind it.\<close>

theorem ipv4_round_trip:
  assumes "\<not> starts_with_digit rest"
  shows "parse_ipv4 (write_ipv4 addr @ rest) = Some (addr, rest)"
  using assms by (rule parse_write_ipv4)

theorem ipv4_round_trip_witness: "parse_ipv4 (write_ipv4 0xc0a80001 @ '':80'') = Some (0xc0a80001, '':80'')"
  by (rule ipv4_round_trip) (simp add: starts_with_digit_def digit_def in_range_def cv_def)

subsection \<open>The IPv6 round trip\<close>

definition group_bytes :: "nat \<Rightarrow> u8 list" where
  "group_bytes g = [word_of_nat (g div 256), word_of_nat g]"

definition host_bytes :: "nat list \<Rightarrow> u8 list" where
  "host_bytes gs = concat (map group_bytes gs)"

definition colons :: "nat list \<Rightarrow> string" where
  "colons gs = concat (map (\<lambda>g. CHR '':'' # show_hex g) gs)"

definition is_group :: "nat \<Rightarrow> bool" where
  "is_group g \<longleftrightarrow> g < 65536"

lemma host_bytes_simps [simp]:
  "host_bytes [] = []" "host_bytes (g # gs) = group_bytes g @ host_bytes gs"
  "host_bytes (xs @ ys) = host_bytes xs @ host_bytes ys"
  by (simp_all add: host_bytes_def)

lemma colons_simps [simp]:
  "colons [] = []" "colons (g # gs) = CHR '':'' # show_hex g @ colons gs"
  by (simp_all add: colons_def)

lemma group_bytes_length [simp]: "length (group_bytes g) = 2" by (simp add: group_bytes_def)

lemma host_bytes_length [simp]: "length (host_bytes gs) = 2 * length gs"
  by (induction gs) auto

lemma host_bytes_zero: "host_bytes (replicate k 0) = replicate (2 * k) 0"
  by (induction k) (simp_all add: group_bytes_def)

lemma group_bytes_value:
  assumes "is_group g"
  shows "unat (word_of_nat (g div 256) :: u8) * 256 + unat (word_of_nat g :: u8) = g"
proof -
  have "g div 256 < 256" using assms by (auto simp: is_group_def)
  then show ?thesis by (simp add: unat_of_nat)
qed

subsubsection \<open>The writer\<close>

lemma write_loop_group:
  "is_group g \<Longrightarrow> write_ipv6_loop zero out (group_bytes g @ rest) =
     (if zero \<ge> 0 \<and> g = 0 then write_ipv6_loop 1 out rest
      else let out = (if zero = 1 then out @ '':'' else out)
           in write_ipv6_loop (if zero = 1 then -1 else zero) ((if out \<noteq> [] then out @ '':'' else out) @ show_hex g) rest)"
  using group_bytes_value [of g] by (simp add: group_bytes_def Let_def)

lemma write_loop_groups:
  assumes "list_all is_group gs" "zero = 0 \<and> 0 \<notin> set gs \<or> zero = -1" "out \<noteq> []"
  shows "write_ipv6_loop zero out (host_bytes gs @ rest) = write_ipv6_loop zero (out @ colons gs) rest"
  using assms by (induction gs arbitrary: out) (auto simp: write_loop_group)

lemma write_loop_zeros:
  "zero \<ge> 0 \<Longrightarrow> write_ipv6_loop zero out (host_bytes (replicate (Suc k) 0) @ rest) = write_ipv6_loop 1 out rest"
  by (induction k arbitrary: zero) (auto simp: write_loop_group is_group_def)

definition joined :: "nat list \<Rightarrow> string" where
  "joined gs = (case gs of [] \<Rightarrow> [] | g # gs \<Rightarrow> show_hex g @ colons gs)"

lemma write_loop_start:
  assumes "list_all is_group gs" "0 \<notin> set gs"
  shows "write_ipv6_loop 0 [] (host_bytes gs @ rest) = write_ipv6_loop 0 (joined gs) rest"
proof (cases gs)
  case (Cons g gs')
  have "show_hex g \<noteq> []" by (subst show_hex.simps) simp
  with assms Cons show ?thesis
    using write_loop_groups [of gs' 0 "show_hex g" rest] by (simp add: write_loop_group joined_def)
qed (simp add: joined_def)

lemma write_ipv6_full:
  assumes "list_all is_group A" "0 \<notin> set A" "A \<noteq> []"
  shows "write_ipv6 (host_bytes A) = ''['' @ joined A @ '']''"
proof -
  have "joined A \<noteq> []" using assms(3) by (cases A) (simp_all add: joined_def show_hex.simps)
  then show ?thesis using write_loop_start [OF assms(1,2), of "[]"] by (simp add: write_ipv6_def)
qed

lemma write_ipv6_gap:
  assumes "list_all is_group A" "0 \<notin> set A" "k = Suc k'" "list_all is_group B" "B = b # B'" "b \<noteq> 0"
  shows "write_ipv6 (host_bytes (A @ replicate k 0 @ B)) = ''['' @ joined A @ '':'' @ colons B @ '']''"
proof -
  have "write_ipv6_loop 0 [] (host_bytes (A @ replicate k 0 @ B)) = write_ipv6_loop 1 (joined A) (host_bytes B)"
    using write_loop_start [OF assms(1,2)] write_loop_zeros [of 0 "joined A" k' "host_bytes B"] assms(3) by simp
  also have "\<dots> = joined A @ '':'' @ colons B"
    using assms(4-6) write_loop_groups [of B' "-1" "joined A @ ''::'' @ show_hex b" "[]"]
    by (simp add: write_loop_group)
  finally show ?thesis by (simp add: write_ipv6_def)
qed

subsubsection \<open>The parser\<close>

lemma hex_value_digit: "x < 16 \<Longrightarrow> hex_value (hex_digit_char x) = Some (int x)"
  by (simp add: hex_value_def hex_digit_char_def cv_chr in_range_def Let_def)

lemma hex_value_separators: "hex_value CHR '':'' = None" "hex_value CHR '']'' = None"
  by code_simp+

lemma show_hex_digits:
  "g < 16 \<Longrightarrow> show_hex g = [hex_digit_char g]"
  "16 \<le> g \<Longrightarrow> g < 256 \<Longrightarrow> show_hex g = [hex_digit_char (g div 16), hex_digit_char (g mod 16)]"
  "256 \<le> g \<Longrightarrow> g < 4096 \<Longrightarrow>
    show_hex g = [hex_digit_char (g div 256), hex_digit_char (g div 16 mod 16), hex_digit_char (g mod 16)]"
  "4096 \<le> g \<Longrightarrow> g < 65536 \<Longrightarrow>
    show_hex g = [hex_digit_char (g div 4096), hex_digit_char (g div 256 mod 16), hex_digit_char (g div 16 mod 16),
      hex_digit_char (g mod 16)]"
proof -
  show a: "show_hex g = [hex_digit_char g]" if "g < 16" for g
    using that by (simp add: show_hex.simps)
  show b: "show_hex g = [hex_digit_char (g div 16), hex_digit_char (g mod 16)]" if "16 \<le> g" "g < 256" for g
    using that a [of "g div 16"] by (simp add: show_hex.simps [of g] less_mult_imp_div_less)
  show c: "show_hex g = [hex_digit_char (g div 256), hex_digit_char (g div 16 mod 16), hex_digit_char (g mod 16)]"
    if "256 \<le> g" "g < 4096" for g
    using that b [of "g div 16"]
    by (simp add: show_hex.simps [of g] less_mult_imp_div_less less_eq_div_iff_mult_less_eq div_mult2_eq [symmetric])
  show "show_hex g = [hex_digit_char (g div 4096), hex_digit_char (g div 256 mod 16), hex_digit_char (g div 16 mod 16),
      hex_digit_char (g mod 16)]" if "4096 \<le> g" "g < 65536"
    using that c [of "g div 16"]
    by (simp add: show_hex.simps [of g] less_mult_imp_div_less less_eq_div_iff_mult_less_eq div_mult2_eq [symmetric])
qed

lemma is_group_cases:
  assumes "is_group g"
  obtains (1) "g < 16" | (2) "16 \<le> g" "g < 256" | (3) "256 \<le> g" "g < 4096" | (4) "4096 \<le> g" "g < 65536"
  using assms unfolding is_group_def by linarith

lemma hex_digits_join:
  "16 * (g div 16) + g mod 16 = (g :: int)"
  "16 * (g div 256) + g div 16 mod 16 = g div 16"
  "16 * (g div 4096) + g div 256 mod 16 = g div 256"
proof -
  show "16 * (g div 16) + g mod 16 = g" by simp
  show "16 * (g div 256) + g div 16 mod 16 = g div 16"
    using mult_div_mod_eq [of 16 "g div 16"] by (simp add: zdiv_zmult2_eq [symmetric])
  show "16 * (g div 4096) + g div 256 mod 16 = g div 256"
    using mult_div_mod_eq [of 16 "g div 256"] by (simp add: zdiv_zmult2_eq [symmetric])
qed

lemma hex_digits_sum:
  "256 * (g div 256) + g div 16 mod 16 * 16 + g mod 16 = (g :: int)"
  "4096 * (g div 4096) + 256 * (g div 256 mod 16) + g div 16 mod 16 * 16 + g mod 16 = g"
  using hex_digits_join [of g] by linarith+

lemma hex16_loop_digit:
  "x < 16 \<Longrightarrow> hex16_loop (Suc k) y (hex_digit_char x # data) = hex16_loop k (y * 16 + int x) data"
  by (simp add: hex_value_digit)

lemma hex16_loop_stop: "k < 3 \<Longrightarrow> hex_value c = None \<Longrightarrow> hex16_loop (Suc k) y (c # data) = Some (y, c # data)"
  by simp

lemma hex16_show:
  assumes "is_group g" "hex_value c = None"
  shows "hex16 (show_hex g @ c # rest) = Some (group_bytes g, c # rest)"
proof -
  have four: "(4 :: nat) = Suc (Suc (Suc (Suc 0)))" by simp
  have "hex16_loop 4 0 (show_hex g @ c # rest) = Some (int g, c # rest)"
    using assms(1)
  proof (cases rule: is_group_cases)
    case 1
    then show ?thesis
      unfolding four by (simp add: show_hex_digits hex16_loop_digit hex16_loop_stop assms(2) del: hex16_loop.simps)
  next
    case 2
    then have "g div 16 < 16" by auto
    with 2 show ?thesis unfolding four
      by (simp add: show_hex_digits hex16_loop_digit hex16_loop_stop assms(2) zdiv_int zmod_int hex_digits_sum
          del: hex16_loop.simps)
  next
    case 3
    then have "g div 256 < 16" by auto
    with 3 show ?thesis unfolding four
      by (simp add: show_hex_digits hex16_loop_digit hex16_loop_stop assms(2) zdiv_int zmod_int hex_digits_sum
          del: hex16_loop.simps)
  next
    case 4
    then have "g div 4096 < 16" by auto
    with 4 show ?thesis unfolding four
      by (simp add: show_hex_digits hex16_loop_digit zdiv_int zmod_int hex_digits_sum del: hex16_loop.simps(2))
  qed
  moreover have "word_of_int (int g div 256) = (word_of_nat (g div 256) :: u8)"
    by (metis of_int_of_nat_eq of_nat_div of_nat_numeral)
  ultimately show ?thesis by (simp add: hex16_def group_bytes_def)
qed

lemma show_hex_first: "is_group g \<Longrightarrow> \<exists>d ds. show_hex g = d # ds \<and> ipv6_input d = 2"
proof -
  have d: "ipv6_input (hex_digit_char x) = 2" if "x < 16" for x
    using hex_value_digit [OF that] hex_value_separators by (auto simp: ipv6_input_def)
  assume "is_group g"
  then show ?thesis
  proof (cases rule: is_group_cases)
    case 2 then show ?thesis using d [of "g div 16"] by (auto simp: show_hex_digits)
  next
    case 3 then show ?thesis using d [of "g div 256"] by (auto simp: show_hex_digits)
  next
    case 4 then show ?thesis using d [of "g div 4096"] by (auto simp: show_hex_digits)
  qed (use d in \<open>auto simp: show_hex_digits\<close>)
qed

lemma ipv6_input_separators: "ipv6_input CHR '':'' = 0" "ipv6_input CHR '']'' = 1"
  by (simp_all add: ipv6_input_def)

lemma ipv6_next: "ipv6_state ! 0 = 1" "ipv6_state ! 2 = 5" "ipv6_state ! 3 = 2" "ipv6_state ! 7 = 8" "ipv6_state ! 8 = 3"
  "ipv6_state ! 9 = 4" "ipv6_state ! 10 = 8" "ipv6_state ! 14 = 3" "ipv6_state ! 15 = 6" "ipv6_state ! 16 = 9"
  "ipv6_state ! 18 = 2" "ipv6_state ! 20 = 5" "ipv6_state ! Suc 0 = 7"
  "ipv6_state ! Suc (Suc 0) = 5"
  by code_simp+

lemma ipv6_loop_step_group:
  assumes "ipv6_state ! (s * 3 + ipv6_input c) = s'" "s' = 3 \<or> s' = 5" "hex16 (c # data) = Some (h, rest)" "length addr + 2 \<le> 16"
  shows "ipv6_loop s n m gap addr (c # data) = ipv6_loop s' (n + 1) (if s' = 3 then m + 1 else m) gap (addr @ h) rest"
  using assms by auto

text \<open>One group, read in a state before (0, 6) or behind (2, 4) the gap.\<close>

lemma ipv6_loop_group:
  assumes "is_group g" "hex_value c = None" "length addr + 2 \<le> 16"
  shows "s \<in> {0, 6} \<Longrightarrow> ipv6_loop s n m gap addr (show_hex g @ c # rest) =
      ipv6_loop 5 (n + 1) m gap (addr @ group_bytes g) (c # rest)"
    "s \<in> {2, 4} \<Longrightarrow> ipv6_loop s n m gap addr (show_hex g @ c # rest) =
      ipv6_loop 3 (n + 1) (m + 1) gap (addr @ group_bytes g) (c # rest)"
proof -
  obtain d ds where d: "show_hex g = d # ds" "ipv6_input d = 2" using show_hex_first [OF assms(1)] by blast
  have h: "hex16 (d # ds @ c # rest) = Some (group_bytes g, c # rest)"
    using hex16_show [OF assms(1,2), of rest] d by simp
  note st = ipv6_loop_step_group [OF _ _ h assms(3)]
  show "s \<in> {0, 6} \<Longrightarrow> ipv6_loop s n m gap addr (show_hex g @ c # rest) =
      ipv6_loop 5 (n + 1) m gap (addr @ group_bytes g) (c # rest)"
    using st [of 0 5] st [of 6 5] by (elim insertE emptyE) (simp_all add: d ipv6_next assms(3) del: ipv6_loop.simps)
  show "s \<in> {2, 4} \<Longrightarrow> ipv6_loop s n m gap addr (show_hex g @ c # rest) =
      ipv6_loop 3 (n + 1) (m + 1) gap (addr @ group_bytes g) (c # rest)"
    using st [of 2 3] st [of 4 3] by (elim insertE emptyE) (simp_all add: d ipv6_next assms(3) del: ipv6_loop.simps)
qed

lemma ipv6_loop_colon:
  "n \<noteq> 8 \<Longrightarrow> ipv6_loop 5 n m gap addr (CHR '':'' # data) = ipv6_loop 6 n m gap addr data"
  "n \<noteq> 6 \<Longrightarrow> ipv6_loop 3 n m gap addr (CHR '':'' # data) = ipv6_loop 4 n m gap addr data"
  "ipv6_loop 6 n m gap addr (CHR '':'' # data) = ipv6_loop 2 n m (length addr) addr data"
  "ipv6_loop 1 n m gap addr (CHR '':'' # data) = ipv6_loop 2 n m (length addr) addr data"
  "ipv6_loop (Suc 0) n m gap addr (CHR '':'' # data) = ipv6_loop 2 n m (length addr) addr data"
  "ipv6_loop 0 n m gap addr (CHR '':'' # data) = ipv6_loop 1 n m gap addr data"
  by (simp_all add: ipv6_input_separators ipv6_next)


lemma ipv6_loop_before:
  assumes "list_all is_group gs" "n + length gs \<le> 8" "length addr = 2 * n" "hex_value c = None"
  shows "ipv6_loop 5 n m gap addr (colons gs @ c # rest) =
    ipv6_loop 5 (n + length gs) m gap (addr @ host_bytes gs) (c # rest)"
  using assms
proof (induction gs arbitrary: n addr)
  case (Cons g gs)
  obtain c' rest' where r: "colons gs @ c # rest = c' # rest'" "hex_value c' = None"
    using Cons.prems(4) by (cases gs) (auto simp: hex_value_separators)
  have "ipv6_loop 5 n m gap addr (colons (g # gs) @ c # rest) = ipv6_loop 6 n m gap addr (show_hex g @ c' # rest')"
    using Cons.prems(2) r by (simp add: ipv6_loop_colon del: ipv6_loop.simps)
  also have "\<dots> = ipv6_loop 5 (n + 1) m gap (addr @ group_bytes g) (colons gs @ c # rest)"
    using Cons.prems ipv6_loop_group(1) [of g c' addr 6 n m gap rest'] r by (simp del: ipv6_loop.simps)
  also have "\<dots> = ipv6_loop 5 (n + 1 + length gs) m gap ((addr @ group_bytes g) @ host_bytes gs) (c # rest)"
    using Cons.prems by (intro Cons.IH) simp_all
  finally show ?case by (simp del: ipv6_loop.simps)
qed (simp del: ipv6_loop.simps)

lemma ipv6_loop_behind:
  assumes "list_all is_group gs" "n + length gs \<le> 6" "length addr = 2 * n" "hex_value c = None"
  shows "ipv6_loop 3 n m gap addr (colons gs @ c # rest) =
    ipv6_loop 3 (n + length gs) (m + length gs) gap (addr @ host_bytes gs) (c # rest)"
  using assms
proof (induction gs arbitrary: n m addr)
  case (Cons g gs)
  obtain c' rest' where r: "colons gs @ c # rest = c' # rest'" "hex_value c' = None"
    using Cons.prems(4) by (cases gs) (auto simp: hex_value_separators)
  have "ipv6_loop 3 n m gap addr (colons (g # gs) @ c # rest) = ipv6_loop 4 n m gap addr (show_hex g @ c' # rest')"
    using Cons.prems(2) r by (simp add: ipv6_loop_colon del: ipv6_loop.simps)
  also have "\<dots> = ipv6_loop 3 (n + 1) (m + 1) gap (addr @ group_bytes g) (colons gs @ c # rest)"
    using Cons.prems ipv6_loop_group(2) [of g c' addr 4 n m gap rest'] r by (simp del: ipv6_loop.simps)
  also have "\<dots> = ipv6_loop 3 (n + 1 + length gs) (m + 1 + length gs) gap ((addr @ group_bytes g) @ host_bytes gs) (c # rest)"
    using Cons.prems by (intro Cons.IH) simp_all
  finally show ?case by (simp del: ipv6_loop.simps)
qed (simp del: ipv6_loop.simps)

lemma ipv6_loop_end:
  "ipv6_loop 5 8 m gap addr (CHR '']'' # rest) = Some (Some (addr, rest))"
  "s \<in> {2, 3} \<Longrightarrow> 2 * n \<le> 16 \<Longrightarrow> ipv6_loop s n m gap addr (CHR '']'' # rest) =
     Some (Some (take gap addr @ replicate (16 - 2 * n) 0 @ take (2 * m) (drop gap addr), rest))"
  by (auto simp: ipv6_input_separators ipv6_next)

text \<open>The groups of an address: before the gap, in the gap, behind it.\<close>

definition compressible :: "nat list \<Rightarrow> nat \<Rightarrow> nat list \<Rightarrow> bool" where
  "compressible A k B \<longleftrightarrow> list_all is_group (A @ B) \<and> 0 \<notin> set A \<and> length A + k + length B = 8 \<and>
     (if k = 0 then B = [] else if B = [] then A = [] else 2 \<le> k \<and> hd B \<noteq> 0)"

lemma parse_joined:
  assumes "list_all is_group A" "length A \<le> 8" "hex_value c = None" "A \<noteq> []"
  shows "ipv6_loop 0 0 0 0 [] (joined A @ c # rest) = ipv6_loop 5 (length A) 0 0 (host_bytes A) (c # rest)"
proof -
  obtain g gs where A: "A = g # gs" using assms(4) by (cases A) auto
  obtain c' rest' where r: "colons gs @ c # rest = c' # rest'" "hex_value c' = None"
    using assms(3) by (cases gs) (auto simp: hex_value_separators)
  have "ipv6_loop 0 0 0 0 [] (joined A @ c # rest) = ipv6_loop 5 1 0 0 (group_bytes g) (colons gs @ c # rest)"
    using assms(1) A r ipv6_loop_group(1) [of g c' "[]" 0 0 0 0 rest'] by (simp add: joined_def del: ipv6_loop.simps)
  also have "\<dots> = ipv6_loop 5 (1 + length gs) 0 0 (group_bytes g @ host_bytes gs) (c # rest)"
    using assms A by (intro ipv6_loop_before) simp_all
  finally show ?thesis using A by (simp del: ipv6_loop.simps)
qed

lemma parse_write_ipv6:
  assumes "compressible A k B"
  shows "parse_ipv6 (write_ipv6 (host_bytes (A @ replicate k 0 @ B)) @ rest) =
    Some (Some (host_bytes (A @ replicate k 0 @ B), rest))"
proof -
  have A: "list_all is_group A" "list_all is_group B" "0 \<notin> set A" "length A + k + length B = 8"
    using assms by (auto simp: compressible_def)
  consider (full) "k = 0" "B = []" "A \<noteq> []" | (zero) "k = 8" "A = []" "B = []"
    | (gap) b B' k' where "k = Suc k'" "2 \<le> k" "B = b # B'" "b \<noteq> 0"
    using assms by (cases k; cases B; cases A) (auto simp: compressible_def split: if_splits)
  then show ?thesis
  proof cases
    case full
    then show ?thesis
      using A parse_joined [of A "CHR '']''" rest]
      by (simp add: write_ipv6_full hex_value_separators ipv6_loop_end del: ipv6_loop.simps)
  next
    case zero
    have "write_ipv6 (replicate 16 0) = ''[::]''" by (simp add: write_ipv6_def numeral_eq_Suc)
    then show ?thesis
      by (simp add: zero host_bytes_zero ipv6_loop_colon ipv6_loop_end del: ipv6_loop.simps)
  next
    case gap
    let ?addr = "host_bytes A" and ?n = "length A"
    have w: "write_ipv6 (host_bytes (A @ replicate k 0 @ B)) @ rest =
        ''['' @ joined A @ CHR '':'' # CHR '':'' # show_hex b @ colons B' @ CHR '']'' # rest"
      using write_ipv6_gap [OF A(1,3) gap(1) A(2) gap(3,4)] gap by simp
    obtain c' rest' where r: "colons B' @ CHR '']'' # rest = c' # rest'" "hex_value c' = None"
      by (cases B') (auto simp: hex_value_separators)
    have n: "?n + 1 + length B' \<le> 6" using A gap by simp
    have "ipv6_loop 0 0 0 0 [] (joined A @ CHR '':'' # CHR '':'' # show_hex b @ c' # rest') =
        ipv6_loop 2 ?n 0 (2 * ?n) ?addr (show_hex b @ c' # rest')"
    proof (cases "A = []")
      case True
      then show ?thesis by (simp add: joined_def ipv6_loop_colon del: ipv6_loop.simps)
    next
      case False
      with A n parse_joined [of A "CHR '':''" "CHR '':'' # show_hex b @ c' # rest'"] show ?thesis
        by (simp add: hex_value_separators ipv6_loop_colon del: ipv6_loop.simps)
    qed
    also have "\<dots> = ipv6_loop 3 (?n + 1) 1 (2 * ?n) (?addr @ group_bytes b) (colons B' @ CHR '']'' # rest)"
      using ipv6_loop_group(2) [of b c' ?addr 2 ?n 0 "2 * ?n" rest'] A gap r n by (simp del: ipv6_loop.simps)
    also have "\<dots> = ipv6_loop 3 (?n + 1 + length B') (1 + length B') (2 * ?n)
        ((?addr @ group_bytes b) @ host_bytes B') (CHR '']'' # rest)"
      using A gap n by (intro ipv6_loop_behind) (simp_all add: hex_value_separators)
    also have "\<dots> = Some (Some (host_bytes (A @ replicate k 0 @ B), rest))"
    proof -
      have "16 - 2 * (?n + 1 + length B') = 2 * k" using A gap by simp
      then show ?thesis using n gap by (simp add: ipv6_loop_end host_bytes_zero del: ipv6_loop.simps replicate_Suc)
    qed
    finally show ?thesis using r w by (simp del: ipv6_loop.simps)
  qed
qed

text \<open>C14: an IPv6 address whose zeros the writer compresses well (no zero group, all zero, or a
  first run of at least two zero groups that is not at the end) is read back as the same address.\<close>

theorem ipv6_round_trip:
  assumes "compressible A k B"
  shows "parse_ipv6 (write_ipv6 (host_bytes (A @ replicate k 0 @ B)) @ rest) =
    Some (Some (host_bytes (A @ replicate k 0 @ B), rest))"
  using assms by (rule parse_write_ipv6)

theorem ipv6_round_trip_witness:
  "parse_ipv6 (write_ipv6 (host_bytes ([0xfe80] @ replicate 6 0 @ [1])) @ '':443'') =
    Some (Some (host_bytes ([0xfe80] @ replicate 6 0 @ [1]), '':443''))"
  by (rule ipv6_round_trip) (simp add: compressible_def is_group_def)

end
