(* ===== verification/Uri.thy ===== *)
theory Uri
  imports Address
begin

section \<open>URIs and queries (core/uri.c, core/query.c, http_parse_uri)\<close>

text \<open>
  The parser works in place on a copy of the text: components are pointers into it, and the
  decoded characters of a component overwrite its text. A component is modelled by its text
  up to the first NUL, as everything that reads it sees it (\<open>%00\<close> decodes to a NUL). What
  \<open>terminate_host\<close> does, moving a name that is not terminated one place to the left, leaves
  the text of the name and of the path as they are. The outer option is \<open>None\<close> if the IPv6
  parser writes behind its buffer (see theory \<open>Address\<close>), the inner one is the NULL of the code.
\<close>

subsection \<open>Data\<close>

record uri =
  uri_scheme :: "string option"
  uri_name :: "string option"
  uri_path :: "string option"
  uri_query :: "string option"
  uri_host :: "address option"
  uri_port :: int

definition c_str :: "string \<Rightarrow> string" where
  "c_str s = takeWhile (\<lambda>c. c \<noteq> chr 0) s"

subsection \<open>The parser\<close>

definition plain_char :: "char \<Rightarrow> bool" where
  "plain_char ch \<longleftrightarrow>
     (let c = cv ch in alpha c \<or> in_range c 38 59 \<or> c = 61 \<or> c = 33 \<or> c = 36 \<or> c = 64 \<or> c = 95 \<or> c = 126)"

text \<open>One character of a component, decoded, with the rest of the text.\<close>

fun pchar :: "string \<Rightarrow> (char \<times> string) option" where
  "pchar [] = None"
| "pchar (c # data) =
     (if plain_char c then Some (c, data)
      else if c = CHR ''%'' then
        do { (x, data) \<leftarrow> hex4 data; (y, data) \<leftarrow> hex4 data; Some (chr (nat (x * 16 + y)), data) }
      else None)"

lemma pchar_shorter: "pchar data = Some (c, rest) \<Longrightarrow> length rest < length data"
  by (cases data) (auto simp: bind_Some_iff dest!: hex4_shorter split: if_splits)

text \<open>The loop of \<open>parse_host\<close> that reads a name.\<close>

function host_name :: "string \<Rightarrow> string \<Rightarrow> string \<times> string" where
  "host_name out data =
     (if data \<noteq> [] \<and> (hd data = CHR ''@'' \<or> hd data = CHR '':'') then (out, data)
      else case pchar data of Some (c, rest) \<Rightarrow> host_name (out @ [c]) rest | None \<Rightarrow> (out, data))"
  by pat_completeness auto
termination
  by (relation "measure (\<lambda>(out, data). length data)") (auto dest: pchar_shorter)

declare host_name.simps [simp del]

definition parse_host :: "u32 \<Rightarrow> uri \<Rightarrow> string \<Rightarrow> (uri \<times> string) option" where
  "parse_host global_if_index u data =
     do { address \<leftarrow> parse_address global_if_index (uri_port u) data;
          let (u, data) =
            (case address of
               Some (host, rest) \<Rightarrow> (u\<lparr>uri_host := Some host\<rparr>, rest)
             | None \<Rightarrow> (case host_name [] data of
                   (name, rest) \<Rightarrow> (if name \<noteq> [] then u\<lparr>uri_name := Some (c_str name)\<rparr> else u, rest)));
          Some (case data of
              c # rest \<Rightarrow>
                if c = CHR '':'' then
                  let (port, rest) = (case number rest of Some r \<Rightarrow> r | None \<Rightarrow> (uri_port u, rest))
                  in (u\<lparr>uri_port := port, uri_host := map_option (\<lambda>h. set_port h port) (uri_host u)\<rparr>, rest)
                else (u, data)
            | [] \<Rightarrow> (u, data)) }"

text \<open>
  The state machine of \<open>parse_uri\<close>; \<open>p\<close> is what has been written of the current component.
  From state 5 on the component is the path, in state 7 it is the query.
\<close>

definition end_component :: "nat \<Rightarrow> string \<Rightarrow> uri \<Rightarrow> uri" where
  "end_component state p u =
     (if state = 7 then u\<lparr>uri_query := Some (c_str p)\<rparr> else u\<lparr>uri_path := Some (c_str p)\<rparr>)"

function component_loop :: "nat \<Rightarrow> uri \<Rightarrow> string \<Rightarrow> string \<Rightarrow> (uri \<times> string) option" where
  "component_loop state u p [] = Some (end_component state p u, [])"
| "component_loop state u p (c # data) =
     (if c = CHR ''/'' then component_loop state u (p @ [c]) data
      else if c = CHR ''?'' then
        (if state = 7 then component_loop 7 u (p @ [c]) data
         else component_loop 7 (end_component state p u) [] data)
      else if ws (cv c) then Some (end_component state p u, c # data)
      else case pchar (c # data) of
             Some (c', rest) \<Rightarrow> component_loop state u (p @ [c']) rest
           | None \<Rightarrow> None)"
  by pat_completeness auto
termination
  by (relation "measure (\<lambda>(s, u, p, data). length data)") (auto dest: pchar_shorter simp del: pchar.simps)

definition parse_component :: "uri \<Rightarrow> string \<Rightarrow> (uri \<times> string) option" where
  "parse_component u data = component_loop 6 u [] data"

text \<open>States 2 and 3, before and behind a slash; state 3 goes back over the slash of the path.\<close>

definition hier_slash :: "u32 \<Rightarrow> uri \<Rightarrow> string \<Rightarrow> (uri \<times> string) option option" where
  "hier_slash gi u data =
     (if data \<noteq> [] \<and> hd data = CHR ''/'' then
        map_option (\<lambda>(u, data). parse_component u data) (parse_host gi u (tl data))
      else Some (parse_component u (CHR ''/'' # data)))"

definition hier_part :: "u32 \<Rightarrow> uri \<Rightarrow> string \<Rightarrow> (uri \<times> string) option option" where
  "hier_part gi u data =
     (if data \<noteq> [] \<and> hd data = CHR ''/'' then hier_slash gi u (tl data)
      else Some (parse_component u data))"

fun scheme_loop :: "u32 \<Rightarrow> uri \<Rightarrow> string \<Rightarrow> string \<Rightarrow> (uri \<times> string) option option" where
  "scheme_loop gi u p [] = Some None"
| "scheme_loop gi u p (c # data) =
     (if c = CHR '':'' then
        let u = u\<lparr>uri_scheme := Some p\<rparr>;
            u = (if p = ''http'' then u\<lparr>uri_port := 80\<rparr>
                 else if p = ''https'' then u\<lparr>uri_port := 443\<rparr> else u)
        in hier_part gi u data
      else if alpha (cv c) \<or> digit (cv c) \<or> c = CHR ''+'' \<or> c = CHR ''-'' \<or> c = CHR ''.''
      then scheme_loop gi u (p @ [c]) data
      else Some None)"

definition parse_uri :: "u32 \<Rightarrow> uri \<Rightarrow> nat \<Rightarrow> string \<Rightarrow> (uri \<times> string) option option" where
  "parse_uri gi u state data =
     (let u = u\<lparr>uri_name := None, uri_path := None, uri_query := None, uri_host := None\<rparr> in
      if state = 5 then Some (parse_component u data)
      else case data of
        [] \<Rightarrow> Some None
      | c # rest \<Rightarrow>
          if c = CHR ''/'' then (if uri_scheme u \<noteq> None then hier_slash gi u rest else Some None)
          else if alpha (cv c) then scheme_loop gi u [c] rest
          else Some None)"

text \<open>The buffered form: the text is copied if it is not too long.\<close>

definition uri_parse :: "u32 \<Rightarrow> uri \<Rightarrow> string \<Rightarrow> nat \<Rightarrow> uri option option" where
  "uri_parse gi u href n =
     (if length href > n then Some None else map_option (map_option fst) (parse_uri gi u 0 href))"

definition new_uri :: uri where
  "new_uri = \<lparr>uri_scheme = None, uri_name = None, uri_path = None, uri_query = None, uri_host = None, uri_port = 0\<rparr>"

text \<open>A relative reference has the scheme and the port of the connection, if there is one.\<close>

definition http_parse_uri :: "u32 \<Rightarrow> bool option \<Rightarrow> string \<Rightarrow> nat \<Rightarrow> uri option option" where
  "http_parse_uri gi secure data n =
     (let u = (case secure of
           Some s \<Rightarrow> new_uri\<lparr>uri_scheme := Some (if s then ''https'' else ''http''), uri_port := (if s then 443 else 80)\<rparr>
         | None \<Rightarrow> new_uri)
      in uri_parse gi u data n)"

subsection \<open>The writer\<close>



subsection \<open>Queries (query.c)\<close>

text \<open>
  The fields have the widths of the structure; the number being read is an \<open>int64_t\<close>. The
  result is the query with the value returned, or \<open>None\<close> if the code reads behind the
  terminator of the text. After an ampersand the code goes to state 1, which takes the next
  character as a name without a test for the end.
\<close>

record query_range =
  q_after :: int
  q_start :: u16
  q_limit :: u8

definition set_parameter :: "char \<Rightarrow> int \<Rightarrow> query_range \<Rightarrow> query_range option" where
  "set_parameter p x q =
     (if p = CHR ''a'' then Some (q\<lparr>q_after := x\<rparr>)
      else if p = CHR ''l'' then Some (q\<lparr>q_limit := word_of_int x\<rparr>)
      else if p = CHR ''s'' then Some (q\<lparr>q_start := word_of_int x\<rparr>)
      else None)"

fun query_loop :: "nat \<Rightarrow> char \<Rightarrow> int \<Rightarrow> query_range \<Rightarrow> string \<Rightarrow> (query_range \<times> bool) option" where
  "query_loop state p x q [] =
     (if state = 0 then Some (q, True)
      else if state = 1 then None
      else if state = 4 then
        (case set_parameter p x q of Some q \<Rightarrow> Some (q, True) | None \<Rightarrow> Some (q, False))
      else Some (q, False))"
| "query_loop state p x q (c # query) =
     (if state \<le> 1 then query_loop 2 c x q query
      else if state = 2 then (if c = CHR ''='' then query_loop 3 p x q query else Some (q, False))
      else if state = 3 then
        (if digit (cv c) then query_loop 4 p (cv c - 48) q query else Some (q, False))
      else if c = CHR ''&'' then
        (case set_parameter p x q of Some q \<Rightarrow> query_loop 1 p x q query | None \<Rightarrow> Some (q, False))
      else if digit (cv c) then query_loop 4 p (signed_take_bit 63 (x * 10 + (cv c - 48))) q query
      else Some (q, False))"

definition new_query :: query_range where
  "new_query = \<lparr>q_after = 0, q_start = 0, q_limit = 1\<rparr>"

definition parse_query :: "query_range \<Rightarrow> string option \<Rightarrow> (query_range \<times> bool) option" where
  "parse_query q query =
     (case query of None \<Rightarrow> Some (q, True) | Some query \<Rightarrow> query_loop 0 (chr 0) 0 new_query query)"

subsection \<open>The writer and the parser\<close>


definition query_char :: "char \<Rightarrow> bool" where
  "query_char c \<longleftrightarrow> plain_char c \<or> c = CHR ''?''"


lemma cv_values: "cv c = 0 \<longleftrightarrow> c = chr 0" "cv CHR ''%'' = 37" "cv CHR ''?'' = 63" "cv CHR ''/'' = 47" "cv CHR '':'' = 58" "cv CHR ''@'' = 64"
proof -
  show "cv c = 0 \<longleftrightarrow> c = chr 0"
  proof
    assume "cv c = 0"
    moreover have "of_char c < (256 :: int)" by (rule of_char_lt_256(2))
    moreover have "cv c = of_char c \<or> cv c = of_char c - 256"
      unfolding cv_def Let_def by (split if_split) blast
    ultimately have "of_char c = (0 :: int)" by linarith
    then have "of_nat (of_char c) = (0 :: int)" by (simp only: of_nat_of_char)
    then have "of_char c = (0 :: nat)" by (simp only: of_nat_eq_0_iff)
    then have "char_of (of_char c :: nat) = chr 0" by (simp only: chr_def)
    then show "c = chr 0" by (simp only: char_of_char)
  qed (simp add: cv_chr)
qed code_simp+

lemma plain_char_not:
  assumes "plain_char c"
  shows "c \<noteq> CHR ''?''" "c \<noteq> CHR ''%''" "c \<noteq> chr 0" "\<not> ws (cv c)"
proof -
  have "cv c \<noteq> 63" "cv c \<noteq> 37" "cv c \<noteq> 0" "\<not> ws (cv c)"
    using assms by (auto simp: plain_char_def char_class_defs Let_def)
  then show "c \<noteq> CHR ''?''" "c \<noteq> CHR ''%''" "c \<noteq> chr 0" "\<not> ws (cv c)"
    by (auto simp: cv_values)
qed

lemma c_str_plain: "list_all query_char p \<Longrightarrow> c_str p = p"
proof -
  assume "list_all query_char p"
  then have "\<forall>c \<in> set p. c \<noteq> chr 0"
    unfolding list_all_iff query_char_def using plain_char_not(3) cv_values by (metis cv_values(1) cv_values(3) zero_neq_numeral)
  then show ?thesis by (simp add: c_str_def takeWhile_eq_all_conv)
qed













text \<open>A slash is a character of a host name: behind a host that is not an address, the path
  becomes a part of the name, and the URI has an empty path.\<close>

theorem uri_name_takes_path:
  assumes "list_all plain_char (CHR ''/'' # path)" "list_all plain_char name" "name \<noteq> []" "alpha (cv (hd name))"
    "CHR '':'' \<notin> set (name @ path)" "CHR ''@'' \<notin> set (name @ path)"
  shows "parse_uri gi u 0 (''http://'' @ name @ ''/'' @ path) =
    Some (Some (\<lparr>uri_scheme = Some ''http'', uri_name = Some (name @ ''/'' @ path), uri_path = Some [],
      uri_query = None, uri_host = None, uri_port = 80\<rparr>, []))"
proof -
  define whole where "whole = name @ ''/'' @ path"
  have t: "list_all plain_char whole" "whole \<noteq> []" "alpha (cv (hd whole))" "\<forall>c \<in> set whole. c \<noteq> CHR '':'' \<and> c \<noteq> CHR ''@''"
    using assms by (auto simp: whole_def list_all_iff)
  have loop: "host_name out xs = (out @ xs, [])"
    if "list_all plain_char xs" "\<forall>c \<in> set xs. c \<noteq> CHR '':'' \<and> c \<noteq> CHR ''@''" for out xs
    using that
  proof (induction xs arbitrary: out)
    case (Cons c xs)
    then show ?case by (subst host_name.simps) simp
  qed (simp add: host_name.simps)
  have nodigit: "\<not> digit (cv (hd whole))" "hd whole \<noteq> CHR ''[''"
    using t(3) by (auto simp: char_class_defs cv_def)
  then have "number_loop 0 0 whole = (0, 0, whole)" using t(2) by (cases whole) auto
  then have "parse_ipv4 whole = None" by (simp add: parse_ipv4_def ipv4_loop.simps number_def)
  then have a: "parse_address gi p whole = Some None" for p
    using nodigit by (simp add: parse_address_def)
  have "c_str whole = whole"
    using t(1) by (intro c_str_plain) (auto simp: list_all_iff query_char_def)
  then have host: "parse_host gi v whole = Some (v\<lparr>uri_name := Some whole\<rparr>, [])" for v
    by (simp add: parse_host_def a loop [OF t(1,4)] t(2))
  have "parse_uri gi u 0 (''http://'' @ whole) =
      Some (Some (\<lparr>uri_scheme = Some ''http'', uri_name = Some whole, uri_path = Some [], uri_query = None, uri_host = None, uri_port = 80\<rparr>, []))"
    by (simp add: parse_uri_def alpha_def in_range_def cv_def hier_part_def hier_slash_def host parse_component_def end_component_def c_str_def Let_def)
  then show ?thesis by (simp add: whole_def)
qed

theorem uri_name_takes_path_witness:
  "parse_uri 2 new_uri 0 (''http://'' @ ''server.local'' @ ''/'' @ ''dcap'') =
    Some (Some (\<lparr>uri_scheme = Some ''http'', uri_name = Some (''server.local'' @ ''/'' @ ''dcap''), uri_path = Some [],
      uri_query = None, uri_host = None, uri_port = 80\<rparr>, []))"
proof (rule uri_name_takes_path)
  show "list_all plain_char (CHR ''/'' # ''dcap'')" "list_all plain_char ''server.local''" "alpha (cv (hd ''server.local''))"
    by code_simp+
qed simp_all

subsection \<open>Queries\<close>

text \<open>The text of a list of parameters, and the query they stand for.\<close>

fun query_text :: "(char \<times> nat) list \<Rightarrow> string" where
  "query_text [] = []"
| "query_text [(p, n)] = p # CHR ''='' # show_nat n"
| "query_text ((p, n) # ps) = p # CHR ''='' # show_nat n @ ''&'' @ query_text ps"

definition query_of :: "(char \<times> nat) list \<Rightarrow> query_range" where
  "query_of ps = fold (\<lambda>(p, n) q. the (set_parameter p (int n) q)) ps new_query"

lemma query_loop_digits:
  assumes "list_all (\<lambda>c. digit (cv c)) ds" "0 \<le> x" "dec_value x ds < 2 ^ 63" "\<not> starts_with_digit rest"
  shows "query_loop 4 p x q (ds @ rest) = query_loop 4 p (dec_value x ds) q rest"
  using assms
proof (induction ds arbitrary: x)
  case (Cons d ds)
  let ?x = "x * 10 + (cv d - 48)"
  have d: "digit (cv d)" "0 \<le> ?x" "d \<noteq> CHR ''&''"
    using Cons.prems by (auto simp: char_class_defs cv_def)
  then have "?x \<le> dec_value ?x ds"
    using Cons.prems by (intro dec_value_mono) auto
  then have "signed_take_bit 63 ?x = ?x"
    using Cons.prems d by (simp add: signed_take_bit_int_eq_self_iff)
  with Cons d show ?case by simp
qed simp

lemma query_loop_number:
  assumes "n < 2 ^ 63" "\<not> starts_with_digit rest"
  shows "query_loop 3 p x q (show_nat n @ rest) = query_loop 4 p (int n) q rest"
proof -
  obtain d ds where d: "show_nat n = d # ds" by (cases "show_nat n") auto
  then have "digit (cv d)" "list_all (\<lambda>c. digit (cv c)) ds" "dec_value (cv d - 48) ds = int n"
    using show_nat_digits [of n] dec_value_show_nat [of n] by auto
  with query_loop_digits [of ds "cv d - 48" rest p q] assms d show ?thesis
    by (auto simp: char_class_defs)
qed

lemma query_loop_text:
  assumes "ps \<noteq> []" "\<forall>(p, n) \<in> set ps. p \<in> {CHR ''a'', CHR ''l'', CHR ''s''} \<and> n < 2 ^ 63" "state \<le> 1"
    "rest = [] \<or> hd rest = CHR ''&''"
  shows "\<exists>p n q'. query_loop state p0 x0 q (query_text ps @ rest) = query_loop 4 p (int n) q' rest \<and>
     set_parameter p (int n) q' = Some (fold (\<lambda>(p, n) q. the (set_parameter p (int n) q)) ps q)"
  using assms
proof (induction ps arbitrary: state p0 x0 q rule: query_text.induct)
  case (2 p n)
  then have n: "n < 2 ^ 63" "\<not> starts_with_digit rest"
    by (auto simp: starts_with_digit_def char_class_defs cv_def)
  have "set_parameter p (int n) q \<noteq> None" using 2 by (auto simp: set_parameter_def)
  with query_loop_number [OF n] 2 show ?case by (intro exI [of _ p] exI [of _ n] exI [of _ q]) auto
next
  case (3 p n v va)
  let ?r = "''&'' @ query_text (v # va) @ rest"
  have n: "n < 2 ^ 63" "\<not> starts_with_digit ?r"
    using 3 by (auto simp: starts_with_digit_def char_class_defs cv_def)
  obtain q1 where q1: "set_parameter p (int n) q = Some q1" using 3 by (auto simp: set_parameter_def)
  have "query_loop state p0 x0 q (query_text ((p, n) # v # va) @ rest) = query_loop 3 p x0 q (show_nat n @ ?r)"
    using 3 by simp
  also have "\<dots> = query_loop 4 p (int n) q ?r" by (rule query_loop_number [OF n])
  also have "\<dots> = query_loop 1 p (int n) q1 (query_text (v # va) @ rest)" by (simp add: q1)
  finally show ?case using "3.IH" [of 1 p "int n" q1] 3 q1 by simp
qed simp

text \<open>A query of parameters is read as the last values given, each cut to the width of its
  field; with an ampersand behind the last parameter the parser reads behind the end of the text.\<close>

theorem parse_query_text:
  assumes "ps \<noteq> []" "\<forall>(p, n) \<in> set ps. p \<in> {CHR ''a'', CHR ''l'', CHR ''s''} \<and> n < 2 ^ 63"
  shows "parse_query q (Some (query_text ps)) = Some (query_of ps, True) \<and>
    parse_query q (Some (query_text ps @ ''&'')) = None"
proof
  obtain p n q' where "query_loop 0 (chr 0) 0 new_query (query_text ps @ []) = query_loop 4 p (int n) q' []"
      "set_parameter p (int n) q' = Some (query_of ps)"
    using query_loop_text [OF assms, of 0 "[]"] unfolding query_of_def by blast
  then show "parse_query q (Some (query_text ps)) = Some (query_of ps, True)"
    by (simp add: parse_query_def)
  obtain p n q' where "query_loop 0 (chr 0) 0 new_query (query_text ps @ ''&'') = query_loop 4 p (int n) q' ''&''"
      "set_parameter p (int n) q' = Some (query_of ps)"
    using query_loop_text [OF assms, of 0 "''&''" "chr 0" 0 new_query] unfolding query_of_def
    by (simp del: query_loop.simps) blast
  then show "parse_query q (Some (query_text ps @ ''&'')) = None"
    by (simp add: parse_query_def)
qed

theorem parse_query_text_witness:
  "parse_query new_query (Some (query_text [(CHR ''s'', 3), (CHR ''l'', 256)])) =
     Some (\<lparr>q_after = 0, q_start = 3, q_limit = 0\<rparr>, True)"
  using parse_query_text [of "[(CHR ''s'', 3), (CHR ''l'', 256)]" new_query]
  by (simp add: query_of_def set_parameter_def new_query_def del: query_text.simps)

end
