(* ===== verification/Dnssd.thy ===== *)
theory Dnssd
  imports Mdns Named Address Uri
begin

section \<open>Service discovery (core/dnssd_client.c)\<close>

text \<open>
  Hosts, services and questions are lists of named structures. A pointer to a host or to the name of
  a question is the name, as names are found by \<open>get_by_name\<close> and never removed, so that a name has
  one structure. Results are those of \<open>Mdns\<close>: the outer \<open>None\<close> is an invalid access or a loop that
  does not end, the inner \<open>None\<close> a NULL result.
\<close>

subsection \<open>Structures\<close>

text \<open>The address of a host is \<open>None\<close> while its length is zero.\<close>

record dns_host = dh_addr :: "address option"

record service =
  sv_query :: string
  sv_port :: nat
  sv_ttl :: nat
  sv_txt_found :: bool
  sv_srv_found :: bool
  sv_complete :: bool
  sv_seen :: bool
  sv_host :: "string option"
  sv_txt :: "string option"

definition new_service :: service where
  "new_service = \<lparr>sv_query = [], sv_port = 0, sv_ttl = 0, sv_txt_found = False, sv_srv_found = False,
     sv_complete = False, sv_seen = False, sv_host = None, sv_txt = None\<rparr>"

record dns =
  d_hosts :: "dns_host named"
  d_services :: "service named"
  d_questions :: "unit named"
  d_if_index :: u32

definition upd_service :: "string \<Rightarrow> (service \<Rightarrow> service) \<Rightarrow> dns \<Rightarrow> dns" where
  "upd_service n f = d_services_update (update_named n f)"

definition set_addr :: "string \<Rightarrow> address \<Rightarrow> dns \<Rightarrow> dns" where
  "set_addr n a = d_hosts_update (update_named n (\<lambda>h. h\<lparr>dh_addr := Some a\<rparr>))"

definition get_host :: "string \<Rightarrow> dns \<Rightarrow> dns" where
  "get_host n w = w\<lparr>d_hosts := fst (get_by_name \<lparr>dh_addr = None\<rparr> (d_hosts w) n)\<rparr>"

definition get_service :: "string \<Rightarrow> dns \<Rightarrow> dns" where
  "get_service n w = w\<lparr>d_services := fst (get_by_name new_service (d_services w) n)\<rparr>"

definition get_question :: "string \<Rightarrow> dns \<Rightarrow> dns" where
  "get_question n w = w\<lparr>d_questions := fst (get_by_name () (d_questions w) n)\<rparr>"

subsection \<open>Resource records\<close>

definition rr_type :: "string \<Rightarrow> nat \<Rightarrow> nat option" where "rr_type pk i = word_at pk i"
definition rr_ttl :: "string \<Rightarrow> nat \<Rightarrow> nat option" where "rr_ttl pk i = long_at pk (i + 4)"
definition rr_rdlength :: "string \<Rightarrow> nat \<Rightarrow> nat option" where "rr_rdlength pk i = word_at pk (i + 8)"
definition rr_next :: "nat \<Rightarrow> nat \<Rightarrow> nat" where "rr_next i n = i + 10 + n"

definition A_RECORD :: nat where "A_RECORD = 1"
definition PTR_RECORD :: nat where "PTR_RECORD = 12"
definition TXT_RECORD :: nat where "TXT_RECORD = 16"
definition AAAA_RECORD :: nat where "AAAA_RECORD = 28"
definition SRV_RECORD :: nat where "SRV_RECORD = 33"
definition ANY_RECORD :: nat where "ANY_RECORD = 255"

text \<open>The name, the length of the data and the position behind the name.\<close>

definition parse_rr :: "string \<Rightarrow> nat \<Rightarrow> (string \<times> nat \<times> nat) option option" where
  "parse_rr pk i =
     do { r \<leftarrow> dns_name pk i;
          case r of
            None \<Rightarrow> Some None
          | Some (name, d) \<Rightarrow>
              if truncated pk (d + 10) then Some None
              else do { n \<leftarrow> rr_rdlength pk d;
                        Some (if truncated pk (rr_next d n) then None else Some (name, n, d)) } }"

fun skip_section :: "string \<Rightarrow> nat \<Rightarrow> nat \<Rightarrow> nat option option" where
  "skip_section pk i 0 = Some (Some i)"
| "skip_section pk i (Suc c) =
     do { r \<leftarrow> parse_rr pk i;
          case r of None \<Rightarrow> Some None | Some (name, n, d) \<Rightarrow> skip_section pk (rr_next d n) c }"

fun skip_questions :: "string \<Rightarrow> nat \<Rightarrow> nat \<Rightarrow> nat option option" where
  "skip_questions pk i 0 = Some (Some i)"
| "skip_questions pk i (Suc c) =
     do { r \<leftarrow> dns_name pk i;
          case r of
            None \<Rightarrow> Some None
          | Some (name, d) \<Rightarrow> if truncated pk (d + 4) then Some None else skip_questions pk (d + 4) c }"

lemma parse_rr_next: "parse_rr pk i = Some (Some (name, n, d)) \<Longrightarrow> i < rr_next d n \<and> d + 10 + n \<le> length pk"
  using name_at_in_packet
  by (fastforce simp: parse_rr_def rr_next_def truncated_def dns_name_name_at bind_eq_Some_conv split: option.splits if_splits)

text \<open>\<open>ar\<close> is \<open>ar_section\<close>, \<open>None\<close> if it is NULL, which \<open>parse_rr\<close> dereferences.\<close>

function find_rr :: "string \<Rightarrow> string \<Rightarrow> nat \<Rightarrow> nat \<Rightarrow> (nat \<times> nat) option option" where
  "find_rr pk name type i =
     (case parse_rr pk i of
        None \<Rightarrow> None
      | Some None \<Rightarrow> Some None
      | Some (Some (rr_name, n, d)) \<Rightarrow>
          (case rr_type pk d of
             None \<Rightarrow> None
           | Some t \<Rightarrow> if c_str name = c_str rr_name \<and> type = t then Some (Some (d, n)) else find_rr pk name type (rr_next d n)))"
  by pat_completeness auto
termination
  by (relation "measure (\<lambda>(pk, name, type, i). Suc (length pk) - i)") (auto dest!: parse_rr_next simp: rr_next_def)

declare find_rr.simps [simp del]

definition dns_find :: "string \<Rightarrow> nat option \<Rightarrow> string \<Rightarrow> nat \<Rightarrow> (nat \<times> nat) option option" where
  "dns_find pk ar name type = (case ar of None \<Rightarrow> None | Some i \<Rightarrow> find_rr pk name type i)"

subsection \<open>TXT records\<close>

text \<open>The length of an entry is a \<open>char\<close>: from 128 on it is negative, and the loop goes back.\<close>

partial_function (option) txt_loop :: "string \<Rightarrow> int \<Rightarrow> int \<Rightarrow> bool option" where
  "txt_loop pk i len =
     (if len > 0 then
        if i < 0 \<or> i \<ge> int (length pk) then None
        else let n = cv (pk ! nat i) in
          if n \<noteq> 0 then txt_loop pk (i + (n + 1)) (len - (n + 1)) else Some False
      else Some (len = 0))"

declare txt_loop.simps [code]

definition txt_valid :: "string \<Rightarrow> nat \<Rightarrow> nat \<Rightarrow> bool option" where
  "txt_valid pk i len = (if len < 2 then Some False else txt_loop pk (int i) (int len))"

text \<open>
  The text of the service ends with a NUL, which is the end of the list. \<open>cap\<close> is the size of the buffer
  for the key and the value. The result is the key, the value and what follows.
\<close>

definition txt_pair :: "nat \<Rightarrow> string \<Rightarrow> (string \<times> string \<times> string) option option" where
  "txt_pair cap data =
     (case data of
        [] \<Rightarrow> Some None
      | c # d \<Rightarrow>
          let n = nat (cv c); m = length (takeWhile (\<lambda>c. c \<noteq> CHR ''='') (c_str d)) in
          if cv c = 0 then Some None
          else if cv c < 0 \<or> n > length d \<or> n \<ge> cap then None
          else if m < length (c_str d) \<and> m < n
            then Some (Some (c_str (take m d), c_str (take (n - m - 1) (drop (m + 1) d)), drop n d))
          else Some (Some (c_str (take n d), [], drop n d)))"

function txt_search :: "nat \<Rightarrow> string \<Rightarrow> string \<Rightarrow> string option option" where
  "txt_search cap data key =
     (case txt_pair cap data of
        None \<Rightarrow> None
      | Some None \<Rightarrow> Some None
      | Some (Some (k, v, next)) \<Rightarrow> if k = key then Some (Some v) else txt_search cap next key)"
  by pat_completeness auto
termination
  by (relation "measure (\<lambda>(cap, data, key). length data)")
    (auto simp: txt_pair_def Let_def split: list.splits if_splits)

declare txt_search.simps [simp del]

definition txt_value :: "nat \<Rightarrow> string option \<Rightarrow> string \<Rightarrow> string option option" where
  "txt_value cap txt key = (case txt of None \<Rightarrow> Some None | Some t \<Rightarrow> txt_search cap t key)"

definition dns_txt :: "string \<Rightarrow> string \<Rightarrow> nat \<Rightarrow> nat \<Rightarrow> dns \<Rightarrow> dns option" where
  "dns_txt pk s d len w =
     do { ok \<leftarrow> txt_valid pk (d + 10) len;
          Some (if ok then upd_service s (\<lambda>s. s\<lparr>sv_txt := Some (take len (drop (d + 10) pk)), sv_txt_found := True\<rparr>) w else w) }"

subsection \<open>Address and service records\<close>

definition host_a :: "string \<Rightarrow> string \<Rightarrow> nat \<Rightarrow> nat \<Rightarrow> dns \<Rightarrow> dns option" where
  "host_a pk h d len w =
     (if len \<noteq> 4 then Some w
      else do { a \<leftarrow> long_at pk (d + 10); Some (set_addr h (ipv4_address (of_nat a) 0) w) })"

definition host_aaaa :: "string \<Rightarrow> string \<Rightarrow> nat \<Rightarrow> nat \<Rightarrow> dns \<Rightarrow> dns option" where
  "host_aaaa pk h d len w =
     (if len \<noteq> 16 then Some w
      else if length pk < d + 26 then None
      else Some (set_addr h (ipv6_address (d_if_index w) (map of_char (take 16 (drop (d + 10) pk))) 0) w))"

text \<open>
  The host of a service is the one it has, otherwise that of the target. The length of the record is
  not looked at: for a record that ends with the packet before its fields the code takes what an earlier
  packet left in the buffer of 1500 bytes. The buffer behind the packet is not modelled, such a read is
  \<open>None\<close>.
\<close>

definition the_service :: "string \<Rightarrow> dns \<Rightarrow> service" where
  "the_service n w = snd (hd (find_by_name (d_services w) n))"

definition srv_host :: "string \<Rightarrow> string \<Rightarrow> dns \<Rightarrow> dns" where
  "srv_host s h w = (if sv_host (the_service s w) = None then upd_service s (\<lambda>s. s\<lparr>sv_host := Some h\<rparr>) (get_host h w) else w)"

definition srv_address :: "string \<Rightarrow> nat option \<Rightarrow> string \<Rightarrow> string \<Rightarrow> dns \<Rightarrow> dns option" where
  "srv_address pk ar target h w =
     do { a6 \<leftarrow> dns_find pk ar target AAAA_RECORD;
          case a6 of
            Some (d, n) \<Rightarrow> host_aaaa pk h d n w
          | None \<Rightarrow>
              do { a4 \<leftarrow> dns_find pk ar target A_RECORD;
                   case a4 of Some (d, n) \<Rightarrow> host_a pk h d n w | None \<Rightarrow> Some w } }"

definition dns_srv :: "string \<Rightarrow> nat option \<Rightarrow> string \<Rightarrow> nat \<Rightarrow> dns \<Rightarrow> dns option" where
  "dns_srv pk ar s d w =
     do { ttl \<leftarrow> rr_ttl pk d;
          port \<leftarrow> word_at pk (d + 14);
          let w = upd_service s (\<lambda>s. s\<lparr>sv_ttl := ttl, sv_port := port\<rparr>) w;
          r \<leftarrow> dns_name pk (d + 16);
          case r of
            None \<Rightarrow> Some w
          | Some (target, _) \<Rightarrow>
              do { let w = srv_host s (c_str target) w;
                   h \<leftarrow> sv_host (the_service s w);
                   w \<leftarrow> srv_address pk ar target h w;
                   Some (upd_service s (\<lambda>s. s\<lparr>sv_srv_found := True\<rparr>) w) } }"

definition dns_ptr :: "string \<Rightarrow> nat option \<Rightarrow> string \<Rightarrow> nat \<Rightarrow> dns \<Rightarrow> dns option" where
  "dns_ptr pk ar name d w =
     (if find_by_name (d_questions w) (c_str name) = [] then Some w
      else do { r \<leftarrow> dns_name pk (d + 10);
        case r of
          None \<Rightarrow> Some w
        | Some (instance, _) \<Rightarrow>
            do { let s = c_str instance;
                 let w = upd_service s (\<lambda>s. s\<lparr>sv_query := c_str name\<rparr>) (get_service s w);
                 srv \<leftarrow> dns_find pk ar instance SRV_RECORD;
                 w \<leftarrow> (case srv of Some (d, n) \<Rightarrow> dns_srv pk ar s d w | None \<Rightarrow> Some w);
                 txt \<leftarrow> dns_find pk ar instance TXT_RECORD;
                 case txt of Some (d, n) \<Rightarrow> dns_txt pk s d n w | None \<Rightarrow> Some w } })"

subsection \<open>Packets\<close>

definition process_record :: "string \<Rightarrow> nat option \<Rightarrow> string \<Rightarrow> nat \<Rightarrow> nat \<Rightarrow> dns \<Rightarrow> dns option" where
  "process_record pk ar name n d w =
     do { t \<leftarrow> rr_type pk d;
          let s = c_str name;
          let sv = (find_by_name (d_services w) s \<noteq> []);
          let ho = (find_by_name (d_hosts w) s \<noteq> []);
          if t = PTR_RECORD then dns_ptr pk ar name d w
          else if t = SRV_RECORD then (if sv then dns_srv pk ar s d w else Some w)
          else if t = TXT_RECORD then (if sv then dns_txt pk s d n w else Some w)
          else if t = A_RECORD then (if ho then host_a pk s d n w else Some w)
          else if t = AAAA_RECORD then (if ho then host_aaaa pk s d n w else Some w)
          else Some w }"

text \<open>The \<open>return\<close> behind the block ends the loop with the first record.\<close>

definition process_answers :: "string \<Rightarrow> nat option \<Rightarrow> nat \<Rightarrow> nat \<Rightarrow> dns \<Rightarrow> dns option" where
  "process_answers pk ar i c w =
     (if c = 0 then Some w
      else do { r \<leftarrow> parse_rr pk i;
                case r of None \<Rightarrow> Some w | Some (name, n, d) \<Rightarrow> process_record pk ar name n d w })"

definition dnssd_packet :: "string \<Rightarrow> dns \<Rightarrow> dns option" where
  "dnssd_packet pk w =
     do { r \<leftarrow> dns_header pk 0;
          case r of
            None \<Rightarrow> Some w
          | Some (h, i) \<Rightarrow>
              if (of_nat (h_flags h) :: u16) AND 0xf80f \<noteq> 0x8000 then Some w
              else do { q \<leftarrow> skip_questions pk i (h_qdcount h);
                case q of
                  None \<Rightarrow> Some w
                | Some i \<Rightarrow> do { ar \<leftarrow> skip_section pk i (h_ancount h + h_nscount h);
                                process_answers pk ar i (h_ancount h) w } } }"

subsection \<open>Queries\<close>

text \<open>The packet from its start, the positions of its labels, the number of questions and the size of the buffer.\<close>

record query =
  qy_out :: string
  qy_names :: "nat list"
  qy_count :: nat
  qy_cap :: nat

definition dnssd_query :: "nat \<Rightarrow> query" where
  "dnssd_query cap = \<lparr>qy_out = replicate 12 (chr 0), qy_names = [], qy_count = 0, qy_cap = cap\<rparr>"

definition dnssd_question :: "string \<Rightarrow> nat \<Rightarrow> bool \<Rightarrow> query \<times> dns \<Rightarrow> (query \<times> dns) option" where
  "dnssd_question name type unicast s =
     (case s of (q, w) \<Rightarrow>
        do { (p, names) \<leftarrow> encode_name (qy_out q) name (qy_names q);
             let out = p @ pack16_chars type @ pack16_chars ((if unicast then 0x8000 else 0) + 1);
             let c = pack16_chars (qy_count q + 1);
             if length out > qy_cap q then None
             else Some (q\<lparr>qy_out := out[4 := c ! 0, 5 := c ! 1], qy_names := names, qy_count := qy_count q + 1\<rparr>, get_question name w) })"

text \<open>A service without a host is dereferenced.\<close>

fun followup_loop :: "service named \<Rightarrow> query \<times> dns \<Rightarrow> (service named \<times> (query \<times> dns) \<times> bool) option" where
  "followup_loop [] q = Some ([], q, False)"
| "followup_loop ((n, s) # l) q =
     do { let r = (\<not> sv_txt_found s \<or> \<not> sv_srv_found s);
          name \<leftarrow> n;
          q \<leftarrow> (if r then dnssd_question name ANY_RECORD False q else Some q);
          h \<leftarrow> sv_host s;
          let a = (dh_addr (snd (hd (find_by_name (d_hosts (snd q)) h))) = None);
          q \<leftarrow> (if a then dnssd_question h ANY_RECORD False q else Some q);
          (l, q, f) \<leftarrow> followup_loop l q;
          Some ((n, s\<lparr>sv_complete := \<not> r \<and> \<not> a\<rparr>) # l, q, r \<or> a \<or> f) }"

text \<open>The packet that is sent, if there is one.\<close>

definition dnssd_followup :: "dns \<Rightarrow> (dns \<times> string option) option" where
  "dnssd_followup w =
     do { (l, (q, w), f) \<leftarrow> followup_loop (d_services w) (dnssd_query 1500, w);
          Some (w\<lparr>d_services := l\<rparr>, if f then Some (qy_out q) else None) }"

text \<open>The datagrams that the port has received are the list of packets.\<close>

definition dnssd_receive :: "string list \<Rightarrow> dns \<Rightarrow> (dns \<times> string option) option" where
  "dnssd_receive pks w = do { w \<leftarrow> fold_opt (\<lambda>w pk. dnssd_packet pk w) pks w; dnssd_followup w }"

text \<open>The next service from a position of the list on; its position is returned.\<close>

fun service_next :: "service named \<Rightarrow> service named \<times> nat option" where
  "service_next [] = ([], None)"
| "service_next ((n, s) # l) =
     (if sv_complete s \<and> \<not> sv_seen s then ((n, s\<lparr>sv_seen := True\<rparr>) # l, Some 0)
      else (case service_next l of (l, r) \<Rightarrow> ((n, s) # l, map_option Suc r)))"

subsection \<open>Reading of records stays in the packet\<close>

lemma word_at_none: "word_at pk i = None \<longleftrightarrow> \<not> i + 1 < length pk"
  by (simp add: word_at_def byte_at_def bind_eq_None_conv)

lemma parse_rr_reads: "parse_rr pk i \<noteq> None"
proof -
  obtain r where r: "dns_name pk i = Some r" using dns_name_reads by blast
  show ?thesis
  proof (cases r)
    case None
    then show ?thesis using r by (simp add: parse_rr_def)
  next
    case (Some nd)
    obtain name d where nd: "nd = (name, d)" by (cases nd)
    have "rr_rdlength pk d \<noteq> None" if "\<not> truncated pk (d + 10)"
      using that by (auto simp: rr_rdlength_def word_at_none truncated_def)
    then show ?thesis using r Some nd by (auto simp: parse_rr_def)
  qed
qed

lemma skip_section_reads: "skip_section pk i c \<noteq> None"
proof (induction pk i c rule: skip_section.induct)
  case (2 pk i c)
  obtain r where "parse_rr pk i = Some r" using parse_rr_reads by blast
  then show ?case using 2 by (cases r) auto
qed simp

lemma skip_questions_reads: "skip_questions pk i c \<noteq> None"
proof (induction pk i c rule: skip_questions.induct)
  case (2 pk i c)
  obtain r where "dns_name pk i = Some r" using dns_name_reads by blast
  then show ?case using 2 by (cases r) auto
qed simp

lemma find_rr_reads: "find_rr pk name type i \<noteq> None"
proof (induction pk name type i rule: find_rr.induct)
  case (1 pk name type i)
  obtain r where r: "parse_rr pk i = Some r" using parse_rr_reads by blast
  show ?case
  proof (cases r)
    case None
    then show ?thesis using r by (subst find_rr.simps) simp
  next
    case (Some z)
    obtain m n d where z: "z = (m, n, d)" by (cases z)
    have "d + 10 + n \<le> length pk" using parse_rr_next [of pk i m n d] r Some z by simp
    then have "rr_type pk d \<noteq> None" by (simp add: rr_type_def word_at_none)
    then show ?thesis using 1 r Some z by (subst find_rr.simps) auto
  qed
qed

lemma find_rr_some: "find_rr pk name type i = Some (Some (d, n)) \<Longrightarrow> d + 10 + n \<le> length pk"
  by (induction pk name type i rule: find_rr.induct)
    (subst (asm) (2) find_rr.simps, auto dest: parse_rr_next split: option.splits if_splits)

subsection \<open>TXT records are read as they were written\<close>

text \<open>An entry of a key and a value, or of a key alone.\<close>

definition txt_entry :: "string \<times> string option \<Rightarrow> string" where
  "txt_entry e = fst e @ (case snd e of None \<Rightarrow> [] | Some v \<Rightarrow> ''='' @ v)"

definition entry_ok :: "nat \<Rightarrow> string \<times> string option \<Rightarrow> bool" where
  "entry_ok cap e \<longleftrightarrow> chr 0 \<notin> set (txt_entry e) \<and> CHR ''='' \<notin> set (fst e) \<and>
     1 \<le> length (txt_entry e) \<and> length (txt_entry e) \<le> 127 \<and> length (txt_entry e) < cap"

lemma txt_loop_wire:
  assumes "list_all (\<lambda>l. 1 \<le> length l \<and> length l \<le> 127) ls"
  shows "txt_loop (p @ wire ls @ r) (int (length p)) (int (length (wire ls))) = Some True"
  using assms
proof (induction ls arbitrary: p)
  case Nil
  then show ?case by (subst txt_loop.simps) simp
next
  case (Cons l ls)
  have c: "cv (chr (length l)) = int (length l)" using Cons.prems by (simp add: cv_chr)
  let ?p = "p @ chr (length l) # l"
  have "txt_loop (p @ wire (l # ls) @ r) (int (length p)) (int (length (wire (l # ls)))) =
      txt_loop (p @ wire (l # ls) @ r) (int (length p) + (int (length l) + 1)) (int (length (wire (l # ls))) - (int (length l) + 1))"
    using c Cons.prems by (subst txt_loop.simps) (auto simp: nth_append Let_def algebra_simps)
  also have "\<dots> = txt_loop (?p @ wire ls @ r) (int (length ?p)) (int (length (wire ls)))"
    by (simp add: algebra_simps)
  also have "\<dots> = Some True" by (rule Cons.IH) (use Cons.prems in simp)
  finally show ?case .
qed

text \<open>
  What does not return: the first byte of an entry is 255, as a \<open>char\<close> -1, and the loop stays where it is.
\<close>

lemma txt_loop_255:
  assumes "0 < len" "0 \<le> i" "i < int (length pk)" "pk ! nat i = chr 255"
  shows "txt_loop pk i len = None"
proof -
  have "\<not> (0 < len \<and> 0 \<le> i \<and> i < int (length pk) \<and> pk ! nat i = chr 255)" if "txt_loop pk i len = Some r" for pk i len r
  proof (rule txt_loop.raw_induct [OF _ that])
    fix f :: "string \<Rightarrow> int \<Rightarrow> int \<Rightarrow> bool option" and pk i len r
    assume ih: "\<And>pk i len r. f pk i len = Some r \<Longrightarrow> \<not> (0 < len \<and> 0 \<le> i \<and> i < int (length pk) \<and> pk ! nat i = chr 255)"
      and f: "(if 0 < len
         then if i < 0 \<or> int (length pk) \<le> i then None
              else let n = cv (pk ! nat i) in if n \<noteq> 0 then f pk (i + (n + 1)) (len - (n + 1)) else Some False
         else Some (len = 0)) = Some r"
    have "cv (chr 255) = -1" by code_simp
    then show "\<not> (0 < len \<and> 0 \<le> i \<and> i < int (length pk) \<and> pk ! nat i = chr 255)"
      using f ih [of pk i len r] by (auto simp: Let_def)
  qed
  then show ?thesis using assms by (cases "txt_loop pk i len") auto
qed

lemma c_str_no_nul: "chr 0 \<notin> set s \<Longrightarrow> c_str s = s"
  by (auto simp: c_str_def takeWhile_eq_all_conv)

lemma txt_pair_step:
  assumes "cv c = int n" "0 < n" "n \<le> length d" "n < cap" "m = length (takeWhile (\<lambda>c. c \<noteq> CHR ''='') (c_str d))"
  shows "txt_pair cap (c # d) =
    Some (Some (if m < length (c_str d) \<and> m < n then (c_str (take m d), c_str (take (n - m - 1) (drop (m + 1) d)), drop n d)
                else (c_str (take n d), [], drop n d)))"
  using assms by (simp add: txt_pair_def Let_def)

lemma txt_pair_entry:
  assumes "entry_ok cap e"
  shows "txt_pair cap (chr (length (txt_entry e)) # txt_entry e @ r) =
    Some (Some (fst e, (case snd e of None \<Rightarrow> [] | Some v \<Rightarrow> v), r))"
proof -
  let ?t = "txt_entry e"
  have c: "cv (chr (length ?t)) = int (length ?t)" "length ?t \<noteq> 0" using assms by (auto simp: entry_ok_def cv_chr)
  show ?thesis
  proof (cases "snd e")
    case None
    have t: "?t = fst e" using None by (simp add: txt_entry_def)
    have nul: "chr 0 \<notin> set (fst e)" "CHR ''='' \<notin> set (fst e)" using assms t by (auto simp: entry_ok_def)
    have z: "\<exists>u. c_str (fst e @ r) = fst e @ u" using nul(1) by (auto simp: c_str_def takeWhile_append)
    then obtain u where u: "c_str (fst e @ r) = fst e @ u" by blast
    have "length (fst e) \<le> length (takeWhile (\<lambda>c. c \<noteq> CHR ''='') (fst e @ u))"
      using nul(2) by (subst takeWhile_append2) auto
    then show ?thesis
      using c assms t u nul None txt_pair_step [OF c(1) _ _ _ refl, of "?t @ r" cap] by (auto simp: entry_ok_def c_str_no_nul)
  next
    case (Some v)
    have t: "?t = fst e @ ''='' @ v" using Some by (simp add: txt_entry_def)
    have nul: "chr 0 \<notin> set (fst e)" "CHR ''='' \<notin> set (fst e)" "chr 0 \<notin> set v" using assms t by (auto simp: entry_ok_def)
    have "c_str (?t @ r) = ?t @ c_str r" using assms by (auto simp: c_str_def takeWhile_append entry_ok_def)
    then obtain u where u: "c_str (fst e @ CHR ''='' # v @ r) = fst e @ CHR ''='' # v @ u" using t by auto
    have m: "takeWhile (\<lambda>c. c \<noteq> CHR ''='') (fst e @ CHR ''='' # v @ u) = fst e" using nul(2) by (subst takeWhile_append2) auto
    have "txt_pair cap (chr (length ?t) # ?t @ r) = Some (Some (c_str (take (length (fst e)) (?t @ r)),
        c_str (take (length ?t - length (fst e) - 1) (drop (length (fst e) + 1) (?t @ r))), drop (length ?t) (?t @ r)))"
      using c assms u m txt_pair_step [OF c(1) _ _ _ refl, of "?t @ r" cap] by (simp add: t entry_ok_def)
    then show ?thesis using nul Some by (simp add: t c_str_no_nul)
  qed
qed

text \<open>
  The value of a key in a TXT record of entries that fit is that of the first entry with the key, and
  the record is valid.
\<close>

definition first_value :: "(string \<times> string option) list \<Rightarrow> string \<Rightarrow> string option" where
  "first_value es key = map_option (\<lambda>v. case v of None \<Rightarrow> [] | Some v \<Rightarrow> v) (map_of es key)"

theorem txt_value_reads:
  assumes "list_all (entry_ok cap) es"
  shows "txt_value cap (Some (wire (map txt_entry es))) key = Some (first_value es key)"
  using assms
proof (induction es)
  case Nil
  then show ?case by (simp add: txt_value_def txt_search.simps txt_pair_def first_value_def)
next
  case (Cons e es)
  obtain k v where e: "e = (k, v)" by (cases e)
  show ?case
    using Cons txt_pair_entry [of cap e "wire (map txt_entry es)"] e
    by (simp add: txt_value_def txt_search.simps [of cap "_ # _"] first_value_def)
qed

subsection \<open>The tables stay well formed\<close>

definition has_addr :: "dns \<Rightarrow> string \<Rightarrow> bool" where
  "has_addr w h \<longleftrightarrow> find_by_name (d_hosts w) h \<noteq> [] \<and> dh_addr (snd (hd (find_by_name (d_hosts w) h))) \<noteq> None"

text \<open>A service that was found has a host, its host is in the table, and a complete one can be connected to.\<close>

definition service_ok :: "dns \<Rightarrow> service \<Rightarrow> bool" where
  "service_ok w s \<longleftrightarrow>
     (sv_srv_found s \<longrightarrow> sv_host s \<noteq> None) \<and> (sv_txt_found s \<longrightarrow> sv_txt s \<noteq> None) \<and>
     (\<forall>h. sv_host s = Some h \<longrightarrow> find_by_name (d_hosts w) h \<noteq> []) \<and>
     (sv_complete s \<longrightarrow> sv_txt_found s \<and> sv_srv_found s \<and> (\<forall>h. sv_host s = Some h \<longrightarrow> has_addr w h))"

definition dns_ok :: "dns \<Rightarrow> bool" where
  "dns_ok w \<longleftrightarrow> distinct (named_names (d_hosts w)) \<and> distinct (named_names (d_services w)) \<and> distinct (named_names (d_questions w)) \<and>
     (\<forall>c \<in> set (d_services w). fst c \<noteq> None \<and> service_ok w (snd c))"

text \<open>
  What is known of a service stays known: its host, that its SRV and TXT records were found, that it has a
  text, and that it was seen by the application.
\<close>

definition kept :: "service \<Rightarrow> service \<Rightarrow> bool" where
  "kept s t \<longleftrightarrow>
     (sv_host s \<noteq> None \<longrightarrow> sv_host t = sv_host s) \<and> (sv_srv_found s \<longrightarrow> sv_srv_found t) \<and> (sv_txt_found s \<longrightarrow> sv_txt_found t) \<and>
     (sv_txt s \<noteq> None \<longrightarrow> sv_txt t \<noteq> None) \<and> (sv_seen s \<longrightarrow> sv_seen t)"

lemma kept_refl [simp]: "kept s s"
  by (simp add: kept_def)

lemma kept_trans: "kept s t \<Longrightarrow> kept t u \<Longrightarrow> kept s u"
  by (auto simp: kept_def)

text \<open>Hosts and services are kept with what is known of them, and so are the addresses of hosts.\<close>

definition grows :: "dns \<Rightarrow> dns \<Rightarrow> bool" where
  "grows w v \<longleftrightarrow>
     (\<forall>h. find_by_name (d_hosts w) h \<noteq> [] \<longrightarrow> find_by_name (d_hosts v) h \<noteq> []) \<and> (\<forall>h. has_addr w h \<longrightarrow> has_addr v h) \<and>
     (\<forall>n. find_by_name (d_services w) n \<noteq> [] \<longrightarrow> find_by_name (d_services v) n \<noteq> [] \<and> kept (the_service n w) (the_service n v))"

definition fine :: "dns \<Rightarrow> dns \<Rightarrow> bool" where
  "fine w v \<longleftrightarrow> (dns_ok w \<longrightarrow> dns_ok v) \<and> grows w v"

lemma fine_refl [simp]: "fine w w"
  by (simp add: fine_def grows_def)

lemma fine_trans: "fine w v \<Longrightarrow> fine v u \<Longrightarrow> fine w u"
  by (auto simp: fine_def grows_def intro: kept_trans)

lemma service_ok_grows: "service_ok w s \<Longrightarrow> grows w v \<Longrightarrow> service_ok v s"
  by (auto simp: service_ok_def grows_def)

lemma update_named_mem:
  "c \<in> set (update_named n f l) \<Longrightarrow> c \<in> set l \<or> find_by_name l n \<noteq> [] \<and> c = (Some n, f (snd (hd (find_by_name l n))))"
  by (induction n f l rule: update_named.induct) (auto split: if_splits)

lemma find_by_name_mem: "find_by_name l n \<noteq> [] \<Longrightarrow> (Some n, snd (hd (find_by_name l n))) \<in> set l"
  by (induction l n rule: find_by_name.induct) auto

lemma find_update_same:
  "find_by_name l n \<noteq> [] \<Longrightarrow> snd (hd (find_by_name (update_named n f l) n)) = f (snd (hd (find_by_name l n)))"
  by (induction n f l rule: update_named.induct) auto

lemma find_update_other_hd:
  "m \<noteq> n \<Longrightarrow> find_by_name l m \<noteq> [] \<Longrightarrow> hd (find_by_name (update_named n f l) m) = hd (find_by_name l m)"
  by (induction n f l rule: update_named.induct) auto

lemma upd_service_sel [simp]:
  "d_hosts (upd_service n f w) = d_hosts w" "d_questions (upd_service n f w) = d_questions w" "d_if_index (upd_service n f w) = d_if_index w"
  "d_services (upd_service n f w) = update_named n f (d_services w)"
  by (simp_all add: upd_service_def)

lemma set_addr_sel [simp]:
  "d_services (set_addr n a w) = d_services w" "d_questions (set_addr n a w) = d_questions w"
  "d_hosts (set_addr n a w) = update_named n (\<lambda>h. h\<lparr>dh_addr := Some a\<rparr>) (d_hosts w)"
  by (simp_all add: set_addr_def)

lemma service_ok_hosts: "d_hosts v = d_hosts w \<Longrightarrow> service_ok v = service_ok w"
  by (auto simp: service_ok_def has_addr_def fun_eq_iff)

lemma the_service_upd:
  "find_by_name (d_services w) m \<noteq> [] \<Longrightarrow>
   the_service m (upd_service n f w) = (if m = n then f (the_service n w) else the_service m w)"
  by (cases "m = n") (simp_all add: the_service_def find_update_same find_update_other_hd)

lemma upd_service_fine:
  assumes "find_by_name (d_services w) n \<noteq> [] \<Longrightarrow> service_ok w (the_service n w) \<Longrightarrow> service_ok w (f (the_service n w))"
    and "find_by_name (d_services w) n \<noteq> [] \<Longrightarrow> kept (the_service n w) (f (the_service n w))"
  shows "fine w (upd_service n f w)"
proof -
  have u: "service_ok (upd_service n f w) = service_ok w" by (rule service_ok_hosts) simp
  have e: "fst c \<noteq> None \<and> service_ok w (snd c)" if w: "dns_ok w" and c: "c \<in> set (update_named n f (d_services w))" for c
  proof (cases "c \<in> set (d_services w)")
    case True
    then show ?thesis using w by (simp add: dns_ok_def)
  next
    case False
    then have c: "find_by_name (d_services w) n \<noteq> []" "c = (Some n, f (the_service n w))"
      using update_named_mem [OF c] by (simp_all add: the_service_def)
    have "(Some n, the_service n w) \<in> set (d_services w)" using find_by_name_mem [OF c(1)] by (simp add: the_service_def)
    then have "service_ok w (the_service n w)" using w unfolding dns_ok_def by fastforce
    then show ?thesis using assms c by simp
  qed
  have "dns_ok (upd_service n f w)" if "dns_ok w"
    using that e [OF that] unfolding dns_ok_def u upd_service_sel update_named_names by blast
  moreover have "grows w (upd_service n f w)" using assms(2) by (simp add: grows_def has_addr_def the_service_upd find_by_name_eq_Nil)
  ultimately show ?thesis by (simp add: fine_def)
qed

lemma set_addr_fine: "fine w (set_addr n a w)"
proof -
  have g: "grows w (set_addr n a w)"
    unfolding grows_def has_addr_def
  proof (intro conjI allI impI)
    fix h assume h: "find_by_name (d_hosts w) h \<noteq> [] \<and> dh_addr (snd (hd (find_by_name (d_hosts w) h))) \<noteq> None"
    show "dh_addr (snd (hd (find_by_name (d_hosts (set_addr n a w)) h))) \<noteq> None"
      using h by (cases "h = n") (simp_all add: find_update_same find_update_other_hd)
  qed (simp_all add: find_by_name_eq_Nil the_service_def)
  then show ?thesis using service_ok_grows [OF _ g] by (simp add: fine_def dns_ok_def)
qed

lemma get_host_fine: "fine w (get_host n w)"
proof -
  have "find_by_name (d_hosts (get_host n w)) h = (if h = n \<and> find_by_name (d_hosts w) n = [] then (Some n, \<lparr>dh_addr = None\<rparr>) # d_hosts w else find_by_name (d_hosts w) h)" for h
    by (auto simp: get_host_def get_by_name_def Let_def)
  then have g: "grows w (get_host n w)" by (auto simp: grows_def has_addr_def get_host_def the_service_def)
  then show ?thesis using service_ok_grows [OF _ g] get_by_name_distinct by (auto simp: fine_def dns_ok_def get_host_def)
qed

lemma get_service_fine: "fine w (get_service n w)"
proof -
  have h: "service_ok (get_service n w) = service_ok w" by (rule service_ok_hosts) (simp add: get_service_def)
  have "service_ok w new_service" by (simp add: service_ok_def new_service_def)
  moreover have "c \<in> set (fst (get_by_name new_service (d_services w) n)) \<Longrightarrow> c = (Some n, new_service) \<or> c \<in> set (d_services w)" for c
    by (auto simp: get_by_name_def Let_def split: if_splits)
  moreover have "grows w (get_service n w)"
    by (auto simp: grows_def has_addr_def get_service_def the_service_def get_by_name_def Let_def)
  ultimately show ?thesis using h get_by_name_distinct
    by (fastforce simp: fine_def dns_ok_def get_service_def)
qed

lemma get_question_fine: "fine w (get_question n w)"
proof -
  have "service_ok (get_question n w) = service_ok w" by (rule service_ok_hosts) (simp add: get_question_def)
  then show ?thesis using get_by_name_distinct [of "d_questions w" "()" n] by (auto simp: fine_def grows_def has_addr_def dns_ok_def get_question_def the_service_def)
qed

lemma host_a_fine: "host_a pk h d n w = Some v \<Longrightarrow> fine w v"
  using set_addr_fine by (auto simp: host_a_def bind_eq_Some_conv split: if_splits)

lemma host_aaaa_fine: "host_aaaa pk h d n w = Some v \<Longrightarrow> fine w v"
  using set_addr_fine by (auto simp: host_aaaa_def split: if_splits)

lemma dns_txt_fine: "dns_txt pk s d n w = Some v \<Longrightarrow> fine w v"
  by (auto simp: dns_txt_def bind_eq_Some_conv service_ok_def kept_def split: if_splits intro!: upd_service_fine)

lemma host_services: "host_a pk h d n w = Some v \<Longrightarrow> d_services v = d_services w" "host_aaaa pk h d n w = Some v \<Longrightarrow> d_services v = d_services w"
  by (auto simp: host_a_def host_aaaa_def bind_eq_Some_conv split: if_splits)

lemma get_host_services [simp]: "d_services (get_host h w) = d_services w"
  by (simp add: get_host_def)

lemma srv_host_fine:
  assumes "find_by_name (d_services w) s \<noteq> []"
  shows "fine w (srv_host s h w)" "sv_host (the_service s (srv_host s h w)) \<noteq> None" "find_by_name (d_services (srv_host s h w)) s \<noteq> []"
proof -
  have h: "find_by_name (d_hosts (get_host h w)) h \<noteq> []" by (simp add: get_host_def get_by_name_find get_by_name_def Let_def)
  have "fine (get_host h w) (upd_service s (\<lambda>s. s\<lparr>sv_host := Some h\<rparr>) (get_host h w))" if "sv_host (the_service s w) = None"
    using that h by (intro upd_service_fine) (auto simp: service_ok_def the_service_def kept_def)
  then show "fine w (srv_host s h w)"
    using fine_trans [OF get_host_fine [of w h]] by (simp add: srv_host_def)
  show "sv_host (the_service s (srv_host s h w)) \<noteq> None" "find_by_name (d_services (srv_host s h w)) s \<noteq> []"
    using assms by (auto simp: srv_host_def the_service_def find_update_same find_by_name_eq_Nil)
qed

lemma srv_address_fine: "srv_address pk ar target h w = Some v \<Longrightarrow> fine w v \<and> d_services v = d_services w"
  using host_a_fine host_aaaa_fine host_services
  by (fastforce simp: srv_address_def bind_eq_Some_conv split: option.splits)

lemma dns_srv_fine:
  assumes "dns_srv pk ar s d w = Some v" "find_by_name (d_services w) s \<noteq> []"
  shows "fine w v"
proof -
  obtain ttl where t: "rr_ttl pk d = Some ttl" using assms(1) by (cases "rr_ttl pk d") (simp_all add: dns_srv_def)
  obtain port where p: "word_at pk (d + 14) = Some port" using assms(1) t by (cases "word_at pk (d + 14)") (simp_all add: dns_srv_def)
  obtain r where r: "dns_name pk (d + 16) = Some r" using dns_name_reads by blast
  let ?w = "upd_service s (\<lambda>s. s\<lparr>sv_ttl := ttl, sv_port := port\<rparr>) w"
  have w: "fine w ?w" "find_by_name (d_services ?w) s \<noteq> []"
    using assms(2) by (auto simp: service_ok_def kept_def find_by_name_eq_Nil intro!: upd_service_fine)
  show ?thesis
  proof (cases r)
    case None
    then show ?thesis using assms(1) t p r w(1) by (simp add: dns_srv_def)
  next
    case (Some tn)
    obtain target n where tn: "tn = (target, n)" by (cases tn)
    let ?u = "srv_host s (c_str target) ?w"
    note u = srv_host_fine [OF w(2), of "c_str target"]
    obtain h x where x: "srv_address pk ar target h ?u = Some x" "v = upd_service s (\<lambda>s. s\<lparr>sv_srv_found := True\<rparr>) x"
      using assms(1) t p r Some tn unfolding dns_srv_def by (auto simp: bind_eq_Some_conv Let_def)
    have "sv_host (the_service s x) \<noteq> None" using u(2) srv_address_fine [OF x(1)] by (simp add: the_service_def)
    then have "fine x v" unfolding x(2) by (intro upd_service_fine) (auto simp: service_ok_def kept_def)
    then show ?thesis using w(1) u(1) srv_address_fine [OF x(1)] fine_trans by blast
  qed
qed

lemma dns_ptr_fine:
  assumes "dns_ptr pk ar name d w = Some v"
  shows "fine w v"
proof (cases "find_by_name (d_questions w) (c_str name) = []")
  case True
  then show ?thesis using assms by (simp add: dns_ptr_def)
next
  case False
  obtain r where r: "dns_name pk (d + 10) = Some r" using dns_name_reads by blast
  show ?thesis
  proof (cases r)
    case None
    then show ?thesis using assms r False by (simp add: dns_ptr_def)
  next
    case (Some im)
    obtain i m where im: "im = (i, m)" by (cases im)
    let ?s = "c_str i"
    let ?w = "upd_service ?s (\<lambda>s. s\<lparr>sv_query := c_str name\<rparr>) (get_service ?s w)"
    have f: "find_by_name (d_services ?w) ?s \<noteq> []"
      by (simp add: find_by_name_eq_Nil get_service_def get_by_name_names)
    have w: "fine w ?w"
      by (rule fine_trans [OF get_service_fine]) (auto simp: service_ok_def kept_def intro!: upd_service_fine)
    obtain srv where srv: "dns_find pk ar i SRV_RECORD = Some srv" using assms r Some im False
      unfolding dns_ptr_def by (auto simp: bind_eq_Some_conv Let_def)
    obtain u where u: "(case srv of Some (d, n) \<Rightarrow> dns_srv pk ar ?s d ?w | None \<Rightarrow> Some ?w) = Some u"
      "(do { txt \<leftarrow> dns_find pk ar i TXT_RECORD; case txt of Some (d, n) \<Rightarrow> dns_txt pk ?s d n u | None \<Rightarrow> Some u }) = Some v"
      using assms r Some im False srv unfolding dns_ptr_def by (auto simp: bind_eq_Some_conv Let_def)
    have "fine ?w u" using u(1) f dns_srv_fine by (auto split: option.splits)
    moreover have "fine u v" using u(2) dns_txt_fine by (auto simp: bind_eq_Some_conv split: option.splits)
    ultimately show ?thesis using w fine_trans by blast
  qed
qed

lemma process_record_fine: "process_record pk ar name n d w = Some v \<Longrightarrow> fine w v"
  using dns_ptr_fine dns_srv_fine dns_txt_fine host_a_fine host_aaaa_fine
  by (auto simp: process_record_def bind_eq_Some_conv Let_def split: if_splits)

lemma dnssd_packet_fine: "dnssd_packet pk w = Some v \<Longrightarrow> fine w v"
  using process_record_fine
  by (fastforce simp: dnssd_packet_def process_answers_def bind_eq_Some_conv split: if_splits option.splits)

lemma packets_fine: "fold_opt (\<lambda>w pk. dnssd_packet pk w) pks w = Some v \<Longrightarrow> fine w v"
  by (induction pks arbitrary: w) (auto simp: bind_eq_Some_conv dest!: dnssd_packet_fine intro: fine_trans)

text \<open>The follow-up leaves the hosts and marks as complete what can be connected to.\<close>

lemma dnssd_question_fine: "dnssd_question name type u (q, w) = Some (q', v) \<Longrightarrow> fine w v \<and> d_hosts v = d_hosts w \<and> d_services v = d_services w"
  using get_question_fine by (auto simp: dnssd_question_def bind_eq_Some_conv Let_def get_question_def split: if_splits)

definition marked :: "dns \<Rightarrow> string option \<times> service \<Rightarrow> string option \<times> service" where
  "marked w c =
     (fst c, (snd c)\<lparr>sv_complete := sv_txt_found (snd c) \<and> sv_srv_found (snd c) \<and>
        dh_addr (snd (hd (find_by_name (d_hosts w) (the (sv_host (snd c)))))) \<noteq> None\<rparr>)"

lemma marked_hosts: "d_hosts v = d_hosts w \<Longrightarrow> marked v = marked w"
  by (simp add: marked_def fun_eq_iff)

lemma find_by_name_marked: "find_by_name (map (marked w) l) n = map (marked w) (find_by_name l n)"
  by (induction l n rule: find_by_name.induct) (auto simp: marked_def)

lemma followup_loop_ok:
  assumes "followup_loop l (q, w) = Some (l', (q', v), f)"
  shows "(distinct (named_names (d_questions w)) \<longrightarrow> distinct (named_names (d_questions v))) \<and> d_hosts v = d_hosts w \<and> d_services v = d_services w \<and>
    d_if_index v = d_if_index w \<and> l' = map (marked w) l \<and>
    (\<forall>c \<in> set l. sv_host (snd c) \<noteq> None) \<and>
    ((\<forall>c \<in> set l. fst c \<noteq> None \<and> service_ok w (snd c)) \<longrightarrow> (\<forall>c \<in> set l'. fst c \<noteq> None \<and> service_ok w (snd c)))"
  using assms
proof (induction l arbitrary: q w l' q' v f)
  case (Cons c l)
  obtain n s where c: "c = (n, s)" by (cases c)
  let ?r = "\<not> sv_txt_found s \<or> \<not> sv_srv_found s"
  obtain name h where n: "n = Some name" "sv_host s = Some h" using Cons.prems c by (auto simp: bind_eq_Some_conv Let_def)
  obtain q1 w1 where 1: "(if ?r then dnssd_question name ANY_RECORD False (q, w) else Some (q, w)) = Some (q1, w1)"
    using Cons.prems c n by (auto simp: bind_eq_Some_conv Let_def split: if_splits)
  let ?a = "dh_addr (snd (hd (find_by_name (d_hosts w1) h))) = None"
  obtain q2 w2 where 2: "(if ?a then dnssd_question h ANY_RECORD False (q1, w1) else Some (q1, w1)) = Some (q2, w2)"
    using Cons.prems c n 1 by (auto simp: bind_eq_Some_conv Let_def split: if_splits)
  have q: "(distinct (named_names (d_questions w)) \<longrightarrow> distinct (named_names (d_questions w2))) \<and> d_hosts w2 = d_hosts w \<and> d_services w2 = d_services w \<and> d_if_index w2 = d_if_index w \<and> d_hosts w1 = d_hosts w"
    using 1 2 by (auto simp: dnssd_question_def bind_eq_Some_conv Let_def get_question_def split: if_splits intro!: get_by_name_distinct)
  obtain l1 g where l1: "followup_loop l (q2, w2) = Some (l1, (q', v), g)" "l' = (n, s\<lparr>sv_complete := \<not> ?r \<and> \<not> ?a\<rparr>) # l1"
    using Cons.prems c n 1 2 by (auto simp: bind_eq_Some_conv Let_def split: if_splits)
  have ok: "service_ok w2 = service_ok w" by (rule service_ok_hosts) (use q in simp)
  have "service_ok w (s\<lparr>sv_complete := \<not> ?r \<and> \<not> ?a\<rparr>)" if "service_ok w s"
    using that n(2) q by (auto simp: service_ok_def has_addr_def)
  note e = this
  have mk: "marked w2 = marked w" by (rule marked_hosts) (use q in simp)
  have w1: "d_hosts w1 = d_hosts w" using 1 by (auto simp: dnssd_question_def bind_eq_Some_conv Let_def get_question_def split: if_splits)
  have me: "(n, s\<lparr>sv_complete := \<not> ?r \<and> \<not> ?a\<rparr>) = marked w c" using n(2) c w1 by (simp add: marked_def)
  note ih = Cons.IH [OF l1(1), unfolded ok mk]
  show ?case
  proof (intro conjI impI)
    show "\<forall>c \<in> set (c # l). sv_host (snd c) \<noteq> None" using ih n(2) c by simp
    assume "\<forall>c \<in> set (c # l). fst c \<noteq> None \<and> service_ok w (snd c)"
    then have "service_ok w s" "\<forall>c \<in> set l. fst c \<noteq> None \<and> service_ok w (snd c)" using c by simp_all
    then show "\<forall>c \<in> set l'. fst c \<noteq> None \<and> service_ok w (snd c)" unfolding l1(2) using e ih n(1) by simp
  qed (use ih q l1(2) c me in simp_all)
qed auto

lemma named_names_fst: "map fst l = map fst m \<Longrightarrow> named_names l = named_names m"
proof (induction l arbitrary: m)
  case (Cons c l)
  then obtain d k where m: "m = d # k" "fst d = fst c" by (cases m) auto
  then show ?case using Cons by (cases "fst c"; cases c; cases d) auto
qed simp

lemma dnssd_followup_fine:
  assumes "dnssd_followup w = Some (v, p)"
  shows "fine w v"
proof -
  obtain l q u f where l: "followup_loop (d_services w) (dnssd_query 1500, w) = Some (l, (q, u), f)" "v = u\<lparr>d_services := l\<rparr>"
    using assms by (auto simp: dnssd_followup_def bind_eq_Some_conv)
  note ok = followup_loop_ok [OF l(1)]
  have n: "named_names (d_services v) = named_names (d_services w)"
    using ok l(2) named_names_fst [of l "d_services w"] by (simp add: marked_def comp_def)
  have h: "d_hosts v = d_hosts w" using ok l(2) by simp
  have e: "service_ok v = service_ok w" by (rule service_ok_hosts) (rule h)
  have "dns_ok v" if "dns_ok w"
    unfolding dns_ok_def e n h using that ok l(2) by (simp add: dns_ok_def)
  moreover have "kept (the_service m w) (the_service m v)" if "find_by_name (d_services w) m \<noteq> []" for m
  proof -
    have "the_service m v = snd (marked w (hd (find_by_name (d_services w) m)))"
      using ok l(2) that by (simp add: the_service_def find_by_name_marked hd_map)
    then show ?thesis by (simp add: the_service_def marked_def kept_def)
  qed
  then have "grows w v" by (simp add: grows_def has_addr_def find_by_name_eq_Nil n h)
  ultimately show ?thesis by (simp add: fine_def)
qed

lemma dnssd_followup_marks: "dnssd_followup u = Some (v, p) \<Longrightarrow> d_services v = map (marked u) (d_services u)"
  using followup_loop_ok by (fastforce simp: dnssd_followup_def bind_eq_Some_conv)

text \<open>A complete service is complete again: what makes it so is kept.\<close>

lemma complete_kept:
  assumes "dns_ok w" "grows w u" "find_by_name (d_services w) n \<noteq> []" "sv_complete (the_service n w)"
  shows "sv_complete (snd (marked u (Some n, the_service n u)))"
proof -
  have "(Some n, the_service n w) \<in> set (d_services w)" using find_by_name_mem [OF assms(3)] by (simp add: the_service_def)
  then have s: "service_ok w (the_service n w)" using assms(1) unfolding dns_ok_def by fastforce
  then obtain h where h: "sv_host (the_service n w) = Some h" "has_addr w h" "sv_txt_found (the_service n w)" "sv_srv_found (the_service n w)"
    using assms(4) by (auto simp: service_ok_def)
  have "kept (the_service n w) (the_service n u)" "has_addr u h" using assms(2,3) h(2) by (auto simp: grows_def)
  then show ?thesis using h by (simp add: marked_def kept_def has_addr_def)
qed

text \<open>C33: Whenever the datagrams of a port are processed (a PTR record can make the client read through NULL,
  \<open>dnssd_packet_null_section\<close>), the names of hosts, services and questions stay distinct, each service that was found
  has a host in the table, and each complete service has a TXT record and a host with an address. Nothing that was
  known is lost: hosts and that they have an address, services with their host, the records found for them and that
  they were seen; a complete service stays complete.\<close>
theorem dnssd_receive_ok:
  assumes "dnssd_receive pks w = Some (v, p)" "dns_ok w"
  shows "dns_ok v \<and> grows w v \<and>
    (\<forall>n. find_by_name (d_services w) n \<noteq> [] \<and> sv_complete (the_service n w) \<longrightarrow> sv_complete (the_service n v))"
proof -
  obtain u where u: "fold_opt (\<lambda>w pk. dnssd_packet pk w) pks w = Some u" "dnssd_followup u = Some (v, p)"
    using assms(1) by (auto simp: dnssd_receive_def bind_eq_Some_conv)
  have f: "fine w u" "fine u v" using u packets_fine dnssd_followup_fine by blast+
  then have "fine w v" by (rule fine_trans)
  moreover have "sv_complete (the_service n v)" if n: "find_by_name (d_services w) n \<noteq> []" "sv_complete (the_service n w)" for n
  proof -
    have g: "grows w u" using f(1) by (simp add: fine_def)
    have m: "find_by_name (d_services u) n \<noteq> []" using g n(1) by (simp add: grows_def)
    have "the_service n v = snd (marked u (hd (find_by_name (d_services u) n)))"
      using m by (simp add: the_service_def dnssd_followup_marks [OF u(2)] find_by_name_marked hd_map)
    then show ?thesis using complete_kept [OF assms(2) g n] by (simp add: marked_def the_service_def)
  qed
  ultimately show ?thesis using assms(2) by (simp add: fine_def)
qed

text \<open>A response with a service, its host and its TXT record.\<close>

lemma chr_0: "chr 0 = CHR 0x00"
  by code_simp

definition example_dns :: dns where
  "example_dns = \<lparr>d_hosts = [], d_services = [], d_questions = [(Some [CHR 0x01, CHR ''q''], ())], d_if_index = 0\<rparr>"

definition example_response :: string where
  "example_response = [CHR 0x00, CHR 0x00, CHR 0x84, CHR 0x00, CHR 0x00, CHR 0x00, CHR 0x00, CHR 0x01, CHR 0x00, CHR 0x00, CHR 0x00, CHR 0x03,
     CHR 0x01, CHR ''q'', CHR 0x00, CHR 0x00, CHR 0x0C, CHR 0x00, CHR 0x01, CHR 0x00, CHR 0x00, CHR 0x00, CHR 0x78, CHR 0x00, CHR 0x03,
     CHR 0x01, CHR ''i'', CHR 0x00,
     CHR 0xC0, CHR 0x19, CHR 0x00, CHR 0x21, CHR 0x00, CHR 0x01, CHR 0x00, CHR 0x00, CHR 0x00, CHR 0x78, CHR 0x00, CHR 0x09,
     CHR 0x00, CHR 0x00, CHR 0x00, CHR 0x00, CHR 0x01, CHR 0xBB, CHR 0x01, CHR ''h'', CHR 0x00,
     CHR 0xC0, CHR 0x19, CHR 0x00, CHR 0x10, CHR 0x00, CHR 0x01, CHR 0x00, CHR 0x00, CHR 0x00, CHR 0x78, CHR 0x00, CHR 0x04,
     CHR 0x03, CHR ''p'', CHR ''='', CHR ''/'',
     CHR 0xC0, CHR 0x2E, CHR 0x00, CHR 0x01, CHR 0x00, CHR 0x01, CHR 0x00, CHR 0x00, CHR 0x00, CHR 0x78, CHR 0x00, CHR 0x04,
     CHR 0x0A, CHR 0x00, CHR 0x00, CHR 0x01]"

lemmas record_reading = dns_name_def dns_name_loop.simps truncated_def byte_at_def word_at_def long_at_def parse_rr_def rr_rdlength_def rr_next_def rr_type_def rr_ttl_def dns_header_def chr_0

lemma example_header: "dns_header example_response 0 = Some (Some (\<lparr>h_id = 0, h_flags = 0x8400, h_qdcount = 0, h_ancount = 1, h_nscount = 0, h_arcount = 3\<rparr>, 12))"
  by (simp add: record_reading example_response_def)

lemma example_records:
  "parse_rr example_response 12 = Some (Some ([CHR 0x01, CHR ''q''], 3, 15))"
  "parse_rr example_response 28 = Some (Some ([CHR 0x01, CHR ''i''], 9, 30))"
  "parse_rr example_response 49 = Some (Some ([CHR 0x01, CHR ''i''], 4, 51))"
  "parse_rr example_response 65 = Some (Some ([CHR 0x01, CHR ''h''], 4, 67))"
  "parse_rr example_response 81 = Some None"
  "dns_name example_response 46 = Some (Some ([CHR 0x01, CHR ''h''], 49))"
  "dns_name example_response 25 = Some (Some ([CHR 0x01, CHR ''i''], 28))"
  by (simp_all add: record_reading example_response_def)

lemma example_fields:
  "rr_type example_response 15 = Some 12" "rr_type example_response 30 = Some 33" "rr_type example_response 51 = Some 16" "rr_type example_response 67 = Some 1"
  "rr_ttl example_response 30 = Some 120" "word_at example_response 44 = Some 443" "long_at example_response 77 = Some 0x0A000001"
  by (simp_all add: record_reading example_response_def)

lemma example_txt: "txt_valid example_response 61 4 = Some True" "take 4 (drop 61 example_response) = [CHR 0x03, CHR ''p'', CHR ''='', CHR ''/'']"
  by (simp_all add: txt_valid_def txt_loop.simps example_response_def cv_def)

definition example_service :: service where
  "example_service = \<lparr>sv_query = [CHR 0x01, CHR ''q''], sv_port = 443, sv_ttl = 120, sv_txt_found = True, sv_srv_found = True,
     sv_complete = False, sv_seen = False, sv_host = Some [CHR 0x01, CHR ''h''], sv_txt = Some [CHR 0x03, CHR ''p'', CHR ''='', CHR ''/'']\<rparr>"

lemma example_found:
  "dnssd_packet example_response example_dns =
     Some (example_dns\<lparr>d_hosts := [(Some [CHR 0x01, CHR ''h''], \<lparr>dh_addr = Some (ipv4_address 0x0A000001 0)\<rparr>)],
       d_services := [(Some [CHR 0x01, CHR ''i''], example_service)]\<rparr>)"
  using example_header example_records example_fields example_txt
  by (simp add: dnssd_packet_def process_answers_def process_record_def PTR_RECORD_def SRV_RECORD_def TXT_RECORD_def A_RECORD_def AAAA_RECORD_def
     dns_ptr_def dns_find_def find_rr.simps dns_srv_def dns_txt_def srv_address_def srv_host_def host_a_def rr_next_def example_dns_def c_str_def chr_0
     get_service_def get_host_def get_by_name_def upd_service_def set_addr_def the_service_def new_service_def Let_def example_service_def)

lemma example_followup:
  "dnssd_receive [example_response] example_dns =
     Some (example_dns\<lparr>d_hosts := [(Some [CHR 0x01, CHR ''h''], \<lparr>dh_addr = Some (ipv4_address 0x0A000001 0)\<rparr>)],
       d_services := [(Some [CHR 0x01, CHR ''i''], example_service\<lparr>sv_complete := True\<rparr>)]\<rparr>, None)"
  using example_found by (simp add: dnssd_receive_def dnssd_followup_def example_service_def)

theorem dnssd_receive_ok_witness:
  "\<exists>v. dnssd_receive [example_response] example_dns = Some (v, None) \<and> dns_ok v \<and> snd (service_next (d_services v)) = Some 0"
proof -
  have "dns_ok example_dns" by (simp add: dns_ok_def example_dns_def)
  from dnssd_receive_ok [OF example_followup this] show ?thesis using example_followup by (simp add: example_service_def)
qed

theorem txt_value_reads_witness:
  "txt_value 64 (Some (wire [''path=/dcap'', ''https''])) ''path'' = Some (Some ''/dcap'')"
proof -
  have "list_all (entry_ok 64) [(''path'', Some ''/dcap''), (''https'', None)]"
    by (simp add: entry_ok_def txt_entry_def chr_0)
  from txt_value_reads [OF this, of "''path''"] show ?thesis by (simp add: txt_entry_def first_value_def)
qed

subsection \<open>Responses that crash the client\<close>

text \<open>
  When the records behind the first do not parse, \<open>ar_section\<close> is NULL, and the answer to a question
  makes \<open>dns_find\<close> dereference it.
\<close>
theorem dnssd_packet_null_section:
  assumes "dns_header pk 0 = Some (Some (h, i))" "(of_nat (h_flags h) :: u16) AND 0xf80f = 0x8000" "0 < h_ancount h"
    and "skip_questions pk i (h_qdcount h) = Some (Some j)" "skip_section pk j (h_ancount h + h_nscount h) = Some None"
    and "parse_rr pk j = Some (Some (name, n, d))" "rr_type pk d = Some PTR_RECORD"
    and "find_by_name (d_questions w) (c_str name) \<noteq> []" "dns_name pk (d + 10) = Some (Some instance)"
  shows "dnssd_packet pk w = None"
proof -
  obtain s m where s: "instance = (s, m)" by (cases "instance")
  have "dns_ptr pk None name d w = None" using assms(8,9) s by (simp add: dns_ptr_def dns_find_def Let_def)
  then have "process_record pk None name n d w = None" using assms(7) by (simp add: process_record_def Let_def)
  then show ?thesis using assms by (simp add: dnssd_packet_def process_answers_def)
qed

definition example_short :: "char \<Rightarrow> string" where
  "example_short an = [CHR 0x00, CHR 0x00, CHR 0x84, CHR 0x00, CHR 0x00, CHR 0x00, CHR 0x00, an, CHR 0x00, CHR 0x00, CHR 0x00, CHR 0x00,
     CHR 0x01, CHR ''q'', CHR 0x00, CHR 0x00, CHR 0x0C, CHR 0x00, CHR 0x01, CHR 0x00, CHR 0x00, CHR 0x00, CHR 0x78, CHR 0x00, CHR 0x03,
     CHR 0x01, CHR ''i'', CHR 0x00]"

lemma example_short_reads:
  "parse_rr (example_short an) 12 = Some (Some ([CHR 0x01, CHR ''q''], 3, 15))" "parse_rr (example_short an) 28 = Some None"
  "rr_type (example_short an) 15 = Some 12" "dns_name (example_short an) 25 = Some (Some ([CHR 0x01, CHR ''i''], 28))"
  by (simp_all add: record_reading example_short_def)

theorem dnssd_packet_null_section_witness: "dnssd_packet (example_short CHR 0x02) example_dns = None"
proof -
  have h: "dns_header (example_short CHR 0x02) 0 =
      Some (Some (\<lparr>h_id = 0, h_flags = 0x8400, h_qdcount = 0, h_ancount = 2, h_nscount = 0, h_arcount = 0\<rparr>, 12))"
    by (simp add: record_reading example_short_def)
  have "skip_section (example_short CHR 0x02) 12 2 = Some None" using example_short_reads by (simp add: numeral_2_eq_2 rr_next_def)
  then show ?thesis
    using dnssd_packet_null_section [OF h, of 12 "[CHR 0x01, CHR ''q'']" 3 15 example_dns "([CHR 0x01, CHR ''i''], 28)"] example_short_reads
    by (simp add: PTR_RECORD_def example_dns_def c_str_def chr_0)
qed

text \<open>
  A service that was found without its SRV record has no host, and the follow-up dereferences it: one
  PTR record that answers a question is enough.
\<close>
theorem dnssd_followup_needs_hosts:
  assumes "\<exists>c \<in> set (d_services w). sv_host (snd c) = None"
  shows "dnssd_followup w = None"
proof (cases "dnssd_followup w")
  case (Some r)
  then obtain l q v f where "followup_loop (d_services w) (dnssd_query 1500, w) = Some (l, (q, v), f)"
    by (auto simp: dnssd_followup_def bind_eq_Some_conv)
  then show ?thesis using followup_loop_ok assms by blast
qed simp

theorem dnssd_followup_needs_hosts_witness: "dnssd_receive [example_short CHR 0x01] example_dns = None"
proof -
  have h: "dns_header (example_short CHR 0x01) 0 =
      Some (Some (\<lparr>h_id = 0, h_flags = 0x8400, h_qdcount = 0, h_ancount = 1, h_nscount = 0, h_arcount = 0\<rparr>, 12))"
    by (simp add: record_reading example_short_def)
  let ?v = "example_dns\<lparr>d_services := [(Some [CHR 0x01, CHR ''i''], new_service\<lparr>sv_query := [CHR 0x01, CHR ''q'']\<rparr>)]\<rparr>"
  have "dnssd_packet (example_short CHR 0x01) example_dns = Some ?v"
    using h example_short_reads
    by (simp add: dnssd_packet_def process_answers_def process_record_def PTR_RECORD_def dns_ptr_def dns_find_def find_rr.simps rr_next_def
       example_dns_def c_str_def chr_0 get_service_def get_by_name_def upd_service_def Let_def)
  then show ?thesis using dnssd_followup_needs_hosts [of ?v] by (simp add: dnssd_receive_def new_service_def)
qed

subsection \<open>The questions of a query are read back\<close>

text \<open>The names that \<open>skip_questions\<close> passes.\<close>

fun question_names :: "string \<Rightarrow> nat \<Rightarrow> nat \<Rightarrow> string list option" where
  "question_names pk i 0 = Some []"
| "question_names pk i (Suc c) =
     (case dns_name pk i of Some (Some (name, d)) \<Rightarrow> map_option (Cons name) (question_names pk (d + 4) c) | _ \<Rightarrow> None)"

fun questions_at :: "string \<Rightarrow> nat \<Rightarrow> string list list \<Rightarrow> nat \<Rightarrow> bool" where
  "questions_at pk i [] j \<longleftrightarrow> i = j"
| "questions_at pk i (ls # lss) j \<longleftrightarrow> (\<exists>k. name_at pk 12 False i (wire ls) k \<and> questions_at pk (k + 4) lss j)"

lemma questions_at_snoc:
  "questions_at pk i (lss @ [ls]) j \<longleftrightarrow> (\<exists>k m. questions_at pk i lss k \<and> name_at pk 12 False k (wire ls) m \<and> j = m + 4)"
  by (induction lss arbitrary: i) auto

lemma questions_at_mono: "questions_at pk i lss j \<Longrightarrow> questions_at (pk @ r) i lss j"
proof (induction lss arbitrary: i)
  case (Cons ls lss)
  then show ?case using name_at_mono by fastforce
qed simp

lemma questions_at_cong:
  "questions_at pk i lss j \<Longrightarrow> length pk = length pk' \<Longrightarrow> (\<And>j. 12 \<le> j \<Longrightarrow> pk ! j = pk' ! j) \<Longrightarrow> questions_at pk' i lss j"
proof (induction lss arbitrary: i)
  case (Cons ls lss)
  then show ?case using name_at_cong [of pk 12 _ _ _ _ pk'] by fastforce
qed simp

lemma name_at_lower: "name_at pk lo b i s k \<Longrightarrow> name_at pk 0 b i s k"
proof (induction rule: name_at.induct)
  case (name_end i b)
  then show ?case using name_at.name_end [of 0 i pk b] by simp
next
  case (name_label i n name k b)
  then show ?case using name_at.name_label [of 0 i pk n name k b] by simp
next
  case (name_pointer i j name k)
  then show ?case using name_at.name_pointer [of 0 i pk j name k] by simp
qed

lemma questions_at_read:
  "questions_at pk i lss j \<Longrightarrow> list_all (\<lambda>ls. length (wire ls) \<le> 254) lss \<Longrightarrow> question_names pk i (length lss) = Some (map wire lss)"
proof (induction lss arbitrary: i)
  case (Cons ls lss)
  then obtain k where "name_at pk 12 False i (wire ls) k" "questions_at pk (k + 4) lss j" by auto
  moreover from this(1) have "dns_name pk i = Some (Some (wire ls, k))"
    using name_at_lower Cons.prems(2) by (auto simp: dns_name_name_at)
  ultimately show ?case using Cons by simp
qed simp

lemma written_cong:
  assumes "written pk lo S p" "length pk = length pk'" "\<And>j. lo \<le> j \<Longrightarrow> pk ! j = pk' ! j"
  shows "written pk' lo S p"
proof -
  obtain l r k where w: "lo \<le> p" "p < 0x4000" "l # r \<in> S" "label_at pk p l" "name_at pk lo True p (wire (l # r)) k"
    using assms(1) by (auto simp: written_def)
  have "drop p pk = drop p pk'"
  proof (rule nth_equalityI)
    fix i assume "i < length (drop p pk)"
    then show "drop p pk ! i = drop p pk' ! i" using assms(2,3) w(1) by simp
  qed (use assms(2) in simp)
  then have "label_at pk' p l" using w(4) assms(2) by (simp add: label_at_def)
  then show ?thesis using w name_at_cong [OF w(5) assms(2,3)] by (auto simp: written_def)
qed

text \<open>Each name agrees with those before it.\<close>

fun agree_all :: "string list set \<Rightarrow> string list list \<Rightarrow> bool" where
  "agree_all S [] \<longleftrightarrow> True"
| "agree_all S (ls # lss) \<longleftrightarrow> agree S ls \<and> agree_all (S \<union> suffixes_of ls) lss"

definition query_ok :: "string list set \<Rightarrow> string list list \<Rightarrow> query \<Rightarrow> bool" where
  "query_ok S lss q \<longleftrightarrow> 12 \<le> length (qy_out q) \<and> (\<forall>p \<in> set (qy_names q). written (qy_out q) 12 S p) \<and>
     questions_at (qy_out q) 12 lss (length (qy_out q)) \<and> qy_count q = length lss \<and> word_at (qy_out q) 4 = Some (length lss mod 65536)"

lemma updated_bytes: "5 < length xs \<Longrightarrow> xs[4 := a, 5 := b] ! 4 = a \<and> xs[4 := a, 5 := b] ! 5 = b"
  by simp

lemma dnssd_question_ok:
  assumes "dnssd_question (wire ls) type u (q, w) = Some (q', w')" "query_ok S lss q" "agree S ls" "qy_cap q \<le> 0x4000"
  shows "query_ok (S \<union> suffixes_of ls) (lss @ [ls]) q' \<and> qy_cap q' = qy_cap q"
proof -
  obtain p names where e: "encode_name (qy_out q) (wire ls) (qy_names q) = Some (p, names)"
    using assms(1) by (auto simp: dnssd_question_def bind_eq_Some_conv)
  let ?t = "pack16_chars type @ pack16_chars ((if u then 0x8000 else 0) + 1)"
  let ?c = "pack16_chars (qy_count q + 1)"
  let ?o = "(p @ ?t)[4 := ?c ! 0, 5 := ?c ! 1]"
  have q': "qy_out q' = ?o" "qy_names q' = names" "qy_count q' = qy_count q + 1" "qy_cap q' = qy_cap q" "length (p @ ?t) \<le> qy_cap q"
    using assms(1) e by (auto simp: dnssd_question_def Let_def split: if_splits)
  have ok: "12 \<le> length (qy_out q)" "\<forall>p \<in> set (qy_names q). written (qy_out q) 12 S p" "questions_at (qy_out q) 12 lss (length (qy_out q))"
    "qy_count q = length lss" using assms(2) by (simp_all add: query_ok_def)
  obtain r more where r: "p = qy_out q @ r" "name_at p 12 False (length (qy_out q)) (wire ls) (length p)" "names = qy_names q @ more"
    "length p \<le> 0x4000 \<longrightarrow> (\<forall>k \<in> set more. written p 12 (suffixes_of ls) k)"
    using encode_name_reads [of "qy_out q" ls "qy_names q" "[]" p names S 12] e assms(3) ok by auto
  have l: "length p \<le> 0x4000" using q'(5) assms(4) by simp
  have same: "length (p @ ?t) = length ?o" "\<And>j. 12 \<le> j \<Longrightarrow> (p @ ?t) ! j = ?o ! j" by simp_all
  have "written p 12 (S \<union> suffixes_of ls) k" if "k \<in> set names" for k
  proof -
    have "k \<in> set (qy_names q) \<or> k \<in> set more" using that r(3) by auto
    then show ?thesis
    proof
      assume "k \<in> set (qy_names q)"
      then have "written (qy_out q) 12 S k" using ok(2) by blast
      then show ?thesis unfolding r(1) by (rule written_mono) simp
    next
      assume "k \<in> set more"
      then have "written p 12 (suffixes_of ls) k" using r(4) l by blast
      from written_mono [OF this, of "S \<union> suffixes_of ls" "[]"] show ?thesis by simp
    qed
  qed
  then have "\<forall>k \<in> set names. written ?o 12 (S \<union> suffixes_of ls) k"
    using written_mono [of p 12 _ _ _ ?t] written_cong [OF _ same] by blast
  moreover have "questions_at ?o 12 (lss @ [ls]) (length ?o)"
  proof (rule questions_at_cong [OF _ same])
    have "questions_at (p @ ?t) 12 lss (length (qy_out q))" using questions_at_mono [OF ok(3), of "r @ ?t"] r(1) by simp
    moreover have "name_at (p @ ?t) 12 False (length (qy_out q)) (wire ls) (length p)" by (rule name_at_mono [OF r(2)])
    ultimately show "questions_at (p @ ?t) 12 (lss @ [ls]) (length ?o)" by (fastforce simp: questions_at_snoc)
  qed
  moreover have "word_at ?o 4 = Some (length (lss @ [ls]) mod 65536)"
  proof -
    have "5 < length (p @ ?t)" using ok(1) r(1) by simp
    then have "?o ! 4 = ?c ! 0" "?o ! 5 = ?c ! 1" "5 < length ?o" using updated_bytes [of "p @ ?t" "?c ! 0" "?c ! 1"] by (simp_all only: length_list_update)
    moreover have "256 * (n div 256 mod 256) + n mod 256 = n mod 65536" for n :: nat
      using mod_mult2_eq [of n 256 256] by simp
    ultimately show ?thesis using ok(4) by (simp add: word_at_some pack16_chars_def chr_def)
  qed
  ultimately show ?thesis using q' ok r(1) by (simp add: query_ok_def)
qed

text \<open>
  A query with several questions: each name is read back from the packet, in order, and the header
  has their number.
\<close>
theorem query_round_trip:
  assumes "fold_opt (\<lambda>s ls. dnssd_question (wire ls) type u s) lss (dnssd_query cap, w) = Some (q, w')"
    and "agree_all {} lss" "cap \<le> 0x4000" "list_all (\<lambda>ls. length (wire ls) \<le> 254) lss"
  shows "question_names (qy_out q) 12 (length lss) = Some (map wire lss) \<and> word_at (qy_out q) 4 = Some (length lss mod 65536)"
proof -
  have "query_ok {} [] (dnssd_query cap)"
    by (simp add: query_ok_def dnssd_query_def word_at_some chr_def)
  moreover have "query_ok (S \<union> \<Union> (suffixes_of ` set lss)) (old @ lss) q'"
    if "fold_opt (\<lambda>s ls. dnssd_question (wire ls) type u s) lss (q, w) = Some (q', w')" "query_ok S old q" "agree_all S lss" "qy_cap q \<le> 0x4000"
    for S old q q' w w' lss
    using that
  proof (induction lss arbitrary: S old q w)
    case (Cons ls lss)
    then obtain q1 w1 where q1: "dnssd_question (wire ls) type u (q, w) = Some (q1, w1)"
      "fold_opt (\<lambda>s ls. dnssd_question (wire ls) type u s) lss (q1, w1) = Some (q', w')" by (auto simp: bind_eq_Some_conv)
    have ok: "query_ok (S \<union> suffixes_of ls) (old @ [ls]) q1 \<and> qy_cap q1 = qy_cap q"
      using dnssd_question_ok [OF q1(1)] Cons.prems by auto
    from Cons.IH [OF q1(2), of "S \<union> suffixes_of ls" "old @ [ls]"] ok Cons.prems show ?case by (simp add: Un_assoc)
  qed simp
  ultimately have "query_ok (\<Union> (suffixes_of ` set lss)) lss q"
    using assms by (fastforce simp: dnssd_query_def)
  then show ?thesis using questions_at_read assms(4) by (auto simp: query_ok_def)
qed

end
