(* ===== verification/Linked_List.thy ===== *)
theory Linked_List
  imports Prelude
begin

section \<open>Linked lists on the heap (core/list.c)\<close>

text \<open>
  The \<open>List\<close> structure (\<open>next\<close>, \<open>data\<close>) in a heap of cells. A function of the source
  takes the heap and returns the new one; every dereference of \<open>NULL\<close> or of a cell that
  is not allocated, and every \<open>free\<close> of such a cell, is \<open>None\<close>. Loops are
  \<open>partial_function (option)\<close>, so a loop that does not end is \<open>None\<close> as well: each
  theorem of the form "the operation is \<open>Some\<close>" states memory safety and termination.
  \<open>lseg\<close> and \<open>is_list\<close> relate a pointer to the list of cells it reaches.

  The insertion into a sorted list is also given on HOL lists (\<open>insert_by\<close>); the event
  queue and the schedule use that form, which \<open>insert_sorted_refines\<close> justifies.
\<close>

subsection \<open>The heap\<close>

type_synonym addr = nat

record node =
  nx :: addr
  da :: addr

record mem =
  cells :: "addr \<Rightarrow> node option"
  brk :: addr

definition rd :: "mem \<Rightarrow> addr \<Rightarrow> node option" where
  "rd m p = (if p = 0 then None else cells m p)"

definition set_next :: "mem \<Rightarrow> addr \<Rightarrow> addr \<Rightarrow> mem option" where
  "set_next m p q =
     (case rd m p of None \<Rightarrow> None | Some n \<Rightarrow> Some (m\<lparr>cells := (cells m)(p \<mapsto> n\<lparr>nx := q\<rparr>)\<rparr>))"

definition malloc :: "mem \<Rightarrow> node \<Rightarrow> mem \<times> addr" where
  "malloc m n = (m\<lparr>cells := (cells m)(brk m \<mapsto> n), brk := Suc (brk m)\<rparr>, brk m)"

definition free :: "mem \<Rightarrow> addr \<Rightarrow> mem option" where
  "free m p = (case rd m p of None \<Rightarrow> None | Some n \<Rightarrow> Some (m\<lparr>cells := (cells m)(p := None)\<rparr>))"

text \<open>The allocator never hands out a cell in use, and never \<open>NULL\<close>.\<close>

definition mem_ok :: "mem \<Rightarrow> bool" where
  "mem_ok m \<longleftrightarrow> 0 < brk m \<and> (\<forall>a. brk m \<le> a \<longrightarrow> cells m a = None)"

subsection \<open>Operations of list.c\<close>

partial_function (option) free_list :: "mem \<Rightarrow> addr \<Rightarrow> mem option" where
  "free_list m l =
     (if l = 0 then Some m
      else do { c \<leftarrow> rd m l; m \<leftarrow> free m l; free_list m (nx c) })"

definition list_insert :: "mem \<Rightarrow> addr \<Rightarrow> addr \<Rightarrow> mem \<times> addr" where
  "list_insert m l data = malloc m \<lparr>nx = l, da = data\<rparr>"

partial_function (option) list_length_loop :: "mem \<Rightarrow> addr \<Rightarrow> int \<Rightarrow> int option" where
  "list_length_loop m list len =
     (if list = 0 then Some len
      else do { c \<leftarrow> rd m list; list_length_loop m (nx c) (len + 1) })"

definition list_length :: "mem \<Rightarrow> addr \<Rightarrow> int option" where
  "list_length m l = list_length_loop m l 0"

text \<open>\<open>_find_by_data\<close> returns the item and, through its first argument, the one before.\<close>

partial_function (option) find_by_data_prev ::
    "mem \<Rightarrow> addr \<Rightarrow> addr \<Rightarrow> addr \<Rightarrow> (addr \<times> addr) option" where
  "find_by_data_prev m prev l data =
     (if l = 0 then Some (prev, 0)
      else do { c \<leftarrow> rd m l;
                if da c = data then Some (prev, l) else find_by_data_prev m l (nx c) data })"

definition find_by_data :: "mem \<Rightarrow> addr \<Rightarrow> addr \<Rightarrow> addr option" where
  "find_by_data m list data = do { (prev, l) \<leftarrow> find_by_data_prev m 0 list data; Some l }"

definition insert_unique :: "mem \<Rightarrow> addr \<Rightarrow> addr \<Rightarrow> (mem \<times> addr) option" where
  "insert_unique m l data =
     do { (prev, d) \<leftarrow> find_by_data_prev m 0 l data;
          if d \<noteq> 0 then Some (m, l) else Some (list_insert m l data) }"

definition list_delete :: "mem \<Rightarrow> addr \<Rightarrow> addr \<Rightarrow> (mem \<times> addr) option" where
  "list_delete m l data =
     do { (prev, d) \<leftarrow> find_by_data_prev m 0 l data;
          if d \<noteq> 0 then do {
            c \<leftarrow> rd m d;
            (m, l) \<leftarrow> (if prev \<noteq> 0 then do { m \<leftarrow> set_next m prev (nx c); Some (m, l) }
                      else Some (m, nx c));
            m \<leftarrow> free m d;
            Some (m, l) }
          else Some (m, l) }"

partial_function (option) list_subtract :: "mem \<Rightarrow> addr \<Rightarrow> addr \<Rightarrow> (mem \<times> addr) option" where
  "list_subtract m la b =
     (if b = 0 then Some (m, la)
      else do { c \<leftarrow> rd m b;
                (m, la) \<leftarrow> list_delete m la (da c);
                c \<leftarrow> rd m b;
                list_subtract m la (nx c) })"

text \<open>
  In \<open>list_intersect\<close> and \<open>list_remove\<close> the variable \<open>prev\<close> starts as the address of the
  head pointer: here that is \<open>prev = 0\<close>, and storing its \<open>next\<close> changes the head.
\<close>

definition set_prev_next :: "mem \<Rightarrow> addr \<Rightarrow> addr \<Rightarrow> addr \<Rightarrow> (mem \<times> addr) option" where
  "set_prev_next m head prev q =
     (if prev = 0 then Some (m, q) else do { m \<leftarrow> set_next m prev q; Some (m, head) })"

partial_function (option) list_intersect_loop ::
    "mem \<Rightarrow> addr \<Rightarrow> addr \<Rightarrow> addr \<Rightarrow> addr \<Rightarrow> (mem \<times> addr) option" where
  "list_intersect_loop m la lb prev a =
     (if a = 0 then Some (m, la)
      else do {
        c \<leftarrow> rd m a;
        f \<leftarrow> find_by_data m lb (da c);
        if f = 0 then do {
          (m, la) \<leftarrow> set_prev_next m la prev (nx c);
          m \<leftarrow> free m a;
          list_intersect_loop m la lb prev (nx c) }
        else list_intersect_loop m la lb prev (nx c) })"

definition list_intersect :: "mem \<Rightarrow> addr \<Rightarrow> addr \<Rightarrow> (mem \<times> addr) option" where
  "list_intersect m la lb = list_intersect_loop m la lb 0 la"

partial_function (option) list_union :: "mem \<Rightarrow> addr \<Rightarrow> addr \<Rightarrow> (mem \<times> addr) option" where
  "list_union m la b =
     (if b = 0 then Some (m, la)
      else do { c \<leftarrow> rd m b;
                (m, la) \<leftarrow> insert_unique m la (da c);
                list_union m la (nx c) })"

partial_function (option) list_remove_loop ::
    "mem \<Rightarrow> addr \<Rightarrow> addr \<Rightarrow> addr \<Rightarrow> addr \<Rightarrow> (mem \<times> addr) option" where
  "list_remove_loop m list link prev l =
     (if l = 0 then Some (m, list)
      else do {
        c \<leftarrow> rd m l;
        if l = link then set_prev_next m list prev (nx c)
        else list_remove_loop m list link l (nx c) })"

definition list_remove :: "mem \<Rightarrow> addr \<Rightarrow> addr \<Rightarrow> (mem \<times> addr) option" where
  "list_remove m list link = list_remove_loop m list link 0 list"

text \<open>The comparison reads fields of the two items that the insertion does not change.\<close>

partial_function (option) insert_sorted_loop ::
    "mem \<Rightarrow> (addr \<Rightarrow> addr \<Rightarrow> int) \<Rightarrow> addr \<Rightarrow> addr \<Rightarrow> addr \<Rightarrow> (addr \<times> addr) option" where
  "insert_sorted_loop m cmp n prev l =
     (if l \<noteq> 0 \<and> cmp n l > 0
      then do { c \<leftarrow> rd m l; insert_sorted_loop m cmp n l (nx c) }
      else Some (prev, l))"

definition insert_sorted_prev ::
    "mem \<Rightarrow> addr \<Rightarrow> addr \<Rightarrow> addr \<Rightarrow> (addr \<Rightarrow> addr \<Rightarrow> int) \<Rightarrow> (mem \<times> addr \<times> addr) option" where
  "insert_sorted_prev m list item prev cmp =
     do { (prev, l) \<leftarrow> insert_sorted_loop m cmp item prev list;
          (m, list) \<leftarrow> (if prev \<noteq> 0 then do { m \<leftarrow> set_next m prev item; Some (m, list) }
                       else Some (m, item));
          m \<leftarrow> set_next m item l;
          Some (m, list, prev) }"

definition insert_sorted ::
    "mem \<Rightarrow> addr \<Rightarrow> addr \<Rightarrow> (addr \<Rightarrow> addr \<Rightarrow> int) \<Rightarrow> (mem \<times> addr) option" where
  "insert_sorted m list item cmp =
     do { (m, list, prev) \<leftarrow> insert_sorted_prev m list item 0 cmp; Some (m, list) }"

text \<open>The insertion on HOL lists.\<close>

fun insert_by :: "('a \<Rightarrow> 'a \<Rightarrow> int) \<Rightarrow> 'a \<Rightarrow> 'a list \<Rightarrow> 'a list" where
  "insert_by cmp x [] = [x]"
| "insert_by cmp x (y # ys) = (if cmp x y > 0 then y # insert_by cmp x ys else x # y # ys)"

subsection \<open>Segments\<close>

fun lseg :: "mem \<Rightarrow> addr \<Rightarrow> addr list \<Rightarrow> addr \<Rightarrow> bool" where
  "lseg m p [] q \<longleftrightarrow> p = q"
| "lseg m p (a # as) q \<longleftrightarrow>
     p = a \<and> (case rd m a of None \<Rightarrow> False | Some n \<Rightarrow> lseg m (nx n) as q)"

definition is_list :: "mem \<Rightarrow> addr \<Rightarrow> addr list \<Rightarrow> bool" where
  "is_list m p xs \<longleftrightarrow> lseg m p xs 0"

text \<open>What the \<open>data\<close> fields of the cells hold.\<close>

definition dat :: "mem \<Rightarrow> addr \<Rightarrow> addr" where
  "dat m a = (case cells m a of None \<Rightarrow> 0 | Some n \<Rightarrow> da n)"

definition datas :: "mem \<Rightarrow> addr list \<Rightarrow> addr list" where
  "datas m xs = map (dat m) xs"

text \<open>Only \<open>next\<close> fields of the cells of \<open>S\<close> changed.\<close>

definition relinked :: "addr set \<Rightarrow> mem \<Rightarrow> mem \<Rightarrow> bool" where
  "relinked S m m' \<longleftrightarrow> brk m' = brk m \<and> (\<forall>a. a \<notin> S \<longrightarrow> cells m' a = cells m a) \<and>
     (\<forall>a. map_option da (cells m' a) = map_option da (cells m a))"

lemma rd_0 [simp]: "rd m 0 = None"
  by (simp add: rd_def)

lemma lseg_Cons_iff: "lseg m p (a # as) q \<longleftrightarrow> p = a \<and> (\<exists>n. rd m a = Some n \<and> lseg m (nx n) as q)"
  by (simp split: option.splits)

declare lseg.simps(2) [simp del]
declare lseg_Cons_iff [simp]

lemma lseg_append [simp]: "lseg m p (as @ bs) q \<longleftrightarrow> (\<exists>r. lseg m p as r \<and> lseg m r bs q)"
  by (induction as arbitrary: p) auto

lemma lseg_cong: "(\<And>a. a \<in> set as \<Longrightarrow> cells m' a = cells m a) \<Longrightarrow> lseg m' p as q = lseg m p as q"
  by (induction as arbitrary: p) (auto simp: rd_def)

lemma lseg_alloc: "lseg m p as q \<Longrightarrow> a \<in> set as \<Longrightarrow> a \<noteq> 0 \<and> cells m a \<noteq> None"
  by (induction as arbitrary: p) (auto simp: rd_def split: if_splits)

lemma lseg_unique:
  "lseg m p as 0 \<Longrightarrow> lseg m p bs 0 \<Longrightarrow> as = bs"
proof (induction as arbitrary: p bs)
  case Nil
  then show ?case by (cases bs) auto
next
  case (Cons a as)
  then show ?case by (cases bs) auto
qed

lemma lseg_distinct: "lseg m p as 0 \<Longrightarrow> distinct as"
proof (induction as arbitrary: p)
  case (Cons a as)
  then obtain n where n: "rd m a = Some n" "lseg m (nx n) as 0" by auto
  have "a \<notin> set as"
  proof
    assume "a \<in> set as"
    then obtain ys zs where as: "as = ys @ a # zs"
      by (meson split_list)
    with n have "lseg m (nx n) zs 0" by auto
    with n(2) have "as = zs" by (rule lseg_unique)
    with as show False by simp
  qed
  with Cons n show ?case by auto
qed simp

text \<open>The first cell of a list, and the last one before a given pointer.\<close>

definition head_of :: "addr list \<Rightarrow> addr" where
  "head_of as = (case as of [] \<Rightarrow> 0 | a # _ \<Rightarrow> a)"

definition tail_from :: "addr \<Rightarrow> addr list \<Rightarrow> addr" where
  "tail_from p as = (if as = [] then p else last as)"

lemma head_of_simps [simp]: "head_of [] = 0" "head_of (a # as) = a"
  by (simp_all add: head_of_def)

lemma tail_from_simps [simp]: "tail_from p [] = p" "tail_from p (as @ [a]) = a"
  "tail_from p (a # as) = tail_from a as"
  by (simp_all add: tail_from_def)

lemma is_list_Nil [simp]: "is_list m p [] \<longleftrightarrow> p = 0"
  by (simp add: is_list_def)

lemma is_list_0 [simp]: "is_list m 0 xs \<longleftrightarrow> xs = []"
  by (cases xs) (auto simp: is_list_def)

lemma is_list_Cons [simp]:
  "is_list m p (a # as) \<longleftrightarrow> p = a \<and> (\<exists>n. rd m a = Some n \<and> is_list m (nx n) as)"
  by (simp add: is_list_def)

lemma is_list_append: "is_list m p (as @ bs) \<longleftrightarrow> (\<exists>r. lseg m p as r \<and> is_list m r bs)"
  by (simp add: is_list_def)

lemma is_list_cong: "(\<And>a. a \<in> set as \<Longrightarrow> cells m' a = cells m a) \<Longrightarrow> is_list m' p as = is_list m p as"
  unfolding is_list_def by (rule lseg_cong)

lemma is_list_distinct: "is_list m p as \<Longrightarrow> distinct as"
  by (simp add: is_list_def lseg_distinct)

lemma is_list_alloc: "is_list m p as \<Longrightarrow> a \<in> set as \<Longrightarrow> a \<noteq> 0 \<and> cells m a \<noteq> None"
  by (simp add: is_list_def lseg_alloc)

lemma is_list_not_0: "is_list m p as \<Longrightarrow> 0 \<notin> set as"
  using is_list_alloc by blast

lemma is_list_head: "is_list m p as \<Longrightarrow> p = head_of as"
  by (cases as) auto

text \<open>Every list of cells is either empty at \<open>NULL\<close> or starts with an allocated cell.\<close>

lemma is_list_cases:
  assumes "is_list m p as"
  obtains "p = 0" "as = []"
  | n bs where "p \<noteq> 0" "as = p # bs" "rd m p = Some n" "is_list m (nx n) bs"
proof (cases as)
  case Nil
  with assms that(1) show thesis by simp
next
  case (Cons a bs)
  with assms obtain n where n: "p = a" "rd m a = Some n" "is_list m (nx n) bs" by auto
  from n(2) have "a \<noteq> 0" by (metis rd_0 option.distinct(1))
  with n Cons that(2) show thesis by simp
qed

lemma rd_nonzero: "rd m a = Some n \<Longrightarrow> a \<noteq> 0 \<and> cells m a = Some n"
  by (auto simp: rd_def split: if_splits)

lemma relinked_refl [simp]: "relinked S m m"
  by (simp add: relinked_def)

lemma relinked_trans: "relinked S m m' \<Longrightarrow> relinked T m' m'' \<Longrightarrow> relinked (S \<union> T) m m''"
  by (simp add: relinked_def)

lemma relinked_mono: "relinked S m m' \<Longrightarrow> S \<subseteq> T \<Longrightarrow> relinked T m m'"
  by (auto simp: relinked_def)

lemma relinked_cells: "relinked S m m' \<Longrightarrow> a \<notin> S \<Longrightarrow> cells m' a = cells m a"
  by (simp add: relinked_def)

lemma relinked_is_list: "relinked S m m' \<Longrightarrow> set as \<inter> S = {} \<Longrightarrow> is_list m' p as = is_list m p as"
  by (rule is_list_cong) (auto simp: relinked_def)

lemma relinked_lseg: "relinked S m m' \<Longrightarrow> set as \<inter> S = {} \<Longrightarrow> lseg m' p as q = lseg m p as q"
  by (rule lseg_cong) (auto simp: relinked_def)

lemma relinked_rd:
  assumes "relinked S m m'" "rd m a = Some n"
  shows "\<exists>n'. rd m' a = Some n' \<and> da n' = da n"
proof -
  have "map_option da (cells m' a) = map_option da (cells m a)"
    using assms(1) by (simp add: relinked_def)
  with assms(2) show ?thesis
    by (cases "cells m' a") (auto simp: rd_def split: if_splits)
qed

lemma dat_rd: "rd m a = Some n \<Longrightarrow> da n = dat m a"
  by (auto simp: rd_def dat_def split: if_splits)

lemma relinked_dat: "relinked S m m' \<Longrightarrow> dat m' a = dat m a"
proof -
  assume "relinked S m m'"
  then have "map_option da (cells m' a) = map_option da (cells m a)"
    by (simp add: relinked_def)
  then show ?thesis by (cases "cells m' a"; cases "cells m a") (auto simp: dat_def)
qed

lemma datas_simps [simp]: "datas m [] = []" "datas m (a # as) = dat m a # datas m as"
  "datas m as = [] \<longleftrightarrow> as = []"
  by (simp_all add: datas_def)

lemma datas_cong: "(\<And>a. a \<in> set xs \<Longrightarrow> cells m' a = cells m a) \<Longrightarrow> datas m' xs = datas m xs"
  by (auto simp: datas_def dat_def)

lemma relinked_datas: "relinked S m m' \<Longrightarrow> datas m' xs = datas m xs"
  by (simp add: datas_def relinked_dat)

lemma set_next_Some:
  assumes "rd m a = Some n"
  obtains m' where "set_next m a q = Some m'" "relinked {a} m m'" "rd m' a = Some (n\<lparr>nx := q\<rparr>)"
  using assms
  by (auto simp: set_next_def rd_def relinked_def split: if_splits)

lemma set_next_last:
  assumes "lseg m p (as @ [a]) q" "distinct (as @ [a])"
  obtains m' where "set_next m a r = Some m'" "relinked {a} m m'" "lseg m' p (as @ [a]) r"
proof -
  from assms(1) obtain n where n: "lseg m p as a" "rd m a = Some n" by auto
  obtain m' where m': "set_next m a r = Some m'" "relinked {a} m m'" "rd m' a = Some (n\<lparr>nx := r\<rparr>)"
    using n(2) by (rule set_next_Some)
  have "lseg m' p as a"
    using n(1) assms(2) by (subst relinked_lseg [OF m'(2)]) auto
  with m'(3) have "lseg m' p (as @ [a]) r" by simp
  with m' show thesis by (intro that)
qed

lemma free_Some:
  assumes "rd m a = Some n"
  obtains m' where "free m a = Some m'" "\<And>b. b \<noteq> a \<Longrightarrow> cells m' b = cells m b"
    "cells m' a = None" "brk m' = brk m"
  using assms by (auto simp: free_def)

subsection \<open>Correctness of the loops that only read\<close>

lemma list_length_refines:
  assumes "is_list m p xs"
  shows "list_length m p = Some (int (length xs))"
proof -
  have "list_length_loop m p k = Some (k + int (length xs))" for k
    using assms
  proof (induction xs arbitrary: p k)
    case Nil
    then show ?case by (subst list_length_loop.simps) simp
  next
    case (Cons a xs)
    then show ?case
      by (subst list_length_loop.simps) (auto dest: rd_nonzero)
  qed
  then show ?thesis by (simp add: list_length_def)
qed

lemma find_by_data_prev_refines:
  assumes "is_list m l xs"
  shows "find_by_data_prev m prev l d =
    Some (tail_from prev (takeWhile (\<lambda>a. dat m a \<noteq> d) xs), head_of (dropWhile (\<lambda>a. dat m a \<noteq> d) xs))"
  using assms
proof (induction xs arbitrary: l prev)
  case Nil
  then show ?case by (subst find_by_data_prev.simps) simp
next
  case (Cons a xs)
  then obtain n where n: "l = a" "rd m a = Some n" "is_list m (nx n) xs" by auto
  with Cons.IH [OF n(3), of a] show ?case
    by (subst find_by_data_prev.simps) (simp add: dat_rd rd_nonzero)
qed

lemma find_by_data_refines:
  "is_list m l xs \<Longrightarrow> find_by_data m l d = Some (head_of (dropWhile (\<lambda>a. dat m a \<noteq> d) xs))"
  by (simp add: find_by_data_def find_by_data_prev_refines)

lemma insert_sorted_loop_refines:
  assumes "is_list m l xs"
  shows "insert_sorted_loop m cmp n prev l =
    Some (tail_from prev (takeWhile (\<lambda>a. cmp n a > 0) xs), head_of (dropWhile (\<lambda>a. cmp n a > 0) xs))"
  using assms
proof (induction xs arbitrary: l prev)
  case Nil
  then show ?case by (subst insert_sorted_loop.simps) simp
next
  case (Cons a xs)
  then obtain c where c: "l = a" "rd m a = Some c" "is_list m (nx c) xs" by auto
  with Cons.IH [OF c(3), of a] show ?case
    by (subst insert_sorted_loop.simps) (auto simp: rd_nonzero)
qed

subsection \<open>Correctness of the operations that relink\<close>

lemma insert_by_split:
  "insert_by cmp x xs = takeWhile (\<lambda>y. cmp x y > 0) xs @ x # dropWhile (\<lambda>y. cmp x y > 0) xs"
  by (induction xs) auto

lemma mset_insert_by [simp]: "mset (insert_by cmp x xs) = add_mset x (mset xs)"
  by (simp add: insert_by_split takeWhile_dropWhile_mset del: mset_append)

lemma set_insert_by [simp]: "set (insert_by cmp x xs) = insert x (set xs)"
  by (metis mset_insert_by set_mset_add_mset_insert set_mset_mset)

text \<open>Cutting a list in two at the cell where a loop stopped.\<close>

lemma is_list_cut:
  assumes "is_list m p (as @ bs)"
  shows "lseg m p as (head_of bs)" "is_list m (head_of bs) bs"
  using assms is_list_head by (auto simp: is_list_append)

lemma link_prev:
  assumes "lseg m p as r" "distinct as"
  obtains m' p' where
    "(if tail_from 0 as \<noteq> 0 then do { m \<leftarrow> set_next m (tail_from 0 as) q; Some (m, p) } else Some (m, q)) = Some (m', p')"
    "relinked (set as) m m'" "lseg m' p' as q"
proof (cases as rule: rev_cases)
  case Nil
  with assms that [of m q] show thesis by simp
next
  case (snoc bs a)
  have a0: "a \<noteq> 0"
    using lseg_alloc [OF assms(1), of a] snoc by simp
  obtain m' where m': "set_next m a q = Some m'" "relinked {a} m m'" "lseg m' p as q"
    using assms snoc by (metis set_next_last)
  have "relinked (set as) m m'"
    using m'(2) by (rule relinked_mono) (simp add: snoc)
  with m' a0 snoc show thesis by (intro that [of m' p]) simp_all
qed

theorem insert_sorted_prev_refines:
  assumes "is_list m p xs" "rd m n = Some c" "n \<notin> set xs"
  obtains m' p' where
    "insert_sorted_prev m p n 0 cmp = Some (m', p', tail_from 0 (takeWhile (\<lambda>a. cmp n a > 0) xs))"
    "is_list m' p' (insert_by cmp n xs)" "relinked (insert n (set xs)) m m'"
proof -
  let ?as = "takeWhile (\<lambda>a. cmp n a > 0) xs" and ?bs = "dropWhile (\<lambda>a. cmp n a > 0) xs"
  let ?l = "head_of ?bs"
  have xs: "is_list m p (?as @ ?bs)" and dist: "distinct (?as @ ?bs)"
    using assms(1) is_list_distinct by (simp_all del: distinct_append)
  then have das: "distinct ?as" and disj: "set ?bs \<inter> set ?as = {}"
    by (auto simp only: distinct_append)
  obtain m1 p' where m1:
    "(if tail_from 0 ?as \<noteq> 0 then do { m \<leftarrow> set_next m (tail_from 0 ?as) n; Some (m, p) } else Some (m, n)) = Some (m1, p')"
    "relinked (set ?as) m m1" "lseg m1 p' ?as n"
    using link_prev [OF is_list_cut(1) [OF xs] das, of n] .
  obtain c1 where c1: "rd m1 n = Some c1"
    using relinked_rd [OF m1(2) assms(2)] by auto
  obtain m2 where m2: "set_next m1 n ?l = Some m2" "relinked {n} m1 m2" "rd m2 n = Some (c1\<lparr>nx := ?l\<rparr>)"
    using set_next_Some [OF c1] .
  have nas: "n \<notin> set ?as" "n \<notin> set ?bs"
    using assms(3) by (auto dest: set_takeWhileD set_dropWhileD)
  have "lseg m2 p' ?as n"
    using m1(3) nas(1) by (subst relinked_lseg [OF m2(2)]) auto
  moreover have "is_list m2 ?l ?bs"
  proof -
    have "is_list m1 ?l ?bs"
      using is_list_cut(2) [OF xs] disj by (subst relinked_is_list [OF m1(2)]) auto
    then show ?thesis
      using nas(2) by (subst relinked_is_list [OF m2(2)]) auto
  qed
  ultimately have "is_list m2 p' (insert_by cmp n xs)"
    using m2(3) by (simp add: insert_by_split is_list_append)
  moreover have "relinked (insert n (set xs)) m m2"
    using relinked_trans [OF m1(2) m2(2)]
    by (rule relinked_mono) (auto dest: set_takeWhileD)
  moreover have "insert_sorted_prev m p n 0 cmp = Some (m2, p', tail_from 0 ?as)"
    using m1(1) m2(1) insert_sorted_loop_refines [OF assms(1)]
    by (simp add: insert_sorted_prev_def)
  ultimately show thesis by (intro that)
qed

theorem insert_sorted_refines:
  assumes "is_list m p xs" "rd m n = Some c" "n \<notin> set xs"
  obtains m' p' where "insert_sorted m p n cmp = Some (m', p')"
    "is_list m' p' (insert_by cmp n xs)" "relinked (insert n (set xs)) m m'"
proof -
  from assms obtain m' p' where
    "insert_sorted_prev m p n 0 cmp = Some (m', p', tail_from 0 (takeWhile (\<lambda>a. cmp n a > 0) xs))"
    "is_list m' p' (insert_by cmp n xs)" "relinked (insert n (set xs)) m m'"
    by (rule insert_sorted_prev_refines)
  then show thesis by (intro that [of m' p']) (simp_all add: insert_sorted_def)
qed

text \<open>Unlinking the cell after the segment \<open>as\<close>, which both removals do.\<close>

lemma unlink_next:
  assumes "is_list m p (as @ a # bs)" "rd m a = Some c"
  obtains m' p' where
    "(if tail_from 0 as \<noteq> 0 then do { m \<leftarrow> set_next m (tail_from 0 as) (nx c); Some (m, p) } else Some (m, nx c)) = Some (m', p')"
    "relinked (set as) m m'" "is_list m' p' (as @ bs)"
proof -
  from assms have seg: "lseg m p as a" and bs: "is_list m (nx c) bs" and dist: "distinct (as @ a # bs)"
    using is_list_distinct [OF assms(1)] by (auto simp: is_list_append)
  then have das: "distinct as" by simp
  obtain m' p' where m':
    "(if tail_from 0 as \<noteq> 0 then do { m \<leftarrow> set_next m (tail_from 0 as) (nx c); Some (m, p) } else Some (m, nx c)) = Some (m', p')"
    "relinked (set as) m m'" "lseg m' p' as (nx c)"
    using link_prev [OF seg das, of "nx c"] .
  have "is_list m' (nx c) bs"
    using bs dist by (subst relinked_is_list [OF m'(2)]) auto
  with m' show thesis by (intro that) (auto simp: is_list_append)
qed

subsection \<open>Insertion, deletion and set operations\<close>

lemma list_insert_refines:
  assumes "mem_ok m" "is_list m l xs" "list_insert m l d = (m', l')"
  shows "is_list m' l' (l' # xs)" "datas m' (l' # xs) = d # datas m xs" "mem_ok m'"
    "l' = brk m" "\<And>a. a \<noteq> l' \<Longrightarrow> cells m' a = cells m a"
proof -
  from assms(3) have m': "m' = m\<lparr>cells := (cells m)(brk m \<mapsto> \<lparr>nx = l, da = d\<rparr>), brk := Suc (brk m)\<rparr>"
    and l': "l' = brk m"
    by (auto simp: list_insert_def malloc_def)
  show other: "\<And>a. a \<noteq> l' \<Longrightarrow> cells m' a = cells m a"
    by (simp add: m' l')
  have new: "l' \<notin> set xs"
    using is_list_alloc [OF assms(2), of "brk m"] assms(1) by (auto simp: l' mem_ok_def)
  then have "is_list m' l xs"
    using assms(2) new other is_list_cong [of xs m' m l] by metis
  then show "is_list m' l' (l' # xs)"
    using assms(1) by (auto simp: rd_def m' l' mem_ok_def)
  show "datas m' (l' # xs) = d # datas m xs"
    using new by (auto simp: datas_def dat_def m' l')
  show "mem_ok m'"
    using assms(1) by (auto simp: mem_ok_def m')
  show "l' = brk m" by (rule l')
qed

lemma datas_in: "d \<in> set (datas m xs) \<longleftrightarrow> (\<exists>a \<in> set xs. dat m a = d)"
  by (auto simp: datas_def)

lemma find_none: "d \<notin> set (datas m xs) \<Longrightarrow> dropWhile (\<lambda>a. dat m a \<noteq> d) xs = []"
  by (auto simp: datas_in dropWhile_eq_Nil_conv)

lemma find_some:
  assumes "d \<in> set (datas m xs)"
  obtains a bs where "dropWhile (\<lambda>a. dat m a \<noteq> d) xs = a # bs" "dat m a = d" "a \<in> set xs"
proof -
  from assms have "dropWhile (\<lambda>a. dat m a \<noteq> d) xs \<noteq> []"
    by (auto simp: datas_in dropWhile_eq_Nil_conv)
  then obtain a bs where ab: "dropWhile (\<lambda>a. dat m a \<noteq> d) xs = a # bs"
    by (cases "dropWhile (\<lambda>a. dat m a \<noteq> d) xs") auto
  then have "dat m a = d"
    using hd_dropWhile [of "\<lambda>a. dat m a \<noteq> d" xs] by auto
  moreover have "a \<in> set xs"
    using ab by (metis list.set_intros(1) set_dropWhileD)
  ultimately show thesis using ab that by blast
qed

lemma insert_unique_refines:
  assumes "mem_ok m" "is_list m l xs"
  obtains m' l' xs' where "insert_unique m l d = Some (m', l')" "is_list m' l' xs'" "mem_ok m'"
    "datas m' xs' = (if d \<in> set (datas m xs) then datas m xs else d # datas m xs)"
    "xs' = xs \<or> xs' = brk m # xs" "\<forall>a. a \<noteq> brk m \<longrightarrow> cells m' a = cells m a"
proof (cases "d \<in> set (datas m xs)")
  case True
  then obtain a bs where a: "dropWhile (\<lambda>a. dat m a \<noteq> d) xs = a # bs" "a \<in> set xs"
    using find_some by metis
  then have "a \<noteq> 0" using is_list_alloc [OF assms(2)] by blast
  with a have "insert_unique m l d = Some (m, l)"
    by (simp add: insert_unique_def find_by_data_prev_refines [OF assms(2)])
  with True assms that show thesis by simp
next
  case False
  obtain m' l' where li: "list_insert m l d = (m', l')" by fastforce
  have "insert_unique m l d = Some (m', l')"
    by (simp add: insert_unique_def find_by_data_prev_refines [OF assms(2)] find_none [OF False] li)
  with list_insert_refines [OF assms li] False show thesis
    by (intro that [of m' l' "l' # xs"]) auto
qed

text \<open>\<open>list_delete\<close> removes the first item that holds the data element, and frees it.\<close>

lemma list_delete_refines:
  assumes "is_list m l xs"
  obtains m' l' xs' where "list_delete m l d = Some (m', l')" "is_list m' l' xs'"
    "datas m' xs' = remove1 d (datas m xs)" "set xs' \<subseteq> set xs"
    "\<And>a. a \<notin> set xs \<Longrightarrow> cells m' a = cells m a" "brk m' = brk m"
proof (cases "d \<in> set (datas m xs)")
  case False
  then have "list_delete m l d = Some (m, l)"
    by (simp add: list_delete_def find_by_data_prev_refines [OF assms] find_none)
  with False assms that show thesis by (simp add: remove1_idem)
next
  case True
  then obtain a bs where ab: "dropWhile (\<lambda>a. dat m a \<noteq> d) xs = a # bs" "dat m a = d" "a \<in> set xs"
    using find_some by metis
  define as where "as = takeWhile (\<lambda>a. dat m a \<noteq> d) xs"
  have xs: "xs = as @ a # bs"
    using ab(1) by (metis as_def takeWhile_dropWhile_id)
  have nd: "d \<notin> set (datas m as)"
    by (auto simp: datas_in as_def dest: set_takeWhileD)
  from assms obtain c where c: "rd m a = Some c"
    by (auto simp: xs is_list_append)
  obtain m1 p' where m1: "(if tail_from 0 as \<noteq> 0 then do { m \<leftarrow> set_next m (tail_from 0 as) (nx c); Some (m, l) } else Some (m, nx c)) = Some (m1, p')"
    "relinked (set as) m m1" "is_list m1 p' (as @ bs)"
    using unlink_next [OF assms [unfolded xs] c] .
  obtain c1 where c1: "rd m1 a = Some c1"
    using relinked_rd [OF m1(2) c] by auto
  obtain m2 where m2: "free m1 a = Some m2" "\<And>b. b \<noteq> a \<Longrightarrow> cells m2 b = cells m1 b" "brk m2 = brk m1"
    using free_Some [OF c1] by metis
  have a_not: "a \<notin> set (as @ bs)"
    using is_list_distinct [OF assms] by (auto simp: xs)
  have "is_list m2 p' (as @ bs)"
    using m1(3) m2(2) a_not is_list_cong [of "as @ bs" m2 m1 p'] by metis
  moreover have "datas m2 (as @ bs) = remove1 d (datas m xs)"
  proof -
    have "datas m2 (as @ bs) = datas m1 (as @ bs)"
      using a_not m2(2) datas_cong [of "as @ bs" m2 m1] by metis
    also have "\<dots> = datas m (as @ bs)"
      by (rule relinked_datas [OF m1(2)])
    also have "\<dots> = remove1 d (datas m xs)"
      using nd ab(2) by (simp add: xs datas_def remove1_append)
    finally show ?thesis .
  qed
  moreover have "list_delete m l d = Some (m2, p')"
    using c m1(1) m2(1) ab rd_nonzero [OF c]
    by (simp add: list_delete_def find_by_data_prev_refines [OF assms] flip: as_def)
  moreover have "\<And>b. b \<notin> set xs \<Longrightarrow> cells m2 b = cells m b"
    using m2(2) relinked_cells [OF m1(2)] by (auto simp: xs)
  moreover have "brk m2 = brk m"
    using m2(3) m1(2) by (simp add: relinked_def)
  ultimately show thesis
    by (intro that [of m2 p' "as @ bs"]) (auto simp: xs)
qed

text \<open>\<open>list_subtract\<close> is the multiset difference of the data elements, in order.\<close>

theorem list_subtract_refines:
  assumes "is_list m la xs" "is_list m lb ys" "set xs \<inter> set ys = {}"
  obtains m' l' xs' where "list_subtract m la lb = Some (m', l')" "is_list m' l' xs'"
    "datas m' xs' = fold remove1 (datas m ys) (datas m xs)" "set xs' \<subseteq> set xs"
  using assms
proof (induction ys arbitrary: m la lb xs thesis)
  case Nil
  then show ?case
    by (subst (asm) list_subtract.simps) (simp add: datas_def)
next
  case (Cons b ys)
  from Cons.prems(3) obtain c where c: "lb = b" "rd m b = Some c" "is_list m (nx c) ys" by auto
  obtain m1 l1 xs1 where m1: "list_delete m la (da c) = Some (m1, l1)" "is_list m1 l1 xs1"
    "datas m1 xs1 = remove1 (da c) (datas m xs)" "set xs1 \<subseteq> set xs"
    "\<And>a. a \<notin> set xs \<Longrightarrow> cells m1 a = cells m a"
    using list_delete_refines [OF Cons.prems(2)] by metis
  have same: "cells m1 a = cells m a" if "a \<in> set (b # ys)" for a
    using that Cons.prems(4) by (intro m1(5)) auto
  have rdb: "rd m1 b = Some c"
    using c(2) same [of b] by (auto simp: rd_def split: if_splits)
  have ys1: "is_list m1 (nx c) ys"
    using c(3) same by (subst is_list_cong [of _ m1 m]) auto
  have dj: "set xs1 \<inter> set ys = {}"
    using m1(4) Cons.prems(4) by auto
  have "datas m1 ys = datas m ys"
    using same by (intro datas_cong) auto
  moreover obtain m' l' xs' where "list_subtract m1 l1 (nx c) = Some (m', l')" "is_list m' l' xs'"
    "datas m' xs' = fold remove1 (datas m1 ys) (datas m1 xs1)" "set xs' \<subseteq> set xs1"
    using Cons.IH [OF _ m1(2) ys1 dj] .
  moreover have "dat m b = da c"
    using c(2) by (simp add: dat_rd)
  ultimately show ?case
    using c rdb m1 rd_nonzero [OF c(2)]
    by (intro Cons.prems(1) [of m' l' xs']) (auto simp: list_subtract.simps [of m la b])
qed

lemma list_remove_loop_refines:
  assumes "is_list m p (as @ bs)" "link \<notin> set as"
  shows "list_remove_loop m p link (tail_from 0 as) (head_of bs) =
    (if link \<in> set bs then
       do { c \<leftarrow> rd m link;
            set_prev_next m p (tail_from 0 (as @ takeWhile (\<lambda>a. a \<noteq> link) bs)) (nx c) }
     else Some (m, p))"
  using assms
proof (induction bs arbitrary: as)
  case Nil
  then show ?case by (subst list_remove_loop.simps) simp
next
  case (Cons b bs)
  then obtain c where c: "rd m b = Some c" "is_list m (nx c) bs"
    by (auto simp: is_list_append)
  then have nxc: "nx c = head_of bs" and b0: "b \<noteq> 0"
    using is_list_head rd_nonzero by blast+
  show ?case
  proof (cases "b = link")
    case True
    with c b0 show ?thesis by (subst list_remove_loop.simps) simp
  next
    case False
    with Cons.IH [of "as @ [b]"] Cons.prems c b0 nxc show ?thesis
      by (subst list_remove_loop.simps) (simp add: tail_from_def)
  qed
qed

theorem list_remove_refines:
  assumes "is_list m p xs"
  obtains m' p' where "list_remove m p x = Some (m', p')" "is_list m' p' (remove1 x xs)"
    "relinked (set xs) m m'"
proof (cases "x \<in> set xs")
  case False
  then have "list_remove m p x = Some (m, p)"
    using list_remove_loop_refines [of m p "[]" xs x] assms is_list_head [OF assms]
    by (simp add: list_remove_def)
  with False assms that show thesis by (simp add: remove1_idem)
next
  case True
  define as where "as = takeWhile (\<lambda>a. a \<noteq> x) xs"
  from True obtain bs where xs: "xs = as @ x # bs"
  proof -
    have "dropWhile (\<lambda>a. a \<noteq> x) xs \<noteq> []"
      using True by (auto simp: dropWhile_eq_Nil_conv)
    then obtain b bs where "dropWhile (\<lambda>a. a \<noteq> x) xs = b # bs"
      by (cases "dropWhile (\<lambda>a. a \<noteq> x) xs") auto
    moreover from this have "b = x"
      using hd_dropWhile [of "\<lambda>a. a \<noteq> x" xs] by auto
    ultimately show thesis using that by (metis as_def takeWhile_dropWhile_id)
  qed
  from assms obtain c where c: "rd m x = Some c"
    by (auto simp: xs is_list_append)
  obtain m1 p' where m1: "(if tail_from 0 as \<noteq> 0 then do { m \<leftarrow> set_next m (tail_from 0 as) (nx c); Some (m, p) } else Some (m, nx c)) = Some (m1, p')"
    "relinked (set as) m m1" "is_list m1 p' (as @ bs)"
    using unlink_next [OF assms [unfolded xs] c] .
  have "list_remove m p x = Some (m1, p')"
    using list_remove_loop_refines [of m p "[]" xs x] assms is_list_head [OF assms] True c m1(1)
    by (auto simp: list_remove_def set_prev_next_def simp flip: as_def split: if_splits)
  moreover have "remove1 x xs = as @ bs"
  proof -
    have "x \<notin> set as" by (auto simp: as_def dest: set_takeWhileD)
    then show ?thesis by (simp add: xs remove1_append)
  qed
  ultimately show thesis
    using m1 by (intro that [of m1 p']) (auto simp: xs intro: relinked_mono)
qed

theorem list_union_refines:
  assumes "mem_ok m" "is_list m la xs" "is_list m lb ys"
  obtains m' l' xs' where "list_union m la lb = Some (m', l')" "is_list m' l' xs'" "mem_ok m'"
    "datas m' xs' = fold (\<lambda>d ds. if d \<in> set ds then ds else d # ds) (datas m ys) (datas m xs)"
  using assms
proof (induction ys arbitrary: m la lb xs thesis)
  case Nil
  then show ?case by (subst (asm) list_union.simps) simp
next
  case (Cons b ys)
  from Cons.prems(4) obtain c where c: "lb = b" "rd m b = Some c" "is_list m (nx c) ys" by auto
  obtain m1 l1 xs1 where m1: "insert_unique m la (da c) = Some (m1, l1)" "is_list m1 l1 xs1" "mem_ok m1"
    "datas m1 xs1 = (if da c \<in> set (datas m xs) then datas m xs else da c # datas m xs)"
    "xs1 = xs \<or> xs1 = brk m # xs" "\<forall>a. a \<noteq> brk m \<longrightarrow> cells m1 a = cells m a"
    using insert_unique_refines [OF Cons.prems(2,3), of "da c"] .
  have "a \<noteq> brk m" if "a \<in> set ys" for a
    using is_list_alloc [OF c(3) that] Cons.prems(2) by (auto simp: mem_ok_def)
  then have same: "\<And>a. a \<in> set ys \<Longrightarrow> cells m1 a = cells m a"
    using m1(6) by metis
  have ys1: "is_list m1 (nx c) ys"
    using c(3) is_list_cong [of ys m1 m, OF same] by simp
  have "datas m1 ys = datas m ys"
    using same by (rule datas_cong)
  moreover obtain m' l' xs' where "list_union m1 l1 (nx c) = Some (m', l')" "is_list m' l' xs'" "mem_ok m'"
    "datas m' xs' = fold (\<lambda>d ds. if d \<in> set ds then ds else d # ds) (datas m1 ys) (datas m1 xs1)"
    using Cons.IH [OF _ m1(3,2) ys1] .
  moreover have "dat m b = da c"
    using c(2) by (simp add: dat_rd)
  ultimately show ?case
    using c m1 rd_nonzero [OF c(2)]
    by (intro Cons.prems(1) [of m' l' xs']) (auto simp: list_union.simps [of m la b])
qed

lemma free_list_refines:
  assumes "is_list m p xs"
  obtains m' where "free_list m p = Some m'" "\<And>a. a \<in> set xs \<Longrightarrow> cells m' a = None"
    "\<And>a. a \<notin> set xs \<Longrightarrow> cells m' a = cells m a" "brk m' = brk m"
  using assms
proof (induction xs arbitrary: m p thesis)
  case Nil
  then show ?case by (subst (asm) free_list.simps) simp
next
  case (Cons a xs)
  then obtain c where c: "p = a" "rd m a = Some c" "is_list m (nx c) xs" by auto
  have dist: "a \<notin> set xs"
    using is_list_distinct [OF Cons.prems(2)] by simp
  obtain m1 where m1: "free m a = Some m1" "\<And>b. b \<noteq> a \<Longrightarrow> cells m1 b = cells m b"
    "cells m1 a = None" "brk m1 = brk m"
    using free_Some [OF c(2)] by metis
  have "is_list m1 (nx c) xs"
    using c(3) dist m1(2) is_list_cong [of xs m1 m "nx c"] by metis
  from Cons.IH [OF _ this] obtain m' where m': "free_list m1 (nx c) = Some m'"
    "\<And>b. b \<in> set xs \<Longrightarrow> cells m' b = None" "\<And>b. b \<notin> set xs \<Longrightarrow> cells m' b = cells m1 b"
    "brk m' = brk m1"
    by metis
  show ?case
  proof (rule Cons.prems(1))
    show "free_list m p = Some m'"
      using c m1(1) m'(1) rd_nonzero [OF c(2)] by (subst free_list.simps) simp
    show "cells m' b = None" if "b \<in> set (a # xs)" for b
      using that m'(2,3) m1(3) dist by (cases "b = a") auto
    show "cells m' b = cells m b" if "b \<notin> set (a # xs)" for b
      using that m'(3) m1(2) by auto
  qed (use m' m1 in simp)
qed

subsection \<open>Comparison functions\<close>

text \<open>
  What the sorted insertions and the sort rely on: on the items \<open>A\<close> in play the sign of
  \<open>cmp\<close> is that of a total preorder. The interpretations are in the theories of the
  comparison functions of the source.
\<close>

definition sorted_by :: "('a \<Rightarrow> 'a \<Rightarrow> int) \<Rightarrow> 'a list \<Rightarrow> bool" where
  "sorted_by cmp xs = sorted_wrt (\<lambda>a b. cmp a b \<le> 0) xs"

locale c_compare =
  fixes A :: "'a set" and cmp :: "'a \<Rightarrow> 'a \<Rightarrow> int"
  assumes cmp_flip: "a \<in> A \<Longrightarrow> b \<in> A \<Longrightarrow> 0 \<le> cmp a b \<Longrightarrow> cmp b a \<le> 0"
    and cmp_trans: "a \<in> A \<Longrightarrow> b \<in> A \<Longrightarrow> c \<in> A \<Longrightarrow> cmp a b \<le> 0 \<Longrightarrow> cmp b c \<le> 0 \<Longrightarrow> cmp a c \<le> 0"
begin

lemma sorted_insert_by:
  assumes "x \<in> A" "set xs \<subseteq> A" "sorted_by cmp xs"
  shows "sorted_by cmp (insert_by cmp x xs)"
  using assms
proof (induction xs)
  case Nil
  then show ?case by (simp add: sorted_by_def)
next
  case (Cons y ys)
  then have IH: "sorted_by cmp (insert_by cmp x ys)" and yA: "y \<in> A" and ysA: "set ys \<subseteq> A"
    by (auto simp: sorted_by_def)
  have y: "\<forall>z \<in> set ys. cmp y z \<le> 0"
    using Cons.prems by (simp add: sorted_by_def)
  show ?case
  proof (cases "cmp x y > 0")
    case True
    then have "cmp y x \<le> 0"
      using cmp_flip Cons.prems(1) yA by simp
    with True IH y show ?thesis by (auto simp: sorted_by_def)
  next
    case False
    then have "cmp x z \<le> 0" if "z \<in> set ys" for z
      using that y ysA yA Cons.prems(1) cmp_trans [of x y z] by auto
    with False Cons.prems show ?thesis by (auto simp: sorted_by_def)
  qed
qed

lemma sorted_insert_all:
  assumes "set xs \<subseteq> A" "set ys \<subseteq> A" "sorted_by cmp ys"
  shows "sorted_by cmp (fold (insert_by cmp) xs ys) \<and> mset (fold (insert_by cmp) xs ys) = mset xs + mset ys"
  using assms
proof (induction xs arbitrary: ys)
  case (Cons x xs)
  then have "sorted_by cmp (insert_by cmp x ys)"
    by (intro sorted_insert_by) auto
  with Cons.IH [of "insert_by cmp x ys"] Cons.prems show ?case by auto
qed simp

lemma sorted_split:
  assumes "sorted_by cmp as" "sorted_by cmp bs" "x \<in> A" "set as \<subseteq> A" "set bs \<subseteq> A"
    "\<forall>a \<in> set as. cmp a x \<le> 0" "\<forall>b \<in> set bs. cmp x b \<le> 0"
  shows "sorted_by cmp (as @ x # bs)"
proof -
  have "cmp a b \<le> 0" if "a \<in> set as" "b \<in> set bs" for a b
    using that assms cmp_trans [of a x b] by blast
  with assms show ?thesis
    by (simp add: sorted_by_def sorted_wrt_append)
qed

end

text \<open>
  A difference of two integers that fits an \<open>int\<close> compares correctly; the subtraction of
  two 64-bit times returned as \<open>int\<close> does so only while the times are close enough.
\<close>

definition near :: "('a \<Rightarrow> int) \<Rightarrow> int \<Rightarrow> 'a set" where
  "near key lo = {a. lo \<le> key a \<and> key a < lo + 2 ^ 31}"

lemma near_diff: "a \<in> near key lo \<Longrightarrow> b \<in> near key lo \<Longrightarrow> c_int (key a - key b) = key a - key b"
  by (rule c_int_id) (simp add: near_def in_int_def)

lemma c_compare_diff: "c_compare (near key lo) (\<lambda>a b. c_int (key a - key b))"
  by unfold_locales (simp_all add: near_diff)

lemma sorted_by_key:
  assumes "sorted_by (\<lambda>a b. c_int (key a - key b)) xs" "set xs \<subseteq> near key lo"
  shows "sorted (map key xs)"
  using assms
proof (induction xs)
  case (Cons x xs)
  have "key x \<le> key y" if "y \<in> set xs" for y
  proof -
    have "x \<in> near key lo" "y \<in> near key lo"
      using that Cons.prems(2) by auto
    then have "c_int (key x - key y) = key x - key y" by (rule near_diff)
    moreover have "c_int (key x - key y) \<le> 0"
      using that Cons.prems(1) by (simp add: sorted_by_def)
    ultimately show ?thesis by linarith
  qed
  with Cons show ?case by (auto simp: sorted_by_def)
qed simp

text \<open>Three cells, for the examples.\<close>

definition heap3 :: mem where
  "heap3 = \<lparr>cells = [1 \<mapsto> \<lparr>nx = 2, da = 30\<rparr>, 2 \<mapsto> \<lparr>nx = 3, da = 10\<rparr>, 3 \<mapsto> \<lparr>nx = 0, da = 20\<rparr>], brk = 4\<rparr>"

lemma heap3_list: "is_list heap3 1 [1, 2, 3]" "mem_ok heap3" "datas heap3 [1, 2, 3] = [30, 10, 20]"
  by (simp_all add: heap3_def is_list_def mem_ok_def rd_def datas_def dat_def)

definition cmp3 :: "addr \<Rightarrow> addr \<Rightarrow> int" where
  "cmp3 a b = c_int (int (dat heap3 a) - int (dat heap3 b))"

lemma c_compare_cmp3: "c_compare (near (\<lambda>a. int (dat heap3 a)) 0) cmp3"
  unfolding cmp3_def [abs_def] by (rule c_compare_diff)

end
