(* ===== verification/Queues.thy ===== *)
theory Queues
  imports Linked_List
begin

section \<open>Queues of linked items (core/queue.c)\<close>

text \<open>
  \<open>Queue\<close> is a pair of pointers into a linked list. \<open>queue_seg\<close> is the invariant that
  \<open>queue_add\<close> and \<open>queue_remove\<close> keep: the \<open>next\<close> field of the last item does not
  matter, which is why the event loop can add an item whose \<open>next\<close> is stale. The sorted
  insertion does read it, so it works on NULL-terminated queues, \<open>queue_list\<close>.
  The locale \<open>c_queue\<close> is the contract the clients of a queue use.
\<close>

record queue =
  qfirst :: addr
  qlast :: addr

definition queue_clear :: queue where
  "queue_clear = \<lparr>qfirst = 0, qlast = 0\<rparr>"

definition queue_peek :: "queue \<Rightarrow> addr" where
  "queue_peek q = qfirst q"

definition queue_empty :: "queue \<Rightarrow> bool" where
  "queue_empty q \<longleftrightarrow> qfirst q = 0"

definition queue_tail :: "queue \<Rightarrow> addr" where
  "queue_tail q = qlast q"

definition queue_add :: "mem \<Rightarrow> queue \<Rightarrow> addr \<Rightarrow> (mem \<times> queue) option" where
  "queue_add m q item =
     (if qlast q \<noteq> 0 then do { m \<leftarrow> set_next m (qlast q) item; Some (m, q\<lparr>qlast := item\<rparr>) }
      else Some (m, \<lparr>qfirst = item, qlast = item\<rparr>))"

definition queue_insert_prev ::
    "mem \<Rightarrow> queue \<Rightarrow> addr \<Rightarrow> addr \<Rightarrow> (addr \<Rightarrow> addr \<Rightarrow> int) \<Rightarrow> (mem \<times> queue \<times> addr) option" where
  "queue_insert_prev m q item prev cmp =
     do { (m, f, prev) \<leftarrow> insert_sorted_prev m (qfirst q) item prev cmp;
          let q = q\<lparr>qfirst := f\<rparr>;
          if qlast q \<noteq> 0 then do {
            c \<leftarrow> rd m (qlast q);
            Some (m, if nx c \<noteq> 0 then q\<lparr>qlast := nx c\<rparr> else q, prev) }
          else Some (m, q\<lparr>qlast := qfirst q\<rparr>, prev) }"

definition queue_insert ::
    "mem \<Rightarrow> queue \<Rightarrow> addr \<Rightarrow> (addr \<Rightarrow> addr \<Rightarrow> int) \<Rightarrow> (mem \<times> queue) option" where
  "queue_insert m q item cmp = do { (m, q, prev) \<leftarrow> queue_insert_prev m q item 0 cmp; Some (m, q) }"

text \<open>\<open>NULL\<close> is returned, and nothing changes, when the queue is empty.\<close>

definition queue_remove :: "mem \<Rightarrow> queue \<Rightarrow> (queue \<times> addr) option" where
  "queue_remove m q =
     (let item = qfirst q in
      if item \<noteq> 0 then
        (if qfirst q = qlast q then Some (queue_clear, item)
         else do { c \<leftarrow> rd m (qfirst q); Some (q\<lparr>qfirst := nx c\<rparr>, item) })
      else Some (q, 0))"

definition queue_free :: "mem \<Rightarrow> queue \<Rightarrow> (mem \<times> queue) option" where
  "queue_free m q = do { m \<leftarrow> free_list m (qfirst q); Some (m, queue_clear) }"

subsection \<open>The queue invariant\<close>

definition queue_seg :: "mem \<Rightarrow> queue \<Rightarrow> addr list \<Rightarrow> bool" where
  "queue_seg m q xs \<longleftrightarrow>
     (if xs = [] then q = queue_clear
      else qlast q = last xs \<and> lseg m (qfirst q) (butlast xs) (last xs) \<and>
        rd m (last xs) \<noteq> None \<and> distinct xs)"

definition queue_list :: "mem \<Rightarrow> queue \<Rightarrow> addr list \<Rightarrow> bool" where
  "queue_list m q xs \<longleftrightarrow> is_list m (qfirst q) xs \<and> qlast q = tail_from 0 xs"

lemma queue_seg_Nil [simp]: "queue_seg m q [] \<longleftrightarrow> q = queue_clear"
  by (simp add: queue_seg_def)

lemma queue_seg_snoc: "queue_seg m q (xs @ [x]) \<longleftrightarrow>
  qlast q = x \<and> lseg m (qfirst q) xs x \<and> rd m x \<noteq> None \<and> distinct (xs @ [x])"
  by (simp add: queue_seg_def)

lemma queue_list_seg:
  assumes "queue_list m q xs"
  shows "queue_seg m q xs"
proof (cases xs rule: rev_cases)
  case (snoc as a)
  have "distinct (as @ [a])"
    using is_list_distinct [of m "qfirst q" "as @ [a]"] assms snoc by (simp add: queue_list_def)
  with assms snoc show ?thesis
    by (auto simp: queue_list_def queue_seg_snoc is_list_append)
qed (use assms in \<open>auto simp: queue_list_def queue_clear_def\<close>)

lemma queue_seg_head:
  assumes "queue_seg m q xs"
  shows "qfirst q = head_of xs" "xs \<noteq> [] \<Longrightarrow> qfirst q \<noteq> 0"
proof -
  have "qfirst q = head_of xs \<and> (xs \<noteq> [] \<longrightarrow> qfirst q \<noteq> 0)"
  proof (cases xs rule: rev_cases)
    case Nil
    with assms show ?thesis by (simp add: queue_clear_def)
  next
    case (snoc as a)
    from assms [unfolded snoc queue_seg_snoc]
    have l: "lseg m (qfirst q) as a" and a: "rd m a \<noteq> None" by auto
    show ?thesis
    proof (cases as)
      case Nil
      with l a snoc show ?thesis by (auto dest: rd_nonzero)
    next
      case (Cons b bs)
      with l snoc show ?thesis by (auto dest: rd_nonzero)
    qed
  qed
  then show "qfirst q = head_of xs" "xs \<noteq> [] \<Longrightarrow> qfirst q \<noteq> 0" by auto
qed

lemma queue_seg_peek: "queue_seg m q xs \<Longrightarrow> queue_peek q = head_of xs"
  by (simp add: queue_peek_def queue_seg_head)

lemma queue_seg_empty: "queue_seg m q xs \<Longrightarrow> queue_empty q \<longleftrightarrow> xs = []"
  using queue_seg_head [of m q xs] by (cases xs) (auto simp: queue_empty_def)

lemma queue_add_seg:
  assumes "queue_seg m q xs" "rd m x \<noteq> None" "x \<notin> set xs"
  obtains m' q' where "queue_add m q x = Some (m', q')" "queue_seg m' q' (xs @ [x])"
    "relinked (set xs) m m'"
proof (cases xs rule: rev_cases)
  case Nil
  with assms that [of m "\<lparr>qfirst = x, qlast = x\<rparr>"] show thesis
    by (auto simp: queue_add_def queue_clear_def queue_seg_def)
next
  case (snoc as a)
  with assms(1) obtain c where c: "qlast q = a" "lseg m (qfirst q) as a" "rd m a = Some c"
    "distinct (as @ [a])"
    by (auto simp: queue_seg_snoc)
  obtain m' where m': "set_next m a x = Some m'" "relinked {a} m m'" "rd m' a = Some (c\<lparr>nx := x\<rparr>)"
    using set_next_Some [OF c(3)] .
  have "lseg m' (qfirst q) as a"
    using c(2,4) by (subst relinked_lseg [OF m'(2)]) auto
  moreover have "rd m' x \<noteq> None"
    using assms(2) relinked_rd [OF m'(2)] by fastforce
  ultimately have "queue_seg m' (q\<lparr>qlast := x\<rparr>) (xs @ [x])"
    using m'(3) c(4) assms(3) snoc by (subst queue_seg_snoc) simp
  moreover have "queue_add m q x = Some (m', q\<lparr>qlast := x\<rparr>)"
    using c m'(1) rd_nonzero [OF c(3)] by (simp add: queue_add_def)
  moreover have "relinked (set xs) m m'"
    using m'(2) by (rule relinked_mono) (simp add: snoc)
  ultimately show thesis by (intro that)
qed

lemma queue_remove_seg:
  assumes "queue_seg m q (x # xs)"
  obtains q' where "queue_remove m q = Some (q', x)" "queue_seg m q' xs"
proof -
  from assms have f: "qfirst q = x" "x \<noteq> 0"
    using queue_seg_peek [OF assms] queue_seg_empty [OF assms]
    by (auto simp: queue_peek_def queue_empty_def)
  show thesis
  proof (cases xs rule: rev_cases)
    case Nil
    with assms f have "queue_remove m q = Some (queue_clear, x)"
      by (auto simp: queue_seg_def queue_remove_def)
    with Nil that show thesis by simp
  next
    case (snoc as a)
    then have "queue_seg m q ((x # as) @ [a])" using assms by simp
    from this [unfolded queue_seg_snoc]
    obtain c where c: "qlast q = a" "rd m x = Some c" "lseg m (nx c) as a" "rd m a \<noteq> None"
      "distinct (x # as @ [a])"
      by auto
    then have "queue_remove m q = Some (q\<lparr>qfirst := nx c\<rparr>, x)"
      using f by (auto simp: queue_remove_def)
    moreover have "queue_seg m (q\<lparr>qfirst := nx c\<rparr>) xs"
      using c by (simp add: snoc queue_seg_snoc)
    ultimately show thesis by (rule that)
  qed
qed

lemma queue_remove_empty: "queue_remove m queue_clear = Some (queue_clear, 0)"
  by (simp add: queue_remove_def queue_clear_def)

lemma is_list_last_next:
  assumes "is_list m p (as @ [a])"
  obtains c where "rd m a = Some c" "nx c = 0"
  using assms by (auto simp: is_list_append)

theorem queue_insert_list:
  assumes "queue_list m q xs" "rd m n = Some c" "n \<notin> set xs"
  obtains m' q' where "queue_insert m q n cmp = Some (m', q')" "queue_list m' q' (insert_by cmp n xs)"
    "relinked (insert n (set xs)) m m'"
proof -
  from assms(1) have xs: "is_list m (qfirst q) xs" "qlast q = tail_from 0 xs"
    by (auto simp: queue_list_def)
  obtain m' p where m': "insert_sorted_prev m (qfirst q) n 0 cmp =
      Some (m', p, tail_from 0 (takeWhile (\<lambda>a. cmp n a > 0) xs))"
    "is_list m' p (insert_by cmp n xs)" "relinked (insert n (set xs)) m m'"
    using insert_sorted_prev_refines [OF xs(1) assms(2,3)] .
  show thesis
  proof (cases "xs = []")
    case True
    then have "p = n" using m'(2) by simp
    with True m'(1) xs have "queue_insert m q n cmp = Some (m', \<lparr>qfirst = n, qlast = n\<rparr>)"
      by (simp add: queue_insert_def queue_insert_prev_def)
    with True m' \<open>p = n\<close> show thesis
      by (intro that [of m' "\<lparr>qfirst = n, qlast = n\<rparr>"]) (simp_all add: queue_list_def)
  next
    case False
    let ?as = "takeWhile (\<lambda>a. cmp n a > 0) xs" and ?bs = "dropWhile (\<lambda>a. cmp n a > 0) xs"
    have lx: "qlast q = last xs" "qlast q \<noteq> 0"
      using False xs is_list_alloc [OF xs(1), of "last xs"] by (auto simp: tail_from_def)
    have res: "queue_insert m q n cmp = Some (m', \<lparr>qfirst = p, qlast = (if nx d \<noteq> 0 then nx d else last xs)\<rparr>)"
      if "rd m' (last xs) = Some d" for d
      using that m'(1) lx by (cases q) (simp add: queue_insert_def queue_insert_prev_def)
    show thesis
    proof (cases "?bs = []")
      case True
      then have as: "?as = xs"
        by (metis append_Nil2 takeWhile_dropWhile_id)
      then have ins: "insert_by cmp n xs = butlast xs @ [last xs, n]"
        unfolding insert_by_split as True using append_butlast_last_id [OF False]
        by (metis append.assoc append_Cons append_Nil)
      then obtain d where d: "rd m' (last xs) = Some d" "nx d = n"
        using m'(2) by (auto simp: is_list_append)
      from res [OF d(1)] d(2) m' ins lx rd_nonzero [OF assms(2)] show thesis
        by (intro that [of m' "\<lparr>qfirst = p, qlast = n\<rparr>"]) (simp_all add: queue_list_def tail_from_def)
    next
      case nb: False
      then have lb: "last ?bs = last xs"
        by (metis last_appendR takeWhile_dropWhile_id)
      have bs: "?bs = butlast ?bs @ [last xs]"
        using nb lb by (metis append_butlast_last_id)
      have ins: "insert_by cmp n xs = (?as @ n # butlast ?bs) @ [last xs]"
        using bs by (simp add: insert_by_split)
      obtain d where d: "rd m' (last xs) = Some d" "nx d = 0"
        using is_list_last_next m'(2) ins by metis
      from res [OF d(1)] d(2) m' ins show thesis
        by (intro that [of m' "\<lparr>qfirst = p, qlast = last xs\<rparr>"]) (simp_all add: queue_list_def tail_from_def)
    qed
  qed
qed

lemma queue_free_list:
  assumes "queue_list m q xs"
  obtains m' where "queue_free m q = Some (m', queue_clear)" "\<And>a. a \<in> set xs \<Longrightarrow> cells m' a = None"
proof -
  have "is_list m (qfirst q) xs"
    using assms by (simp add: queue_list_def)
  then obtain m' where "free_list m (qfirst q) = Some m'" "\<And>a. a \<in> set xs \<Longrightarrow> cells m' a = None"
    using free_list_refines by metis
  then show thesis by (intro that [of m']) (simp_all add: queue_free_def)
qed

subsection \<open>The queue contract\<close>

text \<open>
  \<open>rep s xs\<close>: the state holds the items \<open>xs\<close>, oldest first; \<open>live s x\<close>: the item \<open>x\<close> may be
  added. An operation list runs against any implementation.
\<close>

datatype 'a qop = QAdd 'a | QRemove

fun run_queue :: "('s \<Rightarrow> 'a \<Rightarrow> 's option) \<Rightarrow> ('s \<Rightarrow> ('s \<times> 'a) option) \<Rightarrow> 's \<Rightarrow> 'a qop list \<Rightarrow> 'a list option" where
  "run_queue add rem s [] = Some []"
| "run_queue add rem s (QAdd x # ops) = do { s \<leftarrow> add s x; run_queue add rem s ops }"
| "run_queue add rem s (QRemove # ops) =
     do { (s, x) \<leftarrow> rem s; xs \<leftarrow> run_queue add rem s ops; Some (x # xs) }"

text \<open>The specification: a list, with no item in it twice, and no removal when it is empty.\<close>

fun fifo :: "'a list \<Rightarrow> 'a qop list \<Rightarrow> 'a list option" where
  "fifo xs [] = Some []"
| "fifo xs (QAdd x # ops) = (if x \<in> set xs then None else fifo (xs @ [x]) ops)"
| "fifo [] (QRemove # ops) = None"
| "fifo (x # xs) (QRemove # ops) = map_option ((#) x) (fifo xs ops)"

fun qop_items :: "'a qop list \<Rightarrow> 'a list" where
  "qop_items [] = []"
| "qop_items (QAdd x # ops) = x # qop_items ops"
| "qop_items (QRemove # ops) = qop_items ops"

locale c_queue =
  fixes rep :: "'s \<Rightarrow> 'a list \<Rightarrow> bool"
    and live :: "'s \<Rightarrow> 'a \<Rightarrow> bool"
    and add :: "'s \<Rightarrow> 'a \<Rightarrow> 's option"
    and rem :: "'s \<Rightarrow> ('s \<times> 'a) option"
  assumes add_rep: "rep s xs \<Longrightarrow> live s x \<Longrightarrow> x \<notin> set xs \<Longrightarrow> \<exists>s'. add s x = Some s' \<and> rep s' (xs @ [x])"
    and add_live: "add s x = Some s' \<Longrightarrow> live s y \<Longrightarrow> live s' y"
    and rem_rep: "rep s (x # xs) \<Longrightarrow> \<exists>s'. rem s = Some (s', x) \<and> rep s' xs"
    and rem_live: "rem s = Some (s', x) \<Longrightarrow> live s y \<Longrightarrow> live s' y"
begin

lemma run_queue_fifo:
  assumes "rep s xs" "\<forall>x \<in> set (qop_items ops). live s x" "fifo xs ops = Some out"
  shows "run_queue add rem s ops = Some out"
  using assms
proof (induction xs ops arbitrary: s out rule: fifo.induct)
  case (2 xs x ops)
  then have x: "x \<notin> set xs" "fifo (xs @ [x]) ops = Some out"
    by (auto split: if_splits)
  with "2.prems" obtain s' where s': "add s x = Some s'" "rep s' (xs @ [x])"
    using add_rep by force
  with "2.IH" [OF x(1) s'(2)] "2.prems" x add_live [OF s'(1)] show ?case by simp
next
  case (4 x xs ops)
  then obtain out' where out: "out = x # out'" "fifo xs ops = Some out'" by auto
  obtain s' where s': "rem s = Some (s', x)" "rep s' xs"
    using rem_rep [OF "4.prems"(1)] by blast
  with "4.IH" [OF s'(2), of out'] "4.prems" out rem_live [OF s'(1)] show ?case by simp
qed auto

end

text \<open>The linked queue is an implementation.\<close>

definition lq_add :: "mem \<times> queue \<Rightarrow> addr \<Rightarrow> (mem \<times> queue) option" where
  "lq_add s x = (case s of (m, q) \<Rightarrow> queue_add m q x)"

definition lq_remove :: "mem \<times> queue \<Rightarrow> ((mem \<times> queue) \<times> addr) option" where
  "lq_remove s = (case s of (m, q) \<Rightarrow> do { (q, x) \<leftarrow> queue_remove m q; Some ((m, q), x) })"

definition lq_rep :: "mem \<times> queue \<Rightarrow> addr list \<Rightarrow> bool" where
  "lq_rep s xs = (case s of (m, q) \<Rightarrow> queue_seg m q xs)"

definition lq_live :: "mem \<times> queue \<Rightarrow> addr \<Rightarrow> bool" where
  "lq_live s x = (rd (fst s) x \<noteq> None)"

lemma queue_add_rd: "queue_add m q x = Some (m', q') \<Longrightarrow> rd m y \<noteq> None \<Longrightarrow> rd m' y \<noteq> None"
  by (auto simp: queue_add_def set_next_def rd_def bind_Some_iff split: if_splits option.splits)

interpretation lq: c_queue lq_rep lq_live lq_add lq_remove
proof unfold_locales
  fix s :: "mem \<times> queue" and xs x
  assume "lq_rep s xs" "lq_live s x" "x \<notin> set xs"
  then show "\<exists>s'. lq_add s x = Some s' \<and> lq_rep s' (xs @ [x])"
    by (cases s) (auto simp: lq_rep_def lq_live_def lq_add_def elim: queue_add_seg)
next
  fix s s' :: "mem \<times> queue" and x y
  assume "lq_add s x = Some s'" "lq_live s y"
  then show "lq_live s' y"
    by (cases s; cases s') (auto simp: lq_live_def lq_add_def dest: queue_add_rd)
next
  fix s :: "mem \<times> queue" and x xs
  assume "lq_rep s (x # xs)"
  then show "\<exists>s'. lq_remove s = Some (s', x) \<and> lq_rep s' xs"
    by (cases s) (auto simp: lq_rep_def lq_remove_def elim: queue_remove_seg)
next
  fix s s' :: "mem \<times> queue" and x y
  assume "lq_remove s = Some (s', x)" "lq_live s y"
  then show "lq_live s' y"
    by (cases s; cases s') (auto simp: lq_live_def lq_remove_def bind_Some_iff)
qed

subsection \<open>Properties\<close>

text \<open>C5: a sequence of \<open>queue_add\<close> and \<open>queue_remove\<close> on a linked queue gives the items in
  order of arrival, as long as no item is added that is in the queue and none is removed
  from an empty queue.\<close>

theorem queue_is_fifo:
  assumes "queue_seg m q xs" "\<forall>x \<in> set (qop_items ops). rd m x \<noteq> None" "fifo xs ops = Some out"
  shows "run_queue lq_add lq_remove (m, q) ops = Some out"
  by (rule lq.run_queue_fifo) (use assms in \<open>auto simp: lq_rep_def lq_live_def\<close>)

theorem queue_is_fifo_witness:
  "run_queue lq_add lq_remove (\<lparr>cells = [1 \<mapsto> \<lparr>nx = 0, da = 0\<rparr>, 2 \<mapsto> \<lparr>nx = 0, da = 0\<rparr>], brk = 3\<rparr>, queue_clear)
    [QAdd 2, QAdd 1, QRemove, QAdd 2, QRemove] = Some [2, 1]"
  by (rule queue_is_fifo [of _ _ "[]"]) (simp_all add: queue_seg_def queue_clear_def rd_def)

text \<open>C4: \<open>queue_insert\<close> keeps a queue sorted and its tail pointer right.\<close>

theorem queue_insert_sorted:
  assumes "c_compare A cmp" "queue_list m q xs" "rd m n \<noteq> None" "n \<notin> set xs" "set (n # xs) \<subseteq> A" "sorted_by cmp xs"
  shows "\<exists>m' q' ys. queue_insert m q n cmp = Some (m', q') \<and> queue_list m' q' ys \<and>
    mset ys = add_mset n (mset xs) \<and> sorted_by cmp ys \<and> (\<forall>a. dat m' a = dat m a)"
proof -
  from assms(3) obtain c where c: "rd m n = Some c" by blast
  obtain m' q' where "queue_insert m q n cmp = Some (m', q')" "queue_list m' q' (insert_by cmp n xs)"
    and rel: "relinked (insert n (set xs)) m m'"
    using queue_insert_list [OF assms(2) c assms(4)] .
  moreover have "sorted_by cmp (insert_by cmp n xs)"
    using c_compare.sorted_insert_by [OF assms(1)] assms(5,6) by auto
  ultimately show ?thesis
    using relinked_dat [OF rel]
    by (intro exI [of _ m'] exI [of _ q'] exI [of _ "insert_by cmp n xs"]) simp
qed

theorem queue_insert_sorted_witness:
  "\<exists>m' q' ys. queue_insert heap3 \<lparr>qfirst = 3, qlast = 3\<rparr> 2 cmp3 = Some (m', q') \<and> queue_list m' q' ys \<and>
    mset ys = {#2, 3#} \<and> sorted_by cmp3 ys"
proof -
  have "queue_list heap3 \<lparr>qfirst = 3, qlast = 3\<rparr> [3]" "rd heap3 2 \<noteq> None"
    "set [2, 3] \<subseteq> near (\<lambda>a. int (dat heap3 a)) 0"
    by (simp_all add: queue_list_def is_list_def heap3_def rd_def tail_from_def near_def dat_def)
  from queue_insert_sorted [OF c_compare_cmp3 this(1,2) _ this(3)] show ?thesis
    by (auto simp: sorted_by_def)
qed

end
