(* ===== verification/Event_Queue.thy ===== *)
theory Event_Queue
  imports Queues
begin

section \<open>The timed event queue (core/event.c)\<close>

text \<open>
  Two queues: \<open>im_event\<close>, the immediate events (time 0) in order of arrival, and
  \<open>cur_event\<close>, the timed events sorted by time. \<open>next_event\<close> takes the head of the first
  one, else the head of the second one if it is due, else arms the timer.

  The linked structure is modelled first, for the operation that is particular to this
  file (\<open>remove_by_data\<close>, which also returns the new tail); the queue module itself then
  works on HOL lists, by \<open>queue_add_seg\<close>, \<open>insert_sorted_refines\<close> and
  \<open>remove_by_data_refines\<close>. The clock \<open>se_time ()\<close> is the argument \<open>now\<close>.
\<close>

subsection \<open>remove_by_data on the heap\<close>

partial_function (option) remove_by_data_loop ::
    "mem \<Rightarrow> addr \<Rightarrow> addr \<Rightarrow> addr \<Rightarrow> addr \<Rightarrow> (mem \<times> addr \<times> addr) option" where
  "remove_by_data_loop m first l data prev =
     (if l \<noteq> 0 then do {
        c \<leftarrow> rd m l;
        if da c = data then do {
          (m, first) \<leftarrow> (if prev \<noteq> 0 then do { m \<leftarrow> set_next m prev (nx c); Some (m, first) }
                        else Some (m, nx c));
          m \<leftarrow> free m l;
          remove_by_data_loop m first (nx c) data prev }
        else remove_by_data_loop m first (nx c) data l }
      else Some (m, first, prev))"

definition remove_by_data :: "mem \<Rightarrow> addr \<Rightarrow> addr \<Rightarrow> (mem \<times> addr \<times> addr) option" where
  "remove_by_data m first data = remove_by_data_loop m first first data 0"

text \<open>The two statements of \<open>remove_event\<close>: the tail of the immediate queue is the result.\<close>

definition remove_event_heap :: "mem \<Rightarrow> queue \<Rightarrow> addr \<Rightarrow> addr \<Rightarrow> (mem \<times> queue \<times> addr) option" where
  "remove_event_heap m im cur data =
     do { (m, f, prev) \<leftarrow> remove_by_data m (qfirst im) data;
          let im = \<lparr>qfirst = f, qlast = prev\<rparr>;
          (m, cur, prev) \<leftarrow> remove_by_data m cur data;
          Some (m, im, cur) }"

abbreviation others :: "mem \<Rightarrow> addr \<Rightarrow> addr list \<Rightarrow> addr list" where
  "others m d xs \<equiv> filter (\<lambda>a. dat m a \<noteq> d) xs"

lemma remove_by_data_loop_refines:
  assumes "is_list m p (as @ bs)" "\<forall>a \<in> set as. dat m a \<noteq> d"
  obtains m' p' where "remove_by_data_loop m p (head_of bs) d (tail_from 0 as) =
      Some (m', p', tail_from 0 (as @ others m d bs))"
    "is_list m' p' (as @ others m d bs)" "\<forall>a. a \<notin> set (as @ bs) \<longrightarrow> cells m' a = cells m a"
  using assms
proof (induction bs arbitrary: m p as thesis)
  case Nil
  then have "remove_by_data_loop m p 0 d (tail_from 0 as) = Some (m, p, tail_from 0 as)"
    by (subst remove_by_data_loop.simps) simp
  with Nil.prems show ?case by simp
next
  case (Cons b bs)
  from Cons.prems(2) obtain c where c: "rd m b = Some c" "is_list m (nx c) bs"
    by (auto simp: is_list_append)
  have nxc: "nx c = head_of bs" and b0: "b \<noteq> 0"
    using c is_list_head rd_nonzero by blast+
  have dist: "distinct (as @ b # bs)"
    using Cons.prems(2) by (rule is_list_distinct)
  show ?case
  proof (cases "dat m b = d")
    case False
    have "is_list m p ((as @ [b]) @ bs)" "\<forall>a \<in> set (as @ [b]). dat m a \<noteq> d"
      using Cons.prems(2,3) False by auto
    then obtain m' p' where m': "remove_by_data_loop m p (head_of bs) d (tail_from 0 (as @ [b])) =
        Some (m', p', tail_from 0 ((as @ [b]) @ others m d bs))"
      "is_list m' p' ((as @ [b]) @ others m d bs)"
      "\<forall>a. a \<notin> set ((as @ [b]) @ bs) \<longrightarrow> cells m' a = cells m a"
      using Cons.IH [of m p "as @ [b]"] by metis
    have "remove_by_data_loop m p b d (tail_from 0 as) = remove_by_data_loop m p (head_of bs) d b"
      using c b0 nxc False dat_rd [OF c(1)] by (subst remove_by_data_loop.simps) simp
    with m' False show ?thesis by (intro Cons.prems(1) [of m' p']) auto
  next
    case True
    obtain m1 p1 where m1: "(if tail_from 0 as \<noteq> 0 then do { m \<leftarrow> set_next m (tail_from 0 as) (nx c); Some (m, p) } else Some (m, nx c)) = Some (m1, p1)"
      "relinked (set as) m m1" "is_list m1 p1 (as @ bs)"
      using unlink_next [OF Cons.prems(2) c(1)] .
    obtain c1 where c1: "rd m1 b = Some c1"
      using relinked_rd [OF m1(2) c(1)] by auto
    obtain m2 where m2: "free m1 b = Some m2" "\<And>a. a \<noteq> b \<Longrightarrow> cells m2 a = cells m1 a"
      using free_Some [OF c1] by metis
    have b_not: "b \<notin> set (as @ bs)" using dist by simp
    have l2: "is_list m2 p1 (as @ bs)"
      using m1(3) m2(2) b_not is_list_cong [of "as @ bs" m2 m1 p1] by metis
    have d2: "dat m2 a = dat m a" if "a \<in> set (as @ bs)" for a
    proof -
      have "a \<noteq> b" using that b_not by auto
      then have "dat m2 a = dat m1 a" using m2(2) by (simp add: dat_def)
      with relinked_dat [OF m1(2)] show ?thesis by simp
    qed
    have fb: "others m2 d bs = others m d bs"
      using d2 by (intro filter_cong) auto
    have "\<forall>a \<in> set as. dat m2 a \<noteq> d"
      using Cons.prems(3) d2 by auto
    from Cons.IH [OF _ l2 this] obtain m' p' where m':
      "remove_by_data_loop m2 p1 (head_of bs) d (tail_from 0 as) = Some (m', p', tail_from 0 (as @ others m d bs))"
      "is_list m' p' (as @ others m d bs)" "\<forall>a. a \<notin> set (as @ bs) \<longrightarrow> cells m' a = cells m2 a"
      by (auto simp: fb)
    have "remove_by_data_loop m p b d (tail_from 0 as) =
        remove_by_data_loop m2 p1 (head_of bs) d (tail_from 0 as)"
      using c b0 True dat_rd [OF c(1)] m1(1) m2(1) nxc
      by (subst remove_by_data_loop.simps) simp
    moreover have "\<forall>a. a \<notin> set (as @ b # bs) \<longrightarrow> cells m' a = cells m a"
      using m'(3) m2(2) relinked_cells [OF m1(2)] by auto
    ultimately show ?thesis
      using m' True by (intro Cons.prems(1) [of m' p']) simp_all
  qed
qed

lemma remove_by_data_refines:
  assumes "is_list m p xs"
  obtains m' p' where "remove_by_data m p d = Some (m', p', tail_from 0 (others m d xs))"
    "is_list m' p' (others m d xs)" "\<forall>a. a \<notin> set xs \<longrightarrow> cells m' a = cells m a"
  using remove_by_data_loop_refines [of m p "[]" xs d] assms is_list_head [OF assms]
  by (auto simp: remove_by_data_def)

text \<open>After \<open>remove_event\<close> the tail pointer of the immediate queue is right again.\<close>

theorem remove_event_heap_refines:
  assumes "queue_list m im xs" "is_list m cur ys" "set xs \<inter> set ys = {}"
  obtains m' im' cur' where "remove_event_heap m im cur d = Some (m', im', cur')"
    "queue_list m' im' (others m d xs)" "is_list m' cur' (others m d ys)"
proof -
  from assms(1) have "is_list m (qfirst im) xs" by (simp add: queue_list_def)
  then obtain m1 f where m1: "remove_by_data m (qfirst im) d = Some (m1, f, tail_from 0 (others m d xs))"
    "is_list m1 f (others m d xs)" "\<forall>a. a \<notin> set xs \<longrightarrow> cells m1 a = cells m a"
    by (rule remove_by_data_refines)
  have same: "cells m1 a = cells m a" if "a \<in> set ys" for a
    using that m1(3) assms(3) by auto
  have "is_list m1 cur ys"
    using assms(2) is_list_cong [of ys m1 m cur] same by metis
  then obtain m2 c where m2: "remove_by_data m1 cur d = Some (m2, c, tail_from 0 (others m1 d ys))"
    "is_list m2 c (others m1 d ys)" "\<forall>a. a \<notin> set ys \<longrightarrow> cells m2 a = cells m1 a"
    by (rule remove_by_data_refines)
  have oy: "others m1 d ys = others m d ys"
    using same by (intro filter_cong) (auto simp: dat_def)
  have "cells m2 a = cells m1 a" if "a \<in> set (others m d xs)" for a
    using that m2(3) assms(3) by auto
  then have "is_list m2 f (others m d xs)"
    using m1(2) is_list_cong [of "others m d xs" m2 m1 f] by metis
  with m1 m2 oy show thesis
    by (intro that [of m2 "\<lparr>qfirst = f, qlast = tail_from 0 (others m d xs)\<rparr>" c])
      (simp_all add: remove_event_heap_def queue_list_def)
qed

subsection \<open>The event queue\<close>

text \<open>The event types the program defines above \<open>EVENT_NEW\<close>, and \<open>EVENT_NONE\<close>.\<close>

datatype event_type = EVENT_NONE | EVENT_TIMER | EVENT_START | EVENT_END
  | RESOURCE_POLL | RESOURCE_UPDATE | RESOURCE_REMOVE | RETRIEVE_FAIL
  | SCHEDULE_UPDATE | DEVICE_SCHEDULE | DEVICE_METERING | DEFAULT_CONTROL

record 'd event =
  edata :: 'd
  etype :: event_type
  etime :: int

record 'd event_queue =
  cur_event :: "'d event list"
  im_event :: "'d event list"
  ev_timer :: "int option"

definition event_init :: "'d event_queue" where
  "event_init = \<lparr>cur_event = [], im_event = [], ev_timer = None\<rparr>"

definition event_compare :: "'d event \<Rightarrow> 'd event \<Rightarrow> int" where
  "event_compare x y = c_int (etime x - etime y)"

definition insert_event :: "'d event_queue \<Rightarrow> 'd \<Rightarrow> event_type \<Rightarrow> int \<Rightarrow> 'd event_queue" where
  "insert_event q data type time =
     (let e = \<lparr>edata = data, etype = type, etime = time\<rparr> in
      if time = 0 then q\<lparr>im_event := im_event q @ [e]\<rparr>
      else q\<lparr>cur_event := insert_by event_compare e (cur_event q)\<rparr>)"

definition remove_event :: "'d event_queue \<Rightarrow> 'd \<Rightarrow> 'd event_queue" where
  "remove_event q data =
     q\<lparr>im_event := filter (\<lambda>e. edata e \<noteq> data) (im_event q),
       cur_event := filter (\<lambda>e. edata e \<noteq> data) (cur_event q)\<rparr>"

definition set_timer :: "'d event_queue \<Rightarrow> int \<Rightarrow> 'd event_queue" where
  "set_timer q timeout = q\<lparr>ev_timer := Some (c_int timeout)\<rparr>"

definition next_event :: "int \<Rightarrow> 'd event_queue \<Rightarrow> 'd event_queue \<times> event_type \<times> 'd option" where
  "next_event now q =
     (case im_event q of
        e # es \<Rightarrow> (q\<lparr>im_event := es\<rparr>, etype e, Some (edata e))
      | [] \<Rightarrow>
        (case cur_event q of
           e # es \<Rightarrow>
             if etime e \<le> now then (q\<lparr>cur_event := es\<rparr>, etype e, Some (edata e))
             else (set_timer q (etime e - now), EVENT_NONE, None)
         | [] \<Rightarrow> (set_timer q 0, EVENT_NONE, None)))"


subsection \<open>Invariant\<close>

text \<open>
  The times of the timed events lie within \<open>2 ^ 31\<close> seconds of each other, so that the
  difference that \<open>event_compare\<close> returns as \<open>int\<close> is exact.
\<close>

definition event_ok :: "int \<Rightarrow> 'd event_queue \<Rightarrow> bool" where
  "event_ok lo q \<longleftrightarrow> sorted_by event_compare (cur_event q) \<and> set (cur_event q) \<subseteq> near etime lo \<and>
     (\<forall>e \<in> set (cur_event q). etime e \<noteq> 0) \<and> (\<forall>e \<in> set (im_event q). etime e = 0)"

interpretation evc: c_compare "near etime lo" event_compare
  for lo
  unfolding event_compare_def by (rule c_compare_diff)

lemma event_compare_near:
  "x \<in> near etime lo \<Longrightarrow> y \<in> near etime lo \<Longrightarrow> event_compare x y \<le> 0 \<longleftrightarrow> etime x \<le> etime y"
  by (simp add: event_compare_def near_diff)

lemma event_ok_init: "event_ok lo event_init"
  by (simp add: event_ok_def event_init_def sorted_by_def)

lemma event_ok_insert:
  assumes "event_ok lo q" "time = 0 \<or> lo \<le> time \<and> time < lo + 2 ^ 31"
  shows "event_ok lo (insert_event q d t time)"
proof (cases "time = 0")
  case True
  with assms(1) show ?thesis by (auto simp: event_ok_def insert_event_def)
next
  case False
  let ?e = "\<lparr>edata = d, etype = t, etime = time\<rparr>"
  have "?e \<in> near etime lo" using assms(2) False by (simp add: near_def)
  with assms(1) evc.sorted_insert_by [of ?e lo "cur_event q"] False show ?thesis
    by (auto simp: event_ok_def insert_event_def)
qed

lemma sorted_by_filter: "sorted_by cmp xs \<Longrightarrow> sorted_by cmp (filter P xs)"
  by (simp add: sorted_by_def sorted_wrt_filter)

lemma event_ok_remove: "event_ok lo q \<Longrightarrow> event_ok lo (remove_event q d)"
  by (auto simp: event_ok_def remove_event_def sorted_by_filter)




abbreviation due_events :: "int \<Rightarrow> 'd event_queue \<Rightarrow> 'd event list" where
  "due_events now q \<equiv> im_event q @ filter (\<lambda>e. etime e \<le> now) (cur_event q)"




text \<open>\<open>remove_event\<close> removes every event of the data and nothing else, in order.\<close>

lemma remove_event_delivers:
  "due_events now (remove_event q d) = filter (\<lambda>e. edata e \<noteq> d) (due_events now q)"
  by (simp add: remove_event_def conj_commute)

text \<open>
  \<open>event_compare\<close> truncates the difference of two 64-bit times to \<open>int\<close>. With one event
  more than \<open>2 ^ 31\<close> seconds after another, the later one is put first, and the due event
  behind it is not delivered.
\<close>

theorem event_compare_truncates:
  "let q = insert_event (insert_event event_init (1 :: nat) EVENT_START 1000) 2 EVENT_END (1000 + 2 ^ 31)
   in fst (snd (next_event 2000 q)) = EVENT_NONE \<and>
      (\<exists>e \<in> set (cur_event q). edata e = 1 \<and> etime e \<le> 2000)"
  by (simp add: insert_event_def event_init_def event_compare_def c_int_def next_event_def set_timer_def)

end
