(* ===== verification/Se_Types.thy ===== *)
theory Se_Types
  imports Prelude
begin

section \<open>IEEE 2030.5 objects (core/se_types.h)\<close>

text \<open>
  The structures that the modelled functions read or write, with their fields in the order
  of the C structures. A C structure that begins with the fields of another one, so that the
  code can cast a pointer to it, is an extension of that record. Signed integers are \<open>int\<close>,
  unsigned ones words of their width, a \<open>char *\<close> is an optional string, a character array
  the string in it, a byte array a list of bytes.
\<close>

unbundle bit_operations_syntax

subsection \<open>Flags\<close>

record se_obj =
  se_flags :: u32

definition se_exists :: "'a se_obj_scheme \<Rightarrow> nat \<Rightarrow> bool" where
  "se_exists x f \<longleftrightarrow> se_flags x AND push_bit f 1 \<noteq> 0"

definition se_set :: "'a se_obj_scheme \<Rightarrow> nat \<Rightarrow> 'a se_obj_scheme" where
  "se_set x f = x\<lparr>se_flags := se_flags x OR push_bit f 1\<rparr>"

definition se_clear :: "'a se_obj_scheme \<Rightarrow> nat \<Rightarrow> 'a se_obj_scheme" where
  "se_clear x f = x\<lparr>se_flags := se_flags x AND NOT (push_bit f 1)\<rparr>"

lemma se_exists_bit: "se_exists x f \<longleftrightarrow> bit (se_flags x) f"
  by (simp add: se_exists_def bit_iff_and_push_bit_not_eq_0)

lemma se_exists_set: "f < 32 \<Longrightarrow> se_exists (se_set x g) f \<longleftrightarrow> f = g \<or> se_exists x f"
  by (auto simp: se_exists_bit se_set_def bit_or_iff bit_exp_iff possible_bit_def)

lemma se_exists_clear: "f < 32 \<Longrightarrow> se_exists (se_clear x g) f \<longleftrightarrow> f \<noteq> g \<and> se_exists x f"
  by (auto simp: se_exists_bit se_clear_def bit_and_iff bit_not_iff bit_exp_iff possible_bit_def)

subsection \<open>Resources, links and identified objects\<close>

record se_resource = se_obj +
  href :: "string option"

record se_list_link = se_resource +
  link_all :: u16

record se_date_time_interval =
  duration :: u32
  int_start :: int

record se_unit_value =
  uv_multiplier :: int
  uv_unit :: u8
  uv_value :: int

record se_identified_object = se_resource +
  io_mRID :: "u8 list"
  io_description :: string
  io_version :: u16

subsection \<open>Events\<close>

record se_event_status = se_obj +
  currentStatus :: u8
  es_dateTime :: int
  potentiallySupersededTime :: int
  reason :: string

record se_respondable_subscribable_identified_object = se_resource +
  replyTo :: "string option"
  responseRequired :: u8
  subscribable :: u8
  mRID :: "u8 list"
  description :: string
  version :: u16

record se_event = se_respondable_subscribable_identified_object +
  creationTime :: int
  EventStatus :: se_event_status
  interval :: se_date_time_interval

record se_randomizable_event = se_event +
  randomizeDuration :: int
  randomizeStart :: int

subsection \<open>DER controls\<close>

record se_power_factor =
  displacement :: int
  pf_multiplier :: int

record se_fixed_var =
  refType :: u8
  fv_value :: int

record se_freq_droop =
  dBOF :: u32
  dBUF :: u32
  kOF :: u16
  kUF :: u16
  fd_openLoopTms :: u16

record se_active_power =
  ap_multiplier :: int
  ap_value :: int

record se_reactive_power =
  rp_multiplier :: int
  rp_value :: int

record se_der_control_base = se_obj +
  opModFixedPF :: se_power_factor
  opModFixedVar :: se_fixed_var
  opModFixedW :: int
  opModFreqDroop :: se_freq_droop
  opModFreqWatt :: se_resource
  opModHFRTMustTrip :: se_resource
  opModHVRTMomentaryCessation :: se_resource
  opModHVRTMustTrip :: se_resource
  opModLFRTMustTrip :: se_resource
  opModLVRTMomentaryCessation :: se_resource
  opModLVRTMustTrip :: se_resource
  opModMaxLimW :: u16
  opModTargetVar :: se_reactive_power
  opModTargetW :: se_active_power
  opModVoltVar :: se_resource
  opModVoltWatt :: se_resource
  opModWattPF :: se_resource
  opModWattVar :: se_resource
  rampTms :: u16

text \<open>The flag bits of \<open>SE_DERControlBase_t\<close>.\<close>

definition f_rampTms :: nat where "f_rampTms = 0"
definition f_opModWattVar :: nat where "f_opModWattVar = 1"
definition f_opModWattPF :: nat where "f_opModWattPF = 2"
definition f_opModVoltWatt :: nat where "f_opModVoltWatt = 3"
definition f_opModVoltVar :: nat where "f_opModVoltVar = 4"
definition f_opModTargetW :: nat where "f_opModTargetW = 5"
definition f_opModTargetVar :: nat where "f_opModTargetVar = 6"
definition f_opModMaxLimW :: nat where "f_opModMaxLimW = 7"
definition f_opModLVRTMustTrip :: nat where "f_opModLVRTMustTrip = 8"
definition f_opModLVRTMomentaryCessation :: nat where "f_opModLVRTMomentaryCessation = 9"
definition f_opModLFRTMustTrip :: nat where "f_opModLFRTMustTrip = 10"
definition f_opModHVRTMustTrip :: nat where "f_opModHVRTMustTrip = 11"
definition f_opModHVRTMomentaryCessation :: nat where "f_opModHVRTMomentaryCessation = 12"
definition f_opModHFRTMustTrip :: nat where "f_opModHFRTMustTrip = 13"
definition f_opModFreqWatt :: nat where "f_opModFreqWatt = 14"
definition f_opModFreqDroop :: nat where "f_opModFreqDroop = 15"
definition f_opModFixedW :: nat where "f_opModFixedW = 16"
definition f_opModFixedVar :: nat where "f_opModFixedVar = 17"
definition f_opModFixedPF :: nat where "f_opModFixedPF = 18"
definition t_opModEnergize :: nat where "t_opModEnergize = 19"
definition f_opModEnergize :: nat where "f_opModEnergize = 20"
definition t_opModConnect :: nat where "t_opModConnect = 21"
definition f_opModConnect :: nat where "f_opModConnect = 22"

lemmas der_flag_defs = f_rampTms_def f_opModWattVar_def f_opModWattPF_def f_opModVoltWatt_def
  f_opModVoltVar_def f_opModTargetW_def f_opModTargetVar_def f_opModMaxLimW_def
  f_opModLVRTMustTrip_def f_opModLVRTMomentaryCessation_def f_opModLFRTMustTrip_def
  f_opModHVRTMustTrip_def f_opModHVRTMomentaryCessation_def f_opModHFRTMustTrip_def
  f_opModFreqWatt_def f_opModFreqDroop_def f_opModFixedW_def f_opModFixedVar_def
  f_opModFixedPF_def t_opModEnergize_def f_opModEnergize_def t_opModConnect_def f_opModConnect_def

record se_der_control = se_randomizable_event +
  DERControlBase :: se_der_control_base

record se_default_der_control = se_resource +
  dd_subscribable :: u8
  dd_mRID :: "u8 list"
  dd_description :: string
  dd_version :: u16
  dd_DERControlBase :: se_der_control_base
  setESDelay :: u16
  setESHighFreq :: u16
  setESHighVolt :: int
  setESLowFreq :: u16
  setESLowVolt :: int
  setESRandomDelay :: u16
  setGradW :: u16
  setSoftGradW :: u16

record se_der_program = se_resource +
  dp_subscribable :: u8
  dp_mRID :: "u8 list"
  dp_description :: string
  dp_version :: u16
  ActiveDERControlListLink :: se_list_link
  DefaultDERControlLink :: se_resource
  DERControlListLink :: se_list_link
  DERCurveListLink :: se_list_link
  primacy :: u8

subsection \<open>Responses, time, metering\<close>

record se_response = se_resource +
  createdDateTime :: int
  endDeviceLFDI :: "u8 list"
  rsp_status :: u8
  subject :: "u8 list"

record se_time = se_resource +
  tm_pollRate :: u32
  currentTime :: int
  dstEndTime :: int
  dstOffset :: int
  dstStartTime :: int
  localTime :: int
  quality :: u8
  tzOffset :: int

record se_reading_type = se_resource +
  accumulationBehaviour :: u8
  calorificValue :: se_unit_value
  commodity :: u8
  conversionFactor :: se_unit_value
  dataQualifier :: u8
  flowDirection :: u8
  intervalLength :: u32
  kind :: u8
  maxNumberOfIntervals :: u8
  numberOfConsumptionBlocks :: u8
  numberOfTouTiers :: u8
  phase :: u8
  powerOfTenMultiplier :: int
  subIntervalLength :: u32
  supplyLimit :: u64
  uom :: u8

record se_reading = se_resource +
  consumptionBlock :: u8
  qualityFlags :: "u8 list"
  timePeriod :: se_date_time_interval
  touTier :: u8
  rd_value :: int
  rd_subscribable :: u8
  localID :: "u8 list"

record se_mirror_meter_reading = se_identified_object +
  lastUpdateTime :: int
  MirrorReadingSet :: "nat list"
  nextUpdateTime :: int
  Reading :: se_reading
  ReadingType :: se_reading_type

record se_usage_point_base = se_identified_object +
  roleFlags :: "u8 list"
  serviceCategoryKind :: u8
  up_status :: u8

record se_mirror_usage_point = se_usage_point_base +
  deviceLFDI :: "u8 list"
  MirrorMeterReading :: "nat list"
  postRate :: u32

end
