(* ===== verification/Schedule.thy ===== *)
theory Schedule
  imports Event_Queue Se_Types
begin

section \<open>Event schedules (core/schedule.c)\<close>

text \<open>
  An event block is an event as it is scheduled for one device. The blocks live in a store;
  the three queues of a schedule are lists of their numbers, as a block is linked into one
  queue at a time (\<open>schedule_der\<close> clears the queues before it fills them). The hash
  table of a schedule is the map it stands for (theory \<open>Hash\<close> has the table itself).

  The event queue is that of theory \<open>Event_Queue\<close>. The calls into the retrieval and
  connection modules (\<open>se_post\<close>, \<open>poll_resource\<close>, \<open>update_resource\<close>) are recorded in
  order in a log. The results of \<open>rand ()\<close> are an input: \<open>None\<close> means that the code asked
  for more of them than were given.
\<close>

unbundle bit_operations_syntax

subsection \<open>Constants and data\<close>

abbreviation (input) Scheduled :: u8 where "Scheduled \<equiv> 0"
abbreviation (input) Active :: u8 where "Active \<equiv> 1"
abbreviation (input) Canceled :: u8 where "Canceled \<equiv> 2"
abbreviation (input) CanceledRandom :: u8 where "CanceledRandom \<equiv> 3"
abbreviation (input) Superseded :: u8 where "Superseded \<equiv> 4"
abbreviation (input) Aborted :: u8 where "Aborted \<equiv> 5"
abbreviation (input) Completed :: u8 where "Completed \<equiv> 6"
abbreviation (input) ActiveWait :: u8 where "ActiveWait \<equiv> 7"
abbreviation (input) ScheduleSuperseded :: u8 where "ScheduleSuperseded \<equiv> 8"

text \<open>The response types of \<open>se_connection.c\<close>.\<close>

datatype response_type = EventReceived | EventStarted | EventCompleted | EventOptOut | EventOptIn
  | EventCanceled | EventSuperseded | EventPartialOptOut | EventPartialOptIn | EventCompleteOptOut
  | EventAcknowledge | EventNoDisplay | EventAbortedServer | EventAbortedProgram
  | EventInapplicable | EventInvalid | EventExpired

fun response_code :: "response_type \<Rightarrow> u8" where
  "response_code EventReceived = 1" | "response_code EventStarted = 2"
| "response_code EventCompleted = 3" | "response_code EventOptOut = 4"
| "response_code EventOptIn = 5" | "response_code EventCanceled = 6"
| "response_code EventSuperseded = 7" | "response_code EventPartialOptOut = 8"
| "response_code EventPartialOptIn = 9" | "response_code EventCompleteOptOut = 10"
| "response_code EventAcknowledge = 11" | "response_code EventNoDisplay = 12"
| "response_code EventAbortedServer = 13" | "response_code EventAbortedProgram = 14"
| "response_code EventInapplicable = 252" | "response_code EventInvalid = 253"
| "response_code EventExpired = 254"

text \<open>The data of an event stub with its type.\<close>

datatype event_object =
    DERControl se_der_control
  | RandomizableEvent nat se_randomizable_event
  | PlainEvent nat se_event

definition SE_DERControl :: nat where "SE_DERControl = 67"
definition SE_EndDeviceControl :: nat where "SE_EndDeviceControl = 111"
definition SE_TimeTariffInterval :: nat where "SE_TimeTariffInterval = 303"

fun object_type :: "event_object \<Rightarrow> nat" where
  "object_type (DERControl c) = SE_DERControl"
| "object_type (RandomizableEvent t c) = t"
| "object_type (PlainEvent t c) = t"

text \<open>The casts of \<open>resource_data\<close> to the event types.\<close>

fun as_event :: "event_object \<Rightarrow> se_event" where
  "as_event (DERControl c) = se_event.truncate c"
| "as_event (RandomizableEvent t c) = se_event.truncate c"
| "as_event (PlainEvent t c) = c"

fun as_randomizable :: "event_object \<Rightarrow> se_randomizable_event option" where
  "as_randomizable (DERControl c) = Some (se_randomizable_event.truncate c)"
| "as_randomizable (RandomizableEvent t c) = Some c"
| "as_randomizable (PlainEvent t c) = None"

record event_block =
  eb_event :: nat
  eb_program :: "nat option"
  eb_context :: "nat option"
  eb_status :: u8
  eb_primacy :: u8
  eb_der :: u32
  eb_start :: int
  eb_end :: int

record schedule =
  s_next :: int
  s_device :: nat
  s_context :: nat
  s_blocks :: "u8 list \<rightharpoonup> nat"
  s_scheduled :: "nat list"
  s_active :: "nat list"
  s_superseded :: "nat list"

record event_stub =
  st_object :: event_object
  st_poll_rate :: int
  st_schedules :: "nat list"
  st_completion :: bool

datatype target = TBlock nat | TSchedule nat | TDevice nat | TStub nat

datatype action =
    Post nat se_response "string option"
  | Poll_Resource nat
  | Update_Resource nat
  | Remove_Stub nat

record world =
  w_clock :: int
  w_offset :: int
  w_sync :: int
  w_blocks :: "nat \<Rightarrow> event_block"
  w_next_block :: nat
  w_freed :: "nat list"
  w_schedules :: "nat \<Rightarrow> schedule"
  w_events :: "nat \<Rightarrow> event_stub"
  w_lfdi :: "nat \<Rightarrow> u8 list"
  w_queue :: "target event_queue"
  w_log :: "action list"

definition se_time :: "world \<Rightarrow> int" where
  "se_time w = w_clock w + w_offset w"

definition event_data :: "world \<Rightarrow> nat \<Rightarrow> se_event" where
  "event_data w e = as_event (st_object (w_events w e))"

definition upd_block :: "nat \<Rightarrow> (event_block \<Rightarrow> event_block) \<Rightarrow> world \<Rightarrow> world" where
  "upd_block b f w = w\<lparr>w_blocks := (w_blocks w)(b := f (w_blocks w b))\<rparr>"

definition upd_schedule :: "nat \<Rightarrow> (schedule \<Rightarrow> schedule) \<Rightarrow> world \<Rightarrow> world" where
  "upd_schedule s f w = w\<lparr>w_schedules := (w_schedules w)(s := f (w_schedules w s))\<rparr>"

definition upd_event :: "nat \<Rightarrow> (event_stub \<Rightarrow> event_stub) \<Rightarrow> world \<Rightarrow> world" where
  "upd_event e f w = w\<lparr>w_events := (w_events w)(e := f (w_events w e))\<rparr>"

definition add_event :: "target \<Rightarrow> event_type \<Rightarrow> int \<Rightarrow> world \<Rightarrow> world" where
  "add_event d t time w = w\<lparr>w_queue := insert_event (w_queue w) d t time\<rparr>"

definition drop_event :: "target \<Rightarrow> world \<Rightarrow> world" where
  "drop_event d w = w\<lparr>w_queue := remove_event (w_queue w) d\<rparr>"

definition log_action :: "action \<Rightarrow> world \<Rightarrow> world" where
  "log_action a w = w\<lparr>w_log := w_log w @ [a]\<rparr>"

lemmas upd_defs = upd_block_def upd_schedule_def upd_event_def add_event_def drop_event_def log_action_def

subsection \<open>Random offsets\<close>

definition RAND_MAX :: int where "RAND_MAX = 2147483647"

fun rand_loop :: "int \<Rightarrow> int list \<Rightarrow> (int \<times> int list) option" where
  "rand_loop upper [] = None"
| "rand_loop upper (r # rs) = (if r > upper then rand_loop upper rs else Some (r, rs))"

text \<open>\<open>%\<close> of C truncates towards zero; both operands are non-negative here.\<close>

definition rand_bound :: "int \<Rightarrow> int list \<Rightarrow> (int \<times> int list) option" where
  "rand_bound bound rs =
     (if bound \<noteq> 0 then
        let sign = (if bound < 0 then -1 else 1);
            bound = bound * sign;
            upper = RAND_MAX - RAND_MAX mod bound
        in map_option (\<lambda>(result, rs). (sign * (result mod (bound + 1)), rs)) (rand_loop upper rs)
      else Some (0, rs))"

definition randomize_start :: "world \<Rightarrow> nat \<Rightarrow> int list \<Rightarrow> (int \<times> int list) option" where
  "randomize_start w e rs =
     (case as_randomizable (st_object (w_events w e)) of
        Some ev \<Rightarrow> rand_bound (randomizeStart ev) rs | None \<Rightarrow> None)"

definition randomize_duration :: "world \<Rightarrow> nat \<Rightarrow> int list \<Rightarrow> (int \<times> int list) option" where
  "randomize_duration w e rs =
     (case as_randomizable (st_object (w_events w e)) of
        Some ev \<Rightarrow> rand_bound (randomizeDuration ev) rs | None \<Rightarrow> None)"

definition randomizable :: "nat \<Rightarrow> bool" where
  "randomizable t \<longleftrightarrow> t = SE_DERControl \<or> t = SE_TimeTariffInterval \<or> t = SE_EndDeviceControl"

subsection \<open>Responses\<close>

definition se_response :: "int \<Rightarrow> se_event \<Rightarrow> u8 list \<Rightarrow> response_type \<Rightarrow> se_response" where
  "se_response clock ev lfdi status =
     \<lparr>se_flags = push_bit 6 1 OR push_bit 5 1, href = None, createdDateTime = clock,
      endDeviceLFDI = take 20 lfdi, rsp_status = response_code status, subject = take 16 (mRID ev)\<rparr>"

definition device_response :: "nat \<Rightarrow> nat \<Rightarrow> response_type \<Rightarrow> world \<Rightarrow> world" where
  "device_response device event status w =
     (let ev = event_data w event in
      if (status = EventReceived \<and> responseRequired ev AND 1 \<noteq> 0) \<or> responseRequired ev AND 2 \<noteq> 0
      then log_action (Post event (se_response (w_clock w) ev (w_lfdi w device) status) (replyTo ev)) w
      else w)"

subsection \<open>Blocks\<close>

definition der_base :: "world \<Rightarrow> nat \<Rightarrow> u32" where
  "der_base w event =
     (case st_object (w_events w event) of DERControl c \<Rightarrow> se_flags (DERControlBase c) | _ \<Rightarrow> 0)"

text \<open>Whether \<open>a\<close> supersedes \<open>b\<close>; the loser gives up the controls that both have.\<close>

definition block_supersede :: "nat \<Rightarrow> nat \<Rightarrow> world \<Rightarrow> world \<times> bool" where
  "block_supersede a b w =
     (let x = event_data w (eb_event (w_blocks w a)); y = event_data w (eb_event (w_blocks w b));
          ba = w_blocks w a; bb = w_blocks w b in
      if (eb_primacy ba = eb_primacy bb \<and> creationTime x > creationTime y) \<or> eb_primacy ba < eb_primacy bb
      then if eb_der ba \<noteq> 0
           then let d = eb_der bb AND NOT (eb_der ba) in (upd_block b (\<lambda>e. e\<lparr>eb_der := d\<rparr>) w, d = 0)
           else (w, True)
      else (upd_block a (\<lambda>e. e\<lparr>eb_der := eb_der e AND NOT (eb_der bb)\<rparr>) w, False))"

definition new_block :: "nat \<Rightarrow> u8 \<Rightarrow> int list \<Rightarrow> world \<Rightarrow> (world \<times> nat \<times> int list) option" where
  "new_block event prim rs w =
     (let ev = event_data w event; r = randomizable (object_type (st_object (w_events w event))) in
      do { (ds, rs) \<leftarrow> (if r then randomize_start w event rs else Some (0, rs));
           (dd, rs) \<leftarrow> (if r then randomize_duration w event rs else Some (0, rs));
           let start = int_start (interval ev) + ds;
           let b = w_next_block w;
           let eb = \<lparr>eb_event = event, eb_program = None, eb_context = None, eb_status = 0,
             eb_primacy = prim, eb_der = 0, eb_start = start,
             eb_end = start + uint (duration (interval ev)) + dd\<rparr>;
           Some (w\<lparr>w_blocks := (w_blocks w)(b := eb), w_next_block := Suc b\<rparr>, b, rs) })"

definition event_status :: "world \<Rightarrow> nat \<Rightarrow> u8" where
  "event_status w event = currentStatus (EventStatus (event_data w event))"

definition compare_start :: "world \<Rightarrow> nat \<Rightarrow> nat \<Rightarrow> int" where
  "compare_start w x y = c_int (eb_start (w_blocks w x) - eb_start (w_blocks w y))"

definition compare_end :: "world \<Rightarrow> nat \<Rightarrow> nat \<Rightarrow> int" where
  "compare_end w x y = c_int (eb_end (w_blocks w x) - eb_end (w_blocks w y))"

text \<open>The interval of an event as the server gives it, in \<open>uint64_t\<close>.\<close>

definition event_interval :: "world \<Rightarrow> nat \<Rightarrow> u64 \<times> u64" where
  "event_interval w event =
     (let ev = event_data w event; start = word_of_int (int_start (interval ev)) in
      (start, start + word_of_int (uint (duration (interval ev)))))"

definition is_der_control :: "world \<Rightarrow> nat \<Rightarrow> bool" where
  "is_der_control w event \<longleftrightarrow> object_type (st_object (w_events w event)) = SE_DERControl"

definition set_status :: "nat \<Rightarrow> u8 \<Rightarrow> world \<Rightarrow> world" where
  "set_status b st = upd_block b (\<lambda>e. e\<lparr>eb_status := st\<rparr>)"

text \<open>
  The loop of \<open>insert_block\<close>: \<open>kept\<close> are the blocks before the current one, in reverse.
  The result tells whether the block itself was superseded.
\<close>

fun insert_block_loop :: "nat \<Rightarrow> nat \<Rightarrow> nat list \<Rightarrow> nat list \<Rightarrow> world \<Rightarrow> world \<times> nat list \<times> bool" where
  "insert_block_loop s eb kept [] w = (w, rev kept, False)"
| "insert_block_loop s eb kept (e # next) w =
     (case (event_interval w (eb_event (w_blocks w eb)), event_interval w (eb_event (w_blocks w e))) of
        ((xs, xe), (ys, ye)) \<Rightarrow>
        if xs < ye \<and> xe > ys then
          (case block_supersede eb e w of
             (w, True) \<Rightarrow>
               let w = set_status e ScheduleSuperseded w;
                   w = upd_schedule s (\<lambda>s. s\<lparr>s_superseded := e # s_superseded s\<rparr>) w
               in insert_block_loop s eb kept next w
           | (w, False) \<Rightarrow>
               if eb_der (w_blocks w eb) = 0 then
                 let w = set_status eb ScheduleSuperseded w;
                     w = upd_schedule s (\<lambda>s. s\<lparr>s_superseded := eb # s_superseded s\<rparr>) w
                 in (w, rev kept @ e # next, True)
               else insert_block_loop s eb (e # kept) next w)
        else
          let w = (if xe = ys then upd_block e (\<lambda>b. b\<lparr>eb_start := eb_end (w_blocks w eb)\<rparr>) w
                   else if xe = ye then upd_block e (\<lambda>b. b\<lparr>eb_end := eb_end (w_blocks w eb)\<rparr>) w
                   else w)
          in insert_block_loop s eb (e # kept) next w)"

definition insert_block :: "nat \<Rightarrow> nat \<Rightarrow> world \<Rightarrow> world" where
  "insert_block s eb w =
     (let w = set_status eb Scheduled w;
          event = eb_event (w_blocks w eb);
          w = (if is_der_control w event then upd_block eb (\<lambda>b. b\<lparr>eb_der := der_base w event\<rparr>) w else w)
      in case insert_block_loop s eb [] (s_scheduled (w_schedules w s)) w of
           (w, sched, superseded) \<Rightarrow>
             let sched = (if superseded then sched else insert_by (compare_start w) eb sched)
             in upd_schedule s (\<lambda>s. s\<lparr>s_scheduled := sched\<rparr>) w)"

definition active_poll_rate :: int where "active_poll_rate = 300"

definition activate_block :: "nat \<Rightarrow> nat \<Rightarrow> world \<Rightarrow> world" where
  "activate_block s eb w =
     (let event = eb_event (w_blocks w eb);
          w = (if eb_status (w_blocks w eb) \<noteq> Active then
                 let w = set_status eb Active w;
                     w = add_event (TBlock eb) EVENT_START 0 w
                 in device_response (s_device (w_schedules w s)) event EventStarted w
               else w);
          w = upd_event event (\<lambda>st. st\<lparr>st_poll_rate := active_poll_rate\<rparr>) w
      in log_action (Poll_Resource event) w)"

text \<open>
  The loop of \<open>insert_active\<close>. The pointer \<open>prev\<close> stays at the head of the queue, so that
  unlinking a block makes the rest of the list after it the whole queue.
\<close>

fun insert_active_loop :: "nat \<Rightarrow> nat \<Rightarrow> nat list \<Rightarrow> world \<Rightarrow> world \<times> bool" where
  "insert_active_loop s eb [] w = (w, False)"
| "insert_active_loop s eb (a # next) w =
     (let device = s_device (w_schedules w s) in
      case block_supersede eb a w of
        (w, True) \<Rightarrow>
          let w = upd_schedule s (\<lambda>s. s\<lparr>s_active := next\<rparr>) w;
              w = upd_block a (\<lambda>b. b\<lparr>eb_end := eb_start (w_blocks w eb)\<rparr>) w;
              w = (if eb_status (w_blocks w a) = Active then add_event (TBlock a) EVENT_END 0 w else w);
              w = set_status a Superseded w;
              w = device_response device (eb_event (w_blocks w a)) EventSuperseded w
          in insert_active_loop s eb next w
      | (w, False) \<Rightarrow>
          if eb_der (w_blocks w eb) = 0 then
            let w = set_status eb Superseded w
            in (device_response device (eb_event (w_blocks w eb)) EventSuperseded w, True)
          else insert_active_loop s eb next w)"

definition insert_active :: "nat \<Rightarrow> nat \<Rightarrow> world \<Rightarrow> world" where
  "insert_active s eb w =
     (let event = eb_event (w_blocks w eb);
          w = (if is_der_control w event then upd_block eb (\<lambda>b. b\<lparr>eb_der := der_base w event\<rparr>) w else w)
      in case insert_active_loop s eb (s_active (w_schedules w s)) w of
           (w, True) \<Rightarrow> w
         | (w, False) \<Rightarrow>
             let w = (if event_status w event = Scheduled then
                        set_status eb ActiveWait (log_action (Update_Resource event) w)
                      else if event_status w event = Active then activate_block s eb w
                      else w)
             in upd_schedule s (\<lambda>sc. sc\<lparr>s_active := insert_by (compare_end w) eb (s_active sc)\<rparr>) w)"

definition get_block :: "world \<Rightarrow> nat \<Rightarrow> nat \<Rightarrow> nat option" where
  "get_block w s event = s_blocks (w_schedules w s) (mRID (event_data w event))"

text \<open>A block that is looked up for an event of a schedule is used without a check.\<close>

definition activate_blocks :: "nat \<Rightarrow> world \<Rightarrow> world option" where
  "activate_blocks event w =
     fold_opt (\<lambda>w s. do { eb \<leftarrow> get_block w s event;
         Some (if eb_status (w_blocks w eb) = ActiveWait then activate_block s eb w else w) })
       (st_schedules (w_events w event)) w"

definition remove_block :: "nat \<Rightarrow> nat \<Rightarrow> world \<Rightarrow> world" where
  "remove_block s eb w =
     (let st = eb_status (w_blocks w eb) in
      if st = Scheduled then
        upd_schedule s (\<lambda>s. s\<lparr>s_scheduled := remove1 eb (s_scheduled s)\<rparr>) w
      else if st = Active \<or> st = ActiveWait then
        let w = (if st = Active then
                   let w = upd_block eb (\<lambda>b. b\<lparr>eb_end := se_time w\<rparr>) w;
                       w = drop_event (TBlock eb) w
                   in add_event (TBlock eb) EVENT_END 0 w
                 else w)
        in upd_schedule s (\<lambda>s. s\<lparr>s_active := remove1 eb (s_active s)\<rparr>) w
      else if st = ScheduleSuperseded then
        upd_schedule s (\<lambda>s. s\<lparr>s_superseded := remove1 eb (s_superseded s)\<rparr>) w
      else w)"

definition remove_blocks :: "nat \<Rightarrow> response_type \<Rightarrow> world \<Rightarrow> world option" where
  "remove_blocks event response w =
     (let status = event_status w event in
      fold_opt (\<lambda>w s. do { eb \<leftarrow> get_block w s event;
          let w = remove_block s eb w;
              w = (if eb_status (w_blocks w eb) \<noteq> status
                   then device_response (s_device (w_schedules w s)) event response w else w)
          in Some (set_status eb status w) })
        (st_schedules (w_events w event)) w)"

text \<open>\<open>free (hash_delete (...))\<close>: the block leaves the hash table, not the queues.\<close>

definition delete_blocks :: "nat \<Rightarrow> world \<Rightarrow> world" where
  "delete_blocks event w =
     (let w = fold (\<lambda>s w.
            let w' = (case get_block w s event of Some eb \<Rightarrow> w\<lparr>w_freed := eb # w_freed w\<rparr> | None \<Rightarrow> w)
            in upd_schedule s (\<lambda>sc. sc\<lparr>s_blocks := (s_blocks sc)(mRID (event_data w event) := None)\<rparr>) w')
          (st_schedules (w_events w event)) w
      in upd_event event (\<lambda>st. st\<lparr>st_schedules := []\<rparr>) w)"

definition event_update :: "nat \<Rightarrow> world \<Rightarrow> world option" where
  "event_update event w =
     (let st = event_status w event in
      if st = Scheduled then
        let now = se_time w;
            (w, now) = (if w_sync w \<noteq> now
              then (w\<lparr>w_offset := w_offset w - 1, w_sync := now - 1\<rparr>, now - 1) else (w, now))
        in Some (add_event (TStub event) RESOURCE_UPDATE (now + 1) w)
      else if st = Active then activate_blocks event w
      else if st = Canceled \<or> st = CanceledRandom then remove_blocks event EventCanceled w
      else if st = Superseded then remove_blocks event EventSuperseded w
      else Some w)"

definition block_update :: "nat \<Rightarrow> u8 \<Rightarrow> world \<Rightarrow> world" where
  "block_update eb st w =
     (let w = (if eb_status (w_blocks w eb) = Active then
                 let w = upd_block eb (\<lambda>b. b\<lparr>eb_end := se_time w\<rparr>) w
                 in add_event (TBlock eb) EVENT_END 0 w
               else w)
      in set_status eb st w)"

definition insert_unique_id :: "'a list \<Rightarrow> 'a \<Rightarrow> 'a list" where
  "insert_unique_id l x = (if x \<in> set l then l else x # l)"

definition schedule_event :: "nat \<Rightarrow> nat \<Rightarrow> u8 \<Rightarrow> int list \<Rightarrow> world \<Rightarrow> (world \<times> nat \<times> int list) option" where
  "schedule_event s event prim rs w =
     (let status = event_status w event; device = s_device (w_schedules w s) in
      do { (w, eb, rs, expired) \<leftarrow>
             (case get_block w s event of
                Some eb \<Rightarrow> Some (upd_block eb (\<lambda>b. b\<lparr>eb_primacy := prim\<rparr>) w, eb, rs, False)
              | None \<Rightarrow>
                  let w = upd_event event (\<lambda>st. st\<lparr>st_schedules := insert_unique_id (st_schedules st) s,
                            st_completion := True\<rparr>) w
                  in do { (w, eb, rs) \<leftarrow> new_block event prim rs w;
                          let w = upd_schedule s (\<lambda>sc. sc\<lparr>s_blocks := (s_blocks sc)(mRID (event_data w event) \<mapsto> eb)\<rparr>) w;
                              w = device_response device event EventReceived w
                          in if eb_end (w_blocks w eb) \<le> se_time w
                             then let w = set_status eb Completed w
                                  in Some (device_response device event EventExpired w, eb, rs, True)
                             else Some (w, eb, rs, False) });
           let st = eb_status (w_blocks w eb) in
           if expired \<or> Canceled \<le> st \<and> st \<le> Completed then Some (w, eb, rs)
           else Some (
             if status = Scheduled \<and> st \<noteq> ActiveWait then insert_block s eb w
             else if status = Scheduled \<or> status = Active then insert_active s eb w
             else if status = Canceled \<or> status = CanceledRandom then
               block_update eb status (device_response device event EventCanceled w)
             else if status = Superseded then
               block_update eb status (device_response device event EventSuperseded w)
             else w, eb, rs) })"

definition min_last :: "int \<Rightarrow> int \<Rightarrow> int" where
  "min_last lst t = (if lst \<noteq> 0 then min lst t else t)"

fun update_active :: "nat \<Rightarrow> int \<Rightarrow> nat list \<Rightarrow> world \<Rightarrow> world \<times> nat list \<times> int" where
  "update_active s now [] w = (w, [], 0)"
| "update_active s now (eb # bs) w =
     (if eb_end (w_blocks w eb) \<le> now then
        let w = (if eb_status (w_blocks w eb) = Active then
                   add_event (TBlock eb) EVENT_END 0
                     (device_response (s_device (w_schedules w s)) (eb_event (w_blocks w eb)) EventCompleted w)
                 else w)
        in update_active s now bs (set_status eb Completed w)
      else (w, eb # bs, eb_end (w_blocks w eb)))"

fun update_scheduled :: "nat \<Rightarrow> int \<Rightarrow> int \<Rightarrow> nat list \<Rightarrow> world \<Rightarrow> world \<times> nat list \<times> int" where
  "update_scheduled s now lst [] w = (w, [], lst)"
| "update_scheduled s now lst (eb # bs) w =
     (if eb_start (w_blocks w eb) \<le> now then
        let w = insert_active s eb w
        in update_scheduled s now (min_last lst (eb_end (w_blocks w eb))) bs w
      else (w, eb # bs, min_last lst (eb_start (w_blocks w eb))))"

fun update_superseded :: "nat \<Rightarrow> int \<Rightarrow> int \<Rightarrow> nat list \<Rightarrow> world \<Rightarrow> world \<times> nat list \<times> int" where
  "update_superseded s now lst [] w = (w, [], lst)"
| "update_superseded s now lst (eb # bs) w =
     (if eb_start (w_blocks w eb) \<le> now then
        update_superseded s now lst bs
          (device_response (s_device (w_schedules w s)) (eb_event (w_blocks w eb)) EventSuperseded
             (set_status eb Superseded w))
      else (w, eb # bs, min_last lst (eb_start (w_blocks w eb))))"

definition update_schedule :: "nat \<Rightarrow> world \<Rightarrow> world" where
  "update_schedule s w =
     (let now = se_time w;
          (w, active, lst) = update_active s now (s_active (w_schedules w s)) w;
          w = upd_schedule s (\<lambda>s. s\<lparr>s_active := active\<rparr>) w;
          (w, scheduled, lst) = update_scheduled s now lst (s_scheduled (w_schedules w s)) w;
          w = upd_schedule s (\<lambda>s. s\<lparr>s_scheduled := scheduled\<rparr>) w;
          (w, superseded, lst) = update_superseded s now lst (s_superseded (w_schedules w s)) w;
          w = upd_schedule s (\<lambda>s. s\<lparr>s_superseded := superseded\<rparr>) w
      in if lst \<noteq> 0 then
           let w = (if lst \<noteq> s_next (w_schedules w s)
                    then add_event (TSchedule s) SCHEDULE_UPDATE lst (drop_event (TSchedule s) w) else w)
           in upd_schedule s (\<lambda>s. s\<lparr>s_next := lst\<rparr>) w
         else upd_schedule s (\<lambda>s. s\<lparr>s_next := 0\<rparr>) w)"

subsection \<open>The division of controls\<close>

abbreviation der_of :: "world \<Rightarrow> nat \<Rightarrow> u32" where
  "der_of w b \<equiv> eb_der (w_blocks w b)"

lemma block_supersede_cases:
  assumes "block_supersede a b w = (w', r)" "a \<noteq> b"
  shows "der_of w' a AND der_of w' b = 0" "der_of w' a OR der_of w' b = der_of w a OR der_of w b"
    "\<exists>da db. w' = upd_block a (\<lambda>e. e\<lparr>eb_der := eb_der e AND da\<rparr>) (upd_block b (\<lambda>e. e\<lparr>eb_der := eb_der e AND db\<rparr>) w)"
proof -
  have split: "x OR (y AND NOT x) = x OR y" "(x AND NOT y) OR y = x OR y"
    "x AND (y AND NOT x) = 0" "(x AND NOT y) AND y = 0" for x y :: u32
    by (auto intro!: bit_word_eqI simp: bit_or_iff bit_and_iff bit_not_iff)
  have sub: "x OR y = x" if "y AND NOT x = 0" for x y :: u32
    using split(1) [of x y] that by simp
  from assms show "der_of w' a AND der_of w' b = 0"
    "der_of w' a OR der_of w' b = der_of w a OR der_of w b"
    by (auto simp: block_supersede_def Let_def upd_block_def split sub split: if_splits)
  consider d where "w' = upd_block b (\<lambda>e. e\<lparr>eb_der := eb_der (w_blocks w b) AND d\<rparr>) w" | "w' = w"
    | d where "w' = upd_block a (\<lambda>e. e\<lparr>eb_der := eb_der e AND d\<rparr>) w"
    using assms by (auto simp: block_supersede_def Let_def split: if_splits)
  then show "\<exists>da db. w' = upd_block a (\<lambda>e. e\<lparr>eb_der := eb_der e AND da\<rparr>) (upd_block b (\<lambda>e. e\<lparr>eb_der := eb_der e AND db\<rparr>) w)"
  proof cases
    case (1 d)
    then show ?thesis using assms(2)
      by (intro exI [of _ "NOT 0"] exI [of _ d]) (simp add: upd_block_def fun_eq_iff)
  next
    case 2
    then show ?thesis by (intro exI [of _ "NOT 0"]) (simp add: upd_block_def)
  next
    case (3 d)
    then show ?thesis using assms(2)
      by (intro exI [of _ d] exI [of _ "NOT 0"]) (simp add: upd_block_def fun_eq_iff)
  qed
qed

text \<open>A later world in which blocks only gave up controls and changed times and status.\<close>

definition shrinks :: "world \<Rightarrow> world \<Rightarrow> bool" where
  "shrinks w w' \<longleftrightarrow> w_events w' = w_events w \<and>
     (\<forall>b. eb_event (w_blocks w' b) = eb_event (w_blocks w b) \<and> (\<exists>d. der_of w' b = der_of w b AND d))"

lemma shrinks_refl [simp]: "shrinks w w"
  by (auto simp: shrinks_def intro: exI [of _ "NOT 0"])

lemma shrinks_trans: "shrinks a b \<Longrightarrow> shrinks b c \<Longrightarrow> shrinks a c"
  unfolding shrinks_def by (metis and.assoc)

lemma shrinks_supersede: "block_supersede a b w = (w', r) \<Longrightarrow> a \<noteq> b \<Longrightarrow> shrinks w w'"
proof -
  assume "block_supersede a b w = (w', r)" "a \<noteq> b"
  from block_supersede_cases(3) [OF this] obtain da db where
    "w' = upd_block a (\<lambda>e. e\<lparr>eb_der := eb_der e AND da\<rparr>) (upd_block b (\<lambda>e. e\<lparr>eb_der := eb_der e AND db\<rparr>) w)" by blast
  then show ?thesis using \<open>a \<noteq> b\<close>
    by (auto simp: shrinks_def upd_block_def intro: exI [of _ "NOT 0"])
qed

lemma shrinks_simps [simp]:
  "shrinks w (set_status b st w) = True" "shrinks w (upd_schedule s f w) = True"
  "shrinks w (upd_block b (\<lambda>e. e\<lparr>eb_start := x\<rparr>) w) = True" "shrinks w (upd_block b (\<lambda>e. e\<lparr>eb_end := x\<rparr>) w) = True"
  by (auto simp: shrinks_def set_status_def upd_defs intro: exI [of _ "NOT 0"])

definition overlap :: "world \<Rightarrow> nat \<Rightarrow> nat \<Rightarrow> bool" where
  "overlap w a b \<longleftrightarrow>
     (case (event_interval w (eb_event (w_blocks w a)), event_interval w (eb_event (w_blocks w b))) of
        ((xs, xe), (ys, ye)) \<Rightarrow> xs < ye \<and> xe > ys)"

definition disjoint :: "world \<Rightarrow> nat \<Rightarrow> nat \<Rightarrow> bool" where
  "disjoint w a b \<longleftrightarrow> (overlap w a b \<longrightarrow> der_of w a AND der_of w b = 0)"

definition conflict_free :: "world \<Rightarrow> nat list \<Rightarrow> bool" where
  "conflict_free w bs \<longleftrightarrow> (\<forall>a \<in> set bs. \<forall>b \<in> set bs. a \<noteq> b \<longrightarrow> disjoint w a b)"

lemma overlap_sym: "overlap w a b = overlap w b a"
  by (auto simp: overlap_def split: prod.split)

lemma disjoint_sym: "disjoint w a b = disjoint w b a"
  by (simp add: disjoint_def overlap_sym [of w a b] and.commute)

lemma overlap_shrinks: "shrinks w w' \<Longrightarrow> overlap w' a b = overlap w a b"
  by (simp add: overlap_def shrinks_def event_interval_def event_data_def)

lemma disjoint_shrinks: "shrinks w w' \<Longrightarrow> disjoint w a b \<Longrightarrow> disjoint w' a b"
proof -
  assume sh: "shrinks w w'" and d: "disjoint w a b"
  have "(x AND p) AND (y AND q) = 0" if "x AND y = 0" for x y p q :: u32
  proof -
    have "(x AND p) AND (y AND q) = (x AND y) AND (p AND q)" by (simp only: ac_simps)
    with that show ?thesis by simp
  qed
  note zero = this
  show ?thesis
  proof (cases "overlap w a b")
    case True
    obtain p q where "der_of w' a = der_of w a AND p" "der_of w' b = der_of w b AND q"
      using sh unfolding shrinks_def by metis
    with True d zero show ?thesis by (simp add: disjoint_def)
  qed (use overlap_shrinks [OF sh, of a b] in \<open>simp add: disjoint_def\<close>)
qed

lemma conflict_free_mono:
  assumes "conflict_free w xs" "set ys \<subseteq> set xs" "shrinks w v"
  shows "conflict_free v ys"
  unfolding conflict_free_def
proof (intro ballI impI)
  fix a b assume "a \<in> set ys" "b \<in> set ys" "a \<noteq> b"
  with assms(1,2) have "disjoint w a b" by (auto simp: conflict_free_def)
  with assms(3) show "disjoint v a b" by (rule disjoint_shrinks)
qed

lemma insert_block_loop_conflict_free:
  assumes "conflict_free w (rev kept @ rest)" "\<forall>k \<in> set kept. disjoint w k eb" "eb \<notin> set kept \<union> set rest"
    "insert_block_loop s eb kept rest w = (w', bs, superseded)"
  shows "shrinks w w' \<and> set bs \<subseteq> set kept \<union> set rest \<and> conflict_free w' bs \<and>
    (\<not> superseded \<longrightarrow> (\<forall>b \<in> set bs. disjoint w' b eb))"
  using assms
proof (induction rest arbitrary: kept w)
  case Nil
  then show ?case by (auto simp: conflict_free_def)
next
  case (Cons e rest)
  obtain xs xe ys ye where iv: "event_interval w (eb_event (w_blocks w eb)) = (xs, xe)"
    "event_interval w (eb_event (w_blocks w e)) = (ys, ye)" by (metis surj_pair)
  have ne: "eb \<noteq> e" using Cons.prems(3) by auto
  have ov: "overlap w eb e \<longleftrightarrow> xs < ye \<and> xe > ys" by (simp add: overlap_def iv)
  have go: ?case if sh: "shrinks w v" and l: "insert_block_loop s eb k rest v = (w', bs, superseded)"
    and k: "set k \<subseteq> insert e (set kept)" and d: "e \<in> set k \<Longrightarrow> disjoint v e eb" for v k
  proof -
    have "conflict_free v (rev k @ rest)"
      by (rule conflict_free_mono [OF Cons.prems(1) _ sh]) (use k in auto)
    moreover have "\<forall>x \<in> set k. disjoint v x eb"
      using Cons.prems(2) k d disjoint_shrinks [OF sh] by blast
    moreover have "eb \<notin> set k \<union> set rest" using Cons.prems(3) k by auto
    ultimately have "shrinks v w' \<and> set bs \<subseteq> set k \<union> set rest \<and> conflict_free w' bs \<and>
      (\<not> superseded \<longrightarrow> (\<forall>b \<in> set bs. disjoint w' b eb))"
      using Cons.IH [OF _ _ _ l] by blast
    then show ?thesis using shrinks_trans [OF sh] k by auto
  qed
  show ?case
  proof (cases "xs < ye \<and> xe > ys")
    case True
    obtain w1 r where bs: "block_supersede eb e w = (w1, r)" by fastforce
    have sh1: "shrinks w w1" using shrinks_supersede [OF bs ne] .
    show ?thesis
    proof (cases r)
      case r: True
      let ?w2 = "upd_schedule s (\<lambda>s. s\<lparr>s_superseded := e # s_superseded s\<rparr>) (set_status e ScheduleSuperseded w1)"
      have sh: "shrinks w ?w2"
        by (intro shrinks_trans [OF sh1] shrinks_trans [of w1 "set_status e ScheduleSuperseded w1" ?w2]) simp_all
      have "insert_block_loop s eb kept rest ?w2 = (w', bs, superseded)"
        using Cons.prems(4) iv True bs r by (simp add: Let_def)
      moreover have "e \<notin> set kept \<or> disjoint ?w2 e eb"
        using Cons.prems(2) disjoint_shrinks [OF sh] by blast
      ultimately show ?thesis by (intro go [OF sh]) auto
    next
      case r: False
      have dis: "disjoint w1 e eb"
        using block_supersede_cases(1) [OF bs ne] by (simp add: disjoint_def and.commute)
      show ?thesis
      proof (cases "der_of w1 eb = 0")
        case d0: False
        then have "insert_block_loop s eb (e # kept) rest w1 = (w', bs, superseded)"
          using Cons.prems(4) iv True bs r by (simp add: Let_def)
        then show ?thesis using dis by (intro go [OF sh1]) auto
      next
        case d0: True
        let ?w2 = "upd_schedule s (\<lambda>s. s\<lparr>s_superseded := eb # s_superseded s\<rparr>) (set_status eb ScheduleSuperseded w1)"
        have sh: "shrinks w ?w2"
          by (intro shrinks_trans [OF sh1] shrinks_trans [of w1 "set_status eb ScheduleSuperseded w1" ?w2]) simp_all
        have eq: "w' = ?w2" "bs = rev kept @ e # rest" "superseded"
          using Cons.prems(4) iv True bs r d0 by (auto simp: Let_def)
        moreover have "conflict_free w' bs"
          using conflict_free_mono [OF Cons.prems(1) _ sh] unfolding eq by simp
        ultimately show ?thesis using sh by auto
      qed
    qed
  next
    case False
    let ?w1 = "if xe = ys then upd_block e (\<lambda>b. b\<lparr>eb_start := eb_end (w_blocks w eb)\<rparr>) w
      else if xe = ye then upd_block e (\<lambda>b. b\<lparr>eb_end := eb_end (w_blocks w eb)\<rparr>) w else w"
    have sh: "shrinks w ?w1" by simp
    have "insert_block_loop s eb (e # kept) rest ?w1 = (w', bs, superseded)"
      using Cons.prems(4) iv False by (simp add: Let_def)
    moreover have "\<not> overlap ?w1 e eb"
      using False ov by (simp only: overlap_shrinks [OF sh] overlap_sym [of w e eb]) simp
    then have "disjoint ?w1 e eb" by (simp only: disjoint_def simp_thms)
    ultimately show ?thesis by (intro go [OF sh]) auto
  qed
qed

definition start_block :: "nat \<Rightarrow> world \<Rightarrow> world" where
  "start_block eb w =
     (let w = set_status eb Scheduled w; event = eb_event (w_blocks w eb) in
      if is_der_control w event then upd_block eb (\<lambda>b. b\<lparr>eb_der := der_base w event\<rparr>) w else w)"

lemma start_block_other:
  "w_events (start_block eb w) = w_events w" "w_schedules (start_block eb w) = w_schedules w"
  "b \<noteq> eb \<Longrightarrow> w_blocks (start_block eb w) b = w_blocks w b"
  "eb_event (w_blocks (start_block eb w) b) = eb_event (w_blocks w b)"
  by (simp_all add: start_block_def Let_def set_status_def upd_block_def)

lemma insert_block_eq:
  "insert_block s eb w =
     (case insert_block_loop s eb [] (s_scheduled (w_schedules w s)) (start_block eb w) of
        (w, sched, superseded) \<Rightarrow>
          upd_schedule s (\<lambda>sc. sc\<lparr>s_scheduled := if superseded then sched else insert_by (compare_start w) eb sched\<rparr>) w)"
  by (simp add: insert_block_def start_block_def Let_def set_status_def upd_block_def split: prod.split)

lemma disjoint_cong:
  "w_events v = w_events w \<Longrightarrow> w_blocks v a = w_blocks w a \<Longrightarrow> w_blocks v b = w_blocks w b \<Longrightarrow>
    disjoint v a b = disjoint w a b"
  by (simp add: disjoint_def overlap_def event_interval_def event_data_def)

text \<open>C8: after \<open>insert_block\<close> no two scheduled blocks whose intervals overlap have a control
  in common, if that was so before.\<close>

theorem insert_block_conflict_free:
  assumes "conflict_free w (s_scheduled (w_schedules w s))" "eb \<notin> set (s_scheduled (w_schedules w s))"
  shows "conflict_free (insert_block s eb w) (s_scheduled (w_schedules (insert_block s eb w) s))"
proof -
  let ?w = "start_block eb w" and ?bs = "s_scheduled (w_schedules w s)"
  obtain w' bs sup where l: "insert_block_loop s eb [] ?bs ?w = (w', bs, sup)" by (metis prod_cases3)
  have cf: "conflict_free ?w (rev [] @ ?bs)"
    unfolding conflict_free_def
  proof (intro ballI impI)
    fix a b assume ab: "a \<in> set (rev [] @ ?bs)" "b \<in> set (rev [] @ ?bs)" "a \<noteq> b"
    then have "a \<noteq> eb" "b \<noteq> eb" using assms(2) by auto
    then have "disjoint ?w a b = disjoint w a b"
      by (intro disjoint_cong) (simp_all add: start_block_other)
    then show "disjoint ?w a b" using ab assms(1) by (simp add: conflict_free_def)
  qed
  note res = insert_block_loop_conflict_free [OF cf _ _ l]
  have r: "set bs \<subseteq> set ?bs" "conflict_free w' bs" "\<not> sup \<longrightarrow> (\<forall>b \<in> set bs. disjoint w' b eb)"
    using res assms(2) by auto
  let ?bs' = "if sup then bs else insert_by (compare_start w') eb bs"
  have "conflict_free w' ?bs'"
    using r disjoint_sym unfolding conflict_free_def by auto
  moreover have "insert_block s eb w = upd_schedule s (\<lambda>sc. sc\<lparr>s_scheduled := ?bs'\<rparr>) w'"
    by (simp add: insert_block_eq l)
  moreover have "disjoint (upd_schedule s f w') a b = disjoint w' a b" for f a b
    by (rule disjoint_cong) (simp_all add: upd_schedule_def)
  ultimately show ?thesis by (simp add: conflict_free_def upd_schedule_def)
qed

subsection \<open>Example data\<close>

definition no_link :: se_resource where "no_link = \<lparr>se_flags = 0, href = None\<rparr>"

definition base_control :: "u32 \<Rightarrow> se_der_control_base" where
  "base_control f = \<lparr>se_flags = f, opModFixedPF = \<lparr>displacement = 0, pf_multiplier = 0\<rparr>,
     opModFixedVar = \<lparr>refType = 0, fv_value = 0\<rparr>, opModFixedW = 0,
     opModFreqDroop = \<lparr>dBOF = 0, dBUF = 0, kOF = 0, kUF = 0, fd_openLoopTms = 0\<rparr>,
     opModFreqWatt = no_link, opModHFRTMustTrip = no_link, opModHVRTMomentaryCessation = no_link,
     opModHVRTMustTrip = no_link, opModLFRTMustTrip = no_link, opModLVRTMomentaryCessation = no_link,
     opModLVRTMustTrip = no_link, opModMaxLimW = 0, opModTargetVar = \<lparr>rp_multiplier = 0, rp_value = 0\<rparr>,
     opModTargetW = \<lparr>ap_multiplier = 0, ap_value = 0\<rparr>, opModVoltVar = no_link, opModVoltWatt = no_link,
     opModWattPF = no_link, opModWattVar = no_link, rampTms = 0\<rparr>"

definition example_control :: "u8 \<Rightarrow> u8 \<Rightarrow> u32 \<Rightarrow> int \<Rightarrow> u32 \<Rightarrow> se_der_control" where
  "example_control i st f start dur = \<lparr>se_flags = 0, href = None, replyTo = None, responseRequired = 3,
     subscribable = 0, mRID = [i], description = [], version = 0, creationTime = 0,
     EventStatus = \<lparr>se_flags = 0, currentStatus = st, es_dateTime = 0, potentiallySupersededTime = 0, reason = []\<rparr>,
     interval = \<lparr>duration = dur, int_start = start\<rparr>, randomizeDuration = 0, randomizeStart = 0,
     DERControlBase = base_control f\<rparr>"

definition example_stub :: "se_der_control \<Rightarrow> event_stub" where
  "example_stub c = \<lparr>st_object = DERControl c, st_poll_rate = 0, st_schedules = [], st_completion = False\<rparr>"

definition example_block :: "nat \<Rightarrow> u8 \<Rightarrow> u8 \<Rightarrow> u32 \<Rightarrow> int \<Rightarrow> int \<Rightarrow> event_block" where
  "example_block e st p f start end = \<lparr>eb_event = e, eb_program = None, eb_context = None, eb_status = st,
     eb_primacy = p, eb_der = f, eb_start = start, eb_end = end\<rparr>"

definition empty_schedule :: schedule where
  "empty_schedule = \<lparr>s_next = 0, s_device = 0, s_context = 0, s_blocks = Map.empty, s_scheduled = [],
     s_active = [], s_superseded = []\<rparr>"

definition example_world :: "int \<Rightarrow> event_block list \<Rightarrow> event_stub list \<Rightarrow> schedule \<Rightarrow> world" where
  "example_world clock bs es s = \<lparr>w_clock = clock, w_offset = 0, w_sync = 0, w_blocks = (\<lambda>i. bs ! i),
     w_next_block = length bs, w_freed = [], w_schedules = (\<lambda>_. s), w_events = (\<lambda>i. es ! i),
     w_lfdi = (\<lambda>_. []), w_queue = event_init, w_log = []\<rparr>"

lemmas example_defs = example_control_def example_stub_def example_block_def empty_schedule_def
  example_world_def base_control_def no_link_def

theorem insert_block_conflict_free_witness:
  "let w = example_world 0 [example_block 0 0 1 7 0 10, example_block 1 0 0 0 5 15]
       [example_stub (example_control 0 0 7 0 10), example_stub (example_control 1 0 3 5 10)]
       (empty_schedule\<lparr>s_scheduled := [0]\<rparr>);
     w' = insert_block 0 1 w
   in conflict_free w' (s_scheduled (w_schedules w' 0))"
  unfolding Let_def
  by (rule insert_block_conflict_free) (simp_all add: conflict_free_def example_world_def)

subsection \<open>Rules that the code breaks\<close>

text \<open>\<open>insert_active\<close> loses active blocks. Of two active blocks with different controls, the
  second is superseded by a new block; the first, which the new block does not touch, leaves
  the active queue while its status stays \<open>Active\<close>, so it is never ended.\<close>

theorem insert_active_loses_block:
  "let w = example_world 100
       [example_block 0 Active 2 1 0 200, example_block 1 Active 2 2 0 300, example_block 2 Scheduled 1 2 100 400]
       [example_stub (example_control 0 Active 1 0 200), example_stub (example_control 1 Active 2 0 300),
        example_stub (example_control 2 Active 2 100 300)]
       (empty_schedule\<lparr>s_active := [0, 1]\<rparr>);
     w' = insert_active 0 2 w
   in s_active (w_schedules w' 0) = [2] \<and> eb_status (w_blocks w' 0) = Active \<and> eb_der (w_blocks w' 0) = 1 \<and>
     eb_status (w_blocks w' 1) = Superseded"
  by code_simp

text \<open>A block that \<open>insert_block\<close> supersedes itself has already superseded others. A new
  block beats an earlier one, then loses to a later one that does not overlap the earlier
  one: neither of the first two stays scheduled.\<close>

theorem insert_block_cascade:
  "let w = example_world 0
       [example_block 0 Scheduled 2 1 0 10, example_block 1 Scheduled 0 1 12 20, example_block 2 0 1 0 5 15]
       [example_stub (example_control 0 0 1 0 10), example_stub (example_control 1 0 1 12 8),
        example_stub (example_control 2 0 1 5 10)]
       (empty_schedule\<lparr>s_scheduled := [0, 1]\<rparr>);
     w' = insert_block 0 2 w
   in s_scheduled (w_schedules w' 0) = [1] \<and> \<not> overlap w 0 1 \<and>
     eb_status (w_blocks w' 0) = ScheduleSuperseded \<and> eb_status (w_blocks w' 2) = ScheduleSuperseded"
  by code_simp

text \<open>Controls are compared by their flag bits, the \<open>_true\<close> bits included. An event that
  connects is not superseded by a better event that disconnects: it keeps a control that is
  only the value bit.\<close>

theorem true_bit_not_superseded:
  "let w = example_world 0
       [example_block 0 Scheduled 1 (push_bit 22 1) 0 10, example_block 1 Scheduled 2 (push_bit 22 1 OR push_bit 21 1) 0 10]
       [example_stub (example_control 0 0 (push_bit 22 1) 0 10),
        example_stub (example_control 1 0 (push_bit 22 1 OR push_bit 21 1) 0 10)] empty_schedule
   in \<not> snd (block_supersede 0 1 w) \<and> eb_der (w_blocks (fst (block_supersede 0 1 w)) 1) = push_bit 21 1"
  by code_simp

text \<open>The superseded queue is not sorted by start (\<open>insert_block\<close> puts each block first), but
  \<open>update_schedule\<close> stops at the first block that has not started: a block behind it whose
  start has passed is neither marked nor reported.\<close>

theorem superseded_queue_blocks:
  "let w = example_world 100
       [example_block 0 ScheduleSuperseded 1 0 500 600, example_block 1 ScheduleSuperseded 1 0 50 60]
       [example_stub (example_control 0 0 1 500 100), example_stub (example_control 1 0 1 50 10)]
       (empty_schedule\<lparr>s_superseded := [0, 1]\<rparr>);
     w' = update_schedule 0 w
   in s_superseded (w_schedules w' 0) = [0, 1] \<and> w_log w' = [] \<and> s_next (w_schedules w' 0) = 500"
  by code_simp

subsection \<open>Ending of blocks\<close>

interpretation by_end: c_compare "near (\<lambda>b. eb_end (w_blocks w b)) lo" "compare_end w"
  for w lo
  unfolding compare_end_def [abs_def] by (rule c_compare_diff)

interpretation by_start: c_compare "near (\<lambda>b. eb_start (w_blocks w b)) lo" "compare_start w"
  for w lo
  unfolding compare_start_def [abs_def] by (rule c_compare_diff)

lemma sorted_ends:
  assumes "sorted_by (compare_end w) bs" "set bs \<subseteq> near (\<lambda>b. eb_end (w_blocks w b)) lo"
  shows "sorted (map (\<lambda>b. eb_end (w_blocks w b)) bs)"
  using sorted_by_key [of "\<lambda>b. eb_end (w_blocks w b)" bs lo] assms
  unfolding compare_end_def [abs_def] by blast

lemma device_response_simps [simp]:
  "w_blocks (device_response d e st w) = w_blocks w" "w_queue (device_response d e st w) = w_queue w"
  "w_schedules (device_response d e st w) = w_schedules w" "w_events (device_response d e st w) = w_events w"
  "w_clock (device_response d e st w) = w_clock w" "w_offset (device_response d e st w) = w_offset w"
  by (simp_all add: device_response_def log_action_def Let_def)

text \<open>What \<open>update_schedule\<close> does to the active queue.\<close>

lemma update_active_result:
  assumes "distinct bs" "sorted (map (\<lambda>b. eb_end (w_blocks w b)) bs)"
    "update_active s now bs w = (w', rest, lst)"
  shows "rest = filter (\<lambda>b. eb_end (w_blocks w b) > now) bs \<and>
    (\<forall>b. w_blocks w' b = (if b \<in> set bs \<and> eb_end (w_blocks w b) \<le> now
       then (w_blocks w b)\<lparr>eb_status := Completed\<rparr> else w_blocks w b)) \<and>
    im_event (w_queue w') = im_event (w_queue w) @
      map (\<lambda>b. \<lparr>edata = TBlock b, etype = EVENT_END, etime = 0\<rparr>)
        (filter (\<lambda>b. eb_end (w_blocks w b) \<le> now \<and> eb_status (w_blocks w b) = Active) bs) \<and>
    lst = (case rest of [] \<Rightarrow> 0 | b # _ \<Rightarrow> eb_end (w_blocks w b))"
  using assms
proof (induction bs arbitrary: w)
  case (Cons b bs)
  show ?case
  proof (cases "eb_end (w_blocks w b) \<le> now")
    case False
    then have gt: "\<forall>x \<in> set (b # bs). eb_end (w_blocks w x) > now" using Cons.prems(2) by auto
    have f: "filter (\<lambda>x. eb_end (w_blocks w x) > now) (b # bs) = b # bs"
      using gt by (rule filter_True)
    have f2: "filter (\<lambda>x. eb_end (w_blocks w x) \<le> now \<and> eb_status (w_blocks w x) = Active) (b # bs) = []"
      using gt by (intro filter_False) auto
    have "\<forall>x. \<not> (x \<in> set (b # bs) \<and> eb_end (w_blocks w x) \<le> now)"
      using gt by auto
    moreover have "w' = w" "rest = b # bs" "lst = eb_end (w_blocks w b)"
      using Cons.prems(3) False by auto
    ultimately show ?thesis unfolding f f2 by auto
  next
    case True
    let ?v = "if eb_status (w_blocks w b) = Active then
        add_event (TBlock b) EVENT_END 0 (device_response (s_device (w_schedules w s)) (eb_event (w_blocks w b)) EventCompleted w)
      else w"
    let ?w1 = "set_status b Completed ?v"
    have bl: "w_blocks ?w1 x = (if x = b then (w_blocks w b)\<lparr>eb_status := Completed\<rparr> else w_blocks w x)" for x
      by (simp add: set_status_def upd_defs)
    have bnot: "b \<notin> set bs" using Cons.prems(1) by simp
    have same: "w_blocks ?w1 x = w_blocks w x" if "x \<in> set bs" for x
      using that bl [of x] bnot by auto
    have "sorted (map (\<lambda>x. eb_end (w_blocks ?w1 x)) bs)"
      using Cons.prems(2) same by (simp cong: map_cong)
    moreover have "update_active s now bs ?w1 = (w', rest, lst)"
      using Cons.prems(3) True by (simp add: Let_def)
    ultimately have IH: "rest = filter (\<lambda>b. eb_end (w_blocks ?w1 b) > now) bs \<and>
      (\<forall>x. w_blocks w' x = (if x \<in> set bs \<and> eb_end (w_blocks ?w1 x) \<le> now
         then (w_blocks ?w1 x)\<lparr>eb_status := Completed\<rparr> else w_blocks ?w1 x)) \<and>
      im_event (w_queue w') = im_event (w_queue ?w1) @
        map (\<lambda>b. \<lparr>edata = TBlock b, etype = EVENT_END, etime = 0\<rparr>)
          (filter (\<lambda>x. eb_end (w_blocks ?w1 x) \<le> now \<and> eb_status (w_blocks ?w1 x) = Active) bs) \<and>
      lst = (case rest of [] \<Rightarrow> 0 | b # _ \<Rightarrow> eb_end (w_blocks ?w1 b))"
      using Cons.prems(1) by (intro Cons.IH) auto
    have f: "filter (\<lambda>x. eb_end (w_blocks ?w1 x) > now) bs = filter (\<lambda>x. eb_end (w_blocks w x) > now) bs"
      "filter (\<lambda>x. eb_end (w_blocks ?w1 x) \<le> now \<and> eb_status (w_blocks ?w1 x) = Active) bs =
        filter (\<lambda>x. eb_end (w_blocks w x) \<le> now \<and> eb_status (w_blocks w x) = Active) bs"
      using same by (auto intro!: filter_cong)
    have q: "im_event (w_queue ?w1) = im_event (w_queue w) @
        (if eb_status (w_blocks w b) = Active then [\<lparr>edata = TBlock b, etype = EVENT_END, etime = 0\<rparr>] else [])"
      by (simp add: set_status_def upd_defs insert_event_def)
    have r: "rest = filter (\<lambda>x. eb_end (w_blocks w x) > now) (b # bs)"
      using IH unfolding f(1) using True by simp
    then have same_rest: "\<forall>x \<in> set rest. w_blocks ?w1 x = w_blocks w x" using True same by auto
    have "lst = (case rest of [] \<Rightarrow> 0 | b # _ \<Rightarrow> eb_end (w_blocks ?w1 b))" using IH by blast
    also have "\<dots> = (case rest of [] \<Rightarrow> 0 | b # _ \<Rightarrow> eb_end (w_blocks w b))"
      by (rule list.case_cong [OF refl refl]) (use same_rest in simp)
    finally have l: "lst = (case rest of [] \<Rightarrow> 0 | b # _ \<Rightarrow> eb_end (w_blocks w b))" .
    have "w_blocks w' x = (if x \<in> set (b # bs) \<and> eb_end (w_blocks w x) \<le> now
       then (w_blocks w x)\<lparr>eb_status := Completed\<rparr> else w_blocks w x)" for x
    proof (cases "x = b")
      case xb: True
      then have "w_blocks w' x = w_blocks ?w1 x" using IH bnot by simp
      then show ?thesis using bl [of x] xb True by simp
    next
      case xb: False
      then have "w_blocks ?w1 x = w_blocks w x" using bl [of x] by simp
      then show ?thesis using IH xb by simp
    qed
    moreover have "im_event (w_queue w') = im_event (w_queue w) @
        map (\<lambda>b. \<lparr>edata = TBlock b, etype = EVENT_END, etime = 0\<rparr>)
          (filter (\<lambda>x. eb_end (w_blocks w x) \<le> now \<and> eb_status (w_blocks w x) = Active) (b # bs))"
      using IH unfolding f q using True by simp
    ultimately show ?thesis using r l by blast
  qed
qed simp

text \<open>C9: The loop of \<open>update_schedule\<close> over the active queue, which is sorted by end. It takes from the queue
  exactly the blocks that have ended and marks them \<open>Completed\<close>; it queues one end event for each of those
  that were \<open>Active\<close>, in order, none for those whose start had not been reported (\<open>ActiveWait\<close>), and gives the
  end of the first block that stays. Events queued before and other blocks stay as they are.\<close>

theorem update_active_ends_blocks:
  assumes "distinct bs" "sorted_by (compare_end w) bs" "set bs \<subseteq> near (\<lambda>b. eb_end (w_blocks w b)) lo"
    "update_active s now bs w = (w', rest, lst)"
  shows "rest = filter (\<lambda>b. eb_end (w_blocks w b) > now) bs \<and>
    (\<forall>b. w_blocks w' b = (if b \<in> set bs \<and> eb_end (w_blocks w b) \<le> now
       then (w_blocks w b)\<lparr>eb_status := Completed\<rparr> else w_blocks w b)) \<and>
    im_event (w_queue w') = im_event (w_queue w) @
      map (\<lambda>b. \<lparr>edata = TBlock b, etype = EVENT_END, etime = 0\<rparr>)
        (filter (\<lambda>b. eb_end (w_blocks w b) \<le> now \<and> eb_status (w_blocks w b) = Active) bs) \<and>
    lst = (case rest of [] \<Rightarrow> 0 | b # _ \<Rightarrow> eb_end (w_blocks w b))"
  using update_active_result [OF assms(1) sorted_ends [OF assms(2,3)] assms(4)] .

theorem update_active_ends_blocks_witness:
  "let w = example_world 100
       [example_block 0 Active 1 1 0 90, example_block 1 ActiveWait 1 1 0 95, example_block 2 Active 1 1 0 120]
       [example_stub (example_control 0 1 1 0 90), example_stub (example_control 1 1 1 0 95),
        example_stub (example_control 2 1 1 0 120)] empty_schedule
   in fst (snd (update_active 0 100 [0, 1, 2] w)) = [2] \<and> snd (snd (update_active 0 100 [0, 1, 2] w)) = 120"
proof -
  let ?w = "example_world 100
       [example_block 0 Active 1 1 0 90, example_block 1 ActiveWait 1 1 0 95, example_block 2 Active 1 1 0 120]
       [example_stub (example_control 0 1 1 0 90), example_stub (example_control 1 1 1 0 95),
        example_stub (example_control 2 1 1 0 120)] empty_schedule"
  obtain w' rest lst where u: "update_active 0 100 [0, 1, 2] ?w = (w', rest, lst)" by (metis prod_cases3)
  have e: "eb_end (w_blocks ?w 0) = 90" "eb_end (w_blocks ?w 1) = 95" "eb_end (w_blocks ?w 2) = 120"
    by (simp_all add: example_world_def example_block_def numeral_2_eq_2)
  have "sorted_by (compare_end ?w) [0, 1, 2]"
    using e by (simp add: sorted_by_def compare_end_def c_int_def)
  moreover have "set [0, 1, 2] \<subseteq> near (\<lambda>b. eb_end (w_blocks ?w b)) 0"
    using e by (simp add: near_def)
  ultimately show ?thesis
    using update_active_ends_blocks [of "[0, 1, 2]" ?w 0 0 100, OF _ _ _ u] u e by simp
qed

text \<open>C10: a block that was canceled, superseded, aborted or completed is never scheduled or
  started again: \<open>schedule_event\<close> changes nothing but its primacy.\<close>

theorem schedule_event_terminal:
  assumes "get_block w s event = Some eb" "eb_status (w_blocks w eb) \<in> {Canceled, CanceledRandom, Superseded, Aborted, Completed}"
  shows "schedule_event s event prim rs w = Some (upd_block eb (\<lambda>b. b\<lparr>eb_primacy := prim\<rparr>) w, eb, rs)"
proof -
  have "Canceled \<le> eb_status (w_blocks w eb) \<and> eb_status (w_blocks w eb) \<le> Completed"
    using assms(2) by auto
  with assms(1) show ?thesis by (simp add: schedule_event_def Let_def upd_block_def)
qed

theorem schedule_event_terminal_witness:
  "let w = example_world 0 [example_block 0 Completed 1 1 0 90] [example_stub (example_control 0 1 1 0 90)]
       (empty_schedule\<lparr>s_blocks := [[0] \<mapsto> 0]\<rparr>)
   in schedule_event 0 0 5 [] w = Some (upd_block 0 (\<lambda>b. b\<lparr>eb_primacy := 5\<rparr>) w, 0, [])"
  unfolding Let_def
  by (rule schedule_event_terminal)
    (simp_all add: get_block_def event_data_def example_world_def example_stub_def example_control_def
      empty_schedule_def example_block_def se_event.truncate_def)

text \<open>C11: removing an active block ends it: it leaves the active queue, its end is now, and of
  its events only one is left, an end event to be delivered at once.\<close>

theorem remove_block_active:
  assumes "eb_status (w_blocks w eb) = Active" "distinct (s_active (w_schedules w s))"
  shows "let w' = remove_block s eb w; q = w_queue w' in
    eb \<notin> set (s_active (w_schedules w' s)) \<and> eb_end (w_blocks w' eb) = se_time w \<and>
    filter (\<lambda>e. edata e = TBlock eb) (im_event q @ cur_event q) =
      [\<lparr>edata = TBlock eb, etype = EVENT_END, etime = 0\<rparr>] \<and>
    filter (\<lambda>e. edata e \<noteq> TBlock eb) (im_event q @ cur_event q) =
      filter (\<lambda>e. edata e \<noteq> TBlock eb) (im_event (w_queue w) @ cur_event (w_queue w))"
  using assms
  by (simp add: remove_block_def Let_def upd_defs insert_event_def remove_event_def se_time_def filter_empty_conv)

theorem remove_block_active_witness:
  "let w = example_world 50 [example_block 0 Active 1 1 0 90] [example_stub (example_control 0 1 1 0 90)]
       (empty_schedule\<lparr>s_active := [0]\<rparr>);
     w' = remove_block 0 0 w
   in 0 \<notin> set (s_active (w_schedules w' 0)) \<and> eb_end (w_blocks w' 0) = 50"
proof -
  let ?w = "example_world 50 [example_block 0 Active 1 1 0 90] [example_stub (example_control 0 1 1 0 90)]
    (empty_schedule\<lparr>s_active := [0]\<rparr>)"
  have "eb_status (w_blocks ?w 0) = Active" "distinct (s_active (w_schedules ?w 0))" "se_time ?w = 50"
    by (simp_all add: example_world_def example_block_def se_time_def)
  with remove_block_active [of ?w 0 0] show ?thesis by (simp add: Let_def)
qed

text \<open>A random offset lies between 0 and its bound, on the side of the bound's sign.\<close>

theorem rand_bound_range:
  assumes "in_int bound" "bound \<noteq> - (2 ^ 31)" "\<forall>r \<in> set rs. 0 \<le> r \<and> r \<le> RAND_MAX" "rand_bound bound rs = Some (x, rs')"
  shows "\<bar>x\<bar> \<le> \<bar>bound\<bar> \<and> 0 \<le> x * sgn bound"
proof (cases "bound = 0")
  case False
  let ?b = "bound * (if bound < 0 then - 1 else 1)"
  have b: "?b = \<bar>bound\<bar>" by simp
  have "\<exists>r. x = (if bound < 0 then - 1 else 1) * (r mod (?b + 1))"
    using assms(4) False by (auto simp: rand_bound_def Let_def)
  then obtain r where r: "x = (if bound < 0 then - 1 else 1) * (r mod (\<bar>bound\<bar> + 1))" unfolding b by blast
  have "0 \<le> r mod (\<bar>bound\<bar> + 1)" "r mod (\<bar>bound\<bar> + 1) \<le> \<bar>bound\<bar>"
    using pos_mod_bound [of "\<bar>bound\<bar> + 1" r] by auto
  with r False show ?thesis by (auto simp: sgn_if)
qed (use assms(4) in \<open>simp add: rand_bound_def\<close>)

theorem rand_bound_range_witness: "\<bar>- 7 :: int\<bar> \<le> \<bar>- 30\<bar> \<and> rand_bound (- 30) [2147483647, 100] = Some (- 7, [])"
proof -
  have r: "rand_bound (- 30) [2147483647, 100] = Some (- 7, [])"
    by (simp add: rand_bound_def RAND_MAX_def)
  have "\<bar>- 7 :: int\<bar> \<le> \<bar>- 30\<bar> \<and> 0 \<le> - 7 * sgn (- 30 :: int)"
    by (rule rand_bound_range [OF _ _ _ r]) (simp_all add: in_int_def RAND_MAX_def)
  with r show ?thesis by simp
qed

text \<open>Deleting the blocks of an event frees them while they may still be linked in a queue
  of their schedule.\<close>

theorem delete_blocks_leaves_links:
  assumes "st_schedules (w_events w event) = [s]" "get_block w s event = Some eb" "eb \<in> set (s_active (w_schedules w s))"
  shows "eb \<in> set (w_freed (delete_blocks event w)) \<and>
    eb \<in> set (s_active (w_schedules (delete_blocks event w) s))"
  using assms by (simp add: delete_blocks_def Let_def upd_defs)

theorem delete_blocks_leaves_links_witness:
  "let w = example_world 50 [example_block 0 Active 1 1 0 90]
       [(example_stub (example_control 0 1 1 0 90))\<lparr>st_schedules := [0]\<rparr>]
       (empty_schedule\<lparr>s_active := [0], s_blocks := [[0] \<mapsto> 0]\<rparr>)
   in 0 \<in> set (w_freed (delete_blocks 0 w)) \<and> 0 \<in> set (s_active (w_schedules (delete_blocks 0 w) 0))"
  unfolding Let_def
  by (rule delete_blocks_leaves_links)
    (simp_all add: get_block_def event_data_def example_world_def example_stub_def example_control_def
      empty_schedule_def example_block_def se_event.truncate_def)

end
