(* ===== verification/Schema.thy ===== *)
theory Schema
  imports Prelude
begin

section \<open>Schemas (core/schema.c)\<close>

text \<open>
  A schema is a table of elements. The first ones are the types; behind them stands for every
  complex type a head (its base) and its elements. An element is the C structure less its
  \<open>offset\<close> or \<open>size\<close>, which the C compiler lays out; the sizes of the structures are an argument
  where the code uses them. \<open>se_index\<close> is the union of \<open>index\<close> and \<open>xs_type\<close>. A read outside
  of the table is \<open>None\<close>. \<open>free_elements\<close> and \<open>replace_object\<close>, which free memory, are not
  modelled.
\<close>

unbundle bit_operations_syntax

subsection \<open>Types\<close>

definition XS_NULL :: int where "XS_NULL = 0"
definition XS_STRING :: int where "XS_STRING = 1"
definition XS_BOOLEAN :: int where "XS_BOOLEAN = 2"
definition XS_HEX_BINARY :: int where "XS_HEX_BINARY = 3"
definition XS_ANY_URI :: int where "XS_ANY_URI = 4"
definition XS_LONG :: int where "XS_LONG = 5"
definition XS_INT :: int where "XS_INT = 6"
definition XS_SHORT :: int where "XS_SHORT = 7"
definition XS_BYTE :: int where "XS_BYTE = 8"
definition XS_ULONG :: int where "XS_ULONG = 9"
definition XS_UINT :: int where "XS_UINT = 10"
definition XS_USHORT :: int where "XS_USHORT = 11"
definition XS_UBYTE :: int where "XS_UBYTE = 12"

lemmas xs_defs = XS_NULL_def XS_STRING_def XS_BOOLEAN_def XS_HEX_BINARY_def XS_ANY_URI_def XS_LONG_def
  XS_INT_def XS_SHORT_def XS_BYTE_def XS_ULONG_def XS_UINT_def XS_USHORT_def XS_UBYTE_def

definition xs_type :: "int \<Rightarrow> int \<Rightarrow> int" where
  "xs_type b l = l * 16 + b"

text \<open>Type and length of an \<open>xs_type\<close>: \<open>type & 0xf\<close> and \<open>type >> 4\<close>.\<close>

definition xs_base :: "int \<Rightarrow> int" where "xs_base t = t mod 16"
definition xs_length :: "int \<Rightarrow> int" where "xs_length t = t div 16"

lemma xs_type_parts [simp]: "0 \<le> b \<Longrightarrow> b < 16 \<Longrightarrow> xs_base (xs_type b l) = b \<and> xs_length (xs_type b l) = l"
  by (simp add: xs_base_def xs_length_def xs_type_def)

datatype schema_element =
  El (se_index: int) (se_min: int) (se_max: int) (se_n: int) (se_bit: int) (se_attribute: bool) (se_simple: bool) (se_unbounded: bool)

record schema =
  namespace :: string
  schemaId :: string
  schema_length :: int
  elements :: "schema_element list"
  names :: "int \<Rightarrow> string"
  ids :: "int list"

definition element :: "schema \<Rightarrow> int \<Rightarrow> schema_element option" where
  "element sc i = (if 0 \<le> i \<and> i < int (length (elements sc)) then Some (elements sc ! nat i) else None)"

subsection \<open>Operations\<close>

definition is_pointer :: "int \<Rightarrow> bool" where
  "is_pointer type \<longleftrightarrow> type = XS_STRING \<or> type = XS_ANY_URI"

partial_function (option) is_a_loop :: "schema \<Rightarrow> int \<Rightarrow> schema_element \<Rightarrow> bool option" where
  "is_a_loop sc base se =
     (if se_index se = 0 then Some False
      else if se_index se = base then Some True
      else Option.bind (element sc (se_index se)) (is_a_loop sc base))"

definition se_is_a :: "schema_element \<Rightarrow> int \<Rightarrow> schema \<Rightarrow> bool option" where
  "se_is_a se base sc =
     do { b \<leftarrow> element sc base;
          if se_simple se \<or> se_attribute se then Some False else is_a_loop sc (se_index b) se }"

definition type_is_a :: "int \<Rightarrow> int \<Rightarrow> schema \<Rightarrow> bool option" where
  "type_is_a type base sc =
     (if type \<ge> schema_length sc then Some False
      else Option.bind (element sc type) (\<lambda>se. se_is_a se base sc))"

text \<open>\<open>sz i\<close> is the size of the structure whose head is element \<open>i\<close>.\<close>

definition object_size :: "(int \<Rightarrow> int) \<Rightarrow> int \<Rightarrow> schema \<Rightarrow> int option" where
  "object_size sz type sc = map_option (\<lambda>se. sz (se_index se)) (element sc type)"

definition type_name :: "int \<Rightarrow> schema \<Rightarrow> string" where
  "type_name type sc = names sc type"

text \<open>The element with number \<open>index\<close>, which the code computes from its address.\<close>

definition se_name :: "int \<Rightarrow> schema \<Rightarrow> string option" where
  "se_name index sc =
     (if index < schema_length sc then Some (names sc index)
      else let i = index - schema_length sc in
        if i < int (length (ids sc)) then Some (names sc (ids sc ! nat i)) else None)"

definition object_element_size :: "(int \<Rightarrow> int) \<Rightarrow> schema_element \<Rightarrow> int" where
  "object_element_size sz se =
     (if se_simple se then
        let n = xs_length (se_index se); t = xs_base (se_index se) in
        if t = XS_STRING then (if n \<noteq> 0 then n else 8)
        else if t = XS_BOOLEAN then 0
        else if t = XS_HEX_BINARY then n
        else if t = XS_ANY_URI then 8
        else if t = XS_LONG \<or> t = XS_ULONG then 8
        else if t = XS_INT \<or> t = XS_UINT then 4
        else if t = XS_SHORT \<or> t = XS_USHORT then 2
        else if t = XS_BYTE \<or> t = XS_UBYTE then 1
        else 0
      else sz (se_index se))"

subsection \<open>Derivation\<close>

text \<open>The reference: the reflexive closure of the base relation on heads.\<close>

definition is_head :: "schema_element \<Rightarrow> bool" where
  "is_head e \<longleftrightarrow> se_max e = 0 \<and> \<not> se_unbounded e"

inductive derives :: "schema \<Rightarrow> int \<Rightarrow> int \<Rightarrow> bool" for sc where
  derives_refl: "derives sc i i"
| derives_step: "element sc i = Some e \<Longrightarrow> se_index e \<noteq> 0 \<Longrightarrow> derives sc (se_index e) j \<Longrightarrow> derives sc i j"

inductive_cases derivesE: "derives sc i j"

text \<open>
  A schema is well formed if every complex type leads to a head and the base of a head is an
  earlier head. \<open>head_pairs\<close> are the heads of a table, with their bases, \<open>bases_ok\<close> checks them
  from the front (\<open>seen\<close> are the heads before).
\<close>

fun head_pairs :: "int \<Rightarrow> schema_element list \<Rightarrow> (int \<times> int) list" where
  "head_pairs i [] = []"
| "head_pairs i (e # es) = (if is_head e then (i, se_index e) # head_pairs (i + 1) es else head_pairs (i + 1) es)"

fun bases_ok :: "int list \<Rightarrow> (int \<times> int) list \<Rightarrow> bool" where
  "bases_ok seen [] = True"
| "bases_ok seen ((h, b) # ps) = ((b = 0 \<or> b \<in> set seen) \<and> bases_ok (h # seen) ps)"

fun complex_types :: "schema_element list \<Rightarrow> int list" where
  "complex_types [] = []"
| "complex_types (e # es) = (if se_simple e then complex_types es else se_index e # complex_types es)"

definition heads :: "schema \<Rightarrow> int set" where
  "heads sc = fst ` set (head_pairs 0 (elements sc))"

definition well_formed :: "schema \<Rightarrow> bool" where
  "well_formed sc \<longleftrightarrow> 0 \<le> schema_length sc \<and> schema_length sc \<le> int (length (elements sc)) \<and>
     bases_ok [] (head_pairs 0 (elements sc)) \<and> 0 \<notin> heads sc \<and>
     set (complex_types (take (nat (schema_length sc)) (elements sc))) \<subseteq> heads sc"

lemma head_pairs_append: "head_pairs i (xs @ ys) = head_pairs i xs @ head_pairs (i + int (length xs)) ys"
  by (induction xs arbitrary: i) (simp_all add: add.assoc)

lemma complex_types_append: "complex_types (xs @ ys) = complex_types xs @ complex_types ys"
  by (induction xs) simp_all

lemma set_complex_types: "set (complex_types es) = se_index ` {e \<in> set es. \<not> se_simple e}"
  by (induction es) auto

lemma set_head_pairs: "(h, b) \<in> set (head_pairs i es) \<longleftrightarrow> (\<exists>n < length es. h = i + int n \<and> is_head (es ! n) \<and> b = se_index (es ! n))"
proof (induction es arbitrary: i)
  case (Cons e es)
  have "(\<exists>n < length (e # es). h = i + int n \<and> is_head ((e # es) ! n) \<and> b = se_index ((e # es) ! n)) \<longleftrightarrow>
      h = i \<and> is_head e \<and> b = se_index e \<or> (\<exists>n < length es. h = i + 1 + int n \<and> is_head (es ! n) \<and> b = se_index (es ! n))"
    by (auto simp: less_Suc_eq_0_disj)
  then show ?case using Cons.IH [of "i + 1"] by auto
qed simp

lemma head_pairs_ge: "p \<in> set (head_pairs i es) \<Longrightarrow> i \<le> fst p"
  by (cases p) (auto simp: set_head_pairs)

lemma sorted_head_pairs: "sorted_wrt (\<lambda>p q. fst p < fst q) (head_pairs i es)"
  by (induction es arbitrary: i) (auto dest!: head_pairs_ge)

lemma bases_ok_smaller:
  assumes "bases_ok seen ps" "sorted_wrt (\<lambda>p q. fst p < fst q) ps" "(h, b) \<in> set ps" "b \<noteq> 0" "b \<notin> set seen"
  shows "b \<in> fst ` set ps \<and> b < h"
  using assms
proof (induction seen ps rule: bases_ok.induct)
  case (2 seen h' b' ps)
  show ?case
  proof (cases "(h, b) = (h', b')")
    case False
    with "2.prems" have "(h, b) \<in> set ps" "h' < h" by auto
    then show ?thesis using 2 by (cases "b = h'") auto
  qed (use 2 in auto)
qed simp

text \<open>From a head the loop goes down the bases and returns.\<close>

lemma head_base:
  assumes "well_formed sc" "h \<in> heads sc" "element sc h = Some e" "se_index e \<noteq> 0"
  shows "se_index e \<in> heads sc \<and> se_index e < h"
proof -
  obtain b where hb: "(h, b) \<in> set (head_pairs 0 (elements sc))" using assms(2) by (auto simp: heads_def)
  then have "b = se_index e" using assms(3) by (auto simp: set_head_pairs element_def)
  with bases_ok_smaller [OF _ _ hb, of "[]"] sorted_head_pairs [of 0 "elements sc"] assms(1,4) show ?thesis
    by (simp add: well_formed_def heads_def)
qed

lemma head_range:
  "h \<in> heads sc \<Longrightarrow> 0 \<le> h \<and> (\<exists>e. element sc h = Some e \<and> is_head e)"
  by (auto simp: heads_def set_head_pairs element_def)

lemma is_a_loop_head:
  assumes "well_formed sc" "h \<in> heads sc" "element sc h = Some e"
  shows "is_a_loop sc base e = Some (se_index e \<noteq> 0 \<and> derives sc (se_index e) base)"
  using assms(2-3)
proof (induction "nat h" arbitrary: h e rule: less_induct)
  case less
  consider "se_index e = 0" | "se_index e \<noteq> 0" "se_index e = base" | "se_index e \<noteq> 0" "se_index e \<noteq> base" by blast
  then show ?case
  proof cases
    case 1 then show ?thesis by (simp add: is_a_loop.simps)
  next
    case 2 then show ?thesis by (simp add: is_a_loop.simps derives_refl)
  next
    case 3
    let ?h = "se_index e"
    have h: "?h \<in> heads sc" "?h < h"
      using head_base [OF assms(1) less.prems 3(1)] by auto
    then obtain e' where e': "element sc ?h = Some e'" "0 \<le> ?h" using head_range by blast
    then have "is_a_loop sc base e' = Some (se_index e' \<noteq> 0 \<and> derives sc (se_index e') base)"
      using less.hyps [of ?h e'] h by simp
    moreover have "derives sc ?h base \<longleftrightarrow> se_index e' \<noteq> 0 \<and> derives sc (se_index e') base"
    proof
      assume "derives sc ?h base"
      then show "se_index e' \<noteq> 0 \<and> derives sc (se_index e') base"
        by (rule derivesE) (use 3 e' in auto)
    qed (use e' in \<open>auto intro: derives_step\<close>)
    ultimately show ?thesis using 3 e' by (simp add: is_a_loop.simps [of sc base e])
  qed
qed

lemma type_is_a_derives:
  assumes "well_formed sc" "0 \<le> type" "type < schema_length sc" "element sc base = Some b" "element sc type = Some t"
  shows "type_is_a type base sc =
    Some (\<not> se_simple t \<and> \<not> se_attribute t \<and> derives sc (se_index t) (se_index b))"
proof (cases "se_simple t \<or> se_attribute t")
  case True
  then show ?thesis using assms by (auto simp: type_is_a_def se_is_a_def)
next
  case False
  have "t \<in> set (take (nat (schema_length sc)) (elements sc))"
    using assms(2,3,5) assms(1) by (auto simp: element_def in_set_conv_nth well_formed_def split: if_splits intro!: exI [of _ "nat type"])
  then have h: "se_index t \<in> heads sc"
    using assms(1) False by (auto simp: well_formed_def set_complex_types)
  then obtain e where e: "element sc (se_index t) = Some e" using head_range by blast
  have z: "se_index t \<noteq> 0" using h assms(1) by (auto simp: well_formed_def)
  have "derives sc (se_index t) (se_index b) \<longleftrightarrow> se_index t = se_index b \<or> se_index e \<noteq> 0 \<and> derives sc (se_index e) (se_index b)"
    using e by (auto intro: derives.intros elim: derivesE)
  then show ?thesis
    using is_a_loop_head [OF assms(1) h e, of "se_index b"] False assms z e
    by (simp add: type_is_a_def se_is_a_def is_a_loop.simps [of sc _ t])
qed

end
