(* ===== verification/Se_Schema.thy ===== *)
theory Se_Schema
  imports Schema "HOL-Library.Tree"
begin

section \<open>The IEEE 2030.5 schema (core/se_schema.c)\<close>

text \<open>
  The table of the 321 types and of the elements of the 280 structures, in the order of the
  source and cut into pieces, and the numbers of the element names. An abbreviation stands for
  each pattern of designated initialisers; offsets, sizes and the texts of the names are not in
  the table.
\<close>

abbreviation (input) TypeC where "TypeC i \<equiv> El i 1 1 0 0 False False False"
abbreviation (input) TypeS where "TypeS x \<equiv> El x 1 1 0 0 False True False"
abbreviation (input) Head where "Head i \<equiv> El i 0 0 0 0 False False False"
abbreviation (input) Simp where "Simp mn mx b x n \<equiv> El x mn mx n b False True False"
abbreviation (input) Attr where "Attr mn mx b x n \<equiv> El x mn mx n b True False False"
abbreviation (input) Comp where "Comp mn mx b i n \<equiv> El i mn mx n b False False False"
abbreviation (input) Unb where "Unb mn i n \<equiv> El i mn 0 n 0 False False True"
abbreviation (input) End where "End \<equiv> El 0 0 0 0 0 False False False"

definition se_elements_1 :: "schema_element list" where
  "se_elements_1 = [
    TypeC 1828, TypeC 938, TypeC 898, TypeC 887, TypeS 12, TypeC 1028, TypeC 895, TypeC 519, TypeC 1342,
    TypeC 466, TypeC 574, TypeC 1025, TypeC 892, TypeC 1022, TypeC 1145, TypeC 1213, TypeC 680, TypeC 677,
    TypeC 1309, TypeS 12, TypeC 1682, TypeC 762, TypeC 760, TypeC 963, TypeC 1110, TypeC 1116, TypeC 1019,
    TypeC 1097, TypeC 1105, TypeC 1077, TypeC 1080, TypeC 1087, TypeC 960, TypeC 1093, TypeS 12, TypeS 12,
    TypeC 1724, TypeC 1430, TypeC 1826, TypeC 493, TypeS 12, TypeC 1237, TypeC 1243, TypeC 1165, TypeS 12,
    TypeC 924, TypeC 933, TypeC 881, TypeS 12, TypeC 852, TypeS 12, TypeS 11, TypeC 758, TypeC 683,
    TypeC 551, TypeC 1059, TypeC 464, TypeC 1070, TypeC 1768, TypeC 1031, TypeC 1048, TypeC 1056, TypeC 765,
    TypeC 709, TypeC 756, TypeC 686, TypeC 754, TypeC 654, TypeC 594, TypeC 668, TypeC 514, TypeC 1703,
    TypeS 67, TypeC 554, TypeC 580, TypeC 569, TypeC 511, TypeS 12, TypeC 462, TypeC 775, TypeC 1823,
    TypeC 528, TypeC 460, TypeC 544, TypeC 1762, TypeC 722, TypeC 752, TypeC 499, TypeC 750, TypeS 12,
    TypeS 12, TypeC 1613, TypeS 12, TypeC 346, TypeC 781, TypeC 517, TypeC 1345, TypeC 1362, TypeC 1355,
    TypeC 1765, TypeC 1928, TypeC 458, TypeS 67, TypeC 1617, TypeC 1821, TypeC 1911, TypeC 1819, TypeC 1685,
    TypeS 67, TypeC 1307, TypeC 1878, TypeC 1311, TypeC 1333, TypeC 1339, TypeC 456, TypeC 1900, TypeC 1925,
    TypeC 1232, TypeC 432, TypeC 630, TypeC 616, TypeC 1389, TypeC 1376, TypeC 1401, TypeC 1759, TypeC 1378,
    TypeC 1817, TypeC 472, TypeC 588, TypeS 12, TypeC 823, TypeC 834, TypeC 1875, TypeC 799, TypeC 813,
    TypeC 1872, TypeC 1697, TypeC 582, TypeC 1783, TypeC 1771, TypeC 1799, TypeC 1869, TypeC 994,
    TypeC 1001, TypeC 1016, TypeC 1504, TypeC 1574, TypeC 1578]"

definition se_elements_2 :: "schema_element list" where
  "se_elements_2 = [
    TypeC 1534, TypeC 1537, TypeC 1565, TypeC 1814, TypeC 365, TypeC 490, TypeS 12, TypeC 1508, TypeC 1526,
    TypeC 1531, TypeC 446, TypeC 417, TypeC 448, TypeC 1364, TypeC 1370, TypeC 1811, TypeC 487, TypeS 673,
    TypeC 1439, TypeC 1449, TypeC 1808, TypeC 484, TypeC 1148, TypeC 1158, TypeC 1756, TypeC 1282,
    TypeC 383, TypeC 454, TypeC 1291, TypeC 863, TypeC 388, TypeC 427, TypeC 376, TypeC 406, TypeC 421,
    TypeC 1922, TypeC 1485, TypeC 1490, TypeC 1501, TypeC 1712, TypeC 1719, TypeC 451, TypeC 1303, TypeS 7,
    TypeC 481, TypeS 10, TypeC 1583, TypeS 10, TypeS 11, TypeS 12, TypeC 1427, TypeC 591, TypeS 8, TypeS 12,
    TypeC 1591, TypeC 1806, TypeS 12, TypeC 855, TypeC 879, TypeC 900, TypeC 1014, TypeC 917, TypeC 1753,
    TypeC 1676, TypeC 1409, TypeC 1414, TypeC 1424, TypeS 12, TypeS 12, TypeC 982, TypeC 989, TypeC 1011,
    TypeC 1468, TypeC 1480, TypeC 1571, TypeC 1456, TypeC 1460, TypeC 1465, TypeC 641, TypeC 1216,
    TypeC 1407, TypeC 1227, TypeC 1189, TypeC 577, TypeC 356, TypeC 349, TypeC 1280, TypeC 1271, TypeC 1255,
    TypeC 1258, TypeC 370, TypeC 1265, TypeC 1277, TypeC 327, TypeC 958, TypeC 884, TypeC 1859, TypeC 1867,
    TypeC 820, TypeC 325, TypeC 439, TypeC 435, TypeC 622, TypeC 1644, TypeC 1671, TypeC 1656, TypeC 1659,
    TypeC 1665, TypeC 1750, TypeS 35, TypeS 9, TypeC 1843, TypeC 1920, TypeC 849, TypeS 12, TypeS 12,
    TypeC 944, TypeC 1054, TypeC 953, TypeC 1300, TypeS 7, TypeC 796, TypeC 478, TypeC 475, TypeC 522,
    TypeC 539, TypeC 496, TypeC 1728, TypeC 1709, TypeC 1736, TypeC 1864, TypeC 840, TypeC 844, TypeC 876,
    TypeC 1602, TypeC 1605, TypeC 1610, TypeS 12, TypeC 970, TypeC 977, TypeC 1008, TypeC 1297, TypeC 1192,
    TypeC 1006, TypeC 1203, TypeC 1747, TypeC 1907, TypeC 1122]"

definition se_elements_3 :: "schema_element list" where
  "se_elements_3 = [
    TypeC 1136, TypeC 1142, TypeC 1650, TypeC 1634, TypeC 1419, TypeC 1745, TypeS 6, TypeC 1168, TypeC 1183,
    TypeC 1210, TypeS 5, TypeS 12, TypeC 321, TypeC 469, TypeS 12, TypeC 866, TypeC 398, TypeC 861,
    TypeC 1248, TypeC 1742, TypeS 11, TypeC 719, TypeC 674, TypeC 1495, TypeS 259, Head 0, Simp 1 1 0 8 1,
    Simp 1 1 0 12 1, Simp 1 1 0 6 1, Head 0, Attr 0 1 0 4 2, Head 325, Attr 0 1 0 4 19, Simp 0 1 21 12 18,
    Comp 0 1 20 321 17, Simp 0 1 19 12 16, Comp 0 1 18 321 15, Simp 0 1 17 12 14, Simp 0 1 16 12 13,
    Simp 0 1 15 10 12, Simp 0 1 22 12 11, Simp 0 1 14 12 10, Simp 0 1 13 12 9, Simp 0 1 12 12 8,
    Simp 0 1 11 12 7, Simp 0 1 10 8 6, Simp 0 1 9 10 5, Simp 0 1 8 9 4, Simp 0 1 6 2 3, Simp 0 1 5 12 2,
    Head 0, Simp 1 1 0 10 1, Simp 1 1 0 5 1, Head 325, Attr 0 1 0 4 7, Simp 0 1 9 12 6, Simp 0 1 8 35 5,
    Comp 0 1 7 346 4, Simp 0 1 6 12 3, Simp 0 1 5 5 2, Head 349, Attr 0 1 0 4 9, Attr 0 1 1 12 8,
    Simp 0 1 9 12 7, Simp 0 1 8 35 6, Comp 0 1 7 346 5, Simp 0 1 6 12 4, Simp 0 1 5 5 3, Simp 0 1 10 35 2,
    Head 325, Attr 0 1 0 4 2, Simp 1 1 0 259 1, Simp 0 1 0 513 3, Simp 0 1 2 11 2, Head 365, Attr 0 1 0 4 2,
    Simp 1 1 0 259 1, Simp 0 1 0 513 3, Simp 0 1 2 11 2, Comp 1 1 0 346 1, Head 370, Attr 0 1 0 4 2,
    Simp 1 1 0 259 1, Simp 0 1 0 513 3, Simp 0 1 2 11 2, Comp 1 1 0 346 1, Unb 0 356 2, Head 365,
    Attr 0 1 0 4 2, Simp 1 1 0 259 1, Simp 0 1 0 513 3, Simp 0 1 2 11 2, Head 383, Attr 0 1 0 4 2,
    Simp 1 1 0 259 1, Simp 0 1 0 513 8, Simp 0 1 2 11 7, Simp 0 1 8 5 6, Unb 0 376 5, Simp 0 1 7 5 4,
    Comp 0 1 6 356 3, Comp 0 1 5 327 2, Head 365, Attr 0 1 0 4 2, Simp 1 1 0 259 1, Simp 0 1 0 513 3,
    Simp 0 1 2 11 2, Simp 1 1 0 35 1, Simp 1 1 0 12 1, Simp 1 1 0 12 1, Head 398, Attr 0 1 0 4 2,
    Simp 1 1 0 259 1, Simp 0 1 0 513 3, Simp 0 1 2 11 2, Simp 1 1 0 35 1, Simp 1 1 0 12 1, Simp 1 1 0 12 1,
    Simp 1 1 0 323 1, Unb 0 388 3, Simp 0 1 5 10 2, Head 325, Attr 1 1 0 11 1, Attr 0 1 0 4 2,
    Attr 1 1 0 12 1, Head 417, Attr 1 1 0 11 1, Attr 0 1 0 4 3, Attr 0 1 17 10 2, Attr 1 1 0 12 1,
    Unb 0 406 2, Head 417]"

definition se_elements_4 :: "schema_element list" where
  "se_elements_4 = [
    Attr 1 1 0 11 1, Attr 0 1 0 4 2, Attr 1 1 0 12 1, Unb 0 388 2, Head 0, Simp 0 1 0 11 2, Simp 1 1 0 11 1,
    Head 325, Attr 0 1 0 4 4, Attr 0 1 0 4 3, Attr 0 1 5 19 2, Head 435, Attr 0 1 0 4 4, Attr 0 1 0 4 3,
    Attr 0 1 5 19 2, Simp 1 1 0 259 1, Simp 0 1 0 513 3, Simp 0 1 2 11 2, Head 0, Attr 1 1 0 4 1, Head 446,
    Attr 0 1 0 11 2, Attr 1 1 0 4 1, Head 448, Attr 0 1 0 11 2, Attr 1 1 0 4 1, Head 446, Attr 1 1 0 4 1,
    Head 446, Attr 1 1 0 4 1, Head 446, Attr 1 1 0 4 1, Head 446, Attr 1 1 0 4 1, Head 446, Attr 1 1 0 4 1,
    Head 446, Attr 1 1 0 4 1, Head 448, Attr 0 1 0 11 2, Attr 1 1 0 4 1, Head 0, Simp 1 1 0 8 1,
    Simp 1 1 0 11 1, Head 0, Simp 1 1 0 8 1, Simp 1 1 0 7 1, Head 0, Simp 1 1 0 5 1, Simp 1 1 0 12 1,
    Head 0, Simp 1 1 0 5 1, Simp 1 1 0 11 1, Head 0, Simp 1 1 0 5 1, Simp 1 1 0 12 1, Head 0,
    Simp 1 1 0 5 1, Simp 1 1 0 97 1, Head 0, Simp 1 1 0 5 1, Simp 1 1 0 12 1, Head 0, Simp 1 1 0 5 1,
    Simp 1 1 0 12 1, Head 0, Simp 1 1 0 5 1, Simp 1 1 0 19 1, Head 325, Attr 0 1 0 4 3, Attr 0 1 1 12 2,
    Head 496, Attr 0 1 0 4 8, Attr 0 1 1 12 7, Comp 0 1 12 493 6, Comp 0 1 11 490 5, Comp 0 1 10 487 4,
    Comp 0 1 9 484 3, Comp 0 1 8 481 2, Simp 1 1 0 5 1, Comp 0 1 7 478 4, Comp 0 1 6 475 3,
    Comp 0 1 5 493 2, Head 448, Attr 0 1 0 11 2, Attr 1 1 0 4 1, Head 448, Attr 0 1 0 11 2, Attr 1 1 0 4 1,
    Head 446, Attr 1 1 0 4 1, Head 448, Attr 0 1 0 11 2, Attr 1 1 0 4 1, Head 496, Attr 0 1 0 4 3,
    Attr 0 1 1 12 2, Simp 1 1 0 259 1, Simp 0 1 0 513 3, Simp 0 1 2 11 2, Head 522, Attr 0 1 0 4 3,
    Attr 0 1 1 12 2, Simp 1 1 0 259 1, Simp 0 1 0 513 7, Simp 0 1 2 11 6, Comp 0 1 8 519 5,
    Comp 0 1 7 517 4, Comp 0 1 6 514 3, Comp 0 1 5 511 2, Simp 1 1 0 12 1, Head 496, Attr 1 1 0 11 1,
    Attr 0 1 0 4 2, Attr 1 1 0 12 1, Attr 0 1 1 12 2]"

definition se_elements_5 :: "schema_element list" where
  "se_elements_5 = [
    Head 539, Attr 1 1 0 11 1, Attr 0 1 0 4 3, Attr 0 1 17 10 2, Attr 1 1 0 12 1, Attr 0 1 1 12 3,
    Unb 0 528 2, Head 0, Simp 1 1 0 6 1, Simp 1 1 0 6 1, Head 365, Attr 0 1 0 4 2, Simp 1 1 0 259 1,
    Simp 0 1 0 513 3, Simp 0 1 2 11 2, Simp 1 1 0 5 1, Comp 1 10 9 551 2, Simp 1 1 0 12 1, Simp 0 1 8 11 5,
    Simp 0 1 7 11 4, Simp 0 1 6 11 3, Simp 0 1 5 11 2, Simp 1 1 0 8 1, Simp 1 1 0 8 1, Simp 1 1 0 12 1,
    Head 417, Attr 1 1 0 11 1, Attr 0 1 0 4 2, Attr 1 1 0 12 1, Unb 0 554 2, Head 0, Simp 1 1 0 8 1,
    Simp 1 1 0 7 1, Head 0, Simp 1 1 0 8 1, Simp 1 1 0 7 1, Head 446, Attr 1 1 0 4 1, Head 0,
    Simp 1 1 0 10 1, Simp 1 1 0 10 1, Simp 1 1 0 11 1, Simp 1 1 0 11 1, Simp 1 1 0 11 1, Head 0,
    Simp 1 1 0 12 1, Simp 1 1 0 7 1, Head 0, Simp 1 1 0 7 1, Simp 1 1 0 8 1, Head 0, Simp 0 1 21 2 22,
    Simp 0 1 19 2 21, Comp 0 1 18 591 20, Comp 0 1 17 588 19, Simp 0 1 16 7 18, Comp 0 1 15 582 17,
    Comp 0 1 14 580 16, Comp 0 1 13 580 15, Comp 0 1 12 580 14, Comp 0 1 11 580 13, Comp 0 1 10 580 12,
    Comp 0 1 9 580 11, Comp 0 1 8 580 10, Simp 0 1 7 11 9, Comp 0 1 6 577 8, Comp 0 1 5 574 7,
    Comp 0 1 4 580 6, Comp 0 1 3 580 5, Comp 0 1 2 580 4, Comp 0 1 1 580 3, Simp 0 1 0 11 2, Head 0,
    Simp 1 1 0 12 1, Simp 1 1 0 5 1, Simp 1 1 2 2 1, Simp 0 1 1 5 3, Simp 0 1 0 3073 2, Head 435,
    Attr 0 1 0 4 5, Attr 0 1 0 4 4, Attr 0 1 5 19 3, Attr 0 1 1 12 2, Simp 1 1 0 259 1, Simp 0 1 0 513 3,
    Simp 0 1 2 11 2, Head 622, Attr 0 1 0 4 5, Attr 0 1 0 4 4, Attr 0 1 5 19 3, Attr 0 1 1 12 2,
    Simp 1 1 0 259 1, Simp 0 1 0 513 3, Simp 0 1 2 11 2, Simp 1 1 0 5 1, Comp 1 1 0 616 1, Comp 1 1 0 346 1,
    Head 630, Attr 0 1 0 4 5, Attr 0 1 0 4 4, Attr 0 1 5 19 3, Attr 0 1 1 12 2, Simp 1 1 0 259 1,
    Simp 0 1 0 513 3, Simp 0 1 2 11 2, Simp 1 1 0 5 1, Comp 1 1 0 616 1, Comp 1 1 0 346 1, Simp 0 1 7 7 3,
    Simp 0 1 6 7 2, Head 641, Attr 0 1 0 4 5, Attr 0 1 0 4 4, Attr 0 1 5 19 3, Attr 0 1 1 12 2,
    Simp 1 1 0 259 1, Simp 0 1 0 513 3, Simp 0 1 2 11 2, Simp 1 1 0 5 1, Comp 1 1 0 616 1, Comp 1 1 0 346 1,
    Simp 0 1 7 7 3, Simp 0 1 6 7 2, Comp 1 1 0 594 1, Head 539, Attr 1 1 0 11 1, Attr 0 1 0 4 2,
    Attr 1 1 0 12 1, Attr 0 1 1 12 3, Unb 0 654 2, Head 0]"

definition se_elements_6 :: "schema_element list" where
  "se_elements_6 = [
    Simp 1 1 0 8 1, Simp 1 1 0 11 1, Head 0, Simp 1 1 0 8 1, Simp 1 1 0 11 1, Head 0, Simp 1 1 0 8 1,
    Simp 1 1 0 11 1, Head 0, Simp 1 1 0 8 1, Simp 1 1 0 11 1, Head 325, Attr 0 1 0 4 2, Simp 1 1 0 67 1,
    Comp 1 1 0 683 1, Simp 0 1 21 12 17, Comp 0 1 20 680 16, Comp 0 1 19 677 15, Comp 0 1 18 574 14,
    Comp 0 1 17 677 13, Comp 0 1 16 574 12, Comp 0 1 15 591 11, Comp 0 1 14 591 10, Simp 0 1 13 12 9,
    Comp 0 1 12 591 8, Comp 0 1 11 574 7, Comp 0 1 10 591 6, Comp 0 1 9 574 5, Comp 0 1 8 677 4,
    Comp 0 1 7 577 3, Comp 0 1 6 577 2, Comp 1 1 0 574 1, Comp 0 1 5 674 2, Simp 1 1 0 12 1, Head 496,
    Attr 0 1 0 4 5, Attr 0 1 1 12 4, Simp 0 1 10 10 3, Simp 0 1 9 10 2, Simp 1 1 0 5 1, Simp 0 1 8 11 5,
    Simp 0 1 7 11 4, Comp 0 1 6 577 3, Comp 0 1 5 574 2, Head 0, Simp 1 1 0 8 1, Simp 1 1 0 11 1, Head 496,
    Attr 0 1 0 4 10, Attr 0 1 1 12 9, Simp 0 1 19 67 8, Simp 0 1 20 11 7, Simp 0 1 21 11 6, Simp 0 1 22 7 5,
    Simp 0 1 23 11 4, Simp 0 1 24 7 3, Simp 0 1 25 11 2, Simp 1 1 0 11 1, Comp 0 1 18 683 10,
    Comp 0 1 17 680 9, Comp 0 1 16 677 8, Comp 0 1 15 574 7, Comp 0 1 14 677 6, Comp 0 1 13 574 5,
    Comp 0 1 12 677 4, Comp 0 1 11 577 3, Comp 0 1 10 577 2, Comp 1 1 0 574 1, Comp 0 1 9 674 7,
    Comp 0 1 8 591 6, Comp 0 1 7 591 5, Simp 0 1 26 11 4, Comp 0 1 6 719 3, Comp 0 1 5 719 2,
    Simp 1 1 0 5 1, Head 446, Attr 1 1 0 4 1, Head 446, Attr 1 1 0 4 1, Head 446, Attr 1 1 0 4 1, Head 446,
    Attr 1 1 0 4 1, Head 446, Attr 1 1 0 4 1, Head 446, Attr 1 1 0 4 1, Head 448, Attr 0 1 0 11 2,
    Attr 1 1 0 4 1, Head 496, Attr 0 1 0 4 10, Attr 0 1 1 12 9, Comp 0 1 11 762 8, Comp 0 1 10 760 7,
    Comp 0 1 9 758 6, Comp 0 1 8 756 5, Comp 0 1 7 754 4, Comp 0 1 6 752 3, Comp 0 1 5 750 2, Head 417,
    Attr 1 1 0 11 1, Attr 0 1 0 4 3, Attr 0 1 17 10 2, Attr 1 1 0 12 1, Unb 0 765 2, Head 522,
    Attr 0 1 0 4 3, Attr 0 1 1 12 2, Simp 1 1 0 259 1, Simp 0 1 0 513 3, Simp 0 1 2 11 2, Comp 1 1 0 594 1,
    Simp 0 1 20 11 9, Simp 0 1 21 11 8, Simp 0 1 22 7 7, Simp 0 1 23 11 6, Simp 0 1 24 7 5,
    Simp 0 1 25 11 4, Simp 0 1 5 11 3, Simp 0 1 26 11 2, Head 0, Simp 1 1 0 8 1, Simp 1 1 0 5 1, Head 630,
    Attr 0 1 0 4 5, Attr 0 1 0 4 4, Attr 0 1 5 19 3, Attr 0 1 1 12 2]"

definition se_elements_7 :: "schema_element list" where
  "se_elements_7 = [
    Simp 1 1 0 259 1, Simp 0 1 0 513 3, Simp 0 1 2 11 2, Simp 1 1 0 5 1, Comp 1 1 0 616 1, Comp 1 1 0 346 1,
    Comp 1 1 0 796 1, Comp 1 1 0 574 1, Simp 1 1 0 259 1, Head 539, Attr 1 1 0 11 1, Attr 0 1 0 4 3,
    Attr 0 1 17 10 2, Attr 1 1 0 12 1, Attr 0 1 1 12 3, Unb 0 799 2, Head 0, Simp 1 1 0 5 1,
    Simp 1 1 0 12 1, Head 365, Attr 0 1 0 4 2, Simp 1 1 0 259 1, Simp 0 1 0 513 3, Simp 0 1 2 11 2,
    Simp 1 1 0 5 1, Simp 0 1 5 11 2, Comp 1 1 0 796 1, Comp 1 1 0 346 1, Comp 1 1 0 574 1, Comp 1 1 0 820 1,
    Head 417, Attr 1 1 0 11 1, Attr 0 1 0 4 3, Attr 0 1 17 10 2, Attr 1 1 0 12 1, Unb 0 823 2, Head 325,
    Attr 0 1 0 4 3, Simp 0 1 0 513 2, Comp 1 1 0 346 1, Head 417, Attr 1 1 0 11 1, Attr 0 1 0 4 2,
    Attr 1 1 0 12 1, Unb 0 840 2, Head 0, Simp 1 1 0 12 1, Simp 1 1 0 5 1, Head 0, Simp 1 1 0 12 1,
    Simp 1 1 0 5 1, Head 325, Attr 0 1 0 4 5, Comp 0 1 7 852 4, Simp 0 1 6 12 3, Comp 0 1 5 849 2,
    Simp 1 1 0 12 1, Head 446, Attr 1 1 0 4 1, Head 448, Attr 0 1 0 11 2, Attr 1 1 0 4 1, Head 398,
    Attr 0 1 0 4 2, Simp 1 1 0 259 1, Simp 0 1 0 513 3, Simp 0 1 2 11 2, Simp 1 1 0 35 1, Simp 1 1 0 12 1,
    Simp 1 1 0 12 1, Simp 0 1 6 323 3, Comp 0 1 5 863 2, Head 448, Attr 0 1 0 11 2, Attr 1 1 0 4 1,
    Head 446, Attr 1 1 0 4 1, Head 448, Attr 0 1 0 11 2, Attr 1 1 0 4 1, Head 0, Simp 1 1 0 8 1,
    Simp 1 1 0 9 1, Head 0, Comp 0 1 0 884 2, Simp 1 1 0 11 1, Simp 1 1 0 8 1, Simp 1 1 0 6 1, Head 448,
    Attr 0 1 0 11 2, Attr 1 1 0 4 1, Head 448, Attr 0 1 0 11 2, Attr 1 1 0 4 1, Head 446, Attr 1 1 0 4 1,
    Head 365, Attr 0 1 0 4 2, Simp 1 1 0 259 1, Simp 0 1 0 513 3, Simp 0 1 2 11 2, Comp 1 1 0 898 1,
    Comp 0 1 9 895 4, Comp 0 1 8 892 3, Comp 0 1 7 887 2, Comp 1 1 0 881 1, Comp 0 1 6 887 3,
    Comp 0 1 5 887 2, Simp 1 1 0 12 1, Comp 1 1 0 879 1, Comp 1 1 0 876 1, Unb 0 866 3, Comp 0 1 16 861 2,
    Head 539, Attr 1 1 0 11 1, Attr 0 1 0 4 3, Attr 0 1 17 10 2, Attr 1 1 0 12 1, Attr 0 1 1 12 3,
    Unb 0 900 2, Head 365, Attr 0 1 0 4 2, Simp 1 1 0 259 1, Simp 0 1 0 513 3, Simp 0 1 2 11 2]"

definition se_elements_8 :: "schema_element list" where
  "se_elements_8 = [
    Comp 1 1 0 887 1, Simp 0 1 5 12 2, Simp 1 1 0 5 1, Simp 1 1 0 513 1, Head 417, Attr 1 1 0 11 1,
    Attr 0 1 0 4 2, Attr 1 1 0 12 1, Unb 0 924 2, Head 325, Attr 0 1 0 4 2, Comp 1 1 0 887 1,
    Simp 0 1 7 12 4, Comp 0 1 6 887 3, Simp 0 1 5 12 2, Head 365, Attr 0 1 0 4 2, Simp 1 1 0 259 1,
    Simp 0 1 0 513 7, Simp 0 1 2 11 6, Simp 0 1 8 513 5, Simp 0 1 7 321 4, Simp 0 1 6 10 3,
    Simp 0 1 5 673 2, Head 417, Attr 1 1 0 11 1, Attr 0 1 0 4 2, Attr 1 1 0 12 1, Unb 0 944 2, Head 446,
    Attr 1 1 0 4 1, Head 448, Attr 0 1 0 11 2, Attr 1 1 0 4 1, Head 383, Attr 0 1 0 4 2, Simp 1 1 0 259 1,
    Simp 0 1 0 513 5, Simp 0 1 2 11 4, Comp 0 1 6 960 3, Comp 0 1 5 958 2, Head 963, Attr 0 1 0 4 2,
    Simp 1 1 0 259 1, Simp 0 1 0 513 5, Simp 0 1 2 11 4, Comp 0 1 6 960 3, Comp 0 1 5 958 2, Head 417,
    Attr 1 1 0 11 1, Attr 0 1 0 4 2, Attr 1 1 0 12 1, Unb 0 970 2, Head 963, Attr 0 1 0 4 2,
    Simp 1 1 0 259 1, Simp 0 1 0 513 5, Simp 0 1 2 11 4, Comp 0 1 6 960 3, Comp 0 1 5 958 2, Head 417,
    Attr 1 1 0 11 1, Attr 0 1 0 4 2, Attr 1 1 0 12 1, Unb 0 982 2, Head 963, Attr 0 1 0 4 2,
    Simp 1 1 0 259 1, Simp 0 1 0 513 5, Simp 0 1 2 11 4, Comp 0 1 6 960 3, Comp 0 1 5 958 2, Head 417,
    Attr 1 1 0 11 1, Attr 0 1 0 4 2, Attr 1 1 0 12 1, Unb 0 994 2, Head 446, Attr 1 1 0 4 1, Head 448,
    Attr 0 1 0 11 2, Attr 1 1 0 4 1, Head 448, Attr 0 1 0 11 2, Attr 1 1 0 4 1, Head 446, Attr 1 1 0 4 1,
    Head 448, Attr 0 1 0 11 2, Attr 1 1 0 4 1, Head 448, Attr 0 1 0 11 2, Attr 1 1 0 4 1, Head 448,
    Attr 0 1 0 11 2, Attr 1 1 0 4 1, Head 448, Attr 0 1 0 11 2, Attr 1 1 0 4 1, Head 448, Attr 0 1 0 11 2,
    Attr 1 1 0 4 1, Head 365, Attr 0 1 0 4 2, Simp 1 1 0 259 1, Simp 0 1 0 513 15, Simp 0 1 2 11 14,
    Comp 0 1 15 1028 13, Comp 0 1 14 1025 12, Comp 0 1 13 1022 11, Comp 0 1 12 1019 10, Comp 0 1 11 1016 9,
    Comp 0 1 10 1014 8, Comp 0 1 9 1011 7, Simp 0 1 8 673 6, Simp 0 1 7 673 5, Comp 0 1 6 1008 4,
    Comp 0 1 5 1006 3, Comp 0 1 16 861 2, Head 539, Attr 1 1 0 11 1, Attr 0 1 0 4 2, Attr 1 1 0 12 1,
    Attr 0 1 1 12 3]"

definition se_elements_9 :: "schema_element list" where
  "se_elements_9 = [
    Unb 0 1031 2, Head 446, Attr 1 1 0 4 1, Head 448, Attr 0 1 0 11 2, Attr 1 1 0 4 1, Head 365,
    Attr 0 1 0 4 2, Simp 1 1 0 259 1, Simp 0 1 0 513 3, Simp 0 1 2 11 2, Simp 1 1 0 11 1, Simp 0 1 8 673 4,
    Comp 0 1 7 1056 3, Simp 0 1 6 673 2, Simp 1 1 0 8 1, Comp 0 1 5 1054 2, Head 539, Attr 1 1 0 11 1,
    Attr 0 1 0 4 3, Attr 0 1 17 10 2, Attr 1 1 0 12 1, Attr 0 1 1 12 3, Unb 0 1059 2, Head 448,
    Attr 0 1 0 11 2, Attr 1 1 0 4 1, Head 370, Attr 0 1 0 4 2, Simp 1 1 0 259 1, Simp 0 1 0 513 3,
    Simp 0 1 2 11 2, Comp 1 1 0 346 1, Comp 0 1 5 1077 2, Head 539, Attr 1 1 0 11 1, Attr 0 1 0 4 2,
    Attr 1 1 0 12 1, Attr 0 1 1 12 3, Unb 0 1080 2, Head 0, Simp 0 1 0 321 3, Simp 0 1 22 12 2,
    Simp 1 1 0 6 1, Head 349, Attr 0 1 0 4 8, Simp 0 1 9 12 7, Simp 0 1 8 35 6, Comp 0 1 7 346 5,
    Simp 0 1 6 12 4, Simp 0 1 5 5 3, Unb 0 1093 2, Head 417, Attr 1 1 0 11 1, Attr 0 1 0 4 2,
    Attr 1 1 0 12 1, Unb 0 1097 2, Head 325, Attr 0 1 0 4 4, Simp 0 1 7 5 3, Simp 0 1 6 5 2,
    Comp 1 1 0 346 1, Simp 0 1 5 5 2, Head 539, Attr 1 1 0 11 1, Attr 0 1 0 4 2, Attr 1 1 0 12 1,
    Attr 0 1 1 12 3, Unb 0 1110 2, Head 630, Attr 0 1 0 4 5, Attr 0 1 0 4 4, Attr 0 1 5 19 3,
    Attr 0 1 1 12 2, Simp 1 1 0 259 1, Simp 0 1 0 513 3, Simp 0 1 2 11 2, Simp 1 1 0 5 1, Comp 1 1 0 616 1,
    Comp 1 1 0 346 1, Simp 0 1 6 321 2, Simp 1 1 0 12 1, Simp 1 1 0 1 1, Head 539, Attr 1 1 0 11 1,
    Attr 0 1 0 4 2, Attr 1 1 0 12 1, Attr 0 1 1 12 3, Unb 0 1122 2, Head 448, Attr 0 1 0 11 2,
    Attr 1 1 0 4 1, Head 448, Attr 0 1 0 11 2, Attr 1 1 0 4 1, Head 522, Attr 0 1 0 4 3, Attr 0 1 1 12 2,
    Simp 1 1 0 259 1, Simp 0 1 0 513 4, Simp 0 1 2 11 3, Comp 0 1 6 1145 2, Simp 1 1 0 673 1,
    Simp 1 1 0 12 1, Comp 0 1 5 1142 2, Head 539, Attr 1 1 0 11 1, Attr 0 1 0 4 3, Attr 0 1 17 10 2,
    Attr 1 1 0 12 1, Attr 0 1 1 12 3, Unb 0 1148 2, Head 448, Attr 0 1 0 11 2, Attr 1 1 0 4 1, Head 641,
    Attr 0 1 0 4 5, Attr 0 1 0 4 4, Attr 0 1 5 19 3, Attr 0 1 1 12 2, Simp 1 1 0 259 1, Simp 0 1 0 513 3,
    Simp 0 1 2 11 2, Simp 1 1 0 5 1, Comp 1 1 0 616 1, Comp 1 1 0 346 1, Simp 0 1 7 7 4, Simp 0 1 6 7 3]"

definition se_elements_10 :: "schema_element list" where
  "se_elements_10 = [
    Comp 0 1 8 1165 2, Simp 1 1 0 12 1, Head 539, Attr 1 1 0 11 1, Attr 0 1 0 4 2, Attr 1 1 0 12 1,
    Attr 0 1 1 12 3, Unb 0 1168 2, Head 448, Attr 0 1 0 11 2, Attr 1 1 0 4 1, Head 365, Attr 0 1 0 4 2,
    Simp 1 1 0 259 1, Simp 0 1 0 513 5, Simp 0 1 2 11 4, Simp 0 1 7 11 3, Simp 0 1 6 8 2, Simp 1 1 0 12 1,
    Simp 0 1 5 321 3, Comp 0 1 8 1189 2, Simp 1 1 0 12 1, Head 539, Attr 1 1 0 11 1, Attr 0 1 0 4 3,
    Attr 0 1 17 10 2, Attr 1 1 0 12 1, Attr 0 1 1 12 3, Unb 0 1192 2, Head 448, Attr 0 1 0 11 2,
    Attr 1 1 0 4 1, Head 448, Attr 0 1 0 11 2, Attr 1 1 0 4 1, Head 365, Attr 0 1 0 4 2, Simp 1 1 0 259 1,
    Simp 0 1 0 513 6, Simp 0 1 2 11 5, Comp 0 1 7 1213 4, Comp 0 1 6 321 3, Comp 0 1 5 321 2,
    Comp 1 1 0 958 1, Simp 1 1 0 35 1, Comp 1 1 0 1210 1, Head 417, Attr 1 1 0 11 1, Attr 0 1 0 4 2,
    Attr 1 1 0 12 1, Unb 0 1216 2, Head 0, Simp 1 1 0 10 1, Simp 1 1 0 12 1, Simp 1 1 0 12 1,
    Simp 1 1 0 12 1, Head 325, Attr 0 1 0 4 2, Simp 1 1 0 12 1, Unb 0 1232 3, Simp 0 1 5 6 2,
    Simp 1 1 0 9 1, Head 417, Attr 1 1 0 11 1, Attr 0 1 0 4 2, Attr 1 1 0 12 1, Unb 0 1237 2, Head 539,
    Attr 1 1 0 11 1, Attr 0 1 0 4 3, Attr 0 1 17 10 2, Attr 1 1 0 12 1, Attr 0 1 1 12 3, Unb 0 866 2,
    Head 448, Attr 0 1 0 11 2, Attr 1 1 0 4 1, Head 370, Attr 0 1 0 4 2, Simp 1 1 0 259 1, Simp 0 1 0 513 3,
    Simp 0 1 2 11 2, Comp 1 1 0 346 1, Comp 0 1 5 1255 2, Head 539, Attr 1 1 0 11 1, Attr 0 1 0 4 2,
    Attr 1 1 0 12 1, Attr 0 1 1 12 3, Unb 0 1258 2, Head 539, Attr 1 1 0 11 1, Attr 0 1 0 4 2,
    Attr 1 1 0 12 1, Attr 0 1 1 12 3, Unb 0 356 2, Head 448, Attr 0 1 0 11 2, Attr 1 1 0 4 1, Head 446,
    Attr 1 1 0 4 1, Head 383, Attr 0 1 0 4 2, Simp 1 1 0 259 1, Simp 0 1 0 513 6, Simp 0 1 2 11 5,
    Comp 0 1 8 1189 4, Comp 0 1 6 1280 3, Comp 0 1 5 1277 2, Comp 1 1 0 958 1, Head 539, Attr 1 1 0 11 1,
    Attr 0 1 0 4 2, Attr 1 1 0 12 1, Attr 0 1 1 12 3, Unb 0 1282 2, Head 0, Simp 1 1 0 12 1,
    Simp 1 1 0 11 1, Head 0, Simp 0 1 1 7 3, Simp 0 1 0 7 2, Head 0, Simp 0 1 2 12 4, Simp 0 1 1 12 3]"

definition se_elements_11 :: "schema_element list" where
  "se_elements_11 = [
    Simp 0 1 0 11 2, Head 0, Simp 1 1 0 12 1, Head 0, Simp 1 1 0 12 1, Head 641, Attr 0 1 0 4 5,
    Attr 0 1 0 4 4, Attr 0 1 5 19 3, Attr 0 1 1 12 2, Simp 1 1 0 259 1, Simp 0 1 0 513 3, Simp 0 1 2 11 2,
    Simp 1 1 0 5 1, Comp 1 1 0 616 1, Comp 1 1 0 346 1, Simp 0 1 7 7 4, Simp 0 1 6 7 3, Comp 0 1 11 1309 2,
    Simp 1 1 0 67 1, Simp 1 1 10 2 1, Comp 0 1 12 1307 2, Simp 1 1 9 2 1, Comp 0 1 13 1303 5,
    Simp 0 1 14 11 4, Comp 0 1 15 1300 3, Comp 0 1 8 1297 2, Head 539, Attr 1 1 0 11 1, Attr 0 1 0 4 2,
    Attr 1 1 0 12 1, Attr 0 1 1 12 3, Unb 0 1311 2, Head 448, Attr 0 1 0 11 2, Attr 1 1 0 4 1, Head 448,
    Attr 0 1 0 11 2, Attr 1 1 0 4 1, Head 365, Attr 0 1 0 4 2, Simp 1 1 0 259 1, Simp 0 1 0 513 7,
    Simp 0 1 2 11 6, Comp 0 1 8 1342 5, Simp 0 1 7 11 4, Comp 0 1 6 574 3, Comp 0 1 5 1339 2,
    Simp 1 1 0 12 1, Head 539, Attr 1 1 0 11 1, Attr 0 1 0 4 3, Attr 0 1 17 10 2, Attr 1 1 0 12 1,
    Attr 0 1 1 12 3, Unb 0 1345 2, Head 446, Attr 1 1 0 4 1, Head 325, Attr 0 1 0 4 6, Simp 0 1 10 10 5,
    Comp 0 1 7 1362 4, Simp 0 1 6 11 3, Comp 0 1 5 574 2, Head 417, Attr 1 1 0 11 1, Attr 0 1 0 4 3,
    Attr 0 1 17 10 2, Attr 1 1 0 12 1, Unb 0 1364 2, Head 446, Attr 1 1 0 4 1, Head 325, Attr 0 1 0 4 5,
    Attr 0 1 17 10 4, Simp 0 1 7 5 3, Comp 0 1 5 1376 2, Simp 1 1 0 12 1, Simp 1 1 0 5 1, Simp 1 1 0 11 1,
    Simp 1 1 0 11 1, Simp 1 1 0 12 1, Simp 1 1 0 5 1, Head 325, Attr 0 1 0 4 3, Simp 0 1 7 5 2,
    Simp 1 1 0 4 1, Simp 0 1 3 323 3, Simp 0 1 6 513 2, Simp 1 1 0 10 1, Simp 1 1 0 513 1, Simp 0 1 5 513 2,
    Simp 1 1 0 257 1, Simp 1 1 0 10 1, Simp 1 1 0 35 1, Head 417, Attr 1 1 0 11 1, Attr 0 1 0 4 3,
    Attr 0 1 17 10 2, Attr 1 1 0 12 1, Unb 0 1389 2, Head 446, Attr 1 1 0 4 1, Head 325, Attr 0 1 0 4 2,
    Simp 1 1 0 6 1, Simp 1 1 0 6 1, Comp 1 1 0 1407 1, Head 417, Attr 1 1 0 11 1, Attr 0 1 0 4 2,
    Attr 1 1 0 12 1, Unb 0 1409 2, Head 0, Simp 1 1 0 67 1, Simp 1 1 0 6 1, Simp 1 1 0 67 1, Simp 1 1 0 6 1,
    Head 448, Attr 0 1 0 11 2, Attr 1 1 0 4 1, Head 0, Simp 0 1 1 5 3, Simp 0 1 0 10 2, Head 496,
    Attr 0 1 0 4 4]"

definition se_elements_12 :: "schema_element list" where
  "se_elements_12 = [
    Attr 0 1 17 10 3, Attr 0 1 1 12 2, Simp 1 1 0 673 1, Comp 0 1 7 1427 4, Comp 0 1 6 1424 3,
    Comp 0 1 5 1419 2, Simp 1 1 0 513 1, Head 325, Attr 0 1 0 4 2, Simp 1 1 0 5 1, Simp 0 1 6 513 3,
    Simp 0 1 5 10 2, Simp 1 1 0 12 1, Simp 1 1 0 12 1, Simp 1 1 0 11 1, Simp 1 1 0 10 1, Simp 1 1 0 12 1,
    Head 539, Attr 1 1 0 11 1, Attr 0 1 0 4 3, Attr 0 1 17 10 2, Attr 1 1 0 12 1, Attr 0 1 1 12 3,
    Unb 0 1439 2, Head 325, Attr 0 1 0 4 2, Simp 1 1 0 259 1, Simp 1 1 0 259 1, Head 417, Attr 1 1 0 11 1,
    Attr 0 1 0 4 2, Attr 1 1 0 12 1, Unb 0 1456 2, Head 448, Attr 0 1 0 11 2, Attr 1 1 0 4 1, Head 325,
    Attr 0 1 0 4 2, Simp 1 1 0 12 1, Simp 1 1 7 2 1, Simp 1 1 0 12 1, Simp 1 1 6 2 1, Simp 1 1 0 12 1,
    Simp 1 1 0 12 1, Simp 1 1 0 11 1, Simp 1 1 0 12 1, Comp 0 1 5 1465 2, Simp 1 1 0 12 1, Head 417,
    Attr 1 1 0 11 1, Attr 0 1 0 4 2, Attr 1 1 0 12 1, Unb 0 1468 2, Head 325, Attr 0 1 0 4 2,
    Simp 1 1 5 2 1, Simp 1 1 0 12 1, Simp 1 1 0 11 1, Head 417, Attr 1 1 0 11 1, Attr 0 1 0 4 2,
    Attr 1 1 0 12 1, Unb 0 1485 2, Head 0, Simp 0 1 1 10 3, Simp 0 1 0 10 2, Simp 1 1 0 10 1,
    Simp 1 1 0 10 1, Simp 1 1 0 10 1, Head 448, Attr 0 1 0 11 2, Attr 1 1 0 4 1, Head 0, Simp 1 1 0 19 1,
    Comp 0 1 0 1501 2, Simp 1 1 0 11 1, Head 325, Attr 0 1 0 4 2, Simp 1 1 0 10 1, Simp 1 1 0 131 1,
    Comp 0 1 17 1504 2, Simp 1 1 0 12 1, Simp 0 1 16 10 13, Simp 0 1 15 10 12, Simp 0 1 14 10 11,
    Simp 0 1 13 10 10, Simp 0 1 12 10 9, Simp 0 1 11 10 8, Simp 0 1 10 10 7, Simp 0 1 9 10 6,
    Simp 0 1 8 10 5, Simp 0 1 7 10 4, Simp 0 1 6 10 3, Comp 0 1 5 1495 2, Head 417, Attr 1 1 0 11 1,
    Attr 0 1 0 4 2, Attr 1 1 0 12 1, Unb 0 1508 2, Head 448, Attr 0 1 0 11 2, Attr 1 1 0 4 1, Head 448,
    Attr 0 1 0 11 2, Attr 1 1 0 4 1, Head 325, Attr 0 1 0 4 28, Simp 0 1 31 3073 27, Simp 0 1 30 10 26,
    Simp 0 1 29 10 25, Simp 0 1 28 10 24, Simp 0 1 27 10 23, Simp 0 1 26 10 22, Simp 0 1 25 10 21,
    Simp 0 1 24 10 20, Simp 0 1 23 10 19, Simp 0 1 22 10 18, Simp 0 1 21 10 17, Simp 0 1 20 257 16,
    Simp 0 1 19 12 15, Simp 0 1 18 10 14, Simp 0 1 17 10 13, Simp 0 1 16 10 12, Simp 0 1 15 10 11,
    Simp 0 1 14 10 10, Simp 0 1 13 10 9, Simp 0 1 11 2 8, Simp 0 1 10 10 7, Simp 0 1 9 11 6,
    Comp 0 1 8 1534 5, Simp 0 1 7 5 4]"

definition se_elements_13 :: "schema_element list" where
  "se_elements_13 = [
    Simp 0 1 6 5 3, Comp 0 1 5 1531 2, Head 417, Attr 1 1 0 11 1, Attr 0 1 0 4 3, Attr 0 1 17 10 2,
    Attr 1 1 0 12 1, Unb 0 1537 2, Head 448, Attr 0 1 0 11 2, Attr 1 1 0 4 1, Head 325, Attr 0 1 0 4 2,
    Simp 1 1 0 259 1, Comp 0 1 5 1571 2, Head 417, Attr 1 1 0 11 1, Attr 0 1 0 4 2, Attr 1 1 0 12 1,
    Unb 0 1574 2, Head 0, Comp 1 1 0 574 1, Comp 1 1 0 884 1, Comp 1 1 0 574 1, Simp 1 1 0 10 1,
    Simp 1 1 0 11 1, Simp 1 1 0 5 1, Simp 1 1 0 5 1, Head 325, Attr 0 1 0 4 3, Attr 0 1 17 10 2,
    Simp 1 1 0 12 1, Simp 1 1 0 5 1, Simp 1 1 0 12 1, Simp 0 1 9 11 6, Simp 0 1 8 10 5, Comp 0 1 7 1583 4,
    Simp 0 1 6 10 3, Simp 0 1 5 10 2, Head 325, Attr 0 1 0 4 2, Simp 1 1 0 673 1, Head 417, Attr 1 1 0 11 1,
    Attr 0 1 0 4 2, Attr 1 1 0 12 1, Unb 0 1602 2, Head 448, Attr 0 1 0 11 2, Attr 1 1 0 4 1, Head 0,
    Comp 1 1 0 884 1, Comp 1 1 0 574 1, Simp 1 1 0 67 1, Head 325, Attr 0 1 0 4 5, Attr 0 1 17 10 4,
    Comp 0 1 8 1613 3, Simp 0 1 7 131 2, Simp 1 1 0 323 1, Simp 1 1 0 5 1, Simp 1 1 0 513 1,
    Simp 1 1 0 10 1, Simp 0 1 6 513 2, Simp 1 1 0 513 1, Simp 1 1 0 513 1, Simp 1 1 0 12 1, Simp 1 1 0 12 1,
    Comp 0 1 5 1610 2, Simp 1 1 0 5 1, Simp 1 1 0 513 1, Head 325, Attr 0 1 0 4 3, Attr 0 1 17 10 2,
    Simp 1 1 0 5 1, Simp 1 1 0 5 1, Simp 1 1 0 6 1, Simp 1 1 0 5 1, Simp 0 1 5 5 2, Simp 1 1 0 12 1,
    Simp 1 1 0 6 1, Head 325, Attr 0 1 0 4 3, Simp 0 1 6 5 2, Simp 1 1 0 323 1, Simp 0 1 5 12 2,
    Simp 1 1 0 259 1, Head 1644, Attr 0 1 0 4 3, Simp 0 1 6 5 2, Simp 1 1 0 323 1, Simp 0 1 5 12 2,
    Simp 1 1 0 259 1, Head 448, Attr 0 1 0 11 2, Attr 1 1 0 4 1, Head 365, Attr 0 1 0 4 2, Simp 1 1 0 259 1,
    Simp 0 1 0 513 4, Simp 0 1 2 11 3, Comp 0 1 5 1656 2, Head 417, Attr 1 1 0 11 1, Attr 0 1 0 4 3,
    Attr 0 1 17 10 2, Attr 1 1 0 12 1, Unb 0 1659 2, Head 417, Attr 1 1 0 11 1, Attr 0 1 0 4 2,
    Attr 1 1 0 12 1, Unb 0 1644 2, Head 1644, Attr 0 1 0 4 3, Simp 0 1 6 5 2, Simp 1 1 0 323 1,
    Simp 0 1 5 12 2, Simp 1 1 0 259 1, Head 0, Simp 1 1 0 12 1, Simp 1 1 0 11 1, Head 1644, Attr 0 1 0 4 3,
    Simp 0 1 6 5 2, Simp 1 1 0 323 1, Simp 0 1 5 12 2]"

definition se_elements_14 :: "schema_element list" where
  "se_elements_14 = [
    Simp 1 1 0 259 1, Comp 0 1 11 1309 7, Comp 0 1 7 1682 6, Comp 0 1 12 1307 5, Comp 0 1 13 1303 4,
    Simp 0 1 14 11 3, Comp 0 1 15 1300 2, Head 1644, Attr 0 1 0 4 3, Simp 0 1 6 5 2, Simp 1 1 0 323 1,
    Simp 0 1 5 12 2, Simp 1 1 0 259 1, Head 1644, Attr 0 1 0 4 3, Simp 0 1 6 5 2, Simp 1 1 0 323 1,
    Simp 0 1 5 12 2, Simp 1 1 0 259 1, Head 325, Attr 0 1 0 4 2, Simp 1 1 0 4 1, Head 1709, Attr 0 1 0 4 2,
    Simp 1 1 0 4 1, Simp 0 1 0 4 3, Comp 0 1 5 325 2, Simp 1 1 0 12 1, Simp 1 1 0 4 1, Head 417,
    Attr 1 1 0 11 1, Attr 0 1 0 4 2, Attr 1 1 0 12 1, Unb 0 1712 2, Head 0, Simp 1 1 0 12 1, Simp 1 1 0 5 1,
    Simp 1 1 0 5 1, Head 1709, Attr 0 1 0 4 2, Simp 1 1 0 4 1, Comp 0 1 5 1724 2, Simp 1 1 0 12 1,
    Simp 1 1 0 257 1, Simp 1 1 0 11 1, Simp 1 1 0 4 1, Head 417, Attr 1 1 0 11 1, Attr 0 1 0 4 3,
    Attr 0 1 17 10 2, Attr 1 1 0 12 1, Unb 0 1728 2, Head 448, Attr 0 1 0 11 2, Attr 1 1 0 4 1, Head 446,
    Attr 1 1 0 4 1, Head 448, Attr 0 1 0 11 2, Attr 1 1 0 4 1, Head 448, Attr 0 1 0 11 2, Attr 1 1 0 4 1,
    Head 448, Attr 0 1 0 11 2, Attr 1 1 0 4 1, Head 448, Attr 0 1 0 11 2, Attr 1 1 0 4 1, Head 448,
    Attr 0 1 0 11 2, Attr 1 1 0 4 1, Head 448, Attr 0 1 0 11 2, Attr 1 1 0 4 1, Head 448, Attr 0 1 0 11 2,
    Attr 1 1 0 4 1, Head 448, Attr 0 1 0 11 2, Attr 1 1 0 4 1, Head 325, Attr 0 1 0 4 12,
    Comp 0 1 13 1768 11, Comp 0 1 12 1765 10, Comp 0 1 11 1762 9, Comp 0 1 10 1759 8, Comp 0 1 9 1756 7,
    Comp 0 1 8 1753 6, Comp 0 1 7 1750 5, Comp 0 1 6 1747 4, Comp 0 1 4 1745 3, Comp 0 1 5 1742 2,
    Head 1771, Attr 0 1 0 4 13, Attr 0 1 1 12 12, Comp 0 1 13 1768 11, Comp 0 1 12 1765 10,
    Comp 0 1 11 1762 9, Comp 0 1 10 1759 8, Comp 0 1 9 1756 7, Comp 0 1 8 1753 6, Comp 0 1 7 1750 5,
    Comp 0 1 6 1747 4, Comp 0 1 4 1745 3, Comp 0 1 5 1742 2, Simp 1 1 0 259 1, Simp 0 1 0 513 3,
    Simp 0 1 2 11 2, Head 539, Attr 1 1 0 11 1, Attr 0 1 0 4 3, Attr 0 1 17 10 2, Attr 1 1 0 12 1,
    Attr 0 1 1 12 3, Unb 0 1783 2, Head 446, Attr 1 1 0 4 1, Head 448, Attr 0 1 0 11 2, Attr 1 1 0 4 1,
    Head 448, Attr 0 1 0 11 2, Attr 1 1 0 4 1]"

definition se_elements_15 :: "schema_element list" where
  "se_elements_15 = [
    Head 448, Attr 0 1 0 11 2, Attr 1 1 0 4 1, Head 446, Attr 1 1 0 4 1, Head 446, Attr 1 1 0 4 1, Head 446,
    Attr 1 1 0 4 1, Head 448, Attr 0 1 0 11 2, Attr 1 1 0 4 1, Head 446, Attr 1 1 0 4 1, Head 496,
    Attr 0 1 0 4 14, Attr 0 1 1 12 13, Comp 0 1 14 1826 12, Comp 0 1 13 1823 11, Comp 0 1 12 1821 10,
    Comp 0 1 11 1819 9, Comp 0 1 10 1817 8, Comp 0 1 9 1814 7, Simp 0 1 3 323 6, Comp 0 1 8 1811 5,
    Simp 0 1 7 67 4, Comp 0 1 6 1808 3, Comp 0 1 5 1806 2, Simp 1 1 0 9 1, Head 1828, Attr 0 1 0 4 15,
    Attr 0 1 17 10 14, Attr 0 1 1 12 13, Comp 0 1 14 1826 12, Comp 0 1 13 1823 11, Comp 0 1 12 1821 10,
    Comp 0 1 11 1819 9, Comp 0 1 10 1817 8, Comp 0 1 9 1814 7, Simp 0 1 3 323 6, Comp 0 1 8 1811 5,
    Simp 0 1 7 67 4, Comp 0 1 6 1808 3, Comp 0 1 5 1806 2, Simp 1 1 0 9 1, Head 325, Attr 0 1 0 4 3,
    Attr 0 1 17 10 2, Simp 1 1 0 5 1, Simp 1 1 0 10 1, Head 448, Attr 0 1 0 11 2, Attr 1 1 0 4 1, Head 446,
    Attr 1 1 0 4 1, Head 448, Attr 0 1 0 11 2, Attr 1 1 0 4 1, Head 448, Attr 0 1 0 11 2, Attr 1 1 0 4 1,
    Head 448, Attr 0 1 0 11 2, Attr 1 1 0 4 1, Head 1828, Attr 0 1 0 4 14, Attr 0 1 1 12 13,
    Comp 0 1 14 1826 12, Comp 0 1 13 1823 11, Comp 0 1 12 1821 10, Comp 0 1 11 1819 9, Comp 0 1 10 1817 8,
    Comp 0 1 9 1814 7, Simp 0 1 3 323 6, Comp 0 1 8 1811 5, Simp 0 1 7 67 4, Comp 0 1 6 1808 3,
    Comp 0 1 5 1806 2, Simp 1 1 0 9 1, Simp 1 1 0 5 1, Simp 0 1 20 2 7, Comp 0 1 19 1875 6,
    Comp 0 1 18 1872 5, Comp 0 1 17 1869 4, Comp 0 1 16 1867 3, Comp 0 1 15 1864 2, Head 539,
    Attr 1 1 0 11 1, Attr 0 1 0 4 3, Attr 0 1 17 10 2, Attr 1 1 0 12 1, Attr 0 1 1 12 3, Unb 0 1878 2,
    Head 0, Simp 1 1 0 8 1, Simp 1 1 0 12 1, Simp 1 1 0 7 1, Head 325, Attr 0 1 0 4 3, Attr 0 1 17 10 2,
    Simp 1 1 0 5 1, Simp 0 1 7 11 6, Simp 0 1 6 12 5, Simp 0 1 5 10 4, Unb 0 1907 3, Comp 0 1 4 1745 2,
    Head 446, Attr 1 1 0 4 1, Head 448, Attr 0 1 0 11 2, Attr 1 1 0 4 1, Head 448, Attr 0 1 0 11 2,
    Attr 1 1 0 4 1, Head 1771, Attr 0 1 0 4 16, Attr 0 1 17 10 15, Comp 0 1 13 1768 14, Comp 0 1 12 1765 13,
    Comp 0 1 11 1762 12, Comp 0 1 10 1759 11, Comp 0 1 9 1756 10, Comp 0 1 8 1753 9, Comp 0 1 7 1750 8,
    Comp 0 1 6 1747 7, Comp 0 1 4 1745 6, Comp 0 1 5 1742 5]"

definition se_elements_16 :: "schema_element list" where
  "se_elements_16 = [
    Comp 0 1 16 1925 4, Comp 0 1 15 1922 3, Comp 0 1 14 1920 2, End]"

definition se_elements :: "schema_element list" where
  "se_elements = se_elements_1 @ se_elements_2 @ se_elements_3 @ se_elements_4 @ se_elements_5 @ se_elements_6 @ se_elements_7 @ se_elements_8 @ se_elements_9 @ se_elements_10 @ se_elements_11 @ se_elements_12 @ se_elements_13 @ se_elements_14 @ se_elements_15 @ se_elements_16"

definition se_ids :: "int list" where
  "se_ids = [
    0, 321, 322, 323, 0, 324, 0, 324, 325, 326, 327, 328, 329, 330, 331, 332, 333, 334, 335, 336, 337, 338,
    339, 340, 341, 0, 342, 343, 0, 324, 344, 345, 346, 347, 323, 0, 324, 348, 344, 345, 346, 347, 323, 349,
    0, 324, 350, 351, 352, 0, 324, 350, 351, 352, 346, 0, 324, 350, 351, 352, 346, 232, 0, 324, 350, 351,
    352, 0, 324, 350, 351, 352, 353, 180, 354, 232, 241, 0, 324, 350, 351, 352, 355, 356, 357, 0, 324, 350,
    351, 352, 355, 356, 357, 358, 178, 359, 0, 360, 324, 361, 0, 360, 324, 362, 361, 181, 0, 360, 324, 361,
    178, 0, 363, 364, 0, 324, 365, 366, 0, 324, 365, 366, 350, 351, 352, 0, 324, 0, 360, 324, 0, 360, 324,
    0, 324, 0, 324, 0, 324, 0, 324, 0, 324, 0, 324, 0, 360, 324, 0, 321, 323, 0, 321, 323, 0, 367, 323, 0,
    367, 323, 0, 367, 323, 0, 367, 323, 0, 367, 323, 0, 367, 323, 0, 367, 323, 0, 324, 348, 0, 324, 348,
    368, 369, 370, 371, 372, 373, 374, 375, 376, 0, 360, 324, 0, 360, 324, 0, 324, 0, 360, 324, 0, 324, 348,
    350, 351, 352, 0, 324, 348, 350, 351, 352, 7, 95, 70, 76, 377, 0, 360, 324, 361, 348, 0, 360, 324, 362,
    361, 348, 81, 0, 378, 379, 0, 324, 350, 351, 352, 380, 54, 381, 382, 383, 384, 385, 386, 387, 388, 0,
    360, 324, 361, 73, 0, 321, 323, 0, 321, 323, 0, 324, 0, 389, 390, 391, 392, 382, 0, 393, 323, 0, 394,
    321, 0, 395, 396, 397, 398, 399, 400, 401, 402, 403, 404, 405, 406, 407, 408, 409, 410, 411, 412, 413,
    414, 415, 0, 416, 367, 417, 418, 419, 0, 324, 365, 366, 348, 350, 351, 352, 0, 324, 365, 366, 348, 350,
    351, 352, 380, 120, 420, 0, 324, 365, 366, 348, 350, 351, 352, 380, 120, 420, 421, 422, 0, 324, 365,
    366, 348, 350, 351, 352, 380, 120, 420, 421, 422, 68, 0, 360, 324, 361, 348, 67, 0, 321, 323, 0, 321,
    323, 0, 321, 323, 0, 321, 323, 0, 324, 423, 424, 425, 426, 427, 428, 429, 430, 431, 432, 433, 434, 435,
    436, 437, 438, 439, 440, 441, 442, 443, 0, 324, 348, 444, 445, 373, 446, 447, 448, 449, 0, 321, 323, 0,
    324, 348, 450, 451, 452, 453, 454, 455, 456, 457, 458, 459, 460, 461, 462, 463, 464, 465, 466, 467, 468,
    469, 470, 471, 472, 473, 474, 0, 324, 0, 324, 0, 324, 0, 324, 0, 324, 0, 324, 0, 360, 324, 0, 324, 348,
    21, 22, 52, 64, 66, 86, 88, 0, 360, 324, 362, 361, 62, 0, 324, 348, 350, 351, 352, 68, 451, 452, 453,
    454, 455, 456, 457, 471, 0, 321, 323, 0, 324, 365, 366, 348, 350, 351, 352, 380, 120, 420, 475, 476,
    477, 0, 360, 324, 362, 361, 348, 133, 0, 367, 478, 0, 324, 350, 351, 352, 380, 479, 480, 481, 482, 246,
    0, 360, 324, 362, 361, 130, 0, 324, 351, 420, 0, 360, 324, 361, 279, 0, 483, 484, 0, 485, 484, 0, 324,
    486, 487, 488, 489, 0, 324, 0, 360, 324, 0, 324, 350, 351, 352, 355, 356, 357, 358, 177, 0, 360, 324, 0,
    324, 0, 360, 324, 0, 321, 323, 0, 490, 491, 321, 323, 0, 360, 324, 0, 360, 324, 0, 324, 0, 324, 350,
    351, 352, 2, 6, 12, 492, 47, 493, 494, 495, 206, 281, 311, 313, 0, 360, 324, 362, 361, 348, 207, 0, 324,
    350, 351, 352, 496, 497, 498, 499, 0, 360, 324, 361, 45, 0, 324, 500, 501, 502, 503, 0, 324, 350, 351,
    352, 504, 505, 506, 507, 0, 360, 324, 361, 264, 0, 324, 0, 360, 324, 0, 324, 350, 351, 352, 32, 242, 0,
    324, 350, 351, 352, 32, 242, 0, 360, 324, 361, 286, 0, 324, 350, 351, 352, 32, 242, 0, 360, 324, 361,
    217, 0, 324, 350, 351, 352, 32, 242, 0, 360, 324, 361, 142, 0, 324, 0, 360, 324, 0, 360, 324, 0, 324, 0,
    360, 324, 0, 360, 324, 0, 360, 324, 0, 360, 324, 0, 360, 324, 0, 324, 350, 351, 352, 5, 11, 13, 26, 144,
    208, 219, 508, 509, 288, 291, 313, 0, 360, 324, 361, 348, 59, 0, 324, 0, 360, 324, 0, 324, 350, 351,
    352, 510, 511, 61, 512, 513, 265, 0, 360, 324, 362, 361, 348, 55, 0, 360, 324, 0, 324, 350, 351, 352,
    346, 29, 0, 360, 324, 361, 348, 30, 0, 351, 332, 323, 0, 324, 344, 345, 346, 347, 323, 33, 0, 360, 324,
    361, 27, 0, 324, 514, 515, 420, 516, 0, 360, 324, 361, 348, 24, 0, 324, 365, 366, 348, 350, 351, 352,
    380, 120, 420, 517, 518, 519, 0, 360, 324, 361, 348, 295, 0, 360, 324, 0, 360, 324, 0, 324, 348, 350,
    351, 352, 14, 520, 377, 297, 0, 360, 324, 362, 361, 348, 170, 0, 360, 324, 0, 324, 365, 366, 348, 350,
    351, 352, 380, 120, 420, 421, 422, 43, 347, 0, 360, 324, 361, 348, 303, 0, 360, 324, 0, 324, 350, 351,
    352, 510, 513, 377, 521, 230, 356, 0, 360, 324, 362, 361, 348, 290, 0, 360, 324, 0, 360, 324, 0, 324,
    350, 351, 352, 15, 522, 523, 242, 355, 305, 0, 360, 324, 361, 227, 0, 524, 525, 526, 527, 0, 324, 344,
    117, 528, 529, 0, 360, 324, 361, 41, 0, 360, 324, 362, 361, 348, 311, 0, 360, 324, 0, 324, 350, 351,
    352, 346, 236, 0, 360, 324, 361, 348, 237, 0, 360, 324, 361, 348, 232, 0, 360, 324, 0, 324, 0, 324, 350,
    351, 352, 230, 234, 240, 242, 0, 360, 324, 361, 348, 173, 0, 443, 323, 0, 530, 531, 0, 532, 533, 534, 0,
    535, 0, 443, 0, 324, 365, 366, 348, 350, 351, 352, 380, 120, 420, 421, 422, 18, 536, 537, 109, 538, 190,
    539, 267, 289, 0, 360, 324, 361, 348, 111, 0, 360, 324, 0, 360, 324, 0, 324, 350, 351, 352, 8, 540, 541,
    113, 377, 0, 360, 324, 362, 361, 348, 96, 0, 324, 0, 324, 444, 97, 542, 543, 0, 360, 324, 362, 361, 161,
    0, 324, 0, 324, 362, 544, 122, 545, 546, 547, 548, 357, 549, 0, 324, 544, 550, 551, 552, 553, 554, 555,
    556, 557, 443, 0, 360, 324, 362, 361, 121, 0, 324, 0, 324, 558, 559, 228, 0, 360, 324, 361, 212, 0, 560,
    561, 562, 563, 0, 360, 324, 0, 564, 565, 0, 324, 362, 348, 566, 198, 214, 300, 567, 0, 324, 568, 569,
    570, 571, 572, 573, 574, 575, 0, 360, 324, 362, 361, 348, 166, 0, 324, 576, 577, 0, 360, 324, 361, 223,
    0, 360, 324, 0, 324, 578, 579, 580, 581, 582, 583, 584, 585, 225, 586, 0, 360, 324, 361, 220, 0, 324,
    587, 588, 589, 0, 360, 324, 361, 184, 0, 590, 591, 592, 593, 594, 0, 360, 324, 0, 595, 186, 589, 0, 324,
    596, 597, 145, 598, 599, 600, 601, 602, 603, 604, 605, 606, 607, 608, 609, 319, 0, 360, 324, 361, 155,
    0, 360, 324, 0, 360, 324, 0, 324, 610, 611, 612, 613, 614, 615, 616, 617, 618, 619, 620, 621, 622, 623,
    624, 625, 626, 627, 628, 629, 630, 631, 148, 632, 633, 157, 0, 360, 324, 362, 361, 149, 0, 360, 324, 0,
    324, 634, 222, 0, 360, 324, 361, 146, 0, 635, 636, 637, 638, 639, 640, 641, 0, 324, 362, 642, 643, 644,
    645, 646, 194, 647, 648, 0, 324, 520, 0, 360, 324, 361, 282, 0, 360, 324, 0, 649, 650, 651, 0, 324, 362,
    91, 652, 551, 653, 552, 553, 654, 554, 555, 655, 656, 284, 657, 658, 0, 324, 362, 659, 660, 561, 661,
    662, 663, 563, 0, 324, 568, 664, 357, 477, 0, 324, 568, 664, 357, 477, 0, 360, 324, 0, 324, 350, 351,
    352, 253, 0, 360, 324, 362, 361, 254, 0, 360, 324, 361, 251, 0, 324, 568, 664, 357, 477, 0, 443, 323, 0,
    324, 568, 664, 357, 477, 18, 20, 109, 190, 539, 267, 0, 324, 568, 664, 357, 477, 0, 324, 568, 664, 357,
    477, 0, 324, 665, 0, 324, 665, 666, 247, 357, 667, 0, 360, 324, 361, 187, 0, 668, 669, 670, 0, 324, 665,
    36, 671, 672, 673, 674, 0, 360, 324, 362, 361, 275, 0, 360, 324, 0, 324, 0, 360, 324, 0, 360, 324, 0,
    360, 324, 0, 360, 324, 0, 360, 324, 0, 360, 324, 0, 360, 324, 0, 360, 324, 0, 324, 58, 99, 84, 124, 172,
    210, 256, 293, 301, 315, 0, 324, 348, 58, 99, 84, 124, 172, 210, 256, 293, 301, 315, 350, 351, 352, 0,
    360, 324, 362, 361, 348, 138, 0, 324, 0, 360, 324, 0, 360, 324, 0, 360, 324, 0, 324, 0, 324, 0, 324, 0,
    360, 324, 0, 324, 0, 324, 348, 38, 80, 104, 106, 126, 151, 551, 163, 675, 168, 203, 676, 0, 324, 362,
    348, 38, 80, 104, 106, 126, 151, 551, 163, 675, 168, 203, 676, 0, 324, 362, 677, 678, 0, 360, 324, 0,
    324, 0, 360, 324, 0, 360, 324, 0, 360, 324, 0, 324, 348, 38, 80, 104, 106, 126, 151, 551, 163, 536, 168,
    203, 676, 643, 679, 132, 135, 141, 245, 278, 0, 360, 324, 362, 361, 348, 110, 0, 321, 477, 323, 0, 324,
    362, 643, 680, 681, 682, 294, 301, 0, 324, 0, 360, 324, 0, 360, 324, 0, 324, 362, 58, 99, 84, 124, 172,
    210, 256, 293, 301, 315, 116, 183, 260]"

text \<open>The texts of the names are an argument.\<close>

definition se_schema :: "(int \<Rightarrow> string) \<Rightarrow> schema" where
  "se_schema nm = \<lparr>namespace = ''urn:ieee:std:2030.5:ns'', schemaId = ''S1'', schema_length = 321,
     elements = se_elements, names = nm, ids = se_ids\<rparr>"

lemmas se_elements_defs = se_elements_1_def se_elements_2_def se_elements_3_def se_elements_4_def se_elements_5_def se_elements_6_def se_elements_7_def se_elements_8_def se_elements_9_def se_elements_10_def se_elements_11_def se_elements_12_def se_elements_13_def se_elements_14_def se_elements_15_def se_elements_16_def

subsection \<open>The table is well formed\<close>

text \<open>The heads of each piece, with their bases.\<close>

definition heads_1 :: "(int \<times> int) list" where
  "heads_1 = []"

definition heads_2 :: "(int \<times> int) list" where
  "heads_2 = []"

definition heads_3 :: "(int \<times> int) list" where
  "heads_3 = [
     (321, 0), (325, 0), (327, 325), (346, 0), (349, 325), (356, 349), (365, 325), (370, 365), (376, 370),
     (383, 365), (388, 383), (398, 365), (406, 398), (417, 325), (421, 417), (427, 417)]"

definition heads_4 :: "(int \<times> int) list" where
  "heads_4 = [
     (432, 0), (435, 325), (439, 435), (446, 0), (448, 446), (451, 448), (454, 446), (456, 446), (458, 446),
     (460, 446), (462, 446), (464, 446), (466, 448), (469, 0), (472, 0), (475, 0), (478, 0), (481, 0),
     (484, 0), (487, 0), (490, 0), (493, 0), (496, 325), (499, 496), (511, 448), (514, 448), (517, 446),
     (519, 448), (522, 496), (528, 522), (539, 496)]"

definition heads_5 :: "(int \<times> int) list" where
  "heads_5 = [
     (544, 539), (551, 0), (554, 365), (569, 417), (574, 0), (577, 0), (580, 446), (582, 0), (588, 0),
     (591, 0), (594, 0), (616, 0), (622, 435), (630, 622), (641, 630), (654, 641), (668, 539), (674, 0)]"

definition heads_6 :: "(int \<times> int) list" where
  "heads_6 = [
     (677, 0), (680, 0), (683, 0), (686, 325), (709, 496), (719, 0), (722, 496), (750, 446), (752, 446),
     (754, 446), (756, 446), (758, 446), (760, 446), (762, 448), (765, 496), (775, 417), (781, 522),
     (796, 0), (799, 630)]"

definition heads_7 :: "(int \<times> int) list" where
  "heads_7 = [
     (813, 539), (820, 0), (823, 365), (834, 417), (840, 325), (844, 417), (849, 0), (852, 0), (855, 325),
     (861, 446), (863, 448), (866, 398), (876, 448), (879, 446), (881, 448), (884, 0), (887, 0), (892, 448),
     (895, 448), (898, 446), (900, 365), (917, 539), (924, 365)]"

definition heads_8 :: "(int \<times> int) list" where
  "heads_8 = [
     (933, 417), (938, 325), (944, 365), (953, 417), (958, 446), (960, 448), (963, 383), (970, 963),
     (977, 417), (982, 963), (989, 417), (994, 963), (1001, 417), (1006, 446), (1008, 448), (1011, 448),
     (1014, 446), (1016, 448), (1019, 448), (1022, 448), (1025, 448), (1028, 448), (1031, 365), (1048, 539)]"

definition heads_9 :: "(int \<times> int) list" where
  "heads_9 = [
     (1054, 446), (1056, 448), (1059, 365), (1070, 539), (1077, 448), (1080, 370), (1087, 539), (1093, 0),
     (1097, 349), (1105, 417), (1110, 325), (1116, 539), (1122, 630), (1136, 539), (1142, 448), (1145, 448),
     (1148, 522), (1158, 539), (1165, 448), (1168, 641)]"

definition heads_10 :: "(int \<times> int) list" where
  "heads_10 = [
     (1183, 539), (1189, 448), (1192, 365), (1203, 539), (1210, 448), (1213, 448), (1216, 365), (1227, 417),
     (1232, 0), (1237, 325), (1243, 417), (1248, 539), (1255, 448), (1258, 370), (1265, 539), (1271, 539),
     (1277, 448), (1280, 446), (1282, 383), (1291, 539), (1297, 0), (1300, 0), (1303, 0)]"

definition heads_11 :: "(int \<times> int) list" where
  "heads_11 = [
     (1307, 0), (1309, 0), (1311, 641), (1333, 539), (1339, 448), (1342, 448), (1345, 365), (1355, 539),
     (1362, 446), (1364, 325), (1370, 417), (1376, 446), (1378, 325), (1389, 325), (1401, 417), (1407, 446),
     (1409, 325), (1414, 417), (1419, 0), (1424, 448), (1427, 0), (1430, 496)]"

definition heads_12 :: "(int \<times> int) list" where
  "heads_12 = [
     (1439, 325), (1449, 539), (1456, 325), (1460, 417), (1465, 448), (1468, 325), (1480, 417), (1485, 325),
     (1490, 417), (1495, 0), (1501, 448), (1504, 0), (1508, 325), (1526, 417), (1531, 448), (1534, 448),
     (1537, 325)]"

definition heads_13 :: "(int \<times> int) list" where
  "heads_13 = [
     (1565, 417), (1571, 448), (1574, 325), (1578, 417), (1583, 0), (1591, 325), (1602, 325), (1605, 417),
     (1610, 448), (1613, 0), (1617, 325), (1634, 325), (1644, 325), (1650, 1644), (1656, 448), (1659, 365),
     (1665, 417), (1671, 417), (1676, 1644), (1682, 0), (1685, 1644)]"

definition heads_14 :: "(int \<times> int) list" where
  "heads_14 = [
     (1697, 1644), (1703, 1644), (1709, 325), (1712, 1709), (1719, 417), (1724, 0), (1728, 1709),
     (1736, 417), (1742, 448), (1745, 446), (1747, 448), (1750, 448), (1753, 448), (1756, 448), (1759, 448),
     (1762, 448), (1765, 448), (1768, 448), (1771, 325), (1783, 1771), (1799, 539), (1806, 446),
     (1808, 448), (1811, 448)]"

definition heads_15 :: "(int \<times> int) list" where
  "heads_15 = [
     (1814, 448), (1817, 446), (1819, 446), (1821, 446), (1823, 448), (1826, 446), (1828, 496),
     (1843, 1828), (1859, 325), (1864, 448), (1867, 446), (1869, 448), (1872, 448), (1875, 448),
     (1878, 1828), (1900, 539), (1907, 0), (1911, 325), (1920, 446), (1922, 448), (1925, 448), (1928, 1771)]"

definition heads_16 :: "(int \<times> int) list" where
  "heads_16 = [
     (1944, 0)]"

lemma heads_1: "head_pairs 0 se_elements_1 = heads_1 \<and> length se_elements_1 = 148"
  by code_simp

lemma heads_2: "head_pairs 148 se_elements_2 = heads_2 \<and> length se_elements_2 = 148"
  by code_simp

lemma heads_3: "head_pairs 296 se_elements_3 = heads_3 \<and> length se_elements_3 = 132"
  by code_simp

lemma heads_4: "head_pairs 428 se_elements_4 = heads_4 \<and> length se_elements_4 = 116"
  by code_simp

lemma heads_5: "head_pairs 544 se_elements_5 = heads_5 \<and> length se_elements_5 = 131"
  by code_simp

lemma heads_6: "head_pairs 675 se_elements_6 = heads_6 \<and> length se_elements_6 = 129"
  by code_simp

lemma heads_7: "head_pairs 804 se_elements_7 = heads_7 \<and> length se_elements_7 = 125"
  by code_simp

lemma heads_8: "head_pairs 929 se_elements_8 = heads_8 \<and> length se_elements_8 = 124"
  by code_simp

lemma heads_9: "head_pairs 1053 se_elements_9 = heads_9 \<and> length se_elements_9 = 128"
  by code_simp

lemma heads_10: "head_pairs 1181 se_elements_10 = heads_10 \<and> length se_elements_10 = 125"
  by code_simp

lemma heads_11: "head_pairs 1306 se_elements_11 = heads_11 \<and> length se_elements_11 = 126"
  by code_simp

lemma heads_12: "head_pairs 1432 se_elements_12 = heads_12 \<and> length se_elements_12 = 131"
  by code_simp

lemma heads_13: "head_pairs 1563 se_elements_13 = heads_13 \<and> length se_elements_13 = 127"
  by code_simp

lemma heads_14: "head_pairs 1690 se_elements_14 = heads_14 \<and> length se_elements_14 = 124"
  by code_simp

lemma heads_15: "head_pairs 1814 se_elements_15 = heads_15 \<and> length se_elements_15 = 127"
  by code_simp

lemma heads_16: "head_pairs 1941 se_elements_16 = heads_16 \<and> length se_elements_16 = 4"
  by code_simp

definition se_heads :: "(int \<times> int) list" where
  "se_heads = heads_1 @ heads_2 @ heads_3 @ heads_4 @ heads_5 @ heads_6 @ heads_7 @ heads_8 @ heads_9 @ heads_10 @ heads_11 @ heads_12 @ heads_13 @ heads_14 @ heads_15 @ heads_16"

lemmas heads_pieces = heads_1 heads_2 heads_3 heads_4 heads_5 heads_6 heads_7 heads_8 heads_9 heads_10 heads_11 heads_12 heads_13 heads_14 heads_15 heads_16

lemma se_head_pairs: "head_pairs 0 se_elements = se_heads"
  unfolding se_elements_def se_heads_def by (simp add: head_pairs_append heads_pieces)

lemma se_elements_length: "length se_elements = 1945"
  unfolding se_elements_def by (simp add: heads_pieces)

lemma se_bases_ok: "bases_ok [] se_heads"
  by code_simp

text \<open>A search tree of the heads, to look up the heads of the types.\<close>

fun isin :: "int tree \<Rightarrow> int \<Rightarrow> bool" where
  "isin Leaf x = False"
| "isin (Node l a r) x = (if x < a then isin l x else if a < x then isin r x else True)"

lemma isin_inorder: "isin t x \<Longrightarrow> x \<in> set (inorder t)"
  by (induction t) (auto split: if_splits)

definition head_tree :: "int tree" where
  "head_tree =
     Node (Node (Node (Node (Node (Node (Node (Node (Node Leaf 321 Leaf) 325 Leaf) 327 (Node Leaf 346
     Leaf)) 349 (Node (Node Leaf 356 Leaf) 365 (Node Leaf 370 Leaf))) 376 (Node (Node (Node (Node Leaf 383
     Leaf) 388 Leaf) 398 (Node Leaf 406 Leaf)) 417 (Node (Node Leaf 421 Leaf) 427 (Node Leaf 432 Leaf))))
     435 (Node (Node (Node (Node (Node Leaf 439 Leaf) 446 Leaf) 448 (Node Leaf 451 Leaf)) 454 (Node (Node
     Leaf 456 Leaf) 458 (Node Leaf 460 Leaf))) 462 (Node (Node (Node (Node Leaf 464 Leaf) 466 Leaf) 469
     (Node Leaf 472 Leaf)) 475 (Node (Node Leaf 478 Leaf) 481 (Node Leaf 484 Leaf))))) 487 (Node (Node
     (Node (Node (Node (Node Leaf 490 Leaf) 493 Leaf) 496 (Node Leaf 499 Leaf)) 511 (Node (Node Leaf 514
     Leaf) 517 (Node Leaf 519 Leaf))) 522 (Node (Node (Node (Node Leaf 528 Leaf) 539 Leaf) 544 (Node Leaf
     551 Leaf)) 554 (Node (Node Leaf 569 Leaf) 574 (Node Leaf 577 Leaf)))) 580 (Node (Node (Node (Node
     (Node Leaf 582 Leaf) 588 Leaf) 591 (Node Leaf 594 Leaf)) 616 (Node (Node Leaf 622 Leaf) 630 (Node
     Leaf 641 Leaf))) 654 (Node (Node (Node Leaf 668 Leaf) 674 (Node Leaf 677 Leaf)) 680 (Node (Node Leaf
     683 Leaf) 686 (Node Leaf 709 Leaf)))))) 719 (Node (Node (Node (Node (Node (Node (Node Leaf 722 Leaf)
     750 Leaf) 752 (Node Leaf 754 Leaf)) 756 (Node (Node Leaf 758 Leaf) 760 (Node Leaf 762 Leaf))) 765
     (Node (Node (Node (Node Leaf 775 Leaf) 781 Leaf) 796 (Node Leaf 799 Leaf)) 813 (Node (Node Leaf 820
     Leaf) 823 (Node Leaf 834 Leaf)))) 840 (Node (Node (Node (Node (Node Leaf 844 Leaf) 849 Leaf) 852
     (Node Leaf 855 Leaf)) 861 (Node (Node Leaf 863 Leaf) 866 (Node Leaf 876 Leaf))) 879 (Node (Node (Node
     Leaf 881 Leaf) 884 (Node Leaf 887 Leaf)) 892 (Node (Node Leaf 895 Leaf) 898 (Node Leaf 900 Leaf)))))
     917 (Node (Node (Node (Node (Node (Node Leaf 924 Leaf) 933 Leaf) 938 (Node Leaf 944 Leaf)) 953 (Node
     (Node Leaf 958 Leaf) 960 (Node Leaf 963 Leaf))) 970 (Node (Node (Node (Node Leaf 977 Leaf) 982 Leaf)
     989 (Node Leaf 994 Leaf)) 1001 (Node (Node Leaf 1006 Leaf) 1008 (Node Leaf 1011 Leaf)))) 1014 (Node
     (Node (Node (Node (Node Leaf 1016 Leaf) 1019 Leaf) 1022 (Node Leaf 1025 Leaf)) 1028 (Node (Node Leaf
     1031 Leaf) 1048 (Node Leaf 1054 Leaf))) 1056 (Node (Node (Node Leaf 1059 Leaf) 1070 (Node Leaf 1077
     Leaf)) 1080 (Node (Node Leaf 1087 Leaf) 1093 (Node Leaf 1097 Leaf))))))) 1105 (Node (Node (Node (Node
     (Node (Node (Node (Node Leaf 1110 Leaf) 1116 Leaf) 1122 (Node Leaf 1136 Leaf)) 1142 (Node (Node Leaf
     1145 Leaf) 1148 (Node Leaf 1158 Leaf))) 1165 (Node (Node (Node (Node Leaf 1168 Leaf) 1183 Leaf) 1189
     (Node Leaf 1192 Leaf)) 1203 (Node (Node Leaf 1210 Leaf) 1213 (Node Leaf 1216 Leaf)))) 1227 (Node
     (Node (Node (Node (Node Leaf 1232 Leaf) 1237 Leaf) 1243 (Node Leaf 1248 Leaf)) 1255 (Node (Node Leaf
     1258 Leaf) 1265 (Node Leaf 1271 Leaf))) 1277 (Node (Node (Node (Node Leaf 1280 Leaf) 1282 Leaf) 1291
     (Node Leaf 1297 Leaf)) 1300 (Node (Node Leaf 1303 Leaf) 1307 (Node Leaf 1309 Leaf))))) 1311 (Node
     (Node (Node (Node (Node (Node Leaf 1333 Leaf) 1339 Leaf) 1342 (Node Leaf 1345 Leaf)) 1355 (Node (Node
     Leaf 1362 Leaf) 1364 (Node Leaf 1370 Leaf))) 1376 (Node (Node (Node (Node Leaf 1378 Leaf) 1389 Leaf)
     1401 (Node Leaf 1407 Leaf)) 1409 (Node (Node Leaf 1414 Leaf) 1419 (Node Leaf 1424 Leaf)))) 1427 (Node
     (Node (Node (Node (Node Leaf 1430 Leaf) 1439 Leaf) 1449 (Node Leaf 1456 Leaf)) 1460 (Node (Node Leaf
     1465 Leaf) 1468 (Node Leaf 1480 Leaf))) 1485 (Node (Node (Node Leaf 1490 Leaf) 1495 (Node Leaf 1501
     Leaf)) 1504 (Node (Node Leaf 1508 Leaf) 1526 (Node Leaf 1531 Leaf)))))) 1534 (Node (Node (Node (Node
     (Node (Node (Node Leaf 1537 Leaf) 1565 Leaf) 1571 (Node Leaf 1574 Leaf)) 1578 (Node (Node Leaf 1583
     Leaf) 1591 (Node Leaf 1602 Leaf))) 1605 (Node (Node (Node (Node Leaf 1610 Leaf) 1613 Leaf) 1617 (Node
     Leaf 1634 Leaf)) 1644 (Node (Node Leaf 1650 Leaf) 1656 (Node Leaf 1659 Leaf)))) 1665 (Node (Node
     (Node (Node (Node Leaf 1671 Leaf) 1676 Leaf) 1682 (Node Leaf 1685 Leaf)) 1697 (Node (Node Leaf 1703
     Leaf) 1709 (Node Leaf 1712 Leaf))) 1719 (Node (Node (Node Leaf 1724 Leaf) 1728 (Node Leaf 1736 Leaf))
     1742 (Node (Node Leaf 1745 Leaf) 1747 (Node Leaf 1750 Leaf))))) 1753 (Node (Node (Node (Node (Node
     (Node Leaf 1756 Leaf) 1759 Leaf) 1762 (Node Leaf 1765 Leaf)) 1768 (Node (Node Leaf 1771 Leaf) 1783
     (Node Leaf 1799 Leaf))) 1806 (Node (Node (Node (Node Leaf 1808 Leaf) 1811 Leaf) 1814 (Node Leaf 1817
     Leaf)) 1819 (Node (Node Leaf 1821 Leaf) 1823 (Node Leaf 1826 Leaf)))) 1828 (Node (Node (Node (Node
     (Node Leaf 1843 Leaf) 1859 Leaf) 1864 (Node Leaf 1867 Leaf)) 1869 (Node (Node Leaf 1872 Leaf) 1875
     (Node Leaf 1878 Leaf))) 1900 (Node (Node (Node Leaf 1907 Leaf) 1911 (Node Leaf 1920 Leaf)) 1922 (Node
     (Node Leaf 1925 Leaf) 1928 (Node Leaf 1944 Leaf)))))))"

lemma head_tree_inorder: "inorder head_tree = map fst se_heads"
  by code_simp

fun all_in :: "int tree \<Rightarrow> int list \<Rightarrow> bool" where
  "all_in t [] = True"
| "all_in t (x # xs) = (isin t x \<and> all_in t xs)"

lemma all_in_iff: "all_in t xs \<longleftrightarrow> (\<forall>x \<in> set xs. isin t x)"
  by (induction xs) auto

lemma se_types_1: "all_in head_tree (complex_types se_elements_1)"
  by code_simp

lemma se_types_2: "all_in head_tree (complex_types se_elements_2)"
  by code_simp

lemma se_types_3: "all_in head_tree (complex_types (take 25 se_elements_3))"
  by code_simp

lemma se_schema_well_formed: "well_formed (se_schema nm)"
proof -
  have t: "take 321 se_elements = se_elements_1 @ se_elements_2 @ take 25 se_elements_3"
    unfolding se_elements_def by (simp add: heads_pieces)
  have "set (complex_types (take 321 se_elements)) \<subseteq> set (inorder head_tree)"
    using se_types_1 se_types_2 se_types_3 isin_inorder [of head_tree] unfolding t complex_types_append all_in_iff
    by (auto simp del: set_inorder)
  then have "set (complex_types (take 321 se_elements)) \<subseteq> fst ` set se_heads"
    by (simp add: head_tree_inorder)
  moreover have "0 \<notin> fst ` set se_heads"
  proof -
    have "se_heads = head_pairs 296 (drop 296 se_elements)"
      using head_pairs_append [of 0 "take 296 se_elements" "drop 296 se_elements"]
      unfolding se_elements_def by (simp add: heads_pieces head_pairs_append heads_1_def heads_2_def se_heads_def)
    then show ?thesis using head_pairs_ge [of "(0, _)" 296 "drop 296 se_elements"] by fastforce
  qed
  ultimately show ?thesis
    using se_bases_ok by (simp add: well_formed_def se_schema_def heads_def se_head_pairs se_elements_length)
qed

text \<open>C16: in the IEEE 2030.5 schema \<open>type_is_a\<close> returns for every pair of types, although its
  loop has no bound, and says whether the structure of the one is derived from that of the other.\<close>

theorem se_type_is_a:
  assumes "0 \<le> type" "type < 321" "0 \<le> base" "base < 321"
  shows "\<exists>t b. element (se_schema nm) type = Some t \<and> element (se_schema nm) base = Some b \<and>
    type_is_a type base (se_schema nm) =
      Some (\<not> se_simple t \<and> \<not> se_attribute t \<and> derives (se_schema nm) (se_index t) (se_index b))"
proof -
  have l: "schema_length (se_schema nm) = 321" "length (elements (se_schema nm)) = 1945"
    by (simp_all add: se_schema_def se_elements_length)
  then obtain t b where "element (se_schema nm) type = Some t" "element (se_schema nm) base = Some b"
    using assms by (simp add: element_def)
  then show ?thesis using type_is_a_derives [OF se_schema_well_formed, of type nm base] assms l by simp
qed

lemma se_derives_step:
  assumes "(h, b) \<in> set se_heads" "b \<noteq> 0" "derives (se_schema nm) b j"
  shows "derives (se_schema nm) h j"
proof -
  obtain n where "n < length se_elements" "h = int n" "b = se_index (se_elements ! n)"
    using assms(1) by (auto simp: set_head_pairs simp flip: se_head_pairs)
  then have "element (se_schema nm) h = Some (se_elements ! n)" by (simp add: element_def se_schema_def)
  then show ?thesis
    using assms(2,3) \<open>b = se_index (se_elements ! n)\<close> by (auto intro: derives_step)
qed

lemma se_piece_types: "se_elements_1 ! 67 = TypeC 654" "se_elements_1 ! 119 = TypeC 630"
  by code_simp+

lemma se_head_examples: "(654, 641) \<in> set heads_5" "(641, 630) \<in> set heads_5"
  by code_simp+

theorem se_type_is_a_witness:
  "type_is_a 67 119 (se_schema (\<lambda>_. [])) = Some True"
proof -
  have e: "element (se_schema (\<lambda>_. [])) 67 = Some (TypeC 654)" "element (se_schema (\<lambda>_. [])) 119 = Some (TypeC 630)"
    using se_piece_types
    by (simp_all add: element_def se_schema_def se_elements_length) (simp_all add: se_elements_def nth_append heads_pieces)
  have "(654, 641) \<in> set se_heads" "(641, 630) \<in> set se_heads"
    using se_head_examples by (simp_all add: se_heads_def)
  then have "derives (se_schema (\<lambda>_. [])) 654 630"
    using se_derives_step [of 654 641] se_derives_step [of 641 630] derives_refl by simp
  then show ?thesis using se_type_is_a [of 67 119 "\<lambda>_. []"] e by simp
qed

end
