(* ===== verification/Sha256.thy ===== *)
theory Sha256
  imports Prelude
begin

section \<open>SHA-256 (core/sha256.c, core/pack.c)\<close>

text \<open>
  The code works on a buffer that it pads in place. A buffer is a list of bytes; a read or a
  write behind its end is \<open>None\<close>. The second part is the standard (FIPS 180-4) as a
  reference, the last the proof that the code computes it, and for which lengths it does not.
\<close>

unbundle bit_operations_syntax

subsection \<open>Packing (pack.c)\<close>

definition pack16 :: "u16 \<Rightarrow> u8 list" where
  "pack16 d = [ucast (drop_bit 8 d), ucast d]"

definition pack32 :: "u32 \<Rightarrow> u8 list" where
  "pack32 d = pack16 (ucast (drop_bit 16 d)) @ pack16 (ucast d)"

definition pack64 :: "u64 \<Rightarrow> u8 list" where
  "pack64 d = pack32 (ucast (drop_bit 32 d)) @ pack32 (ucast d)"

definition unpack16 :: "u8 \<Rightarrow> u8 \<Rightarrow> u32" where
  "unpack16 a b = push_bit 8 (ucast a) OR ucast b"

definition unpack32 :: "u8 \<Rightarrow> u8 \<Rightarrow> u8 \<Rightarrow> u8 \<Rightarrow> u32" where
  "unpack32 a b c d = push_bit 16 (unpack16 a b) OR unpack16 c d"

definition unpack16_le :: "u8 \<Rightarrow> u8 \<Rightarrow> u32" where
  "unpack16_le a b = push_bit 8 (ucast b) OR ucast a"

definition unpack32_le :: "u8 \<Rightarrow> u8 \<Rightarrow> u8 \<Rightarrow> u8 \<Rightarrow> u32" where
  "unpack32_le a b c d = push_bit 16 (unpack16_le c d) OR unpack16_le a b"

text \<open>Writing bytes at a position of a buffer.\<close>

definition store :: "nat \<Rightarrow> u8 list \<Rightarrow> u8 list \<Rightarrow> u8 list option" where
  "store i bs buffer = (if i + length bs \<le> length buffer
     then Some (take i buffer @ bs @ drop (i + length bs) buffer) else None)"

subsection \<open>The functions of the code\<close>

definition S :: "u32 \<Rightarrow> nat \<Rightarrow> u32" where
  "S x n = push_bit (32 - n) x OR drop_bit n x"

definition Ch :: "u32 \<Rightarrow> u32 \<Rightarrow> u32 \<Rightarrow> u32" where
  "Ch x y z = z XOR (x AND (y XOR z))"

definition Maj :: "u32 \<Rightarrow> u32 \<Rightarrow> u32 \<Rightarrow> u32" where
  "Maj x y z = ((x OR y) AND z) OR (x AND y)"

definition Sig_0 :: "u32 \<Rightarrow> u32" where "Sig_0 x = S x 2 XOR S x 13 XOR S x 22"
definition Sig_1 :: "u32 \<Rightarrow> u32" where "Sig_1 x = S x 6 XOR S x 11 XOR S x 25"
definition sig_0 :: "u32 \<Rightarrow> u32" where "sig_0 x = S x 7 XOR S x 18 XOR drop_bit 3 x"
definition sig_1 :: "u32 \<Rightarrow> u32" where "sig_1 x = S x 17 XOR S x 19 XOR drop_bit 10 x"

definition H_init :: "u32 list" where
  "H_init = [0x6a09e667, 0xbb67ae85, 0x3c6ef372, 0xa54ff53a, 0x510e527f, 0x9b05688c, 0x1f83d9ab, 0x5be0cd19]"

definition K :: "u32 list" where
  "K = concat [
    [0x428a2f98, 0x71374491, 0xb5c0fbcf, 0xe9b5dba5, 0x3956c25b, 0x59f111f1, 0x923f82a4, 0xab1c5ed5],
    [0xd807aa98, 0x12835b01, 0x243185be, 0x550c7dc3, 0x72be5d74, 0x80deb1fe, 0x9bdc06a7, 0xc19bf174],
    [0xe49b69c1, 0xefbe4786, 0x0fc19dc6, 0x240ca1cc, 0x2de92c6f, 0x4a7484aa, 0x5cb0a9dc, 0x76f988da],
    [0x983e5152, 0xa831c66d, 0xb00327c8, 0xbf597fc7, 0xc6e00bf3, 0xd5a79147, 0x06ca6351, 0x14292967],
    [0x27b70a85, 0x2e1b2138, 0x4d2c6dfc, 0x53380d13, 0x650a7354, 0x766a0abb, 0x81c2c92e, 0x92722c85],
    [0xa2bfe8a1, 0xa81a664b, 0xc24b8b70, 0xc76c51a3, 0xd192e819, 0xd6990624, 0xf40e3585, 0x106aa070],
    [0x19a4c116, 0x1e376c08, 0x2748774c, 0x34b0bcb5, 0x391c0cb3, 0x4ed8aa4a, 0x5b9cca4f, 0x682e6ff3],
    [0x748f82ee, 0x78a5636f, 0x84c87814, 0x8cc70208, 0x90befffa, 0xa4506ceb, 0xbef9a3f7, 0xc67178f2]]"

text \<open>The macro \<open>compress\<close>: the letters are places of \<open>h[]\<close>.\<close>

definition compress :: "nat \<Rightarrow> nat \<Rightarrow> nat \<Rightarrow> nat \<Rightarrow> nat \<Rightarrow> nat \<Rightarrow> nat \<Rightarrow> nat \<Rightarrow> nat \<Rightarrow> u32 list \<Rightarrow> u32 list \<Rightarrow> u32 list" where
  "compress a b c d e f g h i W hs =
     (let T0 = hs ! h + Sig_1 (hs ! e) + Ch (hs ! e) (hs ! f) (hs ! g) + K ! i + W ! i;
          T1 = Sig_0 (hs ! a) + Maj (hs ! a) (hs ! b) (hs ! c);
          hs = hs[d := hs ! d + T0]
      in hs[h := T0 + T1])"

text \<open>The body of the unrolled loop.\<close>

definition compress8 :: "u32 list \<Rightarrow> nat \<Rightarrow> u32 list \<Rightarrow> u32 list" where
  "compress8 W i hs =
     (let hs = compress 0 1 2 3 4 5 6 7 (i + 0) W hs;
          hs = compress 7 0 1 2 3 4 5 6 (i + 1) W hs;
          hs = compress 6 7 0 1 2 3 4 5 (i + 2) W hs;
          hs = compress 5 6 7 0 1 2 3 4 (i + 3) W hs;
          hs = compress 4 5 6 7 0 1 2 3 (i + 4) W hs;
          hs = compress 3 4 5 6 7 0 1 2 (i + 5) W hs;
          hs = compress 2 3 4 5 6 7 0 1 (i + 6) W hs
      in compress 1 2 3 4 5 6 7 0 (i + 7) W hs)"

text \<open>The sixteen words of a block, and the words up to 64 that are computed from them.\<close>

fun unpack_words :: "u8 list \<Rightarrow> u32 list" where
  "unpack_words (a # b # c # d # m) = unpack32 a b c d # unpack_words m"
| "unpack_words _ = []"

primrec expand :: "nat \<Rightarrow> u32 list \<Rightarrow> u32 list" where
  "expand 0 W = W"
| "expand (Suc k) W =
     (let i = length W in
      expand k (W @ [sig_1 (W ! (i - 2)) + W ! (i - 7) + sig_0 (W ! (i - 15)) + W ! (i - 16)]))"

definition sha_block :: "u8 list \<Rightarrow> u32 list \<Rightarrow> u32 list" where
  "sha_block m H =
     (let W = expand 48 (unpack_words m);
          h = fold (compress8 W) [0, 8, 16, 24, 32, 40, 48, 56] H
      in map2 (+) H h)"

primrec sha_blocks :: "nat \<Rightarrow> u8 list \<Rightarrow> u32 list \<Rightarrow> u32 list option" where
  "sha_blocks 0 m H = Some H"
| "sha_blocks (Suc n) m H =
     (if 64 \<le> length m then sha_blocks n (drop 64 m) (sha_block (take 64 m) H) else None)"

text \<open>
  The length is an \<open>int\<close>. A negative \<open>pad\<close> becomes a \<open>size_t\<close> of almost \<open>2 ^ 64\<close>, which is
  more than any buffer holds.
\<close>

definition sha256 :: "u8 list \<Rightarrow> nat \<Rightarrow> (u8 list \<times> u8 list) option" where
  "sha256 buffer len =
     (let pad = 55 - int (len mod 64);
          n = (len + 9 + 63) div 64;
          l = word_of_int (c_int (int len * 8)) :: u64
      in do { buffer \<leftarrow> store len [0x80] buffer;
              buffer \<leftarrow> (if pad < 0 then None else store (len + 1) (replicate (nat pad) 0) buffer);
              buffer \<leftarrow> store (len + 1 + nat pad) (pack64 l) buffer;
              H \<leftarrow> sha_blocks n buffer H_init;
              Some (concat (map pack32 H), buffer) })"

definition sha256_size :: "nat \<Rightarrow> nat" where
  "sha256_size x = (x + 9 + 63) div 64 * 64"

subsection \<open>The standard\<close>

type_synonym sha_state = "u32 \<times> u32 \<times> u32 \<times> u32 \<times> u32 \<times> u32 \<times> u32 \<times> u32"

definition fips_round :: "u32 \<Rightarrow> u32 \<Rightarrow> sha_state \<Rightarrow> sha_state" where
  "fips_round k w = (\<lambda>(a, b, c, d, e, f, g, h).
     let T1 = h + (word_rotr 6 e XOR word_rotr 11 e XOR word_rotr 25 e) + ((e AND f) XOR (NOT e AND g)) + k + w;
         T2 = (word_rotr 2 a XOR word_rotr 13 a XOR word_rotr 22 a) + ((a AND b) XOR (a AND c) XOR (b AND c))
     in (T1 + T2, a, b, c, d + T1, e, f, g))"

function fips_W :: "u32 list \<Rightarrow> nat \<Rightarrow> u32" where
  "fips_W M t =
     (if t < 16 then M ! t
      else (word_rotr 17 (fips_W M (t - 2)) XOR word_rotr 19 (fips_W M (t - 2)) XOR drop_bit 10 (fips_W M (t - 2)))
        + fips_W M (t - 7)
        + (word_rotr 7 (fips_W M (t - 15)) XOR word_rotr 18 (fips_W M (t - 15)) XOR drop_bit 3 (fips_W M (t - 15)))
        + fips_W M (t - 16))"
  by pat_completeness auto
termination by (relation "measure snd") auto

declare fips_W.simps [simp del]

fun fips_add :: "sha_state \<Rightarrow> sha_state \<Rightarrow> sha_state" where
  "fips_add (a, b, c, d, e, f, g, h) (a', b', c', d', e', f', g', h') =
     (a + a', b + b', c + c', d + d', e + e', f + f', g + g', h + h')"

text \<open>
  Numbers in big-endian bytes and words: \<open>fips_bytes k x\<close> are the last \<open>k\<close> bytes of \<open>x\<close>, \<open>fips_words m\<close> the
  sixteen words of a block.
\<close>

definition fips_bytes :: "nat \<Rightarrow> nat \<Rightarrow> u8 list" where
  "fips_bytes k x = map (\<lambda>i. of_nat (x div 256 ^ (k - 1 - i))) [0..<k]"

definition fips_words :: "u8 list \<Rightarrow> u32 list" where
  "fips_words m = map (\<lambda>j. of_nat (256 ^ 3 * unat (m ! (4 * j)) + 256 ^ 2 * unat (m ! (4 * j + 1)) +
     256 * unat (m ! (4 * j + 2)) + unat (m ! (4 * j + 3)))) [0..<16]"

text \<open>
  The constants are the first 32 bits of the fractional parts of roots of the first primes: of the cube roots
  for the rounds, of the square roots for the initial value. \<open>root_bits\<close> is the greatest number below
  \<open>2 ^ b\<close> whose power is not above \<open>x\<close>.
\<close>

primrec root_bits :: "nat \<Rightarrow> int \<Rightarrow> nat \<Rightarrow> int \<Rightarrow> int" where
  "root_bits k x 0 r = r"
| "root_bits k x (Suc b) r = (if (r + 2 ^ b) ^ k \<le> x then root_bits k x b (r + 2 ^ b) else root_bits k x b r)"

definition fips_primes :: "int list" where
  "fips_primes = [2, 3, 5, 7, 11, 13, 17, 19, 23, 29, 31, 37, 41, 43, 47, 53, 59, 61, 67, 71, 73, 79, 83, 89, 97, 101, 103, 107,
     109, 113, 127, 131, 137, 139, 149, 151, 157, 163, 167, 173, 179, 181, 191, 193, 197, 199, 211, 223, 227, 229, 233, 239,
     241, 251, 257, 263, 269, 271, 277, 281, 283, 293, 307, 311]"

definition fips_K :: "u32 list" where
  "fips_K = map (\<lambda>p. word_of_int (root_bits 3 (p * 2 ^ 96) 35 0)) fips_primes"

definition fips_H :: "u32 list" where
  "fips_H = map (\<lambda>p. word_of_int (root_bits 2 (p * 2 ^ 64) 35 0)) (take 8 fips_primes)"

definition fips_block :: "u8 list \<Rightarrow> sha_state \<Rightarrow> sha_state" where
  "fips_block m H = fips_add H (fold (\<lambda>t. fips_round (fips_K ! t) (fips_W (fips_words m) t)) [0..<64] H)"

primrec fips_blocks :: "nat \<Rightarrow> u8 list \<Rightarrow> sha_state \<Rightarrow> sha_state" where
  "fips_blocks 0 m H = H"
| "fips_blocks (Suc n) m H = fips_blocks n (drop 64 m) (fips_block (take 64 m) H)"

text \<open>A one bit, the fewest zeros that fill the last block, and the length in bits.\<close>

definition fips_pad :: "u8 list \<Rightarrow> u8 list" where
  "fips_pad msg = msg @ [0x80] @ replicate ((119 - length msg mod 64) mod 64) 0 @ fips_bytes 8 (8 * length msg)"

definition words_of :: "sha_state \<Rightarrow> u32 list" where
  "words_of = (\<lambda>(a, b, c, d, e, f, g, h). [a, b, c, d, e, f, g, h])"

definition fips_init :: sha_state where
  "fips_init = (fips_H ! 0, fips_H ! 1, fips_H ! 2, fips_H ! 3, fips_H ! 4, fips_H ! 5, fips_H ! 6, fips_H ! 7)"

definition fips_sha256 :: "u8 list \<Rightarrow> u8 list" where
  "fips_sha256 msg = (let m = fips_pad msg in
     concat (map (\<lambda>w. fips_bytes 4 (unat w)) (words_of (fips_blocks (length m div 64) m fips_init))))"

subsection \<open>The constants, and numbers in bytes\<close>

lemma root_bits_correct:
  "r ^ k \<le> x \<Longrightarrow> x < (r + 2 ^ b) ^ k \<Longrightarrow> root_bits k x b r ^ k \<le> x \<and> x < (root_bits k x b r + 1) ^ k"
proof (induction b arbitrary: r)
  case (Suc b)
  show ?case
  proof (cases "(r + 2 ^ b) ^ k \<le> x")
    case True
    have "r + 2 ^ b + 2 ^ b = r + 2 ^ Suc b" by simp
    then have "x < (r + 2 ^ b + 2 ^ b) ^ k" using Suc.prems(2) by (simp only:)
    from Suc.IH [OF True this] show ?thesis using True by (simp only: root_bits.simps if_True)
  qed (use Suc in simp)
qed simp

lemma K_fips: "K = fips_K"
  by code_simp

lemma H_fips: "H_init = fips_H"
  by code_simp

lemma bit_of_nat_div:
  "bit (of_nat (x div 256 ^ j) :: u8) i \<longleftrightarrow> i < 8 \<and> bit x (8 * j + i)"
proof -
  have "x div 256 ^ j = drop_bit (8 * j) x" by (simp add: drop_bit_eq_div power_mult)
  moreover have "bit (of_nat y :: u8) i \<longleftrightarrow> i < 8 \<and> bit y i" for y
  proof -
    have "(of_nat y :: u8) = word_of_int (int y)" by simp
    then show ?thesis by (simp add: bit_word_of_int_iff bit_of_nat_iff del: of_int_of_nat_eq)
  qed
  ultimately show ?thesis by (simp add: bit_drop_bit_eq)
qed

lemma bit_unat: "bit (unat w) i = bit (w :: 'a :: len word) i"
  by (simp add: bit_unsigned_iff)

lemma byte_at_div: "(of_nat (unat w div 256 ^ j) :: u8) = ucast (drop_bit (8 * j) (w :: 'a :: len word))"
  by (rule bit_word_eqI) (auto simp: bit_of_nat_div bit_unat bit_ucast_iff bit_drop_bit_eq dest: bit_imp_le_length)

lemma pack32_fips: "pack32 w = fips_bytes 4 (unat w)"
proof -
  have "[0..<4] = [0, 1, 2, 3 :: nat]" by code_simp
  then have "fips_bytes 4 (unat w) = map (\<lambda>j. of_nat (unat w div 256 ^ j)) [3, 2, 1, 0]"
    by (simp add: fips_bytes_def)
  also have "\<dots> = map (\<lambda>j. ucast (drop_bit (8 * j) w)) [3, 2, 1, 0]" unfolding byte_at_div ..
  also have "\<dots> = pack32 w"
    by (auto simp: pack32_def pack16_def bit_ucast_iff bit_drop_bit_eq intro!: bit_word_eqI)
  finally show ?thesis by simp
qed

lemma pack64_fips: "pack64 w = fips_bytes 8 (unat w)"
proof -
  have "[0..<8] = [0, 1, 2, 3, 4, 5, 6, 7 :: nat]" by code_simp
  then have "fips_bytes 8 (unat w) = map (\<lambda>j. of_nat (unat w div 256 ^ j)) [7, 6, 5, 4, 3, 2, 1, 0]"
    by (simp add: fips_bytes_def)
  also have "\<dots> = map (\<lambda>j. ucast (drop_bit (8 * j) w)) [7, 6, 5, 4, 3, 2, 1, 0]" unfolding byte_at_div ..
  also have "\<dots> = pack64 w"
    by (auto simp: pack64_def pack32_def pack16_def bit_ucast_iff bit_drop_bit_eq intro!: bit_word_eqI)
  finally show ?thesis by simp
qed

lemma fips_bytes_mod: "fips_bytes 8 (unat (of_nat n :: u64)) = fips_bytes 8 n"
proof -
  have "of_nat (unat (of_nat n :: u64) div 256 ^ (7 - i)) = (of_nat (n div 256 ^ (7 - i)) :: u8)" if "i < 8" for i
  proof (rule bit_word_eqI)
    fix k :: nat assume "k < LENGTH(8)"
    then have "8 * (7 - i) + k < 64" using that by simp
    moreover have "bit (of_nat n :: u64) j \<longleftrightarrow> j < 64 \<and> bit n j" for j
    proof -
      have "(of_nat n :: u64) = word_of_int (int n)" by simp
      then show ?thesis by (simp add: bit_word_of_int_iff bit_of_nat_iff del: of_int_of_nat_eq)
    qed
    ultimately show "bit (of_nat (unat (of_nat n :: u64) div 256 ^ (7 - i)) :: u8) k = bit (of_nat (n div 256 ^ (7 - i)) :: u8) k"
      unfolding bit_of_nat_div bit_unat by simp
  qed
  then show ?thesis by (simp add: fips_bytes_def)
qed

lemma unpack32_value: "unpack32 a b c d = of_nat (256 ^ 3 * unat a + 256 ^ 2 * unat b + 256 * unat c + unat d)"
proof -
  have u: "unpack16 x y = of_nat (256 * unat x + unat y)" for x y
  proof -
    have "push_bit 8 (ucast x) OR (ucast y :: u32) = push_bit 8 (ucast x) + ucast y"
      by (rule disjunctive_add [symmetric]) (auto simp: bit_push_bit_iff bit_ucast_iff dest: bit_imp_le_length)
    then show ?thesis by (simp add: unpack16_def push_bit_eq_mult)
  qed
  have "push_bit 16 (unpack16 a b) OR unpack16 c d = push_bit 16 (unpack16 a b) + unpack16 c d"
  proof (rule disjunctive_add [symmetric])
    fix n show "\<not> bit (push_bit 16 (unpack16 a b)) n \<or> \<not> bit (unpack16 c d) n"
      by (auto simp: unpack16_def bit_push_bit_iff bit_or_iff bit_ucast_iff dest: bit_imp_le_length)
  qed
  then show ?thesis unfolding unpack32_def u by (simp add: push_bit_eq_mult algebra_simps)
qed

lemma unpack_words_nth: "4 * j + 3 < length m \<Longrightarrow> unpack_words m ! j = unpack32 (m ! (4 * j)) (m ! (4 * j + 1)) (m ! (4 * j + 2)) (m ! (4 * j + 3))"
proof (induction m arbitrary: j rule: unpack_words.induct)
  case (1 a b c d m)
  then show ?case by (cases j) (simp_all add: numeral_eq_Suc)
qed simp_all

subsection \<open>The code computes the standard\<close>

lemma S_rotr:
  assumes "0 < n" "n < 32"
  shows "S x n = word_rotr n x"
proof (rule bit_word_eqI)
  fix m assume "m < LENGTH(32)"
  then have m: "m < 32" by simp
  show "bit (S x n) m = bit (word_rotr n x) m"
  proof (cases "m + n < 32")
    case True
    with m assms show ?thesis by (auto simp: S_def bit_simps add.commute)
  next
    case False
    have "\<not> bit x (n + m)" using False bit_imp_le_length [of x "n + m"] by auto
    moreover have "(m + n) mod 32 = m + n - 32" using False m assms by (simp add: mod_if)
    ultimately show ?thesis using False m assms by (auto simp: S_def bit_simps add.commute)
  qed
qed

lemma Ch_fips: "Ch x y z = (x AND y) XOR (NOT x AND z)"
  unfolding Ch_def by (rule bit_word_eqI) (auto simp: bit_simps)

lemma Maj_fips: "Maj x y z = (x AND y) XOR (x AND z) XOR (y AND z)"
  unfolding Maj_def by (rule bit_word_eqI) (auto simp: bit_simps)

lemmas sha_fips = Sig_0_def Sig_1_def sig_0_def sig_1_def S_rotr Ch_fips Maj_fips

lemma sha_state_cases:
  obtains a b c d e f g h where "st = (a, b, c, d, e, f, g, h :: u32)"
  by (cases st) auto

lemma compress_round:
  "compress 0 1 2 3 4 5 6 7 i W (words_of st) = rotate 1 (words_of (fips_round (K ! i) (W ! i) st))"
  "compress 7 0 1 2 3 4 5 6 i W (rotate 1 (words_of st)) = rotate 2 (words_of (fips_round (K ! i) (W ! i) st))"
  "compress 6 7 0 1 2 3 4 5 i W (rotate 2 (words_of st)) = rotate 3 (words_of (fips_round (K ! i) (W ! i) st))"
  "compress 5 6 7 0 1 2 3 4 i W (rotate 3 (words_of st)) = rotate 4 (words_of (fips_round (K ! i) (W ! i) st))"
  "compress 4 5 6 7 0 1 2 3 i W (rotate 4 (words_of st)) = rotate 5 (words_of (fips_round (K ! i) (W ! i) st))"
  "compress 3 4 5 6 7 0 1 2 i W (rotate 5 (words_of st)) = rotate 6 (words_of (fips_round (K ! i) (W ! i) st))"
  "compress 2 3 4 5 6 7 0 1 i W (rotate 6 (words_of st)) = rotate 7 (words_of (fips_round (K ! i) (W ! i) st))"
  "compress 1 2 3 4 5 6 7 0 i W (rotate 7 (words_of st)) = words_of (fips_round (K ! i) (W ! i) st)"
  by (cases st rule: sha_state_cases; simp add: compress_def fips_round_def words_of_def sha_fips rotate_drop_take Let_def)+

lemma upt8: "[i..<i + 8] = [i, i + 1, i + 2, i + 3, i + 4, i + 5, i + 6, i + 7 :: nat]"
  by (simp add: upt_rec [of i] upt_rec [of "Suc i"] upt_rec [of "Suc (Suc i)"] eval_nat_numeral)

lemma compress8_fips:
  "compress8 W i (words_of st) = words_of (fold (\<lambda>t. fips_round (K ! t) (W ! t)) [i..<i + 8] st)"
  unfolding compress8_def Let_def upt8 by (simp only: compress_round fold_simps add_0_right o_apply id_apply)

lemma compress_all_fips:
  "fold (compress8 W) [0, 8, 16, 24, 32, 40, 48, 56] (words_of st) =
     words_of (fold (\<lambda>t. fips_round (K ! t) (W ! t)) [0..<64] st)"
proof -
  have "[0..<64] = [0..<0 + 8] @ [8..<8 + 8] @ [16..<16 + 8] @ [24..<24 + 8] @ [32..<32 + 8] @ [40..<40 + 8]
      @ [48..<48 + 8] @ [56..<56 + 8 :: nat]"
    by code_simp
  then show ?thesis by (simp only: fold_append fold_simps compress8_fips o_apply)
qed

subsection \<open>The message schedule\<close>

lemma unpack_words_length: "length (unpack_words m) = length m div 4"
  by (induction m rule: unpack_words.induct) auto

lemma unpack_words_fips: "length m = 64 \<Longrightarrow> unpack_words m = fips_words m"
  by (rule nth_equalityI) (simp_all add: unpack_words_length fips_words_def unpack_words_nth unpack32_value)

lemma expand_fips:
  assumes "length M = 16" "16 \<le> n"
  shows "expand k (map (fips_W M) [0..<n]) = map (fips_W M) [0..<n + k]"
  using assms(2)
proof (induction k arbitrary: n)
  case (Suc k)
  have "fips_W M n = sig_1 (fips_W M (n - 2)) + fips_W M (n - 7) + sig_0 (fips_W M (n - 15)) + fips_W M (n - 16)"
    using Suc.prems by (subst fips_W.simps) (simp add: sha_fips)
  with Suc.prems Suc.IH [of "Suc n"] show ?case
    by (simp add: Let_def)
qed simp

lemma expand_block:
  assumes "length m = 64"
  shows "expand 48 (unpack_words m) = map (fips_W (unpack_words m)) [0..<64]"
proof -
  have l: "length (unpack_words m) = 16" using assms by (simp add: unpack_words_length)
  have "unpack_words m = map (fips_W (unpack_words m)) [0..<16]"
    by (rule nth_equalityI) (simp_all add: l fips_W.simps)
  with expand_fips [OF l, of 16 48] show ?thesis by simp
qed

lemma sha_block_fips:
  assumes "length m = 64"
  shows "sha_block m (words_of st) = words_of (fips_block m st)"
proof -
  let ?W = "map (fips_W (unpack_words m)) [0..<64]"
  have "fold (\<lambda>t. fips_round (K ! t) (?W ! t)) [0..<64] st =
        fold (\<lambda>t. fips_round (K ! t) (fips_W (unpack_words m) t)) [0..<64] st"
    by (rule fold_cong) auto
  moreover have "map2 (+) (words_of x) (words_of y) = words_of (fips_add x y)" for x y
    by (cases x rule: sha_state_cases; cases y rule: sha_state_cases) (simp add: words_of_def)
  ultimately show ?thesis
    unfolding sha_block_def expand_block [OF assms] compress_all_fips fips_block_def Let_def
    by (simp only: K_fips unpack_words_fips [OF assms])
qed

lemma H_words: "H_init = words_of fips_init"
  unfolding fips_init_def H_fips [symmetric] by (simp add: words_of_def H_init_def)

lemma sha_blocks_fips:
  "64 * n \<le> length m \<Longrightarrow> sha_blocks n m (words_of st) = Some (words_of (fips_blocks n m st))"
  by (induction n arbitrary: m st) (simp_all add: sha_block_fips)

lemma fips_blocks_append: "64 * n \<le> length m \<Longrightarrow> fips_blocks n (m @ m') st = fips_blocks n m st"
  by (induction n arbitrary: m st) simp_all

subsection \<open>The result\<close>

lemma pack_lengths [simp]: "length (pack16 a) = 2" "length (pack32 b) = 4" "length (pack64 c) = 8"
  by (simp_all add: pack16_def pack32_def pack64_def)

lemma store_append:
  "i = length xs \<Longrightarrow> length bs \<le> length rest \<Longrightarrow> store i bs (xs @ rest) = Some (xs @ bs @ drop (length bs) rest)"
  by (simp add: store_def)

text \<open>C13: With a buffer of \<open>sha256_size\<close> bytes the code computes the SHA-256 of the standard, for messages
  shorter than \<open>2 ^ 28\<close> bytes (from there on the length in bits overflows an \<open>int\<close>) whose length leaves room for the
  padding in the last block (at most 55 bytes modulo 64); for every other length it writes far behind the buffer.
  The constants of the standard are computed from the primes, its words from the numbers that the bytes stand for.\<close>

theorem sha256_fips:
  assumes "length msg < 2 ^ 28" "sha256_size (length msg) \<le> length msg + length junk"
  shows "map_option fst (sha256 (msg @ junk) (length msg)) =
    (if length msg mod 64 \<le> 55 then Some (fips_sha256 msg) else None)"
proof (cases "length msg mod 64 \<le> 55")
  case False
  then show ?thesis by (simp add: sha256_def bind_eq_None_conv)
next
  case True
  define L p q r where "L = length msg" and "p = 55 - L mod 64" and "q = L div 64" and "r = L mod 64"
  have L: "L = 64 * q + r" "r \<le> 55" "p = 55 - r"
    using True by (simp_all add: L_def p_def q_def r_def)
  have n: "(L + 9 + 63) div 64 = q + 1" using L by simp
  have size: "64 * q + 64 \<le> L + length junk"
    using assms(2) n unfolding sha256_size_def L_def [symmetric] by simp
  have pad: "(119 - L mod 64) mod 64 = p"
  proof -
    have "119 - L mod 64 = p + 64" "p < 64" using L by (simp_all add: p_def)
    then show ?thesis by (simp only: mod_add_self2 mod_less)
  qed
  define m where "m = msg @ [0x80] @ replicate p 0 @ pack64 (of_nat (8 * L))"
  have fp: "fips_pad msg = m" unfolding m_def fips_pad_def L_def [symmetric] pad pack64_fips fips_bytes_mod ..
  have lm: "length m = 64 * (q + 1)" using L by (simp add: m_def flip: L_def)
  have l: "(word_of_int (c_int (int L * 8)) :: u64) = of_nat (8 * L)"
    using assms(1) by (simp add: c_int_id in_int_def L_def mult.commute)
  have "sha256 (msg @ junk) L = do { H \<leftarrow> sha_blocks (q + 1) (m @ drop (64 * q + 64 - L) junk) H_init;
      Some (concat (map pack32 H), m @ drop (64 * q + 64 - L) junk) }"
  proof -
    have sz: "9 + p \<le> length junk" using L size by simp
    have s1: "store L [0x80] (msg @ junk) = Some (msg @ [0x80] @ drop 1 junk)"
      using store_append [of L msg "[0x80]" junk] L size by (simp add: L_def)
    have s2: "store (L + 1) (replicate p 0) (msg @ [0x80] @ drop 1 junk) =
        Some (msg @ [0x80] @ replicate p 0 @ drop (1 + p) junk)"
      using store_append [of "L + 1" "msg @ [0x80]" "replicate p 0" "drop 1 junk"] L size
      by (simp flip: L_def)
    have s3: "store (L + 1 + p) (pack64 (of_nat (8 * L))) (msg @ [0x80] @ replicate p 0 @ drop (1 + p) junk) =
        Some (m @ drop (9 + p) junk)"
      using store_append [of "L + 1 + p" "msg @ [0x80] @ replicate p 0" "pack64 (of_nat (8 * L))" "drop (1 + p) junk"] sz
      by (simp add: m_def add.commute flip: L_def)
    have p: "55 - int (L mod 64) = int p" "64 * q + 64 - L = 9 + p" using L by (simp_all add: of_nat_diff)
    show ?thesis unfolding sha256_def Let_def n l p by (simp only: s1 s2 s3 nat_int bind.bind_lunit of_nat_less_0_iff if_False)
  qed
  also have "sha_blocks (q + 1) (m @ drop (64 * q + 64 - L) junk) H_init
      = Some (words_of (fips_blocks (q + 1) m fips_init))"
    using sha_blocks_fips [of "q + 1" "m @ drop (64 * q + 64 - L) junk" fips_init] lm
    by (simp add: fips_blocks_append H_words del: sha_blocks.simps fips_blocks.simps)
  finally show ?thesis
    using True lm by (simp add: fips_sha256_def fp Let_def pack32_fips flip: L_def del: fips_blocks.simps)
qed

theorem sha256_fips_witness:
  "map_option fst (sha256 ([0x61, 0x62, 0x63] @ replicate 61 0) (length [0x61, 0x62, 0x63 :: u8])) =
     Some (fips_sha256 [0x61, 0x62, 0x63])
   \<and> map_option fst (sha256 (replicate 60 7 @ replicate 68 0) (length (replicate 60 (7 :: u8)))) = None"
  using sha256_fips [of "[0x61, 0x62, 0x63]" "replicate 61 0"] sha256_fips [of "replicate 60 7" "replicate 68 0"]
  by (simp add: sha256_size_def)

end
