(* ===== verification/Se_Object.thy ===== *)
theory Se_Object
  imports Linked_List Sha256 Schema "HOL-Library.List_Lexorder"
begin

section \<open>Lists of IEEE 2030.5 objects (core/se_object.c, core/se_list.c)\<close>

text \<open>
  The order of the objects in a list resource: a table gives for every list type up to three
  keys, and an object is inserted before the first object that does not come before it. An
  object is seen through its fields: an array of characters, an array of bytes (read as zeros
  behind its end), an integer, or a pointer. The offset of a key is the path of its field.
\<close>

unbundle bit_operations_syntax

subsection \<open>Data\<close>

datatype field = Chars string | Octets "u8 list" | Num int | Pointer u64

type_synonym object = "string \<Rightarrow> field"

type_synonym key = "string \<times> int"

record list_info =
  li_id :: u16
  li_base :: u16
  li_offset :: string
  li_type :: u16
  li_key :: "key list"

definition list_info :: "u16 \<Rightarrow> u16 \<Rightarrow> string \<Rightarrow> u16 \<Rightarrow> key list \<Rightarrow> list_info" where
  "list_info i b offset t k = \<lparr>li_id = i, li_base = b, li_offset = offset, li_type = t, li_key = k\<rparr>"

definition se_list_info :: "list_info list" where
  "se_list_info = [
     list_info 25 273 ''BillingPeriod'' 24 [(''interval.start'', XS_LONG), (''href'', XS_ANY_URI)],
     list_info 28 159 ''BillingReading'' 27 [(''timePeriod.start'', XS_LONG), (''consumptionBlock'', XS_UBYTE), (''touTier'', XS_UBYTE)],
     list_info 31 273 ''BillingReadingSet'' 30 [(''timePeriod.start'', - XS_LONG), (''mRID'', - (xs_type XS_HEX_BINARY 16))],
     list_info 42 159 ''ConsumptionTariffInterval'' 41 [(''startValue'', XS_ULONG)],
     list_info 46 159 ''CreditRegister'' 45 [(''effectiveTime'', - XS_LONG), (''mRID'', - (xs_type XS_HEX_BINARY 16))],
     list_info 57 273 ''CustomerAccount'' 55 [(''customerName'', xs_type XS_STRING 42), (''mRID'', - (xs_type XS_HEX_BINARY 16))],
     list_info 60 273 ''CustomerAgreement'' 59 [(''serviceLocation'', xs_type XS_STRING 42), (''mRID'', - (xs_type XS_HEX_BINARY 16))],
     list_info 69 273 ''DERControl'' 67 [(''interval.start'', XS_LONG), (''creationTime'', - XS_LONG), (''mRID'', - (xs_type XS_HEX_BINARY 16))],
     list_info 75 159 ''DERCurve'' 73 [(''creationTime'', - XS_LONG), (''mRID'', - (xs_type XS_HEX_BINARY 16))],
     list_info 79 159 ''DER'' 62 [(''href'', XS_ANY_URI)],
     list_info 83 273 ''DERProgram'' 81 [(''primacy'', XS_UBYTE), (''mRID'', - (xs_type XS_HEX_BINARY 16))],
     list_info 98 273 ''DemandResponseProgram'' 96 [(''primacy'', XS_UBYTE), (''mRID'', xs_type XS_HEX_BINARY 16)],
     list_info 112 273 ''EndDeviceControl'' 111 [(''interval.start'', XS_LONG), (''creationTime'', - XS_LONG), (''mRID'', - (xs_type XS_HEX_BINARY 16))],
     list_info 115 273 ''EndDevice'' 110 [(''sFDI'', XS_ULONG), (''href'', XS_ANY_URI)],
     list_info 131 159 ''FlowReservationRequest'' 130 [(''intervalRequested.start'', XS_LONG), (''creationTime'', - XS_LONG), (''mRID'', - (xs_type XS_HEX_BINARY 16))],
     list_info 134 273 ''FlowReservationResponse'' 133 [(''interval.start'', XS_LONG), (''creationTime'', - XS_LONG), (''mRID'', - (xs_type XS_HEX_BINARY 16))],
     list_info 140 273 ''FunctionSetAssignments'' 138 [(''mRID'', - (xs_type XS_HEX_BINARY 16))],
     list_info 143 159 ''HistoricalReading'' 142 [(''description'', xs_type XS_STRING 32), (''mRID'', - (xs_type XS_HEX_BINARY 16))],
     list_info 147 159 ''IPAddr'' 146 [(''address'', xs_type XS_HEX_BINARY 16)],
     list_info 150 159 ''IPInterface'' 149 [(''ifIndex'', XS_UINT)],
     list_info 156 159 ''LLInterface'' 155 [(''EUI64'', xs_type XS_HEX_BINARY 8)],
     list_info 167 273 ''LogEvent'' 166 [(''createdDateTime'', XS_LONG), (''logEventID'', XS_USHORT)],
     list_info 171 273 ''MessagingProgram'' 170 [(''mRID'', - (xs_type XS_HEX_BINARY 16))],
     list_info 176 273 ''MeterReading'' 173 [(''mRID'', - (xs_type XS_HEX_BINARY 16))],
     list_info 182 159 ''MirrorUsagePoint'' 181 [(''mRID'', - (xs_type XS_HEX_BINARY 16))],
     list_info 188 159 ''Notification'' 187 [(''href'', XS_ANY_URI)],
     list_info 209 273 ''Prepayment'' 207 [(''mRID'', - (xs_type XS_HEX_BINARY 16))],
     list_info 218 159 ''ProjectionReading'' 217 [(''description'', xs_type XS_STRING 32), (''mRID'', - (xs_type XS_HEX_BINARY 16))],
     list_info 221 159 ''RPLInstance'' 220 [(''DODAGid'', XS_UBYTE), (''RPLInstanceID'', XS_UBYTE)],
     list_info 224 159 ''RPLSourceRoutes'' 223 [(''SourceRoute'', xs_type XS_HEX_BINARY 16), (''DestAddress'', xs_type XS_HEX_BINARY 16)],
     list_info 229 159 ''RateComponent'' 227 [(''mRID'', - (xs_type XS_HEX_BINARY 16))],
     list_info 235 273 ''Reading'' 232 [(''localID'', xs_type XS_HEX_BINARY 2), (''consumptionBlock'', XS_UBYTE), (''touTier'', XS_UBYTE)],
     list_info 239 273 ''ReadingSet'' 237 [(''timePeriod.start'', - XS_LONG), (''mRID'', - (xs_type XS_HEX_BINARY 16))],
     list_info 252 159 ''Response'' 251 [(''createdDateTime'', - XS_LONG), (''endDeviceLFDI'', xs_type XS_HEX_BINARY 20)],
     list_info 255 159 ''ResponseSet'' 254 [(''mRID'', - (xs_type XS_HEX_BINARY 16))],
     list_info 277 159 ''Subscription'' 275 [(''href'', XS_ANY_URI)],
     list_info 280 159 ''SupplyInterruptionOverride'' 279 [(''interval.start'', XS_LONG), (''interval.duration'', XS_UINT)],
     list_info 287 159 ''TargetReading'' 286 [(''description'', xs_type XS_STRING 32), (''mRID'', - (xs_type XS_HEX_BINARY 16))],
     list_info 292 273 ''TariffProfile'' 290 [(''mRID'', - (xs_type XS_HEX_BINARY 16))],
     list_info 296 273 ''TextMessage'' 295 [(''interval.start'', - XS_LONG), (''creationTime'', - XS_LONG), (''mRID'', - (xs_type XS_HEX_BINARY 16))],
     list_info 304 273 ''TimeTariffInterval'' 303 [(''interval.start'', XS_LONG), (''creationTime'', - XS_LONG), (''mRID'', - (xs_type XS_HEX_BINARY 16))],
     list_info 314 273 ''UsagePoint'' 311 [(''mRID'', - (xs_type XS_HEX_BINARY 16))]]"

subsection \<open>Identifiers\<close>

definition pen_id :: u32 where "pen_id = 54321"

text \<open>\<open>r\<close> is the result of \<open>rand ()\<close>, \<open>cnt\<close> the static counter.\<close>

definition mrid_gen :: "u32 \<Rightarrow> u32 \<Rightarrow> u8 list \<times> u32" where
  "mrid_gen r cnt = ([0, 0, 0, 0] @ pack32 r @ pack32 cnt @ pack32 pen_id, cnt + 1)"

subsection \<open>The table\<close>

definition compare_ids :: "u16 \<Rightarrow> u16 \<Rightarrow> int" where
  "compare_ids x y = sint x - sint y"

text \<open>The library function \<open>bsearch\<close>; its documentation asks for an array in ascending order.\<close>

function bsearch :: "('a \<Rightarrow> int) \<Rightarrow> 'a list \<Rightarrow> nat \<Rightarrow> nat \<Rightarrow> 'a option" where
  "bsearch cmp xs l u =
     (if l < u then
        let i = (l + u) div 2; c = cmp (xs ! i) in
        if c < 0 then bsearch cmp xs l i
        else if c > 0 then bsearch cmp xs (i + 1) u
        else Some (xs ! i)
      else None)"
  by pat_completeness auto
termination by (relation "measure (\<lambda>(_, _, l, u). u - l)") auto

declare bsearch.simps [simp del]

definition find_list_info :: "u16 \<Rightarrow> list_info option" where
  "find_list_info type = bsearch (\<lambda>i. compare_ids type (li_id i)) se_list_info 0 (length se_list_info)"

subsection \<open>Keys\<close>

definition octet :: "u8 list \<Rightarrow> nat \<Rightarrow> u8" where
  "octet b n = (if n < length b then b ! n else 0)"

primrec compare_binary :: "u8 list \<Rightarrow> u8 list \<Rightarrow> nat \<Rightarrow> int" where
  "compare_binary a b 0 = 0"
| "compare_binary a b (Suc n) =
     (if octet a n < octet b n then -1 else if octet a n > octet b n then 1 else compare_binary a b n)"

fun strcmp :: "nat list \<Rightarrow> nat list \<Rightarrow> int" where
  "strcmp [] [] = 0"
| "strcmp [] (y # ys) = -1"
| "strcmp (x # xs) [] = 1"
| "strcmp (x # xs) (y # ys) = (if x < y then -1 else if y < x then 1 else strcmp xs ys)"

text \<open>The bytes up to the first zero that \<open>strcmp\<close> sees at a field: those of the text, or those
  of the pointer itself, least significant first.\<close>

fun raw_string :: "field \<Rightarrow> nat list" where
  "raw_string (Chars s) = map of_char s"
| "raw_string (Pointer p) = takeWhile (\<lambda>x. x \<noteq> 0) (map (\<lambda>i. unat (ucast (drop_bit (8 * i) p) :: u8)) [0..<8])"
| "raw_string _ = []"

fun number_of :: "field \<Rightarrow> int" where
  "number_of (Num x) = x"
| "number_of _ = 0"

fun octets_of :: "field \<Rightarrow> u8 list" where
  "octets_of (Octets b) = b"
| "octets_of _ = []"

definition compare_uint :: "int \<Rightarrow> int \<Rightarrow> int" where
  "compare_uint a b = (if a < b then -1 else c_int (a - b))"

text \<open>The differences are taken in 64 or 32 bits and returned as \<open>int\<close>; \<open>a\<close> and \<open>b\<close> have already
  been exchanged for a negative type.\<close>

definition compare_field :: "int \<Rightarrow> nat \<Rightarrow> field \<Rightarrow> field \<Rightarrow> int" where
  "compare_field type n a b =
     (if type = XS_STRING \<or> type = XS_ANY_URI then strcmp (raw_string a) (raw_string b)
      else if type = XS_HEX_BINARY then compare_binary (octets_of a) (octets_of b) n
      else if type = XS_LONG \<or> type = XS_INT \<or> type = XS_SHORT \<or> type = XS_BYTE then
        c_int (number_of a - number_of b)
      else if type = XS_ULONG \<or> type = XS_UINT \<or> type = XS_USHORT \<or> type = XS_UBYTE then
        compare_uint (number_of a) (number_of b)
      else -1)"

definition compare_key :: "object \<Rightarrow> object \<Rightarrow> key \<Rightarrow> int" where
  "compare_key a b key =
     (case key of (offset, ktype) \<Rightarrow>
        let (a, b, type) = (if ktype < 0 then (b, a, - ktype) else (a, b, ktype)) in
        compare_field (xs_base type) (nat (xs_length type)) (a offset) (b offset))"

text \<open>Every list type of the table has a key, so \<open>ret\<close> is set when the loop ends.\<close>

fun compare_key_list :: "object \<Rightarrow> object \<Rightarrow> int \<Rightarrow> key list \<Rightarrow> int" where
  "compare_key_list a b ret [] = ret"
| "compare_key_list a b ret (k # ks) =
     (let ret = compare_key a b k in if ret \<noteq> 0 then ret else compare_key_list a b ret ks)"

definition compare_keys :: "object \<Rightarrow> object \<Rightarrow> list_info \<Rightarrow> int" where
  "compare_keys a b info = compare_key_list a b 0 (take 3 (li_key info))"

definition insert_se_object :: "object list \<Rightarrow> object \<Rightarrow> list_info \<Rightarrow> object list" where
  "insert_se_object list n info = insert_by (\<lambda>a b. compare_keys a b info) n list"

subsection \<open>The table is searched as a map\<close>

lemma bsearch_iff:
  assumes "sorted_wrt (\<lambda>x y. key x < (key y :: int)) xs" "u \<le> length xs"
    "\<And>x. cmp x < 0 \<longleftrightarrow> k < key x" "\<And>x. 0 < cmp x \<longleftrightarrow> key x < k"
  shows "bsearch cmp xs l u = Some x \<longleftrightarrow> (\<exists>i. l \<le> i \<and> i < u \<and> xs ! i = x \<and> key x = k)"
  using assms(2)
proof (induction "u - l" arbitrary: l u rule: less_induct)
  case less
  have sorted: "key (xs ! i) < key (xs ! j)" if "i < j" "j < length xs" for i j
    using assms(1) that by (rule sorted_wrt_nth_less)
  show ?case
  proof (cases "l < u")
    case True
    define m where "m = (l + u) div 2"
    have m: "l \<le> m" "m < u" using True by (auto simp: m_def)
    have b: "bsearch cmp xs l u = (if cmp (xs ! m) < 0 then bsearch cmp xs l m
        else if cmp (xs ! m) > 0 then bsearch cmp xs (m + 1) u else Some (xs ! m))"
      using True by (simp add: bsearch.simps [of cmp xs l u] m_def Let_def)
    consider "cmp (xs ! m) < 0" | "cmp (xs ! m) > 0" | "cmp (xs ! m) = 0" by linarith
    then show ?thesis
    proof cases
      case 1
      then have k: "k < key (xs ! m)" by (simp add: assms(3))
      have "i < m" if "i < u" "key (xs ! i) = k" for i
        using that k sorted [of m i] less.prems by (cases i m rule: linorder_cases) auto
      then show ?thesis using less.hyps [of m l] m less.prems 1 b by auto
    next
      case 2
      then have k: "key (xs ! m) < k" by (simp add: assms(4))
      have "m + 1 \<le> i" if "key (xs ! i) = k" for i
        using that k sorted [of i m] less.prems m by (cases i m rule: linorder_cases) auto
      moreover have "bsearch cmp xs l u = bsearch cmp xs (m + 1) u" using b 2 by simp
      moreover have "bsearch cmp xs (m + 1) u = Some x \<longleftrightarrow> (\<exists>i. m + 1 \<le> i \<and> i < u \<and> xs ! i = x \<and> key x = k)"
        using m less.prems by (intro less.hyps) auto
      ultimately show ?thesis using m(1) by (metis add_leD1 le_trans)
    next
      case 3
      then have k: "key (xs ! m) = k" using assms(3) [of "xs ! m"] assms(4) [of "xs ! m"] by linarith
      have "i = m" if "i < u" "key (xs ! i) = k" for i
        using that k sorted [of i m] sorted [of m i] less.prems m by (cases i m rule: linorder_cases) auto
      then have "xs ! m = x \<longleftrightarrow> (\<exists>i. l \<le> i \<and> i < u \<and> xs ! i = x \<and> key x = k)" using m k by blast
      with b 3 show ?thesis by simp
    qed
  qed (simp add: bsearch.simps)
qed

lemma se_list_info_sorted: "sorted_wrt (\<lambda>x y. sint (li_id x) < sint (li_id y)) se_list_info"
proof -
  have "map li_id se_list_info = [25, 28, 31, 42, 46, 57, 60, 69, 75, 79, 83, 98, 112, 115, 131, 134, 140, 143, 147, 150, 156, 167, 171, 176, 182, 188, 209, 218, 221, 224, 229, 235, 239, 252, 255, 277, 280, 287, 292, 296, 304, 314]"
    unfolding se_list_info_def list_info_def by simp
  then have "map sint (map li_id se_list_info) = map sint ([25, 28, 31, 42, 46, 57, 60, 69, 75, 79, 83, 98, 112, 115, 131, 134, 140, 143, 147, 150, 156, 167, 171, 176, 182, 188, 209, 218, 221, 224, 229, 235, 239, 252, 255, 277, 280, 287, 292, 296, 304, 314] :: u16 list)"
    by (rule arg_cong)
  moreover have "map (\<lambda>i. sint (li_id i)) se_list_info = map sint (map li_id se_list_info)" by simp
  moreover have "sorted_wrt (<) (map sint ([25, 28, 31, 42, 46, 57, 60, 69, 75, 79, 83, 98, 112, 115, 131, 134, 140, 143, 147, 150, 156, 167, 171, 176, 182, 188, 209, 218, 221, 224, 229, 235, 239, 252, 255, 277, 280, 287, 292, 296, 304, 314] :: u16 list))"
    by code_simp
  ultimately have "sorted_wrt (<) (map (\<lambda>i. sint (li_id i)) se_list_info)" by (simp only:)
  then show ?thesis by (simp only: sorted_wrt_map)
qed

text \<open>\<open>find_list_info\<close> finds exactly the entry of the table whose list type is asked for.\<close>

theorem find_list_info_iff:
  "find_list_info type = Some info \<longleftrightarrow> info \<in> set se_list_info \<and> li_id info = type"
proof -
  have "find_list_info type = Some info \<longleftrightarrow>
      (\<exists>i. 0 \<le> i \<and> i < length se_list_info \<and> se_list_info ! i = info \<and> sint (li_id info) = sint type)"
    unfolding find_list_info_def
    by (rule bsearch_iff [OF se_list_info_sorted]) (auto simp: compare_ids_def)
  then show ?thesis by (auto simp: in_set_conv_nth signed_word_eqI)
qed

subsection \<open>The order of the keys\<close>

text \<open>A comparison that is a total preorder on a set: what the insertion needs.\<close>

definition order_cmp :: "'a set \<Rightarrow> ('a \<Rightarrow> 'a \<Rightarrow> int) \<Rightarrow> bool" where
  "order_cmp A c \<longleftrightarrow> (\<forall>a \<in> A. \<forall>b \<in> A. c a b \<le> 0 \<longleftrightarrow> 0 \<le> c b a) \<and>
     (\<forall>a \<in> A. \<forall>b \<in> A. \<forall>d \<in> A. c a b \<le> 0 \<longrightarrow> c b d \<le> 0 \<longrightarrow> c a d \<le> 0)"

lemma order_cmpD:
  assumes "order_cmp A c"
  shows "a \<in> A \<Longrightarrow> b \<in> A \<Longrightarrow> c a b \<le> 0 \<longleftrightarrow> 0 \<le> c b a"
    and "a \<in> A \<Longrightarrow> b \<in> A \<Longrightarrow> d \<in> A \<Longrightarrow> c a b \<le> 0 \<Longrightarrow> c b d \<le> 0 \<Longrightarrow> c a d \<le> 0"
  using assms unfolding order_cmp_def by blast+

lemma order_cmp_then:
  assumes "order_cmp A c" "order_cmp A d"
  shows "order_cmp A (\<lambda>a b. if c a b \<noteq> 0 then c a b else d a b)"
proof -
  have c: "c a b \<le> 0 \<longleftrightarrow> 0 \<le> c b a" "d a b \<le> 0 \<longleftrightarrow> 0 \<le> d b a" if "a \<in> A" "b \<in> A" for a b
    using assms that unfolding order_cmp_def by blast+
  have t: "c a b \<le> 0 \<Longrightarrow> c b x \<le> 0 \<Longrightarrow> c a x \<le> 0" "d a b \<le> 0 \<Longrightarrow> d b x \<le> 0 \<Longrightarrow> d a x \<le> 0"
    if "a \<in> A" "b \<in> A" "x \<in> A" for a b x
    using assms that unfolding order_cmp_def by blast+
  show ?thesis
    unfolding order_cmp_def
  proof (intro conjI ballI impI)
    fix a b assume "a \<in> A" "b \<in> A"
    then show "(if c a b \<noteq> 0 then c a b else d a b) \<le> 0 \<longleftrightarrow> 0 \<le> (if c b a \<noteq> 0 then c b a else d b a)"
      using c [of a b] c [of b a] by (smt (verit))
  next
    fix a b x assume A: "a \<in> A" "b \<in> A" "x \<in> A"
      and le: "(if c a b \<noteq> 0 then c a b else d a b) \<le> 0" "(if c b x \<noteq> 0 then c b x else d b x) \<le> 0"
    have ab: "c a b \<le> 0" "c b x \<le> 0" using le by (auto split: if_splits)
    then have ax: "c a x \<le> 0" using t A by blast
    show "(if c a x \<noteq> 0 then c a x else d a x) \<le> 0"
    proof (cases "c a x = 0")
      case True
      then have "c x a \<le> 0" using c [of x a] A by simp
      then have "c x b \<le> 0" "c b a \<le> 0" using t A ab by blast+
      then have "0 \<le> c b x" "0 \<le> c a b" using c(1) [of x b] c(1) [of b a] A by simp_all
      with ab have "c b x = 0" "c a b = 0" by simp_all
      with le have "d a b \<le> 0" "d b x \<le> 0" by simp_all
      then have "d a x \<le> 0" using t(2) A by blast
      with True show ?thesis by simp
    qed (use ax in auto)
  qed
qed

lemma order_cmp_flip: "order_cmp A c \<Longrightarrow> order_cmp A (\<lambda>a b. c b a)"
  unfolding order_cmp_def by blast

lemma order_cmp_map: "order_cmp B c \<Longrightarrow> f ` A \<subseteq> B \<Longrightarrow> order_cmp A (\<lambda>a b. c (f a) (f b))"
  unfolding order_cmp_def by blast

lemma order_cmp_sign: "order_cmp UNIV (\<lambda>a b. if f a < (f b :: 'b :: linorder) then -1 else if f b < f a then 1 else 0)"
  unfolding order_cmp_def by auto

lemma order_cmp_binary: "order_cmp UNIV (\<lambda>a b. compare_binary a b n)"
proof (induction n)
  case (Suc n)
  have "(\<lambda>a b. compare_binary a b (Suc n)) =
      (\<lambda>a b. if (if octet a n < octet b n then -1 else if octet b n < octet a n then 1 else 0) \<noteq> (0 :: int)
        then (if octet a n < octet b n then -1 else if octet b n < octet a n then 1 else 0) else compare_binary a b n)"
    by (intro ext) simp
  then show ?case
    using order_cmp_then [OF order_cmp_sign [of "\<lambda>a. octet a n"] Suc.IH] by (simp only:)
qed (simp add: order_cmp_def)

lemma strcmp_le: "strcmp a b \<le> 0 \<longleftrightarrow> a \<le> b" "0 \<le> strcmp a b \<longleftrightarrow> b \<le> a"
  by (induction a b rule: strcmp.induct) auto

lemma strcmp_self [simp]: "strcmp a a = 0"
  by (induction a) auto

lemma order_cmp_strcmp: "order_cmp UNIV strcmp"
  unfolding order_cmp_def by (auto simp: strcmp_le)

text \<open>Numbers are ordered by their differences within a window of \<open>2 ^ 31\<close>.\<close>

lemma order_cmp_window:
  assumes "c = (\<lambda>a b. c_int (a - b)) \<or> c = compare_uint"
  shows "order_cmp {lo..<lo + 2 ^ 31} c"
proof -
  have w: "c_int (a - b) = a - b" if "a \<in> {lo..<lo + 2 ^ 31}" "b \<in> {lo..<lo + 2 ^ 31}" for a b
    using that by (intro c_int_id) (auto simp: in_int_def)
  have s: "c a b \<le> 0 \<longleftrightarrow> a \<le> b" "0 \<le> c a b \<longleftrightarrow> b \<le> a" if "a \<in> {lo..<lo + 2 ^ 31}" "b \<in> {lo..<lo + 2 ^ 31}" for a b
    using assms w [OF that] by (auto simp: compare_uint_def split: if_splits)
  show ?thesis unfolding order_cmp_def using s by (meson order_trans)
qed

text \<open>The objects whose numeric keys lie in windows that start at \<open>lo\<close>.\<close>

definition in_window :: "list_info \<Rightarrow> (string \<Rightarrow> int) \<Rightarrow> object set" where
  "in_window info lo = {x. \<forall>(offset, ktype) \<in> set (li_key info).
     xs_base \<bar>ktype\<bar> \<in> {XS_LONG, XS_INT, XS_SHORT, XS_BYTE, XS_ULONG, XS_UINT, XS_USHORT, XS_UBYTE} \<longrightarrow>
     number_of (x offset) \<in> {lo offset..<lo offset + 2 ^ 31}}"

definition key_type_ok :: "int \<Rightarrow> bool" where
  "key_type_ok t \<longleftrightarrow> xs_base \<bar>t\<bar> \<in> {XS_STRING, XS_ANY_URI, XS_HEX_BINARY, XS_LONG, XS_INT, XS_SHORT, XS_BYTE, XS_ULONG,
     XS_UINT, XS_USHORT, XS_UBYTE}"

lemma order_cmp_field:
  assumes "key_type_ok t"
    "\<And>x. x \<in> A \<Longrightarrow> xs_base \<bar>t\<bar> \<in> {XS_LONG, XS_INT, XS_SHORT, XS_BYTE, XS_ULONG, XS_UINT, XS_USHORT, XS_UBYTE} \<Longrightarrow>
      number_of (x f) \<in> {lo..<lo + 2 ^ 31}"
  shows "order_cmp A (\<lambda>a b. compare_field (xs_base \<bar>t\<bar>) n (a f) (b f))"
proof -
  consider "xs_base \<bar>t\<bar> \<in> {XS_STRING, XS_ANY_URI}" | "xs_base \<bar>t\<bar> = XS_HEX_BINARY"
    | "xs_base \<bar>t\<bar> \<in> {XS_LONG, XS_INT, XS_SHORT, XS_BYTE}" | "xs_base \<bar>t\<bar> \<in> {XS_ULONG, XS_UINT, XS_USHORT, XS_UBYTE}"
    using assms(1) unfolding key_type_ok_def by blast
  then show ?thesis
  proof cases
    case 1
    then show ?thesis
      using order_cmp_map [OF order_cmp_strcmp, of "\<lambda>x. raw_string (x f)" A] by (auto simp: compare_field_def)
  next
    case 2
    then show ?thesis
      using order_cmp_map [OF order_cmp_binary, of "\<lambda>x. octets_of (x f)" A n] by (simp add: compare_field_def xs_defs)
  next
    case 3
    then have "(\<lambda>x. number_of (x f)) ` A \<subseteq> {lo..<lo + 2 ^ 31}" using assms(2) by blast
    with 3 show ?thesis
      using order_cmp_map [OF order_cmp_window [OF disjI1 [OF HOL.refl]], of "\<lambda>x. number_of (x f)" A lo]
      by (auto simp: compare_field_def xs_defs)
  next
    case 4
    then have "(\<lambda>x. number_of (x f)) ` A \<subseteq> {lo..<lo + 2 ^ 31}" using assms(2) by blast
    with 4 show ?thesis
      using order_cmp_map [OF order_cmp_window [OF disjI2 [OF HOL.refl]], of "\<lambda>x. number_of (x f)" A lo]
      by (auto simp: compare_field_def xs_defs)
  qed
qed

lemma order_cmp_key:
  assumes "key_type_ok t"
    "\<And>x. x \<in> A \<Longrightarrow> xs_base \<bar>t\<bar> \<in> {XS_LONG, XS_INT, XS_SHORT, XS_BYTE, XS_ULONG, XS_UINT, XS_USHORT, XS_UBYTE} \<Longrightarrow>
      number_of (x f) \<in> {lo..<lo + 2 ^ 31}"
  shows "order_cmp A (\<lambda>a b. compare_key a b (f, t))"
proof (cases "t < 0")
  case True
  then show ?thesis
    using order_cmp_flip [OF order_cmp_field [OF assms, where n = "nat (xs_length \<bar>t\<bar>)"]]
    by (simp add: compare_key_def Let_def)
next
  case False
  then show ?thesis
    using order_cmp_field [OF assms, where n = "nat (xs_length \<bar>t\<bar>)"] by (simp add: compare_key_def Let_def)
qed

lemma order_cmp_key_list:
  assumes "\<And>f t. (f, t) \<in> set ks \<Longrightarrow> order_cmp A (\<lambda>a b. compare_key a b (f, t))"
  shows "order_cmp A (\<lambda>a b. compare_key_list a b 0 ks)"
  using assms
proof (induction ks)
  case (Cons k ks)
  obtain f t where k: "k = (f, t)" by (cases k)
  have ret: "compare_key_list a b r ks' = compare_key_list a b 0 ks'" if "ks' \<noteq> []" for a b r ks'
    using that by (cases ks') simp_all
  have "order_cmp A (\<lambda>a b. if compare_key a b k \<noteq> 0 then compare_key a b k else compare_key_list a b 0 ks)"
    using Cons k by (intro order_cmp_then) auto
  moreover have "(\<lambda>a b. compare_key_list a b 0 (k # ks)) =
      (\<lambda>a b. if compare_key a b k \<noteq> 0 then compare_key a b k else compare_key_list a b 0 ks)"
    by (intro ext) (simp add: Let_def)
  ultimately show ?case by simp
qed (simp add: order_cmp_def)

lemma se_list_keys_ok: "list_all (\<lambda>i. list_all (\<lambda>(f, t). key_type_ok t) (li_key i) \<and> li_key i \<noteq> [] \<and> length (li_key i) \<le> 3) se_list_info"
  unfolding se_list_info_def list_info_def key_type_ok_def by (simp add: xs_defs xs_type_def xs_base_def)

lemma order_cmp_keys:
  assumes "info \<in> set se_list_info"
  shows "order_cmp (in_window info lo) (\<lambda>a b. compare_keys a b info)"
proof -
  have ok: "list_all (\<lambda>(f, t). key_type_ok t) (li_key info)" "length (li_key info) \<le> 3"
    using assms se_list_keys_ok by (auto simp: list_all_iff)
  have "order_cmp (in_window info lo) (\<lambda>a b. compare_key_list a b 0 (li_key info))"
  proof (rule order_cmp_key_list)
    fix f t assume f: "(f, t) \<in> set (li_key info)"
    then show "order_cmp (in_window info lo) (\<lambda>a b. compare_key a b (f, t))"
      using ok(1) by (intro order_cmp_key [where lo = "lo f"]) (auto simp: list_all_iff in_window_def)
  qed
  with ok(2) show ?thesis by (simp add: compare_keys_def)
qed

interpretation by_keys: c_compare "if info \<in> set se_list_info then in_window info lo else {}" "\<lambda>a b. compare_keys a b info"
  for info lo
proof
  fix a b c
  let ?A = "if info \<in> set se_list_info then in_window info lo else {}"
  have o: "a \<in> ?A \<Longrightarrow> order_cmp ?A (\<lambda>a b. compare_keys a b info)"
    using order_cmp_keys [of info lo] by (auto split: if_splits)
  show "compare_keys b a info \<le> 0" if "a \<in> ?A" "b \<in> ?A" "0 \<le> compare_keys a b info"
    using order_cmpD(1) [OF o [OF that(1)] that(2,1)] that(3) by simp
  show "compare_keys a c info \<le> 0" if "a \<in> ?A" "b \<in> ?A" "c \<in> ?A" "compare_keys a b info \<le> 0" "compare_keys b c info \<le> 0"
    using order_cmpD(2) [OF o [OF that(1)] that(1-3)] that(4,5) by simp
qed

text \<open>C17: an object that is inserted into a sorted list of any list type of the table leaves it
  sorted, with exactly the object added, if the numeric keys lie within a window of \<open>2 ^ 31\<close>.\<close>

theorem insert_se_object_sorted:
  assumes "info \<in> set se_list_info" "sorted_by (\<lambda>a b. compare_keys a b info) xs" "set (x # xs) \<subseteq> in_window info lo"
  shows "sorted_by (\<lambda>a b. compare_keys a b info) (insert_se_object xs x info) \<and>
    mset (insert_se_object xs x info) = add_mset x (mset xs)"
  using by_keys.sorted_insert_by [of x info lo xs] assms by (simp add: insert_se_object_def)

subsection \<open>Witnesses and counterexamples\<close>

definition program_list :: list_info where
  "program_list = list_info 83 273 ''DERProgram'' 81 [(''primacy'', XS_UBYTE), (''mRID'', - (xs_type XS_HEX_BINARY 16))]"

definition device_list :: list_info where
  "device_list = list_info 115 273 ''EndDevice'' 110 [(''sFDI'', XS_ULONG), (''href'', XS_ANY_URI)]"

text \<open>A DER program with a primacy and the first byte of an mRID.\<close>

definition program :: "int \<Rightarrow> u8 \<Rightarrow> object" where
  "program p m = (\<lambda>f. if f = ''primacy'' then Num p else if f = ''mRID'' then Octets [m] else Num 0)"

definition device :: "int \<Rightarrow> object" where
  "device s = (\<lambda>f. if f = ''sFDI'' then Num s else Pointer 0)"

lemma example_lists: "program_list \<in> set se_list_info" "device_list \<in> set se_list_info"
  by (simp_all add: se_list_info_def program_list_def device_list_def)

theorem insert_se_object_sorted_witness:
  "sorted_by (\<lambda>a b. compare_keys a b program_list) (insert_se_object [program 1 9, program 1 2, program 4 7] (program 1 5) program_list)"
proof -
  have k: "compare_keys (program p m) (program q n) program_list =
      (if p \<noteq> q then compare_uint p q else compare_binary [n] [m] 16)" if "p < 256" "q < 256" "0 \<le> p" "0 \<le> q" for p q m n
    using that by (auto simp: compare_keys_def program_list_def list_info_def compare_key_def compare_field_def program_def
        xs_defs xs_type_def xs_base_def xs_length_def Let_def compare_uint_def c_int_id in_int_def)
  have b: "compare_binary [m] [n] 16 = (if m < n then -1 else if n < m then 1 else 0)" for m n
    by (simp add: numeral_eq_Suc octet_def)
  have "sorted_by (\<lambda>a b. compare_keys a b program_list) [program 1 9, program 1 2, program 4 7]"
    by (simp add: sorted_by_def k b compare_uint_def)
  moreover have "set [program 1 5, program 1 9, program 1 2, program 4 7] \<subseteq> in_window program_list (\<lambda>_. 0)"
    by (simp add: in_window_def program_list_def list_info_def program_def xs_defs xs_base_def xs_type_def)
  ultimately show ?thesis
    using insert_se_object_sorted [OF example_lists(1), of "[program 1 9, program 1 2, program 4 7]" "program 1 5" "\<lambda>_. 0"] by simp
qed

text \<open>The difference of two short identifiers is truncated to \<open>int\<close>, so the order of a list of
  devices is not an order: two devices whose identifiers differ by \<open>2 ^ 32\<close> have equal keys, and
  three others come each before the next around a circle.\<close>

theorem device_order_broken:
  "compare_keys (device 4294967396) (device 100) device_list = 0 \<and>
   compare_keys (device 0) (device 2000000000) device_list < 0 \<and>
   compare_keys (device 2000000000) (device 4000000000) device_list < 0 \<and>
   compare_keys (device 4000000000) (device 0) device_list < 0"
  by (simp add: compare_keys_def device_list_def list_info_def compare_key_def compare_field_def device_def xs_defs
      xs_type_def xs_base_def xs_length_def Let_def compare_uint_def c_int_def)

end
