(* ===== verification/Retrieve.thy ===== *)
theory Retrieve
  imports Schedule Se_Schema Se_Object Uri
begin

section \<open>Retrieval of resources (core/retrieve.c, core/resource.c)\<close>

text \<open>
  A stub stands for a resource on a server. Stubs are linked: \<open>deps\<close> are the resources that
  depend on a stub, \<open>reqs\<close> those it has got, and \<open>list\<close> the former ones while it is updated.

  Stubs live in a store that is a partial map, so an access through a pointer to a stub that
  was freed is an error: \<open>None\<close> is such an access, a NULL dereference, a write behind a buffer,
  or a recursion deeper than the number of stubs (see \<open>dep_complete\<close>). The stubs with one name
  form a chain; the resource table maps the name to it. A list of pointers is a HOL list (theory
  \<open>Linked_List\<close> has the cells). A connection is what this module uses of it: the host, whether
  it is secure or closed, and the queue of requests that responses are matched with.

  The dependency function and the completion routines belong to the application: the former is
  an argument \<open>dep\<close> of the operations, calls of the latter are recorded in order in a log.
\<close>

unbundle bit_operations_syntax

subsection \<open>Objects and resources\<close>

text \<open>An object: its fields, its href, and the items of its list field.\<close>

datatype se_data = SeData (data_fields: object) (data_href: "string option") (data_items: "se_data list")

definition number_field :: "se_data \<Rightarrow> string \<Rightarrow> int" where
  "number_field d p = number_of (data_fields d p)"

definition SE_Event :: int where "SE_Event = 119"
definition SE_List :: int where "SE_List = 159"
definition SE_SubscribableList :: int where "SE_SubscribableList = 273"
definition SE_DeviceCapability :: int where "SE_DeviceCapability = 100"

definition se_type_is_a :: "int \<Rightarrow> int \<Rightarrow> bool option" where
  "se_type_is_a type base = type_is_a type base (se_schema (\<lambda>_. []))"

definition is_event_type :: "int \<Rightarrow> bool option" where
  "is_event_type type = se_type_is_a type SE_Event"

definition is_list_type :: "int \<Rightarrow> bool option" where
  "is_list_type type =
     do { s \<leftarrow> se_type_is_a type SE_SubscribableList;
          if s then Some True else se_type_is_a type SE_List }"

record stub =
  sb_name :: string
  sb_data :: "se_data option"
  sb_type :: int
  sb_info :: "list_info option"
  sb_time :: int
  sb_conn :: nat
  sb_status :: int
  sb_poll_next :: int
  sb_poll_rate :: int
  sb_complete :: bool
  sb_flag :: u32
  sb_flags :: u32
  sb_offset :: u32
  sb_all :: u32
  sb_moved :: "nat option"
  sb_list :: "nat list"
  sb_deps :: "nat list"
  sb_reqs :: "nat list"
  sb_completion :: bool

datatype http_method = HTTP_GET | HTTP_PUT | HTTP_POST | HTTP_DELETE | HTTP_HEAD

record request =
  rq_method :: http_method
  rq_uri :: string
  rq_context :: "nat option"

record conn =
  cn_host :: address
  cn_secure :: bool
  cn_closed :: bool
  cn_requests :: "request list"

datatype call = Completion nat | Connect nat address bool

record rstate =
  r_clock :: int
  r_offset :: int
  r_scope :: u32
  r_stubs :: "nat \<rightharpoonup> stub"
  r_next :: nat
  r_table :: "string \<Rightarrow> nat list"
  r_conns :: "nat \<Rightarrow> conn"
  r_open :: "nat list"
  r_next_conn :: nat
  r_queue :: "target event_queue"
  r_calls :: "call list"

definition get_s :: "rstate \<Rightarrow> nat \<Rightarrow> stub option" where
  "get_s st s = r_stubs st s"

definition upd_s :: "nat \<Rightarrow> (stub \<Rightarrow> stub) \<Rightarrow> rstate \<Rightarrow> rstate option" where
  "upd_s s f st = map_option (\<lambda>x. st\<lparr>r_stubs := (r_stubs st)(s \<mapsto> f x)\<rparr>) (r_stubs st s)"

definition stub_event :: "nat \<Rightarrow> event_type \<Rightarrow> int \<Rightarrow> rstate \<Rightarrow> rstate" where
  "stub_event s t time st = st\<lparr>r_queue := insert_event (r_queue st) (TStub s) t time\<rparr>"

text \<open>\<open>new_resource\<close> with the fields that \<open>calloc\<close> clears; the pointer is the next number.\<close>

definition new_resource :: "string \<Rightarrow> se_data option \<Rightarrow> int \<Rightarrow> rstate \<Rightarrow> rstate \<times> nat" where
  "new_resource name data type st =
     (st\<lparr>r_stubs := (r_stubs st)(r_next st \<mapsto>
          \<lparr>sb_name = name, sb_data = data, sb_type = type, sb_info = find_list_info (word_of_int type),
           sb_time = 0, sb_conn = 0, sb_status = 0, sb_poll_next = 0, sb_poll_rate = 0, sb_complete = False,
           sb_flag = 0, sb_flags = 0, sb_offset = 0, sb_all = 0, sb_moved = None, sb_list = [], sb_deps = [],
           sb_reqs = [], sb_completion = False\<rparr>), r_next := Suc (r_next st)\<rparr>, r_next st)"

definition free_resource :: "nat \<Rightarrow> rstate \<Rightarrow> rstate option" where
  "free_resource s st = (if r_stubs st s = None then None else Some (st\<lparr>r_stubs := (r_stubs st)(s := None)\<rparr>))"

definition find_resource :: "rstate \<Rightarrow> string \<Rightarrow> nat list" where
  "find_resource st name = r_table st name"

definition set_chain :: "string \<Rightarrow> nat list \<Rightarrow> rstate \<Rightarrow> rstate" where
  "set_chain name chain st = st\<lparr>r_table := (r_table st)(name := chain)\<rparr>"

definition delete_resource :: "string \<Rightarrow> rstate \<Rightarrow> rstate" where
  "delete_resource name st = set_chain name [] st"

subsection \<open>Requests\<close>

definition upd_conn :: "nat \<Rightarrow> (conn \<Rightarrow> conn) \<Rightarrow> rstate \<Rightarrow> rstate" where
  "upd_conn c f st = st\<lparr>r_conns := (r_conns st)(c := f (r_conns st c))\<rparr>"

definition queue_request :: "nat \<Rightarrow> http_method \<Rightarrow> string \<Rightarrow> rstate \<Rightarrow> rstate" where
  "queue_request c m uri =
     upd_conn c (\<lambda>k. k\<lparr>cn_requests := cn_requests k @ [\<lparr>rq_method = m, rq_uri = uri, rq_context = None\<rparr>]\<rparr>)"

definition set_request_context :: "nat \<Rightarrow> nat \<Rightarrow> rstate \<Rightarrow> rstate" where
  "set_request_context c s =
     upd_conn c (\<lambda>k. if cn_requests k = [] then k
       else k\<lparr>cn_requests := butlast (cn_requests k) @ [(last (cn_requests k))\<lparr>rq_context := Some s\<rparr>]\<rparr>)"

text \<open>The text is written to a buffer of 64 characters, the name itself is not copied.\<close>

definition get_seq :: "nat \<Rightarrow> int \<Rightarrow> int \<Rightarrow> rstate \<Rightarrow> rstate option" where
  "get_seq s offset n st =
     do { x \<leftarrow> get_s st s;
          uri \<leftarrow> (if n \<noteq> 0 then
            let n = (if n > 255 then 255 else n);
                uri = (if offset \<noteq> 0 then sb_name x @ ''?s='' @ show_int offset @ ''&l='' @ show_int n
                       else sb_name x @ ''?l='' @ show_int n)
            in if length uri < 64 then Some uri else None
            else Some (sb_name x));
          Some (set_request_context (sb_conn x) s (queue_request (sb_conn x) HTTP_GET uri st)) }"

definition delete_stub :: "nat \<Rightarrow> rstate \<Rightarrow> rstate option" where
  "delete_stub s st =
     do { x \<leftarrow> get_s st s;
          Some (set_request_context (sb_conn x) s (queue_request (sb_conn x) HTTP_DELETE (sb_name x) st)) }"

subsection \<open>Dependents and requirements\<close>

definition add_dep :: "nat \<Rightarrow> nat \<Rightarrow> rstate \<Rightarrow> rstate option" where
  "add_dep r d st =
     do { st \<leftarrow> upd_s d (\<lambda>y. y\<lparr>sb_deps := insert_unique_id (sb_deps y) r\<rparr>) st;
          x \<leftarrow> get_s st r;
          st \<leftarrow> upd_s d (\<lambda>y. y\<lparr>sb_poll_rate := min (sb_poll_rate y) (sb_poll_rate x)\<rparr>) st;
          upd_s r (\<lambda>x. x\<lparr>sb_complete := False\<rparr>) st }"

definition new_dep :: "nat \<Rightarrow> nat option \<Rightarrow> u32 \<Rightarrow> rstate \<Rightarrow> (rstate \<times> nat option) option" where
  "new_dep r d flag st =
     (case d of
        Some d \<Rightarrow> do { st \<leftarrow> add_dep r d st;
                      st \<leftarrow> upd_s d (\<lambda>y. y\<lparr>sb_flag := flag\<rparr>) st;
                      st \<leftarrow> upd_s r (\<lambda>x. x\<lparr>sb_flags := sb_flags x OR flag\<rparr>) st;
                      Some (st, Some d) }
      | None \<Rightarrow> Some (st, None))"

definition remove_req :: "nat \<Rightarrow> nat \<Rightarrow> rstate \<Rightarrow> rstate option" where
  "remove_req s r st =
     do { st \<leftarrow> upd_s r (\<lambda>x. x\<lparr>sb_deps := remove1 s (sb_deps x)\<rparr>) st;
          x \<leftarrow> get_s st r;
          Some (if sb_deps x = [] then stub_event r RESOURCE_REMOVE 0 st else st) }"

definition remove_reqs :: "nat \<Rightarrow> nat list \<Rightarrow> rstate \<Rightarrow> rstate option" where
  "remove_reqs s reqs st = fold_opt (\<lambda>st r. remove_req s r st) reqs st"

definition remove_deps :: "nat \<Rightarrow> nat list \<Rightarrow> rstate \<Rightarrow> rstate option" where
  "remove_deps s deps st =
     fold_opt (\<lambda>st t. upd_s t (\<lambda>x. if sb_status x < 0 then x\<lparr>sb_list := remove1 s (sb_list x)\<rparr>
                                    else x\<lparr>sb_reqs := remove1 s (sb_reqs x)\<rparr>) st) deps st"

fun find_in_chain :: "rstate \<Rightarrow> nat \<Rightarrow> nat list \<Rightarrow> nat option option" where
  "find_in_chain st conn [] = Some None"
| "find_in_chain st conn (s # ss) =
     do { x \<leftarrow> get_s st s; if sb_conn x = conn then Some (Some s) else find_in_chain st conn ss }"

definition find_stub :: "rstate \<Rightarrow> string \<Rightarrow> nat \<Rightarrow> (nat list \<times> nat option) option" where
  "find_stub st name conn =
     (let head = find_resource st name in map_option (\<lambda>s. (head, s)) (find_in_chain st conn head))"

definition get_stub :: "string \<Rightarrow> int \<Rightarrow> nat \<Rightarrow> rstate \<Rightarrow> (rstate \<times> nat) option" where
  "get_stub name type conn st =
     do { (head, s) \<leftarrow> find_stub st name conn;
          case s of
            Some s \<Rightarrow> Some (st, s)
          | None \<Rightarrow>
              (case new_resource name None type st of
                 (st, s) \<Rightarrow>
                   do { st \<leftarrow> upd_s s (\<lambda>x. x\<lparr>sb_conn := conn, sb_poll_rate := 900\<rparr>) st;
                        Some (case head of h # hs \<Rightarrow> set_chain name (h # s # hs) st
                              | [] \<Rightarrow> set_chain name [s] st, s) }) }"

definition delete_reqs :: "nat \<Rightarrow> rstate \<Rightarrow> rstate option" where
  "delete_reqs s st =
     do { x \<leftarrow> get_s st s; st \<leftarrow> remove_reqs s (sb_reqs x) st;
          x \<leftarrow> get_s st s; st \<leftarrow> remove_reqs s (sb_list x) st;
          upd_s s (\<lambda>x. x\<lparr>sb_reqs := [], sb_list := []\<rparr>) st }"

text \<open>
  When the chain becomes empty the code calls \<open>delete_resource (head)\<close>: the key is not the name
  but the stub itself, whose first field is the pointer to the next stub. It is NULL then, so as
  a string the key is empty.
\<close>

definition remove_stub :: "nat \<Rightarrow> rstate \<Rightarrow> rstate option" where
  "remove_stub s st =
     do { x \<leftarrow> get_s st s;
          let head = find_resource st (sb_name x);
          let t = remove1 s head;
          _ \<leftarrow> fold_opt (\<lambda>_ h. map_option (\<lambda>_. ()) (get_s st h)) (takeWhile (\<lambda>h. h \<noteq> s) head) ();
          st \<leftarrow> (if t \<noteq> [] then map_option (\<lambda>_. set_chain (sb_name x) t st) (get_s st (hd t))
                 else if head \<noteq> [] then Some (delete_resource [] st) else None);
          x \<leftarrow> get_s st s;
          st \<leftarrow> (case sb_moved x of Some m \<Rightarrow> remove_req s m st | None \<Rightarrow> delete_reqs s st);
          x \<leftarrow> get_s st s;
          st \<leftarrow> remove_deps s (sb_deps x) st;
          free_resource s (st\<lparr>r_queue := Event_Queue.remove_event (r_queue st) (TStub s)\<rparr>) }"

text \<open>A stub is inserted before the first one whose object comes after its own.\<close>

fun insert_stub_loop :: "rstate \<Rightarrow> nat \<Rightarrow> list_info \<Rightarrow> nat list \<Rightarrow> nat list option" where
  "insert_stub_loop st s info [] = Some [s]"
| "insert_stub_loop st s info (l # ls) =
     do { x \<leftarrow> get_s st s; r \<leftarrow> get_s st l; data \<leftarrow> sb_data x; rdata \<leftarrow> sb_data r;
          if compare_keys (data_fields data) (data_fields rdata) info < 0 then Some (s # l # ls)
          else map_option ((#) l) (insert_stub_loop st s info ls) }"

definition insert_stub :: "rstate \<Rightarrow> nat list \<Rightarrow> nat \<Rightarrow> list_info \<Rightarrow> nat list option" where
  "insert_stub st list s info = (if s \<in> set list then Some list else insert_stub_loop st s info list)"

definition subtract_ids :: "nat list \<Rightarrow> nat list \<Rightarrow> nat list" where
  "subtract_ids la lb = fold remove1 lb la"

subsection \<open>Completion\<close>

text \<open>
  One dependent \<open>d\<close> of a completed stub \<open>s\<close>; \<open>rec\<close> is the recursive call. The loop of the code
  follows the links of the list of dependents as it is, so an entry that a call has removed is
  not visited, and the removal of the current entry (its cell is freed) is an error.
\<close>

definition dep_step :: "(nat \<Rightarrow> rstate \<Rightarrow> rstate option) \<Rightarrow> nat \<Rightarrow> nat \<Rightarrow> rstate \<Rightarrow> rstate option" where
  "dep_step rec s d st =
     do { x \<leftarrow> get_s st s;
          if d \<notin> set (sb_deps x) then Some st else do {
            y \<leftarrow> get_s st d;
            (st, complete) \<leftarrow> (case sb_info y of
               Some info \<Rightarrow> do { reqs \<leftarrow> insert_stub st (sb_reqs y) s info;
                                 st \<leftarrow> upd_s d (\<lambda>y. y\<lparr>sb_reqs := reqs\<rparr>) st;
                                 Some (st, length reqs = unat (sb_all y)) }
             | None \<Rightarrow> do { st \<leftarrow> upd_s d (\<lambda>y. y\<lparr>sb_reqs := insert_unique_id (sb_reqs y) s,
                                              sb_flags := sb_flags y AND NOT (sb_flag x)\<rparr>) st;
                            Some (st, sb_flags y AND NOT (sb_flag x) = 0) });
            if complete then do {
              y \<leftarrow> get_s st d;
              st \<leftarrow> (if sb_list y \<noteq> [] then do {
                       st \<leftarrow> remove_reqs d (subtract_ids (sb_list y) (sb_reqs y)) st;
                       upd_s d (\<lambda>y. y\<lparr>sb_list := []\<rparr>) st }
                     else Some st);
              st \<leftarrow> rec d st;
              x \<leftarrow> get_s st s;
              if d \<in> set (sb_deps x) then Some st else None }
            else Some st } }"

fun dep_complete_at :: "nat \<Rightarrow> nat \<Rightarrow> rstate \<Rightarrow> rstate option" where
  "dep_complete_at 0 s st = None"
| "dep_complete_at (Suc n) s st =
     do { x \<leftarrow> get_s st s;
          let st = (if sb_completion x \<and> \<not> sb_complete x
                    then st\<lparr>r_calls := r_calls st @ [Completion s]\<rparr> else st);
          st \<leftarrow> upd_s s (\<lambda>x. x\<lparr>sb_complete := True\<rparr>) st;
          fold_opt (\<lambda>st d. dep_step (dep_complete_at n) s d st) (sb_deps x) st }"

text \<open>The depth: no chain of distinct dependents is longer than the number of stubs allocated.\<close>

definition dep_complete :: "nat \<Rightarrow> rstate \<Rightarrow> rstate option" where
  "dep_complete s st = dep_complete_at (Suc (r_next st)) s st"

fun dep_reset_at :: "nat \<Rightarrow> nat \<Rightarrow> rstate \<Rightarrow> rstate option" where
  "dep_reset_at 0 s st = None"
| "dep_reset_at (Suc n) s st =
     do { st \<leftarrow> upd_s s (\<lambda>x. x\<lparr>sb_complete := False\<rparr>) st;
          x \<leftarrow> get_s st s;
          fold_opt (\<lambda>st d. do {
              st \<leftarrow> upd_s d (\<lambda>y. case sb_info y of
                  Some _ \<Rightarrow> y\<lparr>sb_reqs := remove1 s (sb_reqs y)\<rparr>
                | None \<Rightarrow> y\<lparr>sb_flags := sb_flags y OR sb_flag x\<rparr>) st;
              dep_reset_at n d st }) (sb_deps x) st }"

definition dep_reset :: "nat \<Rightarrow> rstate \<Rightarrow> rstate option" where
  "dep_reset s st = dep_reset_at (Suc (r_next st)) s st"

subsection \<open>Getting a resource\<close>

definition update_resource :: "nat \<Rightarrow> rstate \<Rightarrow> rstate option" where
  "update_resource s st =
     do { x \<leftarrow> get_s st s;
          if sb_status x \<ge> 0 then do {
            st \<leftarrow> upd_s s (\<lambda>x. x\<lparr>sb_offset := (if sb_all x \<noteq> 0 then 0 else sb_offset x),
                                sb_list := sb_reqs x, sb_reqs := []\<rparr>) st;
            reset \<leftarrow> (if sb_status x \<noteq> 0 then map_option Not (is_event_type (sb_type x)) else Some False);
            st \<leftarrow> (if reset then dep_reset s st else upd_s s (\<lambda>x. x\<lparr>sb_complete := False\<rparr>) st);
            st \<leftarrow> upd_s s (\<lambda>x. x\<lparr>sb_status := -1\<rparr>) st;
            get_seq s 0 (sint (sb_all x)) st }
          else Some st }"

text \<open>The outer option is a memory error, the inner one the NULL of the code.\<close>

fun find_subordinate :: "rstate \<Rightarrow> int \<Rightarrow> nat list \<Rightarrow> nat option option" where
  "find_subordinate st type [] = Some None"
| "find_subordinate st type (t # ts) =
     do { x \<leftarrow> get_s st t;
          if sb_type x = type then Some (Some (case sb_moved x of Some m \<Rightarrow> m | None \<Rightarrow> t))
          else find_subordinate st type ts }"

definition get_subordinate :: "rstate \<Rightarrow> nat \<Rightarrow> int \<Rightarrow> nat option option" where
  "get_subordinate st s type = do { x \<leftarrow> get_s st s; find_subordinate st type (sb_reqs x) }"

text \<open>\<open>se_connect_uri\<close>: the connection to the host, a new one if there is none.\<close>

definition se_connect :: "address \<Rightarrow> bool \<Rightarrow> rstate \<Rightarrow> rstate \<times> nat" where
  "se_connect addr secure st =
     (case find (\<lambda>c. cn_host (r_conns st c) = addr) (r_open st) of
        Some c \<Rightarrow>
          (if cn_closed (r_conns st c)
           then (upd_conn c (\<lambda>k. k\<lparr>cn_closed := False, cn_secure := secure\<rparr>)
                   (st\<lparr>r_calls := r_calls st @ [Connect c addr secure]\<rparr>), c)
           else (st, c))
      | None \<Rightarrow>
          let c = r_next_conn st in
          (st\<lparr>r_conns := (r_conns st)(c := \<lparr>cn_host = addr, cn_secure = secure, cn_closed = False, cn_requests = []\<rparr>),
              r_open := c # r_open st, r_next_conn := Suc c, r_calls := r_calls st @ [Connect c addr secure]\<rparr>, c))"

definition se_connect_uri :: "address \<Rightarrow> uri \<Rightarrow> rstate \<Rightarrow> rstate \<times> nat" where
  "se_connect_uri host u st = se_connect host (uri_scheme u = Some ''https'') st"

definition conn_uri :: "rstate \<Rightarrow> nat \<Rightarrow> string \<Rightarrow> uri option option" where
  "conn_uri st c uri = http_parse_uri (r_scope st) (Some (cn_secure (r_conns st c))) uri 127"

definition get_resource :: "nat \<Rightarrow> int \<Rightarrow> string \<Rightarrow> int \<Rightarrow> rstate \<Rightarrow> (rstate \<times> nat option) option" where
  "get_resource c type uri n st =
     do { u \<leftarrow> conn_uri st c uri;
          case u of
            None \<Rightarrow> Some (st, None)
          | Some u \<Rightarrow> do {
              let (st, c) = (case uri_host u of Some h \<Rightarrow> se_connect_uri h u st | None \<Rightarrow> (st, c));
              path \<leftarrow> uri_path u;
              (st, s) \<leftarrow> get_stub path type c st;
              x \<leftarrow> get_s st s;
              st \<leftarrow> (if r_clock st - sb_time x > sb_poll_rate x then do {
                       st \<leftarrow> upd_s s (\<lambda>x. x\<lparr>sb_all := word_of_int n\<rparr>) st;
                       update_resource s st }
                     else Some st);
              Some (st, Some s) } }"

definition poll_resource :: "nat \<Rightarrow> rstate \<Rightarrow> rstate option" where
  "poll_resource s st =
     do { x \<leftarrow> get_s st s;
          let now = r_clock st + r_offset st;
          let next = now + sb_poll_rate x;
          event \<leftarrow> is_event_type (sb_type x);
          ended \<leftarrow> (if event then do {
              ev \<leftarrow> sb_data x;
              Some (sb_poll_rate x \<ge> number_field ev ''interval.start'' + number_field ev ''interval.duration'' - now) }
            else Some False);
          if \<not> ended \<and> sb_poll_next x \<le> now then
            map_option (stub_event s RESOURCE_POLL next) (upd_s s (\<lambda>x. x\<lparr>sb_poll_next := next\<rparr>) st)
          else Some st }"

subsection \<open>Processing responses\<close>

type_synonym dep_func = "nat \<Rightarrow> rstate \<Rightarrow> rstate option"

text \<open>Of an event that is there only the fields of its status are replaced.\<close>

definition copy_event_status :: "se_data \<Rightarrow> se_data \<Rightarrow> se_data" where
  "copy_event_status ex ev =
     (case ex of SeData f h l \<Rightarrow>
        SeData (\<lambda>p. if take 12 p = ''EventStatus.'' then data_fields ev p else f p) h l)"

definition update_existing :: "dep_func \<Rightarrow> nat \<Rightarrow> se_data \<Rightarrow> rstate \<Rightarrow> rstate option" where
  "update_existing dep s obj st =
     do { x \<leftarrow> get_s st s;
          data \<leftarrow> (case sb_data x of
              None \<Rightarrow> Some obj
            | Some ex \<Rightarrow> map_option (\<lambda>e. if e then copy_event_status ex obj else obj) (is_event_type (sb_type x)));
          st \<leftarrow> upd_s s (\<lambda>x. x\<lparr>sb_data := Some data\<rparr>) st;
          st \<leftarrow> dep s st;
          x \<leftarrow> get_s st s;
          if sb_flags x = 0 then dep_complete s st else Some st }"

text \<open>Both kinds of list have the fields that are read here.\<close>

definition list_seq :: "nat \<Rightarrow> se_data \<Rightarrow> rstate \<Rightarrow> (rstate \<times> int) option" where
  "list_seq s obj st =
     do { x \<leftarrow> get_s st s;
          let all = word_of_int (number_field obj ''all'');
          let offset = sb_offset x + word_of_int (number_field obj ''results'');
          st \<leftarrow> upd_s s (\<lambda>x. x\<lparr>sb_all := all, sb_offset := offset\<rparr>) st;
          Some (st, sint (all - offset)) }"

definition object_path :: "rstate \<Rightarrow> nat \<Rightarrow> se_data \<Rightarrow> string option option" where
  "object_path st c d =
     (case data_href d of
        None \<Rightarrow> Some None
      | Some uri \<Rightarrow> map_option (\<lambda>u. case u of Some u \<Rightarrow> uri_path u | None \<Rightarrow> None) (conn_uri st c uri))"

definition list_item :: "dep_func \<Rightarrow> nat \<Rightarrow> nat \<Rightarrow> int \<Rightarrow> rstate \<Rightarrow> se_data \<Rightarrow> rstate option" where
  "list_item dep s c type st d =
     do { path \<leftarrow> object_path st c d;
          case path of
            Some path \<Rightarrow> do { (st, t) \<leftarrow> get_stub path type c st;
                            st \<leftarrow> add_dep s t st;
                            update_existing dep t d st }
          | None \<Rightarrow> Some st }"

definition list_object :: "dep_func \<Rightarrow> nat \<Rightarrow> se_data \<Rightarrow> rstate \<Rightarrow> (rstate \<times> int) option" where
  "list_object dep s obj st =
     do { (st, n) \<leftarrow> list_seq s obj st;
          x \<leftarrow> get_s st s; info \<leftarrow> sb_info x;
          st \<leftarrow> upd_s s (\<lambda>x. x\<lparr>sb_data := Some (SeData (data_fields obj) (data_href obj) [])\<rparr>) st;
          st \<leftarrow> dep s st;
          st \<leftarrow> fold_opt (list_item dep s (sb_conn x) (uint (li_type info))) (data_items obj) st;
          x \<leftarrow> get_s st s;
          st \<leftarrow> (if n > 0 then get_seq s (sint (sb_offset x)) n st
                 else if sb_all x = 0 then dep_complete s st else Some st);
          Some (st, n) }"

text \<open>A response, with the request that it answers.\<close>

record response =
  rs_status :: int
  rs_location :: "string option"
  rs_body :: "(se_data \<times> int) option"

text \<open>The path of a request is that of its URI, parsed as the target of a request.\<close>

definition request_path :: "rstate \<Rightarrow> string \<Rightarrow> string option option" where
  "request_path st target =
     (if length target > 255 then Some None
      else map_option (\<lambda>u. case u of Some (u, _) \<Rightarrow> uri_path u | None \<Rightarrow> None)
        (parse_uri (r_scope st) new_uri (if target \<noteq> [] \<and> hd target = CHR ''/'' then 5 else 0) target))"

definition find_target :: "rstate \<Rightarrow> nat \<Rightarrow> string \<Rightarrow> nat option option" where
  "find_target st c path = map_option snd (find_stub st path c)"

text \<open>The stub with the type that \<open>match_request\<close> may have set.\<close>

definition match_request :: "rstate \<Rightarrow> nat \<Rightarrow> request \<Rightarrow> se_data \<Rightarrow> int \<Rightarrow> (rstate \<times> nat option) option" where
  "match_request st c rq data type =
     do { path \<leftarrow> object_path st c data;
          case path of
            None \<Rightarrow> Some (st, None)
          | Some path \<Rightarrow> do {
              s \<leftarrow> rq_context rq;
              x \<leftarrow> get_s st s;
              if sb_name x = path then
                if sb_type x < 0 then map_option (\<lambda>st. (st, Some s)) (upd_s s (\<lambda>x. x\<lparr>sb_type := type\<rparr>) st)
                else if sb_type x \<noteq> type then Some (st, None)
                else Some (st, Some s)
              else Some (st, None) } }"

definition process_get :: "dep_func \<Rightarrow> nat \<Rightarrow> request \<Rightarrow> response \<Rightarrow> rstate \<Rightarrow> rstate option" where
  "process_get dep c rq rs st =
     (case rs_body rs of
        None \<Rightarrow> Some st
      | Some (obj, type) \<Rightarrow> do {
          (st, s) \<leftarrow> match_request st c rq obj type;
          case s of
            None \<Rightarrow> Some st
          | Some s \<Rightarrow> do {
              st \<leftarrow> upd_s s (\<lambda>x. x\<lparr>sb_time := r_clock st\<rparr>) st;
              x \<leftarrow> get_s st s;
              (st, n) \<leftarrow> (if sb_info x \<noteq> None then list_object dep s obj st
                         else map_option (\<lambda>st. (st, 0)) (update_existing dep s obj st));
              if n = 0 then upd_s s (\<lambda>x. x\<lparr>sb_status := rs_status rs\<rparr>) st else Some st } })"

text \<open>The link to the stub that was created is used without a check.\<close>

definition process_post :: "nat \<Rightarrow> string \<Rightarrow> response \<Rightarrow> rstate \<Rightarrow> rstate option" where
  "process_post c path rs st =
     do { s \<leftarrow> find_target st c path;
          case s of
            None \<Rightarrow> Some st
          | Some s \<Rightarrow> do {
              x \<leftarrow> get_s st s;
              case sb_info x of
                None \<Rightarrow> Some st
              | Some info \<Rightarrow> do {
                  location \<leftarrow> rs_location rs;
                  (st, t) \<leftarrow> get_resource c (uint (li_type info)) location 0 st;
                  t \<leftarrow> t;
                  add_dep s t st } } }"

definition process_response :: "dep_func \<Rightarrow> nat \<Rightarrow> request \<Rightarrow> string \<Rightarrow> response \<Rightarrow> rstate \<Rightarrow> rstate option" where
  "process_response dep c rq path rs st =
     (case rq_method rq of
        HTTP_GET \<Rightarrow> process_get dep c rq rs st
      | HTTP_POST \<Rightarrow> process_post c path rs st
      | HTTP_DELETE \<Rightarrow> do { s \<leftarrow> rq_context rq; remove_stub s st }
      | _ \<Rightarrow> Some st)"

definition get_moved :: "nat \<Rightarrow> string option \<Rightarrow> rstate \<Rightarrow> rstate option" where
  "get_moved s location st =
     do { st \<leftarrow> (case location of
              None \<Rightarrow> Some st
            | Some location \<Rightarrow> do {
                x \<leftarrow> get_s st s;
                (st, t) \<leftarrow> get_resource (sb_conn x) (sb_type x) location (sint (sb_all x)) st;
                x \<leftarrow> get_s st s;
                st \<leftarrow> (case (sb_moved x, t) of
                    (Some m, Some t) \<Rightarrow> if m \<noteq> t then remove_req s m st else Some st
                  | _ \<Rightarrow> Some st);
                case t of
                  Some t \<Rightarrow> do { st \<leftarrow> add_dep s t st; upd_s s (\<lambda>x. x\<lparr>sb_moved := Some t\<rparr>) st }
                | None \<Rightarrow> Some st });
          delete_reqs s st }"

definition process_redirect :: "nat \<Rightarrow> string \<Rightarrow> response \<Rightarrow> rstate \<Rightarrow> rstate option" where
  "process_redirect c path rs st =
     do { s \<leftarrow> find_target st c path;
          case s of
            None \<Rightarrow> Some st
          | Some s \<Rightarrow> do { st \<leftarrow> get_moved s (rs_location rs) st;
                         upd_s s (\<lambda>x. x\<lparr>sb_status := rs_status rs\<rparr>) st } }"

text \<open>
  \<open>process_http\<close> for a response to the first request in the queue of the connection. Without a
  request, or if the target of the request is not a URI, \<open>http_receive\<close> closes the connection.
\<close>

definition process_status :: "dep_func \<Rightarrow> nat \<Rightarrow> request \<Rightarrow> string \<Rightarrow> response \<Rightarrow> rstate \<Rightarrow> (rstate \<times> int) option" where
  "process_status dep c rq path rs st =
     (let status = rs_status rs in
      if status = 200 \<or> status = 201 \<or> status = 204 then
        map_option (\<lambda>st. (st, status)) (process_response dep c rq path rs st)
      else if status = 300 \<or> status = 301 then
        map_option (\<lambda>st. (st, 0)) (process_redirect c path rs st)
      else if rq_method rq = HTTP_GET then do {
        s \<leftarrow> find_target st c path;
        case s of
          Some s \<Rightarrow> map_option (\<lambda>st. (stub_event s RETRIEVE_FAIL 0 st, 0)) (upd_s s (\<lambda>x. x\<lparr>sb_status := status\<rparr>) st)
        | None \<Rightarrow> Some (st, 0) }
      else Some (st, 0))"

definition close_conn :: "nat \<Rightarrow> rstate \<Rightarrow> rstate" where
  "close_conn c = upd_conn c (\<lambda>k. k\<lparr>cn_requests := [], cn_closed := True\<rparr>)"

definition process_http :: "dep_func \<Rightarrow> nat \<Rightarrow> response \<Rightarrow> rstate \<Rightarrow> (rstate \<times> int) option" where
  "process_http dep c rs st =
     (case cn_requests (r_conns st c) of
        [] \<Rightarrow> Some (close_conn c st, 0)
      | rq # rqs \<Rightarrow> do {
          let st = upd_conn c (\<lambda>k. k\<lparr>cn_requests := rqs\<rparr>) st;
          path \<leftarrow> request_path st (rq_uri rq);
          case path of
            None \<Rightarrow> Some (close_conn c st, 0)
          | Some path \<Rightarrow> process_status dep c rq path rs st })"

text \<open>The stubs of the requests that are still queued are removed when a connection is lost.\<close>

definition cleanup_http :: "nat \<Rightarrow> rstate \<Rightarrow> rstate option" where
  "cleanup_http c st =
     fold_opt (\<lambda>st rq. if rq_method rq = HTTP_GET then Option.bind (rq_context rq) (\<lambda>s. remove_stub s st) else Some st)
       (cn_requests (r_conns st c)) (close_conn c st)"

end
