(* ===== verification/Discover.thy ===== *)
theory Discover
  imports Dnssd Retrieve
begin

section \<open>Discovery of IEEE 2030.5 servers (core/se_discover.c)\<close>

text \<open>
  The queries that are sent and what a discovered service stands for. The sockets are outside: a query
  is the packet that is sent to the multicast address.
\<close>

definition service_name :: "string list" where
  "service_name = [''bill'', ''dr'', ''derp'', ''file'', ''msg'', ''ppy'', ''rsps'', ''tp'', ''tm'', ''upt'',
     ''edev'', ''mup'', ''sdev'', ''smartenergy'']"

definition se_subquery :: "string \<Rightarrow> nat" where
  "se_subquery name = (let i = string_index name service_name in if i < 14 then 2 ^ i else 0)"

text \<open>The text of the name of server \<open>i\<close>; the last is not a sub type.\<close>

definition server_text :: "nat \<Rightarrow> string" where
  "server_text i =
     (if i < 13 then ''.'' @ service_name ! i @ ''._sub'' else []) @ ''._smartenergy._tcp.site''"

fun discover_loop :: "nat \<Rightarrow> nat \<Rightarrow> nat \<Rightarrow> bool \<Rightarrow> query \<times> dns \<Rightarrow> (query \<times> dns) option" where
  "discover_loop 0 i server qu q = Some q"
| "discover_loop (Suc f) i server qu q =
     (if server = 0 then Some q
      else do { q \<leftarrow> (if odd server then dnssd_question (write_counted (server_text i)) PTR_RECORD qu q else Some q);
                discover_loop f (i + 1) (server div 2) qu q })"

text \<open>After the mask the number has fourteen bits.\<close>

definition se_discover :: "nat \<Rightarrow> bool \<Rightarrow> dns \<Rightarrow> (string \<times> dns) option" where
  "se_discover server qu w =
     do { (q, w) \<leftarrow> discover_loop 14 0 (server mod 2 ^ 14) qu (dnssd_query 1024, w); Some (qy_out q, w) }"

text \<open>\<open>%012lu\<close>: at least twelve digits.\<close>

definition show_nat12 :: "nat \<Rightarrow> string" where
  "show_nat12 n = replicate (12 - length (show_nat n)) (CHR ''0'') @ show_nat n"

definition discover_device :: "nat \<Rightarrow> dns \<Rightarrow> (string \<times> dns) option" where
  "discover_device device_sfdi w =
     do { let name = ''.edev-'' @ show_nat12 device_sfdi @ ''._sub._smartenergy._tcp.site'';
          (q, w) \<leftarrow> (if length name < 64 then dnssd_question (write_counted name) PTR_RECORD True (dnssd_query 256, w) else None);
          Some (qy_out q, w) }"

text \<open>The keys of a TXT record are read through a buffer of 64 bytes.\<close>

definition service_path :: "service \<Rightarrow> string option option" where
  "service_path s = txt_value 64 (sv_txt s) ''path''"

definition service_dcap :: "service \<Rightarrow> string option option" where
  "service_dcap s = txt_value 64 (sv_txt s) ''dcap''"

text \<open>
  The numbers of the types in the schema: customer accounts, demand response, DER programs, files,
  messages, prepayment, response sets, tariff profiles, time, usage points, end devices, mirror usage
  points, the device itself and its capabilities. The length of the first label of a query with a sub
  type is less than 64.
\<close>

definition service_types :: "int list" where
  "service_types = [57, 98, 83, 123, 171, 209, 255, 292, 299, 314, 115, 182, 259, 100]"

definition SE_EndDevice :: int where "SE_EndDevice = 110"

fun has_infix :: "string \<Rightarrow> string \<Rightarrow> bool" where
  "has_infix p [] = (p = [])"
| "has_infix p (c # s) = (take (length p) (c # s) = p \<or> has_infix p s)"

definition service_type :: "service \<Rightarrow> int" where
  "service_type s =
     (let q = sv_query s; n = (case q of [] \<Rightarrow> 0 | c # _ \<Rightarrow> nat (cv c)) in
      if has_infix ''_sub'' q then
        if n < 5 then service_types ! string_index (take n (tl q)) (take 13 service_name) else SE_EndDevice
      else SE_DeviceCapability)"

text \<open>\<open>atol\<close> of the C library, for numbers of type \<open>long\<close>.\<close>

definition atol :: "string \<Rightarrow> int" where
  "atol s =
     (let t = dropWhile (\<lambda>c. cv c = 32 \<or> 9 \<le> cv c \<and> cv c \<le> 13) s;
          neg = (t \<noteq> [] \<and> hd t = CHR ''-'');
          u = (if t \<noteq> [] \<and> (hd t = CHR ''-'' \<or> hd t = CHR ''+'') then tl t else t);
          y = dec_value 0 (takeWhile (\<lambda>c. digit (cv c)) u) in
      max (- (2 ^ 63)) (min (2 ^ 63 - 1) (if neg then - y else y)))"

text \<open>
  The address and whether the connection is secure, as they are given to \<open>se_connect\<close>. A host that is
  NULL is dereferenced.
\<close>

definition service_connect :: "service \<Rightarrow> bool \<Rightarrow> dns \<Rightarrow> (address option \<times> bool) option" where
  "service_connect s secure w =
     do { https \<leftarrow> (if secure then txt_value 32 (sv_txt s) ''https'' else Some None);
          let port = (case https of Some v \<Rightarrow> if v = [] then 443 else c_int (atol v) | None \<Rightarrow> int (sv_port s));
          h \<leftarrow> sv_host s;
          Some (map_option (\<lambda>a. set_port a port) (dh_addr (snd (hd (find_by_name (d_hosts w) h)))), https \<noteq> None) }"

subsection \<open>What a query asks for\<close>

definition server_tail :: "string list" where
  "server_tail = [''_sub'', ''_smartenergy'', ''_tcp'', ''site'']"

definition server_labels :: "nat \<Rightarrow> string list" where
  "server_labels i = (if i < 13 then service_name ! i # server_tail else tl server_tail)"

text \<open>The servers of a set of flags.\<close>

definition chosen :: "nat \<Rightarrow> nat list" where
  "chosen server = filter (\<lambda>i. odd (server div 2 ^ i)) [0..<14]"

lemma service_name_nth:
  "i < 13 \<Longrightarrow> service_name ! i \<in> {''bill'', ''dr'', ''derp'', ''file'', ''msg'', ''ppy'', ''rsps'', ''tp'', ''tm'', ''upt'', ''edev'', ''mup'', ''sdev''}"
proof -
  assume i: "i < 13"
  then have "take 13 service_name ! i \<in> set (take 13 service_name)" by (intro nth_mem) (simp add: service_name_def)
  then have "service_name ! i \<in> set (take 13 service_name)" using i by simp
  also have "set (take 13 service_name) = {''bill'', ''dr'', ''derp'', ''file'', ''msg'', ''ppy'', ''rsps'', ''tp'', ''tm'', ''upt'', ''edev'', ''mup'', ''sdev''}"
    by (simp add: service_name_def)
  finally show ?thesis .
qed

lemma service_name_distinct: "distinct service_name"
  by (simp add: service_name_def)

lemma server_text_labels: "i < 14 \<Longrightarrow> write_counted (server_text i) = wire (server_labels i)"
proof -
  assume i: "i < 14"
  have d: "server_text i = dotted (server_labels i)"
    by (simp add: server_text_def server_labels_def server_tail_def)
  have "list_all (\<lambda>l. l \<noteq> [] \<and> CHR ''.'' \<notin> set l \<and> length l < 256) (server_labels i)"
    using service_name_nth [of i] by (auto simp: server_labels_def server_tail_def)
  moreover have "server_labels i \<noteq> []" by (simp add: server_labels_def server_tail_def)
  ultimately show ?thesis unfolding d by (rule write_counted_dotted)
qed

abbreviation ask :: "bool \<Rightarrow> query \<times> dns \<Rightarrow> string list \<Rightarrow> (query \<times> dns) option" where
  "ask qu \<equiv> \<lambda>s ls. dnssd_question (wire ls) PTR_RECORD qu s"

lemma discover_loop_asks:
  "i + f = 14 \<Longrightarrow> discover_loop f i server qu s =
     fold_opt (ask qu) (map server_labels (filter (\<lambda>j. odd (server div 2 ^ (j - i))) [i..<14])) s"
proof (induction f arbitrary: i server s)
  case (Suc f)
  have u: "[i..<14] = i # [Suc i..<14]" using Suc.prems by (simp add: upt_rec)
  have t: "write_counted (server_text i) = wire (server_labels i)" using Suc.prems by (simp add: server_text_labels)
  have d: "server div 2 div 2 ^ (j - Suc i) = server div 2 ^ (j - i)" if "i < j" for j
    using that by (metis Suc_diff_Suc div_mult2_eq power_Suc)
  have f: "filter (\<lambda>j. odd (server div 2 div 2 ^ (j - Suc i))) [Suc i..<14] = filter (\<lambda>j. odd (server div 2 ^ (j - i))) [Suc i..<14]"
    by (rule filter_cong) (use d in auto)
  have z: "filter (\<lambda>j. odd ((0 :: nat) div 2 ^ (j - i))) js = []" for js by (induction js) auto
  show ?case
  proof (cases "server = 0")
    case True
    then show ?thesis using z by simp
  next
    case False
    have ih: "discover_loop f (Suc i) (server div 2) qu =
        fold_opt (ask qu) (map server_labels (filter (\<lambda>j. odd (server div 2 ^ (j - i))) [Suc i..<14]))"
      using Suc.IH [of "Suc i" "server div 2"] Suc.prems f by (intro ext) simp
    then show ?thesis using False Suc.prems u t by (cases "odd server") simp_all
  qed
qed simp

lemma chosen_mod: "chosen (server mod 2 ^ 14) = chosen server"
  unfolding chosen_def
proof (rule filter_cong)
  fix j :: nat assume "j \<in> set [0..<14]"
  then show "odd (server mod 2 ^ 14 div 2 ^ j) = odd (server div 2 ^ j)"
    by (simp only: bit_iff_odd [symmetric] take_bit_eq_mod [symmetric] bit_take_bit_iff) simp
qed simp

lemma se_discover_asks:
  "se_discover server qu w = map_option (\<lambda>(q, w). (qy_out q, w)) (fold_opt (ask qu) (map server_labels (chosen server)) (dnssd_query 1024, w))"
proof -
  have "discover_loop 14 0 (server mod 2 ^ 14) qu s = fold_opt (ask qu) (map server_labels (chosen server)) s" for s
    using discover_loop_asks [of 0 14 "server mod 2 ^ 14" qu s] chosen_mod [of server] by (simp only: chosen_def diff_zero add_0)
  then show ?thesis
    by (cases "fold_opt (ask qu) (map server_labels (chosen server)) (dnssd_query 1024, w)") (auto simp only: se_discover_def, auto)
qed

text \<open>Names of servers agree: a label that two of them share is one of the common tail.\<close>

lemma suffix_unique: "distinct xs \<Longrightarrow> suffix (l # r) xs \<Longrightarrow> suffix (l # r') xs \<Longrightarrow> r = r'"
proof (induction xs)
  case (Cons x xs)
  have "l \<in> set xs" if "suffix (l # s) xs" for s using that set_mono_suffix by fastforce
  then show ?case using Cons by (auto simp: suffix_Cons)
qed simp

definition sub_set :: "nat set \<Rightarrow> string list set" where
  "sub_set I = suffixes_of server_tail \<union> {service_name ! i # server_tail | i. i \<in> I \<and> i < 13}"

lemma tail_distinct: "distinct server_tail" "list_all is_label server_tail"
  by (simp_all add: server_tail_def is_label_def)

lemma name_not_tail: "i < 13 \<Longrightarrow> service_name ! i \<notin> set server_tail \<and> is_label (service_name ! i)"
  using service_name_nth [of i] by (auto simp: server_tail_def is_label_def)

lemma labels_suffixes: "i < 14 \<Longrightarrow> suffixes_of (server_labels i) \<subseteq> sub_set {i}"
  by (auto simp: suffixes_of_def sub_set_def server_labels_def suffix_Cons server_tail_def)

lemma server_agrees:
  assumes "i < 14" "i \<notin> I" "U \<subseteq> sub_set I"
  shows "agree U (server_labels i)"
proof -
  have d: "distinct (server_labels i)" "list_all is_label (server_labels i)"
    using tail_distinct name_not_tail [of i] by (auto simp: server_labels_def server_tail_def is_label_def)
  have "r = r'" if s: "l # r \<in> U" "suffix (l # r') (server_labels i)" for l r r'
  proof -
    have "l # r' \<in> sub_set {i}" using labels_suffixes [OF assms(1)] s(2) by (auto simp: suffixes_of_def)
    then consider "suffix (l # r') server_tail" | "l = service_name ! i" "i < 13" "r' = server_tail"
      by (auto simp: sub_set_def suffixes_of_def)
    moreover from s(1) assms(3) consider "suffix (l # r) server_tail" | j where "j \<in> I" "l = service_name ! j" "j < 13" "r = server_tail"
      by (auto simp: sub_set_def suffixes_of_def)
    moreover have "l \<in> set server_tail" if "suffix (l # z) server_tail" for z using that set_mono_suffix by fastforce
    moreover have "i = j" if "service_name ! i = service_name ! j" "i < 13" "j < 13" for j
      using that service_name_distinct nth_eq_iff_index_eq [of service_name i j] by (simp add: service_name_def)
    ultimately show ?thesis using suffix_unique [OF tail_distinct(1)] name_not_tail assms(2) by metis
  qed
  then show ?thesis using d by (auto simp: agree_def)
qed

lemma servers_agree: "distinct is \<Longrightarrow> set is \<subseteq> {..<14} \<Longrightarrow> set is \<inter> I = {} \<Longrightarrow> U \<subseteq> sub_set I \<Longrightarrow> agree_all U (map server_labels is)"
proof (induction "is" arbitrary: U I)
  case (Cons i js)
  have i: "i < 14" "i \<notin> I" using Cons.prems by auto
  have "U \<union> suffixes_of (server_labels i) \<subseteq> sub_set (insert i I)"
    using Cons.prems(4) labels_suffixes [OF i(1)] by (auto simp: sub_set_def)
  then have "agree_all (U \<union> suffixes_of (server_labels i)) (map server_labels js)"
    using Cons.prems by (intro Cons.IH) auto
  then show ?case using server_agrees [OF i Cons.prems(4)] by simp
qed simp

text \<open>
  The packet of \<open>se_discover\<close>, when it is built, asks for exactly the servers of its flags, in the order
  of their bits: that is what a reader gets from it.
\<close>
lemma se_discover_reads:
  assumes "se_discover server qu w = Some (pk, v)"
  shows "question_names pk 12 (length (chosen server)) = Some (map (wire \<circ> server_labels) (chosen server)) \<and>
    word_at pk 4 = Some (length (chosen server))"
proof -
  obtain q where q: "fold_opt (ask qu) (map server_labels (chosen server)) (dnssd_query 1024, w) = Some (q, v)" "pk = qy_out q"
    using assms by (auto simp: se_discover_asks)
  have "agree_all {} (map server_labels (chosen server))"
    by (rule servers_agree [of _ "{}"]) (auto simp: chosen_def)
  moreover have "list_all (\<lambda>ls. length (wire ls) \<le> 254) (map server_labels (chosen server))"
    using service_name_nth by (fastforce simp: list_all_iff chosen_def server_labels_def server_tail_def)
  moreover have "length (chosen server) \<le> 14"
    using length_filter_le [of _ "[0..<14]"] by (simp add: chosen_def)
  ultimately show ?thesis using query_round_trip [OF q(1)] q(2) by simp
qed

subsection \<open>How many servers a query can ask for\<close>

lemma label_at_cong:
  assumes "label_at pk p l" "12 \<le> p" "length pk = length pk'" "\<And>j. 12 \<le> j \<Longrightarrow> pk ! j = pk' ! j"
  shows "label_at pk' p l"
proof -
  have "drop p pk = drop p pk'" using assms(2-4) by (intro nth_equalityI) simp_all
  then show ?thesis using assms(1,3) by (simp add: label_at_def)
qed

lemma question_known:
  assumes "query_ok U lss q" "agree U ls" "qy_cap q \<le> 0x4000" "list_all2 (label_at (qy_out q)) (qy_names q) L"
    and "length (qy_out q) + length (wire ls) + 6 \<le> qy_cap q"
  shows "case known_labels L ls of
      None \<Rightarrow> dnssd_question (wire ls) type u (q, w) = None
    | Some L' \<Rightarrow> \<exists>q' w'. dnssd_question (wire ls) type u (q, w) = Some (q', w') \<and> list_all2 (label_at (qy_out q')) (qy_names q') L' \<and>
        length (qy_out q') \<le> length (qy_out q) + length (wire ls) + 6"
proof -
  have l: "list_all is_label ls" using assms(2) by (simp add: agree_def)
  note e = encode_name_known [OF l assms(4)]
  show ?thesis
  proof (cases "known_labels L ls")
    case None
    then show ?thesis using e by (simp add: dnssd_question_def)
  next
    case (Some L')
    then obtain r names' where r: "encode_name (qy_out q) (wire ls) (qy_names q) = Some (qy_out q @ r, names')"
      "list_all2 (label_at (qy_out q @ r)) names' L'" "length r \<le> length (wire ls) + 2" using e by auto
    let ?t = "pack16_chars type @ pack16_chars ((if u then 0x8000 else 0) + 1)"
    let ?c = "pack16_chars (qy_count q + 1)"
    let ?p = "(qy_out q @ r) @ ?t"
    let ?q = "q\<lparr>qy_out := ?p[4 := ?c ! 0, 5 := ?c ! 1], qy_names := names', qy_count := qy_count q + 1\<rparr>"
    have d: "dnssd_question (wire ls) type u (q, w) = Some (?q, get_question (wire ls) w)"
      using r assms(5) by (simp add: dnssd_question_def Let_def)
    then have "query_ok (U \<union> suffixes_of ls) (lss @ [ls]) ?q" using dnssd_question_ok [OF d assms(1-3)] by simp
    then have lo: "\<forall>p \<in> set names'. 12 \<le> p" by (auto simp: query_ok_def written_def)
    have "list_all2 (label_at (qy_out ?q)) names' L'"
    proof (rule list_all2_all_nthI)
      show len: "length names' = length L'" using r(2) by (rule list_all2_lengthD)
      fix n assume n: "n < length names'"
      have "label_at ((qy_out q @ r) @ ?t) (names' ! n) (L' ! n)" using list_all2_nthD [OF r(2) n] by (rule label_at_mono)
      moreover have "12 \<le> names' ! n" using lo n by simp
      ultimately show "label_at (qy_out ?q) (names' ! n) (L' ! n)" by (rule label_at_cong) simp_all
    qed
    then show ?thesis using d Some r(3) by (intro option.split [THEN iffD2]) simp
  qed
qed

lemma ask_known:
  assumes "query_ok U old q" "agree_all U lss" "qy_cap q \<le> 0x4000" "list_all2 (label_at (qy_out q)) (qy_names q) L"
    and "length (qy_out q) + sum_list (map (\<lambda>ls. length (wire ls) + 6) lss) \<le> qy_cap q"
  shows "fold_opt (ask qu) lss (q, w) = None \<longleftrightarrow> fold_opt known_labels lss L = None"
  using assms
proof (induction lss arbitrary: U old q L w)
  case (Cons ls lss)
  have a: "agree U ls" "agree_all (U \<union> suffixes_of ls) lss" using Cons.prems(2) by simp_all
  have "length (qy_out q) + length (wire ls) + 6 \<le> qy_cap q" using Cons.prems(5) by simp
  note k = question_known [OF Cons.prems(1) a(1) Cons.prems(3,4) this, of PTR_RECORD qu w]
  show ?case
  proof (cases "known_labels L ls")
    case None
    then show ?thesis using k by simp
  next
    case (Some L')
    then obtain q' w' where q': "dnssd_question (wire ls) PTR_RECORD qu (q, w) = Some (q', w')"
      "list_all2 (label_at (qy_out q')) (qy_names q') L'" "length (qy_out q') \<le> length (qy_out q) + length (wire ls) + 6"
      using k by auto
    have ok: "query_ok (U \<union> suffixes_of ls) (old @ [ls]) q' \<and> qy_cap q' = qy_cap q"
      by (rule dnssd_question_ok [OF q'(1) Cons.prems(1) a(1) Cons.prems(3)])
    have "fold_opt (ask qu) lss (q', w') = None \<longleftrightarrow> fold_opt known_labels lss L' = None"
      by (rule Cons.IH [OF _ a(2) _ q'(2)]) (use ok q'(3) Cons.prems(3,5) in auto)
    then show ?thesis using q'(1) Some by simp
  qed
qed simp

lemma known_subtypes:
  "distinct js \<Longrightarrow> set js \<subseteq> {..<13} \<Longrightarrow> set server_tail \<subseteq> set L \<Longrightarrow> set (map ((!) service_name) js) \<inter> set L = {} \<Longrightarrow>
   fold_opt known_labels (map server_labels js) L = (if js = [] \<or> length L + length js \<le> 14 then Some (L @ map ((!) service_name) js) else None)"
proof (induction js arbitrary: L)
  case (Cons j js)
  have n: "service_name ! j \<notin> set L" "j < 13" using Cons.prems by auto
  have t: "known_labels (L @ [service_name ! j]) server_tail = Some (L @ [service_name ! j])"
    using Cons.prems(3) by (simp add: server_tail_def)
  have d: "service_name ! j \<notin> (!) service_name ` set js"
  proof
    assume "service_name ! j \<in> (!) service_name ` set js"
    then obtain i where "i \<in> set js" "service_name ! j = service_name ! i" by auto
    moreover from this(1) have "i < 13" using Cons.prems(2) by auto
    ultimately have "j = i" using n(2) service_name_distinct nth_eq_iff_index_eq [of service_name j i] by (simp add: service_name_def)
    then show False using \<open>i \<in> set js\<close> Cons.prems(1) by simp
  qed
  show ?case
  proof (cases "length L < 14")
    case True
    then have "known_labels L (server_labels j) = Some (L @ [service_name ! j])" using n t by (simp add: server_labels_def MAX_NAMES_def)
    moreover have "fold_opt known_labels (map server_labels js) (L @ [service_name ! j]) =
        (if js = [] \<or> length (L @ [service_name ! j]) + length js \<le> 14 then Some ((L @ [service_name ! j]) @ map ((!) service_name) js) else None)"
      by (rule Cons.IH) (use Cons.prems d in auto)
    ultimately show ?thesis using True by auto
  next
    case False
    then have "known_labels L (server_labels j) = None" using n by (simp add: server_labels_def MAX_NAMES_def)
    then show ?thesis using False by simp
  qed
qed simp

lemma known_servers:
  assumes "distinct js" "set js \<subseteq> {..<13}" "xs = [] \<or> xs = [13]"
  shows "fold_opt known_labels (map server_labels (js @ xs)) [] = None \<longleftrightarrow> 10 < length js"
proof (cases js)
  case Nil
  then show ?thesis using assms(3) by (auto simp: server_labels_def server_tail_def MAX_NAMES_def)
next
  case (Cons j ks)
  let ?K = "service_name ! j # server_tail"
  have j: "j < 13" using assms(2) Cons by simp
  have f: "fold_opt known_labels (map server_labels [j]) [] = Some ?K"
    using j name_not_tail [OF j] by (auto simp: server_labels_def server_tail_def MAX_NAMES_def)
  have "set (map ((!) service_name) ks) \<inter> set ?K = {}"
  proof -
    have "service_name ! i \<noteq> service_name ! j" "service_name ! i \<notin> set server_tail" if "i \<in> set ks" for i
    proof -
      have "i < 13" "i \<noteq> j" using that assms Cons by auto
      then show "service_name ! i \<noteq> service_name ! j" "service_name ! i \<notin> set server_tail"
        using j name_not_tail [of i] service_name_distinct nth_eq_iff_index_eq [of service_name i j] by (simp_all add: service_name_def)
    qed
    then show ?thesis by fastforce
  qed
  then have k: "fold_opt known_labels (map server_labels ks) ?K =
      (if ks = [] \<or> length ?K + length ks \<le> 14 then Some (?K @ map ((!) service_name) ks) else None)"
    using assms(1,2) Cons by (intro known_subtypes) auto
  have l: "length ?K = 5" by (simp add: server_tail_def)
  have x: "fold_opt known_labels (map server_labels xs) L \<noteq> None" if "set server_tail \<subseteq> set L" for L
    using assms(3) that by (auto simp: server_labels_def server_tail_def)
  have "fold_opt known_labels (map server_labels (js @ xs)) [] =
      Option.bind (fold_opt known_labels (map server_labels ks) ?K) (fold_opt known_labels (map server_labels xs))"
    using f Cons fold_opt_append [of known_labels "map server_labels [j]" "map server_labels (ks @ xs)" "[]"]
      fold_opt_append [of known_labels "map server_labels ks" "map server_labels xs"] by simp
  then have e: "fold_opt known_labels (map server_labels (js @ xs)) [] =
      (if ks = [] \<or> length ?K + length ks \<le> 14 then fold_opt known_labels (map server_labels xs) (?K @ map ((!) service_name) ks) else None)"
    using k by simp
  have "fold_opt known_labels (map server_labels xs) (?K @ map ((!) service_name) ks) \<noteq> None" by (rule x) auto
  then have "fold_opt known_labels (map server_labels (js @ xs)) [] = None \<longleftrightarrow> \<not> (ks = [] \<or> length ?K + length ks \<le> 14)"
    unfolding e by (cases ks) (simp_all split: if_split)
  also have "\<dots> \<longleftrightarrow> 10 < length js" unfolding l using Cons by (cases ks) auto
  finally show ?thesis .
qed

text \<open>
  The thirteen sub types do not fit: behind the tenth the search for a label reads behind the table of
  names, and this is the only way to fail.
\<close>
theorem se_discover_limit:
  "se_discover server qu w = None \<longleftrightarrow> 10 < length (filter (\<lambda>i. i < 13) (chosen server))"
proof -
  let ?js = "filter (\<lambda>i. i < 13) (chosen server)"
  have "[0..<14] = [0..<13] @ [13 :: nat]" by (simp add: upt_rec)
  then have c: "chosen server = ?js @ (if odd (server div 2 ^ 13) then [13] else [])"
    by (auto simp: chosen_def intro: filter_cong)
  have w: "length (wire (server_labels i)) \<le> 33" if "i < 14" for i
    using that service_name_nth [of i] by (auto simp: server_labels_def server_tail_def)
  have "sum_list (map (\<lambda>ls. length (wire ls) + 6) (map server_labels (chosen server))) \<le> length (chosen server) * 39"
  proof -
    have "\<forall>i \<in> set is. i < 14 \<Longrightarrow> sum_list (map (\<lambda>ls. length (wire ls) + 6) (map server_labels is)) \<le> length is * 39" for "is"
      by (induction "is") (use w in fastforce)+
    then show ?thesis by (simp add: chosen_def)
  qed
  moreover have "length (chosen server) \<le> 14" using length_filter_le [of _ "[0..<14]"] by (simp add: chosen_def)
  ultimately have s: "sum_list (map (\<lambda>ls. length (wire ls) + 6) (map server_labels (chosen server))) \<le> 546" by simp
  have "agree_all {} (map server_labels (chosen server))"
    by (rule servers_agree [of _ "{}"]) (auto simp: chosen_def)
  moreover have "query_ok {} [] (dnssd_query 1024)" by (simp add: query_ok_def dnssd_query_def word_at_some chr_def)
  ultimately have "fold_opt (ask qu) (map server_labels (chosen server)) (dnssd_query 1024, w) = None \<longleftrightarrow>
      fold_opt known_labels (map server_labels (chosen server)) [] = None"
    using s by (intro ask_known) (auto simp: dnssd_query_def)
  also have "\<dots> \<longleftrightarrow> 10 < length ?js"
    by (subst c, rule known_servers) (auto simp: chosen_def)
  finally show ?thesis by (simp add: se_discover_asks)
qed

text \<open>
  The type of a service that answers the query of a server is that of the list of the server, and every
  position of the table that is read is in it.
\<close>

lemma service_types_bound: "string_index s (take 13 service_name) < length service_types"
  using string_index_le [of s "take 13 service_name"] by (simp add: service_types_def service_name_def)

text \<open>C34: The query for a set of servers is built exactly if at most ten of them have sub types (with more the
  code reads behind its table of 14 names); then the packet has one question for each server, in the order of
  the bits, with the name of its sub type, and a reader of the packet gets these names.\<close>
theorem se_discover_names:
  "case se_discover server qu w of
     None \<Rightarrow> 10 < length (filter (\<lambda>i. i < 13) (chosen server))
   | Some (pk, v) \<Rightarrow> length (filter (\<lambda>i. i < 13) (chosen server)) \<le> 10 \<and> word_at pk 4 = Some (length (chosen server)) \<and>
       question_names pk 12 (length (chosen server)) = Some (map (wire \<circ> server_labels) (chosen server))"
  using se_discover_limit [of server qu w] se_discover_reads [of server qu w] by (auto split: option.split)

theorem se_discover_names_witness:
  "\<exists>pk v. se_discover 4 True example_dns = Some (pk, v) \<and>
     question_names pk 12 1 = Some [wire [''derp'', ''_sub'', ''_smartenergy'', ''_tcp'', ''site'']]"
proof -
  have c: "chosen 4 = [2]" by (simp add: chosen_def upt_rec)
  then obtain pk v where d: "se_discover 4 True example_dns = Some (pk, v)"
    using se_discover_limit [of 4 True example_dns] by fastforce
  have "server_labels 2 = [''derp'', ''_sub'', ''_smartenergy'', ''_tcp'', ''site'']"
    by (simp add: server_labels_def service_name_def server_tail_def)
  then show ?thesis using se_discover_names [of 4 True example_dns] d c by simp
qed

end
