(* ===== verification/Platform.thy ===== *)
theory Platform
  imports C_Util Address Se_Types
begin

section \<open>Lines of a file, time zones and interfaces (core/file.c, linux/time.c, linux/interface.c, mdns.c)\<close>

text \<open>
  What the platform layer computes on its own. A file is its contents up to the first NUL, the interfaces are the list that
  \<open>getifaddrs\<close> gives, the day of the year of a time in the local time zone is an argument.
\<close>

subsection \<open>Lines\<close>

abbreviation (input) nl :: char where "nl \<equiv> CHR 0x0A"
abbreviation (input) cr :: char where "cr \<equiv> CHR 0x0D"

text \<open>
  The static pointer \<open>line\<close> is the text from it on with the character before it, \<open>None\<close> at the start of the
  buffer. The line that is returned has its end overwritten. A carriage return before the pointer is
  overwritten instead of the end of an empty line; reading before the buffer is the outer \<open>None\<close>.
\<close>

definition break_line :: "char option \<Rightarrow> string \<Rightarrow> (string option \<times> char option \<times> string) option" where
  "break_line prev line =
     (let l = takeWhile (\<lambda>c. c \<noteq> nl) line; rest = drop (Suc (length l)) line in
      if l = line then Some (if line = [] then (None, prev, []) else (Some line, Some (last line), []))
      else if l = [] then map_option (\<lambda>c. if c = cr then (Some line, Some nl, rest) else (Some [], Some CHR 0x00, rest)) prev
      else if last l = cr then Some (Some (butlast l), Some nl, rest)
      else Some (Some l, Some CHR 0x00, rest))"

definition empty_line :: "string \<Rightarrow> bool" where
  "empty_line s \<longleftrightarrow> list_all (\<lambda>c. c = CHR '' '' \<or> c = CHR 0x09) s"

lemma break_line_shorter: "break_line prev line = Some (Some l, p, rest) \<Longrightarrow> length rest < length line"
  by (auto simp: break_line_def Let_def split: if_splits intro!: diff_less length_pos_if_in_set)

text \<open>The calls of \<open>func\<close>.\<close>

function process_lines :: "nat \<Rightarrow> char option \<Rightarrow> string \<Rightarrow> (nat \<times> string) list option" where
  "process_lines n prev line =
     (case break_line prev line of
        None \<Rightarrow> None
      | Some (None, _) \<Rightarrow> Some []
      | Some (Some l, p, rest) \<Rightarrow>
          map_option (\<lambda>xs. if empty_line l then xs else (n, l) # xs) (process_lines (Suc n) p rest))"
  by pat_completeness auto
termination
  by (relation "measure (\<lambda>(n, p, line). length line)") (auto dest: break_line_shorter)

declare process_lines.simps [simp del]

definition process_buffer :: "string \<Rightarrow> (nat \<times> string) list option" where
  "process_buffer buffer = process_lines 0 None buffer"

text \<open>A text as lines, each with whether it ends with a carriage return and a line feed.\<close>

fun line_text :: "string \<times> bool \<Rightarrow> string" where
  "line_text (l, crlf) = l @ (if crlf then [cr, nl] else [nl])"

fun line_ok :: "string \<times> bool \<Rightarrow> bool" where
  "line_ok (l, crlf) = (nl \<notin> set l \<and> (crlf \<or> l = [] \<or> last l \<noteq> cr))"

lemma break_line_text:
  assumes "line_ok (l, crlf)" "prev \<noteq> Some cr" "prev \<noteq> None \<or> l \<noteq> [] \<or> crlf"
  shows "\<exists>c. c \<noteq> cr \<and> break_line prev (line_text (l, crlf) @ rest) = Some (Some l, Some c, rest)"
proof -
  have n: "nl \<notin> set l" using assms(1) by simp
  have t: "takeWhile (\<lambda>c. c \<noteq> nl) (line_text (l, crlf) @ rest) = (if crlf then l @ [cr] else l)"
    using n by (auto simp: takeWhile_append takeWhile_eq_all_conv)
  show ?thesis
  proof (cases crlf)
    case True
    then show ?thesis using t by (auto simp: break_line_def Let_def)
  next
    case False
    then show ?thesis using t assms by (cases l; cases prev) (auto simp: break_line_def Let_def)
  qed
qed

lemma process_lines_text:
  assumes "list_all line_ok ls" "nl \<notin> set tail" "prev \<noteq> Some cr"
    "prev \<noteq> None \<or> (case ls of [] \<Rightarrow> True | (l, crlf) # _ \<Rightarrow> l \<noteq> [] \<or> crlf)"
  shows "process_lines n prev (concat (map line_text ls) @ tail) =
    Some (filter (\<lambda>(n, l). \<not> empty_line l) (enumerate n (map fst ls @ (if tail = [] then [] else [tail]))))"
  using assms
proof (induction ls arbitrary: n prev)
  case Nil
  have e: "takeWhile (\<lambda>c. c \<noteq> nl) tail = tail" using Nil.prems(2) by (auto simp: takeWhile_eq_all_conv)
  show ?case
  proof (cases "tail = []")
    case True
    then show ?thesis by (simp add: process_lines.simps break_line_def)
  next
    case False
    then show ?thesis using e
      by (simp add: process_lines.simps [of n] process_lines.simps [of _ _ "[]"] break_line_def)
  qed
next
  case (Cons x ls)
  obtain l crlf where x: "x = (l, crlf)" by (cases x)
  obtain c where c: "c \<noteq> cr" "break_line prev (line_text (l, crlf) @ concat (map line_text ls) @ tail) =
      Some (Some l, Some c, concat (map line_text ls) @ tail)"
    using break_line_text [of l crlf prev "concat (map line_text ls) @ tail"] Cons.prems x by auto
  have IH: "process_lines (Suc n) (Some c) (concat (map line_text ls) @ tail) =
    Some (filter (\<lambda>(n, l). \<not> empty_line l) (enumerate (Suc n) (map fst ls @ (if tail = [] then [] else [tail]))))"
    using Cons.IH [of "Some c" "Suc n"] Cons.prems c(1) by simp
  show ?case
    using c(2) IH x by (subst process_lines.simps) (simp del: line_text.simps)
qed

text \<open>
  The lines of a file are given to the function with their numbers, whether they end with a line feed or
  with a carriage return before it and whether the last one has an end; lines of blanks are
  counted but left out.
\<close>
theorem process_buffer_lines:
  assumes "list_all line_ok ls" "nl \<notin> set tail" "case ls of [] \<Rightarrow> True | (l, crlf) # _ \<Rightarrow> l \<noteq> [] \<or> crlf"
  shows "process_buffer (concat (map line_text ls) @ tail) =
    Some (filter (\<lambda>(n, l). \<not> empty_line l) (enumerate 0 (map fst ls @ (if tail = [] then [] else [tail]))))"
  unfolding process_buffer_def using assms by (intro process_lines_text) simp_all

theorem process_buffer_lines_witness:
  "process_buffer (concat (map line_text [(''a'', True), ('' '', False), ([], False), (''bc'', False)]) @ ''d'') =
   Some [(0, ''a''), (3, ''bc''), (4, ''d'')]"
  using process_buffer_lines [of "[(''a'', True), ('' '', False), ([], False), (''bc'', False)]" "''d''"]
  by (simp add: empty_line_def)

text \<open>A file that begins with an empty line: the character before the buffer is read.\<close>

lemma process_buffer_before: "process_buffer (nl # text) = None"
  by (simp add: process_buffer_def process_lines.simps break_line_def)

subsection \<open>Time zones\<close>

text \<open>C division, which rounds to zero.\<close>

definition hours :: "int \<Rightarrow> int" where
  "hours x = sgn x * (\<bar>x\<bar> div 3600)"

definition set_timezone :: "(int \<Rightarrow> nat) \<Rightarrow> int \<Rightarrow> int \<Rightarrow> int \<Rightarrow> int \<Rightarrow> string" where
  "set_timezone tm_yday tz_offset dst_offset dst_start dst_end =
     (let tz_offset = - hours tz_offset;
          dst_offset = tz_offset - hours dst_offset in
      ''UTC'' @ show_int tz_offset @ ''UTC'' @ show_int dst_offset @ '','' @ show_nat (tm_yday dst_start) @ '','' @ show_nat (tm_yday dst_end))"

lemma length_show_nat: "n < 10 ^ k \<Longrightarrow> 0 < k \<Longrightarrow> length (show_nat n) \<le> k"
proof (induction k arbitrary: n)
  case (Suc k)
  show ?case
  proof (cases "n < 10")
    case True
    then show ?thesis by (simp add: show_nat.simps [of n])
  next
    case False
    then have k: "0 < k" using Suc.prems(1) by (cases k) auto
    have "n div 10 < 10 ^ k" using Suc.prems(1) by (simp add: less_mult_imp_div_less mult.commute)
    then show ?thesis using Suc.IH [of "n div 10"] k False by (simp add: show_nat.simps [of n])
  qed
qed simp

lemma length_show_int: "\<bar>x\<bar> < 10 ^ k \<Longrightarrow> 0 < k \<Longrightarrow> length (show_int x) \<le> Suc k"
proof -
  assume a: "\<bar>x\<bar> < 10 ^ k" "0 < k"
  have "nat \<bar>x\<bar> < 10 ^ k" using a(1) by (metis abs_ge_zero nat_less_iff of_nat_numeral of_nat_power)
  then have "length (show_nat (nat \<bar>x\<bar>)) \<le> k" using a(2) by (rule length_show_nat)
  then show ?thesis by (auto simp: show_int_def abs_if split: if_splits)
qed

lemma abs_hours: "in_int x \<Longrightarrow> \<bar>hours x\<bar> \<le> 596523"
proof -
  assume "in_int x"
  then have "\<bar>x\<bar> \<le> 2147483648" by (auto simp: in_int_def)
  then have "\<bar>x\<bar> div 3600 \<le> 596523" using zdiv_mono1 [of "\<bar>x\<bar>" 2147483648 3600] by simp
  moreover have "\<bar>hours x\<bar> \<le> \<bar>x\<bar> div 3600"
    by (simp add: hours_def abs_mult sgn_if)
  ultimately show ?thesis by linarith
qed

text \<open>
  The text of a time zone fits with its terminator in the buffer of 64 bytes, whatever the offsets are.
\<close>
theorem set_timezone_fits:
  assumes "in_int tz" "in_int dst" "\<And>t. tm_yday t < 366"
  shows "length (set_timezone tm_yday tz dst s e) < 64"
proof -
  have y: "length (show_nat (tm_yday t)) \<le> 3" for t
    using length_show_nat [of "tm_yday t" 3] assms(3) [of t] by simp
  have "length (show_int (- hours tz)) \<le> 8" using length_show_int [of "- hours tz" 7] abs_hours [OF assms(1)] by simp
  moreover have "length (show_int (- hours tz - hours dst)) \<le> 8"
    using length_show_int [of "- hours tz - hours dst" 7] abs_hours [OF assms(1)] abs_hours [OF assms(2)] by simp
  ultimately show ?thesis using y [of s] y [of e] by (simp add: set_timezone_def Let_def)
qed

theorem set_timezone_fits_witness: "length (set_timezone (\<lambda>t. 69) (- 28800) 3600 0 0) < 64"
  using set_timezone_fits [of "- 28800" 3600 "\<lambda>t. 69" 0 0] by (simp add: in_int_def)

text \<open>A time zone that is not a whole number of hours from UTC is taken for another one.\<close>

lemma set_timezone_half_hour: "set_timezone y 19800 0 s e = set_timezone y 18000 0 s e"
  by (simp add: set_timezone_def hours_def)

subsection \<open>Interfaces\<close>

text \<open>
  An entry has the name of the interface and its address, \<open>None\<close> for one of another family. The host is
  \<open>None\<close> until it is set, so that it is set when \<open>found\<close> is.
\<close>

definition IPV4 :: nat where "IPV4 = 1"
definition LINK_LOCAL :: nat where "LINK_LOCAL = 2"
definition SITE_LOCAL :: nat where "SITE_LOCAL = 4"

definition type_has :: "nat \<Rightarrow> nat \<Rightarrow> bool" where
  "type_has type f \<longleftrightarrow> (type AND f) \<noteq> 0"

definition address_family :: "nat \<Rightarrow> address \<Rightarrow> bool" where
  "address_family type a = (case address_ip a of ADDR_IPv4 _ \<Rightarrow> type_has type IPV4 | ADDR_IPv6 _ _ \<Rightarrow> \<not> type_has type IPV4)"

definition wanted_address :: "nat \<Rightarrow> address \<Rightarrow> bool" where
  "wanted_address type a =
     (case address_ip a of
        ADDR_IPv4 _ \<Rightarrow> True
      | ADDR_IPv6 addr _ \<Rightarrow>
          let prefix = (push_bit 8 (ucast (addr ! 0)) OR ucast (addr ! 1) :: u32) AND 0xffc0 in
          prefix = 0xfe80 \<and> type_has type LINK_LOCAL \<or> prefix = 0xfd00 \<and> type_has type SITE_LOCAL)"

fun interface_loop :: "string option \<Rightarrow> nat \<Rightarrow> address option \<Rightarrow> (string \<times> address option) list \<Rightarrow> address option" where
  "interface_loop name type host [] = host"
| "interface_loop name type host ((n, None) # l) = interface_loop name type host l"
| "interface_loop name type host ((n, Some a) # l) =
     (if address_family type a \<and> name = Some n then
        if wanted_address type a then Some a else interface_loop name type (Some a) l
      else interface_loop name type host l)"

definition interface_address :: "string option \<Rightarrow> nat \<Rightarrow> (string \<times> address option) list \<Rightarrow> address option" where
  "interface_address name type addrs = interface_loop name type None addrs"

text \<open>The addresses of the interface that are of the family.\<close>

definition candidates :: "string option \<Rightarrow> nat \<Rightarrow> (string \<times> address option) list \<Rightarrow> address list" where
  "candidates name type addrs = [a. (n, Some a) \<leftarrow> addrs, name = Some n \<and> address_family type a]"

lemma candidates_simps [simp]:
  "candidates name type [] = []"
  "candidates name type ((n, None) # l) = candidates name type l"
  "candidates name type ((n, Some a) # l) =
     (if name = Some n \<and> address_family type a then a # candidates name type l else candidates name type l)"
  by (auto simp: candidates_def)

text \<open>
  The address of an interface is the first one of the kind that is asked for, and if it has none of this
  kind the last one of its addresses of the family; nothing is found only if it has no address of the family.
\<close>
theorem interface_address_spec:
  "interface_address name type addrs =
     (case filter (wanted_address type) (candidates name type addrs) of
        a # _ \<Rightarrow> Some a
      | [] \<Rightarrow> if candidates name type addrs = [] then None else Some (last (candidates name type addrs)))"
proof -
  have "interface_loop name type host addrs =
     (case filter (wanted_address type) (candidates name type addrs) of
        a # _ \<Rightarrow> Some a
      | [] \<Rightarrow> if candidates name type addrs = [] then host else Some (last (candidates name type addrs)))" for host
    by (induction name type host addrs rule: interface_loop.induct) (auto split: list.splits)
  then show ?thesis by (simp add: interface_address_def)
qed

text \<open>A link-local address is found for the question after a site-local one.\<close>

lemma interface_address_other_kind:
  assumes "address_ip a = ADDR_IPv6 (0xfe # 0x80 # replicate 14 0) 2"
  shows "interface_address (Some n) SITE_LOCAL [(n, Some a)] = Some a \<and> \<not> wanted_address SITE_LOCAL a"
  using assms by (simp add: interface_address_spec candidates_def address_family_def wanted_address_def type_has_def IPV4_def SITE_LOCAL_def LINK_LOCAL_def)

text \<open>The addresses to which \<open>mdns_open\<close> and \<open>mdns_client\<close> bind their ports.\<close>

definition MDNS_PORT :: int where "MDNS_PORT = 5353"

definition mdns_mcast :: "u8 list" where
  "mdns_mcast = [0xff, 0x05, 0, 0, 0, 0, 0, 0, 0, 0, 0, 0, 0, 0, 0, 0xfb]"

definition mdns_open :: "u32 \<Rightarrow> address \<times> address" where
  "mdns_open global_if_index =
     (ipv6_address global_if_index mdns_mcast MDNS_PORT, ipv6_address global_if_index (replicate 16 0) MDNS_PORT)"

definition mdns_client :: "u32 \<Rightarrow> string \<Rightarrow> (string \<times> address option) list \<Rightarrow> address" where
  "mdns_client global_if_index name addrs =
     (case interface_address (Some name) SITE_LOCAL addrs of
        Some a \<Rightarrow> set_port a MDNS_PORT
      | None \<Rightarrow> fst (mdns_open global_if_index))"

end
