(* ===== verification/Client.thy ===== *)
theory Client
  imports Discover Platform
begin

section \<open>Polling of the client (core/client.c, se_discover.c)\<close>

text \<open>
  What \<open>event_poll\<close> returns is an argument, one event after the other. The datagrams of a port are those
  that it has received when it is polled. The static pointer \<open>s\<close> of \<open>client_poll\<close> is a position in the list of the
  services, \<open>None\<close> for NULL.
\<close>

datatype port_event = Datagrams bool "string list" | Port_Event int

definition UDP_PORT :: int where "UDP_PORT = 16"
definition TCP_PORT :: int where "TCP_PORT = 17"
definition TCP_CONNECT :: int where "TCP_CONNECT = 18"

text \<open>What is returned: a service, by its position, or the type of an event.\<close>

datatype client_event = SERVICE_FOUND nat | Event int

type_synonym client = "dns \<times> nat option"

text \<open>
  \<open>service_receive\<close>: the argument is whether the port is one of the three of the discovery. The first service, and the
  follow-up query that is sent.
\<close>

definition service_receive :: "bool \<Rightarrow> string list \<Rightarrow> dns \<Rightarrow> (client \<times> string option) option" where
  "service_receive discovery pks w =
     (if discovery then
        do { (w, q) \<leftarrow> dnssd_receive pks w; Some ((w, if d_services w = [] then None else Some 0), q) }
      else Some ((w, None), None))"

text \<open>\<open>s = service_next (s)\<close>\<close>

definition next_service :: "client \<Rightarrow> client" where
  "next_service c =
     (case c of
        (w, None) \<Rightarrow> (w, None)
      | (w, Some i) \<Rightarrow>
          (case service_next (drop i (d_services w)) of
             (l, r) \<Rightarrow> (w\<lparr>d_services := take i (d_services w) @ l\<rparr>, map_option ((+) i) r)))"

text \<open>The outcome is \<open>None\<close> when the events are at an end, where the code would wait; the events that are left are returned.\<close>

fun client_poll :: "port_event list \<Rightarrow> client \<Rightarrow> (client \<times> client_event option \<times> port_event list) option" where
  "client_poll es c =
     (case next_service c of
        (w, Some i) \<Rightarrow> Some ((w, Some i), Some (SERVICE_FOUND i), es)
      | (w, None) \<Rightarrow>
          (case es of
             [] \<Rightarrow> Some ((w, None), None, [])
           | Port_Event e # es \<Rightarrow> Some ((w, None), Some (Event (if e = TCP_CONNECT then TCP_PORT else e)), es)
           | Datagrams d pks # es \<Rightarrow>
               do { (c, q) \<leftarrow> service_receive d pks w;
                    if snd c = None then Some (c, Some (Event UDP_PORT), es) else client_poll es c }))"

declare client_poll.simps [simp del]

subsection \<open>Services are reported\<close>

definition to_report :: "string option \<times> service \<Rightarrow> bool" where
  "to_report s \<longleftrightarrow> sv_complete (snd s) \<and> \<not> sv_seen (snd s)"

text \<open>Everything before the position, or everything, has been reported.\<close>

definition reported :: "client \<Rightarrow> bool" where
  "reported c \<longleftrightarrow>
     (case snd c of
        None \<Rightarrow> \<not> list_ex to_report (d_services (fst c))
      | Some i \<Rightarrow> \<not> list_ex to_report (take i (d_services (fst c))))"

lemma service_next_none: "service_next l = (l', None) \<Longrightarrow> l' = l \<and> \<not> list_ex to_report l"
  by (induction l arbitrary: l' rule: service_next.induct) (auto simp: to_report_def split: if_splits prod.splits)

lemma service_next_some:
  "service_next l = (l', Some k) \<Longrightarrow>
   k < length l \<and> to_report (l ! k) \<and> \<not> list_ex to_report (take k l) \<and>
   l' = l[k := (fst (l ! k), (snd (l ! k))\<lparr>sv_seen := True\<rparr>)]"
proof (induction l arbitrary: l' k rule: service_next.induct)
  case (2 n s l)
  then show ?case
    by (cases k) (auto simp: to_report_def split: if_splits prod.splits)
qed simp

lemma next_service_none: "next_service c = (w, None) \<Longrightarrow> reported c \<Longrightarrow> w = fst c \<and> \<not> list_ex to_report (d_services w)"
proof -
  assume n: "next_service c = (w, None)" and r: "reported c"
  obtain v p where c: "c = (v, p)" by (cases c)
  show ?thesis
  proof (cases p)
    case None
    then show ?thesis using n r c by (auto simp: next_service_def reported_def)
  next
    case (Some i)
    then obtain l where l: "service_next (drop i (d_services v)) = (l, None)" "w = v\<lparr>d_services := take i (d_services v) @ l\<rparr>"
      using n c by (auto simp: next_service_def split: prod.splits)
    have "l = drop i (d_services v)" "\<not> list_ex to_report (drop i (d_services v))" using service_next_none [OF l(1)] by auto
    moreover have "\<not> list_ex to_report (take i (d_services v))" using r c Some by (simp add: reported_def)
    moreover have "d_services v = take i (d_services v) @ drop i (d_services v)" by simp
    ultimately show ?thesis using l(2) c by (metis append_take_drop_id dns.surjective dns.update_convs(2) fst_conv list_ex_append)
  qed
qed

text \<open>What a service that was found is: the first one to report, and it is marked.\<close>

definition found_at :: "dns \<Rightarrow> nat \<Rightarrow> dns \<Rightarrow> bool" where
  "found_at v i w \<longleftrightarrow>
     i < length (d_services v) \<and> to_report (d_services v ! i) \<and> \<not> list_ex to_report (take i (d_services v)) \<and>
     w = v\<lparr>d_services := (d_services v)[i := (fst (d_services v ! i), (snd (d_services v ! i))\<lparr>sv_seen := True\<rparr>)]\<rparr>"

lemma next_service_some: "next_service c = (w, Some i) \<Longrightarrow> reported c \<Longrightarrow> found_at (fst c) i w"
proof -
  assume n: "next_service c = (w, Some i)" and r: "reported c"
  obtain v j where c: "c = (v, Some j)" using n by (cases c; cases "snd c") (auto simp: next_service_def)
  let ?l = "d_services v"
  obtain l k where l: "service_next (drop j ?l) = (l, Some k)" "w = v\<lparr>d_services := take j ?l @ l\<rparr>" "i = j + k"
    using n c by (auto simp: next_service_def split: prod.splits)
  have s: "k < length (drop j ?l)" "to_report (drop j ?l ! k)" "\<not> list_ex to_report (take k (drop j ?l))"
    "l = (drop j ?l)[k := (fst (drop j ?l ! k), (snd (drop j ?l ! k))\<lparr>sv_seen := True\<rparr>)]"
    using service_next_some [OF l(1)] by auto
  have i: "i < length ?l" "drop j ?l ! k = ?l ! i" using s(1) l(3) by auto
  have "take i ?l = take j ?l @ take k (drop j ?l)" using l(3) by (simp add: take_add)
  moreover have "\<not> list_ex to_report (take j ?l)" using r c by (simp add: reported_def)
  ultimately have "\<not> list_ex to_report (take i ?l)" using s(3) by (simp add: list_ex_append)
  moreover have "take j ?l @ (drop j ?l)[k := x] = ?l[i := x]" for x
    using list_update_append [of "take j ?l" "drop j ?l" i x] i(1) l(3) by simp
  ultimately show ?thesis using i s l(2) c by (simp add: found_at_def)
qed

lemma found_reported: "found_at v i w \<Longrightarrow> reported (w, Some i)"
  by (auto simp: found_at_def reported_def)

text \<open>
  Whatever datagrams and events arrive, the client reports a service only when it is complete, the first
  one that is not yet reported, and marks it as seen; and it does not return another event nor wait
  while there is a complete service that it has not reported.
\<close>
theorem client_poll_reports:
  assumes "client_poll es c = Some (c', out, es')" "reported c"
  shows "reported c' \<and>
    (case out of
       Some (SERVICE_FOUND i) \<Rightarrow> snd c' = Some i \<and> (\<exists>v. found_at v i (fst c'))
     | _ \<Rightarrow> snd c' = None \<and> \<not> list_ex to_report (d_services (fst c')))"
  using assms
proof (induction es c rule: client_poll.induct)
  case (1 es c)
  show ?case
  proof (cases "next_service c")
    case (Pair w p)
    show ?thesis
    proof (cases p)
      case (Some i)
      have f: "found_at (fst c) i w" using next_service_some Pair Some "1.prems"(2) by simp
      have "c' = (w, Some i)" "out = Some (SERVICE_FOUND i)"
        using "1.prems"(1) Pair Some by (auto simp: client_poll.simps [of es c])
      then show ?thesis using f found_reported [OF f] by auto
    next
      case None
      have w: "w = fst c" "\<not> list_ex to_report (d_services w)" using next_service_none Pair None "1.prems"(2) by auto
      show ?thesis
      proof (cases es)
        case Nil
        then have "c' = (w, None)" "out = None" using "1.prems"(1) Pair None by (simp_all add: client_poll.simps [of "[]" c])
          then show ?thesis using w by (simp add: reported_def)
      next
        case (Cons e es1)
        show ?thesis
        proof (cases e)
          case (Port_Event t)
          then have "c' = (w, None)" "out = Some (Event (if t = TCP_CONNECT then TCP_PORT else t))"
            using "1.prems"(1) Pair None Cons by (simp_all add: client_poll.simps [of "_ # _" c])
          then show ?thesis using w by (simp add: reported_def)
        next
          case (Datagrams d pks)
          obtain v k q where r: "service_receive d pks w = Some ((v, k), q)"
            using "1.prems"(1) Pair None Cons Datagrams by (auto simp: client_poll.simps [of "_ # _" c] bind_eq_Some_conv)
          show ?thesis
          proof (cases k)
            case None
            have "\<not> list_ex to_report (d_services v)"
              using r None w(2) by (auto simp: service_receive_def bind_eq_Some_conv split: if_splits prod.splits)
            then show ?thesis using "1.prems"(1) Pair \<open>p = None\<close> Cons Datagrams r None
              by (auto simp: client_poll.simps [of "_ # _" c] reported_def)
          next
            case (Some i)
            have "i = 0" using r Some by (auto simp: service_receive_def bind_eq_Some_conv split: if_splits prod.splits)
            then have "reported (v, k)" using Some by (simp add: reported_def)
            moreover have "client_poll es1 (v, k) = Some (c', out, es')"
              using "1.prems"(1) Pair \<open>p = None\<close> Cons Datagrams r Some by (simp add: client_poll.simps [of "_ # _" c])
            ultimately show ?thesis
              using "1.IH" [OF Pair [symmetric] \<open>p = None\<close> Cons Datagrams r refl] Some by simp
          qed
        qed
      qed
    qed
  qed
qed

definition example_client :: client where
  "example_client =
     (\<lparr>d_hosts = [], d_services = [(Some ''a'', new_service\<lparr>sv_complete := True, sv_seen := True\<rparr>), (Some ''b'', new_service\<lparr>sv_complete := True\<rparr>)],
        d_questions = [], d_if_index = 0\<rparr>, Some 0)"

theorem client_poll_reports_witness:
  "\<exists>c'. client_poll [Port_Event TCP_CONNECT] example_client = Some (c', Some (SERVICE_FOUND 1), [Port_Event TCP_CONNECT]) \<and>
     (\<exists>v. found_at v 1 (fst c')) \<and> reported c'"
proof -
  have "reported example_client" by (simp add: reported_def example_client_def)
  moreover have "\<exists>c'. client_poll [Port_Event TCP_CONNECT] example_client = Some (c', Some (SERVICE_FOUND 1), [Port_Event TCP_CONNECT])"
    by (simp add: client_poll.simps example_client_def next_service_def new_service_def)
  ultimately show ?thesis using client_poll_reports [of "[Port_Event TCP_CONNECT]" example_client _ "Some (SERVICE_FOUND 1)"] by fastforce
qed

end
