(* ===== verification/Completion.thy ===== *)
theory Completion
  imports Retrieve
begin

section \<open>Completion and removal of resources\<close>

text \<open>
  What the retrieval module keeps: the links between stubs (\<open>links_ok\<close>), that the propagation
  of completion returns, that a list completes with its last item, and what the removal of a
  stub leaves behind.
\<close>

named_theorems stub_simps \<open>how the operations on stubs act on the store\<close>

lemma get_s_upd_s [stub_simps]:
  "upd_s s f st = Some st' \<Longrightarrow> r_stubs st' t = (if t = s then map_option f (r_stubs st s) else r_stubs st t)"
  by (auto simp: upd_s_def)

lemma upd_s_Some [simp]: "r_stubs st s = Some x \<Longrightarrow> upd_s s f st = Some (st\<lparr>r_stubs := (r_stubs st)(s \<mapsto> f x)\<rparr>)"
  by (simp add: upd_s_def)

lemma stub_event_simps [simp]:
  "r_stubs (stub_event s t n st) = r_stubs st" "r_table (stub_event s t n st) = r_table st"
  "r_next (stub_event s t n st) = r_next st" "r_calls (stub_event s t n st) = r_calls st"
  by (simp_all add: stub_event_def)

subsection \<open>The removal of a stub\<close>

lemma fold_opt_keeps:
  assumes "\<And>d st st'. f st d = Some st' \<Longrightarrow> P st \<Longrightarrow> P st'" "fold_opt f ds st = Some st'" "P st"
  shows "P st'"
  using assms(2,3) by (induction ds arbitrary: st) (auto simp: bind_Some_iff dest: assms(1))

lemma upd_s_table: "upd_s s f st = Some st' \<Longrightarrow> r_table st' = r_table st \<and> r_calls st' = r_calls st \<and> r_next st' = r_next st"
  by (auto simp: upd_s_def)

lemma remove_req_table: "remove_req s r st = Some st' \<Longrightarrow> r_table st' = r_table st"
  by (auto simp: remove_req_def bind_Some_iff dest!: upd_s_table split: if_splits)

lemma remove_reqs_table: "remove_reqs s rs st = Some st' \<Longrightarrow> r_table st' = r_table st"
  unfolding remove_reqs_def
  by (rule fold_opt_keeps [where P = "\<lambda>u. r_table u = r_table st"]) (auto dest: remove_req_table)

lemma remove_deps_table: "remove_deps s ds st = Some st' \<Longrightarrow> r_table st' = r_table st"
  unfolding remove_deps_def
  by (rule fold_opt_keeps [where P = "\<lambda>u. r_table u = r_table st"]) (auto dest: upd_s_table)

lemma delete_reqs_table: "delete_reqs s st = Some st' \<Longrightarrow> r_table st' = r_table st"
  by (auto simp: delete_reqs_def bind_Some_iff dest!: upd_s_table remove_reqs_table)

text \<open>When the only stub with its name is removed, its entry stays in the resource table
  (\<open>delete_resource\<close> is called with the stub in place of its name), so the next lookup of the name
  reads the stub that was freed.\<close>

theorem remove_stub_leaves_entry:
  assumes "r_stubs st s = Some x" "r_table st (sb_name x) = [s]" "sb_name x \<noteq> []" "remove_stub s st = Some st'"
  shows "r_stubs st' s = None \<and> r_table st' (sb_name x) = [s] \<and> get_stub (sb_name x) type c st' = None"
proof -
  have "r_table st' = (r_table st)([] := [])" "r_stubs st' s = None"
    using assms
    by (auto simp: remove_stub_def find_resource_def get_s_def delete_resource_def set_chain_def free_resource_def
        bind_Some_iff split: option.splits if_splits dest!: remove_req_table delete_reqs_table remove_deps_table)
  with assms(2,3) show ?thesis
    by (simp add: get_stub_def find_stub_def find_resource_def get_s_def)
qed

subsection \<open>Links\<close>

text \<open>
  Every requirement of a resource, former or present, is a stub that has the resource among its
  dependents; the dependents of a stub are in the store and have been received.
\<close>

definition links_ok :: "rstate \<Rightarrow> bool" where
  "links_ok st \<longleftrightarrow> (\<forall>d y. r_stubs st d = Some y \<longrightarrow>
     distinct (sb_deps y) \<and> distinct (sb_reqs y) \<and> distinct (sb_list y) \<and>
     (\<forall>e \<in> set (sb_deps y). \<exists>z. r_stubs st e = Some z \<and> sb_data z \<noteq> None) \<and>
     (\<forall>s \<in> set (sb_reqs y) \<union> set (sb_list y). \<exists>x. r_stubs st s = Some x \<and> d \<in> set (sb_deps x)) \<and>
     (\<forall>s \<in> set (sb_reqs y). \<forall>x. r_stubs st s = Some x \<longrightarrow> sb_data x \<noteq> None))"

lemma links_okD:
  assumes "links_ok st" "r_stubs st d = Some y"
  shows "distinct (sb_deps y)" "distinct (sb_reqs y)" "distinct (sb_list y)"
    and "e \<in> set (sb_deps y) \<Longrightarrow> \<exists>z. r_stubs st e = Some z \<and> sb_data z \<noteq> None"
    and "s \<in> set (sb_reqs y) \<union> set (sb_list y) \<Longrightarrow> \<exists>x. r_stubs st s = Some x \<and> d \<in> set (sb_deps x)"
    and "s \<in> set (sb_reqs y) \<Longrightarrow> r_stubs st s = Some x \<Longrightarrow> sb_data x \<noteq> None"
  using assms unfolding links_ok_def by (force+)

definition link_view :: "stub \<Rightarrow> nat list \<times> nat list \<times> nat list \<times> se_data option" where
  "link_view x = (sb_deps x, sb_reqs x, sb_list x, sb_data x)"

lemma links_ok_cong:
  assumes ok: "links_ok st" and eq: "\<And>t. map_option link_view (r_stubs st' t) = map_option link_view (r_stubs st t)"
  shows "links_ok st'"
proof -
  have bwd: "\<exists>z0. r_stubs st t = Some z0 \<and> link_view z0 = link_view z" if "r_stubs st' t = Some z" for t z
    using eq [of t] that by (cases "r_stubs st t") auto
  have fwd: "\<exists>z. r_stubs st' t = Some z \<and> link_view z = link_view z0" if "r_stubs st t = Some z0" for t z0
    using eq [of t] that by (cases "r_stubs st' t") auto
  show ?thesis
    unfolding links_ok_def
  proof (intro allI impI)
    fix d y
    assume "r_stubs st' d = Some y"
    then obtain y0 where y0: "r_stubs st d = Some y0" and eq: "link_view y0 = link_view y" using bwd by blast
    then have f: "sb_deps y = sb_deps y0" "sb_reqs y = sb_reqs y0" "sb_list y = sb_list y0" by (auto simp: link_view_def)
    note D = links_okD [OF ok y0]
    have "\<exists>z. r_stubs st' e = Some z \<and> sb_data z \<noteq> None" if e: "e \<in> set (sb_deps y0)" for e
    proof -
      obtain z0 where "r_stubs st e = Some z0" "sb_data z0 \<noteq> None" using D(4) [OF e] by blast
      then show ?thesis using fwd [of e z0] by (auto simp: link_view_def)
    qed
    moreover have "\<exists>x. r_stubs st' s = Some x \<and> d \<in> set (sb_deps x)" if s: "s \<in> set (sb_reqs y0) \<union> set (sb_list y0)" for s
    proof -
      obtain z0 where "r_stubs st s = Some z0" "d \<in> set (sb_deps z0)" using D(5) [OF s] by blast
      then show ?thesis using fwd [of s z0] by (auto simp: link_view_def)
    qed
    moreover have "sb_data x \<noteq> None" if s: "s \<in> set (sb_reqs y0)" and x: "r_stubs st' s = Some x" for s x
    proof -
      obtain x0 where "r_stubs st s = Some x0" "link_view x0 = link_view x" using bwd [OF x] by blast
      then show ?thesis using D(6) [OF s, of x0] by (auto simp: link_view_def)
    qed
    ultimately show "distinct (sb_deps y) \<and> distinct (sb_reqs y) \<and> distinct (sb_list y) \<and>
        (\<forall>e \<in> set (sb_deps y). \<exists>z. r_stubs st' e = Some z \<and> sb_data z \<noteq> None) \<and>
        (\<forall>s \<in> set (sb_reqs y) \<union> set (sb_list y). \<exists>x. r_stubs st' s = Some x \<and> d \<in> set (sb_deps x)) \<and>
        (\<forall>s \<in> set (sb_reqs y). \<forall>x. r_stubs st' s = Some x \<longrightarrow> sb_data x \<noteq> None)"
      using D(1-3) unfolding f by blast
  qed
qed

text \<open>The removal of \<open>d\<close> from the dependents of the stubs \<open>rs\<close>.\<close>

definition drop_dep :: "nat \<Rightarrow> nat list \<Rightarrow> rstate \<Rightarrow> rstate" where
  "drop_dep d rs st = st\<lparr>
     r_stubs := (\<lambda>r. if r \<in> set rs then map_option (\<lambda>x. x\<lparr>sb_deps := remove1 d (sb_deps x)\<rparr>) (r_stubs st r) else r_stubs st r),
     r_queue := (r_queue st)\<lparr>im_event := im_event (r_queue st) @
        map (\<lambda>r. \<lparr>edata = TStub r, etype = RESOURCE_REMOVE, etime = 0\<rparr>)
          (filter (\<lambda>r. remove1 d (sb_deps (the (r_stubs st r))) = []) rs)\<rparr>\<rparr>"

lemma drop_dep_simps [simp]:
  "r_table (drop_dep d rs st) = r_table st" "r_next (drop_dep d rs st) = r_next st" "r_calls (drop_dep d rs st) = r_calls st"
  "r_stubs (drop_dep d rs st) r = (if r \<in> set rs then map_option (\<lambda>x. x\<lparr>sb_deps := remove1 d (sb_deps x)\<rparr>) (r_stubs st r) else r_stubs st r)"
  by (simp_all add: drop_dep_def)

lemma drop_dep_Nil [simp]: "drop_dep d [] st = st"
  by (simp add: drop_dep_def)

lemma remove_reqs_drop:
  assumes "distinct rs" "\<forall>r \<in> set rs. r_stubs st r \<noteq> None"
  shows "remove_reqs d rs st = Some (drop_dep d rs st)"
  using assms
proof (induction rs arbitrary: st)
  case Nil
  then show ?case by (simp add: remove_reqs_def drop_dep_def)
next
  case (Cons r rs)
  then obtain x where x: "r_stubs st r = Some x" by auto
  have one: "remove_req d r st = Some (drop_dep d [r] st)"
    using x by (auto simp: remove_req_def drop_dep_def get_s_def stub_event_def insert_event_def fun_eq_iff)
  have "remove_reqs d rs (drop_dep d [r] st) = Some (drop_dep d rs (drop_dep d [r] st))"
    using Cons.prems by (intro Cons.IH) auto
  moreover have "drop_dep d rs (drop_dep d [r] st) = drop_dep d (r # rs) st"
  proof -
    have f: "filter (\<lambda>q. remove1 d (sb_deps (the (r_stubs (drop_dep d [r] st) q))) = []) rs =
        filter (\<lambda>q. remove1 d (sb_deps (the (r_stubs st q))) = []) rs"
      using Cons.prems by (intro filter_cong) auto
    have g: "(\<lambda>q. if q \<in> set rs then map_option (\<lambda>x. x\<lparr>sb_deps := remove1 d (sb_deps x)\<rparr>) (r_stubs (drop_dep d [r] st) q)
          else r_stubs (drop_dep d [r] st) q) =
        (\<lambda>q. if q \<in> set (r # rs) then map_option (\<lambda>x. x\<lparr>sb_deps := remove1 d (sb_deps x)\<rparr>) (r_stubs st q) else r_stubs st q)"
      using Cons.prems by (auto simp: fun_eq_iff)
    show ?thesis
      unfolding drop_dep_def [of d rs "drop_dep d [r] st"] f g
      by (simp add: drop_dep_def [of d "[r]"] drop_dep_def [of d "r # rs"])
  qed
  ultimately show ?case using one by (simp add: remove_reqs_def)
qed

lemma subtract_ids_set: "distinct la \<Longrightarrow> set (subtract_ids la lb) = set la - set lb \<and> distinct (subtract_ids la lb)"
  by (induction lb arbitrary: la) (auto simp: subtract_ids_def)

lemma insert_unique_id_set: "set (insert_unique_id l x) = insert x (set l)" "distinct l \<Longrightarrow> distinct (insert_unique_id l x)"
  by (auto simp: insert_unique_id_def)

lemma insert_stub_loop_Some:
  assumes "r_stubs st s = Some x" "sb_data x \<noteq> None" "\<forall>r \<in> set l. \<exists>z. r_stubs st r = Some z \<and> sb_data z \<noteq> None"
  obtains l' where "insert_stub_loop st s info l = Some l'" "mset l' = add_mset s (mset l)"
  using assms(3)
proof (induction l arbitrary: thesis)
  case (Cons r l)
  then obtain l' where "insert_stub_loop st s info l = Some l'" "mset l' = add_mset s (mset l)" by auto
  moreover obtain x' z z' where "sb_data x = Some x'" "r_stubs st r = Some z" "sb_data z = Some z'"
    using Cons.prems(2) assms(2) by auto
  ultimately show ?case
    using assms(1)
    by (intro Cons.prems(1) [of "if compare_keys (data_fields x') (data_fields z') info < 0 then s # r # l else r # l'"])
      (auto simp: get_s_def)
qed simp

lemma insert_stub_Some:
  assumes "r_stubs st s = Some x" "sb_data x \<noteq> None" "\<forall>r \<in> set l. \<exists>z. r_stubs st r = Some z \<and> sb_data z \<noteq> None"
  obtains l' where "insert_stub st l s info = Some l'" "set l' = insert s (set l)" "distinct l \<Longrightarrow> distinct l'"
    "s \<notin> set l \<Longrightarrow> mset l' = add_mset s (mset l)"
proof (cases "s \<in> set l")
  case False
  obtain l' where l': "insert_stub_loop st s info l = Some l'" "mset l' = add_mset s (mset l)"
    using insert_stub_loop_Some [OF assms] .
  have "set l' = insert s (set l)" using l'(2) by (metis set_mset_add_mset_insert set_mset_mset)
  moreover have "distinct l'" if "distinct l"
    using that False l'(2) by (metis mset_eq_imp_distinct_iff distinct.simps(2) mset.simps(2))
  ultimately show thesis using l' False by (intro that) (simp_all add: insert_stub_def)
qed (auto intro!: that simp: insert_stub_def)

subsection \<open>The propagation of completion returns\<close>

text \<open>What the propagation keeps: only dependents of a rank above \<open>k\<close> may be dropped.\<close>

definition stub_le :: "(nat \<Rightarrow> nat) \<Rightarrow> nat \<Rightarrow> stub \<Rightarrow> stub \<Rightarrow> bool" where
  "stub_le rk k x x' \<longleftrightarrow> sb_name x' = sb_name x \<and> sb_info x' = sb_info x \<and> sb_data x' = sb_data x \<and>
     (sb_complete x \<longrightarrow> sb_complete x') \<and> set (sb_deps x') \<subseteq> set (sb_deps x) \<and>
     (\<forall>e \<in> set (sb_deps x). rk e \<le> k \<longrightarrow> e \<in> set (sb_deps x'))"

definition frame :: "(nat \<Rightarrow> nat) \<Rightarrow> nat \<Rightarrow> rstate \<Rightarrow> rstate \<Rightarrow> bool" where
  "frame rk k st st' \<longleftrightarrow> (\<forall>t. rel_option (stub_le rk k) (r_stubs st t) (r_stubs st' t))"

lemma frame_refl: "frame rk k st st"
  by (auto simp: frame_def stub_le_def option.rel_refl)

lemma stub_le_trans:
  assumes "stub_le rk k x y" "stub_le rk k' y z" "k \<le> k'"
  shows "stub_le rk k x z"
proof -
  have "e \<in> set (sb_deps z)" if "e \<in> set (sb_deps x)" "rk e \<le> k" for e
    using that assms unfolding stub_le_def by (meson le_trans)
  then show ?thesis
    using assms unfolding stub_le_def by auto
qed

lemma frame_trans:
  assumes "frame rk k st st'" "frame rk k' st' st''" "k \<le> k'"
  shows "frame rk k st st''"
  unfolding frame_def
proof
  fix t
  have "rel_option (stub_le rk k) (r_stubs st t) (r_stubs st' t)"
    "rel_option (stub_le rk k') (r_stubs st' t) (r_stubs st'' t)"
    using assms(1,2) unfolding frame_def by blast+
  with assms(3) show "rel_option (stub_le rk k) (r_stubs st t) (r_stubs st'' t)"
    by (auto elim!: option.rel_cases intro: stub_le_trans)
qed

lemma frameD:
  assumes "frame rk k st st'" "r_stubs st t = Some x"
  obtains x' where "r_stubs st' t = Some x'" "stub_le rk k x x'"
  using assms unfolding frame_def by (metis option_rel_Some1)

lemma frameD2:
  assumes "frame rk k st st'" "r_stubs st' t = Some x'"
  obtains x where "r_stubs st t = Some x" "stub_le rk k x x'"
  using assms unfolding frame_def by (metis option_rel_Some2)

definition ranked :: "(nat \<Rightarrow> nat) \<Rightarrow> rstate \<Rightarrow> bool" where
  "ranked rk st \<longleftrightarrow> (\<forall>s x. r_stubs st s = Some x \<longrightarrow> (\<forall>d \<in> set (sb_deps x). rk s < rk d))"

lemma ranked_frame: "frame rk k st st' \<Longrightarrow> ranked rk st \<Longrightarrow> ranked rk st'"
  unfolding ranked_def by (metis frameD2 stub_le_def subsetD)

lemma links_ok_update:
  assumes ok: "links_ok u" and y: "r_stubs u d = Some y" "sb_deps y' = sb_deps y" "sb_data y' = sb_data y"
    and reqs: "distinct (sb_reqs y')" "set (sb_reqs y') \<subseteq> insert s (set (sb_reqs y))"
    and list: "distinct (sb_list y')" "set (sb_list y') \<subseteq> set (sb_list y)"
    and s: "r_stubs u s = Some x" "d \<in> set (sb_deps x)" "sb_data x \<noteq> None"
    and rs: "d \<notin> set rs" "set rs \<inter> (set (sb_reqs y') \<union> set (sb_list y')) = {}"
    and v: "\<And>t. r_stubs v t = (if t = d then Some y' else if t \<in> set rs
      then map_option (\<lambda>x. x\<lparr>sb_deps := remove1 d (sb_deps x)\<rparr>) (r_stubs u t) else r_stubs u t)"
  shows "links_ok v"
proof -
  have fwd: "\<exists>w'. r_stubs v q = Some w' \<and> sb_data w' = sb_data w \<and> (\<forall>e \<in> set (sb_deps w). e \<noteq> d \<or> q \<notin> set rs \<longrightarrow> e \<in> set (sb_deps w'))"
    if "r_stubs u q = Some w" for q w
    using that y by (auto simp: v)
  have bwd: "\<exists>w. r_stubs u q = Some w \<and> sb_data w' = sb_data w \<and> set (sb_deps w') \<subseteq> set (sb_deps w) \<and> distinct (sb_deps w') \<and>
      (q \<noteq> d \<longrightarrow> sb_reqs w' = sb_reqs w \<and> sb_list w' = sb_list w)" if "r_stubs v q = Some w'" for q w'
    using that y ok links_okD(1) [OF ok] set_remove1_subset [of d]
    by (fastforce simp: v split: if_splits)
  show ?thesis
    unfolding links_ok_def
  proof (intro allI impI conjI ballI)
    fix t z
    assume z: "r_stubs v t = Some z"
    obtain z0 where z0: "r_stubs u t = Some z0" "set (sb_deps z) \<subseteq> set (sb_deps z0)" "distinct (sb_deps z)"
        "t \<noteq> d \<longrightarrow> sb_reqs z = sb_reqs z0 \<and> sb_list z = sb_list z0"
      using bwd [OF z] by blast
    show "distinct (sb_deps z)" by (rule z0)
    have zd: "z = y'" if "t = d" using that z v by simp
    show "distinct (sb_reqs z)" "distinct (sb_list z)"
      using z0 zd reqs(1) list(1) links_okD(2,3) [OF ok z0(1)] by (cases "t = d", auto)+
    show "\<exists>w. r_stubs v e = Some w \<and> sb_data w \<noteq> None" if "e \<in> set (sb_deps z)" for e
      using that z0(2) links_okD(4) [OF ok z0(1), of e] fwd by fastforce
    show "\<exists>w. r_stubs v q = Some w \<and> t \<in> set (sb_deps w)" if "q \<in> set (sb_reqs z) \<union> set (sb_list z)" for q
    proof (cases "t = d")
      case True
      then have q: "q \<notin> set rs" using that zd rs(2) by auto
      have "q = s \<or> q \<in> set (sb_reqs y) \<union> set (sb_list y)" using that True zd reqs(2) list(2) by auto
      then obtain w where "r_stubs u q = Some w" "d \<in> set (sb_deps w)"
        using s(1,2) links_okD(5) [OF ok y(1), of q] by auto
      then show ?thesis using fwd [of q w] q True by auto
    next
      case False
      then have "q \<in> set (sb_reqs z0) \<union> set (sb_list z0)" using that z0(4) by simp
      then obtain w where "r_stubs u q = Some w" "t \<in> set (sb_deps w)"
        using links_okD(5) [OF ok z0(1)] by blast
      then show ?thesis using fwd [of q w] False by auto
    qed
    show "sb_data w \<noteq> None" if q: "q \<in> set (sb_reqs z)" and w: "r_stubs v q = Some w" for q w
    proof -
      obtain w0 where w0: "r_stubs u q = Some w0" "sb_data w = sb_data w0" using bwd [OF w] by blast
      have "q = s \<or> q \<in> set (sb_reqs z0)"
        using q zd z0(1,4) y(1) reqs(2) by (cases "t = d") auto
      then show ?thesis using w0 s links_okD(6) [OF ok z0(1) _ w0(1)] by auto
    qed
  qed
qed

text \<open>One dependent: the state after the requirement was added and, if it was the last one,
  the former requirements that were not found again were dropped.\<close>

lemma dep_step_Some:
  assumes ok: "links_ok u" and rk: "ranked rk u"
    and s: "r_stubs u s = Some x" "sb_data x \<noteq> None" and d: "d \<in> set (sb_deps x)"
  obtains v c where "links_ok v" "frame rk (rk s) u v" "r_next v = r_next u"
    "\<exists>x'. r_stubs v s = Some x' \<and> d \<in> set (sb_deps x')"
    "dep_step rec s d u = (if c then do { st \<leftarrow> rec d v; x \<leftarrow> get_s st s; if d \<in> set (sb_deps x) then Some st else None } else Some v)"
proof -
  have lt: "rk s < rk d" using rk s(1) d by (auto simp: ranked_def)
  then have ds: "d \<noteq> s" by auto
  obtain y where y: "r_stubs u d = Some y" "sb_data y \<noteq> None" using links_okD(4) [OF ok s(1) d] by blast
  have data: "\<forall>r \<in> set (sb_reqs y). \<exists>z. r_stubs u r = Some z \<and> sb_data z \<noteq> None"
    using links_okD(5,6) [OF ok y(1)] by blast
  obtain y1 c where y1: "set (sb_reqs y1) = insert s (set (sb_reqs y))" "distinct (sb_reqs y1)" "sb_deps y1 = sb_deps y"
      "sb_data y1 = sb_data y" "sb_list y1 = sb_list y" "sb_name y1 = sb_name y" "sb_info y1 = sb_info y" "sb_complete y1 = sb_complete y"
    and step: "dep_step rec s d u =
      (let u1 = u\<lparr>r_stubs := (r_stubs u)(d \<mapsto> y1)\<rparr> in
       if c then do {
          st \<leftarrow> (if sb_list y \<noteq> [] then do { st \<leftarrow> remove_reqs d (subtract_ids (sb_list y) (sb_reqs y1)) u1; upd_s d (\<lambda>y. y\<lparr>sb_list := []\<rparr>) st }
                 else Some u1);
          st \<leftarrow> rec d st; x \<leftarrow> get_s st s; if d \<in> set (sb_deps x) then Some st else None }
       else Some u1)"
  proof (cases "sb_info y")
    case None
    show thesis
      by (rule that [of "y\<lparr>sb_reqs := insert_unique_id (sb_reqs y) s, sb_flags := sb_flags y AND NOT (sb_flag x)\<rparr>" "sb_flags y AND NOT (sb_flag x) = 0"])
        (use None s(1) d y(1) links_okD(2) [OF ok y(1)] in \<open>auto simp: dep_step_def get_s_def insert_unique_id_set Let_def\<close>)
  next
    case (Some info)
    obtain l' where l': "insert_stub u (sb_reqs y) s info = Some l'" "set l' = insert s (set (sb_reqs y))" "distinct (sb_reqs y) \<Longrightarrow> distinct l'"
      using insert_stub_Some [OF s data] by metis
    show thesis
      by (rule that [of "y\<lparr>sb_reqs := l'\<rparr>" "length l' = unat (sb_all y)"])
        (use Some s(1) d y(1) l' links_okD(2) [OF ok y(1)] in \<open>auto simp: dep_step_def get_s_def Let_def\<close>)
  qed
  define u1 where "u1 = u\<lparr>r_stubs := (r_stubs u)(d \<mapsto> y1)\<rparr>"
  define rs where "rs = (if c then subtract_ids (sb_list y) (sb_reqs y1) else [])"
  define y2 where "y2 = (if c then y1\<lparr>sb_list := []\<rparr> else y1)"
  define v where "v = (drop_dep d rs u1)\<lparr>r_stubs := (r_stubs (drop_dep d rs u1))(d \<mapsto> y2)\<rparr>"
  have rs: "set rs \<subseteq> set (sb_list y) - set (sb_reqs y1)" "distinct rs"
    using subtract_ids_set [OF links_okD(3) [OF ok y(1)], of "sb_reqs y1"] by (auto simp: rs_def)
  have rs_alive: "\<exists>z. r_stubs u r = Some z \<and> d \<in> set (sb_deps z)" if "r \<in> set rs" for r
    using that rs(1) links_okD(5) [OF ok y(1)] by blast
  have drs: "d \<notin> set rs"
    using rs_alive [of d] y(1) rk by (auto simp: ranked_def)
  have sv: "r_stubs v t = (if t = d then Some y2 else if t \<in> set rs
      then map_option (\<lambda>x. x\<lparr>sb_deps := remove1 d (sb_deps x)\<rparr>) (r_stubs u t) else r_stubs u t)" for t
    by (auto simp: v_def u1_def)
  have lv: "links_ok v"
    by (rule links_ok_update [OF ok y(1), where y' = y2 and s = s and x = x and rs = rs])
      (use y1 s d drs rs links_okD(2,3) [OF ok y(1)] sv in \<open>auto simp: y2_def rs_def\<close>)
  have sle: "stub_le rk (rk s) z z" for z by (simp add: stub_le_def)
  have drop: "stub_le rk (rk s) z (z\<lparr>sb_deps := remove1 d (sb_deps z)\<rparr>)" for z
  proof -
    have "e \<in> set (remove1 d (sb_deps z))" if "e \<in> set (sb_deps z)" "rk e \<le> rk s" for e
      using that lt by (subst in_set_remove1) auto
    then show ?thesis using set_remove1_subset [of d "sb_deps z"] by (auto simp: stub_le_def)
  qed
  have "stub_le rk (rk s) y y2"
    using y1 by (auto simp: stub_le_def y2_def)
  then have fr: "frame rk (rk s) u v"
    unfolding frame_def sv using y(1) sle drop
    by (auto simp: option.rel_refl option.rel_map intro: option.rel_refl)
  have nx: "r_next v = r_next u" by (simp add: v_def u1_def)
  have sd: "\<exists>x'. r_stubs v s = Some x' \<and> d \<in> set (sb_deps x')"
    using s(1) d ds rs(1) y1(1) by (auto simp: sv)
  have rem: "remove_reqs d rs u1 = Some (drop_dep d rs u1)"
    using rs_alive drs by (intro remove_reqs_drop rs) (auto simp: u1_def)
  have idem: "u1\<lparr>r_stubs := (r_stubs u1)(d \<mapsto> y1)\<rparr> = u1"
    by (simp add: u1_def)
  have step2: "dep_step rec s d u = (if c then do { st \<leftarrow> rec d v; x \<leftarrow> get_s st s; if d \<in> set (sb_deps x) then Some st else None } else Some v)"
  proof (cases c)
    case False
    then have "v = u1" using idem by (simp add: v_def rs_def y2_def)
    with False show ?thesis by (simp add: step u1_def)
  next
    case True
    show ?thesis
    proof (cases "sb_list y = []")
      case empty: True
      then have "rs = []" using rs(1) by auto
      moreover have "y2 = y1" using empty y1(5) True by (simp add: y2_def)
      ultimately have "v = u1" using idem by (simp add: v_def)
      with True empty show ?thesis by (simp add: step u1_def)
    next
      case False
      have "upd_s d (\<lambda>y. y\<lparr>sb_list := []\<rparr>) (drop_dep d rs u1) = Some v"
        using drs True by (simp add: upd_s_def v_def u1_def y2_def)
      with rem True False show ?thesis by (simp add: step rs_def u1_def [symmetric])
    qed
  qed
  show thesis by (rule that [OF lv fr nx sd step2])
qed

lemma fold_opt_inv:
  assumes "\<And>d u. d \<in> set ds \<Longrightarrow> P u \<Longrightarrow> \<exists>v. f u d = Some v \<and> P v" "P u"
  shows "\<exists>v. fold_opt f ds u = Some v \<and> P v"
  using assms
proof (induction ds arbitrary: u)
  case (Cons d ds)
  then obtain v where "f u d = Some v" "P v" by (meson list.set_intros(1))
  with Cons show ?case by simp
qed simp

lemma frame_dom: "frame rk k st st' \<Longrightarrow> r_stubs st t = None \<longleftrightarrow> r_stubs st' t = None"
  by (metis frame_def option.rel_sel option.rel_distinct(1) rel_option_None1 rel_option_None2)

lemma dep_complete_at_Some:
  assumes "links_ok st" "ranked rk st" "r_stubs st s = Some x" "sb_data x \<noteq> None"
    "\<And>t. r_stubs st t \<noteq> None \<Longrightarrow> rk t \<le> M" "M - rk s < n"
  shows "\<exists>st'. dep_complete_at n s st = Some st' \<and> links_ok st' \<and> frame rk (rk s) st st' \<and>
    (\<forall>x'. r_stubs st' s = Some x' \<longrightarrow> sb_complete x')"
  using assms
proof (induction n arbitrary: s x st)
  case (Suc n)
  define st1 where "st1 = (let u = (if sb_completion x \<and> \<not> sb_complete x then st\<lparr>r_calls := r_calls st @ [Completion s]\<rparr> else st)
    in u\<lparr>r_stubs := (r_stubs st)(s \<mapsto> x\<lparr>sb_complete := True\<rparr>)\<rparr>)"
  have s1: "r_stubs st1 t = (if t = s then Some (x\<lparr>sb_complete := True\<rparr>) else r_stubs st t)" for t
    by (simp add: st1_def Let_def)
  have l1: "links_ok st1"
    by (rule links_ok_cong [OF Suc.prems(1)]) (use Suc.prems(3) in \<open>simp add: s1 link_view_def\<close>)
  have f1: "frame rk (rk s) st st1"
    unfolding frame_def s1 using Suc.prems(3) by (auto simp: stub_le_def intro!: option.rel_refl)
  define P where "P u \<longleftrightarrow> links_ok u \<and> frame rk (rk s) st1 u" for u
  have "\<exists>v. fold_opt (\<lambda>st d. dep_step (dep_complete_at n) s d st) (sb_deps x) st1 = Some v \<and> P v"
  proof (rule fold_opt_inv)
    show "P st1" using l1 frame_refl by (simp add: P_def)
    fix d u
    assume d: "d \<in> set (sb_deps x)" and "P u"
    then have u: "links_ok u" "frame rk (rk s) st u" using frame_trans [OF f1] by (auto simp: P_def)
    have ru: "ranked rk u" using ranked_frame [OF u(2) Suc.prems(2)] .
    obtain xu where xu: "r_stubs u s = Some xu" "stub_le rk (rk s) x xu" using frameD [OF u(2) Suc.prems(3)] .
    have lt: "rk s < rk d" using Suc.prems(2,3) d by (auto simp: ranked_def)
    show "\<exists>v. dep_step (dep_complete_at n) s d u = Some v \<and> P v"
    proof (cases "d \<in> set (sb_deps xu)")
      case False
      with xu(1) \<open>P u\<close> show ?thesis by (simp add: dep_step_def get_s_def)
    next
      case True
      have data: "sb_data xu \<noteq> None" using xu(2) Suc.prems(4) by (simp add: stub_le_def)
      obtain v c where v: "links_ok v" "frame rk (rk s) u v" "r_next v = r_next u" "\<exists>x'. r_stubs v s = Some x' \<and> d \<in> set (sb_deps x')"
        "dep_step (dep_complete_at n) s d u = (if c then do { st \<leftarrow> dep_complete_at n d v; x \<leftarrow> get_s st s; if d \<in> set (sb_deps x) then Some st else None } else Some v)"
        by (rule dep_step_Some [OF u(1) ru xu(1) data True])
      have fv: "frame rk (rk s) st1 v" using frame_trans [OF _ v(2)] \<open>P u\<close> by (simp add: P_def)
      show ?thesis
      proof (cases c)
        case False
        with v(1,5) fv show ?thesis by (simp add: P_def)
      next
        case True
        obtain xv where xv: "r_stubs v s = Some xv" "d \<in> set (sb_deps xv)" using v(4) by blast
        obtain z where z: "r_stubs v d = Some z" "sb_data z \<noteq> None" using links_okD(4) [OF v(1) xv] by blast
        have fsv: "frame rk (rk s) st v" using frame_trans [OF u(2) v(2)] by simp
        have "r_stubs st d \<noteq> None" using frame_dom [OF fsv, of d] z(1) by simp
        then have "rk d \<le> M" by (rule Suc.prems(5))
        then have "M - rk d < n" using lt Suc.prems(6) by linarith
        moreover have "rk t \<le> M" if "r_stubs v t \<noteq> None" for t
        proof -
          have "r_stubs st t \<noteq> None" using that frame_dom [OF fsv, of t] by simp
          then show ?thesis by (rule Suc.prems(5))
        qed
        ultimately obtain w where w: "dep_complete_at n d v = Some w" "links_ok w" "frame rk (rk d) v w"
          using Suc.IH [OF v(1) ranked_frame [OF v(2) ru] z] by blast
        obtain xw where xw: "r_stubs w s = Some xw" "stub_le rk (rk d) xv xw" using frameD [OF w(3) xv(1)] .
        have "d \<in> set (sb_deps xw)" using xw(2) xv(2) by (auto simp: stub_le_def)
        moreover have "frame rk (rk s) st1 w" using frame_trans [OF fv w(3)] lt by simp
        ultimately show ?thesis using v(5) True w xw(1) by (simp add: P_def get_s_def)
      qed
    qed
  qed
  then obtain v where v: "fold_opt (\<lambda>st d. dep_step (dep_complete_at n) s d st) (sb_deps x) st1 = Some v" "P v" by blast
  have "dep_complete_at (Suc n) s st = Some v"
    using v(1) Suc.prems(3)
    by (cases "sb_completion x \<and> \<not> sb_complete x") (auto simp: get_s_def st1_def Let_def)
  moreover have "sb_complete x'" if "r_stubs v s = Some x'" for x'
    using v(2) that s1 [of s] by (auto simp: P_def stub_le_def elim: frameD2)
  ultimately show ?case
    using v(2) frame_trans [OF f1] by (auto simp: P_def)
qed simp

text \<open>The order of the dependents, if it has no cycle, gives the ranks.\<close>

definition dep_rel :: "rstate \<Rightarrow> (nat \<times> nat) set" where
  "dep_rel st = {(s, d). \<exists>x. r_stubs st s = Some x \<and> d \<in> set (sb_deps x)}"

definition depth :: "rstate \<Rightarrow> nat \<Rightarrow> nat" where
  "depth st s = card {t. (t, s) \<in> (dep_rel st)\<^sup>+}"

lemma depth_ranked:
  assumes "acyclic (dep_rel st)" "dom (r_stubs st) \<subseteq> {..<n}"
  shows "ranked (depth st) st" "depth st s \<le> n"
proof -
  have sub: "{t. (t, s) \<in> (dep_rel st)\<^sup>+} \<subseteq> {..<n}" for s
  proof
    fix t assume "t \<in> {t. (t, s) \<in> (dep_rel st)\<^sup>+}"
    then have "t \<in> Domain (dep_rel st)" by (metis Domain.DomainI mem_Collect_eq trancl_domain)
    then show "t \<in> {..<n}" using assms(2) by (auto simp: dep_rel_def)
  qed
  show "depth st s \<le> n"
    using card_mono [OF _ sub [of s]] by (simp add: depth_def)
  show "ranked (depth st) st"
    unfolding ranked_def
  proof (intro allI impI ballI)
    fix s x d
    assume "r_stubs st s = Some x" "d \<in> set (sb_deps x)"
    then have sd: "(s, d) \<in> dep_rel st" by (auto simp: dep_rel_def)
    have "s \<notin> {t. (t, s) \<in> (dep_rel st)\<^sup>+}" using assms(1) by (auto simp: acyclic_def)
    moreover have "insert s {t. (t, s) \<in> (dep_rel st)\<^sup>+} \<subseteq> {t. (t, d) \<in> (dep_rel st)\<^sup>+}"
      using sd by (auto intro: trancl_into_trancl)
    ultimately show "depth st s < depth st d"
      unfolding depth_def using finite_subset [OF sub [of d]] by (intro psubset_card_mono) auto
  qed
qed

text \<open>C20: if the dependents form no cycle, the propagation of completion returns without a memory
  error, the stub is complete then, and the links are as they should be.\<close>

theorem dep_complete_returns:
  assumes "links_ok st" "acyclic (dep_rel st)" "dom (r_stubs st) \<subseteq> {..<r_next st}"
    "r_stubs st s = Some x" "sb_data x \<noteq> None"
  shows "\<exists>st' x'. dep_complete s st = Some st' \<and> links_ok st' \<and> r_stubs st' s = Some x' \<and> sb_complete x' \<and>
    dom (r_stubs st') = dom (r_stubs st)"
proof -
  have fuel: "r_next st - depth st s < Suc (r_next st)" by simp
  obtain st' where st': "dep_complete s st = Some st'" "links_ok st'" "frame (depth st) (depth st s) st st'"
      "\<forall>x'. r_stubs st' s = Some x' \<longrightarrow> sb_complete x'"
    unfolding dep_complete_def
    using dep_complete_at_Some [OF assms(1) depth_ranked(1) [OF assms(2,3)] assms(4,5) depth_ranked(2) [OF assms(2,3)] fuel] by blast
  obtain x' where "r_stubs st' s = Some x'" using frameD [OF st'(3) assms(4)] by blast
  moreover have "dom (r_stubs st') = dom (r_stubs st)" using frame_dom [OF st'(3)] by (auto simp: dom_def)
  ultimately show ?thesis using st' by blast
qed

subsection \<open>A list completes with its last item\<close>

lemma fold_opt_Nil: "fold_opt f [] = Some"
  by (rule ext) simp

text \<open>An item \<open>c\<close> of a list \<open>l\<close> that nothing depends on completes.\<close>

lemma item_completes:
  assumes c: "r_stubs u c = Some x" "sb_deps x = [l]" "sb_data x \<noteq> None" "\<not> sb_completion x"
    and l: "r_stubs u l = Some y" "sb_deps y = []" "sb_info y = Some info" "c \<noteq> l" "c \<notin> set (sb_reqs y)"
    and reqs: "\<forall>r \<in> set (sb_reqs y). \<exists>z. r_stubs u r = Some z \<and> sb_data z \<noteq> None"
    and n: "r_next u = Suc m"
  obtains reqs' u1 where "mset reqs' = add_mset c (mset (sb_reqs y))"
    "u1 = u\<lparr>r_stubs := (r_stubs u)(c \<mapsto> x\<lparr>sb_complete := True\<rparr>, l \<mapsto> y\<lparr>sb_reqs := reqs'\<rparr>)\<rparr>"
    "dep_complete c u = (if length reqs' = unat (sb_all y) then do {
        st \<leftarrow> (if sb_list y \<noteq> [] then do { st \<leftarrow> remove_reqs l (subtract_ids (sb_list y) reqs') u1; upd_s l (\<lambda>y. y\<lparr>sb_list := []\<rparr>) st }
              else Some u1);
        st \<leftarrow> dep_complete_at (Suc m) l st; x \<leftarrow> get_s st c; if l \<in> set (sb_deps x) then Some st else None }
      else Some u1)"
proof -
  define u0 where "u0 = u\<lparr>r_stubs := (r_stubs u)(c \<mapsto> x\<lparr>sb_complete := True\<rparr>)\<rparr>"
  have c0: "r_stubs u0 c = Some (x\<lparr>sb_complete := True\<rparr>)" "sb_data (x\<lparr>sb_complete := True\<rparr>) \<noteq> None"
    using c(3) by (simp_all add: u0_def)
  have "\<forall>r \<in> set (sb_reqs y). \<exists>z. r_stubs u0 r = Some z \<and> sb_data z \<noteq> None"
    using reqs c(3) by (auto simp: u0_def)
  then obtain reqs' where reqs': "insert_stub u0 (sb_reqs y) c info = Some reqs'" "mset reqs' = add_mset c (mset (sb_reqs y))"
    using insert_stub_Some [OF c0] l(5) by metis
  have eq: "dep_complete c u = dep_step (dep_complete_at (Suc m)) c l u0"
    using c n by (simp add: dep_complete_def get_s_def u0_def fold_opt_Nil)
  define u1 where "u1 = u\<lparr>r_stubs := (r_stubs u)(c \<mapsto> x\<lparr>sb_complete := True\<rparr>, l \<mapsto> y\<lparr>sb_reqs := reqs'\<rparr>)\<rparr>"
  have "dep_complete c u = (if length reqs' = unat (sb_all y) then do {
        st \<leftarrow> (if sb_list y \<noteq> [] then do { st \<leftarrow> remove_reqs l (subtract_ids (sb_list y) reqs') u1; upd_s l (\<lambda>y. y\<lparr>sb_list := []\<rparr>) st }
              else Some u1);
        st \<leftarrow> dep_complete_at (Suc m) l st; x \<leftarrow> get_s st c; if l \<in> set (sb_deps x) then Some st else None }
      else Some u1)"
    unfolding eq dep_step_def
    using c l reqs'(1) by (simp add: get_s_def u0_def u1_def del: dep_complete_at.simps)
  with reqs'(2) u1_def show thesis by (rule that)
qed

text \<open>All items but the last one: they are collected.\<close>

lemma items_complete:
  assumes l: "r_stubs u l = Some y" "sb_deps y = []" "sb_info y = Some info" "r_next u = Suc m"
    and cs: "\<forall>c \<in> set cs. c \<noteq> l \<and> c \<notin> set (sb_reqs y) \<and>
      (\<exists>x. r_stubs u c = Some x \<and> sb_deps x = [l] \<and> sb_data x \<noteq> None \<and> \<not> sb_completion x)" "distinct cs"
    and reqs: "\<forall>r \<in> set (sb_reqs y). r \<noteq> l \<and> (\<exists>z. r_stubs u r = Some z \<and> sb_data z \<noteq> None)"
    and n: "length (sb_reqs y) + length cs < unat (sb_all y)"
  shows "\<exists>u' reqs'. fold_opt (\<lambda>st c. dep_complete c st) cs u = Some u' \<and> mset reqs' = mset (sb_reqs y) + mset cs \<and>
    u' = u\<lparr>r_stubs := (\<lambda>t. if t = l then Some (y\<lparr>sb_reqs := reqs'\<rparr>)
      else if t \<in> set cs then map_option (\<lambda>x. x\<lparr>sb_complete := True\<rparr>) (r_stubs u t) else r_stubs u t)\<rparr>"
  using assms
proof (induction cs arbitrary: u y)
  case Nil
  then show ?case by (intro exI [of _ u] exI [of _ "sb_reqs y"]) (auto simp: fun_eq_iff)
next
  case (Cons c cs)
  obtain x where x: "r_stubs u c = Some x" "sb_deps x = [l]" "sb_data x \<noteq> None" "\<not> sb_completion x" "c \<noteq> l" "c \<notin> set (sb_reqs y)"
    using Cons.prems(5) by auto
  have reqs: "\<forall>r \<in> set (sb_reqs y). \<exists>z. r_stubs u r = Some z \<and> sb_data z \<noteq> None" using Cons.prems(7) by blast
  obtain r1 u1 where u1: "mset r1 = add_mset c (mset (sb_reqs y))"
      "u1 = u\<lparr>r_stubs := (r_stubs u)(c \<mapsto> x\<lparr>sb_complete := True\<rparr>, l \<mapsto> y\<lparr>sb_reqs := r1\<rparr>)\<rparr>"
      "dep_complete c u = (if length r1 = unat (sb_all y) then do {
        st \<leftarrow> (if sb_list y \<noteq> [] then do { st \<leftarrow> remove_reqs l (subtract_ids (sb_list y) r1) u1; upd_s l (\<lambda>y. y\<lparr>sb_list := []\<rparr>) st }
              else Some u1);
        st \<leftarrow> dep_complete_at (Suc m) l st; x \<leftarrow> get_s st c; if l \<in> set (sb_deps x) then Some st else None }
      else Some u1)"
    by (rule item_completes [OF x(1-4) Cons.prems(1-3) x(5,6) reqs Cons.prems(4)])
  have len: "length r1 = Suc (length (sb_reqs y))" using u1(1) by (metis size_add_mset size_mset)
  have sr1: "set r1 = insert c (set (sb_reqs y))" using u1(1) by (metis set_mset_add_mset_insert set_mset_mset)
  have d: "dep_complete c u = Some u1" using u1(3) len Cons.prems(8) by simp
  have "\<exists>u' reqs'. fold_opt (\<lambda>st c. dep_complete c st) cs u1 = Some u' \<and> mset reqs' = mset (sb_reqs (y\<lparr>sb_reqs := r1\<rparr>)) + mset cs \<and>
    u' = u1\<lparr>r_stubs := (\<lambda>t. if t = l then Some (y\<lparr>sb_reqs := r1, sb_reqs := reqs'\<rparr>)
      else if t \<in> set cs then map_option (\<lambda>x. x\<lparr>sb_complete := True\<rparr>) (r_stubs u1 t) else r_stubs u1 t)\<rparr>"
  proof (rule Cons.IH)
    show "\<forall>q \<in> set cs. q \<noteq> l \<and> q \<notin> set (sb_reqs (y\<lparr>sb_reqs := r1\<rparr>)) \<and>
      (\<exists>x. r_stubs u1 q = Some x \<and> sb_deps x = [l] \<and> sb_data x \<noteq> None \<and> \<not> sb_completion x)"
      using Cons.prems(5,6) sr1 by (auto simp: u1(2))
    show "\<forall>r \<in> set (sb_reqs (y\<lparr>sb_reqs := r1\<rparr>)). r \<noteq> l \<and> (\<exists>z. r_stubs u1 r = Some z \<and> sb_data z \<noteq> None)"
      using Cons.prems(7) sr1 x(3,5) by (auto simp: u1(2))
  qed (use Cons.prems len x(5) in \<open>auto simp: u1(2)\<close>)
  moreover have e: "y\<lparr>sb_reqs := r1, sb_reqs := r\<rparr> = y\<lparr>sb_reqs := r\<rparr>" for r by simp
  ultimately obtain u' reqs' where "fold_opt (\<lambda>st c. dep_complete c st) cs u1 = Some u'" "mset reqs' = mset r1 + mset cs"
    "u' = u1\<lparr>r_stubs := (\<lambda>t. if t = l then Some (y\<lparr>sb_reqs := reqs'\<rparr>)
      else if t \<in> set cs then map_option (\<lambda>x. x\<lparr>sb_complete := True\<rparr>) (r_stubs u1 t) else r_stubs u1 t)\<rparr>"
    by (simp only: e stub.select_convs stub.update_convs) (auto simp: e)
  then show ?case
    using d u1(1) x(1) Cons.prems(6)
    by (intro exI [of _ u'] exI [of _ reqs']) (auto simp: u1(2) fun_eq_iff)
qed

lemma subtract_ids_filter: "distinct la \<Longrightarrow> subtract_ids la lb = filter (\<lambda>a. a \<notin> set lb) la"
  by (induction lb arbitrary: la) (auto simp: subtract_ids_def remove1_filter intro!: filter_cong)

text \<open>The last item: the list is complete, the routine is called, what was not found again is dropped.\<close>

lemma last_item_completes:
  assumes c: "r_stubs u c = Some x" "sb_deps x = [l]" "sb_data x \<noteq> None" "\<not> sb_completion x"
    and l: "r_stubs u l = Some y" "sb_deps y = []" "sb_info y = Some info" "c \<noteq> l" "c \<notin> set (sb_reqs y)"
      "sb_completion y" "\<not> sb_complete y" "Suc (length (sb_reqs y)) = unat (sb_all y)"
    and reqs: "\<forall>r \<in> set (sb_reqs y). \<exists>z. r_stubs u r = Some z \<and> sb_data z \<noteq> None"
    and os: "\<forall>q \<in> set (sb_list y). q \<noteq> l \<and> (\<exists>z. r_stubs u q = Some z \<and> sb_deps z = [l])" "distinct (sb_list y)"
    and n: "r_next u = Suc m"
  shows "\<exists>u' reqs'. dep_complete c u = Some u' \<and> mset reqs' = add_mset c (mset (sb_reqs y)) \<and>
    r_stubs u' l = Some (y\<lparr>sb_reqs := reqs', sb_list := [], sb_complete := True\<rparr>) \<and>
    r_calls u' = r_calls u @ [Completion l] \<and>
    im_event (r_queue u') = im_event (r_queue u) @ map (\<lambda>q. \<lparr>edata = TStub q, etype = RESOURCE_REMOVE, etime = 0\<rparr>)
      (filter (\<lambda>q. q \<notin> set reqs') (sb_list y))"
proof -
  obtain r1 u1 where u1: "mset r1 = add_mset c (mset (sb_reqs y))"
      "u1 = u\<lparr>r_stubs := (r_stubs u)(c \<mapsto> x\<lparr>sb_complete := True\<rparr>, l \<mapsto> y\<lparr>sb_reqs := r1\<rparr>)\<rparr>"
      "dep_complete c u = (if length r1 = unat (sb_all y) then do {
        st \<leftarrow> (if sb_list y \<noteq> [] then do { st \<leftarrow> remove_reqs l (subtract_ids (sb_list y) r1) u1; upd_s l (\<lambda>y. y\<lparr>sb_list := []\<rparr>) st }
              else Some u1);
        st \<leftarrow> dep_complete_at (Suc m) l st; x \<leftarrow> get_s st c; if l \<in> set (sb_deps x) then Some st else None }
      else Some u1)"
    by (rule item_completes [OF c l(1-5) reqs n])
  have len: "length r1 = unat (sb_all y)" using u1(1) l(8) by (metis size_add_mset size_mset)
  have sr1: "set r1 = insert c (set (sb_reqs y))" using u1(1) by (metis set_mset_add_mset_insert set_mset_mset)
  define rs where "rs = subtract_ids (sb_list y) r1"
  have rs: "rs = filter (\<lambda>q. q \<notin> set r1) (sb_list y)" using os(2) by (simp add: rs_def subtract_ids_filter)
  have alive: "\<exists>z. r_stubs u q = Some z \<and> sb_deps z = [l] \<and> q \<noteq> l \<and> q \<noteq> c" if "q \<in> set rs" for q
    using that os(1) sr1 by (auto simp: rs)
  define v where "v = (drop_dep l rs u1)\<lparr>r_stubs := (r_stubs (drop_dep l rs u1))(l \<mapsto> y\<lparr>sb_reqs := r1, sb_list := []\<rparr>)\<rparr>"
  have lrs: "l \<notin> set rs" "c \<notin> set rs" using alive by blast+
  have rem: "remove_reqs l rs u1 = Some (drop_dep l rs u1)"
    using alive os(2) by (intro remove_reqs_drop) (auto simp: u1(2) rs)
  have step: "(if sb_list y \<noteq> [] then do { st \<leftarrow> remove_reqs l (subtract_ids (sb_list y) r1) u1; upd_s l (\<lambda>y. y\<lparr>sb_list := []\<rparr>) st }
        else Some u1) = Some v"
  proof (cases "sb_list y = []")
    case True
    then have "rs = []" by (simp add: rs)
    moreover have "y\<lparr>sb_reqs := r1, sb_list := []\<rparr> = y\<lparr>sb_reqs := r1\<rparr>"
      by (rule stub.equality) (use True in simp_all)
    ultimately show ?thesis using True by (simp only: v_def u1(2)) simp
  next
    case False
    have "upd_s l (\<lambda>y. y\<lparr>sb_list := []\<rparr>) (drop_dep l rs u1) = Some v"
      using lrs by (simp add: upd_s_def v_def u1(2))
    with rem False show ?thesis by (simp add: rs_def [symmetric])
  qed
  define w where "w = v\<lparr>r_calls := r_calls v @ [Completion l], r_stubs := (r_stubs v)(l \<mapsto> y\<lparr>sb_reqs := r1, sb_list := [], sb_complete := True\<rparr>)\<rparr>"
  have vl: "r_stubs v l = Some (y\<lparr>sb_reqs := r1, sb_list := []\<rparr>)" by (simp add: v_def)
  have "dep_complete_at (Suc m) l v = Some w"
    using l(2,6,7) vl by (simp add: get_s_def w_def)
  moreover have "r_stubs w c = Some (x\<lparr>sb_complete := True\<rparr>)"
    using l(4) lrs by (simp add: w_def v_def u1(2))
  ultimately have "dep_complete c u = Some w"
    unfolding u1(3) using len step c(2) by (simp add: get_s_def del: dep_complete_at.simps)
  moreover have "im_event (r_queue w) = im_event (r_queue u) @ map (\<lambda>q. \<lparr>edata = TStub q, etype = RESOURCE_REMOVE, etime = 0\<rparr>) rs"
  proof -
    have "filter (\<lambda>q. remove1 l (sb_deps (the (r_stubs u1 q))) = []) rs = rs"
    proof (rule filter_True, rule ballI)
      fix q assume q: "q \<in> set rs"
      then obtain z where "r_stubs u q = Some z" "sb_deps z = [l]" "q \<noteq> l" "q \<noteq> c" using alive by blast
      then show "remove1 l (sb_deps (the (r_stubs u1 q))) = []" by (simp add: u1(2))
    qed
    then show ?thesis by (simp add: w_def v_def drop_dep_def u1(2))
  qed
  ultimately show ?thesis
    using u1(1) by (intro exI [of _ w] exI [of _ r1]) (simp add: w_def v_def u1(2) rs)
qed

text \<open>C19: A list is being updated: it has a completion routine, no dependents and no requirements yet, and waits
  for its items. The items depend on this list only, have their data and no completion routine of their own; the
  former items depend on this list only. Once all items have completed, in whatever order, the list is complete:
  its requirements are exactly the items, its completion routine has been called once, and exactly the former
  items that were not found again are queued for removal.\<close>

theorem list_update_completes:
  assumes "r_stubs st l = Some y" "sb_deps y = []" "sb_info y = Some info" "sb_reqs y = []" "l < r_next st"
    and "sb_completion y" "\<not> sb_complete y" "unat (sb_all y) = length cs" "cs \<noteq> []" "distinct cs" "l \<notin> set cs"
    and "\<forall>c \<in> set cs. \<exists>x. r_stubs st c = Some x \<and> sb_deps x = [l] \<and> sb_data x \<noteq> None \<and> \<not> sb_completion x"
    and "\<forall>q \<in> set (sb_list y). q \<noteq> l \<and> (\<exists>x. r_stubs st q = Some x \<and> sb_deps x = [l])" "distinct (sb_list y)"
  shows "\<exists>st' y'. fold_opt (\<lambda>st c. dep_complete c st) cs st = Some st' \<and> r_stubs st' l = Some y' \<and>
    sb_complete y' \<and> mset (sb_reqs y') = mset cs \<and> sb_list y' = [] \<and>
    r_calls st' = r_calls st @ [Completion l] \<and>
    im_event (r_queue st') = im_event (r_queue st) @ map (\<lambda>q. \<lparr>edata = TStub q, etype = RESOURCE_REMOVE, etime = 0\<rparr>)
      (filter (\<lambda>q. q \<notin> set cs) (sb_list y))"
proof -
  obtain ds c where cs: "cs = ds @ [c]" using assms(9) by (metis append_butlast_last_id)
  obtain m where m: "r_next st = Suc m" using assms(5) by (cases "r_next st") auto
  have "length (sb_reqs y) + length ds < unat (sb_all y)" using assms(4,8) cs by simp
  then obtain u reqs where u: "fold_opt (\<lambda>st c. dep_complete c st) ds st = Some u" "mset reqs = mset ds"
      "u = st\<lparr>r_stubs := (\<lambda>t. if t = l then Some (y\<lparr>sb_reqs := reqs\<rparr>)
        else if t \<in> set ds then map_option (\<lambda>x. x\<lparr>sb_complete := True\<rparr>) (r_stubs st t) else r_stubs st t)\<rparr>"
    using items_complete [OF assms(1-3) m, of ds] assms cs by auto
  have sr: "set reqs = set ds" "length reqs = length ds" using u(2) by (metis set_mset_mset, metis size_mset)
  obtain x where x: "r_stubs st c = Some x" "sb_deps x = [l]" "sb_data x \<noteq> None" "\<not> sb_completion x"
    using assms(12) cs by auto
  have cds: "c \<notin> set ds" "c \<noteq> l" using assms(10,11) cs by auto
  have uc: "r_stubs u c = Some x" using x cds by (simp add: u(3))
  have ul: "r_stubs u l = Some (y\<lparr>sb_reqs := reqs\<rparr>)" by (simp add: u(3))
  have reqs_ok: "\<forall>r \<in> set (sb_reqs (y\<lparr>sb_reqs := reqs\<rparr>)). \<exists>z. r_stubs u r = Some z \<and> sb_data z \<noteq> None"
  proof
    fix r assume "r \<in> set (sb_reqs (y\<lparr>sb_reqs := reqs\<rparr>))"
    then have r: "r \<in> set ds" "r \<in> set cs" "r \<noteq> l" using sr assms(11) cs by auto
    then obtain z where "r_stubs st r = Some z" "sb_data z \<noteq> None" using assms(12) by blast
    then show "\<exists>z. r_stubs u r = Some z \<and> sb_data z \<noteq> None" using r by (simp add: u(3))
  qed
  have os_ok: "\<forall>q \<in> set (sb_list (y\<lparr>sb_reqs := reqs\<rparr>)). q \<noteq> l \<and> (\<exists>z. r_stubs u q = Some z \<and> sb_deps z = [l])"
    using assms(13) by (fastforce simp: u(3))
  have "\<exists>u' reqs'. dep_complete c u = Some u' \<and> mset reqs' = add_mset c (mset (sb_reqs (y\<lparr>sb_reqs := reqs\<rparr>))) \<and>
    r_stubs u' l = Some (y\<lparr>sb_reqs := reqs, sb_reqs := reqs', sb_list := [], sb_complete := True\<rparr>) \<and>
    r_calls u' = r_calls u @ [Completion l] \<and>
    im_event (r_queue u') = im_event (r_queue u) @ map (\<lambda>q. \<lparr>edata = TStub q, etype = RESOURCE_REMOVE, etime = 0\<rparr>)
      (filter (\<lambda>q. q \<notin> set reqs') (sb_list (y\<lparr>sb_reqs := reqs\<rparr>)))"
    by (rule last_item_completes [OF uc x(2-4) ul _ _ cds(2) _ _ _ _ reqs_ok os_ok, where m = m])
      (use assms cs sr cds m in \<open>auto simp: u(3)\<close>)
  then obtain u' reqs' where u': "dep_complete c u = Some u'" "mset reqs' = add_mset c (mset ds)"
    "r_stubs u' l = Some (y\<lparr>sb_reqs := reqs', sb_list := [], sb_complete := True\<rparr>)"
    "r_calls u' = r_calls st @ [Completion l]"
    "im_event (r_queue u') = im_event (r_queue st) @ map (\<lambda>q. \<lparr>edata = TStub q, etype = RESOURCE_REMOVE, etime = 0\<rparr>)
      (filter (\<lambda>q. q \<notin> set reqs') (sb_list y))"
    using u(2) by (auto simp: u(3))
  have "mset reqs' = mset cs" using u'(2) cs by simp
  moreover have "set reqs' = set cs" using calculation by (metis set_mset_mset)
  moreover have "fold_opt (\<lambda>st c. dep_complete c st) cs st = Some u'" using u(1) u'(1) by (simp add: cs fold_opt_append)
  ultimately show ?thesis using u' by simp
qed

subsection \<open>Examples\<close>

text \<open>A list with two items, which it is updated from, and a former item that is gone.\<close>

definition example_stub :: "string \<Rightarrow> nat list \<Rightarrow> stub" where
  "example_stub name deps =
     \<lparr>sb_name = name, sb_data = Some (SeData (\<lambda>_. Num 0) (Some name) []), sb_type = 110, sb_info = None, sb_time = 0,
      sb_conn = 0, sb_status = 200, sb_poll_next = 0, sb_poll_rate = 900, sb_complete = False, sb_flag = 0,
      sb_flags = 0, sb_offset = 0, sb_all = 0, sb_moved = None, sb_list = [], sb_deps = deps, sb_reqs = [],
      sb_completion = False\<rparr>"

definition example_list :: stub where
  "example_list = (example_stub ''/edev'' [])\<lparr>sb_info := Some (list_info 115 273 ''EndDevice'' 110 []), sb_all := 2,
     sb_list := [2, 3], sb_completion := True\<rparr>"

definition example_state :: rstate where
  "example_state =
     \<lparr>r_clock = 0, r_offset = 0, r_scope = 0,
      r_stubs = [0 \<mapsto> example_list, 1 \<mapsto> example_stub ''/edev/1'' [0], 2 \<mapsto> example_stub ''/edev/2'' [0], 3 \<mapsto> example_stub ''/edev/3'' [0]],
      r_next = 4, r_table = (\<lambda>_. [])(''/edev'' := [0], ''/edev/1'' := [1], ''/edev/2'' := [2], ''/edev/3'' := [3]),
      r_conns = (\<lambda>_. \<lparr>cn_host = ipv4_address 0 443, cn_secure = True, cn_closed = False, cn_requests = []\<rparr>),
      r_open = [], r_next_conn = 1, r_queue = event_init, r_calls = []\<rparr>"

lemmas example_defs = example_state_def example_list_def example_stub_def

theorem list_update_completes_witness:
  "\<exists>st' y'. fold_opt (\<lambda>st c. dep_complete c st) [1, 2] example_state = Some st' \<and> r_stubs st' 0 = Some y' \<and>
    sb_complete y' \<and> mset (sb_reqs y') = mset [1, 2] \<and> sb_list y' = [] \<and> r_calls st' = [Completion 0] \<and>
    im_event (r_queue st') = [\<lparr>edata = TStub 3, etype = RESOURCE_REMOVE, etime = 0\<rparr>]"
  using list_update_completes [of example_state 0 example_list "list_info 115 273 ''EndDevice'' 110 []" "[1, 2]"]
  by (simp add: example_defs event_init_def)

theorem dep_complete_returns_witness:
  "\<exists>st' x'. dep_complete 1 example_state = Some st' \<and> links_ok st' \<and> r_stubs st' 1 = Some x' \<and> sb_complete x' \<and>
    dom (r_stubs st') = dom (r_stubs example_state)"
proof (rule dep_complete_returns)
  show "links_ok example_state" by (simp add: links_ok_def example_defs)
  show "acyclic (dep_rel example_state)"
    by (rule acyclicI_order [where f = id]) (auto simp: dep_rel_def example_defs split: if_splits)
  show "dom (r_stubs example_state) \<subseteq> {..<r_next example_state}" by (auto simp: example_defs split: if_splits)
  show "r_stubs example_state 1 = Some (example_stub ''/edev/1'' [0])" by (simp add: example_state_def)
  show "sb_data (example_stub ''/edev/1'' [0]) \<noteq> None" by (simp add: example_stub_def)
qed

theorem remove_stub_leaves_entry_witness:
  "\<exists>st'. remove_stub 3 example_state = Some st' \<and> r_stubs st' 3 = None \<and> r_table st' ''/edev/3'' = [3] \<and>
    get_stub ''/edev/3'' 110 0 st' = None"
proof -
  have "remove_stub 3 example_state \<noteq> None"
    by (simp add: remove_stub_def delete_reqs_def remove_reqs_def remove_deps_def find_resource_def get_s_def
        delete_resource_def set_chain_def free_resource_def example_defs Let_def)
  then obtain st' where "remove_stub 3 example_state = Some st'" by blast
  moreover have "r_stubs example_state 3 = Some (example_stub ''/edev/3'' [0])" "r_table example_state ''/edev/3'' = [3]"
    by (simp_all add: example_state_def)
  ultimately show ?thesis
    using remove_stub_leaves_entry [of example_state 3 "example_stub ''/edev/3'' [0]" st' 110 0] by (simp add: example_stub_def)
qed

end
