(* ===== verification/Der.thy ===== *)
theory Der
  imports Schedule Retrieve
begin

section \<open>DER devices (core/der.c, core/der_client.c, core/time.c)\<close>

text \<open>
  A device has one schedule: device \<open>i\<close> is the context of schedule \<open>i\<close>. \<open>schedule_der\<close> collects
  the DER programs of an end device, removes the blocks of programs that are gone and enters the
  events of the others. \<open>der_poll\<close> handles the internal events until one is left for the
  application. The JSON lines are the text that the program prints for its gateway.

  The state joins that of the event schedules and that of the retrieval module: an event stub of
  the former is the stub with the same number of the latter, and both work on one event queue,
  that of the schedules. \<open>None\<close> is an invalid memory access.
\<close>

unbundle bit_operations_syntax

subsection \<open>Time\<close>

text \<open>\<open>se_time_offset\<close> is an \<open>int\<close>: the difference of two 64-bit times is truncated.\<close>

definition set_time :: "se_time \<Rightarrow> world \<Rightarrow> world" where
  "set_time tm w = w\<lparr>w_offset := c_int (currentTime tm - w_clock w)\<rparr>"

subsection \<open>The control base\<close>

definition copy_field :: "nat \<Rightarrow> (se_der_control_base \<Rightarrow> se_der_control_base \<Rightarrow> se_der_control_base) \<Rightarrow>
    se_der_control_base \<Rightarrow> se_der_control_base \<Rightarrow> se_der_control_base" where
  "copy_field f upd b a = (if se_exists b f then upd b a else a)"

definition copy_boolean :: "nat \<Rightarrow> se_der_control_base \<Rightarrow> se_der_control_base \<Rightarrow> se_der_control_base" where
  "copy_boolean t b a = (if se_flags b AND push_bit t 1 \<noteq> 0 then se_set a t else a)"

definition copy_der_base :: "se_der_control_base \<Rightarrow> se_der_control_base \<Rightarrow> u32 \<Rightarrow> se_der_control_base" where
  "copy_der_base a b m =
     (let b = b\<lparr>se_flags := se_flags b AND m\<rparr>;
          a = a\<lparr>se_flags := se_flags a OR m\<rparr>;
          a = copy_boolean t_opModConnect b a;
          a = copy_boolean t_opModEnergize b a;
          a = copy_field f_opModFixedPF (\<lambda>b a. a\<lparr>opModFixedPF := opModFixedPF b\<rparr>) b a;
          a = copy_field f_opModFixedVar (\<lambda>b a. a\<lparr>opModFixedVar := opModFixedVar b\<rparr>) b a;
          a = copy_field f_opModFixedW (\<lambda>b a. a\<lparr>opModFixedW := opModFixedW b\<rparr>) b a;
          a = copy_field f_opModFreqDroop (\<lambda>b a. a\<lparr>opModFreqDroop := opModFreqDroop b\<rparr>) b a;
          a = copy_field f_opModFreqWatt (\<lambda>b a. a\<lparr>opModFreqWatt := opModFreqWatt b\<rparr>) b a;
          a = copy_field f_opModHFRTMustTrip (\<lambda>b a. a\<lparr>opModHFRTMustTrip := opModHFRTMustTrip b\<rparr>) b a;
          a = copy_field f_opModHVRTMomentaryCessation (\<lambda>b a. a\<lparr>opModHVRTMomentaryCessation := opModHVRTMomentaryCessation b\<rparr>) b a;
          a = copy_field f_opModHVRTMustTrip (\<lambda>b a. a\<lparr>opModHVRTMustTrip := opModHVRTMustTrip b\<rparr>) b a;
          a = copy_field f_opModLFRTMustTrip (\<lambda>b a. a\<lparr>opModLFRTMustTrip := opModLFRTMustTrip b\<rparr>) b a;
          a = copy_field f_opModLVRTMomentaryCessation (\<lambda>b a. a\<lparr>opModLVRTMomentaryCessation := opModLVRTMomentaryCessation b\<rparr>) b a;
          a = copy_field f_opModLVRTMustTrip (\<lambda>b a. a\<lparr>opModLVRTMustTrip := opModLVRTMustTrip b\<rparr>) b a;
          a = copy_field f_opModVoltVar (\<lambda>b a. a\<lparr>opModVoltVar := opModVoltVar b\<rparr>) b a;
          a = copy_field f_opModVoltWatt (\<lambda>b a. a\<lparr>opModVoltWatt := opModVoltWatt b\<rparr>) b a;
          a = copy_field f_opModWattPF (\<lambda>b a. a\<lparr>opModWattPF := opModWattPF b\<rparr>) b a;
          a = copy_field f_opModWattVar (\<lambda>b a. a\<lparr>opModWattVar := opModWattVar b\<rparr>) b a;
          a = copy_field f_rampTms (\<lambda>b a. a\<lparr>rampTms := rampTms b\<rparr>) b a
      in a)"


text \<open>The limits and targets of power are not among the fields that are copied, but \<open>_flags\<close> says that they are.\<close>

lemma copy_steps:
  "opModMaxLimW (copy_field f upd b a) = (if se_exists b f then opModMaxLimW (upd b a) else opModMaxLimW a)"
  "opModTargetW (copy_field f upd b a) = (if se_exists b f then opModTargetW (upd b a) else opModTargetW a)"
  "opModTargetVar (copy_field f upd b a) = (if se_exists b f then opModTargetVar (upd b a) else opModTargetVar a)"
  "opModMaxLimW (copy_boolean t b a) = opModMaxLimW a" "opModTargetW (copy_boolean t b a) = opModTargetW a"
  "opModTargetVar (copy_boolean t b a) = opModTargetVar a"
  by (simp_all add: copy_field_def copy_boolean_def se_set_def)

lemma copy_der_base_stale:
  "opModMaxLimW (copy_der_base a b m) = opModMaxLimW a" "opModTargetW (copy_der_base a b m) = opModTargetW a"
  "opModTargetVar (copy_der_base a b m) = opModTargetVar a"
  by (simp_all add: copy_der_base_def Let_def copy_steps)

subsection \<open>State\<close>

record der_device =
  dd_sfdi :: u64
  dd_lfdi :: "u8 list"
  dd_derpl :: "nat list"
  dd_dderc :: "nat option"

record end_device =
  ed_sfdi :: u64
  ed_has_lfdi :: bool

record der_state =
  d_world :: world
  d_retrieve :: rstate
  d_table :: "u64 \<rightharpoonup> nat"
  d_devices :: "nat \<Rightarrow> der_device"
  d_next :: nat
  d_edev :: "nat \<Rightarrow> end_device"
  d_controls :: "nat \<Rightarrow> se_default_der_control"

definition upd_device :: "nat \<Rightarrow> (der_device \<Rightarrow> der_device) \<Rightarrow> der_state \<Rightarrow> der_state" where
  "upd_device i f st = st\<lparr>d_devices := (d_devices st)(i := f (d_devices st i))\<rparr>"

definition in_world :: "(world \<Rightarrow> world) \<Rightarrow> der_state \<Rightarrow> der_state" where
  "in_world f st = st\<lparr>d_world := f (d_world st)\<rparr>"

text \<open>An operation of the retrieval module on the common event queue.\<close>

definition in_retrieve :: "(rstate \<Rightarrow> rstate option) \<Rightarrow> der_state \<Rightarrow> der_state option" where
  "in_retrieve f st =
     do { r \<leftarrow> f ((d_retrieve st)\<lparr>r_queue := w_queue (d_world st)\<rparr>);
          Some (st\<lparr>d_retrieve := r, d_world := (d_world st)\<lparr>w_queue := r_queue r\<rparr>\<rparr>) }"

subsection \<open>Devices\<close>

definition new_schedule :: "nat \<Rightarrow> schedule" where
  "new_schedule context = \<lparr>s_next = 0, s_device = 0, s_context = context, s_blocks = Map.empty, s_scheduled = [],
     s_active = [], s_superseded = []\<rparr>"

definition get_device :: "u64 \<Rightarrow> der_state \<Rightarrow> der_state \<times> nat" where
  "get_device sfdi st =
     (case d_table st sfdi of
        Some i \<Rightarrow> (st, i)
      | None \<Rightarrow>
          let i = d_next st;
              st = upd_device i (\<lambda>_. \<lparr>dd_sfdi = sfdi, dd_lfdi = replicate 20 0, dd_derpl = [], dd_dderc = None\<rparr>) st
          in (in_world (upd_schedule i (\<lambda>_. new_schedule i)) (st\<lparr>d_next := Suc i, d_table := (d_table st)(sfdi \<mapsto> i)\<rparr>), i))"

text \<open>\<open>load_device_cert\<close> gives the identifiers of a certificate file.\<close>

definition device_cert :: "u64 \<times> u8 list \<Rightarrow> der_state \<Rightarrow> der_state" where
  "device_cert cert st = (case get_device (fst cert) st of (st, i) \<Rightarrow> upd_device i (\<lambda>d. d\<lparr>dd_lfdi := take 20 (snd cert)\<rparr>) st)"

subsection \<open>Programs\<close>

text \<open>
  The blocks of a schedule in the order in which the hash table has them: \<open>order\<close> is the order of
  the keys. The status is looked at after the removal, as in the code.
\<close>

definition abort_block :: "nat \<Rightarrow> nat list \<Rightarrow> nat \<Rightarrow> world \<Rightarrow> world" where
  "abort_block s derpl eb w =
     (case eb_program (w_blocks w eb) of
        Some p \<Rightarrow>
          if p \<in> set derpl then
            let w = remove_block s eb w;
                w = (if eb_status (w_blocks w eb) = Active
                     then device_response (s_device (w_schedules w s)) (eb_event (w_blocks w eb)) EventAbortedProgram w else w)
            in upd_block eb (\<lambda>b. b\<lparr>eb_status := Aborted\<rparr>) w
          else w
      | None \<Rightarrow> w)"

definition remove_programs :: "nat \<Rightarrow> nat list \<Rightarrow> u8 list list \<Rightarrow> world \<Rightarrow> world" where
  "remove_programs s derpl order w =
     (if derpl = [] then w
      else fold (\<lambda>k w. case s_blocks (w_schedules w s) k of Some eb \<Rightarrow> abort_block s derpl eb w | None \<Rightarrow> w) order w)"

text \<open>The programs of one list of function set assignments, sorted as the list of programs is.\<close>

definition SE_FunctionSetAssignmentsList :: int where "SE_FunctionSetAssignmentsList = 140"
definition SE_DERProgramList :: int where "SE_DERProgramList = 83"
definition SE_DERControlList :: int where "SE_DERControlList = 69"
definition SE_DefaultDERControl :: int where "SE_DefaultDERControl = 94"

definition insert_program :: "rstate \<Rightarrow> nat \<Rightarrow> nat list \<Rightarrow> nat \<Rightarrow> nat list option" where
  "insert_program r s derpl m =
     do { x \<leftarrow> get_s r s; info \<leftarrow> sb_info x; insert_stub r derpl m info }"

definition add_programs :: "rstate \<Rightarrow> nat list \<Rightarrow> nat \<Rightarrow> nat list option" where
  "add_programs r derpl l =
     do { s \<leftarrow> get_subordinate r l SE_DERProgramList;
          case s of None \<Rightarrow> Some derpl
          | Some s \<Rightarrow> do { x \<leftarrow> get_s r s; fold_opt (insert_program r s) (sb_reqs x) derpl } }"

definition collect_programs :: "rstate \<Rightarrow> nat \<Rightarrow> nat list option" where
  "collect_programs r fsa = do { x \<leftarrow> get_s r fsa; fold_opt (add_programs r) (sb_reqs x) [] }"

definition program_primacy :: "rstate \<Rightarrow> nat \<Rightarrow> u8 option" where
  "program_primacy r s = do { x \<leftarrow> get_s r s; d \<leftarrow> sb_data x; Some (word_of_int (number_field d ''primacy'')) }"

text \<open>The random numbers that \<open>schedule_event\<close> draws are the last component of the state of the loop.\<close>

definition schedule_control :: "nat \<Rightarrow> nat \<Rightarrow> u8 \<Rightarrow> der_state \<times> int list \<Rightarrow> nat \<Rightarrow> (der_state \<times> int list) option" where
  "schedule_control i s prim x m =
     (case x of (st, rs) \<Rightarrow>
        do { (w, eb, rs) \<leftarrow> schedule_event i m prim rs (d_world st);
             Some (st\<lparr>d_world := upd_block eb (\<lambda>b. b\<lparr>eb_program := Some s, eb_context := Some i\<rparr>) w\<rparr>, rs) })"

definition schedule_program ::
  "nat \<Rightarrow> der_state \<times> nat option \<times> int list \<Rightarrow> nat \<Rightarrow> (der_state \<times> nat option \<times> int list) option" where
  "schedule_program i x s =
     (case x of (st, dderc, rs) \<Rightarrow>
        do { prim \<leftarrow> program_primacy (d_retrieve st) s;
             t \<leftarrow> get_subordinate (d_retrieve st) s SE_DERControlList;
             (st, rs) \<leftarrow> (case t of None \<Rightarrow> Some (st, rs)
                | Some t \<Rightarrow> do { y \<leftarrow> get_s (d_retrieve st) t; fold_opt (schedule_control i s prim) (sb_reqs y) (st, rs) });
             dderc \<leftarrow> (if dderc = None then get_subordinate (d_retrieve st) s SE_DefaultDERControl else Some dderc);
             Some (st, dderc, rs) })"

definition schedule_der :: "nat \<Rightarrow> u8 list list \<Rightarrow> int list \<Rightarrow> der_state \<Rightarrow> (der_state \<times> int list) option" where
  "schedule_der edev order rs st =
     (let e = d_edev st edev; (st, i) = get_device (ed_sfdi e) st in
      do { fsa \<leftarrow> get_subordinate (d_retrieve st) edev SE_FunctionSetAssignmentsList;
           case fsa of None \<Rightarrow> Some (st, rs)
           | Some fsa \<Rightarrow>
               let st = (if ed_has_lfdi e then st
                         else in_world (\<lambda>w. w\<lparr>w_lfdi := (w_lfdi w)(edev := dd_lfdi (d_devices st i))\<rparr>)
                                (st\<lparr>d_edev := (d_edev st)(edev := e\<lparr>ed_has_lfdi := True\<rparr>)\<rparr>)) in
               do { derpl \<leftarrow> collect_programs (d_retrieve st) fsa;
                    let st = in_world (remove_programs i (subtract_ids (dd_derpl (d_devices st i)) derpl) order) st;
                    let st = in_world (upd_schedule i (\<lambda>s. s\<lparr>s_scheduled := [], s_active := [], s_superseded := [], s_device := edev\<rparr>)) st;
                    (st, dderc, rs) \<leftarrow> fold_opt (schedule_program i) derpl (st, None, rs);
                    let st = upd_device i (\<lambda>d. d\<lparr>dd_derpl := derpl, dd_dderc := dderc\<rparr>) st;
                    Some (in_world (\<lambda>w. add_event (TDevice i) DEVICE_SCHEDULE 0 (add_event (TSchedule i) SCHEDULE_UPDATE 0 w)) st, rs) } })"

subsection \<open>The loop of the client\<close>

text \<open>
  One internal event; \<open>None\<close> inside means that the event is for the application. The cases of
  the switch fall through: a poll also updates, a removal also removes the stub.
\<close>

definition handle_update :: "nat \<Rightarrow> der_state \<Rightarrow> der_state" where
  "handle_update s st =
     (let st = in_world (update_schedule s) st; sc = w_schedules (d_world st) s in
      if s_active sc = [] \<and> dd_dderc (d_devices st (s_context sc)) \<noteq> None
      then in_world (add_event (TDevice (s_context sc)) DEFAULT_CONTROL 0) st else st)"

definition handle_event :: "event_type \<Rightarrow> target \<Rightarrow> der_state \<Rightarrow> der_state option option" where
  "handle_event t any st =
     (case (t, any) of
        (SCHEDULE_UPDATE, TSchedule s) \<Rightarrow> Some (Some (handle_update s st))
      | (RESOURCE_POLL, TStub s) \<Rightarrow> map_option Some (Option.bind (in_retrieve (poll_resource s) st) (in_retrieve (update_resource s)))
      | (RESOURCE_UPDATE, TStub s) \<Rightarrow> map_option Some (in_retrieve (update_resource s) st)
      | (RESOURCE_REMOVE, TStub s) \<Rightarrow>
          do { x \<leftarrow> get_s (d_retrieve st) s; event \<leftarrow> is_event_type (sb_type x);
               map_option Some (in_retrieve (remove_stub s) (if event then in_world (delete_blocks s) st else st)) }
      | (RETRIEVE_FAIL, TStub s) \<Rightarrow> map_option Some (in_retrieve (remove_stub s) st)
      | _ \<Rightarrow> Some None)"

text \<open>The loop with fuel; with no event left the result is \<open>EVENT_NONE\<close>, and the platform is polled.\<close>

primrec der_poll :: "nat \<Rightarrow> der_state \<Rightarrow> (der_state \<times> event_type \<times> target option) option" where
  "der_poll 0 st = None"
| "der_poll (Suc n) st =
     (case next_event (se_time (d_world st)) (w_queue (d_world st)) of
        (q, t, any) \<Rightarrow>
          let st = in_world (\<lambda>w. w\<lparr>w_queue := q\<rparr>) st in
          case any of
            None \<Rightarrow> Some (st, EVENT_NONE, None)
          | Some d \<Rightarrow>
              do { r \<leftarrow> handle_event t d st;
                   case r of None \<Rightarrow> Some (st, t, Some d) | Some st \<Rightarrow> der_poll n st })"

subsection \<open>Output\<close>

definition json_field :: "string \<Rightarrow> string \<Rightarrow> string" where
  "json_field name v = [CHR 0x22] @ name @ [CHR 0x22, CHR '':''] @ v"

definition control_fields :: "se_der_control_base \<Rightarrow> (bool \<times> string) list" where
  "control_fields b =
     [(se_exists b f_opModFixedW, json_field ''opModFixedW'' (show_int (opModFixedW b))),
      (se_exists b f_opModMaxLimW, json_field ''opModMaxLimW'' (show_int (uint (opModMaxLimW b)))),
      (se_exists b f_opModTargetW, json_field ''opModTargetW'' (show_int (ap_value (opModTargetW b)))),
      (se_exists b f_opModFixedVar, json_field ''opModFixedVar'' (show_int (fv_value (opModFixedVar b)))),
      (se_exists b f_opModTargetVar, json_field ''opModTargetVar'' (show_int (rp_value (opModTargetVar b)))),
      (se_exists b f_rampTms, json_field ''rampTms'' (show_int (uint (rampTms b)))),
      (se_exists b f_opModConnect, json_field ''opModConnect'' (if se_exists b t_opModConnect then ''true'' else ''false'')),
      (se_exists b f_opModEnergize, json_field ''opModEnergize'' (if se_exists b t_opModEnergize then ''true'' else ''false''))]"

text \<open>The text and \<open>first\<close>, whether nothing was printed.\<close>

fun emit_fields :: "bool \<Rightarrow> (bool \<times> string) list \<Rightarrow> string \<times> bool" where
  "emit_fields first [] = ([], first)"
| "emit_fields first ((x, s) # fs) =
     (if x then (case emit_fields False fs of (t, f) \<Rightarrow> ((if first then [] else '','') @ s @ t, f)) else emit_fields first fs)"

definition emit_control_base :: "se_der_control_base \<Rightarrow> string \<times> bool" where
  "emit_control_base b = emit_fields True (control_fields b)"

definition emit_event_json :: "event_block \<Rightarrow> string \<Rightarrow> der_state \<Rightarrow> string option" where
  "emit_event_json eb type st =
     do { i \<leftarrow> eb_context eb;
          let ev = event_data (d_world st) (eb_event eb);
          Some (''EVENT_JSON:{'' @ json_field ''type'' ([CHR 0x22] @ type @ [CHR 0x22]) @ '','' @
            json_field ''sfdi'' (show_int (uint (dd_sfdi (d_devices st i)))) @ '','' @
            json_field ''mrid'' ([CHR 0x22] @ concat (map show_hex2 (take 16 (mRID ev))) @ [CHR 0x22]) @ '','' @
            json_field ''description'' ([CHR 0x22] @ description ev @ [CHR 0x22]) @
            (case st_object (w_events (d_world st) (eb_event eb)) of
               DERControl c \<Rightarrow> if type = ''start'' then '','' @ json_field ''control'' (''{'' @ fst (emit_control_base (DERControlBase c)) @ ''}'') else []
             | _ \<Rightarrow> []) @ ''}'' @ [CHR 0x0A]) }"

definition emit_default_control_json :: "nat \<Rightarrow> der_state \<Rightarrow> string option" where
  "emit_default_control_json i st =
     do { dc \<leftarrow> map_option (d_controls st) (dd_dderc (d_devices st i));
          Some (''EVENT_JSON:{'' @ json_field ''type'' ([CHR 0x22] @ ''default_control'' @ [CHR 0x22]) @ '','' @
            json_field ''sfdi'' (show_int (uint (dd_sfdi (d_devices st i)))) @ '','' @
            json_field ''description'' ([CHR 0x22] @ dd_description dc @ [CHR 0x22]) @ '','' @
            json_field ''control'' (''{'' @ fst (emit_control_base (dd_DERControlBase dc)) @ ''}}'' @ [CHR 0x0A])) }"

subsection \<open>The removal of programs\<close>

lemma device_response_world:
  "w_blocks (device_response d e r w) = w_blocks w" "w_schedules (device_response d e r w) = w_schedules w"
  "w_events (device_response d e r w) = w_events w" "w_queue (device_response d e r w) = w_queue w"
  by (auto simp: device_response_def log_action_def Let_def)

lemma remove_block_blocks:
  "b \<noteq> eb \<Longrightarrow> w_blocks (remove_block s eb w) b = w_blocks w b"
  "eb_status (w_blocks (remove_block s eb w) eb) = eb_status (w_blocks w eb)"
  "eb_program (w_blocks (remove_block s eb w) eb) = eb_program (w_blocks w eb)"
  "s_blocks (w_schedules (remove_block s eb w) t) = s_blocks (w_schedules w t)"
  by (auto simp: remove_block_def Let_def upd_block_def upd_schedule_def add_event_def drop_event_def)

lemma abort_block_effect:
  "w_blocks (abort_block s ps eb w) b =
     (if b = eb \<and> (\<exists>p \<in> set ps. eb_program (w_blocks w eb) = Some p)
      then (w_blocks (remove_block s eb w) eb)\<lparr>eb_status := Aborted\<rparr> else w_blocks w b)"
  "s_blocks (w_schedules (abort_block s ps eb w) t) = s_blocks (w_schedules w t)"
  by (auto simp: abort_block_def Let_def upd_block_def device_response_world remove_block_blocks split: option.splits)

lemma abort_fold:
  assumes "\<And>k. s_blocks (w_schedules w s) k = B k"
  shows "(\<forall>t k. s_blocks (w_schedules (fold (\<lambda>k w. case s_blocks (w_schedules w s) k of Some eb \<Rightarrow> abort_block s ps eb w | None \<Rightarrow> w) ks w) t) k =
       s_blocks (w_schedules w t) k) \<and>
    eb_program (w_blocks (fold (\<lambda>k w. case s_blocks (w_schedules w s) k of Some eb \<Rightarrow> abort_block s ps eb w | None \<Rightarrow> w) ks w) b) = eb_program (w_blocks w b) \<and>
    eb_status (w_blocks (fold (\<lambda>k w. case s_blocks (w_schedules w s) k of Some eb \<Rightarrow> abort_block s ps eb w | None \<Rightarrow> w) ks w) b) =
      (if (\<exists>k \<in> set ks. B k = Some b) \<and> (\<exists>p \<in> set ps. eb_program (w_blocks w b) = Some p) then Aborted else eb_status (w_blocks w b))"
  using assms
proof (induction ks arbitrary: w)
  case (Cons k ks)
  show ?case
  proof (cases "B k")
    case None
    then show ?thesis using Cons.IH [OF Cons.prems] Cons.prems by simp
  next
    case (Some eb)
    have p: "\<And>k. s_blocks (w_schedules (abort_block s ps eb w) s) k = B k" using Cons.prems by (simp add: abort_block_effect)
    have e: "eb_program (w_blocks (abort_block s ps eb w) b) = eb_program (w_blocks w b)"
      by (simp add: abort_block_effect remove_block_blocks)
    show ?thesis using Cons.IH [OF p] Cons.prems Some e by (auto simp: abort_block_effect)
  qed
qed simp

text \<open>C29: When programs are no longer assigned to a device, exactly the blocks of the schedule that came
  from them are aborted; every other block keeps its status.\<close>
theorem remove_programs_aborts:
  assumes "dom (s_blocks (w_schedules w s)) \<subseteq> set order"
  shows "eb_status (w_blocks (remove_programs s ps order w) b) =
    (if b \<in> ran (s_blocks (w_schedules w s)) \<and> (\<exists>p \<in> set ps. eb_program (w_blocks w b) = Some p) then Aborted
     else eb_status (w_blocks w b))"
proof (cases "ps = []")
  case False
  have "b \<in> ran (s_blocks (w_schedules w s)) \<longleftrightarrow> (\<exists>k \<in> set order. s_blocks (w_schedules w s) k = Some b)"
    using assms by (auto simp: ran_def)
  then show ?thesis
    using abort_fold [of w s "s_blocks (w_schedules w s)" ps order b] False by (simp add: remove_programs_def)
qed (simp add: remove_programs_def)

definition two_programs :: world where
  "two_programs = (example_world 100 [(example_block 0 Scheduled 1 0 200 300)\<lparr>eb_program := Some 7\<rparr>,
       (example_block 1 Scheduled 1 0 400 500)\<lparr>eb_program := Some 8\<rparr>] [] (empty_schedule\<lparr>s_blocks := [[1] \<mapsto> 0, [2] \<mapsto> 1]\<rparr>))"

lemma remove_programs_aborts_witness:
  "eb_status (w_blocks (remove_programs 0 [7] [[1], [2]] two_programs) 0) = Aborted \<and>
   eb_status (w_blocks (remove_programs 0 [7] [[1], [2]] two_programs) 1) = Scheduled"
  using remove_programs_aborts [of two_programs 0 "[[1], [2]]" "[7]" 0] remove_programs_aborts [of two_programs 0 "[[1], [2]]" "[7]" 1]
  by (auto simp: two_programs_def example_world_def empty_schedule_def example_block_def ran_def)

text \<open>C30: When the timed event of a schedule comes up at the end of the only active control of a device, and no other
  is scheduled, the application learns of the end of the event and then, if there is a default control, that it
  is in force.\<close>
theorem default_control_after_end:
  assumes "im_event (w_queue (d_world st)) = []"
    and "cur_event (w_queue (d_world st)) = \<lparr>edata = TSchedule s, etype = SCHEDULE_UPDATE, etime = t\<rparr> # es" "t \<le> se_time (d_world st)"
    and "s_active (w_schedules (d_world st) s) = [eb]" "s_scheduled (w_schedules (d_world st) s) = []"
      "s_superseded (w_schedules (d_world st) s) = []"
    and "eb_status (w_blocks (d_world st) eb) = Active" "eb_end (w_blocks (d_world st) eb) \<le> se_time (d_world st)"
    and "dd_dderc (d_devices st (s_context (w_schedules (d_world st) s))) \<noteq> None"
  shows "\<exists>st1 st2. der_poll (n + 2) st = Some (st1, EVENT_END, Some (TBlock eb)) \<and>
    der_poll (n + 1) st1 = Some (st2, DEFAULT_CONTROL, Some (TDevice (s_context (w_schedules (d_world st) s)))) \<and>
    eb_status (w_blocks (d_world st2) eb) = Completed"
proof -
  let ?w = "d_world st" and ?c = "s_context (w_schedules (d_world st) s)"
  define st0 where "st0 = in_world (\<lambda>w. w\<lparr>w_queue := (w_queue w)\<lparr>cur_event := es\<rparr>\<rparr>) st"
  have st0: "d_devices st0 = d_devices st" "w_schedules (d_world st0) = w_schedules ?w" "w_blocks (d_world st0) = w_blocks ?w"
      "im_event (w_queue (d_world st0)) = []" "se_time (d_world st0) = se_time ?w"
    using assms(1) by (simp_all add: st0_def in_world_def se_time_def)
  define w1 where "w1 = update_schedule s (d_world st0)"
  have up: "update_active s (se_time ?w) [eb] (d_world st0) =
     (set_status eb Completed (add_event (TBlock eb) EVENT_END 0
        (device_response (s_device (w_schedules ?w s)) (eb_event (w_blocks ?w eb)) EventCompleted (d_world st0))), [], 0)"
    using assms(7,8) st0 by (simp add: Let_def)
  have w1: "im_event (w_queue w1) = [\<lparr>edata = TBlock eb, etype = EVENT_END, etime = 0\<rparr>]" "s_active (w_schedules w1 s) = []"
      "s_context (w_schedules w1 s) = ?c" "eb_status (w_blocks w1 eb) = Completed"
    using assms(4-6) st0 up
    by (simp_all add: w1_def update_schedule_def Let_def set_status_def upd_block_def upd_schedule_def add_event_def
        device_response_world insert_event_def)
  define st1 where "st1 = in_world (\<lambda>w. w\<lparr>w_queue := (w_queue w)\<lparr>im_event := [\<lparr>edata = TDevice ?c, etype = DEFAULT_CONTROL, etime = 0\<rparr>]\<rparr>\<rparr>) (st0\<lparr>d_world := w1\<rparr>)"
  define st2 where "st2 = in_world (\<lambda>w. w\<lparr>w_queue := (w_queue w)\<lparr>im_event := []\<rparr>\<rparr>) st1"
  have h: "handle_update s st0 = in_world (add_event (TDevice ?c) DEFAULT_CONTROL 0) (st0\<lparr>d_world := w1\<rparr>)"
    using w1 assms(9) st0 by (simp add: handle_update_def Let_def in_world_def w1_def)
  have "der_poll (n + 2) st = der_poll (n + 1) (handle_update s st0)"
    using assms(1-3) by (simp add: next_event_def handle_event_def st0_def in_world_def Let_def)
  also have "\<dots> = Some (st1, EVENT_END, Some (TBlock eb))"
    unfolding h using w1(1) by (simp add: next_event_def handle_event_def in_world_def add_event_def insert_event_def st1_def Let_def)
  finally have "der_poll (n + 2) st = Some (st1, EVENT_END, Some (TBlock eb))" .
  moreover have "der_poll (n + 1) st1 = Some (st2, DEFAULT_CONTROL, Some (TDevice ?c))"
    by (simp add: next_event_def handle_event_def in_world_def st1_def st2_def Let_def)
  moreover have "eb_status (w_blocks (d_world st2) eb) = Completed"
    using w1(4) by (simp add: st2_def st1_def in_world_def)
  ultimately show ?thesis by blast
qed

definition no_retrieval :: rstate where
  "no_retrieval = \<lparr>r_clock = 0, r_offset = 0, r_scope = 0, r_stubs = Map.empty, r_next = 0, r_table = (\<lambda>_. []),
     r_conns = (\<lambda>_. \<lparr>cn_host = ipv4_address 0 443, cn_secure = True, cn_closed = False, cn_requests = []\<rparr>),
     r_open = [], r_next_conn = 0, r_queue = event_init, r_calls = []\<rparr>"

definition example_default :: se_default_der_control where
  "example_default = \<lparr>se_flags = 0, href = None, dd_subscribable = 0, dd_mRID = [9], dd_description = ''standby'', dd_version = 0,
     dd_DERControlBase = base_control 0, setESDelay = 0, setESHighFreq = 0, setESHighVolt = 0, setESLowFreq = 0,
     setESLowVolt = 0, setESRandomDelay = 0, setGradW = 0, setSoftGradW = 0\<rparr>"

text \<open>A device whose only control ran from 100 to 200 and has to be ended; its default control is stub 5.\<close>

definition ending_control :: der_state where
  "ending_control =
     \<lparr>d_world = (example_world 200 [example_block 0 Active 1 0 100 200] [example_stub (example_control 1 1 0 100 100)]
        (empty_schedule\<lparr>s_blocks := [[1] \<mapsto> 0], s_active := [0]\<rparr>))
        \<lparr>w_queue := event_init\<lparr>cur_event := [\<lparr>edata = TSchedule 0, etype = SCHEDULE_UPDATE, etime = 200\<rparr>]\<rparr>\<rparr>,
      d_retrieve = no_retrieval, d_table = [111 \<mapsto> 0],
      d_devices = (\<lambda>_. \<lparr>dd_sfdi = 111, dd_lfdi = replicate 20 0, dd_derpl = [], dd_dderc = Some 5\<rparr>), d_next = 1,
      d_edev = (\<lambda>_. \<lparr>ed_sfdi = 111, ed_has_lfdi = True\<rparr>), d_controls = (\<lambda>_. example_default)\<rparr>"

lemma default_control_after_end_witness:
  "\<exists>st1 st2. der_poll 2 ending_control = Some (st1, EVENT_END, Some (TBlock 0)) \<and>
    der_poll 1 st1 = Some (st2, DEFAULT_CONTROL, Some (TDevice 0)) \<and>
    eb_status (w_blocks (d_world st2) 0) = Completed"
proof -
  have c: "s_context (w_schedules (d_world ending_control) 0) = 0"
    by (simp add: ending_control_def example_world_def empty_schedule_def)
  show ?thesis
    using default_control_after_end [of ending_control 0 200 "[]" 0 0, unfolded c]
    unfolding One_nat_def [symmetric] numeral_2_eq_2 add_0
    by (auto simp: ending_control_def event_init_def example_world_def example_block_def empty_schedule_def se_time_def
        simp del: der_poll.simps)
qed

end
