(* ===== verification/List_Util.thy ===== *)
theory List_Util
  imports Linked_List
begin

section \<open>List utilities (core/list_util.c)\<close>

text \<open>
  Copy, concatenation, in-place reversal and quicksort of linked lists, on the heap of
  \<open>Linked_List\<close>. \<open>quick_sort_heap\<close> shows that the pointer program is memory safe, ends,
  and computes \<open>quick_sort_by\<close>, which sorts under the contract of \<open>c_compare\<close>.
\<close>

subsection \<open>Operations\<close>

partial_function (option) list_dup_loop :: "mem \<Rightarrow> addr \<Rightarrow> addr \<Rightarrow> addr \<Rightarrow> (mem \<times> addr) option" where
  "list_dup_loop m l prev head =
     (if l = 0 then Some (m, head)
      else do {
        c \<leftarrow> rd m l;
        let (m, n) = malloc m \<lparr>nx = 0, da = da c\<rparr>;
        if prev \<noteq> 0 then do {
          m \<leftarrow> set_next m prev n;
          c \<leftarrow> rd m l;
          list_dup_loop m (nx c) prev head }
        else do {
          c \<leftarrow> rd m l;
          list_dup_loop m (nx c) n n } })"

definition list_dup :: "mem \<Rightarrow> addr \<Rightarrow> (mem \<times> addr) option" where
  "list_dup m list = list_dup_loop m list 0 0"

partial_function (option) last_node :: "mem \<Rightarrow> addr \<Rightarrow> addr \<Rightarrow> addr option" where
  "last_node m prev n =
     (if n = 0 then Some prev else do { c \<leftarrow> rd m n; last_node m n (nx c) })"

definition list_cat :: "mem \<Rightarrow> addr \<Rightarrow> addr \<Rightarrow> (mem \<times> addr) option" where
  "list_cat m la lb =
     (if la \<noteq> 0 then do { prev \<leftarrow> last_node m 0 la; m \<leftarrow> set_next m prev lb; Some (m, la) }
      else Some (m, lb))"

partial_function (option) list_reverse_loop :: "mem \<Rightarrow> addr \<Rightarrow> addr \<Rightarrow> (mem \<times> addr) option" where
  "list_reverse_loop m l rv =
     (if l \<noteq> 0 then do { c \<leftarrow> rd m l; m \<leftarrow> set_next m l rv; list_reverse_loop m (nx c) l }
      else Some (m, rv))"

definition list_reverse :: "mem \<Rightarrow> addr \<Rightarrow> (mem \<times> addr) option" where
  "list_reverse m list = list_reverse_loop m list 0"

text \<open>\<open>partition\<close>: the items after the pivot go to \<open>b\<close>, the others to \<open>a\<close>.\<close>

partial_function (option) partition_loop ::
    "mem \<Rightarrow> addr \<Rightarrow> addr \<Rightarrow> addr \<Rightarrow> (addr \<Rightarrow> addr \<Rightarrow> int) \<Rightarrow> addr \<Rightarrow> (mem \<times> addr \<times> addr) option" where
  "partition_loop m b y x cmp a =
     (if y \<noteq> 0 then do {
        c \<leftarrow> rd m y;
        if cmp x y < 0 then do { m \<leftarrow> set_next m y b; partition_loop m y (nx c) x cmp a }
        else do { m \<leftarrow> set_next m y a; partition_loop m b (nx c) x cmp y } }
      else Some (m, a, b))"

partial_function (option) quick_sort :: "mem \<Rightarrow> addr \<Rightarrow> (addr \<Rightarrow> addr \<Rightarrow> int) \<Rightarrow> (mem \<times> addr) option" where
  "quick_sort m list cmp =
     do { n \<leftarrow> list_length m list;
          if n \<le> 1 then Some (m, list)
          else do {
            c \<leftarrow> rd m list;
            (m, a, b) \<leftarrow> partition_loop m 0 (nx c) list cmp 0;
            (m, a) \<leftarrow> quick_sort m a cmp;
            (m, b) \<leftarrow> quick_sort m b cmp;
            m \<leftarrow> set_next m list b;
            list_cat m a list } }"

subsection \<open>Reversal and concatenation\<close>

lemma list_reverse_loop_refines:
  assumes "is_list m l xs" "is_list m r ys" "set xs \<inter> set ys = {}"
  obtains m' q where "list_reverse_loop m l r = Some (m', q)" "is_list m' q (rev xs @ ys)"
    "relinked (set xs) m m'"
  using assms
proof (induction xs arbitrary: m l r ys thesis)
  case Nil
  then show ?case by (subst (asm) list_reverse_loop.simps) simp
next
  case (Cons a xs)
  from Cons.prems(2) obtain c where c: "l = a" "rd m a = Some c" "is_list m (nx c) xs" by auto
  have dist: "a \<notin> set xs" "a \<notin> set ys"
    using is_list_distinct [OF Cons.prems(2)] Cons.prems(4) by auto
  obtain m1 where m1: "set_next m a r = Some m1" "relinked {a} m m1" "rd m1 a = Some (c\<lparr>nx := r\<rparr>)"
    using set_next_Some [OF c(2)] .
  have xs1: "is_list m1 (nx c) xs"
    using c(3) dist relinked_is_list [OF m1(2)] by simp
  have ys1: "is_list m1 a (a # ys)"
    using Cons.prems(3) dist m1(3) relinked_is_list [OF m1(2)] by simp
  have dj: "set xs \<inter> set (a # ys) = {}"
    using Cons.prems(4) dist by auto
  obtain m' q where m': "list_reverse_loop m1 (nx c) a = Some (m', q)"
    "is_list m' q (rev xs @ a # ys)" "relinked (set xs) m1 m'"
    using Cons.IH [OF _ xs1 ys1 dj] .
  have "relinked (set (a # xs)) m m'"
    using relinked_trans [OF m1(2) m'(3)] by simp
  with m' c m1 rd_nonzero [OF c(2)] show ?case
    by (intro Cons.prems(1) [of m' q]) (simp_all add: list_reverse_loop.simps [of m a])
qed

theorem list_reverse_refines:
  assumes "is_list m p xs"
  obtains m' q where "list_reverse m p = Some (m', q)" "is_list m' q (rev xs)" "relinked (set xs) m m'"
  using list_reverse_loop_refines [of m p xs 0 "[]"] assms
  by (auto simp: list_reverse_def)

lemma last_node_refines: "is_list m n xs \<Longrightarrow> last_node m prev n = Some (tail_from prev xs)"
proof (induction xs arbitrary: prev n)
  case Nil
  then show ?case by (subst last_node.simps) simp
next
  case (Cons a xs)
  then obtain c where c: "n = a" "rd m a = Some c" "is_list m (nx c) xs" by auto
  with Cons.IH [OF c(3)] rd_nonzero [OF c(2)] show ?case
    by (subst last_node.simps) simp
qed

lemma list_cat_refines:
  assumes "is_list m la xs" "is_list m lb ys" "set xs \<inter> set ys = {}"
  obtains m' q where "list_cat m la lb = Some (m', q)" "is_list m' q (xs @ ys)" "relinked (set xs) m m'"
proof (cases xs rule: rev_cases)
  case Nil
  with assms have "list_cat m la lb = Some (m, lb)" by (simp add: list_cat_def)
  with Nil assms that show thesis by simp
next
  case (snoc as a)
  have la: "la \<noteq> 0"
    using assms(1) snoc by (metis is_list_0 append_is_Nil_conv list.distinct(1))
  have dist: "distinct (as @ [a])"
    using is_list_distinct [OF assms(1)] snoc by simp
  obtain m' where m': "set_next m a lb = Some m'" "relinked {a} m m'" "lseg m' la (as @ [a]) lb"
    using set_next_last [of m la as a 0 lb] assms(1) dist by (auto simp: snoc is_list_def)
  have "is_list m' lb ys"
    using assms(2,3) snoc by (subst relinked_is_list [OF m'(2)]) auto
  with m'(3) have "is_list m' la (xs @ ys)"
    using is_list_append [of m' la xs ys] snoc by blast
  moreover have "list_cat m la lb = Some (m', la)"
    using la m'(1) last_node_refines [OF assms(1)] by (simp add: list_cat_def snoc)
  moreover have "relinked (set xs) m m'"
    using m'(2) by (rule relinked_mono) (simp add: snoc)
  ultimately show thesis by (intro that)
qed

subsection \<open>Quicksort\<close>

text \<open>The partition and the sort on HOL lists: each half comes out in reverse order.\<close>

definition low_part :: "('a \<Rightarrow> 'a \<Rightarrow> int) \<Rightarrow> 'a \<Rightarrow> 'a list \<Rightarrow> 'a list" where
  "low_part cmp x ys = rev (filter (\<lambda>y. \<not> cmp x y < 0) ys)"

definition high_part :: "('a \<Rightarrow> 'a \<Rightarrow> int) \<Rightarrow> 'a \<Rightarrow> 'a list \<Rightarrow> 'a list" where
  "high_part cmp x ys = rev (filter (\<lambda>y. cmp x y < 0) ys)"

lemma length_parts: "length (low_part cmp x ys) \<le> length ys" "length (high_part cmp x ys) \<le> length ys"
  by (simp_all add: low_part_def high_part_def)

lemma set_parts: "set (low_part cmp x ys) = {y \<in> set ys. \<not> cmp x y < 0}"
  "set (high_part cmp x ys) = {y \<in> set ys. cmp x y < 0}"
  by (auto simp: low_part_def high_part_def)

lemma mset_parts: "mset (low_part cmp x ys) + mset (high_part cmp x ys) = mset ys"
  by (simp add: low_part_def high_part_def add.commute flip: multiset_partition)

function quick_sort_by :: "('a \<Rightarrow> 'a \<Rightarrow> int) \<Rightarrow> 'a list \<Rightarrow> 'a list" where
  "quick_sort_by cmp [] = []"
| "quick_sort_by cmp (x # ys) =
     quick_sort_by cmp (low_part cmp x ys) @ x # quick_sort_by cmp (high_part cmp x ys)"
  by pat_completeness auto
termination
  by (relation "measure (\<lambda>(cmp, xs). length xs)") (simp_all add: length_parts le_imp_less_Suc)

lemma mset_quick_sort_by [simp]: "mset (quick_sort_by cmp xs) = mset xs"
proof (induction cmp xs rule: quick_sort_by.induct)
  case (2 cmp x ys)
  then show ?case using mset_parts [of cmp x ys] by simp
qed simp

lemma set_quick_sort_by [simp]: "set (quick_sort_by cmp xs) = set xs"
  by (metis mset_quick_sort_by set_mset_mset)

context c_compare
begin

lemma sorted_quick_sort_by: "set xs \<subseteq> A \<Longrightarrow> sorted_by cmp (quick_sort_by cmp xs)"
proof (induction "length xs" arbitrary: xs rule: less_induct)
  case less
  show ?case
  proof (cases xs)
    case Nil
    then show ?thesis by (simp add: sorted_by_def)
  next
    case (Cons x ys)
    have sub: "set (low_part cmp x ys) \<subseteq> A" "set (high_part cmp x ys) \<subseteq> A" "x \<in> A"
      using less.prems Cons by (auto simp: set_parts)
    have len: "length (low_part cmp x ys) < length xs" "length (high_part cmp x ys) < length xs"
      using length_parts [of cmp x ys] Cons by simp_all
    have low: "\<forall>a \<in> set (low_part cmp x ys). cmp a x \<le> 0"
      using less.prems Cons cmp_flip [OF sub(3)] by (auto simp: set_parts)
    show ?thesis
      unfolding Cons quick_sort_by.simps
      using less.hyps [OF len(1) sub(1)] less.hyps [OF len(2) sub(2)] sub low
      by (intro sorted_split) (auto simp: set_parts)
  qed
qed

end

lemma partition_loop_refines:
  assumes "is_list m y ys" "is_list m a as" "is_list m b bs"
    "set ys \<inter> set as = {}" "set ys \<inter> set bs = {}" "set as \<inter> set bs = {}"
  obtains m' a' b' where "partition_loop m b y x cmp a = Some (m', a', b')"
    "is_list m' a' (low_part cmp x ys @ as)" "is_list m' b' (high_part cmp x ys @ bs)"
    "relinked (set ys) m m'"
  using assms
proof (induction ys arbitrary: m y a b as bs thesis)
  case Nil
  then show ?case
    by (subst (asm) partition_loop.simps) (simp add: low_part_def high_part_def)
next
  case (Cons y' ys)
  from Cons.prems(2) obtain c where c: "y = y'" "rd m y' = Some c" "is_list m (nx c) ys" by auto
  have d: "y' \<notin> set ys" "y' \<notin> set as" "y' \<notin> set bs"
    using is_list_distinct [OF Cons.prems(2)] Cons.prems(5,6) by auto
  define q where "q = (if cmp x y' < 0 then b else a)"
  obtain m1 where m1: "set_next m y' q = Some m1" "relinked {y'} m m1" "rd m1 y' = Some (c\<lparr>nx := q\<rparr>)"
    using set_next_Some [OF c(2)] .
  note same = relinked_is_list [OF m1(2)]
  have ys1: "is_list m1 (nx c) ys" using c(3) d same by simp
  have as1: "is_list m1 a as" and bs1: "is_list m1 b bs"
    using Cons.prems(3,4) d same by simp_all
  have step: "partition_loop m b y x cmp a =
    (if cmp x y' < 0 then partition_loop m1 y' (nx c) x cmp a else partition_loop m1 b (nx c) x cmp y')"
    using c m1(1) rd_nonzero [OF c(2)] by (subst partition_loop.simps) (simp add: q_def split: if_splits)
  have rel: "relinked (set ys) m1 m' \<Longrightarrow> relinked (set (y' # ys)) m m'" for m'
    using relinked_trans [OF m1(2), of "set ys" m'] by simp
  show ?case
  proof (cases "cmp x y' < 0")
    case True
    have b1: "is_list m1 y' (y' # bs)" using bs1 m1(3) True by (simp add: q_def)
    obtain m' a' b' where "partition_loop m1 y' (nx c) x cmp a = Some (m', a', b')"
      "is_list m' a' (low_part cmp x ys @ as)" "is_list m' b' (high_part cmp x ys @ y' # bs)"
      "relinked (set ys) m1 m'"
      using Cons.IH [OF _ ys1 as1 b1] Cons.prems(5-7) d by auto
    with True step rel show ?thesis
      by (intro Cons.prems(1) [of m' a' b']) (simp_all add: low_part_def high_part_def)
  next
    case False
    have a1: "is_list m1 y' (y' # as)" using as1 m1(3) False by (simp add: q_def)
    obtain m' a' b' where "partition_loop m1 b (nx c) x cmp y' = Some (m', a', b')"
      "is_list m' a' (low_part cmp x ys @ y' # as)" "is_list m' b' (high_part cmp x ys @ bs)"
      "relinked (set ys) m1 m'"
      using Cons.IH [OF _ ys1 a1 bs1] Cons.prems(5-7) d by auto
    with False step rel show ?thesis
      by (intro Cons.prems(1) [of m' a' b']) (simp_all add: low_part_def high_part_def)
  qed
qed

lemma quick_sort_by_short: "length xs \<le> 1 \<Longrightarrow> quick_sort_by cmp xs = xs"
  by (cases xs) (auto simp: low_part_def high_part_def)

theorem quick_sort_heap:
  assumes "is_list m p xs"
  obtains m' q where "quick_sort m p cmp = Some (m', q)" "is_list m' q (quick_sort_by cmp xs)"
    "relinked (set xs) m m'"
  using assms
proof (induction "length xs" arbitrary: m p xs thesis rule: less_induct)
  case less
  note len = list_length_refines [OF less.prems(2)]
  show ?case
  proof (cases "length xs \<le> 1")
    case True
    then have "quick_sort m p cmp = Some (m, p)"
      using len by (subst quick_sort.simps) simp
    with True less.prems show ?thesis by (simp add: quick_sort_by_short)
  next
    case False
    then obtain x ys where xs: "xs = x # ys" by (cases xs) auto
    with less.prems(2) obtain c where c: "p = x" "rd m x = Some c" "is_list m (nx c) ys" by auto
    let ?lo = "low_part cmp x ys" and ?hi = "high_part cmp x ys"
    have xys: "x \<notin> set ys"
      using is_list_distinct [OF less.prems(2)] xs by simp
    obtain m1 a b where m1: "partition_loop m 0 (nx c) x cmp 0 = Some (m1, a, b)"
      "is_list m1 a (?lo @ [])" "is_list m1 b (?hi @ [])" "relinked (set ys) m m1"
      by (rule partition_loop_refines [OF c(3), of 0 "[]" 0 "[]" x cmp]) auto
    have dj: "set ?lo \<inter> set ?hi = {}" "x \<notin> set ?lo" "x \<notin> set ?hi"
      using xys by (auto simp: set_parts)
    have lens: "length ?lo < length xs" "length ?hi < length xs"
      using length_parts [of cmp x ys] xs by simp_all
    obtain m2 a' where m2: "quick_sort m1 a cmp = Some (m2, a')" "is_list m2 a' (quick_sort_by cmp ?lo)"
      "relinked (set ?lo) m1 m2"
      using less.hyps [OF lens(1), of m1 a] m1(2) by auto
    have "is_list m2 b ?hi"
      using m1(3) dj by (subst relinked_is_list [OF m2(3)]) auto
    then obtain m3 b' where m3: "quick_sort m2 b cmp = Some (m3, b')" "is_list m3 b' (quick_sort_by cmp ?hi)"
      "relinked (set ?hi) m2 m3"
      using less.hyps [OF lens(2), of m2 b] by auto
    have lo3: "is_list m3 a' (quick_sort_by cmp ?lo)"
      using m2(2) dj by (subst relinked_is_list [OF m3(3)]) auto
    have rel3: "relinked (set ys) m m3"
      using relinked_trans [OF relinked_trans [OF m1(4) m2(3)] m3(3)]
      by (rule relinked_mono) (auto simp: set_parts)
    obtain c3 where "rd m3 x = Some c3"
      using relinked_rd [OF rel3 c(2)] by auto
    then obtain m4 where m4: "set_next m3 x b' = Some m4" "relinked {x} m3 m4"
      "rd m4 x = Some (c3\<lparr>nx := b'\<rparr>)"
      by (rule set_next_Some)
    have lo4: "is_list m4 a' (quick_sort_by cmp ?lo)" and "is_list m4 b' (quick_sort_by cmp ?hi)"
      using lo3 m3(2) dj by (simp_all add: relinked_is_list [OF m4(2)])
    then have x4: "is_list m4 x (x # quick_sort_by cmp ?hi)"
      using m4(3) by simp
    have "set (quick_sort_by cmp ?lo) \<inter> set (x # quick_sort_by cmp ?hi) = {}"
      using dj by auto
    from list_cat_refines [OF lo4 x4 this] obtain m5 q where m5: "list_cat m4 a' x = Some (m5, q)"
      "is_list m5 q (quick_sort_by cmp xs)" "relinked (set ?lo) m4 m5"
      by (metis xs quick_sort_by.simps(2) set_quick_sort_by)
    have "quick_sort m p cmp = Some (m5, q)"
      using len False c m1(1) m2(1) m3(1) m4(1) m5(1) by (subst quick_sort.simps) simp
    moreover have "relinked (set xs) m m5"
      using relinked_trans [OF relinked_trans [OF rel3 m4(2)] m5(3)]
      by (rule relinked_mono) (auto simp: set_parts xs)
    ultimately show ?thesis using m5(2) less.prems(1) by blast
  qed
qed

subsection \<open>list_dup copies only the first and the last item\<close>

text \<open>
  \<open>prev\<close> is set at the first copy and never moved, so every later copy is linked after the
  first one in place of the copy before it.
\<close>

definition first_last :: "'a list \<Rightarrow> 'a list" where
  "first_last ds = (case ds of [] \<Rightarrow> [] | [d] \<Rightarrow> [d] | d # _ \<Rightarrow> [d, last ds])"

lemma rd_cong: "cells m' a = cells m a \<Longrightarrow> rd m' a = rd m a"
  by (simp add: rd_def)

lemma malloc_cells:
  assumes "mem_ok m" "malloc m n = (m', a)"
  shows "a \<noteq> 0" "cells m a = None" "rd m' a = Some n" "mem_ok m'" "\<forall>b. b \<noteq> a \<longrightarrow> cells m' b = cells m b"
  using assms by (auto simp: malloc_def mem_ok_def rd_def)

lemma mem_ok_relinked: "relinked S m m' \<Longrightarrow> mem_ok m \<Longrightarrow> mem_ok m'"
proof -
  assume r: "relinked S m m'" and ok: "mem_ok m"
  have "cells m' a = None" if "brk m \<le> a" for a
  proof -
    have "map_option da (cells m' a) = map_option da (cells m a)"
      using r by (simp add: relinked_def)
    with ok that show ?thesis by (simp add: mem_ok_def)
  qed
  with r ok show "mem_ok m'" by (simp add: mem_ok_def relinked_def)
qed

text \<open>One turn of the loop once the head is there: the new copy replaces the tail.\<close>

lemma list_dup_turn:
  assumes "mem_ok m" "is_list m l (a # xs)" "rd m h = Some ch" "h \<notin> set (a # xs)"
  obtains m' n c where "rd m a = Some c" "is_list m' (nx c) xs" "mem_ok m'" "n \<notin> set xs" "n \<noteq> h"
    "list_dup_loop m l h h = list_dup_loop m' (nx c) h h"
    "rd m' h = Some (ch\<lparr>nx := n\<rparr>)" "rd m' n = Some \<lparr>nx = 0, da = dat m a\<rparr>" "datas m' xs = datas m xs"
proof -
  from assms(2) obtain c where c: "l = a" "rd m a = Some c" "is_list m (nx c) xs" by auto
  obtain m1 n where mal: "malloc m \<lparr>nx = 0, da = da c\<rparr> = (m1, n)" by fastforce
  note m1 = malloc_cells [OF assms(1) mal]
  have n_new: "n \<noteq> h" "n \<notin> set (a # xs)"
    using m1(2) rd_nonzero [OF assms(3)] is_list_alloc [OF assms(2)] by fastforce+
  have rd1: "rd m1 h = Some ch" "rd m1 a = Some c"
    using m1(5) assms(3) c(2) n_new by (metis rd_cong list.set_intros(1))+
  obtain m2 where m2: "set_next m1 h n = Some m2" "relinked {h} m1 m2" "rd m2 h = Some (ch\<lparr>nx := n\<rparr>)"
    using set_next_Some [OF rd1(1)] .
  have same: "cells m2 b = cells m b" if "b \<in> set (a # xs)" for b
  proof -
    have "b \<noteq> n" "b \<noteq> h" using that n_new assms(4) by auto
    then show ?thesis using m1(5) relinked_cells [OF m2(2), of b] by simp
  qed
  have "rd m2 a = Some c"
    using same [of a] c(2) by (auto simp: rd_def split: if_splits)
  moreover have "is_list m2 (nx c) xs"
    using c(3) is_list_cong [of xs m2 m "nx c"] same by auto
  moreover have "list_dup_loop m l h h = list_dup_loop m2 (nx c) h h"
    using c mal m2(1) \<open>rd m2 a = Some c\<close> rd_nonzero [OF c(2)] rd_nonzero [OF assms(3)]
    by (subst list_dup_loop.simps) simp
  moreover have "rd m2 n = Some \<lparr>nx = 0, da = dat m a\<rparr>"
    using m1(3) n_new relinked_cells [OF m2(2), of n] c(2) by (auto simp: rd_def dat_rd split: if_splits)
  moreover have "datas m2 xs = datas m xs"
    using same by (intro datas_cong) auto
  ultimately show thesis
    using that [of c m2 n] c(2) n_new m2(3) mem_ok_relinked [OF m2(2) m1(4)] by simp
qed

lemma list_dup_loop_result:
  assumes "mem_ok m" "is_list m l xs" "is_list m h (h # ts)" "h \<notin> set xs"
  obtains m' hs where "list_dup_loop m l h h = Some (m', h)" "is_list m' h hs"
    "datas m' hs = dat m h # (if xs = [] then datas m ts else [last (datas m xs)])"
  using assms
proof (induction xs arbitrary: m l ts thesis)
  case Nil
  then have "list_dup_loop m l h h = Some (m, h)"
    by (subst list_dup_loop.simps) simp
  with Nil.prems show ?case by (intro Nil.prems(1) [of m "h # ts"]) simp_all
next
  case (Cons a xs)
  from Cons.prems(4) obtain ch where ch: "rd m h = Some ch" by auto
  obtain m1 n c where m1: "rd m a = Some c" "is_list m1 (nx c) xs" "mem_ok m1" "n \<notin> set xs" "n \<noteq> h"
    "list_dup_loop m l h h = list_dup_loop m1 (nx c) h h" "rd m1 h = Some (ch\<lparr>nx := n\<rparr>)"
    "rd m1 n = Some \<lparr>nx = 0, da = dat m a\<rparr>" "datas m1 xs = datas m xs"
    using list_dup_turn [OF Cons.prems(2,3) ch Cons.prems(5)] .
  have hl: "is_list m1 h (h # [n])" using m1(7,8) by simp
  have d1: "dat m1 h = dat m h" "dat m1 n = dat m a"
    using dat_rd [OF m1(7)] dat_rd [OF ch] dat_rd [OF m1(8)] by simp_all
  obtain m' hs where "list_dup_loop m1 (nx c) h h = Some (m', h)" "is_list m' h hs"
    "datas m' hs = dat m1 h # (if xs = [] then datas m1 [n] else [last (datas m1 xs)])"
    using Cons.IH [OF _ m1(3,2) hl] Cons.prems(5) by auto
  with m1(6,9) d1 show ?case
    by (intro Cons.prems(1) [of m' hs]) auto
qed

theorem list_dup_result:
  assumes "mem_ok m" "is_list m p xs"
  obtains m' q ys where "list_dup m p = Some (m', q)" "is_list m' q ys"
    "datas m' ys = first_last (datas m xs)"
proof (cases xs)
  case Nil
  with assms have "list_dup m p = Some (m, 0)"
    by (simp add: list_dup_def list_dup_loop.simps)
  with Nil that [of m 0 "[]"] show thesis by (simp add: first_last_def)
next
  case (Cons a as)
  with assms(2) obtain c where c: "p = a" "rd m a = Some c" "is_list m (nx c) as" by auto
  obtain m1 h where mal: "malloc m \<lparr>nx = 0, da = da c\<rparr> = (m1, h)" by fastforce
  note m1 = malloc_cells [OF assms(1) mal]
  have h_new: "h \<notin> set (a # as)"
    using m1(2) is_list_alloc [OF assms(2)] Cons by fastforce
  have same: "cells m1 b = cells m b" if "b \<in> set (a # as)" for b
    using that m1(5) h_new by metis
  have as1: "is_list m1 (nx c) as"
    using c(3) is_list_cong [of as m1 m "nx c"] same by auto
  have rd1: "rd m1 a = Some c"
    using same [of a] c(2) by (auto simp: rd_def split: if_splits)
  have "is_list m1 h (h # [])" using m1(3) by simp
  moreover have "h \<notin> set as" using h_new by simp
  ultimately obtain m' hs where m':
    "list_dup_loop m1 (nx c) h h = Some (m', h)" "is_list m' h hs"
    "datas m' hs = dat m1 h # (if as = [] then datas m1 [] else [last (datas m1 as)])"
    using list_dup_loop_result [OF m1(4) as1] by blast
  have "list_dup m p = Some (m', h)"
    using c mal rd1 m'(1) rd_nonzero [OF c(2)] unfolding list_dup_def
    by (subst list_dup_loop.simps) simp
  moreover have "datas m' hs = first_last (datas m xs)"
  proof -
    have "datas m1 as = datas m as" using same by (intro datas_cong) auto
    moreover have "dat m1 h = dat m a"
      using dat_rd [OF m1(3)] dat_rd [OF c(2)] by simp
    ultimately show ?thesis
      using m'(3) Cons by (cases as) (auto simp: first_last_def)
  qed
  ultimately show thesis using m'(2) that by blast
qed

subsection \<open>Properties\<close>

text \<open>C3: \<open>quick_sort\<close> on a list in memory returns, relinks the cells of the list and no other
  memory, and gives the same cells in an order sorted by the comparison.\<close>

theorem quick_sort_correct:
  assumes "c_compare A cmp" "is_list m p xs" "set xs \<subseteq> A"
  shows "\<exists>m' q ys. quick_sort m p cmp = Some (m', q) \<and> is_list m' q ys \<and> mset ys = mset xs \<and>
    sorted_by cmp ys \<and> (\<forall>a. dat m' a = dat m a) \<and> (\<forall>a. a \<notin> set xs \<longrightarrow> cells m' a = cells m a)"
proof -
  obtain m' q where "quick_sort m p cmp = Some (m', q)" "is_list m' q (quick_sort_by cmp xs)" "relinked (set xs) m m'"
    using quick_sort_heap [OF assms(2)] .
  moreover have "sorted_by cmp (quick_sort_by cmp xs)"
    using c_compare.sorted_quick_sort_by [OF assms(1,3)] .
  ultimately show ?thesis
    using mset_quick_sort_by [of cmp xs] relinked_dat relinked_cells by blast
qed

theorem quick_sort_correct_witness:
  "\<exists>m' q ys. quick_sort heap3 1 cmp3 = Some (m', q) \<and> is_list m' q ys \<and> mset ys = {#1, 2, 3#} \<and> sorted_by cmp3 ys"
proof -
  have "set [1, 2, 3] \<subseteq> near (\<lambda>a. int (dat heap3 a)) 0"
    by (simp add: near_def heap3_def dat_def)
  from quick_sort_correct [OF c_compare_cmp3 heap3_list(1) this] show ?thesis by auto
qed

text \<open>\<open>list_dup\<close> copies the first and the last item of a list only: its \<open>prev\<close> stays at
  the first cell, so each new cell takes the place of the one before.\<close>

theorem list_dup_first_last:
  assumes "mem_ok m" "is_list m p xs"
  shows "\<exists>m' q ys. list_dup m p = Some (m', q) \<and> is_list m' q ys \<and> datas m' ys = first_last (datas m xs)"
  using list_dup_result [OF assms] by metis

theorem list_dup_first_last_witness:
  "\<exists>m' q ys. list_dup heap3 1 = Some (m', q) \<and> is_list m' q ys \<and> datas m' ys = [30, 20]"
  using list_dup_first_last [OF heap3_list(2,1)] heap3_list(3) by (simp add: first_last_def)

end
