(* ===== verification/Metering.thy ===== *)
theory Metering
  imports Se_Types Se_Object
begin

section \<open>Mirror usage points (core/metering.c)\<close>

text \<open>
  The two functions that fill the structures a client posts for its readings. The random number and the
  counter of \<open>mrid_gen\<close> are arguments, the new counter is a result. The list of readings is a HOL list.
\<close>

definition isMirror :: u32 where "isMirror = 1"
definition isDER :: u32 where "isDER = 8"

definition SE_description_exists :: nat where "SE_description_exists = 0"
definition SE_ReadingType_exists :: nat where "SE_ReadingType_exists = 5"

text \<open>\<open>SE_uom_exists\<close>, \<open>SE_powerOfTenMultiplier_exists\<close>, \<open>SE_flowDirection_exists\<close>, \<open>SE_commodity_exists\<close>, \<open>SE_kind_exists\<close>.\<close>

definition reading_flags :: "nat list" where "reading_flags = [5, 10, 16, 19, 22]"

text \<open>What \<open>memset\<close> and \<open>calloc\<close> leave.\<close>

definition zero_mirror :: se_mirror_usage_point where
  "zero_mirror = \<lparr>se_flags = 0, href = None, io_mRID = replicate 16 0, io_description = [], io_version = 0, roleFlags = [0, 0],
     serviceCategoryKind = 0, up_status = 0, deviceLFDI = replicate 20 0, MirrorMeterReading = [], postRate = 0\<rparr>"

definition zero_unit :: se_unit_value where "zero_unit = \<lparr>uv_multiplier = 0, uv_unit = 0, uv_value = 0\<rparr>"

definition zero_reading_type :: se_reading_type where
  "zero_reading_type = \<lparr>se_flags = 0, href = None, accumulationBehaviour = 0, calorificValue = zero_unit, commodity = 0,
     conversionFactor = zero_unit, dataQualifier = 0, flowDirection = 0, intervalLength = 0, kind = 0, maxNumberOfIntervals = 0,
     numberOfConsumptionBlocks = 0, numberOfTouTiers = 0, phase = 0, powerOfTenMultiplier = 0, subIntervalLength = 0,
     supplyLimit = 0, uom = 0\<rparr>"

definition zero_meter_reading :: se_mirror_meter_reading where
  "zero_meter_reading = \<lparr>se_flags = 0, href = None, io_mRID = replicate 16 0, io_description = [], io_version = 0, lastUpdateTime = 0,
     MirrorReadingSet = [], nextUpdateTime = 0,
     Reading = \<lparr>se_flags = 0, href = None, consumptionBlock = 0, qualityFlags = [0, 0],
       timePeriod = \<lparr>duration = 0, int_start = 0\<rparr>, touTier = 0, rd_value = 0, rd_subscribable = 0, localID = [0, 0]\<rparr>,
     ReadingType = zero_reading_type\<rparr>"

text \<open>\<open>snprintf\<close> into 32 bytes.\<close>

definition set_description :: "string option \<Rightarrow> 'a se_identified_object_scheme \<Rightarrow> 'a se_identified_object_scheme" where
  "set_description desc x =
     (case desc of None \<Rightarrow> x | Some d \<Rightarrow> (se_set x SE_description_exists)\<lparr>io_description := take 31 d\<rparr>)"

definition create_mirror :: "u32 \<Rightarrow> u32 \<Rightarrow> string option \<Rightarrow> u32 \<Rightarrow> u8 list \<Rightarrow> se_mirror_usage_point \<times> u32" where
  "create_mirror r cnt desc flags lfdi =
     (case mrid_gen r cnt of (mrid, cnt) \<Rightarrow>
        let mup = set_description desc (zero_mirror\<lparr>io_mRID := mrid\<rparr>); flags = flags OR (isMirror OR isDER) in
        (mup\<lparr>roleFlags := [ucast (drop_bit 8 flags), ucast flags], up_status := 1, deviceLFDI := take 20 lfdi\<rparr>, cnt))"

definition create_reading ::
    "u32 \<Rightarrow> u32 \<Rightarrow> se_mirror_meter_reading list \<Rightarrow> string option \<Rightarrow> u8 \<Rightarrow> u8 \<Rightarrow> se_mirror_meter_reading list \<times> u32" where
  "create_reading r cnt rds desc u k =
     (case mrid_gen r cnt of (mrid, cnt) \<Rightarrow>
        let mmr = se_set (set_description desc (zero_meter_reading\<lparr>io_mRID := mrid\<rparr>)) SE_ReadingType_exists;
            rt = (foldl se_set (zero_reading_type\<lparr>se_flags := 0\<rparr>) reading_flags)
                   \<lparr>uom := u, powerOfTenMultiplier := 0, flowDirection := 1, commodity := 1, kind := k\<rparr> in
        (mmr\<lparr>ReadingType := rt\<rparr> # rds, cnt))"

subsection \<open>Identifiers and flags\<close>

lemma unpack32_pack32: "pack32 x = [a, b, c, d] \<Longrightarrow> unpack32 a b c d = x"
proof (rule bit_word_eqI)
  fix i assume p: "pack32 x = [a, b, c, d]" and i: "i < LENGTH(32)"
  have e: "a = ucast (drop_bit 8 (ucast (drop_bit 16 x) :: u16))" "b = ucast (ucast (drop_bit 16 x) :: u16)"
    "c = ucast (drop_bit 8 (ucast x :: u16))" "d = ucast (ucast x :: u16)"
    using p by (simp_all add: pack32_def pack16_def)
  consider "i < 8" | j where "i = 8 + j" "j < 8" | j where "i = 16 + j" "j < 8" | j where "i = 24 + j" "j < 8"
  proof -
    assume c: "i < 8 \<Longrightarrow> thesis" "\<And>j. i = 8 + j \<Longrightarrow> j < 8 \<Longrightarrow> thesis" "\<And>j. i = 16 + j \<Longrightarrow> j < 8 \<Longrightarrow> thesis" "\<And>j. i = 24 + j \<Longrightarrow> j < 8 \<Longrightarrow> thesis"
    have "i < 8 \<or> i = 8 + (i - 8) \<and> i - 8 < 8 \<or> i = 16 + (i - 16) \<and> i - 16 < 8 \<or> i = 24 + (i - 24) \<and> i - 24 < 8" using i by simp linarith
    then show thesis using c by blast
  qed
  then show "bit (unpack32 a b c d) i = bit x i"
    by cases (simp_all add: e unpack32_def unpack16_def bit_or_iff bit_push_bit_iff bit_ucast_iff bit_drop_bit_eq)
qed

lemma pack32_inject: "pack32 x = pack32 y \<longleftrightarrow> x = y"
proof
  assume e: "pack32 x = pack32 y"
  obtain a b c d where p: "pack32 x = [a, b, c, d]" by (simp add: pack32_def pack16_def)
  have "unpack32 a b c d = x" by (rule unpack32_pack32 [OF p])
  moreover have "unpack32 a b c d = y" by (rule unpack32_pack32) (simp only: e [symmetric] p)
  ultimately show "x = y" by simp
qed simp

lemma length_pack32: "length (pack32 x) = 4"
  by (simp add: pack32_def pack16_def)

text \<open>The client creates its readings one after the other.\<close>

primrec create_readings ::
    "(u32 \<times> string option \<times> u8 \<times> u8) list \<Rightarrow> u32 \<Rightarrow> se_mirror_meter_reading list \<Rightarrow> se_mirror_meter_reading list \<times> u32" where
  "create_readings [] cnt rds = (rds, cnt)"
| "create_readings (q # qs) cnt rds =
     (case q of (r, desc, u, k) \<Rightarrow> case create_reading r cnt rds desc u k of (rds, cnt) \<Rightarrow> create_readings qs cnt rds)"

definition counter_bytes :: "u8 list \<Rightarrow> u8 list" where
  "counter_bytes mrid = take 4 (drop 8 mrid)"

lemma set_description_mrid: "io_mRID (set_description desc x) = io_mRID x"
  by (simp add: set_description_def se_set_def split: option.splits)

lemma create_readings_counters:
  "map (\<lambda>x. counter_bytes (io_mRID x)) (fst (create_readings qs cnt rds)) =
   rev (map (\<lambda>i. pack32 (cnt + of_nat i)) [0..<length qs]) @ map (\<lambda>x. counter_bytes (io_mRID x)) rds"
proof (induction qs arbitrary: cnt rds)
  case (Cons q qs)
  obtain r desc u k where q: "q = (r, desc, u, k)" by (cases q) auto
  obtain x where x: "create_reading r cnt rds desc u k = (x # rds, cnt + 1)" "io_mRID x = fst (mrid_gen r cnt)"
    by (simp add: create_reading_def mrid_gen_def se_set_def set_description_mrid Let_def)
  then have first: "counter_bytes (io_mRID x) = pack32 cnt" "create_reading r cnt rds desc u k = (x # rds, cnt + 1)"
    by (simp_all add: mrid_gen_def counter_bytes_def length_pack32)
  have upt: "[0..<length (q # qs)] = 0 # map Suc [0..<length qs]" by (simp add: upt_conv_Cons map_Suc_upt del: upt_Suc)
  show ?case unfolding upt using first Cons.IH [of "cnt + 1" "x # rds"]
    by (simp add: q comp_def algebra_simps)
qed simp

text \<open>
  The readings a client makes have different identifiers, as long as the counter does not come round.
\<close>
lemma create_readings_distinct:
  assumes "length qs \<le> 2 ^ 32"
  shows "distinct (map io_mRID (fst (create_readings qs cnt [])))"
proof -
  have "inj_on (\<lambda>i. cnt + of_nat i :: u32) {0..<length qs}"
  proof (rule inj_onI)
    fix i j assume "i \<in> {0..<length qs}" "j \<in> {0..<length qs}" "cnt + (of_nat i :: u32) = cnt + of_nat j"
    then show "i = j" using assms by (simp add: word_of_nat_eq_iff take_bit_nat_eq_self)
  qed
  then have "distinct (map (\<lambda>i. pack32 (cnt + of_nat i :: u32)) [0..<length qs])"
    by (simp add: distinct_map inj_on_def pack32_inject)
  then have "distinct (map counter_bytes (map io_mRID (fst (create_readings qs cnt []))))"
    using create_readings_counters [of qs cnt "[]"] by (simp add: comp_def)
  then show ?thesis using distinct_map by blast
qed

text \<open>A mirror usage point is always marked as a mirror and as a distributed resource, and has the identity of the device.\<close>
lemma create_mirror_roles:
  "roleFlags (fst (create_mirror r cnt desc flags lfdi)) = [a, b] \<Longrightarrow> b AND 9 = 9"
  by (rule bit_word_eqI)
    (auto simp: create_mirror_def mrid_gen_def isMirror_def isDER_def bit_simps bit_ucast_iff bit_numeral_rec Let_def)

end
