(* ===== verification/Http_Parse.thy ===== *)
theory Http_Parse
  imports Uri
begin

section \<open>HTTP tokens and media ranges (core/http_parse.c)\<close>

text \<open>
  A text is a list of characters without the terminator; a function that returns a pointer into
  the text returns the rest of it, and \<open>None\<close> for NULL. The terminators that the functions write
  end the tokens, which the model copies; they are written over characters that are not read again.
  Only \<open>quoted_string\<close> writes where it still reads, so it works on the characters and positions of
  the text.
\<close>

subsection \<open>Tokens\<close>

definition tchar :: "char \<Rightarrow> bool" where
  "tchar ch \<longleftrightarrow>
     (let c = cv ch in in_range c 65 90 \<or> in_range c 94 122 \<or> in_range c 48 57 \<or> c = 33 \<or> in_range c 35 39 \<or>
        in_range c 42 43 \<or> in_range c 45 46 \<or> c = 124 \<or> c = 126)"

definition token :: "string \<Rightarrow> (string \<times> string) option" where
  "token data = (let t = takeWhile tchar data in if t = [] then None else Some (t, dropWhile tchar data))"

definition hws :: "char \<Rightarrow> bool" where "hws c \<longleftrightarrow> cv c = 32 \<or> cv c = 9"
definition vchar :: "char \<Rightarrow> bool" where "vchar c \<longleftrightarrow> in_range (cv c) 0x21 0x7e"
definition obs_text :: "char \<Rightarrow> bool" where "obs_text c \<longleftrightarrow> in_range (cv c) 0x80 0xff"

definition qdtext :: "char \<Rightarrow> bool" where
  "qdtext c \<longleftrightarrow> hws c \<or> cv c = 33 \<or> in_range (cv c) 35 91 \<or> in_range (cv c) 93 126 \<or> obs_text c"

text \<open>
  \<open>m\<close> is the text with its terminator, \<open>d\<close> and \<open>q\<close> are the positions that are read and written. The
  result is the text afterwards and the position returned; \<open>None\<close> is an access behind the text.
\<close>

definition put :: "nat \<Rightarrow> char \<Rightarrow> string \<Rightarrow> string option" where
  "put q c m = (if q < length m then Some (m[q := c]) else None)"

function quoted_loop :: "string \<Rightarrow> nat \<Rightarrow> nat \<Rightarrow> (string \<times> nat option) option" where
  "quoted_loop m d q =
     (if d \<ge> length m then None
      else if m ! d = chr 0 then Some (m, None)
      else if m ! d = CHR 0x5C then
        (if Suc d \<ge> length m then None
         else let t = m ! Suc d in
           if hws t \<or> vchar t \<or> obs_text t then
             (case put q t m of None \<Rightarrow> None | Some m' \<Rightarrow> if length m' = length m then quoted_loop m' (d + 2) (Suc q) else None)
           else Some (m, None))
      else if m ! d = CHR 0x22 then map_option (\<lambda>m. (m, Some (d + 2))) (put q (chr 0) m)
      else if qdtext (m ! d) then
        (case put q (m ! d) m of None \<Rightarrow> None | Some m' \<Rightarrow> if length m' = length m then quoted_loop m' (d + 1) (Suc q) else None)
      else Some (m, None))"
  by pat_completeness auto
termination by (relation "measure (\<lambda>(m, d, q). length m - d)") auto

declare quoted_loop.simps [simp del]

definition quoted_string :: "string \<Rightarrow> (string \<times> string) option option" where
  "quoted_string data =
     map_option (\<lambda>(m, r). case r of None \<Rightarrow> None | Some d \<Rightarrow> Some (c_str (drop 1 m), c_str (drop d m)))
       (case quoted_loop (data @ [chr 0]) 0 1 of
          None \<Rightarrow> None
        | Some (m, Some d) \<Rightarrow> if d \<ge> length m then None else Some (m, Some d)
        | Some (m, None) \<Rightarrow> Some (m, None))"

definition pvalue :: "string \<Rightarrow> (string \<times> string) option option" where
  "pvalue data = (if data \<noteq> [] \<and> hd data = CHR 0x22 then quoted_string data else Some (token data))"

subsection \<open>Quality\<close>

fun q_digits :: "nat \<Rightarrow> int \<Rightarrow> string \<Rightarrow> nat \<times> int \<times> string" where
  "q_digits n f [] = (n, f, [])"
| "q_digits n f (c # data) =
     (if digit (cv c) then (if n > 0 then q_digits (n - 1) (f * 10 + (cv c - 48)) data else (n, f, c # data))
      else (n, f, c # data))"

text \<open>
  \<open>n-- > 0\<close> also counts down when it fails: after more than three digits, where the second loop
  starts from -1 and does nothing, as it would from 0.
\<close>

definition qvalue :: "string \<Rightarrow> (int \<times> string) option" where
  "qvalue data =
     (case data of
        [] \<Rightarrow> None
      | c # data \<Rightarrow>
          if c = CHR ''0'' \<or> c = CHR ''1'' then
            let q = (if c = CHR ''0'' then 0 else 1000) in
            if data \<noteq> [] \<and> hd data = CHR ''.'' then
              case q_digits 3 0 (tl data) of
                (n, f, rest) \<Rightarrow> let f = f * 10 ^ n in if q = 1000 \<and> f \<noteq> 0 then None else Some (q + f, rest)
            else Some (q, data)
          else None)"

definition ows :: "string \<Rightarrow> string" where
  "ows data = dropWhile hws data"

lemma token_shorter: "token data = Some (t, rest) \<Longrightarrow> length rest < length data"
proof -
  assume a: "token data = Some (t, rest)"
  have "length data = length (takeWhile tchar data) + length (dropWhile tchar data)"
    by (metis length_append takeWhile_dropWhile_id)
  with a show ?thesis by (auto simp: token_def Let_def split: if_splits)
qed

lemma q_digits_shorter: "q_digits n f data = (n', f', rest) \<Longrightarrow> length rest \<le> length data"
  by (induction n f data rule: q_digits.induct) (auto split: if_splits)

lemma qvalue_shorter: "qvalue data = Some (q, rest) \<Longrightarrow> length rest < length data"
  by (auto simp: qvalue_def Let_def neq_Nil_conv less_Suc_eq_le dest!: q_digits_shorter split: list.splits if_splits prod.splits)

lemma put_length: "put q c m = Some m' \<Longrightarrow> length m' = length m"
  by (auto simp: put_def split: if_splits)

lemma quoted_loop_forward:
  "quoted_loop m d q = Some (m', r) \<Longrightarrow> length m' = length m \<and> (\<forall>e. r = Some e \<longrightarrow> d + 2 \<le> e)"
proof (induction "length m - d" arbitrary: m d q rule: less_induct)
  case less
  have IH: "length m' = length m \<and> (\<forall>e. r = Some e \<longrightarrow> d' + 2 \<le> e)"
    if "length n = length m" "d < d'" "d < length m" "quoted_loop n d' q' = Some (m', r)" for n d' q'
    using less(1) [of n d' q'] that by auto
  have IH2: "Suc (Suc d) \<le> e"
    if "quoted_loop n d' q' = Some (m', Some e)" "r = Some e" "length n = length m" "d < d'" "d < length m" for n d' q' e
    using IH [OF that(3-5), of q'] that(1,2,4) by auto
  from less(2) show ?case
    by (subst (asm) quoted_loop.simps)
      (auto simp: Let_def put_length split: if_splits option.splits dest: put_length IH2 dest!: IH [rotated -1])
qed

lemma quoted_string_shorter: "quoted_string data = Some (Some (v, rest)) \<Longrightarrow> length rest < length data"
proof -
  assume "quoted_string data = Some (Some (v, rest))"
  then obtain m d where q: "quoted_loop (data @ [chr 0]) 0 1 = Some (m, Some d)" "d < length m" "rest = c_str (drop d m)"
    by (auto simp: quoted_string_def split: option.splits if_splits prod.splits)
  have l: "length m = Suc (length data)" "2 \<le> d" using quoted_loop_forward [OF q(1)] by auto
  have "length rest \<le> length m - d" unfolding q(3) c_str_def by (metis length_drop length_takeWhile_le)
  with l q(2) show ?thesis by linarith
qed

lemma pvalue_shorter: "pvalue data = Some (Some (v, rest)) \<Longrightarrow> length rest < length data"
  by (auto simp: pvalue_def split: if_splits dest: quoted_string_shorter token_shorter)

lemma ows_shorter: "length (ows data) \<le> length data"
  by (simp add: ows_def length_dropWhile_le)

subsection \<open>Media ranges\<close>

text \<open>
  The type is not terminated where the subtype starts, so as a C string it is type and subtype
  with the slash between them. The parameters are a row of four pairs.
\<close>

record media_type =
  m_type :: string
  m_sub :: string
  m_param :: "(string \<times> string) option list"
  m_quality :: int

definition no_params :: "(string \<times> string) option list" where
  "no_params = replicate 4 None"

text \<open>State 4: \<open>c\<close> is the character at \<open>data\<close>, or was it before the terminator was written.\<close>

function media_params :: "nat \<Rightarrow> media_type \<Rightarrow> string \<Rightarrow> (media_type \<times> string) option option" where
  "media_params i m data =
     (case data of
        [] \<Rightarrow> Some (Some (m, []))
      | c # data \<Rightarrow>
          if c = CHR '','' then Some (Some (m, data))
          else if hws c then media_params i m data
          else if c = CHR '';'' then
            (case token (ows data) of
               None \<Rightarrow> Some None
             | Some (param, data) \<Rightarrow>
                 if data \<noteq> [] \<and> hd data = CHR ''='' then
                   let param = to_lower param in
                   if param = ''q'' then
                     (case qvalue (tl data) of
                        None \<Rightarrow> Some None
                      | Some (q, rest) \<Rightarrow> media_params i (m\<lparr>m_quality := q\<rparr>) rest)
                   else
                     (case pvalue (tl data) of
                        None \<Rightarrow> None
                      | Some None \<Rightarrow> Some None
                      | Some (Some (v, rest)) \<Rightarrow>
                          media_params ((i + 1) mod 4) (m\<lparr>m_param := (m_param m)[i := Some (param, v)]\<rparr>) rest)
                 else Some None)
          else Some None)"
  by pat_completeness auto
termination
proof (relation "measure (\<lambda>(i, m, data). length data)"; clarsimp?)
  fix data t rest :: string and q :: int and r :: string
  assume "token (ows data) = Some (t, rest)" "qvalue (tl rest) = Some (q, r)"
  then show "length r < Suc (length data)"
    using token_shorter [of "ows data"] qvalue_shorter [of "tl rest"] ows_shorter [of data] by fastforce
next
  fix data t rest v r :: string
  assume "token (ows data) = Some (t, rest)" "pvalue (tl rest) = Some (Some (v, r))"
  then show "length r < Suc (length data)"
    using token_shorter [of "ows data"] pvalue_shorter [of "tl rest"] ows_shorter [of data] by fastforce
qed

declare media_params.simps [simp del]

definition media_range :: "media_type \<Rightarrow> string \<Rightarrow> (media_type \<times> string) option option" where
  "media_range m data =
     (let m = m\<lparr>m_param := no_params\<rparr>; data = dropWhile (\<lambda>c. hws c \<or> c = CHR '','') data in
      if data = [] then Some None
      else case token data of
        None \<Rightarrow> Some None
      | Some (t, data) \<Rightarrow>
          if data \<noteq> [] \<and> hd data = CHR ''/'' then
            (case token (tl data) of
               None \<Rightarrow> Some None
             | Some (sub, data) \<Rightarrow> media_params 0 (m\<lparr>m_type := t @ ''/'' @ sub, m_sub := sub, m_quality := 1000\<rparr>) data)
          else Some None)"

subsection \<open>Lines\<close>

definition token_sp :: "string \<Rightarrow> (string \<times> string) option" where
  "token_sp data =
     (let rest = dropWhile (\<lambda>c. \<not> hws c) data in
      if rest = [] then None else Some (takeWhile (\<lambda>c. \<not> hws c) data, ows (tl rest)))"

definition token_colon :: "string \<Rightarrow> (string \<times> string) option" where
  "token_colon data =
     (let rest = dropWhile (\<lambda>c. c \<noteq> CHR '':'') data in
      if rest = [] then None else Some (takeWhile (\<lambda>c. c \<noteq> CHR '':'') data, ows (tl rest)))"

subsection \<open>Quoted strings\<close>

text \<open>A parameter value in quotes is never read: the first character that the loop sees is the
  opening quote, so the value is empty, and the reader goes on behind the first character between
  the quotes.\<close>
theorem quoted_value_empty:
  assumes "chr 0 \<notin> set (c # s)"
  shows "pvalue (CHR 0x22 # c # s) = Some (Some ([], s))"
proof -
  let ?m = "CHR 0x22 # c # s @ [chr 0]"
  have q: "quoted_loop ?m 0 1 = Some (?m[1 := chr 0], Some 2)"
    by (subst quoted_loop.simps) (simp add: put_def chr_def char_of_def)
  have "takeWhile (\<lambda>c. c \<noteq> chr 0) (s @ [chr 0]) = s" using assms by (induction s) auto
  then show ?thesis using q by (simp add: pvalue_def quoted_string_def c_str_def numeral_2_eq_2)
qed

lemma quoted_value_empty_witness: "pvalue (CHR 0x22 # ''ab'' @ [CHR 0x22]) = Some (Some ([], ''b'' @ [CHR 0x22]))"
  using quoted_value_empty [of "CHR ''a''" "''b'' @ [CHR 0x22]"] by (simp add: chr_def char_of_def)

text \<open>A byte of an encoded character is no \<open>obs_text\<close>, because \<open>char\<close> is signed.\<close>

lemma no_obs_text: "\<not> obs_text c"
proof -
  have "(of_char c :: int) < 256" by simp
  then have "(of_char c :: int) - 256 < 128" by linarith
  then have "cv c < 128" by (auto simp only: cv_def Let_def split: if_split)
  then show ?thesis by (simp add: obs_text_def in_range_def)
qed

end
