(* ===== verification/Http.thy ===== *)
theory Http
  imports Http_Parse "HOL-Library.Monad_Syntax"
begin

section \<open>HTTP connections (core/http.c)\<close>

text \<open>
  A connection with its buffer, the queues of requests and of data to send, and the state of the
  message that is received. The environment is a part of the record: the data that the following
  reads of the connection return, the results of the following writes, what was written, the
  date line and whether the peer has closed. Texts that the code refers to by pointers into the
  buffer are copied when they are found. \<open>None\<close> is an access out of bounds.
\<close>

subsection \<open>State\<close>

datatype http_state = HTTP_START | HTTP_HEADER | HTTP_DATA | HTTP_COMPLETE | HTTP_CLOSED

text \<open>The values of \<open>enum HttpMethod\<close>.\<close>

definition HTTP_GET :: nat where "HTTP_GET = 0"
definition HTTP_PUT :: nat where "HTTP_PUT = 1"
definition HTTP_POST :: nat where "HTTP_POST = 2"
definition HTTP_DELETE :: nat where "HTTP_DELETE = 3"
definition HTTP_HEAD :: nat where "HTTP_HEAD = 4"
definition HTTP_UNKNOWN :: nat where "HTTP_UNKNOWN = 5"
definition HTTP_RESPONSE :: nat where "HTTP_RESPONSE = 6"
definition HTTP_NONE :: nat where "HTTP_NONE = 7"
definition HTTP_ERROR :: nat where "HTTP_ERROR = 8"

lemmas http_method_defs = HTTP_GET_def HTTP_PUT_def HTTP_POST_def HTTP_DELETE_def HTTP_HEAD_def HTTP_UNKNOWN_def
  HTTP_RESPONSE_def HTTP_NONE_def HTTP_ERROR_def

definition http_methods :: "string list" where
  "http_methods = [''GET'', ''PUT'', ''POST'', ''DELETE'', ''HEAD'', '''']"

record http_request_item =
  r_method :: nat
  r_uri :: string
  r_context :: "nat option"

record http_connection =
  h_query :: "string option"
  h_content_type :: "string option"
  h_media_range :: "string option"
  h_location :: "string option"
  h_host :: address
  h_version :: string
  h_media :: string
  h_accept :: string
  h_data :: nat
  h_end :: int
  h_content_length :: int
  h_state :: http_state
  h_method :: nat
  h_request_method :: nat
  h_body :: bool
  h_close :: bool
  h_client :: bool
  h_status :: int
  h_error :: int
  h_header :: "nat set"
  h_context :: "nat option"
  h_send :: "string list"
  h_request :: "http_request_item list"
  h_target :: string
  h_uri :: uri
  h_buffer :: string
  e_input :: "string list"
  e_replies :: "int list"
  e_written :: string
  e_date :: string
  e_peer_closed :: bool
  e_open :: bool
  e_timeout :: bool
  e_junk :: uri
  e_if_index :: u32

definition BUFFER_SIZE :: nat where "BUFFER_SIZE = 2048"

subsection \<open>The connection below\<close>

text \<open>\<open>conn_read\<close> into the free part of the buffer; an empty text in the input is a read that fails.\<close>

definition http_read :: "http_connection \<Rightarrow> http_connection \<times> bool" where
  "http_read h =
     (let room = BUFFER_SIZE - length (h_buffer h) - 1 in
      case e_input h of
        [] \<Rightarrow> (h, False)
      | c # cs \<Rightarrow>
          if c = [] then (h\<lparr>e_input := cs\<rparr>, False)
          else if room = 0 then (h, False)
          else (h\<lparr>h_buffer := h_buffer h @ take room c, e_input := (if drop room c = [] then cs else drop room c # cs)\<rparr>, True))"

text \<open>\<open>conn_write\<close>: the number of bytes that are accepted, or -1. With no result prescribed all are.\<close>

definition conn_write :: "string \<Rightarrow> http_connection \<Rightarrow> http_connection \<times> int" where
  "conn_write s h =
     (case e_replies h of
        [] \<Rightarrow> (h\<lparr>e_written := e_written h @ s\<rparr>, int (length s))
      | n # ns \<Rightarrow> (h\<lparr>e_written := e_written h @ take (nat n) s, e_replies := ns\<rparr>, min n (int (length s))))"

definition conn_close :: "http_connection \<Rightarrow> http_connection" where
  "conn_close h = h\<lparr>e_open := False\<rparr>"

definition http_init :: "bool \<Rightarrow> string \<Rightarrow> string \<Rightarrow> http_connection \<Rightarrow> http_connection" where
  "http_init client accept media h =
     h\<lparr>h_client := client, h_data := 0, h_accept := accept, h_media := media, h_version := ''HTTP/1.1''\<rparr>"

subsection \<open>Sending\<close>

text \<open>\<open>http_flush\<close> is one turn of the loop and the rest of the loop.\<close>

primrec flush_loop :: "string list \<Rightarrow> http_connection \<Rightarrow> http_connection" where
  "flush_loop [] h = h\<lparr>h_send := []\<rparr>"
| "flush_loop (s # ss) h =
     (case conn_write s h of (h, n) \<Rightarrow> if n > 0 then flush_loop ss h else h\<lparr>h_send := s # ss\<rparr>)"

definition http_flush :: "http_connection \<Rightarrow> http_connection" where
  "http_flush h =
     (let h = flush_loop (h_send h) h in if h_send h = [] \<and> h_close h then conn_close h else h)"

definition http_write :: "string \<Rightarrow> http_connection \<Rightarrow> http_connection" where
  "http_write s h =
     (if h_send h \<noteq> [] then h\<lparr>h_send := h_send h @ [s]\<rparr>
      else case conn_write s h of (h, n) \<Rightarrow> if n < 0 then h\<lparr>h_send := [s]\<rparr> else h)"

definition queue_request :: "nat \<Rightarrow> string \<Rightarrow> http_connection \<Rightarrow> http_connection" where
  "queue_request m uri h = h\<lparr>h_request := h_request h @ [\<lparr>r_method = m, r_uri = uri, r_context = None\<rparr>]\<rparr>"

definition set_request_context :: "nat \<Rightarrow> http_connection \<Rightarrow> http_connection" where
  "set_request_context c h =
     (if h_request h = [] then h
      else h\<lparr>h_request := butlast (h_request h) @ [(last (h_request h))\<lparr>r_context := Some c\<rparr>]\<rparr>)"

definition dequeue_request :: "http_connection \<Rightarrow> (http_connection \<times> http_request_item) option" where
  "dequeue_request h = (case h_request h of [] \<Rightarrow> None | r # rs \<Rightarrow> Some (h\<lparr>h_request := rs\<rparr>, r))"

definition CRLF :: string where "CRLF = [CHR 0x0D, CHR 0x0A]"

definition http_request :: "string \<Rightarrow> nat \<Rightarrow> http_connection \<Rightarrow> http_connection \<times> string" where
  "http_request uri m h =
     (queue_request m uri h,
      http_methods ! m @ '' '' @ uri @ '' '' @ h_version h @ CRLF @ e_date h @ ''Host: '' @ write_address_port (h_host h) @
      CRLF @ ''Accept: '' @ h_accept h @ CRLF)"

text \<open>The request is written to an array of 256 characters, with its terminator.\<close>

definition send_request :: "nat \<Rightarrow> string \<Rightarrow> http_connection \<Rightarrow> http_connection option" where
  "send_request m uri h =
     (let (h, s) = http_request uri m h; s = s @ CRLF in if length s < 256 then Some (http_write s h) else None)"

definition http_get :: "string \<Rightarrow> http_connection \<Rightarrow> http_connection option" where
  "http_get uri h = send_request HTTP_GET uri h"

definition http_delete :: "string \<Rightarrow> http_connection \<Rightarrow> http_connection option" where
  "http_delete uri h = send_request HTTP_DELETE uri h"

definition http_content :: "string \<Rightarrow> int \<Rightarrow> string" where
  "http_content media n =
     (let d = show_int n in
      ''Content-Type: '' @ media @ CRLF @ ''Content-Length: '' @ d @ replicate (6 - length d) (CHR '' '') @ CRLF @ CRLF)"

definition http_send :: "string \<Rightarrow> nat \<Rightarrow> http_connection \<Rightarrow> http_connection \<times> string" where
  "http_send uri m h = (case http_request uri m h of (h, s) \<Rightarrow> (h, s @ http_content (h_media h) 0))"

definition http_queued :: "http_connection \<Rightarrow> http_connection \<times> http_request_item list" where
  "http_queued h = (conn_close (h\<lparr>h_send := [], h_request := []\<rparr>)\<lparr>h_state := HTTP_CLOSED\<rparr>, h_request h)"

definition http_close :: "http_connection \<Rightarrow> http_connection" where
  "http_close h = fst (http_queued h)"

definition http_status_line :: "int \<Rightarrow> string \<Rightarrow> http_connection \<Rightarrow> string" where
  "http_status_line status reason h = ''HTTP/1.1 '' @ show_int status @ '' '' @ reason @ CRLF @ e_date h"

definition http_created :: "string \<Rightarrow> http_connection \<Rightarrow> http_connection option" where
  "http_created uri h =
     (let s = http_status_line 201 ''Created'' h @ ''Content-Length: 0'' @ CRLF @ ''Location: '' @ uri @ CRLF @ CRLF
      in if length s < 512 then Some (http_write s h) else None)"

definition http_no_content :: "string \<Rightarrow> http_connection \<Rightarrow> http_connection option" where
  "http_no_content uri h =
     (let s = http_status_line 204 ''No Content'' h @ ''Location: '' @ uri @ CRLF @ CRLF
      in if length s < 512 then Some (http_write s h) else None)"

definition http_allow :: "string \<Rightarrow> http_connection \<Rightarrow> http_connection option" where
  "http_allow allow h =
     (let s = http_status_line 405 ''Method Not Allowed'' h @ ''Allow: '' @ allow @ CRLF @ CRLF
      in if length s < 512 then Some (http_write s h) else None)"

definition http_reason :: "int \<Rightarrow> string" where
  "http_reason status =
     (if status = 204 then ''No Content'' else if status = 400 then ''Bad Request'' else if status = 403 then ''Forbidden''
      else if status = 404 then ''Not Found'' else if status = 405 then ''Method Not Allowed''
      else if status = 408 then ''Request Timeout'' else if status = 406 then ''Not Acceptable''
      else if status = 415 then ''Unsupported Media Type'' else if status = 500 then ''Internal Server Error'' else '''')"

definition http_respond :: "int \<Rightarrow> http_connection \<Rightarrow> http_connection" where
  "http_respond status h = http_write (http_status_line status (http_reason status) h @ ''Content-Length: 0'' @ CRLF @ CRLF) h"

definition http_error :: "int \<Rightarrow> http_connection \<Rightarrow> http_connection" where
  "http_error status h = http_close (http_respond status h)"

subsection \<open>The body of a message\<close>

definition http_complete :: "http_connection \<Rightarrow> bool" where
  "http_complete h \<longleftrightarrow> h_state h = HTTP_CLOSED \<or> h_end h \<le> int (length (h_buffer h))"

definition http_rebuffer :: "nat \<Rightarrow> http_connection \<Rightarrow> http_connection" where
  "http_rebuffer n h =
     (if n \<noteq> 0 then
        h\<lparr>h_end := (if h_end h \<noteq> 0 then h_end h - int n else h_end h), h_data := 0, h_buffer := drop n (h_buffer h)\<rparr>
      else h)"

definition input_size :: "http_connection \<Rightarrow> nat" where
  "input_size h = sum_list (map length (e_input h))"

lemma http_read_input: "http_read h = (h', True) \<Longrightarrow> input_size h' < input_size h"
  by (auto simp: http_read_def input_size_def Let_def split: list.splits if_splits)

text \<open>The data from \<open>h_data\<close> on of the length that is returned, and the data returned.\<close>

function http_data :: "http_connection \<Rightarrow> http_connection \<times> (nat \<times> int) option" where
  "http_data h =
     (if h_state h \<noteq> HTTP_DATA then (h, None)
      else
        let result = (\<lambda>h n. (h, Some (h_data h, n - int (h_data h)))) in
        if h_close h then
          let h = (if e_peer_closed h then h\<lparr>h_state := HTTP_COMPLETE\<rparr> else h); h = fst (http_read h) in
          result h (int (length (h_buffer h)))
        else if h_end h \<le> int (length (h_buffer h)) then result (h\<lparr>h_state := HTTP_COMPLETE\<rparr>) (h_end h)
        else if length (h_buffer h) + 1 = BUFFER_SIZE then result h (int (length (h_buffer h)))
        else case http_read h of (h, r) \<Rightarrow> if r then http_data h else result h (int (length (h_buffer h))))"
  by pat_completeness auto
termination by (relation "measure input_size") (auto dest: http_read_input [OF sym])

declare http_data.simps [simp del]

subsection \<open>Receiving\<close>

text \<open>
  The search for the end of a line goes on behind the position where the buffer ended once more
  data was read; the carriage return that is found becomes the terminator.
\<close>

function next_line_loop :: "nat \<Rightarrow> http_connection \<Rightarrow> http_connection \<times> nat option" where
  "next_line_loop d h =
     (let b = h_buffer h in
      if d < length b \<and> b ! d \<noteq> chr 0 then
        if b ! d = CHR 0x0D \<and> Suc d < length b \<and> b ! Suc d = CHR 0x0A
        then (h\<lparr>h_buffer := b[d := chr 0]\<rparr>, Some (d + 2))
        else next_line_loop (Suc d) h
      else case http_read h of
          (h', True) \<Rightarrow> next_line_loop d h'
        | (h', False) \<Rightarrow> (if d \<noteq> h_data h' \<or> h_state h' \<noteq> HTTP_START then h'\<lparr>e_timeout := True\<rparr> else h', None))"
  by pat_completeness auto
termination
  by (relation "measures [\<lambda>(d, h). input_size h, \<lambda>(d, h). length (h_buffer h) - d]")
    (auto dest: http_read_input [OF sym])

declare next_line_loop.simps [simp del]

definition next_line :: "http_connection \<Rightarrow> http_connection \<times> nat option" where
  "next_line h = next_line_loop (h_data h) h"

definition line_at :: "nat \<Rightarrow> string \<Rightarrow> string" where
  "line_at d b = c_str (drop d b)"

text \<open>The outer \<open>None\<close> of \<open>parse_uri\<close> is an access out of bounds.\<close>

definition request_target :: "string \<Rightarrow> http_connection \<Rightarrow> (http_connection \<times> bool) option" where
  "request_target data h =
     (if length data > 255 then Some (h\<lparr>h_error := 414\<rparr>, False)
      else
        let h = h\<lparr>h_target := data\<rparr>; origin = (data \<noteq> [] \<and> hd data = CHR ''/'') in
        case parse_uri (e_if_index h) (h_uri h) (if origin then 5 else 0) data of
          None \<Rightarrow> None
        | Some None \<Rightarrow> Some (h, False)
        | Some (Some (u, _)) \<Rightarrow>
            Some (h\<lparr>h_uri := u, h_host := (case uri_host u of Some a \<Rightarrow> a | None \<Rightarrow> h_host h)\<rparr>, True))"

definition start_message :: "http_connection \<Rightarrow> http_connection" where
  "start_message h =
     h\<lparr>h_close := False, h_end := 0, h_header := {}, h_error := 0, h_content_type := None, h_media_range := None,
       h_body := True, h_content_length := -1\<rparr>"

text \<open>The status line: the request it answers is taken from the queue. \<open>False\<close> closes the connection.\<close>

definition status_line :: "string \<Rightarrow> http_connection \<Rightarrow> (http_connection \<times> bool) option" where
  "status_line data h =
     (case token_sp data of
        Some (v, data) \<Rightarrow>
          if v = h_version h then
            (case token_sp data of
               Some (text, _) \<Rightarrow>
                 (case number text of
                    Some (n, _) \<Rightarrow>
                      let h = h\<lparr>h_status := n\<rparr> in
                      if n \<le> 999 then
                        (case dequeue_request h of
                           Some (h, r) \<Rightarrow>
                             do { (h, ok) \<leftarrow> request_target (r_uri r) h;
                                  Some (if ok then h\<lparr>h_context := r_context r, h_method := HTTP_RESPONSE,
                                            h_request_method := r_method r\<rparr> else h, ok) }
                         | None \<Rightarrow> Some (h, False))
                      else Some (h, False)
                  | None \<Rightarrow> Some (h, False))
             | None \<Rightarrow> Some (h, False))
          else Some (h, False)
      | None \<Rightarrow> Some (h, False))"

definition request_line :: "string \<Rightarrow> http_connection \<Rightarrow> (http_connection \<times> bool) option" where
  "request_line data h =
     (case token_sp data of
        Some (m, data) \<Rightarrow>
          (case token_sp data of
             Some (target, data) \<Rightarrow>
               do { (h, ok) \<leftarrow> request_target target h;
                    let i = string_index m (take 5 http_methods);
                    Some (if ok \<and> data = h_version h then (h\<lparr>h_request_method := i, h_method := i\<rparr>, True) else (h, False)) }
           | None \<Rightarrow> Some (h, False))
      | None \<Rightarrow> Some (h, False))"

definition header_names :: "string list" where
  "header_names = [''host'', ''accept'', ''content-type'', ''content-length'', ''connection'', ''location'']"

definition header_line :: "string \<Rightarrow> http_connection \<Rightarrow> http_connection option" where
  "header_line data h =
     (if hws (hd data) then Some (h\<lparr>h_error := 400\<rparr>)
      else case token_colon data of
        None \<Rightarrow> Some (h\<lparr>h_error := 400\<rparr>)
      | Some (name, data) \<Rightarrow>
          let i = string_index (to_lower name) header_names; h = h\<lparr>h_header := insert i (h_header h)\<rparr> in
          if i = 0 then
            (case parse_host (e_if_index h) (e_junk h) data of
               None \<Rightarrow> None
             | Some (u, rest) \<Rightarrow>
                 let h = h\<lparr>h_host := (case uri_host u of Some a \<Rightarrow> a | None \<Rightarrow> h_host h)\<rparr> in
                 Some (if ows rest \<noteq> [] then h\<lparr>h_error := 400\<rparr> else h))
          else if i = 1 then Some (h\<lparr>h_media_range := Some data\<rparr>)
          else if i = 2 then Some (h\<lparr>h_content_type := Some data\<rparr>)
          else if i = 3 then
            (case number data of
               None \<Rightarrow> Some (h\<lparr>h_error := 400\<rparr>)
             | Some (n, rest) \<Rightarrow>
                 let h = h\<lparr>h_end := n\<rparr> in
                 Some (if ows rest = [] then h\<lparr>h_content_length := n\<rparr> else h\<lparr>h_error := 400\<rparr>))
          else if i = 4 then
            Some (case token data of None \<Rightarrow> h | Some (t, _) \<Rightarrow> h\<lparr>h_close := (to_lower t = ''close'')\<rparr>)
          else if i = 5 then Some (h\<lparr>h_location := Some data\<rparr>)
          else Some h)"

text \<open>The empty line. \<open>next\<close> is the position behind it.\<close>

definition end_of_headers :: "nat \<Rightarrow> http_connection \<Rightarrow> http_connection \<times> nat" where
  "end_of_headers next h =
     (if h_error h \<noteq> 0 then
        if h_method h = HTTP_RESPONSE then (http_close h, HTTP_NONE) else (http_error (h_error h) h, HTTP_ERROR)
      else
        let h = (if h_method h = HTTP_RESPONSE \<and> (3 \<in> h_header h \<and> h_end h = 0 \<or> 100 \<le> h_status h \<and> h_status h \<le> 199 \<or>
                     h_status h = 204 \<or> h_status h = 304) \<or> h_method h \<noteq> HTTP_RESPONSE \<and> h_end h = 0
                 then h\<lparr>h_body := False, h_state := HTTP_COMPLETE\<rparr>
                 else h\<lparr>h_state := HTTP_DATA, h_close := (if h_end h = 0 then True else h_close h)\<rparr>)
        in (h\<lparr>h_end := h_end h + int next, h_data := next\<rparr>, h_method h))"

text \<open>
  One turn of the loop of \<open>http_receive\<close>: \<open>Inl\<close> goes on, \<open>Inr\<close> returns a value. The loop runs
  with fuel, lemma \<open>receive_returns\<close> shows that one turn for every byte received and three more
  are enough.
\<close>

definition receive_step :: "http_connection \<Rightarrow> (http_connection + http_connection \<times> nat) option" where
  "receive_step h =
     (case h_state h of
        HTTP_START \<Rightarrow>
          (case next_line h of
             (h, None) \<Rightarrow> Some (Inr (h, HTTP_NONE))
           | (h, Some next) \<Rightarrow>
               let data = line_at (h_data h) (h_buffer h) in
               if data = [] then Some (Inl (h\<lparr>h_data := next\<rparr>))
               else
                 let h = start_message h in
                 do { (h, ok) \<leftarrow> (if h_client h then status_line data h else request_line data h);
                      Some (if ok then Inl (h\<lparr>h_state := HTTP_HEADER, h_data := next\<rparr>)
                            else Inr (if h_client h then (http_close h, HTTP_NONE) else (http_error 400 h, HTTP_ERROR))) })
      | HTTP_HEADER \<Rightarrow>
          (case next_line h of
             (h, None) \<Rightarrow> Some (Inr (h, HTTP_NONE))
           | (h, Some next) \<Rightarrow>
               let data = line_at (h_data h) (h_buffer h) in
               if data = [] then Some (Inr (end_of_headers next h))
               else map_option (\<lambda>h. Inl (h\<lparr>h_data := next\<rparr>)) (header_line data h))
      | HTTP_DATA \<Rightarrow> Some (Inr (h, h_method h))
      | HTTP_COMPLETE \<Rightarrow>
          if h_close h then Some (Inr (h\<lparr>h_state := HTTP_CLOSED\<rparr>, HTTP_NONE))
          else if h_end h < 0 \<or> nat (h_end h) > length (h_buffer h) then None
          else Some (Inl (http_rebuffer (nat (h_end h)) h\<lparr>h_state := HTTP_START\<rparr>))
      | HTTP_CLOSED \<Rightarrow> Some (Inr (h, HTTP_NONE)))"

primrec receive_loop :: "nat \<Rightarrow> http_connection \<Rightarrow> (http_connection \<times> nat) option" where
  "receive_loop 0 h = None"
| "receive_loop (Suc n) h =
     Option.bind (receive_step h) (\<lambda>r. case r of Inl h \<Rightarrow> receive_loop n h | Inr x \<Rightarrow> Some x)"

definition bytes_left :: "http_connection \<Rightarrow> nat" where
  "bytes_left h = length (h_buffer h) + input_size h"

definition http_receive :: "http_connection \<Rightarrow> (http_connection \<times> nat) option" where
  "http_receive h = receive_loop (bytes_left h + 3) h"

subsection \<open>Content length\<close>

fun find_text :: "string \<Rightarrow> string \<Rightarrow> nat option" where
  "find_text t [] = (if t = [] then Some 0 else None)"
| "find_text t (c # s) = (if take (length t) (c # s) = t then Some 0 else map_option Suc (find_text t s))"

definition overwrite :: "nat \<Rightarrow> string \<Rightarrow> string \<Rightarrow> string option" where
  "overwrite i t s = (if i + length t \<le> length s then Some (take i s @ t @ drop (i + length t) s) else None)"

definition set_content_length :: "string \<Rightarrow> int \<Rightarrow> string option" where
  "set_content_length s n =
     Option.bind (find_text ''Content-Length:'' s) (\<lambda>i. overwrite (i + 16) (show_int n @ '' '') s)"

subsection \<open>Lines\<close>

text \<open>
  No part of the data that is still to come starts behind a carriage return, and every read
  returns something.
\<close>

fun cuts_ok :: "string \<Rightarrow> string list \<Rightarrow> bool" where
  "cuts_ok b [] \<longleftrightarrow> True"
| "cuts_ok b (c # cs) \<longleftrightarrow> c \<noteq> [] \<and> (b = [] \<or> last b \<noteq> CHR 0x0D) \<and> cuts_ok (b @ c) cs"

definition line_char :: "char \<Rightarrow> bool" where
  "line_char c \<longleftrightarrow> c \<noteq> CHR 0x0D \<and> c \<noteq> chr 0"

lemma chr_values: "CHR 0x0D \<noteq> chr 0" "chr 0 \<noteq> CHR 0x0D"
  by (simp_all add: chr_def char_of_def)

lemma last_update: "e < length b \<Longrightarrow> last (b[e := x]) = (if Suc e = length b then x else last b)"
  by (cases "b = []") (auto simp: last_conv_nth nth_list_update)

lemma cuts_ok_update: "cuts_ok b cs \<Longrightarrow> e < length b \<Longrightarrow> cuts_ok (b[e := chr 0]) cs"
proof (induction cs arbitrary: b)
  case (Cons c cs)
  have "cuts_ok ((b @ c)[e := chr 0]) cs" using Cons.IH [of "b @ c"] Cons.prems by simp
  then show ?case
    using Cons.prems chr_values by (auto simp: list_update_append1 last_update)
qed simp

lemma read_chunk:
  assumes "e_input h = c # cs" "c \<noteq> []" "length (h_buffer h) + length c < BUFFER_SIZE"
  shows "http_read h = (h\<lparr>h_buffer := h_buffer h @ c, e_input := cs\<rparr>, True)"
  using assms by (cases c) (auto simp: http_read_def Let_def)

lemma next_line_found:
  assumes "e_input h = cs" "cuts_ok (h_buffer h) cs" "h_buffer h @ concat cs = B" "length B < BUFFER_SIZE"
    and "d \<le> e" "Suc e < length B" "B ! e = CHR 0x0D" "B ! Suc e = CHR 0x0A" "\<And>k. d \<le> k \<Longrightarrow> k < e \<Longrightarrow> line_char (B ! k)"
    and "d \<le> length (h_buffer h)"
  shows "\<exists>b ds. next_line_loop d h = (h\<lparr>h_buffer := b[e := chr 0], e_input := ds\<rparr>, Some (e + 2)) \<and>
    b @ concat ds = B \<and> cuts_ok b ds \<and> e + 2 \<le> length b"
  using assms
proof (induction d h arbitrary: cs rule: next_line_loop.induct)
  case (1 d h)
  note prems = 1(3-12)
  let ?b = "h_buffer h"
  have B: "B ! k = ?b ! k" if "k < length ?b" for k using prems(3) that by (metis nth_append)
  show ?case
  proof (cases "d < length ?b")
    case True
    show ?thesis
    proof (cases "d = e")
      case de: True
      have "Suc d < length ?b"
      proof (rule ccontr)
        assume "\<not> Suc d < length ?b"
        then have l: "Suc d = length ?b" using True by simp
        then have "?b \<noteq> []" by auto
        then have "last ?b = ?b ! (length ?b - 1)" by (rule last_conv_nth)
        moreover have "length ?b - 1 = d" using l by simp
        ultimately have "last ?b = CHR 0x0D" using B [OF True] prems(7) de by simp
        moreover note \<open>?b \<noteq> []\<close>
        moreover have "cs \<noteq> []" using l de prems(3,6) by auto
        ultimately show False using prems(2) by (cases cs) auto
      qed
      then have "next_line_loop d h = (h\<lparr>h_buffer := ?b[e := chr 0]\<rparr>, Some (e + 2))"
        using B [of d] B [of "Suc d"] prems(7,8) de True chr_values
        by (subst next_line_loop.simps) (simp add: Let_def)
      moreover have "h\<lparr>h_buffer := ?b[e := chr 0], e_input := cs\<rparr> = h\<lparr>h_buffer := ?b[e := chr 0]\<rparr>" using prems(1) by simp
      ultimately show ?thesis using prems(2,3) de \<open>Suc d < _\<close>
        by (intro exI [of _ ?b] exI [of _ cs]) simp
    next
      case False
      then have lt: "d < e" using prems(5) by simp
      then have c: "?b ! d \<noteq> CHR 0x0D" "?b ! d \<noteq> chr 0" using prems(9) [of d] B [OF True] by (auto simp: line_char_def)
      have "next_line_loop d h = next_line_loop (Suc d) h"
        using True c by (simp add: next_line_loop.simps [of d h] Let_def)
      then show ?thesis using 1(1) [of "h_buffer h" cs] True c lt prems by simp
    qed
  next
    case False
    then have "d = length ?b" using prems(10) by simp
    then have "cs \<noteq> []" using prems(3,5,6) by auto
    then obtain c cs' where cs: "cs = c # cs'" by (cases cs) auto
    have "length ?b + length c \<le> length B" using prems(3) cs by (metis add_le_cancel_left append_assoc concat.simps(2) le_add1 length_append)
    then have r: "http_read h = (h\<lparr>h_buffer := ?b @ c, e_input := cs'\<rparr>, True)"
      using read_chunk [of h c cs'] prems(1,2,4) cs by simp
    have "next_line_loop d h = next_line_loop d (h\<lparr>h_buffer := ?b @ c, e_input := cs'\<rparr>)"
      using False r by (simp add: next_line_loop.simps [of d h] Let_def)
    then show ?thesis
      using 1(2) [of "h_buffer h" "h\<lparr>h_buffer := ?b @ c, e_input := cs'\<rparr>" True cs'] False r prems cs by simp
  qed
qed

subsection \<open>A message is read as its lines\<close>

text \<open>
  The specification: a message is a row of lines, and the lines are handled one after the other,
  whatever the reads of the connection return at a time.
\<close>

definition start_line :: "string \<Rightarrow> http_connection \<Rightarrow> (http_connection \<times> bool) option" where
  "start_line l h = (let h = start_message h in if h_client h then status_line l h else request_line l h)"

primrec header_lines :: "string list \<Rightarrow> http_connection \<Rightarrow> http_connection option" where
  "header_lines [] h = Some h"
| "header_lines (l # ls) h = Option.bind (header_line l h) (header_lines ls)"

definition lines_text :: "string list \<Rightarrow> string" where
  "lines_text ls = concat (map (\<lambda>l. l @ CRLF) ls) @ CRLF"

definition good_line :: "string \<Rightarrow> bool" where
  "good_line l \<longleftrightarrow> l \<noteq> [] \<and> list_all line_char l"

text \<open>The parts of the state that reading a line changes.\<close>

definition at_pos :: "string \<Rightarrow> string list \<Rightarrow> nat \<Rightarrow> http_state \<Rightarrow> http_connection \<Rightarrow> http_connection" where
  "at_pos b cs d s h = h\<lparr>h_buffer := b, e_input := cs, h_data := d, h_state := s\<rparr>"

lemma at_pos_simps [simp]:
  "h_buffer (at_pos b cs d s h) = b" "e_input (at_pos b cs d s h) = cs" "h_data (at_pos b cs d s h) = d"
  "h_state (at_pos b cs d s h) = s" "at_pos b cs d s (at_pos b' cs' d' s' h) = at_pos b cs d s h"
  "(at_pos b cs d s h)\<lparr>h_buffer := b', e_input := cs'\<rparr> = at_pos b' cs' d s h"
  "(at_pos b cs d s h)\<lparr>h_data := d'\<rparr> = at_pos b cs d' s h"
  "(at_pos b cs d s h)\<lparr>h_state := s', h_data := d'\<rparr> = at_pos b cs d' s' h"
  "h_client (at_pos b cs d s h) = h_client h" "h_method (at_pos b cs d s h) = h_method h"
  by (simp_all add: at_pos_def)

lemma header_line_at: "header_line l (at_pos b cs d s h) = map_option (at_pos b cs d s) (header_line l h)"
  by (auto simp: header_line_def at_pos_def Let_def split: option.split prod.split)

lemma request_target_at:
  "request_target t (at_pos b cs d s h) = map_option (map_prod (at_pos b cs d s) id) (request_target t h)"
  by (auto simp: request_target_def at_pos_def Let_def split: option.split prod.split)

lemma at_pos_fields:
  "start_message (at_pos b cs d s h) = at_pos b cs d s (start_message h)"
  "dequeue_request (at_pos b cs d s h) = map_option (map_prod (at_pos b cs d s) id) (dequeue_request h)"
  "h_version (at_pos b cs d s h) = h_version h" "h_client (start_message h) = h_client h"
  "(at_pos b cs d s h)\<lparr>h_status := n\<rparr> = at_pos b cs d s (h\<lparr>h_status := n\<rparr>)"
  "(at_pos b cs d s h)\<lparr>h_request_method := i, h_method := i\<rparr> = at_pos b cs d s (h\<lparr>h_request_method := i, h_method := i\<rparr>)"
  "(at_pos b cs d s h)\<lparr>h_context := c, h_method := m, h_request_method := i\<rparr> =
    at_pos b cs d s (h\<lparr>h_context := c, h_method := m, h_request_method := i\<rparr>)"
  by (simp_all add: start_message_def dequeue_request_def at_pos_def split: list.split)

lemma status_line_at: "status_line l (at_pos b cs d s h) = map_option (map_prod (at_pos b cs d s) id) (status_line l h)"
  by (auto simp: status_line_def Let_def at_pos_fields request_target_at split: option.splits prod.splits Option.bind_splits)

lemma request_line_at: "request_line l (at_pos b cs d s h) = map_option (map_prod (at_pos b cs d s) id) (request_line l h)"
  by (auto simp: request_line_def Let_def at_pos_fields request_target_at split: option.splits prod.splits Option.bind_splits)

lemma start_line_at: "start_line l (at_pos b cs d s h) = map_option (map_prod (at_pos b cs d s) id) (start_line l h)"
  by (simp add: start_line_def Let_def at_pos_fields status_line_at request_line_at)

lemma lines_text_Cons: "lines_text (l # ls) = l @ CRLF @ lines_text ls"
  by (simp add: lines_text_def)

lemma next_line_at:
  assumes "drop d (b @ concat cs) = l @ CRLF @ rest" "list_all line_char l" "cuts_ok b cs"
    "length (b @ concat cs) < BUFFER_SIZE" "d \<le> length b"
  shows "\<exists>b' ds. next_line (at_pos b cs d s h) = (at_pos b' ds d s h, Some (d + length l + 2)) \<and> line_at d b' = l \<and>
    drop (d + length l + 2) (b' @ concat ds) = rest \<and> cuts_ok b' ds \<and> length (b' @ concat ds) = length (b @ concat cs) \<and>
    d + length l + 2 \<le> length b'"
proof -
  define B where "B = b @ concat cs"
  define e where "e = d + length l"
  have dB: "d \<le> length B" using assms(5) by (simp add: B_def)
  have B: "B = take d B @ l @ CRLF @ rest" using assms(1) unfolding B_def [symmetric] by (metis append_take_drop_id)
  have lB: "length B = d + length l + 2 + length rest"
    using arg_cong [OF assms(1), of length] dB by (simp add: B_def CRLF_def)
  have nth: "B ! (d + k) = (l @ CRLF @ rest) ! k" if "d + k < length B" for k
    using assms(1) that dB unfolding B_def [symmetric] by (metis nth_drop)
  have ce: "B ! e = CHR 0x0D" "B ! Suc e = CHR 0x0A"
    using nth [of "length l"] nth [of "Suc (length l)"] lB by (simp_all add: e_def CRLF_def nth_append)
  have lc: "line_char (B ! k)" if "d \<le> k" "k < e" for k
  proof -
    have k: "k - d < length l" "k < length B" using that lB by (auto simp: e_def)
    then have "B ! k = l ! (k - d)" using nth [of "k - d"] that by (simp add: nth_append)
    then show ?thesis using assms(2) k(1) by (simp add: list_all_length)
  qed
  obtain b'' ds where n: "next_line_loop d (at_pos b cs d s h) =
      (at_pos b cs d s h\<lparr>h_buffer := b''[e := chr 0], e_input := ds\<rparr>, Some (e + 2))"
      "b'' @ concat ds = B" "cuts_ok b'' ds" "e + 2 \<le> length b''"
    using next_line_found [of "at_pos b cs d s h" cs B d e] assms(3-5) ce lc lB by (auto simp: B_def e_def)
  have db: "drop d b'' @ concat ds = l @ CRLF @ rest"
    using n(2,4) assms(1) unfolding B_def [symmetric] e_def by (metis add_leE drop_append diff_is_0_eq' drop0 le_add1 le_trans)
  moreover have "length l + 2 \<le> length (drop d b'')" using n(4) by (simp add: e_def)
  ultimately have dd: "drop d b'' = l @ CRLF @ drop (e + 2) b''" "drop (e + 2) b'' @ concat ds = rest"
  proof -
    have "take (length l + 2) (drop d b'') = l @ CRLF"
      using arg_cong [OF db, of "take (length l + 2)"] \<open>length l + 2 \<le> _\<close> by (simp add: CRLF_def)
    moreover have "drop (length l + 2) (drop d b'') = drop (e + 2) b''" by (simp add: e_def add_ac)
    ultimately show *: "drop d b'' = l @ CRLF @ drop (e + 2) b''"
      by (metis append.assoc append_take_drop_id)
    show "drop (e + 2) b'' @ concat ds = rest" using db unfolding * by simp
  qed
  have "drop d (b''[e := chr 0]) = l @ chr 0 # CHR 0x0A # drop (e + 2) b''"
    using dd(1) by (simp add: drop_update_swap e_def CRLF_def)
  moreover have "takeWhile (\<lambda>c. c \<noteq> chr 0) (l @ chr 0 # x) = l" for x
    using assms(2) by (induction l) (auto simp: line_char_def)
  ultimately have "line_at d (b''[e := chr 0]) = l" by (simp add: line_at_def c_str_def)
  moreover have "length b'' + length (concat ds) = length b + length (concat cs)"
    using arg_cong [OF n(2), of length] by (simp add: B_def)
  moreover have "cuts_ok (b''[e := chr 0]) ds" using cuts_ok_update [OF n(3)] n(4) by simp
  ultimately show ?thesis
    using n dd(2) by (intro exI [of _ "b''[e := chr 0]"] exI [of _ ds]) (auto simp: next_line_def e_def B_def)
qed

lemma receive_headers:
  "header_lines ls h = Some h1 \<Longrightarrow> list_all good_line ls \<Longrightarrow> drop d (b @ concat cs) = lines_text ls @ body \<Longrightarrow> cuts_ok b cs \<Longrightarrow>
   length (b @ concat cs) < BUFFER_SIZE \<Longrightarrow> d \<le> length b \<Longrightarrow> length ls < n \<Longrightarrow>
   \<exists>b' ds d'. receive_loop n (at_pos b cs d HTTP_HEADER h) =
       Some (end_of_headers (d + length (lines_text ls)) (at_pos b' ds d' HTTP_HEADER h1)) \<and>
     drop (d + length (lines_text ls)) (b' @ concat ds) = body \<and> d + length (lines_text ls) \<le> length b'"
proof (induction ls arbitrary: h b cs d n)
  case Nil
  have "drop d (b @ concat cs) = [] @ CRLF @ body" using Nil.prems(3) by (simp add: lines_text_def)
  then obtain b' ds where n: "next_line (at_pos b cs d HTTP_HEADER h) = (at_pos b' ds d HTTP_HEADER h, Some (d + 2))"
      "line_at d b' = []" "drop (d + 2) (b' @ concat ds) = body" "d + 2 \<le> length b'"
    using next_line_at [of d b cs "[]" body HTTP_HEADER h] Nil.prems by auto
  obtain k where "n = Suc k" using Nil.prems(7) by (cases n) auto
  then have "receive_loop n (at_pos b cs d HTTP_HEADER h) = Some (end_of_headers (d + 2) (at_pos b' ds d HTTP_HEADER h))"
    using n by (simp add: receive_step_def)
  then show ?case using n(3,4) Nil.prems(1)
    by (intro exI [of _ b'] exI [of _ ds] exI [of _ d]) (simp add: lines_text_def CRLF_def)
next
  case (Cons l ls)
  have "drop d (b @ concat cs) = l @ CRLF @ (lines_text ls @ body)" using Cons.prems(3) by (simp add: lines_text_Cons)
  then obtain b' ds where n: "next_line (at_pos b cs d HTTP_HEADER h) = (at_pos b' ds d HTTP_HEADER h, Some (d + length l + 2))"
      "line_at d b' = l" "drop (d + length l + 2) (b' @ concat ds) = lines_text ls @ body" "cuts_ok b' ds"
      "length (b' @ concat ds) = length (b @ concat cs)" "d + length l + 2 \<le> length b'"
    using next_line_at [of d b cs l "lines_text ls @ body" HTTP_HEADER h] Cons.prems by (auto simp: good_line_def)
  obtain h2 where h2: "header_line l h = Some h2" "header_lines ls h2 = Some h1"
    using Cons.prems(1) by (auto simp: bind_eq_Some_conv)
  obtain k where k: "n = Suc k" using Cons.prems(7) by (cases n) auto
  have l: "l \<noteq> []" using Cons.prems(2) by (simp add: good_line_def)
  have "receive_loop n (at_pos b cs d HTTP_HEADER h) = receive_loop k (at_pos b' ds (d + length l + 2) HTTP_HEADER h2)"
    using n(1,2) l h2(1) k by (simp add: receive_step_def header_line_at Let_def)
  moreover obtain b2 es d2 where "receive_loop k (at_pos b' ds (d + length l + 2) HTTP_HEADER h2) =
       Some (end_of_headers (d + length l + 2 + length (lines_text ls)) (at_pos b2 es d2 HTTP_HEADER h1))"
     "drop (d + length l + 2 + length (lines_text ls)) (b2 @ concat es) = body" "d + length l + 2 + length (lines_text ls) \<le> length b2"
    using Cons.IH [OF h2(2) _ n(3,4) _ n(6), of k] Cons.prems n(5) k by auto
  moreover have "d + length (lines_text (l # ls)) = d + length l + 2 + length (lines_text ls)"
    by (simp add: lines_text_Cons CRLF_def)
  ultimately show ?case by (intro exI [of _ b2] exI [of _ es] exI [of _ d2]) (simp add: add_ac)
qed

lemma lines_text_length: "length ls \<le> length (lines_text ls)"
  by (induction ls) (simp_all add: lines_text_def CRLF_def)

subsection \<open>Properties\<close>

subsection \<open>The loop returns\<close>

lemma http_read_bytes: "http_read h = (h', r) \<Longrightarrow> bytes_left h' \<le> bytes_left h \<and> h_data h' = h_data h \<and> h_state h' = h_state h"
  by (cases "e_input h") (auto simp: http_read_def bytes_left_def input_size_def Let_def split: if_splits)

lemma next_line_loop_bytes:
  "next_line_loop d h = (h', Some k) \<Longrightarrow> d + 2 \<le> k \<and> k \<le> length (h_buffer h') \<and> bytes_left h' \<le> bytes_left h \<and>
     h_data h' = h_data h \<and> h_state h' = h_state h"
proof (induction d h rule: next_line_loop.induct)
  case (1 d h)
  let ?b = "h_buffer h"
  show ?case
  proof (cases "d < length ?b \<and> ?b ! d \<noteq> chr 0")
    case True
    show ?thesis
    proof (cases "?b ! d = CHR 0x0D \<and> Suc d < length ?b \<and> ?b ! Suc d = CHR 0x0A")
      case True
      then show ?thesis using "1.prems" \<open>d < length ?b \<and> ?b ! d \<noteq> chr 0\<close>
        by (auto simp: next_line_loop.simps [of d h] bytes_left_def input_size_def)
    next
      case False
      have "next_line_loop (Suc d) h = (h', Some k)" using "1.prems" True False by (simp add: next_line_loop.simps [of d h])
      from "1.IH"(1) [OF refl True False this] show ?thesis by simp
    qed
  next
    case False
    obtain u r where u: "http_read h = (u, r)" by (cases "http_read h")
    have r: "r" using "1.prems" False u by (cases r) (auto simp: next_line_loop.simps [of d h] split: if_splits)
    have "next_line_loop d u = (h', Some k)" using "1.prems" False u r by (simp add: next_line_loop.simps [of d h])
    from "1.IH"(2) [OF refl False u [symmetric, unfolded r]] this show ?thesis using http_read_bytes [OF u] r by auto
  qed
qed

lemma at_pos_self: "at_pos (h_buffer h) (e_input h) (h_data h) (h_state h) h = h"
  by (simp add: at_pos_def)

lemma header_line_bytes: "header_line l h = Some h' \<Longrightarrow> bytes_left h' = bytes_left h \<and> h_state h' = h_state h"
proof -
  assume "header_line l h = Some h'"
  then have "at_pos (h_buffer h) (e_input h) (h_data h) (h_state h) h' = h'"
    using header_line_at [of l "h_buffer h" "e_input h" "h_data h" "h_state h" h] by (simp add: at_pos_self)
  then have "h_buffer h' = h_buffer h" "e_input h' = e_input h" "h_state h' = h_state h" by (metis at_pos_simps(1,2,4))+
  then show ?thesis by (simp add: bytes_left_def input_size_def)
qed

lemma start_line_bytes:
  "(if h_client h then status_line l (start_message h) else request_line l (start_message h)) = Some (h', ok) \<Longrightarrow> bytes_left h' = bytes_left h"
proof -
  assume s: "(if h_client h then status_line l (start_message h) else request_line l (start_message h)) = Some (h', ok)"
  let ?s = "start_message h"
  have "at_pos (h_buffer ?s) (e_input ?s) (h_data ?s) (h_state ?s) h' = h'"
    using s status_line_at [of l "h_buffer ?s" "e_input ?s" "h_data ?s" "h_state ?s" ?s]
      request_line_at [of l "h_buffer ?s" "e_input ?s" "h_data ?s" "h_state ?s" ?s] by (auto simp: at_pos_self split: if_splits)
  then have "h_buffer h' = h_buffer ?s" "e_input h' = e_input ?s" by (metis at_pos_simps(1,2))+
  then show ?thesis by (simp add: bytes_left_def input_size_def start_message_def)
qed

text \<open>What a turn uses up: a line, or once the message before.\<close>

definition turns_left :: "http_connection \<Rightarrow> nat" where
  "turns_left h = (if h_state h = HTTP_COMPLETE then bytes_left h + 2 else bytes_left h - h_data h + 1)"

lemma receive_step_turns:
  assumes "receive_step h = Some (Inl h')"
  shows "turns_left h' < turns_left h"
proof (cases "h_state h")
  case HTTP_START
  obtain u k where u: "next_line h = (u, Some k)"
    using assms HTTP_START by (auto simp: receive_step_def split: prod.splits option.splits)
  note n = next_line_loop_bytes [OF u [unfolded next_line_def]]
  have "bytes_left h' = bytes_left u \<and> h_data h' = k \<and> h_state h' \<noteq> HTTP_COMPLETE"
    using assms HTTP_START u n start_line_bytes [of u "line_at (h_data u) (h_buffer u)"]
    by (auto simp: receive_step_def Let_def bind_eq_Some_conv bytes_left_def input_size_def start_message_def split: if_splits)
  then show ?thesis using n HTTP_START by (auto simp: turns_left_def bytes_left_def)
next
  case HTTP_HEADER
  obtain u k where u: "next_line h = (u, Some k)"
    using assms HTTP_HEADER by (auto simp: receive_step_def split: prod.splits option.splits)
  note n = next_line_loop_bytes [OF u [unfolded next_line_def]]
  have "bytes_left h' = bytes_left u \<and> h_data h' = k \<and> h_state h' \<noteq> HTTP_COMPLETE"
    using assms HTTP_HEADER u n header_line_bytes
    by (auto simp: receive_step_def Let_def bytes_left_def input_size_def split: if_splits)
  then show ?thesis using n HTTP_HEADER by (auto simp: turns_left_def bytes_left_def)
next
  case HTTP_COMPLETE
  then show ?thesis using assms
    by (auto simp: receive_step_def turns_left_def http_rebuffer_def bytes_left_def input_size_def split: if_splits)
qed (use assms in \<open>simp_all add: receive_step_def\<close>)

lemma receive_loop_enough: "turns_left h < n \<Longrightarrow> turns_left h < m \<Longrightarrow> receive_loop n h = receive_loop m h"
proof (induction n arbitrary: m h)
  case (Suc n)
  then obtain k where m: "m = Suc k" by (cases m) auto
  show ?case
  proof (cases "receive_step h")
    case (Some r)
    have "receive_loop n g = receive_loop k g" if "r = Inl g" for g
      using Suc.IH [of g k] receive_step_turns [of h g] Suc.prems Some that m by auto
    then show ?thesis using Some m by (cases r) auto
  qed (simp add: m)
qed simp

text \<open>More turns change nothing: the loop of \<open>http_receive\<close> does not run out of them.\<close>

lemma receive_returns: "bytes_left h + 3 \<le> n \<Longrightarrow> receive_loop n h = http_receive h"
  unfolding http_receive_def by (rule receive_loop_enough) (auto simp: turns_left_def)

text \<open>C27: A message that begins with a start line and header lines, all well formed, is handled line by line,
  however the reads of the connection cut it into pieces, if the buffer with all that is to come, the body too,
  stays below 2048 bytes, every read brings something and no piece ends between a carriage return and its line
  feed: the loop returns with the fuel of \<open>http_receive\<close>, the result is that of the lines, and exactly the body
  is left.\<close>
theorem http_receive_lines:
  assumes "h_state h = HTTP_START" "cuts_ok (h_buffer h) (e_input h)" "h_data h \<le> length (h_buffer h)"
    and "drop (h_data h) (h_buffer h @ concat (e_input h)) = l @ CRLF @ lines_text ls @ body"
    and "length (h_buffer h @ concat (e_input h)) < BUFFER_SIZE"
    and "good_line l" "list_all good_line ls"
    and "start_line l h = Some (h1, True)" "header_lines ls h1 = Some h2"
  shows "\<exists>b cs d n. http_receive h = Some (end_of_headers n (at_pos b cs d HTTP_HEADER h2)) \<and>
    n = h_data h + length l + 2 + length (lines_text ls) \<and> n \<le> length b \<and> drop n b @ concat cs = body"
proof -
  let ?b = "h_buffer h" and ?cs = "e_input h" and ?d = "h_data h"
  have h: "at_pos ?b ?cs ?d HTTP_START h = h" using assms(1) by (simp add: at_pos_def)
  have l: "l \<noteq> []" "list_all line_char l" using assms(6) by (auto simp: good_line_def)
  obtain b' ds where n: "next_line h = (at_pos b' ds ?d HTTP_START h, Some (?d + length l + 2))"
      "line_at ?d b' = l" "drop (?d + length l + 2) (b' @ concat ds) = lines_text ls @ body" "cuts_ok b' ds"
      "length (b' @ concat ds) = length (?b @ concat ?cs)" "?d + length l + 2 \<le> length b'"
    using next_line_at [OF assms(4) l(2) assms(2,5,3), of HTTP_START h] unfolding h by blast
  have s: "(if h_client h then status_line l (start_message h) else request_line l (start_message h)) = Some (h1, True)"
    using assms(8) by (simp add: start_line_def Let_def at_pos_fields)
  have "receive_loop (bytes_left h + 3) h = receive_loop (bytes_left h + 2) (at_pos b' ds (?d + length l + 2) HTTP_HEADER h1)"
    using n(1,2) l(1) assms(1) s
    by (simp add: receive_step_def Let_def numeral_3_eq_3 at_pos_fields status_line_at request_line_at split: if_splits)
  moreover have "length ls < bytes_left h + 2"
  proof -
    have "length ls \<le> length (drop ?d (?b @ concat ?cs))"
      unfolding assms(4) using lines_text_length [of ls] by simp
    then show ?thesis by (simp add: bytes_left_def input_size_def length_concat)
  qed
  ultimately obtain b2 es d2 where r: "http_receive h =
       Some (end_of_headers (?d + length l + 2 + length (lines_text ls)) (at_pos b2 es d2 HTTP_HEADER h2))"
     "drop (?d + length l + 2 + length (lines_text ls)) (b2 @ concat es) = body" "?d + length l + 2 + length (lines_text ls) \<le> length b2"
    using receive_headers [OF assms(9,7) n(3,4) _ n(6), of "bytes_left h + 2"] n(5) assms(5) by (auto simp: http_receive_def)
  then have "drop (?d + length l + 2 + length (lines_text ls)) b2 @ concat es = body" by simp
  with r(1,3) show ?thesis by blast
qed

definition idle_connection :: "string list \<Rightarrow> http_connection" where
  "idle_connection cs = \<lparr>h_query = None, h_content_type = None, h_media_range = None, h_location = None,
     h_host = \<lparr>address_ip = ADDR_IPv4 0, address_port = 0\<rparr>, h_version = ''HTTP/1.1'', h_media = [], h_accept = [],
     h_data = 0, h_end = 0, h_content_length = 0, h_state = HTTP_START, h_method = 0, h_request_method = 0, h_body = False,
     h_close = False, h_client = False, h_status = 0, h_error = 0, h_header = {}, h_context = None, h_send = [],
     h_request = [], h_target = [], h_uri = new_uri, h_buffer = [], e_input = cs, e_replies = [], e_written = [],
     e_date = [], e_peer_closed = False, e_open = True, e_timeout = False, e_junk = new_uri, e_if_index = 0\<rparr>"

lemma http_receive_lines_witness:
  "\<exists>h. http_receive (idle_connection [''GET /a HT'', ''TP/1.1'' @ CRLF, ''Accept: x'' @ CRLF @ CRLF]) = Some (h, HTTP_GET) \<and>
    h_media_range h = Some ''x'' \<and> \<not> h_body h"
proof -
  let ?h = "idle_connection [''GET /a HT'', ''TP/1.1'' @ CRLF, ''Accept: x'' @ CRLF @ CRLF]"
  define h1 where "h1 = fst (the (start_line ''GET /a HTTP/1.1'' ?h))"
  define h2 where "h2 = the (header_line ''Accept: x'' h1)"
  have 1: "start_line ''GET /a HTTP/1.1'' ?h = Some (h1, True)" "h_method h1 = 0" "h_end h1 = 0" "h_error h1 = 0"
    unfolding h1_def by code_simp+
  have 2: "header_line ''Accept: x'' h1 = Some h2" "h_method h2 = 0" "h_end h2 = 0" "h_error h2 = 0" "h_media_range h2 = Some ''x''"
    unfolding h2_def h1_def by code_simp+
  have "cuts_ok [] (e_input ?h)" "good_line ''GET /a HTTP/1.1''" "good_line ''Accept: x''" "length (h_buffer ?h @ concat (e_input ?h)) < BUFFER_SIZE"
    by code_simp+
  then show ?thesis
    using http_receive_lines [of ?h "''GET /a HTTP/1.1''" "[''Accept: x'']" "[]" h1 h2] 1 2
    by (auto simp: idle_connection_def lines_text_def CRLF_def end_of_headers_def at_pos_def http_method_defs)
qed

text \<open>A line whose line feed comes with the next read is not recognised, although it is if all comes
  at once: the search goes on behind the carriage return, takes two lines for one, and the request
  is answered with an error.\<close>
theorem http_split_line_lost:
  "map_option snd (http_receive (idle_connection [''GET /a HTTP/1.1'' @ CRLF @ ''Accept: x'' @ CRLF @ CRLF])) = Some HTTP_GET \<and>
   map_option snd (http_receive (idle_connection [''GET /a HTTP/1.1'' @ [CHR 0x0D], [CHR 0x0A] @ ''Accept: x'' @ CRLF @ CRLF])) = Some HTTP_ERROR"
  by code_simp

subsection \<open>Order of what is sent\<close>

datatype send_op = Write string | Flush

primrec send_step :: "send_op \<Rightarrow> http_connection \<Rightarrow> http_connection" where
  "send_step (Write s) h = http_write s h"
| "send_step Flush h = http_flush h"

primrec written_text :: "send_op \<Rightarrow> string" where
  "written_text (Write s) = s"
| "written_text Flush = []"

text \<open>The result of a write is either that nothing was taken or that all was.\<close>

definition whole_writes :: "http_connection \<Rightarrow> bool" where
  "whole_writes h \<longleftrightarrow> list_all (\<lambda>n. n < 0 \<or> int BUFFER_SIZE \<le> n) (e_replies h)"

definition all_sent :: "http_connection \<Rightarrow> string" where
  "all_sent h = e_written h @ concat (h_send h)"

definition short :: "string \<Rightarrow> bool" where
  "short s \<longleftrightarrow> s \<noteq> [] \<and> length s \<le> BUFFER_SIZE"

lemma conn_write_whole:
  assumes "whole_writes h" "short s" "conn_write s h = (h', n)"
  shows "whole_writes h'" "n \<noteq> 0" "h_send h' = h_send h" "e_written h' = e_written h @ (if n > 0 then s else [])"
proof -
  have l: "0 < length s" "length s \<le> BUFFER_SIZE" using assms(2) by (auto simp: short_def)
  show "whole_writes h'" "n \<noteq> 0" "h_send h' = h_send h" "e_written h' = e_written h @ (if n > 0 then s else [])"
    using assms(1,3) l by (auto simp: conn_write_def whole_writes_def split: list.splits)
qed

lemma flush_loop_order:
  "whole_writes h \<Longrightarrow> list_all short ss \<Longrightarrow>
   whole_writes (flush_loop ss h) \<and> list_all short (h_send (flush_loop ss h)) \<and> all_sent (flush_loop ss h) = e_written h @ concat ss"
proof (induction ss arbitrary: h)
  case (Cons s ss)
  obtain h' n where c: "conn_write s h = (h', n)" by (cases "conn_write s h")
  have s: "short s" using Cons.prems(2) by simp
  note w = conn_write_whole [OF Cons.prems(1) s c]
  show ?case
  proof (cases "n > 0")
    case True
    then show ?thesis using Cons.IH [OF w(1)] Cons.prems(2) w(4) c by simp
  next
    case False
    then show ?thesis using w Cons.prems(2) c by (simp add: all_sent_def whole_writes_def)
  qed
qed (simp add: all_sent_def whole_writes_def)

lemma send_step_order:
  assumes "whole_writes h" "list_all short (h_send h)" "x = Flush \<or> short (written_text x)"
  shows "whole_writes (send_step x h) \<and> list_all short (h_send (send_step x h)) \<and> all_sent (send_step x h) = all_sent h @ written_text x"
proof (cases x)
  case Flush
  have e: "all_sent (conn_close g) = all_sent g" "whole_writes (conn_close g) = whole_writes g" "h_send (conn_close g) = h_send g" for g
    by (simp_all add: conn_close_def all_sent_def whole_writes_def)
  show ?thesis
    using flush_loop_order [OF assms(1,2)] Flush by (simp add: http_flush_def Let_def e) (simp add: all_sent_def)
next
  case (Write s)
  have s: "short s" using assms(3) Write by auto
  obtain h' n where c: "conn_write s h = (h', n)" by (cases "conn_write s h")
  note w = conn_write_whole [OF assms(1) s c]
  show ?thesis
    using assms(1,2) s c w Write by (auto simp: http_write_def all_sent_def whole_writes_def)
qed

text \<open>C28: Whatever writes and flushes are made, and whichever of them the connection below refuses, what
  was sent and what is queued together are the texts in the order in which they were given, as
  long as the connection takes a text as a whole or not at all.\<close>
theorem send_order:
  assumes "whole_writes h" "list_all short (h_send h)" "\<forall>x \<in> set xs. x = Flush \<or> short (written_text x)"
  shows "all_sent (fold send_step xs h) = all_sent h @ concat (map written_text xs)"
  using assms
proof (induction xs arbitrary: h)
  case (Cons x xs)
  have s: "whole_writes (send_step x h)" "list_all short (h_send (send_step x h))"
      "all_sent (send_step x h) = all_sent h @ written_text x"
    using send_step_order [of h x] Cons.prems by auto
  have "\<forall>y \<in> set xs. y = Flush \<or> short (written_text y)" using Cons.prems(3) by simp
  from Cons.IH [OF s(1,2) this] show ?case by (simp add: s(3))
qed simp

lemma send_order_witness:
  "all_sent (fold send_step [Write ''a'', Write ''b'', Flush, Write ''c''] ((idle_connection [])\<lparr>e_replies := [-1]\<rparr>)) = ''abc''"
  using send_order [of "(idle_connection [])\<lparr>e_replies := [-1]\<rparr>" "[Write ''a'', Write ''b'', Flush, Write ''c'']"]
  by (auto simp: idle_connection_def whole_writes_def short_def BUFFER_SIZE_def all_sent_def)

text \<open>A write that takes only a part of the text is counted as done: the rest is lost.\<close>

lemma partial_write_lost:
  "all_sent (http_write ''abc'' ((idle_connection [])\<lparr>e_replies := [2]\<rparr>)) = ''ab''"
  by (simp add: idle_connection_def http_write_def conn_write_def all_sent_def numeral_2_eq_2)

end
