(* ===== verification/Tcp.thy ===== *)
theory Tcp
  imports Queues
begin

section \<open>TCP ports, their timeouts and polling (core/linux/tcp.c, timer.c, event.c)\<close>

text \<open>
  The ports are linked in two queues through the same field \<open>next\<close>, the active ports and those that wait for
  a timeout, so they are cells of a heap. What the kernel answers to a call is an argument: the result of
  \<open>accept\<close>, \<open>connect\<close>, \<open>read\<close> and \<open>epoll_wait\<close>, and the time of \<open>clock_gettime\<close>.
\<close>

subsection \<open>Ports\<close>

datatype tcp_status = Closed | InProgress | Connected

datatype event_type = EVENT_NONE | TCP_ACCEPTOR | UDP_PORT | TCP_PORT | TCP_CONNECT | TCP_ACCEPT | TCP_CLOSED
  | TCP_TIMEOUT | TIMER_EVENT int | POLL_TIMEOUT

type_synonym clock_time = "int \<times> int"

record port =
  pt_type :: event_type
  pt_end :: bool
  pt_status :: tcp_status
  pt_wait :: bool
  pt_prev :: addr
  pt_timeout :: clock_time

record net =
  nt_mem :: mem
  nt_port :: "addr \<Rightarrow> port"
  nt_active :: queue
  nt_wait :: queue
  nt_queued :: "addr \<Rightarrow> queue"
  nt_timer :: clock_time
  nt_timeout :: int

definition upd_port :: "addr \<Rightarrow> (port \<Rightarrow> port) \<Rightarrow> net \<Rightarrow> net" where
  "upd_port p f w = w\<lparr>nt_port := (nt_port w)(p := f (nt_port w p))\<rparr>"

lemma upd_port_sel [simp]:
  "nt_mem (upd_port p f w) = nt_mem w" "nt_active (upd_port p f w) = nt_active w" "nt_wait (upd_port p f w) = nt_wait w"
  "nt_queued (upd_port p f w) = nt_queued w" "nt_timer (upd_port p f w) = nt_timer w" "nt_timeout (upd_port p f w) = nt_timeout w"
  "nt_port (upd_port p f w) = (nt_port w)(p := f (nt_port w p))"
  by (simp_all add: upd_port_def)

definition event_done :: "port \<Rightarrow> bool" where "event_done p \<longleftrightarrow> pt_end p"
definition net_status :: "port \<Rightarrow> tcp_status" where "net_status p = pt_status p"

subsection \<open>Timers\<close>

text \<open>The value a timer is set to, seconds and nanoseconds; zero stops it.\<close>

definition set_timer :: "int \<Rightarrow> net \<Rightarrow> net" where
  "set_timer s w = w\<lparr>nt_timer := (s, 0)\<rparr>"

definition set_timer_ms :: "int \<Rightarrow> net \<Rightarrow> net" where
  "set_timer_ms ms w = (let s = ms div 1000 in w\<lparr>nt_timer := (s, (ms - s * 1000) * 1000000)\<rparr>)"

definition set_timer_ct :: "clock_time \<Rightarrow> clock_time \<Rightarrow> net \<Rightarrow> net" where
  "set_timer_ct now ct w =
     (let s = fst ct - fst now; diff = snd ct - snd now in
      w\<lparr>nt_timer := (if diff \<ge> 0 then (s, diff) else (s - 1, diff + 1000000000))\<rparr>)"

subsection \<open>Timeouts\<close>

definition net_timeout :: "int \<Rightarrow> net \<Rightarrow> net" where
  "net_timeout s w = w\<lparr>nt_timeout := s\<rparr>"

definition compare_timeout :: "net \<Rightarrow> addr \<Rightarrow> addr \<Rightarrow> int" where
  "compare_timeout w a b =
     (let diff = c_int (fst (pt_timeout (nt_port w a)) - fst (pt_timeout (nt_port w b))) in
      if diff \<noteq> 0 then diff else c_int (snd (pt_timeout (nt_port w a)) - snd (pt_timeout (nt_port w b))))"

definition set_timeout :: "clock_time \<Rightarrow> addr \<Rightarrow> net \<Rightarrow> net option" where
  "set_timeout now p w =
     do { let w = upd_port p (\<lambda>t. t\<lparr>pt_timeout := (fst now + nt_timeout w, snd now), pt_prev := 0, pt_wait := True\<rparr>) w;
          (m, q, prev) \<leftarrow> queue_insert_prev (nt_mem w) (nt_wait w) p 0 (compare_timeout w);
          let w = upd_port p (\<lambda>t. t\<lparr>pt_prev := prev\<rparr>) (w\<lparr>nt_mem := m, nt_wait := q\<rparr>);
          Some (set_timer_ct now (pt_timeout (nt_port w (queue_peek q))) w) }"

text \<open>The timer for the first port that waits.\<close>

definition next_timeout :: "clock_time \<Rightarrow> net \<Rightarrow> net" where
  "next_timeout now w =
     (let p = queue_peek (nt_wait w) in if p \<noteq> 0 then set_timer_ct now (pt_timeout (nt_port w p)) w else set_timer 0 w)"

definition clear_timeout :: "clock_time \<Rightarrow> addr \<Rightarrow> net \<Rightarrow> net option" where
  "clear_timeout now p w =
     (if \<not> pt_wait (nt_port w p) then Some w
      else let w = upd_port p (\<lambda>t. t\<lparr>pt_wait := False\<rparr>) w; prev = pt_prev (nt_port w p) in
        if prev \<noteq> 0 then
          do { c \<leftarrow> rd (nt_mem w) p;
               m \<leftarrow> set_next (nt_mem w) prev (nx c);
               Some (upd_port p (\<lambda>t. t\<lparr>pt_prev := 0\<rparr>) (w\<lparr>nt_mem := m\<rparr>)) }
        else do { (q, _) \<leftarrow> queue_remove (nt_mem w) (nt_wait w); Some (next_timeout now (w\<lparr>nt_wait := q\<rparr>)) })"

definition tcp_expired :: "clock_time \<Rightarrow> net \<Rightarrow> (addr \<times> net) option" where
  "tcp_expired now w =
     do { (q, p) \<leftarrow> queue_remove (nt_mem w) (nt_wait w);
          if p \<noteq> 0 then Some (p, next_timeout now (w\<lparr>nt_wait := q\<rparr>)) else Some (0, w) }"

subsection \<open>Connections\<close>

definition add_active :: "addr \<Rightarrow> net \<Rightarrow> net option" where
  "add_active p w = do { (m, q) \<leftarrow> queue_add (nt_mem w) (nt_active w) p; Some (w\<lparr>nt_mem := m, nt_active := q\<rparr>) }"

text \<open>\<open>r\<close> is whether \<open>accept\<close> gave a socket.\<close>

definition accepted :: "bool \<Rightarrow> addr \<Rightarrow> addr \<Rightarrow> net \<Rightarrow> bool \<times> net" where
  "accepted r p a w =
     (if r then (True, upd_port p (\<lambda>t. t\<lparr>pt_status := Connected\<rparr>) w)
      else (False, upd_port a (\<lambda>t. t\<lparr>pt_end := True\<rparr>) w))"

definition net_accept :: "bool \<Rightarrow> addr \<Rightarrow> addr \<Rightarrow> net \<Rightarrow> net option" where
  "net_accept r p a w =
     do { m \<leftarrow> set_next (nt_mem w) p 0;
          case accepted r p a (w\<lparr>nt_mem := m\<rparr>) of
            (True, w) \<Rightarrow> add_active p (upd_port p (\<lambda>t. t\<lparr>pt_type := TCP_ACCEPT\<rparr>) w)
          | (False, w) \<Rightarrow> do { (m, q) \<leftarrow> queue_add (nt_mem w) (nt_queued w a) p;
                              Some (w\<lparr>nt_mem := m, nt_queued := (nt_queued w)(a := q)\<rparr>) } }"

definition accept_queued :: "bool \<Rightarrow> addr \<Rightarrow> net \<Rightarrow> (addr \<times> net) option" where
  "accept_queued r a w =
     (let p = queue_peek (nt_queued w a) in
      if p = 0 then Some (0, w)
      else case accepted r p a w of
        (True, w) \<Rightarrow> do { (q, p) \<leftarrow> queue_remove (nt_mem w) (nt_queued w a); Some (p, w\<lparr>nt_queued := (nt_queued w)(a := q)\<rparr>) }
      | (False, w) \<Rightarrow> Some (0, w))"

text \<open>Only a port that is connected or connecting is closed; closing it is reported through the active queue.\<close>

definition net_close :: "clock_time \<Rightarrow> addr \<Rightarrow> net \<Rightarrow> net option" where
  "net_close now p w =
     (if pt_type (nt_port w p) = TCP_CONNECT \<or> pt_type (nt_port w p) = TCP_PORT then
        do { w \<leftarrow> clear_timeout now p (upd_port p (\<lambda>t. t\<lparr>pt_status := Closed, pt_type := TCP_CLOSED, pt_end := True\<rparr>) w);
             add_active p w }
      else Some w)"

datatype connect_result = Connected_Now | Pending | Refused

definition net_connect :: "connect_result \<Rightarrow> clock_time \<Rightarrow> addr \<Rightarrow> net \<Rightarrow> net option" where
  "net_connect r now p w =
     (let w = upd_port p (\<lambda>t. t\<lparr>pt_type := TCP_CONNECT\<rparr>) w in
      case r of
        Connected_Now \<Rightarrow> add_active p (upd_port p (\<lambda>t. t\<lparr>pt_status := Connected\<rparr>) w)
      | Pending \<Rightarrow> map_option (upd_port p (\<lambda>t. t\<lparr>pt_status := InProgress\<rparr>)) (set_timeout now p w)
      | Refused \<Rightarrow> Some w)"

text \<open>\<open>n\<close> is what \<open>read\<close> or \<open>write\<close> returns.\<close>

definition net_read :: "int \<Rightarrow> clock_time \<Rightarrow> addr \<Rightarrow> net \<Rightarrow> (int \<times> net) option" where
  "net_read n now p w =
     do { let n = (if pt_status (nt_port w p) = Connected then n else -1);
          w \<leftarrow> (if n = 0 then net_close now p w else Some w);
          Some (n, upd_port p (\<lambda>t. t\<lparr>pt_end := n \<le> 0\<rparr>) w) }"

definition net_write :: "int \<Rightarrow> addr \<Rightarrow> net \<Rightarrow> int" where
  "net_write n p w = (if pt_status (nt_port w p) = Connected then n else -1)"

subsection \<open>Polling\<close>

text \<open>
  What \<open>epoll_wait\<close> reports of a port: whether it can be read, written or was closed, whether a pending
  connection is there and whether \<open>accept\<close> gives a socket. Between calls the loop keeps the reports that
  are left and the port of the last event.
\<close>

record report =
  ev_port :: addr
  ev_in :: bool
  ev_out :: bool
  ev_hup :: bool
  ev_connected :: bool
  ev_accept :: bool

record poll =
  po_events :: "report list"
  po_prev :: addr

definition return_prev :: "net \<times> poll \<Rightarrow> (net \<times> poll) option" where
  "return_prev s =
     (case s of (w, po) \<Rightarrow>
        if po_prev po = 0 then Some (w, po)
        else do { w \<leftarrow> (if event_done (nt_port w (po_prev po)) then Some w else add_active (po_prev po) w);
                  Some (w, po\<lparr>po_prev := 0\<rparr>) })"

text \<open>\<open>Inl\<close> is another round of \<open>goto poll\<close>, \<open>Inr\<close> the event that is returned.\<close>

type_synonym poll_result = "(net \<times> poll) + (event_type \<times> addr \<times> net \<times> poll)"

definition poll_accept :: "bool \<Rightarrow> addr \<Rightarrow> net \<Rightarrow> poll \<Rightarrow> poll_result option" where
  "poll_accept r a w po =
     do { (p, w) \<leftarrow> accept_queued r a w;
          if p \<noteq> 0 then do { w \<leftarrow> add_active a w;
                            Some (Inr (TCP_ACCEPT, p, upd_port p (\<lambda>t. t\<lparr>pt_type := TCP_PORT\<rparr>) w, po\<lparr>po_prev := p\<rparr>)) }
          else Some (Inl (w, po\<lparr>po_prev := 0\<rparr>)) }"

definition poll_active :: "bool \<Rightarrow> addr \<Rightarrow> net \<Rightarrow> poll \<Rightarrow> poll_result option" where
  "poll_active r p w po =
     (let t = pt_type (nt_port w p) in
      if t = TCP_ACCEPTOR then poll_accept r p w po
      else if t = TCP_ACCEPT \<or> t = TCP_CONNECT then Some (Inr (t, p, upd_port p (\<lambda>t. t\<lparr>pt_type := TCP_PORT\<rparr>) w, po\<lparr>po_prev := p\<rparr>))
      else if t = TCP_PORT \<or> t = UDP_PORT then Some (Inr (t, p, w, po\<lparr>po_prev := p\<rparr>))
      else Some (Inr (t, p, w, po)))"

definition poll_event :: "clock_time \<Rightarrow> report \<Rightarrow> net \<Rightarrow> poll \<Rightarrow> poll_result option" where
  "poll_event now e w po =
     (let p = ev_port e in
      case pt_type (nt_port w p) of
        TCP_CONNECT \<Rightarrow>
          if ev_out e \<and> ev_connected e then
            do { w \<leftarrow> clear_timeout now p w;
                 Some (Inr (TCP_CONNECT, p, upd_port p (\<lambda>t. t\<lparr>pt_status := Connected, pt_type := TCP_PORT\<rparr>) w, po\<lparr>po_prev := p\<rparr>)) }
          else do { w \<leftarrow> (if ev_hup e then net_close now p w else Some w); Some (Inl (w, po)) }
      | TCP_PORT \<Rightarrow>
          do { w \<leftarrow> clear_timeout now p w;
               Some (Inr (if ev_in e then (TCP_PORT, p, w, po\<lparr>po_prev := p\<rparr>)
                          else if ev_hup e then (TCP_CLOSED, p, upd_port p (\<lambda>t. t\<lparr>pt_status := Closed\<rparr>) w, po\<lparr>po_prev := 0\<rparr>)
                          else (TCP_PORT, p, w, po\<lparr>po_prev := p\<rparr>))) }
      | TCP_ACCEPTOR \<Rightarrow> poll_accept (ev_accept e) p w po
      | TCP_TIMEOUT \<Rightarrow> do { (q, w) \<leftarrow> tcp_expired now w; Some (Inr (TCP_TIMEOUT, q, w, po)) }
      | t \<Rightarrow> Some (Inr (t, p, w, po)))"

text \<open>
  The loop with what \<open>epoll_wait\<close> reports call by call; an empty report is its timeout. At the end of the
  list it blocks, and the result is \<open>None\<close>. \<open>r\<close> is the result of \<open>accept\<close> for an acceptor that was queued.
\<close>

definition poll_round :: "clock_time \<Rightarrow> bool \<Rightarrow> report list list \<Rightarrow> net \<Rightarrow> poll \<Rightarrow> (report list list \<times> poll_result) option" where
  "poll_round now r reports w po =
     (case po_events po of
        e # es \<Rightarrow> map_option (Pair reports) (poll_event now e w (po\<lparr>po_events := es\<rparr>))
      | [] \<Rightarrow>
          do { (q, p) \<leftarrow> queue_remove (nt_mem w) (nt_active w);
               if p \<noteq> 0 then map_option (Pair reports) (poll_active r p (w\<lparr>nt_active := q\<rparr>) po)
               else case reports of
                   [] \<Rightarrow> None
                 | batch # later \<Rightarrow>
                     (case batch of
                        [] \<Rightarrow> Some (later, Inr (POLL_TIMEOUT, 0, w, po))
                      | e # es \<Rightarrow> map_option (Pair later) (poll_event now e w (po\<lparr>po_events := es\<rparr>))) })"

partial_function (option) event_loop ::
    "clock_time \<Rightarrow> bool \<Rightarrow> report list list \<Rightarrow> net \<times> poll \<Rightarrow> (event_type \<times> addr \<times> net \<times> poll) option" where
  "event_loop now r reports s =
     Option.bind (poll_round now r reports (fst s) (snd s)) (\<lambda>x. case snd x of
       Inl s \<Rightarrow> event_loop now r (fst x) s | Inr e \<Rightarrow> Some e)"

declare event_loop.simps [code]

definition event_poll :: "clock_time \<Rightarrow> bool \<Rightarrow> report list list \<Rightarrow> net \<times> poll \<Rightarrow> (event_type \<times> addr \<times> net \<times> poll) option" where
  "event_poll now r reports s = Option.bind (return_prev s) (event_loop now r reports)"

subsection \<open>The timer runs until the timeout\<close>

definition clock_ok :: "clock_time \<Rightarrow> bool" where
  "clock_ok t \<longleftrightarrow> 0 \<le> snd t \<and> snd t < 1000000000"

definition nanoseconds :: "clock_time \<Rightarrow> int" where
  "nanoseconds t = 1000000000 * fst t + snd t"

lemma set_timer_ct_difference:
  assumes "clock_ok now" "clock_ok ct"
  shows "clock_ok (nt_timer (set_timer_ct now ct w)) \<and>
    nanoseconds now + nanoseconds (nt_timer (set_timer_ct now ct w)) = nanoseconds ct"
  using assms by (auto simp: set_timer_ct_def clock_ok_def nanoseconds_def Let_def)

subsection \<open>Ports that wait\<close>

text \<open>Times that \<open>compare_timeout\<close> can compare, as their differences are integers.\<close>

definition comparable :: "net \<Rightarrow> addr set" where
  "comparable w = {a. clock_ok (pt_timeout (nt_port w a)) \<and> 0 \<le> fst (pt_timeout (nt_port w a)) \<and> fst (pt_timeout (nt_port w a)) < 2 ^ 31}"

lemma compare_timeout_value:
  assumes "a \<in> comparable w" "b \<in> comparable w"
  shows "compare_timeout w a b > 0 \<longleftrightarrow> nanoseconds (pt_timeout (nt_port w a)) > nanoseconds (pt_timeout (nt_port w b))"
proof -
  obtain s n where a: "pt_timeout (nt_port w a) = (s, n)" by (cases "pt_timeout (nt_port w a)")
  obtain t m where b: "pt_timeout (nt_port w b) = (t, m)" by (cases "pt_timeout (nt_port w b)")
  have "in_int (s - t)" "in_int (n - m)" using assms a b by (auto simp: comparable_def clock_ok_def in_int_def)
  then show ?thesis
    using assms a b by (auto simp: compare_timeout_def comparable_def clock_ok_def nanoseconds_def c_int_id Let_def)
qed

lemma compare_timeout_le:
  assumes "a \<in> comparable w" "b \<in> comparable w" "0 \<le> compare_timeout w a b"
  shows "nanoseconds (pt_timeout (nt_port w b)) \<le> nanoseconds (pt_timeout (nt_port w a))"
proof -
  obtain s n where a: "pt_timeout (nt_port w a) = (s, n)" by (cases "pt_timeout (nt_port w a)")
  obtain t m where b: "pt_timeout (nt_port w b) = (t, m)" by (cases "pt_timeout (nt_port w b)")
  have "in_int (s - t)" "in_int (n - m)" using assms a b by (auto simp: comparable_def clock_ok_def in_int_def)
  then show ?thesis
    using assms a b by (auto simp: compare_timeout_def comparable_def clock_ok_def nanoseconds_def c_int_id Let_def split: if_splits)
qed

interpretation by_timeout: c_compare "comparable w" "compare_timeout w"
proof unfold_locales
  fix a b assume ab: "a \<in> comparable w" "b \<in> comparable w" "0 \<le> compare_timeout w a b"
  then show "compare_timeout w b a \<le> 0"
    using compare_timeout_le [OF ab] compare_timeout_value [OF ab(2,1)] by linarith
next
  fix a b c assume abc: "a \<in> comparable w" "b \<in> comparable w" "c \<in> comparable w"
    and le: "compare_timeout w a b \<le> 0" "compare_timeout w b c \<le> 0"
  show "compare_timeout w a c \<le> 0"
    using compare_timeout_value [OF abc(1,2)] compare_timeout_value [OF abc(2,3)] compare_timeout_value [OF abc(1,3)] le by linarith
qed

text \<open>C35: A port gets its timeout: it is added to the ports that wait, which stay in the order of their timeouts with
  the tail pointer right, and the timer runs until the first of them.
\<close>
theorem set_timeout_correct:
  assumes w': "w' = upd_port p (\<lambda>t. t\<lparr>pt_timeout := (fst now + nt_timeout w, snd now), pt_prev := 0, pt_wait := True\<rparr>) w"
    and q: "queue_list (nt_mem w) (nt_wait w) xs" "rd (nt_mem w) p \<noteq> None" "p \<notin> set xs"
    and xs: "set (p # xs) \<subseteq> comparable w'" "sorted_by (compare_timeout w') xs"
  shows "\<exists>v ys. set_timeout now p w = Some v \<and> queue_list (nt_mem v) (nt_wait v) ys \<and> mset ys = add_mset p (mset xs) \<and>
    sorted_wrt (\<lambda>a b. nanoseconds (pt_timeout (nt_port v a)) \<le> nanoseconds (pt_timeout (nt_port v b))) ys \<and>
    nt_timer v = nt_timer (set_timer_ct now (pt_timeout (nt_port v (hd ys))) v) \<and> pt_wait (nt_port v p)"
proof -
  let ?t = "\<lambda>a. nanoseconds (pt_timeout (nt_port w' a))"
  obtain c where c: "rd (nt_mem w') p = Some c" using q(2) w' by auto
  have q': "queue_list (nt_mem w') (nt_wait w') xs" using q(1) w' by simp
  define ys where "ys = insert_by (compare_timeout w') p xs"
  obtain m q' where ins: "queue_insert (nt_mem w') (nt_wait w') p (compare_timeout w') = Some (m, q')" and ys: "queue_list m q' ys"
    using queue_insert_list [OF q' c q(3)] unfolding ys_def by metis
  have ms: "mset ys = add_mset p (mset xs)" and st: "sorted_by (compare_timeout w') ys"
    using by_timeout.sorted_insert_by xs by (simp_all add: ys_def)
  obtain prev where prev: "queue_insert_prev (nt_mem w') (nt_wait w') p 0 (compare_timeout w') = Some (m, q', prev)"
    using ins by (auto simp: queue_insert_def bind_Some_iff)
  have sub: "set ys \<subseteq> comparable w'" using ms xs(1) by (metis set_mset_add_mset_insert set_mset_mset list.simps(15))
  have ne: "ys \<noteq> []" using ms by auto
  have peek: "queue_peek q' = hd ys" using queue_seg_peek [OF queue_list_seg [OF ys]] ne by (cases ys) auto
  have srt: "sorted_wrt (\<lambda>a b. ?t a \<le> ?t b) ys"
  proof (rule sorted_wrt_mono_rel [OF _ st [unfolded sorted_by_def]])
    fix a b assume "a \<in> set ys" "b \<in> set ys" "compare_timeout w' a b \<le> 0"
    moreover have "a \<in> comparable w'" "b \<in> comparable w'" using calculation(1,2) sub by auto
    ultimately show "?t a \<le> ?t b" using compare_timeout_value [of a w' b] by linarith
  qed
  let ?v = "set_timer_ct now (pt_timeout (nt_port (upd_port p (\<lambda>t. t\<lparr>pt_prev := prev\<rparr>) w') (queue_peek q')))
    (upd_port p (\<lambda>t. t\<lparr>pt_prev := prev\<rparr>) (w'\<lparr>nt_mem := m, nt_wait := q'\<rparr>))"
  have "set_timeout now p w = Some ?v" using prev by (simp add: set_timeout_def Let_def w')
  moreover have "nt_port ?v a = (if a = p then (nt_port w' p)\<lparr>pt_prev := prev\<rparr> else nt_port w' a)" for a
    by (simp add: set_timer_ct_def Let_def)
  ultimately show ?thesis using ys ms srt peek
    by (intro exI [of _ ?v] exI [of _ ys]) (auto simp: set_timer_ct_def Let_def w' if_distrib cong: if_cong)
qed

definition two_ports :: net where
  "two_ports = \<lparr>nt_mem = \<lparr>cells = [1 \<mapsto> \<lparr>nx = 0, da = 0\<rparr>, 2 \<mapsto> \<lparr>nx = 0, da = 0\<rparr>], brk = 3\<rparr>,
     nt_port = (\<lambda>_. \<lparr>pt_type = TCP_CONNECT, pt_end = False, pt_status = InProgress, pt_wait = False, pt_prev = 0, pt_timeout = (15, 0)\<rparr>),
     nt_active = queue_clear, nt_wait = \<lparr>qfirst = 1, qlast = 1\<rparr>, nt_queued = (\<lambda>_. queue_clear), nt_timer = (0, 0), nt_timeout = 10\<rparr>"

theorem set_timeout_correct_witness:
  "\<exists>v ys. set_timeout (7, 3) 2 two_ports = Some v \<and> queue_list (nt_mem v) (nt_wait v) ys \<and> mset ys = {#2, 1#} \<and> pt_wait (nt_port v 2)"
proof -
  have "queue_list (nt_mem two_ports) (nt_wait two_ports) [1]" "rd (nt_mem two_ports) 2 \<noteq> None"
    by (simp_all add: two_ports_def queue_list_def is_list_def tail_from_def rd_def)
  from set_timeout_correct [OF refl this, of "(7, 3)"] show ?thesis
    by (auto simp: comparable_def clock_ok_def sorted_by_def two_ports_def)
qed

text \<open>
  \<open>clear_timeout\<close> corrects neither the field \<open>prev\<close> of the next port nor the tail of the queue: when two ports
  wait and both get their connection in turn, the second stays among those that wait, and its timeout is
  reported although it is connected.
\<close>
lemma clear_timeout_leaves_port:
  assumes q: "queue_list (nt_mem w) (nt_wait w) [a, b]"
    and p: "pt_wait (nt_port w a)" "pt_prev (nt_port w a) = 0" "pt_wait (nt_port w b)" "pt_prev (nt_port w b) = a"
  shows "\<exists>u v x. clear_timeout now a w = Some u \<and> clear_timeout now b u = Some v \<and> \<not> pt_wait (nt_port v b) \<and> tcp_expired now v = Some (b, x)"
proof -
  have ab: "a \<noteq> b" "a \<noteq> 0" "b \<noteq> 0" "qfirst (nt_wait w) = a" "qlast (nt_wait w) = b"
    using q is_list_distinct [of "nt_mem w" "qfirst (nt_wait w)" "[a, b]"] is_list_alloc [of "nt_mem w" "qfirst (nt_wait w)" "[a, b]"]
    by (auto simp: queue_list_def is_list_def tail_from_def)
  obtain c d where cd: "cells (nt_mem w) a = Some c" "nx c = b" "cells (nt_mem w) b = Some d" "nx d = 0"
    using q by (cases "cells (nt_mem w) a"; cases "cells (nt_mem w) b") (auto simp: queue_list_def is_list_def rd_def split: if_splits)
  have "queue_remove (nt_mem w) (nt_wait w) = Some (\<lparr>qfirst = b, qlast = b\<rparr>, a)"
    using ab cd by (cases "nt_wait w") (simp add: queue_remove_def rd_def)
  then show ?thesis using p ab cd
    by (auto simp: clear_timeout_def next_timeout_def tcp_expired_def queue_peek_def queue_remove_def set_timer_ct_def set_timer_def rd_def set_next_def Let_def)
qed

end
