(* ===== verification/Tls.thy ===== *)
theory Tls
  imports Tcp
begin

section \<open>Connections with and without TLS (core/connection.c, openssl.c)\<close>

text \<open>
  A \<open>Connection\<close> is a port with a TLS session or none. OpenSSL is outside: each call of it has its result
  as an argument, and the calls are recorded in \<open>c_log\<close>, so that their order can be stated. \<open>c_tls\<close> is
  whether the pointer to the session is not NULL; a call with a NULL session is recorded all the same.
\<close>

datatype tls_state = TLS_NONE | TLS_NEGOTIATE | TLS_SHUTDOWN | TLS_SESSION

datatype ssl_call = Ssl_New | Ssl_Role | Ssl_Handshake bool | Ssl_Read | Ssl_Write | Ssl_Shutdown bool | Ssl_Free | Ssl_Null

datatype session_status = SESSION_NONE | SESSION_CONNECTED | SESSION_NEW

text \<open>\<open>c_secure\<close> is which functions \<open>session\<close>, \<open>read\<close>, \<open>write\<close> and \<open>close\<close> point to.\<close>

record connection =
  c_type :: event_type
  c_status :: tcp_status
  c_tls :: bool
  c_state :: tls_state
  c_secure :: bool
  c_log :: "ssl_call list"

text \<open>
  What a call of OpenSSL gives: its result, what \<open>SSL_get_error\<close> says when it fails, which \<open>ssl_pending\<close> looks
  at, and whether the port was at its end, so that \<open>net_read\<close> below has closed it.
\<close>

datatype ssl_error = SSL_ERROR_NONE | SSL_ERROR_WANT_READ | SSL_ERROR_WANT_WRITE | SSL_ERROR_OTHER

record ssl_answer =
  sa_ret :: int
  sa_err :: ssl_error
  sa_eof :: bool

definition ssl_pending :: "ssl_answer \<Rightarrow> bool" where
  "ssl_pending r \<longleftrightarrow> sa_err r = SSL_ERROR_WANT_READ \<or> sa_err r = SSL_ERROR_WANT_WRITE"

text \<open>The part of \<open>net_close\<close> that concerns the port.\<close>

definition port_close :: "connection \<Rightarrow> connection" where
  "port_close c =
     (if c_type c = TCP_CONNECT \<or> c_type c = TCP_PORT then c\<lparr>c_status := Closed, c_type := TCP_CLOSED\<rparr> else c)"

text \<open>A call on the session, which reads from the port if it is connected.\<close>

definition ssl_call :: "ssl_call \<Rightarrow> bool \<Rightarrow> connection \<Rightarrow> connection" where
  "ssl_call x eof c =
     (let c = c\<lparr>c_log := c_log c @ [if c_tls c then x else Ssl_Null]\<rparr> in
      if eof \<and> c_status c = Connected then port_close c else c)"

definition conn_secure :: "connection \<Rightarrow> bool" where "conn_secure c \<longleftrightarrow> c_tls c"

subsection \<open>Sessions\<close>

definition tcp_session :: "connection \<Rightarrow> session_status" where
  "tcp_session c = (if c_status c = Connected then SESSION_CONNECTED else SESSION_NONE)"

text \<open>\<open>ssl_close\<close> counts every result of \<open>SSL_shutdown\<close> but 0 as success, an error as well.\<close>

definition tls_shutdown :: "ssl_answer \<Rightarrow> connection \<Rightarrow> connection" where
  "tls_shutdown z c =
     (let c = ssl_call (Ssl_Shutdown (sa_ret z \<noteq> 0)) (sa_eof z) c in
      if sa_ret z \<noteq> 0 then port_close ((ssl_call Ssl_Free False c)\<lparr>c_state := TLS_NONE, c_tls := False\<rparr>) else c)"

text \<open>\<open>r\<close> is the answer to the call, \<open>z\<close> that to a shutdown.\<close>

definition tls_session :: "ssl_answer \<Rightarrow> ssl_answer \<Rightarrow> connection \<Rightarrow> connection \<times> session_status" where
  "tls_session r z c =
     (if c_status c \<noteq> Connected then (c, SESSION_NONE)
      else case c_state c of
        TLS_NEGOTIATE \<Rightarrow>
          let c = ssl_call (Ssl_Handshake (sa_ret r = 1)) (sa_eof r) c in
          if sa_ret r = 1 then (c\<lparr>c_state := TLS_SESSION\<rparr>, SESSION_NEW)
          else if \<not> ssl_pending r then (tls_shutdown z (c\<lparr>c_state := TLS_SHUTDOWN\<rparr>), SESSION_NONE)
          else (c, SESSION_NONE)
      | TLS_SHUTDOWN \<Rightarrow> (tls_shutdown z c, SESSION_NONE)
      | TLS_SESSION \<Rightarrow> (c, SESSION_CONNECTED)
      | TLS_NONE \<Rightarrow> (c, SESSION_NONE))"

text \<open>With \<open>TLS_SHUTDOWN\<close> the first answer is not looked at.\<close>

definition tls_close :: "ssl_answer \<Rightarrow> connection \<Rightarrow> connection" where
  "tls_close z c = fst (tls_session z z (c\<lparr>c_state := TLS_SHUTDOWN\<rparr>))"

definition tls_transfer :: "ssl_call \<Rightarrow> ssl_answer \<Rightarrow> ssl_answer \<Rightarrow> connection \<Rightarrow> connection \<times> int" where
  "tls_transfer call r z c =
     (if c_state c = TLS_SESSION then
        let c = ssl_call call (sa_eof r) c in
        (if sa_ret r \<le> 0 \<and> \<not> ssl_pending r then tls_close z c else c, sa_ret r)
      else (c, -1))"

definition tls_read :: "ssl_answer \<Rightarrow> ssl_answer \<Rightarrow> connection \<Rightarrow> connection \<times> int" where
  "tls_read = tls_transfer Ssl_Read"

definition tls_write :: "ssl_answer \<Rightarrow> ssl_answer \<Rightarrow> connection \<Rightarrow> connection \<times> int" where
  "tls_write = tls_transfer Ssl_Write"

definition tcp_setup :: "connection \<Rightarrow> connection" where
  "tcp_setup c = c\<lparr>c_tls := False, c_secure := False\<rparr>"

definition tls_setup :: "connection \<Rightarrow> connection" where
  "tls_setup c = c\<lparr>c_tls := True, c_secure := True, c_state := TLS_NEGOTIATE, c_log := c_log c @ [Ssl_New]\<rparr>"

subsection \<open>The interface\<close>

text \<open>Without TLS the answer is that of the port.\<close>

definition conn_session :: "ssl_answer \<Rightarrow> ssl_answer \<Rightarrow> connection \<Rightarrow> connection \<times> session_status" where
  "conn_session r z c = (if c_secure c then tls_session r z c else (c, tcp_session c))"

definition conn_read :: "ssl_answer \<Rightarrow> ssl_answer \<Rightarrow> connection \<Rightarrow> connection \<times> int" where
  "conn_read r z c =
     (if c_secure c then tls_read r z c
      else let n = (if c_status c = Connected then sa_ret r else -1) in (if n = 0 then port_close c else c, n))"

definition conn_write :: "ssl_answer \<Rightarrow> ssl_answer \<Rightarrow> connection \<Rightarrow> connection \<times> int" where
  "conn_write r z c =
     (if c_secure c then tls_write r z c else (c, if c_status c = Connected then sa_ret r else -1))"

definition conn_close :: "ssl_answer \<Rightarrow> connection \<Rightarrow> connection" where
  "conn_close z c = (if c_secure c then tls_close z c else port_close c)"

text \<open>\<open>now\<close> is whether a connection was there at once.\<close>

definition conn_accept :: "bool \<Rightarrow> bool \<Rightarrow> connection \<Rightarrow> connection" where
  "conn_accept now secure c =
     (let c = (if now then c\<lparr>c_status := Connected, c_type := TCP_ACCEPT\<rparr> else c) in
      if secure then ssl_call Ssl_Role False (tls_setup c) else tcp_setup c)"

definition conn_connect :: "connect_result \<Rightarrow> bool \<Rightarrow> connection \<Rightarrow> connection" where
  "conn_connect r secure c =
     (let c = c\<lparr>c_type := TCP_CONNECT, c_status := (case r of Connected_Now \<Rightarrow> Connected | Pending \<Rightarrow> InProgress | Refused \<Rightarrow> c_status c)\<rparr> in
      if secure then ssl_call Ssl_Role False (tls_setup c) else tcp_setup c)"

definition new_connection :: connection where
  "new_connection = \<lparr>c_type = EVENT_NONE, c_status = Closed, c_tls = False, c_state = TLS_NONE, c_secure = False, c_log = []\<rparr>"

subsection \<open>The steps of a connection\<close>

text \<open>
  What happens to the port between the calls: the end of a pending connection, of a queued \<open>accept\<close>, the
  report of a new port, the end of the stream. A connection is opened when it is closed. The client uses it
  as it likes, but it does not close an open connection whose session has been freed: \<open>net_close\<close> leaves a port
  open that was accepted and not yet reported (\<open>accepted_close_null\<close>).
\<close>

definition session_lost :: "connection \<Rightarrow> bool" where
  "session_lost c \<longleftrightarrow> c_secure c \<and> \<not> c_tls c \<and> c_status c = Connected"

inductive conn_step :: "connection \<Rightarrow> connection \<Rightarrow> bool" where
  step_connect: "c_status c = Closed \<Longrightarrow> conn_step c (conn_connect r secure c)"
| step_accept: "c_status c = Closed \<Longrightarrow> conn_step c (conn_accept now secure c)"
| step_connected: "c_type c = TCP_CONNECT \<Longrightarrow> conn_step c (c\<lparr>c_status := Connected, c_type := TCP_PORT\<rparr>)"
| step_accepted: "c_type c = EVENT_NONE \<Longrightarrow> conn_step c (c\<lparr>c_status := Connected, c_type := TCP_PORT\<rparr>)"
| step_reported: "c_type c = TCP_ACCEPT \<Longrightarrow> conn_step c (c\<lparr>c_type := TCP_PORT\<rparr>)"
| step_hup: "c_type c = TCP_PORT \<Longrightarrow> conn_step c (c\<lparr>c_status := Closed\<rparr>)"
| step_session: "conn_step c (fst (conn_session r z c))"
| step_read: "conn_step c (fst (conn_read r z c))"
| step_write: "conn_step c (fst (conn_write r z c))"
| step_close: "\<not> session_lost c \<Longrightarrow> conn_step c (conn_close z c)"

inductive_cases conn_step_cases: "conn_step c d"


subsection \<open>What OpenSSL is asked\<close>

text \<open>
  The order that OpenSSL wants: a new session gets its role, shakes hands until that succeeds, transfers data,
  is shut down and freed. A session may be given up without being freed.
\<close>

datatype phase = No_Session | Fresh | Negotiating | Up | Closing | Shut

fun ssl_next :: "phase option \<Rightarrow> ssl_call \<Rightarrow> phase option" where
  "ssl_next None x = None"
| "ssl_next (Some p) x =
     (case x of
        Ssl_New \<Rightarrow> Some Fresh
      | Ssl_Role \<Rightarrow> if p = Fresh then Some Negotiating else None
      | Ssl_Handshake b \<Rightarrow> if p = Negotiating then Some (if b then Up else Negotiating) else None
      | Ssl_Read \<Rightarrow> if p = Up then Some Up else None
      | Ssl_Write \<Rightarrow> if p = Up then Some Up else None
      | Ssl_Shutdown b \<Rightarrow> if p = Negotiating \<or> p = Up \<or> p = Closing then Some (if b then Shut else Closing) else None
      | Ssl_Free \<Rightarrow> if p = Shut then Some No_Session else None
      | Ssl_Null \<Rightarrow> None)"

definition ssl_phase :: "ssl_call list \<Rightarrow> phase option" where
  "ssl_phase xs = foldl ssl_next (Some No_Session) xs"

lemma ssl_phase_append [simp]: "ssl_phase (xs @ ys) = foldl ssl_next (ssl_phase xs) ys" "ssl_phase [] = Some No_Session"
  by (simp_all add: ssl_phase_def)



lemma port_close_sel [simp]:
  "c_tls (port_close c) = c_tls c" "c_state (port_close c) = c_state c" "c_secure (port_close c) = c_secure c" "c_log (port_close c) = c_log c"
  by (simp_all add: port_close_def)

lemma ssl_call_sel [simp]:
  "c_tls (ssl_call x e c) = c_tls c" "c_state (ssl_call x e c) = c_state c" "c_secure (ssl_call x e c) = c_secure c"
  "c_log (ssl_call x e c) = c_log c @ [if c_tls c then x else Ssl_Null]"
  by (simp_all add: ssl_call_def Let_def)













definition answer :: "int \<Rightarrow> bool \<Rightarrow> ssl_answer" where
  "answer n eof = \<lparr>sa_ret = n, sa_err = SSL_ERROR_OTHER, sa_eof = eof\<rparr>"


text \<open>
  When the handshake of a connection fails that was accepted at once, before it is reported, its session is freed but
  the port stays open; closing the connection then passes NULL to OpenSSL.
\<close>

lemma accepted_close_null:
  assumes "c_status c = Closed" "sa_ret r \<noteq> 1" "\<not> ssl_pending r" "sa_ret z \<noteq> 0"
  shows "c_log (conn_close z' (fst (conn_session r z (conn_accept True True c)))) =
    c_log c @ [Ssl_New, Ssl_Role, Ssl_Handshake False, Ssl_Shutdown True, Ssl_Free, Ssl_Null] @
      (if sa_ret z' \<noteq> 0 then [Ssl_Null] else [])"
  using assms by (simp add: conn_close_def tls_close_def conn_session_def tls_session_def tls_shutdown_def conn_accept_def tls_setup_def
    ssl_call_def port_close_def Let_def)

text \<open>
  When a read meets the end of the stream, the port is closed below the session, so that the session is
  neither shut down nor freed, then or later; the next connection overwrites it.
\<close>
theorem tls_end_of_stream_leaks:
  assumes "c_secure c" "c_state c = TLS_SESSION" "c_tls c" "c_status c = Connected" "c_type c = TCP_PORT"
    and "sa_eof r" "sa_ret r \<le> 0" "\<not> ssl_pending r"
  shows "\<exists>d. conn_read r z c = (d, sa_ret r) \<and> c_log d = c_log c @ [Ssl_Read] \<and> c_tls d \<and>
    conn_session r' z' d = (d, SESSION_NONE) \<and> c_log (conn_close z' d) = c_log d \<and>
    c_log (conn_connect Pending True d) = c_log d @ [Ssl_New, Ssl_Role]"
  using assms
  by (simp add: conn_read_def tls_read_def tls_transfer_def tls_close_def tls_session_def ssl_call_def port_close_def conn_session_def
    conn_close_def conn_connect_def tls_setup_def)

theorem tls_end_of_stream_leaks_witness:
  "c_log (conn_connect Pending True (fst (conn_read (answer 0 True) (answer 1 False)
     (new_connection\<lparr>c_secure := True, c_state := TLS_SESSION, c_tls := True, c_status := Connected, c_type := TCP_PORT, c_log := [Ssl_New]\<rparr>)))) =
   [Ssl_New, Ssl_Read, Ssl_New, Ssl_Role]"
  using tls_end_of_stream_leaks [of "new_connection\<lparr>c_secure := True, c_state := TLS_SESSION, c_tls := True, c_status := Connected, c_type := TCP_PORT, c_log := [Ssl_New]\<rparr>"
    "answer 0 True" "answer 1 False" "answer 0 True" "answer 0 True"] by (auto simp: answer_def ssl_pending_def)

end
