(* ===== verification/Se_Connection.thy ===== *)
theory Se_Connection
  imports Http Tls
begin

section \<open>IEEE 2030.5 connections (core/se_connection.c)\<close>

text \<open>
  The negotiation of the content type, the receiving of messages with a body, and the list of
  connections. A connection has the HTTP connection of \<open>Http\<close> and the port and session of \<open>Tls\<close>, whose
  names \<open>conn_write\<close> and \<open>conn_close\<close> are both used here with their theory.

  The parser of a body is a structure of functions in the source, one for each media type; here it is
  an argument. The outer \<open>None\<close> is an invalid access, or a loop that does not end.
\<close>

subsection \<open>Media types\<close>

definition SE_EXI :: nat where "SE_EXI = 0"
definition SE_XML :: nat where "SE_XML = 1"
definition APPLICATION_XML :: nat where "APPLICATION_XML = 2"

lemmas media_defs = SE_EXI_def SE_XML_def APPLICATION_XML_def

definition se_ranges :: "string list" where
  "se_ranges = [''application/sep-exi'', ''application/sep+xml'', ''application/xml'', ''application/*'', ''*/*'']"

definition se_range :: "string \<Rightarrow> nat" where
  "se_range s = string_index (to_lower s) se_ranges"

text \<open>A \<open>MediaType\<close> before it is filled.\<close>

definition no_media :: media_type where
  "no_media = \<lparr>m_type = [], m_sub = [], m_param = no_params, m_quality = 0\<rparr>"

lemma media_params_shorter: "media_params i m data = Some (Some (m', rest)) \<Longrightarrow> length rest \<le> length data"
proof (induction "length data" arbitrary: i m data rule: less_induct)
  case less
  have IH: "length rest \<le> length d" if "length d < length data" "media_params j n d = Some (Some (m', rest))" for j n d
    using less(1) that by blast
  show ?case
  proof (cases data)
    case Nil
    then show ?thesis using less(2) by (subst (asm) media_params.simps) simp
  next
    case (Cons c d)
    have t: "length r < length data" if "token (ows d) = Some (t, u)" "qvalue (tl u) = Some (q, r)" for t u q r
      using token_shorter [OF that(1)] qvalue_shorter [OF that(2)] ows_shorter [of d] Cons by fastforce
    have v: "length r < length data" if "token (ows d) = Some (t, u)" "pvalue (tl u) = Some (Some (q, r))" for t u q r
      using token_shorter [OF that(1)] pvalue_shorter [OF that(2)] ows_shorter [of d] Cons by fastforce
    show ?thesis using less(2) Cons
      by (subst (asm) media_params.simps)
        (auto simp: Let_def split: if_splits option.splits prod.splits dest!: IH [rotated] dest: t v)
  qed
qed

lemma media_range_shorter: "media_range m data = Some (Some (m', rest)) \<Longrightarrow> length rest < length data"
proof -
  let ?d = "dropWhile (\<lambda>c. hws c \<or> c = CHR '','') data"
  assume "media_range m data = Some (Some (m', rest))"
  then obtain t d u e where "token ?d = Some (t, d)" "token (tl d) = Some (u, e)" "length rest \<le> length e"
    by (auto simp: media_range_def Let_def split: if_splits option.splits dest!: media_params_shorter)
  then show ?thesis using token_shorter [of ?d] token_shorter [of "tl d"] length_dropWhile_le [of _ data]
    by (metis (no_types, lifting) diff_le_self le_less_trans length_tl less_le_trans less_trans)
qed

function select_loop :: "nat \<Rightarrow> int \<Rightarrow> media_type \<Rightarrow> string \<Rightarrow> nat option" where
  "select_loop type quality media data =
     (case media_range media data of
        None \<Rightarrow> None
      | Some None \<Rightarrow> Some type
      | Some (Some (media, data)) \<Rightarrow>
          let index = se_range (m_type media) in
          if index \<in> {SE_EXI, SE_XML, APPLICATION_XML} \<and> m_quality media > quality
          then select_loop index (m_quality media) media data
          else select_loop type quality media data)"
  by pat_completeness auto
termination by (relation "measure (\<lambda>(t, q, m, r). length r)") (auto dest: media_range_shorter)

declare select_loop.simps [simp del]

definition select_media :: "string \<Rightarrow> nat option" where
  "select_media data = select_loop SE_XML 0 no_media data"

definition body_type :: "http_connection \<Rightarrow> nat option" where
  "body_type h =
     (case h_content_type h of
        None \<Rightarrow> Some 3
      | Some t \<Rightarrow> (case media_range no_media t of None \<Rightarrow> None | Some None \<Rightarrow> Some 3 | Some (Some (m, _)) \<Rightarrow> Some (se_range (m_type m))))"

subsection \<open>Receiving\<close>

text \<open>
  \<open>bp_init\<close> prepares the parser for a media type. \<open>bp_parse\<close> is \<open>parser_rebuffer\<close> and \<open>parse_doc\<close>: it gets
  the buffer from the data on, and the length of the data, and gives whether a document is complete and
  how far \<open>ptr\<close> is from the data. The pointer may also be one to elsewhere, \<open>None\<close>: for an empty element
  the XML parser has it point to an empty string.
\<close>

record 'p body_parser =
  bp_init :: "nat \<Rightarrow> 'p"
  bp_parse :: "string \<Rightarrow> int \<Rightarrow> 'p \<Rightarrow> ('p \<times> bool \<times> nat option) option"

type_synonym raw_address = "address \<times> u8 list"

text \<open>
  A host has the bytes of the \<open>Address\<close> structure that its kind of address does not use, as \<open>address_eq\<close>
  compares them. \<open>sn_data\<close> is whether the state is \<open>SE_DATA\<close>.
\<close>

record 'p se_connection =
  sn_http :: http_connection
  sn_port :: connection
  sn_host :: "raw_address option"
  sn_parser :: 'p
  sn_data :: bool
  sn_media :: nat

definition SE_ERROR :: nat where "SE_ERROR = HTTP_RESPONSE + 1"
definition SE_INCOMPLETE :: nat where "SE_INCOMPLETE = HTTP_RESPONSE + 2"

definition se_content_type :: "'p se_connection \<Rightarrow> string \<times> nat" where
  "se_content_type s = (se_ranges ! sn_media s, sn_media s)"

text \<open>\<open>False\<close> is a content type that is not supported.\<close>

definition se_parse_init :: "'p body_parser \<Rightarrow> 'p se_connection \<Rightarrow> ('p se_connection \<times> bool) option" where
  "se_parse_init bp c =
     do { type \<leftarrow> body_type (sn_http c);
          Some (if type \<in> {SE_EXI, SE_XML, APPLICATION_XML} then (c\<lparr>sn_parser := bp_init bp type\<rparr>, True) else (c, False)) }"

definition se_error :: "int \<Rightarrow> 'p se_connection \<Rightarrow> 'p se_connection \<times> nat" where
  "se_error code c =
     (let h = sn_http c in
      (c\<lparr>sn_http := (if h_method h = HTTP_RESPONSE then http_close h else http_error code h)\<rparr>, SE_ERROR))"

partial_function (option) body_loop :: "'p body_parser \<Rightarrow> nat \<Rightarrow> 'p se_connection \<Rightarrow> ('p se_connection \<times> nat) option" where
  "body_loop bp method c =
     (case http_data (sn_http c) of (h, r) \<Rightarrow>
        if r = None then Some (c\<lparr>sn_http := h\<lparr>e_timeout := True\<rparr>\<rparr>, SE_INCOMPLETE)
        else Option.bind (bp_parse bp (drop (fst (the r)) (h_buffer h)) (snd (the r)) (sn_parser c)) (\<lambda>x.
          let c = c\<lparr>sn_http := h, sn_parser := fst x\<rparr> in
          if fst (snd x) then Some (c\<lparr>sn_data := False\<rparr>, method)
          else if \<not> http_complete h then
            Option.bind (snd (snd x)) (\<lambda>k. body_loop bp method (c\<lparr>sn_http := http_rebuffer (fst (the r) + k) h\<rparr>))
          else Some (se_error 400 c)))"

declare body_loop.simps [code]

definition se_receive :: "'p body_parser \<Rightarrow> 'p se_connection \<Rightarrow> ('p se_connection \<times> nat) option" where
  "se_receive bp c =
     do { (h, method) \<leftarrow> http_receive (http_flush (sn_http c));
          let c = c\<lparr>sn_http := h\<rparr>;
          if method = HTTP_NONE then Some (c, SE_INCOMPLETE)
          else if method = HTTP_ERROR then Some (c, SE_ERROR)
          else if sn_data c then body_loop bp method c
          else do {
            media \<leftarrow> (case h_media_range h of None \<Rightarrow> Some (sn_media c) | Some r \<Rightarrow> select_media r);
            let c = c\<lparr>sn_media := media\<rparr>;
            if h_body h then
              do { (c, ok) \<leftarrow> se_parse_init bp c;
                   if ok then body_loop bp method (c\<lparr>sn_data := True\<rparr>) else Some (se_error 415 c) }
            else Some (c, method) } }"

subsection \<open>The list of connections\<close>

text \<open>
  The newest connection is the first. A pointer to a connection is the number of those that are older;
  connections are never removed. \<open>se_media\<close> is a global variable of the application.
\<close>

type_synonym 'p connections = "'p se_connection list"

definition fresh_http :: "http_connection \<Rightarrow> http_connection" where
  "fresh_http e = (idle_connection (e_input e))\<lparr>h_version := [], e_replies := e_replies e, e_date := e_date e, e_if_index := e_if_index e\<rparr>"

definition new_conn :: "nat \<Rightarrow> 'p \<Rightarrow> http_connection \<Rightarrow> bool \<Rightarrow> 'p connections \<Rightarrow> 'p connections" where
  "new_conn se_media p e client w =
     (let accept = (if se_media = SE_XML then ''application/sep+xml; level=-S1''
                    else ''application/sep-exi; level=-S1, application/sep+xml; level=-S1'');
          media = (if se_media = SE_XML then ''application/sep+xml'' else ''application/sep-exi'') in
      \<lparr>sn_http = http_init client accept media (fresh_http e), sn_port = new_connection, sn_host = None, sn_parser = p,
       sn_data = False, sn_media = se_media\<rparr> # w)"

text \<open>\<open>address_eq\<close> compares all bytes.\<close>

fun find_conn :: "raw_address \<Rightarrow> 'p connections \<Rightarrow> nat option" where
  "find_conn a [] = None"
| "find_conn a (c # w) = (if h_client (sn_http c) \<and> sn_host c = Some a then Some (length w) else find_conn a w)"

definition get_conn :: "nat \<Rightarrow> 'p \<Rightarrow> http_connection \<Rightarrow> raw_address \<Rightarrow> 'p connections \<Rightarrow> 'p connections \<times> nat" where
  "get_conn se_media p e a w =
     (case find_conn a w of Some i \<Rightarrow> (w, i) | None \<Rightarrow> (new_conn se_media p e True w, length w))"

definition upd_at_number :: "nat \<Rightarrow> ('p se_connection \<Rightarrow> 'p se_connection) \<Rightarrow> 'p connections \<Rightarrow> 'p connections" where
  "upd_at_number i f w = (let k = length w - Suc i in w[k := f (w ! k)])"

text \<open>
  \<open>r\<close> is what \<open>connect\<close> returns, \<open>x\<close> and \<open>z\<close> are the answers of OpenSSL.
\<close>

definition connect_conn :: "connect_result \<Rightarrow> ssl_answer \<Rightarrow> ssl_answer \<Rightarrow> raw_address \<Rightarrow> bool \<Rightarrow> 'p se_connection \<Rightarrow> 'p se_connection" where
  "connect_conn r x z a secure c =
     (let c = c\<lparr>sn_host := Some a, sn_http := (sn_http c)\<lparr>h_host := fst a\<rparr>\<rparr>;
          c = (if c_status (sn_port c) = Closed then c\<lparr>sn_port := conn_connect r secure (sn_port c)\<rparr> else c) in
      case conn_session x z (sn_port c) of
        (port, st) \<Rightarrow> c\<lparr>sn_port := port, sn_http := (if st \<noteq> SESSION_NONE then http_flush (sn_http c) else sn_http c)\<rparr>)"

definition se_connect ::
    "nat \<Rightarrow> 'p \<Rightarrow> http_connection \<Rightarrow> connect_result \<Rightarrow> ssl_answer \<Rightarrow> ssl_answer \<Rightarrow> raw_address \<Rightarrow> bool \<Rightarrow> 'p connections \<Rightarrow> 'p connections \<times> nat" where
  "se_connect se_media p e r x z a secure w =
     (case get_conn se_media p e a w of (w, i) \<Rightarrow> (upd_at_number i (connect_conn r x z a secure) w, i))"

text \<open>The scheme and the host of the URI may not be NULL.\<close>

definition se_connect_uri ::
    "nat \<Rightarrow> 'p \<Rightarrow> http_connection \<Rightarrow> connect_result \<Rightarrow> ssl_answer \<Rightarrow> ssl_answer \<Rightarrow> uri \<Rightarrow> u8 list \<Rightarrow> 'p connections \<Rightarrow> ('p connections \<times> nat) option" where
  "se_connect_uri se_media p e r x z u unset w =
     do { s \<leftarrow> uri_scheme u; a \<leftarrow> uri_host u; Some (se_connect se_media p e r x z (a, unset) (s = ''https'') w) }"

definition se_accept :: "nat \<Rightarrow> 'p \<Rightarrow> http_connection \<Rightarrow> bool \<Rightarrow> bool \<Rightarrow> 'p connections \<Rightarrow> 'p connections \<times> nat" where
  "se_accept se_media p e now secure w =
     (upd_at_number (length w) (\<lambda>c. c\<lparr>sn_port := conn_accept now secure (sn_port c)\<rparr>) (new_conn se_media p e False w), length w)"

subsection \<open>Sending\<close>

text \<open>
  \<open>out\<close> is what one call of \<open>output_doc\<close> writes for a media type and the room that is left in the buffer. A
  URI that cannot be parsed leaves the structure on the stack uninitialised, \<open>None\<close>; \<open>unset\<close> are the bytes of
  its host that are never set.
\<close>

definition se_send ::
    "nat \<Rightarrow> 'p \<Rightarrow> http_connection \<Rightarrow> connect_result \<Rightarrow> ssl_answer \<Rightarrow> ssl_answer \<Rightarrow> u32 \<Rightarrow> u8 list \<Rightarrow> (nat \<Rightarrow> nat \<Rightarrow> string) \<Rightarrow>
     nat option \<Rightarrow> string \<Rightarrow> nat \<Rightarrow> 'p connections \<Rightarrow> ('p connections \<times> nat option) option" where
  "se_send se_media p e r x z if_index unset out conn href method w =
     do { u \<leftarrow> http_parse_uri if_index (map_option (\<lambda>i. conn_secure (sn_port (w ! (length w - Suc i)))) conn) href 127;
          u \<leftarrow> u;
          (w, conn) \<leftarrow> (if uri_host u = None then Some (w, conn)
                       else map_option (\<lambda>(w, i). (w, Some i)) (se_connect_uri se_media p e r x z u unset w));
          (case conn of
             None \<Rightarrow> Some (w, None)
           | Some i \<Rightarrow>
               do { path \<leftarrow> uri_path u;
                    let c = w ! (length w - Suc i);
                    let (h, header) = http_send path method (sn_http c);
                    let body = out (sn_media c) (4096 - length header);
                    header \<leftarrow> set_content_length header (int (length body));
                    Some (upd_at_number i (\<lambda>c. c\<lparr>sn_http := http_write (header @ body) h\<rparr>) w, Some i) }) }"

subsection \<open>The best media type is chosen\<close>

text \<open>The media ranges of a header with their qualities.\<close>

function media_ranges :: "string \<Rightarrow> (nat \<times> int) list option" where
  "media_ranges data =
     (case media_range no_media data of
        None \<Rightarrow> None
      | Some None \<Rightarrow> Some []
      | Some (Some (m, data)) \<Rightarrow> map_option (Cons (se_range (m_type m), m_quality m)) (media_ranges data))"
  by pat_completeness auto
termination by (relation "measure length") (auto dest: media_range_shorter)

declare media_ranges.simps [simp del]

lemma media_range_same: "media_range m data = media_range no_media data"
proof -
  have "m\<lparr>m_param := p, m_type := a, m_sub := b, m_quality := q\<rparr> = \<lparr>m_type = a, m_sub = b, m_param = p, m_quality = q\<rparr>" for m :: media_type and p a b q
    by (cases m) simp
  then show ?thesis unfolding media_range_def Let_def by (simp only:)
qed

lemma select_loop_best:
  assumes "media_ranges data = Some rs"
  shows "(\<exists>as q bs. \<exists>t < 3. select_loop t0 q0 m data = Some t \<and> rs = as @ (t, q) # bs \<and> q0 < q \<and>
      (\<forall>(i, x) \<in> set as. i < 3 \<longrightarrow> x < q) \<and> (\<forall>(i, x) \<in> set bs. i < 3 \<longrightarrow> x \<le> q)) \<or>
    select_loop t0 q0 m data = Some t0 \<and> (\<forall>(i, x) \<in> set rs. i < 3 \<longrightarrow> x \<le> q0)"
  using assms
proof (induction rs arbitrary: t0 q0 m data)
  case Nil
  then have "media_range no_media data = Some None"
    by (subst (asm) media_ranges.simps) (auto split: option.splits)
  then show ?case by (subst select_loop.simps) (simp add: media_range_same [of m])
next
  case (Cons r rs)
  obtain i x where r: "r = (i, x)" by (cases r)
  obtain n d where n: "media_range no_media data = Some (Some (n, d))" "media_ranges d = Some rs" "i = se_range (m_type n)" "x = m_quality n"
    using Cons.prems r by (subst (asm) media_ranges.simps) (auto split: option.splits)
  have step: "select_loop t0 q0 m data = (if i < 3 \<and> q0 < x then select_loop i x n d else select_loop t0 q0 n d)"
    using n by (subst select_loop.simps) (auto simp: media_range_same [of m] media_defs Let_def)
  show ?case
  proof (cases "i < 3 \<and> q0 < x")
    case True
    from Cons.IH [OF n(2), of i x n] show ?thesis
    proof
      assume "\<exists>as q bs. \<exists>t < 3. select_loop i x n d = Some t \<and> rs = as @ (t, q) # bs \<and> x < q \<and>
        (\<forall>(i, x) \<in> set as. i < 3 \<longrightarrow> x < q) \<and> (\<forall>(i, x) \<in> set bs. i < 3 \<longrightarrow> x \<le> q)"
      then obtain as q bs t where h: "t < 3" "select_loop i x n d = Some t" "rs = as @ (t, q) # bs" "x < q"
        "\<forall>(i, x) \<in> set as. i < 3 \<longrightarrow> x < q" "\<forall>(i, x) \<in> set bs. i < 3 \<longrightarrow> x \<le> q" by blast
      then show ?thesis using True step r
        by (intro disjI1 exI [of _ "r # as"] exI [of _ q] exI [of _ bs] exI [of _ t]) auto
    next
      assume "select_loop i x n d = Some i \<and> (\<forall>(i, x') \<in> set rs. i < 3 \<longrightarrow> x' \<le> x)"
      then show ?thesis using True step r
        by (intro disjI1 exI [of _ "[]"] exI [of _ x] exI [of _ rs] exI [of _ i]) auto
    qed
  next
    case False
    from Cons.IH [OF n(2), of t0 q0 n] show ?thesis
    proof
      assume "\<exists>as q bs. \<exists>t < 3. select_loop t0 q0 n d = Some t \<and> rs = as @ (t, q) # bs \<and> q0 < q \<and>
        (\<forall>(i, x) \<in> set as. i < 3 \<longrightarrow> x < q) \<and> (\<forall>(i, x) \<in> set bs. i < 3 \<longrightarrow> x \<le> q)"
      then obtain as q bs t where h: "t < 3" "select_loop t0 q0 n d = Some t" "rs = as @ (t, q) # bs" "q0 < q"
        "\<forall>(i, x) \<in> set as. i < 3 \<longrightarrow> x < q" "\<forall>(i, x) \<in> set bs. i < 3 \<longrightarrow> x \<le> q" by blast
      then show ?thesis using False step r
        by (intro disjI1 exI [of _ "r # as"] exI [of _ q] exI [of _ bs] exI [of _ t]) auto
    next
      assume "select_loop t0 q0 n d = Some t0 \<and> (\<forall>(i, x) \<in> set rs. i < 3 \<longrightarrow> x \<le> q0)"
      then show ?thesis using False step r by auto
    qed
  qed
qed

text \<open>C38: The media type that is chosen for the answers is the first of those of the highest quality among the
  three that are supported, and XML if none of them has a quality above zero.
\<close>
theorem select_media_best:
  assumes "media_ranges data = Some rs"
  shows "(\<exists>as q bs. \<exists>t < 3. select_media data = Some t \<and> rs = as @ (t, q) # bs \<and> 0 < q \<and>
      (\<forall>(i, x) \<in> set as. i < 3 \<longrightarrow> x < q) \<and> (\<forall>(i, x) \<in> set bs. i < 3 \<longrightarrow> x \<le> q)) \<or>
    select_media data = Some SE_XML \<and> (\<forall>(i, x) \<in> set rs. i < 3 \<longrightarrow> x \<le> 0)"
  using select_loop_best [OF assms] by (simp add: select_media_def)

theorem select_media_best_witness:
  "select_media ''application/xml;q=0.5, application/sep-exi;q=0.9, text/html'' = Some SE_EXI"
proof -
  have r: "media_ranges ''application/xml;q=0.5, application/sep-exi;q=0.9, text/html'' = Some [(2, 500), (0, 900), (5, 1000)]"
    by code_simp
  have "rs = [(2, 500), (0, 900), (5, 1000)] \<Longrightarrow> rs = as @ (t, q) # bs \<Longrightarrow> t < 3 \<Longrightarrow>
      (\<forall>(i, x) \<in> set bs. i < 3 \<longrightarrow> x \<le> q) \<Longrightarrow> t = 0" for rs as bs :: "(nat \<times> int) list" and t q
    by (cases as; cases "tl as"; cases "tl (tl as)") auto
  with select_media_best [OF r] show ?thesis by (auto simp: SE_EXI_def)
qed

subsection \<open>The body reaches the parser as a whole\<close>

lemma http_data_all:
  assumes "h_state h = HTTP_DATA" "\<not> h_close h" "[] \<notin> set (e_input h)" "h_end h \<le> int (length (h_buffer h) + input_size h)"
    "h_end h < int BUFFER_SIZE"
  shows "\<exists>b cs. http_data h = (h\<lparr>h_buffer := b, e_input := cs, h_state := HTTP_COMPLETE\<rparr>, Some (h_data h, h_end h - int (h_data h))) \<and>
    b @ concat cs = h_buffer h @ concat (e_input h) \<and> h_end h \<le> int (length b)"
  using assms
proof (induction "input_size h" arbitrary: h rule: less_induct)
  case less
  show ?case
  proof (cases "h_end h \<le> int (length (h_buffer h))")
    case True
    then show ?thesis using less.prems
      by (intro exI [of _ "h_buffer h"] exI [of _ "e_input h"]) (subst http_data.simps, simp add: Let_def)
  next
    case False
    then obtain c cs where e: "e_input h = c # cs" using less.prems(4) by (cases "e_input h") (auto simp: input_size_def)
    then have c: "c \<noteq> []" using less.prems(3) by auto
    define room where "room = BUFFER_SIZE - length (h_buffer h) - 1"
    have room: "room > 0" "length (h_buffer h) + 1 \<noteq> BUFFER_SIZE" using False less.prems(5) by (simp_all add: room_def)
    define k where "k = h\<lparr>h_buffer := h_buffer h @ take room c, e_input := (if drop room c = [] then cs else drop room c # cs)\<rparr>"
    have rd: "http_read h = (k, True)" using e c room by (simp add: http_read_def room_def k_def Let_def)
    have k: "h_state k = HTTP_DATA" "\<not> h_close k" "[] \<notin> set (e_input k)" "h_end k = h_end h" "h_data k = h_data h"
      using less.prems(1-3) e by (auto simp: k_def)
    have in_all: "h_buffer k @ concat (e_input k) = h_buffer h @ concat (e_input h)" using e by (auto simp: k_def)
    have lens: "length (h_buffer k) + input_size k = length (h_buffer h) + input_size h"
      using arg_cong [OF in_all, of length] by (simp add: input_size_def length_concat)
    obtain b ds where IH: "http_data k = (k\<lparr>h_buffer := b, e_input := ds, h_state := HTTP_COMPLETE\<rparr>, Some (h_data k, h_end k - int (h_data k)))"
      "b @ concat ds = h_buffer k @ concat (e_input k)" "h_end k \<le> int (length b)"
      using less.hyps [OF http_read_input [OF rd] k(1-3)] less.prems(4,5) lens k(4,5) by auto
    have "http_data h = http_data k" using False less.prems(1,2) room(2) rd by (subst http_data.simps) (simp add: Let_def)
    then show ?thesis using IH in_all k(4,5) by (intro exI [of _ b] exI [of _ ds]) (simp add: k_def)
  qed
qed

definition body_of :: "http_connection \<Rightarrow> string" where
  "body_of h = take (nat (h_end h) - h_data h) (drop (h_data h) (h_buffer h @ concat (e_input h)))"

lemma body_loop_once:
  assumes "h_state h = HTTP_DATA" "\<not> h_close h" "[] \<notin> set (e_input h)" "h_end h \<le> int (length (h_buffer h) + input_size h)"
    "h_end h < int BUFFER_SIZE" "int (h_data h) \<le> h_end h" "sn_http c = h"
  shows "\<exists>s. take (length (body_of h)) s = body_of h \<and>
    (\<forall>p ok k. bp_parse bp s (int (length (body_of h))) (sn_parser c) = Some (p, ok, k) \<longrightarrow>
      (\<exists>c'. body_loop bp m c = Some (c', if ok then m else SE_ERROR) \<and> sn_parser c' = p \<and> sn_data c' = (\<not> ok \<and> sn_data c)))"
proof -
  obtain b cs where d: "http_data h = (h\<lparr>h_buffer := b, e_input := cs, h_state := HTTP_COMPLETE\<rparr>, Some (h_data h, h_end h - int (h_data h)))"
    and b: "b @ concat cs = h_buffer h @ concat (e_input h)" "h_end h \<le> int (length b)"
    using http_data_all [OF assms(1-5)] by blast
  have body: "body_of h = take (nat (h_end h) - h_data h) (drop (h_data h) b)"
    using b(2) unfolding body_of_def b(1) [symmetric] by simp
  have len: "int (length (body_of h)) = h_end h - int (h_data h)" "length (body_of h) = nat (h_end h) - h_data h"
    using assms(6) b(2) by (simp_all add: body of_nat_diff)
  have "take (length (body_of h)) (drop (h_data h) b) = body_of h" using body len(2) by simp
  moreover have "\<exists>c'. body_loop bp m c = Some (c', if ok then m else SE_ERROR) \<and> sn_parser c' = p \<and> sn_data c' = (\<not> ok \<and> sn_data c)"
    if "bp_parse bp (drop (h_data h) b) (int (length (body_of h))) (sn_parser c) = Some (p, ok, k)" for p ok k
    using that b(2) unfolding len(1)
    by (subst body_loop.simps) (simp add: assms(7) d http_complete_def se_error_def Let_def)
  ultimately show ?thesis by blast
qed

lemma flush_idle: "h_send h = [] \<Longrightarrow> \<not> h_close h \<Longrightarrow> http_flush h = h"
  by (cases h) (simp add: http_flush_def)

text \<open>C39: The headers of a message with a known content type have been received and its body has a length. If the
  connection is not to be closed behind it, delivers the rest of the body in whatever pieces, none of them empty,
  and the body fits in the buffer, the parser gets exactly the bytes of the body at once; the message is returned
  if the parser takes them for a document and an error if not. (On a connection that is marked to close the parser
  gets the pieces one by one.)
\<close>
theorem se_receive_body:
  assumes rec: "http_receive (http_flush (sn_http c)) = Some (h, m)" "m \<noteq> HTTP_NONE" "m \<noteq> HTTP_ERROR"
    and start: "\<not> sn_data c" "h_body h" "body_type h = Some t" "t < 3"
    and media: "(case h_media_range h of None \<Rightarrow> Some (sn_media c) | Some r \<Rightarrow> select_media r) \<noteq> None"
    and h: "h_state h = HTTP_DATA" "\<not> h_close h" "[] \<notin> set (e_input h)" "h_end h \<le> int (length (h_buffer h) + input_size h)"
      "h_end h < int BUFFER_SIZE" "int (h_data h) \<le> h_end h"
  shows "\<exists>s. take (length (body_of h)) s = body_of h \<and>
    (\<forall>p ok k. bp_parse bp s (int (length (body_of h))) (bp_init bp t) = Some (p, ok, k) \<longrightarrow>
      (\<exists>c'. se_receive bp c = Some (c', if ok then m else SE_ERROR) \<and> sn_parser c' = p \<and> sn_data c' = (\<not> ok)))"
proof -
  obtain me where me: "(case h_media_range h of None \<Rightarrow> Some (sn_media c) | Some r \<Rightarrow> select_media r) = Some me" using media by blast
  define c1 where "c1 = c\<lparr>sn_http := h, sn_media := me, sn_parser := bp_init bp t, sn_data := True\<rparr>"
  have t: "t \<in> {SE_EXI, SE_XML, APPLICATION_XML}" using start(4) by (auto simp: media_defs)
  have init: "se_parse_init bp (c\<lparr>sn_http := h, sn_media := me\<rparr>) = Some (c\<lparr>sn_http := h, sn_media := me, sn_parser := bp_init bp t\<rparr>, True)"
    using start(3) t by (simp add: se_parse_init_def)
  have "se_receive bp c = body_loop bp m c1"
    using rec start(1,2) me init by (cases "h_media_range h") (auto simp: se_receive_def Let_def c1_def)
  moreover have "sn_http c1 = h" "sn_parser c1 = bp_init bp t" "sn_data c1" by (simp_all add: c1_def)
  ultimately show ?thesis using body_loop_once [OF h, of c1 bp m] by auto
qed

text \<open>A parser that takes one document.\<close>

definition one_document :: "nat body_parser" where
  "one_document = \<lparr>bp_init = (\<lambda>t. t), bp_parse = (\<lambda>s n p. Some (p, take (nat n) s = ''<a/>'', Some 0))\<rparr>"

definition posted :: "nat se_connection" where
  "posted = \<lparr>sn_http = idle_connection [''POST /a HTTP/1.1'' @ CRLF, ''Content-Type: application/xml'' @ CRLF @ ''Content-Length: 4'' @ CRLF @ CRLF @ ''<'', ''a/>''],
     sn_port = new_connection, sn_host = None, sn_parser = 0, sn_data = False, sn_media = 1\<rparr>"

theorem se_receive_body_witness:
  "\<exists>c. se_receive one_document posted = Some (c, HTTP_POST) \<and> sn_parser c = APPLICATION_XML \<and> \<not> sn_data c"
proof -
  have e: "map_option (\<lambda>(h, m). (m, h_body h, body_type h, h_state h, h_close h, e_input h, length (h_buffer h), h_buffer h ! 70, h_end h, h_data h, h_media_range h))
      (http_receive (http_flush (sn_http posted))) =
    Some (HTTP_POST, True, Some 2, HTTP_DATA, False, [''a/>''], 71, CHR ''<'', 74, 70, None)"
    by code_simp
  obtain h m where hm: "http_receive (http_flush (sn_http posted)) = Some (h, m)" using e by (cases "http_receive (http_flush (sn_http posted))") auto
  have r: "http_receive (http_flush (sn_http posted)) = Some (h, HTTP_POST)" and
    h: "h_body h" "body_type h = Some 2" "h_state h = HTTP_DATA" "\<not> h_close h" "h_media_range h = None"
    and v: "h_end h = 74" "h_data h = 70" "e_input h = [''a/>'']" "length (h_buffer h) = 71" "h_buffer h ! 70 = CHR ''<''"
    using e unfolding hm by simp_all
  have b: "drop 70 (h_buffer h) = ''<''" using v(4,5) Cons_nth_drop_Suc [of 70 "h_buffer h"] by simp
  have h': "[] \<notin> set (e_input h)" "h_end h \<le> int (length (h_buffer h) + input_size h)" "h_end h < int BUFFER_SIZE" "int (h_data h) \<le> h_end h" "body_of h = ''<a/>''"
    using v b by (simp_all add: input_size_def BUFFER_SIZE_def body_of_def)
  have "HTTP_POST \<noteq> HTTP_NONE" "HTTP_POST \<noteq> HTTP_ERROR" "\<not> sn_data posted" "(2::nat) < 3"
      "(case h_media_range h of None \<Rightarrow> Some (sn_media posted) | Some r \<Rightarrow> select_media r) \<noteq> None"
    using h(5) by (simp_all add: http_method_defs posted_def)
  from se_receive_body [OF r this(1-3) h(1,2) this(4,5) h(3,4) h'(1-4), of one_document] obtain s where
    s: "take (length (body_of h)) s = body_of h" "\<forall>p ok k. bp_parse one_document s (int (length (body_of h))) (bp_init one_document 2) = Some (p, ok, k) \<longrightarrow>
      (\<exists>c'. se_receive one_document posted = Some (c', if ok then HTTP_POST else SE_ERROR) \<and> sn_parser c' = p \<and> sn_data c' = (\<not> ok))"
    by blast
  have l: "length (body_of h) = 4" unfolding h'(5) by simp
  have "bp_parse one_document s (int (length (body_of h))) (bp_init one_document 2) = Some (2, True, Some 0)"
    using s(1) [unfolded l, unfolded h'(5)] unfolding l by (simp add: one_document_def)
  with s(2) have "\<exists>c'. se_receive one_document posted = Some (c', if True then HTTP_POST else SE_ERROR) \<and> sn_parser c' = 2 \<and> sn_data c' = (\<not> True)" by blast
  then show ?thesis unfolding APPLICATION_XML_def by simp
qed

text \<open>
  The loop asks \<open>http_data\<close> again without waiting for the connection. If a part of the body is missing and
  nothing more arrives, it does not return.
\<close>
lemma body_loop_spins:
  assumes more: "\<And>s n q. \<exists>p k. bp_parse bp s n q = Some (p, False, Some k) \<and> k \<le> length s"
    and "h_state (sn_http c) = HTTP_DATA" "\<not> h_close (sn_http c)" "e_input (sn_http c) = []"
      "int (length (h_buffer (sn_http c))) < h_end (sn_http c)" "h_data (sn_http c) \<le> length (h_buffer (sn_http c))"
  shows "body_loop bp m c = None"
proof -
  have "body_loop b m c = Some r \<Longrightarrow> b = bp \<longrightarrow> h_state (sn_http c) = HTTP_DATA \<longrightarrow> \<not> h_close (sn_http c) \<longrightarrow> e_input (sn_http c) = [] \<longrightarrow>
      int (length (h_buffer (sn_http c))) < h_end (sn_http c) \<longrightarrow> h_data (sn_http c) \<le> length (h_buffer (sn_http c)) \<longrightarrow> False" for b r
  proof (induction rule: body_loop.raw_induct [rotated, consumes 1])
    case (1 f b m c r)
    show ?case
    proof (intro impI)
      let ?h = "sn_http c"
      assume b: "b = bp" and h: "h_state ?h = HTTP_DATA" "\<not> h_close ?h" "e_input ?h = []" "int (length (h_buffer ?h)) < h_end ?h" "h_data ?h \<le> length (h_buffer ?h)"
      define n where "n = int (length (h_buffer ?h)) - int (h_data ?h)"
      have d: "http_data ?h = (?h, Some (h_data ?h, n))"
        using h by (subst http_data.simps) (simp add: http_read_def n_def Let_def)
      obtain p k where p: "bp_parse bp (drop (h_data ?h) (h_buffer ?h)) n (sn_parser c) = Some (p, False, Some k)" "k \<le> length (h_buffer ?h) - h_data ?h"
        using more [of "drop (h_data ?h) (h_buffer ?h)" n "sn_parser c"] by auto
      let ?g = "http_rebuffer (h_data ?h + k) ?h"
      have "f b m (c\<lparr>sn_parser := p, sn_http := ?g\<rparr>) = Some r"
        using 1(2) d p(1) h by (simp add: b http_complete_def Let_def)
      moreover have "h_state ?g = HTTP_DATA \<and> \<not> h_close ?g \<and> e_input ?g = [] \<and> int (length (h_buffer ?g)) < h_end ?g \<and> h_data ?g \<le> length (h_buffer ?g)"
        using h p(2) by (cases "h_data ?h + k = 0") (auto simp: http_rebuffer_def of_nat_diff)
      ultimately show False using 1(1) b by fastforce
    qed
  qed
  with assms(2-6) show ?thesis by (cases "body_loop bp m c") auto
qed

text \<open>
  After a body that is not a document the state remains \<open>SE_DATA\<close>, and the parser is not prepared again:
  if it stays in its error state, no further message on the connection is ever returned.
\<close>
lemma se_receive_stuck:
  assumes bad: "\<And>s n. \<exists>k. bp_parse bp s n p = Some (p, False, k)"
    and c: "sn_data c" "sn_parser c = p" and r: "se_receive bp c = Some (c', m)"
  shows "sn_data c' \<and> sn_parser c' = p \<and> (m = SE_ERROR \<or> m = SE_INCOMPLETE)"
proof -
  have loop: "body_loop b m0 d = Some r \<Longrightarrow> b = bp \<longrightarrow> sn_data d \<longrightarrow> sn_parser d = p \<longrightarrow>
      sn_data (fst r) \<and> sn_parser (fst r) = p \<and> (snd r = SE_ERROR \<or> snd r = SE_INCOMPLETE)" for b m0 d r
  proof (induction rule: body_loop.raw_induct [rotated, consumes 1])
    case (1 f b m0 d r)
    show ?case
    proof (intro impI)
      assume b: "b = bp" and d: "sn_data d" "sn_parser d = p"
      obtain h q where q: "http_data (sn_http d) = (h, q)" by (cases "http_data (sn_http d)")
      show "sn_data (fst r) \<and> sn_parser (fst r) = p \<and> (snd r = SE_ERROR \<or> snd r = SE_INCOMPLETE)"
      proof (cases q)
        case None
        then show ?thesis using 1(2) q d by auto
      next
        case (Some y)
        obtain k where k: "bp_parse bp (drop (fst y) (h_buffer h)) (snd y) p = Some (p, False, k)" using bad by blast
        show ?thesis
        proof (cases "http_complete h")
          case True
          then show ?thesis using 1(2) q d k Some b by (auto simp: se_error_def Let_def)
        next
          case False
          then obtain j where "f b m0 (d\<lparr>sn_http := http_rebuffer (fst y + j) h, sn_parser := p\<rparr>) = Some r"
            using 1(2) q d k Some b by (cases k) (auto simp: Let_def)
          from 1(1) [OF this] b d show ?thesis by auto
        qed
      qed
    qed
  qed
  obtain h k where h: "http_receive (http_flush (sn_http c)) = Some (h, k)" using r by (auto simp: se_receive_def bind_Some_iff)
  show ?thesis
  proof (cases "k = HTTP_NONE \<or> k = HTTP_ERROR")
    case True
    then show ?thesis using r c h by (auto simp: se_receive_def http_method_defs)
  next
    case False
    then have "body_loop bp k (c\<lparr>sn_http := h\<rparr>) = Some (c', m)" using r c h by (simp add: se_receive_def)
    from loop [OF this] c show ?thesis by simp
  qed
qed

subsection \<open>One connection for each address\<close>

datatype se_op = Op_Connect connect_result ssl_answer ssl_answer raw_address bool | Op_Accept bool bool

primrec se_step :: "nat \<Rightarrow> 'p \<Rightarrow> http_connection \<Rightarrow> se_op \<Rightarrow> 'p connections \<Rightarrow> 'p connections" where
  "se_step se_media p e (Op_Connect r x z a secure) w = fst (se_connect se_media p e r x z a secure w)"
| "se_step se_media p e (Op_Accept now secure) w = fst (se_accept se_media p e now secure w)"

primrec asked :: "se_op \<Rightarrow> raw_address set" where
  "asked (Op_Connect r x z a secure) = {a}"
| "asked (Op_Accept now secure) = {}"

definition hosts :: "'p connections \<Rightarrow> raw_address option list" where
  "hosts w = map sn_host (filter (\<lambda>c. h_client (sn_http c)) w)"

lemma flush_client: "h_client (http_flush h) = h_client h"
proof -
  have w: "h_client (fst (Http.conn_write s k)) = h_client k" for s k by (simp add: Http.conn_write_def split: list.splits)
  have "h_client (flush_loop ss k) = h_client k" for ss k
  proof (induction ss arbitrary: k)
    case (Cons s ss)
    obtain h n where "Http.conn_write s k = (h, n)" by (cases "Http.conn_write s k")
    then show ?case using w [of s k] Cons by simp
  qed simp
  then show ?thesis by (simp add: http_flush_def Http.conn_close_def Let_def)
qed

lemma connect_conn_host: "sn_host (connect_conn r x z a secure c) = Some a" "h_client (sn_http (connect_conn r x z a secure c)) = h_client (sn_http c)"
  by (auto simp: connect_conn_def Let_def flush_client split: prod.splits)

lemma hosts_update:
  assumes "i < length w" "sn_host (f (w ! i)) = sn_host (w ! i)" "h_client (sn_http (f (w ! i))) = h_client (sn_http (w ! i))"
  shows "hosts (w[i := f (w ! i)]) = hosts w"
  using assms unfolding hosts_def
proof (induction w arbitrary: i)
  case (Cons c w)
  then show ?case by (cases i) auto
qed simp

lemma find_conn_some:
  "find_conn a w = Some i \<Longrightarrow> i < length w \<and> sn_host (w ! (length w - Suc i)) = Some a \<and> h_client (sn_http (w ! (length w - Suc i)))"
  by (induction w) (auto split: if_splits simp: Suc_diff_le nth_Cons')

lemma find_conn_none: "find_conn a w = None \<longleftrightarrow> Some a \<notin> set (hosts w)"
  by (induction w) (auto simp: hosts_def)

lemma se_connect_hosts:
  "hosts (fst (se_connect se_media p e r x z a secure w)) = (if Some a \<in> set (hosts w) then hosts w else Some a # hosts w)"
proof (cases "find_conn a w")
  case None
  then have "Some a \<notin> set (hosts w)" by (simp add: find_conn_none)
  then show ?thesis using None
    by (simp add: se_connect_def get_conn_def upd_at_number_def new_conn_def hosts_def connect_conn_host http_init_def Let_def)
next
  case (Some i)
  then have "Some a \<in> set (hosts w)" using find_conn_none [of a w] by simp
  moreover have "length w - Suc i < length w" using find_conn_some [OF Some] by linarith
  ultimately show ?thesis using Some find_conn_some [OF Some] hosts_update [of "length w - Suc i" w "connect_conn r x z a secure"]
    by (simp add: se_connect_def get_conn_def upd_at_number_def connect_conn_host Let_def)
qed

lemma se_accept_hosts: "hosts (fst (se_accept se_media p e now secure w)) = hosts w"
  by (simp add: se_accept_def upd_at_number_def new_conn_def hosts_def http_init_def Let_def)

text \<open>C40: Whatever sequence of connections is made and accepted, the connections to servers are exactly one for each
  address that was asked for.
\<close>
theorem se_connect_one_each:
  "distinct (hosts (fold (se_step se_media p e) ops [])) \<and>
   set (hosts (fold (se_step se_media p e) ops [])) = Some ` (\<Union>op \<in> set ops. asked op)"
proof -
  have "distinct (hosts w) \<Longrightarrow> distinct (hosts (fold (se_step se_media p e) ops w)) \<and>
    set (hosts (fold (se_step se_media p e) ops w)) = set (hosts w) \<union> Some ` (\<Union>op \<in> set ops. asked op)" for w
  proof (induction ops arbitrary: w)
    case (Cons op ops)
    have "distinct (hosts (se_step se_media p e op w)) \<and> set (hosts (se_step se_media p e op w)) = set (hosts w) \<union> Some ` asked op"
      using Cons.prems by (cases op) (auto simp: se_connect_hosts se_accept_hosts)
    with Cons.IH [of "se_step se_media p e op w"] show ?case by (auto simp: image_Un)
  qed simp
  from this [of "[]"] show ?thesis by (simp add: hosts_def)
qed

text \<open>An open connection without TLS is used also when a secure one is asked for.\<close>
lemma se_connect_keeps_plain:
  assumes "find_conn a w = Some i" "\<not> c_secure (sn_port (w ! (length w - Suc i)))" "c_status (sn_port (w ! (length w - Suc i))) \<noteq> Closed"
  shows "\<not> c_secure (sn_port (fst (se_connect se_media p e r x z a True w) ! (length w - Suc i)))"
proof -
  have "length w - Suc i < length w" using find_conn_some [OF assms(1)] by linarith
  then show ?thesis using assms
    by (simp add: se_connect_def get_conn_def upd_at_number_def connect_conn_def conn_session_def Let_def)
qed

end
