(* ===== verification/Se_Names.thy ===== *)
theory Se_Names
  imports Se_Schema Named
begin

section \<open>The names of the schema (core/se_schema.c, xml_parse.c)\<close>

text \<open>
  The texts of the names: those of the 321 types, which are sorted, and those of the other elements. A root
  element is found by \<open>bsearch\<close> in the first ones.
\<close>

definition se_names_1 :: "string list" where
  "se_names_1 = [
     ''AbstractDevice'', ''AccountBalance'', ''AccountBalanceLink'', ''AccountingUnit'',
     ''AccumulationBehaviourType'', ''ActiveBillingPeriodListLink'', ''ActiveCreditRegisterListLink'',
     ''ActiveDERControlListLink'', ''ActiveEndDeviceControlListLink'', ''ActiveFlowReservationListLink'',
     ''ActivePower'', ''ActiveProjectionReadingListLink'', ''ActiveSupplyInterruptionOverrideListLink'',
     ''ActiveTargetReadingListLink'', ''ActiveTextMessageListLink'', ''ActiveTimeTariffIntervalListLink'',
     ''AmpereHour'', ''ApparentPower'', ''ApplianceLoadReduction'', ''ApplianceLoadReductionType'',
     ''AppliedTargetReduction'', ''AssociatedDERProgramListLink'', ''AssociatedUsagePointLink'',
     ''BillingMeterReadingBase'', ''BillingPeriod'', ''BillingPeriodList'', ''BillingPeriodListLink'',
     ''BillingReading'', ''BillingReadingList'', ''BillingReadingListLink'', ''BillingReadingSet'',
     ''BillingReadingSetList'', ''BillingReadingSetListLink'', ''Charge'', ''ChargeKind'', ''CommodityType'',
     ''Condition'']"

definition se_names_2 :: "string list" where
  "se_names_2 = [
     ''Configuration'', ''ConfigurationLink'', ''ConnectStatusType'', ''ConsumptionBlockType'',
     ''ConsumptionTariffInterval'', ''ConsumptionTariffIntervalList'', ''ConsumptionTariffIntervalListLink'',
     ''CostKindType'', ''CreditRegister'', ''CreditRegisterList'', ''CreditRegisterListLink'',
     ''CreditStatusType'', ''CreditTypeChange'', ''CreditTypeType'', ''CurrencyCode'',
     ''CurrentDERProgramLink'', ''CurrentRMS'', ''CurveData'', ''CustomerAccount'', ''CustomerAccountLink'',
     ''CustomerAccountList'', ''CustomerAccountListLink'', ''CustomerAgreement'', ''CustomerAgreementList'',
     ''CustomerAgreementListLink'', ''DER'', ''DERAvailability'', ''DERAvailabilityLink'', ''DERCapability'',
     ''DERCapabilityLink'', ''DERControl'', ''DERControlBase'', ''DERControlList'', ''DERControlListLink'',
     ''DERControlResponse'', ''DERControlType'', ''DERCurve'']"

definition se_names_3 :: "string list" where
  "se_names_3 = [
     ''DERCurveLink'', ''DERCurveList'', ''DERCurveListLink'', ''DERCurveType'', ''DERLink'', ''DERList'',
     ''DERListLink'', ''DERProgram'', ''DERProgramLink'', ''DERProgramList'', ''DERProgramListLink'',
     ''DERSettings'', ''DERSettingsLink'', ''DERStatus'', ''DERStatusLink'', ''DERType'', ''DERUnitRefType'',
     ''DRLCCapabilities'', ''DataQualifierType'', ''DateTimeInterval'', ''DefaultDERControl'',
     ''DefaultDERControlLink'', ''DemandResponseProgram'', ''DemandResponseProgramLink'',
     ''DemandResponseProgramList'', ''DemandResponseProgramListLink'', ''DeviceCapability'',
     ''DeviceCapabilityLink'', ''DeviceCategoryType'', ''DeviceInformation'', ''DeviceInformationLink'',
     ''DeviceStatus'', ''DeviceStatusLink'', ''DrResponse'', ''DstRuleType'', ''DutyCycle'', ''EndDevice'']"

definition se_names_4 :: "string list" where
  "se_names_4 = [
     ''EndDeviceControl'', ''EndDeviceControlList'', ''EndDeviceControlListLink'', ''EndDeviceLink'',
     ''EndDeviceList'', ''EndDeviceListLink'', ''EnvironmentalCost'', ''Error'', ''Event'', ''EventStatus'',
     ''File'', ''FileLink'', ''FileList'', ''FileListLink'', ''FileStatus'', ''FileStatusLink'',
     ''FixedPointType'', ''FixedVar'', ''FlowDirectionType'', ''FlowReservationRequest'',
     ''FlowReservationRequestList'', ''FlowReservationRequestListLink'', ''FlowReservationResponse'',
     ''FlowReservationResponseList'', ''FlowReservationResponseListLink'', ''FlowReservationResponseResponse'',
     ''FreqDroopType'', ''FunctionSetAssignments'', ''FunctionSetAssignmentsBase'',
     ''FunctionSetAssignmentsList'', ''FunctionSetAssignmentsListLink'', ''HistoricalReading'',
     ''HistoricalReadingList'', ''HistoricalReadingListLink'', ''IEEE_802_15_4'', ''IPAddr'', ''IPAddrList'']"

definition se_names_5 :: "string list" where
  "se_names_5 = [
     ''IPAddrListLink'', ''IPInterface'', ''IPInterfaceList'', ''IPInterfaceListLink'', ''IdentifiedObject'',
     ''InverterStatusType'', ''KindType'', ''LLInterface'', ''LLInterfaceList'', ''LLInterfaceListLink'',
     ''Link'', ''List'', ''ListLink'', ''LoadShedAvailability'', ''LoadShedAvailabilityList'',
     ''LoadShedAvailabilityListLink'', ''LocalControlModeStatusType'', ''LocaleType'', ''LogEvent'',
     ''LogEventList'', ''LogEventListLink'', ''ManufacturerStatusType'', ''MessagingProgram'',
     ''MessagingProgramList'', ''MessagingProgramListLink'', ''MeterReading'', ''MeterReadingBase'',
     ''MeterReadingLink'', ''MeterReadingList'', ''MeterReadingListLink'', ''MirrorMeterReading'',
     ''MirrorMeterReadingList'', ''MirrorReadingSet'', ''MirrorUsagePoint'', ''MirrorUsagePointList'',
     ''MirrorUsagePointListLink'', ''Neighbor'']"

definition se_names_6 :: "string list" where
  "se_names_6 = [
     ''NeighborList'', ''NeighborListLink'', ''Notification'', ''NotificationList'', ''NotificationListLink'',
     ''Offset'', ''OneHourRangeType'', ''OperationalModeStatusType'', ''PENType'', ''PEVInfo'', ''PINType'',
     ''PerCent'', ''PhaseCode'', ''PowerConfiguration'', ''PowerFactor'', ''PowerOfTenMultiplierType'',
     ''PowerSourceType'', ''PowerStatus'', ''PowerStatusLink'', ''PrepayModeType'', ''PrepayOperationStatus'',
     ''PrepayOperationStatusLink'', ''Prepayment'', ''PrepaymentLink'', ''PrepaymentList'',
     ''PrepaymentListLink'', ''PriceResponse'', ''PriceResponseCfg'', ''PriceResponseCfgList'',
     ''PriceResponseCfgListLink'', ''PrimacyType'', ''PriorityType'', ''ProjectionReading'',
     ''ProjectionReadingList'', ''ProjectionReadingListLink'', ''RPLInstance'', ''RPLInstanceList'']"

definition se_names_7 :: "string list" where
  "se_names_7 = [
     ''RPLInstanceListLink'', ''RPLSourceRoutes'', ''RPLSourceRoutesList'', ''RPLSourceRoutesListLink'',
     ''RandomizableEvent'', ''RateComponent'', ''RateComponentLink'', ''RateComponentList'',
     ''RateComponentListLink'', ''ReactivePower'', ''Reading'', ''ReadingBase'', ''ReadingLink'',
     ''ReadingList'', ''ReadingListLink'', ''ReadingSet'', ''ReadingSetBase'', ''ReadingSetList'',
     ''ReadingSetListLink'', ''ReadingType'', ''ReadingTypeLink'', ''RealEnergy'', ''Registration'',
     ''RegistrationLink'', ''RequestStatus'', ''Resource'', ''RespondableIdentifiedObject'',
     ''RespondableResource'', ''RespondableSubscribableIdentifiedObject'', ''Response'', ''ResponseList'',
     ''ResponseListLink'', ''ResponseSet'', ''ResponseSetList'', ''ResponseSetListLink'', ''RoleFlagsType'',
     ''SFDIType'']"

definition se_names_8 :: "string list" where
  "se_names_8 = [
     ''SelfDevice'', ''SelfDeviceLink'', ''ServiceChange'', ''ServiceKind'', ''ServiceStatusType'',
     ''ServiceSupplier'', ''ServiceSupplierLink'', ''ServiceSupplierList'', ''SetPoint'', ''SignedPerCent'',
     ''SignedRealEnergy'', ''StateOfChargeStatusType'', ''StorageModeStatusType'',
     ''SubscribableIdentifiedObject'', ''SubscribableList'', ''SubscribableResource'', ''Subscription'',
     ''SubscriptionBase'', ''SubscriptionList'', ''SubscriptionListLink'', ''SupplyInterruptionOverride'',
     ''SupplyInterruptionOverrideList'', ''SupplyInterruptionOverrideListLink'', ''SupportedLocale'',
     ''SupportedLocaleList'', ''SupportedLocaleListLink'', ''TOUType'', ''TargetReading'',
     ''TargetReadingList'', ''TargetReadingListLink'', ''TargetReduction'', ''TariffProfile'',
     ''TariffProfileLink'', ''TariffProfileList'', ''TariffProfileListLink'', ''Temperature'', ''TextMessage'']"

definition se_names_9 :: "string list" where
  "se_names_9 = [
     ''TextMessageList'', ''TextMessageListLink'', ''TextResponse'', ''Time'', ''TimeConfiguration'',
     ''TimeLink'', ''TimeOffsetType'', ''TimeTariffInterval'', ''TimeTariffIntervalList'',
     ''TimeTariffIntervalListLink'', ''TimeType'', ''UnitType'', ''UnitValueType'', ''UnsignedFixedPointType'',
     ''UomType'', ''UsagePoint'', ''UsagePointBase'', ''UsagePointLink'', ''UsagePointList'',
     ''UsagePointListLink'', ''VersionType'', ''VoltageRMS'', ''WattHour'', ''loWPAN'', ''mRIDType'']"

definition se_names_10 :: "string list" where
  "se_names_10 = [
     ''multiplier'', ''unit'', ''value'', ''href'', ''accumulationBehaviour'', ''calorificValue'',
     ''commodity'', ''conversionFactor'', ''dataQualifier'', ''flowDirection'', ''intervalLength'', ''kind'',
     ''maxNumberOfIntervals'', ''numberOfConsumptionBlocks'', ''numberOfTouTiers'', ''phase'',
     ''powerOfTenMultiplier'', ''subIntervalLength'', ''supplyLimit'', ''tieredConsumptionBlocks'', ''uom'',
     ''duration'', ''start'', ''consumptionBlock'', ''qualityFlags'', ''timePeriod'', ''touTier'',
     ''subscribable'', ''localID'', ''mRID'', ''description'', ''version'', ''lastUpdateTime'',
     ''nextUpdateTime'', ''roleFlags'', ''serviceCategoryKind'', ''status'', ''deviceLFDI'', ''postRate'',
     ''all'', ''results'', ''pollRate'', ''maxRetryDuration'', ''reasonCode'', ''replyTo'',
     ''responseRequired'', ''dateTime'', ''genConnectStatus'', ''inverterStatus'', ''localControlModeStatus'',
     ''manufacturerStatus'', ''operationalModeStatus'', ''readingTime'', ''stateOfChargeStatus'',
     ''storageModeStatus'', ''storConnectStatus'', ''primacy'', ''xvalue'', ''yvalue'', ''creationTime'',
     ''curveType'', ''openLoopTms'', ''rampDecTms'', ''rampIncTms'', ''rampPT1Tms'', ''xMultiplier'',
     ''yMultiplier'', ''yRefType'', ''dBOF'', ''dBUF'', ''kOF'', ''kUF'', ''refType'', ''displacement'',
     ''opModConnect'', ''opModEnergize'', ''opModFixedPF'', ''opModFixedVar'', ''opModFixedW'',
     ''opModFreqDroop'', ''opModFreqWatt'', ''opModHFRTMustTrip'', ''opModHVRTMomentaryCessation'',
     ''opModHVRTMustTrip'', ''opModLFRTMustTrip'', ''opModLVRTMomentaryCessation'', ''opModLVRTMustTrip'',
     ''opModMaxLimW'', ''opModTargetVar'', ''opModTargetW'', ''opModVoltVar'']"

definition se_names_11 :: "string list" where
  "se_names_11 = [
     ''opModVoltWatt'', ''opModWattPF'', ''opModWattVar'', ''rampTms'', ''currentStatus'',
     ''potentiallySuperseded'', ''potentiallySupersededTime'', ''reason'', ''interval'', ''randomizeDuration'',
     ''randomizeStart'', ''modesSupported'', ''rtgA'', ''rtgAbnormalCategory'', ''rtgAh'',
     ''rtgMaxChargeRateVA'', ''rtgMaxChargeRateW'', ''rtgMaxDischargeRateVA'', ''rtgMaxDischargeRateW'',
     ''rtgMinPF'', ''rtgMinPFNeg'', ''rtgNormalCategory'', ''rtgOverExcitedPF'', ''rtgOverExcitedW'',
     ''rtgUnderExcitedPF'', ''rtgUnderExcitedW'', ''rtgVA'', ''rtgVar'', ''rtgVarNeg'', ''rtgW'', ''rtgWh'',
     ''type'', ''availabilityDuration'', ''maxChargeDuration'', ''reserveChargePercent'', ''reservePercent'',
     ''statVarAvail'', ''statWAvail'', ''modesEnabled'', ''setESDelay'', ''setESHighFreq'', ''setESHighVolt'',
     ''setESLowFreq'', ''setESLowVolt'', ''setESRandomDelay'', ''setGradW'', ''setMaxA'', ''setMaxAh'',
     ''setMaxChargeRateVA'', ''setMaxChargeRateW'', ''setMaxDischargeRateVA'', ''setMaxDischargeRateW'',
     ''setMaxVA'', ''setMaxVar'', ''setMaxVarNeg'', ''setMaxW'', ''setMaxWh'', ''setMinPF'', ''setMinPFNeg'',
     ''setSoftGradW'', ''setVRef'', ''setVRefOfs'', ''updatedTime'', ''energyAvailable'', ''powerAvailable'',
     ''subject'', ''requestStatus'', ''durationRequested'', ''energyRequested'', ''intervalRequested'',
     ''powerRequested'', ''newStatus'', ''startTime'', ''newType'', ''creditTypeChange'', ''creditTypeInUse'',
     ''serviceChange'', ''serviceStatus'', ''energyUnit'', ''monetaryUnit'', ''creditExpiryLevel'',
     ''lowCreditWarningLevel'', ''lowEmergencyCreditWarningLevel'', ''prepayMode'', ''creditAmount'',
     ''creditType'', ''effectiveTime'', ''token'', ''availableCredit'', ''creditStatus'']"

definition se_names_12 :: "string list" where
  "se_names_12 = [
     ''emergencyCredit'', ''emergencyCreditStatus'', ''email'', ''phone'', ''providerID'', ''web'',
     ''serviceAccount'', ''serviceLocation'', ''currency'', ''customerAccount'', ''customerName'',
     ''pricePowerOfTenMultiplier'', ''billLastPeriod'', ''billToDate'', ''statusTimeStamp'', ''originator'',
     ''priority'', ''textMessage'', ''locale'', ''rateCode'', ''flowRateEndLimit'', ''flowRateStartLimit'',
     ''amount'', ''costKind'', ''costLevel'', ''numCostLevels'', ''price'', ''startValue'', ''coolingSetpoint'',
     ''heatingSetpoint'', ''coolingOffset'', ''heatingOffset'', ''loadAdjustmentPercentageOffset'',
     ''normalValue'', ''deviceCategory'', ''drProgramMandatory'', ''loadShiftForward'', ''overrideDuration'',
     ''availabilityUpdatePercentChangeThreshold'', ''availabilityUpdatePowerChangeThreshold'',
     ''sheddablePercent'', ''sheddablePower'', ''activateTime'', ''loadPercent'', ''nextRequestAttempt'',
     ''request503Count'', ''requestFailCount'', ''statusTime'', ''fileURI'', ''lFDI'', ''mfHwVer'', ''mfID'',
     ''mfModel'', ''mfSerNum'', ''mfVer'', ''size'', ''consumeThreshold'', ''maxReductionThreshold'',
     ''dstEndRule'', ''dstOffset'', ''dstStartRule'', ''tzOffset'', ''batteryInstallTime'',
     ''lowChargeThreshold'', ''currentLocale'', ''userDeviceName'', ''createdDateTime'', ''details'',
     ''extendedData'', ''functionSet'', ''logEventCode'', ''logEventID'', ''logEventPEN'', ''profileID'',
     ''DestAddress'', ''SourceRoute'', ''DODAGid'', ''DODAGroot'', ''flags'', ''groundedFlag'', ''MOP'',
     ''PRF'', ''rank'', ''RPLInstanceID'', ''versionNumber'', ''isChild'', ''linkQuality'', ''shortAddress'',
     ''octetsRx'', ''octetsTx'', ''packetsRx'']"

definition se_names_13 :: "string list" where
  "se_names_13 = [
     ''packetsTx'', ''rxFragError'', ''capabilityInfo'', ''CRCerrors'', ''EUI64'', ''linkLayerType'',
     ''LLAckNotRx'', ''LLCSMAFail'', ''LLFramesDropRx'', ''LLFramesDropTx'', ''LLFramesRx'', ''LLFramesTx'',
     ''LLMediaAccessFail'', ''LLOctetsRx'', ''LLOctetsTx'', ''LLRetryCount'', ''LLSecurityErrorRx'',
     ''ifDescr'', ''ifHighSpeed'', ''ifInBroadcastPkts'', ''ifIndex'', ''ifInDiscards'', ''ifInErrors'',
     ''ifInMulticastPkts'', ''ifInOctets'', ''ifInUcastPkts'', ''ifInUnknownProtos'', ''ifMtu'', ''ifName'',
     ''ifOperStatus'', ''ifOutBroadcastPkts'', ''ifOutDiscards'', ''ifOutErrors'', ''ifOutMulticastPkts'',
     ''ifOutOctets'', ''ifOutUcastPkts'', ''ifPromiscuousMode'', ''ifSpeed'', ''ifType'', ''lastResetTime'',
     ''lastUpdatedTime'', ''address'', ''chargingPowerNow'', ''energyRequestNow'', ''maxForwardPower'',
     ''minimumChargingDuration'', ''targetStateOfCharge'', ''timeChargeIsNeeded'', ''timeChargingStatusPEV'',
     ''batteryStatus'', ''changedTime'', ''currentPowerSource'', ''estimatedChargeRemaining'',
     ''estimatedTimeRemaining'', ''sessionTimeOnBattery'', ''totalTimeOnBattery'', ''averageEnergy'',
     ''maxDemand'', ''optionsImplemented'', ''functionsImplemented'', ''mfDate'', ''mfInfo'', ''primaryPower'',
     ''secondaryPower'', ''swActTime'', ''swVer'', ''currentTime'', ''dstEndTime'', ''dstStartTime'',
     ''localTime'', ''quality'', ''endDeviceLFDI'', ''subscribedResource'', ''newResourceURI'',
     ''subscriptionURI'', ''attributeIdentifier'', ''lowerThreshold'', ''upperThreshold'', ''encoding'',
     ''level'', ''limit'', ''notificationURI'', ''loadShedDeviceCategory'', ''sFDI'', ''dateTimeRegistered'',
     ''pIN'', ''enabled'', ''onCount'', ''opState'', ''opTime'']"

definition se_names :: "string list" where
  "se_names = se_names_1 @ se_names_2 @ se_names_3 @ se_names_4 @ se_names_5 @ se_names_6 @ se_names_7 @ se_names_8 @ se_names_9 @ se_names_10 @ se_names_11 @ se_names_12 @ se_names_13"

definition the_schema :: schema where
  "the_schema = se_schema (\<lambda>i. se_names ! nat i)"

subsection \<open>Names by number\<close>

text \<open>For the evaluation of proofs.\<close>

lemma length_pieces [simp]:
  "length se_names_1 = 37"
  "length se_names_2 = 37"
  "length se_names_3 = 37"
  "length se_names_4 = 37"
  "length se_names_5 = 37"
  "length se_names_6 = 37"
  "length se_names_7 = 37"
  "length se_names_8 = 37"
  "length se_names_9 = 25"
  "length se_names_10 = 91"
  "length se_names_11 = 90"
  "length se_names_12 = 91"
  "length se_names_13 = 90"
  by code_simp+

lemma length_se_names: "length se_names = 683"
  by (simp add: se_names_def)

lemma names_at_1:
  "se_names ! 0 = ''AbstractDevice''"
  "se_names ! 1 = ''AccountBalance''"
  "se_names ! 2 = ''AccountBalanceLink''"
  "se_names ! 3 = ''AccountingUnit''"
  "se_names ! 4 = ''AccumulationBehaviourType''"
  "se_names ! 5 = ''ActiveBillingPeriodListLink''"
  "se_names ! 6 = ''ActiveCreditRegisterListLink''"
  "se_names ! 7 = ''ActiveDERControlListLink''"
  "se_names ! 8 = ''ActiveEndDeviceControlListLink''"
  "se_names ! 9 = ''ActiveFlowReservationListLink''"
  "se_names ! 10 = ''ActivePower''"
  "se_names ! 11 = ''ActiveProjectionReadingListLink''"
  "se_names ! 12 = ''ActiveSupplyInterruptionOverrideListLink''"
  "se_names ! 13 = ''ActiveTargetReadingListLink''"
  "se_names ! 14 = ''ActiveTextMessageListLink''"
  "se_names ! 15 = ''ActiveTimeTariffIntervalListLink''"
  "se_names ! 16 = ''AmpereHour''"
  "se_names ! 17 = ''ApparentPower''"
  "se_names ! 18 = ''ApplianceLoadReduction''"
  "se_names ! 19 = ''ApplianceLoadReductionType''"
  "se_names ! 20 = ''AppliedTargetReduction''"
  "se_names ! 21 = ''AssociatedDERProgramListLink''"
  "se_names ! 22 = ''AssociatedUsagePointLink''"
  "se_names ! 23 = ''BillingMeterReadingBase''"
  "se_names ! 24 = ''BillingPeriod''"
  "se_names ! 25 = ''BillingPeriodList''"
  "se_names ! 26 = ''BillingPeriodListLink''"
  "se_names ! 27 = ''BillingReading''"
  "se_names ! 28 = ''BillingReadingList''"
  "se_names ! 29 = ''BillingReadingListLink''"
  "se_names ! 30 = ''BillingReadingSet''"
  "se_names ! 31 = ''BillingReadingSetList''"
  "se_names ! 32 = ''BillingReadingSetListLink''"
  "se_names ! 33 = ''Charge''"
  "se_names ! 34 = ''ChargeKind''"
  "se_names ! 35 = ''CommodityType''"
  "se_names ! 36 = ''Condition''"
  unfolding se_names_def by (simp_all add: nth_append) (simp_all add: se_names_1_def)

lemma names_at_2:
  "se_names ! 37 = ''Configuration''"
  "se_names ! 38 = ''ConfigurationLink''"
  "se_names ! 39 = ''ConnectStatusType''"
  "se_names ! 40 = ''ConsumptionBlockType''"
  "se_names ! 41 = ''ConsumptionTariffInterval''"
  "se_names ! 42 = ''ConsumptionTariffIntervalList''"
  "se_names ! 43 = ''ConsumptionTariffIntervalListLink''"
  "se_names ! 44 = ''CostKindType''"
  "se_names ! 45 = ''CreditRegister''"
  "se_names ! 46 = ''CreditRegisterList''"
  "se_names ! 47 = ''CreditRegisterListLink''"
  "se_names ! 48 = ''CreditStatusType''"
  "se_names ! 49 = ''CreditTypeChange''"
  "se_names ! 50 = ''CreditTypeType''"
  "se_names ! 51 = ''CurrencyCode''"
  "se_names ! 52 = ''CurrentDERProgramLink''"
  "se_names ! 53 = ''CurrentRMS''"
  "se_names ! 54 = ''CurveData''"
  "se_names ! 55 = ''CustomerAccount''"
  "se_names ! 56 = ''CustomerAccountLink''"
  "se_names ! 57 = ''CustomerAccountList''"
  "se_names ! 58 = ''CustomerAccountListLink''"
  "se_names ! 59 = ''CustomerAgreement''"
  "se_names ! 60 = ''CustomerAgreementList''"
  "se_names ! 61 = ''CustomerAgreementListLink''"
  "se_names ! 62 = ''DER''"
  "se_names ! 63 = ''DERAvailability''"
  "se_names ! 64 = ''DERAvailabilityLink''"
  "se_names ! 65 = ''DERCapability''"
  "se_names ! 66 = ''DERCapabilityLink''"
  "se_names ! 67 = ''DERControl''"
  "se_names ! 68 = ''DERControlBase''"
  "se_names ! 69 = ''DERControlList''"
  "se_names ! 70 = ''DERControlListLink''"
  "se_names ! 71 = ''DERControlResponse''"
  "se_names ! 72 = ''DERControlType''"
  "se_names ! 73 = ''DERCurve''"
  unfolding se_names_def by (simp_all add: nth_append) (simp_all add: se_names_2_def)

lemma names_at_3:
  "se_names ! 74 = ''DERCurveLink''"
  "se_names ! 75 = ''DERCurveList''"
  "se_names ! 76 = ''DERCurveListLink''"
  "se_names ! 77 = ''DERCurveType''"
  "se_names ! 78 = ''DERLink''"
  "se_names ! 79 = ''DERList''"
  "se_names ! 80 = ''DERListLink''"
  "se_names ! 81 = ''DERProgram''"
  "se_names ! 82 = ''DERProgramLink''"
  "se_names ! 83 = ''DERProgramList''"
  "se_names ! 84 = ''DERProgramListLink''"
  "se_names ! 85 = ''DERSettings''"
  "se_names ! 86 = ''DERSettingsLink''"
  "se_names ! 87 = ''DERStatus''"
  "se_names ! 88 = ''DERStatusLink''"
  "se_names ! 89 = ''DERType''"
  "se_names ! 90 = ''DERUnitRefType''"
  "se_names ! 91 = ''DRLCCapabilities''"
  "se_names ! 92 = ''DataQualifierType''"
  "se_names ! 93 = ''DateTimeInterval''"
  "se_names ! 94 = ''DefaultDERControl''"
  "se_names ! 95 = ''DefaultDERControlLink''"
  "se_names ! 96 = ''DemandResponseProgram''"
  "se_names ! 97 = ''DemandResponseProgramLink''"
  "se_names ! 98 = ''DemandResponseProgramList''"
  "se_names ! 99 = ''DemandResponseProgramListLink''"
  "se_names ! 100 = ''DeviceCapability''"
  "se_names ! 101 = ''DeviceCapabilityLink''"
  "se_names ! 102 = ''DeviceCategoryType''"
  "se_names ! 103 = ''DeviceInformation''"
  "se_names ! 104 = ''DeviceInformationLink''"
  "se_names ! 105 = ''DeviceStatus''"
  "se_names ! 106 = ''DeviceStatusLink''"
  "se_names ! 107 = ''DrResponse''"
  "se_names ! 108 = ''DstRuleType''"
  "se_names ! 109 = ''DutyCycle''"
  "se_names ! 110 = ''EndDevice''"
  unfolding se_names_def by (simp_all add: nth_append) (simp_all add: se_names_3_def)

lemma names_at_4:
  "se_names ! 111 = ''EndDeviceControl''"
  "se_names ! 112 = ''EndDeviceControlList''"
  "se_names ! 113 = ''EndDeviceControlListLink''"
  "se_names ! 114 = ''EndDeviceLink''"
  "se_names ! 115 = ''EndDeviceList''"
  "se_names ! 116 = ''EndDeviceListLink''"
  "se_names ! 117 = ''EnvironmentalCost''"
  "se_names ! 118 = ''Error''"
  "se_names ! 119 = ''Event''"
  "se_names ! 120 = ''EventStatus''"
  "se_names ! 121 = ''File''"
  "se_names ! 122 = ''FileLink''"
  "se_names ! 123 = ''FileList''"
  "se_names ! 124 = ''FileListLink''"
  "se_names ! 125 = ''FileStatus''"
  "se_names ! 126 = ''FileStatusLink''"
  "se_names ! 127 = ''FixedPointType''"
  "se_names ! 128 = ''FixedVar''"
  "se_names ! 129 = ''FlowDirectionType''"
  "se_names ! 130 = ''FlowReservationRequest''"
  "se_names ! 131 = ''FlowReservationRequestList''"
  "se_names ! 132 = ''FlowReservationRequestListLink''"
  "se_names ! 133 = ''FlowReservationResponse''"
  "se_names ! 134 = ''FlowReservationResponseList''"
  "se_names ! 135 = ''FlowReservationResponseListLink''"
  "se_names ! 136 = ''FlowReservationResponseResponse''"
  "se_names ! 137 = ''FreqDroopType''"
  "se_names ! 138 = ''FunctionSetAssignments''"
  "se_names ! 139 = ''FunctionSetAssignmentsBase''"
  "se_names ! 140 = ''FunctionSetAssignmentsList''"
  "se_names ! 141 = ''FunctionSetAssignmentsListLink''"
  "se_names ! 142 = ''HistoricalReading''"
  "se_names ! 143 = ''HistoricalReadingList''"
  "se_names ! 144 = ''HistoricalReadingListLink''"
  "se_names ! 145 = ''IEEE_802_15_4''"
  "se_names ! 146 = ''IPAddr''"
  "se_names ! 147 = ''IPAddrList''"
  unfolding se_names_def by (simp_all add: nth_append) (simp_all add: se_names_4_def)

lemma names_at_5:
  "se_names ! 148 = ''IPAddrListLink''"
  "se_names ! 149 = ''IPInterface''"
  "se_names ! 150 = ''IPInterfaceList''"
  "se_names ! 151 = ''IPInterfaceListLink''"
  "se_names ! 152 = ''IdentifiedObject''"
  "se_names ! 153 = ''InverterStatusType''"
  "se_names ! 154 = ''KindType''"
  "se_names ! 155 = ''LLInterface''"
  "se_names ! 156 = ''LLInterfaceList''"
  "se_names ! 157 = ''LLInterfaceListLink''"
  "se_names ! 158 = ''Link''"
  "se_names ! 159 = ''List''"
  "se_names ! 160 = ''ListLink''"
  "se_names ! 161 = ''LoadShedAvailability''"
  "se_names ! 162 = ''LoadShedAvailabilityList''"
  "se_names ! 163 = ''LoadShedAvailabilityListLink''"
  "se_names ! 164 = ''LocalControlModeStatusType''"
  "se_names ! 165 = ''LocaleType''"
  "se_names ! 166 = ''LogEvent''"
  "se_names ! 167 = ''LogEventList''"
  "se_names ! 168 = ''LogEventListLink''"
  "se_names ! 169 = ''ManufacturerStatusType''"
  "se_names ! 170 = ''MessagingProgram''"
  "se_names ! 171 = ''MessagingProgramList''"
  "se_names ! 172 = ''MessagingProgramListLink''"
  "se_names ! 173 = ''MeterReading''"
  "se_names ! 174 = ''MeterReadingBase''"
  "se_names ! 175 = ''MeterReadingLink''"
  "se_names ! 176 = ''MeterReadingList''"
  "se_names ! 177 = ''MeterReadingListLink''"
  "se_names ! 178 = ''MirrorMeterReading''"
  "se_names ! 179 = ''MirrorMeterReadingList''"
  "se_names ! 180 = ''MirrorReadingSet''"
  "se_names ! 181 = ''MirrorUsagePoint''"
  "se_names ! 182 = ''MirrorUsagePointList''"
  "se_names ! 183 = ''MirrorUsagePointListLink''"
  "se_names ! 184 = ''Neighbor''"
  unfolding se_names_def by (simp_all add: nth_append) (simp_all add: se_names_5_def)

lemma names_at_6:
  "se_names ! 185 = ''NeighborList''"
  "se_names ! 186 = ''NeighborListLink''"
  "se_names ! 187 = ''Notification''"
  "se_names ! 188 = ''NotificationList''"
  "se_names ! 189 = ''NotificationListLink''"
  "se_names ! 190 = ''Offset''"
  "se_names ! 191 = ''OneHourRangeType''"
  "se_names ! 192 = ''OperationalModeStatusType''"
  "se_names ! 193 = ''PENType''"
  "se_names ! 194 = ''PEVInfo''"
  "se_names ! 195 = ''PINType''"
  "se_names ! 196 = ''PerCent''"
  "se_names ! 197 = ''PhaseCode''"
  "se_names ! 198 = ''PowerConfiguration''"
  "se_names ! 199 = ''PowerFactor''"
  "se_names ! 200 = ''PowerOfTenMultiplierType''"
  "se_names ! 201 = ''PowerSourceType''"
  "se_names ! 202 = ''PowerStatus''"
  "se_names ! 203 = ''PowerStatusLink''"
  "se_names ! 204 = ''PrepayModeType''"
  "se_names ! 205 = ''PrepayOperationStatus''"
  "se_names ! 206 = ''PrepayOperationStatusLink''"
  "se_names ! 207 = ''Prepayment''"
  "se_names ! 208 = ''PrepaymentLink''"
  "se_names ! 209 = ''PrepaymentList''"
  "se_names ! 210 = ''PrepaymentListLink''"
  "se_names ! 211 = ''PriceResponse''"
  "se_names ! 212 = ''PriceResponseCfg''"
  "se_names ! 213 = ''PriceResponseCfgList''"
  "se_names ! 214 = ''PriceResponseCfgListLink''"
  "se_names ! 215 = ''PrimacyType''"
  "se_names ! 216 = ''PriorityType''"
  "se_names ! 217 = ''ProjectionReading''"
  "se_names ! 218 = ''ProjectionReadingList''"
  "se_names ! 219 = ''ProjectionReadingListLink''"
  "se_names ! 220 = ''RPLInstance''"
  "se_names ! 221 = ''RPLInstanceList''"
  unfolding se_names_def by (simp_all add: nth_append) (simp_all add: se_names_6_def)

lemma names_at_7:
  "se_names ! 222 = ''RPLInstanceListLink''"
  "se_names ! 223 = ''RPLSourceRoutes''"
  "se_names ! 224 = ''RPLSourceRoutesList''"
  "se_names ! 225 = ''RPLSourceRoutesListLink''"
  "se_names ! 226 = ''RandomizableEvent''"
  "se_names ! 227 = ''RateComponent''"
  "se_names ! 228 = ''RateComponentLink''"
  "se_names ! 229 = ''RateComponentList''"
  "se_names ! 230 = ''RateComponentListLink''"
  "se_names ! 231 = ''ReactivePower''"
  "se_names ! 232 = ''Reading''"
  "se_names ! 233 = ''ReadingBase''"
  "se_names ! 234 = ''ReadingLink''"
  "se_names ! 235 = ''ReadingList''"
  "se_names ! 236 = ''ReadingListLink''"
  "se_names ! 237 = ''ReadingSet''"
  "se_names ! 238 = ''ReadingSetBase''"
  "se_names ! 239 = ''ReadingSetList''"
  "se_names ! 240 = ''ReadingSetListLink''"
  "se_names ! 241 = ''ReadingType''"
  "se_names ! 242 = ''ReadingTypeLink''"
  "se_names ! 243 = ''RealEnergy''"
  "se_names ! 244 = ''Registration''"
  "se_names ! 245 = ''RegistrationLink''"
  "se_names ! 246 = ''RequestStatus''"
  "se_names ! 247 = ''Resource''"
  "se_names ! 248 = ''RespondableIdentifiedObject''"
  "se_names ! 249 = ''RespondableResource''"
  "se_names ! 250 = ''RespondableSubscribableIdentifiedObject''"
  "se_names ! 251 = ''Response''"
  "se_names ! 252 = ''ResponseList''"
  "se_names ! 253 = ''ResponseListLink''"
  "se_names ! 254 = ''ResponseSet''"
  "se_names ! 255 = ''ResponseSetList''"
  "se_names ! 256 = ''ResponseSetListLink''"
  "se_names ! 257 = ''RoleFlagsType''"
  "se_names ! 258 = ''SFDIType''"
  unfolding se_names_def by (simp_all add: nth_append) (simp_all add: se_names_7_def)

lemma names_at_8:
  "se_names ! 259 = ''SelfDevice''"
  "se_names ! 260 = ''SelfDeviceLink''"
  "se_names ! 261 = ''ServiceChange''"
  "se_names ! 262 = ''ServiceKind''"
  "se_names ! 263 = ''ServiceStatusType''"
  "se_names ! 264 = ''ServiceSupplier''"
  "se_names ! 265 = ''ServiceSupplierLink''"
  "se_names ! 266 = ''ServiceSupplierList''"
  "se_names ! 267 = ''SetPoint''"
  "se_names ! 268 = ''SignedPerCent''"
  "se_names ! 269 = ''SignedRealEnergy''"
  "se_names ! 270 = ''StateOfChargeStatusType''"
  "se_names ! 271 = ''StorageModeStatusType''"
  "se_names ! 272 = ''SubscribableIdentifiedObject''"
  "se_names ! 273 = ''SubscribableList''"
  "se_names ! 274 = ''SubscribableResource''"
  "se_names ! 275 = ''Subscription''"
  "se_names ! 276 = ''SubscriptionBase''"
  "se_names ! 277 = ''SubscriptionList''"
  "se_names ! 278 = ''SubscriptionListLink''"
  "se_names ! 279 = ''SupplyInterruptionOverride''"
  "se_names ! 280 = ''SupplyInterruptionOverrideList''"
  "se_names ! 281 = ''SupplyInterruptionOverrideListLink''"
  "se_names ! 282 = ''SupportedLocale''"
  "se_names ! 283 = ''SupportedLocaleList''"
  "se_names ! 284 = ''SupportedLocaleListLink''"
  "se_names ! 285 = ''TOUType''"
  "se_names ! 286 = ''TargetReading''"
  "se_names ! 287 = ''TargetReadingList''"
  "se_names ! 288 = ''TargetReadingListLink''"
  "se_names ! 289 = ''TargetReduction''"
  "se_names ! 290 = ''TariffProfile''"
  "se_names ! 291 = ''TariffProfileLink''"
  "se_names ! 292 = ''TariffProfileList''"
  "se_names ! 293 = ''TariffProfileListLink''"
  "se_names ! 294 = ''Temperature''"
  "se_names ! 295 = ''TextMessage''"
  unfolding se_names_def by (simp_all add: nth_append) (simp_all add: se_names_8_def)

lemma names_at_9:
  "se_names ! 296 = ''TextMessageList''"
  "se_names ! 297 = ''TextMessageListLink''"
  "se_names ! 298 = ''TextResponse''"
  "se_names ! 299 = ''Time''"
  "se_names ! 300 = ''TimeConfiguration''"
  "se_names ! 301 = ''TimeLink''"
  "se_names ! 302 = ''TimeOffsetType''"
  "se_names ! 303 = ''TimeTariffInterval''"
  "se_names ! 304 = ''TimeTariffIntervalList''"
  "se_names ! 305 = ''TimeTariffIntervalListLink''"
  "se_names ! 306 = ''TimeType''"
  "se_names ! 307 = ''UnitType''"
  "se_names ! 308 = ''UnitValueType''"
  "se_names ! 309 = ''UnsignedFixedPointType''"
  "se_names ! 310 = ''UomType''"
  "se_names ! 311 = ''UsagePoint''"
  "se_names ! 312 = ''UsagePointBase''"
  "se_names ! 313 = ''UsagePointLink''"
  "se_names ! 314 = ''UsagePointList''"
  "se_names ! 315 = ''UsagePointListLink''"
  "se_names ! 316 = ''VersionType''"
  "se_names ! 317 = ''VoltageRMS''"
  "se_names ! 318 = ''WattHour''"
  "se_names ! 319 = ''loWPAN''"
  "se_names ! 320 = ''mRIDType''"
  unfolding se_names_def by (simp_all add: nth_append) (simp_all add: se_names_9_def)

lemma names_at_10:
  "se_names ! 321 = ''multiplier''"
  "se_names ! 322 = ''unit''"
  "se_names ! 323 = ''value''"
  "se_names ! 324 = ''href''"
  "se_names ! 325 = ''accumulationBehaviour''"
  "se_names ! 326 = ''calorificValue''"
  "se_names ! 327 = ''commodity''"
  "se_names ! 328 = ''conversionFactor''"
  "se_names ! 329 = ''dataQualifier''"
  "se_names ! 330 = ''flowDirection''"
  "se_names ! 331 = ''intervalLength''"
  "se_names ! 332 = ''kind''"
  "se_names ! 333 = ''maxNumberOfIntervals''"
  "se_names ! 334 = ''numberOfConsumptionBlocks''"
  "se_names ! 335 = ''numberOfTouTiers''"
  "se_names ! 336 = ''phase''"
  "se_names ! 337 = ''powerOfTenMultiplier''"
  "se_names ! 338 = ''subIntervalLength''"
  "se_names ! 339 = ''supplyLimit''"
  "se_names ! 340 = ''tieredConsumptionBlocks''"
  "se_names ! 341 = ''uom''"
  "se_names ! 342 = ''duration''"
  "se_names ! 343 = ''start''"
  "se_names ! 344 = ''consumptionBlock''"
  "se_names ! 345 = ''qualityFlags''"
  "se_names ! 346 = ''timePeriod''"
  "se_names ! 347 = ''touTier''"
  "se_names ! 348 = ''subscribable''"
  "se_names ! 349 = ''localID''"
  "se_names ! 350 = ''mRID''"
  "se_names ! 351 = ''description''"
  "se_names ! 352 = ''version''"
  "se_names ! 353 = ''lastUpdateTime''"
  "se_names ! 354 = ''nextUpdateTime''"
  "se_names ! 355 = ''roleFlags''"
  "se_names ! 356 = ''serviceCategoryKind''"
  "se_names ! 357 = ''status''"
  "se_names ! 358 = ''deviceLFDI''"
  "se_names ! 359 = ''postRate''"
  "se_names ! 360 = ''all''"
  "se_names ! 361 = ''results''"
  "se_names ! 362 = ''pollRate''"
  "se_names ! 363 = ''maxRetryDuration''"
  "se_names ! 364 = ''reasonCode''"
  "se_names ! 365 = ''replyTo''"
  "se_names ! 366 = ''responseRequired''"
  "se_names ! 367 = ''dateTime''"
  "se_names ! 368 = ''genConnectStatus''"
  "se_names ! 369 = ''inverterStatus''"
  "se_names ! 370 = ''localControlModeStatus''"
  "se_names ! 371 = ''manufacturerStatus''"
  "se_names ! 372 = ''operationalModeStatus''"
  "se_names ! 373 = ''readingTime''"
  "se_names ! 374 = ''stateOfChargeStatus''"
  "se_names ! 375 = ''storageModeStatus''"
  "se_names ! 376 = ''storConnectStatus''"
  "se_names ! 377 = ''primacy''"
  "se_names ! 378 = ''xvalue''"
  "se_names ! 379 = ''yvalue''"
  "se_names ! 380 = ''creationTime''"
  "se_names ! 381 = ''curveType''"
  "se_names ! 382 = ''openLoopTms''"
  "se_names ! 383 = ''rampDecTms''"
  "se_names ! 384 = ''rampIncTms''"
  "se_names ! 385 = ''rampPT1Tms''"
  "se_names ! 386 = ''xMultiplier''"
  "se_names ! 387 = ''yMultiplier''"
  "se_names ! 388 = ''yRefType''"
  "se_names ! 389 = ''dBOF''"
  "se_names ! 390 = ''dBUF''"
  "se_names ! 391 = ''kOF''"
  "se_names ! 392 = ''kUF''"
  "se_names ! 393 = ''refType''"
  "se_names ! 394 = ''displacement''"
  "se_names ! 395 = ''opModConnect''"
  "se_names ! 396 = ''opModEnergize''"
  "se_names ! 397 = ''opModFixedPF''"
  "se_names ! 398 = ''opModFixedVar''"
  "se_names ! 399 = ''opModFixedW''"
  "se_names ! 400 = ''opModFreqDroop''"
  "se_names ! 401 = ''opModFreqWatt''"
  "se_names ! 402 = ''opModHFRTMustTrip''"
  "se_names ! 403 = ''opModHVRTMomentaryCessation''"
  "se_names ! 404 = ''opModHVRTMustTrip''"
  "se_names ! 405 = ''opModLFRTMustTrip''"
  "se_names ! 406 = ''opModLVRTMomentaryCessation''"
  "se_names ! 407 = ''opModLVRTMustTrip''"
  "se_names ! 408 = ''opModMaxLimW''"
  "se_names ! 409 = ''opModTargetVar''"
  "se_names ! 410 = ''opModTargetW''"
  "se_names ! 411 = ''opModVoltVar''"
  unfolding se_names_def by (simp_all add: nth_append) (simp_all add: se_names_10_def)

lemma names_at_11:
  "se_names ! 412 = ''opModVoltWatt''"
  "se_names ! 413 = ''opModWattPF''"
  "se_names ! 414 = ''opModWattVar''"
  "se_names ! 415 = ''rampTms''"
  "se_names ! 416 = ''currentStatus''"
  "se_names ! 417 = ''potentiallySuperseded''"
  "se_names ! 418 = ''potentiallySupersededTime''"
  "se_names ! 419 = ''reason''"
  "se_names ! 420 = ''interval''"
  "se_names ! 421 = ''randomizeDuration''"
  "se_names ! 422 = ''randomizeStart''"
  "se_names ! 423 = ''modesSupported''"
  "se_names ! 424 = ''rtgA''"
  "se_names ! 425 = ''rtgAbnormalCategory''"
  "se_names ! 426 = ''rtgAh''"
  "se_names ! 427 = ''rtgMaxChargeRateVA''"
  "se_names ! 428 = ''rtgMaxChargeRateW''"
  "se_names ! 429 = ''rtgMaxDischargeRateVA''"
  "se_names ! 430 = ''rtgMaxDischargeRateW''"
  "se_names ! 431 = ''rtgMinPF''"
  "se_names ! 432 = ''rtgMinPFNeg''"
  "se_names ! 433 = ''rtgNormalCategory''"
  "se_names ! 434 = ''rtgOverExcitedPF''"
  "se_names ! 435 = ''rtgOverExcitedW''"
  "se_names ! 436 = ''rtgUnderExcitedPF''"
  "se_names ! 437 = ''rtgUnderExcitedW''"
  "se_names ! 438 = ''rtgVA''"
  "se_names ! 439 = ''rtgVar''"
  "se_names ! 440 = ''rtgVarNeg''"
  "se_names ! 441 = ''rtgW''"
  "se_names ! 442 = ''rtgWh''"
  "se_names ! 443 = ''type''"
  "se_names ! 444 = ''availabilityDuration''"
  "se_names ! 445 = ''maxChargeDuration''"
  "se_names ! 446 = ''reserveChargePercent''"
  "se_names ! 447 = ''reservePercent''"
  "se_names ! 448 = ''statVarAvail''"
  "se_names ! 449 = ''statWAvail''"
  "se_names ! 450 = ''modesEnabled''"
  "se_names ! 451 = ''setESDelay''"
  "se_names ! 452 = ''setESHighFreq''"
  "se_names ! 453 = ''setESHighVolt''"
  "se_names ! 454 = ''setESLowFreq''"
  "se_names ! 455 = ''setESLowVolt''"
  "se_names ! 456 = ''setESRandomDelay''"
  "se_names ! 457 = ''setGradW''"
  "se_names ! 458 = ''setMaxA''"
  "se_names ! 459 = ''setMaxAh''"
  "se_names ! 460 = ''setMaxChargeRateVA''"
  "se_names ! 461 = ''setMaxChargeRateW''"
  "se_names ! 462 = ''setMaxDischargeRateVA''"
  "se_names ! 463 = ''setMaxDischargeRateW''"
  "se_names ! 464 = ''setMaxVA''"
  "se_names ! 465 = ''setMaxVar''"
  "se_names ! 466 = ''setMaxVarNeg''"
  "se_names ! 467 = ''setMaxW''"
  "se_names ! 468 = ''setMaxWh''"
  "se_names ! 469 = ''setMinPF''"
  "se_names ! 470 = ''setMinPFNeg''"
  "se_names ! 471 = ''setSoftGradW''"
  "se_names ! 472 = ''setVRef''"
  "se_names ! 473 = ''setVRefOfs''"
  "se_names ! 474 = ''updatedTime''"
  "se_names ! 475 = ''energyAvailable''"
  "se_names ! 476 = ''powerAvailable''"
  "se_names ! 477 = ''subject''"
  "se_names ! 478 = ''requestStatus''"
  "se_names ! 479 = ''durationRequested''"
  "se_names ! 480 = ''energyRequested''"
  "se_names ! 481 = ''intervalRequested''"
  "se_names ! 482 = ''powerRequested''"
  "se_names ! 483 = ''newStatus''"
  "se_names ! 484 = ''startTime''"
  "se_names ! 485 = ''newType''"
  "se_names ! 486 = ''creditTypeChange''"
  "se_names ! 487 = ''creditTypeInUse''"
  "se_names ! 488 = ''serviceChange''"
  "se_names ! 489 = ''serviceStatus''"
  "se_names ! 490 = ''energyUnit''"
  "se_names ! 491 = ''monetaryUnit''"
  "se_names ! 492 = ''creditExpiryLevel''"
  "se_names ! 493 = ''lowCreditWarningLevel''"
  "se_names ! 494 = ''lowEmergencyCreditWarningLevel''"
  "se_names ! 495 = ''prepayMode''"
  "se_names ! 496 = ''creditAmount''"
  "se_names ! 497 = ''creditType''"
  "se_names ! 498 = ''effectiveTime''"
  "se_names ! 499 = ''token''"
  "se_names ! 500 = ''availableCredit''"
  "se_names ! 501 = ''creditStatus''"
  unfolding se_names_def by (simp_all add: nth_append) (simp_all add: se_names_11_def)

lemma names_at_12:
  "se_names ! 502 = ''emergencyCredit''"
  "se_names ! 503 = ''emergencyCreditStatus''"
  "se_names ! 504 = ''email''"
  "se_names ! 505 = ''phone''"
  "se_names ! 506 = ''providerID''"
  "se_names ! 507 = ''web''"
  "se_names ! 508 = ''serviceAccount''"
  "se_names ! 509 = ''serviceLocation''"
  "se_names ! 510 = ''currency''"
  "se_names ! 511 = ''customerAccount''"
  "se_names ! 512 = ''customerName''"
  "se_names ! 513 = ''pricePowerOfTenMultiplier''"
  "se_names ! 514 = ''billLastPeriod''"
  "se_names ! 515 = ''billToDate''"
  "se_names ! 516 = ''statusTimeStamp''"
  "se_names ! 517 = ''originator''"
  "se_names ! 518 = ''priority''"
  "se_names ! 519 = ''textMessage''"
  "se_names ! 520 = ''locale''"
  "se_names ! 521 = ''rateCode''"
  "se_names ! 522 = ''flowRateEndLimit''"
  "se_names ! 523 = ''flowRateStartLimit''"
  "se_names ! 524 = ''amount''"
  "se_names ! 525 = ''costKind''"
  "se_names ! 526 = ''costLevel''"
  "se_names ! 527 = ''numCostLevels''"
  "se_names ! 528 = ''price''"
  "se_names ! 529 = ''startValue''"
  "se_names ! 530 = ''coolingSetpoint''"
  "se_names ! 531 = ''heatingSetpoint''"
  "se_names ! 532 = ''coolingOffset''"
  "se_names ! 533 = ''heatingOffset''"
  "se_names ! 534 = ''loadAdjustmentPercentageOffset''"
  "se_names ! 535 = ''normalValue''"
  "se_names ! 536 = ''deviceCategory''"
  "se_names ! 537 = ''drProgramMandatory''"
  "se_names ! 538 = ''loadShiftForward''"
  "se_names ! 539 = ''overrideDuration''"
  "se_names ! 540 = ''availabilityUpdatePercentChangeThreshold''"
  "se_names ! 541 = ''availabilityUpdatePowerChangeThreshold''"
  "se_names ! 542 = ''sheddablePercent''"
  "se_names ! 543 = ''sheddablePower''"
  "se_names ! 544 = ''activateTime''"
  "se_names ! 545 = ''loadPercent''"
  "se_names ! 546 = ''nextRequestAttempt''"
  "se_names ! 547 = ''request503Count''"
  "se_names ! 548 = ''requestFailCount''"
  "se_names ! 549 = ''statusTime''"
  "se_names ! 550 = ''fileURI''"
  "se_names ! 551 = ''lFDI''"
  "se_names ! 552 = ''mfHwVer''"
  "se_names ! 553 = ''mfID''"
  "se_names ! 554 = ''mfModel''"
  "se_names ! 555 = ''mfSerNum''"
  "se_names ! 556 = ''mfVer''"
  "se_names ! 557 = ''size''"
  "se_names ! 558 = ''consumeThreshold''"
  "se_names ! 559 = ''maxReductionThreshold''"
  "se_names ! 560 = ''dstEndRule''"
  "se_names ! 561 = ''dstOffset''"
  "se_names ! 562 = ''dstStartRule''"
  "se_names ! 563 = ''tzOffset''"
  "se_names ! 564 = ''batteryInstallTime''"
  "se_names ! 565 = ''lowChargeThreshold''"
  "se_names ! 566 = ''currentLocale''"
  "se_names ! 567 = ''userDeviceName''"
  "se_names ! 568 = ''createdDateTime''"
  "se_names ! 569 = ''details''"
  "se_names ! 570 = ''extendedData''"
  "se_names ! 571 = ''functionSet''"
  "se_names ! 572 = ''logEventCode''"
  "se_names ! 573 = ''logEventID''"
  "se_names ! 574 = ''logEventPEN''"
  "se_names ! 575 = ''profileID''"
  "se_names ! 576 = ''DestAddress''"
  "se_names ! 577 = ''SourceRoute''"
  "se_names ! 578 = ''DODAGid''"
  "se_names ! 579 = ''DODAGroot''"
  "se_names ! 580 = ''flags''"
  "se_names ! 581 = ''groundedFlag''"
  "se_names ! 582 = ''MOP''"
  "se_names ! 583 = ''PRF''"
  "se_names ! 584 = ''rank''"
  "se_names ! 585 = ''RPLInstanceID''"
  "se_names ! 586 = ''versionNumber''"
  "se_names ! 587 = ''isChild''"
  "se_names ! 588 = ''linkQuality''"
  "se_names ! 589 = ''shortAddress''"
  "se_names ! 590 = ''octetsRx''"
  "se_names ! 591 = ''octetsTx''"
  "se_names ! 592 = ''packetsRx''"
  unfolding se_names_def by (simp_all add: nth_append) (simp_all add: se_names_12_def)

lemma names_at_13:
  "se_names ! 593 = ''packetsTx''"
  "se_names ! 594 = ''rxFragError''"
  "se_names ! 595 = ''capabilityInfo''"
  "se_names ! 596 = ''CRCerrors''"
  "se_names ! 597 = ''EUI64''"
  "se_names ! 598 = ''linkLayerType''"
  "se_names ! 599 = ''LLAckNotRx''"
  "se_names ! 600 = ''LLCSMAFail''"
  "se_names ! 601 = ''LLFramesDropRx''"
  "se_names ! 602 = ''LLFramesDropTx''"
  "se_names ! 603 = ''LLFramesRx''"
  "se_names ! 604 = ''LLFramesTx''"
  "se_names ! 605 = ''LLMediaAccessFail''"
  "se_names ! 606 = ''LLOctetsRx''"
  "se_names ! 607 = ''LLOctetsTx''"
  "se_names ! 608 = ''LLRetryCount''"
  "se_names ! 609 = ''LLSecurityErrorRx''"
  "se_names ! 610 = ''ifDescr''"
  "se_names ! 611 = ''ifHighSpeed''"
  "se_names ! 612 = ''ifInBroadcastPkts''"
  "se_names ! 613 = ''ifIndex''"
  "se_names ! 614 = ''ifInDiscards''"
  "se_names ! 615 = ''ifInErrors''"
  "se_names ! 616 = ''ifInMulticastPkts''"
  "se_names ! 617 = ''ifInOctets''"
  "se_names ! 618 = ''ifInUcastPkts''"
  "se_names ! 619 = ''ifInUnknownProtos''"
  "se_names ! 620 = ''ifMtu''"
  "se_names ! 621 = ''ifName''"
  "se_names ! 622 = ''ifOperStatus''"
  "se_names ! 623 = ''ifOutBroadcastPkts''"
  "se_names ! 624 = ''ifOutDiscards''"
  "se_names ! 625 = ''ifOutErrors''"
  "se_names ! 626 = ''ifOutMulticastPkts''"
  "se_names ! 627 = ''ifOutOctets''"
  "se_names ! 628 = ''ifOutUcastPkts''"
  "se_names ! 629 = ''ifPromiscuousMode''"
  "se_names ! 630 = ''ifSpeed''"
  "se_names ! 631 = ''ifType''"
  "se_names ! 632 = ''lastResetTime''"
  "se_names ! 633 = ''lastUpdatedTime''"
  "se_names ! 634 = ''address''"
  "se_names ! 635 = ''chargingPowerNow''"
  "se_names ! 636 = ''energyRequestNow''"
  "se_names ! 637 = ''maxForwardPower''"
  "se_names ! 638 = ''minimumChargingDuration''"
  "se_names ! 639 = ''targetStateOfCharge''"
  "se_names ! 640 = ''timeChargeIsNeeded''"
  "se_names ! 641 = ''timeChargingStatusPEV''"
  "se_names ! 642 = ''batteryStatus''"
  "se_names ! 643 = ''changedTime''"
  "se_names ! 644 = ''currentPowerSource''"
  "se_names ! 645 = ''estimatedChargeRemaining''"
  "se_names ! 646 = ''estimatedTimeRemaining''"
  "se_names ! 647 = ''sessionTimeOnBattery''"
  "se_names ! 648 = ''totalTimeOnBattery''"
  "se_names ! 649 = ''averageEnergy''"
  "se_names ! 650 = ''maxDemand''"
  "se_names ! 651 = ''optionsImplemented''"
  "se_names ! 652 = ''functionsImplemented''"
  "se_names ! 653 = ''mfDate''"
  "se_names ! 654 = ''mfInfo''"
  "se_names ! 655 = ''primaryPower''"
  "se_names ! 656 = ''secondaryPower''"
  "se_names ! 657 = ''swActTime''"
  "se_names ! 658 = ''swVer''"
  "se_names ! 659 = ''currentTime''"
  "se_names ! 660 = ''dstEndTime''"
  "se_names ! 661 = ''dstStartTime''"
  "se_names ! 662 = ''localTime''"
  "se_names ! 663 = ''quality''"
  "se_names ! 664 = ''endDeviceLFDI''"
  "se_names ! 665 = ''subscribedResource''"
  "se_names ! 666 = ''newResourceURI''"
  "se_names ! 667 = ''subscriptionURI''"
  "se_names ! 668 = ''attributeIdentifier''"
  "se_names ! 669 = ''lowerThreshold''"
  "se_names ! 670 = ''upperThreshold''"
  "se_names ! 671 = ''encoding''"
  "se_names ! 672 = ''level''"
  "se_names ! 673 = ''limit''"
  "se_names ! 674 = ''notificationURI''"
  "se_names ! 675 = ''loadShedDeviceCategory''"
  "se_names ! 676 = ''sFDI''"
  "se_names ! 677 = ''dateTimeRegistered''"
  "se_names ! 678 = ''pIN''"
  "se_names ! 679 = ''enabled''"
  "se_names ! 680 = ''onCount''"
  "se_names ! 681 = ''opState''"
  "se_names ! 682 = ''opTime''"
  unfolding se_names_def by (simp_all add: nth_append) (simp_all add: se_names_13_def)

lemmas names_at = names_at_1 names_at_2 names_at_3 names_at_4 names_at_5 names_at_6 names_at_7 names_at_8 names_at_9 names_at_10 names_at_11 names_at_12 names_at_13

subsection \<open>Binary search\<close>

text \<open>\<open>bsearch\<close> of the C library as glibc has it: \<open>c i\<close> compares the key with element \<open>i\<close>.\<close>

function bsearch_loop :: "(nat \<Rightarrow> int) \<Rightarrow> nat \<Rightarrow> nat \<Rightarrow> nat option" where
  "bsearch_loop c l u =
     (if l < u then
        let i = (l + u) div 2 in
        if c i < 0 then bsearch_loop c l i else if c i > 0 then bsearch_loop c (Suc i) u else Some i
      else None)"
  by pat_completeness auto
termination by (relation "measure (\<lambda>(c, l, u). u - l)") auto

declare bsearch_loop.simps [simp del]

definition bsearch_name :: "string list \<Rightarrow> string \<Rightarrow> nat option" where
  "bsearch_name ns key = bsearch_loop (\<lambda>i. strcmp key (ns ! i)) 0 (length ns)"

lemma bsearch_loop_some: "bsearch_loop c l u = Some i \<Longrightarrow> l \<le> i \<and> i < u \<and> c i = 0"
proof (induction c l u rule: bsearch_loop.induct)
  case (1 c l u)
  then show ?case
    by (subst (asm) (3) bsearch_loop.simps) (auto simp: Let_def split: if_splits)
qed

lemma bsearch_loop_none:
  "bsearch_loop c l u = None \<Longrightarrow> \<forall>i j. l \<le> i \<and> i < j \<and> j < u \<longrightarrow> (c i \<le> 0 \<longrightarrow> c j < 0) \<and> (0 \<le> c j \<longrightarrow> 0 < c i) \<Longrightarrow>
   l \<le> k \<Longrightarrow> k < u \<Longrightarrow> c k \<noteq> 0"
proof (induction c l u rule: bsearch_loop.induct)
  case (1 c l u)
  let ?i = "(l + u) div 2"
  have lu: "l < u" using "1.prems"(3,4) by simp
  then have i: "l \<le> ?i" "?i < u" by linarith+
  show ?case
  proof (cases "c ?i < 0")
    case True
    then have n: "bsearch_loop c l ?i = None" using "1.prems"(1) lu by (subst (asm) bsearch_loop.simps) (simp add: Let_def)
    show ?thesis
    proof (cases "k < ?i")
      case t: True
      show ?thesis using "1.IH"(1) [OF lu refl True n] "1.prems"(2,3) i t by (meson less_trans)
    next
      case False
      then consider "k = ?i" | "?i < k" by linarith
      then show ?thesis
      proof cases
        case 1
        then show ?thesis using True by simp
      next
        case 2
        have "c k < 0" using spec [OF spec [OF "1.prems"(2), of ?i], of k] 2 i "1.prems"(4) True by simp
        then show ?thesis by simp
      qed
    qed
  next
    case False
    then have p: "0 < c ?i" and n: "bsearch_loop c (Suc ?i) u = None"
      using "1.prems"(1) lu by (subst (asm) bsearch_loop.simps, simp add: Let_def split: if_splits)+
    show ?thesis
    proof (cases "?i < k")
      case t: True
      have "\<forall>x y. Suc ?i \<le> x \<and> x < y \<and> y < u \<longrightarrow> (c x \<le> 0 \<longrightarrow> c y < 0) \<and> (0 \<le> c y \<longrightarrow> 0 < c x)"
      proof (intro allI impI)
        fix x y assume "Suc ?i \<le> x \<and> x < y \<and> y < u"
        then have "l \<le> x \<and> x < y \<and> y < u" using i by linarith
        then show "(c x \<le> 0 \<longrightarrow> c y < 0) \<and> (0 \<le> c y \<longrightarrow> 0 < c x)" using "1.prems"(2) by blast
      qed
      then show ?thesis using "1.IH"(2) [OF lu refl False p n] "1.prems"(4) t by simp
    next
      case f: False
      then consider "k = ?i" | "k < ?i" by linarith
      then show ?thesis
      proof cases
        case 1
        then show ?thesis using p by simp
      next
        case 2
        have "0 < c k" using spec [OF spec [OF "1.prems"(2), of k], of ?i] 2 i "1.prems"(3) p by simp
        then show ?thesis by simp
      qed
    qed
  qed
qed

lemma strcmp_lt_trans: "strcmp a b < 0 \<Longrightarrow> strcmp b c < 0 \<Longrightarrow> strcmp a c < 0"
proof -
  assume a: "strcmp a b < 0" "strcmp b c < 0"
  have "strcmp a c \<noteq> 0"
  proof
    assume "strcmp a c = 0"
    then have "a = c" by (simp add: strcmp_0)
    then show False using a strcmp_flip [of a b] by simp
  qed
  moreover have "strcmp a c \<le> 0" using strcmp_trans [of a b c] a by simp
  ultimately show ?thesis by simp
qed

text \<open>A comparison by the bits of the characters, for evaluation.\<close>

fun bits_less :: "bool list \<Rightarrow> bool list \<Rightarrow> bool" where
  "bits_less (a # as) (b # bs) = (if a = b then bits_less as bs else b)"
| "bits_less as bs = False"

fun char_less :: "char \<Rightarrow> char \<Rightarrow> bool" where
  "char_less (Char a0 a1 a2 a3 a4 a5 a6 a7) (Char b0 b1 b2 b3 b4 b5 b6 b7) =
     bits_less [a7, a6, a5, a4, a3, a2, a1, a0] [b7, b6, b5, b4, b3, b2, b1, b0]"

fun name_less :: "string \<Rightarrow> string \<Rightarrow> bool" where
  "name_less [] bs = (bs \<noteq> [])"
| "name_less as [] = False"
| "name_less (a # as) (b # bs) = (if a = b then name_less as bs else char_less a b)"

lemma bits_less_value:
  "length as = length bs \<Longrightarrow> bits_less as bs \<Longrightarrow> horner_sum of_bool (2 :: nat) (rev as) < horner_sum of_bool 2 (rev bs)"
proof (induction as bs rule: bits_less.induct)
  case (1 a as b bs)
  show ?case
  proof (cases "a = b")
    case True
    then show ?thesis using 1 by (simp add: horner_sum_append)
  next
    case False
    then have "b" "\<not> a" using "1.prems"(2) by simp_all
    moreover have "horner_sum of_bool (2 :: nat) (rev as) < 2 ^ length as"
      using horner_sum_of_bool_2_less [of "rev as"] by simp
    ultimately show ?thesis using "1.prems"(1) by (simp add: horner_sum_append)
  qed
qed simp_all

lemma char_less_of_char: "char_less a b \<Longrightarrow> (of_char a :: nat) < of_char b"
proof -
  assume l: "char_less a b"
  obtain a0 a1 a2 a3 a4 a5 a6 a7 where a: "a = Char a0 a1 a2 a3 a4 a5 a6 a7" by (cases a)
  obtain b0 b1 b2 b3 b4 b5 b6 b7 where b: "b = Char b0 b1 b2 b3 b4 b5 b6 b7" by (cases b)
  show ?thesis
    using bits_less_value [of "[a7, a6, a5, a4, a3, a2, a1, a0]" "[b7, b6, b5, b4, b3, b2, b1, b0]"] l
    unfolding a b by (simp only: char_less.simps of_char_def list.size) (simp del: bits_less.simps)
qed

lemma name_less_strcmp: "name_less as bs \<Longrightarrow> strcmp as bs < 0"
proof (induction as bs rule: name_less.induct)
  case (1 bs)
  then show ?case by (cases bs) simp_all
next
  case (3 a as b bs)
  then show ?case by (simp add: char_less_of_char split: if_splits)
qed simp

lemma sorted_piece_1: "successively name_less se_names_1 \<and> hd se_names_1 = ''AbstractDevice'' \<and> last se_names_1 = ''Condition'' \<and> se_names_1 \<noteq> []"
  by code_simp

lemma sorted_piece_2: "successively name_less se_names_2 \<and> hd se_names_2 = ''Configuration'' \<and> last se_names_2 = ''DERCurve'' \<and> se_names_2 \<noteq> []"
  by code_simp

lemma sorted_piece_3: "successively name_less se_names_3 \<and> hd se_names_3 = ''DERCurveLink'' \<and> last se_names_3 = ''EndDevice'' \<and> se_names_3 \<noteq> []"
  by code_simp

lemma sorted_piece_4: "successively name_less se_names_4 \<and> hd se_names_4 = ''EndDeviceControl'' \<and> last se_names_4 = ''IPAddrList'' \<and> se_names_4 \<noteq> []"
  by code_simp

lemma sorted_piece_5: "successively name_less se_names_5 \<and> hd se_names_5 = ''IPAddrListLink'' \<and> last se_names_5 = ''Neighbor'' \<and> se_names_5 \<noteq> []"
  by code_simp

lemma sorted_piece_6: "successively name_less se_names_6 \<and> hd se_names_6 = ''NeighborList'' \<and> last se_names_6 = ''RPLInstanceList'' \<and> se_names_6 \<noteq> []"
  by code_simp

lemma sorted_piece_7: "successively name_less se_names_7 \<and> hd se_names_7 = ''RPLInstanceListLink'' \<and> last se_names_7 = ''SFDIType'' \<and> se_names_7 \<noteq> []"
  by code_simp

lemma sorted_piece_8: "successively name_less se_names_8 \<and> hd se_names_8 = ''SelfDevice'' \<and> last se_names_8 = ''TextMessage'' \<and> se_names_8 \<noteq> []"
  by code_simp

lemma sorted_piece_9: "successively name_less se_names_9 \<and> hd se_names_9 = ''TextMessageList'' \<and> last se_names_9 = ''mRIDType'' \<and> se_names_9 \<noteq> []"
  by code_simp

lemmas sorted_pieces = sorted_piece_1 sorted_piece_2 sorted_piece_3 sorted_piece_4 sorted_piece_5 sorted_piece_6 sorted_piece_7 sorted_piece_8 sorted_piece_9

lemma sorted_names: "sorted_wrt (\<lambda>a b. strcmp a b < 0) (take 321 se_names)"
proof -
  have l: "length (se_names_1 @ se_names_2 @ se_names_3 @ se_names_4 @ se_names_5 @ se_names_6 @ se_names_7 @ se_names_8 @ se_names_9) = 321" by code_simp
  have "take 321 se_names = se_names_1 @ se_names_2 @ se_names_3 @ se_names_4 @ se_names_5 @ se_names_6 @ se_names_7 @ se_names_8 @ se_names_9"
    unfolding se_names_def append_assoc [symmetric] unfolding l [symmetric] by simp
  then have "successively name_less (take 321 se_names)"
    by (simp add: successively_append_iff sorted_pieces)
  then have "successively (\<lambda>a b. strcmp a b < 0) (take 321 se_names)"
    by (rule successively_mono) (rule name_less_strcmp)
  moreover have "transp (\<lambda>a b. strcmp a b < 0)" by (auto intro!: transpI dest: strcmp_lt_trans)
  ultimately show ?thesis by (simp add: successively_conv_sorted_wrt)
qed

lemma bsearch_name_sorted:
  assumes "sorted_wrt (\<lambda>a b. strcmp a b < 0) ns"
  shows "bsearch_name ns key = Some i \<longleftrightarrow> i < length ns \<and> ns ! i = key"
proof
  assume "bsearch_name ns key = Some i"
  then show "i < length ns \<and> ns ! i = key"
    using bsearch_loop_some [of "\<lambda>i. strcmp key (ns ! i)" 0 "length ns" i] by (simp add: bsearch_name_def strcmp_0)
next
  assume r: "i < length ns \<and> ns ! i = key"
  have lt: "strcmp (ns ! a) (ns ! b) < 0" if "a < b" "b < length ns" for a b
    using assms that by (simp add: sorted_wrt_iff_nth_less)
  have m: "\<forall>a b. 0 \<le> a \<and> a < b \<and> b < length ns \<longrightarrow>
      (strcmp key (ns ! a) \<le> 0 \<longrightarrow> strcmp key (ns ! b) < 0) \<and> (0 \<le> strcmp key (ns ! b) \<longrightarrow> 0 < strcmp key (ns ! a))"
  proof (intro allI impI conjI)
    fix a b assume ab: "0 \<le> a \<and> a < b \<and> b < length ns"
    have l: "strcmp (ns ! a) (ns ! b) < 0" using lt ab by simp
    show u: "strcmp key (ns ! b) < 0" if "strcmp key (ns ! a) \<le> 0"
      using l that strcmp_lt_trans [of key "ns ! a" "ns ! b"] strcmp_0 [of key "ns ! a"] by fastforce
    show "0 < strcmp key (ns ! a)" if "0 \<le> strcmp key (ns ! b)"
      using l that strcmp_lt_trans [of key "ns ! a" "ns ! b"] strcmp_0 [of key "ns ! a"] by fastforce
  qed
  obtain k where k: "bsearch_name ns key = Some k"
  proof (cases "bsearch_name ns key")
    case None
    have "strcmp key (ns ! i) \<noteq> 0"
      by (rule bsearch_loop_none [OF None [unfolded bsearch_name_def] m]) (use r in simp_all)
    then show ?thesis using r by (simp add: strcmp_0)
  qed blast
  then have "k < length ns" "ns ! k = key"
    using bsearch_loop_some [of "\<lambda>i. strcmp key (ns ! i)" 0 "length ns" k] by (simp_all add: bsearch_name_def strcmp_0)
  then have "\<not> i < k" "\<not> k < i" using r lt [of i k] lt [of k i] strcmp_0 [of key key] by auto
  then have "k = i" by simp
  then show "bsearch_name ns key = Some i" using k by simp
qed

text \<open>The type of a root element: \<open>find_se_name\<close> on the table.\<close>

lemma bsearch_types: "bsearch_name (take 321 se_names) key = Some i \<longleftrightarrow> i < 321 \<and> se_names ! i = key"
  using bsearch_name_sorted [OF sorted_names, of key i] length_se_names by auto

end
