(* ===== verification/Se_Structs_1.thy ===== *)
theory Se_Structs_1
  imports Prelude
begin

section \<open>The structures of IEEE 2030.5 objects, first part (core/se_types.h)\<close>

text \<open>
  The header as data, for the comparison with the table of the schema: a structure has its name, the macros
  for the bits of its flags, those in comments included, and its members in order. A type definition is an
  abbreviation. The records of \<open>Se_Types\<close> model the objects that the code works with.
\<close>

datatype c_type = U8 | U16 | U32 | U64 | I8 | I16 | I32 | I64 | Octets int | Chars int | Char_Ptr | List_Ptr
  | Struct string | Structs string int

text \<open>
  \<open>SE_x_exists (1 << b)\<close>, \<open>SE_x_true (1 << b)\<close>, and \<open>SE_x_count\<close> with its bit, mask and smallest number.
\<close>

datatype flag = Exists string int | Truth string int | Count string int int int

datatype c_struct = C_Struct (st_name: string) (st_flags: "flag list") (st_members: "(c_type \<times> string) list")

abbreviation (input) SE_UInt48_t where "SE_UInt48_t \<equiv> U64"
abbreviation (input) SE_UInt8_t where "SE_UInt8_t \<equiv> U8"
abbreviation (input) SE_PhaseCode_t where "SE_PhaseCode_t \<equiv> SE_UInt8_t"
abbreviation (input) SE_KindType_t where "SE_KindType_t \<equiv> SE_UInt8_t"
abbreviation (input) SE_UInt32_t where "SE_UInt32_t \<equiv> U32"
abbreviation (input) SE_FlowDirectionType_t where "SE_FlowDirectionType_t \<equiv> SE_UInt8_t"
abbreviation (input) SE_DataQualifierType_t where "SE_DataQualifierType_t \<equiv> SE_UInt8_t"
abbreviation (input) SE_CommodityType_t where "SE_CommodityType_t \<equiv> SE_UInt8_t"
abbreviation (input) SE_Int32_t where "SE_Int32_t \<equiv> I32"
abbreviation (input) SE_UomType_t where "SE_UomType_t \<equiv> SE_UInt8_t"
abbreviation (input) SE_Int8_t where "SE_Int8_t \<equiv> I8"
abbreviation (input) SE_PowerOfTenMultiplierType_t where "SE_PowerOfTenMultiplierType_t \<equiv> SE_Int8_t"
abbreviation (input) SE_AccumulationBehaviourType_t where "SE_AccumulationBehaviourType_t \<equiv> SE_UInt8_t"
abbreviation (input) SE_SubscribableType_t where "SE_SubscribableType_t \<equiv> SE_UInt8_t"
abbreviation (input) SE_Int48_t where "SE_Int48_t \<equiv> I64"
abbreviation (input) SE_TOUType_t where "SE_TOUType_t \<equiv> SE_UInt8_t"
abbreviation (input) SE_Int64_t where "SE_Int64_t \<equiv> I64"
abbreviation (input) SE_TimeType_t where "SE_TimeType_t \<equiv> SE_Int64_t"
abbreviation (input) SE_HexBinary16_t where "SE_HexBinary16_t \<equiv> Octets 2"
abbreviation (input) SE_ConsumptionBlockType_t where "SE_ConsumptionBlockType_t \<equiv> SE_UInt8_t"
abbreviation (input) SE_UInt16_t where "SE_UInt16_t \<equiv> U16"
abbreviation (input) SE_VersionType_t where "SE_VersionType_t \<equiv> SE_UInt16_t"
abbreviation (input) SE_String32_t where "SE_String32_t \<equiv> Chars 32"
abbreviation (input) SE_HexBinary128_t where "SE_HexBinary128_t \<equiv> Octets 16"
abbreviation (input) SE_mRIDType_t where "SE_mRIDType_t \<equiv> SE_HexBinary128_t"
abbreviation (input) SE_HexBinary160_t where "SE_HexBinary160_t \<equiv> Octets 20"
abbreviation (input) SE_ServiceKind_t where "SE_ServiceKind_t \<equiv> SE_UInt8_t"
abbreviation (input) SE_RoleFlagsType_t where "SE_RoleFlagsType_t \<equiv> SE_HexBinary16_t"
abbreviation (input) SE_UInt64_t where "SE_UInt64_t \<equiv> U64"
abbreviation (input) SE_HexBinary48_t where "SE_HexBinary48_t \<equiv> Octets 6"
abbreviation (input) SE_HexBinary8_t where "SE_HexBinary8_t \<equiv> U8"
abbreviation (input) SE_Int16_t where "SE_Int16_t \<equiv> I16"
abbreviation (input) SE_PerCent_t where "SE_PerCent_t \<equiv> SE_UInt16_t"
abbreviation (input) SE_String6_t where "SE_String6_t \<equiv> Chars 6"
abbreviation (input) SE_PrimacyType_t where "SE_PrimacyType_t \<equiv> SE_UInt8_t"
abbreviation (input) SE_DERUnitRefType_t where "SE_DERUnitRefType_t \<equiv> SE_UInt8_t"
abbreviation (input) SE_DERCurveType_t where "SE_DERCurveType_t \<equiv> SE_UInt8_t"
abbreviation (input) SE_SignedPerCent_t where "SE_SignedPerCent_t \<equiv> SE_Int16_t"
abbreviation (input) SE_OneHourRangeType_t where "SE_OneHourRangeType_t \<equiv> SE_Int16_t"
abbreviation (input) SE_String192_t where "SE_String192_t \<equiv> Chars 192"
abbreviation (input) SE_DERType_t where "SE_DERType_t \<equiv> SE_UInt8_t"
abbreviation (input) SE_HexBinary32_t where "SE_HexBinary32_t \<equiv> Octets 4"
abbreviation (input) SE_DERControlType_t where "SE_DERControlType_t \<equiv> SE_HexBinary32_t"

definition SE_UnitValueType_t :: c_struct where
  "SE_UnitValueType_t = C_Struct ''UnitValueType''
    []
    [(SE_PowerOfTenMultiplierType_t, ''multiplier''), (SE_UomType_t, ''unit''), (SE_Int32_t, ''value'')]"

definition SE_Resource_t :: c_struct where
  "SE_Resource_t = C_Struct ''Resource''
    [Exists ''description'' 0, Exists ''subscribable'' 1, Exists ''version'' 2, Exists ''lFDI'' 3,
     Exists ''TimeLink'' 4]
    [(U32, ''_flags''), (Char_Ptr, ''href'')]"

definition SE_ReadingType_t :: c_struct where
  "SE_ReadingType_t = C_Struct ''ReadingType''
    [Exists ''uom'' 5, Truth ''tieredConsumptionBlocks'' 6, Exists ''tieredConsumptionBlocks'' 7,
     Exists ''supplyLimit'' 8, Exists ''subIntervalLength'' 9, Exists ''powerOfTenMultiplier'' 10,
     Exists ''phase'' 11, Exists ''numberOfTouTiers'' 12, Exists ''numberOfConsumptionBlocks'' 13,
     Exists ''maxNumberOfIntervals'' 14, Exists ''intervalLength'' 15, Exists ''flowDirection'' 16,
     Exists ''dataQualifier'' 17, Exists ''conversionFactor'' 18, Exists ''commodity'' 19,
     Exists ''calorificValue'' 20, Exists ''accumulationBehaviour'' 21, Exists ''kind'' 22]
    [(U32, ''_flags''), (Char_Ptr, ''href''), (SE_AccumulationBehaviourType_t, ''accumulationBehaviour''),
     (Struct ''UnitValueType'', ''calorificValue''), (SE_CommodityType_t, ''commodity''),
     (Struct ''UnitValueType'', ''conversionFactor''), (SE_DataQualifierType_t, ''dataQualifier''),
     (SE_FlowDirectionType_t, ''flowDirection''), (SE_UInt32_t, ''intervalLength''), (SE_KindType_t, ''kind''),
     (SE_UInt8_t, ''maxNumberOfIntervals''), (SE_UInt8_t, ''numberOfConsumptionBlocks''),
     (SE_UInt8_t, ''numberOfTouTiers''), (SE_PhaseCode_t, ''phase''),
     (SE_PowerOfTenMultiplierType_t, ''powerOfTenMultiplier''), (SE_UInt32_t, ''subIntervalLength''),
     (SE_UInt48_t, ''supplyLimit''), (SE_UomType_t, ''uom'')]"

definition SE_DateTimeInterval_t :: c_struct where
  "SE_DateTimeInterval_t = C_Struct ''DateTimeInterval''
    []
    [(SE_UInt32_t, ''duration''), (SE_TimeType_t, ''start'')]"

definition SE_ReadingBase_t :: c_struct where
  "SE_ReadingBase_t = C_Struct ''ReadingBase''
    [Exists ''value'' 5, Exists ''touTier'' 6, Exists ''timePeriod'' 7, Exists ''qualityFlags'' 8,
     Exists ''consumptionBlock'' 9]
    [(U32, ''_flags''), (Char_Ptr, ''href''), (SE_ConsumptionBlockType_t, ''consumptionBlock''),
     (SE_HexBinary16_t, ''qualityFlags''), (Struct ''DateTimeInterval'', ''timePeriod''),
     (SE_TOUType_t, ''touTier''), (SE_Int48_t, ''value'')]"

definition SE_Reading_t :: c_struct where
  "SE_Reading_t = C_Struct ''Reading''
    [Exists ''subscribable'' 1, Exists ''value'' 5, Exists ''touTier'' 6, Exists ''timePeriod'' 7,
     Exists ''qualityFlags'' 8, Exists ''consumptionBlock'' 9, Exists ''localID'' 10]
    [(U32, ''_flags''), (Char_Ptr, ''href''), (SE_ConsumptionBlockType_t, ''consumptionBlock''),
     (SE_HexBinary16_t, ''qualityFlags''), (Struct ''DateTimeInterval'', ''timePeriod''),
     (SE_TOUType_t, ''touTier''), (SE_Int48_t, ''value''), (SE_SubscribableType_t, ''subscribable''),
     (SE_HexBinary16_t, ''localID'')]"

definition SE_IdentifiedObject_t :: c_struct where
  "SE_IdentifiedObject_t = C_Struct ''IdentifiedObject''
    [Exists ''description'' 0, Exists ''version'' 2]
    [(U32, ''_flags''), (Char_Ptr, ''href''), (SE_mRIDType_t, ''mRID''), (SE_String32_t, ''description''),
     (SE_VersionType_t, ''version'')]"

definition SE_ReadingSetBase_t :: c_struct where
  "SE_ReadingSetBase_t = C_Struct ''ReadingSetBase''
    [Exists ''description'' 0, Exists ''version'' 2]
    [(U32, ''_flags''), (Char_Ptr, ''href''), (SE_mRIDType_t, ''mRID''), (SE_String32_t, ''description''),
     (SE_VersionType_t, ''version''), (Struct ''DateTimeInterval'', ''timePeriod'')]"

definition SE_MirrorReadingSet_t :: c_struct where
  "SE_MirrorReadingSet_t = C_Struct ''MirrorReadingSet''
    [Exists ''description'' 0, Exists ''version'' 2]
    [(U32, ''_flags''), (Char_Ptr, ''href''), (SE_mRIDType_t, ''mRID''), (SE_String32_t, ''description''),
     (SE_VersionType_t, ''version''), (Struct ''DateTimeInterval'', ''timePeriod''), (List_Ptr, ''Reading'')]"

definition SE_MeterReadingBase_t :: c_struct where
  "SE_MeterReadingBase_t = C_Struct ''MeterReadingBase''
    [Exists ''description'' 0, Exists ''version'' 2]
    [(U32, ''_flags''), (Char_Ptr, ''href''), (SE_mRIDType_t, ''mRID''), (SE_String32_t, ''description''),
     (SE_VersionType_t, ''version'')]"

definition SE_MirrorMeterReading_t :: c_struct where
  "SE_MirrorMeterReading_t = C_Struct ''MirrorMeterReading''
    [Exists ''description'' 0, Exists ''version'' 2, Exists ''ReadingType'' 5, Exists ''Reading'' 6,
     Exists ''nextUpdateTime'' 7, Exists ''lastUpdateTime'' 8]
    [(U32, ''_flags''), (Char_Ptr, ''href''), (SE_mRIDType_t, ''mRID''), (SE_String32_t, ''description''),
     (SE_VersionType_t, ''version''), (SE_TimeType_t, ''lastUpdateTime''), (List_Ptr, ''MirrorReadingSet''),
     (SE_TimeType_t, ''nextUpdateTime''), (Struct ''Reading'', ''Reading''), (Struct ''ReadingType'', ''ReadingType'')]"

definition SE_UsagePointBase_t :: c_struct where
  "SE_UsagePointBase_t = C_Struct ''UsagePointBase''
    [Exists ''description'' 0, Exists ''version'' 2]
    [(U32, ''_flags''), (Char_Ptr, ''href''), (SE_mRIDType_t, ''mRID''), (SE_String32_t, ''description''),
     (SE_VersionType_t, ''version''), (SE_RoleFlagsType_t, ''roleFlags''),
     (SE_ServiceKind_t, ''serviceCategoryKind''), (SE_UInt8_t, ''status'')]"

definition SE_MirrorUsagePoint_t :: c_struct where
  "SE_MirrorUsagePoint_t = C_Struct ''MirrorUsagePoint''
    [Exists ''description'' 0, Exists ''version'' 2, Exists ''postRate'' 5]
    [(U32, ''_flags''), (Char_Ptr, ''href''), (SE_mRIDType_t, ''mRID''), (SE_String32_t, ''description''),
     (SE_VersionType_t, ''version''), (SE_RoleFlagsType_t, ''roleFlags''),
     (SE_ServiceKind_t, ''serviceCategoryKind''), (SE_UInt8_t, ''status''), (SE_HexBinary160_t, ''deviceLFDI''),
     (List_Ptr, ''MirrorMeterReading''), (SE_UInt32_t, ''postRate'')]"

definition SE_List_t :: c_struct where
  "SE_List_t = C_Struct ''List''
    []
    [(U32, ''_flags''), (Char_Ptr, ''href''), (SE_UInt16_t, ''all''), (SE_UInt8_t, ''results'')]"

definition SE_MirrorUsagePointList_t :: c_struct where
  "SE_MirrorUsagePointList_t = C_Struct ''MirrorUsagePointList''
    [Exists ''pollRate'' 17]
    [(U32, ''_flags''), (Char_Ptr, ''href''), (SE_UInt16_t, ''all''), (SE_UInt8_t, ''results''),
     (SE_UInt32_t, ''pollRate''), (List_Ptr, ''MirrorUsagePoint'')]"

definition SE_MirrorMeterReadingList_t :: c_struct where
  "SE_MirrorMeterReadingList_t = C_Struct ''MirrorMeterReadingList''
    []
    [(U32, ''_flags''), (Char_Ptr, ''href''), (SE_UInt16_t, ''all''), (SE_UInt8_t, ''results''),
     (List_Ptr, ''MirrorMeterReading'')]"

definition SE_Error_t :: c_struct where
  "SE_Error_t = C_Struct ''Error''
    [Exists ''maxRetryDuration'' 0]
    [(U32, ''_flags''), (SE_UInt16_t, ''maxRetryDuration''), (SE_UInt16_t, ''reasonCode'')]"

definition SE_RespondableResource_t :: c_struct where
  "SE_RespondableResource_t = C_Struct ''RespondableResource''
    [Exists ''description'' 0, Exists ''responseRequired'' 5]
    [(U32, ''_flags''), (Char_Ptr, ''href''), (Char_Ptr, ''replyTo''), (SE_HexBinary8_t, ''responseRequired'')]"

definition SE_RespondableIdentifiedObject_t :: c_struct where
  "SE_RespondableIdentifiedObject_t = C_Struct ''RespondableIdentifiedObject''
    [Exists ''description'' 0, Exists ''version'' 2, Exists ''responseRequired'' 5]
    [(U32, ''_flags''), (Char_Ptr, ''href''), (Char_Ptr, ''replyTo''), (SE_HexBinary8_t, ''responseRequired''),
     (SE_mRIDType_t, ''mRID''), (SE_String32_t, ''description''), (SE_VersionType_t, ''version'')]"

definition SE_Link_t :: c_struct where
  "SE_Link_t = C_Struct ''Link''
    []
    [(U32, ''_flags''), (Char_Ptr, ''href'')]"

definition SE_ListLink_t :: c_struct where
  "SE_ListLink_t = C_Struct ''ListLink''
    [Exists ''all'' 0]
    [(U32, ''_flags''), (Char_Ptr, ''href''), (SE_UInt16_t, ''all'')]"

definition SE_NotificationListLink_t :: c_struct where
  "SE_NotificationListLink_t = C_Struct ''NotificationListLink''
    [Exists ''all'' 0]
    [(U32, ''_flags''), (Char_Ptr, ''href''), (SE_UInt16_t, ''all'')]"

definition SE_MeterReadingLink_t :: c_struct where
  "SE_MeterReadingLink_t = C_Struct ''MeterReadingLink''
    []
    [(U32, ''_flags''), (Char_Ptr, ''href'')]"

definition SE_EndDeviceLink_t :: c_struct where
  "SE_EndDeviceLink_t = C_Struct ''EndDeviceLink''
    []
    [(U32, ''_flags''), (Char_Ptr, ''href'')]"

definition SE_DeviceCapabilityLink_t :: c_struct where
  "SE_DeviceCapabilityLink_t = C_Struct ''DeviceCapabilityLink''
    []
    [(U32, ''_flags''), (Char_Ptr, ''href'')]"

definition SE_DERProgramLink_t :: c_struct where
  "SE_DERProgramLink_t = C_Struct ''DERProgramLink''
    []
    [(U32, ''_flags''), (Char_Ptr, ''href'')]"

definition SE_DERLink_t :: c_struct where
  "SE_DERLink_t = C_Struct ''DERLink''
    []
    [(U32, ''_flags''), (Char_Ptr, ''href'')]"

definition SE_CustomerAccountLink_t :: c_struct where
  "SE_CustomerAccountLink_t = C_Struct ''CustomerAccountLink''
    []
    [(U32, ''_flags''), (Char_Ptr, ''href'')]"

definition SE_ActiveFlowReservationListLink_t :: c_struct where
  "SE_ActiveFlowReservationListLink_t = C_Struct ''ActiveFlowReservationListLink''
    [Exists ''all'' 0]
    [(U32, ''_flags''), (Char_Ptr, ''href''), (SE_UInt16_t, ''all'')]"

definition SE_UnsignedFixedPointType_t :: c_struct where
  "SE_UnsignedFixedPointType_t = C_Struct ''UnsignedFixedPointType''
    []
    [(SE_PowerOfTenMultiplierType_t, ''multiplier''), (SE_UInt16_t, ''value'')]"

definition SE_FixedPointType_t :: c_struct where
  "SE_FixedPointType_t = C_Struct ''FixedPointType''
    []
    [(SE_PowerOfTenMultiplierType_t, ''multiplier''), (SE_Int16_t, ''value'')]"

definition SE_StorageModeStatusType_t :: c_struct where
  "SE_StorageModeStatusType_t = C_Struct ''StorageModeStatusType''
    []
    [(SE_TimeType_t, ''dateTime''), (SE_UInt8_t, ''value'')]"

definition SE_StateOfChargeStatusType_t :: c_struct where
  "SE_StateOfChargeStatusType_t = C_Struct ''StateOfChargeStatusType''
    []
    [(SE_TimeType_t, ''dateTime''), (SE_PerCent_t, ''value'')]"

definition SE_OperationalModeStatusType_t :: c_struct where
  "SE_OperationalModeStatusType_t = C_Struct ''OperationalModeStatusType''
    []
    [(SE_TimeType_t, ''dateTime''), (SE_UInt8_t, ''value'')]"

definition SE_ManufacturerStatusType_t :: c_struct where
  "SE_ManufacturerStatusType_t = C_Struct ''ManufacturerStatusType''
    []
    [(SE_TimeType_t, ''dateTime''), (SE_String6_t, ''value'')]"

definition SE_LocalControlModeStatusType_t :: c_struct where
  "SE_LocalControlModeStatusType_t = C_Struct ''LocalControlModeStatusType''
    []
    [(SE_TimeType_t, ''dateTime''), (SE_UInt8_t, ''value'')]"

definition SE_InverterStatusType_t :: c_struct where
  "SE_InverterStatusType_t = C_Struct ''InverterStatusType''
    []
    [(SE_TimeType_t, ''dateTime''), (SE_UInt8_t, ''value'')]"

definition SE_ConnectStatusType_t :: c_struct where
  "SE_ConnectStatusType_t = C_Struct ''ConnectStatusType''
    []
    [(SE_TimeType_t, ''dateTime''), (SE_HexBinary8_t, ''value'')]"

definition SE_SubscribableResource_t :: c_struct where
  "SE_SubscribableResource_t = C_Struct ''SubscribableResource''
    [Exists ''description'' 0, Exists ''subscribable'' 1]
    [(U32, ''_flags''), (Char_Ptr, ''href''), (SE_SubscribableType_t, ''subscribable'')]"

definition SE_DERStatus_t :: c_struct where
  "SE_DERStatus_t = C_Struct ''DERStatus''
    [Exists ''subscribable'' 1, Exists ''storConnectStatus'' 5, Exists ''storageModeStatus'' 6,
     Exists ''stateOfChargeStatus'' 7, Exists ''operationalModeStatus'' 8, Exists ''manufacturerStatus'' 9,
     Exists ''localControlModeStatus'' 10, Exists ''inverterStatus'' 11, Exists ''genConnectStatus'' 12]
    [(U32, ''_flags''), (Char_Ptr, ''href''), (SE_SubscribableType_t, ''subscribable''),
     (Struct ''ConnectStatusType'', ''genConnectStatus''), (Struct ''InverterStatusType'', ''inverterStatus''),
     (Struct ''LocalControlModeStatusType'', ''localControlModeStatus''),
     (Struct ''ManufacturerStatusType'', ''manufacturerStatus''),
     (Struct ''OperationalModeStatusType'', ''operationalModeStatus''), (SE_TimeType_t, ''readingTime''),
     (Struct ''StateOfChargeStatusType'', ''stateOfChargeStatus''),
     (Struct ''StorageModeStatusType'', ''storageModeStatus''), (Struct ''ConnectStatusType'', ''storConnectStatus'')]"

definition SE_DERCurveListLink_t :: c_struct where
  "SE_DERCurveListLink_t = C_Struct ''DERCurveListLink''
    [Exists ''all'' 0]
    [(U32, ''_flags''), (Char_Ptr, ''href''), (SE_UInt16_t, ''all'')]"

definition SE_DERControlListLink_t :: c_struct where
  "SE_DERControlListLink_t = C_Struct ''DERControlListLink''
    [Exists ''all'' 0]
    [(U32, ''_flags''), (Char_Ptr, ''href''), (SE_UInt16_t, ''all'')]"

definition SE_DefaultDERControlLink_t :: c_struct where
  "SE_DefaultDERControlLink_t = C_Struct ''DefaultDERControlLink''
    []
    [(U32, ''_flags''), (Char_Ptr, ''href'')]"

definition SE_ActiveDERControlListLink_t :: c_struct where
  "SE_ActiveDERControlListLink_t = C_Struct ''ActiveDERControlListLink''
    [Exists ''all'' 0]
    [(U32, ''_flags''), (Char_Ptr, ''href''), (SE_UInt16_t, ''all'')]"

definition SE_SubscribableIdentifiedObject_t :: c_struct where
  "SE_SubscribableIdentifiedObject_t = C_Struct ''SubscribableIdentifiedObject''
    [Exists ''description'' 0, Exists ''subscribable'' 1, Exists ''version'' 2]
    [(U32, ''_flags''), (Char_Ptr, ''href''), (SE_SubscribableType_t, ''subscribable''), (SE_mRIDType_t, ''mRID''),
     (SE_String32_t, ''description''), (SE_VersionType_t, ''version'')]"

definition SE_DERProgram_t :: c_struct where
  "SE_DERProgram_t = C_Struct ''DERProgram''
    [Exists ''description'' 0, Exists ''subscribable'' 1, Exists ''version'' 2, Exists ''DERCurveListLink'' 5,
     Exists ''DERControlListLink'' 6, Exists ''DefaultDERControlLink'' 7, Exists ''ActiveDERControlListLink'' 8]
    [(U32, ''_flags''), (Char_Ptr, ''href''), (SE_SubscribableType_t, ''subscribable''), (SE_mRIDType_t, ''mRID''),
     (SE_String32_t, ''description''), (SE_VersionType_t, ''version''),
     (Struct ''ActiveDERControlListLink'', ''ActiveDERControlListLink''),
     (Struct ''DefaultDERControlLink'', ''DefaultDERControlLink''),
     (Struct ''DERControlListLink'', ''DERControlListLink''), (Struct ''DERCurveListLink'', ''DERCurveListLink''),
     (SE_PrimacyType_t, ''primacy'')]"

definition SE_SubscribableList_t :: c_struct where
  "SE_SubscribableList_t = C_Struct ''SubscribableList''
    [Exists ''subscribable'' 1]
    [(U32, ''_flags''), (Char_Ptr, ''href''), (SE_SubscribableType_t, ''subscribable''), (SE_UInt16_t, ''all''),
     (SE_UInt8_t, ''results'')]"

definition SE_DERProgramList_t :: c_struct where
  "SE_DERProgramList_t = C_Struct ''DERProgramList''
    [Exists ''subscribable'' 1, Exists ''pollRate'' 17]
    [(U32, ''_flags''), (Char_Ptr, ''href''), (SE_SubscribableType_t, ''subscribable''), (SE_UInt16_t, ''all''),
     (SE_UInt8_t, ''results''), (SE_UInt32_t, ''pollRate''), (List_Ptr, ''DERProgram'')]"

definition SE_CurveData_t :: c_struct where
  "SE_CurveData_t = C_Struct ''CurveData''
    []
    [(SE_Int32_t, ''xvalue''), (SE_Int32_t, ''yvalue'')]"

definition SE_DERCurve_t :: c_struct where
  "SE_DERCurve_t = C_Struct ''DERCurve''
    [Exists ''description'' 0, Exists ''version'' 2, Exists ''rampPT1Tms'' 5, Exists ''rampIncTms'' 6,
     Exists ''rampDecTms'' 7, Exists ''openLoopTms'' 8, Count ''CurveData'' 9 15 1]
    [(U32, ''_flags''), (Char_Ptr, ''href''), (SE_mRIDType_t, ''mRID''), (SE_String32_t, ''description''),
     (SE_VersionType_t, ''version''), (SE_TimeType_t, ''creationTime''), (Structs ''CurveData'' 10, ''CurveData''),
     (SE_DERCurveType_t, ''curveType''), (SE_UInt16_t, ''openLoopTms''), (SE_UInt16_t, ''rampDecTms''),
     (SE_UInt16_t, ''rampIncTms''), (SE_UInt16_t, ''rampPT1Tms''), (SE_PowerOfTenMultiplierType_t, ''xMultiplier''),
     (SE_PowerOfTenMultiplierType_t, ''yMultiplier''), (SE_DERUnitRefType_t, ''yRefType'')]"

definition SE_DERCurveList_t :: c_struct where
  "SE_DERCurveList_t = C_Struct ''DERCurveList''
    []
    [(U32, ''_flags''), (Char_Ptr, ''href''), (SE_UInt16_t, ''all''), (SE_UInt8_t, ''results''),
     (List_Ptr, ''DERCurve'')]"

definition SE_ActivePower_t :: c_struct where
  "SE_ActivePower_t = C_Struct ''ActivePower''
    []
    [(SE_PowerOfTenMultiplierType_t, ''multiplier''), (SE_Int16_t, ''value'')]"

definition SE_ReactivePower_t :: c_struct where
  "SE_ReactivePower_t = C_Struct ''ReactivePower''
    []
    [(SE_PowerOfTenMultiplierType_t, ''multiplier''), (SE_Int16_t, ''value'')]"

definition SE_DERCurveLink_t :: c_struct where
  "SE_DERCurveLink_t = C_Struct ''DERCurveLink''
    []
    [(U32, ''_flags''), (Char_Ptr, ''href'')]"

definition SE_FreqDroopType_t :: c_struct where
  "SE_FreqDroopType_t = C_Struct ''FreqDroopType''
    []
    [(SE_UInt32_t, ''dBOF''), (SE_UInt32_t, ''dBUF''), (SE_UInt16_t, ''kOF''), (SE_UInt16_t, ''kUF''),
     (SE_UInt16_t, ''openLoopTms'')]"

definition SE_FixedVar_t :: c_struct where
  "SE_FixedVar_t = C_Struct ''FixedVar''
    []
    [(SE_DERUnitRefType_t, ''refType''), (SE_SignedPerCent_t, ''value'')]"

definition SE_PowerFactor_t :: c_struct where
  "SE_PowerFactor_t = C_Struct ''PowerFactor''
    []
    [(SE_Int16_t, ''displacement''), (SE_PowerOfTenMultiplierType_t, ''multiplier'')]"

definition SE_DERControlBase_t :: c_struct where
  "SE_DERControlBase_t = C_Struct ''DERControlBase''
    [Exists ''rampTms'' 0, Exists ''opModWattVar'' 1, Exists ''opModWattPF'' 2, Exists ''opModVoltWatt'' 3,
     Exists ''opModVoltVar'' 4, Exists ''opModTargetW'' 5, Exists ''opModTargetVar'' 6, Exists ''opModMaxLimW'' 7,
     Exists ''opModLVRTMustTrip'' 8, Exists ''opModLVRTMomentaryCessation'' 9, Exists ''opModLFRTMustTrip'' 10,
     Exists ''opModHVRTMustTrip'' 11, Exists ''opModHVRTMomentaryCessation'' 12, Exists ''opModHFRTMustTrip'' 13,
     Exists ''opModFreqWatt'' 14, Exists ''opModFreqDroop'' 15, Exists ''opModFixedW'' 16,
     Exists ''opModFixedVar'' 17, Exists ''opModFixedPF'' 18, Truth ''opModEnergize'' 19,
     Exists ''opModEnergize'' 20, Truth ''opModConnect'' 21, Exists ''opModConnect'' 22]
    [(U32, ''_flags''), (Struct ''PowerFactor'', ''opModFixedPF''), (Struct ''FixedVar'', ''opModFixedVar''),
     (SE_SignedPerCent_t, ''opModFixedW''), (Struct ''FreqDroopType'', ''opModFreqDroop''),
     (Struct ''DERCurveLink'', ''opModFreqWatt''), (Struct ''DERCurveLink'', ''opModHFRTMustTrip''),
     (Struct ''DERCurveLink'', ''opModHVRTMomentaryCessation''), (Struct ''DERCurveLink'', ''opModHVRTMustTrip''),
     (Struct ''DERCurveLink'', ''opModLFRTMustTrip''), (Struct ''DERCurveLink'', ''opModLVRTMomentaryCessation''),
     (Struct ''DERCurveLink'', ''opModLVRTMustTrip''), (SE_PerCent_t, ''opModMaxLimW''),
     (Struct ''ReactivePower'', ''opModTargetVar''), (Struct ''ActivePower'', ''opModTargetW''),
     (Struct ''DERCurveLink'', ''opModVoltVar''), (Struct ''DERCurveLink'', ''opModVoltWatt''),
     (Struct ''DERCurveLink'', ''opModWattPF''), (Struct ''DERCurveLink'', ''opModWattVar''),
     (SE_UInt16_t, ''rampTms'')]"

definition SE_EventStatus_t :: c_struct where
  "SE_EventStatus_t = C_Struct ''EventStatus''
    [Exists ''reason'' 0, Exists ''potentiallySupersededTime'' 1, Truth ''potentiallySuperseded'' 2]
    [(U32, ''_flags''), (SE_UInt8_t, ''currentStatus''), (SE_TimeType_t, ''dateTime''),
     (SE_TimeType_t, ''potentiallySupersededTime''), (SE_String192_t, ''reason'')]"

definition SE_RespondableSubscribableIdentifiedObject_t :: c_struct where
  "SE_RespondableSubscribableIdentifiedObject_t = C_Struct ''RespondableSubscribableIdentifiedObject''
    [Exists ''description'' 0, Exists ''subscribable'' 1, Exists ''version'' 2, Exists ''responseRequired'' 5]
    [(U32, ''_flags''), (Char_Ptr, ''href''), (Char_Ptr, ''replyTo''), (SE_HexBinary8_t, ''responseRequired''),
     (SE_SubscribableType_t, ''subscribable''), (SE_mRIDType_t, ''mRID''), (SE_String32_t, ''description''),
     (SE_VersionType_t, ''version'')]"

definition SE_Event_t :: c_struct where
  "SE_Event_t = C_Struct ''Event''
    [Exists ''description'' 0, Exists ''subscribable'' 1, Exists ''version'' 2, Exists ''responseRequired'' 5]
    [(U32, ''_flags''), (Char_Ptr, ''href''), (Char_Ptr, ''replyTo''), (SE_HexBinary8_t, ''responseRequired''),
     (SE_SubscribableType_t, ''subscribable''), (SE_mRIDType_t, ''mRID''), (SE_String32_t, ''description''),
     (SE_VersionType_t, ''version''), (SE_TimeType_t, ''creationTime''), (Struct ''EventStatus'', ''EventStatus''),
     (Struct ''DateTimeInterval'', ''interval'')]"

definition SE_RandomizableEvent_t :: c_struct where
  "SE_RandomizableEvent_t = C_Struct ''RandomizableEvent''
    [Exists ''description'' 0, Exists ''subscribable'' 1, Exists ''version'' 2, Exists ''responseRequired'' 5,
     Exists ''randomizeStart'' 6, Exists ''randomizeDuration'' 7]
    [(U32, ''_flags''), (Char_Ptr, ''href''), (Char_Ptr, ''replyTo''), (SE_HexBinary8_t, ''responseRequired''),
     (SE_SubscribableType_t, ''subscribable''), (SE_mRIDType_t, ''mRID''), (SE_String32_t, ''description''),
     (SE_VersionType_t, ''version''), (SE_TimeType_t, ''creationTime''), (Struct ''EventStatus'', ''EventStatus''),
     (Struct ''DateTimeInterval'', ''interval''), (SE_OneHourRangeType_t, ''randomizeDuration''),
     (SE_OneHourRangeType_t, ''randomizeStart'')]"

definition SE_DERControl_t :: c_struct where
  "SE_DERControl_t = C_Struct ''DERControl''
    [Exists ''description'' 0, Exists ''subscribable'' 1, Exists ''version'' 2, Exists ''responseRequired'' 5,
     Exists ''randomizeStart'' 6, Exists ''randomizeDuration'' 7]
    [(U32, ''_flags''), (Char_Ptr, ''href''), (Char_Ptr, ''replyTo''), (SE_HexBinary8_t, ''responseRequired''),
     (SE_SubscribableType_t, ''subscribable''), (SE_mRIDType_t, ''mRID''), (SE_String32_t, ''description''),
     (SE_VersionType_t, ''version''), (SE_TimeType_t, ''creationTime''), (Struct ''EventStatus'', ''EventStatus''),
     (Struct ''DateTimeInterval'', ''interval''), (SE_OneHourRangeType_t, ''randomizeDuration''),
     (SE_OneHourRangeType_t, ''randomizeStart''), (Struct ''DERControlBase'', ''DERControlBase'')]"

definition SE_DERControlList_t :: c_struct where
  "SE_DERControlList_t = C_Struct ''DERControlList''
    [Exists ''subscribable'' 1]
    [(U32, ''_flags''), (Char_Ptr, ''href''), (SE_SubscribableType_t, ''subscribable''), (SE_UInt16_t, ''all''),
     (SE_UInt8_t, ''results''), (List_Ptr, ''DERControl'')]"

definition SE_WattHour_t :: c_struct where
  "SE_WattHour_t = C_Struct ''WattHour''
    []
    [(SE_PowerOfTenMultiplierType_t, ''multiplier''), (SE_UInt16_t, ''value'')]"

definition SE_ApparentPower_t :: c_struct where
  "SE_ApparentPower_t = C_Struct ''ApparentPower''
    []
    [(SE_PowerOfTenMultiplierType_t, ''multiplier''), (SE_UInt16_t, ''value'')]"

definition SE_AmpereHour_t :: c_struct where
  "SE_AmpereHour_t = C_Struct ''AmpereHour''
    []
    [(SE_PowerOfTenMultiplierType_t, ''multiplier''), (SE_UInt16_t, ''value'')]"

definition SE_CurrentRMS_t :: c_struct where
  "SE_CurrentRMS_t = C_Struct ''CurrentRMS''
    []
    [(SE_PowerOfTenMultiplierType_t, ''multiplier''), (SE_UInt16_t, ''value'')]"

definition SE_DERCapability_t :: c_struct where
  "SE_DERCapability_t = C_Struct ''DERCapability''
    [Exists ''rtgWh'' 5, Exists ''rtgVarNeg'' 6, Exists ''rtgVar'' 7, Exists ''rtgVA'' 8,
     Exists ''rtgUnderExcitedW'' 9, Exists ''rtgUnderExcitedPF'' 10, Exists ''rtgOverExcitedW'' 11,
     Exists ''rtgOverExcitedPF'' 12, Exists ''rtgNormalCategory'' 13, Exists ''rtgMinPFNeg'' 14,
     Exists ''rtgMinPF'' 15, Exists ''rtgMaxDischargeRateW'' 16, Exists ''rtgMaxDischargeRateVA'' 17,
     Exists ''rtgMaxChargeRateW'' 18, Exists ''rtgMaxChargeRateVA'' 19, Exists ''rtgAh'' 20,
     Exists ''rtgAbnormalCategory'' 21]
    [(U32, ''_flags''), (Char_Ptr, ''href''), (SE_DERControlType_t, ''modesSupported''),
     (Struct ''CurrentRMS'', ''rtgA''), (SE_UInt8_t, ''rtgAbnormalCategory''), (Struct ''AmpereHour'', ''rtgAh''),
     (Struct ''ApparentPower'', ''rtgMaxChargeRateVA''), (Struct ''ActivePower'', ''rtgMaxChargeRateW''),
     (Struct ''ApparentPower'', ''rtgMaxDischargeRateVA''), (Struct ''ActivePower'', ''rtgMaxDischargeRateW''),
     (Struct ''PowerFactor'', ''rtgMinPF''), (Struct ''PowerFactor'', ''rtgMinPFNeg''),
     (SE_UInt8_t, ''rtgNormalCategory''), (Struct ''PowerFactor'', ''rtgOverExcitedPF''),
     (Struct ''ActivePower'', ''rtgOverExcitedW''), (Struct ''PowerFactor'', ''rtgUnderExcitedPF''),
     (Struct ''ActivePower'', ''rtgUnderExcitedW''), (Struct ''ApparentPower'', ''rtgVA''),
     (Struct ''ReactivePower'', ''rtgVar''), (Struct ''ReactivePower'', ''rtgVarNeg''),
     (Struct ''ActivePower'', ''rtgW''), (Struct ''WattHour'', ''rtgWh''), (SE_DERType_t, ''type'')]"

definition SE_DERAvailability_t :: c_struct where
  "SE_DERAvailability_t = C_Struct ''DERAvailability''
    [Exists ''subscribable'' 1, Exists ''statWAvail'' 5, Exists ''statVarAvail'' 6, Exists ''reservePercent'' 7,
     Exists ''reserveChargePercent'' 8, Exists ''maxChargeDuration'' 9, Exists ''availabilityDuration'' 10]
    [(U32, ''_flags''), (Char_Ptr, ''href''), (SE_SubscribableType_t, ''subscribable''),
     (SE_UInt32_t, ''availabilityDuration''), (SE_UInt32_t, ''maxChargeDuration''), (SE_TimeType_t, ''readingTime''),
     (SE_PerCent_t, ''reserveChargePercent''), (SE_PerCent_t, ''reservePercent''),
     (Struct ''ReactivePower'', ''statVarAvail''), (Struct ''ActivePower'', ''statWAvail'')]"

end
