(* ===== verification/Se_Structs_2.thy ===== *)
theory Se_Structs_2
  imports Se_Structs_1
begin

section \<open>The structures of IEEE 2030.5 objects, second part (core/se_types.h)\<close>

text \<open>The structures of lines 830 to 1583 of the header.\<close>

abbreviation (input) SE_ServiceStatusType_t where "SE_ServiceStatusType_t \<equiv> SE_UInt8_t"
abbreviation (input) SE_CreditTypeType_t where "SE_CreditTypeType_t \<equiv> SE_UInt8_t"
abbreviation (input) SE_PrepayModeType_t where "SE_PrepayModeType_t \<equiv> SE_UInt8_t"
abbreviation (input) SE_CurrencyCode_t where "SE_CurrencyCode_t \<equiv> SE_UInt16_t"
abbreviation (input) SE_CreditStatusType_t where "SE_CreditStatusType_t \<equiv> SE_UInt8_t"
abbreviation (input) SE_String42_t where "SE_String42_t \<equiv> Chars 42"
abbreviation (input) SE_String20_t where "SE_String20_t \<equiv> Chars 20"
abbreviation (input) SE_ChargeKind_t where "SE_ChargeKind_t \<equiv> SE_UInt8_t"

definition SE_VoltageRMS_t :: c_struct where
  "SE_VoltageRMS_t = C_Struct ''VoltageRMS''
    []
    [(SE_PowerOfTenMultiplierType_t, ''multiplier''), (SE_UInt16_t, ''value'')]"

definition SE_DERSettings_t :: c_struct where
  "SE_DERSettings_t = C_Struct ''DERSettings''
    [Exists ''subscribable'' 1, Exists ''setVRefOfs'' 5, Exists ''setVRef'' 6, Exists ''setMinPFNeg'' 7,
     Exists ''setMinPF'' 8, Exists ''setMaxWh'' 9, Exists ''setMaxVarNeg'' 10, Exists ''setMaxVar'' 11,
     Exists ''setMaxVA'' 12, Exists ''setMaxDischargeRateW'' 13, Exists ''setMaxDischargeRateVA'' 14,
     Exists ''setMaxChargeRateW'' 15, Exists ''setMaxChargeRateVA'' 16, Exists ''setMaxAh'' 17,
     Exists ''setMaxA'' 18, Exists ''modesEnabled'' 19, Exists ''setESDelay'' 20, Exists ''setESHighFreq'' 21,
     Exists ''setESHighVolt'' 22, Exists ''setESLowFreq'' 23, Exists ''setESLowVolt'' 24,
     Exists ''setESRandomDelay'' 25, Exists ''setSoftGradW'' 26]
    [(U32, ''_flags''), (Char_Ptr, ''href''), (SE_SubscribableType_t, ''subscribable''),
     (SE_DERControlType_t, ''modesEnabled''), (SE_UInt16_t, ''setESDelay''), (SE_UInt16_t, ''setESHighFreq''),
     (SE_Int16_t, ''setESHighVolt''), (SE_UInt16_t, ''setESLowFreq''), (SE_Int16_t, ''setESLowVolt''),
     (SE_UInt16_t, ''setESRandomDelay''), (SE_UInt16_t, ''setGradW''), (Struct ''CurrentRMS'', ''setMaxA''),
     (Struct ''AmpereHour'', ''setMaxAh''), (Struct ''ApparentPower'', ''setMaxChargeRateVA''),
     (Struct ''ActivePower'', ''setMaxChargeRateW''), (Struct ''ApparentPower'', ''setMaxDischargeRateVA''),
     (Struct ''ActivePower'', ''setMaxDischargeRateW''), (Struct ''ApparentPower'', ''setMaxVA''),
     (Struct ''ReactivePower'', ''setMaxVar''), (Struct ''ReactivePower'', ''setMaxVarNeg''),
     (Struct ''ActivePower'', ''setMaxW''), (Struct ''WattHour'', ''setMaxWh''),
     (Struct ''PowerFactor'', ''setMinPF''), (Struct ''PowerFactor'', ''setMinPFNeg''),
     (SE_UInt16_t, ''setSoftGradW''), (Struct ''VoltageRMS'', ''setVRef''), (Struct ''VoltageRMS'', ''setVRefOfs''),
     (SE_TimeType_t, ''updatedTime'')]"

definition SE_DERStatusLink_t :: c_struct where
  "SE_DERStatusLink_t = C_Struct ''DERStatusLink''
    []
    [(U32, ''_flags''), (Char_Ptr, ''href'')]"

definition SE_DERSettingsLink_t :: c_struct where
  "SE_DERSettingsLink_t = C_Struct ''DERSettingsLink''
    []
    [(U32, ''_flags''), (Char_Ptr, ''href'')]"

definition SE_DERCapabilityLink_t :: c_struct where
  "SE_DERCapabilityLink_t = C_Struct ''DERCapabilityLink''
    []
    [(U32, ''_flags''), (Char_Ptr, ''href'')]"

definition SE_DERAvailabilityLink_t :: c_struct where
  "SE_DERAvailabilityLink_t = C_Struct ''DERAvailabilityLink''
    []
    [(U32, ''_flags''), (Char_Ptr, ''href'')]"

definition SE_CurrentDERProgramLink_t :: c_struct where
  "SE_CurrentDERProgramLink_t = C_Struct ''CurrentDERProgramLink''
    []
    [(U32, ''_flags''), (Char_Ptr, ''href'')]"

definition SE_AssociatedUsagePointLink_t :: c_struct where
  "SE_AssociatedUsagePointLink_t = C_Struct ''AssociatedUsagePointLink''
    []
    [(U32, ''_flags''), (Char_Ptr, ''href'')]"

definition SE_AssociatedDERProgramListLink_t :: c_struct where
  "SE_AssociatedDERProgramListLink_t = C_Struct ''AssociatedDERProgramListLink''
    [Exists ''all'' 0]
    [(U32, ''_flags''), (Char_Ptr, ''href''), (SE_UInt16_t, ''all'')]"

definition SE_DER_t :: c_struct where
  "SE_DER_t = C_Struct ''DER''
    [Exists ''subscribable'' 1, Exists ''DERStatusLink'' 5, Exists ''DERSettingsLink'' 6,
     Exists ''DERCapabilityLink'' 7, Exists ''DERAvailabilityLink'' 8, Exists ''CurrentDERProgramLink'' 9,
     Exists ''AssociatedUsagePointLink'' 10, Exists ''AssociatedDERProgramListLink'' 11]
    [(U32, ''_flags''), (Char_Ptr, ''href''), (SE_SubscribableType_t, ''subscribable''),
     (Struct ''AssociatedDERProgramListLink'', ''AssociatedDERProgramListLink''),
     (Struct ''AssociatedUsagePointLink'', ''AssociatedUsagePointLink''),
     (Struct ''CurrentDERProgramLink'', ''CurrentDERProgramLink''),
     (Struct ''DERAvailabilityLink'', ''DERAvailabilityLink''),
     (Struct ''DERCapabilityLink'', ''DERCapabilityLink''), (Struct ''DERSettingsLink'', ''DERSettingsLink''),
     (Struct ''DERStatusLink'', ''DERStatusLink'')]"

definition SE_DERList_t :: c_struct where
  "SE_DERList_t = C_Struct ''DERList''
    [Exists ''pollRate'' 17]
    [(U32, ''_flags''), (Char_Ptr, ''href''), (SE_UInt16_t, ''all''), (SE_UInt8_t, ''results''),
     (SE_UInt32_t, ''pollRate''), (List_Ptr, ''DER'')]"

definition SE_DefaultDERControl_t :: c_struct where
  "SE_DefaultDERControl_t = C_Struct ''DefaultDERControl''
    [Exists ''description'' 0, Exists ''subscribable'' 1, Exists ''version'' 2, Exists ''setGradW'' 5,
     Exists ''setESDelay'' 20, Exists ''setESHighFreq'' 21, Exists ''setESHighVolt'' 22, Exists ''setESLowFreq'' 23,
     Exists ''setESLowVolt'' 24, Exists ''setESRandomDelay'' 25, Exists ''setSoftGradW'' 26]
    [(U32, ''_flags''), (Char_Ptr, ''href''), (SE_SubscribableType_t, ''subscribable''), (SE_mRIDType_t, ''mRID''),
     (SE_String32_t, ''description''), (SE_VersionType_t, ''version''),
     (Struct ''DERControlBase'', ''DERControlBase''), (SE_UInt16_t, ''setESDelay''),
     (SE_UInt16_t, ''setESHighFreq''), (SE_Int16_t, ''setESHighVolt''), (SE_UInt16_t, ''setESLowFreq''),
     (SE_Int16_t, ''setESLowVolt''), (SE_UInt16_t, ''setESRandomDelay''), (SE_UInt16_t, ''setGradW''),
     (SE_UInt16_t, ''setSoftGradW'')]"

definition SE_SignedRealEnergy_t :: c_struct where
  "SE_SignedRealEnergy_t = C_Struct ''SignedRealEnergy''
    []
    [(SE_PowerOfTenMultiplierType_t, ''multiplier''), (SE_Int48_t, ''value'')]"

definition SE_FlowReservationResponse_t :: c_struct where
  "SE_FlowReservationResponse_t = C_Struct ''FlowReservationResponse''
    [Exists ''description'' 0, Exists ''subscribable'' 1, Exists ''version'' 2, Exists ''responseRequired'' 5]
    [(U32, ''_flags''), (Char_Ptr, ''href''), (Char_Ptr, ''replyTo''), (SE_HexBinary8_t, ''responseRequired''),
     (SE_SubscribableType_t, ''subscribable''), (SE_mRIDType_t, ''mRID''), (SE_String32_t, ''description''),
     (SE_VersionType_t, ''version''), (SE_TimeType_t, ''creationTime''), (Struct ''EventStatus'', ''EventStatus''),
     (Struct ''DateTimeInterval'', ''interval''), (Struct ''SignedRealEnergy'', ''energyAvailable''),
     (Struct ''ActivePower'', ''powerAvailable''), (SE_mRIDType_t, ''subject'')]"

definition SE_FlowReservationResponseList_t :: c_struct where
  "SE_FlowReservationResponseList_t = C_Struct ''FlowReservationResponseList''
    [Exists ''subscribable'' 1, Exists ''pollRate'' 17]
    [(U32, ''_flags''), (Char_Ptr, ''href''), (SE_SubscribableType_t, ''subscribable''), (SE_UInt16_t, ''all''),
     (SE_UInt8_t, ''results''), (SE_UInt32_t, ''pollRate''), (List_Ptr, ''FlowReservationResponse'')]"

definition SE_RequestStatus_t :: c_struct where
  "SE_RequestStatus_t = C_Struct ''RequestStatus''
    []
    [(SE_TimeType_t, ''dateTime''), (SE_UInt8_t, ''requestStatus'')]"

definition SE_FlowReservationRequest_t :: c_struct where
  "SE_FlowReservationRequest_t = C_Struct ''FlowReservationRequest''
    [Exists ''description'' 0, Exists ''version'' 2, Exists ''durationRequested'' 5]
    [(U32, ''_flags''), (Char_Ptr, ''href''), (SE_mRIDType_t, ''mRID''), (SE_String32_t, ''description''),
     (SE_VersionType_t, ''version''), (SE_TimeType_t, ''creationTime''), (SE_UInt16_t, ''durationRequested''),
     (Struct ''SignedRealEnergy'', ''energyRequested''), (Struct ''DateTimeInterval'', ''intervalRequested''),
     (Struct ''ActivePower'', ''powerRequested''), (Struct ''RequestStatus'', ''RequestStatus'')]"

definition SE_FlowReservationRequestList_t :: c_struct where
  "SE_FlowReservationRequestList_t = C_Struct ''FlowReservationRequestList''
    [Exists ''pollRate'' 17]
    [(U32, ''_flags''), (Char_Ptr, ''href''), (SE_UInt16_t, ''all''), (SE_UInt8_t, ''results''),
     (SE_UInt32_t, ''pollRate''), (List_Ptr, ''FlowReservationRequest'')]"

definition SE_SupplyInterruptionOverride_t :: c_struct where
  "SE_SupplyInterruptionOverride_t = C_Struct ''SupplyInterruptionOverride''
    [Exists ''description'' 0]
    [(U32, ''_flags''), (Char_Ptr, ''href''), (SE_String32_t, ''description''),
     (Struct ''DateTimeInterval'', ''interval'')]"

definition SE_SupplyInterruptionOverrideList_t :: c_struct where
  "SE_SupplyInterruptionOverrideList_t = C_Struct ''SupplyInterruptionOverrideList''
    []
    [(U32, ''_flags''), (Char_Ptr, ''href''), (SE_UInt16_t, ''all''), (SE_UInt8_t, ''results''),
     (List_Ptr, ''SupplyInterruptionOverride'')]"

definition SE_ServiceChange_t :: c_struct where
  "SE_ServiceChange_t = C_Struct ''ServiceChange''
    []
    [(SE_ServiceStatusType_t, ''newStatus''), (SE_TimeType_t, ''startTime'')]"

definition SE_CreditTypeChange_t :: c_struct where
  "SE_CreditTypeChange_t = C_Struct ''CreditTypeChange''
    []
    [(SE_CreditTypeType_t, ''newType''), (SE_TimeType_t, ''startTime'')]"

definition SE_PrepayOperationStatus_t :: c_struct where
  "SE_PrepayOperationStatus_t = C_Struct ''PrepayOperationStatus''
    [Exists ''serviceChange'' 5, Exists ''creditTypeInUse'' 6, Exists ''creditTypeChange'' 7]
    [(U32, ''_flags''), (Char_Ptr, ''href''), (Struct ''CreditTypeChange'', ''creditTypeChange''),
     (SE_CreditTypeType_t, ''creditTypeInUse''), (Struct ''ServiceChange'', ''serviceChange''),
     (SE_ServiceStatusType_t, ''serviceStatus'')]"

definition SE_UsagePointLink_t :: c_struct where
  "SE_UsagePointLink_t = C_Struct ''UsagePointLink''
    []
    [(U32, ''_flags''), (Char_Ptr, ''href'')]"

definition SE_MeterReadingListLink_t :: c_struct where
  "SE_MeterReadingListLink_t = C_Struct ''MeterReadingListLink''
    [Exists ''all'' 0]
    [(U32, ''_flags''), (Char_Ptr, ''href''), (SE_UInt16_t, ''all'')]"

definition SE_UsagePoint_t :: c_struct where
  "SE_UsagePoint_t = C_Struct ''UsagePoint''
    [Exists ''description'' 0, Exists ''version'' 2, Exists ''MeterReadingListLink'' 5, Exists ''deviceLFDI'' 6]
    [(U32, ''_flags''), (Char_Ptr, ''href''), (SE_mRIDType_t, ''mRID''), (SE_String32_t, ''description''),
     (SE_VersionType_t, ''version''), (SE_RoleFlagsType_t, ''roleFlags''),
     (SE_ServiceKind_t, ''serviceCategoryKind''), (SE_UInt8_t, ''status''), (SE_HexBinary160_t, ''deviceLFDI''),
     (Struct ''MeterReadingListLink'', ''MeterReadingListLink'')]"

definition SE_SupplyInterruptionOverrideListLink_t :: c_struct where
  "SE_SupplyInterruptionOverrideListLink_t = C_Struct ''SupplyInterruptionOverrideListLink''
    [Exists ''all'' 0]
    [(U32, ''_flags''), (Char_Ptr, ''href''), (SE_UInt16_t, ''all'')]"

definition SE_PrepayOperationStatusLink_t :: c_struct where
  "SE_PrepayOperationStatusLink_t = C_Struct ''PrepayOperationStatusLink''
    []
    [(U32, ''_flags''), (Char_Ptr, ''href'')]"

definition SE_CreditRegisterListLink_t :: c_struct where
  "SE_CreditRegisterListLink_t = C_Struct ''CreditRegisterListLink''
    [Exists ''all'' 0]
    [(U32, ''_flags''), (Char_Ptr, ''href''), (SE_UInt16_t, ''all'')]"

definition SE_RealEnergy_t :: c_struct where
  "SE_RealEnergy_t = C_Struct ''RealEnergy''
    []
    [(SE_PowerOfTenMultiplierType_t, ''multiplier''), (SE_UInt48_t, ''value'')]"

definition SE_AccountingUnit_t :: c_struct where
  "SE_AccountingUnit_t = C_Struct ''AccountingUnit''
    [Exists ''energyUnit'' 0]
    [(U32, ''_flags''), (Struct ''RealEnergy'', ''energyUnit''), (SE_CurrencyCode_t, ''monetaryUnit''),
     (SE_PowerOfTenMultiplierType_t, ''multiplier''), (SE_Int32_t, ''value'')]"

definition SE_ActiveSupplyInterruptionOverrideListLink_t :: c_struct where
  "SE_ActiveSupplyInterruptionOverrideListLink_t = C_Struct ''ActiveSupplyInterruptionOverrideListLink''
    [Exists ''all'' 0]
    [(U32, ''_flags''), (Char_Ptr, ''href''), (SE_UInt16_t, ''all'')]"

definition SE_ActiveCreditRegisterListLink_t :: c_struct where
  "SE_ActiveCreditRegisterListLink_t = C_Struct ''ActiveCreditRegisterListLink''
    [Exists ''all'' 0]
    [(U32, ''_flags''), (Char_Ptr, ''href''), (SE_UInt16_t, ''all'')]"

definition SE_AccountBalanceLink_t :: c_struct where
  "SE_AccountBalanceLink_t = C_Struct ''AccountBalanceLink''
    []
    [(U32, ''_flags''), (Char_Ptr, ''href'')]"

definition SE_Prepayment_t :: c_struct where
  "SE_Prepayment_t = C_Struct ''Prepayment''
    [Exists ''description'' 0, Exists ''version'' 2, Exists ''lowEmergencyCreditWarningLevel'' 5,
     Exists ''lowCreditWarningLevel'' 6, Exists ''creditExpiryLevel'' 7,
     Exists ''ActiveSupplyInterruptionOverrideListLink'' 8, Exists ''ActiveCreditRegisterListLink'' 9,
     Exists ''UsagePointLink'' 16]
    [(U32, ''_flags''), (Char_Ptr, ''href''), (SE_mRIDType_t, ''mRID''), (SE_String32_t, ''description''),
     (SE_VersionType_t, ''version''), (Struct ''AccountBalanceLink'', ''AccountBalanceLink''),
     (Struct ''ActiveCreditRegisterListLink'', ''ActiveCreditRegisterListLink''),
     (Struct ''ActiveSupplyInterruptionOverrideListLink'', ''ActiveSupplyInterruptionOverrideListLink''),
     (Struct ''AccountingUnit'', ''creditExpiryLevel''),
     (Struct ''CreditRegisterListLink'', ''CreditRegisterListLink''),
     (Struct ''AccountingUnit'', ''lowCreditWarningLevel''),
     (Struct ''AccountingUnit'', ''lowEmergencyCreditWarningLevel''), (SE_PrepayModeType_t, ''prepayMode''),
     (Struct ''PrepayOperationStatusLink'', ''PrepayOperationStatusLink''),
     (Struct ''SupplyInterruptionOverrideListLink'', ''SupplyInterruptionOverrideListLink''),
     (List_Ptr, ''UsagePoint''), (Struct ''UsagePointLink'', ''UsagePointLink'')]"

definition SE_PrepaymentList_t :: c_struct where
  "SE_PrepaymentList_t = C_Struct ''PrepaymentList''
    [Exists ''subscribable'' 1, Exists ''pollRate'' 17]
    [(U32, ''_flags''), (Char_Ptr, ''href''), (SE_SubscribableType_t, ''subscribable''), (SE_UInt16_t, ''all''),
     (SE_UInt8_t, ''results''), (SE_UInt32_t, ''pollRate''), (List_Ptr, ''Prepayment'')]"

definition SE_CreditRegister_t :: c_struct where
  "SE_CreditRegister_t = C_Struct ''CreditRegister''
    [Exists ''description'' 0, Exists ''version'' 2, Exists ''creditType'' 5]
    [(U32, ''_flags''), (Char_Ptr, ''href''), (SE_mRIDType_t, ''mRID''), (SE_String32_t, ''description''),
     (SE_VersionType_t, ''version''), (Struct ''AccountingUnit'', ''creditAmount''),
     (SE_CreditTypeType_t, ''creditType''), (SE_TimeType_t, ''effectiveTime''), (SE_String32_t, ''token'')]"

definition SE_CreditRegisterList_t :: c_struct where
  "SE_CreditRegisterList_t = C_Struct ''CreditRegisterList''
    []
    [(U32, ''_flags''), (Char_Ptr, ''href''), (SE_UInt16_t, ''all''), (SE_UInt8_t, ''results''),
     (List_Ptr, ''CreditRegister'')]"

definition SE_AccountBalance_t :: c_struct where
  "SE_AccountBalance_t = C_Struct ''AccountBalance''
    [Exists ''emergencyCreditStatus'' 5, Exists ''emergencyCredit'' 6, Exists ''creditStatus'' 7]
    [(U32, ''_flags''), (Char_Ptr, ''href''), (Struct ''AccountingUnit'', ''availableCredit''),
     (SE_CreditStatusType_t, ''creditStatus''), (Struct ''AccountingUnit'', ''emergencyCredit''),
     (SE_CreditStatusType_t, ''emergencyCreditStatus'')]"

definition SE_ServiceSupplier_t :: c_struct where
  "SE_ServiceSupplier_t = C_Struct ''ServiceSupplier''
    [Exists ''description'' 0, Exists ''version'' 2, Exists ''web'' 5, Exists ''providerID'' 6, Exists ''phone'' 7,
     Exists ''email'' 8]
    [(U32, ''_flags''), (Char_Ptr, ''href''), (SE_mRIDType_t, ''mRID''), (SE_String32_t, ''description''),
     (SE_VersionType_t, ''version''), (SE_String32_t, ''email''), (SE_String20_t, ''phone''),
     (SE_UInt32_t, ''providerID''), (SE_String42_t, ''web'')]"

definition SE_ServiceSupplierList_t :: c_struct where
  "SE_ServiceSupplierList_t = C_Struct ''ServiceSupplierList''
    []
    [(U32, ''_flags''), (Char_Ptr, ''href''), (SE_UInt16_t, ''all''), (SE_UInt8_t, ''results''),
     (List_Ptr, ''ServiceSupplier'')]"

definition SE_ReadingTypeLink_t :: c_struct where
  "SE_ReadingTypeLink_t = C_Struct ''ReadingTypeLink''
    []
    [(U32, ''_flags''), (Char_Ptr, ''href'')]"

definition SE_BillingReadingSetListLink_t :: c_struct where
  "SE_BillingReadingSetListLink_t = C_Struct ''BillingReadingSetListLink''
    [Exists ''all'' 0]
    [(U32, ''_flags''), (Char_Ptr, ''href''), (SE_UInt16_t, ''all'')]"

definition SE_BillingMeterReadingBase_t :: c_struct where
  "SE_BillingMeterReadingBase_t = C_Struct ''BillingMeterReadingBase''
    [Exists ''description'' 0, Exists ''version'' 2, Exists ''ReadingTypeLink'' 5,
     Exists ''BillingReadingSetListLink'' 6]
    [(U32, ''_flags''), (Char_Ptr, ''href''), (SE_mRIDType_t, ''mRID''), (SE_String32_t, ''description''),
     (SE_VersionType_t, ''version''), (Struct ''BillingReadingSetListLink'', ''BillingReadingSetListLink''),
     (Struct ''ReadingTypeLink'', ''ReadingTypeLink'')]"

definition SE_TargetReading_t :: c_struct where
  "SE_TargetReading_t = C_Struct ''TargetReading''
    [Exists ''description'' 0, Exists ''version'' 2, Exists ''ReadingTypeLink'' 5,
     Exists ''BillingReadingSetListLink'' 6]
    [(U32, ''_flags''), (Char_Ptr, ''href''), (SE_mRIDType_t, ''mRID''), (SE_String32_t, ''description''),
     (SE_VersionType_t, ''version''), (Struct ''BillingReadingSetListLink'', ''BillingReadingSetListLink''),
     (Struct ''ReadingTypeLink'', ''ReadingTypeLink'')]"

definition SE_TargetReadingList_t :: c_struct where
  "SE_TargetReadingList_t = C_Struct ''TargetReadingList''
    []
    [(U32, ''_flags''), (Char_Ptr, ''href''), (SE_UInt16_t, ''all''), (SE_UInt8_t, ''results''),
     (List_Ptr, ''TargetReading'')]"

definition SE_ProjectionReading_t :: c_struct where
  "SE_ProjectionReading_t = C_Struct ''ProjectionReading''
    [Exists ''description'' 0, Exists ''version'' 2, Exists ''ReadingTypeLink'' 5,
     Exists ''BillingReadingSetListLink'' 6]
    [(U32, ''_flags''), (Char_Ptr, ''href''), (SE_mRIDType_t, ''mRID''), (SE_String32_t, ''description''),
     (SE_VersionType_t, ''version''), (Struct ''BillingReadingSetListLink'', ''BillingReadingSetListLink''),
     (Struct ''ReadingTypeLink'', ''ReadingTypeLink'')]"

definition SE_ProjectionReadingList_t :: c_struct where
  "SE_ProjectionReadingList_t = C_Struct ''ProjectionReadingList''
    []
    [(U32, ''_flags''), (Char_Ptr, ''href''), (SE_UInt16_t, ''all''), (SE_UInt8_t, ''results''),
     (List_Ptr, ''ProjectionReading'')]"

definition SE_HistoricalReading_t :: c_struct where
  "SE_HistoricalReading_t = C_Struct ''HistoricalReading''
    [Exists ''description'' 0, Exists ''version'' 2, Exists ''ReadingTypeLink'' 5,
     Exists ''BillingReadingSetListLink'' 6]
    [(U32, ''_flags''), (Char_Ptr, ''href''), (SE_mRIDType_t, ''mRID''), (SE_String32_t, ''description''),
     (SE_VersionType_t, ''version''), (Struct ''BillingReadingSetListLink'', ''BillingReadingSetListLink''),
     (Struct ''ReadingTypeLink'', ''ReadingTypeLink'')]"

definition SE_HistoricalReadingList_t :: c_struct where
  "SE_HistoricalReadingList_t = C_Struct ''HistoricalReadingList''
    []
    [(U32, ''_flags''), (Char_Ptr, ''href''), (SE_UInt16_t, ''all''), (SE_UInt8_t, ''results''),
     (List_Ptr, ''HistoricalReading'')]"

definition SE_TariffProfileLink_t :: c_struct where
  "SE_TariffProfileLink_t = C_Struct ''TariffProfileLink''
    []
    [(U32, ''_flags''), (Char_Ptr, ''href'')]"

definition SE_TargetReadingListLink_t :: c_struct where
  "SE_TargetReadingListLink_t = C_Struct ''TargetReadingListLink''
    [Exists ''all'' 0]
    [(U32, ''_flags''), (Char_Ptr, ''href''), (SE_UInt16_t, ''all'')]"

definition SE_ProjectionReadingListLink_t :: c_struct where
  "SE_ProjectionReadingListLink_t = C_Struct ''ProjectionReadingListLink''
    [Exists ''all'' 0]
    [(U32, ''_flags''), (Char_Ptr, ''href''), (SE_UInt16_t, ''all'')]"

definition SE_PrepaymentLink_t :: c_struct where
  "SE_PrepaymentLink_t = C_Struct ''PrepaymentLink''
    []
    [(U32, ''_flags''), (Char_Ptr, ''href'')]"

definition SE_HistoricalReadingListLink_t :: c_struct where
  "SE_HistoricalReadingListLink_t = C_Struct ''HistoricalReadingListLink''
    [Exists ''all'' 0]
    [(U32, ''_flags''), (Char_Ptr, ''href''), (SE_UInt16_t, ''all'')]"

definition SE_BillingPeriodListLink_t :: c_struct where
  "SE_BillingPeriodListLink_t = C_Struct ''BillingPeriodListLink''
    [Exists ''all'' 0]
    [(U32, ''_flags''), (Char_Ptr, ''href''), (SE_UInt16_t, ''all'')]"

definition SE_ActiveTargetReadingListLink_t :: c_struct where
  "SE_ActiveTargetReadingListLink_t = C_Struct ''ActiveTargetReadingListLink''
    [Exists ''all'' 0]
    [(U32, ''_flags''), (Char_Ptr, ''href''), (SE_UInt16_t, ''all'')]"

definition SE_ActiveProjectionReadingListLink_t :: c_struct where
  "SE_ActiveProjectionReadingListLink_t = C_Struct ''ActiveProjectionReadingListLink''
    [Exists ''all'' 0]
    [(U32, ''_flags''), (Char_Ptr, ''href''), (SE_UInt16_t, ''all'')]"

definition SE_ActiveBillingPeriodListLink_t :: c_struct where
  "SE_ActiveBillingPeriodListLink_t = C_Struct ''ActiveBillingPeriodListLink''
    [Exists ''all'' 0]
    [(U32, ''_flags''), (Char_Ptr, ''href''), (SE_UInt16_t, ''all'')]"

definition SE_CustomerAgreement_t :: c_struct where
  "SE_CustomerAgreement_t = C_Struct ''CustomerAgreement''
    [Exists ''description'' 0, Exists ''version'' 2, Exists ''TariffProfileLink'' 5,
     Exists ''TargetReadingListLink'' 6, Exists ''serviceLocation'' 7, Exists ''serviceAccount'' 8,
     Exists ''ProjectionReadingListLink'' 9, Exists ''PrepaymentLink'' 10, Exists ''HistoricalReadingListLink'' 11,
     Exists ''BillingPeriodListLink'' 12, Exists ''ActiveTargetReadingListLink'' 13,
     Exists ''ActiveProjectionReadingListLink'' 14, Exists ''ActiveBillingPeriodListLink'' 15,
     Exists ''UsagePointLink'' 16]
    [(U32, ''_flags''), (Char_Ptr, ''href''), (SE_mRIDType_t, ''mRID''), (SE_String32_t, ''description''),
     (SE_VersionType_t, ''version''), (Struct ''ActiveBillingPeriodListLink'', ''ActiveBillingPeriodListLink''),
     (Struct ''ActiveProjectionReadingListLink'', ''ActiveProjectionReadingListLink''),
     (Struct ''ActiveTargetReadingListLink'', ''ActiveTargetReadingListLink''),
     (Struct ''BillingPeriodListLink'', ''BillingPeriodListLink''),
     (Struct ''HistoricalReadingListLink'', ''HistoricalReadingListLink''),
     (Struct ''PrepaymentLink'', ''PrepaymentLink''),
     (Struct ''ProjectionReadingListLink'', ''ProjectionReadingListLink''), (SE_String42_t, ''serviceAccount''),
     (SE_String42_t, ''serviceLocation''), (Struct ''TargetReadingListLink'', ''TargetReadingListLink''),
     (Struct ''TariffProfileLink'', ''TariffProfileLink''), (Struct ''UsagePointLink'', ''UsagePointLink'')]"

definition SE_CustomerAgreementList_t :: c_struct where
  "SE_CustomerAgreementList_t = C_Struct ''CustomerAgreementList''
    [Exists ''subscribable'' 1]
    [(U32, ''_flags''), (Char_Ptr, ''href''), (SE_SubscribableType_t, ''subscribable''), (SE_UInt16_t, ''all''),
     (SE_UInt8_t, ''results''), (List_Ptr, ''CustomerAgreement'')]"

definition SE_ServiceSupplierLink_t :: c_struct where
  "SE_ServiceSupplierLink_t = C_Struct ''ServiceSupplierLink''
    []
    [(U32, ''_flags''), (Char_Ptr, ''href'')]"

definition SE_CustomerAgreementListLink_t :: c_struct where
  "SE_CustomerAgreementListLink_t = C_Struct ''CustomerAgreementListLink''
    [Exists ''all'' 0]
    [(U32, ''_flags''), (Char_Ptr, ''href''), (SE_UInt16_t, ''all'')]"

definition SE_CustomerAccount_t :: c_struct where
  "SE_CustomerAccount_t = C_Struct ''CustomerAccount''
    [Exists ''description'' 0, Exists ''version'' 2, Exists ''ServiceSupplierLink'' 5, Exists ''customerName'' 6,
     Exists ''CustomerAgreementListLink'' 7, Exists ''customerAccount'' 8]
    [(U32, ''_flags''), (Char_Ptr, ''href''), (SE_mRIDType_t, ''mRID''), (SE_String32_t, ''description''),
     (SE_VersionType_t, ''version''), (SE_UInt16_t, ''currency''), (SE_String42_t, ''customerAccount''),
     (Struct ''CustomerAgreementListLink'', ''CustomerAgreementListLink''), (SE_String42_t, ''customerName''),
     (SE_PowerOfTenMultiplierType_t, ''pricePowerOfTenMultiplier''),
     (Struct ''ServiceSupplierLink'', ''ServiceSupplierLink'')]"

definition SE_CustomerAccountList_t :: c_struct where
  "SE_CustomerAccountList_t = C_Struct ''CustomerAccountList''
    [Exists ''subscribable'' 1, Exists ''pollRate'' 17]
    [(U32, ''_flags''), (Char_Ptr, ''href''), (SE_SubscribableType_t, ''subscribable''), (SE_UInt16_t, ''all''),
     (SE_UInt8_t, ''results''), (SE_UInt32_t, ''pollRate''), (List_Ptr, ''CustomerAccount'')]"

definition SE_BillingReadingListLink_t :: c_struct where
  "SE_BillingReadingListLink_t = C_Struct ''BillingReadingListLink''
    [Exists ''all'' 0]
    [(U32, ''_flags''), (Char_Ptr, ''href''), (SE_UInt16_t, ''all'')]"

definition SE_BillingReadingSet_t :: c_struct where
  "SE_BillingReadingSet_t = C_Struct ''BillingReadingSet''
    [Exists ''description'' 0, Exists ''version'' 2, Exists ''BillingReadingListLink'' 5]
    [(U32, ''_flags''), (Char_Ptr, ''href''), (SE_mRIDType_t, ''mRID''), (SE_String32_t, ''description''),
     (SE_VersionType_t, ''version''), (Struct ''DateTimeInterval'', ''timePeriod''),
     (Struct ''BillingReadingListLink'', ''BillingReadingListLink'')]"

definition SE_BillingReadingSetList_t :: c_struct where
  "SE_BillingReadingSetList_t = C_Struct ''BillingReadingSetList''
    [Exists ''subscribable'' 1]
    [(U32, ''_flags''), (Char_Ptr, ''href''), (SE_SubscribableType_t, ''subscribable''), (SE_UInt16_t, ''all''),
     (SE_UInt8_t, ''results''), (List_Ptr, ''BillingReadingSet'')]"

definition SE_Charge_t :: c_struct where
  "SE_Charge_t = C_Struct ''Charge''
    [Exists ''description'' 0, Exists ''kind'' 22]
    [(U32, ''_flags''), (SE_String20_t, ''description''), (SE_ChargeKind_t, ''kind''), (SE_Int32_t, ''value'')]"

definition SE_BillingReading_t :: c_struct where
  "SE_BillingReading_t = C_Struct ''BillingReading''
    [Exists ''value'' 5, Exists ''touTier'' 6, Exists ''timePeriod'' 7, Exists ''qualityFlags'' 8,
     Exists ''consumptionBlock'' 9]
    [(U32, ''_flags''), (Char_Ptr, ''href''), (SE_ConsumptionBlockType_t, ''consumptionBlock''),
     (SE_HexBinary16_t, ''qualityFlags''), (Struct ''DateTimeInterval'', ''timePeriod''),
     (SE_TOUType_t, ''touTier''), (SE_Int48_t, ''value''), (List_Ptr, ''Charge'')]"

end
