(* ===== verification/Se_Structs_3.thy ===== *)
theory Se_Structs_3
  imports Se_Structs_2
begin

section \<open>The structures of IEEE 2030.5 objects, third part (core/se_types.h)\<close>

text \<open>The structures of lines 1585 to 2364 of the header.\<close>

abbreviation (input) SE_PriorityType_t where "SE_PriorityType_t \<equiv> SE_UInt8_t"
abbreviation (input) SE_LocaleType_t where "SE_LocaleType_t \<equiv> SE_String42_t"
abbreviation (input) SE_CostKindType_t where "SE_CostKindType_t \<equiv> SE_UInt8_t"
abbreviation (input) SE_UnitType_t where "SE_UnitType_t \<equiv> SE_UInt8_t"
abbreviation (input) SE_DeviceCategoryType_t where "SE_DeviceCategoryType_t \<equiv> SE_HexBinary32_t"
abbreviation (input) SE_ApplianceLoadReductionType_t where "SE_ApplianceLoadReductionType_t \<equiv> SE_UInt8_t"
abbreviation (input) SE_String16_t where "SE_String16_t \<equiv> Chars 16"
abbreviation (input) SE_PENType_t where "SE_PENType_t \<equiv> SE_UInt32_t"
abbreviation (input) SE_TimeOffsetType_t where "SE_TimeOffsetType_t \<equiv> SE_Int32_t"
abbreviation (input) SE_DstRuleType_t where "SE_DstRuleType_t \<equiv> SE_HexBinary32_t"
abbreviation (input) SE_HexBinary64_t where "SE_HexBinary64_t \<equiv> Octets 8"

definition SE_BillingReadingList_t :: c_struct where
  "SE_BillingReadingList_t = C_Struct ''BillingReadingList''
    []
    [(U32, ''_flags''), (Char_Ptr, ''href''), (SE_UInt16_t, ''all''), (SE_UInt8_t, ''results''),
     (List_Ptr, ''BillingReading'')]"

definition SE_BillingPeriod_t :: c_struct where
  "SE_BillingPeriod_t = C_Struct ''BillingPeriod''
    [Exists ''statusTimeStamp'' 5, Exists ''billToDate'' 6, Exists ''billLastPeriod'' 7]
    [(U32, ''_flags''), (Char_Ptr, ''href''), (SE_Int48_t, ''billLastPeriod''), (SE_Int48_t, ''billToDate''),
     (Struct ''DateTimeInterval'', ''interval''), (SE_TimeType_t, ''statusTimeStamp'')]"

definition SE_BillingPeriodList_t :: c_struct where
  "SE_BillingPeriodList_t = C_Struct ''BillingPeriodList''
    [Exists ''subscribable'' 1]
    [(U32, ''_flags''), (Char_Ptr, ''href''), (SE_SubscribableType_t, ''subscribable''), (SE_UInt16_t, ''all''),
     (SE_UInt8_t, ''results''), (List_Ptr, ''BillingPeriod'')]"

definition SE_TextMessage_t :: c_struct where
  "SE_TextMessage_t = C_Struct ''TextMessage''
    [Exists ''description'' 0, Exists ''subscribable'' 1, Exists ''version'' 2, Exists ''responseRequired'' 5,
     Exists ''originator'' 6]
    [(U32, ''_flags''), (Char_Ptr, ''href''), (Char_Ptr, ''replyTo''), (SE_HexBinary8_t, ''responseRequired''),
     (SE_SubscribableType_t, ''subscribable''), (SE_mRIDType_t, ''mRID''), (SE_String32_t, ''description''),
     (SE_VersionType_t, ''version''), (SE_TimeType_t, ''creationTime''), (Struct ''EventStatus'', ''EventStatus''),
     (Struct ''DateTimeInterval'', ''interval''), (SE_String20_t, ''originator''), (SE_PriorityType_t, ''priority''),
     (Char_Ptr, ''textMessage'')]"

definition SE_TextMessageList_t :: c_struct where
  "SE_TextMessageList_t = C_Struct ''TextMessageList''
    [Exists ''subscribable'' 1]
    [(U32, ''_flags''), (Char_Ptr, ''href''), (SE_SubscribableType_t, ''subscribable''), (SE_UInt16_t, ''all''),
     (SE_UInt8_t, ''results''), (List_Ptr, ''TextMessage'')]"

definition SE_TextMessageListLink_t :: c_struct where
  "SE_TextMessageListLink_t = C_Struct ''TextMessageListLink''
    [Exists ''all'' 0]
    [(U32, ''_flags''), (Char_Ptr, ''href''), (SE_UInt16_t, ''all'')]"

definition SE_ActiveTextMessageListLink_t :: c_struct where
  "SE_ActiveTextMessageListLink_t = C_Struct ''ActiveTextMessageListLink''
    [Exists ''all'' 0]
    [(U32, ''_flags''), (Char_Ptr, ''href''), (SE_UInt16_t, ''all'')]"

definition SE_MessagingProgram_t :: c_struct where
  "SE_MessagingProgram_t = C_Struct ''MessagingProgram''
    [Exists ''description'' 0, Exists ''subscribable'' 1, Exists ''version'' 2, Exists ''TextMessageListLink'' 5,
     Exists ''ActiveTextMessageListLink'' 6]
    [(U32, ''_flags''), (Char_Ptr, ''href''), (SE_SubscribableType_t, ''subscribable''), (SE_mRIDType_t, ''mRID''),
     (SE_String32_t, ''description''), (SE_VersionType_t, ''version''),
     (Struct ''ActiveTextMessageListLink'', ''ActiveTextMessageListLink''), (SE_LocaleType_t, ''locale''),
     (SE_PrimacyType_t, ''primacy''), (Struct ''TextMessageListLink'', ''TextMessageListLink'')]"

definition SE_MessagingProgramList_t :: c_struct where
  "SE_MessagingProgramList_t = C_Struct ''MessagingProgramList''
    [Exists ''subscribable'' 1, Exists ''pollRate'' 17]
    [(U32, ''_flags''), (Char_Ptr, ''href''), (SE_SubscribableType_t, ''subscribable''), (SE_UInt16_t, ''all''),
     (SE_UInt8_t, ''results''), (SE_UInt32_t, ''pollRate''), (List_Ptr, ''MessagingProgram'')]"

definition SE_ConsumptionTariffIntervalListLink_t :: c_struct where
  "SE_ConsumptionTariffIntervalListLink_t = C_Struct ''ConsumptionTariffIntervalListLink''
    [Exists ''all'' 0]
    [(U32, ''_flags''), (Char_Ptr, ''href''), (SE_UInt16_t, ''all'')]"

definition SE_TimeTariffInterval_t :: c_struct where
  "SE_TimeTariffInterval_t = C_Struct ''TimeTariffInterval''
    [Exists ''description'' 0, Exists ''subscribable'' 1, Exists ''version'' 2, Exists ''responseRequired'' 5,
     Exists ''randomizeStart'' 6, Exists ''randomizeDuration'' 7, Exists ''ConsumptionTariffIntervalListLink'' 8]
    [(U32, ''_flags''), (Char_Ptr, ''href''), (Char_Ptr, ''replyTo''), (SE_HexBinary8_t, ''responseRequired''),
     (SE_SubscribableType_t, ''subscribable''), (SE_mRIDType_t, ''mRID''), (SE_String32_t, ''description''),
     (SE_VersionType_t, ''version''), (SE_TimeType_t, ''creationTime''), (Struct ''EventStatus'', ''EventStatus''),
     (Struct ''DateTimeInterval'', ''interval''), (SE_OneHourRangeType_t, ''randomizeDuration''),
     (SE_OneHourRangeType_t, ''randomizeStart''),
     (Struct ''ConsumptionTariffIntervalListLink'', ''ConsumptionTariffIntervalListLink''),
     (SE_TOUType_t, ''touTier'')]"

definition SE_TimeTariffIntervalList_t :: c_struct where
  "SE_TimeTariffIntervalList_t = C_Struct ''TimeTariffIntervalList''
    [Exists ''subscribable'' 1]
    [(U32, ''_flags''), (Char_Ptr, ''href''), (SE_SubscribableType_t, ''subscribable''), (SE_UInt16_t, ''all''),
     (SE_UInt8_t, ''results''), (List_Ptr, ''TimeTariffInterval'')]"

definition SE_RateComponentListLink_t :: c_struct where
  "SE_RateComponentListLink_t = C_Struct ''RateComponentListLink''
    [Exists ''all'' 0]
    [(U32, ''_flags''), (Char_Ptr, ''href''), (SE_UInt16_t, ''all'')]"

definition SE_TariffProfile_t :: c_struct where
  "SE_TariffProfile_t = C_Struct ''TariffProfile''
    [Exists ''description'' 0, Exists ''version'' 2, Exists ''rateCode'' 5, Exists ''pricePowerOfTenMultiplier'' 6,
     Exists ''currency'' 7, Exists ''RateComponentListLink'' 8]
    [(U32, ''_flags''), (Char_Ptr, ''href''), (SE_mRIDType_t, ''mRID''), (SE_String32_t, ''description''),
     (SE_VersionType_t, ''version''), (SE_CurrencyCode_t, ''currency''),
     (SE_PowerOfTenMultiplierType_t, ''pricePowerOfTenMultiplier''), (SE_PrimacyType_t, ''primacy''),
     (SE_String20_t, ''rateCode''), (Struct ''RateComponentListLink'', ''RateComponentListLink''),
     (SE_ServiceKind_t, ''serviceCategoryKind'')]"

definition SE_TariffProfileList_t :: c_struct where
  "SE_TariffProfileList_t = C_Struct ''TariffProfileList''
    [Exists ''subscribable'' 1, Exists ''pollRate'' 17]
    [(U32, ''_flags''), (Char_Ptr, ''href''), (SE_SubscribableType_t, ''subscribable''), (SE_UInt16_t, ''all''),
     (SE_UInt8_t, ''results''), (SE_UInt32_t, ''pollRate''), (List_Ptr, ''TariffProfile'')]"

definition SE_TimeTariffIntervalListLink_t :: c_struct where
  "SE_TimeTariffIntervalListLink_t = C_Struct ''TimeTariffIntervalListLink''
    [Exists ''all'' 0]
    [(U32, ''_flags''), (Char_Ptr, ''href''), (SE_UInt16_t, ''all'')]"

definition SE_ActiveTimeTariffIntervalListLink_t :: c_struct where
  "SE_ActiveTimeTariffIntervalListLink_t = C_Struct ''ActiveTimeTariffIntervalListLink''
    [Exists ''all'' 0]
    [(U32, ''_flags''), (Char_Ptr, ''href''), (SE_UInt16_t, ''all'')]"

definition SE_RateComponent_t :: c_struct where
  "SE_RateComponent_t = C_Struct ''RateComponent''
    [Exists ''description'' 0, Exists ''version'' 2, Exists ''flowRateStartLimit'' 5, Exists ''flowRateEndLimit'' 6,
     Exists ''ActiveTimeTariffIntervalListLink'' 7]
    [(U32, ''_flags''), (Char_Ptr, ''href''), (SE_mRIDType_t, ''mRID''), (SE_String32_t, ''description''),
     (SE_VersionType_t, ''version''),
     (Struct ''ActiveTimeTariffIntervalListLink'', ''ActiveTimeTariffIntervalListLink''),
     (Struct ''UnitValueType'', ''flowRateEndLimit''), (Struct ''UnitValueType'', ''flowRateStartLimit''),
     (Struct ''ReadingTypeLink'', ''ReadingTypeLink''), (SE_RoleFlagsType_t, ''roleFlags''),
     (Struct ''TimeTariffIntervalListLink'', ''TimeTariffIntervalListLink'')]"

definition SE_RateComponentList_t :: c_struct where
  "SE_RateComponentList_t = C_Struct ''RateComponentList''
    []
    [(U32, ''_flags''), (Char_Ptr, ''href''), (SE_UInt16_t, ''all''), (SE_UInt8_t, ''results''),
     (List_Ptr, ''RateComponent'')]"

definition SE_EnvironmentalCost_t :: c_struct where
  "SE_EnvironmentalCost_t = C_Struct ''EnvironmentalCost''
    []
    [(SE_UInt32_t, ''amount''), (SE_CostKindType_t, ''costKind''), (SE_UInt8_t, ''costLevel''),
     (SE_UInt8_t, ''numCostLevels'')]"

definition SE_ConsumptionTariffInterval_t :: c_struct where
  "SE_ConsumptionTariffInterval_t = C_Struct ''ConsumptionTariffInterval''
    [Exists ''price'' 5]
    [(U32, ''_flags''), (Char_Ptr, ''href''), (SE_ConsumptionBlockType_t, ''consumptionBlock''),
     (List_Ptr, ''EnvironmentalCost''), (SE_Int32_t, ''price''), (SE_UInt48_t, ''startValue'')]"

definition SE_ConsumptionTariffIntervalList_t :: c_struct where
  "SE_ConsumptionTariffIntervalList_t = C_Struct ''ConsumptionTariffIntervalList''
    []
    [(U32, ''_flags''), (Char_Ptr, ''href''), (SE_UInt16_t, ''all''), (SE_UInt8_t, ''results''),
     (List_Ptr, ''ConsumptionTariffInterval'')]"

definition SE_UsagePointList_t :: c_struct where
  "SE_UsagePointList_t = C_Struct ''UsagePointList''
    [Exists ''subscribable'' 1, Exists ''pollRate'' 17]
    [(U32, ''_flags''), (Char_Ptr, ''href''), (SE_SubscribableType_t, ''subscribable''), (SE_UInt16_t, ''all''),
     (SE_UInt8_t, ''results''), (SE_UInt32_t, ''pollRate''), (List_Ptr, ''UsagePoint'')]"

definition SE_ReadingListLink_t :: c_struct where
  "SE_ReadingListLink_t = C_Struct ''ReadingListLink''
    [Exists ''all'' 0]
    [(U32, ''_flags''), (Char_Ptr, ''href''), (SE_UInt16_t, ''all'')]"

definition SE_ReadingSet_t :: c_struct where
  "SE_ReadingSet_t = C_Struct ''ReadingSet''
    [Exists ''description'' 0, Exists ''version'' 2, Exists ''ReadingListLink'' 5]
    [(U32, ''_flags''), (Char_Ptr, ''href''), (SE_mRIDType_t, ''mRID''), (SE_String32_t, ''description''),
     (SE_VersionType_t, ''version''), (Struct ''DateTimeInterval'', ''timePeriod''),
     (Struct ''ReadingListLink'', ''ReadingListLink'')]"

definition SE_ReadingSetList_t :: c_struct where
  "SE_ReadingSetList_t = C_Struct ''ReadingSetList''
    [Exists ''subscribable'' 1]
    [(U32, ''_flags''), (Char_Ptr, ''href''), (SE_SubscribableType_t, ''subscribable''), (SE_UInt16_t, ''all''),
     (SE_UInt8_t, ''results''), (List_Ptr, ''ReadingSet'')]"

definition SE_ReadingList_t :: c_struct where
  "SE_ReadingList_t = C_Struct ''ReadingList''
    [Exists ''subscribable'' 1]
    [(U32, ''_flags''), (Char_Ptr, ''href''), (SE_SubscribableType_t, ''subscribable''), (SE_UInt16_t, ''all''),
     (SE_UInt8_t, ''results''), (List_Ptr, ''Reading'')]"

definition SE_ReadingSetListLink_t :: c_struct where
  "SE_ReadingSetListLink_t = C_Struct ''ReadingSetListLink''
    [Exists ''all'' 0]
    [(U32, ''_flags''), (Char_Ptr, ''href''), (SE_UInt16_t, ''all'')]"

definition SE_ReadingLink_t :: c_struct where
  "SE_ReadingLink_t = C_Struct ''ReadingLink''
    []
    [(U32, ''_flags''), (Char_Ptr, ''href'')]"

definition SE_MeterReading_t :: c_struct where
  "SE_MeterReading_t = C_Struct ''MeterReading''
    [Exists ''description'' 0, Exists ''version'' 2, Exists ''ReadingSetListLink'' 5, Exists ''ReadingLink'' 6,
     Exists ''RateComponentListLink'' 8]
    [(U32, ''_flags''), (Char_Ptr, ''href''), (SE_mRIDType_t, ''mRID''), (SE_String32_t, ''description''),
     (SE_VersionType_t, ''version''), (Struct ''RateComponentListLink'', ''RateComponentListLink''),
     (Struct ''ReadingLink'', ''ReadingLink''), (Struct ''ReadingSetListLink'', ''ReadingSetListLink''),
     (Struct ''ReadingTypeLink'', ''ReadingTypeLink'')]"

definition SE_MeterReadingList_t :: c_struct where
  "SE_MeterReadingList_t = C_Struct ''MeterReadingList''
    [Exists ''subscribable'' 1]
    [(U32, ''_flags''), (Char_Ptr, ''href''), (SE_SubscribableType_t, ''subscribable''), (SE_UInt16_t, ''all''),
     (SE_UInt8_t, ''results''), (List_Ptr, ''MeterReading'')]"

definition SE_TargetReduction_t :: c_struct where
  "SE_TargetReduction_t = C_Struct ''TargetReduction''
    []
    [(SE_UnitType_t, ''type''), (SE_UInt16_t, ''value'')]"

definition SE_SetPoint_t :: c_struct where
  "SE_SetPoint_t = C_Struct ''SetPoint''
    [Exists ''heatingSetpoint'' 0, Exists ''coolingSetpoint'' 1]
    [(U32, ''_flags''), (SE_Int16_t, ''coolingSetpoint''), (SE_Int16_t, ''heatingSetpoint'')]"

definition SE_Offset_t :: c_struct where
  "SE_Offset_t = C_Struct ''Offset''
    [Exists ''loadAdjustmentPercentageOffset'' 0, Exists ''heatingOffset'' 1, Exists ''coolingOffset'' 2]
    [(U32, ''_flags''), (SE_UInt8_t, ''coolingOffset''), (SE_UInt8_t, ''heatingOffset''),
     (SE_PerCent_t, ''loadAdjustmentPercentageOffset'')]"

definition SE_DutyCycle_t :: c_struct where
  "SE_DutyCycle_t = C_Struct ''DutyCycle''
    []
    [(SE_UInt8_t, ''normalValue'')]"

definition SE_ApplianceLoadReduction_t :: c_struct where
  "SE_ApplianceLoadReduction_t = C_Struct ''ApplianceLoadReduction''
    []
    [(SE_ApplianceLoadReductionType_t, ''type'')]"

definition SE_EndDeviceControl_t :: c_struct where
  "SE_EndDeviceControl_t = C_Struct ''EndDeviceControl''
    [Exists ''description'' 0, Exists ''subscribable'' 1, Exists ''version'' 2, Exists ''responseRequired'' 5,
     Exists ''randomizeStart'' 6, Exists ''randomizeDuration'' 7, Exists ''TargetReduction'' 8,
     Truth ''loadShiftForward'' 9, Truth ''drProgramMandatory'' 10, Exists ''ApplianceLoadReduction'' 11,
     Exists ''DutyCycle'' 12, Exists ''Offset'' 13, Exists ''overrideDuration'' 14, Exists ''SetPoint'' 15]
    [(U32, ''_flags''), (Char_Ptr, ''href''), (Char_Ptr, ''replyTo''), (SE_HexBinary8_t, ''responseRequired''),
     (SE_SubscribableType_t, ''subscribable''), (SE_mRIDType_t, ''mRID''), (SE_String32_t, ''description''),
     (SE_VersionType_t, ''version''), (SE_TimeType_t, ''creationTime''), (Struct ''EventStatus'', ''EventStatus''),
     (Struct ''DateTimeInterval'', ''interval''), (SE_OneHourRangeType_t, ''randomizeDuration''),
     (SE_OneHourRangeType_t, ''randomizeStart''), (Struct ''ApplianceLoadReduction'', ''ApplianceLoadReduction''),
     (SE_DeviceCategoryType_t, ''deviceCategory''), (Struct ''DutyCycle'', ''DutyCycle''),
     (Struct ''Offset'', ''Offset''), (SE_UInt16_t, ''overrideDuration''), (Struct ''SetPoint'', ''SetPoint''),
     (Struct ''TargetReduction'', ''TargetReduction'')]"

definition SE_EndDeviceControlList_t :: c_struct where
  "SE_EndDeviceControlList_t = C_Struct ''EndDeviceControlList''
    [Exists ''subscribable'' 1]
    [(U32, ''_flags''), (Char_Ptr, ''href''), (SE_SubscribableType_t, ''subscribable''), (SE_UInt16_t, ''all''),
     (SE_UInt8_t, ''results''), (List_Ptr, ''EndDeviceControl'')]"

definition SE_EndDeviceControlListLink_t :: c_struct where
  "SE_EndDeviceControlListLink_t = C_Struct ''EndDeviceControlListLink''
    [Exists ''all'' 0]
    [(U32, ''_flags''), (Char_Ptr, ''href''), (SE_UInt16_t, ''all'')]"

definition SE_ActiveEndDeviceControlListLink_t :: c_struct where
  "SE_ActiveEndDeviceControlListLink_t = C_Struct ''ActiveEndDeviceControlListLink''
    [Exists ''all'' 0]
    [(U32, ''_flags''), (Char_Ptr, ''href''), (SE_UInt16_t, ''all'')]"

definition SE_DemandResponseProgram_t :: c_struct where
  "SE_DemandResponseProgram_t = C_Struct ''DemandResponseProgram''
    [Exists ''description'' 0, Exists ''version'' 2, Exists ''EndDeviceControlListLink'' 5,
     Exists ''availabilityUpdatePowerChangeThreshold'' 6, Exists ''availabilityUpdatePercentChangeThreshold'' 7,
     Exists ''ActiveEndDeviceControlListLink'' 8]
    [(U32, ''_flags''), (Char_Ptr, ''href''), (SE_mRIDType_t, ''mRID''), (SE_String32_t, ''description''),
     (SE_VersionType_t, ''version''),
     (Struct ''ActiveEndDeviceControlListLink'', ''ActiveEndDeviceControlListLink''),
     (SE_PerCent_t, ''availabilityUpdatePercentChangeThreshold''),
     (Struct ''ActivePower'', ''availabilityUpdatePowerChangeThreshold''),
     (Struct ''EndDeviceControlListLink'', ''EndDeviceControlListLink''), (SE_PrimacyType_t, ''primacy'')]"

definition SE_DemandResponseProgramList_t :: c_struct where
  "SE_DemandResponseProgramList_t = C_Struct ''DemandResponseProgramList''
    [Exists ''subscribable'' 1, Exists ''pollRate'' 17]
    [(U32, ''_flags''), (Char_Ptr, ''href''), (SE_SubscribableType_t, ''subscribable''), (SE_UInt16_t, ''all''),
     (SE_UInt8_t, ''results''), (SE_UInt32_t, ''pollRate''), (List_Ptr, ''DemandResponseProgram'')]"

definition SE_DemandResponseProgramLink_t :: c_struct where
  "SE_DemandResponseProgramLink_t = C_Struct ''DemandResponseProgramLink''
    []
    [(U32, ''_flags''), (Char_Ptr, ''href'')]"

definition SE_LoadShedAvailability_t :: c_struct where
  "SE_LoadShedAvailability_t = C_Struct ''LoadShedAvailability''
    [Exists ''sheddablePower'' 5, Exists ''sheddablePercent'' 6, Exists ''DemandResponseProgramLink'' 7,
     Exists ''availabilityDuration'' 10]
    [(U32, ''_flags''), (Char_Ptr, ''href''), (SE_UInt32_t, ''availabilityDuration''),
     (Struct ''DemandResponseProgramLink'', ''DemandResponseProgramLink''), (SE_PerCent_t, ''sheddablePercent''),
     (Struct ''ActivePower'', ''sheddablePower'')]"

definition SE_LoadShedAvailabilityList_t :: c_struct where
  "SE_LoadShedAvailabilityList_t = C_Struct ''LoadShedAvailabilityList''
    [Exists ''pollRate'' 17]
    [(U32, ''_flags''), (Char_Ptr, ''href''), (SE_UInt16_t, ''all''), (SE_UInt8_t, ''results''),
     (SE_UInt32_t, ''pollRate''), (List_Ptr, ''LoadShedAvailability'')]"

definition SE_FileLink_t :: c_struct where
  "SE_FileLink_t = C_Struct ''FileLink''
    []
    [(U32, ''_flags''), (Char_Ptr, ''href'')]"

definition SE_FileStatus_t :: c_struct where
  "SE_FileStatus_t = C_Struct ''FileStatus''
    [Exists ''FileLink'' 5, Exists ''pollRate'' 17]
    [(U32, ''_flags''), (Char_Ptr, ''href''), (SE_UInt32_t, ''pollRate''), (SE_TimeType_t, ''activateTime''),
     (Struct ''FileLink'', ''FileLink''), (SE_UInt8_t, ''loadPercent''), (SE_TimeType_t, ''nextRequestAttempt''),
     (SE_UInt16_t, ''request503Count''), (SE_UInt16_t, ''requestFailCount''), (SE_UInt8_t, ''status''),
     (SE_TimeType_t, ''statusTime'')]"

definition SE_File_t :: c_struct where
  "SE_File_t = C_Struct ''File''
    [Exists ''lFDI'' 3, Exists ''mfSerNum'' 5, Exists ''mfHwVer'' 6, Exists ''activateTime'' 7]
    [(U32, ''_flags''), (Char_Ptr, ''href''), (SE_TimeType_t, ''activateTime''), (Char_Ptr, ''fileURI''),
     (SE_HexBinary160_t, ''lFDI''), (SE_String32_t, ''mfHwVer''), (SE_PENType_t, ''mfID''),
     (SE_String32_t, ''mfModel''), (SE_String32_t, ''mfSerNum''), (SE_String16_t, ''mfVer''),
     (SE_UInt32_t, ''size''), (SE_HexBinary16_t, ''type'')]"

definition SE_FileList_t :: c_struct where
  "SE_FileList_t = C_Struct ''FileList''
    [Exists ''pollRate'' 17]
    [(U32, ''_flags''), (Char_Ptr, ''href''), (SE_UInt16_t, ''all''), (SE_UInt8_t, ''results''),
     (SE_UInt32_t, ''pollRate''), (List_Ptr, ''File'')]"

definition SE_RateComponentLink_t :: c_struct where
  "SE_RateComponentLink_t = C_Struct ''RateComponentLink''
    []
    [(U32, ''_flags''), (Char_Ptr, ''href'')]"

definition SE_PriceResponseCfg_t :: c_struct where
  "SE_PriceResponseCfg_t = C_Struct ''PriceResponseCfg''
    []
    [(U32, ''_flags''), (Char_Ptr, ''href''), (SE_Int32_t, ''consumeThreshold''),
     (SE_Int32_t, ''maxReductionThreshold''), (Struct ''RateComponentLink'', ''RateComponentLink'')]"

definition SE_PriceResponseCfgList_t :: c_struct where
  "SE_PriceResponseCfgList_t = C_Struct ''PriceResponseCfgList''
    []
    [(U32, ''_flags''), (Char_Ptr, ''href''), (SE_UInt16_t, ''all''), (SE_UInt8_t, ''results''),
     (List_Ptr, ''PriceResponseCfg'')]"

definition SE_TimeConfiguration_t :: c_struct where
  "SE_TimeConfiguration_t = C_Struct ''TimeConfiguration''
    []
    [(SE_DstRuleType_t, ''dstEndRule''), (SE_TimeOffsetType_t, ''dstOffset''), (SE_DstRuleType_t, ''dstStartRule''),
     (SE_TimeOffsetType_t, ''tzOffset'')]"

definition SE_PriceResponseCfgListLink_t :: c_struct where
  "SE_PriceResponseCfgListLink_t = C_Struct ''PriceResponseCfgListLink''
    [Exists ''all'' 0]
    [(U32, ''_flags''), (Char_Ptr, ''href''), (SE_UInt16_t, ''all'')]"

definition SE_PowerConfiguration_t :: c_struct where
  "SE_PowerConfiguration_t = C_Struct ''PowerConfiguration''
    [Exists ''lowChargeThreshold'' 0, Exists ''batteryInstallTime'' 1]
    [(U32, ''_flags''), (SE_TimeType_t, ''batteryInstallTime''), (SE_UInt32_t, ''lowChargeThreshold'')]"

definition SE_Configuration_t :: c_struct where
  "SE_Configuration_t = C_Struct ''Configuration''
    [Exists ''subscribable'' 1, Exists ''TimeConfiguration'' 5, Exists ''PriceResponseCfgListLink'' 6,
     Exists ''PowerConfiguration'' 7, Exists ''pollRate'' 17]
    [(U32, ''_flags''), (Char_Ptr, ''href''), (SE_SubscribableType_t, ''subscribable''), (SE_UInt32_t, ''pollRate''),
     (SE_LocaleType_t, ''currentLocale''), (Struct ''PowerConfiguration'', ''PowerConfiguration''),
     (Struct ''PriceResponseCfgListLink'', ''PriceResponseCfgListLink''),
     (Struct ''TimeConfiguration'', ''TimeConfiguration''), (SE_String32_t, ''userDeviceName'')]"

definition SE_LogEvent_t :: c_struct where
  "SE_LogEvent_t = C_Struct ''LogEvent''
    [Exists ''extendedData'' 5, Exists ''details'' 6]
    [(U32, ''_flags''), (Char_Ptr, ''href''), (SE_TimeType_t, ''createdDateTime''), (SE_String32_t, ''details''),
     (SE_UInt32_t, ''extendedData''), (SE_UInt8_t, ''functionSet''), (SE_UInt8_t, ''logEventCode''),
     (SE_UInt16_t, ''logEventID''), (SE_PENType_t, ''logEventPEN''), (SE_UInt8_t, ''profileID'')]"

definition SE_LogEventList_t :: c_struct where
  "SE_LogEventList_t = C_Struct ''LogEventList''
    [Exists ''subscribable'' 1, Exists ''pollRate'' 17]
    [(U32, ''_flags''), (Char_Ptr, ''href''), (SE_SubscribableType_t, ''subscribable''), (SE_UInt16_t, ''all''),
     (SE_UInt8_t, ''results''), (SE_UInt32_t, ''pollRate''), (List_Ptr, ''LogEvent'')]"

definition SE_RPLSourceRoutes_t :: c_struct where
  "SE_RPLSourceRoutes_t = C_Struct ''RPLSourceRoutes''
    []
    [(U32, ''_flags''), (Char_Ptr, ''href''), (SE_HexBinary128_t, ''DestAddress''),
     (SE_HexBinary128_t, ''SourceRoute'')]"

definition SE_RPLSourceRoutesList_t :: c_struct where
  "SE_RPLSourceRoutesList_t = C_Struct ''RPLSourceRoutesList''
    []
    [(U32, ''_flags''), (Char_Ptr, ''href''), (SE_UInt16_t, ''all''), (SE_UInt8_t, ''results''),
     (List_Ptr, ''RPLSourceRoutes'')]"

definition SE_RPLSourceRoutesListLink_t :: c_struct where
  "SE_RPLSourceRoutesListLink_t = C_Struct ''RPLSourceRoutesListLink''
    [Exists ''all'' 0]
    [(U32, ''_flags''), (Char_Ptr, ''href''), (SE_UInt16_t, ''all'')]"

definition SE_RPLInstance_t :: c_struct where
  "SE_RPLInstance_t = C_Struct ''RPLInstance''
    [Exists ''RPLSourceRoutesListLink'' 5, Truth ''groundedFlag'' 6, Truth ''DODAGroot'' 7]
    [(U32, ''_flags''), (Char_Ptr, ''href''), (SE_UInt8_t, ''DODAGid''), (SE_UInt8_t, ''flags''),
     (SE_UInt8_t, ''MOP''), (SE_UInt8_t, ''PRF''), (SE_UInt16_t, ''rank''), (SE_UInt8_t, ''RPLInstanceID''),
     (Struct ''RPLSourceRoutesListLink'', ''RPLSourceRoutesListLink''), (SE_UInt8_t, ''versionNumber'')]"

definition SE_RPLInstanceList_t :: c_struct where
  "SE_RPLInstanceList_t = C_Struct ''RPLInstanceList''
    []
    [(U32, ''_flags''), (Char_Ptr, ''href''), (SE_UInt16_t, ''all''), (SE_UInt8_t, ''results''),
     (List_Ptr, ''RPLInstance'')]"

definition SE_Neighbor_t :: c_struct where
  "SE_Neighbor_t = C_Struct ''Neighbor''
    [Truth ''isChild'' 5]
    [(U32, ''_flags''), (Char_Ptr, ''href''), (SE_UInt8_t, ''linkQuality''), (SE_UInt16_t, ''shortAddress'')]"

definition SE_NeighborList_t :: c_struct where
  "SE_NeighborList_t = C_Struct ''NeighborList''
    []
    [(U32, ''_flags''), (Char_Ptr, ''href''), (SE_UInt16_t, ''all''), (SE_UInt8_t, ''results''),
     (List_Ptr, ''Neighbor'')]"

definition SE_loWPAN_t :: c_struct where
  "SE_loWPAN_t = C_Struct ''loWPAN''
    [Exists ''octetsTx'' 0, Exists ''octetsRx'' 1]
    [(U32, ''_flags''), (SE_UInt32_t, ''octetsRx''), (SE_UInt32_t, ''octetsTx''), (SE_UInt32_t, ''packetsRx''),
     (SE_UInt32_t, ''packetsTx''), (SE_UInt32_t, ''rxFragError'')]"

definition SE_NeighborListLink_t :: c_struct where
  "SE_NeighborListLink_t = C_Struct ''NeighborListLink''
    [Exists ''all'' 0]
    [(U32, ''_flags''), (Char_Ptr, ''href''), (SE_UInt16_t, ''all'')]"

definition SE_IEEE_802_15_4_t :: c_struct where
  "SE_IEEE_802_15_4_t = C_Struct ''IEEE_802_15_4''
    [Exists ''NeighborListLink'' 0]
    [(U32, ''_flags''), (SE_HexBinary8_t, ''capabilityInfo''), (Struct ''NeighborListLink'', ''NeighborListLink''),
     (SE_UInt16_t, ''shortAddress'')]"

definition SE_LLInterface_t :: c_struct where
  "SE_LLInterface_t = C_Struct ''LLInterface''
    [Exists ''loWPAN'' 5, Exists ''LLSecurityErrorRx'' 6, Exists ''LLRetryCount'' 7, Exists ''LLOctetsTx'' 8,
     Exists ''LLOctetsRx'' 9, Exists ''LLMediaAccessFail'' 10, Exists ''LLFramesTx'' 11, Exists ''LLFramesRx'' 12,
     Exists ''LLFramesDropTx'' 13, Exists ''LLFramesDropRx'' 14, Exists ''LLCSMAFail'' 15, Exists ''LLAckNotRx'' 16,
     Exists ''IEEE_802_15_4'' 17]
    [(U32, ''_flags''), (Char_Ptr, ''href''), (SE_UInt32_t, ''CRCerrors''), (SE_HexBinary64_t, ''EUI64''),
     (Struct ''IEEE_802_15_4'', ''IEEE_802_15_4''), (SE_UInt8_t, ''linkLayerType''), (SE_UInt32_t, ''LLAckNotRx''),
     (SE_UInt32_t, ''LLCSMAFail''), (SE_UInt32_t, ''LLFramesDropRx''), (SE_UInt32_t, ''LLFramesDropTx''),
     (SE_UInt32_t, ''LLFramesRx''), (SE_UInt32_t, ''LLFramesTx''), (SE_UInt32_t, ''LLMediaAccessFail''),
     (SE_UInt32_t, ''LLOctetsRx''), (SE_UInt32_t, ''LLOctetsTx''), (SE_UInt32_t, ''LLRetryCount''),
     (SE_UInt32_t, ''LLSecurityErrorRx''), (Struct ''loWPAN'', ''loWPAN'')]"

definition SE_LLInterfaceList_t :: c_struct where
  "SE_LLInterfaceList_t = C_Struct ''LLInterfaceList''
    []
    [(U32, ''_flags''), (Char_Ptr, ''href''), (SE_UInt16_t, ''all''), (SE_UInt8_t, ''results''),
     (List_Ptr, ''LLInterface'')]"

end
