(* ===== verification/Se_Structs_4.thy ===== *)
theory Se_Structs_4
  imports Se_Structs_3
begin

section \<open>The structures of IEEE 2030.5 objects, last part (core/se_types.h)\<close>

text \<open>The structures of lines 2366 to 3170 of the header.\<close>

abbreviation (input) SE_PowerSourceType_t where "SE_PowerSourceType_t \<equiv> SE_UInt8_t"
abbreviation (input) SE_UInt40_t where "SE_UInt40_t \<equiv> U64"
abbreviation (input) SE_SFDIType_t where "SE_SFDIType_t \<equiv> SE_UInt40_t"
abbreviation (input) SE_PINType_t where "SE_PINType_t \<equiv> SE_UInt32_t"

definition SE_LLInterfaceListLink_t :: c_struct where
  "SE_LLInterfaceListLink_t = C_Struct ''LLInterfaceListLink''
    [Exists ''all'' 0]
    [(U32, ''_flags''), (Char_Ptr, ''href''), (SE_UInt16_t, ''all'')]"

definition SE_IPAddrListLink_t :: c_struct where
  "SE_IPAddrListLink_t = C_Struct ''IPAddrListLink''
    [Exists ''all'' 0]
    [(U32, ''_flags''), (Char_Ptr, ''href''), (SE_UInt16_t, ''all'')]"

definition SE_IPInterface_t :: c_struct where
  "SE_IPInterface_t = C_Struct ''IPInterface''
    [Exists ''LLInterfaceListLink'' 5, Exists ''lastUpdatedTime'' 6, Exists ''lastResetTime'' 7,
     Exists ''IPAddrListLink'' 8, Exists ''ifType'' 9, Exists ''ifSpeed'' 10, Truth ''ifPromiscuousMode'' 11,
     Exists ''ifPromiscuousMode'' 12, Exists ''ifOutUcastPkts'' 13, Exists ''ifOutOctets'' 14,
     Exists ''ifOutMulticastPkts'' 15, Exists ''ifOutErrors'' 16, Exists ''ifOutDiscards'' 17,
     Exists ''ifOutBroadcastPkts'' 18, Exists ''ifOperStatus'' 19, Exists ''ifName'' 20, Exists ''ifMtu'' 21,
     Exists ''ifInUnknownProtos'' 22, Exists ''ifInUcastPkts'' 23, Exists ''ifInOctets'' 24,
     Exists ''ifInMulticastPkts'' 25, Exists ''ifInErrors'' 26, Exists ''ifInDiscards'' 27, Exists ''ifIndex'' 28,
     Exists ''ifInBroadcastPkts'' 29, Exists ''ifHighSpeed'' 30, Exists ''ifDescr'' 31]
    [(U32, ''_flags''), (Char_Ptr, ''href''), (SE_String192_t, ''ifDescr''), (SE_UInt32_t, ''ifHighSpeed''),
     (SE_UInt32_t, ''ifInBroadcastPkts''), (SE_UInt32_t, ''ifIndex''), (SE_UInt32_t, ''ifInDiscards''),
     (SE_UInt32_t, ''ifInErrors''), (SE_UInt32_t, ''ifInMulticastPkts''), (SE_UInt32_t, ''ifInOctets''),
     (SE_UInt32_t, ''ifInUcastPkts''), (SE_UInt32_t, ''ifInUnknownProtos''), (SE_UInt32_t, ''ifMtu''),
     (SE_String16_t, ''ifName''), (SE_UInt8_t, ''ifOperStatus''), (SE_UInt32_t, ''ifOutBroadcastPkts''),
     (SE_UInt32_t, ''ifOutDiscards''), (SE_UInt32_t, ''ifOutErrors''), (SE_UInt32_t, ''ifOutMulticastPkts''),
     (SE_UInt32_t, ''ifOutOctets''), (SE_UInt32_t, ''ifOutUcastPkts''), (SE_UInt32_t, ''ifSpeed''),
     (SE_UInt16_t, ''ifType''), (Struct ''IPAddrListLink'', ''IPAddrListLink''), (SE_Int64_t, ''lastResetTime''),
     (SE_Int64_t, ''lastUpdatedTime''), (Struct ''LLInterfaceListLink'', ''LLInterfaceListLink'')]"

definition SE_IPInterfaceList_t :: c_struct where
  "SE_IPInterfaceList_t = C_Struct ''IPInterfaceList''
    [Exists ''pollRate'' 17]
    [(U32, ''_flags''), (Char_Ptr, ''href''), (SE_UInt16_t, ''all''), (SE_UInt8_t, ''results''),
     (SE_UInt32_t, ''pollRate''), (List_Ptr, ''IPInterface'')]"

definition SE_RPLInstanceListLink_t :: c_struct where
  "SE_RPLInstanceListLink_t = C_Struct ''RPLInstanceListLink''
    [Exists ''all'' 0]
    [(U32, ''_flags''), (Char_Ptr, ''href''), (SE_UInt16_t, ''all'')]"

definition SE_IPAddr_t :: c_struct where
  "SE_IPAddr_t = C_Struct ''IPAddr''
    [Exists ''RPLInstanceListLink'' 5]
    [(U32, ''_flags''), (Char_Ptr, ''href''), (SE_HexBinary128_t, ''address''),
     (Struct ''RPLInstanceListLink'', ''RPLInstanceListLink'')]"

definition SE_IPAddrList_t :: c_struct where
  "SE_IPAddrList_t = C_Struct ''IPAddrList''
    []
    [(U32, ''_flags''), (Char_Ptr, ''href''), (SE_UInt16_t, ''all''), (SE_UInt8_t, ''results''),
     (List_Ptr, ''IPAddr'')]"

definition SE_PEVInfo_t :: c_struct where
  "SE_PEVInfo_t = C_Struct ''PEVInfo''
    []
    [(Struct ''ActivePower'', ''chargingPowerNow''), (Struct ''RealEnergy'', ''energyRequestNow''),
     (Struct ''ActivePower'', ''maxForwardPower''), (SE_UInt32_t, ''minimumChargingDuration''),
     (SE_PerCent_t, ''targetStateOfCharge''), (SE_TimeType_t, ''timeChargeIsNeeded''),
     (SE_TimeType_t, ''timeChargingStatusPEV'')]"

definition SE_PowerStatus_t :: c_struct where
  "SE_PowerStatus_t = C_Struct ''PowerStatus''
    [Exists ''totalTimeOnBattery'' 5, Exists ''sessionTimeOnBattery'' 6, Exists ''PEVInfo'' 7,
     Exists ''estimatedTimeRemaining'' 8, Exists ''estimatedChargeRemaining'' 9, Exists ''pollRate'' 17]
    [(U32, ''_flags''), (Char_Ptr, ''href''), (SE_UInt32_t, ''pollRate''), (SE_UInt8_t, ''batteryStatus''),
     (SE_TimeType_t, ''changedTime''), (SE_PowerSourceType_t, ''currentPowerSource''),
     (SE_PerCent_t, ''estimatedChargeRemaining''), (SE_UInt32_t, ''estimatedTimeRemaining''),
     (Struct ''PEVInfo'', ''PEVInfo''), (SE_UInt32_t, ''sessionTimeOnBattery''), (SE_UInt32_t, ''totalTimeOnBattery'')]"

definition SE_SupportedLocale_t :: c_struct where
  "SE_SupportedLocale_t = C_Struct ''SupportedLocale''
    []
    [(U32, ''_flags''), (Char_Ptr, ''href''), (SE_LocaleType_t, ''locale'')]"

definition SE_SupportedLocaleList_t :: c_struct where
  "SE_SupportedLocaleList_t = C_Struct ''SupportedLocaleList''
    []
    [(U32, ''_flags''), (Char_Ptr, ''href''), (SE_UInt16_t, ''all''), (SE_UInt8_t, ''results''),
     (List_Ptr, ''SupportedLocale'')]"

definition SE_SupportedLocaleListLink_t :: c_struct where
  "SE_SupportedLocaleListLink_t = C_Struct ''SupportedLocaleListLink''
    [Exists ''all'' 0]
    [(U32, ''_flags''), (Char_Ptr, ''href''), (SE_UInt16_t, ''all'')]"

definition SE_DRLCCapabilities_t :: c_struct where
  "SE_DRLCCapabilities_t = C_Struct ''DRLCCapabilities''
    []
    [(Struct ''RealEnergy'', ''averageEnergy''), (Struct ''ActivePower'', ''maxDemand''),
     (SE_HexBinary32_t, ''optionsImplemented'')]"

definition SE_DeviceInformation_t :: c_struct where
  "SE_DeviceInformation_t = C_Struct ''DeviceInformation''
    [Exists ''SupportedLocaleListLink'' 5, Exists ''mfInfo'' 6, Exists ''functionsImplemented'' 7,
     Exists ''DRLCCapabilities'' 8, Exists ''pollRate'' 17]
    [(U32, ''_flags''), (Char_Ptr, ''href''), (SE_UInt32_t, ''pollRate''),
     (Struct ''DRLCCapabilities'', ''DRLCCapabilities''), (SE_HexBinary64_t, ''functionsImplemented''),
     (SE_HexBinary160_t, ''lFDI''), (SE_TimeType_t, ''mfDate''), (SE_String32_t, ''mfHwVer''),
     (SE_PENType_t, ''mfID''), (SE_String32_t, ''mfInfo''), (SE_String32_t, ''mfModel''),
     (SE_String32_t, ''mfSerNum''), (SE_PowerSourceType_t, ''primaryPower''),
     (SE_PowerSourceType_t, ''secondaryPower''), (Struct ''SupportedLocaleListLink'', ''SupportedLocaleListLink''),
     (SE_TimeType_t, ''swActTime''), (SE_String32_t, ''swVer'')]"

definition SE_Time_t :: c_struct where
  "SE_Time_t = C_Struct ''Time''
    [Exists ''localTime'' 5, Exists ''pollRate'' 17]
    [(U32, ''_flags''), (Char_Ptr, ''href''), (SE_UInt32_t, ''pollRate''), (SE_TimeType_t, ''currentTime''),
     (SE_TimeType_t, ''dstEndTime''), (SE_TimeOffsetType_t, ''dstOffset''), (SE_TimeType_t, ''dstStartTime''),
     (SE_TimeType_t, ''localTime''), (SE_UInt8_t, ''quality''), (SE_TimeOffsetType_t, ''tzOffset'')]"

definition SE_Response_t :: c_struct where
  "SE_Response_t = C_Struct ''Response''
    [Exists ''status'' 5, Exists ''createdDateTime'' 6]
    [(U32, ''_flags''), (Char_Ptr, ''href''), (SE_TimeType_t, ''createdDateTime''),
     (SE_HexBinary160_t, ''endDeviceLFDI''), (SE_UInt8_t, ''status''), (SE_mRIDType_t, ''subject'')]"

definition SE_TextResponse_t :: c_struct where
  "SE_TextResponse_t = C_Struct ''TextResponse''
    [Exists ''status'' 5, Exists ''createdDateTime'' 6]
    [(U32, ''_flags''), (Char_Ptr, ''href''), (SE_TimeType_t, ''createdDateTime''),
     (SE_HexBinary160_t, ''endDeviceLFDI''), (SE_UInt8_t, ''status''), (SE_mRIDType_t, ''subject'')]"

definition SE_ResponseListLink_t :: c_struct where
  "SE_ResponseListLink_t = C_Struct ''ResponseListLink''
    [Exists ''all'' 0]
    [(U32, ''_flags''), (Char_Ptr, ''href''), (SE_UInt16_t, ''all'')]"

definition SE_ResponseSet_t :: c_struct where
  "SE_ResponseSet_t = C_Struct ''ResponseSet''
    [Exists ''description'' 0, Exists ''version'' 2, Exists ''ResponseListLink'' 5]
    [(U32, ''_flags''), (Char_Ptr, ''href''), (SE_mRIDType_t, ''mRID''), (SE_String32_t, ''description''),
     (SE_VersionType_t, ''version''), (Struct ''ResponseListLink'', ''ResponseListLink'')]"

definition SE_ResponseSetList_t :: c_struct where
  "SE_ResponseSetList_t = C_Struct ''ResponseSetList''
    [Exists ''pollRate'' 17]
    [(U32, ''_flags''), (Char_Ptr, ''href''), (SE_UInt16_t, ''all''), (SE_UInt8_t, ''results''),
     (SE_UInt32_t, ''pollRate''), (List_Ptr, ''ResponseSet'')]"

definition SE_ResponseList_t :: c_struct where
  "SE_ResponseList_t = C_Struct ''ResponseList''
    []
    [(U32, ''_flags''), (Char_Ptr, ''href''), (SE_UInt16_t, ''all''), (SE_UInt8_t, ''results''),
     (List_Ptr, ''Response'')]"

definition SE_PriceResponse_t :: c_struct where
  "SE_PriceResponse_t = C_Struct ''PriceResponse''
    [Exists ''status'' 5, Exists ''createdDateTime'' 6]
    [(U32, ''_flags''), (Char_Ptr, ''href''), (SE_TimeType_t, ''createdDateTime''),
     (SE_HexBinary160_t, ''endDeviceLFDI''), (SE_UInt8_t, ''status''), (SE_mRIDType_t, ''subject'')]"

definition SE_AppliedTargetReduction_t :: c_struct where
  "SE_AppliedTargetReduction_t = C_Struct ''AppliedTargetReduction''
    []
    [(SE_UnitType_t, ''type''), (SE_UInt16_t, ''value'')]"

definition SE_DrResponse_t :: c_struct where
  "SE_DrResponse_t = C_Struct ''DrResponse''
    [Exists ''status'' 5, Exists ''createdDateTime'' 6, Exists ''AppliedTargetReduction'' 7,
     Exists ''ApplianceLoadReduction'' 11, Exists ''DutyCycle'' 12, Exists ''Offset'' 13,
     Exists ''overrideDuration'' 14, Exists ''SetPoint'' 15]
    [(U32, ''_flags''), (Char_Ptr, ''href''), (SE_TimeType_t, ''createdDateTime''),
     (SE_HexBinary160_t, ''endDeviceLFDI''), (SE_UInt8_t, ''status''), (SE_mRIDType_t, ''subject''),
     (Struct ''ApplianceLoadReduction'', ''ApplianceLoadReduction''),
     (Struct ''AppliedTargetReduction'', ''AppliedTargetReduction''), (Struct ''DutyCycle'', ''DutyCycle''),
     (Struct ''Offset'', ''Offset''), (SE_UInt16_t, ''overrideDuration''), (Struct ''SetPoint'', ''SetPoint'')]"

definition SE_FlowReservationResponseResponse_t :: c_struct where
  "SE_FlowReservationResponseResponse_t = C_Struct ''FlowReservationResponseResponse''
    [Exists ''status'' 5, Exists ''createdDateTime'' 6]
    [(U32, ''_flags''), (Char_Ptr, ''href''), (SE_TimeType_t, ''createdDateTime''),
     (SE_HexBinary160_t, ''endDeviceLFDI''), (SE_UInt8_t, ''status''), (SE_mRIDType_t, ''subject'')]"

definition SE_DERControlResponse_t :: c_struct where
  "SE_DERControlResponse_t = C_Struct ''DERControlResponse''
    [Exists ''status'' 5, Exists ''createdDateTime'' 6]
    [(U32, ''_flags''), (Char_Ptr, ''href''), (SE_TimeType_t, ''createdDateTime''),
     (SE_HexBinary160_t, ''endDeviceLFDI''), (SE_UInt8_t, ''status''), (SE_mRIDType_t, ''subject'')]"

definition SE_SubscriptionBase_t :: c_struct where
  "SE_SubscriptionBase_t = C_Struct ''SubscriptionBase''
    []
    [(U32, ''_flags''), (Char_Ptr, ''href''), (Char_Ptr, ''subscribedResource'')]"

definition SE_Notification_t :: c_struct where
  "SE_Notification_t = C_Struct ''Notification''
    [Exists ''Resource'' 5]
    [(U32, ''_flags''), (Char_Ptr, ''href''), (Char_Ptr, ''subscribedResource''), (Char_Ptr, ''newResourceURI''),
     (Struct ''Resource'', ''Resource''), (SE_UInt8_t, ''status''), (Char_Ptr, ''subscriptionURI'')]"

definition SE_NotificationList_t :: c_struct where
  "SE_NotificationList_t = C_Struct ''NotificationList''
    []
    [(U32, ''_flags''), (Char_Ptr, ''href''), (SE_UInt16_t, ''all''), (SE_UInt8_t, ''results''),
     (List_Ptr, ''Notification'')]"

definition SE_Condition_t :: c_struct where
  "SE_Condition_t = C_Struct ''Condition''
    []
    [(SE_UInt8_t, ''attributeIdentifier''), (SE_Int48_t, ''lowerThreshold''), (SE_Int48_t, ''upperThreshold'')]"

definition SE_Subscription_t :: c_struct where
  "SE_Subscription_t = C_Struct ''Subscription''
    [Exists ''Condition'' 5]
    [(U32, ''_flags''), (Char_Ptr, ''href''), (Char_Ptr, ''subscribedResource''),
     (Struct ''Condition'', ''Condition''), (SE_UInt8_t, ''encoding''), (SE_String16_t, ''level''),
     (SE_UInt16_t, ''limit''), (Char_Ptr, ''notificationURI'')]"

definition SE_SubscriptionList_t :: c_struct where
  "SE_SubscriptionList_t = C_Struct ''SubscriptionList''
    [Exists ''pollRate'' 17]
    [(U32, ''_flags''), (Char_Ptr, ''href''), (SE_UInt16_t, ''all''), (SE_UInt8_t, ''results''),
     (SE_UInt32_t, ''pollRate''), (List_Ptr, ''Subscription'')]"

definition SE_UsagePointListLink_t :: c_struct where
  "SE_UsagePointListLink_t = C_Struct ''UsagePointListLink''
    [Exists ''all'' 0]
    [(U32, ''_flags''), (Char_Ptr, ''href''), (SE_UInt16_t, ''all'')]"

definition SE_TimeLink_t :: c_struct where
  "SE_TimeLink_t = C_Struct ''TimeLink''
    []
    [(U32, ''_flags''), (Char_Ptr, ''href'')]"

definition SE_TariffProfileListLink_t :: c_struct where
  "SE_TariffProfileListLink_t = C_Struct ''TariffProfileListLink''
    [Exists ''all'' 0]
    [(U32, ''_flags''), (Char_Ptr, ''href''), (SE_UInt16_t, ''all'')]"

definition SE_ResponseSetListLink_t :: c_struct where
  "SE_ResponseSetListLink_t = C_Struct ''ResponseSetListLink''
    [Exists ''all'' 0]
    [(U32, ''_flags''), (Char_Ptr, ''href''), (SE_UInt16_t, ''all'')]"

definition SE_PrepaymentListLink_t :: c_struct where
  "SE_PrepaymentListLink_t = C_Struct ''PrepaymentListLink''
    [Exists ''all'' 0]
    [(U32, ''_flags''), (Char_Ptr, ''href''), (SE_UInt16_t, ''all'')]"

definition SE_MessagingProgramListLink_t :: c_struct where
  "SE_MessagingProgramListLink_t = C_Struct ''MessagingProgramListLink''
    [Exists ''all'' 0]
    [(U32, ''_flags''), (Char_Ptr, ''href''), (SE_UInt16_t, ''all'')]"

definition SE_FileListLink_t :: c_struct where
  "SE_FileListLink_t = C_Struct ''FileListLink''
    [Exists ''all'' 0]
    [(U32, ''_flags''), (Char_Ptr, ''href''), (SE_UInt16_t, ''all'')]"

definition SE_DERProgramListLink_t :: c_struct where
  "SE_DERProgramListLink_t = C_Struct ''DERProgramListLink''
    [Exists ''all'' 0]
    [(U32, ''_flags''), (Char_Ptr, ''href''), (SE_UInt16_t, ''all'')]"

definition SE_DemandResponseProgramListLink_t :: c_struct where
  "SE_DemandResponseProgramListLink_t = C_Struct ''DemandResponseProgramListLink''
    [Exists ''all'' 0]
    [(U32, ''_flags''), (Char_Ptr, ''href''), (SE_UInt16_t, ''all'')]"

definition SE_CustomerAccountListLink_t :: c_struct where
  "SE_CustomerAccountListLink_t = C_Struct ''CustomerAccountListLink''
    [Exists ''all'' 0]
    [(U32, ''_flags''), (Char_Ptr, ''href''), (SE_UInt16_t, ''all'')]"

definition SE_FunctionSetAssignmentsBase_t :: c_struct where
  "SE_FunctionSetAssignmentsBase_t = C_Struct ''FunctionSetAssignmentsBase''
    [Exists ''description'' 0, Exists ''TimeLink'' 4, Exists ''UsagePointListLink'' 5,
     Exists ''TariffProfileListLink'' 6, Exists ''ResponseSetListLink'' 7, Exists ''PrepaymentListLink'' 8,
     Exists ''MessagingProgramListLink'' 9, Exists ''FileListLink'' 10, Exists ''DERProgramListLink'' 11,
     Exists ''DemandResponseProgramListLink'' 12, Exists ''CustomerAccountListLink'' 13]
    [(U32, ''_flags''), (Char_Ptr, ''href''), (Struct ''CustomerAccountListLink'', ''CustomerAccountListLink''),
     (Struct ''DemandResponseProgramListLink'', ''DemandResponseProgramListLink''),
     (Struct ''DERProgramListLink'', ''DERProgramListLink''), (Struct ''FileListLink'', ''FileListLink''),
     (Struct ''MessagingProgramListLink'', ''MessagingProgramListLink''),
     (Struct ''PrepaymentListLink'', ''PrepaymentListLink''),
     (Struct ''ResponseSetListLink'', ''ResponseSetListLink''),
     (Struct ''TariffProfileListLink'', ''TariffProfileListLink''), (Struct ''TimeLink'', ''TimeLink''),
     (Struct ''UsagePointListLink'', ''UsagePointListLink'')]"

definition SE_FunctionSetAssignments_t :: c_struct where
  "SE_FunctionSetAssignments_t = C_Struct ''FunctionSetAssignments''
    [Exists ''description'' 0, Exists ''subscribable'' 1, Exists ''version'' 2, Exists ''TimeLink'' 4,
     Exists ''UsagePointListLink'' 5, Exists ''TariffProfileListLink'' 6, Exists ''ResponseSetListLink'' 7,
     Exists ''PrepaymentListLink'' 8, Exists ''MessagingProgramListLink'' 9, Exists ''FileListLink'' 10,
     Exists ''DERProgramListLink'' 11, Exists ''DemandResponseProgramListLink'' 12,
     Exists ''CustomerAccountListLink'' 13]
    [(U32, ''_flags''), (Char_Ptr, ''href''), (Struct ''CustomerAccountListLink'', ''CustomerAccountListLink''),
     (Struct ''DemandResponseProgramListLink'', ''DemandResponseProgramListLink''),
     (Struct ''DERProgramListLink'', ''DERProgramListLink''), (Struct ''FileListLink'', ''FileListLink''),
     (Struct ''MessagingProgramListLink'', ''MessagingProgramListLink''),
     (Struct ''PrepaymentListLink'', ''PrepaymentListLink''),
     (Struct ''ResponseSetListLink'', ''ResponseSetListLink''),
     (Struct ''TariffProfileListLink'', ''TariffProfileListLink''), (Struct ''TimeLink'', ''TimeLink''),
     (Struct ''UsagePointListLink'', ''UsagePointListLink''), (SE_SubscribableType_t, ''subscribable''),
     (SE_mRIDType_t, ''mRID''), (SE_String32_t, ''description''), (SE_VersionType_t, ''version'')]"

definition SE_FunctionSetAssignmentsList_t :: c_struct where
  "SE_FunctionSetAssignmentsList_t = C_Struct ''FunctionSetAssignmentsList''
    [Exists ''subscribable'' 1, Exists ''pollRate'' 17]
    [(U32, ''_flags''), (Char_Ptr, ''href''), (SE_SubscribableType_t, ''subscribable''), (SE_UInt16_t, ''all''),
     (SE_UInt8_t, ''results''), (SE_UInt32_t, ''pollRate''), (List_Ptr, ''FunctionSetAssignments'')]"

definition SE_PowerStatusLink_t :: c_struct where
  "SE_PowerStatusLink_t = C_Struct ''PowerStatusLink''
    []
    [(U32, ''_flags''), (Char_Ptr, ''href'')]"

definition SE_LogEventListLink_t :: c_struct where
  "SE_LogEventListLink_t = C_Struct ''LogEventListLink''
    [Exists ''all'' 0]
    [(U32, ''_flags''), (Char_Ptr, ''href''), (SE_UInt16_t, ''all'')]"

definition SE_LoadShedAvailabilityListLink_t :: c_struct where
  "SE_LoadShedAvailabilityListLink_t = C_Struct ''LoadShedAvailabilityListLink''
    [Exists ''all'' 0]
    [(U32, ''_flags''), (Char_Ptr, ''href''), (SE_UInt16_t, ''all'')]"

definition SE_IPInterfaceListLink_t :: c_struct where
  "SE_IPInterfaceListLink_t = C_Struct ''IPInterfaceListLink''
    [Exists ''all'' 0]
    [(U32, ''_flags''), (Char_Ptr, ''href''), (SE_UInt16_t, ''all'')]"

definition SE_FileStatusLink_t :: c_struct where
  "SE_FileStatusLink_t = C_Struct ''FileStatusLink''
    []
    [(U32, ''_flags''), (Char_Ptr, ''href'')]"

definition SE_DeviceStatusLink_t :: c_struct where
  "SE_DeviceStatusLink_t = C_Struct ''DeviceStatusLink''
    []
    [(U32, ''_flags''), (Char_Ptr, ''href'')]"

definition SE_DeviceInformationLink_t :: c_struct where
  "SE_DeviceInformationLink_t = C_Struct ''DeviceInformationLink''
    []
    [(U32, ''_flags''), (Char_Ptr, ''href'')]"

definition SE_DERListLink_t :: c_struct where
  "SE_DERListLink_t = C_Struct ''DERListLink''
    [Exists ''all'' 0]
    [(U32, ''_flags''), (Char_Ptr, ''href''), (SE_UInt16_t, ''all'')]"

definition SE_ConfigurationLink_t :: c_struct where
  "SE_ConfigurationLink_t = C_Struct ''ConfigurationLink''
    []
    [(U32, ''_flags''), (Char_Ptr, ''href'')]"

definition SE_AbstractDevice_t :: c_struct where
  "SE_AbstractDevice_t = C_Struct ''AbstractDevice''
    [Exists ''subscribable'' 1, Exists ''lFDI'' 3, Exists ''PowerStatusLink'' 5, Exists ''LogEventListLink'' 6,
     Exists ''loadShedDeviceCategory'' 7, Exists ''LoadShedAvailabilityListLink'' 8,
     Exists ''IPInterfaceListLink'' 9, Exists ''FileStatusLink'' 10, Exists ''DeviceStatusLink'' 11,
     Exists ''DeviceInformationLink'' 12, Exists ''DERListLink'' 13, Exists ''ConfigurationLink'' 14]
    [(U32, ''_flags''), (Char_Ptr, ''href''), (SE_SubscribableType_t, ''subscribable''),
     (Struct ''ConfigurationLink'', ''ConfigurationLink''), (Struct ''DERListLink'', ''DERListLink''),
     (Struct ''DeviceInformationLink'', ''DeviceInformationLink''),
     (Struct ''DeviceStatusLink'', ''DeviceStatusLink''), (Struct ''FileStatusLink'', ''FileStatusLink''),
     (Struct ''IPInterfaceListLink'', ''IPInterfaceListLink''), (SE_HexBinary160_t, ''lFDI''),
     (Struct ''LoadShedAvailabilityListLink'', ''LoadShedAvailabilityListLink''),
     (SE_DeviceCategoryType_t, ''loadShedDeviceCategory''), (Struct ''LogEventListLink'', ''LogEventListLink''),
     (Struct ''PowerStatusLink'', ''PowerStatusLink''), (SE_SFDIType_t, ''sFDI'')]"

definition SE_SelfDevice_t :: c_struct where
  "SE_SelfDevice_t = C_Struct ''SelfDevice''
    [Exists ''subscribable'' 1, Exists ''lFDI'' 3, Exists ''PowerStatusLink'' 5, Exists ''LogEventListLink'' 6,
     Exists ''loadShedDeviceCategory'' 7, Exists ''LoadShedAvailabilityListLink'' 8,
     Exists ''IPInterfaceListLink'' 9, Exists ''FileStatusLink'' 10, Exists ''DeviceStatusLink'' 11,
     Exists ''DeviceInformationLink'' 12, Exists ''DERListLink'' 13, Exists ''ConfigurationLink'' 14,
     Exists ''pollRate'' 17]
    [(U32, ''_flags''), (Char_Ptr, ''href''), (SE_SubscribableType_t, ''subscribable''),
     (Struct ''ConfigurationLink'', ''ConfigurationLink''), (Struct ''DERListLink'', ''DERListLink''),
     (Struct ''DeviceInformationLink'', ''DeviceInformationLink''),
     (Struct ''DeviceStatusLink'', ''DeviceStatusLink''), (Struct ''FileStatusLink'', ''FileStatusLink''),
     (Struct ''IPInterfaceListLink'', ''IPInterfaceListLink''), (SE_HexBinary160_t, ''lFDI''),
     (Struct ''LoadShedAvailabilityListLink'', ''LoadShedAvailabilityListLink''),
     (SE_DeviceCategoryType_t, ''loadShedDeviceCategory''), (Struct ''LogEventListLink'', ''LogEventListLink''),
     (Struct ''PowerStatusLink'', ''PowerStatusLink''), (SE_SFDIType_t, ''sFDI''), (SE_UInt32_t, ''pollRate'')]"

definition SE_Registration_t :: c_struct where
  "SE_Registration_t = C_Struct ''Registration''
    [Exists ''pollRate'' 17]
    [(U32, ''_flags''), (Char_Ptr, ''href''), (SE_UInt32_t, ''pollRate''), (SE_TimeType_t, ''dateTimeRegistered''),
     (SE_PINType_t, ''pIN'')]"

definition SE_SubscriptionListLink_t :: c_struct where
  "SE_SubscriptionListLink_t = C_Struct ''SubscriptionListLink''
    [Exists ''all'' 0]
    [(U32, ''_flags''), (Char_Ptr, ''href''), (SE_UInt16_t, ''all'')]"

definition SE_RegistrationLink_t :: c_struct where
  "SE_RegistrationLink_t = C_Struct ''RegistrationLink''
    []
    [(U32, ''_flags''), (Char_Ptr, ''href'')]"

definition SE_FunctionSetAssignmentsListLink_t :: c_struct where
  "SE_FunctionSetAssignmentsListLink_t = C_Struct ''FunctionSetAssignmentsListLink''
    [Exists ''all'' 0]
    [(U32, ''_flags''), (Char_Ptr, ''href''), (SE_UInt16_t, ''all'')]"

definition SE_FlowReservationResponseListLink_t :: c_struct where
  "SE_FlowReservationResponseListLink_t = C_Struct ''FlowReservationResponseListLink''
    [Exists ''all'' 0]
    [(U32, ''_flags''), (Char_Ptr, ''href''), (SE_UInt16_t, ''all'')]"

definition SE_FlowReservationRequestListLink_t :: c_struct where
  "SE_FlowReservationRequestListLink_t = C_Struct ''FlowReservationRequestListLink''
    [Exists ''all'' 0]
    [(U32, ''_flags''), (Char_Ptr, ''href''), (SE_UInt16_t, ''all'')]"

definition SE_EndDevice_t :: c_struct where
  "SE_EndDevice_t = C_Struct ''EndDevice''
    [Exists ''subscribable'' 1, Exists ''lFDI'' 3, Exists ''PowerStatusLink'' 5, Exists ''LogEventListLink'' 6,
     Exists ''loadShedDeviceCategory'' 7, Exists ''LoadShedAvailabilityListLink'' 8,
     Exists ''IPInterfaceListLink'' 9, Exists ''FileStatusLink'' 10, Exists ''DeviceStatusLink'' 11,
     Exists ''DeviceInformationLink'' 12, Exists ''DERListLink'' 13, Exists ''ConfigurationLink'' 14,
     Exists ''SubscriptionListLink'' 15, Exists ''RegistrationLink'' 16,
     Exists ''FunctionSetAssignmentsListLink'' 17, Exists ''FlowReservationResponseListLink'' 18,
     Exists ''FlowReservationRequestListLink'' 19, Truth ''enabled'' 20, Exists ''enabled'' 21]
    [(U32, ''_flags''), (Char_Ptr, ''href''), (SE_SubscribableType_t, ''subscribable''),
     (Struct ''ConfigurationLink'', ''ConfigurationLink''), (Struct ''DERListLink'', ''DERListLink''),
     (Struct ''DeviceInformationLink'', ''DeviceInformationLink''),
     (Struct ''DeviceStatusLink'', ''DeviceStatusLink''), (Struct ''FileStatusLink'', ''FileStatusLink''),
     (Struct ''IPInterfaceListLink'', ''IPInterfaceListLink''), (SE_HexBinary160_t, ''lFDI''),
     (Struct ''LoadShedAvailabilityListLink'', ''LoadShedAvailabilityListLink''),
     (SE_DeviceCategoryType_t, ''loadShedDeviceCategory''), (Struct ''LogEventListLink'', ''LogEventListLink''),
     (Struct ''PowerStatusLink'', ''PowerStatusLink''), (SE_SFDIType_t, ''sFDI''), (SE_TimeType_t, ''changedTime''),
     (Struct ''FlowReservationRequestListLink'', ''FlowReservationRequestListLink''),
     (Struct ''FlowReservationResponseListLink'', ''FlowReservationResponseListLink''),
     (Struct ''FunctionSetAssignmentsListLink'', ''FunctionSetAssignmentsListLink''),
     (Struct ''RegistrationLink'', ''RegistrationLink''), (Struct ''SubscriptionListLink'', ''SubscriptionListLink'')]"

definition SE_EndDeviceList_t :: c_struct where
  "SE_EndDeviceList_t = C_Struct ''EndDeviceList''
    [Exists ''subscribable'' 1, Exists ''pollRate'' 17]
    [(U32, ''_flags''), (Char_Ptr, ''href''), (SE_SubscribableType_t, ''subscribable''), (SE_UInt16_t, ''all''),
     (SE_UInt8_t, ''results''), (SE_UInt32_t, ''pollRate''), (List_Ptr, ''EndDevice'')]"

definition SE_Temperature_t :: c_struct where
  "SE_Temperature_t = C_Struct ''Temperature''
    []
    [(SE_PowerOfTenMultiplierType_t, ''multiplier''), (SE_UInt8_t, ''subject''), (SE_Int16_t, ''value'')]"

definition SE_DeviceStatus_t :: c_struct where
  "SE_DeviceStatus_t = C_Struct ''DeviceStatus''
    [Exists ''TimeLink'' 4, Exists ''opTime'' 5, Exists ''opState'' 6, Exists ''onCount'' 7, Exists ''pollRate'' 17]
    [(U32, ''_flags''), (Char_Ptr, ''href''), (SE_UInt32_t, ''pollRate''), (SE_TimeType_t, ''changedTime''),
     (SE_UInt16_t, ''onCount''), (SE_UInt8_t, ''opState''), (SE_UInt32_t, ''opTime''), (List_Ptr, ''Temperature''),
     (Struct ''TimeLink'', ''TimeLink'')]"

definition SE_SelfDeviceLink_t :: c_struct where
  "SE_SelfDeviceLink_t = C_Struct ''SelfDeviceLink''
    []
    [(U32, ''_flags''), (Char_Ptr, ''href'')]"

definition SE_MirrorUsagePointListLink_t :: c_struct where
  "SE_MirrorUsagePointListLink_t = C_Struct ''MirrorUsagePointListLink''
    [Exists ''all'' 0]
    [(U32, ''_flags''), (Char_Ptr, ''href''), (SE_UInt16_t, ''all'')]"

definition SE_EndDeviceListLink_t :: c_struct where
  "SE_EndDeviceListLink_t = C_Struct ''EndDeviceListLink''
    [Exists ''all'' 0]
    [(U32, ''_flags''), (Char_Ptr, ''href''), (SE_UInt16_t, ''all'')]"

definition SE_DeviceCapability_t :: c_struct where
  "SE_DeviceCapability_t = C_Struct ''DeviceCapability''
    [Exists ''TimeLink'' 4, Exists ''UsagePointListLink'' 5, Exists ''TariffProfileListLink'' 6,
     Exists ''ResponseSetListLink'' 7, Exists ''PrepaymentListLink'' 8, Exists ''MessagingProgramListLink'' 9,
     Exists ''FileListLink'' 10, Exists ''DERProgramListLink'' 11, Exists ''DemandResponseProgramListLink'' 12,
     Exists ''CustomerAccountListLink'' 13, Exists ''SelfDeviceLink'' 14, Exists ''MirrorUsagePointListLink'' 15,
     Exists ''EndDeviceListLink'' 16, Exists ''pollRate'' 17]
    [(U32, ''_flags''), (Char_Ptr, ''href''), (Struct ''CustomerAccountListLink'', ''CustomerAccountListLink''),
     (Struct ''DemandResponseProgramListLink'', ''DemandResponseProgramListLink''),
     (Struct ''DERProgramListLink'', ''DERProgramListLink''), (Struct ''FileListLink'', ''FileListLink''),
     (Struct ''MessagingProgramListLink'', ''MessagingProgramListLink''),
     (Struct ''PrepaymentListLink'', ''PrepaymentListLink''),
     (Struct ''ResponseSetListLink'', ''ResponseSetListLink''),
     (Struct ''TariffProfileListLink'', ''TariffProfileListLink''), (Struct ''TimeLink'', ''TimeLink''),
     (Struct ''UsagePointListLink'', ''UsagePointListLink''), (SE_UInt32_t, ''pollRate''),
     (Struct ''EndDeviceListLink'', ''EndDeviceListLink''),
     (Struct ''MirrorUsagePointListLink'', ''MirrorUsagePointListLink''),
     (Struct ''SelfDeviceLink'', ''SelfDeviceLink'')]"

end
