(* ===== verification/Se_Layout.thy ===== *)
theory Se_Layout
  imports Se_Names Se_Structs_4
begin

section \<open>The schema table agrees with the structures (core/se_schema.c, se_types.h)\<close>

text \<open>
  The parsers write through the table: the value of an element goes to the member at the offset of the
  element, with the width of the type of the element, and sets the bits of the element. The application
  reads the member through the structure and the bits through the macros of the header. Here the table
  with its offsets is compared with the header.
\<close>

subsection \<open>The offsets of the table\<close>

text \<open>
  For each head of the table, with its index, the structure of \<open>sizeof\<close> and the members of \<open>offsetof\<close>; an element
  without an offset is a boolean, which has no member.
\<close>

type_synonym layout = "(int \<times> c_struct \<times> string option list) list"

abbreviation (input) At where "At x \<equiv> Some x"

definition se_layout_3 :: layout where
  "se_layout_3 = [
     (321, SE_UnitValueType_t, [At ''multiplier'', At ''unit'', At ''value'']),
     (325, SE_Resource_t, [At ''href'']),
     (327, SE_ReadingType_t, [At ''href'', At ''accumulationBehaviour'', At ''calorificValue'', At ''commodity'',
     At ''conversionFactor'', At ''dataQualifier'', At ''flowDirection'', At ''intervalLength'', At ''kind'',
     At ''maxNumberOfIntervals'', At ''numberOfConsumptionBlocks'', At ''numberOfTouTiers'', At ''phase'',
     At ''powerOfTenMultiplier'', At ''subIntervalLength'', At ''supplyLimit'', None, At ''uom'']),
     (346, SE_DateTimeInterval_t, [At ''duration'', At ''start'']),
     (349, SE_ReadingBase_t, [At ''href'', At ''consumptionBlock'', At ''qualityFlags'', At ''timePeriod'',
     At ''touTier'', At ''value'']),
     (356, SE_Reading_t, [At ''href'', At ''subscribable'', At ''consumptionBlock'', At ''qualityFlags'',
     At ''timePeriod'', At ''touTier'', At ''value'', At ''localID'']),
     (365, SE_IdentifiedObject_t, [At ''href'', At ''mRID'', At ''description'', At ''version'']),
     (370, SE_ReadingSetBase_t, [At ''href'', At ''mRID'', At ''description'', At ''version'', At ''timePeriod'']),
     (376, SE_MirrorReadingSet_t, [At ''href'', At ''mRID'', At ''description'', At ''version'', At ''timePeriod'',
     At ''Reading'']),
     (383, SE_MeterReadingBase_t, [At ''href'', At ''mRID'', At ''description'', At ''version'']),
     (388, SE_MirrorMeterReading_t, [At ''href'', At ''mRID'', At ''description'', At ''version'',
     At ''lastUpdateTime'', At ''MirrorReadingSet'', At ''nextUpdateTime'', At ''Reading'', At ''ReadingType'']),
     (398, SE_UsagePointBase_t, [At ''href'', At ''mRID'', At ''description'', At ''version'', At ''roleFlags'',
     At ''serviceCategoryKind'', At ''status'']),
     (406, SE_MirrorUsagePoint_t, [At ''href'', At ''mRID'', At ''description'', At ''version'', At ''roleFlags'',
     At ''serviceCategoryKind'', At ''status'', At ''deviceLFDI'', At ''MirrorMeterReading'', At ''postRate'']),
     (417, SE_List_t, [At ''all'', At ''href'', At ''results'']),
     (421, SE_MirrorUsagePointList_t, [At ''all'', At ''href'', At ''pollRate'', At ''results'',
     At ''MirrorUsagePoint'']),
     (427, SE_MirrorMeterReadingList_t, [At ''all'', At ''href'', At ''results'', At ''MirrorMeterReading''])]"

definition se_layout_4 :: layout where
  "se_layout_4 = [
     (432, SE_Error_t, [At ''maxRetryDuration'', At ''reasonCode'']),
     (435, SE_RespondableResource_t, [At ''href'', At ''replyTo'', At ''responseRequired'']),
     (439, SE_RespondableIdentifiedObject_t, [At ''href'', At ''replyTo'', At ''responseRequired'', At ''mRID'',
     At ''description'', At ''version'']),
     (446, SE_Link_t, [At ''href'']),
     (448, SE_ListLink_t, [At ''all'', At ''href'']),
     (451, SE_NotificationListLink_t, [At ''all'', At ''href'']),
     (454, SE_MeterReadingLink_t, [At ''href'']),
     (456, SE_EndDeviceLink_t, [At ''href'']),
     (458, SE_DeviceCapabilityLink_t, [At ''href'']),
     (460, SE_DERProgramLink_t, [At ''href'']),
     (462, SE_DERLink_t, [At ''href'']),
     (464, SE_CustomerAccountLink_t, [At ''href'']),
     (466, SE_ActiveFlowReservationListLink_t, [At ''all'', At ''href'']),
     (469, SE_UnsignedFixedPointType_t, [At ''multiplier'', At ''value'']),
     (472, SE_FixedPointType_t, [At ''multiplier'', At ''value'']),
     (475, SE_StorageModeStatusType_t, [At ''dateTime'', At ''value'']),
     (478, SE_StateOfChargeStatusType_t, [At ''dateTime'', At ''value'']),
     (481, SE_OperationalModeStatusType_t, [At ''dateTime'', At ''value'']),
     (484, SE_ManufacturerStatusType_t, [At ''dateTime'', At ''value'']),
     (487, SE_LocalControlModeStatusType_t, [At ''dateTime'', At ''value'']),
     (490, SE_InverterStatusType_t, [At ''dateTime'', At ''value'']),
     (493, SE_ConnectStatusType_t, [At ''dateTime'', At ''value'']),
     (496, SE_SubscribableResource_t, [At ''href'', At ''subscribable'']),
     (499, SE_DERStatus_t, [At ''href'', At ''subscribable'', At ''genConnectStatus'', At ''inverterStatus'',
     At ''localControlModeStatus'', At ''manufacturerStatus'', At ''operationalModeStatus'', At ''readingTime'',
     At ''stateOfChargeStatus'', At ''storageModeStatus'', At ''storConnectStatus'']),
     (511, SE_DERCurveListLink_t, [At ''all'', At ''href'']),
     (514, SE_DERControlListLink_t, [At ''all'', At ''href'']),
     (517, SE_DefaultDERControlLink_t, [At ''href'']),
     (519, SE_ActiveDERControlListLink_t, [At ''all'', At ''href'']),
     (522, SE_SubscribableIdentifiedObject_t, [At ''href'', At ''subscribable'', At ''mRID'', At ''description'',
     At ''version'']),
     (528, SE_DERProgram_t, [At ''href'', At ''subscribable'', At ''mRID'', At ''description'', At ''version'',
     At ''ActiveDERControlListLink'', At ''DefaultDERControlLink'', At ''DERControlListLink'',
     At ''DERCurveListLink'', At ''primacy'']),
     (539, SE_SubscribableList_t, [At ''all'', At ''href'', At ''results'', At ''subscribable''])]"

definition se_layout_5 :: layout where
  "se_layout_5 = [
     (544, SE_DERProgramList_t, [At ''all'', At ''href'', At ''pollRate'', At ''results'', At ''subscribable'',
     At ''DERProgram'']),
     (551, SE_CurveData_t, [At ''xvalue'', At ''yvalue'']),
     (554, SE_DERCurve_t, [At ''href'', At ''mRID'', At ''description'', At ''version'', At ''creationTime'',
     At ''CurveData'', At ''curveType'', At ''openLoopTms'', At ''rampDecTms'', At ''rampIncTms'', At ''rampPT1Tms'',
     At ''xMultiplier'', At ''yMultiplier'', At ''yRefType'']),
     (569, SE_DERCurveList_t, [At ''all'', At ''href'', At ''results'', At ''DERCurve'']),
     (574, SE_ActivePower_t, [At ''multiplier'', At ''value'']),
     (577, SE_ReactivePower_t, [At ''multiplier'', At ''value'']),
     (580, SE_DERCurveLink_t, [At ''href'']),
     (582, SE_FreqDroopType_t, [At ''dBOF'', At ''dBUF'', At ''kOF'', At ''kUF'', At ''openLoopTms'']),
     (588, SE_FixedVar_t, [At ''refType'', At ''value'']),
     (591, SE_PowerFactor_t, [At ''displacement'', At ''multiplier'']),
     (594, SE_DERControlBase_t, [None, None, At ''opModFixedPF'', At ''opModFixedVar'', At ''opModFixedW'',
     At ''opModFreqDroop'', At ''opModFreqWatt'', At ''opModHFRTMustTrip'', At ''opModHVRTMomentaryCessation'',
     At ''opModHVRTMustTrip'', At ''opModLFRTMustTrip'', At ''opModLVRTMomentaryCessation'',
     At ''opModLVRTMustTrip'', At ''opModMaxLimW'', At ''opModTargetVar'', At ''opModTargetW'', At ''opModVoltVar'',
     At ''opModVoltWatt'', At ''opModWattPF'', At ''opModWattVar'', At ''rampTms'']),
     (616, SE_EventStatus_t, [At ''currentStatus'', At ''dateTime'', None, At ''potentiallySupersededTime'',
     At ''reason'']),
     (622, SE_RespondableSubscribableIdentifiedObject_t, [At ''href'', At ''replyTo'', At ''responseRequired'',
     At ''subscribable'', At ''mRID'', At ''description'', At ''version'']),
     (630, SE_Event_t, [At ''href'', At ''replyTo'', At ''responseRequired'', At ''subscribable'', At ''mRID'',
     At ''description'', At ''version'', At ''creationTime'', At ''EventStatus'', At ''interval'']),
     (641, SE_RandomizableEvent_t, [At ''href'', At ''replyTo'', At ''responseRequired'', At ''subscribable'',
     At ''mRID'', At ''description'', At ''version'', At ''creationTime'', At ''EventStatus'', At ''interval'',
     At ''randomizeDuration'', At ''randomizeStart'']),
     (654, SE_DERControl_t, [At ''href'', At ''replyTo'', At ''responseRequired'', At ''subscribable'', At ''mRID'',
     At ''description'', At ''version'', At ''creationTime'', At ''EventStatus'', At ''interval'',
     At ''randomizeDuration'', At ''randomizeStart'', At ''DERControlBase'']),
     (668, SE_DERControlList_t, [At ''all'', At ''href'', At ''results'', At ''subscribable'', At ''DERControl'']),
     (674, SE_WattHour_t, [At ''multiplier'', At ''value''])]"

definition se_layout_6 :: layout where
  "se_layout_6 = [
     (677, SE_ApparentPower_t, [At ''multiplier'', At ''value'']),
     (680, SE_AmpereHour_t, [At ''multiplier'', At ''value'']),
     (683, SE_CurrentRMS_t, [At ''multiplier'', At ''value'']),
     (686, SE_DERCapability_t, [At ''href'', At ''modesSupported'', At ''rtgA'', At ''rtgAbnormalCategory'',
     At ''rtgAh'', At ''rtgMaxChargeRateVA'', At ''rtgMaxChargeRateW'', At ''rtgMaxDischargeRateVA'',
     At ''rtgMaxDischargeRateW'', At ''rtgMinPF'', At ''rtgMinPFNeg'', At ''rtgNormalCategory'',
     At ''rtgOverExcitedPF'', At ''rtgOverExcitedW'', At ''rtgUnderExcitedPF'', At ''rtgUnderExcitedW'',
     At ''rtgVA'', At ''rtgVar'', At ''rtgVarNeg'', At ''rtgW'', At ''rtgWh'', At ''type'']),
     (709, SE_DERAvailability_t, [At ''href'', At ''subscribable'', At ''availabilityDuration'',
     At ''maxChargeDuration'', At ''readingTime'', At ''reserveChargePercent'', At ''reservePercent'',
     At ''statVarAvail'', At ''statWAvail'']),
     (719, SE_VoltageRMS_t, [At ''multiplier'', At ''value'']),
     (722, SE_DERSettings_t, [At ''href'', At ''subscribable'', At ''modesEnabled'', At ''setESDelay'',
     At ''setESHighFreq'', At ''setESHighVolt'', At ''setESLowFreq'', At ''setESLowVolt'', At ''setESRandomDelay'',
     At ''setGradW'', At ''setMaxA'', At ''setMaxAh'', At ''setMaxChargeRateVA'', At ''setMaxChargeRateW'',
     At ''setMaxDischargeRateVA'', At ''setMaxDischargeRateW'', At ''setMaxVA'', At ''setMaxVar'',
     At ''setMaxVarNeg'', At ''setMaxW'', At ''setMaxWh'', At ''setMinPF'', At ''setMinPFNeg'', At ''setSoftGradW'',
     At ''setVRef'', At ''setVRefOfs'', At ''updatedTime'']),
     (750, SE_DERStatusLink_t, [At ''href'']),
     (752, SE_DERSettingsLink_t, [At ''href'']),
     (754, SE_DERCapabilityLink_t, [At ''href'']),
     (756, SE_DERAvailabilityLink_t, [At ''href'']),
     (758, SE_CurrentDERProgramLink_t, [At ''href'']),
     (760, SE_AssociatedUsagePointLink_t, [At ''href'']),
     (762, SE_AssociatedDERProgramListLink_t, [At ''all'', At ''href'']),
     (765, SE_DER_t, [At ''href'', At ''subscribable'', At ''AssociatedDERProgramListLink'',
     At ''AssociatedUsagePointLink'', At ''CurrentDERProgramLink'', At ''DERAvailabilityLink'',
     At ''DERCapabilityLink'', At ''DERSettingsLink'', At ''DERStatusLink'']),
     (775, SE_DERList_t, [At ''all'', At ''href'', At ''pollRate'', At ''results'', At ''DER'']),
     (781, SE_DefaultDERControl_t, [At ''href'', At ''subscribable'', At ''mRID'', At ''description'',
     At ''version'', At ''DERControlBase'', At ''setESDelay'', At ''setESHighFreq'', At ''setESHighVolt'',
     At ''setESLowFreq'', At ''setESLowVolt'', At ''setESRandomDelay'', At ''setGradW'', At ''setSoftGradW'']),
     (796, SE_SignedRealEnergy_t, [At ''multiplier'', At ''value'']),
     (799, SE_FlowReservationResponse_t, [At ''href'', At ''replyTo'', At ''responseRequired'', At ''subscribable'',
     At ''mRID'', At ''description'', At ''version'', At ''creationTime'', At ''EventStatus'', At ''interval'',
     At ''energyAvailable'', At ''powerAvailable'', At ''subject''])]"

definition se_layout_7 :: layout where
  "se_layout_7 = [
     (813, SE_FlowReservationResponseList_t, [At ''all'', At ''href'', At ''pollRate'', At ''results'',
     At ''subscribable'', At ''FlowReservationResponse'']),
     (820, SE_RequestStatus_t, [At ''dateTime'', At ''requestStatus'']),
     (823, SE_FlowReservationRequest_t, [At ''href'', At ''mRID'', At ''description'', At ''version'',
     At ''creationTime'', At ''durationRequested'', At ''energyRequested'', At ''intervalRequested'',
     At ''powerRequested'', At ''RequestStatus'']),
     (834, SE_FlowReservationRequestList_t, [At ''all'', At ''href'', At ''pollRate'', At ''results'',
     At ''FlowReservationRequest'']),
     (840, SE_SupplyInterruptionOverride_t, [At ''href'', At ''description'', At ''interval'']),
     (844, SE_SupplyInterruptionOverrideList_t, [At ''all'', At ''href'', At ''results'',
     At ''SupplyInterruptionOverride'']),
     (849, SE_ServiceChange_t, [At ''newStatus'', At ''startTime'']),
     (852, SE_CreditTypeChange_t, [At ''newType'', At ''startTime'']),
     (855, SE_PrepayOperationStatus_t, [At ''href'', At ''creditTypeChange'', At ''creditTypeInUse'',
     At ''serviceChange'', At ''serviceStatus'']),
     (861, SE_UsagePointLink_t, [At ''href'']),
     (863, SE_MeterReadingListLink_t, [At ''all'', At ''href'']),
     (866, SE_UsagePoint_t, [At ''href'', At ''mRID'', At ''description'', At ''version'', At ''roleFlags'',
     At ''serviceCategoryKind'', At ''status'', At ''deviceLFDI'', At ''MeterReadingListLink'']),
     (876, SE_SupplyInterruptionOverrideListLink_t, [At ''all'', At ''href'']),
     (879, SE_PrepayOperationStatusLink_t, [At ''href'']),
     (881, SE_CreditRegisterListLink_t, [At ''all'', At ''href'']),
     (884, SE_RealEnergy_t, [At ''multiplier'', At ''value'']),
     (887, SE_AccountingUnit_t, [At ''energyUnit'', At ''monetaryUnit'', At ''multiplier'', At ''value'']),
     (892, SE_ActiveSupplyInterruptionOverrideListLink_t, [At ''all'', At ''href'']),
     (895, SE_ActiveCreditRegisterListLink_t, [At ''all'', At ''href'']),
     (898, SE_AccountBalanceLink_t, [At ''href'']),
     (900, SE_Prepayment_t, [At ''href'', At ''mRID'', At ''description'', At ''version'', At ''AccountBalanceLink'',
     At ''ActiveCreditRegisterListLink'', At ''ActiveSupplyInterruptionOverrideListLink'', At ''creditExpiryLevel'',
     At ''CreditRegisterListLink'', At ''lowCreditWarningLevel'', At ''lowEmergencyCreditWarningLevel'',
     At ''prepayMode'', At ''PrepayOperationStatusLink'', At ''SupplyInterruptionOverrideListLink'',
     At ''UsagePoint'', At ''UsagePointLink'']),
     (917, SE_PrepaymentList_t, [At ''all'', At ''href'', At ''pollRate'', At ''results'', At ''subscribable'',
     At ''Prepayment'']),
     (924, SE_CreditRegister_t, [At ''href'', At ''mRID'', At ''description'', At ''version'', At ''creditAmount'',
     At ''creditType'', At ''effectiveTime'', At ''token''])]"

definition se_layout_8 :: layout where
  "se_layout_8 = [
     (933, SE_CreditRegisterList_t, [At ''all'', At ''href'', At ''results'', At ''CreditRegister'']),
     (938, SE_AccountBalance_t, [At ''href'', At ''availableCredit'', At ''creditStatus'', At ''emergencyCredit'',
     At ''emergencyCreditStatus'']),
     (944, SE_ServiceSupplier_t, [At ''href'', At ''mRID'', At ''description'', At ''version'', At ''email'',
     At ''phone'', At ''providerID'', At ''web'']),
     (953, SE_ServiceSupplierList_t, [At ''all'', At ''href'', At ''results'', At ''ServiceSupplier'']),
     (958, SE_ReadingTypeLink_t, [At ''href'']),
     (960, SE_BillingReadingSetListLink_t, [At ''all'', At ''href'']),
     (963, SE_BillingMeterReadingBase_t, [At ''href'', At ''mRID'', At ''description'', At ''version'',
     At ''BillingReadingSetListLink'', At ''ReadingTypeLink'']),
     (970, SE_TargetReading_t, [At ''href'', At ''mRID'', At ''description'', At ''version'',
     At ''BillingReadingSetListLink'', At ''ReadingTypeLink'']),
     (977, SE_TargetReadingList_t, [At ''all'', At ''href'', At ''results'', At ''TargetReading'']),
     (982, SE_ProjectionReading_t, [At ''href'', At ''mRID'', At ''description'', At ''version'',
     At ''BillingReadingSetListLink'', At ''ReadingTypeLink'']),
     (989, SE_ProjectionReadingList_t, [At ''all'', At ''href'', At ''results'', At ''ProjectionReading'']),
     (994, SE_HistoricalReading_t, [At ''href'', At ''mRID'', At ''description'', At ''version'',
     At ''BillingReadingSetListLink'', At ''ReadingTypeLink'']),
     (1001, SE_HistoricalReadingList_t, [At ''all'', At ''href'', At ''results'', At ''HistoricalReading'']),
     (1006, SE_TariffProfileLink_t, [At ''href'']),
     (1008, SE_TargetReadingListLink_t, [At ''all'', At ''href'']),
     (1011, SE_ProjectionReadingListLink_t, [At ''all'', At ''href'']),
     (1014, SE_PrepaymentLink_t, [At ''href'']),
     (1016, SE_HistoricalReadingListLink_t, [At ''all'', At ''href'']),
     (1019, SE_BillingPeriodListLink_t, [At ''all'', At ''href'']),
     (1022, SE_ActiveTargetReadingListLink_t, [At ''all'', At ''href'']),
     (1025, SE_ActiveProjectionReadingListLink_t, [At ''all'', At ''href'']),
     (1028, SE_ActiveBillingPeriodListLink_t, [At ''all'', At ''href'']),
     (1031, SE_CustomerAgreement_t, [At ''href'', At ''mRID'', At ''description'', At ''version'',
     At ''ActiveBillingPeriodListLink'', At ''ActiveProjectionReadingListLink'', At ''ActiveTargetReadingListLink'',
     At ''BillingPeriodListLink'', At ''HistoricalReadingListLink'', At ''PrepaymentLink'',
     At ''ProjectionReadingListLink'', At ''serviceAccount'', At ''serviceLocation'', At ''TargetReadingListLink'',
     At ''TariffProfileLink'', At ''UsagePointLink'']),
     (1048, SE_CustomerAgreementList_t, [At ''all'', At ''href'', At ''results'', At ''subscribable'',
     At ''CustomerAgreement''])]"

definition se_layout_9 :: layout where
  "se_layout_9 = [
     (1054, SE_ServiceSupplierLink_t, [At ''href'']),
     (1056, SE_CustomerAgreementListLink_t, [At ''all'', At ''href'']),
     (1059, SE_CustomerAccount_t, [At ''href'', At ''mRID'', At ''description'', At ''version'', At ''currency'',
     At ''customerAccount'', At ''CustomerAgreementListLink'', At ''customerName'', At ''pricePowerOfTenMultiplier'',
     At ''ServiceSupplierLink'']),
     (1070, SE_CustomerAccountList_t, [At ''all'', At ''href'', At ''pollRate'', At ''results'', At ''subscribable'',
     At ''CustomerAccount'']),
     (1077, SE_BillingReadingListLink_t, [At ''all'', At ''href'']),
     (1080, SE_BillingReadingSet_t, [At ''href'', At ''mRID'', At ''description'', At ''version'', At ''timePeriod'',
     At ''BillingReadingListLink'']),
     (1087, SE_BillingReadingSetList_t, [At ''all'', At ''href'', At ''results'', At ''subscribable'',
     At ''BillingReadingSet'']),
     (1093, SE_Charge_t, [At ''description'', At ''kind'', At ''value'']),
     (1097, SE_BillingReading_t, [At ''href'', At ''consumptionBlock'', At ''qualityFlags'', At ''timePeriod'',
     At ''touTier'', At ''value'', At ''Charge'']),
     (1105, SE_BillingReadingList_t, [At ''all'', At ''href'', At ''results'', At ''BillingReading'']),
     (1110, SE_BillingPeriod_t, [At ''href'', At ''billLastPeriod'', At ''billToDate'', At ''interval'',
     At ''statusTimeStamp'']),
     (1116, SE_BillingPeriodList_t, [At ''all'', At ''href'', At ''results'', At ''subscribable'',
     At ''BillingPeriod'']),
     (1122, SE_TextMessage_t, [At ''href'', At ''replyTo'', At ''responseRequired'', At ''subscribable'',
     At ''mRID'', At ''description'', At ''version'', At ''creationTime'', At ''EventStatus'', At ''interval'',
     At ''originator'', At ''priority'', At ''textMessage'']),
     (1136, SE_TextMessageList_t, [At ''all'', At ''href'', At ''results'', At ''subscribable'', At ''TextMessage'']),
     (1142, SE_TextMessageListLink_t, [At ''all'', At ''href'']),
     (1145, SE_ActiveTextMessageListLink_t, [At ''all'', At ''href'']),
     (1148, SE_MessagingProgram_t, [At ''href'', At ''subscribable'', At ''mRID'', At ''description'',
     At ''version'', At ''ActiveTextMessageListLink'', At ''locale'', At ''primacy'', At ''TextMessageListLink'']),
     (1158, SE_MessagingProgramList_t, [At ''all'', At ''href'', At ''pollRate'', At ''results'',
     At ''subscribable'', At ''MessagingProgram'']),
     (1165, SE_ConsumptionTariffIntervalListLink_t, [At ''all'', At ''href'']),
     (1168, SE_TimeTariffInterval_t, [At ''href'', At ''replyTo'', At ''responseRequired'', At ''subscribable'',
     At ''mRID'', At ''description'', At ''version'', At ''creationTime'', At ''EventStatus'', At ''interval'',
     At ''randomizeDuration'', At ''randomizeStart'', At ''ConsumptionTariffIntervalListLink'', At ''touTier''])]"

definition se_layout_10 :: layout where
  "se_layout_10 = [
     (1183, SE_TimeTariffIntervalList_t, [At ''all'', At ''href'', At ''results'', At ''subscribable'',
     At ''TimeTariffInterval'']),
     (1189, SE_RateComponentListLink_t, [At ''all'', At ''href'']),
     (1192, SE_TariffProfile_t, [At ''href'', At ''mRID'', At ''description'', At ''version'', At ''currency'',
     At ''pricePowerOfTenMultiplier'', At ''primacy'', At ''rateCode'', At ''RateComponentListLink'',
     At ''serviceCategoryKind'']),
     (1203, SE_TariffProfileList_t, [At ''all'', At ''href'', At ''pollRate'', At ''results'', At ''subscribable'',
     At ''TariffProfile'']),
     (1210, SE_TimeTariffIntervalListLink_t, [At ''all'', At ''href'']),
     (1213, SE_ActiveTimeTariffIntervalListLink_t, [At ''all'', At ''href'']),
     (1216, SE_RateComponent_t, [At ''href'', At ''mRID'', At ''description'', At ''version'',
     At ''ActiveTimeTariffIntervalListLink'', At ''flowRateEndLimit'', At ''flowRateStartLimit'',
     At ''ReadingTypeLink'', At ''roleFlags'', At ''TimeTariffIntervalListLink'']),
     (1227, SE_RateComponentList_t, [At ''all'', At ''href'', At ''results'', At ''RateComponent'']),
     (1232, SE_EnvironmentalCost_t, [At ''amount'', At ''costKind'', At ''costLevel'', At ''numCostLevels'']),
     (1237, SE_ConsumptionTariffInterval_t, [At ''href'', At ''consumptionBlock'', At ''EnvironmentalCost'',
     At ''price'', At ''startValue'']),
     (1243, SE_ConsumptionTariffIntervalList_t, [At ''all'', At ''href'', At ''results'',
     At ''ConsumptionTariffInterval'']),
     (1248, SE_UsagePointList_t, [At ''all'', At ''href'', At ''pollRate'', At ''results'', At ''subscribable'',
     At ''UsagePoint'']),
     (1255, SE_ReadingListLink_t, [At ''all'', At ''href'']),
     (1258, SE_ReadingSet_t, [At ''href'', At ''mRID'', At ''description'', At ''version'', At ''timePeriod'',
     At ''ReadingListLink'']),
     (1265, SE_ReadingSetList_t, [At ''all'', At ''href'', At ''results'', At ''subscribable'', At ''ReadingSet'']),
     (1271, SE_ReadingList_t, [At ''all'', At ''href'', At ''results'', At ''subscribable'', At ''Reading'']),
     (1277, SE_ReadingSetListLink_t, [At ''all'', At ''href'']),
     (1280, SE_ReadingLink_t, [At ''href'']),
     (1282, SE_MeterReading_t, [At ''href'', At ''mRID'', At ''description'', At ''version'',
     At ''RateComponentListLink'', At ''ReadingLink'', At ''ReadingSetListLink'', At ''ReadingTypeLink'']),
     (1291, SE_MeterReadingList_t, [At ''all'', At ''href'', At ''results'', At ''subscribable'',
     At ''MeterReading'']),
     (1297, SE_TargetReduction_t, [At ''type'', At ''value'']),
     (1300, SE_SetPoint_t, [At ''coolingSetpoint'', At ''heatingSetpoint'']),
     (1303, SE_Offset_t, [At ''coolingOffset'', At ''heatingOffset'', At ''loadAdjustmentPercentageOffset''])]"

definition se_layout_11 :: layout where
  "se_layout_11 = [
     (1307, SE_DutyCycle_t, [At ''normalValue'']),
     (1309, SE_ApplianceLoadReduction_t, [At ''type'']),
     (1311, SE_EndDeviceControl_t, [At ''href'', At ''replyTo'', At ''responseRequired'', At ''subscribable'',
     At ''mRID'', At ''description'', At ''version'', At ''creationTime'', At ''EventStatus'', At ''interval'',
     At ''randomizeDuration'', At ''randomizeStart'', At ''ApplianceLoadReduction'', At ''deviceCategory'', None,
     At ''DutyCycle'', None, At ''Offset'', At ''overrideDuration'', At ''SetPoint'', At ''TargetReduction'']),
     (1333, SE_EndDeviceControlList_t, [At ''all'', At ''href'', At ''results'', At ''subscribable'',
     At ''EndDeviceControl'']),
     (1339, SE_EndDeviceControlListLink_t, [At ''all'', At ''href'']),
     (1342, SE_ActiveEndDeviceControlListLink_t, [At ''all'', At ''href'']),
     (1345, SE_DemandResponseProgram_t, [At ''href'', At ''mRID'', At ''description'', At ''version'',
     At ''ActiveEndDeviceControlListLink'', At ''availabilityUpdatePercentChangeThreshold'',
     At ''availabilityUpdatePowerChangeThreshold'', At ''EndDeviceControlListLink'', At ''primacy'']),
     (1355, SE_DemandResponseProgramList_t, [At ''all'', At ''href'', At ''pollRate'', At ''results'',
     At ''subscribable'', At ''DemandResponseProgram'']),
     (1362, SE_DemandResponseProgramLink_t, [At ''href'']),
     (1364, SE_LoadShedAvailability_t, [At ''href'', At ''availabilityDuration'', At ''DemandResponseProgramLink'',
     At ''sheddablePercent'', At ''sheddablePower'']),
     (1370, SE_LoadShedAvailabilityList_t, [At ''all'', At ''href'', At ''pollRate'', At ''results'',
     At ''LoadShedAvailability'']),
     (1376, SE_FileLink_t, [At ''href'']),
     (1378, SE_FileStatus_t, [At ''href'', At ''pollRate'', At ''activateTime'', At ''FileLink'', At ''loadPercent'',
     At ''nextRequestAttempt'', At ''request503Count'', At ''requestFailCount'', At ''status'', At ''statusTime'']),
     (1389, SE_File_t, [At ''href'', At ''activateTime'', At ''fileURI'', At ''lFDI'', At ''mfHwVer'', At ''mfID'',
     At ''mfModel'', At ''mfSerNum'', At ''mfVer'', At ''size'', At ''type'']),
     (1401, SE_FileList_t, [At ''all'', At ''href'', At ''pollRate'', At ''results'', At ''File'']),
     (1407, SE_RateComponentLink_t, [At ''href'']),
     (1409, SE_PriceResponseCfg_t, [At ''href'', At ''consumeThreshold'', At ''maxReductionThreshold'',
     At ''RateComponentLink'']),
     (1414, SE_PriceResponseCfgList_t, [At ''all'', At ''href'', At ''results'', At ''PriceResponseCfg'']),
     (1419, SE_TimeConfiguration_t, [At ''dstEndRule'', At ''dstOffset'', At ''dstStartRule'', At ''tzOffset'']),
     (1424, SE_PriceResponseCfgListLink_t, [At ''all'', At ''href'']),
     (1427, SE_PowerConfiguration_t, [At ''batteryInstallTime'', At ''lowChargeThreshold'']),
     (1430, SE_Configuration_t, [At ''href'', At ''pollRate'', At ''subscribable'', At ''currentLocale'',
     At ''PowerConfiguration'', At ''PriceResponseCfgListLink'', At ''TimeConfiguration'', At ''userDeviceName''])]"

definition se_layout_12 :: layout where
  "se_layout_12 = [
     (1439, SE_LogEvent_t, [At ''href'', At ''createdDateTime'', At ''details'', At ''extendedData'',
     At ''functionSet'', At ''logEventCode'', At ''logEventID'', At ''logEventPEN'', At ''profileID'']),
     (1449, SE_LogEventList_t, [At ''all'', At ''href'', At ''pollRate'', At ''results'', At ''subscribable'',
     At ''LogEvent'']),
     (1456, SE_RPLSourceRoutes_t, [At ''href'', At ''DestAddress'', At ''SourceRoute'']),
     (1460, SE_RPLSourceRoutesList_t, [At ''all'', At ''href'', At ''results'', At ''RPLSourceRoutes'']),
     (1465, SE_RPLSourceRoutesListLink_t, [At ''all'', At ''href'']),
     (1468, SE_RPLInstance_t, [At ''href'', At ''DODAGid'', None, At ''flags'', None, At ''MOP'', At ''PRF'',
     At ''rank'', At ''RPLInstanceID'', At ''RPLSourceRoutesListLink'', At ''versionNumber'']),
     (1480, SE_RPLInstanceList_t, [At ''all'', At ''href'', At ''results'', At ''RPLInstance'']),
     (1485, SE_Neighbor_t, [At ''href'', None, At ''linkQuality'', At ''shortAddress'']),
     (1490, SE_NeighborList_t, [At ''all'', At ''href'', At ''results'', At ''Neighbor'']),
     (1495, SE_loWPAN_t, [At ''octetsRx'', At ''octetsTx'', At ''packetsRx'', At ''packetsTx'', At ''rxFragError'']),
     (1501, SE_NeighborListLink_t, [At ''all'', At ''href'']),
     (1504, SE_IEEE_802_15_4_t, [At ''capabilityInfo'', At ''NeighborListLink'', At ''shortAddress'']),
     (1508, SE_LLInterface_t, [At ''href'', At ''CRCerrors'', At ''EUI64'', At ''IEEE_802_15_4'',
     At ''linkLayerType'', At ''LLAckNotRx'', At ''LLCSMAFail'', At ''LLFramesDropRx'', At ''LLFramesDropTx'',
     At ''LLFramesRx'', At ''LLFramesTx'', At ''LLMediaAccessFail'', At ''LLOctetsRx'', At ''LLOctetsTx'',
     At ''LLRetryCount'', At ''LLSecurityErrorRx'', At ''loWPAN'']),
     (1526, SE_LLInterfaceList_t, [At ''all'', At ''href'', At ''results'', At ''LLInterface'']),
     (1531, SE_LLInterfaceListLink_t, [At ''all'', At ''href'']),
     (1534, SE_IPAddrListLink_t, [At ''all'', At ''href'']),
     (1537, SE_IPInterface_t, [At ''href'', At ''ifDescr'', At ''ifHighSpeed'', At ''ifInBroadcastPkts'',
     At ''ifIndex'', At ''ifInDiscards'', At ''ifInErrors'', At ''ifInMulticastPkts'', At ''ifInOctets'',
     At ''ifInUcastPkts'', At ''ifInUnknownProtos'', At ''ifMtu'', At ''ifName'', At ''ifOperStatus'',
     At ''ifOutBroadcastPkts'', At ''ifOutDiscards'', At ''ifOutErrors'', At ''ifOutMulticastPkts'',
     At ''ifOutOctets'', At ''ifOutUcastPkts'', None, At ''ifSpeed'', At ''ifType'', At ''IPAddrListLink'',
     At ''lastResetTime'', At ''lastUpdatedTime'', At ''LLInterfaceListLink''])]"

definition se_layout_13 :: layout where
  "se_layout_13 = [
     (1565, SE_IPInterfaceList_t, [At ''all'', At ''href'', At ''pollRate'', At ''results'', At ''IPInterface'']),
     (1571, SE_RPLInstanceListLink_t, [At ''all'', At ''href'']),
     (1574, SE_IPAddr_t, [At ''href'', At ''address'', At ''RPLInstanceListLink'']),
     (1578, SE_IPAddrList_t, [At ''all'', At ''href'', At ''results'', At ''IPAddr'']),
     (1583, SE_PEVInfo_t, [At ''chargingPowerNow'', At ''energyRequestNow'', At ''maxForwardPower'',
     At ''minimumChargingDuration'', At ''targetStateOfCharge'', At ''timeChargeIsNeeded'',
     At ''timeChargingStatusPEV'']),
     (1591, SE_PowerStatus_t, [At ''href'', At ''pollRate'', At ''batteryStatus'', At ''changedTime'',
     At ''currentPowerSource'', At ''estimatedChargeRemaining'', At ''estimatedTimeRemaining'', At ''PEVInfo'',
     At ''sessionTimeOnBattery'', At ''totalTimeOnBattery'']),
     (1602, SE_SupportedLocale_t, [At ''href'', At ''locale'']),
     (1605, SE_SupportedLocaleList_t, [At ''all'', At ''href'', At ''results'', At ''SupportedLocale'']),
     (1610, SE_SupportedLocaleListLink_t, [At ''all'', At ''href'']),
     (1613, SE_DRLCCapabilities_t, [At ''averageEnergy'', At ''maxDemand'', At ''optionsImplemented'']),
     (1617, SE_DeviceInformation_t, [At ''href'', At ''pollRate'', At ''DRLCCapabilities'',
     At ''functionsImplemented'', At ''lFDI'', At ''mfDate'', At ''mfHwVer'', At ''mfID'', At ''mfInfo'',
     At ''mfModel'', At ''mfSerNum'', At ''primaryPower'', At ''secondaryPower'', At ''SupportedLocaleListLink'',
     At ''swActTime'', At ''swVer'']),
     (1634, SE_Time_t, [At ''href'', At ''pollRate'', At ''currentTime'', At ''dstEndTime'', At ''dstOffset'',
     At ''dstStartTime'', At ''localTime'', At ''quality'', At ''tzOffset'']),
     (1644, SE_Response_t, [At ''href'', At ''createdDateTime'', At ''endDeviceLFDI'', At ''status'', At ''subject'']),
     (1650, SE_TextResponse_t, [At ''href'', At ''createdDateTime'', At ''endDeviceLFDI'', At ''status'',
     At ''subject'']),
     (1656, SE_ResponseListLink_t, [At ''all'', At ''href'']),
     (1659, SE_ResponseSet_t, [At ''href'', At ''mRID'', At ''description'', At ''version'', At ''ResponseListLink'']),
     (1665, SE_ResponseSetList_t, [At ''all'', At ''href'', At ''pollRate'', At ''results'', At ''ResponseSet'']),
     (1671, SE_ResponseList_t, [At ''all'', At ''href'', At ''results'', At ''Response'']),
     (1676, SE_PriceResponse_t, [At ''href'', At ''createdDateTime'', At ''endDeviceLFDI'', At ''status'',
     At ''subject'']),
     (1682, SE_AppliedTargetReduction_t, [At ''type'', At ''value'']),
     (1685, SE_DrResponse_t, [At ''href'', At ''createdDateTime'', At ''endDeviceLFDI'', At ''status'',
     At ''subject'', At ''ApplianceLoadReduction'', At ''AppliedTargetReduction'', At ''DutyCycle'', At ''Offset'',
     At ''overrideDuration'', At ''SetPoint''])]"

definition se_layout_14 :: layout where
  "se_layout_14 = [
     (1697, SE_FlowReservationResponseResponse_t, [At ''href'', At ''createdDateTime'', At ''endDeviceLFDI'',
     At ''status'', At ''subject'']),
     (1703, SE_DERControlResponse_t, [At ''href'', At ''createdDateTime'', At ''endDeviceLFDI'', At ''status'',
     At ''subject'']),
     (1709, SE_SubscriptionBase_t, [At ''href'', At ''subscribedResource'']),
     (1712, SE_Notification_t, [At ''href'', At ''subscribedResource'', At ''newResourceURI'', At ''Resource'',
     At ''status'', At ''subscriptionURI'']),
     (1719, SE_NotificationList_t, [At ''all'', At ''href'', At ''results'', At ''Notification'']),
     (1724, SE_Condition_t, [At ''attributeIdentifier'', At ''lowerThreshold'', At ''upperThreshold'']),
     (1728, SE_Subscription_t, [At ''href'', At ''subscribedResource'', At ''Condition'', At ''encoding'',
     At ''level'', At ''limit'', At ''notificationURI'']),
     (1736, SE_SubscriptionList_t, [At ''all'', At ''href'', At ''pollRate'', At ''results'', At ''Subscription'']),
     (1742, SE_UsagePointListLink_t, [At ''all'', At ''href'']),
     (1745, SE_TimeLink_t, [At ''href'']),
     (1747, SE_TariffProfileListLink_t, [At ''all'', At ''href'']),
     (1750, SE_ResponseSetListLink_t, [At ''all'', At ''href'']),
     (1753, SE_PrepaymentListLink_t, [At ''all'', At ''href'']),
     (1756, SE_MessagingProgramListLink_t, [At ''all'', At ''href'']),
     (1759, SE_FileListLink_t, [At ''all'', At ''href'']),
     (1762, SE_DERProgramListLink_t, [At ''all'', At ''href'']),
     (1765, SE_DemandResponseProgramListLink_t, [At ''all'', At ''href'']),
     (1768, SE_CustomerAccountListLink_t, [At ''all'', At ''href'']),
     (1771, SE_FunctionSetAssignmentsBase_t, [At ''href'', At ''CustomerAccountListLink'',
     At ''DemandResponseProgramListLink'', At ''DERProgramListLink'', At ''FileListLink'',
     At ''MessagingProgramListLink'', At ''PrepaymentListLink'', At ''ResponseSetListLink'',
     At ''TariffProfileListLink'', At ''TimeLink'', At ''UsagePointListLink'']),
     (1783, SE_FunctionSetAssignments_t, [At ''href'', At ''subscribable'', At ''CustomerAccountListLink'',
     At ''DemandResponseProgramListLink'', At ''DERProgramListLink'', At ''FileListLink'',
     At ''MessagingProgramListLink'', At ''PrepaymentListLink'', At ''ResponseSetListLink'',
     At ''TariffProfileListLink'', At ''TimeLink'', At ''UsagePointListLink'', At ''mRID'', At ''description'',
     At ''version'']),
     (1799, SE_FunctionSetAssignmentsList_t, [At ''all'', At ''href'', At ''pollRate'', At ''results'',
     At ''subscribable'', At ''FunctionSetAssignments'']),
     (1806, SE_PowerStatusLink_t, [At ''href'']),
     (1808, SE_LogEventListLink_t, [At ''all'', At ''href'']),
     (1811, SE_LoadShedAvailabilityListLink_t, [At ''all'', At ''href''])]"

definition se_layout_15 :: layout where
  "se_layout_15 = [
     (1814, SE_IPInterfaceListLink_t, [At ''all'', At ''href'']),
     (1817, SE_FileStatusLink_t, [At ''href'']),
     (1819, SE_DeviceStatusLink_t, [At ''href'']),
     (1821, SE_DeviceInformationLink_t, [At ''href'']),
     (1823, SE_DERListLink_t, [At ''all'', At ''href'']),
     (1826, SE_ConfigurationLink_t, [At ''href'']),
     (1828, SE_AbstractDevice_t, [At ''href'', At ''subscribable'', At ''ConfigurationLink'', At ''DERListLink'',
     At ''DeviceInformationLink'', At ''DeviceStatusLink'', At ''FileStatusLink'', At ''IPInterfaceListLink'',
     At ''lFDI'', At ''LoadShedAvailabilityListLink'', At ''loadShedDeviceCategory'', At ''LogEventListLink'',
     At ''PowerStatusLink'', At ''sFDI'']),
     (1843, SE_SelfDevice_t, [At ''href'', At ''pollRate'', At ''subscribable'', At ''ConfigurationLink'',
     At ''DERListLink'', At ''DeviceInformationLink'', At ''DeviceStatusLink'', At ''FileStatusLink'',
     At ''IPInterfaceListLink'', At ''lFDI'', At ''LoadShedAvailabilityListLink'', At ''loadShedDeviceCategory'',
     At ''LogEventListLink'', At ''PowerStatusLink'', At ''sFDI'']),
     (1859, SE_Registration_t, [At ''href'', At ''pollRate'', At ''dateTimeRegistered'', At ''pIN'']),
     (1864, SE_SubscriptionListLink_t, [At ''all'', At ''href'']),
     (1867, SE_RegistrationLink_t, [At ''href'']),
     (1869, SE_FunctionSetAssignmentsListLink_t, [At ''all'', At ''href'']),
     (1872, SE_FlowReservationResponseListLink_t, [At ''all'', At ''href'']),
     (1875, SE_FlowReservationRequestListLink_t, [At ''all'', At ''href'']),
     (1878, SE_EndDevice_t, [At ''href'', At ''subscribable'', At ''ConfigurationLink'', At ''DERListLink'',
     At ''DeviceInformationLink'', At ''DeviceStatusLink'', At ''FileStatusLink'', At ''IPInterfaceListLink'',
     At ''lFDI'', At ''LoadShedAvailabilityListLink'', At ''loadShedDeviceCategory'', At ''LogEventListLink'',
     At ''PowerStatusLink'', At ''sFDI'', At ''changedTime'', None, At ''FlowReservationRequestListLink'',
     At ''FlowReservationResponseListLink'', At ''FunctionSetAssignmentsListLink'', At ''RegistrationLink'',
     At ''SubscriptionListLink'']),
     (1900, SE_EndDeviceList_t, [At ''all'', At ''href'', At ''pollRate'', At ''results'', At ''subscribable'',
     At ''EndDevice'']),
     (1907, SE_Temperature_t, [At ''multiplier'', At ''subject'', At ''value'']),
     (1911, SE_DeviceStatus_t, [At ''href'', At ''pollRate'', At ''changedTime'', At ''onCount'', At ''opState'',
     At ''opTime'', At ''Temperature'', At ''TimeLink'']),
     (1920, SE_SelfDeviceLink_t, [At ''href'']),
     (1922, SE_MirrorUsagePointListLink_t, [At ''all'', At ''href'']),
     (1925, SE_EndDeviceListLink_t, [At ''all'', At ''href'']),
     (1928, SE_DeviceCapability_t, [At ''href'', At ''pollRate'', At ''CustomerAccountListLink'',
     At ''DemandResponseProgramListLink'', At ''DERProgramListLink'', At ''FileListLink'',
     At ''MessagingProgramListLink'', At ''PrepaymentListLink'', At ''ResponseSetListLink'',
     At ''TariffProfileListLink'', At ''TimeLink'', At ''UsagePointListLink'', At ''EndDeviceListLink'',
     At ''MirrorUsagePointListLink'', At ''SelfDeviceLink''])]"

definition se_layout :: layout where
  "se_layout = se_layout_3 @ se_layout_4 @ se_layout_5 @ se_layout_6 @ se_layout_7 @ se_layout_8 @ se_layout_9 @ se_layout_10 @ se_layout_11 @ se_layout_12 @ se_layout_13 @ se_layout_14 @ se_layout_15"

text \<open>The name of the structure that a head stands for, as the comments of the table give it.\<close>

fun find_name :: "(int \<times> string) tree \<Rightarrow> int \<Rightarrow> string option" where
  "find_name Leaf i = None"
| "find_name (Node l (j, n) r) i = (if i < j then find_name l i else if j < i then find_name r i else Some n)"

definition name_tree :: "(int \<times> string) tree" where
  "name_tree =
     Node (Node (Node (Node (Node (Node (Node (Node (Node Leaf (321, ''UnitValueType'') Leaf) (325,
     ''Resource'') Leaf) (327, ''ReadingType'') (Node Leaf (346, ''DateTimeInterval'') Leaf)) (349,
     ''ReadingBase'') (Node (Node Leaf (356, ''Reading'') Leaf) (365, ''IdentifiedObject'') (Node Leaf (370,
     ''ReadingSetBase'') Leaf))) (376, ''MirrorReadingSet'') (Node (Node (Node (Node Leaf (383,
     ''MeterReadingBase'') Leaf) (388, ''MirrorMeterReading'') Leaf) (398, ''UsagePointBase'') (Node Leaf (406,
     ''MirrorUsagePoint'') Leaf)) (417, ''List'') (Node (Node Leaf (421, ''MirrorUsagePointList'') Leaf) (427,
     ''MirrorMeterReadingList'') (Node Leaf (432, ''Error'') Leaf)))) (435, ''RespondableResource'') (Node (Node
     (Node (Node (Node Leaf (439, ''RespondableIdentifiedObject'') Leaf) (446, ''Link'') Leaf) (448,
     ''ListLink'') (Node Leaf (451, ''NotificationListLink'') Leaf)) (454, ''MeterReadingLink'') (Node (Node
     Leaf (456, ''EndDeviceLink'') Leaf) (458, ''DeviceCapabilityLink'') (Node Leaf (460, ''DERProgramLink'')
     Leaf))) (462, ''DERLink'') (Node (Node (Node (Node Leaf (464, ''CustomerAccountLink'') Leaf) (466,
     ''ActiveFlowReservationListLink'') Leaf) (469, ''UnsignedFixedPointType'') (Node Leaf (472,
     ''FixedPointType'') Leaf)) (475, ''StorageModeStatusType'') (Node (Node Leaf (478,
     ''StateOfChargeStatusType'') Leaf) (481, ''OperationalModeStatusType'') (Node Leaf (484,
     ''ManufacturerStatusType'') Leaf))))) (487, ''LocalControlModeStatusType'') (Node (Node (Node (Node (Node
     (Node Leaf (490, ''InverterStatusType'') Leaf) (493, ''ConnectStatusType'') Leaf) (496,
     ''SubscribableResource'') (Node Leaf (499, ''DERStatus'') Leaf)) (511, ''DERCurveListLink'') (Node (Node
     Leaf (514, ''DERControlListLink'') Leaf) (517, ''DefaultDERControlLink'') (Node Leaf (519,
     ''ActiveDERControlListLink'') Leaf))) (522, ''SubscribableIdentifiedObject'') (Node (Node (Node (Node Leaf
     (528, ''DERProgram'') Leaf) (539, ''SubscribableList'') Leaf) (544, ''DERProgramList'') (Node Leaf (551,
     ''CurveData'') Leaf)) (554, ''DERCurve'') (Node (Node Leaf (569, ''DERCurveList'') Leaf) (574,
     ''ActivePower'') (Node Leaf (577, ''ReactivePower'') Leaf)))) (580, ''DERCurveLink'') (Node (Node (Node
     (Node (Node Leaf (582, ''FreqDroopType'') Leaf) (588, ''FixedVar'') Leaf) (591, ''PowerFactor'') (Node Leaf
     (594, ''DERControlBase'') Leaf)) (616, ''EventStatus'') (Node (Node Leaf (622,
     ''RespondableSubscribableIdentifiedObject'') Leaf) (630, ''Event'') (Node Leaf (641, ''RandomizableEvent'')
     Leaf))) (654, ''DERControl'') (Node (Node (Node Leaf (668, ''DERControlList'') Leaf) (674, ''WattHour'')
     (Node Leaf (677, ''ApparentPower'') Leaf)) (680, ''AmpereHour'') (Node (Node Leaf (683, ''CurrentRMS'')
     Leaf) (686, ''DERCapability'') (Node Leaf (709, ''DERAvailability'') Leaf)))))) (719, ''VoltageRMS'') (Node
     (Node (Node (Node (Node (Node (Node Leaf (722, ''DERSettings'') Leaf) (750, ''DERStatusLink'') Leaf) (752,
     ''DERSettingsLink'') (Node Leaf (754, ''DERCapabilityLink'') Leaf)) (756, ''DERAvailabilityLink'') (Node
     (Node Leaf (758, ''CurrentDERProgramLink'') Leaf) (760, ''AssociatedUsagePointLink'') (Node Leaf (762,
     ''AssociatedDERProgramListLink'') Leaf))) (765, ''DER'') (Node (Node (Node (Node Leaf (775, ''DERList'')
     Leaf) (781, ''DefaultDERControl'') Leaf) (796, ''SignedRealEnergy'') (Node Leaf (799,
     ''FlowReservationResponse'') Leaf)) (813, ''FlowReservationResponseList'') (Node (Node Leaf (820,
     ''RequestStatus'') Leaf) (823, ''FlowReservationRequest'') (Node Leaf (834, ''FlowReservationRequestList'')
     Leaf)))) (840, ''SupplyInterruptionOverride'') (Node (Node (Node (Node (Node Leaf (844,
     ''SupplyInterruptionOverrideList'') Leaf) (849, ''ServiceChange'') Leaf) (852, ''CreditTypeChange'') (Node
     Leaf (855, ''PrepayOperationStatus'') Leaf)) (861, ''UsagePointLink'') (Node (Node Leaf (863,
     ''MeterReadingListLink'') Leaf) (866, ''UsagePoint'') (Node Leaf (876,
     ''SupplyInterruptionOverrideListLink'') Leaf))) (879, ''PrepayOperationStatusLink'') (Node (Node (Node Leaf
     (881, ''CreditRegisterListLink'') Leaf) (884, ''RealEnergy'') (Node Leaf (887, ''AccountingUnit'') Leaf))
     (892, ''ActiveSupplyInterruptionOverrideListLink'') (Node (Node Leaf (895,
     ''ActiveCreditRegisterListLink'') Leaf) (898, ''AccountBalanceLink'') (Node Leaf (900, ''Prepayment'')
     Leaf))))) (917, ''PrepaymentList'') (Node (Node (Node (Node (Node (Node Leaf (924, ''CreditRegister'')
     Leaf) (933, ''CreditRegisterList'') Leaf) (938, ''AccountBalance'') (Node Leaf (944, ''ServiceSupplier'')
     Leaf)) (953, ''ServiceSupplierList'') (Node (Node Leaf (958, ''ReadingTypeLink'') Leaf) (960,
     ''BillingReadingSetListLink'') (Node Leaf (963, ''BillingMeterReadingBase'') Leaf))) (970,
     ''TargetReading'') (Node (Node (Node (Node Leaf (977, ''TargetReadingList'') Leaf) (982,
     ''ProjectionReading'') Leaf) (989, ''ProjectionReadingList'') (Node Leaf (994, ''HistoricalReading'')
     Leaf)) (1001, ''HistoricalReadingList'') (Node (Node Leaf (1006, ''TariffProfileLink'') Leaf) (1008,
     ''TargetReadingListLink'') (Node Leaf (1011, ''ProjectionReadingListLink'') Leaf)))) (1014,
     ''PrepaymentLink'') (Node (Node (Node (Node (Node Leaf (1016, ''HistoricalReadingListLink'') Leaf) (1019,
     ''BillingPeriodListLink'') Leaf) (1022, ''ActiveTargetReadingListLink'') (Node Leaf (1025,
     ''ActiveProjectionReadingListLink'') Leaf)) (1028, ''ActiveBillingPeriodListLink'') (Node (Node Leaf (1031,
     ''CustomerAgreement'') Leaf) (1048, ''CustomerAgreementList'') (Node Leaf (1054, ''ServiceSupplierLink'')
     Leaf))) (1056, ''CustomerAgreementListLink'') (Node (Node (Node Leaf (1059, ''CustomerAccount'') Leaf)
     (1070, ''CustomerAccountList'') (Node Leaf (1077, ''BillingReadingListLink'') Leaf)) (1080,
     ''BillingReadingSet'') (Node (Node Leaf (1087, ''BillingReadingSetList'') Leaf) (1093, ''Charge'') (Node
     Leaf (1097, ''BillingReading'') Leaf))))))) (1105, ''BillingReadingList'') (Node (Node (Node (Node (Node
     (Node (Node (Node Leaf (1110, ''BillingPeriod'') Leaf) (1116, ''BillingPeriodList'') Leaf) (1122,
     ''TextMessage'') (Node Leaf (1136, ''TextMessageList'') Leaf)) (1142, ''TextMessageListLink'') (Node (Node
     Leaf (1145, ''ActiveTextMessageListLink'') Leaf) (1148, ''MessagingProgram'') (Node Leaf (1158,
     ''MessagingProgramList'') Leaf))) (1165, ''ConsumptionTariffIntervalListLink'') (Node (Node (Node (Node
     Leaf (1168, ''TimeTariffInterval'') Leaf) (1183, ''TimeTariffIntervalList'') Leaf) (1189,
     ''RateComponentListLink'') (Node Leaf (1192, ''TariffProfile'') Leaf)) (1203, ''TariffProfileList'') (Node
     (Node Leaf (1210, ''TimeTariffIntervalListLink'') Leaf) (1213, ''ActiveTimeTariffIntervalListLink'') (Node
     Leaf (1216, ''RateComponent'') Leaf)))) (1227, ''RateComponentList'') (Node (Node (Node (Node (Node Leaf
     (1232, ''EnvironmentalCost'') Leaf) (1237, ''ConsumptionTariffInterval'') Leaf) (1243,
     ''ConsumptionTariffIntervalList'') (Node Leaf (1248, ''UsagePointList'') Leaf)) (1255, ''ReadingListLink'')
     (Node (Node Leaf (1258, ''ReadingSet'') Leaf) (1265, ''ReadingSetList'') (Node Leaf (1271, ''ReadingList'')
     Leaf))) (1277, ''ReadingSetListLink'') (Node (Node (Node Leaf (1280, ''ReadingLink'') Leaf) (1282,
     ''MeterReading'') (Node Leaf (1291, ''MeterReadingList'') Leaf)) (1297, ''TargetReduction'') (Node (Node
     Leaf (1300, ''SetPoint'') Leaf) (1303, ''Offset'') (Node Leaf (1307, ''DutyCycle'') Leaf))))) (1309,
     ''ApplianceLoadReduction'') (Node (Node (Node (Node (Node (Node Leaf (1311, ''EndDeviceControl'') Leaf)
     (1333, ''EndDeviceControlList'') Leaf) (1339, ''EndDeviceControlListLink'') (Node Leaf (1342,
     ''ActiveEndDeviceControlListLink'') Leaf)) (1345, ''DemandResponseProgram'') (Node (Node Leaf (1355,
     ''DemandResponseProgramList'') Leaf) (1362, ''DemandResponseProgramLink'') (Node Leaf (1364,
     ''LoadShedAvailability'') Leaf))) (1370, ''LoadShedAvailabilityList'') (Node (Node (Node (Node Leaf (1376,
     ''FileLink'') Leaf) (1378, ''FileStatus'') Leaf) (1389, ''File'') (Node Leaf (1401, ''FileList'') Leaf))
     (1407, ''RateComponentLink'') (Node (Node Leaf (1409, ''PriceResponseCfg'') Leaf) (1414,
     ''PriceResponseCfgList'') (Node Leaf (1419, ''TimeConfiguration'') Leaf)))) (1424,
     ''PriceResponseCfgListLink'') (Node (Node (Node (Node (Node Leaf (1427, ''PowerConfiguration'') Leaf)
     (1430, ''Configuration'') Leaf) (1439, ''LogEvent'') (Node Leaf (1449, ''LogEventList'') Leaf)) (1456,
     ''RPLSourceRoutes'') (Node (Node Leaf (1460, ''RPLSourceRoutesList'') Leaf) (1465,
     ''RPLSourceRoutesListLink'') (Node Leaf (1468, ''RPLInstance'') Leaf))) (1480, ''RPLInstanceList'') (Node
     (Node (Node Leaf (1485, ''Neighbor'') Leaf) (1490, ''NeighborList'') (Node Leaf (1495, ''loWPAN'') Leaf))
     (1501, ''NeighborListLink'') (Node (Node Leaf (1504, ''IEEE_802_15_4'') Leaf) (1508, ''LLInterface'') (Node
     Leaf (1526, ''LLInterfaceList'') Leaf)))))) (1531, ''LLInterfaceListLink'') (Node (Node (Node (Node (Node
     (Node (Node Leaf (1534, ''IPAddrListLink'') Leaf) (1537, ''IPInterface'') Leaf) (1565, ''IPInterfaceList'')
     (Node Leaf (1571, ''RPLInstanceListLink'') Leaf)) (1574, ''IPAddr'') (Node (Node Leaf (1578,
     ''IPAddrList'') Leaf) (1583, ''PEVInfo'') (Node Leaf (1591, ''PowerStatus'') Leaf))) (1602,
     ''SupportedLocale'') (Node (Node (Node (Node Leaf (1605, ''SupportedLocaleList'') Leaf) (1610,
     ''SupportedLocaleListLink'') Leaf) (1613, ''DRLCCapabilities'') (Node Leaf (1617, ''DeviceInformation'')
     Leaf)) (1634, ''Time'') (Node (Node Leaf (1644, ''Response'') Leaf) (1650, ''TextResponse'') (Node Leaf
     (1656, ''ResponseListLink'') Leaf)))) (1659, ''ResponseSet'') (Node (Node (Node (Node (Node Leaf (1665,
     ''ResponseSetList'') Leaf) (1671, ''ResponseList'') Leaf) (1676, ''PriceResponse'') (Node Leaf (1682,
     ''AppliedTargetReduction'') Leaf)) (1685, ''DrResponse'') (Node (Node Leaf (1697,
     ''FlowReservationResponseResponse'') Leaf) (1703, ''DERControlResponse'') (Node Leaf (1709,
     ''SubscriptionBase'') Leaf))) (1712, ''Notification'') (Node (Node (Node Leaf (1719, ''NotificationList'')
     Leaf) (1724, ''Condition'') (Node Leaf (1728, ''Subscription'') Leaf)) (1736, ''SubscriptionList'') (Node
     (Node Leaf (1742, ''UsagePointListLink'') Leaf) (1745, ''TimeLink'') (Node Leaf (1747,
     ''TariffProfileListLink'') Leaf))))) (1750, ''ResponseSetListLink'') (Node (Node (Node (Node (Node (Node
     Leaf (1753, ''PrepaymentListLink'') Leaf) (1756, ''MessagingProgramListLink'') Leaf) (1759,
     ''FileListLink'') (Node Leaf (1762, ''DERProgramListLink'') Leaf)) (1765,
     ''DemandResponseProgramListLink'') (Node (Node Leaf (1768, ''CustomerAccountListLink'') Leaf) (1771,
     ''FunctionSetAssignmentsBase'') (Node Leaf (1783, ''FunctionSetAssignments'') Leaf))) (1799,
     ''FunctionSetAssignmentsList'') (Node (Node (Node (Node Leaf (1806, ''PowerStatusLink'') Leaf) (1808,
     ''LogEventListLink'') Leaf) (1811, ''LoadShedAvailabilityListLink'') (Node Leaf (1814,
     ''IPInterfaceListLink'') Leaf)) (1817, ''FileStatusLink'') (Node (Node Leaf (1819, ''DeviceStatusLink'')
     Leaf) (1821, ''DeviceInformationLink'') (Node Leaf (1823, ''DERListLink'') Leaf)))) (1826,
     ''ConfigurationLink'') (Node (Node (Node (Node (Node Leaf (1828, ''AbstractDevice'') Leaf) (1843,
     ''SelfDevice'') Leaf) (1859, ''Registration'') (Node Leaf (1864, ''SubscriptionListLink'') Leaf)) (1867,
     ''RegistrationLink'') (Node (Node Leaf (1869, ''FunctionSetAssignmentsListLink'') Leaf) (1872,
     ''FlowReservationResponseListLink'') (Node Leaf (1875, ''FlowReservationRequestListLink'') Leaf))) (1878,
     ''EndDevice'') (Node (Node (Node Leaf (1900, ''EndDeviceList'') Leaf) (1907, ''Temperature'') (Node Leaf
     (1911, ''DeviceStatus'') Leaf)) (1920, ''SelfDeviceLink'') (Node (Node Leaf (1922,
     ''MirrorUsagePointListLink'') Leaf) (1925, ''EndDeviceListLink'') (Node Leaf (1928, ''DeviceCapability'')
     Leaf)))))))"

definition struct_at :: "int \<Rightarrow> string option" where
  "struct_at i = find_name name_tree i"

subsection \<open>What it is for an element to fit\<close>

text \<open>The C type whose values \<open>parse_value\<close> stores for a primitive type.\<close>

definition xs_c_type :: "int \<Rightarrow> c_type option" where
  "xs_c_type x =
     (let b = xs_base x; n = xs_length x in
      if b = XS_STRING then Some (if n = 0 then Char_Ptr else Chars n)
      else if b = XS_HEX_BINARY then Some (if n = 1 then U8 else Octets n)
      else if b = XS_ANY_URI then Some Char_Ptr
      else if b = XS_LONG then Some I64 else if b = XS_INT then Some I32 else if b = XS_SHORT then Some I16 else if b = XS_BYTE then Some I8
      else if b = XS_ULONG then Some U64 else if b = XS_UINT then Some U32 else if b = XS_USHORT then Some U16
      else if b = XS_UBYTE then Some U8 else None)"

fun member_type :: "string \<Rightarrow> (c_type \<times> string) list \<Rightarrow> c_type option" where
  "member_type x [] = None"
| "member_type x ((t, n) # ms) = (if n = x then Some t else member_type x ms)"

definition primitive :: "schema_element \<Rightarrow> bool" where
  "primitive e \<longleftrightarrow> se_attribute e \<or> se_simple e"

definition type_fits :: "schema_element \<Rightarrow> c_type \<Rightarrow> bool" where
  "type_fits e t \<longleftrightarrow>
     (if primitive e then se_max e = 1 \<and> xs_c_type (se_index e) = Some t
      else if se_unbounded e then t = List_Ptr
      else case struct_at (se_index e) of
             None \<Rightarrow> False
           | Some n \<Rightarrow> t = (if se_max e = 1 then Struct n else Structs n (se_max e)))"

text \<open>A macro has the name of the member, or this name and a digit when several bits go by it.\<close>

fun macro_of :: "string \<Rightarrow> string \<Rightarrow> bool" where
  "macro_of [] [] = True"
| "macro_of [] [d] = (d \<in> set ''0123456789'')"
| "macro_of (c # x) (d # n) = (c = d \<and> macro_of x n)"
| "macro_of x n = False"

fun exists_macro :: "string \<Rightarrow> int \<Rightarrow> flag \<Rightarrow> bool" where
  "exists_macro x b (Exists n c) = (b = c \<and> macro_of x n)"
| "exists_macro x b f = False"

fun count_macro :: "string \<Rightarrow> schema_element \<Rightarrow> flag \<Rightarrow> bool" where
  "count_macro x e (Count n c m least) = (n = x \<and> c = se_bit e \<and> least = se_min e \<and> se_max e - se_min e \<le> m)"
| "count_macro x e f = False"

fun truth_macro :: "flag list \<Rightarrow> schema_element \<Rightarrow> flag \<Rightarrow> bool" where
  "truth_macro fl e (Truth n c) = (c = se_bit e \<and> (se_min e = 1 \<or> list_ex (\<lambda>f. f = Exists n (c + 1)) fl))"
| "truth_macro fl e f = False"

fun flag_bits :: "flag \<Rightarrow> int list" where
  "flag_bits (Exists n b) = [b]"
| "flag_bits (Truth n b) = [b]"
| "flag_bits (Count n b m least) = (if m = 15 then [b, b + 1, b + 2, b + 3] else [])"

text \<open>
  Where the presence of an element is recorded. A pointer is NULL when the element is absent, and a list is empty, so that these
  have no bit. The header has no macro for one element.
\<close>

definition missing_macros :: "(string \<times> string) list" where
  "missing_macros = [(''FileStatus'', ''activateTime'')]"

definition flag_fits :: "c_struct \<Rightarrow> schema_element \<Rightarrow> string \<Rightarrow> bool" where
  "flag_fits s e x \<longleftrightarrow>
     (if se_unbounded e \<or> primitive e \<and> is_pointer (se_index e) then se_bit e = 0
      else if se_max e = 1 then
        se_min e = 1 \<or>
        se_min e = 0 \<and> (list_ex (exists_macro x (se_bit e)) (st_flags s) \<or>
          (st_name s, x) \<in> set missing_macros \<and> \<not> list_ex (\<lambda>f. se_bit e \<in> set (flag_bits f)) (st_flags s))
      else list_ex (count_macro x e) (st_flags s))"

definition element_fits :: "c_struct \<Rightarrow> schema_element \<Rightarrow> string option \<Rightarrow> bool" where
  "element_fits s e off \<longleftrightarrow>
     (case off of
        None \<Rightarrow> se_simple e \<and> se_index e = XS_BOOLEAN \<and> se_max e = 1 \<and> list_ex (truth_macro (st_flags s) e) (st_flags s)
      | Some x \<Rightarrow>
          (case member_type x (st_members s) of
             None \<Rightarrow> False
           | Some t \<Rightarrow> type_fits e t \<and> flag_fits s e x))"

definition flag_words :: "c_struct \<Rightarrow> nat" where
  "flag_words s = (case st_members s of [] \<Rightarrow> 0 | (t, n) # ms \<Rightarrow> if n = ''_flags'' \<and> t = U32 then 1 else 0)"

text \<open>
  The head has the name of the structure, no two flags share a bit, flags are only in a structure that
  begins with the word for them, and the other members are exactly those at the offsets, each at one.
\<close>

definition struct_fits :: "int \<Rightarrow> c_struct \<Rightarrow> string option list \<Rightarrow> bool" where
  "struct_fits i s offs \<longleftrightarrow>
     struct_at i = Some (st_name s) \<and>
     (let bs = concat (map flag_bits (st_flags s)) in distinct bs \<and> list_all (\<lambda>b. 0 \<le> b \<and> b < 32) bs) \<and>
     (st_flags s = [] \<or> flag_words s = 1) \<and>
     (let ms = map snd (drop (flag_words s) (st_members s)); os = List.map_filter id offs in
        distinct ms \<and> distinct os \<and> list_all (\<lambda>m. m \<in> set os) ms \<and> list_all (\<lambda>x. x \<in> set ms) os)"

subsection \<open>Comparing the table\<close>

definition table_head :: "schema_element \<Rightarrow> bool" where
  "table_head e \<longleftrightarrow> \<not> primitive e \<and> se_n e = 0"

text \<open>
  Entries of a table from index \<open>i\<close> on, some of which are heads, with the structure of the last head and the
  offsets that are left; \<open>g\<close> is checked of a head and \<open>f\<close> of an element.
\<close>

fun walk :: "('e \<Rightarrow> bool) \<Rightarrow> (int \<Rightarrow> c_struct \<Rightarrow> string option list \<Rightarrow> bool) \<Rightarrow> (c_struct \<Rightarrow> 'e \<Rightarrow> string option \<Rightarrow> bool) \<Rightarrow>
    int \<Rightarrow> c_struct \<Rightarrow> string option list \<Rightarrow> layout \<Rightarrow> 'e list \<Rightarrow> (c_struct \<times> string option list \<times> layout) option" where
  "walk h g f i s offs ly [] = Some (s, offs, ly)"
| "walk h g f i s offs ly (e # es) =
     (if h e then
        (case offs of
           [] \<Rightarrow> (case ly of
                   [] \<Rightarrow> None
                 | (j, t, to) # ly \<Rightarrow> if i = j \<and> g j t to then walk h g f (i + 1) t to ly es else None)
         | _ \<Rightarrow> None)
      else case offs of [] \<Rightarrow> None | x # offs \<Rightarrow> if f s e x then walk h g f (i + 1) s offs ly es else None)"

lemma walk_append:
  "walk h g f i s offs ly (xs @ ys) =
   Option.bind (walk h g f i s offs ly xs) (\<lambda>(s, offs, ly). walk h g f (i + int (length xs)) s offs ly ys)"
  by (induction h g f i s offs ly xs rule: walk.induct) (auto split: list.splits simp: algebra_simps)

lemma walk_more: "walk h g f i s offs ly xs = Some (s', offs', ly') \<Longrightarrow> walk h g f i s offs (ly @ lz) xs = Some (s', offs', ly' @ lz)"
  by (induction h g f i s offs ly xs rule: walk.induct) (auto split: list.splits if_splits)

definition body :: "('e \<Rightarrow> bool) \<Rightarrow> 'e list \<Rightarrow> int \<Rightarrow> 'e list" where
  "body h es i = takeWhile (\<lambda>e. \<not> h e) (drop (nat (i + 1)) es)"

lemma walk_sound:
  assumes "walk h g f i s offs ly es = Some (s', [], [])"
  shows "list_all2 (f s) (takeWhile (\<lambda>e. \<not> h e) es) offs \<and>
    (\<forall>(j, t, to) \<in> set ly. i \<le> j \<and> g j t to \<and> list_all2 (f t) (body h es (j - i)) to)"
  using assms
proof (induction h g f i s offs ly es rule: walk.induct)
  case (2 h g f i s offs ly e es)
  have step: "body h (e # es) (k - i) = body h es (k - (i + 1))" if "i + 1 \<le> k" for k
  proof -
    have "nat (k - i + 1) = Suc (nat (k - (i + 1) + 1))" using that by linarith
    then show ?thesis by (simp add: body_def)
  qed
  show ?case
  proof (cases "h e")
    case True
    then obtain j t to ly1 where l: "offs = []" "ly = (j, t, to) # ly1" "i = j" "g j t to" "walk h g f (i + 1) t to ly1 es = Some (s', [], [])"
      using "2.prems" by (auto split: list.splits if_splits)
    have IH: "list_all2 (f t) (takeWhile (\<lambda>e. \<not> h e) es) to"
      "\<forall>(k, u, uo) \<in> set ly1. i + 1 \<le> k \<and> g k u uo \<and> list_all2 (f u) (body h es (k - (i + 1))) uo"
      using "2.IH"(1) [OF True l(1,2) refl refl] l by auto
    moreover have "body h (e # es) 0 = takeWhile (\<lambda>e. \<not> h e) es" by (simp add: body_def)
    ultimately show ?thesis using IH l True step by fastforce
  next
    case False
    then obtain x offs1 where l: "offs = x # offs1" "f s e x" "walk h g f (i + 1) s offs1 ly es = Some (s', [], [])"
      using "2.prems" by (auto split: list.splits if_splits)
    have IH: "list_all2 (f s) (takeWhile (\<lambda>e. \<not> h e) es) offs1"
      "\<forall>(k, u, uo) \<in> set ly. i + 1 \<le> k \<and> g k u uo \<and> list_all2 (f u) (body h es (k - (i + 1))) uo"
      using "2.IH"(2) [OF False l(1,2)] l(3) by auto
    then show ?thesis using l False step by fastforce
  qed
qed simp

text \<open>The entries are the elements behind those of the types, each with its name.\<close>

type_synonym entry = "schema_element \<times> string"

definition se_entries :: "entry list" where
  "se_entries = zip (drop 321 se_elements) (map (\<lambda>i. se_names ! nat i) se_ids)"

definition entry_head :: "entry \<Rightarrow> bool" where
  "entry_head e = table_head (fst e)"

text \<open>
  The name of an element, which stands for it in documents, is the one of the member at its offset, or of
  its macro. The table names one element otherwise.
\<close>

definition renamed :: "(string \<times> string) list" where
  "renamed = [(''loadShedDeviceCategory'', ''deviceCategory'')]"

definition name_fits :: "c_struct \<Rightarrow> entry \<Rightarrow> string option \<Rightarrow> bool" where
  "name_fits s e off \<longleftrightarrow>
     (case off of
        None \<Rightarrow> list_ex (\<lambda>f. f = Truth (snd e) (se_bit (fst e))) (st_flags s)
      | Some x \<Rightarrow> snd e = x \<or> st_name s = ''EndDevice'' \<and> (x, snd e) \<in> set renamed)"

definition entry_fits :: "c_struct \<Rightarrow> entry \<Rightarrow> string option \<Rightarrow> bool" where
  "entry_fits s e off \<longleftrightarrow> element_fits s (fst e) off \<and> name_fits s e off"

abbreviation walk_table where "walk_table \<equiv> walk entry_head struct_fits entry_fits"

subsection \<open>The pieces of the table\<close>

definition se_ids_3 :: "int list" where
  "se_ids_3 =
     [0, 321, 322, 323, 0, 324, 0, 324, 325, 326, 327, 328, 329, 330, 331, 332, 333, 334, 335, 336, 337, 338,
     339, 340, 341, 0, 342, 343, 0, 324, 344, 345, 346, 347, 323, 0, 324, 348, 344, 345, 346, 347, 323, 349, 0,
     324, 350, 351, 352, 0, 324, 350, 351, 352, 346, 0, 324, 350, 351, 352, 346, 232, 0, 324, 350, 351, 352, 0,
     324, 350, 351, 352, 353, 180, 354, 232, 241, 0, 324, 350, 351, 352, 355, 356, 357, 0, 324, 350, 351, 352,
     355, 356, 357, 358, 178, 359, 0, 360, 324, 361, 0, 360, 324, 362, 361, 181, 0]"

definition names_of_3 :: "string list" where
  "names_of_3 = [
     ''AbstractDevice'', ''multiplier'', ''unit'', ''value'', ''AbstractDevice'', ''href'', ''AbstractDevice'',
     ''href'', ''accumulationBehaviour'', ''calorificValue'', ''commodity'', ''conversionFactor'',
     ''dataQualifier'', ''flowDirection'', ''intervalLength'', ''kind'', ''maxNumberOfIntervals'',
     ''numberOfConsumptionBlocks'', ''numberOfTouTiers'', ''phase'', ''powerOfTenMultiplier'',
     ''subIntervalLength'', ''supplyLimit'', ''tieredConsumptionBlocks'', ''uom'', ''AbstractDevice'',
     ''duration'', ''start'', ''AbstractDevice'', ''href'', ''consumptionBlock'', ''qualityFlags'',
     ''timePeriod'', ''touTier'', ''value'', ''AbstractDevice'', ''href'', ''subscribable'',
     ''consumptionBlock'', ''qualityFlags'', ''timePeriod'', ''touTier'', ''value'', ''localID'',
     ''AbstractDevice'', ''href'', ''mRID'', ''description'', ''version'', ''AbstractDevice'', ''href'',
     ''mRID'', ''description'', ''version'', ''timePeriod'', ''AbstractDevice'', ''href'', ''mRID'',
     ''description'', ''version'', ''timePeriod'', ''Reading'', ''AbstractDevice'', ''href'', ''mRID'',
     ''description'', ''version'', ''AbstractDevice'', ''href'', ''mRID'', ''description'', ''version'',
     ''lastUpdateTime'', ''MirrorReadingSet'', ''nextUpdateTime'', ''Reading'', ''ReadingType'',
     ''AbstractDevice'', ''href'', ''mRID'', ''description'', ''version'', ''roleFlags'',
     ''serviceCategoryKind'', ''status'', ''AbstractDevice'', ''href'', ''mRID'', ''description'', ''version'',
     ''roleFlags'', ''serviceCategoryKind'', ''status'', ''deviceLFDI'', ''MirrorMeterReading'', ''postRate'',
     ''AbstractDevice'', ''all'', ''href'', ''results'', ''AbstractDevice'', ''all'', ''href'', ''pollRate'',
     ''results'', ''MirrorUsagePoint'', ''AbstractDevice'']"

lemma names_of_3: "map (\<lambda>i. se_names ! nat i) se_ids_3 = names_of_3 \<and> length names_of_3 = 107"
  by (simp add: se_ids_3_def names_of_3_def names_at)

lemma walk_3: "walk_table 321 SE_Resource_t [] se_layout_3 (zip (drop 25 se_elements_3) names_of_3) = Some (SE_MirrorMeterReadingList_t, [At ''all'', At ''href'', At ''results'', At ''MirrorMeterReading''], [])"
  by code_simp

definition se_ids_4 :: "int list" where
  "se_ids_4 =
     [360, 324, 361, 178, 0, 363, 364, 0, 324, 365, 366, 0, 324, 365, 366, 350, 351, 352, 0, 324, 0, 360, 324,
     0, 360, 324, 0, 324, 0, 324, 0, 324, 0, 324, 0, 324, 0, 324, 0, 360, 324, 0, 321, 323, 0, 321, 323, 0, 367,
     323, 0, 367, 323, 0, 367, 323, 0, 367, 323, 0, 367, 323, 0, 367, 323, 0, 367, 323, 0, 324, 348, 0, 324,
     348, 368, 369, 370, 371, 372, 373, 374, 375, 376, 0, 360, 324, 0, 360, 324, 0, 324, 0, 360, 324, 0, 324,
     348, 350, 351, 352, 0, 324, 348, 350, 351, 352, 7, 95, 70, 76, 377, 0, 360, 324, 361, 348]"

definition names_of_4 :: "string list" where
  "names_of_4 = [
     ''all'', ''href'', ''results'', ''MirrorMeterReading'', ''AbstractDevice'', ''maxRetryDuration'',
     ''reasonCode'', ''AbstractDevice'', ''href'', ''replyTo'', ''responseRequired'', ''AbstractDevice'',
     ''href'', ''replyTo'', ''responseRequired'', ''mRID'', ''description'', ''version'', ''AbstractDevice'',
     ''href'', ''AbstractDevice'', ''all'', ''href'', ''AbstractDevice'', ''all'', ''href'', ''AbstractDevice'',
     ''href'', ''AbstractDevice'', ''href'', ''AbstractDevice'', ''href'', ''AbstractDevice'', ''href'',
     ''AbstractDevice'', ''href'', ''AbstractDevice'', ''href'', ''AbstractDevice'', ''all'', ''href'',
     ''AbstractDevice'', ''multiplier'', ''value'', ''AbstractDevice'', ''multiplier'', ''value'',
     ''AbstractDevice'', ''dateTime'', ''value'', ''AbstractDevice'', ''dateTime'', ''value'',
     ''AbstractDevice'', ''dateTime'', ''value'', ''AbstractDevice'', ''dateTime'', ''value'',
     ''AbstractDevice'', ''dateTime'', ''value'', ''AbstractDevice'', ''dateTime'', ''value'',
     ''AbstractDevice'', ''dateTime'', ''value'', ''AbstractDevice'', ''href'', ''subscribable'',
     ''AbstractDevice'', ''href'', ''subscribable'', ''genConnectStatus'', ''inverterStatus'',
     ''localControlModeStatus'', ''manufacturerStatus'', ''operationalModeStatus'', ''readingTime'',
     ''stateOfChargeStatus'', ''storageModeStatus'', ''storConnectStatus'', ''AbstractDevice'', ''all'',
     ''href'', ''AbstractDevice'', ''all'', ''href'', ''AbstractDevice'', ''href'', ''AbstractDevice'', ''all'',
     ''href'', ''AbstractDevice'', ''href'', ''subscribable'', ''mRID'', ''description'', ''version'',
     ''AbstractDevice'', ''href'', ''subscribable'', ''mRID'', ''description'', ''version'',
     ''ActiveDERControlListLink'', ''DefaultDERControlLink'', ''DERControlListLink'', ''DERCurveListLink'',
     ''primacy'', ''AbstractDevice'', ''all'', ''href'', ''results'', ''subscribable'']"

lemma names_of_4: "map (\<lambda>i. se_names ! nat i) se_ids_4 = names_of_4 \<and> length names_of_4 = 116"
  by (simp add: se_ids_4_def names_of_4_def names_at)

lemma walk_4: "walk_table 428 SE_MirrorMeterReadingList_t [At ''all'', At ''href'', At ''results'', At ''MirrorMeterReading''] se_layout_4 (zip se_elements_4 names_of_4) = Some (SE_SubscribableList_t, [], [])"
  by code_simp

definition se_ids_5 :: "int list" where
  "se_ids_5 =
     [0, 360, 324, 362, 361, 348, 81, 0, 378, 379, 0, 324, 350, 351, 352, 380, 54, 381, 382, 383, 384, 385, 386,
     387, 388, 0, 360, 324, 361, 73, 0, 321, 323, 0, 321, 323, 0, 324, 0, 389, 390, 391, 392, 382, 0, 393, 323,
     0, 394, 321, 0, 395, 396, 397, 398, 399, 400, 401, 402, 403, 404, 405, 406, 407, 408, 409, 410, 411, 412,
     413, 414, 415, 0, 416, 367, 417, 418, 419, 0, 324, 365, 366, 348, 350, 351, 352, 0, 324, 365, 366, 348,
     350, 351, 352, 380, 120, 420, 0, 324, 365, 366, 348, 350, 351, 352, 380, 120, 420, 421, 422, 0, 324, 365,
     366, 348, 350, 351, 352, 380, 120, 420, 421, 422, 68, 0, 360, 324, 361, 348, 67, 0]"

definition names_of_5 :: "string list" where
  "names_of_5 = [
     ''AbstractDevice'', ''all'', ''href'', ''pollRate'', ''results'', ''subscribable'', ''DERProgram'',
     ''AbstractDevice'', ''xvalue'', ''yvalue'', ''AbstractDevice'', ''href'', ''mRID'', ''description'',
     ''version'', ''creationTime'', ''CurveData'', ''curveType'', ''openLoopTms'', ''rampDecTms'',
     ''rampIncTms'', ''rampPT1Tms'', ''xMultiplier'', ''yMultiplier'', ''yRefType'', ''AbstractDevice'',
     ''all'', ''href'', ''results'', ''DERCurve'', ''AbstractDevice'', ''multiplier'', ''value'',
     ''AbstractDevice'', ''multiplier'', ''value'', ''AbstractDevice'', ''href'', ''AbstractDevice'', ''dBOF'',
     ''dBUF'', ''kOF'', ''kUF'', ''openLoopTms'', ''AbstractDevice'', ''refType'', ''value'',
     ''AbstractDevice'', ''displacement'', ''multiplier'', ''AbstractDevice'', ''opModConnect'',
     ''opModEnergize'', ''opModFixedPF'', ''opModFixedVar'', ''opModFixedW'', ''opModFreqDroop'',
     ''opModFreqWatt'', ''opModHFRTMustTrip'', ''opModHVRTMomentaryCessation'', ''opModHVRTMustTrip'',
     ''opModLFRTMustTrip'', ''opModLVRTMomentaryCessation'', ''opModLVRTMustTrip'', ''opModMaxLimW'',
     ''opModTargetVar'', ''opModTargetW'', ''opModVoltVar'', ''opModVoltWatt'', ''opModWattPF'',
     ''opModWattVar'', ''rampTms'', ''AbstractDevice'', ''currentStatus'', ''dateTime'',
     ''potentiallySuperseded'', ''potentiallySupersededTime'', ''reason'', ''AbstractDevice'', ''href'',
     ''replyTo'', ''responseRequired'', ''subscribable'', ''mRID'', ''description'', ''version'',
     ''AbstractDevice'', ''href'', ''replyTo'', ''responseRequired'', ''subscribable'', ''mRID'',
     ''description'', ''version'', ''creationTime'', ''EventStatus'', ''interval'', ''AbstractDevice'',
     ''href'', ''replyTo'', ''responseRequired'', ''subscribable'', ''mRID'', ''description'', ''version'',
     ''creationTime'', ''EventStatus'', ''interval'', ''randomizeDuration'', ''randomizeStart'',
     ''AbstractDevice'', ''href'', ''replyTo'', ''responseRequired'', ''subscribable'', ''mRID'',
     ''description'', ''version'', ''creationTime'', ''EventStatus'', ''interval'', ''randomizeDuration'',
     ''randomizeStart'', ''DERControlBase'', ''AbstractDevice'', ''all'', ''href'', ''results'',
     ''subscribable'', ''DERControl'', ''AbstractDevice'']"

lemma names_of_5: "map (\<lambda>i. se_names ! nat i) se_ids_5 = names_of_5 \<and> length names_of_5 = 131"
  by (simp add: se_ids_5_def names_of_5_def names_at)

lemma walk_5: "walk_table 544 SE_SubscribableList_t [] se_layout_5 (zip se_elements_5 names_of_5) = Some (SE_WattHour_t, [At ''multiplier'', At ''value''], [])"
  by code_simp

definition se_ids_6 :: "int list" where
  "se_ids_6 =
     [321, 323, 0, 321, 323, 0, 321, 323, 0, 321, 323, 0, 324, 423, 424, 425, 426, 427, 428, 429, 430, 431, 432,
     433, 434, 435, 436, 437, 438, 439, 440, 441, 442, 443, 0, 324, 348, 444, 445, 373, 446, 447, 448, 449, 0,
     321, 323, 0, 324, 348, 450, 451, 452, 453, 454, 455, 456, 457, 458, 459, 460, 461, 462, 463, 464, 465, 466,
     467, 468, 469, 470, 471, 472, 473, 474, 0, 324, 0, 324, 0, 324, 0, 324, 0, 324, 0, 324, 0, 360, 324, 0,
     324, 348, 21, 22, 52, 64, 66, 86, 88, 0, 360, 324, 362, 361, 62, 0, 324, 348, 350, 351, 352, 68, 451, 452,
     453, 454, 455, 456, 457, 471, 0, 321, 323, 0, 324, 365, 366, 348]"

definition names_of_6 :: "string list" where
  "names_of_6 = [
     ''multiplier'', ''value'', ''AbstractDevice'', ''multiplier'', ''value'', ''AbstractDevice'',
     ''multiplier'', ''value'', ''AbstractDevice'', ''multiplier'', ''value'', ''AbstractDevice'', ''href'',
     ''modesSupported'', ''rtgA'', ''rtgAbnormalCategory'', ''rtgAh'', ''rtgMaxChargeRateVA'',
     ''rtgMaxChargeRateW'', ''rtgMaxDischargeRateVA'', ''rtgMaxDischargeRateW'', ''rtgMinPF'', ''rtgMinPFNeg'',
     ''rtgNormalCategory'', ''rtgOverExcitedPF'', ''rtgOverExcitedW'', ''rtgUnderExcitedPF'',
     ''rtgUnderExcitedW'', ''rtgVA'', ''rtgVar'', ''rtgVarNeg'', ''rtgW'', ''rtgWh'', ''type'',
     ''AbstractDevice'', ''href'', ''subscribable'', ''availabilityDuration'', ''maxChargeDuration'',
     ''readingTime'', ''reserveChargePercent'', ''reservePercent'', ''statVarAvail'', ''statWAvail'',
     ''AbstractDevice'', ''multiplier'', ''value'', ''AbstractDevice'', ''href'', ''subscribable'',
     ''modesEnabled'', ''setESDelay'', ''setESHighFreq'', ''setESHighVolt'', ''setESLowFreq'', ''setESLowVolt'',
     ''setESRandomDelay'', ''setGradW'', ''setMaxA'', ''setMaxAh'', ''setMaxChargeRateVA'',
     ''setMaxChargeRateW'', ''setMaxDischargeRateVA'', ''setMaxDischargeRateW'', ''setMaxVA'', ''setMaxVar'',
     ''setMaxVarNeg'', ''setMaxW'', ''setMaxWh'', ''setMinPF'', ''setMinPFNeg'', ''setSoftGradW'', ''setVRef'',
     ''setVRefOfs'', ''updatedTime'', ''AbstractDevice'', ''href'', ''AbstractDevice'', ''href'',
     ''AbstractDevice'', ''href'', ''AbstractDevice'', ''href'', ''AbstractDevice'', ''href'',
     ''AbstractDevice'', ''href'', ''AbstractDevice'', ''all'', ''href'', ''AbstractDevice'', ''href'',
     ''subscribable'', ''AssociatedDERProgramListLink'', ''AssociatedUsagePointLink'',
     ''CurrentDERProgramLink'', ''DERAvailabilityLink'', ''DERCapabilityLink'', ''DERSettingsLink'',
     ''DERStatusLink'', ''AbstractDevice'', ''all'', ''href'', ''pollRate'', ''results'', ''DER'',
     ''AbstractDevice'', ''href'', ''subscribable'', ''mRID'', ''description'', ''version'', ''DERControlBase'',
     ''setESDelay'', ''setESHighFreq'', ''setESHighVolt'', ''setESLowFreq'', ''setESLowVolt'',
     ''setESRandomDelay'', ''setGradW'', ''setSoftGradW'', ''AbstractDevice'', ''multiplier'', ''value'',
     ''AbstractDevice'', ''href'', ''replyTo'', ''responseRequired'', ''subscribable'']"

lemma names_of_6: "map (\<lambda>i. se_names ! nat i) se_ids_6 = names_of_6 \<and> length names_of_6 = 129"
  by (simp add: se_ids_6_def names_of_6_def names_at)

lemma walk_6: "walk_table 675 SE_WattHour_t [At ''multiplier'', At ''value''] se_layout_6 (zip se_elements_6 names_of_6) = Some (SE_FlowReservationResponse_t, [At ''mRID'', At ''description'', At ''version'', At ''creationTime'', At ''EventStatus'', At ''interval'', At ''energyAvailable'', At ''powerAvailable'', At ''subject''], [])"
  by code_simp

definition se_ids_7 :: "int list" where
  "se_ids_7 =
     [350, 351, 352, 380, 120, 420, 475, 476, 477, 0, 360, 324, 362, 361, 348, 133, 0, 367, 478, 0, 324, 350,
     351, 352, 380, 479, 480, 481, 482, 246, 0, 360, 324, 362, 361, 130, 0, 324, 351, 420, 0, 360, 324, 361,
     279, 0, 483, 484, 0, 485, 484, 0, 324, 486, 487, 488, 489, 0, 324, 0, 360, 324, 0, 324, 350, 351, 352, 355,
     356, 357, 358, 177, 0, 360, 324, 0, 324, 0, 360, 324, 0, 321, 323, 0, 490, 491, 321, 323, 0, 360, 324, 0,
     360, 324, 0, 324, 0, 324, 350, 351, 352, 2, 6, 12, 492, 47, 493, 494, 495, 206, 281, 311, 313, 0, 360, 324,
     362, 361, 348, 207, 0, 324, 350, 351, 352]"

definition names_of_7 :: "string list" where
  "names_of_7 = [
     ''mRID'', ''description'', ''version'', ''creationTime'', ''EventStatus'', ''interval'',
     ''energyAvailable'', ''powerAvailable'', ''subject'', ''AbstractDevice'', ''all'', ''href'', ''pollRate'',
     ''results'', ''subscribable'', ''FlowReservationResponse'', ''AbstractDevice'', ''dateTime'',
     ''requestStatus'', ''AbstractDevice'', ''href'', ''mRID'', ''description'', ''version'', ''creationTime'',
     ''durationRequested'', ''energyRequested'', ''intervalRequested'', ''powerRequested'', ''RequestStatus'',
     ''AbstractDevice'', ''all'', ''href'', ''pollRate'', ''results'', ''FlowReservationRequest'',
     ''AbstractDevice'', ''href'', ''description'', ''interval'', ''AbstractDevice'', ''all'', ''href'',
     ''results'', ''SupplyInterruptionOverride'', ''AbstractDevice'', ''newStatus'', ''startTime'',
     ''AbstractDevice'', ''newType'', ''startTime'', ''AbstractDevice'', ''href'', ''creditTypeChange'',
     ''creditTypeInUse'', ''serviceChange'', ''serviceStatus'', ''AbstractDevice'', ''href'',
     ''AbstractDevice'', ''all'', ''href'', ''AbstractDevice'', ''href'', ''mRID'', ''description'',
     ''version'', ''roleFlags'', ''serviceCategoryKind'', ''status'', ''deviceLFDI'', ''MeterReadingListLink'',
     ''AbstractDevice'', ''all'', ''href'', ''AbstractDevice'', ''href'', ''AbstractDevice'', ''all'', ''href'',
     ''AbstractDevice'', ''multiplier'', ''value'', ''AbstractDevice'', ''energyUnit'', ''monetaryUnit'',
     ''multiplier'', ''value'', ''AbstractDevice'', ''all'', ''href'', ''AbstractDevice'', ''all'', ''href'',
     ''AbstractDevice'', ''href'', ''AbstractDevice'', ''href'', ''mRID'', ''description'', ''version'',
     ''AccountBalanceLink'', ''ActiveCreditRegisterListLink'', ''ActiveSupplyInterruptionOverrideListLink'',
     ''creditExpiryLevel'', ''CreditRegisterListLink'', ''lowCreditWarningLevel'',
     ''lowEmergencyCreditWarningLevel'', ''prepayMode'', ''PrepayOperationStatusLink'',
     ''SupplyInterruptionOverrideListLink'', ''UsagePoint'', ''UsagePointLink'', ''AbstractDevice'', ''all'',
     ''href'', ''pollRate'', ''results'', ''subscribable'', ''Prepayment'', ''AbstractDevice'', ''href'',
     ''mRID'', ''description'', ''version'']"

lemma names_of_7: "map (\<lambda>i. se_names ! nat i) se_ids_7 = names_of_7 \<and> length names_of_7 = 125"
  by (simp add: se_ids_7_def names_of_7_def names_at)

lemma walk_7: "walk_table 804 SE_FlowReservationResponse_t [At ''mRID'', At ''description'', At ''version'', At ''creationTime'', At ''EventStatus'', At ''interval'', At ''energyAvailable'', At ''powerAvailable'', At ''subject''] se_layout_7 (zip se_elements_7 names_of_7) = Some (SE_CreditRegister_t, [At ''creditAmount'', At ''creditType'', At ''effectiveTime'', At ''token''], [])"
  by code_simp

definition se_ids_8 :: "int list" where
  "se_ids_8 =
     [496, 497, 498, 499, 0, 360, 324, 361, 45, 0, 324, 500, 501, 502, 503, 0, 324, 350, 351, 352, 504, 505,
     506, 507, 0, 360, 324, 361, 264, 0, 324, 0, 360, 324, 0, 324, 350, 351, 352, 32, 242, 0, 324, 350, 351,
     352, 32, 242, 0, 360, 324, 361, 286, 0, 324, 350, 351, 352, 32, 242, 0, 360, 324, 361, 217, 0, 324, 350,
     351, 352, 32, 242, 0, 360, 324, 361, 142, 0, 324, 0, 360, 324, 0, 360, 324, 0, 324, 0, 360, 324, 0, 360,
     324, 0, 360, 324, 0, 360, 324, 0, 360, 324, 0, 324, 350, 351, 352, 5, 11, 13, 26, 144, 208, 219, 508, 509,
     288, 291, 313, 0, 360, 324, 361, 348]"

definition names_of_8 :: "string list" where
  "names_of_8 = [
     ''creditAmount'', ''creditType'', ''effectiveTime'', ''token'', ''AbstractDevice'', ''all'', ''href'',
     ''results'', ''CreditRegister'', ''AbstractDevice'', ''href'', ''availableCredit'', ''creditStatus'',
     ''emergencyCredit'', ''emergencyCreditStatus'', ''AbstractDevice'', ''href'', ''mRID'', ''description'',
     ''version'', ''email'', ''phone'', ''providerID'', ''web'', ''AbstractDevice'', ''all'', ''href'',
     ''results'', ''ServiceSupplier'', ''AbstractDevice'', ''href'', ''AbstractDevice'', ''all'', ''href'',
     ''AbstractDevice'', ''href'', ''mRID'', ''description'', ''version'', ''BillingReadingSetListLink'',
     ''ReadingTypeLink'', ''AbstractDevice'', ''href'', ''mRID'', ''description'', ''version'',
     ''BillingReadingSetListLink'', ''ReadingTypeLink'', ''AbstractDevice'', ''all'', ''href'', ''results'',
     ''TargetReading'', ''AbstractDevice'', ''href'', ''mRID'', ''description'', ''version'',
     ''BillingReadingSetListLink'', ''ReadingTypeLink'', ''AbstractDevice'', ''all'', ''href'', ''results'',
     ''ProjectionReading'', ''AbstractDevice'', ''href'', ''mRID'', ''description'', ''version'',
     ''BillingReadingSetListLink'', ''ReadingTypeLink'', ''AbstractDevice'', ''all'', ''href'', ''results'',
     ''HistoricalReading'', ''AbstractDevice'', ''href'', ''AbstractDevice'', ''all'', ''href'',
     ''AbstractDevice'', ''all'', ''href'', ''AbstractDevice'', ''href'', ''AbstractDevice'', ''all'', ''href'',
     ''AbstractDevice'', ''all'', ''href'', ''AbstractDevice'', ''all'', ''href'', ''AbstractDevice'', ''all'',
     ''href'', ''AbstractDevice'', ''all'', ''href'', ''AbstractDevice'', ''href'', ''mRID'', ''description'',
     ''version'', ''ActiveBillingPeriodListLink'', ''ActiveProjectionReadingListLink'',
     ''ActiveTargetReadingListLink'', ''BillingPeriodListLink'', ''HistoricalReadingListLink'',
     ''PrepaymentLink'', ''ProjectionReadingListLink'', ''serviceAccount'', ''serviceLocation'',
     ''TargetReadingListLink'', ''TariffProfileLink'', ''UsagePointLink'', ''AbstractDevice'', ''all'',
     ''href'', ''results'', ''subscribable'']"

lemma names_of_8: "map (\<lambda>i. se_names ! nat i) se_ids_8 = names_of_8 \<and> length names_of_8 = 124"
  by (simp add: se_ids_8_def names_of_8_def names_at)

lemma walk_8: "walk_table 929 SE_CreditRegister_t [At ''creditAmount'', At ''creditType'', At ''effectiveTime'', At ''token''] se_layout_8 (zip se_elements_8 names_of_8) = Some (SE_CustomerAgreementList_t, [At ''CustomerAgreement''], [])"
  by code_simp

definition se_ids_9 :: "int list" where
  "se_ids_9 =
     [59, 0, 324, 0, 360, 324, 0, 324, 350, 351, 352, 510, 511, 61, 512, 513, 265, 0, 360, 324, 362, 361, 348,
     55, 0, 360, 324, 0, 324, 350, 351, 352, 346, 29, 0, 360, 324, 361, 348, 30, 0, 351, 332, 323, 0, 324, 344,
     345, 346, 347, 323, 33, 0, 360, 324, 361, 27, 0, 324, 514, 515, 420, 516, 0, 360, 324, 361, 348, 24, 0,
     324, 365, 366, 348, 350, 351, 352, 380, 120, 420, 517, 518, 519, 0, 360, 324, 361, 348, 295, 0, 360, 324,
     0, 360, 324, 0, 324, 348, 350, 351, 352, 14, 520, 377, 297, 0, 360, 324, 362, 361, 348, 170, 0, 360, 324,
     0, 324, 365, 366, 348, 350, 351, 352, 380, 120, 420, 421, 422]"

definition names_of_9 :: "string list" where
  "names_of_9 = [
     ''CustomerAgreement'', ''AbstractDevice'', ''href'', ''AbstractDevice'', ''all'', ''href'',
     ''AbstractDevice'', ''href'', ''mRID'', ''description'', ''version'', ''currency'', ''customerAccount'',
     ''CustomerAgreementListLink'', ''customerName'', ''pricePowerOfTenMultiplier'', ''ServiceSupplierLink'',
     ''AbstractDevice'', ''all'', ''href'', ''pollRate'', ''results'', ''subscribable'', ''CustomerAccount'',
     ''AbstractDevice'', ''all'', ''href'', ''AbstractDevice'', ''href'', ''mRID'', ''description'',
     ''version'', ''timePeriod'', ''BillingReadingListLink'', ''AbstractDevice'', ''all'', ''href'',
     ''results'', ''subscribable'', ''BillingReadingSet'', ''AbstractDevice'', ''description'', ''kind'',
     ''value'', ''AbstractDevice'', ''href'', ''consumptionBlock'', ''qualityFlags'', ''timePeriod'',
     ''touTier'', ''value'', ''Charge'', ''AbstractDevice'', ''all'', ''href'', ''results'', ''BillingReading'',
     ''AbstractDevice'', ''href'', ''billLastPeriod'', ''billToDate'', ''interval'', ''statusTimeStamp'',
     ''AbstractDevice'', ''all'', ''href'', ''results'', ''subscribable'', ''BillingPeriod'',
     ''AbstractDevice'', ''href'', ''replyTo'', ''responseRequired'', ''subscribable'', ''mRID'',
     ''description'', ''version'', ''creationTime'', ''EventStatus'', ''interval'', ''originator'',
     ''priority'', ''textMessage'', ''AbstractDevice'', ''all'', ''href'', ''results'', ''subscribable'',
     ''TextMessage'', ''AbstractDevice'', ''all'', ''href'', ''AbstractDevice'', ''all'', ''href'',
     ''AbstractDevice'', ''href'', ''subscribable'', ''mRID'', ''description'', ''version'',
     ''ActiveTextMessageListLink'', ''locale'', ''primacy'', ''TextMessageListLink'', ''AbstractDevice'',
     ''all'', ''href'', ''pollRate'', ''results'', ''subscribable'', ''MessagingProgram'', ''AbstractDevice'',
     ''all'', ''href'', ''AbstractDevice'', ''href'', ''replyTo'', ''responseRequired'', ''subscribable'',
     ''mRID'', ''description'', ''version'', ''creationTime'', ''EventStatus'', ''interval'',
     ''randomizeDuration'', ''randomizeStart'']"

lemma names_of_9: "map (\<lambda>i. se_names ! nat i) se_ids_9 = names_of_9 \<and> length names_of_9 = 128"
  by (simp add: se_ids_9_def names_of_9_def names_at)

lemma walk_9: "walk_table 1053 SE_CustomerAgreementList_t [At ''CustomerAgreement''] se_layout_9 (zip se_elements_9 names_of_9) = Some (SE_TimeTariffInterval_t, [At ''ConsumptionTariffIntervalListLink'', At ''touTier''], [])"
  by code_simp

definition se_ids_10 :: "int list" where
  "se_ids_10 =
     [43, 347, 0, 360, 324, 361, 348, 303, 0, 360, 324, 0, 324, 350, 351, 352, 510, 513, 377, 521, 230, 356, 0,
     360, 324, 362, 361, 348, 290, 0, 360, 324, 0, 360, 324, 0, 324, 350, 351, 352, 15, 522, 523, 242, 355, 305,
     0, 360, 324, 361, 227, 0, 524, 525, 526, 527, 0, 324, 344, 117, 528, 529, 0, 360, 324, 361, 41, 0, 360,
     324, 362, 361, 348, 311, 0, 360, 324, 0, 324, 350, 351, 352, 346, 236, 0, 360, 324, 361, 348, 237, 0, 360,
     324, 361, 348, 232, 0, 360, 324, 0, 324, 0, 324, 350, 351, 352, 230, 234, 240, 242, 0, 360, 324, 361, 348,
     173, 0, 443, 323, 0, 530, 531, 0, 532, 533]"

definition names_of_10 :: "string list" where
  "names_of_10 = [
     ''ConsumptionTariffIntervalListLink'', ''touTier'', ''AbstractDevice'', ''all'', ''href'', ''results'',
     ''subscribable'', ''TimeTariffInterval'', ''AbstractDevice'', ''all'', ''href'', ''AbstractDevice'',
     ''href'', ''mRID'', ''description'', ''version'', ''currency'', ''pricePowerOfTenMultiplier'', ''primacy'',
     ''rateCode'', ''RateComponentListLink'', ''serviceCategoryKind'', ''AbstractDevice'', ''all'', ''href'',
     ''pollRate'', ''results'', ''subscribable'', ''TariffProfile'', ''AbstractDevice'', ''all'', ''href'',
     ''AbstractDevice'', ''all'', ''href'', ''AbstractDevice'', ''href'', ''mRID'', ''description'',
     ''version'', ''ActiveTimeTariffIntervalListLink'', ''flowRateEndLimit'', ''flowRateStartLimit'',
     ''ReadingTypeLink'', ''roleFlags'', ''TimeTariffIntervalListLink'', ''AbstractDevice'', ''all'', ''href'',
     ''results'', ''RateComponent'', ''AbstractDevice'', ''amount'', ''costKind'', ''costLevel'',
     ''numCostLevels'', ''AbstractDevice'', ''href'', ''consumptionBlock'', ''EnvironmentalCost'', ''price'',
     ''startValue'', ''AbstractDevice'', ''all'', ''href'', ''results'', ''ConsumptionTariffInterval'',
     ''AbstractDevice'', ''all'', ''href'', ''pollRate'', ''results'', ''subscribable'', ''UsagePoint'',
     ''AbstractDevice'', ''all'', ''href'', ''AbstractDevice'', ''href'', ''mRID'', ''description'',
     ''version'', ''timePeriod'', ''ReadingListLink'', ''AbstractDevice'', ''all'', ''href'', ''results'',
     ''subscribable'', ''ReadingSet'', ''AbstractDevice'', ''all'', ''href'', ''results'', ''subscribable'',
     ''Reading'', ''AbstractDevice'', ''all'', ''href'', ''AbstractDevice'', ''href'', ''AbstractDevice'',
     ''href'', ''mRID'', ''description'', ''version'', ''RateComponentListLink'', ''ReadingLink'',
     ''ReadingSetListLink'', ''ReadingTypeLink'', ''AbstractDevice'', ''all'', ''href'', ''results'',
     ''subscribable'', ''MeterReading'', ''AbstractDevice'', ''type'', ''value'', ''AbstractDevice'',
     ''coolingSetpoint'', ''heatingSetpoint'', ''AbstractDevice'', ''coolingOffset'', ''heatingOffset'']"

lemma names_of_10: "map (\<lambda>i. se_names ! nat i) se_ids_10 = names_of_10 \<and> length names_of_10 = 125"
  by (simp add: se_ids_10_def names_of_10_def names_at)

lemma walk_10: "walk_table 1181 SE_TimeTariffInterval_t [At ''ConsumptionTariffIntervalListLink'', At ''touTier''] se_layout_10 (zip se_elements_10 names_of_10) = Some (SE_Offset_t, [At ''loadAdjustmentPercentageOffset''], [])"
  by code_simp

definition se_ids_11 :: "int list" where
  "se_ids_11 =
     [534, 0, 535, 0, 443, 0, 324, 365, 366, 348, 350, 351, 352, 380, 120, 420, 421, 422, 18, 536, 537, 109,
     538, 190, 539, 267, 289, 0, 360, 324, 361, 348, 111, 0, 360, 324, 0, 360, 324, 0, 324, 350, 351, 352, 8,
     540, 541, 113, 377, 0, 360, 324, 362, 361, 348, 96, 0, 324, 0, 324, 444, 97, 542, 543, 0, 360, 324, 362,
     361, 161, 0, 324, 0, 324, 362, 544, 122, 545, 546, 547, 548, 357, 549, 0, 324, 544, 550, 551, 552, 553,
     554, 555, 556, 557, 443, 0, 360, 324, 362, 361, 121, 0, 324, 0, 324, 558, 559, 228, 0, 360, 324, 361, 212,
     0, 560, 561, 562, 563, 0, 360, 324, 0, 564, 565, 0, 324]"

definition names_of_11 :: "string list" where
  "names_of_11 = [
     ''loadAdjustmentPercentageOffset'', ''AbstractDevice'', ''normalValue'', ''AbstractDevice'', ''type'',
     ''AbstractDevice'', ''href'', ''replyTo'', ''responseRequired'', ''subscribable'', ''mRID'',
     ''description'', ''version'', ''creationTime'', ''EventStatus'', ''interval'', ''randomizeDuration'',
     ''randomizeStart'', ''ApplianceLoadReduction'', ''deviceCategory'', ''drProgramMandatory'', ''DutyCycle'',
     ''loadShiftForward'', ''Offset'', ''overrideDuration'', ''SetPoint'', ''TargetReduction'',
     ''AbstractDevice'', ''all'', ''href'', ''results'', ''subscribable'', ''EndDeviceControl'',
     ''AbstractDevice'', ''all'', ''href'', ''AbstractDevice'', ''all'', ''href'', ''AbstractDevice'', ''href'',
     ''mRID'', ''description'', ''version'', ''ActiveEndDeviceControlListLink'',
     ''availabilityUpdatePercentChangeThreshold'', ''availabilityUpdatePowerChangeThreshold'',
     ''EndDeviceControlListLink'', ''primacy'', ''AbstractDevice'', ''all'', ''href'', ''pollRate'',
     ''results'', ''subscribable'', ''DemandResponseProgram'', ''AbstractDevice'', ''href'', ''AbstractDevice'',
     ''href'', ''availabilityDuration'', ''DemandResponseProgramLink'', ''sheddablePercent'',
     ''sheddablePower'', ''AbstractDevice'', ''all'', ''href'', ''pollRate'', ''results'',
     ''LoadShedAvailability'', ''AbstractDevice'', ''href'', ''AbstractDevice'', ''href'', ''pollRate'',
     ''activateTime'', ''FileLink'', ''loadPercent'', ''nextRequestAttempt'', ''request503Count'',
     ''requestFailCount'', ''status'', ''statusTime'', ''AbstractDevice'', ''href'', ''activateTime'',
     ''fileURI'', ''lFDI'', ''mfHwVer'', ''mfID'', ''mfModel'', ''mfSerNum'', ''mfVer'', ''size'', ''type'',
     ''AbstractDevice'', ''all'', ''href'', ''pollRate'', ''results'', ''File'', ''AbstractDevice'', ''href'',
     ''AbstractDevice'', ''href'', ''consumeThreshold'', ''maxReductionThreshold'', ''RateComponentLink'',
     ''AbstractDevice'', ''all'', ''href'', ''results'', ''PriceResponseCfg'', ''AbstractDevice'',
     ''dstEndRule'', ''dstOffset'', ''dstStartRule'', ''tzOffset'', ''AbstractDevice'', ''all'', ''href'',
     ''AbstractDevice'', ''batteryInstallTime'', ''lowChargeThreshold'', ''AbstractDevice'', ''href'']"

lemma names_of_11: "map (\<lambda>i. se_names ! nat i) se_ids_11 = names_of_11 \<and> length names_of_11 = 126"
  by (simp add: se_ids_11_def names_of_11_def names_at)

lemma walk_11: "walk_table 1306 SE_Offset_t [At ''loadAdjustmentPercentageOffset''] se_layout_11 (zip se_elements_11 names_of_11) = Some (SE_Configuration_t, [At ''pollRate'', At ''subscribable'', At ''currentLocale'', At ''PowerConfiguration'', At ''PriceResponseCfgListLink'', At ''TimeConfiguration'', At ''userDeviceName''], [])"
  by code_simp

definition se_ids_12 :: "int list" where
  "se_ids_12 =
     [362, 348, 566, 198, 214, 300, 567, 0, 324, 568, 569, 570, 571, 572, 573, 574, 575, 0, 360, 324, 362, 361,
     348, 166, 0, 324, 576, 577, 0, 360, 324, 361, 223, 0, 360, 324, 0, 324, 578, 579, 580, 581, 582, 583, 584,
     585, 225, 586, 0, 360, 324, 361, 220, 0, 324, 587, 588, 589, 0, 360, 324, 361, 184, 0, 590, 591, 592, 593,
     594, 0, 360, 324, 0, 595, 186, 589, 0, 324, 596, 597, 145, 598, 599, 600, 601, 602, 603, 604, 605, 606,
     607, 608, 609, 319, 0, 360, 324, 361, 155, 0, 360, 324, 0, 360, 324, 0, 324, 610, 611, 612, 613, 614, 615,
     616, 617, 618, 619, 620, 621, 622, 623, 624, 625, 626, 627, 628, 629, 630, 631, 148, 632]"

definition names_of_12 :: "string list" where
  "names_of_12 = [
     ''pollRate'', ''subscribable'', ''currentLocale'', ''PowerConfiguration'', ''PriceResponseCfgListLink'',
     ''TimeConfiguration'', ''userDeviceName'', ''AbstractDevice'', ''href'', ''createdDateTime'', ''details'',
     ''extendedData'', ''functionSet'', ''logEventCode'', ''logEventID'', ''logEventPEN'', ''profileID'',
     ''AbstractDevice'', ''all'', ''href'', ''pollRate'', ''results'', ''subscribable'', ''LogEvent'',
     ''AbstractDevice'', ''href'', ''DestAddress'', ''SourceRoute'', ''AbstractDevice'', ''all'', ''href'',
     ''results'', ''RPLSourceRoutes'', ''AbstractDevice'', ''all'', ''href'', ''AbstractDevice'', ''href'',
     ''DODAGid'', ''DODAGroot'', ''flags'', ''groundedFlag'', ''MOP'', ''PRF'', ''rank'', ''RPLInstanceID'',
     ''RPLSourceRoutesListLink'', ''versionNumber'', ''AbstractDevice'', ''all'', ''href'', ''results'',
     ''RPLInstance'', ''AbstractDevice'', ''href'', ''isChild'', ''linkQuality'', ''shortAddress'',
     ''AbstractDevice'', ''all'', ''href'', ''results'', ''Neighbor'', ''AbstractDevice'', ''octetsRx'',
     ''octetsTx'', ''packetsRx'', ''packetsTx'', ''rxFragError'', ''AbstractDevice'', ''all'', ''href'',
     ''AbstractDevice'', ''capabilityInfo'', ''NeighborListLink'', ''shortAddress'', ''AbstractDevice'',
     ''href'', ''CRCerrors'', ''EUI64'', ''IEEE_802_15_4'', ''linkLayerType'', ''LLAckNotRx'', ''LLCSMAFail'',
     ''LLFramesDropRx'', ''LLFramesDropTx'', ''LLFramesRx'', ''LLFramesTx'', ''LLMediaAccessFail'',
     ''LLOctetsRx'', ''LLOctetsTx'', ''LLRetryCount'', ''LLSecurityErrorRx'', ''loWPAN'', ''AbstractDevice'',
     ''all'', ''href'', ''results'', ''LLInterface'', ''AbstractDevice'', ''all'', ''href'', ''AbstractDevice'',
     ''all'', ''href'', ''AbstractDevice'', ''href'', ''ifDescr'', ''ifHighSpeed'', ''ifInBroadcastPkts'',
     ''ifIndex'', ''ifInDiscards'', ''ifInErrors'', ''ifInMulticastPkts'', ''ifInOctets'', ''ifInUcastPkts'',
     ''ifInUnknownProtos'', ''ifMtu'', ''ifName'', ''ifOperStatus'', ''ifOutBroadcastPkts'', ''ifOutDiscards'',
     ''ifOutErrors'', ''ifOutMulticastPkts'', ''ifOutOctets'', ''ifOutUcastPkts'', ''ifPromiscuousMode'',
     ''ifSpeed'', ''ifType'', ''IPAddrListLink'', ''lastResetTime'']"

lemma names_of_12: "map (\<lambda>i. se_names ! nat i) se_ids_12 = names_of_12 \<and> length names_of_12 = 131"
  by (simp add: se_ids_12_def names_of_12_def names_at)

lemma walk_12: "walk_table 1432 SE_Configuration_t [At ''pollRate'', At ''subscribable'', At ''currentLocale'', At ''PowerConfiguration'', At ''PriceResponseCfgListLink'', At ''TimeConfiguration'', At ''userDeviceName''] se_layout_12 (zip se_elements_12 names_of_12) = Some (SE_IPInterface_t, [At ''lastUpdatedTime'', At ''LLInterfaceListLink''], [])"
  by code_simp

definition se_ids_13 :: "int list" where
  "se_ids_13 =
     [633, 157, 0, 360, 324, 362, 361, 149, 0, 360, 324, 0, 324, 634, 222, 0, 360, 324, 361, 146, 0, 635, 636,
     637, 638, 639, 640, 641, 0, 324, 362, 642, 643, 644, 645, 646, 194, 647, 648, 0, 324, 520, 0, 360, 324,
     361, 282, 0, 360, 324, 0, 649, 650, 651, 0, 324, 362, 91, 652, 551, 653, 552, 553, 654, 554, 555, 655, 656,
     284, 657, 658, 0, 324, 362, 659, 660, 561, 661, 662, 663, 563, 0, 324, 568, 664, 357, 477, 0, 324, 568,
     664, 357, 477, 0, 360, 324, 0, 324, 350, 351, 352, 253, 0, 360, 324, 362, 361, 254, 0, 360, 324, 361, 251,
     0, 324, 568, 664, 357, 477, 0, 443, 323, 0, 324, 568, 664, 357]"

definition names_of_13 :: "string list" where
  "names_of_13 = [
     ''lastUpdatedTime'', ''LLInterfaceListLink'', ''AbstractDevice'', ''all'', ''href'', ''pollRate'',
     ''results'', ''IPInterface'', ''AbstractDevice'', ''all'', ''href'', ''AbstractDevice'', ''href'',
     ''address'', ''RPLInstanceListLink'', ''AbstractDevice'', ''all'', ''href'', ''results'', ''IPAddr'',
     ''AbstractDevice'', ''chargingPowerNow'', ''energyRequestNow'', ''maxForwardPower'',
     ''minimumChargingDuration'', ''targetStateOfCharge'', ''timeChargeIsNeeded'', ''timeChargingStatusPEV'',
     ''AbstractDevice'', ''href'', ''pollRate'', ''batteryStatus'', ''changedTime'', ''currentPowerSource'',
     ''estimatedChargeRemaining'', ''estimatedTimeRemaining'', ''PEVInfo'', ''sessionTimeOnBattery'',
     ''totalTimeOnBattery'', ''AbstractDevice'', ''href'', ''locale'', ''AbstractDevice'', ''all'', ''href'',
     ''results'', ''SupportedLocale'', ''AbstractDevice'', ''all'', ''href'', ''AbstractDevice'',
     ''averageEnergy'', ''maxDemand'', ''optionsImplemented'', ''AbstractDevice'', ''href'', ''pollRate'',
     ''DRLCCapabilities'', ''functionsImplemented'', ''lFDI'', ''mfDate'', ''mfHwVer'', ''mfID'', ''mfInfo'',
     ''mfModel'', ''mfSerNum'', ''primaryPower'', ''secondaryPower'', ''SupportedLocaleListLink'',
     ''swActTime'', ''swVer'', ''AbstractDevice'', ''href'', ''pollRate'', ''currentTime'', ''dstEndTime'',
     ''dstOffset'', ''dstStartTime'', ''localTime'', ''quality'', ''tzOffset'', ''AbstractDevice'', ''href'',
     ''createdDateTime'', ''endDeviceLFDI'', ''status'', ''subject'', ''AbstractDevice'', ''href'',
     ''createdDateTime'', ''endDeviceLFDI'', ''status'', ''subject'', ''AbstractDevice'', ''all'', ''href'',
     ''AbstractDevice'', ''href'', ''mRID'', ''description'', ''version'', ''ResponseListLink'',
     ''AbstractDevice'', ''all'', ''href'', ''pollRate'', ''results'', ''ResponseSet'', ''AbstractDevice'',
     ''all'', ''href'', ''results'', ''Response'', ''AbstractDevice'', ''href'', ''createdDateTime'',
     ''endDeviceLFDI'', ''status'', ''subject'', ''AbstractDevice'', ''type'', ''value'', ''AbstractDevice'',
     ''href'', ''createdDateTime'', ''endDeviceLFDI'', ''status'']"

lemma names_of_13: "map (\<lambda>i. se_names ! nat i) se_ids_13 = names_of_13 \<and> length names_of_13 = 127"
  by (simp add: se_ids_13_def names_of_13_def names_at)

lemma walk_13: "walk_table 1563 SE_IPInterface_t [At ''lastUpdatedTime'', At ''LLInterfaceListLink''] se_layout_13 (zip se_elements_13 names_of_13) = Some (SE_DrResponse_t, [At ''subject'', At ''ApplianceLoadReduction'', At ''AppliedTargetReduction'', At ''DutyCycle'', At ''Offset'', At ''overrideDuration'', At ''SetPoint''], [])"
  by code_simp

definition se_ids_14 :: "int list" where
  "se_ids_14 =
     [477, 18, 20, 109, 190, 539, 267, 0, 324, 568, 664, 357, 477, 0, 324, 568, 664, 357, 477, 0, 324, 665, 0,
     324, 665, 666, 247, 357, 667, 0, 360, 324, 361, 187, 0, 668, 669, 670, 0, 324, 665, 36, 671, 672, 673, 674,
     0, 360, 324, 362, 361, 275, 0, 360, 324, 0, 324, 0, 360, 324, 0, 360, 324, 0, 360, 324, 0, 360, 324, 0,
     360, 324, 0, 360, 324, 0, 360, 324, 0, 360, 324, 0, 324, 58, 99, 84, 124, 172, 210, 256, 293, 301, 315, 0,
     324, 348, 58, 99, 84, 124, 172, 210, 256, 293, 301, 315, 350, 351, 352, 0, 360, 324, 362, 361, 348, 138, 0,
     324, 0, 360, 324, 0, 360, 324]"

definition names_of_14 :: "string list" where
  "names_of_14 = [
     ''subject'', ''ApplianceLoadReduction'', ''AppliedTargetReduction'', ''DutyCycle'', ''Offset'',
     ''overrideDuration'', ''SetPoint'', ''AbstractDevice'', ''href'', ''createdDateTime'', ''endDeviceLFDI'',
     ''status'', ''subject'', ''AbstractDevice'', ''href'', ''createdDateTime'', ''endDeviceLFDI'', ''status'',
     ''subject'', ''AbstractDevice'', ''href'', ''subscribedResource'', ''AbstractDevice'', ''href'',
     ''subscribedResource'', ''newResourceURI'', ''Resource'', ''status'', ''subscriptionURI'',
     ''AbstractDevice'', ''all'', ''href'', ''results'', ''Notification'', ''AbstractDevice'',
     ''attributeIdentifier'', ''lowerThreshold'', ''upperThreshold'', ''AbstractDevice'', ''href'',
     ''subscribedResource'', ''Condition'', ''encoding'', ''level'', ''limit'', ''notificationURI'',
     ''AbstractDevice'', ''all'', ''href'', ''pollRate'', ''results'', ''Subscription'', ''AbstractDevice'',
     ''all'', ''href'', ''AbstractDevice'', ''href'', ''AbstractDevice'', ''all'', ''href'', ''AbstractDevice'',
     ''all'', ''href'', ''AbstractDevice'', ''all'', ''href'', ''AbstractDevice'', ''all'', ''href'',
     ''AbstractDevice'', ''all'', ''href'', ''AbstractDevice'', ''all'', ''href'', ''AbstractDevice'', ''all'',
     ''href'', ''AbstractDevice'', ''all'', ''href'', ''AbstractDevice'', ''href'', ''CustomerAccountListLink'',
     ''DemandResponseProgramListLink'', ''DERProgramListLink'', ''FileListLink'', ''MessagingProgramListLink'',
     ''PrepaymentListLink'', ''ResponseSetListLink'', ''TariffProfileListLink'', ''TimeLink'',
     ''UsagePointListLink'', ''AbstractDevice'', ''href'', ''subscribable'', ''CustomerAccountListLink'',
     ''DemandResponseProgramListLink'', ''DERProgramListLink'', ''FileListLink'', ''MessagingProgramListLink'',
     ''PrepaymentListLink'', ''ResponseSetListLink'', ''TariffProfileListLink'', ''TimeLink'',
     ''UsagePointListLink'', ''mRID'', ''description'', ''version'', ''AbstractDevice'', ''all'', ''href'',
     ''pollRate'', ''results'', ''subscribable'', ''FunctionSetAssignments'', ''AbstractDevice'', ''href'',
     ''AbstractDevice'', ''all'', ''href'', ''AbstractDevice'', ''all'', ''href'']"

lemma names_of_14: "map (\<lambda>i. se_names ! nat i) se_ids_14 = names_of_14 \<and> length names_of_14 = 124"
  by (simp add: se_ids_14_def names_of_14_def names_at)

lemma walk_14: "walk_table 1690 SE_DrResponse_t [At ''subject'', At ''ApplianceLoadReduction'', At ''AppliedTargetReduction'', At ''DutyCycle'', At ''Offset'', At ''overrideDuration'', At ''SetPoint''] se_layout_14 (zip se_elements_14 names_of_14) = Some (SE_LoadShedAvailabilityListLink_t, [], [])"
  by code_simp

definition se_ids_15 :: "int list" where
  "se_ids_15 =
     [0, 360, 324, 0, 324, 0, 324, 0, 324, 0, 360, 324, 0, 324, 0, 324, 348, 38, 80, 104, 106, 126, 151, 551,
     163, 675, 168, 203, 676, 0, 324, 362, 348, 38, 80, 104, 106, 126, 151, 551, 163, 675, 168, 203, 676, 0,
     324, 362, 677, 678, 0, 360, 324, 0, 324, 0, 360, 324, 0, 360, 324, 0, 360, 324, 0, 324, 348, 38, 80, 104,
     106, 126, 151, 551, 163, 536, 168, 203, 676, 643, 679, 132, 135, 141, 245, 278, 0, 360, 324, 362, 361, 348,
     110, 0, 321, 477, 323, 0, 324, 362, 643, 680, 681, 682, 294, 301, 0, 324, 0, 360, 324, 0, 360, 324, 0, 324,
     362, 58, 99, 84, 124, 172, 210, 256, 293, 301, 315]"

definition names_of_15 :: "string list" where
  "names_of_15 = [
     ''AbstractDevice'', ''all'', ''href'', ''AbstractDevice'', ''href'', ''AbstractDevice'', ''href'',
     ''AbstractDevice'', ''href'', ''AbstractDevice'', ''all'', ''href'', ''AbstractDevice'', ''href'',
     ''AbstractDevice'', ''href'', ''subscribable'', ''ConfigurationLink'', ''DERListLink'',
     ''DeviceInformationLink'', ''DeviceStatusLink'', ''FileStatusLink'', ''IPInterfaceListLink'', ''lFDI'',
     ''LoadShedAvailabilityListLink'', ''loadShedDeviceCategory'', ''LogEventListLink'', ''PowerStatusLink'',
     ''sFDI'', ''AbstractDevice'', ''href'', ''pollRate'', ''subscribable'', ''ConfigurationLink'',
     ''DERListLink'', ''DeviceInformationLink'', ''DeviceStatusLink'', ''FileStatusLink'',
     ''IPInterfaceListLink'', ''lFDI'', ''LoadShedAvailabilityListLink'', ''loadShedDeviceCategory'',
     ''LogEventListLink'', ''PowerStatusLink'', ''sFDI'', ''AbstractDevice'', ''href'', ''pollRate'',
     ''dateTimeRegistered'', ''pIN'', ''AbstractDevice'', ''all'', ''href'', ''AbstractDevice'', ''href'',
     ''AbstractDevice'', ''all'', ''href'', ''AbstractDevice'', ''all'', ''href'', ''AbstractDevice'', ''all'',
     ''href'', ''AbstractDevice'', ''href'', ''subscribable'', ''ConfigurationLink'', ''DERListLink'',
     ''DeviceInformationLink'', ''DeviceStatusLink'', ''FileStatusLink'', ''IPInterfaceListLink'', ''lFDI'',
     ''LoadShedAvailabilityListLink'', ''deviceCategory'', ''LogEventListLink'', ''PowerStatusLink'', ''sFDI'',
     ''changedTime'', ''enabled'', ''FlowReservationRequestListLink'', ''FlowReservationResponseListLink'',
     ''FunctionSetAssignmentsListLink'', ''RegistrationLink'', ''SubscriptionListLink'', ''AbstractDevice'',
     ''all'', ''href'', ''pollRate'', ''results'', ''subscribable'', ''EndDevice'', ''AbstractDevice'',
     ''multiplier'', ''subject'', ''value'', ''AbstractDevice'', ''href'', ''pollRate'', ''changedTime'',
     ''onCount'', ''opState'', ''opTime'', ''Temperature'', ''TimeLink'', ''AbstractDevice'', ''href'',
     ''AbstractDevice'', ''all'', ''href'', ''AbstractDevice'', ''all'', ''href'', ''AbstractDevice'', ''href'',
     ''pollRate'', ''CustomerAccountListLink'', ''DemandResponseProgramListLink'', ''DERProgramListLink'',
     ''FileListLink'', ''MessagingProgramListLink'', ''PrepaymentListLink'', ''ResponseSetListLink'',
     ''TariffProfileListLink'', ''TimeLink'', ''UsagePointListLink'']"

lemma names_of_15: "map (\<lambda>i. se_names ! nat i) se_ids_15 = names_of_15 \<and> length names_of_15 = 127"
  by (simp add: se_ids_15_def names_of_15_def names_at)

lemma walk_15: "walk_table 1814 SE_LoadShedAvailabilityListLink_t [] se_layout_15 (zip se_elements_15 names_of_15) = Some (SE_DeviceCapability_t, [At ''EndDeviceListLink'', At ''MirrorUsagePointListLink'', At ''SelfDeviceLink''], [])"
  by code_simp

definition se_ids_16 :: "int list" where
  "se_ids_16 =
     [116, 183, 260]"

definition names_of_16 :: "string list" where
  "names_of_16 = [
     ''EndDeviceListLink'', ''MirrorUsagePointListLink'', ''SelfDeviceLink'']"

lemma names_of_16: "map (\<lambda>i. se_names ! nat i) se_ids_16 = names_of_16 \<and> length names_of_16 = 3"
  by (simp add: se_ids_16_def names_of_16_def names_at)

lemma walk_16: "walk_table 1941 SE_DeviceCapability_t [At ''EndDeviceListLink'', At ''MirrorUsagePointListLink'', At ''SelfDeviceLink''] [] (zip (butlast se_elements_16) names_of_16) = Some (SE_DeviceCapability_t, [], [])"
  by code_simp

subsection \<open>The names of the types\<close>

definition type_named :: "schema_element \<Rightarrow> string \<Rightarrow> bool" where
  "type_named e n \<longleftrightarrow> se_simple e \<or> struct_at (se_index e) = Some n"

lemma types_named_1: "list_all2 type_named se_elements_1 (se_names_1 @ se_names_2 @ se_names_3 @ se_names_4)"
  by code_simp

lemma types_named_2: "list_all2 type_named se_elements_2 (se_names_5 @ se_names_6 @ se_names_7 @ se_names_8)"
  by code_simp

lemma types_named_3: "list_all2 type_named (take 25 se_elements_3) se_names_9"
  by code_simp

lemma types_named: "list_all2 type_named (take 321 se_elements) (take 321 se_names)"
proof -
  have n: "length (se_names_1 @ se_names_2 @ se_names_3 @ se_names_4 @ se_names_5 @ se_names_6 @ se_names_7 @ se_names_8 @ se_names_9) = 321"
    by code_simp
  have "take 321 se_names = se_names_1 @ se_names_2 @ se_names_3 @ se_names_4 @ se_names_5 @ se_names_6 @ se_names_7 @ se_names_8 @ se_names_9"
    unfolding se_names_def append_assoc [symmetric] unfolding n [unfolded append_assoc [symmetric], symmetric] by simp
  moreover have "take 321 se_elements = se_elements_1 @ se_elements_2 @ take 25 se_elements_3"
    unfolding se_elements_def by (simp add: heads_pieces)
  ultimately show ?thesis
    using list_all2_appendI [OF types_named_1 list_all2_appendI [OF types_named_2 types_named_3]] by simp
qed

subsection \<open>The whole table\<close>

lemma se_ids_pieces: "se_ids = se_ids_3 @ se_ids_4 @ se_ids_5 @ se_ids_6 @ se_ids_7 @ se_ids_8 @ se_ids_9 @ se_ids_10 @ se_ids_11 @ se_ids_12 @ se_ids_13 @ se_ids_14 @ se_ids_15 @ se_ids_16"
  by code_simp

lemmas names_of = names_of_3 names_of_4 names_of_5 names_of_6 names_of_7 names_of_8 names_of_9 names_of_10 names_of_11 names_of_12 names_of_13 names_of_14 names_of_15 names_of_16

lemma table_elements: "drop 321 se_elements = (drop 25 se_elements_3) @ se_elements_4 @ se_elements_5 @ se_elements_6 @ se_elements_7 @ se_elements_8 @ se_elements_9 @ se_elements_10 @ se_elements_11 @ se_elements_12 @ se_elements_13 @ se_elements_14 @ se_elements_15 @ (butlast se_elements_16) @ [End]"
proof -
  have e: "se_elements = (se_elements_1 @ se_elements_2 @ take 25 se_elements_3) @ drop 25 se_elements_3 @ se_elements_4 @ se_elements_5 @ se_elements_6 @ se_elements_7 @ se_elements_8 @ se_elements_9 @ se_elements_10 @ se_elements_11 @ se_elements_12 @ se_elements_13 @ se_elements_14 @ se_elements_15 @ se_elements_16"
    unfolding se_elements_def by (metis append.assoc append_take_drop_id)
  have "length (se_elements_1 @ se_elements_2 @ take 25 se_elements_3) = 321" by (simp add: heads_1 heads_2 heads_3)
  then have "drop 321 se_elements = drop 25 se_elements_3 @ se_elements_4 @ se_elements_5 @ se_elements_6 @ se_elements_7 @ se_elements_8 @ se_elements_9 @ se_elements_10 @ se_elements_11 @ se_elements_12 @ se_elements_13 @ se_elements_14 @ se_elements_15 @ se_elements_16"
    unfolding e by (metis append_eq_conv_conj)
  moreover have "se_elements_16 = butlast se_elements_16 @ [End]" by (simp add: se_elements_16_def)
  ultimately show ?thesis by simp
qed

lemma entries_pieces: "se_entries = zip (drop 25 se_elements_3) names_of_3 @ zip (se_elements_4) names_of_4 @ zip (se_elements_5) names_of_5 @ zip (se_elements_6) names_of_6 @ zip (se_elements_7) names_of_7 @ zip (se_elements_8) names_of_8 @ zip (se_elements_9) names_of_9 @ zip (se_elements_10) names_of_10 @ zip (se_elements_11) names_of_11 @ zip (se_elements_12) names_of_12 @ zip (se_elements_13) names_of_13 @ zip (se_elements_14) names_of_14 @ zip (se_elements_15) names_of_15 @ zip (butlast se_elements_16) names_of_16"
  unfolding se_entries_def table_elements se_ids_pieces
  by (simp add: zip_append names_of heads_pieces) (simp add: zip_append1 names_of heads_pieces)

lemma walk_entries: "walk_table 321 SE_Resource_t [] se_layout se_entries = Some (SE_DeviceCapability_t, [], [])"
  unfolding entries_pieces se_layout_def
  by (simp add: walk_append walk_3 [THEN walk_more] walk_4 [THEN walk_more] walk_5 [THEN walk_more] walk_6 [THEN walk_more] walk_7 [THEN walk_more] walk_8 [THEN walk_more] walk_9 [THEN walk_more] walk_10 [THEN walk_more] walk_11 [THEN walk_more] walk_12 [THEN walk_more] walk_13 [THEN walk_more] walk_14 [THEN walk_more] walk_15 walk_16 names_of heads_pieces)

lemma layout_heads: "map fst se_layout = butlast (map fst se_heads)"
  by code_simp

text \<open>C37: The schema table agrees with the header, for all its structures: the offsets of the elements of a
  structure are exactly its members, each once (booleans, which are bits, have none); the member has the type that
  the type of the element is stored as; an optional element has a bit of the flags that is its own, with the
  macro of its name in the header (the one for \<open>activateTime\<close> of \<open>FileStatus\<close> is missing), and lists and pointers,
  which are NULL when absent, have none. The name that documents use for an element is that of its member, but for
  \<open>loadShedDeviceCategory\<close> of an end device, and that of a type is that of its structure.
\<close>
theorem schema_fits_structs:
  "map fst se_layout = butlast (map fst (head_pairs 0 se_elements)) \<and>
   (\<forall>(i, s, offs) \<in> set se_layout. struct_fits i s offs \<and> list_all2 (entry_fits s) (body entry_head se_entries (i - 321)) offs) \<and>
   list_all2 type_named (take 321 se_elements) (take 321 se_names)"
  using walk_sound [OF walk_entries] types_named by (auto simp: layout_heads se_head_pairs)

theorem schema_fits_structs_witness:
  "list_all2 (entry_fits SE_UnitValueType_t) [(Simp 1 1 0 XS_BYTE 1, ''multiplier''), (Simp 1 1 0 XS_UBYTE 1, ''unit''), (Simp 1 1 0 XS_INT 1, ''value'')]
     [Some ''multiplier'', Some ''unit'', Some ''value'']"
proof -
  have l: "(321, SE_UnitValueType_t, [Some ''multiplier'', Some ''unit'', Some ''value'']) \<in> set se_layout"
    by (simp add: se_layout_def se_layout_3_def)
  have b: "body entry_head se_entries 0 =
      [(Simp 1 1 0 XS_BYTE 1, ''multiplier''), (Simp 1 1 0 XS_UBYTE 1, ''unit''), (Simp 1 1 0 XS_INT 1, ''value'')]"
    unfolding entries_pieces
    by (simp add: se_elements_3_def names_of_3_def body_def entry_head_def table_head_def primitive_def XS_BYTE_def XS_UBYTE_def XS_INT_def)
  show ?thesis using schema_fits_structs l unfolding b [symmetric] by fastforce
qed

text \<open>
  The load shed category of an end device has the name of the 2018 edition of the standard in documents, that of the
  two other structures that have it the name of the first edition.
\<close>

lemma end_device_category:
  "se_name 1839 the_schema = Some ''loadShedDeviceCategory''" "se_name 1889 the_schema = Some ''deviceCategory''"
  by (simp_all add: se_name_def the_schema_def se_schema_def se_ids_def) (simp_all add: names_at)

end
