(* ===== verification/Security.thy ===== *)
theory Security
  imports Sha256
begin

section \<open>Device identity (core/security.c)\<close>

text \<open>
  The long form identifier of a device is the first 20 bytes of the hash of its certificate,
  the short form identifier its first 36 bits in decimal with a check digit. Files are a map
  from paths to contents; a missing file ends the program, a \<open>None\<close> here as is an access
  behind a buffer. \<open>junk\<close> is what \<open>malloc\<close> returns behind the file's contents. The printed
  text is a result of its own.
\<close>

unbundle bit_operations_syntax

definition print_bytes :: "u8 list \<Rightarrow> string" where
  "print_bytes data = concat (map show_hex2 data)"

function digit_sum :: "u64 \<Rightarrow> int" where
  "digit_sum x = (if x \<noteq> 0 then uint (x mod 10) + digit_sum (x div 10) else 0)"
  by pat_completeness auto
termination
  by (relation "measure unat") (auto simp: unat_div_distrib unat_gt_0 intro!: div_less_dividend)

declare digit_sum.simps [simp del]

definition check_digit :: "u64 \<Rightarrow> int" where
  "check_digit x = (10 - digit_sum x mod 10) mod 10"

text \<open>\<open>lfdi\<close> has at least five bytes.\<close>

definition sfdi_gen :: "u8 list \<Rightarrow> u64" where
  "sfdi_gen lfdi =
     (let sfdi = fold (\<lambda>b sfdi. push_bit 8 sfdi + ucast b) (take 5 lfdi) 0;
          sfdi = drop_bit 4 sfdi
      in sfdi * 10 + word_of_int (check_digit sfdi))"

definition lfdi_hash :: "u8 list \<Rightarrow> nat \<Rightarrow> (u8 list \<times> u64) option" where
  "lfdi_hash buffer len =
     do { (hash, _) \<leftarrow> sha256 buffer len; let lfdi = take 20 hash; Some (lfdi, sfdi_gen lfdi) }"

definition lfdi_gen :: "(string \<Rightarrow> u8 list option) \<Rightarrow> (nat \<Rightarrow> u8 list) \<Rightarrow> string \<Rightarrow> (u8 list \<times> u64) option" where
  "lfdi_gen files junk path =
     do { f \<leftarrow> files path;
          let len = length f;
          let buffer = f @ take (sha256_size len - len) (junk (sha256_size len - len));
          lfdi_hash buffer len }"

record security =
  device_lfdi :: "u8 list"
  device_sfdi :: u64

definition load_device_cert :: "(string \<Rightarrow> u8 list option) \<Rightarrow> (nat \<Rightarrow> u8 list) \<Rightarrow> string \<Rightarrow> (u8 list \<times> u64 \<times> string) option" where
  "load_device_cert files junk path =
     do { (lfdi, sfdi) \<leftarrow> lfdi_gen files junk path;
          Some (lfdi, sfdi, ''load device certificate: '' @ path @ ''\<newline>  lfdi: '' @ print_bytes lfdi @
            ''\<newline>  sfdi: '' @ show_nat (unat sfdi) @ ''\<newline>'') }"

definition security_init :: "(string \<Rightarrow> u8 list option) \<Rightarrow> (nat \<Rightarrow> u8 list) \<Rightarrow> string \<Rightarrow> security option" where
  "security_init files junk path =
     do { (lfdi, sfdi, _) \<leftarrow> load_device_cert files junk path;
          Some \<lparr>device_lfdi = lfdi, device_sfdi = sfdi\<rparr> }"

subsection \<open>The check digit\<close>

text \<open>The decimal digits of a number, as a reference.\<close>

fun dec_sum :: "nat \<Rightarrow> nat" where
  "dec_sum n = (if n = 0 then 0 else n mod 10 + dec_sum (n div 10))"

declare dec_sum.simps [simp del]

lemma digit_sum_dec: "digit_sum x = int (dec_sum (unat x))"
proof (induction x rule: digit_sum.induct)
  case (1 x)
  show ?case
  proof (cases "x = 0")
    case True
    then show ?thesis by (simp add: digit_sum.simps dec_sum.simps)
  next
    case False
    with 1 have "digit_sum (x div 10) = int (dec_sum (unat x div 10))" by (simp add: unat_div_distrib)
    moreover have "uint (x mod 10) = int (unat x mod 10)" by (simp add: uint_mod_distrib zmod_int)
    ultimately show ?thesis using False by (simp add: digit_sum.simps [of x] dec_sum.simps [of "unat x"] unsigned_eq_0_iff)
  qed
qed

lemma dec_sum_digit: "d < 10 \<Longrightarrow> dec_sum (n * 10 + d) = dec_sum n + d"
  by (subst dec_sum.simps) (auto simp: dec_sum.simps)

lemma check_digit_range: "0 \<le> check_digit x \<and> check_digit x < 10"
  by (simp add: check_digit_def)

lemma byte_step:
  fixes x :: u64 and b :: u8
  assumes "unat x < 2 ^ 40"
  shows "unat (push_bit 8 x + ucast b) = unat x * 256 + unat b"
proof -
  have b: "unat b < 256" using unat_less [of b] by simp
  then have "unat (ucast b :: u64) = unat b" by (simp add: unsigned_ucast_eq take_bit_nat_eq_self)
  moreover have "push_bit 8 x = x * 256" by (simp add: push_bit_eq_mult)
  ultimately show ?thesis using assms b by (simp add: unat_word_ariths)
qed

lemma five_bytes:
  fixes a b c d e :: u8
  shows "unat (fold (\<lambda>b sfdi. push_bit 8 sfdi + ucast b) [a, b, c, d, e] (0 :: u64)) =
    unat a * 2 ^ 32 + unat b * 2 ^ 24 + unat c * 2 ^ 16 + unat d * 2 ^ 8 + unat e"
proof -
  have lt: "unat a < 256" "unat b < 256" "unat c < 256" "unat d < 256" "unat e < 256"
    using unat_less [where 'a = 8] by simp_all
  define v where "v = (\<lambda>b x. push_bit 8 x + ucast (b :: u8) :: u64)"
  have v: "unat (v b x) = unat x * 256 + unat b" if "unat x < 2 ^ 40" for b x
    using byte_step [OF that] by (simp add: v_def)
  have 1: "unat (v a 0) = unat a" using v [of 0 a] by simp
  have 2: "unat (v b (v a 0)) = unat a * 256 + unat b" using v [of "v a 0" b] lt 1 by simp
  have 3: "unat (v c (v b (v a 0))) = unat a * 65536 + unat b * 256 + unat c"
    using v [of "v b (v a 0)" c] lt 2 by simp
  have 4: "unat (v d (v c (v b (v a 0)))) = unat a * 16777216 + unat b * 65536 + unat c * 256 + unat d"
    using v [of "v c (v b (v a 0))" d] lt 3 by simp
  have "unat (v e (v d (v c (v b (v a 0))))) = unat a * 4294967296 + unat b * 16777216 + unat c * 65536 + unat d * 256 + unat e"
    using v [of "v d (v c (v b (v a 0)))" e] lt 4 by simp
  then show ?thesis by (simp add: v_def)
qed

text \<open>The short identifier is the first 36 bits of the long one in decimal and a last digit
  that makes the sum of all digits divisible by ten.\<close>

theorem sfdi_gen_checked:
  assumes "lfdi = a # b # c # d # e # rest"
  shows "unat (sfdi_gen lfdi) div 10 =
      (unat a * 2 ^ 32 + unat b * 2 ^ 24 + unat c * 2 ^ 16 + unat d * 2 ^ 8 + unat e) div 16 \<and>
    dec_sum (unat (sfdi_gen lfdi)) mod 10 = 0"
proof -
  define s :: u64 where "s = fold (\<lambda>b sfdi. push_bit 8 sfdi + ucast b) [a, b, c, d, e] 0"
  define n where "n = unat s div 16"
  have s: "unat s = unat a * 2 ^ 32 + unat b * 2 ^ 24 + unat c * 2 ^ 16 + unat d * 2 ^ 8 + unat e"
    unfolding s_def by (rule five_bytes)
  then have lt: "unat s < 2 ^ 40"
    using unat_less [of a] unat_less [of b] unat_less [of c] unat_less [of d] unat_less [of e] by simp
  have n: "unat (drop_bit 4 s) = n" by (simp add: unat_drop_div n_def)
  define k where "k = nat (check_digit (drop_bit 4 s))"
  have k: "check_digit (drop_bit 4 s) = int k" "k < 10"
    using check_digit_range [of "drop_bit 4 s"] by (auto simp: k_def nat_less_iff)
  have "n < 2 ^ 36" using lt by (simp add: n_def less_mult_imp_div_less)
  have "sfdi_gen lfdi = drop_bit 4 s * 10 + word_of_nat k"
    using assms k by (simp add: sfdi_gen_def Let_def s_def)
  then have u: "unat (sfdi_gen lfdi) = n * 10 + k"
    using n k(2) \<open>n < 2 ^ 36\<close> by (simp add: unat_word_ariths unat_of_nat)
  have "int k = (10 - int (dec_sum n) mod 10) mod 10"
    using k(1) n by (simp add: check_digit_def digit_sum_dec)
  then have "(int (dec_sum n) + int k) mod 10 = 0" by presburger
  then have "(dec_sum n + k) mod 10 = 0" by presburger
  with u k(2) s show ?thesis by (simp add: dec_sum_digit n_def)
qed

theorem sfdi_gen_checked_witness:
  "unat (sfdi_gen [0x3e, 0x4f, 0x45, 0xab, 0x31, 0xed]) div 10 = 16726121139 \<and>
   dec_sum (unat (sfdi_gen [0x3e, 0x4f, 0x45, 0xab, 0x31, 0xed])) mod 10 = 0"
  using sfdi_gen_checked [OF refl, of "0x3e" "0x4f" "0x45" "0xab" "0x31" "[0xed]"] by simp

end
