(* ===== verification/Utf8.thy ===== *)
theory Utf8
  imports Prelude
begin

section \<open>UTF-8 (core/utf8.c)\<close>

text \<open>
  A C string is the list of its bytes with the terminating NUL. A read behind the list is the
  outer \<open>None\<close>. The decoder gives the value it has stored in \<open>*code\<close> and the pointer that it
  returns, the inner \<open>None\<close> is NULL, for a byte sequence that it rejects.
\<close>

unbundle bit_operations_syntax

subsection \<open>The decoder\<close>

definition UTF_REJECT :: nat where "UTF_REJECT = 99"

definition utf_table :: "nat list" where
  "utf_table =
    [1,1,2,2,2,2,2,2,2,2,2,2,2,2,2,2,  2,2,2,2,2,2,2,2,2,2,2,2,2,2,2,2,
     7,3,3,3,3,3,3,3,3,3,3,3,3,4,3,3,  8,6,6,6,5,1,1,1,1,1,1,1,1,1,1,1,
     99, 99, 9, 9+4, 9+8, 9+12, 9+16, 9+20, 9+24,
     0, 0, 0, 0,
     9, 9, 9, 9,
     9, 9, 99, 99,
     17, 99, 99, 99,
     17, 17, 17, 17,
     99, 99, 9, 9,
     99, 17, 17, 17]"

fun utf8_loop :: "nat \<Rightarrow> u32 \<Rightarrow> u8 list \<Rightarrow> (u32 \<times> u8 list option) option" where
  "utf8_loop state code [] = None"
| "utf8_loop state code (c # data) =
     (if c < 128 then
        if state \<noteq> 0 then Some (code, None) else Some (ucast c, Some data)
      else
        let next = (\<lambda>state code. if state = UTF_REJECT then Some (code, None)
                      else if state \<noteq> 0 then utf8_loop state code data else Some (code, Some data))
        in if state \<noteq> 0 then
             if c AND 0x40 \<noteq> 0 then Some (code, None)
             else next (utf_table ! (64 + state + unat (drop_bit 4 c AND 3)))
                    (ucast (c AND 0x3f) OR push_bit 6 code)
           else if c AND 0x40 \<noteq> 0 then
             let type = utf_table ! unat (c XOR 0xc0)
             in next (utf_table ! (64 + type)) (ucast (drop_bit type 0xff AND c))
           else Some (code, None))"

definition utf8_char :: "u32 \<Rightarrow> u8 list \<Rightarrow> (u32 \<times> u8 list option) option" where
  "utf8_char code data = utf8_loop 0 code data"

subsection \<open>The encoder\<close>

text \<open>The bytes that are written; \<open>None\<close> is NULL, nothing is written then.\<close>

definition utf8_encode :: "u32 \<Rightarrow> u8 list option" where
  "utf8_encode code =
     (let byte_1 = [0x80 OR ucast (code AND 0x3f)];
          byte_2 = (0x80 OR ucast (drop_bit 6 code AND 0x3f)) # byte_1
      in if code \<le> 0x7f then Some [ucast code]
         else if code \<le> 0x7ff then Some ((0xc0 OR ucast (drop_bit 6 code)) # byte_1)
         else if code \<le> 0xffff then Some ((0xe0 OR ucast (drop_bit 12 code)) # byte_2)
         else if code \<le> 0x1ffff then
           Some ((0xe0 OR ucast (drop_bit 18 code)) # (0x80 OR ucast (drop_bit 12 code AND 0x3f)) # byte_2)
         else None)"

subsection \<open>Length and start\<close>

text \<open>\<open>data++\<close> without a read may pass the end of the string.\<close>

definition skip :: "nat \<Rightarrow> 'a list \<Rightarrow> 'a list option" where
  "skip n xs = (if n \<le> length xs then Some (drop n xs) else None)"

function utf8_length_loop :: "nat \<Rightarrow> u8 list \<Rightarrow> nat option" where
  "utf8_length_loop n [] = None"
| "utf8_length_loop n (c # data) =
     (if c = 0 then Some n
      else case skip (if c AND 0x80 \<noteq> 0 then
                        (if c AND 0x20 \<noteq> 0 then (if c AND 0x10 \<noteq> 0 then 1 else 0) + 1 else 0) + 1
                      else 0) data of
             None \<Rightarrow> None
           | Some data \<Rightarrow> utf8_length_loop (n + 1) data)"
  by pat_completeness auto
termination
  by (relation "measure (\<lambda>(n, xs). length xs)") (auto simp: skip_def split: if_splits)

definition utf8_length :: "u8 list \<Rightarrow> nat option" where
  "utf8_length data = utf8_length_loop 0 data"

text \<open>\<open>c\<close> is not initialised: \<open>junk\<close> is what the stack held.\<close>

definition utf8_start :: "u32 \<Rightarrow> u8 list \<Rightarrow> u8 list option" where
  "utf8_start junk data =
     (case utf8_char junk data of
        None \<Rightarrow> None
      | Some (c, _) \<Rightarrow> if c = 0xfeff then skip 3 data else Some data)"

subsection \<open>Tables\<close>

lemma byte2_first: "\<forall>n < 32. 2 \<le> n \<longrightarrow> utf_table ! n = 2" by code_simp
lemma byte3_first: "\<forall>n < 16. utf_table ! (32 + n) = (if n = 0 then 7 else if n = 13 then 4 else 3)" by code_simp

lemma utf_state_cont: "t < 4 \<Longrightarrow> utf_table ! (64 + 9 + t) = 0 \<and> utf_table ! (64 + 13 + t) = 9 \<and>
    utf_table ! (64 + 17 + t) = (if t < 2 then 9 else 99) \<and> utf_table ! (64 + 29 + t) = (if t < 2 then 99 else 9)"
proof -
  have "\<forall>t < 4. utf_table ! (64 + 9 + t) = 0 \<and> utf_table ! (64 + 13 + t) = 9 \<and>
    utf_table ! (64 + 17 + t) = (if t < 2 then 9 else 99) \<and> utf_table ! (64 + 29 + t) = (if t < 2 then 99 else 9)"
    by code_simp
  then show "t < 4 \<Longrightarrow> ?thesis" by blast
qed

lemma utf_class: "utf_table ! 66 = 9" "utf_table ! 67 = 13" "utf_table ! 68 = 17" "utf_table ! 71 = 29"
  by code_simp+

subsection \<open>One byte of a sequence\<close>

definition utf_next :: "nat \<Rightarrow> u32 \<Rightarrow> u8 list \<Rightarrow> (u32 \<times> u8 list option) option" where
  "utf_next state code data =
     (if state = UTF_REJECT then Some (code, None)
      else if state \<noteq> 0 then utf8_loop state code data else Some (code, Some data))"

definition cont_byte :: "u32 \<Rightarrow> u8" where
  "cont_byte x = 0x80 OR ucast (x AND 0x3f)"

lemma word_less_bits:
  fixes x :: "'a :: len word"
  assumes "unat x < 2 ^ k" "bit x n"
  shows "n < k"
proof (rule ccontr)
  assume "\<not> n < k"
  then have "2 ^ k \<le> (2 :: nat) ^ n" by simp
  moreover have "2 ^ n \<le> unat x"
  proof -
    have "bit (unat x) n" using assms(2) by (simp add: bit_unsigned_iff)
    then show ?thesis
      by (metis bit_iff_odd div_less even_zero linorder_not_le)
  qed
  ultimately show False using assms(1) by linarith
qed

lemma bit_byte_const:
  "bit (0x80 :: u8) n \<longleftrightarrow> n = 7" "bit (0x40 :: u8) n \<longleftrightarrow> n = 6" "bit (0x3f :: u8) n \<longleftrightarrow> n < 6"
  "bit (3 :: u8) n \<longleftrightarrow> n < 2" "bit (0x20 :: u8) n \<longleftrightarrow> n = 5" "bit (0x10 :: u8) n \<longleftrightarrow> n = 4"
  "bit (0xc0 :: u8) n \<longleftrightarrow> n = 7 \<or> n = 6" "bit (0xe0 :: u8) n \<longleftrightarrow> n = 7 \<or> n = 6 \<or> n = 5"
proof -
  have p: "bit (2 ^ k :: u8) n \<longleftrightarrow> n = k \<and> n < 8" for k n
    by (auto simp: bit_exp_iff possible_bit_def)
  show b: "bit (0x80 :: u8) n \<longleftrightarrow> n = 7" "bit (0x40 :: u8) n \<longleftrightarrow> n = 6" "bit (0x20 :: u8) n \<longleftrightarrow> n = 5"
    "bit (0x10 :: u8) n \<longleftrightarrow> n = 4"
    using p [of 7 n] p [of 6 n] p [of 5 n] p [of 4 n] by auto
  show "bit (0x3f :: u8) n \<longleftrightarrow> n < 6" "bit (3 :: u8) n \<longleftrightarrow> n < 2"
    using bit_mask_iff [where 'a = "8 word", of 6 n] bit_mask_iff [where 'a = "8 word", of 2 n]
    by (auto simp: mask_eq_exp_minus_1 possible_bit_def)
  have "(0xc0 :: u8) = 0x80 OR 0x40" "(0xe0 :: u8) = 0x80 OR 0x40 OR 0x20" by simp_all
  then show "bit (0xc0 :: u8) n \<longleftrightarrow> n = 7 \<or> n = 6" "bit (0xe0 :: u8) n \<longleftrightarrow> n = 7 \<or> n = 6 \<or> n = 5"
    by (simp_all only: bit_or_iff b)
qed

lemma bit_code_const: "bit (0x3f :: u32) n \<longleftrightarrow> n < 6" "bit (3 :: u32) n \<longleftrightarrow> n < 2"
  using bit_mask_iff [where 'a = "32 word", of 6 n] bit_mask_iff [where 'a = "32 word", of 2 n]
  by (auto simp: mask_eq_exp_minus_1 possible_bit_def)

lemmas utf_bits = bit_byte_const bit_code_const bit_simps o_apply

lemma cont_byte_mask: "ucast (cont_byte x AND 0x3f) = x AND 0x3f" "cont_byte x AND 0x40 = 0"
  "drop_bit 4 (cont_byte x) AND 3 = ucast (drop_bit 4 x AND 3)" "\<not> cont_byte x < 128" "cont_byte x AND 0x80 \<noteq> 0"
proof -
  show "ucast (cont_byte x AND 0x3f) = x AND 0x3f"
    unfolding cont_byte_def
    by (rule bit_word_eqI) (simp only: utf_bits, auto)
  show "cont_byte x AND 0x40 = 0"
    unfolding cont_byte_def by (rule bit_word_eqI) (simp only: utf_bits, auto)
  show "drop_bit 4 (cont_byte x) AND 3 = ucast (drop_bit 4 x AND 3)"
    unfolding cont_byte_def by (rule bit_word_eqI) (simp only: utf_bits, auto)
  have b: "bit (cont_byte x) 7" unfolding cont_byte_def by (simp only: utf_bits, simp)
  show "\<not> cont_byte x < 128"
    using word_less_bits [of "cont_byte x" 7 7] b by (auto simp: word_less_nat_alt)
  show "cont_byte x AND 0x80 \<noteq> 0"
  proof
    assume "cont_byte x AND 0x80 = 0"
    then have "\<not> bit (cont_byte x AND 0x80) 7" by simp
    with b show False by (simp only: utf_bits, simp)
  qed
qed

lemma unat_two_bits: "unat (ucast (x AND 3 :: u32) :: u8) = unat (x AND 3)" "unat (x AND 3 :: u32) < 4"
proof -
  have le: "unat (x AND 3) \<le> unat (3 :: u32)"
    using word_and_le1 [of x 3] by (simp add: word_le_nat_alt)
  then show "unat (x AND 3 :: u32) < 4" by simp
  with le show "unat (ucast (x AND 3 :: u32) :: u8) = unat (x AND 3)"
    by (simp add: unsigned_ucast_eq take_bit_nat_eq_self)
qed

lemma utf8_loop_cont:
  "state \<noteq> 0 \<Longrightarrow> utf8_loop state code (cont_byte x # data) =
     utf_next (utf_table ! (64 + state + unat (drop_bit 4 x AND 3))) ((x AND 0x3f) OR push_bit 6 code) data"
  by (simp add: cont_byte_mask unat_two_bits utf_next_def Let_def del: utf8_loop.simps(1))

lemma first_bytes:
  "list_all (\<lambda>n. let x = of_nat n :: u32; b = 0xc0 OR ucast x :: u8 in \<not> b < 128 \<and> b AND 0x40 \<noteq> 0 \<and>
     unat (b XOR 0xc0) = n \<and> (2 \<le> n \<longrightarrow> utf_table ! n = 2) \<and> ucast (drop_bit 2 0xff AND b) = x) [0..<32]"
  "list_all (\<lambda>n. let x = of_nat n :: u32; b = 0xe0 OR ucast x :: u8 in \<not> b < 128 \<and> b AND 0x40 \<noteq> 0 \<and>
     unat (b XOR 0xc0) = 32 + n \<and> utf_table ! (32 + n) = (if n = 0 then 7 else if n = 13 then 4 else 3) \<and>
     ucast (drop_bit (if n = 0 then 7 else if n = 13 then 4 else 3) 0xff AND b) = x) [0..<16]"
  by code_simp+

lemma lead_bits:
  "list_all (\<lambda>n. let b = of_nat n :: u8 in b AND 0x80 = 0) [0..<128]"
  "list_all (\<lambda>n. let b = 0xc0 OR ucast (of_nat n :: u32) :: u8 in b \<noteq> 0 \<and> b AND 0x80 \<noteq> 0 \<and> b AND 0x20 = 0) [0..<32]"
  "list_all (\<lambda>n. let b = 0xe0 OR ucast (of_nat n :: u32) :: u8 in b \<noteq> 0 \<and> b AND 0x80 \<noteq> 0 \<and> b AND 0x20 \<noteq> 0 \<and>
    b AND 0x10 = 0) [0..<16]"
  by code_simp+

lemma utf8_loop_first:
  assumes "\<not> b < 128" "b AND 0x40 \<noteq> 0"
  shows "utf8_loop 0 code (b # data) = utf_next (utf_table ! (64 + utf_table ! unat (b XOR 0xc0)))
    (ucast (drop_bit (utf_table ! unat (b XOR 0xc0)) 0xff AND b)) data"
  using assms by (simp add: utf_next_def Let_def)

lemma utf8_loop_first2:
  assumes "2 \<le> unat x" "unat (x :: u32) < 32"
  shows "utf8_loop 0 code ((0xc0 OR ucast x) # data) = utf_next 9 x data"
proof -
  have "let b = 0xc0 OR ucast x :: u8 in \<not> b < 128 \<and> b AND 0x40 \<noteq> 0 \<and>
     unat (b XOR 0xc0) = unat x \<and> (2 \<le> unat x \<longrightarrow> utf_table ! unat x = 2) \<and> ucast (drop_bit 2 0xff AND b) = x"
    using first_bytes(1) assms(2) unfolding list_all_iff Let_def by (force dest: bspec [of _ _ "unat x"])
  with assms(1) show ?thesis by (simp add: utf8_loop_first Let_def utf_class del: utf8_loop.simps)
qed

lemma utf8_loop_first3:
  assumes "unat (x :: u32) < 16"
  shows "utf8_loop 0 code ((0xe0 OR ucast x) # data) =
    utf_next (if x = 0 then 29 else if x = 13 then 17 else 13) x data"
proof -
  have "let b = 0xe0 OR ucast x :: u8; n = unat x in \<not> b < 128 \<and> b AND 0x40 \<noteq> 0 \<and>
     unat (b XOR 0xc0) = 32 + n \<and> utf_table ! (32 + n) = (if n = 0 then 7 else if n = 13 then 4 else 3) \<and>
     ucast (drop_bit (if n = 0 then 7 else if n = 13 then 4 else 3) 0xff AND b) = x"
    using first_bytes(2) [unfolded list_all_iff, THEN bspec, of "unat x"] assms
    by (simp only: Let_def of_nat_unat ucast_id set_upt atLeastLessThan_iff le0 simp_thms)
  moreover have "unat x = 13 \<longleftrightarrow> x = 13" "unat x = 0 \<longleftrightarrow> x = 0"
    by (simp_all add: word_unat_eq_iff)
  ultimately show ?thesis by (simp add: utf8_loop_first Let_def utf_class del: utf8_loop.simps)
qed

subsection \<open>Round trips\<close>

text \<open>The code points that the encoder writes as the decoder reads them: those of the basic
  plane that are not surrogates.\<close>

definition bmp_scalar :: "u32 \<Rightarrow> bool" where
  "bmp_scalar code \<longleftrightarrow> unat code < 0xd800 \<or> 0xe000 \<le> unat code \<and> unat code < 0x10000"

lemma join_bits:
  "(code AND 0x3f) OR push_bit 6 (drop_bit 6 code) = (code :: u32)"
  "(code AND 0x3f) OR push_bit 6 ((drop_bit 6 code AND 0x3f) OR push_bit 6 (drop_bit 12 code)) = code"
proof -
  show a: "(code AND 0x3f) OR push_bit 6 (drop_bit 6 code) = code" for code :: u32
  proof (rule bit_word_eqI)
    fix n assume "n < LENGTH(32)"
    then show "bit ((code AND 0x3f) OR push_bit 6 (drop_bit 6 code)) n = bit code n"
      by (cases "n < 6") (simp_all only: utf_bits, auto)
  qed
  have "drop_bit 6 (drop_bit 6 code) = drop_bit 12 code" by simp
  with a [of "drop_bit 6 code"] a [of code]
  show "(code AND 0x3f) OR push_bit 6 ((drop_bit 6 code AND 0x3f) OR push_bit 6 (drop_bit 12 code)) = code"
    by (simp only:)
qed

lemma second_type: "unat (drop_bit 4 (drop_bit 6 code) AND 3) = unat (code :: u32) div 1024 mod 4"
proof -
  have "drop_bit 4 (drop_bit 6 code) AND 3 = take_bit 2 (drop_bit 10 code)"
    by (rule bit_word_eqI) (simp only: utf_bits, auto)
  then show ?thesis
    by (simp add: unsigned_take_bit_eq take_bit_nat_def unat_drop_div)
qed

lemma mod4: "d div 4 = 0 \<Longrightarrow> 2 \<le> d \<Longrightarrow> 2 \<le> d mod 4" "d div 4 = 13 \<Longrightarrow> d < 54 \<Longrightarrow> d mod 4 < 2" for d :: nat
  by presburger+

lemma utf8_encode_cases:
  assumes "utf8_encode code = Some bs" "unat code < 0x10000"
  obtains (1) "unat code \<le> 0x7f" "bs = [ucast code]"
  | (2) "0x7f < unat code" "unat (drop_bit 6 code) < 32" "2 \<le> unat (drop_bit 6 code)"
      "bs = [0xc0 OR ucast (drop_bit 6 code), cont_byte code]"
  | (3) "0x7ff < unat code" "unat (drop_bit 12 code) < 16"
      "bs = [0xe0 OR ucast (drop_bit 12 code), cont_byte (drop_bit 6 code), cont_byte code]"
proof -
  consider (a) "unat code \<le> 0x7f" | (b) "0x7f < unat code" "unat code \<le> 0x7ff"
    | (c) "0x7ff < unat code" by linarith
  then show thesis
  proof cases
    case a
    with assms show thesis by (intro 1) (auto simp: utf8_encode_def Let_def word_le_nat_alt)
  next
    case b
    with assms show thesis
      by (intro 2) (auto simp: utf8_encode_def Let_def word_le_nat_alt cont_byte_def unat_drop_div)
  next
    case c
    with assms show thesis
      by (intro 3) (auto simp: utf8_encode_def Let_def word_le_nat_alt cont_byte_def unat_drop_div)
  qed
qed

lemma utf8_loop_basic:
  assumes "bmp_scalar code" "utf8_encode code = Some bs"
  shows "utf8_loop 0 c (bs @ rest) = Some (code, Some rest)"
proof -
  have lt: "unat code < 0x10000" using assms(1) by (auto simp: bmp_scalar_def)
  show ?thesis
    using assms(2) lt
  proof (cases rule: utf8_encode_cases)
    case 1
    then have "ucast (ucast code :: u8) = code" "(ucast code :: u8) < 128"
      by (auto simp: word_unat_eq_iff word_less_nat_alt unsigned_ucast_eq unsigned_take_bit_eq take_bit_nat_eq_self)
    then show ?thesis by (simp add: 1)
  next
    case 2
    then show ?thesis
      using utf_state_cont [of "unat (drop_bit 4 code AND 3)"] unat_two_bits(2) [of "drop_bit 4 code"]
      by (simp add: utf8_loop_first2 utf_next_def utf8_loop_cont UTF_REJECT_def join_bits(1)
          del: utf8_loop.simps)
  next
    case 3
    note bs = 3(3) and d = 3(2)
    have z: "drop_bit 12 code = 0 \<longleftrightarrow> unat code div 4096 = 0" "drop_bit 12 code = 13 \<longleftrightarrow> unat code div 4096 = 13"
      by (simp_all add: word_unat_eq_iff unat_drop_div)
    define t where "t = unat code div 1024 mod 4"
    have t: "t < 4" by (simp add: t_def)
    have a: "unat code div 4096 = 0 \<Longrightarrow> 2 \<le> t" "unat code div 4096 = 13 \<Longrightarrow> t < 2"
    proof -
      have d: "unat code div 4096 = unat code div 1024 div 4" by (simp add: div_mult2_eq [symmetric])
      show "2 \<le> t" if "unat code div 4096 = 0"
      proof -
        have "2 \<le> unat code div 1024" using 3 by simp
        with that d show ?thesis using mod4(1) [of "unat code div 1024"] by (simp only: t_def)
      qed
      show "t < 2" if "unat code div 4096 = 13"
      proof -
        have "unat code < 0xd800" using that assms(1) by (auto simp: bmp_scalar_def)
        then have "unat code div 1024 < 54" by (simp add: less_mult_imp_div_less)
        with that d show ?thesis using mod4(2) [of "unat code div 1024"] by (simp only: t_def)
      qed
    qed
    let ?s = "if drop_bit 12 code = 0 then 29 else if drop_bit 12 code = 13 then 17 else (13 :: nat)"
    have s2: "utf_table ! (64 + ?s + t) = 9"
      using utf_state_cont [OF t] a [folded z] by (cases "drop_bit 12 code = 0"; cases "drop_bit 12 code = 13") simp_all
    have s3: "utf_table ! (64 + 9 + unat (drop_bit 4 code AND 3)) = 0"
      using utf_state_cont [of "unat (drop_bit 4 code AND 3)"] unat_two_bits(2) [of "drop_bit 4 code"] by simp
    have "?s \<noteq> 0" "?s \<noteq> 99" by simp_all
    then have "utf8_loop 0 c (bs @ rest) = utf8_loop ?s (drop_bit 12 code) (cont_byte (drop_bit 6 code) # cont_byte code # rest)"
      unfolding bs append.simps utf8_loop_first3 [OF d] utf_next_def UTF_REJECT_def by (simp only: if_False if_True not_False_eq_True)
    also have "\<dots> = utf_next 9 ((drop_bit 6 code AND 0x3f) OR push_bit 6 (drop_bit 12 code)) (cont_byte code # rest)"
      using utf8_loop_cont [OF \<open>?s \<noteq> 0\<close>, of "drop_bit 12 code" "drop_bit 6 code"] unfolding second_type t_def [symmetric] s2 .
    also have "\<dots> = utf_next 0 code rest"
      using utf8_loop_cont [of 9 "(drop_bit 6 code AND 0x3f) OR push_bit 6 (drop_bit 12 code)" code rest]
      unfolding s3 join_bits(2) by (simp add: utf_next_def UTF_REJECT_def del: utf8_loop.simps)
    finally show ?thesis by (simp add: utf_next_def UTF_REJECT_def)
  qed
qed

lemma utf8_length_step:
  assumes "bmp_scalar c" "c \<noteq> 0" "utf8_encode c = Some b"
  shows "utf8_length_loop n (b @ rest) = utf8_length_loop (Suc n) rest"
proof -
  have lt: "unat c < 0x10000" using assms(1) by (auto simp: bmp_scalar_def)
  show ?thesis
    using assms(3) lt
  proof (cases rule: utf8_encode_cases)
    case 1
    have e: "ucast c = (of_nat (unat c) :: u8)" by (simp add: word_unat_eq_iff unsigned_ucast_eq unsigned_take_bit_eq)
    have "ucast c AND 0x80 = (0 :: u8)"
      using lead_bits(1) [unfolded list_all_iff, THEN bspec, of "unat c"] 1(1) unfolding e by (simp add: Let_def)
    moreover have "(ucast c :: u8) \<noteq> 0"
      using 1(1) assms(2) by (auto simp: word_unat_eq_iff unsigned_ucast_eq unsigned_take_bit_eq take_bit_nat_eq_self)
    ultimately show ?thesis by (simp add: 1 skip_def)
  next
    case 2
    with lead_bits(2) [unfolded list_all_iff, THEN bspec, of "unat (drop_bit 6 c)"]
    show ?thesis by (simp add: Let_def skip_def)
  next
    case 3
    with lead_bits(3) [unfolded list_all_iff, THEN bspec, of "unat (drop_bit 12 c)"]
    show ?thesis by (simp add: Let_def skip_def)
  qed
qed

text \<open>C12: the decoder reads what the encoder wrote, for every code point of the basic plane
  that is not a surrogate, and leaves what follows; the length of such a text is its number
  of code points.\<close>

theorem utf8_round_trip:
  assumes "list_all (\<lambda>c. bmp_scalar c \<and> c \<noteq> 0) (code # codes)"
    "map utf8_encode (code # codes) = map Some (bs # bss)"
  shows "utf8_char junk (bs @ rest) = Some (code, Some rest) \<and>
    utf8_length (concat (bs # bss) @ [0]) = Some (Suc (length codes))"
proof
  show "utf8_char junk (bs @ rest) = Some (code, Some rest)"
    using assms utf8_loop_basic [of code bs] by (simp add: utf8_char_def)
next
  have "utf8_length_loop n (concat bss @ [0]) = Some (n + length codes)"
    if "list_all (\<lambda>c. bmp_scalar c \<and> c \<noteq> 0) codes" "map utf8_encode codes = map Some bss" for n codes bss
    using that
  proof (induction codes arbitrary: n bss)
    case (Cons c cs)
    then obtain b bs' where b: "bss = b # bs'" "utf8_encode c = Some b" by (cases bss) auto
    with Cons.prems Cons.IH [of bs'] utf8_length_step [of c b n "concat bs' @ [0]"] show ?case by simp
  qed simp
  from this [of "code # codes" "bs # bss" 0] assms
  show "utf8_length (concat (bs # bss) @ [0]) = Some (Suc (length codes))"
    by (simp add: utf8_length_def)
qed

theorem utf8_round_trip_witness:
  "utf8_char 0 ([0xe2, 0x82, 0xac] @ [0x41, 0]) = Some (0x20ac, Some [0x41, 0]) \<and>
   utf8_length (concat [[0xe2, 0x82, 0xac], [0x41]] @ [0]) = Some 2"
proof -
  have e: "list_all (\<lambda>c. bmp_scalar c \<and> c \<noteq> 0) [0x20ac, 0x41]"
    "map utf8_encode [0x20ac, 0x41] = map Some [[0xe2, 0x82, 0xac], [0x41]]"
    by (simp_all add: bmp_scalar_def utf8_encode_def Let_def)
  show ?thesis
    using utf8_round_trip [OF e, of 0 "[0x41, 0]"] by (simp only: list.size add_0_left add_Suc_right add_0_right numeral_2_eq_2)
qed

text \<open>Beyond the basic plane the encoder writes a lead byte of a three-byte sequence, or
  nothing: the decoder rejects all of it.\<close>

theorem utf8_encode_astral:
  assumes "0xffff < code"
  shows "utf8_encode code = None \<or>
    (\<exists>bs. utf8_encode code = Some bs \<and> length bs = 4 \<and> (\<forall>junk rest. \<exists>c. utf8_char junk (bs @ rest) = Some (c, None)))"
proof (cases "code \<le> 0x1ffff")
  case True
  let ?bs = "[0xe0 OR ucast (drop_bit 18 code), cont_byte (drop_bit 12 code), cont_byte (drop_bit 6 code), cont_byte code]"
  have bs: "utf8_encode code = Some ?bs"
    using assms True by (auto simp: utf8_encode_def Let_def word_le_nat_alt word_less_nat_alt cont_byte_def)
  have n: "0xffff < unat code" "unat code \<le> 0x1ffff"
    using assms True by (auto simp: word_le_nat_alt word_less_nat_alt)
  have z: "drop_bit 18 code = 0" using n by (simp add: word_unat_eq_iff unat_drop_div)
  have t: "unat (drop_bit 4 (drop_bit 12 code) AND 3) < 2"
  proof -
    have "unat (drop_bit 4 (drop_bit 12 code) AND 3) \<le> unat (drop_bit 16 code)"
      using word_and_le2 [of "drop_bit 16 code" 3] by (simp add: word_le_nat_alt)
    also have "\<dots> < 2" using n by (simp add: unat_drop_div)
    finally show ?thesis .
  qed
  have "\<exists>c. utf8_char junk (?bs @ rest) = Some (c, None)" for junk rest
  proof -
    have "utf8_loop 0 junk (?bs @ rest) = utf_next 29 0 (cont_byte (drop_bit 12 code) # cont_byte (drop_bit 6 code) # cont_byte code # rest)"
      unfolding z append.simps by (subst utf8_loop_first3) simp_all
    also have "\<dots> = utf8_loop 29 0 (cont_byte (drop_bit 12 code) # cont_byte (drop_bit 6 code) # cont_byte code # rest)"
      by (simp add: utf_next_def UTF_REJECT_def del: utf8_loop.simps)
    also have "\<dots> = utf_next (utf_table ! (64 + 29 + unat (drop_bit 4 (drop_bit 12 code) AND 3)))
        ((drop_bit 12 code AND 0x3f) OR push_bit 6 0) (cont_byte (drop_bit 6 code) # cont_byte code # rest)"
      by (rule utf8_loop_cont) simp
    also have "utf_table ! (64 + 29 + unat (drop_bit 4 (drop_bit 12 code) AND 3)) = 99"
      using utf_state_cont [of "unat (drop_bit 4 (drop_bit 12 code) AND 3)"] t by simp
    finally show ?thesis by (simp add: utf8_char_def utf_next_def UTF_REJECT_def del: utf8_loop.simps)
  qed
  with bs show ?thesis by simp
qed (use assms in \<open>auto simp: utf8_encode_def Let_def word_le_nat_alt word_less_nat_alt\<close>)

theorem utf8_encode_astral_witness:
  "\<exists>bs. utf8_encode 0x1f600 = Some bs \<and> length bs = 4 \<and> (\<forall>junk rest. \<exists>c. utf8_char junk (bs @ rest) = Some (c, None))"
  using utf8_encode_astral [of "0x1f600"] by (simp add: utf8_encode_def)

text \<open>The second continuation byte of a four-byte sequence is looked up in the state of a
  surrogate's lead byte (17 where 13 is meant): U+1F800, which is well formed, is rejected,
  U+1F600 is not.\<close>

theorem utf8_char_four_bytes:
  "utf8_char 0 [0xf0, 0x9f, 0xa0, 0x80, 0] = Some (0x7e0, None)"
  "utf8_char 0 [0xf0, 0x9f, 0x98, 0x80, 0] = Some (0x1f600, Some [0])"
  by code_simp+

end
