(* ===== verification/Xml_Token.thy ===== *)
theory Xml_Token
  imports C_Util Utf8
begin

section \<open>XML tokens (core/xml_token.c)\<close>

text \<open>
  The scanner works in place: it ends names and values with a NUL, and writes the decoded characters
  of a text over the text. What it writes lies before the place where it reads, so the model keeps the
  decoded texts and the rest of the data. A text that is not complete is continued when more data has
  been read: \<open>x_content\<close> is what was decoded so far. \<open>None\<close> is an access through NULL or through a
  pointer that was not set.
\<close>

subsection \<open>Characters\<close>

definition char_bytes :: "string \<Rightarrow> u8 list" where
  "char_bytes s = map (\<lambda>c. of_char c) s"

definition bytes_string :: "u8 list \<Rightarrow> string" where
  "bytes_string bs = map (\<lambda>b. chr (unat b)) bs"

text \<open>\<open>utf8_char\<close> on a text, with the code point as an \<open>int\<close>; behind the text stands a NUL.\<close>

definition char_at :: "string \<Rightarrow> (int \<times> string) option" where
  "char_at s =
     (case utf8_char 0 (char_bytes s @ [0]) of
        Some (c, Some rest) \<Rightarrow> Some (uint c, drop (length s + 1 - length rest) s)
      | _ \<Rightarrow> None)"

definition name_start :: "int \<Rightarrow> bool" where
  "name_start c \<longleftrightarrow> alpha c \<or> c = 58 \<or> c = 95 \<or> in_range c 0xc0 0xd6 \<or> in_range c 0xd8 0xf6 \<or> in_range c 0xf8 0x2ff \<or>
     in_range c 0x370 0x37d \<or> in_range c 0x37f 0x1fff \<or> in_range c 0x200c 0x200d \<or> in_range c 0x2070 0x218f \<or>
     in_range c 0x2c00 0x2fef \<or> in_range c 0x3001 0xd7ff \<or> in_range c 0xf900 0xfdcf \<or> in_range c 0xfdf0 0xfffd \<or>
     in_range c 0x10000 0xeffff"

definition name_char :: "int \<Rightarrow> bool" where
  "name_char c \<longleftrightarrow> c = 45 \<or> c = 46 \<or> digit c \<or> name_start c \<or> c = 0xb7 \<or> in_range c 0x300 0x36f \<or> in_range c 0x203f 0x2040"

definition xml_char :: "int \<Rightarrow> bool" where
  "xml_char c \<longleftrightarrow> ws c \<or> in_range c 0x20 0xd7ff \<or> in_range c 0xe000 0xfffd \<or> in_range c 0x10000 0x10ffff"

definition hex_digit :: "int \<Rightarrow> int" where
  "hex_digit c = (if digit c then 48 else if in_range c 97 102 then 87 else if in_range c 65 70 then 55 else 0)"

lemma utf8_loop_shorter: "utf8_loop s c bs = Some (x, Some rest) \<Longrightarrow> length rest < length bs"
proof (induction s c bs rule: utf8_loop.induct)
  case (2 state code c data)
  then show ?case by (auto simp: Let_def less_Suc_eq_le less_imp_le split: if_splits)
qed simp

lemma char_at_shorter: "char_at s = Some (c, next) \<Longrightarrow> s \<noteq> [] \<Longrightarrow> length next < length s"
  by (cases "length s") (auto simp: char_at_def utf8_char_def char_bytes_def dest!: utf8_loop_shorter split: option.splits)

lemma char_at_end: "char_at [] = Some (0, [])"
  by (simp add: char_at_def utf8_char_def char_bytes_def)

lemma not_name_0: "\<not> name_start 0" "\<not> name_char 0"
  by (simp_all add: name_start_def name_char_def char_class_defs)

subsection \<open>Names, numbers and references\<close>

text \<open>The rest of the text behind a name; \<open>None\<close> is NULL.\<close>

function name_loop :: "bool \<Rightarrow> string \<Rightarrow> string option" where
  "name_loop first data =
     (case char_at data of
        None \<Rightarrow> None
      | Some (c, next) \<Rightarrow>
          if first then (if name_start c then name_loop False next else None)
          else if name_char c then name_loop False next else Some data)"
  by pat_completeness auto
termination
proof (relation "measure (\<lambda>(f, s). length s)")
  fix first :: bool and data :: string and x c rest
  assume x: "char_at data = Some x" "(c, rest) = x"
  have less: "length rest < length data" if "c \<noteq> 0"
    using x that char_at_shorter [of data c rest] by (cases "data = []") (auto simp: char_at_end)
  show "name_start c \<Longrightarrow> ((False, rest), first, data) \<in> measure (\<lambda>(f, s). length s)"
    using less not_name_0 by fastforce
  show "name_char c \<Longrightarrow> ((False, rest), first, data) \<in> measure (\<lambda>(f, s). length s)"
    using less not_name_0 by fastforce
qed simp

declare name_loop.simps [simp del]

definition xml_name :: "string \<Rightarrow> (string \<times> string) option" where
  "xml_name data = map_option (\<lambda>rest. (take (length data - length rest) data, rest)) (name_loop True data)"

fun hex_loop :: "int \<Rightarrow> nat \<Rightarrow> string \<Rightarrow> int \<times> nat \<times> string" where
  "hex_loop y n [] = (y, n, [])"
| "hex_loop y n (d # data) =
     (let c = hex_digit (cv d) in
      if c \<noteq> 0 then hex_loop (or (c_int (y * 16)) (cv d - c)) (Suc n) data else (y, n, d # data))"

definition hex_number :: "string \<Rightarrow> (int \<times> string) option" where
  "hex_number data = (case hex_loop 0 0 data of (y, n, rest) \<Rightarrow> if n > 0 then Some (y, rest) else None)"

text \<open>
  The characters that a reference stands for and the text behind it; the inner \<open>None\<close> is NULL. For a
  number that cannot be encoded the place to write to becomes NULL, and it is written to next.
\<close>

definition xml_refs :: "string list" where "xml_refs = [''amp'', ''lt'', ''gt'', ''quot'', ''apos'']"
definition xml_entity :: string where "xml_entity = [CHR ''&'', CHR ''<'', CHR ''>'', CHR 0x22, CHR 0x27]"

definition char_reference :: "string \<Rightarrow> (int \<times> string) option" where
  "char_reference d = (if d \<noteq> [] \<and> hd d = CHR ''x'' then hex_number (tl d) else number d)"

definition xml_reference :: "string \<Rightarrow> (string \<times> string) option option" where
  "xml_reference data =
     (let ref = takeWhile (\<lambda>c. c \<noteq> CHR '';'') data; rest = dropWhile (\<lambda>c. c \<noteq> CHR '';'') data in
      if rest = [] then Some None
      else if ref \<noteq> [] \<and> hd ref = CHR ''#'' then
        (case char_reference (tl ref) of
           Some (x, []) \<Rightarrow> (case utf8_encode (word_of_int x) of None \<Rightarrow> None | Some bs \<Rightarrow> Some (Some (bytes_string bs, tl rest)))
         | _ \<Rightarrow> Some None)
      else let i = string_index ref xml_refs in
        Some (if i < 5 then Some ([xml_entity ! i], tl rest) else None))"

lemma xml_reference_shorter: "xml_reference data = Some (Some (t, rest)) \<Longrightarrow> length rest < length data"
proof -
  assume "xml_reference data = Some (Some (t, rest))"
  then have r: "rest = tl (dropWhile (\<lambda>c. c \<noteq> CHR '';'') data)" "dropWhile (\<lambda>c. c \<noteq> CHR '';'') data \<noteq> []"
    by (auto simp: xml_reference_def Let_def split: if_splits option.splits list.splits)
  have "length (dropWhile (\<lambda>c. c \<noteq> CHR '';'') data) \<le> length data" by (rule length_dropWhile_le)
  with r show ?thesis by (cases "dropWhile (\<lambda>c. c \<noteq> CHR '';'') data") auto
qed

text \<open>The text before and behind a pattern.\<close>

fun token_end :: "string \<Rightarrow> string \<Rightarrow> (string \<times> string) option" where
  "token_end pat [] = (if pat = [] then Some ([], []) else None)"
| "token_end pat (c # s) =
     (if take (length pat) (c # s) = pat then Some ([], drop (length pat) (c # s))
      else map_option (\<lambda>(a, b). (c # a, b)) (token_end pat s))"

lemma token_end_shorter: "token_end pat s = Some (a, b) \<Longrightarrow> pat \<noteq> [] \<Longrightarrow> length b < length s"
  by (induction s arbitrary: a b) (auto split: if_splits simp: less_Suc_eq_le neq_Nil_conv)

declare token_end.simps [simp del]

lemma trim_twice: "2 * length (trim s) < Suc (Suc (2 * length s))"
  using trim_length [of s] by simp

subsection \<open>Attributes\<close>

text \<open>Behind the characters of a reference the \<open>&\<close> that began it is written.\<close>

function att_loop :: "char \<Rightarrow> string \<Rightarrow> string \<Rightarrow> (string \<times> string) option option" where
  "att_loop q acc [] = Some None"
| "att_loop q acc (c # data) =
     (if c = CHR ''<'' then Some None
      else if c = CHR ''&'' then
        (case xml_reference data of
           Some (Some (t, rest)) \<Rightarrow> att_loop q (acc @ t @ [CHR ''&'']) rest
         | Some None \<Rightarrow> Some None
         | None \<Rightarrow> None)
      else if c = q then Some (Some (acc, data))
      else att_loop q (acc @ [c]) data)"
  by pat_completeness auto
termination by (relation "measure (\<lambda>(q, acc, s). length s)") (auto dest: xml_reference_shorter)

definition att_value :: "string \<Rightarrow> (string \<times> string) option option" where
  "att_value v = (case v of [] \<Rightarrow> Some None | q # data \<Rightarrow> if q = CHR 0x22 \<or> q = CHR 0x27 then att_loop q [] data else Some None)"

definition xml_eq :: "string \<Rightarrow> string option" where
  "xml_eq data = (let eq = trim data in if eq \<noteq> [] \<and> hd eq = CHR ''='' then Some (trim (tl eq)) else None)"

text \<open>At most 16 attributes are kept; the next one overwrites the first.\<close>

definition MAX_ATTRIBUTE :: nat where "MAX_ATTRIBUTE = 16"

definition set_attr :: "nat \<Rightarrow> string \<times> string \<Rightarrow> (string \<times> string) list \<Rightarrow> (string \<times> string) list" where
  "set_attr i a as = (if i < length as then as[i := a] else as @ [a])"

definition attr_value :: "(string \<times> string) list \<Rightarrow> string \<Rightarrow> string option" where
  "attr_value as name = map_of as name"

lemma att_loop_shorter: "att_loop q acc data = Some (Some (v, rest)) \<Longrightarrow> length rest \<le> length data"
proof (induction q acc data rule: att_loop.induct)
  case (2 q acc c data)
  show ?case
  proof (cases "c = CHR ''<'' \<or> c \<noteq> CHR ''&''")
    case True
    then show ?thesis using 2 by (auto split: if_splits)
  next
    case False
    then obtain t r where r: "xml_reference data = Some (Some (t, r))" "att_loop q (acc @ t @ ''&'') r = Some (Some (v, rest))"
      using "2.prems" by (auto split: option.splits)
    then have "length rest \<le> length r" using "2.IH"(1) [of "Some (t, r)" "(t, r)" t r] False by auto
    then show ?thesis using xml_reference_shorter [OF r(1)] by simp
  qed
qed simp

lemma att_value_shorter: "att_value data = Some (Some (v, rest)) \<Longrightarrow> length rest < length data"
  using att_loop_shorter by (fastforce simp: att_value_def split: list.splits if_splits)

lemma xml_eq_shorter: "xml_eq data = Some rest \<Longrightarrow> length rest < length data"
proof -
  assume a: "xml_eq data = Some rest"
  then have "trim data \<noteq> []" "rest = trim (tl (trim data))" by (auto simp: xml_eq_def Let_def split: if_splits)
  then show ?thesis using trim_length [of "tl (trim data)"] trim_length [of data] by (cases "trim data") auto
qed

lemma name_loop_shorter: "name_loop first data = Some rest \<Longrightarrow> length rest \<le> length data"
proof (induction first data rule: name_loop.induct)
  case (1 first data)
  show ?case
  proof (cases "char_at data")
    case None
    then show ?thesis using "1.prems" by (subst (asm) name_loop.simps) simp
  next
    case (Some x)
    obtain c r where x: "x = (c, r)" by force
    have less: "c \<noteq> 0 \<Longrightarrow> length r < length data"
      using Some x char_at_shorter [of data c r] by (cases "data = []") (auto simp: char_at_end)
    have e: "name_loop first data = (if first then (if name_start c then name_loop False r else None)
        else if name_char c then name_loop False r else Some data)"
      using Some x by (subst name_loop.simps) simp
    have "name_loop False r = Some rest \<Longrightarrow> first \<and> name_start c \<or> \<not> first \<and> name_char c \<Longrightarrow> length rest \<le> length r"
      using "1.IH" [OF Some] x by blast
    then show ?thesis using "1.prems" less not_name_0 unfolding e by (fastforce split: if_splits)
  qed
qed

function attributes_loop :: "nat \<Rightarrow> (string \<times> string) list \<Rightarrow> string \<Rightarrow> ((string \<times> string) list \<times> string) option option" where
  "attributes_loop i as data =
     (case xml_name data of
        None \<Rightarrow> Some (Some (as, data))
      | Some (name, rest) \<Rightarrow>
          (case xml_eq rest of
             None \<Rightarrow> Some None
           | Some v \<Rightarrow>
               (case att_value v of
                  None \<Rightarrow> None
                | Some None \<Rightarrow> Some None
                | Some (Some (value, next)) \<Rightarrow>
                    attributes_loop ((i + 1) mod MAX_ATTRIBUTE) (set_attr i (name, value) as) (trim next))))"
  by pat_completeness auto
termination
proof (relation "measure (\<lambda>(i, as, s). length s)")
  fix i :: nat and as :: "(string \<times> string) list" and data x name rest v y z val r
  assume "xml_name data = Some x" "(name, rest) = x" "xml_eq rest = Some v" "att_value v = Some y" "y = Some z" "(val, r) = z"
  then have "length rest \<le> length data" "length v < length rest" "length r < length v"
    using name_loop_shorter xml_eq_shorter att_value_shorter by (auto simp: xml_name_def)
  then show "(((i + 1) mod MAX_ATTRIBUTE, set_attr i (name, val) as, trim r), i, as, data) \<in> measure (\<lambda>(i, as, s). length s)"
    using trim_length [of r] by simp
qed simp

declare attributes_loop.simps [simp del]

definition xml_attributes :: "string \<Rightarrow> ((string \<times> string) list \<times> string) option option" where
  "xml_attributes data = attributes_loop 0 [] (trim data)"

subsection \<open>Tags and processing instructions\<close>

datatype token_type = START_TAG | EMPTY_TAG | END_TAG | XML_DECL | XML_PI | XML_TEXT | XML_NONE | XML_INCOMPLETE | XML_INVALID

record xml_parser =
  x_name :: string
  x_content :: string
  x_attr :: "(string \<times> string) list"
  x_state :: nat
  x_token :: token_type
  x_data :: string

text \<open>
  The attributes are only set when white space follows the name, so a tag without attributes leaves
  those of an earlier tag. The result has the token, and the text behind the tag; the inner \<open>None\<close> is
  NULL or 0.
\<close>

definition xml_tag :: "string \<Rightarrow> xml_parser \<Rightarrow> (xml_parser \<times> string) option option" where
  "xml_tag data p =
     (let (token, data) = (if data \<noteq> [] \<and> hd data = CHR ''/'' then (END_TAG, tl data) else (START_TAG, data)) in
      case xml_name data of
        None \<Rightarrow> Some None
      | Some (name, data) \<Rightarrow>
          let p = p\<lparr>x_name := name\<rparr> in
          case (if token = START_TAG
                then (case (if data \<noteq> [] \<and> ws (cv (hd data)) then xml_attributes (tl data) else Some (Some (x_attr p, data))) of
                        Some (Some (as, data)) \<Rightarrow>
                          if data \<noteq> [] \<and> hd data = CHR ''/'' then Some (Some (EMPTY_TAG, as, tl data)) else Some (Some (START_TAG, as, data))
                      | Some None \<Rightarrow> Some None
                      | None \<Rightarrow> None)
                else Some (Some (END_TAG, x_attr p, trim data))) of
            Some (Some (token, as, data)) \<Rightarrow>
              if data \<noteq> [] \<and> hd data = CHR ''>'' then Some (Some (p\<lparr>x_token := token, x_attr := as\<rparr>, tl data)) else Some None
          | Some None \<Rightarrow> Some None
          | None \<Rightarrow> None)"

text \<open>\<open>only\<close> is applied to what \<open>xml_attributes\<close> returns, NULL included.\<close>

definition xml_pi :: "string \<Rightarrow> xml_parser \<Rightarrow> xml_parser option option" where
  "xml_pi data p =
     (case xml_name data of
        None \<Rightarrow> Some None
      | Some (name, rest) \<Rightarrow>
          if rest \<noteq> [] \<and> ws (cv (hd rest)) then
            if name = ''xml'' then
              (case xml_attributes (tl rest) of
                 Some (Some (as, rest)) \<Rightarrow>
                   Some (if only rest then Some (p\<lparr>x_name := name, x_token := XML_DECL, x_attr := as\<rparr>) else None)
               | _ \<Rightarrow> None)
            else Some (Some (p\<lparr>x_name := name, x_token := XML_PI, x_content := trim (tl rest)\<rparr>))
          else Some (Some (p\<lparr>x_name := data, x_token := XML_PI, x_content := []\<rparr>)))"

subsection \<open>Tokens\<close>

text \<open>Writing to a text that has not begun goes through a pointer that was not set.\<close>

definition add_text :: "string \<Rightarrow> xml_parser \<Rightarrow> xml_parser option" where
  "add_text t p = (if x_token p = XML_TEXT then Some (p\<lparr>x_content := x_content p @ t\<rparr>) else None)"

text \<open>
  The states are 0, between tokens; 1, in a text; 2, behind \<open><\<close>; 3, behind \<open><?\<close>; 4, behind \<open><!\<close>; 5,
  behind \<open><!-\<close>; 6, in a comment. A section of character data is accepted only if it is empty: the
  text compared with \<open>CDATA[\<close> ends where the section ends. The character before the end of an empty
  comment is the last of the characters that begin it.
\<close>

function xml_loop :: "nat \<Rightarrow> string \<Rightarrow> xml_parser \<Rightarrow> (xml_parser \<times> token_type) option" where
  "xml_loop state [] p = Some (p\<lparr>x_state := state, x_data := []\<rparr>, XML_INCOMPLETE)"
| "xml_loop state (c # next) p =
     (let data = c # next;
          incomplete = Some (p\<lparr>x_state := state, x_data := data\<rparr>, XML_INCOMPLETE);
          invalid = Some (p, XML_INVALID)
      in if state = 0 then
           if c = CHR ''<'' then xml_loop 2 next p
           else if ws (cv c) then xml_loop 0 (trim next) p
           else xml_loop 1 data (p\<lparr>x_content := [], x_token := XML_TEXT\<rparr>)
         else if state = 1 then
           if c = CHR ''&'' then
             if CHR '';'' \<in> set next then
               (case xml_reference next of
                  Some (Some (t, rest)) \<Rightarrow> (case add_text t p of None \<Rightarrow> None | Some p \<Rightarrow> xml_loop 1 rest p)
                | Some None \<Rightarrow> invalid
                | None \<Rightarrow> None)
             else incomplete
           else if c = CHR ''<'' then xml_loop 2 next p
           else (case char_at data of
                   None \<Rightarrow> incomplete
                 | Some (code, rest) \<Rightarrow>
                     if xml_char code then
                       (case utf8_encode (word_of_int code) of
                          None \<Rightarrow> None
                        | Some bs \<Rightarrow> (case add_text (bytes_string bs) p of None \<Rightarrow> None | Some p \<Rightarrow> xml_loop 1 rest p))
                     else invalid)
         else if state = 2 then
           if c = CHR ''!'' then xml_loop 4 next p
           else if x_token p = XML_TEXT then Some (p\<lparr>x_state := 2, x_data := data, x_token := XML_NONE\<rparr>, XML_TEXT)
           else if c = CHR ''?'' then xml_loop 3 next p
           else if CHR ''>'' \<in> set next then
             (case xml_tag data p of
                Some (Some (p, rest)) \<Rightarrow> Some (p\<lparr>x_data := rest, x_state := 0\<rparr>, x_token p)
              | Some None \<Rightarrow> invalid
              | None \<Rightarrow> None)
           else incomplete
         else if state = 3 then
           (case token_end ''?>'' data of
              None \<Rightarrow> incomplete
            | Some (pi, rest) \<Rightarrow>
                (case xml_pi pi p of
                   Some (Some p) \<Rightarrow> Some (p\<lparr>x_data := rest\<rparr>, x_token p)
                 | Some None \<Rightarrow> invalid
                 | None \<Rightarrow> None))
         else if state = 4 then
           if c = CHR ''-'' then xml_loop 5 next p
           else if c = CHR ''['' then
             (case token_end '']]>'' next of
                None \<Rightarrow> incomplete
              | Some (a, rest) \<Rightarrow> if a = ''CDATA['' then xml_loop 1 rest p else invalid)
           else invalid
         else if state = 5 then
           (if c = CHR ''-'' then xml_loop 6 next p else invalid)
         else
           (case token_end ''-->'' data of
              None \<Rightarrow> incomplete
            | Some (a, rest) \<Rightarrow>
                if a = [] \<or> last a = CHR ''-'' then invalid
                else xml_loop (if x_token p = XML_TEXT then 1 else 0) rest p))"
  by pat_completeness auto
termination
  by (relation "measure (\<lambda>(state, s, p). 2 * length s + (if state = 0 then 1 else 0))")
    (auto dest: xml_reference_shorter char_at_shorter token_end_shorter simp: trim_twice)

declare xml_loop.simps [simp del]

definition xml_token :: "xml_parser \<Rightarrow> (xml_parser \<times> token_type) option" where
  "xml_token p = xml_loop (x_state p) (x_data p) p"

definition xml_init :: "string \<Rightarrow> xml_parser \<Rightarrow> xml_parser" where
  "xml_init buffer p = p\<lparr>x_content := [], x_data := buffer, x_token := XML_NONE, x_state := 0\<rparr>"

subsection \<open>Encoded text\<close>

text \<open>The text of code points below 0x10000; those above are not encoded as they are decoded.\<close>

lemma of_char_chr: "of_char (chr (unat b)) = (b :: u8)"
proof -
  have "unat b < 256" using unsigned_less [of b] by simp
  then have "of_char (chr (unat b)) = (unat b :: nat)" by (simp add: chr_def)
  then have "of_nat (of_char (chr (unat b))) = (of_nat (unat b) :: u8)" by simp
  then show ?thesis by (simp only: of_nat_of_char) (simp add: word_unat_eq_iff)
qed

lemma chr_of_char: "chr (unat (of_char c :: u8)) = c"
proof -
  have "(of_char c :: u8) = of_nat (of_char c)" by (simp add: of_nat_of_char)
  then have "unat (of_char c :: u8) = of_char c" using of_char_lt_256 [of c] by (simp only: unat_of_nat) simp
  then show ?thesis by (simp add: chr_def)
qed

lemma char_bytes_string [simp]: "char_bytes (bytes_string bs) = bs" "bytes_string (char_bytes s) = s"
    "length (bytes_string bs) = length bs" "length (char_bytes s) = length s"
    "bytes_string (as @ bs) = bytes_string as @ bytes_string bs" "char_bytes (s @ t) = char_bytes s @ char_bytes t"
  by (simp_all add: char_bytes_def bytes_string_def of_char_chr chr_of_char o_def)

definition enc :: "u32 \<Rightarrow> string" where
  "enc c = (case utf8_encode c of Some bs \<Rightarrow> bytes_string bs | None \<Rightarrow> [])"

definition text_char :: "u32 \<Rightarrow> bool" where
  "text_char c \<longleftrightarrow> bmp_scalar c \<and> c \<noteq> 0 \<and> xml_char (uint c)"

definition text_of :: "u32 list \<Rightarrow> string" where
  "text_of cs = concat (map enc cs)"

lemma high_byte: "bit b 7 \<Longrightarrow> 128 \<le> unat (b :: u8)"
proof (rule ccontr)
  assume "bit b 7" "\<not> 128 \<le> unat b"
  then have "7 < (7 :: nat)" by (intro word_less_bits [of b 7]) simp_all
  then show False by simp
qed

lemma encodes:
  assumes "bmp_scalar c"
  obtains (ascii) "unat c < 128" "utf8_encode c = Some [ucast c]"
  | (long) b bs where "128 \<le> unat c" "utf8_encode c = Some (b # bs)" "128 \<le> unat b"
proof -
  have c: "unat c < 0x10000" using assms by (auto simp: bmp_scalar_def)
  then have "c \<le> 0xffff" by (simp add: word_le_nat_alt)
  then have "\<exists>bs. utf8_encode c = Some bs" by (simp add: utf8_encode_def Let_def)
  then obtain bs where bs: "utf8_encode c = Some bs" ..
  show thesis using bs c
  proof (cases rule: utf8_encode_cases)
    case 1
    then show thesis using ascii bs by simp
  next
    case 2
    then show thesis using long bs by (force simp: bit_simps intro!: high_byte)
  next
    case 3
    then show thesis using long bs by (force simp: bit_simps intro!: high_byte)
  qed
qed

lemma char_at_enc: "bmp_scalar c \<Longrightarrow> char_at (enc c @ s) = Some (uint c, s)"
proof -
  assume c: "bmp_scalar c"
  then obtain bs where bs: "utf8_encode c = Some bs" by (auto elim: encodes)
  have "utf8_char 0 (bs @ (char_bytes s @ [0])) = Some (c, Some (char_bytes s @ [0]))"
    unfolding utf8_char_def by (rule utf8_loop_basic [OF c bs])
  then show ?thesis using bs by (simp add: char_at_def enc_def)
qed

lemma cv_chr_high: "128 \<le> n \<Longrightarrow> n < 256 \<Longrightarrow> cv (chr n) < 0"
proof -
  assume "128 \<le> n" "n < 256"
  have "(of_char (chr n) :: int) = int (of_char (chr n))" by (simp add: of_nat_of_char)
  also have "\<dots> = int n" using \<open>n < 256\<close> by (simp add: chr_def of_char_of)
  finally have "(of_char (chr n) :: int) = int n" .
  then show "cv (chr n) < 0" using \<open>128 \<le> n\<close> \<open>n < 256\<close> by (simp add: cv_def)
qed

lemma enc_first:
  assumes "bmp_scalar c"
  obtains b s where "enc c = b # s" "unat c < 128 \<Longrightarrow> b = chr (unat c) \<and> s = []" "128 \<le> unat c \<Longrightarrow> cv b < 0"
  using assms
proof (cases rule: encodes)
  case ascii
  have "unat (ucast c :: u8) = unat c" using ascii(1) by (simp add: unsigned_ucast_eq take_bit_nat_eq_self)
  then show thesis using that [of "chr (unat c)" "[]"] ascii by (simp add: enc_def bytes_string_def)
next
  case (long b bs)
  have "unat b < 256" using unsigned_less [of b] by simp
  then show thesis using that [of "chr (unat b)" "bytes_string bs"] long cv_chr_high by (simp add: enc_def bytes_string_def)
qed

subsection \<open>Sections, declarations and attributes that are read wrongly\<close>

text \<open>A section of character data is refused, unless it is empty.\<close>

lemma token_end_parts: "token_end pat s = Some (a, b) \<Longrightarrow> s = a @ pat @ b"
proof (induction s arbitrary: a b)
  case Nil
  then show ?case by (auto simp: token_end.simps split: if_splits)
next
  case (Cons c s)
  then show ?case
    by (auto simp: token_end.simps split: if_splits) (metis append_take_drop_id)
qed

lemma cdata_refused:
  assumes "c \<noteq> CHR '']''" "token_end '']]>'' (''CDATA['' @ c # a) = Some (x, rest)"
  shows "xml_loop 4 (CHR ''['' # ''CDATA['' @ c # a) p = Some (p, XML_INVALID)"
proof -
  have "x \<noteq> ''CDATA[''" using token_end_parts [OF assms(2)] assms(1) by auto
  then show ?thesis using assms(2) by (simp add: xml_loop.simps(2) [of 4])
qed

definition scanner :: "string \<Rightarrow> xml_parser" where
  "scanner s = \<lparr>x_name = [], x_content = [], x_attr = [], x_state = 0, x_token = XML_NONE, x_data = s\<rparr>"

definition quoted_text :: "string \<Rightarrow> string" where "quoted_text s = CHR 0x22 # s @ [CHR 0x22]"

text \<open>A declaration that is not complete when it is scanned first leaves the scanner in state 3: it waits for another \<open>?>\<close>.\<close>

lemma split_declaration:
  "(let data = ''<?xml version='' @ quoted_text ''1.0'' @ ''?><a>'' in
    case xml_token (scanner (take 10 data)) of
      Some (p, t) \<Rightarrow> t = XML_INCOMPLETE \<and>
        (case xml_token (p\<lparr>x_data := x_data p @ drop 10 data\<rparr>) of
           Some (p, t) \<Rightarrow> t = XML_DECL \<and> map_option snd (xml_token p) = Some XML_INCOMPLETE
         | None \<Rightarrow> False)
    | None \<Rightarrow> False) \<and>
   (case xml_token (scanner (''<?xml version='' @ quoted_text ''1.0'' @ ''?><a>'')) of
      Some (p, t) \<Rightarrow> t = XML_DECL \<and> map_option snd (xml_token p) = Some START_TAG
    | None \<Rightarrow> False)"
  by code_simp

text \<open>A declaration whose attributes are malformed leads to a read through NULL.\<close>

lemma malformed_declaration: "xml_token (scanner ''<?xml version=1.0?>'') = None"
  by code_simp

text \<open>A tag without attributes has those of the tag before.\<close>

lemma stale_attributes:
  "(case xml_token (scanner (''<List href='' @ quoted_text ''/l'' @ ''><Item></Item></List>'')) of
      Some (p, t) \<Rightarrow> map_option (\<lambda>(q, t). (x_name q, attr_value (x_attr q) ''href'')) (xml_token p) = Some (''Item'', Some ''/l'')
    | None \<Rightarrow> False)"
  by code_simp

end
