(* ===== verification/Exi_Bits.thy ===== *)
theory Exi_Bits
  imports C_Util
begin

section \<open>EXI bit streams (core/exi_output.c, core/exi_parse.c)\<close>

text \<open>
  The writer sets bits in a buffer that was cleared, the most significant bit of a byte first;
  a write behind the buffer is \<open>None\<close>. The reader takes bits from a text of bytes that has a
  terminator behind it; where too few bytes are left it sets \<open>truncated\<close>. Both are described
  by bit positions: \<open>sbit b k\<close> is bit number \<open>k\<close> of the bytes \<open>b\<close>.
\<close>

unbundle bit_operations_syntax

subsection \<open>The writer\<close>

record bit_out =
  x_buffer :: "u8 list"
  x_ptr :: nat
  x_bit :: nat

definition upd_at :: "nat \<Rightarrow> (u8 \<Rightarrow> u8) \<Rightarrow> u8 list \<Rightarrow> u8 list option" where
  "upd_at i f b = (if i < length b then Some (b[i := f (b ! i)]) else None)"

definition output_byte :: "u8 \<Rightarrow> 'a bit_out_scheme \<Rightarrow> 'a bit_out_scheme option" where
  "output_byte b w =
     (if x_bit w \<noteq> 0 then
        do { buf \<leftarrow> upd_at (x_ptr w) (\<lambda>c. c OR drop_bit (x_bit w) b) (x_buffer w);
             buf \<leftarrow> upd_at (Suc (x_ptr w)) (\<lambda>_. push_bit (8 - x_bit w) b) buf;
             Some (w\<lparr>x_buffer := buf, x_ptr := Suc (x_ptr w)\<rparr>) }
      else do { buf \<leftarrow> upd_at (x_ptr w) (\<lambda>_. b) (x_buffer w);
                Some (w\<lparr>x_buffer := buf, x_ptr := Suc (x_ptr w)\<rparr>) })"

lemma unat_shr7: "unat (drop_bit 7 x) = unat (x :: u64) div 128"
  by (simp add: unat_drop_div)

function output_uint :: "u64 \<Rightarrow> 'a bit_out_scheme \<Rightarrow> 'a bit_out_scheme option" where
  "output_uint x w =
     (let b = ucast (x AND 0x7f); x = drop_bit 7 x; b = (if x \<noteq> 0 then b OR 0x80 else b) in
      if x \<noteq> 0 then Option.bind (output_byte b w) (output_uint x) else output_byte b w)"
  by pat_completeness auto
termination
proof (relation "measure (unat \<circ> fst)")
  fix x xa :: u64 and b ba :: u8
  assume "xa = drop_bit 7 x" "xa \<noteq> 0"
  then have "0 < unat (drop_bit 7 x)" by (simp add: unat_gt_0)
  then show "\<And>w z. ((xa, z), x, w) \<in> measure (unat \<circ> fst)"
    using \<open>xa = _\<close> by (simp add: unat_shr7)
qed simp

declare output_uint.simps [simp del]

definition output_bit :: "bool \<Rightarrow> 'a bit_out_scheme \<Rightarrow> 'a bit_out_scheme option" where
  "output_bit b w =
     (if x_bit w = 7 then
        do { buf \<leftarrow> upd_at (x_ptr w) (\<lambda>c. c OR of_bool b) (x_buffer w);
             Some (w\<lparr>x_buffer := buf, x_ptr := Suc (x_ptr w), x_bit := 0\<rparr>) }
      else do { buf \<leftarrow> upd_at (x_ptr w) (\<lambda>c. c OR push_bit (7 - x_bit w) (of_bool b)) (x_buffer w);
                Some (w\<lparr>x_buffer := buf, x_bit := Suc (x_bit w)\<rparr>) })"

primrec output_bits_loop :: "nat \<Rightarrow> u32 \<Rightarrow> nat \<Rightarrow> u8 list \<Rightarrow> u8 list option" where
  "output_bits_loop p bits 0 buf = Some buf"
| "output_bits_loop p bits (Suc i) buf =
     do { buf \<leftarrow> upd_at (p + i) (\<lambda>c. c OR ucast bits) buf; output_bits_loop p (drop_bit 8 bits) i buf }"

definition output_bits :: "u32 \<Rightarrow> nat \<Rightarrow> 'a bit_out_scheme \<Rightarrow> 'a bit_out_scheme option" where
  "output_bits bits n w =
     (let p = x_ptr w; m = (x_bit w + n) mod 8; i = (x_bit w + n) div 8 in
      do { (buf, bits) \<leftarrow>
             (if m \<noteq> 0 then map_option (\<lambda>buf. (buf, drop_bit m bits))
                (upd_at (p + i) (\<lambda>c. c OR ucast (push_bit (8 - m) bits)) (x_buffer w))
              else Some (x_buffer w, bits));
           buf \<leftarrow> output_bits_loop p bits i buf;
           Some (w\<lparr>x_buffer := buf, x_ptr := p + i, x_bit := m\<rparr>) })"

definition output_integer :: "int \<Rightarrow> 'a bit_out_scheme \<Rightarrow> 'a bit_out_scheme option" where
  "output_integer x w =
     do { w \<leftarrow> output_bit (x < 0) w; output_uint (word_of_int (if x < 0 then - x else x)) w }"

subsection \<open>The reader\<close>

record bit_in =
  i_data :: "u8 list"
  i_ptr :: nat
  i_bit :: nat
  i_truncated :: bool

definition byte_at :: "u8 list \<Rightarrow> nat \<Rightarrow> u8" where
  "byte_at b i = (if i < length b then b ! i else 0)"

definition lacks :: "'a bit_in_scheme \<Rightarrow> nat \<Rightarrow> bool" where
  "lacks p n \<longleftrightarrow> length (i_data p) - i_ptr p < n"

definition parse_byte :: "'a bit_in_scheme \<Rightarrow> 'a bit_in_scheme \<times> u8" where
  "parse_byte p =
     (if lacks p (if i_bit p \<noteq> 0 then 2 else 1) then (p\<lparr>i_truncated := True\<rparr>, 0)
      else (p\<lparr>i_ptr := Suc (i_ptr p)\<rparr>,
        if i_bit p \<noteq> 0
        then push_bit (i_bit p) (byte_at (i_data p) (i_ptr p)) OR drop_bit (8 - i_bit p) (byte_at (i_data p) (Suc (i_ptr p)))
        else byte_at (i_data p) (i_ptr p)))"

text \<open>
  The shift is one of an \<open>int\<close>: it is undefined, \<open>None\<close>, if it is by 32 or more or if the
  result is not an \<open>int\<close>.
\<close>

definition shift_int :: "int \<Rightarrow> nat \<Rightarrow> int option" where
  "shift_int v n = (if n < 32 \<and> v * 2 ^ n < 2 ^ 31 then Some (v * 2 ^ n) else None)"

function parse_uint_loop :: "u64 \<Rightarrow> nat \<Rightarrow> 'a bit_in_scheme \<Rightarrow> ('a bit_in_scheme \<times> u64) option" where
  "parse_uint_loop x n p =
     (let (p, b) = parse_byte p in
      do { v \<leftarrow> shift_int (uint (b AND 0x7f)) n;
           let x = x OR word_of_int v;
           let n = n + 7;
           if \<not> i_truncated p \<and> b AND 0x80 \<noteq> 0 \<and> n < 70 then parse_uint_loop x n p else Some (p, x) })"
  by pat_completeness auto
termination by (relation "measure (\<lambda>(x, n, p). 70 - n)") auto

declare parse_uint_loop.simps [simp del]

definition parse_uint :: "'a bit_in_scheme \<Rightarrow> ('a bit_in_scheme \<times> u64) option" where
  "parse_uint p = parse_uint_loop 0 0 p"

definition parse_bit :: "'a bit_in_scheme \<Rightarrow> 'a bit_in_scheme \<times> bool" where
  "parse_bit p =
     (if lacks p 1 then (p\<lparr>i_truncated := True\<rparr>, False)
      else let b = bit (byte_at (i_data p) (i_ptr p)) (7 - i_bit p) in
        if i_bit p = 7 then (p\<lparr>i_ptr := Suc (i_ptr p), i_bit := 0\<rparr>, b)
        else (p\<lparr>i_bit := Suc (i_bit p)\<rparr>, b))"

primrec parse_bits_loop :: "u8 list \<Rightarrow> nat \<Rightarrow> nat \<Rightarrow> u32" where
  "parse_bits_loop d i 0 = ucast (byte_at d i)"
| "parse_bits_loop d i (Suc n) = push_bit 8 (parse_bits_loop d i n) OR ucast (byte_at d (i + Suc n))"

definition parse_bits :: "nat \<Rightarrow> 'a bit_in_scheme \<Rightarrow> 'a bit_in_scheme \<times> u32" where
  "parse_bits n p =
     (let bit = (i_bit p + n) mod 8; bytes = (i_bit p + n) div 8 in
      if lacks p (if bit \<noteq> 0 then bytes + 1 else bytes) then (p\<lparr>i_truncated := True\<rparr>, 0)
      else (p\<lparr>i_bit := bit, i_ptr := i_ptr p + bytes\<rparr>,
        drop_bit (8 - bit) (parse_bits_loop (i_data p) (i_ptr p) bytes) AND mask n))"

definition parse_integer :: "'a bit_in_scheme \<Rightarrow> ('a bit_in_scheme \<times> int) option" where
  "parse_integer p =
     (let (q, sign) = parse_bit p in
      map_option (\<lambda>(q, x). (if i_truncated q then q\<lparr>i_ptr := i_ptr p, i_bit := i_bit p\<rparr> else q,
          if sign then - sint x else sint x)) (parse_uint q))"

subsection \<open>Positions\<close>

definition sbit :: "u8 list \<Rightarrow> nat \<Rightarrow> bool" where
  "sbit b k = bit (b ! (k div 8)) (7 - k mod 8)"

definition x_pos :: "'a bit_out_scheme \<Rightarrow> nat" where
  "x_pos w = 8 * x_ptr w + x_bit w"

definition i_pos :: "'a bit_in_scheme \<Rightarrow> nat" where
  "i_pos p = 8 * i_ptr p + i_bit p"

text \<open>Behind the position of a writer the buffer is clear.\<close>

definition out_ok :: "'a bit_out_scheme \<Rightarrow> bool" where
  "out_ok w \<longleftrightarrow> x_bit w < 8 \<and> (\<forall>k. x_pos w \<le> k \<and> k < 8 * length (x_buffer w) \<longrightarrow> \<not> sbit (x_buffer w) k)"

text \<open>\<open>w'\<close> is \<open>w\<close> with the bits \<open>bs\<close> written; \<open>b\<close> has the bits \<open>bs\<close> at position \<open>k\<close>.\<close>

definition wrote :: "'a bit_out_scheme \<Rightarrow> bool list \<Rightarrow> 'a bit_out_scheme \<Rightarrow> bool" where
  "wrote w bs w' \<longleftrightarrow> out_ok w' \<and> length (x_buffer w') = length (x_buffer w) \<and> x_pos w' = x_pos w + length bs \<and>
     (\<forall>k < x_pos w. sbit (x_buffer w') k = sbit (x_buffer w) k) \<and>
     (\<forall>i < length bs. sbit (x_buffer w') (x_pos w + i) = bs ! i) \<and> bit_out.more w' = bit_out.more w"

definition room :: "'a bit_out_scheme \<Rightarrow> nat \<Rightarrow> bool" where
  "room w n \<longleftrightarrow> x_pos w + n \<le> 8 * length (x_buffer w)"

definition holds_bits :: "u8 list \<Rightarrow> nat \<Rightarrow> bool list \<Rightarrow> bool" where
  "holds_bits b k bs \<longleftrightarrow> k + length bs \<le> 8 * length b \<and> (\<forall>i < length bs. sbit b (k + i) = bs ! i)"

definition nbits :: "nat \<Rightarrow> 'a :: len word \<Rightarrow> bool list" where
  "nbits n x = map (\<lambda>i. bit x (n - 1 - i)) [0..<n]"

lemma nbits_length [simp]: "length (nbits n x) = n" by (simp add: nbits_def)

lemma wrote_Nil: "out_ok w \<Longrightarrow> wrote w [] w"
  by (simp add: wrote_def)

lemma wrote_append:
  assumes "wrote w as v" "wrote v bs u"
  shows "wrote w (as @ bs) u"
  unfolding wrote_def
proof (intro conjI allI impI)
  show "out_ok u" "length (x_buffer u) = length (x_buffer w)" "x_pos u = x_pos w + length (as @ bs)" "bit_out.more u = bit_out.more w"
    using assms by (simp_all add: wrote_def)
  show "sbit (x_buffer u) k = sbit (x_buffer w) k" if "k < x_pos w" for k
    using assms that by (simp add: wrote_def)
  show "sbit (x_buffer u) (x_pos w + i) = (as @ bs) ! i" if "i < length (as @ bs)" for i
  proof (cases "i < length as")
    case False
    have l: "\<forall>j < length bs. sbit (x_buffer u) (x_pos v + j) = bs ! j" using assms(2) by (simp add: wrote_def)
    have "i - length as < length bs" using False that by simp
    note l [rule_format, OF this]
    moreover have "x_pos v + (i - length as) = x_pos w + i" using False assms(1) by (simp add: wrote_def)
    ultimately show ?thesis using False by (simp add: nth_append)
  qed (use assms in \<open>simp add: wrote_def nth_append\<close>)
qed

lemma wrote_room: "wrote w as v \<Longrightarrow> room w (length as + n) \<Longrightarrow> room v n"
  by (simp add: wrote_def room_def)

lemma all_less_add: "(\<forall>i < m + n. P i) \<longleftrightarrow> (\<forall>i < m. P i) \<and> (\<forall>i < n. P (m + i :: nat))"
proof (intro iffI conjI allI impI)
  fix i assume l: "(\<forall>i < m. P i) \<and> (\<forall>i < n. P (m + i))" and i: "i < m + n"
  show "P i"
  proof (cases "i < m")
    case False
    then have "i - m < n" "m + (i - m) = i" using i by linarith+
    then show ?thesis using l by metis
  qed (use l in blast)
qed auto

lemma holds_bits_append: "holds_bits b k (as @ bs) \<longleftrightarrow> holds_bits b k as \<and> holds_bits b (k + length as) bs"
proof -
  have "(\<forall>i < length (as @ bs). sbit b (k + i) = (as @ bs) ! i) \<longleftrightarrow>
      (\<forall>i < length as. sbit b (k + i) = as ! i) \<and> (\<forall>i < length bs. sbit b (k + length as + i) = bs ! i)"
    (is "(\<forall>i < _. ?P i) \<longleftrightarrow> (\<forall>i < _. ?A i) \<and> (\<forall>i < _. ?B i)")
  proof -
    have A: "?P i = ?A i" if "i < length as" for i using that by (simp add: nth_append)
    have B: "?P (length as + i) = ?B i" for i by (simp add: nth_append add.assoc)
    have "(\<forall>i < length as + length bs. ?P i) \<longleftrightarrow> (\<forall>i < length as. ?P i) \<and> (\<forall>i < length bs. ?P (length as + i))"
      by (rule all_less_add)
    then show ?thesis using A B by simp
  qed
  then show ?thesis by (auto simp: holds_bits_def)
qed

text \<open>What was written can be read.\<close>

lemma wrote_holds: "wrote w bs v \<Longrightarrow> room w (length bs) \<Longrightarrow> holds_bits (x_buffer v) (x_pos w) bs"
  by (simp add: wrote_def holds_bits_def room_def)

lemma sbit_update:
  "sbit (b[i := c]) k = (if k div 8 = i \<and> i < length b then bit c (7 - k mod 8) else sbit b k)"
proof (cases "i < length b")
  case True
  then show ?thesis by (simp add: sbit_def nth_list_update)
next
  case False
  then have "b[i := c] = b" by (simp add: list_update_beyond)
  with False show ?thesis by simp
qed

lemma pos_cases:
  obtains q r where "k = 8 * q + r" "r < 8" "k div 8 = q" "k mod 8 = (r :: nat)"
proof -
  have "k = 8 * (k div 8) + k mod 8" "k mod 8 < 8" by simp_all
  then show thesis using that by blast
qed

lemma pos_eq: "r < 8 \<Longrightarrow> j < 8 \<Longrightarrow> 8 * q + r = 8 * p + j \<longleftrightarrow> q = p \<and> r = (j :: nat)"
  by presburger

lemma sbit_or:
  "sbit (b[i := b ! i OR v]) k \<longleftrightarrow> sbit b k \<or> k div 8 = i \<and> i < length b \<and> bit v (7 - k mod 8)"
  unfolding sbit_update by (cases "k div 8 = i") (auto simp: bit_or_iff sbit_def)

subsection \<open>The operations of the writer\<close>

lemma wroteI:
  assumes "out_ok w" "room w (length bs)" "length b = length (x_buffer w)" "j < 8" "8 * ptr + j = x_pos w + length bs"
    "\<And>k. k < 8 * length b \<Longrightarrow> sbit b k = (if x_pos w \<le> k \<and> k < x_pos w + length bs then bs ! (k - x_pos w) else sbit (x_buffer w) k)"
  shows "wrote w bs (w\<lparr>x_buffer := b, x_ptr := ptr, x_bit := j\<rparr>)"
proof -
  have pos: "x_pos (w\<lparr>x_buffer := b, x_ptr := ptr, x_bit := j\<rparr>) = x_pos w + length bs"
    using assms(5) by (simp add: x_pos_def)
  have "\<not> sbit b k" if "x_pos w + length bs \<le> k" "k < 8 * length b" for k
    using assms(6) [OF that(2)] that assms(1,3) by (simp add: out_ok_def)
  then have "out_ok (w\<lparr>x_buffer := b, x_ptr := ptr, x_bit := j\<rparr>)"
    unfolding out_ok_def pos using assms(4) by simp
  moreover have "sbit b k = sbit (x_buffer w) k" if "k < x_pos w" for k
    using that assms(2,3,6) by (simp add: room_def)
  moreover have "sbit b (x_pos w + i) = bs ! i" if "i < length bs" for i
    using that assms(2,3,6) by (simp add: room_def)
  ultimately show ?thesis
    unfolding wrote_def pos using assms(3) by simp
qed

lemma output_bits_loop_ok:
  "p + i \<le> length buf \<Longrightarrow> \<exists>b. output_bits_loop p bits i buf = Some b \<and> length b = length buf \<and>
    (\<forall>k. sbit b k \<longleftrightarrow> sbit buf k \<or> 8 * p \<le> k \<and> k < 8 * (p + i) \<and> bit bits (8 * (p + i) - 1 - k))"
proof (induction i arbitrary: bits buf)
  case (Suc i)
  define b1 where "b1 = buf[p + i := buf ! (p + i) OR ucast bits]"
  have b1: "upd_at (p + i) (\<lambda>c. c OR ucast bits) buf = Some b1" "length b1 = length buf"
    using Suc.prems by (simp_all add: upd_at_def b1_def)
  obtain b where b: "output_bits_loop p (drop_bit 8 bits) i b1 = Some b" "length b = length b1"
      "\<And>k. sbit b k \<longleftrightarrow> sbit b1 k \<or> 8 * p \<le> k \<and> k < 8 * (p + i) \<and> bit (drop_bit 8 bits) (8 * (p + i) - 1 - k)"
    using Suc.IH [of b1 "drop_bit 8 bits"] Suc.prems b1(2) by auto
  have "sbit b k \<longleftrightarrow> sbit buf k \<or> 8 * p \<le> k \<and> k < 8 * (p + Suc i) \<and> bit bits (8 * (p + Suc i) - 1 - k)" for k
  proof -
    obtain q r where k: "k = 8 * q + r" "r < 8" "k div 8 = q" "k mod 8 = r" by (rule pos_cases)
    consider "q = p + i" | "q < p + i" | "q > p + i" by linarith
    then show ?thesis
    proof cases
      case 1
      then have "8 * (p + Suc i) - 1 - k = 7 - r" using k by simp
      with 1 k Suc.prems show ?thesis
        unfolding b(3) b1_def sbit_or by (auto simp: bit_ucast_iff)
    next
      case 2
      then have e: "8 + (8 * (p + i) - 1 - k) = 8 * (p + Suc i) - 1 - k" using k by simp
      have "bit (drop_bit 8 bits) (8 * (p + i) - 1 - k) = bit bits (8 * (p + Suc i) - 1 - k)"
        unfolding e [symmetric] by (simp add: bit_simps add.commute)
      with 2 k Suc.prems show ?thesis
        unfolding b(3) b1_def sbit_or by auto
    next
      case 3
      with k Suc.prems show ?thesis
        unfolding b(3) b1_def sbit_or by auto
    qed
  qed
  then have "\<forall>k. sbit b k \<longleftrightarrow> sbit buf k \<or> 8 * p \<le> k \<and> k < 8 * (p + Suc i) \<and> bit bits (8 * (p + Suc i) - 1 - k)"
    by blast
  moreover have "output_bits_loop p bits (Suc i) buf = Some b" using b(1) b1(1) by simp
  ultimately show ?case using b(2) b1(2) by auto
qed auto

lemma nbits_nth [simp]: "i < n \<Longrightarrow> nbits n x ! i = bit x (n - 1 - i)"
  by (simp add: nbits_def)

lemma bit_take_bit_less: "take_bit n x = x \<Longrightarrow> bit x i \<Longrightarrow> i < n" for x :: "'a :: len word"
  by (metis bit_take_bit_iff)

theorem output_bits_ok:
  assumes "out_ok w" "room w n" "take_bit n bits = bits"
  shows "\<exists>v. output_bits bits n w = Some v \<and> wrote w (nbits n bits) v"
proof -
  define m where "m = (x_bit w + n) mod 8"
  define i where "i = (x_bit w + n) div 8"
  have m: "m < 8" by (simp add: m_def)
  have e: "8 * (x_ptr w + i) + m = x_pos w + n" unfolding m_def i_def x_pos_def by presburger
  have len: "x_ptr w + i \<le> length (x_buffer w)" "m \<noteq> 0 \<Longrightarrow> x_ptr w + i < length (x_buffer w)"
  proof -
    have r: "x_pos w + n \<le> 8 * length (x_buffer w)" using assms(2) by (simp add: room_def)
    show "x_ptr w + i \<le> length (x_buffer w)" using r unfolding e [symmetric] by simp
    show "x_ptr w + i < length (x_buffer w)" if "m \<noteq> 0" using r that unfolding e [symmetric] by simp
  qed
  define b1 where "b1 = (if m \<noteq> 0 then (x_buffer w)[x_ptr w + i := x_buffer w ! (x_ptr w + i) OR ucast (push_bit (8 - m) bits)]
      else x_buffer w)"
  have l1: "length b1 = length (x_buffer w)" by (simp add: b1_def)
  obtain b where b: "output_bits_loop (x_ptr w) (drop_bit m bits) i b1 = Some b" "length b = length b1"
      "\<forall>k. sbit b k \<longleftrightarrow> sbit b1 k \<or> 8 * x_ptr w \<le> k \<and> k < 8 * (x_ptr w + i) \<and> bit (drop_bit m bits) (8 * (x_ptr w + i) - 1 - k)"
    using output_bits_loop_ok [of "x_ptr w" i b1 "drop_bit m bits"] len l1 by auto
  have "output_bits bits n w = Some (w\<lparr>x_buffer := b, x_ptr := x_ptr w + i, x_bit := m\<rparr>)"
    using len b(1) unfolding output_bits_def m_def [symmetric] i_def [symmetric] b1_def Let_def
    by (cases "m = 0") (simp_all add: upd_at_def)
  moreover have "sbit b k \<longleftrightarrow> sbit (x_buffer w) k \<or> 8 * x_ptr w \<le> k \<and> k < x_pos w + n \<and> bit bits (x_pos w + n - 1 - k)" for k
  proof -
    obtain q r where k: "k = 8 * q + r" "r < 8" "k div 8 = q" "k mod 8 = r" by (rule pos_cases)
    have s1: "sbit b1 k \<longleftrightarrow> sbit (x_buffer w) k \<or> q = x_ptr w + i \<and> r < m \<and> bit bits (m - 1 - r)"
    proof (cases "m = 0")
      case False
      have "7 - r - (8 - m) = m - 1 - r" "8 - m \<le> 7 - r \<longleftrightarrow> r < m" using k m False by linarith+
      then have "bit (ucast (push_bit (8 - m) bits) :: u8) (7 - r) \<longleftrightarrow> r < m \<and> bit bits (m - 1 - r)"
        by (auto simp: bit_ucast_iff bit_push_bit_iff)
      then show ?thesis using False len(2) k(3,4)
        unfolding b1_def by (auto simp: sbit_or)
    qed (simp add: b1_def)
    have s2: "bit (drop_bit m bits) (8 * (x_ptr w + i) - 1 - k) = bit bits (x_pos w + n - 1 - k)" if "q < x_ptr w + i"
    proof -
      have "k < 8 * (x_ptr w + i)" using that k(1,2) by simp
      then have "m + (8 * (x_ptr w + i) - 1 - k) = x_pos w + n - 1 - k" unfolding e [symmetric] by simp
      then show ?thesis by (simp add: bit_simps add.commute)
    qed
    consider "q < x_ptr w + i" | "q = x_ptr w + i" | "q > x_ptr w + i" by linarith
    then show ?thesis
    proof cases
      case 1
      then have "k < 8 * (x_ptr w + i)" "k < x_pos w + n" using k(1,2) unfolding e [symmetric] by simp_all
      with 1 show ?thesis using b(3) s1 s2 by auto
    next
      case 2
      then have "\<not> k < 8 * (x_ptr w + i)" "8 * x_ptr w \<le> k" "k < x_pos w + n \<longleftrightarrow> r < m" "x_pos w + n - 1 - k = m - 1 - r"
        using k(1) unfolding e [symmetric] by simp_all
      with 2 show ?thesis using b(3) s1 by auto
    next
      case 3
      then have "\<not> k < 8 * (x_ptr w + i)" "\<not> k < x_pos w + n" using k(1) m unfolding e [symmetric] by simp_all
      with 3 show ?thesis using b(3) s1 by auto
    qed
  qed
  note sb = this
  have "wrote w (nbits n bits) (w\<lparr>x_buffer := b, x_ptr := x_ptr w + i, x_bit := m\<rparr>)"
  proof (rule wroteI)
    fix k assume kb: "k < 8 * length b"
    show "sbit b k = (if x_pos w \<le> k \<and> k < x_pos w + length (nbits n bits) then nbits n bits ! (k - x_pos w) else sbit (x_buffer w) k)"
    proof (cases "x_pos w \<le> k \<and> k < x_pos w + n")
      case True
      then have "\<not> sbit (x_buffer w) k" using assms(1) kb b(2) l1 by (simp add: out_ok_def)
      moreover have "8 * x_ptr w \<le> k" using True by (simp add: x_pos_def)
      moreover have "x_pos w + n - 1 - k = n - 1 - (k - x_pos w)" "k - x_pos w < n" using True by linarith+
      ultimately show ?thesis using sb True by simp
    next
      case False
      have "\<not> (k < x_pos w + n \<and> bit bits (x_pos w + n - 1 - k))"
      proof
        assume a: "k < x_pos w + n \<and> bit bits (x_pos w + n - 1 - k)"
        then have "x_pos w + n - 1 - k < n" using bit_take_bit_less [OF assms(3)] by blast
        with a False show False by linarith
      qed
      with False show ?thesis by (auto simp: sb)
    qed
  qed (use assms e m b(2) l1 in simp_all)
  ultimately show ?thesis by blast
qed

theorem output_bit_ok:
  assumes "out_ok w" "room w 1"
  shows "\<exists>v. output_bit b w = Some v \<and> wrote w [b] v"
proof -
  have j: "x_bit w < 8" using assms(1) by (simp add: out_ok_def)
  have p: "x_ptr w < length (x_buffer w)" using assms(2) by (simp add: room_def x_pos_def)
  define c where "c = (x_buffer w)[x_ptr w := x_buffer w ! x_ptr w OR push_bit (7 - x_bit w) (of_bool b)]"
  have lc: "length c = length (x_buffer w)" by (simp add: c_def)
  have sb: "sbit c k \<longleftrightarrow> sbit (x_buffer w) k \<or> k = x_pos w \<and> b" for k
  proof -
    obtain q r where k: "k = 8 * q + r" "r < 8" "k div 8 = q" "k mod 8 = r" by (rule pos_cases)
    have eq: "k = x_pos w \<longleftrightarrow> q = x_ptr w \<and> r = x_bit w"
      unfolding k(1) x_pos_def by (rule pos_eq) (use k(2) j in simp_all)
    have "bit (push_bit (7 - x_bit w) (of_bool b) :: u8) (7 - r) \<longleftrightarrow> r = x_bit w \<and> b"
    proof -
      have "bit (push_bit (7 - x_bit w) (of_bool b) :: u8) (7 - r) \<longleftrightarrow> 7 - x_bit w \<le> 7 - r \<and> 7 - r - (7 - x_bit w) = 0 \<and> b"
        by (auto simp: bit_push_bit_iff bit_of_bool_iff)
      moreover have "7 - x_bit w \<le> 7 - r \<and> 7 - r - (7 - x_bit w) = 0 \<longleftrightarrow> r = x_bit w"
        using k(2) j by linarith
      ultimately show ?thesis by blast
    qed
    then show ?thesis using p k(3,4) eq unfolding c_def sbit_or by auto
  qed
  have "wrote w [b] (w\<lparr>x_buffer := c, x_ptr := (if x_bit w = 7 then Suc (x_ptr w) else x_ptr w), x_bit := (if x_bit w = 7 then 0 else Suc (x_bit w))\<rparr>)"
  proof (rule wroteI)
    fix k assume kb: "k < 8 * length c"
    show "sbit c k = (if x_pos w \<le> k \<and> k < x_pos w + length [b] then [b] ! (k - x_pos w) else sbit (x_buffer w) k)"
    proof (cases "k = x_pos w")
      case True
      then have "\<not> sbit (x_buffer w) k" using assms(1) kb lc by (simp add: out_ok_def)
      with True show ?thesis by (simp add: sb)
    next
      case False
      then have "\<not> (x_pos w \<le> k \<and> k < x_pos w + length [b])" by simp
      with False show ?thesis by (simp only: sb if_False) simp
    qed
  qed (use assms j lc in \<open>auto simp: x_pos_def\<close>)
  moreover have "output_bit b w = Some (w\<lparr>x_buffer := c, x_ptr := (if x_bit w = 7 then Suc (x_ptr w) else x_ptr w), x_bit := (if x_bit w = 7 then 0 else Suc (x_bit w))\<rparr>)"
    using p by (cases "x_bit w = 7") (simp_all add: output_bit_def upd_at_def c_def)
  ultimately show ?thesis by blast
qed

theorem output_byte_ok:
  assumes "out_ok w" "room w 8"
  shows "\<exists>v. output_byte b w = Some v \<and> wrote w (nbits 8 b) v"
proof -
  have j: "x_bit w < 8" using assms(1) by (simp add: out_ok_def)
  have clear: "\<not> sbit (x_buffer w) k" if "x_pos w \<le> k" "k < 8 * length (x_buffer w)" for k
    using assms(1) that by (simp add: out_ok_def)
  define c where "c = (if x_bit w \<noteq> 0
     then (x_buffer w)[x_ptr w := x_buffer w ! x_ptr w OR drop_bit (x_bit w) b, Suc (x_ptr w) := push_bit (8 - x_bit w) b]
     else (x_buffer w)[x_ptr w := b])"
  have lc: "length c = length (x_buffer w)" by (simp add: c_def)
  have len: "x_ptr w < length (x_buffer w)" "x_bit w \<noteq> 0 \<Longrightarrow> Suc (x_ptr w) < length (x_buffer w)"
    using assms(2) unfolding room_def x_pos_def by simp_all
  have "sbit c k = (if x_pos w \<le> k \<and> k < x_pos w + 8 then bit b (7 - (k - x_pos w)) else sbit (x_buffer w) k)"
    if kb: "k < 8 * length c" for k
  proof -
    obtain q r where k: "k = 8 * q + r" "r < 8" "k div 8 = q" "k mod 8 = r" by (rule pos_cases)
    consider "q = x_ptr w" | "q = Suc (x_ptr w)" | "q < x_ptr w" | "q > Suc (x_ptr w)" by linarith
    then show ?thesis
    proof cases
      case 1
      then have "x_pos w \<le> k \<longleftrightarrow> x_bit w \<le> r" "k < x_pos w + 8" "k - x_pos w = r - x_bit w"
        using k(1,2) by (simp_all add: x_pos_def)
      moreover have "\<not> sbit (x_buffer w) k" if "x_bit w \<le> r"
        using clear [of k] that calculation(1) kb lc by simp
      moreover have "\<not> bit b (7 - r + x_bit w)" if "\<not> x_bit w \<le> r"
      proof -
        have "7 - r + x_bit w \<ge> 8" using that k(2) by simp
        then show ?thesis using bit_imp_le_length [of b "7 - r + x_bit w"] by auto
      qed
      moreover have "7 - (r - x_bit w) = 7 - r + x_bit w" if "x_bit w \<le> r" using that k(2) by simp
      ultimately show ?thesis using 1 k(3,4) len
        by (cases "x_bit w = 0") (auto simp: c_def sbit_update bit_or_iff bit_drop_bit_eq sbit_def [of _ k] add.commute)
    next
      case 2
      then have "x_pos w \<le> k" "k < x_pos w + 8 \<longleftrightarrow> r < x_bit w" "k - x_pos w = 8 + r - x_bit w"
        using k(1,2) j by (simp_all add: x_pos_def)
      moreover have "\<not> sbit (x_buffer w) k" using clear [of k] calculation(1) kb lc by simp
      moreover have "7 - (8 + r - x_bit w) = 7 - r - (8 - x_bit w)" "8 - x_bit w \<le> 7 - r" if "r < x_bit w"
        using that j by simp_all
      moreover have "\<not> 8 - x_bit w \<le> 7 - r" if "\<not> r < x_bit w" using that k(2) j by linarith
      ultimately show ?thesis using 2 k(2,3,4) len
        by (cases "x_bit w = 0") (auto simp: c_def sbit_update bit_push_bit_iff diff_less_Suc [of 7, simplified])
    next
      case 3
      then have "\<not> x_pos w \<le> k" using k(1,2) by (simp add: x_pos_def)
      with 3 k show ?thesis by (simp add: c_def sbit_update)
    next
      case 4
      then have "\<not> k < x_pos w + 8" using k(1,2) j by (simp add: x_pos_def)
      with 4 k show ?thesis by (simp add: c_def sbit_update)
    qed
  qed
  then have "wrote w (nbits 8 b) (w\<lparr>x_buffer := c, x_ptr := Suc (x_ptr w), x_bit := x_bit w\<rparr>)"
    by (intro wroteI) (use assms j lc in \<open>auto simp: x_pos_def\<close>)
  moreover have "output_byte b w = Some (w\<lparr>x_buffer := c, x_ptr := Suc (x_ptr w), x_bit := x_bit w\<rparr>)"
    using len by (cases "x_bit w = 0") (simp_all add: output_byte_def upd_at_def c_def)
  ultimately show ?thesis by blast
qed

text \<open>The groups of seven bits of an unsigned integer, the least significant first.\<close>

function uint_bytes :: "u64 \<Rightarrow> u8 list" where
  "uint_bytes x = (if drop_bit 7 x \<noteq> 0 then (ucast (x AND 0x7f) OR 0x80) # uint_bytes (drop_bit 7 x)
     else [ucast (x AND 0x7f)])"
  by pat_completeness auto
termination
proof (relation "measure unat")
  fix x :: u64 assume "drop_bit 7 x \<noteq> 0"
  then have "0 < unat (drop_bit 7 x)" by (simp add: unat_gt_0)
  then show "(drop_bit 7 x, x) \<in> measure unat" by (simp add: unat_shr7)
qed simp

declare uint_bytes.simps [simp del]

definition bytes_bits :: "u8 list \<Rightarrow> bool list" where
  "bytes_bits bs = concat (map (nbits 8) bs)"

lemma bytes_bits_simps [simp]: "bytes_bits [] = []" "bytes_bits (b # bs) = nbits 8 b @ bytes_bits bs"
  by (simp_all add: bytes_bits_def)

lemma bytes_bits_append [simp]: "bytes_bits (as @ bs) = bytes_bits as @ bytes_bits bs"
  by (simp add: bytes_bits_def)

lemma bytes_bits_length [simp]: "length (bytes_bits bs) = 8 * length bs"
  by (induction bs) simp_all

theorem output_uint_ok:
  "out_ok w \<Longrightarrow> room w (8 * length (uint_bytes x)) \<Longrightarrow> \<exists>v. output_uint x w = Some v \<and> wrote w (bytes_bits (uint_bytes x)) v"
proof (induction x arbitrary: w rule: uint_bytes.induct)
  case (1 x)
  show ?case
  proof (cases "drop_bit 7 x = 0")
    case True
    then show ?thesis using output_byte_ok [of w "ucast (x AND 0x7f)"] 1(2,3)
      by (simp add: output_uint.simps [of x] uint_bytes.simps [of x])
  next
    case False
    let ?b = "ucast (x AND 0x7f) OR 0x80 :: u8"
    have r: "room w (length (nbits 8 ?b) + 8 * length (uint_bytes (drop_bit 7 x)))"
      using 1(3) False by (simp add: uint_bytes.simps [of x])
    then have "room w 8" by (simp add: room_def)
    then obtain v where v: "output_byte ?b w = Some v" "wrote w (nbits 8 ?b) v"
      using output_byte_ok [OF 1(2)] by blast
    have "out_ok v" "room v (8 * length (uint_bytes (drop_bit 7 x)))"
      using v(2) wrote_room [OF v(2) r] by (simp_all add: wrote_def)
    then obtain u where u: "output_uint (drop_bit 7 x) v = Some u" "wrote v (bytes_bits (uint_bytes (drop_bit 7 x))) u"
      using 1(1) [OF False] by blast
    then show ?thesis using wrote_append [OF v(2) u(2)] v(1) False
      by (simp add: output_uint.simps [of x] uint_bytes.simps [of x])
  qed
qed

definition integer_bits :: "int \<Rightarrow> bool list" where
  "integer_bits x = (x < 0) # bytes_bits (uint_bytes (word_of_int \<bar>x\<bar>))"

theorem output_integer_ok:
  assumes "out_ok w" "room w (length (integer_bits x))"
  shows "\<exists>v. output_integer x w = Some v \<and> wrote w (integer_bits x) v"
proof -
  let ?y = "word_of_int \<bar>x\<bar> :: u64"
  have r: "room w (length [x < 0] + 8 * length (uint_bytes ?y))" using assms(2) by (simp add: integer_bits_def)
  then have "room w 1" by (simp add: room_def)
  then obtain v where v: "output_bit (x < 0) w = Some v" "wrote w [x < 0] v"
    using output_bit_ok [OF assms(1)] by blast
  have "out_ok v" using v(2) by (simp add: wrote_def)
  then obtain u where u: "output_uint ?y v = Some u" "wrote v (bytes_bits (uint_bytes ?y)) u"
    using output_uint_ok wrote_room [OF v(2) r] by blast
  moreover have "(if x < 0 then - x else x) = \<bar>x\<bar>" by simp
  ultimately show ?thesis using v(1) wrote_append [OF v(2) u(2)]
    unfolding output_integer_def by (simp add: integer_bits_def)
qed

subsection \<open>The operations of the reader\<close>

definition in_ok :: "'a bit_in_scheme \<Rightarrow> bool" where
  "in_ok p \<longleftrightarrow> i_bit p < 8 \<and> \<not> i_truncated p"

definition skip_bits :: "nat \<Rightarrow> 'a bit_in_scheme \<Rightarrow> 'a bit_in_scheme" where
  "skip_bits n p = p\<lparr>i_ptr := (i_pos p + n) div 8, i_bit := (i_pos p + n) mod 8\<rparr>"

definition sees :: "'a bit_in_scheme \<Rightarrow> bool list \<Rightarrow> bool" where
  "sees p bs \<longleftrightarrow> in_ok p \<and> holds_bits (i_data p) (i_pos p) bs"

lemma skip_bits_pos [simp]: "i_pos (skip_bits n p) = i_pos p + n" "i_data (skip_bits n p) = i_data p"
    "i_truncated (skip_bits n p) = i_truncated p" "bit_in.more (skip_bits n p) = bit_in.more p"
  by (simp_all add: skip_bits_def i_pos_def)

lemma skip_bits_add: "skip_bits m (skip_bits n p) = skip_bits (n + m) p"
  by (simp add: skip_bits_def i_pos_def add.assoc)

lemma sees_append: "sees p (as @ bs) \<longleftrightarrow> sees p as \<and> sees (skip_bits (length as) p) bs"
proof -
  have "i_bit (skip_bits n p) < 8" for n by (simp add: skip_bits_def)
  then show ?thesis by (auto simp: sees_def in_ok_def holds_bits_append)
qed

lemma sees_bit: "sees p bs \<Longrightarrow> i < length bs \<Longrightarrow> sbit (i_data p) (i_pos p + i) = bs ! i"
  by (simp add: sees_def holds_bits_def)

lemma sees_bytes: "sees p bs \<Longrightarrow> i_pos p + length bs \<le> 8 * length (i_data p)"
  by (simp add: sees_def holds_bits_def)

lemma sbit_byte_at: "k < 8 * length d \<Longrightarrow> sbit d k = bit (byte_at d (k div 8)) (7 - k mod 8)"
proof -
  assume "k < 8 * length d"
  then have "k div 8 < length d" by (simp add: div_less_iff_less_mult mult.commute)
  then show ?thesis by (simp add: sbit_def byte_at_def)
qed

lemma pos_divmod: "z = 8 * q + r \<Longrightarrow> r < 8 \<Longrightarrow> z div 8 = q \<and> z mod 8 = (r :: nat)"
  by simp

theorem parse_bit_ok:
  assumes "sees p [b]"
  shows "parse_bit p = (skip_bits 1 p, b)"
proof -
  have j: "i_bit p < 8" using assms by (simp add: sees_def in_ok_def)
  have l: "i_pos p < 8 * length (i_data p)" using sees_bytes [OF assms] by simp
  then have "i_ptr p < length (i_data p)" by (simp add: i_pos_def)
  moreover have "b = bit (byte_at (i_data p) (i_ptr p)) (7 - i_bit p)"
    using sees_bit [OF assms, of 0] sbit_byte_at [OF l] j by (simp add: i_pos_def)
  moreover have "i_bit p = 7 \<Longrightarrow> (i_pos p + 1) div 8 = Suc (i_ptr p) \<and> (i_pos p + 1) mod 8 = 0"
    by (simp add: i_pos_def)
  moreover have "i_bit p \<noteq> 7 \<Longrightarrow> (i_pos p + 1) div 8 = i_ptr p \<and> (i_pos p + 1) mod 8 = Suc (i_bit p)"
    using j by (simp add: i_pos_def)
  ultimately show ?thesis
    by (cases "i_bit p = 7") (simp_all add: parse_bit_def lacks_def Let_def skip_bits_def)
qed

lemma bit_parse_bits_loop:
  "bit (parse_bits_loop d i n) k \<longleftrightarrow> k < 32 \<and> k div 8 \<le> n \<and> bit (byte_at d (i + n - k div 8)) (k mod 8)"
proof (induction n arbitrary: k)
  case 0
  show ?case
  proof (cases "k < 8")
    case True
    then show ?thesis by (simp add: bit_ucast_iff)
  next
    case False
    then have "\<not> bit (byte_at d i) k" "\<not> k div 8 \<le> 0" using bit_imp_le_length [of "byte_at d i" k] by auto
    then show ?thesis by (simp add: bit_ucast_iff)
  qed
next
  case (Suc n)
  show ?case
  proof (cases "k < 8")
    case True
    then show ?thesis by (simp add: bit_or_iff bit_push_bit_iff bit_ucast_iff)
  next
    case False
    then have c: "\<not> bit (byte_at d (Suc (i + n))) k" using bit_imp_le_length [of "byte_at d (Suc (i + n))" k] by auto
    have k: "k div 8 = Suc ((k - 8) div 8)" "k mod 8 = (k - 8) mod 8" using False by (simp_all add: le_div_geq le_mod_geq)
    show ?thesis using False c unfolding k parse_bits_loop.simps
      by (auto simp: bit_or_iff bit_push_bit_iff bit_ucast_iff Suc.IH)
  qed
qed

theorem parse_bits_ok:
  assumes "sees p (nbits n x)" "take_bit n x = x" "n \<le> 24"
  shows "parse_bits n p = (skip_bits n p, x)"
proof -
  define m where "m = (i_bit p + n) mod 8"
  define y where "y = (i_bit p + n) div 8"
  have j: "i_bit p < 8" using assms by (simp add: sees_def in_ok_def)
  have m: "m < 8" by (simp add: m_def)
  have e: "i_bit p + n = 8 * y + m" by (simp add: m_def y_def)
  have l: "i_pos p + n \<le> 8 * length (i_data p)" using sees_bytes [OF assms(1)] by simp
  then have lacks: "\<not> lacks p (if m \<noteq> 0 then y + 1 else y)"
    using e m by (auto simp: lacks_def i_pos_def)
  have "drop_bit (8 - m) (parse_bits_loop (i_data p) (i_ptr p) y) AND mask n = x"
  proof (rule bit_word_eqI)
    fix k assume "k < LENGTH(32)"
    show "bit (drop_bit (8 - m) (parse_bits_loop (i_data p) (i_ptr p) y) AND mask n) k = bit x k"
    proof (cases "k < n")
      case False
      then have "\<not> bit x k" using bit_take_bit_less [OF assms(2)] by blast
      with False show ?thesis by (simp add: bit_and_iff bit_mask_iff)
    next
      case True
      define h where "h = 8 - m + k"
      have h: "h < 32" "h div 8 \<le> y" using True assms(3) m e j unfolding h_def by (simp, linarith)
      define z where "z = i_pos p + (n - 1 - k)"
      have z: "z + h = 8 * (i_ptr p + y) + 7"
        using True e m by (simp add: z_def h_def i_pos_def algebra_simps)
      obtain a c where hd: "h = 8 * a + c" "c < 8" "h div 8 = a" "h mod 8 = c" by (rule pos_cases)
      have "z = 8 * (i_ptr p + y - a) + (7 - c)" using z hd h(2) by simp
      then have "z div 8 = i_ptr p + y - a \<and> z mod 8 = 7 - c" by (rule pos_divmod) simp
      then have zz: "z div 8 = i_ptr p + y - h div 8" "7 - z mod 8 = h mod 8"
        using hd by simp_all
      have "sbit (i_data p) z = bit x k"
        unfolding z_def using sees_bit [OF assms(1), of "n - 1 - k"] True by simp
      moreover have "z < 8 * length (i_data p)" using l True by (simp add: z_def)
      ultimately have "bit x k = bit (byte_at (i_data p) (i_ptr p + y - h div 8)) (h mod 8)"
        using sbit_byte_at [of z] zz by simp
      then show ?thesis using h True
        by (simp add: bit_and_iff bit_mask_iff bit_drop_bit_eq bit_parse_bits_loop h_def)
    qed
  qed
  moreover have "(i_pos p + n) div 8 = i_ptr p + y" "(i_pos p + n) mod 8 = m"
    using e m by (simp_all add: i_pos_def add.assoc)
  ultimately show ?thesis using lacks
    unfolding parse_bits_def m_def [symmetric] y_def [symmetric] Let_def by (simp add: skip_bits_def add.commute)
qed

theorem parse_byte_ok:
  assumes "sees p (nbits 8 b)"
  shows "parse_byte p = (skip_bits 8 p, b)"
proof -
  have j: "i_bit p < 8" using assms by (simp add: sees_def in_ok_def)
  have l: "i_pos p + 8 \<le> 8 * length (i_data p)" using sees_bytes [OF assms] by simp
  then have l': "\<not> lacks p (if i_bit p \<noteq> 0 then 2 else 1)" by (auto simp: lacks_def i_pos_def)
  have "(if i_bit p \<noteq> 0 then push_bit (i_bit p) (byte_at (i_data p) (i_ptr p)) OR drop_bit (8 - i_bit p) (byte_at (i_data p) (Suc (i_ptr p)))
        else byte_at (i_data p) (i_ptr p)) = b" (is "?v = b")
  proof (rule bit_word_eqI)
    fix k assume "k < LENGTH(8)"
    then have k: "k < 8" by simp
    define z where "z = i_pos p + (7 - k)"
    have "z < 8 * length (i_data p)" using l by (simp add: z_def)
    then have b: "bit b k = bit (byte_at (i_data p) (z div 8)) (7 - z mod 8)"
      using sees_bit [OF assms, of "7 - k"] k sbit_byte_at [of z] by (simp add: z_def)
    show "bit ?v k = bit b k"
    proof (cases "i_bit p \<le> k")
      case True
      then have "z = 8 * i_ptr p + (i_bit p + (7 - k))" "i_bit p + (7 - k) < 8" using k by (simp_all add: z_def i_pos_def)
      then have "z div 8 = i_ptr p \<and> z mod 8 = i_bit p + (7 - k)" by (rule pos_divmod)
      then have "z div 8 = i_ptr p" "7 - z mod 8 = k - i_bit p" using k True by simp_all
      moreover have "\<not> bit (byte_at (i_data p) (Suc (i_ptr p))) (8 - i_bit p + k)"
        using True bit_imp_le_length [of "byte_at (i_data p) (Suc (i_ptr p))" "8 - i_bit p + k"] j by auto
      ultimately show ?thesis using b True k by (auto simp: bit_or_iff bit_push_bit_iff bit_drop_bit_eq)
    next
      case False
      then have "z = 8 * Suc (i_ptr p) + (i_bit p - 1 - k)" "i_bit p - 1 - k < 8" using k j by (simp_all add: z_def i_pos_def)
      then have "z div 8 = Suc (i_ptr p) \<and> z mod 8 = i_bit p - 1 - k" by (rule pos_divmod)
      then have "z div 8 = Suc (i_ptr p)" "z mod 8 = i_bit p - 1 - k" by simp_all
      moreover have "7 - (i_bit p - 1 - k) = 8 - i_bit p + k" using False j by linarith
      ultimately have "bit b k = bit (byte_at (i_data p) (Suc (i_ptr p))) (8 - i_bit p + k)" using b by simp
      moreover have "i_bit p \<noteq> 0" using False by simp
      ultimately show ?thesis using False by (simp add: bit_or_iff bit_push_bit_iff bit_drop_bit_eq)
    qed
  qed
  moreover have "(i_pos p + 8) div 8 = Suc (i_ptr p)" "(i_pos p + 8) mod 8 = i_bit p"
    using j by (simp_all add: i_pos_def)
  ultimately show ?thesis using l'
    unfolding parse_byte_def by (simp add: skip_bits_def)
qed

definition shift_nat :: "nat \<Rightarrow> nat \<Rightarrow> nat option" where
  "shift_nat v n = (if n < 32 \<and> v * 2 ^ n < 2 ^ 31 then Some (v * 2 ^ n) else None)"

lemma shift_int_nat: "shift_int (int v) n = map_option int (shift_nat v n)"
proof -
  have "int v * 2 ^ n = int (v * 2 ^ n)" "(2 :: int) ^ 31 = int (2 ^ 31)" by simp_all
  then have "int v * 2 ^ n < 2 ^ 31 \<longleftrightarrow> v * 2 ^ n < 2 ^ 31" by (simp only: of_nat_less_iff)
  then show ?thesis by (simp add: shift_int_def shift_nat_def)
qed

lemma parse_uint_loop_nat:
  "parse_uint_loop x n p =
     (let (p, b) = parse_byte p in
      do { v \<leftarrow> shift_nat (unat (b AND 0x7f)) n;
           let x = x OR word_of_nat v;
           let n = n + 7;
           if \<not> i_truncated p \<and> b AND 0x80 \<noteq> 0 \<and> n < 70 then parse_uint_loop x n p else Some (p, x) })"
proof -
  have u: "uint b = int (unat b)" for b :: u8 by simp
  show ?thesis
    unfolding parse_uint_loop.simps [of x] u shift_int_nat
    by (cases "parse_byte p"; cases "shift_nat (unat (snd (parse_byte p) AND 0x7f)) n") (simp_all add: Let_def)
qed

lemma unat_and_7f: "unat (x AND 0x7f) = unat (x :: u64) mod 128"
proof -
  have "x AND 0x7f = take_bit 7 x" by (simp add: take_bit_eq_mask mask_eq_exp_minus_1)
  then show ?thesis by (simp add: unat_mod take_bit_eq_mod)
qed

lemma group_masks: "(0x7f :: u8) = mask 7" "(0x7f :: u64) = mask 7"
  by (simp_all add: mask_eq_exp_minus_1)

lemma bit_80: "bit (0x80 :: int) i \<longleftrightarrow> i = 7"
proof -
  have "(0x80 :: int) = 2 ^ 7" by simp
  then show ?thesis by (auto simp only: bit_exp_iff possible_bit_int)
qed

lemma group_low: "unat ((ucast (x AND 0x7f) :: u8) AND 0x7f) = unat (x :: u64) mod 128"
    "unat (((ucast (x AND 0x7f) :: u8) OR 0x80) AND 0x7f) = unat x mod 128"
proof -
  have a: "(ucast (x AND 0x7f) :: u8) AND 0x7f = ucast (x AND 0x7f)" "((ucast (x AND 0x7f) :: u8) OR 0x80) AND 0x7f = ucast (x AND 0x7f)"
    unfolding group_masks by (rule bit_word_eqI; auto simp: bit_or_iff bit_and_iff bit_ucast_iff bit_mask_iff bit_80)+
  have "unat (ucast (x AND 0x7f) :: u8) = unat (x AND 0x7f) mod 256" by (simp add: unsigned_ucast_eq take_bit_eq_mod)
  then show "unat ((ucast (x AND 0x7f) :: u8) AND 0x7f) = unat (x :: u64) mod 128"
    "unat (((ucast (x AND 0x7f) :: u8) OR 0x80) AND 0x7f) = unat x mod 128"
    unfolding a by (simp_all add: unat_and_7f)
qed

lemma group_high: "(ucast (x AND 0x7f) :: u8) AND 0x80 = 0" "((ucast (x AND 0x7f) :: u8) OR 0x80) AND 0x80 \<noteq> 0"
  for x :: u64
proof -
  show "(ucast (x AND 0x7f) :: u8) AND 0x80 = 0" unfolding group_masks by (rule bit_word_eqI) (auto simp: bit_or_iff bit_and_iff bit_ucast_iff bit_mask_iff bit_80)
  have "((ucast (x AND 0x7f) :: u8) OR 0x80) AND 0x80 = 0x80" unfolding group_masks by (rule bit_word_eqI) (auto simp: bit_or_iff bit_and_iff bit_ucast_iff bit_mask_iff bit_80)
  then show "((ucast (x AND 0x7f) :: u8) OR 0x80) AND 0x80 \<noteq> 0" by simp
qed

lemma group_value: "word_of_nat (unat x mod 128 * 2 ^ n) = (push_bit n (x AND 0x7f) :: u64)"
proof -
  have "word_of_nat (unat x mod 128 * 2 ^ n) = (word_of_nat (unat (x AND 0x7f)) * 2 ^ n :: u64)"
    by (simp add: unat_and_7f)
  then show ?thesis by (simp add: push_bit_eq_mult)
qed

lemma group_rest: "push_bit n (x AND 0x7f) OR push_bit (n + 7) (drop_bit 7 x) = push_bit n (x :: u64)"
proof (rule bit_word_eqI)
  fix i assume i: "i < LENGTH(64)"
  show "bit (push_bit n (x AND 0x7f) OR push_bit (n + 7) (drop_bit 7 x)) i = bit (push_bit n x) i"
    unfolding group_masks by (cases "i - n < 7") (use i in \<open>auto simp: bit_or_iff bit_push_bit_iff bit_and_iff bit_mask_iff bit_drop_bit_eq\<close>)
qed

lemma shift_nat_group:
  assumes "unat x * 2 ^ n < 2 ^ 31" "n < 32"
  shows "shift_nat (unat (x :: u64) mod 128) n = Some (unat x mod 128 * 2 ^ n)"
proof -
  have "unat x mod 128 * 2 ^ n \<le> unat x * 2 ^ n" by (rule mult_right_mono) simp_all
  then have "unat x mod 128 * 2 ^ n < 2 ^ 31" using assms(1) by (rule le_less_trans)
  then show ?thesis using assms(2) by (simp add: shift_nat_def)
qed

lemma parse_uint_loop_ok:
  "sees p (bytes_bits (uint_bytes x)) \<Longrightarrow> unat x * 2 ^ n < 2 ^ 31 \<Longrightarrow> n < 32 \<Longrightarrow>
   parse_uint_loop acc n p = Some (skip_bits (8 * length (uint_bytes x)) p, acc OR push_bit n x)"
proof (induction x arbitrary: acc n p rule: uint_bytes.induct)
  case (1 x)
  have t: "\<not> i_truncated (skip_bits 8 p)" using 1(2) by (simp add: sees_def in_ok_def)
  show ?case
  proof (cases "drop_bit 7 x = 0")
    case True
    have "sees p (nbits 8 (ucast (x AND 0x7f) :: u8))" using 1(2) True by (simp add: uint_bytes.simps [of x])
    note p = parse_byte_ok [OF this]
    have "push_bit n (x AND 0x7f) = push_bit n x" using group_rest [of n x] True by simp
    then show ?thesis using True p shift_nat_group [OF 1(3,4)] t
      by (simp add: parse_uint_loop_nat [of acc] uint_bytes.simps [of x] Let_def group_low group_high group_value del: of_nat_mult)
  next
    case False
    let ?b = "ucast (x AND 0x7f) OR 0x80 :: u8"
    have s: "sees p (nbits 8 ?b @ bytes_bits (uint_bytes (drop_bit 7 x)))" using 1(2) False by (simp add: uint_bytes.simps [of x])
    then have p: "parse_byte p = (skip_bits 8 p, ?b)" by (intro parse_byte_ok) (simp add: sees_append)
    have x: "unat x = 128 * unat (drop_bit 7 x) + unat x mod 128" unfolding unat_shr7 by simp
    have "128 * unat (drop_bit 7 x) * 2 ^ n \<le> unat x * 2 ^ n" by (rule mult_right_mono, subst x) simp_all
    moreover have "unat (drop_bit 7 x) * 2 ^ (n + 7) = 128 * unat (drop_bit 7 x) * 2 ^ n" by (simp add: power_add)
    ultimately have l: "unat (drop_bit 7 x) * 2 ^ (n + 7) < 2 ^ 31" using 1(3) by linarith
    have "1 \<le> unat (drop_bit 7 x)" using False unat_gt_0 [of "drop_bit 7 x"] by linarith
    then have "2 ^ (n + 7) \<le> unat (drop_bit 7 x) * 2 ^ (n + 7)" by simp
    then have "(2 :: nat) ^ (n + 7) < 2 ^ 31" using l by linarith
    then have n: "n + 7 < 31" by (rule power_less_imp_less_exp [rotated]) simp
    have "parse_uint_loop (acc OR push_bit n (x AND 0x7f)) (n + 7) (skip_bits 8 p) =
        Some (skip_bits (8 * length (uint_bytes (drop_bit 7 x))) (skip_bits 8 p), (acc OR push_bit n (x AND 0x7f)) OR push_bit (n + 7) (drop_bit 7 x))"
      by (rule 1(1) [OF False _ l]) (use s n in \<open>simp_all add: sees_append\<close>)
    then show ?thesis using False p shift_nat_group [OF 1(3,4)] t n
      by (simp add: parse_uint_loop_nat [of acc] uint_bytes.simps [of x] Let_def group_low group_high group_value
          group_rest or.assoc skip_bits_add del: of_nat_mult push_bit_and)
  qed
qed

theorem parse_uint_ok:
  "sees p (bytes_bits (uint_bytes x)) \<Longrightarrow> unat x < 2 ^ 31 \<Longrightarrow>
   parse_uint p = Some (skip_bits (8 * length (uint_bytes x)) p, x)"
  unfolding parse_uint_def by (subst parse_uint_loop_ok) simp_all

lemma big_group:
  assumes "2 ^ 31 \<le> y * 2 ^ n" "y mod 128 * 2 ^ n < 2 ^ 31" "n < 32"
  shows "2 ^ 31 \<le> y div 128 * 2 ^ (n + 7)" "y div 128 \<noteq> (0 :: nat)"
proof -
  have y: "y * 2 ^ n = y div 128 * 2 ^ (n + 7) + y mod 128 * 2 ^ n"
  proof -
    have "y * 2 ^ n = (y div 128 * 128 + y mod 128) * 2 ^ n" by simp
    then show ?thesis by (simp only: power_add distrib_right) simp
  qed
  show nz: "y div 128 \<noteq> 0"
  proof
    assume "y div 128 = 0"
    with y assms(1,2) show False by simp
  qed
  show "2 ^ 31 \<le> y div 128 * 2 ^ (n + 7)"
  proof (cases "n + 7 \<le> 31")
    case True
    then have p: "(2 :: nat) ^ 31 = 2 ^ (24 - n) * 2 ^ (n + 7)" by (simp flip: power_add)
    show ?thesis
    proof (rule ccontr)
      assume "\<not> ?thesis"
      then have "y div 128 * 2 ^ (n + 7) < 2 ^ (24 - n) * 2 ^ (n + 7)" using p by simp
      then have "Suc (y div 128) \<le> 2 ^ (24 - n)" by simp
      then have "Suc (y div 128) * 2 ^ (n + 7) \<le> 2 ^ 31" unfolding p by (rule mult_right_mono) simp
      moreover have "y mod 128 * 2 ^ n < 128 * 2 ^ n" by simp
      moreover have "Suc (y div 128) * 2 ^ (n + 7) = y div 128 * 2 ^ (n + 7) + 128 * 2 ^ n" by (simp add: power_add)
      ultimately show False using y assms(1) by linarith
    qed
  next
    case False
    then have "(2 :: nat) ^ 31 \<le> 2 ^ (n + 7)" by (intro power_increasing) simp_all
    also have "\<dots> \<le> y div 128 * 2 ^ (n + 7)" using nz by simp
    finally show ?thesis .
  qed
qed

lemma parse_uint_loop_big:
  "sees p (bytes_bits (uint_bytes x)) \<Longrightarrow> 2 ^ 31 \<le> unat x * 2 ^ n \<Longrightarrow> parse_uint_loop acc n p = None"
proof (induction x arbitrary: acc n p rule: uint_bytes.induct)
  case (1 x)
  have t: "\<not> i_truncated (skip_bits 8 p)" using 1(2) by (simp add: sees_def in_ok_def)
  have first: "\<exists>b q. parse_byte p = (q, b) \<and> unat (b AND 0x7f) = unat x mod 128"
  proof (cases "drop_bit 7 x = 0")
    case True
    then have "sees p (nbits 8 (ucast (x AND 0x7f) :: u8))" using 1(2) by (simp add: uint_bytes.simps [of x])
    then show ?thesis using parse_byte_ok group_low(1) by blast
  next
    case False
    then have "sees p (nbits 8 (ucast (x AND 0x7f) OR 0x80 :: u8))" using 1(2) by (simp add: uint_bytes.simps [of x] sees_append)
    then show ?thesis using parse_byte_ok group_low(2) by blast
  qed
  show ?case
  proof (cases "n < 32 \<and> unat x mod 128 * 2 ^ n < 2 ^ 31")
    case False
    then have "shift_nat (unat x mod 128) n = None" by (simp add: shift_nat_def)
    then show ?thesis using first by (auto simp: parse_uint_loop_nat [of acc])
  next
    case True
    have l: "2 ^ 31 \<le> unat (drop_bit 7 x) * 2 ^ (n + 7)" and nz: "drop_bit 7 x \<noteq> 0"
    proof -
      have "2 ^ 31 \<le> unat x div 128 * 2 ^ (n + 7)" "unat x div 128 \<noteq> 0" using big_group [OF 1(3)] True by simp_all
      then show "2 ^ 31 \<le> unat (drop_bit 7 x) * 2 ^ (n + 7)" "drop_bit 7 x \<noteq> 0"
        by (simp_all add: unat_shr7 flip: unat_eq_0)
    qed
    let ?b = "ucast (x AND 0x7f) OR 0x80 :: u8"
    have s: "sees p (nbits 8 ?b @ bytes_bits (uint_bytes (drop_bit 7 x)))" using 1(2) nz by (simp add: uint_bytes.simps [of x])
    then have p: "parse_byte p = (skip_bits 8 p, ?b)" by (intro parse_byte_ok) (simp add: sees_append)
    have "sees (skip_bits 8 p) (bytes_bits (uint_bytes (drop_bit 7 x)))" using s by (simp add: sees_append)
    note IH = 1(1) [OF nz this l]
    show ?thesis using True p t IH
      by (simp add: parse_uint_loop_nat [of acc] Let_def group_low group_high shift_nat_def)
  qed
qed

theorem parse_integer_ok:
  assumes "sees p (integer_bits x)" "\<bar>x\<bar> < 2 ^ 31"
  shows "parse_integer p = Some (skip_bits (length (integer_bits x)) p, x)"
proof -
  let ?y = "word_of_int \<bar>x\<bar> :: u64"
  have s: "sees p ([x < 0] @ bytes_bits (uint_bytes ?y))" using assms(1) by (simp add: integer_bits_def)
  then have "sees p [x < 0]" "sees (skip_bits 1 p) (bytes_bits (uint_bytes ?y))" unfolding sees_append by simp_all
  note s = this
  have b: "parse_bit p = (skip_bits 1 p, x < 0)" by (rule parse_bit_ok [OF s(1)])
  have y: "uint ?y = \<bar>x\<bar>" using assms(2) by (simp add: uint_word_of_int)
  then have "unat ?y < 2 ^ 31" using assms(2) by (simp add: unat_eq_nat_uint nat_less_iff)
  then have u: "parse_uint (skip_bits 1 p) = Some (skip_bits (8 * length (uint_bytes ?y)) (skip_bits 1 p), ?y)"
    by (rule parse_uint_ok [OF s(2)])
  have "signed_take_bit 63 \<bar>x\<bar> = \<bar>x\<bar>" by (rule signed_take_bit_int_eq_self) (use assms(2) in simp_all)
  then have "sint ?y = \<bar>x\<bar>" by (simp add: signed_of_int)
  moreover have "\<not> i_truncated p" using assms(1) by (simp add: sees_def in_ok_def)
  ultimately show ?thesis using b u
    by (auto simp: parse_integer_def integer_bits_def skip_bits_add)
qed

subsection \<open>Codecs\<close>

text \<open>
  What the EXI driver asks of a pair of a writer and a reader: the writer writes the encoding of
  a value, and the reader, where it sees that encoding, steps over it and returns the value. The
  driver calls them one after the other, so a row of values is read as it was written.
\<close>

primrec write_all :: "('v \<Rightarrow> 'w \<Rightarrow> 'w option) \<Rightarrow> 'v list \<Rightarrow> 'w \<Rightarrow> 'w option" where
  "write_all wr [] w = Some w"
| "write_all wr (x # xs) w = Option.bind (wr x w) (write_all wr xs)"

primrec read_all :: "('r \<Rightarrow> ('r \<times> 'v) option) \<Rightarrow> nat \<Rightarrow> 'r \<Rightarrow> ('r \<times> 'v list) option" where
  "read_all rd 0 p = Some (p, [])"
| "read_all rd (Suc n) p = do { (p, x) \<leftarrow> rd p; (p, xs) \<leftarrow> read_all rd n p; Some (p, x # xs) }"

locale bit_codec =
  fixes write_value :: "'v \<Rightarrow> 'w bit_out_scheme \<Rightarrow> 'w bit_out_scheme option"
    and read_value :: "'r bit_in_scheme \<Rightarrow> ('r bit_in_scheme \<times> 'v) option"
    and encoding :: "'v \<Rightarrow> bool list"
    and fits :: "'v \<Rightarrow> bool"
  assumes written: "fits x \<Longrightarrow> out_ok w \<Longrightarrow> room w (length (encoding x)) \<Longrightarrow>
      \<exists>v. write_value x w = Some v \<and> wrote w (encoding x) v"
    and read_back: "fits x \<Longrightarrow> sees p (encoding x) \<Longrightarrow> read_value p = Some (skip_bits (length (encoding x)) p, x)"
begin

lemma write_all_wrote:
  "list_all fits xs \<Longrightarrow> out_ok w \<Longrightarrow> room w (length (concat (map encoding xs))) \<Longrightarrow>
   \<exists>v. write_all write_value xs w = Some v \<and> wrote w (concat (map encoding xs)) v"
proof (induction xs arbitrary: w)
  case Nil
  then show ?case by (simp add: wrote_Nil)
next
  case (Cons x xs)
  have r: "room w (length (encoding x) + length (concat (map encoding xs)))" using Cons.prems by simp
  then have "room w (length (encoding x))" by (simp add: room_def)
  then obtain v where v: "write_value x w = Some v" "wrote w (encoding x) v"
    using written [of x w] Cons.prems by auto
  have "out_ok v" "room v (length (concat (map encoding xs)))"
    using v(2) wrote_room [OF v(2) r] by (simp_all add: wrote_def)
  then obtain u where u: "write_all write_value xs v = Some u" "wrote v (concat (map encoding xs)) u"
    using Cons.IH [of v] Cons.prems by auto
  show ?case using v(1) u(1) wrote_append [OF v(2) u(2)] by simp
qed

lemma read_all_sees:
  "list_all fits xs \<Longrightarrow> sees p (concat (map encoding xs)) \<Longrightarrow>
   read_all read_value (length xs) p = Some (skip_bits (length (concat (map encoding xs))) p, xs)"
proof (induction xs arbitrary: p)
  case Nil
  then have "skip_bits 0 p = p"
    by (simp add: sees_def in_ok_def skip_bits_def i_pos_def)
  then show ?case by simp
next
  case (Cons x xs)
  have s: "sees p (encoding x)" "sees (skip_bits (length (encoding x)) p) (concat (map encoding xs))"
    using Cons.prems(2) by (simp_all add: sees_append)
  show ?case using read_back [OF _ s(1)] Cons.IH [OF _ s(2)] Cons.prems(1) by (simp add: skip_bits_add)
qed

lemma round_trip:
  assumes "list_all fits xs" "out_ok w" "room w (length (concat (map encoding xs)))"
    and "i_data p = x_buffer v" "i_pos p = x_pos w" "in_ok p" "write_all write_value xs w = Some v"
  shows "read_all read_value (length xs) p = Some (skip_bits (length (concat (map encoding xs))) p, xs)"
proof (rule read_all_sees [OF assms(1)])
  show "sees p (concat (map encoding xs))"
    using write_all_wrote [OF assms(1-3)] wrote_holds [OF _ assms(3)] assms(4-7) by (auto simp: sees_def)
qed

end

interpretation bit_value: bit_codec output_bit "\<lambda>p. Some (parse_bit p)" "\<lambda>b. [b]" "\<lambda>_. True"
  by unfold_locales (simp_all add: output_bit_ok parse_bit_ok)

interpretation byte_value: bit_codec output_byte "\<lambda>p. Some (parse_byte p)" "nbits 8" "\<lambda>_. True"
  by unfold_locales (simp_all add: output_byte_ok parse_byte_ok)

interpretation bits_value: bit_codec "\<lambda>x. output_bits x n" "\<lambda>p. Some (parse_bits n p)" "nbits n"
    "\<lambda>x. take_bit n x = x \<and> n \<le> 24" for n
  by unfold_locales (simp_all add: output_bits_ok parse_bits_ok)

interpretation integer_value: bit_codec output_integer parse_integer integer_bits "\<lambda>x. \<bar>x\<bar> < 2 ^ 31"
  by unfold_locales (simp_all add: output_integer_ok parse_integer_ok)

subsection \<open>Properties\<close>

text \<open>C24: The reader gets an unsigned integer that the writer wrote exactly if it is less than
  \<open>2 ^ 31\<close>; from there on the shift of the reader, one of an \<open>int\<close>, is undefined, although the
  type of the result (and of a short form device identifier) is wider.\<close>
theorem parse_uint_exact:
  assumes "sees p (bytes_bits (uint_bytes x))"
  shows "parse_uint p = (if unat x < 2 ^ 31 then Some (skip_bits (8 * length (uint_bytes x)) p, x) else None)"
proof (cases "unat x < 2 ^ 31")
  case True
  then show ?thesis using parse_uint_ok [OF assms] by simp
next
  case False
  then show ?thesis using parse_uint_loop_big [OF assms, of 0 0] by (simp add: parse_uint_def)
qed

text \<open>The short form identifier 167261211391 of the device of the standard's example.\<close>

definition sfdi_reader :: bit_in where
  "sfdi_reader = \<lparr>i_data = uint_bytes 167261211391, i_ptr = 0, i_bit = 0, i_truncated = False\<rparr>"

lemma holds_bytes: "holds_bits (as @ bs) (8 * length as) (bytes_bits bs)"
proof (induction bs arbitrary: as)
  case (Cons b bs)
  have "holds_bits (as @ b # bs) (8 * length as) (nbits 8 b)"
    by (simp add: holds_bits_def sbit_def)
  moreover have "holds_bits (as @ b # bs) (8 * length as + 8) (bytes_bits bs)"
    using Cons.IH [of "as @ [b]"] by (simp add: add.commute)
  ultimately show ?case by (simp add: holds_bits_append)
qed (simp add: holds_bits_def)

lemma sees_bytes_at_start:
  "sees \<lparr>i_data = bs, i_ptr = 0, i_bit = 0, i_truncated = False\<rparr> (bytes_bits bs)"
  using holds_bytes [of "[]" bs] by (simp add: sees_def in_ok_def i_pos_def)

lemma parse_uint_exact_witness: "parse_uint sfdi_reader = None"
  unfolding sfdi_reader_def using parse_uint_exact [OF sees_bytes_at_start, of 167261211391] by simp

text \<open>C23: Integers below \<open>2 ^ 31\<close> in absolute value that are written one after the other at any bit
  position of a cleared buffer are read back, in order, from there, and the reader stands at the
  position of the writer.\<close>
theorem integers_round_trip:
  fixes w :: "'w bit_out_scheme" and p :: "'r bit_in_scheme"
  assumes "\<forall>x \<in> set xs. \<bar>x\<bar> < 2 ^ 31" "out_ok w" "room w (length (concat (map integer_bits xs)))"
    and "in_ok p" "i_pos p = x_pos w"
  shows "\<exists>v. write_all output_integer xs w = Some v \<and>
    (\<exists>q. read_all parse_integer (length xs) (p\<lparr>i_data := x_buffer v\<rparr>) = Some (q, xs) \<and> i_pos q = x_pos v)"
proof -
  have xs: "list_all (\<lambda>x. \<bar>x\<bar> < 2 ^ 31) xs" using assms(1) by (simp add: list_all_iff)
  obtain v where v: "write_all output_integer xs w = Some v" "wrote w (concat (map integer_bits xs)) v"
    using integer_value.write_all_wrote [OF xs assms(2,3)] by blast
  let ?p = "p\<lparr>i_data := x_buffer v\<rparr>"
  have p: "i_pos ?p = x_pos w" "in_ok ?p" using assms(4,5) by (simp_all add: in_ok_def i_pos_def)
  then have "read_all parse_integer (length xs) ?p = Some (skip_bits (length (concat (map integer_bits xs))) ?p, xs)"
    by (intro integer_value.round_trip [OF xs assms(2,3) _ _ _ v(1)]) simp_all
  moreover have "i_pos (skip_bits (length (concat (map integer_bits xs))) ?p) = x_pos v"
    using v(2) p(1) by (simp add: wrote_def)
  ultimately show ?thesis using v(1) by blast
qed

lemma integers_round_trip_witness:
  "\<exists>v q. write_all output_integer [-5, 300] \<lparr>x_buffer = replicate 8 0, x_ptr = 0, x_bit = 3\<rparr> = Some v \<and>
    read_all parse_integer 2 \<lparr>i_data = x_buffer v, i_ptr = 0, i_bit = 3, i_truncated = False\<rparr> = Some (q, [-5, 300])"
proof -
  have e: "length (concat (map integer_bits [-5, 300])) = 26"
    by (simp add: integer_bits_def uint_bytes.simps)
  have "out_ok (\<lparr>x_buffer = replicate 8 0, x_ptr = 0, x_bit = 3\<rparr> :: bit_out)"
    by (auto simp: out_ok_def sbit_def)
  moreover have "room (\<lparr>x_buffer = replicate 8 0, x_ptr = 0, x_bit = 3\<rparr> :: bit_out) (length (concat (map integer_bits [-5, 300])))"
    unfolding e by (simp add: room_def x_pos_def)
  ultimately show ?thesis
    using integers_round_trip [of "[-5, 300]" "\<lparr>x_buffer = replicate 8 0, x_ptr = 0, x_bit = 3\<rparr>"
        "\<lparr>i_data = [], i_ptr = 0, i_bit = 3, i_truncated = False\<rparr>"]
    by (simp add: in_ok_def i_pos_def x_pos_def numeral_2_eq_2 del: write_all.simps read_all.simps) blast
qed

end
