(* ===== verification/Exi.thy ===== *)
theory Exi
  imports Exi_Bits Utf8 Schema "HOL-Library.Monad_Syntax"
begin

section \<open>EXI documents (core/string_table.c, core/exi_output.c, core/exi_parse.c)\<close>

text \<open>
  The string tables of a document, and the writing and reading of strings, values, events and of
  the header on top of the bit streams. A string is the list of its bytes without the terminator;
  a table holds pointers to strings that stay unchanged as long as the document is written or
  read, so the model keeps the strings. A name is the address of the name of an element, which
  is the number of the name in the schema. \<open>None\<close> is an access out of bounds or undefined
  behaviour; the Boolean of a result is the \<open>int\<close> that the function returns.
\<close>

unbundle bit_operations_syntax

subsection \<open>String tables\<close>

record string_table =
  t_name :: "int option"
  t_length :: nat
  t_strings :: "u8 list list"

primrec find_table :: "string_table list \<Rightarrow> int option \<Rightarrow> nat option" where
  "find_table [] name = None"
| "find_table (t # ts) name = (if t_name t = name then Some 0 else map_option Suc (find_table ts name))"

fun find_index :: "u8 list \<Rightarrow> u8 list list \<Rightarrow> nat option" where
  "find_index s [] = None"
| "find_index s (t # ts) = (if s = t then Some 0 else map_option Suc (find_index s ts))"

definition find_string :: "string_table \<Rightarrow> u8 list \<Rightarrow> nat option" where
  "find_string t s = find_index s (t_strings t)"

definition new_string_table :: "string_table list \<Rightarrow> int option \<Rightarrow> nat \<Rightarrow> string_table list" where
  "new_string_table ts name n = \<lparr>t_name = name, t_length = n, t_strings = []\<rparr> # ts"

text \<open>The table that \<open>t\<close> points to is number \<open>k\<close> of the list.\<close>

definition add_to_table :: "string_table \<Rightarrow> u8 list \<Rightarrow> string_table option" where
  "add_to_table t s =
     (let t = (if length (t_strings t) = t_length t then t\<lparr>t_length := 2 * t_length t\<rparr> else t) in
      if length (t_strings t) < t_length t then Some (t\<lparr>t_strings := t_strings t @ [s]\<rparr>) else None)"

definition add_string :: "string_table list \<Rightarrow> nat \<Rightarrow> u8 list \<Rightarrow> string_table list option" where
  "add_string ts k s = (if k < length ts then map_option (\<lambda>t. ts[k := t]) (add_to_table (ts ! k) s) else None)"

subsection \<open>The writer\<close>

record exi_out = bit_out +
  x_schema :: schema
  x_se :: int
  x_flag :: nat
  x_n :: int
  x_code :: int
  x_global :: "string_table list"
  x_local :: "string_table list"

text \<open>The number of the name of element \<open>i\<close>.\<close>

definition se_name_index :: "int \<Rightarrow> schema \<Rightarrow> int option" where
  "se_name_index i sc =
     (if i < schema_length sc then Some i
      else let i = i - schema_length sc in if i < int (length (ids sc)) then Some (ids sc ! nat i) else None)"

fun literal_chars :: "nat \<Rightarrow> u32 \<Rightarrow> u8 list \<Rightarrow> 'a bit_out_scheme \<Rightarrow> 'a bit_out_scheme option" where
  "literal_chars 0 c s w = None"
| "literal_chars (Suc k) c [] w = None"
| "literal_chars (Suc k) c (b # s) w =
     (if b = 0 then Some w
      else do { (c, next) \<leftarrow> utf8_char c (b # s);
                case next of None \<Rightarrow> Some w
                | Some s \<Rightarrow> do { w \<leftarrow> output_uint (scast c) w; literal_chars k c s w } })"

definition exi_output_literal :: "u8 list \<Rightarrow> 'a bit_out_scheme \<Rightarrow> 'a bit_out_scheme option" where
  "exi_output_literal s w =
     do { n \<leftarrow> utf8_length (s @ [0]); w \<leftarrow> output_uint (word_of_nat (n + 2)) w;
          literal_chars (Suc (length s)) 0 (s @ [0]) w }"

definition output_compact_id :: "nat \<Rightarrow> nat \<Rightarrow> string_table \<Rightarrow> 'a bit_out_scheme \<Rightarrow> 'a bit_out_scheme option" where
  "output_compact_id part i t w =
     do { w \<leftarrow> output_uint (word_of_nat part) w;
          let bits = bit_count (word_of_nat (length (t_strings t) - 1));
          if bits \<noteq> 0 then output_bits (word_of_nat i) bits w else Some w }"

definition exi_output_string :: "u8 list \<Rightarrow> 'a exi_out_scheme \<Rightarrow> 'a exi_out_scheme option" where
  "exi_output_string s w =
     do { name \<leftarrow> se_name_index (x_se w) (x_schema w);
          let k = find_table (x_local w) (Some name);
          let ts = (if k = None then new_string_table (x_local w) (Some name) 8 else x_local w);
          let j = (case k of None \<Rightarrow> 0 | Some k \<Rightarrow> k);
          (case find_string (ts ! j) s of
            Some i \<Rightarrow> output_compact_id 0 i (ts ! j) w
          | None \<Rightarrow> do {
              l \<leftarrow> add_string ts j s;
              let w = w\<lparr>x_local := l\<rparr>;
              (case find_string (hd (x_global w)) s of
                Some i \<Rightarrow> output_compact_id 1 i (hd (x_global w)) w
              | None \<Rightarrow> do { g \<leftarrow> add_string (x_global w) 0 s; exi_output_literal s (w\<lparr>x_global := g\<rparr>) }) }) }"

text \<open>The value that a pointer points to, in the representation of its type.\<close>

datatype exi_value = Text "u8 list" | Uri_Text "u8 list" | Flags u32 | Bytes "u8 list" | Number int

definition x_left :: "'a bit_out_scheme \<Rightarrow> int" where
  "x_left w = int (length (x_buffer w)) - int (x_ptr w)"

primrec output_bytes :: "u8 list \<Rightarrow> 'a bit_out_scheme \<Rightarrow> 'a bit_out_scheme option" where
  "output_bytes [] w = Some w"
| "output_bytes (b # bs) w = Option.bind (output_byte b w) (output_bytes bs)"

fun strip_zeros :: "u8 list \<Rightarrow> u8 list" where
  "strip_zeros (b # c # bs) = (if b = 0 then strip_zeros (c # bs) else b # c # bs)"
| "strip_zeros bs = bs"

definition output_binary :: "u8 list \<Rightarrow> 'a bit_out_scheme \<Rightarrow> (bool \<times> 'a bit_out_scheme) option" where
  "output_binary b w =
     (let b = strip_zeros b in
      do { w \<leftarrow> output_uint (word_of_nat (length b)) w;
           if x_left w < int (length b) + 1 then Some (False, w) else map_option (Pair True) (output_bytes b w) })"

definition exi_output_value :: "exi_value \<Rightarrow> 'a exi_out_scheme \<Rightarrow> (bool \<times> 'a exi_out_scheme) option" where
  "exi_output_value v w =
     do { se \<leftarrow> element (x_schema w) (x_se w);
          let t = xs_base (se_index se);
          if x_left w < 10 then Some (False, w)
          else case v of
            Text s \<Rightarrow> if t = XS_STRING then map_option (Pair True) (exi_output_string s w) else None
          | Uri_Text s \<Rightarrow> if t = XS_ANY_URI then map_option (Pair True) (exi_output_string s w) else None
          | Flags f \<Rightarrow> if t = XS_BOOLEAN then map_option (Pair True) (output_bit (bit f (x_flag w)) w) else None
          | Bytes b \<Rightarrow> if t = XS_HEX_BINARY \<and> int (length b) = xs_length (se_index se) then output_binary b w else None
          | Number x \<Rightarrow>
              if t = XS_LONG \<or> t = XS_INT \<or> t = XS_SHORT then map_option (Pair True) (output_integer x w)
              else if t = XS_BYTE then map_option (Pair True) (output_bits (word_of_int (x + 128)) 8 w)
              else if t = XS_ULONG \<or> t = XS_UINT \<or> t = XS_USHORT then map_option (Pair True) (output_uint (word_of_int x) w)
              else if t = XS_UBYTE then map_option (Pair True) (output_bits (word_of_int x) 8 w)
              else None }"

definition exi_output_simple :: "exi_value \<Rightarrow> 'a exi_out_scheme \<Rightarrow> (bool \<times> 'a exi_out_scheme) option" where
  "exi_output_simple v w =
     (if v = Text [] \<or> v = Uri_Text [] then map_option (Pair True) (output_bits 0x4 3 w)
      else Option.bind (output_bit False w) (exi_output_value v))"

definition exi_output_event :: "bool \<Rightarrow> 'a exi_out_scheme \<Rightarrow> (bool \<times> 'a exi_out_scheme) option" where
  "exi_output_event ee w =
     (if x_left w \<ge> 3 then
        let bits = (if ee \<and> x_n w = 0 then 1 else bit_count (word_of_int (x_n w))) in
        do { w \<leftarrow> output_bits (word_of_int (x_code w)) bits w; Some (True, w\<lparr>x_n := 0, x_code := 0\<rparr>) }
      else Some (False, w))"

definition exi_output_header :: "'a exi_out_scheme \<Rightarrow> 'a exi_out_scheme option" where
  "exi_output_header w =
     do { let w = w\<lparr>x_buffer := replicate (length (x_buffer w)) 0\<rparr>;
          w \<leftarrow> output_byte 0xa0 w;
          w \<leftarrow> output_bits 0xc 6 w;
          w \<leftarrow> exi_output_literal (map (\<lambda>c. of_char c) (schemaId (x_schema w))) w;
          output_bits 1 1 w }"

definition exi_output_init :: "schema \<Rightarrow> u8 list \<Rightarrow> exi_out option" where
  "exi_output_init sc buffer =
     map_option (\<lambda>w. w\<lparr>x_global := new_string_table [] None 32\<rparr>)
       (exi_output_header \<lparr>x_buffer = buffer, x_ptr = 0, x_bit = 0, x_schema = sc, x_se = 0, x_flag = 0,
          x_n = 0, x_code = 0, x_global = [], x_local = []\<rparr>)"

subsection \<open>The reader\<close>

text \<open>The states of a parser from \<open>parse.c\<close> that the driver sets.\<close>

datatype parser_state = PARSE_START | PARSE_ELEMENT | PARSE_NEXT | PARSE_ATTRIBUTE | PARSE_VALUE | PARSE_END
  | PARSE_SEQUENCE | SEQUENCE_END | PARSE_INVALID

record exi_in = bit_in +
  p_schema :: schema
  p_se :: int
  p_type :: int
  p_state :: parser_state
  p_token :: int
  p_flag :: nat
  p_need_token :: bool
  p_global :: "string_table list"
  p_local :: "string_table list"

definition invalid :: "'a exi_in_scheme \<Rightarrow> 'a exi_in_scheme" where
  "invalid p = p\<lparr>p_state := PARSE_INVALID\<rparr>"

text \<open>
  \<open>parse_literal\<close> writes the bytes of \<open>n\<close> code points; the caller says how many bytes, with the
  terminator, the string at \<open>s\<close> has room for. \<open>utf8_encode\<close> does not write a code point above
  \<open>0x1ffff\<close> but returns NULL, which is written to next.
\<close>

primrec literal_bytes :: "nat \<Rightarrow> 'a bit_in_scheme \<Rightarrow> ('a bit_in_scheme \<times> u8 list) option" where
  "literal_bytes 0 p = Some (p, [])"
| "literal_bytes (Suc n) p =
     do { (p, c) \<leftarrow> parse_uint p; b \<leftarrow> utf8_encode (ucast c); (p, bs) \<leftarrow> literal_bytes n p; Some (p, b @ bs) }"

definition parse_literal :: "nat \<Rightarrow> nat \<Rightarrow> 'a bit_in_scheme \<Rightarrow> ('a bit_in_scheme \<times> u8 list) option" where
  "parse_literal capacity n p =
     do { (p, bs) \<leftarrow> literal_bytes n p; if length bs < capacity then Some (p, takeWhile (\<lambda>b. b \<noteq> 0) bs) else None }"

definition parse_binary :: "u8 list \<Rightarrow> 'a exi_in_scheme \<Rightarrow> ('a exi_in_scheme \<times> u8 list option) option" where
  "parse_binary old p =
     do { (p, m) \<leftarrow> parse_uint p;
          let n = length old;
          let m = unat m;
          if i_truncated p then Some (p, None)
          else if m > n then Some (invalid p, None)
          else if lacks p (if i_bit p \<noteq> 0 then m + 1 else m) then Some (p\<lparr>i_truncated := True\<rparr>, None)
          else do { (p, bs) \<leftarrow> read_all (\<lambda>p. Some (parse_byte p)) m p; Some (p, Some (take (n - m) old @ bs)) } }"

definition parse_compact_id :: "string_table option \<Rightarrow> nat \<Rightarrow> 'a exi_in_scheme \<Rightarrow> 'a exi_in_scheme \<times> u8 list option" where
  "parse_compact_id t n p =
     (case t of
        None \<Rightarrow> (invalid p, None)
      | Some t \<Rightarrow>
          if t_strings t = [] then (invalid p, None)
          else let (p, i) = parse_bits (bit_count (word_of_nat (length (t_strings t) - 1))) p in
            if i_truncated p then (p, None)
            else if unat i < length (t_strings t) \<and> (n \<noteq> 0 \<longrightarrow> length (t_strings t ! unat i) + 1 \<le> n)
              then (p, Some (t_strings t ! unat i))
            else (invalid p, None))"

text \<open>One code point: the number of its groups and the last of them, or \<open>None\<close> if there are more than three.\<close>

function char_groups :: "nat \<Rightarrow> 'a bit_in_scheme \<Rightarrow> 'a bit_in_scheme \<times> (nat \<times> u8) option" where
  "char_groups m p =
     (let (p, b) = parse_byte p in
      if b AND 0x80 \<noteq> 0 then (if Suc m > 3 then (p, None) else char_groups (Suc m) p) else (p, Some (m, b)))"
  by pat_completeness auto
termination by (relation "measure (\<lambda>(m, p). 3 - m)") auto

declare char_groups.simps [simp del]

definition char_length :: "nat \<Rightarrow> u8 \<Rightarrow> nat" where
  "char_length m b =
     (if m = 2 then (if b AND 0x70 \<noteq> 0 then m + 1 else m) else if m = 3 then (if b AND 0x7c \<noteq> 0 then m + 1 else m) else m)"

primrec utf8_length_from :: "nat \<Rightarrow> nat \<Rightarrow> 'a exi_in_scheme \<Rightarrow> 'a exi_in_scheme \<times> nat option" where
  "utf8_length_from l 0 p = (p, Some l)"
| "utf8_length_from l (Suc n) p =
     (case char_groups 1 p of
        (p, None) \<Rightarrow> (invalid p, None)
      | (p, Some (m, b)) \<Rightarrow> if i_truncated p then (p, None) else utf8_length_from (l + char_length m b) n p)"

definition exi_utf8_length :: "nat \<Rightarrow> 'a exi_in_scheme \<Rightarrow> 'a exi_in_scheme \<times> nat option" where
  "exi_utf8_length n p =
     (case utf8_length_from 0 n p of (q, None) \<Rightarrow> (q, None) | (q, Some l) \<Rightarrow> (q\<lparr>i_ptr := i_ptr p\<rparr>, Some l))"

definition exi_parse_string :: "nat \<Rightarrow> 'a exi_in_scheme \<Rightarrow> ('a exi_in_scheme \<times> u8 list option) option" where
  "exi_parse_string n p =
     do { name \<leftarrow> se_name_index (p_se p) (p_schema p);
          let ptr = i_ptr p;
          (p, m) \<leftarrow> parse_uint p;
          let m = unat m;
          if i_truncated p then Some (p, None)
          else if m = 0 then Some (parse_compact_id (map_option ((!) (p_local p)) (find_table (p_local p) (Some name))) n p)
          else if m = 1 then Some (parse_compact_id (Some (hd (p_global p))) n p)
          else case exi_utf8_length (m - 2) p of
            (p, None) \<Rightarrow> Some (p\<lparr>i_ptr := ptr\<rparr>, None)
          | (p, Some l) \<Rightarrow>
              if n \<noteq> 0 \<and> l \<ge> n then Some (invalid p, None)
              else do {
                (p, s) \<leftarrow> parse_literal (if n \<noteq> 0 then n else l + 1) l p;
                let k = find_table (p_local p) (Some name);
                let ts = (if k = None then new_string_table (p_local p) (Some name) 8 else p_local p);
                let j = (case k of None \<Rightarrow> 0 | Some k \<Rightarrow> k);
                l \<leftarrow> add_string ts j s;
                g \<leftarrow> add_string (p_global p) 0 s;
                Some (p\<lparr>p_local := l, p_global := g\<rparr>, Some s) } }"

text \<open>\<open>old\<close> is what the object holds before: its flags, or its (zero) bytes.\<close>

definition read_number :: "int \<Rightarrow> ('a exi_in_scheme \<times> int) \<Rightarrow> 'a exi_in_scheme \<times> exi_value option" where
  "read_number v r = (fst r, if i_truncated (fst r) then None else Some (Number v))"

definition exi_parse_value :: "exi_value \<Rightarrow> 'a exi_in_scheme \<Rightarrow> ('a exi_in_scheme \<times> exi_value option) option" where
  "exi_parse_value old p =
     do { se \<leftarrow> element (p_schema p) (p_se p);
          let t = xs_base (se_index se);
          let n = xs_length (se_index se);
          if t = XS_STRING then map_option (map_prod id (map_option Text)) (exi_parse_string (nat n) p)
          else if t = XS_ANY_URI then map_option (map_prod id (map_option Uri_Text)) (exi_parse_string 0 p)
          else if t = XS_BOOLEAN then
            (case old of Flags f \<Rightarrow>
               (let (p, b) = parse_bit p in
                Some (p, if i_truncated p then None else Some (Flags (if b then f OR push_bit (p_flag p) 1 else f))))
             | _ \<Rightarrow> None)
          else if t = XS_HEX_BINARY then
            (case old of Bytes b \<Rightarrow> map_option (map_prod id (map_option Bytes)) (parse_binary b p) | _ \<Rightarrow> None)
          else if t = XS_LONG then map_option (\<lambda>r. read_number (snd r) r) (parse_integer p)
          else if t = XS_INT then map_option (\<lambda>r. read_number (sint (word_of_int (snd r) :: u32)) r) (parse_integer p)
          else if t = XS_SHORT then map_option (\<lambda>r. read_number (sint (word_of_int (snd r) :: u16)) r) (parse_integer p)
          else if t = XS_BYTE then
            (let (p, b) = parse_bits 8 p in Some (read_number (sint (ucast b - 128 :: u8)) (p, 0)))
          else if t = XS_ULONG then map_option (\<lambda>(p, x). read_number (uint x) (p, 0)) (parse_uint p)
          else if t = XS_UINT then map_option (\<lambda>(p, x). read_number (uint (ucast x :: u32)) (p, 0)) (parse_uint p)
          else if t = XS_USHORT then map_option (\<lambda>(p, x). read_number (uint (ucast x :: u16)) (p, 0)) (parse_uint p)
          else if t = XS_UBYTE then (let (p, b) = parse_bits 8 p in Some (read_number (uint (ucast b :: u8)) (p, 0)))
          else Some (p, if i_truncated p then None else Some old) }"

text \<open>
  \<open>schemaId\<close> has 64 bytes. A length of 1 makes \<open>n - 2\<close> negative, and \<open>parse_literal\<close> then counts
  down through all negative numbers, writing behind the array.
\<close>

definition exi_parse_header :: "'a exi_in_scheme \<Rightarrow> ('a exi_in_scheme \<times> bool) option" where
  "exi_parse_header p =
     (let p = (if map (byte_at (i_data p)) [i_ptr p ..< i_ptr p + 4] = [0x24, 0x45, 0x58, 0x49]
               then p\<lparr>i_ptr := i_ptr p + 4\<rparr> else p)
      in if lacks p 5 then Some (p\<lparr>i_truncated := True\<rparr>, False)
         else let c = byte_at (i_data p) (i_ptr p); p = p\<lparr>i_ptr := Suc (i_ptr p)\<rparr> in
           if c = 0xa0 then
             let (p, x) = parse_bits 6 p in
             do { (p, n) \<leftarrow> parse_uint p;
                  let n = unat n;
                  if n \<noteq> 0 \<and> n < 64 then
                    do { (p, s) \<leftarrow> (if n = 1 then None else parse_literal 64 (n - 2) p);
                         if x = 0xc \<and> s = map (\<lambda>c. of_char c) (schemaId (p_schema p)) then Some (parse_bit p)
                         else Some (invalid p, False) }
                  else Some (invalid p, False) }
           else Some (invalid p, False))"

definition exi_parse_start :: "'a exi_in_scheme \<Rightarrow> ('a exi_in_scheme \<times> bool) option" where
  "exi_parse_start p =
     do { (p, r) \<leftarrow> exi_parse_header p;
          if \<not> r then Some (p, False)
          else let (p, t) = parse_bits (bit_count (word_of_int (schema_length (p_schema p)))) p;
                   p = p\<lparr>p_type := int (unat t)\<rparr> in
            if p_type p < schema_length (p_schema p) then Some (p\<lparr>p_se := p_type p, p_need_token := True\<rparr>, True)
            else Some (invalid p, False) }"

definition exi_parse_simple :: "exi_value \<Rightarrow> 'a exi_in_scheme \<Rightarrow> ('a exi_in_scheme \<times> exi_value option \<times> bool) option" where
  "exi_parse_simple old p =
     (let (p, ee) = parse_bit p in
      if ee then
        let (p, b) = parse_bits 3 p in
        if b \<noteq> 0 then Some (invalid p, None, False) else Some (p\<lparr>p_need_token := False\<rparr>, None, True)
      else map_option (\<lambda>(p, v). (p, v, v \<noteq> None)) (exi_parse_value old p))"

definition exi_event :: "int \<Rightarrow> 'a exi_in_scheme \<Rightarrow> 'a exi_in_scheme \<times> bool" where
  "exi_event n p =
     (let (p, t) = parse_bits (bit_count (word_of_int n)) p; p = p\<lparr>p_token := int (unat t)\<rparr> in
      if i_truncated p then (p, False) else if p_token p \<ge> n then (invalid p, False) else (p, True))"

definition exi_parse_next :: "'a exi_in_scheme \<Rightarrow> ('a exi_in_scheme \<times> bool) option" where
  "exi_parse_next p =
     do { se \<leftarrow> element (p_schema p) (p_se p);
          if se_n se \<noteq> 0 then
            let (p, r) = (if p_need_token p then exi_event (if se_min se \<noteq> 0 then 1 else se_n se) p else (p, True)) in
            if \<not> r then Some (p, False)
            else do { let i = p_se p + p_token p;
                      se \<leftarrow> element (p_schema p) i;
                      Some (p\<lparr>p_need_token := se_n se \<noteq> 0, p_state := (if se_n se \<noteq> 0 then PARSE_ELEMENT else PARSE_END),
                        p_se := i\<rparr>, True) }
          else Some (p\<lparr>p_state := PARSE_END\<rparr>, True) }"

definition exi_parse_end :: "'a exi_in_scheme \<Rightarrow> 'a exi_in_scheme \<times> bool" where
  "exi_parse_end p =
     (if p_need_token p then let (p, b) = parse_bit p in if b then (invalid p, False) else (p, True)
      else (p\<lparr>p_need_token := True\<rparr>, True))"

text \<open>\<open>p->state++\<close> leads from \<open>PARSE_SEQUENCE\<close>, where the driver is called, to \<open>SEQUENCE_END\<close>.\<close>

definition exi_parse_sequence :: "schema_element \<Rightarrow> int \<Rightarrow> 'a exi_in_scheme \<Rightarrow> 'a exi_in_scheme \<times> bool" where
  "exi_parse_sequence se cnt p =
     (let (p, r) = exi_event (if cnt \<ge> se_min se then se_n se else 1) p in
      if r then
        if p_token p \<noteq> 0 then (p\<lparr>p_need_token := False, p_token := p_token p - 1, p_state := SEQUENCE_END\<rparr>, False)
        else (p, True)
      else (p, False))"

definition exi_rebuffer :: "u8 list \<Rightarrow> 'a exi_in_scheme \<Rightarrow> 'a exi_in_scheme" where
  "exi_rebuffer d p = p\<lparr>i_data := d, i_ptr := 0, i_truncated := False\<rparr>"

definition exi_parse_init :: "schema \<Rightarrow> u8 list \<Rightarrow> exi_in" where
  "exi_parse_init sc d =
     \<lparr>i_data = d, i_ptr = 0, i_bit = 0, i_truncated = False, p_schema = sc, p_se = 0, p_type = 0, p_state = PARSE_START,
      p_token = 0, p_flag = 0, p_need_token = False, p_global = new_string_table [] None 32, p_local = []\<rparr>"

subsection \<open>ASCII strings\<close>

definition ascii :: "u8 list \<Rightarrow> bool" where
  "ascii s \<longleftrightarrow> (\<forall>b \<in> set s. b \<noteq> 0 \<and> b < 128)"

lemma ascii_Cons [simp]: "ascii (b # s) \<longleftrightarrow> b \<noteq> 0 \<and> b < 128 \<and> ascii s" "ascii []"
  by (auto simp: ascii_def)

lemma ascii_no_flag: "b < 128 \<Longrightarrow> b AND 0x80 = (0 :: u8)"
proof (rule bit_word_eqI)
  fix i assume b: "b < 128" and "i < LENGTH(8)"
  have "\<not> bit b 7"
  proof
    assume "bit b 7"
    then have "7 < (7 :: nat)" by (intro word_less_bits [of b 7]) (use b in \<open>simp_all add: word_less_nat_alt\<close>)
    then show False by simp
  qed
  then show "bit (b AND 0x80) i = bit 0 i" by (auto simp: bit_and_iff bit_80)
qed

lemma ascii_length: "ascii s \<Longrightarrow> utf8_length_loop n (s @ [0]) = Some (n + length s)"
  by (induction s arbitrary: n) (simp_all add: ascii_no_flag skip_def)

lemma ascii_uint_bytes:
  assumes "b < 128"
  shows "uint_bytes (ucast b) = [b]"
proof -
  have l: "unat b < 128" using assms by (simp add: word_less_nat_alt)
  have u: "unat (ucast b :: u64) = unat b" using l by (simp add: unsigned_ucast_eq take_bit_nat_eq_self)
  have "unat (drop_bit 7 (ucast b :: u64)) = 0" unfolding unat_shr7 u using l by simp
  then have z: "drop_bit 7 (ucast b :: u64) = 0" by (simp only: unat_eq_0)
  have "unat (ucast b AND 0x7f :: u64) = unat b" unfolding unat_and_7f u using l by simp
  then have "(ucast b AND 0x7f :: u64) = ucast b" using u by (simp add: word_unat_eq_iff)
  then have "ucast (ucast b AND 0x7f :: u64) = b" by (simp only:) (rule bit_word_eqI, simp add: bit_ucast_iff)
  with z show ?thesis by (simp add: uint_bytes.simps)
qed

lemma ascii_char: "b \<noteq> 0 \<Longrightarrow> b < 128 \<Longrightarrow> utf8_char c (b # s) = Some (ucast b, Some s)"
  by (simp add: utf8_char_def)

lemma scast_byte: "scast (ucast (b :: u8) :: u32) = (ucast b :: u64)"
proof (rule bit_word_eqI)
  fix i assume i: "i < LENGTH(64)"
  have "\<not> bit b i" if "8 \<le> i" for i using that bit_imp_le_length [of b i] by auto
  then show "bit (scast (ucast b :: u32) :: u64) i = bit (ucast b :: u64) i"
    using i by (cases "i < 31") (auto simp: bit_signed_iff bit_ucast_iff min_def)
qed

lemma literal_chars_ascii:
  "ascii s \<Longrightarrow> out_ok w \<Longrightarrow> room w (8 * length s) \<Longrightarrow>
   \<exists>v. literal_chars (Suc (length s)) c (s @ [0]) w = Some v \<and> wrote w (bytes_bits s) v"
proof (induction s arbitrary: c w)
  case Nil
  then show ?case by (simp add: wrote_Nil)
next
  case (Cons b s)
  have r: "room w (length (bytes_bits [b]) + 8 * length s)" using Cons.prems(3) by simp
  then have "room w 8" by (simp add: room_def)
  then obtain v where v: "output_uint (ucast b) w = Some v" "wrote w (bytes_bits [b]) v"
    using output_uint_ok [of w "ucast b"] Cons.prems by (auto simp: ascii_uint_bytes)
  have "out_ok v" "room v (8 * length s)" using v(2) wrote_room [OF v(2) r] by (simp_all add: wrote_def)
  then obtain u where u: "literal_chars (Suc (length s)) (ucast b) (s @ [0]) v = Some u" "wrote v (bytes_bits s) u"
    using Cons.IH [of v "ucast b"] Cons.prems by auto
  have "scast (ucast b :: u32) = (ucast b :: u64)" by (rule scast_byte)
  then show ?case using v(1) u(1) wrote_append [OF v(2) u(2)] Cons.prems(1) by (simp add: ascii_char)
qed

definition literal_bits :: "u8 list \<Rightarrow> bool list" where
  "literal_bits s = bytes_bits (uint_bytes (word_of_nat (length s + 2)) @ s)"

lemma output_literal_ok:
  assumes "ascii s" "out_ok w" "room w (length (literal_bits s))"
  shows "\<exists>v. exi_output_literal s w = Some v \<and> wrote w (literal_bits s) v"
proof -
  let ?n = "uint_bytes (word_of_nat (length s + 2))"
  have r: "room w (length (bytes_bits ?n) + 8 * length s)" using assms(3) by (simp add: literal_bits_def)
  then have "room w (8 * length ?n)" by (simp add: room_def)
  then obtain v where v: "output_uint (word_of_nat (length s + 2)) w = Some v" "wrote w (bytes_bits ?n) v"
    using output_uint_ok [OF assms(2)] by blast
  have "out_ok v" "room v (8 * length s)" using v(2) wrote_room [OF v(2) r] by (simp_all add: wrote_def)
  then obtain u where u: "literal_chars (Suc (length s)) 0 (s @ [0]) v = Some u" "wrote v (bytes_bits s) u"
    using literal_chars_ascii assms(1) by blast
  have "exi_output_literal s w = Some u"
    using v(1) u(1) assms(1) by (simp add: exi_output_literal_def utf8_length_def ascii_length)
  then show ?thesis using wrote_append [OF v(2) u(2)] by (auto simp: literal_bits_def)
qed

lemma literal_bytes_ascii:
  "ascii s \<Longrightarrow> sees p (bytes_bits s) \<Longrightarrow> literal_bytes (length s) p = Some (skip_bits (8 * length s) p, s)"
proof (induction s arbitrary: p)
  case Nil
  then show ?case by (simp add: sees_def in_ok_def skip_bits_def i_pos_def)
next
  case (Cons b s)
  have b: "b \<noteq> 0" "b < 128" "ascii s" using Cons.prems(1) by simp_all
  have s: "sees p (bytes_bits (uint_bytes (ucast b)))" "sees (skip_bits 8 p) (bytes_bits s)"
    using Cons.prems(2) b(2) by (simp_all add: ascii_uint_bytes sees_append)
  have "unat (ucast b :: u64) < 2 ^ 31"
    using b(2) by (simp add: unsigned_ucast_eq take_bit_nat_eq_self word_less_nat_alt)
  note p = parse_uint_ok [OF s(1) this]
  have "unat (ucast b :: u32) \<le> 0x7f" using b(2) by (simp add: unsigned_ucast_eq take_bit_nat_eq_self word_less_nat_alt)
  then have "(ucast b :: u32) \<le> 0x7f" by (simp add: word_le_nat_alt)
  moreover have "(ucast (ucast b :: u64) :: u32) = ucast b" "(ucast (ucast b :: u32) :: u8) = b"
    by (rule bit_word_eqI; auto simp: bit_ucast_iff dest: bit_imp_le_length)+
  ultimately have "utf8_encode (ucast (ucast b :: u64)) = Some [b]" by (simp add: utf8_encode_def)
  then show ?case using p Cons.IH [OF b(3) s(2)] b(2) by (simp add: ascii_uint_bytes skip_bits_add)
qed

lemma parse_literal_ascii:
  assumes "ascii s" "sees p (bytes_bits s)" "length s < c"
  shows "parse_literal c (length s) p = Some (skip_bits (8 * length s) p, s)"
proof -
  have "takeWhile (\<lambda>b. b \<noteq> 0) s = s" using assms(1) by (simp add: takeWhile_eq_all_conv ascii_def)
  then show ?thesis using literal_bytes_ascii [OF assms(1,2)] assms(3) by (simp add: parse_literal_def)
qed

lemma take_bit_word_less: "unat x < 2 ^ n \<Longrightarrow> take_bit n x = (x :: 'a :: len word)"
  by (rule bit_word_eqI) (auto simp: bit_take_bit_iff dest: word_less_bits)

subsection \<open>The header\<close>

definition header_bits :: "u8 list \<Rightarrow> bool list" where
  "header_bits s = nbits 8 (0xa0 :: u8) @ nbits 6 (0xc :: u32) @ literal_bits s @ nbits 1 (1 :: u32)"

abbreviation schema_id :: "schema \<Rightarrow> u8 list" where
  "schema_id sc \<equiv> map (\<lambda>c. of_char c) (schemaId sc)"

lemma wrote_next:
  assumes "wrote w as v" "room w (length as + length bs)" "\<And>w. out_ok w \<Longrightarrow> room w (length bs) \<Longrightarrow> \<exists>v. f w = Some v \<and> wrote w bs v"
  shows "\<exists>u. f v = Some u \<and> wrote w (as @ bs) u"
proof -
  have "out_ok v" "room v (length bs)" using assms(1) wrote_room [OF assms(1,2)] by (simp_all add: wrote_def)
  then obtain u where "f v = Some u" "wrote v bs u" using assms(3) by blast
  then show ?thesis using wrote_append [OF assms(1)] by blast
qed

lemma room_less: "room w n \<Longrightarrow> m \<le> n \<Longrightarrow> room w m"
  by (simp add: room_def)

lemma wrote_fields:
  assumes "wrote w bs v"
  shows "x_schema v = x_schema w" "x_se v = x_se w" "x_flag v = x_flag w" "x_n v = x_n w" "x_code v = x_code w"
    "x_global v = x_global w" "x_local v = x_local w"
  using assms by (cases v; cases w; simp add: wrote_def)+

lemma out_ok_clear: "x_buffer w = replicate n 0 \<Longrightarrow> x_bit w < 8 \<Longrightarrow> out_ok w"
proof -
  assume w: "x_buffer w = replicate n 0" "x_bit w < 8"
  have "\<not> sbit (replicate n 0) k" if "k < 8 * n" for k
  proof -
    have "k div 8 < n" using that by (simp add: div_less_iff_less_mult mult.commute)
    then show ?thesis by (simp add: sbit_def)
  qed
  with w show ?thesis by (simp add: out_ok_def)
qed

lemma output_header_ok:
  fixes w :: "'a exi_out_scheme"
  assumes "ascii (schema_id (x_schema w))" "x_ptr w = 0" "x_bit w = 0"
    "room w (length (header_bits (schema_id (x_schema w))))"
  shows "\<exists>v. exi_output_header w = Some v \<and> wrote (w\<lparr>x_buffer := replicate (length (x_buffer w)) 0\<rparr>) (header_bits (schema_id (x_schema w))) v"
proof -
  let ?w = "w\<lparr>x_buffer := replicate (length (x_buffer w)) 0\<rparr>" and ?s = "schema_id (x_schema w)"
  have ok: "out_ok ?w" by (rule out_ok_clear) (simp_all add: assms(3))
  have r: "room ?w (15 + length (literal_bits ?s))" using assms(4) by (simp add: room_def header_bits_def x_pos_def add_ac)
  obtain a where a: "output_byte 0xa0 ?w = Some a" "wrote ?w (nbits 8 (0xa0 :: u8)) a"
    using output_byte_ok [OF ok room_less [OF r]] by auto
  obtain b where b: "output_bits 0xc 6 a = Some b" "wrote ?w (nbits 8 (0xa0 :: u8) @ nbits 6 (0xc :: u32)) b"
    using wrote_next [where bs = "nbits 6 (0xc :: u32)" and f = "output_bits 0xc 6", OF a(2)] room_less [where m = 14, OF r]
      output_bits_ok [of _ 6 "0xc"] by auto
  obtain c where c: "exi_output_literal ?s b = Some c" "wrote ?w ((nbits 8 (0xa0 :: u8) @ nbits 6 (0xc :: u32)) @ literal_bits ?s) c"
    using wrote_next [where bs = "literal_bits ?s" and f = "exi_output_literal ?s", OF b(2)] room_less [where m = "14 + length (literal_bits ?s)", OF r]
      output_literal_ok [OF assms(1)] by auto
  obtain d where d: "output_bits 1 1 c = Some d" "wrote ?w (((nbits 8 (0xa0 :: u8) @ nbits 6 (0xc :: u32)) @ literal_bits ?s) @ nbits 1 (1 :: u32)) d"
    using wrote_next [where bs = "nbits 1 (1 :: u32)" and f = "output_bits 1 1", OF c(2)] r output_bits_ok [of _ 1 1] by (auto simp: add_ac)
  have "exi_output_header w = Some d"
    using a(1) b(1) c(1) d(1) wrote_fields(1) [OF b(2)] by (simp add: exi_output_header_def)
  then show ?thesis using d(2) by (simp add: header_bits_def)
qed

lemma skip_fields:
  "p_schema (skip_bits n p) = p_schema p" "p_se (skip_bits n p) = p_se p" "p_flag (skip_bits n p) = p_flag p"
  "p_global (skip_bits n p) = p_global p" "p_local (skip_bits n p) = p_local p" "p_state (skip_bits n p) = p_state p"
  by (simp_all add: skip_bits_def)

lemma unat_small_nat: "n < 2 ^ 32 \<Longrightarrow> unat (word_of_nat n :: u64) = n"
  by (simp add: unat_of_nat take_bit_nat_eq_self del: of_nat_add)

lemma nbits_6: "nbits 6 (0xc :: u32) = [False, False, True, True, False, False]"
  and nbits_1: "nbits 1 (1 :: u32) = [True]" "nbits (Suc 0) (1 :: u32) = [True]"
  by (simp_all add: nbits_def upt_rec)

lemma parse_header_ok:
  assumes "ascii (schema_id (p_schema p))" "length (schemaId (p_schema p)) < 62"
    "sees p (header_bits (schema_id (p_schema p)))" "i_pos p = 0" "5 \<le> length (i_data p)"
  shows "exi_parse_header p = Some (skip_bits (length (header_bits (schema_id (p_schema p)))) p, True)"
proof -
  let ?s = "schema_id (p_schema p)" and ?n = "word_of_nat (length (schemaId (p_schema p)) + 2) :: u64"
  have p0: "i_ptr p = 0" "i_bit p = 0" using assms(4) by (simp_all add: i_pos_def)
  have s: "sees p (nbits 8 (0xa0 :: u8))" "sees (skip_bits 8 p) (nbits 6 (0xc :: u32))"
      "sees (skip_bits 14 p) (bytes_bits (uint_bytes ?n))"
      "sees (skip_bits (14 + 8 * length (uint_bytes ?n)) p) (bytes_bits ?s)"
      "sees (skip_bits (14 + 8 * length (uint_bytes ?n) + 8 * length ?s) p) [True]"
    using assms(3) by (simp_all add: header_bits_def sees_append skip_bits_add literal_bits_def nbits_1 add_ac)
  have b: "parse_byte p = (skip_bits 8 p, 0xa0)" by (rule parse_byte_ok [OF s(1)])
  have nl: "\<not> lacks p 5" using assms(5) p0 by (simp add: lacks_def)
  have c: "byte_at (i_data p) 0 = 0xa0" and q: "p\<lparr>i_ptr := Suc 0\<rparr> = skip_bits 8 p"
    using b nl p0 by (auto simp: parse_byte_def lacks_def split: if_splits)
  have "parse_bits 6 (skip_bits 8 p) = (skip_bits 6 (skip_bits 8 p), 0xc)"
    by (rule parse_bits_ok [OF s(2)]) (simp_all add: take_bit_word_less)
  then have bits: "parse_bits 6 (skip_bits 8 p) = (skip_bits 14 p, 0xc)" by (simp add: skip_bits_add)
  have n: "unat ?n = length (schemaId (p_schema p)) + 2"
    using assms(2) by (intro unat_small_nat) simp
  have u: "parse_uint (skip_bits 14 p) = Some (skip_bits (14 + 8 * length (uint_bytes ?n)) p, ?n)"
    using parse_uint_ok [OF s(3)] n assms(2) by (simp add: skip_bits_add)
  have l: "parse_literal 64 (length ?s) (skip_bits (14 + 8 * length (uint_bytes ?n)) p) =
      Some (skip_bits (14 + 8 * length (uint_bytes ?n) + 8 * length ?s) p, ?s)"
    using parse_literal_ascii [OF assms(1) s(4), of 64] assms(2) by (simp add: skip_bits_add add_ac)
  have e: "parse_bit (skip_bits (14 + 8 * length (uint_bytes ?n) + 8 * length ?s) p) =
      (skip_bits (length (header_bits ?s)) p, True)"
    using parse_bit_ok [OF s(5)] by (simp add: skip_bits_add header_bits_def literal_bits_def nbits_1 add_ac)
  have cookie: "map (byte_at (i_data p)) [i_ptr p ..< i_ptr p + 4] \<noteq> [0x24, 0x45, 0x58, 0x49]"
    using c p0 by (simp add: upt_rec)
  show ?thesis
    unfolding exi_parse_header_def if_not_P [OF cookie] unfolding Let_def p0 c q
    using nl bits u l e n assms(2) by (simp add: skip_fields)
qed

lemma header_bits_length: "length s < 62 \<Longrightarrow> length (header_bits s) = 23 + 8 * length s"
proof -
  assume l: "length s < 62"
  have "unat (word_of_nat (length s + 2) :: u64) = length s + 2"
    using l by (intro unat_small_nat) simp
  then have "unat (drop_bit 7 (word_of_nat (length s + 2)) :: u64) = 0" unfolding unat_shr7 using l by simp
  then have "drop_bit 7 (word_of_nat (length s + 2)) = (0 :: u64)" by (simp only: unat_eq_0)
  then show ?thesis by (simp add: header_bits_def literal_bits_def uint_bytes.simps)
qed

lemma code_bits:
  assumes "0 \<le> code" "code < n" "n < 2 ^ 24"
  shows "take_bit (bit_count (word_of_int n)) (word_of_int code) = (word_of_int code :: u32)"
    "bit_count (word_of_int n) \<le> 24" "unat (word_of_int code :: u32) = nat code"
proof -
  have c: "unat (word_of_int code :: u32) = nat code" and n: "unat (word_of_int n :: u32) = nat n"
    using assms by (simp_all add: unsigned_of_int take_bit_int_eq_self)
  show "unat (word_of_int code :: u32) = nat code" by (rule c)
  have "nat n < 2 ^ bit_count (word_of_int n)" using bit_count_bounds [of "word_of_int n"] n by simp
  then have "unat (word_of_int code :: u32) < 2 ^ bit_count (word_of_int n)" using assms unfolding c by linarith
  then show "take_bit (bit_count (word_of_int n)) (word_of_int code) = (word_of_int code :: u32)" by (rule take_bit_word_less)
  have "unat (word_of_int n :: u32) < 2 ^ 24" using assms unfolding n by simp
  then show "bit_count (word_of_int n) \<le> 24" using bit_count_least by blast
qed

lemma wrote_start:
  assumes "wrote w bs v" "x_ptr w = 0" "x_bit w = 0" "room w (length bs)"
  shows "x_pos v = length bs" "holds_bits (x_buffer v) 0 bs"
  using assms(1-3) wrote_holds [OF assms(1,4)] by (simp_all add: wrote_def x_pos_def)

subsection \<open>Properties\<close>

text \<open>C22: A document starts the way it was written: for a schema with an ASCII identifier and a buffer
  with eight bytes more than it, the header and the code of the root element can be written, and
  the reader accepts the header, finds the element that was written, and stands where the writer
  stands.\<close>
theorem exi_start_round_trip:
  assumes "ascii (schema_id sc)" "length (schemaId sc) < 62" "0 \<le> type" "type < schema_length sc" "schema_length sc < 2 ^ 24"
    and "length (schemaId sc) + 8 \<le> length buffer"
  shows "\<exists>w v p. exi_output_init sc buffer = Some w \<and>
    exi_output_event False (w\<lparr>x_n := schema_length sc, x_code := type\<rparr>) = Some (True, v) \<and>
    exi_parse_start (exi_parse_init sc (x_buffer v)) = Some (p, True) \<and>
    p_se p = type \<and> p_type p = type \<and> p_need_token p \<and> i_pos p = x_pos v"
proof -
  let ?s = "schema_id sc" and ?bits = "bit_count (word_of_int (schema_length sc))"
  define w0 :: exi_out where "w0 = \<lparr>x_buffer = replicate (length buffer) 0, x_ptr = 0, x_bit = 0, x_schema = sc, x_se = 0, x_flag = 0,
          x_n = 0, x_code = 0, x_global = [], x_local = []\<rparr>"
  define w1 :: exi_out where "w1 = w0\<lparr>x_buffer := buffer\<rparr>"
  have cb: "take_bit ?bits (word_of_int type) = (word_of_int type :: u32)" "?bits \<le> 24" "unat (word_of_int type :: u32) = nat type"
    using code_bits [OF assms(3-5)] by auto
  have hl: "length (header_bits ?s) = 23 + 8 * length (schemaId sc)" using header_bits_length [of ?s] assms(2) by simp
  have w1: "x_schema w1 = sc" "x_ptr w1 = 0" "x_bit w1 = 0" "w1\<lparr>x_buffer := replicate (length (x_buffer w1)) 0\<rparr> = w0"
    by (simp_all add: w1_def w0_def)
  have r: "room w0 (length (header_bits ?s) + ?bits)" "room w1 (length (header_bits ?s))"
    using assms(6) cb(2) by (simp_all add: room_def x_pos_def w0_def w1_def hl)
  have "\<exists>h. exi_output_header w1 = Some h \<and> wrote w0 (header_bits ?s) h"
    using output_header_ok [of w1] assms(1) r(2) w1 by simp
  then obtain h where h: "exi_output_header w1 = Some h" "wrote w0 (header_bits ?s) h" by blast
  define w where "w = h\<lparr>x_global := new_string_table [] None 32\<rparr>"
  have init: "exi_output_init sc buffer = Some w"
    using h(1) by (simp add: exi_output_init_def w1_def w0_def w_def)
  let ?w = "w\<lparr>x_n := schema_length sc, x_code := type\<rparr>"
  have pos: "x_pos h = 23 + 8 * length (schemaId sc)" "length (x_buffer h) = length buffer" "out_ok h"
    using h(2) hl by (simp_all add: wrote_def x_pos_def w0_def)
  have wp: "x_pos ?w = x_pos h" "x_buffer ?w = x_buffer h" "x_ptr ?w = x_ptr h" "x_bit ?w = x_bit h"
    by (simp_all add: w_def x_pos_def)
  have okw: "out_ok ?w" "room ?w ?bits" "x_left ?w \<ge> 3"
    using pos wp cb(2) assms(6) by (simp_all add: out_ok_def room_def x_left_def x_pos_def)
  obtain v0 where v0: "output_bits (word_of_int type) ?bits ?w = Some v0" "wrote ?w (nbits ?bits (word_of_int type :: u32)) v0"
    using output_bits_ok [OF okw(1,2) cb(1)] by blast
  let ?v = "v0\<lparr>x_n := 0, x_code := 0\<rparr>"
  have ev: "exi_output_event False ?w = Some (True, ?v)"
    using okw(3) v0(1) by (simp add: exi_output_event_def)
  have "x_pos v0 = 23 + 8 * length (schemaId sc) + ?bits" "x_buffer ?v = x_buffer v0" "length (x_buffer v0) = length buffer"
    using v0(2) wp(1,2) pos by (simp_all add: wrote_def)
  note vp = this
  have "holds_bits (x_buffer v0) 0 (header_bits ?s @ nbits ?bits (word_of_int type :: u32))"
  proof -
    have "wrote w0 (header_bits ?s) (h\<lparr>x_global := x_global h\<rparr>)" using h(2) by simp
    have "sbit (x_buffer v0) k = header_bits ?s ! k" if "k < length (header_bits ?s)" for k
      using v0(2) wp(1,2) pos(1) h(2) that hl by (simp add: wrote_def w0_def x_pos_def)
    moreover have "sbit (x_buffer v0) (length (header_bits ?s) + i) = nbits ?bits (word_of_int type :: u32) ! i" if "i < ?bits" for i
      using v0(2) wp(1) pos(1) that hl by (simp add: wrote_def)
    moreover have "length (header_bits ?s) + ?bits \<le> 8 * length (x_buffer v0)"
      using vp(3) hl assms(6) cb(2) by simp
    ultimately show ?thesis unfolding holds_bits_append by (simp add: holds_bits_def)
  qed
  then have sees: "sees (exi_parse_init sc (x_buffer v0)) (header_bits ?s @ nbits ?bits (word_of_int type :: u32))"
    by (simp add: sees_def in_ok_def exi_parse_init_def i_pos_def)
  let ?p = "exi_parse_init sc (x_buffer v0)"
  have p: "p_schema ?p = sc" "i_pos ?p = 0" "i_data ?p = x_buffer v0" by (simp_all add: exi_parse_init_def i_pos_def)
  have hd: "exi_parse_header ?p = Some (skip_bits (length (header_bits ?s)) ?p, True)"
    using parse_header_ok [of ?p] sees assms(1,2,6) vp(3) p by (simp add: sees_append)
  have tb: "parse_bits ?bits (skip_bits (length (header_bits ?s)) ?p) =
      (skip_bits ?bits (skip_bits (length (header_bits ?s)) ?p), word_of_int type)"
    using sees cb by (intro parse_bits_ok) (simp_all add: sees_append)
  define q where "q = (skip_bits (length (header_bits ?s) + ?bits) ?p)\<lparr>p_type := type, p_se := type, p_need_token := True\<rparr>"
  have ui: "uint (word_of_int type :: u32) = type" using cb(3) assms(3) by (metis int_nat_eq of_nat_unat)
  have "exi_parse_start ?p = Some (q, True)"
    using hd tb ui assms(3,4) p(1) by (simp add: exi_parse_start_def skip_fields skip_bits_add Let_def q_def)
  moreover have "i_pos q = x_pos ?v"
    using p(2) vp(1) hl by (simp add: q_def i_pos_def x_pos_def skip_bits_def)
  ultimately show ?thesis using init ev vp(2)
    by (intro exI [of _ w] exI [of _ ?v] exI [of _ q]) (simp add: q_def)
qed

definition example_schema :: schema where
  "example_schema = \<lparr>namespace = ''urn'', schemaId = ''S1'', schema_length = 3,
     elements = [El 16 1 1 0 0 False True False, El 1 1 1 0 0 False True False, El 8 1 1 0 0 False True False],
     names = (\<lambda>i. ''e''), ids = []\<rparr>"

lemma exi_start_round_trip_witness:
  "\<exists>w v p. exi_output_init example_schema (replicate 10 7) = Some w \<and>
    exi_output_event False (w\<lparr>x_n := 3, x_code := 2\<rparr>) = Some (True, v) \<and>
    exi_parse_start (exi_parse_init example_schema (x_buffer v)) = Some (p, True) \<and> p_type p = 2"
  using exi_start_round_trip [of example_schema 2 "replicate 10 7"]
  by (auto simp: example_schema_def)

subsection \<open>Numbers\<close>

text \<open>The numbers that each type can hold and that the reader can read.\<close>

definition number_fits :: "int \<Rightarrow> int \<Rightarrow> bool" where
  "number_fits t x \<longleftrightarrow>
     (t = XS_LONG \<or> t = XS_INT) \<and> \<bar>x\<bar> < 2 ^ 31 \<or> t = XS_SHORT \<and> - (2 ^ 15) \<le> x \<and> x < 2 ^ 15 \<or>
     t = XS_BYTE \<and> - 128 \<le> x \<and> x < 128 \<or> (t = XS_ULONG \<or> t = XS_UINT) \<and> 0 \<le> x \<and> x < 2 ^ 31 \<or>
     t = XS_USHORT \<and> 0 \<le> x \<and> x < 2 ^ 16 \<or> t = XS_UBYTE \<and> 0 \<le> x \<and> x < 256"

lemma uint_bytes_length: "unat x < 2 ^ (7 * Suc k) \<Longrightarrow> length (uint_bytes x) \<le> Suc k"
proof (induction x arbitrary: k rule: uint_bytes.induct)
  case (1 x)
  show ?case
  proof (cases "drop_bit 7 x = 0")
    case False
    have h: "unat (drop_bit 7 x) \<noteq> 0" using False by (simp only: unat_eq_0 not_False_eq_True)
    obtain j where k: "k = Suc j"
    proof (cases k)
      case 0
      then have "unat (drop_bit 7 x) = 0" using 1(2) unfolding unat_shr7 by simp
      with h show thesis by simp
    qed
    have "unat (drop_bit 7 x) < 2 ^ (7 * Suc j)"
      using 1(2) unfolding unat_shr7 k by (simp add: div_less_iff_less_mult power_add)
    then show ?thesis using 1(1) [OF False] False k by (simp add: uint_bytes.simps [of x])
  qed (simp add: uint_bytes.simps [of x])
qed

lemma number_uint:
  assumes "0 \<le> x" "x < 2 ^ 31"
  shows "unat (word_of_int x :: u64) < 2 ^ 31" "uint (word_of_int x :: u64) = x" "length (uint_bytes (word_of_int x)) \<le> 5"
proof -
  show u: "uint (word_of_int x :: u64) = x" using assms by (simp add: uint_word_of_int)
  then show l: "unat (word_of_int x :: u64) < 2 ^ 31" using assms by (simp add: unat_eq_nat_uint nat_less_iff)
  then have "unat (word_of_int x :: u64) < 2 ^ (7 * Suc 4)" by simp
  then show "length (uint_bytes (word_of_int x)) \<le> 5" using uint_bytes_length [of "word_of_int x" 4] by simp
qed

lemma unat_small_int: "0 \<le> y \<Longrightarrow> y < 256 \<Longrightarrow> unat (word_of_int y :: u32) = nat y"
  by (simp add: unsigned_of_int take_bit_int_eq_self)

lemma left_room: "x_bit w < 8 \<Longrightarrow> 10 \<le> x_left w \<Longrightarrow> room w 73"
  by (simp add: x_left_def room_def x_pos_def)

lemma integer_bits_length: "\<bar>x\<bar> < 2 ^ 31 \<Longrightarrow> length (integer_bits x) \<le> 41"
  using number_uint(3) [of "\<bar>x\<bar>"] by (simp add: integer_bits_def)

lemma signed_back: "- (2 ^ 31) \<le> x \<Longrightarrow> x < 2 ^ 31 \<Longrightarrow> sint (word_of_int x :: u32) = x"
    "- (2 ^ 15) \<le> x \<Longrightarrow> x < 2 ^ 15 \<Longrightarrow> sint (word_of_int x :: u16) = x"
    "- 128 \<le> x \<Longrightarrow> x < 128 \<Longrightarrow> sint (word_of_int x :: u8) = x"
  by (simp_all add: signed_of_int signed_take_bit_int_eq_self)

text \<open>What was written can be seen by a reader at the position of the writer.\<close>

lemma wrote_sees:
  assumes "wrote w bs v" "room w (length bs)" "in_ok p" "i_pos p = x_pos w"
  shows "sees (p\<lparr>i_data := x_buffer v\<rparr>) bs" "i_pos (skip_bits (length bs) (p\<lparr>i_data := x_buffer v\<rparr>)) = x_pos v"
proof -
  have "i_pos (p\<lparr>i_data := x_buffer v\<rparr>) = x_pos w" using assms(4) by (simp add: i_pos_def)
  then show "sees (p\<lparr>i_data := x_buffer v\<rparr>) bs" "i_pos (skip_bits (length bs) (p\<lparr>i_data := x_buffer v\<rparr>)) = x_pos v"
    using wrote_holds [OF assms(1,2)] assms(1,3) by (simp_all add: sees_def in_ok_def wrote_def)
qed

lemma sees_ok: "sees p bs \<Longrightarrow> \<not> i_truncated p"
  by (simp add: sees_def in_ok_def)

text \<open>C21: With the ten free bytes that the writer asks for a number of every type is written, and the
  reader gets it back at the position of the writer, for the numbers of the type that are less than
  \<open>2 ^ 31\<close> in absolute value.\<close>
theorem exi_number_round_trip:
  assumes "element sc i = Some se" "number_fits (xs_base (se_index se)) x"
    and "x_schema w = sc" "x_se w = i" "out_ok w" "10 \<le> x_left w"
    and "p_schema p = sc" "p_se p = i" "in_ok p" "i_pos p = x_pos w"
  shows "\<exists>v q. exi_output_value (Number x) w = Some (True, v) \<and>
    exi_parse_value old (p\<lparr>i_data := x_buffer v\<rparr>) = Some (q, Some (Number x)) \<and> i_pos q = x_pos v"
proof -
  let ?t = "xs_base (se_index se)"
  have r: "room w n" if "n \<le> 41" for n
    using left_room [of w] assms(5,6) that by (auto simp: out_ok_def intro: room_less)
  have fin: ?thesis if "exi_output_value (Number x) w = Some (True, v)" "wrote w bs v" "length bs \<le> 41"
      "sees (p\<lparr>i_data := x_buffer v\<rparr>) bs \<Longrightarrow>
       exi_parse_value old (p\<lparr>i_data := x_buffer v\<rparr>) = Some (skip_bits (length bs) (p\<lparr>i_data := x_buffer v\<rparr>), Some (Number x))" for v bs
    using that wrote_sees [OF that(2) r [OF that(3)] assms(9,10)] by blast
  have "\<not> x_left w < 10" using assms(6) by simp
  note writer = assms(1,3,4) this exi_output_value_def and reader = assms(1,7,8) exi_parse_value_def read_number_def
  consider "?t = XS_LONG \<or> ?t = XS_INT \<or> ?t = XS_SHORT" "\<bar>x\<bar> < 2 ^ 31" "?t = XS_SHORT \<Longrightarrow> - (2 ^ 15) \<le> x \<and> x < 2 ^ 15"
    | "?t = XS_BYTE" "- 128 \<le> x" "x < 128"
    | "?t = XS_ULONG \<or> ?t = XS_UINT \<or> ?t = XS_USHORT" "0 \<le> x" "x < 2 ^ 31" "?t = XS_USHORT \<Longrightarrow> x < 2 ^ 16"
    | "?t = XS_UBYTE" "0 \<le> x" "x < 256"
    using assms(2) unfolding number_fits_def by (auto simp: xs_defs)
  then show ?thesis
  proof cases
    case 1
    obtain v where v: "output_integer x w = Some v" "wrote w (integer_bits x) v"
      using output_integer_ok [OF assms(5) r] integer_bits_length [OF 1(2)] by blast
    show ?thesis
    proof (rule fin [OF _ v(2) integer_bits_length [OF 1(2)]])
      show "exi_output_value (Number x) w = Some (True, v)" using 1(1) v(1) by (auto simp: writer xs_defs)
    next
      assume "sees (p\<lparr>i_data := x_buffer v\<rparr>) (integer_bits x)"
      from parse_integer_ok [OF this 1(2)] sees_ok [OF this]
      show "exi_parse_value old (p\<lparr>i_data := x_buffer v\<rparr>) =
          Some (skip_bits (length (integer_bits x)) (p\<lparr>i_data := x_buffer v\<rparr>), Some (Number x))"
        using 1 signed_back(1,2) [of x] by (auto simp: reader xs_defs)
    qed
  next
    case 2
    let ?b = "word_of_int (x + 128) :: u32"
    have u: "unat ?b = nat (x + 128)" using 2 by (intro unat_small_int) simp_all
    then have t: "take_bit 8 ?b = ?b" using 2 by (intro take_bit_word_less) simp
    obtain v where v: "output_bits ?b 8 w = Some v" "wrote w (nbits 8 ?b) v"
      using output_bits_ok [OF assms(5) r t] by auto
    show ?thesis
    proof (rule fin [OF _ v(2)])
      show "exi_output_value (Number x) w = Some (True, v)" using 2(1) v(1) by (simp add: writer xs_defs)
    next
      assume s: "sees (p\<lparr>i_data := x_buffer v\<rparr>) (nbits 8 ?b)"
      have "ucast ?b = (word_of_int (x + 128) :: u8)"
        by (rule bit_word_eqI) (simp add: bit_ucast_iff bit_word_of_int_iff del: of_int_add)
      then have "ucast ?b - 128 = (word_of_int x :: u8)" by simp
      then show "exi_parse_value old (p\<lparr>i_data := x_buffer v\<rparr>) =
          Some (skip_bits (length (nbits 8 ?b)) (p\<lparr>i_data := x_buffer v\<rparr>), Some (Number x))"
        using parse_bits_ok [OF s t] sees_ok [OF s] 2 signed_back(3) [of x] by (simp add: reader xs_defs)
    qed simp
  next
    case 3
    let ?y = "word_of_int x :: u64"
    note y = number_uint [OF 3(2,3)]
    have l: "length (bytes_bits (uint_bytes ?y)) \<le> 41" using y(3) by simp
    have "room w (8 * length (uint_bytes ?y))" by (rule r) (use y(3) in simp)
    then obtain v where v: "output_uint ?y w = Some v" "wrote w (bytes_bits (uint_bytes ?y)) v"
      using output_uint_ok [OF assms(5)] by blast
    show ?thesis
    proof (rule fin [OF _ v(2) l])
      show "exi_output_value (Number x) w = Some (True, v)" using 3(1) v(1) by (auto simp: writer xs_defs)
    next
      assume s: "sees (p\<lparr>i_data := x_buffer v\<rparr>) (bytes_bits (uint_bytes ?y))"
      have "uint (ucast ?y :: u32) = x" "?t = XS_USHORT \<Longrightarrow> uint (ucast ?y :: u16) = x"
        using y(2) 3 by (simp_all add: unsigned_ucast_eq take_bit_int_eq_self)
      then show "exi_parse_value old (p\<lparr>i_data := x_buffer v\<rparr>) =
          Some (skip_bits (length (bytes_bits (uint_bytes ?y))) (p\<lparr>i_data := x_buffer v\<rparr>), Some (Number x))"
        using parse_uint_ok [OF s y(1)] sees_ok [OF s] 3(1) y(2) by (auto simp: reader xs_defs)
    qed
  next
    case 4
    let ?b = "word_of_int x :: u32"
    have u: "unat ?b = nat x" "uint ?b = x" using 4 by (simp_all add: unsigned_of_int take_bit_int_eq_self)
    then have t: "take_bit 8 ?b = ?b" using 4 by (intro take_bit_word_less) simp
    obtain v where v: "output_bits ?b 8 w = Some v" "wrote w (nbits 8 ?b) v"
      using output_bits_ok [OF assms(5) r t] by auto
    show ?thesis
    proof (rule fin [OF _ v(2)])
      show "exi_output_value (Number x) w = Some (True, v)" using 4(1) v(1) by (simp add: writer xs_defs)
    next
      assume s: "sees (p\<lparr>i_data := x_buffer v\<rparr>) (nbits 8 ?b)"
      have "uint (ucast ?b :: u8) = x" using u(2) 4 by (simp add: unsigned_ucast_eq take_bit_int_eq_self)
      then show "exi_parse_value old (p\<lparr>i_data := x_buffer v\<rparr>) =
          Some (skip_bits (length (nbits 8 ?b)) (p\<lparr>i_data := x_buffer v\<rparr>), Some (Number x))"
        using parse_bits_ok [OF s t] sees_ok [OF s] 4(1) by (simp add: reader xs_defs)
    qed simp
  qed
qed

definition string_writer :: exi_out where
  "string_writer = \<lparr>x_buffer = replicate 12 0, x_ptr = 0, x_bit = 0, x_schema = example_schema, x_se = 0, x_flag = 0,
     x_n = 0, x_code = 0, x_global = new_string_table [] None 32, x_local = []\<rparr>"

lemma exi_number_round_trip_witness:
  "\<exists>v q. exi_output_value (Number (-7)) (string_writer\<lparr>x_se := 2\<rparr>) = Some (True, v) \<and>
    exi_parse_value (Number 0) (exi_parse_init example_schema (x_buffer v)\<lparr>p_se := 2\<rparr>) = Some (q, Some (Number (-7)))"
proof -
  let ?p = "exi_parse_init example_schema []\<lparr>p_se := 2\<rparr>" and ?w = "string_writer\<lparr>x_se := 2\<rparr>"
  have "out_ok ?w"
    by (rule out_ok_clear [of _ 12]) (simp_all add: string_writer_def)
  moreover have "element example_schema 2 = Some (El 8 1 1 0 0 False True False)"
    by (simp add: element_def example_schema_def)
  ultimately show ?thesis
    using exi_number_round_trip [of example_schema 2 "El 8 1 1 0 0 False True False" "-7" ?w ?p "Number 0"]
    by (auto simp: xs_base_def number_fits_def xs_defs string_writer_def x_left_def in_ok_def exi_parse_init_def i_pos_def x_pos_def)
qed

text \<open>The strings of a row of elements, written and read one after the other.\<close>

primrec write_strings :: "(int \<times> u8 list) list \<Rightarrow> 'a exi_out_scheme \<Rightarrow> 'a exi_out_scheme option" where
  "write_strings [] w = Some w"
| "write_strings (x # xs) w = Option.bind (exi_output_string (snd x) (w\<lparr>x_se := fst x\<rparr>)) (write_strings xs)"

primrec read_strings :: "int list \<Rightarrow> 'a exi_in_scheme \<Rightarrow> ('a exi_in_scheme \<times> u8 list option list) option" where
  "read_strings [] p = Some (p, [])"
| "read_strings (i # ix) p =
     do { (p, s) \<leftarrow> exi_parse_string 0 (p\<lparr>p_se := i\<rparr>); (p, ss) \<leftarrow> read_strings ix p; Some (p, s # ss) }"

definition read_written :: "(int \<times> u8 list) list \<Rightarrow> (parser_state \<times> u8 list option list) option" where
  "read_written xs = do { w \<leftarrow> write_strings xs string_writer;
     (p, ss) \<leftarrow> read_strings (map fst xs) (exi_parse_init example_schema (x_buffer w)); Some (p_state p, ss) }"

text \<open>The string tables of the writer and of the reader diverge. A string that is in the global
  table but not in the table of the element is added to the latter by the writer only; when the
  string occurs for the second time in that element the writer refers to the table of the element,
  and the reader, which has no such table, rejects the document.\<close>
theorem exi_string_tables_diverge:
  "read_written [(0, [0x61]), (1, [0x62])] = Some (PARSE_START, [Some [0x61], Some [0x62]]) \<and>
   read_written [(0, [0x61]), (1, [0x61]), (1, [0x61])] = Some (PARSE_INVALID, [Some [0x61], Some [0x61], None])"
  by code_simp

text \<open>A string that is not ASCII is not read back: the reader counts bytes instead of characters.\<close>

theorem exi_literal_not_ascii:
  "read_written [(0, [0xc3, 0xa9]), (1, [0x62])] = None \<and>
   read_written [(0, [0xc3, 0xa9])] = None"
  by code_simp

end
