(* ===== verification/Parse.thy ===== *)
theory Parse
  imports Exi
begin

section \<open>Parsing documents (core/parse.c)\<close>

text \<open>
  \<open>parse_doc\<close> builds an object from the events that a driver finds in a document, led by the schema. An
  object is memory of the C layout; here it is seen by paths: a path names a field by the elements, with
  the position in an array or a list, that lead to it. \<open>ob_flags\<close> is the first word of a structure,
  \<open>ob_values\<close> what the simple fields hold and \<open>ob_counts\<close> the length of a list. A field of type boolean
  is a bit of the first word of the structure that it belongs to. A driver is a record of functions, as
  in the code; \<open>'d\<close> is the part of the parser that only the driver uses. \<open>None\<close> is an access out of
  bounds or a loop that does not end.
\<close>

unbundle bit_operations_syntax

subsection \<open>Objects\<close>

type_synonym path = "(int \<times> nat) list"

record object =
  ob_flags :: "path \<Rightarrow> u32"
  ob_values :: "path \<Rightarrow> exi_value option"
  ob_counts :: "path \<Rightarrow> nat"

definition new_object :: object where
  "new_object = \<lparr>ob_flags = (\<lambda>_. 0), ob_values = (\<lambda>_. None), ob_counts = (\<lambda>_. 0)\<rparr>"

text \<open>What a cleared field of a type holds.\<close>

definition zero_value :: "int \<Rightarrow> exi_value" where
  "zero_value t =
     (if xs_base t = XS_STRING then Text [] else if xs_base t = XS_ANY_URI then Uri_Text []
      else if xs_base t = XS_HEX_BINARY then Bytes (replicate (nat (xs_length t)) 0) else Number 0)"

definition read_field :: "int \<Rightarrow> path \<Rightarrow> object \<Rightarrow> exi_value" where
  "read_field t f ob =
     (if xs_base t = XS_BOOLEAN then Flags (ob_flags ob (butlast f))
      else case ob_values ob f of Some v \<Rightarrow> v | None \<Rightarrow> zero_value t)"

definition write_field :: "path \<Rightarrow> exi_value \<Rightarrow> object \<Rightarrow> object" where
  "write_field f v ob =
     (case v of Flags w \<Rightarrow> ob\<lparr>ob_flags := (ob_flags ob)(butlast f := w)\<rparr>
      | _ \<Rightarrow> ob\<lparr>ob_values := (ob_values ob)(f \<mapsto> v)\<rparr>)"

definition set_count :: "path \<Rightarrow> u32 \<Rightarrow> nat \<Rightarrow> object \<Rightarrow> object" where
  "set_count f c b ob = ob\<lparr>ob_flags := (ob_flags ob)(f := or (ob_flags ob f) (push_bit b c))\<rparr>"

text \<open>The next field of an array.\<close>

definition next_field :: "path \<Rightarrow> path" where
  "next_field f = (case last f of (i, k) \<Rightarrow> butlast f @ [(i, Suc k)])"

lemma next_field_snoc [simp]: "next_field (f @ [(i, k)]) = f @ [(i, Suc k)]"
  by (simp add: next_field_def)

subsection \<open>The stack\<close>

text \<open>
  \<open>t_all\<close> is the union of \<open>all\<close> and \<open>diff\<close>; \<open>t_item\<close> counts the items of a list that were taken from
  the queue. The size of a field is not needed with paths.
\<close>

record stack_item =
  t_se :: int
  t_base :: path
  t_item :: nat
  t_count :: int
  t_all :: int

definition MAX_STACK :: nat where "MAX_STACK = 32"

text \<open>The top of the stack is the head of the list; \<open>None\<close> is NULL.\<close>

definition push_element :: "int \<Rightarrow> path \<Rightarrow> stack_item list \<Rightarrow> stack_item list option" where
  "push_element se base st =
     (if length st = MAX_STACK then None
      else Some (\<lparr>t_se = se, t_base = base, t_item = 0, t_count = 0, t_all = 0\<rparr> # st))"

definition pop_element :: "stack_item list \<Rightarrow> (int \<times> path \<times> stack_item list) option" where
  "pop_element st = (case st of [] \<Rightarrow> None | t # st \<Rightarrow> Some (t_se t, t_base t, st))"

subsection \<open>The parser\<close>

record 'd parser =
  q_obj :: object
  q_type :: int
  q_stack :: "stack_item list"
  q_schema :: schema
  q_se :: int
  q_base :: path
  q_state :: parser_state
  q_flag :: nat
  q_driver :: 'd

text \<open>
  The functions of a driver. Those for values get what the field holds and give what is stored in it;
  \<open>None\<close> inside is failure.
\<close>

record 'd parser_driver =
  drv_start :: "'d parser \<Rightarrow> ('d parser \<times> bool) option"
  drv_next :: "'d parser \<Rightarrow> ('d parser \<times> bool) option"
  drv_end :: "int \<Rightarrow> 'd parser \<Rightarrow> ('d parser \<times> bool) option"
  drv_sequence :: "stack_item \<Rightarrow> 'd parser \<Rightarrow> ('d parser \<times> bool) option"
  drv_attr_value :: "exi_value \<Rightarrow> 'd parser \<Rightarrow> ('d parser \<times> exi_value option) option"
  drv_value :: "exi_value \<Rightarrow> 'd parser \<Rightarrow> ('d parser \<times> exi_value option) option"
  drv_done :: "'d parser \<Rightarrow> 'd parser"

definition parse_error :: "'d parser \<Rightarrow> bool" where
  "parse_error p \<longleftrightarrow> q_state p \<noteq> PARSE_START"

definition add_element :: "path \<Rightarrow> int \<Rightarrow> object \<Rightarrow> object" where
  "add_element base se ob = ob\<lparr>ob_counts := (ob_counts ob)(base @ [(se, 0)] := Suc (ob_counts ob (base @ [(se, 0)])))\<rparr>"

text \<open>
  One round of the loop: \<open>Inl\<close> goes on, \<open>Inr\<close> returns, with whether an object is returned. Where the code
  goes from one case into the next, the next round does the same.
\<close>

definition invalid_parser :: "'d parser \<Rightarrow> 'd parser" where
  "invalid_parser p = p\<lparr>q_state := PARSE_INVALID\<rparr>"

definition go :: "'d parser \<Rightarrow> 'd parser + ('d parser \<times> bool)" where "go p = Inl p"
definition give_up :: "'d parser \<Rightarrow> 'd parser + ('d parser \<times> bool)" where "give_up p = Inr (p, False)"

text \<open>\<open>parse_element\<close>: a simple element is read, a complex one is entered.\<close>

definition enter_element :: "schema_element \<Rightarrow> 'd parser \<Rightarrow> 'd parser" where
  "enter_element se p =
     (if se_simple se then p\<lparr>q_state := PARSE_VALUE\<rparr> else p\<lparr>q_se := se_index se + 1, q_state := PARSE_NEXT\<rparr>)"

definition parse_element_case :: "'d parser \<Rightarrow> ('d parser + ('d parser \<times> bool)) option" where
  "parse_element_case p =
     do { se \<leftarrow> element (q_schema p) (q_se p);
          let p = p\<lparr>q_flag := nat (se_bit se)\<rparr>;
          if se_attribute se then
            let p = (if se_min se = 0 \<and> \<not> is_pointer (se_index se)
                     then p\<lparr>q_obj := set_count (q_base p) 1 (q_flag p) (q_obj p), q_flag := q_flag p + 1\<rparr> else p)
            in Some (go (p\<lparr>q_state := PARSE_ATTRIBUTE\<rparr>))
          else case push_element (q_se p) (q_base p) (q_stack p) of
            None \<Rightarrow> Some (give_up (invalid_parser p))
          | Some (t # st) \<Rightarrow>
              let f = q_base p @ [(q_se p, 0)];
                  p = (if se_unbounded se
                       then p\<lparr>q_stack := t # st, q_obj := add_element (q_base p) (q_se p) (q_obj p), q_base := f\<rparr>
                       else let diff = se_max se - se_min se in
                         p\<lparr>q_stack := t\<lparr>t_all := diff\<rparr> # st, q_base := f,
                           q_flag := (if diff \<noteq> 0 \<and> \<not> (se_simple se \<and> is_pointer (se_index se))
                                      then q_flag p + bit_count (word_of_int diff) else q_flag p)\<rparr>)
              in Some (go (enter_element se p))
          | Some [] \<Rightarrow> None }"

definition store :: "path \<Rightarrow> 'd parser \<times> exi_value option \<Rightarrow> ('d parser \<Rightarrow> 'd parser) \<Rightarrow> 'd parser + ('d parser \<times> bool)" where
  "store f r k =
     (case r of
        (p, None) \<Rightarrow> give_up p
      | (p, Some v) \<Rightarrow> go (k (p\<lparr>q_obj := write_field f v (q_obj p)\<rparr>)))"

definition parse_attribute_case :: "'d parser_driver \<Rightarrow> 'd parser \<Rightarrow> ('d parser + ('d parser \<times> bool)) option" where
  "parse_attribute_case d p =
     do { se \<leftarrow> element (q_schema p) (q_se p);
          let f = q_base p @ [(q_se p, 0)];
          r \<leftarrow> drv_attr_value d (read_field (se_index se) f (q_obj p)) p;
          Some (store f r (\<lambda>p. p\<lparr>q_state := PARSE_NEXT, q_se := q_se p + 1\<rparr>)) }"

definition parse_value_case :: "'d parser_driver \<Rightarrow> 'd parser \<Rightarrow> ('d parser + ('d parser \<times> bool)) option" where
  "parse_value_case d p =
     do { se \<leftarrow> element (q_schema p) (q_se p);
          r \<leftarrow> drv_value d (read_field (se_index se) (q_base p) (q_obj p)) p;
          Some (store (q_base p) r (\<lambda>p. p\<lparr>q_state := PARSE_END\<rparr>)) }"

definition parse_end_case :: "'d parser_driver \<Rightarrow> 'd parser \<Rightarrow> ('d parser + ('d parser \<times> bool)) option" where
  "parse_end_case d p =
     (case q_stack p of
        [] \<Rightarrow> Some (Inr ((drv_done d p)\<lparr>q_state := PARSE_START\<rparr>, True))
      | t # st \<Rightarrow>
          do { (p, r) \<leftarrow> drv_end d (t_se t) p;
               se \<leftarrow> element (q_schema p) (t_se t);
               Some (if r then go (p\<lparr>q_stack := t\<lparr>t_count := t_count t + 1\<rparr> # st,
                         q_state := (if se_unbounded se \<or> t_count t + 1 < se_max se then PARSE_SEQUENCE else SEQUENCE_END)\<rparr>)
                     else give_up p) })"

definition parse_sequence_case :: "'d parser_driver \<Rightarrow> 'd parser \<Rightarrow> ('d parser + ('d parser \<times> bool)) option" where
  "parse_sequence_case d p =
     (case q_stack p of
        [] \<Rightarrow> None
      | t # st \<Rightarrow>
          do { (p, r) \<leftarrow> drv_sequence d t p;
               se \<leftarrow> element (q_schema p) (t_se t);
               Some (if r then
                       if se_unbounded se then
                         go (enter_element se (p\<lparr>q_obj := add_element (t_base t) (t_se t) (q_obj p),
                           q_base := t_base t @ [(t_se t, nat (t_count t))], q_flag := q_flag p + 1\<rparr>))
                       else if t_count t < se_max se then
                         go (enter_element se (p\<lparr>q_base := next_field (q_base p), q_flag := q_flag p + 1\<rparr>))
                       else give_up (invalid_parser p)
                     else if q_state p = PARSE_SEQUENCE then give_up p
                     else go p) })"

definition sequence_end_case :: "'d parser \<Rightarrow> ('d parser + ('d parser \<times> bool)) option" where
  "sequence_end_case p =
     (case q_stack p of
        [] \<Rightarrow> None
      | t # st \<Rightarrow>
          do { se \<leftarrow> element (q_schema p) (t_se t);
               let ob = (if t_all t \<noteq> 0 then set_count (t_base t) (word_of_int (t_count t - se_min se)) (nat (se_bit se)) (q_obj p)
                         else q_obj p);
               (i, base, st) \<leftarrow> pop_element (q_stack p);
               Some (go (p\<lparr>q_obj := ob, q_stack := st, q_base := base, q_se := i + 1, q_state := PARSE_NEXT\<rparr>)) })"

definition parse_step :: "'d parser_driver \<Rightarrow> 'd parser \<Rightarrow> ('d parser + ('d parser \<times> bool)) option" where
  "parse_step d p =
     (case q_state p of
        PARSE_START \<Rightarrow>
          do { (p, r) \<leftarrow> drv_start d p;
               Some (if r then go (p\<lparr>q_stack := [], q_state := PARSE_ELEMENT, q_obj := new_object, q_base := []\<rparr>) else give_up p) }
      | PARSE_ELEMENT \<Rightarrow> parse_element_case p
      | PARSE_NEXT \<Rightarrow> do { (p, r) \<leftarrow> drv_next d p; Some (if r then go p else give_up p) }
      | PARSE_ATTRIBUTE \<Rightarrow> parse_attribute_case d p
      | PARSE_VALUE \<Rightarrow> parse_value_case d p
      | PARSE_END \<Rightarrow> parse_end_case d p
      | PARSE_SEQUENCE \<Rightarrow> parse_sequence_case d p
      | SEQUENCE_END \<Rightarrow> sequence_end_case p
      | PARSE_INVALID \<Rightarrow> Some (give_up p))"

partial_function (option) parse_doc :: "'d parser_driver \<Rightarrow> 'd parser \<Rightarrow> ('d parser \<times> bool) option" where
  "parse_doc d p =
     Option.bind (parse_step d p) (\<lambda>r. case r of Inl p \<Rightarrow> parse_doc d p | Inr r \<Rightarrow> Some r)"

text \<open>The equations of the loops also serve for evaluation.\<close>

declare parse_doc.simps [code]

end
