(* ===== verification/Output_Doc.thy ===== *)
theory Output_Doc
  imports Parse
begin

section \<open>Output of documents (core/output.c)\<close>

text \<open>
  \<open>output_doc\<close> walks an object, led by the schema, and gives a driver the events and values to write.
  It returns when the buffer is full and can be called again. As with the parser a driver is a record
  of functions; the fields of the buffer, which the drivers share, are reached through it; \<open>put_done\<close> begins with the
  step over a byte that was begun. The state
  holds the number of possible event codes and the current one, which only the EXI driver uses.
\<close>

datatype output_state = OUTPUT_START | OUTPUT_ELEMENT | OUTPUT_ATTRIBUTE | OUTPUT_ATTR_VALUE | OUTPUT_SIMPLE
  | OUTPUT_VALUE | OUTPUT_END | OUTPUT_COMPLEX | OUTPUT_COMPLETE | OUTPUT_ERROR

datatype output_event = EE_EVENT | AT_EVENT | SE_SIMPLE | SE_COMPLEX

record 'd doc_out =
  u_schema :: schema
  u_se :: int
  u_stack :: "stack_item list"
  u_state :: output_state
  u_base :: path
  u_n :: int
  u_code :: int
  u_flag :: nat
  u_first :: bool
  u_driver :: 'd

record 'd out_driver =
  put_event :: "int \<Rightarrow> output_event \<Rightarrow> 'd doc_out \<Rightarrow> ('d doc_out \<times> bool) option"
  put_attr_value :: "exi_value \<Rightarrow> 'd doc_out \<Rightarrow> ('d doc_out \<times> bool) option"
  put_value :: "exi_value \<Rightarrow> 'd doc_out \<Rightarrow> ('d doc_out \<times> bool) option"
  put_done :: "'d doc_out \<Rightarrow> 'd doc_out"
  buffer_length :: "'d doc_out \<Rightarrow> nat"
  buffer_reset :: "'d doc_out \<Rightarrow> 'd doc_out"

subsection \<open>How often an element occurs\<close>

function flag_width :: "nat \<Rightarrow> nat" where
  "flag_width diff = (if diff div 2 = 0 then 1 else Suc (flag_width (diff div 2)))"
  by pat_completeness auto
termination by (relation "measure id") auto

declare flag_width.simps [simp del]

definition flag_count :: "u32 \<Rightarrow> nat \<Rightarrow> int \<Rightarrow> int \<Rightarrow> int" where
  "flag_count flags b mn mx = mn + uint (take_bit (flag_width (nat (mx - mn))) (drop_bit b flags))"

definition flag_set :: "u32 \<Rightarrow> nat \<Rightarrow> int" where
  "flag_set flags b = (if bit flags b then 1 else 0)"

fun count_pointers :: "object \<Rightarrow> path \<Rightarrow> int \<Rightarrow> nat \<Rightarrow> nat \<Rightarrow> nat" where
  "count_pointers ob base i k 0 = k"
| "count_pointers ob base i k (Suc n) =
     (if ob_values ob (base @ [(i, k)]) \<noteq> None then count_pointers ob base i (Suc k) n else k)"

text \<open>The element is given with its number.\<close>

definition output_count :: "path \<Rightarrow> int \<Rightarrow> schema_element \<Rightarrow> object \<Rightarrow> int" where
  "output_count base i se ob =
     (if (se_attribute se \<or> se_simple se) \<and> is_pointer (se_index se) then
        let n = int (count_pointers ob base i 0 (nat (se_max se))) in if n \<ge> se_min se then n else 0
      else if se_min se < se_max se then
        if se_max se = 1 then flag_set (ob_flags ob base) (nat (se_bit se))
        else min (flag_count (ob_flags ob base) (nat (se_bit se)) (se_min se) (se_max se)) (se_max se)
      else se_min se)"

definition output_item_count :: "nat \<Rightarrow> 'd doc_out \<Rightarrow> int option" where
  "output_item_count level w =
     (if level < length (u_stack w) then Some (t_count (rev (u_stack w) ! level)) else None)"

definition output_complete :: "'d doc_out \<Rightarrow> bool" where
  "output_complete w \<longleftrightarrow> u_state w = OUTPUT_COMPLETE"

subsection \<open>The loop\<close>

text \<open>\<open>Inl\<close> goes on; \<open>Inr\<close> returns a length.\<close>

definition out_error :: "'d doc_out \<Rightarrow> 'd doc_out + ('d doc_out \<times> nat)" where
  "out_error w = Inr (w\<lparr>u_state := OUTPUT_ERROR\<rparr>, 0)"

definition out_full :: "'d out_driver \<Rightarrow> 'd doc_out \<Rightarrow> 'd doc_out + ('d doc_out \<times> nat)" where
  "out_full d w = Inr (buffer_reset d w, buffer_length d w)"

definition output_next :: "'d doc_out \<Rightarrow> ('d doc_out + ('d doc_out \<times> nat)) option" where
  "output_next w =
     do { se \<leftarrow> element (u_schema w) (u_se w + 1);
          Some (Inl (w\<lparr>u_se := u_se w + 1, u_state := (if se_n se \<noteq> 0 then OUTPUT_ELEMENT else OUTPUT_END)\<rparr>)) }"

definition output_skip :: "'d doc_out \<Rightarrow> ('d doc_out + ('d doc_out \<times> nat)) option" where
  "output_skip w = output_next (w\<lparr>u_code := u_code w + 1\<rparr>)"

definition element_next :: "'d doc_out \<Rightarrow> ('d doc_out + ('d doc_out \<times> nat)) option" where
  "element_next w =
     do { (i, base, st) \<leftarrow> pop_element (u_stack w); output_skip (w\<lparr>u_se := i, u_base := base, u_stack := st\<rparr>) }"

text \<open>\<open>t\<close> is the top of the stack.\<close>

definition element_skip :: "schema_element \<Rightarrow> stack_item \<Rightarrow> 'd doc_out \<Rightarrow> ('d doc_out + ('d doc_out \<times> nat)) option" where
  "element_skip se t w =
     (if t_count t < se_min se then Some (out_error w)
      else element_next (if u_n w = 0 then w\<lparr>u_n := se_n se\<rparr> else w))"

definition output_element :: "schema_element \<Rightarrow> stack_item \<Rightarrow> 'd doc_out \<Rightarrow> 'd doc_out" where
  "output_element se t w =
     (let w = (if u_n w = 0 then w\<lparr>u_n := (if t_count t \<ge> se_min se then se_n se else 1)\<rparr> else w)
      in w\<lparr>u_state := (if se_simple se then OUTPUT_SIMPLE else OUTPUT_COMPLEX)\<rparr>)"

definition output_element_case :: "object \<Rightarrow> 'd doc_out \<Rightarrow> ('d doc_out + ('d doc_out \<times> nat)) option" where
  "output_element_case ob w =
     do { se \<leftarrow> element (u_schema w) (u_se w);
          let w = w\<lparr>u_flag := nat (se_bit se)\<rparr>;
          if se_attribute se then
            let w = (if u_n w = 0 then w\<lparr>u_n := se_n se\<rparr> else w) in
            if output_count (u_base w) (u_se w) se ob \<noteq> 0 then Some (Inl (w\<lparr>u_state := OUTPUT_ATTRIBUTE\<rparr>))
            else if se_min se \<noteq> 0 then Some (out_error w)
            else output_skip w
          else case push_element (u_se w) (u_base w) (u_stack w) of
            None \<Rightarrow> Some (Inr (w, 0))
          | Some [] \<Rightarrow> None
          | Some (t # st) \<Rightarrow>
              let f = u_base w @ [(u_se w, 0)];
                  c = (if se_unbounded se then (if ob_counts ob f \<noteq> 0 then 1 else 0) else output_count (u_base w) (u_se w) se ob);
                  t = (if se_unbounded se then t else t\<lparr>t_all := c\<rparr>);
                  w = w\<lparr>u_stack := t # st\<rparr>
              in if c \<noteq> 0 then Some (Inl (output_element se t (w\<lparr>u_base := f\<rparr>))) else element_skip se t w }"

definition output_end_case :: "'d out_driver \<Rightarrow> object \<Rightarrow> 'd doc_out \<Rightarrow> ('d doc_out + ('d doc_out \<times> nat)) option" where
  "output_end_case d ob w =
     (case u_stack w of
        [] \<Rightarrow> let w = (put_done d w)\<lparr>u_state := OUTPUT_COMPLETE\<rparr> in Some (Inr (w, buffer_length d w))
      | t # st \<Rightarrow>
          do { se \<leftarrow> element (u_schema w) (t_se t);
               (w, r) \<leftarrow> put_event d (t_se t) EE_EVENT w;
               if \<not> r then Some (out_full d w)
               else let t = t\<lparr>t_count := t_count t + 1, t_item := t_item t + 1\<rparr>; w = w\<lparr>u_stack := t # st\<rparr> in
                 if se_unbounded se then
                   if t_item t < ob_counts ob (t_base t @ [(t_se t, 0)])
                   then let w = w\<lparr>u_base := t_base t @ [(t_se t, t_item t)], u_flag := u_flag w + 1\<rparr> in Some (Inl (output_element se t w))
                   else element_skip se t w
                 else if t_count t < t_all t then
                   let w = w\<lparr>u_base := next_field (u_base w), u_flag := u_flag w + 1\<rparr> in Some (Inl (output_element se t w))
                 else if t_count t = se_max se then element_next (w\<lparr>u_code := u_code w - 1\<rparr>)
                 else element_skip se t w })"

definition output_step :: "'d out_driver \<Rightarrow> object \<Rightarrow> int \<Rightarrow> 'd doc_out \<Rightarrow> ('d doc_out + ('d doc_out \<times> nat)) option" where
  "output_step d ob type w =
     (case u_state w of
        OUTPUT_START \<Rightarrow>
          Some (if type \<ge> schema_length (u_schema w) then Inr (w, 0)
                else Inl (w\<lparr>u_se := type, u_code := type, u_n := schema_length (u_schema w), u_base := [],
                       u_state := OUTPUT_ELEMENT, u_first := True\<rparr>))
      | OUTPUT_ELEMENT \<Rightarrow> output_element_case ob w
      | OUTPUT_ATTRIBUTE \<Rightarrow>
          do { (w, r) \<leftarrow> put_event d (u_se w) AT_EVENT w;
               Some (if r then Inl (w\<lparr>u_state := OUTPUT_ATTR_VALUE\<rparr>) else out_full d w) }
      | OUTPUT_ATTR_VALUE \<Rightarrow>
          do { se \<leftarrow> element (u_schema w) (u_se w);
               (w, r) \<leftarrow> put_attr_value d (read_field (se_index se) (u_base w @ [(u_se w, 0)]) ob) w;
               if r then output_next w else Some (out_full d w) }
      | OUTPUT_SIMPLE \<Rightarrow>
          do { (w, r) \<leftarrow> put_event d (u_se w) SE_SIMPLE w;
               Some (if r then Inl (w\<lparr>u_state := OUTPUT_VALUE\<rparr>) else out_full d w) }
      | OUTPUT_VALUE \<Rightarrow>
          do { se \<leftarrow> element (u_schema w) (u_se w);
               (w, r) \<leftarrow> put_value d (read_field (se_index se) (u_base w) ob) w;
               Some (if r then Inl (w\<lparr>u_state := OUTPUT_END\<rparr>) else out_full d w) }
      | OUTPUT_END \<Rightarrow> output_end_case d ob w
      | OUTPUT_COMPLEX \<Rightarrow>
          (case u_stack w of
             [] \<Rightarrow> None
           | t # st \<Rightarrow>
               do { se \<leftarrow> element (u_schema w) (t_se t);
                    (w, r) \<leftarrow> put_event d (t_se t) SE_COMPLEX w;
                    Some (if r then Inl (w\<lparr>u_se := se_index se + 1, u_state := OUTPUT_ELEMENT\<rparr>) else out_full d w) })
      | OUTPUT_COMPLETE \<Rightarrow> Some (Inr ((buffer_reset d w)\<lparr>u_state := OUTPUT_START\<rparr>, 0))
      | OUTPUT_ERROR \<Rightarrow> Some (Inr (w, 0)))"

partial_function (option) output_doc :: "'d out_driver \<Rightarrow> object \<Rightarrow> int \<Rightarrow> 'd doc_out \<Rightarrow> ('d doc_out \<times> nat) option" where
  "output_doc d ob type w =
     Option.bind (output_step d ob type w) (\<lambda>r. case r of Inl w \<Rightarrow> output_doc d ob type w | Inr r \<Rightarrow> Some r)"

text \<open>The equations of the loops also serve for evaluation.\<close>

declare output_doc.simps [code]

end
