(* ===== verification/Xml_Output.thy ===== *)
theory Xml_Output
  imports Xml_Token Output_Doc
begin

section \<open>Output of XML (core/xml_output.c, core/output.c)\<close>

text \<open>
  \<open>o_text\<close> is what stands in the buffer of \<open>o_size\<close> bytes up to the pointer. A writer that finds no room
  returns false and leaves the text as it was, unless noted. Values are those of the EXI writer: the
  object of a field read through its type. \<open>None\<close> is an access out of bounds.
\<close>

record xml_out =
  o_schema :: schema
  o_se :: int
  o_text :: string
  o_size :: nat
  o_indent :: int
  o_flag :: nat
  o_open :: bool
  o_first :: bool

definition o_room :: "'a xml_out_scheme \<Rightarrow> nat" where
  "o_room w = o_size w - length (o_text w)"

definition add_out :: "string \<Rightarrow> 'a xml_out_scheme \<Rightarrow> 'a xml_out_scheme" where
  "add_out s w = w\<lparr>o_text := o_text w @ s\<rparr>"

subsection \<open>Characters and texts\<close>

definition output_char :: "char \<Rightarrow> 'a xml_out_scheme \<Rightarrow> 'a xml_out_scheme \<times> bool" where
  "output_char c w = (if length (o_text w) + 1 < o_size w then (add_out [c] w, True) else (w, False))"

text \<open>\<open>output_string\<close> with the formatted text.\<close>

definition output_string :: "string \<Rightarrow> 'a xml_out_scheme \<Rightarrow> 'a xml_out_scheme \<times> bool" where
  "output_string s w = (if length s \<ge> o_room w then (w, False) else (add_out s w, True))"

text \<open>
  The loop of \<open>output_escaped\<close> with the room that is left: the text that was written, the inner \<open>None\<close>
  if there is no room. Behind a character that is no UTF-8 the length of the copy is negative.
\<close>

definition escape_char :: "int \<Rightarrow> string option" where
  "escape_char c =
     (if c = 60 then Some ''&lt;'' else if c = 62 then Some ''&gt;'' else if c = 38 then Some ''&amp;''
      else if c = 34 then Some ''&quot;'' else None)"

function escape_loop :: "nat \<Rightarrow> string \<Rightarrow> string option option" where
  "escape_loop k [] = Some (Some [])"
| "escape_loop k (b # s) =
     (case char_at (b # s) of
        None \<Rightarrow> None
      | Some (c, next) \<Rightarrow>
          let t = (case escape_char c of Some t \<Rightarrow> t | None \<Rightarrow> take (length (b # s) - length next) (b # s)) in
          if k > length t then
            map_option (map_option (\<lambda>r. t @ r)) (escape_loop (k - length t) next)
          else Some None)"
  by pat_completeness auto
termination by (relation "measure (\<lambda>(r, s). length s)") (auto dest: char_at_shorter)

text \<open>A NULL value is reported and nothing is written.\<close>

definition output_escaped :: "string option \<Rightarrow> 'a xml_out_scheme \<Rightarrow> ('a xml_out_scheme \<times> bool) option" where
  "output_escaped s w =
     (case s of
        None \<Rightarrow> Some (w, False)
      | Some s \<Rightarrow> map_option (\<lambda>r. case r of None \<Rightarrow> (w, False) | Some t \<Rightarrow> (add_out t w, True)) (escape_loop (o_room w) s))"

definition hex_char :: "nat \<Rightarrow> char" where
  "hex_char x = chr (if x < 10 then 48 + x else 97 + (x - 10))"

definition hex_text :: "u8 list \<Rightarrow> string" where
  "hex_text bs = concat (map (\<lambda>x. [hex_char (unat (drop_bit 4 x)), hex_char (unat (x AND 0xf))]) bs)"

text \<open>Leading zero bytes are left out, but not the last byte.\<close>

fun skip_zeros :: "u8 list \<Rightarrow> u8 list" where
  "skip_zeros (b # c # bs) = (if b = 0 then skip_zeros (c # bs) else b # c # bs)"
| "skip_zeros bs = bs"

definition output_hex :: "u8 list \<Rightarrow> 'a xml_out_scheme \<Rightarrow> ('a xml_out_scheme \<times> bool) option" where
  "output_hex value w =
     (if value = [] then None
      else let bs = skip_zeros value in
        Some (if length bs * 2 \<ge> o_room w then (w, False) else (add_out (hex_text bs) w, True)))"

subsection \<open>Values\<close>

text \<open>
  The number of a field is printed with the conversion of its type, which gives its decimal text. A
  value that does not belong to the type of the element stands for a memory access of the wrong kind.
\<close>

definition number_type :: "int \<Rightarrow> bool" where
  "number_type t \<longleftrightarrow> t \<in> {XS_LONG, XS_INT, XS_SHORT, XS_BYTE, XS_ULONG, XS_UINT, XS_USHORT, XS_UBYTE}"

definition output_value :: "exi_value \<Rightarrow> 'a xml_out_scheme \<Rightarrow> ('a xml_out_scheme \<times> bool) option" where
  "output_value v w =
     do { se \<leftarrow> element (o_schema w) (o_se w);
          let t = xs_base (se_index se);
          case v of
            Text s \<Rightarrow> if t = XS_STRING then output_escaped (Some (bytes_string s)) w else None
          | Uri_Text s \<Rightarrow> if t = XS_ANY_URI then output_escaped (Some (bytes_string s)) w else None
          | Flags f \<Rightarrow> if t = XS_BOOLEAN then Some (output_string (if bit f (o_flag w) then ''true'' else ''false'') w) else None
          | Bytes b \<Rightarrow> if t = XS_HEX_BINARY then output_hex b w else None
          | Number x \<Rightarrow> if number_type t then Some (output_string (show_int x) w) else None }"

definition output_quoted :: "exi_value \<Rightarrow> 'a xml_out_scheme \<Rightarrow> ('a xml_out_scheme \<times> bool) option" where
  "output_quoted v w =
     (case output_char (CHR 0x22) w of
        (u, False) \<Rightarrow> Some (w, False)
      | (u, True) \<Rightarrow>
          do { (u, r) \<leftarrow> output_value v u;
               if r then (case output_char (CHR 0x22) u of (u, r) \<Rightarrow> Some (if r then (u, True) else (w, False)))
               else Some (w, False) })"

subsection \<open>Events\<close>

text \<open>A new line and the indentation, but not before the first element.\<close>

definition output_break :: "string \<Rightarrow> 'a xml_out_scheme \<Rightarrow> 'a xml_out_scheme \<times> bool" where
  "output_break s w =
     (if \<not> o_first w \<and> int (length (o_text w)) + o_indent w + 1 \<ge> int (o_size w) then (w, False)
      else case output_string s (if o_first w then w else add_out (CHR 0x0A # replicate (nat (o_indent w)) (CHR '' '')) w) of
        (u, True) \<Rightarrow> (u, True)
      | (u, False) \<Rightarrow> (w, False))"

text \<open>The element is given by its number. A name space that does not fit leaves the start of the tag written.\<close>

definition tag_open :: "string \<Rightarrow> string" where "tag_open name = ''<'' @ name"
definition tag_end :: "string \<Rightarrow> string" where "tag_end name = ''</'' @ name @ ''>''"

definition close_open :: "'a xml_out_scheme \<Rightarrow> 'a xml_out_scheme \<times> bool" where
  "close_open w =
     (if o_open w then (case output_char (CHR ''>'') w of (u, True) \<Rightarrow> (u\<lparr>o_open := False\<rparr>, True) | (u, False) \<Rightarrow> (w, False))
      else (w, True))"

definition output_end :: "bool \<Rightarrow> string \<Rightarrow> 'a xml_out_scheme \<Rightarrow> 'a xml_out_scheme \<times> bool" where
  "output_end simple name w =
     (if o_open w then
        (case output_string ''/>'' w of (u, True) \<Rightarrow> (u\<lparr>o_open := False, o_indent := o_indent u - 2\<rparr>, True) | (u, False) \<Rightarrow> (w, False))
      else if simple then output_string (tag_end name) w
      else (case output_break (tag_end name) (w\<lparr>o_indent := o_indent w - 2\<rparr>) of (u, True) \<Rightarrow> (u, True) | (u, False) \<Rightarrow> (w, False)))"

definition output_complex :: "string \<Rightarrow> 'a xml_out_scheme \<Rightarrow> 'a xml_out_scheme \<times> bool" where
  "output_complex name w =
     (case output_break (tag_open name) w of
        (u, False) \<Rightarrow> (w, False)
      | (u, True) \<Rightarrow>
          (case (if o_first u
                 then output_string ('' xmlns='' @ [CHR 0x22] @ namespace (o_schema u) @ [CHR 0x22]) u
                 else (u, True)) of
             (u, False) \<Rightarrow> (u, False)
           | (u, True) \<Rightarrow> (u\<lparr>o_first := False, o_open := True, o_indent := o_indent u + 2\<rparr>, True)))"

definition output_event :: "int \<Rightarrow> output_event \<Rightarrow> 'a xml_out_scheme \<Rightarrow> ('a xml_out_scheme \<times> bool) option" where
  "output_event i event w =
     do { name \<leftarrow> se_name i (o_schema w);
          se \<leftarrow> element (o_schema w) i;
          Some (case (if event = SE_SIMPLE \<or> event = SE_COMPLEX then close_open w else (w, True)) of
            (w, False) \<Rightarrow> (w, False)
          | (w, True) \<Rightarrow>
              (case event of
                 EE_EVENT \<Rightarrow> output_end (se_simple se) name w
               | AT_EVENT \<Rightarrow> output_string ('' '' @ name @ ''='') w
               | SE_SIMPLE \<Rightarrow> output_break (''<'' @ name @ ''>'') w
               | SE_COMPLEX \<Rightarrow> output_complex name w)) }"

definition output_done :: "'a xml_out_scheme \<Rightarrow> 'a xml_out_scheme" where
  "output_done w = fst (output_char (CHR 0x0A) w)"

definition output_flush :: "'a xml_out_scheme \<Rightarrow> 'a xml_out_scheme" where
  "output_flush w = w\<lparr>o_text := []\<rparr>"

definition output_init :: "schema \<Rightarrow> nat \<Rightarrow> xml_out" where
  "output_init sc n = \<lparr>o_schema = sc, o_se = 0, o_text = [], o_size = n, o_indent = 0, o_flag = 0, o_open = False, o_first = False\<rparr>"

subsection \<open>The driver\<close>

text \<open>The driver works on the fields that it shares with \<open>output_doc\<close>.\<close>

definition xml_view :: "xml_out doc_out \<Rightarrow> xml_out" where
  "xml_view u = (u_driver u)\<lparr>o_schema := u_schema u, o_se := u_se u, o_flag := u_flag u, o_first := u_first u\<rparr>"

definition xml_back :: "xml_out doc_out \<Rightarrow> xml_out \<times> bool \<Rightarrow> xml_out doc_out \<times> bool" where
  "xml_back u r = (u\<lparr>u_driver := fst r, u_first := o_first (fst r)\<rparr>, snd r)"

definition xml_output :: "xml_out out_driver" where
  "xml_output =
     \<lparr>put_event = (\<lambda>i e u. map_option (xml_back u) (output_event i e (xml_view u))),
      put_attr_value = (\<lambda>v u. map_option (xml_back u) (output_quoted v (xml_view u))),
      put_value = (\<lambda>v u. map_option (xml_back u) (output_value v (xml_view u))),
      put_done = (\<lambda>u. u\<lparr>u_driver := output_done (u_driver u)\<rparr>),
      buffer_length = (\<lambda>u. length (o_text (u_driver u))),
      buffer_reset = (\<lambda>u. u\<lparr>u_driver := output_flush (u_driver u)\<rparr>)\<rparr>"

definition xml_document :: "schema \<Rightarrow> nat \<Rightarrow> xml_out doc_out" where
  "xml_document sc n =
     \<lparr>u_schema = sc, u_se = 0, u_stack = [], u_state = OUTPUT_START, u_base = [], u_n = 0, u_code = 0, u_flag = 0,
      u_first = False, u_driver = output_init sc n\<rparr>"

subsection \<open>Escaped text\<close>

definition esc :: "u32 \<Rightarrow> string" where
  "esc c = (case escape_char (uint c) of Some t \<Rightarrow> t | None \<Rightarrow> enc c)"

definition escaped :: "u32 list \<Rightarrow> string" where
  "escaped cs = concat (map esc cs)"

lemma escaped_simps [simp]: "escaped [] = []" "escaped (c # cs) = esc c @ escaped cs" "text_of [] = []" "text_of (c # cs) = enc c @ text_of cs"
  by (simp_all add: escaped_def text_of_def)

lemma escape_loop_text:
  "list_all bmp_scalar cs \<Longrightarrow>
   escape_loop k (text_of cs) = Some (if cs = [] \<or> length (escaped cs) < k then Some (escaped cs) else None)"
proof (induction cs arbitrary: k)
  case (Cons c cs)
  obtain b s where e: "enc c = b # s" using enc_first [of c] Cons.prems by force
  have "char_at (b # s @ text_of cs) = Some (uint c, text_of cs)"
    using char_at_enc [of c "text_of cs"] Cons.prems e by simp
  moreover have "esc c \<noteq> []" using e by (simp add: esc_def escape_char_def)
  ultimately show ?case using Cons e by (cases "escape_char (uint c)") (auto simp: esc_def Let_def)
qed simp

lemma escape_char_cases:
  assumes "escape_char (uint c) = Some t"
  obtains (lt) "t = ''&lt;''" "enc c = ''<''" | (gt) "t = ''&gt;''" "enc c = ''>''"
  | (amp) "t = ''&amp;''" "enc c = ''&''" | (quot) "t = ''&quot;''" "enc c = [CHR 0x22]"
proof -
  have e: "enc 60 = ''<''" "enc 62 = ''>''" "enc 38 = ''&''" "enc 34 = [CHR 0x22]" by code_simp+
  have "uint c = 60 \<Longrightarrow> c = 60" "uint c = 62 \<Longrightarrow> c = 62" "uint c = 38 \<Longrightarrow> c = 38" "uint c = 34 \<Longrightarrow> c = 34"
    by (simp_all add: word_uint_eq_iff)
  then show thesis using assms e lt gt amp quot by (auto simp: escape_char_def split: if_splits)
qed

lemma output_escaped_text:
  assumes "list_all bmp_scalar cs" "output_escaped (Some (text_of cs)) w = Some (v, True)"
  shows "v = add_out (escaped cs) w"
  using assms by (auto simp: output_escaped_def escape_loop_text split: if_splits option.splits)

text \<open>The scanner reads escaped text as it was.\<close>

lemma xml_reference_entities:
  "xml_reference (''lt;'' @ s) = Some (Some (''<'', s))" "xml_reference (''gt;'' @ s) = Some (Some (''>'', s))"
  "xml_reference (''amp;'' @ s) = Some (Some (''&'', s))" "xml_reference (''quot;'' @ s) = Some (Some ([CHR 0x22], s))"
  by (simp_all add: xml_reference_def xml_refs_def xml_entity_def Let_def)

lemma xml_loop_text:
  "list_all text_char cs \<Longrightarrow> x_token p = XML_TEXT \<Longrightarrow>
   xml_loop 1 (escaped cs @ s) p = xml_loop 1 s (p\<lparr>x_content := x_content p @ text_of cs\<rparr>)"
proof (induction cs arbitrary: p)
  case (Cons c cs)
  have c: "bmp_scalar c" "xml_char (uint c)" using Cons.prems by (simp_all add: text_char_def)
  have "xml_loop 1 (esc c @ escaped cs @ s) p = xml_loop 1 (escaped cs @ s) (p\<lparr>x_content := x_content p @ enc c\<rparr>)"
  proof (cases "escape_char (uint c)")
    case None
    obtain b t where e: "enc c = b # t" "unat c < 128 \<Longrightarrow> b = chr (unat c)" "128 \<le> unat c \<Longrightarrow> cv b < 0"
      using enc_first [OF c(1)] by metis
    have "b \<noteq> CHR ''&''" "b \<noteq> CHR ''<''"
      using None e(2,3) cv_chr [of "unat c"] by (cases "unat c < 128"; auto simp: escape_char_def cv_def split: if_splits)+
    moreover have "char_at (b # t @ escaped cs @ s) = Some (uint c, escaped cs @ s)"
      using char_at_enc [OF c(1), of "escaped cs @ s"] e(1) by simp
    moreover obtain bs where "utf8_encode c = Some bs" using c(1) by (auto elim: encodes)
    ultimately show ?thesis using None e(1) c(2) Cons.prems(2)
      by (simp add: esc_def enc_def xml_loop.simps(2) [of "Suc 0"] add_text_def)
  next
    case (Some t)
    then have "esc c = t" by (simp add: esc_def)
    with Some show ?thesis using Cons.prems(2)
      by (cases rule: escape_char_cases) (simp_all add: xml_loop.simps(2) [of "Suc 0"] xml_reference_entities [simplified] add_text_def)
  qed
  then show ?case using Cons by simp
qed simp

text \<open>The rules of the scanner for well formed input.\<close>

lemma xml_loop_tag_start: "xml_loop 0 (CHR ''<'' # s) p = xml_loop 2 s p" "xml_loop 1 (CHR ''<'' # s) p = xml_loop 2 s p"
  by (simp_all add: xml_loop.simps(2) [of 0] xml_loop.simps(2) [of "Suc 0"])

lemma xml_loop_space: "ws (cv b) \<Longrightarrow> xml_loop 0 (b # s) p = xml_loop 0 (trim s) p"
  by (auto simp: xml_loop.simps(2) [of 0] ws_def cv_def)

lemma xml_loop_text_start:
  "b \<noteq> CHR ''<'' \<Longrightarrow> \<not> ws (cv b) \<Longrightarrow> xml_loop 0 (b # s) p = xml_loop 1 (b # s) (p\<lparr>x_content := [], x_token := XML_TEXT\<rparr>)"
  by (simp add: xml_loop.simps(2) [of 0])

lemma xml_loop_text_end:
  "x_token p = XML_TEXT \<Longrightarrow> b \<noteq> CHR ''!'' \<Longrightarrow>
   xml_loop 2 (b # s) p = Some (p\<lparr>x_state := 2, x_data := b # s, x_token := XML_NONE\<rparr>, XML_TEXT)"
  by (simp add: xml_loop.simps(2) [of 2])

lemma xml_loop_tag:
  assumes "x_token p \<noteq> XML_TEXT" "b \<noteq> CHR ''!''" "b \<noteq> CHR ''?''" "CHR ''>'' \<in> set s" "xml_tag (b # s) p = Some (Some (q, r))"
  shows "xml_loop 2 (b # s) p = Some (q\<lparr>x_data := r, x_state := 0\<rparr>, x_token q)"
  using assms by (simp add: xml_loop.simps(2) [of 2])

text \<open>Names of letters and digits that begin with a letter.\<close>

definition plain_char :: "char \<Rightarrow> bool" where
  "plain_char b \<longleftrightarrow> alpha (cv b) \<or> digit (cv b)"

definition plain_name :: "string \<Rightarrow> bool" where
  "plain_name s \<longleftrightarrow> s \<noteq> [] \<and> alpha (cv (hd s)) \<and> list_all plain_char s"

lemma cv_less: "cv b < 128"
proof -
  have "(of_char b :: int) < 256" by simp
  then have "(of_char b :: int) - 256 < 128" by linarith
  then show ?thesis by (auto simp only: cv_def Let_def split: if_split)
qed

lemma enc_ascii: "0 < cv b \<Longrightarrow> bmp_scalar (word_of_int (cv b)) \<and> uint (word_of_int (cv b) :: u32) = cv b \<and> enc (word_of_int (cv b)) = [b]"
proof -
  assume b: "0 < cv b"
  have "\<not> 256 < (of_char b :: int)" using of_char_lt_256(2) [of b] by linarith
  then have n: "(of_char b :: int) = cv b" "cv b < 128" using b by (auto simp: cv_def Let_def split: if_splits)
  let ?c = "word_of_int (cv b) :: u32"
  have u: "uint ?c = cv b" using b n(2) by (simp add: unsigned_of_int take_bit_int_eq_self)
  then have un: "unat ?c = nat (cv b)" by (simp add: unat_eq_nat_uint)
  have "nat (cv b) < 128" using n(2) b by simp
  with un have c: "bmp_scalar ?c" by (simp add: bmp_scalar_def)
  have "int (of_char b) = cv b" by (simp only: of_nat_of_char n(1))
  then have v: "nat (cv b) = of_char b" by linarith
  obtain d t where "enc ?c = d # t" "unat ?c < 128 \<Longrightarrow> d = chr (unat ?c) \<and> t = []" using enc_first [OF c] by blast
  then have "enc ?c = [b]" using un v n(2) b by (simp add: chr_def)
  with c u show ?thesis by simp
qed

lemma char_at_ascii: "0 < cv b \<Longrightarrow> char_at (b # s) = Some (cv b, s)"
  using char_at_enc [of "word_of_int (cv b)" s] enc_ascii [of b] by simp

lemma plain_char_name: "plain_char b \<Longrightarrow> 0 < cv b \<and> name_char (cv b)" "alpha (cv b) \<Longrightarrow> 0 < cv b \<and> name_start (cv b) \<and> plain_char b"
  by (auto simp: plain_char_def name_char_def name_start_def char_class_defs)

lemma name_loop_plain:
  assumes "list_all plain_char n" "0 < cv b" "\<not> name_char (cv b)"
  shows "name_loop False (n @ b # s) = Some (b # s)"
  using assms(1)
proof (induction n)
  case Nil
  then show ?case using assms(2,3) by (subst name_loop.simps) (simp add: char_at_ascii)
next
  case (Cons c n)
  then show ?case using plain_char_name(1) [of c] by (subst name_loop.simps) (simp add: char_at_ascii)
qed

lemma xml_name_plain:
  assumes "plain_name n" "0 < cv b" "\<not> name_char (cv b)"
  shows "xml_name (n @ b # s) = Some (n, b # s)"
proof -
  obtain c m where n: "n = c # m" "alpha (cv c)" "list_all plain_char m" using assms(1) by (cases n) (auto simp: plain_name_def)
  have "name_loop True (n @ b # s) = Some (b # s)"
    unfolding n(1) append_Cons using n plain_char_name(2) [of c] name_loop_plain [OF n(3) assms(2,3)]
    by (subst name_loop.simps) (simp add: char_at_ascii)
  then show ?thesis by (simp add: xml_name_def)
qed

lemma tag_end_char: "0 < cv (CHR ''>'')" "\<not> name_char (cv (CHR ''>''))" "\<not> ws (cv (CHR ''>''))" "\<not> alpha (cv (CHR ''/''))"
    "\<not> alpha (cv (CHR ''!''))" "\<not> alpha (cv (CHR ''?''))"
  by (simp_all add: cv_def name_char_def name_start_def char_class_defs)

lemma xml_tag_plain:
  assumes "plain_name n"
  shows "xml_tag (n @ ''>'' @ s) p = Some (Some (p\<lparr>x_name := n, x_token := START_TAG\<rparr>, s))"
    and "xml_tag (''/'' @ n @ ''>'' @ s) p = Some (Some (p\<lparr>x_name := n, x_token := END_TAG\<rparr>, s))"
proof -
  have "n \<noteq> []" "hd n \<noteq> CHR ''/''" using assms tag_end_char(4) by (auto simp: plain_name_def)
  then have "hd (n @ ''>'' @ s) \<noteq> CHR ''/''" by simp
  moreover note xml_name_plain [OF assms tag_end_char(1,2), of s]
  ultimately show "xml_tag (n @ ''>'' @ s) p = Some (Some (p\<lparr>x_name := n, x_token := START_TAG\<rparr>, s))"
    and "xml_tag (''/'' @ n @ ''>'' @ s) p = Some (Some (p\<lparr>x_name := n, x_token := END_TAG\<rparr>, s))"
    using tag_end_char(3) by (simp_all add: xml_tag_def)
qed

lemma xml_loop_plain_tag:
  assumes "plain_name n" "x_token p \<noteq> XML_TEXT"
  shows "xml_loop 2 (n @ ''>'' @ s) p = Some (p\<lparr>x_name := n, x_token := START_TAG, x_data := s, x_state := 0\<rparr>, START_TAG)"
    and "xml_loop 2 (''/'' @ n @ ''>'' @ s) p = Some (p\<lparr>x_name := n, x_token := END_TAG, x_data := s, x_state := 0\<rparr>, END_TAG)"
proof -
  obtain c m where n: "n = c # m" "c \<noteq> CHR ''!''" "c \<noteq> CHR ''?''" using assms(1) tag_end_char by (cases n) (auto simp: plain_name_def)
  show "xml_loop 2 (n @ ''>'' @ s) p = Some (p\<lparr>x_name := n, x_token := START_TAG, x_data := s, x_state := 0\<rparr>, START_TAG)"
    using xml_loop_tag [of p c "m @ ''>'' @ s"] xml_tag_plain(1) [OF assms(1), of s p] assms(2) n by simp
  show "xml_loop 2 (''/'' @ n @ ''>'' @ s) p = Some (p\<lparr>x_name := n, x_token := END_TAG, x_data := s, x_state := 0\<rparr>, END_TAG)"
    using xml_loop_tag [of p "CHR ''/''" "n @ ''>'' @ s"] xml_tag_plain(2) [OF assms(1), of s p] assms(2) by simp
qed

subsection \<open>Attribute values\<close>

lemma encode_bytes:
  assumes "bmp_scalar c" "utf8_encode c = Some bs" "b \<in> set bs"
  shows "unat b = unat c \<or> 128 \<le> unat b"
proof -
  have c: "unat c < 0x10000" using assms(1) by (auto simp: bmp_scalar_def)
  show ?thesis using assms(2) c
  proof (cases rule: utf8_encode_cases)
    case 1
    then show ?thesis using assms(3) by (simp add: unsigned_ucast_eq take_bit_nat_eq_self)
  next
    case 2
    then show ?thesis using assms(3) by (auto simp: cont_byte_def bit_simps intro!: high_byte)
  next
    case 3
    then show ?thesis using assms(3) by (auto simp: cont_byte_def bit_simps intro!: high_byte)
  qed
qed

text \<open>The reader of attribute values writes an ampersand behind every character that was escaped.\<close>

definition att_text :: "u32 list \<Rightarrow> string" where
  "att_text cs = concat (map (\<lambda>c. if escape_char (uint c) = None then enc c else enc c @ ''&'') cs)"

lemma att_loop_plain:
  "list_all (\<lambda>b. b \<noteq> CHR ''<'' \<and> b \<noteq> CHR ''&'' \<and> b \<noteq> q) t \<Longrightarrow> att_loop q acc (t @ s) = att_loop q (acc @ t) s"
  by (induction t arbitrary: acc) auto

lemma enc_not_special:
  assumes "bmp_scalar c" "escape_char (uint c) = None"
  shows "list_all (\<lambda>b. b \<noteq> CHR ''<'' \<and> b \<noteq> CHR ''&'' \<and> b \<noteq> CHR 0x22) (enc c)"
proof -
  obtain bs where bs: "utf8_encode c = Some bs" using assms(1) by (auto elim: encodes)
  have "chr (unat b) \<noteq> CHR ''<'' \<and> chr (unat b) \<noteq> CHR ''&'' \<and> chr (unat b) \<noteq> CHR 0x22" if "b \<in> set bs" for b
  proof -
    have b: "unat b = unat c \<or> 128 \<le> unat b" using encode_bytes [OF assms(1) bs that] .
    have "unat b < 256" using unsigned_less [of b] by simp
    then have "cv (chr (unat b)) = uint c \<or> cv (chr (unat b)) < 0"
      using b cv_chr [of "unat b"] cv_chr_high [of "unat b"] by (cases "unat b < 128") auto
    then show ?thesis using assms(2) by (auto simp: escape_char_def cv_def)
  qed
  then show ?thesis using bs by (auto simp: enc_def bytes_string_def list_all_iff)
qed

lemma att_loop_escaped:
  "list_all bmp_scalar cs \<Longrightarrow> att_loop (CHR 0x22) acc (escaped cs @ s) = att_loop (CHR 0x22) (acc @ att_text cs) s"
proof (induction cs arbitrary: acc)
  case (Cons c cs)
  show ?case
  proof (cases "escape_char (uint c)")
    case None
    then show ?thesis using Cons att_loop_plain [OF enc_not_special [of c]] by (simp add: esc_def att_text_def)
  next
    case (Some t)
    then have "esc c = t" "att_text (c # cs) = enc c @ ''&'' @ att_text cs" by (simp_all add: esc_def att_text_def)
    with Some show ?thesis using Cons
      by (cases rule: escape_char_cases) (simp_all add: xml_reference_entities [simplified])
  qed
qed (simp add: att_text_def)

lemma output_quoted_text:
  assumes "list_all bmp_scalar cs" "v = Text bs \<or> v = Uri_Text bs" "bytes_string bs = text_of cs" "output_quoted v w = Some (u, True)"
  shows "o_text u = o_text w @ CHR 0x22 # escaped cs @ [CHR 0x22]"
  using assms
  by (auto simp: output_quoted_def output_value_def output_char_def add_out_def bind_eq_Some_conv split: if_splits
    dest!: output_escaped_text [OF assms(1)])

text \<open>C26: The value of a text attribute that was written is read back, by the reader of attributes from what was written, exactly
  if it has no special character: behind every escaped character the reader leaves the ampersand that began it.\<close>
theorem attribute_read_back_iff:
  assumes "list_all bmp_scalar cs" "v = Text bs \<or> v = Uri_Text bs" "bytes_string bs = text_of cs" "output_quoted v w = Some (u, True)"
  shows "att_value (drop (length (o_text w)) (o_text u) @ rest) = Some (Some (text_of cs, rest)) \<longleftrightarrow>
    list_all (\<lambda>c. c \<notin> {0x3c, 0x3e, 0x26, 0x22}) cs"
proof -
  have "drop (length (o_text w)) (o_text u) @ rest = CHR 0x22 # escaped cs @ CHR 0x22 # rest"
    using output_quoted_text [OF assms] by simp
  then have "att_value (drop (length (o_text w)) (o_text u) @ rest) = Some (Some (att_text cs, rest))"
    using att_loop_escaped [OF assms(1), of "[]" "CHR 0x22 # rest"] by (simp add: att_value_def)
  moreover have "att_text cs = text_of cs \<longleftrightarrow> list_all (\<lambda>c. escape_char (uint c) = None) cs"
  proof -
    have len: "length (text_of ds) \<le> length (att_text ds)" for ds by (induction ds) (auto simp: att_text_def)
    show ?thesis
    proof (induction cs)
      case (Cons c cs)
      show ?case
      proof (cases "escape_char (uint c)")
        case (Some t)
        have "length (text_of (c # cs)) < length (att_text (c # cs))" using Some len [of cs] by (simp add: att_text_def)
        then show ?thesis using Some by auto
      qed (use Cons in \<open>simp add: att_text_def\<close>)
    qed (simp add: att_text_def)
  qed
  moreover have "escape_char (uint c) = None \<longleftrightarrow> c \<notin> {0x3c, 0x3e, 0x26, 0x22}" for c :: u32
    by (auto simp: escape_char_def word_uint_eq_iff)
  ultimately show ?thesis by (simp add: list_all_iff)
qed

definition attribute_out :: xml_out where
  "attribute_out = (output_init \<lparr>namespace = [], schemaId = [], schema_length = 1, elements = [El XS_STRING 1 1 1 0 True True False],
     names = (\<lambda>_. ''a''), ids = []\<rparr> 100)\<lparr>o_text := '' a=''\<rparr>"

theorem attribute_read_back_iff_witness:
  "\<exists>u. output_quoted (Text [0x26]) attribute_out = Some (u, True) \<and> o_text u = '' a='' @ [CHR 0x22] @ ''&amp;'' @ [CHR 0x22] \<and>
     att_value (drop 3 (o_text u) @ ''>'') \<noteq> Some (Some (''&'', ''>''))"
proof -
  have t: "escaped [0x26] = ''&amp;''" "text_of [0x26] = ''&''" "bytes_string [0x26] = ''&''" by code_simp+
  have c: "list_all bmp_scalar [0x26]" by (simp add: bmp_scalar_def)
  have "map_option (\<lambda>(u, r). (o_text u, r)) (output_quoted (Text [0x26]) attribute_out) =
      Some ('' a='' @ [CHR 0x22] @ ''&amp;'' @ [CHR 0x22], True)"
    by code_simp
  then obtain u where u: "output_quoted (Text [0x26]) attribute_out = Some (u, True)" "o_text u = '' a='' @ [CHR 0x22] @ ''&amp;'' @ [CHR 0x22]"
    by auto
  then show ?thesis
    using attribute_read_back_iff [OF c disjI1 [OF refl] t(3) [folded t(2)] u(1), of "''>''"] t(2)
    by (auto simp: attribute_out_def output_init_def)
qed

end
