(* ===== verification/Xml_Values.thy ===== *)
theory Xml_Values
  imports Xml_Output
begin

section \<open>Values in XML (core/xml_parse.c)\<close>

text \<open>
  The values of elements and attributes are read from their texts. The result of a reader is \<open>None\<close>
  where the code returns 0. What is written and read again is shown to be the same at the end.
\<close>

subsection \<open>Readers\<close>

definition unsigned_int :: "string \<Rightarrow> u64 option" where
  "unsigned_int data = (case number64 data of Some (x, rest) \<Rightarrow> if only rest then Some x else None | None \<Rightarrow> None)"

text \<open>The magnitude is read without a sign and multiplied as an \<open>int64_t\<close>.\<close>

definition signed_int :: "string \<Rightarrow> int option" where
  "signed_int data =
     (if data \<noteq> [] \<and> hd data = CHR ''-'' then map_option (\<lambda>y. sint (- y)) (unsigned_int (tl data))
      else map_option sint (unsigned_int data))"

text \<open>The bytes that the digits stand for are moved to the end of the field of \<open>n\<close> bytes.\<close>

fun hex_pairs :: "nat \<Rightarrow> string \<Rightarrow> (u8 list \<times> string) option" where
  "hex_pairs n [] = Some ([], [])"
| "hex_pairs n (d # data) =
     (let c = hex_digit (cv d) in
      if c = 0 then Some ([], d # data)
      else if n = 0 then None
      else case data of
        [] \<Rightarrow> None
      | e # data \<Rightarrow>
          let f = hex_digit (cv e) in
          if f = 0 then None
          else map_option (\<lambda>(bs, r). (word_of_int ((cv d - c) * 16 + (cv e - f)) # bs, r)) (hex_pairs (n - 1) data))"

definition parse_hex :: "nat \<Rightarrow> string \<Rightarrow> u8 list option" where
  "parse_hex n data =
     (case hex_pairs n data of
        None \<Rightarrow> None
      | Some (bs, rest) \<Rightarrow> if bs = [] \<or> \<not> only rest then None else Some (replicate (n - length bs) 0 @ bs))"

text \<open>The value of a number of a type: what its field keeps of it.\<close>

definition pack_number :: "int \<Rightarrow> int \<Rightarrow> int" where
  "pack_number t x =
     (if t = XS_LONG then sint (word_of_int x :: u64) else if t = XS_INT then sint (word_of_int x :: u32)
      else if t = XS_SHORT then sint (word_of_int x :: u16) else if t = XS_BYTE then sint (word_of_int x :: u8)
      else if t = XS_ULONG then uint (word_of_int x :: u64) else if t = XS_UINT then uint (word_of_int x :: u32)
      else if t = XS_USHORT then uint (word_of_int x :: u16) else uint (word_of_int x :: u8))"

definition signed_type :: "int \<Rightarrow> bool" where
  "signed_type t \<longleftrightarrow> t \<in> {XS_LONG, XS_INT, XS_SHORT, XS_BYTE}"

text \<open>
  \<open>old\<close> is what the field holds, \<open>data\<close> the text of the token up to a NUL. The first result is whether
  the parser state becomes invalid; the second is the value that is stored.
\<close>

definition parse_value :: "int \<Rightarrow> nat \<Rightarrow> string \<Rightarrow> exi_value \<Rightarrow> (bool \<times> exi_value option) option" where
  "parse_value type flag data old =
     (let t = xs_base type; n = nat (xs_length type) in
      if t = XS_STRING then
        Some (False, if n \<noteq> 0 \<and> length data > n - 1 then None else Some (Text (char_bytes data)))
      else if t = XS_BOOLEAN then
        (case old of Flags f \<Rightarrow>
           Some (if data = ''true'' \<or> data = ''1'' then (False, Some (Flags (or f (push_bit flag 1))))
                 else if data = ''false'' \<or> data = ''0'' then (False, Some (Flags f)) else (True, None))
         | _ \<Rightarrow> None)
      else if t = XS_HEX_BINARY then
        (case old of Bytes b \<Rightarrow> Some (False, map_option Bytes (parse_hex n data)) | _ \<Rightarrow> None)
      else if t = XS_ANY_URI then Some (False, Some (Uri_Text (char_bytes data)))
      else if number_type t then
        Some (False, map_option (\<lambda>x. Number (pack_number t x))
          (if signed_type t then signed_int data else map_option uint (unsigned_int data)))
      else Some (False, None))"

subsection \<open>Numbers and bytes are read as they were written\<close>

lemma cv_hex_char: "x < 16 \<Longrightarrow> cv (hex_char x) = (if x < 10 then 48 + int x else 87 + int x)"
  using cv_chr [of "48 + x"] cv_chr [of "97 + (x - 10)"] by (auto simp: hex_char_def)

lemma hex_char_digit:
  "x < 16 \<Longrightarrow> hex_digit (cv (hex_char x)) \<noteq> 0 \<and> cv (hex_char x) - hex_digit (cv (hex_char x)) = int x"
  by (auto simp: cv_hex_char hex_digit_def char_class_defs)

lemma nibbles: "unat (drop_bit 4 (b :: u8)) < 16" "unat (b AND 0xf) < 16"
  "word_of_int (int (unat (drop_bit 4 b)) * 16 + int (unat (b AND 0xf))) = (b :: u8)"
proof -
  have d: "unat (drop_bit 4 b) = unat b div 16" by (simp add: unat_drop_div)
  have "(0xf :: u8) = mask 4" by (simp add: mask_eq_exp_minus_1)
  then have "b AND 0xf = take_bit 4 b" by (simp add: take_bit_eq_mask)
  then have "unat (b AND 0xf) = take_bit 4 (unat b)" by (simp only: unsigned_take_bit_eq)
  then have m: "unat (b AND 0xf) = unat b mod 2 ^ 4" by (simp only: take_bit_eq_mod)
  have "unat b < 256" using unsigned_less [of b] by simp
  then show "unat (drop_bit 4 b) < 16" "unat (b AND 0xf) < 16" using d m by auto
  have "int (unat (drop_bit 4 b)) * 16 + int (unat (b AND 0xf)) = int (unat b)" unfolding d m using zmod_int [of "unat b" 16] by (simp add: zdiv_int)
  then show "word_of_int (int (unat (drop_bit 4 b)) * 16 + int (unat (b AND 0xf))) = (b :: u8)" by simp
qed

lemma hex_pairs_text: "length bs \<le> n \<Longrightarrow> hex_pairs n (hex_text bs) = Some (bs, [])"
proof (induction bs arbitrary: n)
  case (Cons b bs)
  then obtain m where n: "n = Suc m" "length bs \<le> m" by (cases n) auto
  show ?case using Cons.IH [OF n(2)] hex_char_digit [OF nibbles(1) [of b]] hex_char_digit [OF nibbles(2) [of b]] nibbles(3) [of b] n(1)
    by (simp add: hex_text_def Let_def)
qed (simp add: hex_text_def)

lemma skip_zeros: "b \<noteq> [] \<Longrightarrow> skip_zeros b \<noteq> [] \<and> length (skip_zeros b) \<le> length b \<and>
    replicate (length b - length (skip_zeros b)) 0 @ skip_zeros b = b"
  by (induction b rule: skip_zeros.induct) (auto simp: Suc_diff_le)

lemma parse_hex_text: "b \<noteq> [] \<Longrightarrow> parse_hex (length b) (hex_text (skip_zeros b)) = Some b"
  using skip_zeros [of b] hex_pairs_text [of "skip_zeros b" "length b"] by (simp add: parse_hex_def only_def)

lemma unsigned_int_text: "unsigned_int (show_nat n) = Some (word_of_nat n)"
  using number64_show_nat [of "[]" n] by (simp add: unsigned_int_def starts_with_digit_def only_def)

lemma signed_int_text: "signed_int (show_int x) = Some (sint (word_of_int x :: u64))"
proof (cases "x < 0")
  case True
  then have "- (word_of_nat (nat (- x)) :: u64) = word_of_int x" by (simp add: word_of_nat_eq_iff flip: wi_hom_neg)
  then show ?thesis using True by (simp add: signed_int_def show_int_def unsigned_int_text)
next
  case False
  have "hd (show_nat (nat x)) \<in> set (show_nat (nat x))" by simp
  then have "48 \<le> cv (hd (show_nat (nat x)))" using set_show_nat by blast
  then have "hd (show_nat (nat x)) \<noteq> CHR ''-''" by (auto simp: cv_def)
  then show ?thesis using False by (simp add: signed_int_def show_int_def unsigned_int_text)
qed

lemma pack_number_range:
  assumes "number_type t" "pack_number t x = x"
  shows "if signed_type t then sint (word_of_int x :: u64) = x else 0 \<le> x \<and> uint (word_of_int x :: u64) = x"
proof -
  have r: "signed_take_bit n x = x \<Longrightarrow> n \<le> 63 \<Longrightarrow> signed_take_bit 63 x = x" for n
  proof -
    assume a: "signed_take_bit n x = x" "n \<le> 63"
    have "signed_take_bit 63 (signed_take_bit n x) = signed_take_bit (min 63 n) x" by (rule signed_take_bit_signed_take_bit)
    then show ?thesis using a by (simp add: min_def split: if_splits)
  qed
  have q: "take_bit n x = x \<Longrightarrow> n \<le> 64 \<Longrightarrow> take_bit 64 x = x" for n
  proof -
    assume a: "take_bit n x = x" "n \<le> 64"
    have "take_bit 64 (take_bit n x) = take_bit (min 64 n) x" by (rule take_bit_take_bit)
    then show ?thesis using a by (simp add: min_def split: if_splits)
  qed
  have p: "take_bit n x = x \<Longrightarrow> 0 \<le> x" for n using take_bit_nonnegative [of n x] by simp
  show ?thesis
    using assms r [of 31] r [of 15] r [of 7] q [of 32] q [of 16] q [of 8] p [of 64] p [of 32] p [of 16] p [of 8]
    by (auto simp: number_type_def pack_number_def signed_type_def xs_defs signed_of_int unsigned_of_int)
qed

lemma read_number:
  assumes "number_type t" "pack_number t x = x"
  shows "(if signed_type t then signed_int (show_int x) else map_option uint (unsigned_int (show_int x))) = Some x"
  using pack_number_range [OF assms] signed_int_text [of x] unsigned_int_text [of "nat x"]
  by (auto simp: show_int_def split: if_splits)

end
