(* ===== verification/Xml_Parse.thy ===== *)
theory Xml_Parse
  imports Xml_Values Uri
begin

section \<open>Parsing XML documents (core/xml_parse.c)\<close>

text \<open>
  The XML driver of \<open>parse_doc\<close>. \<open>r_ptr\<close> is the text of the value that is read next. The pointer to
  what has not been parsed, for the buffer of the connection, is not kept: \<open>xml_rebuffer\<close> is given
  the data that was read since.
\<close>

record xml_reader =
  r_xml :: xml_parser
  r_ptr :: string
  r_token :: token_type
  r_need :: bool
  r_empty :: bool
  r_decl :: bool

type_synonym xml_in = "xml_reader parser"

definition upd_reader :: "(xml_reader \<Rightarrow> xml_reader) \<Rightarrow> xml_in \<Rightarrow> xml_in" where
  "upd_reader f p = p\<lparr>q_driver := f (q_driver p)\<rparr>"

definition need_token :: "xml_in \<Rightarrow> xml_in" where
  "need_token = upd_reader (\<lambda>r. r\<lparr>r_need := True\<rparr>)"

subsection \<open>Tokens\<close>

definition parse_token :: "xml_in \<Rightarrow> (xml_in \<times> token_type) option" where
  "parse_token p =
     (if \<not> r_need (q_driver p) then Some (p, r_token (q_driver p))
      else do { (x, t) \<leftarrow> xml_token (r_xml (q_driver p));
                let p = upd_reader (\<lambda>r. r\<lparr>r_xml := x, r_token := t\<rparr>) p;
                Some (if t = XML_INVALID then invalid_parser p
                      else if t = XML_INCOMPLETE then p
                      else upd_reader (\<lambda>r. r\<lparr>r_need := False\<rparr>) p, t) })"

definition parse_text :: "xml_in \<Rightarrow> (xml_in \<times> bool) option" where
  "parse_text p =
     do { (p, t) \<leftarrow> parse_token p;
          Some (if t = XML_TEXT then (need_token (upd_reader (\<lambda>r. r\<lparr>r_ptr := c_str (x_content (r_xml r))\<rparr>) p), True)
                else if t = END_TAG then (upd_reader (\<lambda>r. r\<lparr>r_ptr := []\<rparr>) p, True)
                else (p, False)) }"

definition parse_field :: "exi_value \<Rightarrow> xml_in \<Rightarrow> (xml_in \<times> exi_value option) option" where
  "parse_field old p =
     do { se \<leftarrow> element (q_schema p) (q_se p);
          (bad, v) \<leftarrow> parse_value (se_index se) (q_flag p) (r_ptr (q_driver p)) old;
          Some (if bad then invalid_parser p else p, v) }"

definition parse_text_value :: "exi_value \<Rightarrow> xml_in \<Rightarrow> (xml_in \<times> exi_value option) option" where
  "parse_text_value old p =
     do { (p, r) \<leftarrow> parse_text p; if r then parse_field old p else Some (p, None) }"

definition start_tag :: "int \<Rightarrow> xml_in \<Rightarrow> (xml_in \<times> bool) option" where
  "start_tag i p =
     do { name \<leftarrow> se_name i (q_schema p);
          se \<leftarrow> element (q_schema p) i;
          (p, t) \<leftarrow> parse_token p;
          Some (if t = START_TAG \<or> t = EMPTY_TAG then
                  if r_empty (q_driver p) then (invalid_parser p, False)
                  else if name \<noteq> x_name (r_xml (q_driver p)) then (p, False)
                  else let e = (t = EMPTY_TAG); p = upd_reader (\<lambda>r. r\<lparr>r_empty := e, r_need := True\<rparr>) p in
                    if e \<and> se_simple se then (invalid_parser p, False) else (p, True)
                else if t = END_TAG \<or> t = XML_INCOMPLETE then (p, False)
                else (invalid_parser p, False)) }"

definition end_tag :: "int \<Rightarrow> xml_in \<Rightarrow> (xml_in \<times> bool) option" where
  "end_tag i p =
     do { name \<leftarrow> se_name i (q_schema p);
          (p, t) \<leftarrow> parse_token p;
          Some (if t = END_TAG \<and> name = x_name (r_xml (q_driver p)) then (need_token p, True) else (p, False)) }"

subsection \<open>The root element\<close>

text \<open>
  \<open>bsearch\<close> finds a name in the sorted names of the schema; of the library function the code uses
  only that, so the model looks through the names in order.
\<close>

definition find_se_name :: "schema \<Rightarrow> string \<Rightarrow> int option" where
  "find_se_name sc name = List.find (\<lambda>i. names sc i = name) [0 .. schema_length sc - 1]"

text \<open>More than one XML declaration is refused.\<close>

partial_function (option) xml_start_loop :: "xml_in \<Rightarrow> (xml_in \<times> bool) option" where
  "xml_start_loop p =
     Option.bind (parse_token p) (\<lambda>(p, t).
       if t = XML_DECL then
         if r_decl (q_driver p) then Some (invalid_parser p, False)
         else xml_start_loop (upd_reader (\<lambda>r. r\<lparr>r_decl := True, r_need := True\<rparr>) p)
       else if t = START_TAG \<or> t = EMPTY_TAG then
         (case find_se_name (q_schema p) (x_name (r_xml (q_driver p))) of
            None \<Rightarrow> Some (invalid_parser p, False)
          | Some i \<Rightarrow>
              let e = (t = EMPTY_TAG) in
              Some (upd_reader (\<lambda>r. r\<lparr>r_empty := e, r_need := \<not> e\<rparr>) (p\<lparr>q_type := i, q_se := i\<rparr>), True))
       else if t = XML_INCOMPLETE then Some (p, False)
       else Some (invalid_parser p, False))"

definition xml_start :: "xml_in \<Rightarrow> (xml_in \<times> bool) option" where
  "xml_start p = xml_start_loop (need_token p)"

subsection \<open>The next element\<close>

text \<open>
  The content of an element that is not in the schema is skipped by counting tags. When the data ends
  in between, the depth is forgotten.
\<close>

partial_function (option) skip_loop :: "nat \<Rightarrow> xml_in \<Rightarrow> (xml_in \<times> bool) option" where
  "skip_loop depth p =
     (if depth = 0 then Some (p, True)
      else Option.bind (xml_token (r_xml (q_driver p))) (\<lambda>(x, t).
        let p = upd_reader (\<lambda>r. r\<lparr>r_xml := x\<rparr>) p in
        if t = START_TAG then skip_loop (depth + 1) p
        else if t = END_TAG then skip_loop (depth - 1) p
        else if t = XML_INCOMPLETE \<or> t = XML_INVALID then Some (p, False)
        else skip_loop depth p))"

definition xml_skip_unknown :: "xml_in \<Rightarrow> (xml_in \<times> bool) option" where
  "xml_skip_unknown p =
     (if r_token (q_driver p) = EMPTY_TAG then Some (need_token p, True) else skip_loop 1 (need_token p))"

text \<open>The first element of a sequence with a name, but no attribute.\<close>

partial_function (option) find_in_sequence :: "schema \<Rightarrow> string \<Rightarrow> int \<Rightarrow> int option option" where
  "find_in_sequence sc name i =
     Option.bind (element sc i) (\<lambda>se.
       if se_n se = 0 then Some None
       else Option.bind (se_name i sc) (\<lambda>n.
         if \<not> se_attribute se \<and> n = name then Some (Some i) else find_in_sequence sc name (i + 1)))"

text \<open>\<open>se\<close> is the number of the element that is looked at; the loop ends when the state changes.\<close>

partial_function (option) next_loop :: "int \<Rightarrow> xml_in \<Rightarrow> (xml_in \<times> bool) option" where
  "next_loop i p =
     (if q_state p \<noteq> PARSE_NEXT then Some (p\<lparr>q_se := i - 1\<rparr>, True)
      else Option.bind (element (q_schema p) i) (\<lambda>se.
        if se_n se = 0 then
          if \<not> r_empty (q_driver p) \<and> q_stack p \<noteq> [] then
            Option.bind (parse_token p) (\<lambda>(p, t).
              if t = XML_INCOMPLETE then Some (p, False)
              else if t = XML_INVALID then next_loop (i + 1) (invalid_parser p)
              else if t = START_TAG \<or> t = EMPTY_TAG then
                Option.bind (element (q_schema p) (t_se (hd (q_stack p)))) (\<lambda>top.
                  Option.bind (find_in_sequence (q_schema p) (x_name (r_xml (q_driver p))) (se_index top + 1)) (\<lambda>f.
                    case f of
                      Some j \<Rightarrow> Option.bind (start_tag j p) (\<lambda>(p, r). next_loop (j + 1) (p\<lparr>q_state := PARSE_ELEMENT\<rparr>))
                    | None \<Rightarrow> Option.bind (xml_skip_unknown p) (\<lambda>(p, r). if r then next_loop i p else Some (p, False))))
              else next_loop (i + 1) (p\<lparr>q_state := PARSE_END\<rparr>))
          else next_loop (i + 1) (p\<lparr>q_state := PARSE_END\<rparr>)
        else if se_attribute se then
          Option.bind (se_name i (q_schema p)) (\<lambda>name.
            case attr_value (x_attr (r_xml (q_driver p))) name of
              Some v \<Rightarrow> next_loop (i + 1) ((upd_reader (\<lambda>r. r\<lparr>r_ptr := v\<rparr>) p)\<lparr>q_state := PARSE_ELEMENT\<rparr>)
            | None \<Rightarrow> next_loop (i + 1) (upd_reader (\<lambda>r. r\<lparr>r_ptr := []\<rparr>) p))
        else if \<not> r_empty (q_driver p) then
          Option.bind (start_tag i p) (\<lambda>(p, r).
            if r then next_loop (i + 1) (p\<lparr>q_state := PARSE_ELEMENT\<rparr>)
            else if r_token (q_driver p) = XML_INCOMPLETE then Some (p, False)
            else next_loop (i + 1) p)
        else next_loop (i + 1) (if se_min se \<noteq> 0 then invalid_parser p else p)))"

definition xml_next :: "xml_in \<Rightarrow> (xml_in \<times> bool) option" where
  "xml_next p = next_loop (q_se p) p"

subsection \<open>The end of elements\<close>

definition xml_end :: "int \<Rightarrow> xml_in \<Rightarrow> (xml_in \<times> bool) option" where
  "xml_end i p =
     do { (p, r) \<leftarrow> (if r_empty (q_driver p) then Some (p, True) else end_tag i p);
          Some (if r then (upd_reader (\<lambda>r. r\<lparr>r_empty := False\<rparr>) p, True) else (p, False)) }"

text \<open>
  \<open>p->state++\<close> leads to \<open>SEQUENCE_END\<close>; from \<open>PARSE_INVALID\<close>, which an empty tag of a simple element
  leaves, to a state that the loop of \<open>parse_doc\<close> does not know, so that it does not end.
\<close>

definition xml_sequence :: "stack_item \<Rightarrow> xml_in \<Rightarrow> (xml_in \<times> bool) option" where
  "xml_sequence t p =
     do { se \<leftarrow> element (q_schema p) (t_se t);
          (p, r) \<leftarrow> start_tag (t_se t) p;
          if r then Some (p, True)
          else if r_token (q_driver p) \<in> {START_TAG, EMPTY_TAG, END_TAG} then
            if t_count t < se_min se then Some (invalid_parser p, False)
            else if q_state p = PARSE_INVALID then None
            else Some (p\<lparr>q_state := SEQUENCE_END\<rparr>, False)
          else Some (p, False) }"

definition xml_rebuffer :: "string \<Rightarrow> xml_in \<Rightarrow> xml_in" where
  "xml_rebuffer d p = upd_reader (\<lambda>r. r\<lparr>r_xml := (r_xml r)\<lparr>x_data := x_data (r_xml r) @ d\<rparr>\<rparr>) p"

text \<open>\<open>parse_done\<close> only says where the data goes on.\<close>

definition xml_parser :: "xml_reader parser_driver" where
  "xml_parser =
     \<lparr>drv_start = xml_start, drv_next = xml_next, drv_end = xml_end, drv_sequence = xml_sequence,
      drv_attr_value = parse_field, drv_value = parse_text_value, drv_done = (\<lambda>p. p)\<rparr>"

definition parse_init :: "schema \<Rightarrow> string \<Rightarrow> xml_in" where
  "parse_init sc data =
     \<lparr>q_obj = new_object, q_type = 0, q_stack = [], q_schema = sc, q_se = 0, q_base = [], q_state = PARSE_START, q_flag = 0,
      q_driver = \<lparr>r_xml = \<lparr>x_name = [], x_content = [], x_attr = [], x_state = 0, x_token = XML_NONE, x_data = data\<rparr>,
        r_ptr = [], r_token = START_TAG, r_need = True, r_empty = False, r_decl = False\<rparr>\<rparr>"

text \<open>The equations of the loops also serve for evaluation.\<close>

declare xml_start_loop.simps [code] and skip_loop.simps [code] and find_in_sequence.simps [code] and next_loop.simps [code]

subsection \<open>Elements are read as they were written\<close>

lemma enc_no_nul:
  assumes "bmp_scalar c" "c \<noteq> 0"
  shows "chr 0 \<notin> set (enc c)"
proof
  assume "chr 0 \<in> set (enc c)"
  moreover obtain bs where bs: "utf8_encode c = Some bs" using assms(1) by (auto elim: encodes)
  ultimately obtain b where b: "b \<in> set bs" "chr 0 = chr (unat b)" by (auto simp: enc_def bytes_string_def)
  then have "b = of_char (chr 0)" using of_char_chr [of b] by simp
  then have "unat b = 0" using of_char_chr [of 0] by simp
  then show False using encode_bytes [OF assms(1) bs b(1)] assms(2) by (simp add: unat_eq_0)
qed

lemma c_str_text: "list_all text_char cs \<Longrightarrow> c_str (text_of cs) = text_of cs"
proof (induction cs)
  case (Cons c cs)
  then have "chr 0 \<notin> set (enc c)" using enc_no_nul by (simp add: text_char_def)
  then show ?case using Cons by (simp add: c_str_def takeWhile_append)
qed (simp add: c_str_def)

text \<open>
  A value that an element of the type can hold and whose text is kept: a text is one of XML characters
  below 0x10000 and does not begin with white space, which the scanner drops.
\<close>

definition kept_text :: "u32 list \<Rightarrow> bool" where
  "kept_text cs \<longleftrightarrow> list_all text_char cs \<and> (cs \<noteq> [] \<longrightarrow> \<not> ws (uint (hd cs)))"

definition kept_value :: "int \<Rightarrow> exi_value \<Rightarrow> bool" where
  "kept_value t v =
     (case v of
        Text s \<Rightarrow> xs_base t = XS_STRING \<and> (xs_length t = 0 \<or> int (length s) < xs_length t) \<and> (\<exists>cs. kept_text cs \<and> s = char_bytes (text_of cs))
      | Uri_Text s \<Rightarrow> xs_base t = XS_ANY_URI \<and> (\<exists>cs. kept_text cs \<and> s = char_bytes (text_of cs))
      | Flags f \<Rightarrow> xs_base t = XS_BOOLEAN
      | Bytes b \<Rightarrow> xs_base t = XS_HEX_BINARY \<and> b \<noteq> [] \<and> int (length b) = xs_length t
      | Number x \<Rightarrow> number_type (xs_base t) \<and> pack_number (xs_base t) x = x)"

text \<open>What the field holds afterwards: a boolean that is true sets its bit, one that is false leaves it.\<close>

fun stored :: "nat \<Rightarrow> exi_value \<Rightarrow> exi_value \<Rightarrow> exi_value" where
  "stored flag (Flags g) (Flags f) = Flags (if bit f flag then or g (push_bit flag 1) else g)"
| "stored flag old v = v"

text \<open>Texts without characters that are escaped.\<close>

definition plain_text :: "string \<Rightarrow> bool" where
  "plain_text s \<longleftrightarrow> list_all (\<lambda>b. 32 < cv b \<and> cv b \<notin> {60, 62, 38, 34}) s"

lemma plain_text_codes:
  assumes "plain_text s"
  shows "\<exists>cs. kept_text cs \<and> text_of cs = s \<and> escaped cs = s"
proof (intro exI conjI)
  let ?cs = "map (\<lambda>b. word_of_int (cv b)) s :: u32 list"
  have c: "text_char (word_of_int (cv b)) \<and> enc (word_of_int (cv b)) = [b] \<and> esc (word_of_int (cv b)) = [b]"
    if "32 < cv b" "cv b \<notin> {60, 62, 38, 34}" for b
  proof -
    have "cv b < 128" by (rule cv_less)
    then show ?thesis using that enc_ascii [of b]
      by (auto simp: text_char_def xml_char_def in_range_def esc_def escape_char_def)
  qed
  show "text_of ?cs = s" "escaped ?cs = s" using assms c by (induction s) (auto simp: plain_text_def)
  show "kept_text ?cs" using assms c enc_ascii
    by (cases s) (auto simp: kept_text_def plain_text_def ws_def list_all_iff)
qed

definition same_kind :: "exi_value \<Rightarrow> exi_value \<Rightarrow> bool" where
  "same_kind old v \<longleftrightarrow>
     (case v of Flags f \<Rightarrow> (case old of Flags g \<Rightarrow> True | _ \<Rightarrow> False) | Bytes b \<Rightarrow> (case old of Bytes c \<Rightarrow> True | _ \<Rightarrow> False) | _ \<Rightarrow> True)"

lemma xs_base_cases: "xs_base t = XS_STRING \<Longrightarrow> xs_base t \<noteq> XS_ANY_URI \<and> xs_base t \<noteq> XS_BOOLEAN"
  by (simp add: xs_defs)

lemma show_int_plain: "plain_text (show_int x)"
proof -
  have "plain_text (show_nat n)" for n using set_show_nat [of _ n] by (force simp: plain_text_def list_all_iff)
  then show ?thesis by (simp add: show_int_def plain_text_def cv_def)
qed

lemma hex_text_plain: "plain_text (hex_text bs)"
proof -
  have "32 < cv (hex_char x) \<and> cv (hex_char x) \<notin> {60, 62, 38, 34}" if "x < 16" for x
    using that by (auto simp: cv_hex_char)
  then show ?thesis using nibbles(1,2) by (induction bs) (auto simp: hex_text_def plain_text_def)
qed

lemma output_string_ok: "output_string s w = (v, True) \<Longrightarrow> v = add_out s w"
  by (auto simp: output_string_def split: if_splits)

lemma written_value:
  assumes "element (o_schema w) (o_se w) = Some se" "kept_value (se_index se) v"
    "output_value v w = Some (w', True)"
  shows "\<exists>cs. kept_text cs \<and> w' = add_out (escaped cs) w \<and>
    (\<forall>old. same_kind old v \<longrightarrow> parse_value (se_index se) (o_flag w) (text_of cs) old = Some (False, Some (stored (o_flag w) old v)))"
proof -
  let ?t = "se_index se"
  have plain: ?thesis if "plain_text s" "w' = add_out s w" "\<forall>old. same_kind old v \<longrightarrow> parse_value ?t (o_flag w) s old = Some (False, Some (stored (o_flag w) old v))" for s
    using plain_text_codes [OF that(1)] that(2,3) by metis
  show ?thesis
  proof (cases v)
    case (Text s)
    then obtain cs where cs: "kept_text cs" "s = char_bytes (text_of cs)" "xs_base ?t = XS_STRING" "xs_length ?t = 0 \<or> int (length s) < xs_length ?t"
      using assms(2) by (auto simp: kept_value_def)
    then have "list_all bmp_scalar cs" by (auto simp: kept_text_def text_char_def list_all_iff)
    then have "w' = add_out (escaped cs) w" using assms(1,3) Text cs output_escaped_text by (auto simp: output_value_def)
    moreover have "parse_value ?t (o_flag w) (text_of cs) old = Some (False, Some (Text s))" for old
      using cs by (auto simp: parse_value_def Let_def)
    ultimately show ?thesis using cs(1) Text by auto
  next
    case (Uri_Text s)
    then obtain cs where cs: "kept_text cs" "s = char_bytes (text_of cs)" "xs_base ?t = XS_ANY_URI"
      using assms(2) by (auto simp: kept_value_def)
    then have "list_all bmp_scalar cs" by (auto simp: kept_text_def text_char_def list_all_iff)
    then have "w' = add_out (escaped cs) w" using assms(1,3) Uri_Text cs output_escaped_text by (auto simp: output_value_def)
    moreover have "parse_value ?t (o_flag w) (text_of cs) old = Some (False, Some (Uri_Text s))" for old
      using cs by (auto simp: parse_value_def Let_def xs_defs)
    ultimately show ?thesis using cs(1) Uri_Text by auto
  next
    case (Flags f)
    let ?s = "if bit f (o_flag w) then ''true'' else ''false''"
    have "plain_text ?s" by (simp add: plain_text_def cv_def)
    moreover have "w' = add_out ?s w" using assms(1,2,3) Flags by (auto simp: output_value_def kept_value_def dest: output_string_ok)
    moreover have "\<forall>old. same_kind old v \<longrightarrow> parse_value ?t (o_flag w) ?s old = Some (False, Some (stored (o_flag w) old v))"
      using assms(2) Flags by (auto simp: parse_value_def Let_def kept_value_def same_kind_def xs_defs split: exi_value.splits)
    ultimately show ?thesis by (rule plain)
  next
    case (Bytes b)
    have "w' = add_out (hex_text (skip_zeros b)) w" using assms(1,2,3) Bytes by (auto simp: output_value_def kept_value_def output_hex_def Let_def split: if_splits)
    moreover have "\<forall>old. same_kind old v \<longrightarrow>
        parse_value ?t (o_flag w) (hex_text (skip_zeros b)) old = Some (False, Some (stored (o_flag w) old v))"
    proof -
      have "nat (xs_length ?t) = length b" "b \<noteq> []" "xs_base ?t = XS_HEX_BINARY" using assms(2) Bytes by (auto simp: kept_value_def)
      then show ?thesis using parse_hex_text [of b] Bytes
        by (auto simp: parse_value_def Let_def same_kind_def xs_defs split: exi_value.splits)
    qed
    ultimately show ?thesis using hex_text_plain plain by blast
  next
    case (Number x)
    have t: "number_type (xs_base ?t)" "pack_number (xs_base ?t) x = x" using assms(2) Number by (auto simp: kept_value_def)
    then have "xs_base ?t \<noteq> XS_STRING" "xs_base ?t \<noteq> XS_BOOLEAN" "xs_base ?t \<noteq> XS_HEX_BINARY" "xs_base ?t \<noteq> XS_ANY_URI"
      by (auto simp: number_type_def xs_defs)
    then have "\<forall>old. same_kind old v \<longrightarrow> parse_value ?t (o_flag w) (show_int x) old = Some (False, Some (stored (o_flag w) old v))"
      using read_number [OF t] t Number by (simp add: parse_value_def Let_def)
    moreover have "w' = add_out (show_int x) w" using assms(1,3) t Number by (auto simp: output_value_def dest: output_string_ok)
    ultimately show ?thesis using show_int_plain plain by blast
  qed
qed

subsection \<open>The scanner in the driver\<close>

definition break_text :: "'a xml_out_scheme \<Rightarrow> string" where
  "break_text w = (if o_first w then [] else CHR 0x0A # replicate (nat (o_indent w)) (CHR '' ''))"

lemma output_break_ok: "output_break s w = (v, True) \<Longrightarrow> v = add_out (break_text w @ s) w"
  by (auto simp: output_break_def break_text_def add_out_def split: if_splits prod.splits bool.splits dest!: output_string_ok)

lemma xml_loop_break:
  assumes "x_token p \<noteq> XML_TEXT"
  shows "xml_loop 0 (break_text w @ CHR ''<'' # s) p = xml_loop 2 s p"
proof -
  have sp: "ws (cv (CHR '' ''))" "ws (cv (CHR 0x0A))" "\<not> ws (cv (CHR ''<''))" by (simp_all add: ws_def cv_def)
  have "trim (replicate k (CHR '' '') @ CHR ''<'' # s) = CHR ''<'' # s" for k using sp by (induction k) simp_all
  then show ?thesis using sp by (simp add: break_text_def xml_loop_space xml_loop_tag_start)
qed

lemma escaped_first:
  assumes "kept_text (c # cs)"
  obtains b s where "escaped (c # cs) = b # s" "b \<noteq> CHR ''<''" "\<not> ws (cv b)"
proof -
  have c: "bmp_scalar c" "\<not> ws (uint c)" using assms by (auto simp: kept_text_def text_char_def)
  show thesis
  proof (cases "escape_char (uint c)")
    case (Some t)
    then have "esc c = t" by (simp add: esc_def)
    with Some show thesis using that [of "CHR ''&''" "tl (escaped (c # cs))"]
      by (cases rule: escape_char_cases) (simp_all add: ws_def cv_def)
  next
    case None
    obtain b s where e: "enc c = b # s" "unat c < 128 \<Longrightarrow> b = chr (unat c) \<and> s = []" "128 \<le> unat c \<Longrightarrow> cv b < 0"
      using enc_first [OF c(1)] by blast
    have "b \<noteq> CHR ''<'' \<and> \<not> ws (cv b)"
    proof (cases "unat c < 128")
      case True
      then have "cv b = uint c" using e(2) cv_chr [of "unat c"] by simp
      then show ?thesis using c(2) None by (auto simp: escape_char_def cv_def)
    next
      case False
      then show ?thesis using e(3) by (auto simp: ws_def cv_def)
    qed
    then show thesis using that e(1) None by (simp add: esc_def)
  qed
qed

lemma xml_loop_kept_text:
  assumes "kept_text cs" "cs \<noteq> []" "b \<noteq> CHR ''!''"
  shows "xml_loop 0 (escaped cs @ CHR ''<'' # b # s) p =
    Some (p\<lparr>x_content := text_of cs, x_state := 2, x_data := b # s, x_token := XML_NONE\<rparr>, XML_TEXT)"
proof -
  obtain c ds where cs: "cs = c # ds" using assms(2) by (cases cs) auto
  obtain d t where d: "escaped cs = d # t" "d \<noteq> CHR ''<''" "\<not> ws (cv d)" using escaped_first [of c ds] assms(1) cs by auto
  let ?p = "p\<lparr>x_content := [], x_token := XML_TEXT\<rparr>"
  have "xml_loop 0 (escaped cs @ CHR ''<'' # b # s) p = xml_loop 1 (escaped cs @ CHR ''<'' # b # s) ?p"
    using d by (simp add: xml_loop_text_start)
  also have "\<dots> = xml_loop 1 (CHR ''<'' # b # s) (?p\<lparr>x_content := x_content ?p @ text_of cs\<rparr>)"
    by (rule xml_loop_text) (use assms(1) in \<open>simp_all add: kept_text_def\<close>)
  also have "\<dots> = xml_loop 2 (b # s) (?p\<lparr>x_content := x_content ?p @ text_of cs\<rparr>)" by (rule xml_loop_tag_start)
  finally show ?thesis using xml_loop_text_end assms(3) by simp
qed

text \<open>A parser that scans next: \<open>scans p k s\<close> is that the token is read from state \<open>k\<close> and the data \<open>s\<close>.\<close>

definition scans :: "xml_in \<Rightarrow> nat \<Rightarrow> string \<Rightarrow> bool" where
  "scans p k s \<longleftrightarrow> r_need (q_driver p) \<and> x_state (r_xml (q_driver p)) = k \<and> x_data (r_xml (q_driver p)) = s \<and>
     x_token (r_xml (q_driver p)) \<noteq> XML_TEXT"

lemma parse_token_scans:
  "scans p k s \<Longrightarrow> xml_loop k s (r_xml (q_driver p)) = Some (x, t) \<Longrightarrow> t \<noteq> XML_INVALID \<Longrightarrow> t \<noteq> XML_INCOMPLETE \<Longrightarrow>
   parse_token p = Some (p\<lparr>q_driver := (q_driver p)\<lparr>r_xml := x, r_token := t, r_need := False\<rparr>\<rparr>, t)"
  by (simp add: scans_def parse_token_def xml_token_def upd_reader_def)

text \<open>A parser with the token \<open>t\<close> of name \<open>n\<close> read but not used, and the data \<open>s\<close> behind it.\<close>

definition cached :: "xml_in \<Rightarrow> token_type \<Rightarrow> string \<Rightarrow> string \<Rightarrow> bool" where
  "cached p t n s \<longleftrightarrow> \<not> r_need (q_driver p) \<and> r_token (q_driver p) = t \<and> x_name (r_xml (q_driver p)) = n \<and>
     x_token (r_xml (q_driver p)) = t \<and> x_state (r_xml (q_driver p)) = 0 \<and> x_data (r_xml (q_driver p)) = s"

text \<open>Only the driver changes, and neither the attributes nor whether the tag is empty.\<close>

definition keeps :: "xml_in \<Rightarrow> xml_in \<Rightarrow> bool" where
  "keeps p q \<longleftrightarrow> q = p\<lparr>q_driver := q_driver q\<rparr> \<and> r_empty (q_driver q) = r_empty (q_driver p) \<and>
     x_attr (r_xml (q_driver q)) = x_attr (r_xml (q_driver p))"

lemma keeps_fields:
  "keeps p q \<Longrightarrow> q_schema q = q_schema p \<and> q_se q = q_se p \<and> q_flag q = q_flag p \<and> q_state q = q_state p \<and> q_base q = q_base p \<and>
     q_stack q = q_stack p \<and> q_obj q = q_obj p \<and> q_type q = q_type p"
  by (cases p; cases q) (simp add: keeps_def)

lemma keeps_trans: "keeps p q \<Longrightarrow> keeps q r \<Longrightarrow> keeps p r"
  by (cases p; cases q; cases r) (simp add: keeps_def)

text \<open>The end tag of \<open>n\<close> comes next.\<close>

definition ends :: "xml_in \<Rightarrow> string \<Rightarrow> string \<Rightarrow> bool" where
  "ends p n s \<longleftrightarrow> scans p 2 (''/'' @ n @ ''>'' @ s) \<or> cached p END_TAG n s"

lemma parse_token_cached: "cached p t n s \<Longrightarrow> parse_token p = Some (p, t)"
  by (simp add: cached_def parse_token_def)

lemma start_tag_scans:
  assumes "scans p 0 (break_text w @ tag_open n @ ''>'' @ s)" "\<not> r_empty (q_driver p)" "plain_name n"
    "se_name i (q_schema p) = Some n" "element (q_schema p) i = Some se"
  shows "\<exists>q. start_tag i p = Some (q, True) \<and> scans q 0 s \<and> keeps p q"
proof -
  let ?x = "r_xml (q_driver p)"
  have t: "x_token ?x \<noteq> XML_TEXT" using assms(1) by (simp add: scans_def)
  then have "xml_loop 0 (break_text w @ tag_open n @ ''>'' @ s) ?x =
      Some (?x\<lparr>x_name := n, x_token := START_TAG, x_data := s, x_state := 0\<rparr>, START_TAG)"
    using xml_loop_break [OF t, of w "n @ ''>'' @ s"] xml_loop_plain_tag(1) [OF assms(3) t, of s] by (simp add: tag_open_def)
  from parse_token_scans [OF assms(1) this] assms show ?thesis
    by (simp add: start_tag_def scans_def need_token_def upd_reader_def Let_def keeps_def)
qed

lemma end_tag_ends:
  assumes "ends p n s" "plain_name n" "se_name i (q_schema p) = Some n" "\<not> r_empty (q_driver p)"
  shows "\<exists>q. xml_end i p = Some (q, True) \<and> scans q 0 s \<and> keeps p q"
proof -
  let ?x = "r_xml (q_driver p)"
  consider "scans p 2 (''/'' @ n @ ''>'' @ s)" | "cached p END_TAG n s" using assms(1) by (auto simp: ends_def)
  then show ?thesis
  proof cases
    case 1
    have "xml_loop 2 (''/'' @ n @ ''>'' @ s) ?x = Some (?x\<lparr>x_name := n, x_token := END_TAG, x_data := s, x_state := 0\<rparr>, END_TAG)"
      using xml_loop_plain_tag(2) [OF assms(2), of ?x s] 1 by (simp add: scans_def)
    from parse_token_scans [OF 1 this] 1 assms show ?thesis
      by (simp add: xml_end_def end_tag_def scans_def need_token_def upd_reader_def keeps_def)
  next
    case 2
    then show ?thesis using assms parse_token_cached [OF 2]
      by (simp add: xml_end_def end_tag_def scans_def need_token_def upd_reader_def keeps_def cached_def)
  qed
qed

lemma text_value_scans:
  assumes "scans p 0 (escaped cs @ tag_end n @ s)" "kept_text cs" "plain_name n" "element (q_schema p) (q_se p) = Some se"
    "parse_value (se_index se) (q_flag p) (text_of cs) old = Some (False, Some v)"
  shows "\<exists>q. parse_text_value old p = Some (q, Some v) \<and> ends q n s \<and> keeps p q"
proof -
  let ?x = "r_xml (q_driver p)"
  have p: "scans p 0 (escaped cs @ ''</'' @ n @ ''>'' @ s)" using assms(1) by (simp add: tag_end_def)
  show ?thesis
  proof (cases "cs = []")
    case True
    then have q: "scans p 0 (CHR ''<'' # ''/'' @ n @ ''>'' @ s)" using p by simp
    have "xml_loop 0 (CHR ''<'' # ''/'' @ n @ ''>'' @ s) ?x = Some (?x\<lparr>x_name := n, x_token := END_TAG, x_data := s, x_state := 0\<rparr>, END_TAG)"
      using xml_loop_tag_start(1) xml_loop_plain_tag(2) [OF assms(3), of ?x s] p by (simp add: scans_def)
    from parse_token_scans [OF q this] show ?thesis
      using assms(4,5) True
      by (simp add: parse_text_value_def parse_text_def parse_field_def upd_reader_def ends_def cached_def keeps_def)
  next
    case False
    have "xml_loop 0 (escaped cs @ ''</'' @ n @ ''>'' @ s) ?x =
        Some (?x\<lparr>x_content := text_of cs, x_state := 2, x_data := ''/'' @ n @ ''>'' @ s, x_token := XML_NONE\<rparr>, XML_TEXT)"
      using xml_loop_kept_text [OF assms(2) False, of "CHR ''/''" "n @ ''>'' @ s" ?x] by simp
    from parse_token_scans [OF p this] show ?thesis
      using assms(2,4,5) c_str_text
      by (auto simp: parse_text_value_def parse_text_def parse_field_def upd_reader_def need_token_def scans_def kept_text_def ends_def keeps_def)
  qed
qed

lemma closed_element_round_trip:
  fixes w :: "'a xml_out_scheme"
  assumes "element sc i = Some se" "se_simple se" "se_name i sc = Some n" "plain_name n"
    and "o_schema w = sc" "o_se w = i" "\<not> o_open w"
    and "kept_value (se_index se) v" "same_kind old v"
    and "output_event i SE_SIMPLE w = Some (w1, True)" "output_value v w1 = Some (w2, True)" "output_event i EE_EVENT w2 = Some (w3, True)"
    and "q_schema p = sc" "q_se p = i" "q_flag p = o_flag w" "\<not> r_empty (q_driver p)"
    and "scans p 0 (drop (length (o_text w)) (o_text w3) @ rest)"
  shows "\<exists>p1 p2 p3. start_tag i p = Some (p1, True) \<and> parse_text_value old p1 = Some (p2, Some (stored (o_flag w) old v)) \<and>
    xml_end i p2 = Some (p3, True) \<and> scans p3 0 rest"
proof -
  have w1: "w1 = add_out (break_text w @ tag_open n @ ''>'') w"
    using assms(1,3,5,7,10) by (auto simp: output_event_def close_open_def tag_open_def dest: output_break_ok)
  obtain cs where cs: "kept_text cs" "w2 = add_out (escaped cs) w1"
      "parse_value (se_index se) (o_flag w) (text_of cs) old = Some (False, Some (stored (o_flag w) old v))"
    using written_value [of w1 se v w2] assms(1,5,6,8,9,11) w1 by (auto simp: add_out_def)
  have w3: "w3 = add_out (tag_end n) w2"
    using assms(1,2,3,5,7,12) w1 cs(2) by (auto simp: output_event_def output_end_def add_out_def dest: output_string_ok)
  have "scans p 0 (break_text w @ tag_open n @ ''>'' @ escaped cs @ tag_end n @ rest)"
    using assms(17) w1 cs(2) w3 by (simp add: add_out_def)
  then obtain p1 where p1: "start_tag i p = Some (p1, True)" "scans p1 0 (escaped cs @ tag_end n @ rest)" "keeps p p1"
    using start_tag_scans [of p w n _ i se] assms(1,3,4,13,16) by auto
  then have f: "q_schema p1 = sc" "q_se p1 = i" "q_flag p1 = o_flag w" "\<not> r_empty (q_driver p1)"
    using keeps_fields [OF p1(3)] assms(13-16) by (auto simp: keeps_def)
  obtain p2 where p2: "parse_text_value old p1 = Some (p2, Some (stored (o_flag w) old v))" "ends p2 n rest" "keeps p1 p2"
    using text_value_scans [OF p1(2) cs(1) assms(4), of se old] f assms(1) cs(3) by auto
  obtain p3 where "xml_end i p2 = Some (p3, True)" "scans p3 0 rest"
    using end_tag_ends [OF p2(2) assms(4), of i] assms(3) keeps_fields [OF p2(3)] f p2(3) by (auto simp: keeps_def)
  then show ?thesis using p1(1) p2(1) by blast
qed

lemma close_open_event:
  assumes "output_event i SE_SIMPLE w = Some (w1, True)"
  obtains u where "\<not> o_open u" "o_text u = o_text w @ (if o_open w then ''>'' else [])" "o_schema u = o_schema w" "o_se u = o_se w"
    "o_flag u = o_flag w" "output_event i SE_SIMPLE u = Some (w1, True)"
proof -
  obtain u r where ur: "close_open w = (u, r)" by (cases "close_open w")
  then have u: "close_open w = (u, True)" using assms by (cases r) (auto simp: output_event_def bind_eq_Some_conv)
  have f: "\<not> o_open u" "o_text u = o_text w @ (if o_open w then ''>'' else [])" "o_schema u = o_schema w" "o_se u = o_se w" "o_flag u = o_flag w"
    using u by (auto simp: close_open_def output_char_def add_out_def split: if_splits)
  moreover have "close_open u = (u, True)" using f(1) by (simp add: close_open_def)
  then have "output_event i SE_SIMPLE u = output_event i SE_SIMPLE w" using u f(3) by (simp add: output_event_def)
  ultimately show thesis using that assms by metis
qed

text \<open>C25: An element of a simple type that is written as an XML element, wherever it stands, is read back by the
  parser: the start tag is found, the field gets what was written (a boolean that is true sets its bit, one that is
  false leaves it), the end tag is found, and the parser goes on with what follows. It holds for the values of
  \<open>kept_value\<close>: texts of characters up to U+FFFF that do not begin with white space and fit the field, numbers of
  every type, bytes of the length of the field. The character that ends an open tag before the element belongs to
  this tag.\<close>
theorem xml_element_round_trip:
  fixes w :: "'a xml_out_scheme"
  assumes "element sc i = Some se" "se_simple se" "se_name i sc = Some n" "plain_name n"
    and "o_schema w = sc" "o_se w = i"
    and "kept_value (se_index se) v" "same_kind old v"
    and "output_event i SE_SIMPLE w = Some (w1, True)" "output_value v w1 = Some (w2, True)" "output_event i EE_EVENT w2 = Some (w3, True)"
    and "q_schema p = sc" "q_se p = i" "q_flag p = o_flag w" "\<not> r_empty (q_driver p)"
    and "scans p 0 (drop (length (o_text w) + (if o_open w then 1 else 0)) (o_text w3) @ rest)"
  shows "\<exists>p1 p2 p3. start_tag i p = Some (p1, True) \<and> parse_text_value old p1 = Some (p2, Some (stored (o_flag w) old v)) \<and>
    xml_end i p2 = Some (p3, True) \<and> scans p3 0 rest"
proof -
  obtain u where u: "\<not> o_open u" "o_text u = o_text w @ (if o_open w then ''>'' else [])" "o_schema u = o_schema w" "o_se u = o_se w"
      "o_flag u = o_flag w" "output_event i SE_SIMPLE u = Some (w1, True)"
    using close_open_event [OF assms(9)] by blast
  have l: "length (o_text u) = length (o_text w) + (if o_open w then 1 else 0)" using u(2) by simp
  show ?thesis
    using closed_element_round_trip [OF assms(1-4), of u v old w1 w2 w3 p rest] assms(5-16) u(1,3-6) l by simp
qed

text \<open>A schema with a type \<open>Control\<close> that has the attribute \<open>href\<close> and the elements \<open>connect\<close>, \<open>power\<close> and \<open>label\<close>.\<close>

definition example_schema :: schema where
  "example_schema =
     \<lparr>namespace = ''urn:x'', schemaId = ''S1'', schema_length = 1,
      elements = [El 1 1 1 0 0 False False False, El 0 0 0 0 0 False False False,
        El XS_ANY_URI 0 1 5 0 True False False, El XS_BOOLEAN 0 1 4 0 False True False, El XS_INT 1 1 3 0 False True False,
        El (xs_type XS_STRING 8) 0 1 2 2 False True False, El 0 0 0 0 0 False False False],
      names = (\<lambda>i. if i = 0 then ''Control'' else if i = 1 then ''href'' else if i = 2 then ''connect'' else if i = 3 then ''power'' else ''label''),
      ids = [0, 1, 2, 3, 4, 0]\<rparr>"

theorem xml_element_round_trip_witness:
  "\<exists>p1 p2 p3. start_tag 4 ((parse_init example_schema ''<power>-5</power><x>'')\<lparr>q_se := 4\<rparr>) = Some (p1, True) \<and>
    parse_text_value (Number 0) p1 = Some (p2, Some (Number (- 5))) \<and> xml_end 4 p2 = Some (p3, True) \<and> scans p3 0 ''<x>''"
proof -
  let ?w = "(output_init example_schema 100)\<lparr>o_se := 4, o_first := True\<rparr>"
  let ?w1 = "add_out ''<power>'' ?w" let ?w2 = "add_out ''-5'' ?w1" let ?w3 = "add_out ''</power>'' ?w2"
  have e: "element example_schema 4 = Some (El XS_INT 1 1 3 0 False True False)" "se_name 4 example_schema = Some ''power''"
    by (simp_all add: element_def se_name_def example_schema_def)
  have k: "xs_base XS_INT = XS_INT" "number_type XS_INT" "pack_number XS_INT (- 5) = - 5" "plain_name ''power''" "show_int (- 5) = ''-5''"
    by code_simp+
  have o: "output_event 4 SE_SIMPLE ?w = Some (?w1, True)" "output_value (Number (- 5)) ?w1 = Some (?w2, True)"
      "output_event 4 EE_EVENT ?w2 = Some (?w3, True)"
    using e k by (simp_all add: output_event_def close_open_def output_break_def output_string_def output_value_def output_end_def
        add_out_def tag_end_def o_room_def output_init_def)
  from xml_element_round_trip [OF e(1) _ e(2) k(4), of ?w "Number (- 5)" "Number 0" ?w1 ?w2 ?w3
      "(parse_init example_schema ''<power>-5</power><x>'')\<lparr>q_se := 4\<rparr>" "''<x>''"]
  show ?thesis using o k by (simp add: kept_value_def same_kind_def scans_def parse_init_def add_out_def output_init_def)
qed

end
