(* ===== verification/Spec2Isabelle.thy ===== *)
theory Spec2Isabelle
  imports Client Completion Der List_Util Metering Se_Connection Se_Layout Security Xml_Parse
begin

text \<open>
  A client for IEEE 2030.5 (Smart Energy Profile): verification library for the C sources under core/.

  \<^bold>\<open>The program.\<close> The C client discovers the servers of a utility by multicast DNS, connects to them by TCP or TLS,
  retrieves resources over HTTP as XML or EXI documents, keeps them up to date, and schedules the DER controls that
  it finds for its devices. It is one translation unit: core/se_core.c, the platform layer and the client include the
  other files. It works on one thread: \<open>der_poll\<close> (der_client.c) takes the next timed event, or waits for the platform
  (linux/event.c), whose events lead to the discovery (\<open>client_poll\<close>) or to a connection (\<open>se_receive\<close>, \<open>process_http\<close>),
  and each layer returns to the one above with an event. The Python gateway under gateway/ runs the client as a process
  and reads the JSON lines it prints.

  \<^bold>\<open>How it is modelled.\<close> Structures are records, unions and enumerations datatypes, objects in linked lists cells of an
  explicit heap where a claim depends on the links (\<open>Linked_List\<close>, \<open>List_Util\<close>, \<open>Queues\<close>, \<open>Tcp\<close>, \<open>Retrieve\<close>) and HOL lists where it does
  not. Integers are words or integers with the conversion written out. \<open>None\<close> as the outermost result is undefined
  behaviour of the code: an access through NULL or outside a buffer, an overflow, or a loop that does not end
  (\<open>partial_function (option)\<close>). Errors that the code reports are inner values. What the code gets from the operating
  system, OpenSSL and the application (data that is read, the results of writes, the clock, random numbers, the files)
  are arguments; what it sends or calls is a log.

  \<^bold>\<open>The theories\<close>, with the files they model.

  Basis. \<open>Prelude\<close>: conversions of C integers, lists. \<open>C_Util\<close>: util.c. \<open>Linked_List\<close>, \<open>List_Util\<close>: list.c, list_util.c, every
  operation refined to HOL lists; and the quick sort. \<open>Queues\<close>: queue.c, with the contract of a
  queue as a locale. \<open>Event_Queue\<close>: event.c. \<open>Sparse_Group\<close>, \<open>Hash\<close>: hash.c; the table is a finite map (locale \<open>keyed_store\<close>)
  as long as it is not resized, the search returns exactly if it can. \<open>Utf8\<close>: utf8.c. \<open>Sha256\<close>: sha256.c and pack.c, against
  FIPS 180-4 with constants computed from the primes. \<open>Security\<close>: security.c. \<open>Address\<close>: address.c, bsd.c. \<open>Uri\<close>: uri.c, query.c.
  \<open>Named\<close>: named.c. \<open>Platform\<close>: file.c, linux/time.c, linux/interface.c.

  Data model. \<open>Se_Types\<close>: the structures that the modelled functions read or write. \<open>Schema\<close>, \<open>Se_Schema\<close>, \<open>Se_Names\<close>: schema.c and
  the table of se_schema.c, element by element with all names. \<open>Se_Structs_1\<close> to \<open>Se_Structs_4\<close>: all structures of se_types.h
  as data. \<open>Se_Layout\<close>: the offsets of the table, and the comparison of table and header. \<open>Se_Object\<close>: se_object.c, se_list.c,
  the order of the objects of a list.

  Documents. \<open>Parse\<close>, \<open>Output_Doc\<close>: the loops of parse.c and output.c over any driver. \<open>Xml_Token\<close>, \<open>Xml_Values\<close>, \<open>Xml_Output\<close>,
  \<open>Xml_Parse\<close>: the XML driver (xml_token.c, xml_output.c, xml_parse.c). \<open>Exi_Bits\<close>, \<open>Exi\<close>: the EXI driver (exi_output.c,
  exi_parse.c, string_table.c); the codecs of bits, bytes and integers are instances of one locale.

  Connections. \<open>Tcp\<close>: linux/tcp.c, timer.c, event.c, ports linked in two queues through one field. \<open>Tls\<close>: connection.c and
  openssl.c as a state machine, with the calls of OpenSSL as a log. \<open>Http_Parse\<close>, \<open>Http\<close>: http_parse.c, http.c. \<open>Se_Connection\<close>:
  se_connection.c, with the parser of documents as an argument.

  Discovery. \<open>Mdns\<close>, \<open>Dnssd\<close>, \<open>Discover\<close>: mdns.c, dnssd_client.c, se_discover.c. \<open>Client\<close>: client.c.

  Resources and schedules. \<open>Retrieve\<close>, \<open>Completion\<close>: retrieve.c, resource.c; the stubs of resources with their links, and
  what completion and removal keep. \<open>Schedule\<close>: schedule.c. \<open>Der\<close>: der.c, der_client.c, time.c. \<open>Metering\<close>: metering.c.

  \<^bold>\<open>What the theorems show.\<close> Invariants of linked structures, queues, schedules, services and connections under their
  operations; round trips of encoders and decoders (UTF-8, addresses, URIs, DNS names, EXI numbers, XML elements), with
  the values for which they fail; equivalences with specifications (FIPS 180-4, the rules of DNS names, a line by line
  reading of HTTP messages, an order of delivery); termination of the search of a hash table and of the propagation of
  completion; the safety of the calls of OpenSSL; the agreement of the schema table with the header. Where a statement
  needs an assumption that the code does not establish, the text above it says so and a lemma shows the case.

  \<^bold>\<open>Bounds and fuel.\<close> The constants are those of the code: 58 elements in a group, 32 nested elements (MAX_STACK), 14 names
  in a packet, 2048 bytes for a message (BUFFER_SIZE), names of at most 254 bytes. \<open>drain\<close>, which takes events until none
  is left, gets more turns than there are events. \<open>http_receive\<close> gets one turn for each byte received and two more, which is
  enough (\<open>receive_returns\<close>). \<open>dep_complete\<close> gets one turn more than there are stubs, enough when the dependents form no
  cycle. The loop of \<open>der_poll\<close> gets its number of turns as an argument, and what is
  shown of it holds for every number from two on.

  \<^bold>\<open>What is not modelled.\<close> System calls (opening of sockets, epoll, files, interfaces), the setup of OpenSSL and the check of
  certificates, printing for the console, the release of memory unless a claim is about it. The generators of the schema
  (schema_gen.c, c_gen.c, doc_gen.c, xml_tree.c), whose result is modelled. The executables client_test.c, with the callbacks
  that choose the resources to follow, and csip_test.c, and the gateway in Python.
\<close>

end
